(* ===== verification/Erp_Prelude.thy ===== *)
theory Erp_Prelude
  imports Complex_Main "HOL-Library.Multiset"
begin

text \<open>
  Shared vocabulary of the development: identifiers and their spellings, exact decimal
  amounts with the rounding of a PostgreSQL \<open>NUMERIC(p, s)\<close> column, results that are either
  an error or a value, loops that stop at the first error, and tables as lists of rows with
  the lemmas on single-row updates that every component uses.
\<close>

section \<open>Named collections\<close>

named_theorems result_simps \<open>inversion of successful computations\<close>
named_theorems store_defs \<open>definitions of the store accessors\<close>

section \<open>Identifiers\<close>

text \<open>
  A UUID is the 128-bit number it denotes. Python orders UUIDs by that number, and their
  canonical text (32 lower-case hexadecimal digits with four hyphens) has the same order.
\<close>

type_synonym uuid = nat

text \<open>
  Text that a caller hands to \<open>uuid.UUID(text)\<close>: the canonical spelling, another spelling the
  constructor accepts (upper case, no hyphens, braces, \<open>urn:uuid:\<close>), or text it rejects.
\<close>

datatype id_text = Canonical uuid | Spelled uuid string | Malformed string

fun parse_uuid :: "id_text \<Rightarrow> uuid option" where
  "parse_uuid (Canonical u) = Some u"
| "parse_uuid (Spelled u s) = Some u"
| "parse_uuid (Malformed s) = None"

text \<open>\<open>str(u)\<close> of a UUID object is its canonical spelling.\<close>

definition str_uuid :: "uuid \<Rightarrow> id_text" where
  "str_uuid u = Canonical u"

lemma parse_str_uuid [simp]: "parse_uuid (str_uuid u) = Some u"
  by (simp add: str_uuid_def)

section \<open>Decimal amounts\<close>

type_synonym money = rat

text \<open>A Python \<open>Decimal\<close> of a request: finite, or one of the special values.\<close>

datatype decimal = Finite money | NaN | PosInf | NegInf

text \<open>
  Writing \<open>x\<close> to a \<open>NUMERIC(p, k)\<close> column rounds to \<open>k\<close> decimal places, ties away from zero.
\<close>

definition numeric_scale :: "nat \<Rightarrow> rat \<Rightarrow> rat" where
  "numeric_scale k x =
     (if 0 \<le> x then of_int \<lfloor>x * 10 ^ k + 1 / 2\<rfloor> / 10 ^ k
      else - (of_int \<lfloor>(- x) * 10 ^ k + 1 / 2\<rfloor> / 10 ^ k))"

abbreviation num2 :: "rat \<Rightarrow> rat" where "num2 \<equiv> numeric_scale 2"
abbreviation num4 :: "rat \<Rightarrow> rat" where "num4 \<equiv> numeric_scale 4"

definition in_cents :: "rat \<Rightarrow> bool" where
  "in_cents x \<longleftrightarrow> num2 x = x"

lemma floor_half_int: "\<lfloor>(of_int n :: rat) + 1 / 2\<rfloor> = n"
  by (rule floor_unique) auto

lemma numeric_scale_grid: "numeric_scale k (of_int n / 10 ^ k) = of_int n / 10 ^ k"
proof (cases "0 \<le> n")
  case True
  then show ?thesis
    by (simp add: numeric_scale_def floor_half_int)
next
  case False
  then have neg: "\<not> (0::rat) \<le> of_int n / 10 ^ k"
    by (simp add: zero_le_divide_iff not_le)
  have "(- (of_int n / 10 ^ k)) * 10 ^ k + 1 / 2 = (of_int (- n) :: rat) + 1 / 2"
    by simp
  then have "\<lfloor>(- (of_int n / 10 ^ k)) * 10 ^ k + (1 / 2 :: rat)\<rfloor> = - n"
    by (simp only: floor_half_int)
  with neg show ?thesis
    unfolding numeric_scale_def by simp
qed

lemma numeric_scale_is_grid: "\<exists>n. numeric_scale k x = of_int n / 10 ^ k"
proof (cases "0 \<le> x")
  case True
  then show ?thesis by (auto simp: numeric_scale_def)
next
  case False
  then have "numeric_scale k x = of_int (- \<lfloor>(- x) * 10 ^ k + 1 / 2\<rfloor>) / 10 ^ k"
    by (simp add: numeric_scale_def)
  then show ?thesis by blast
qed

lemma numeric_scale_idem [simp]: "numeric_scale k (numeric_scale k x) = numeric_scale k x"
proof -
  obtain n where "numeric_scale k x = of_int n / 10 ^ k"
    using numeric_scale_is_grid by blast
  then show ?thesis by (simp add: numeric_scale_grid)
qed

lemma numeric_scale_zero [simp]: "numeric_scale k 0 = 0"
  using numeric_scale_grid [of k 0] by simp

lemma numeric_scale_minus [simp]: "numeric_scale k (- x) = - numeric_scale k x"
proof (cases x "0 :: rat" rule: linorder_cases)
  case equal
  then show ?thesis by simp
qed (simp_all add: numeric_scale_def)

lemma numeric_scale_nonneg: "0 \<le> x \<Longrightarrow> 0 \<le> numeric_scale k x"
  by (auto simp: numeric_scale_def intro!: divide_nonneg_nonneg)

lemma in_cents_iff: "in_cents x \<longleftrightarrow> (\<exists>n. x = of_int n / 100)"
proof
  assume "in_cents x"
  then have "num2 x = x" by (simp add: in_cents_def)
  moreover obtain n where "num2 x = of_int n / 10 ^ 2"
    using numeric_scale_is_grid by blast
  ultimately have "x = of_int n / 100" by simp
  then show "\<exists>n. x = of_int n / 100" by blast
next
  assume "\<exists>n. x = of_int n / 100"
  then obtain n where x: "x = of_int n / 10 ^ 2" by auto
  show "in_cents x" unfolding in_cents_def x by (rule numeric_scale_grid)
qed

lemma in_cents_num2 [simp]: "in_cents (num2 x)"
  by (simp add: in_cents_def)

lemma num2_cents: "in_cents x \<Longrightarrow> num2 x = x"
  by (simp add: in_cents_def)

lemma in_cents_zero [simp]: "in_cents 0"
  by (simp add: in_cents_def)

lemma in_cents_add: "in_cents x \<Longrightarrow> in_cents y \<Longrightarrow> in_cents (x + y)"
  unfolding in_cents_iff by (metis add_divide_distrib of_int_add)

lemma in_cents_minus: "in_cents x \<Longrightarrow> in_cents (- x)"
  by (simp add: in_cents_def)

lemma in_cents_diff: "in_cents x \<Longrightarrow> in_cents y \<Longrightarrow> in_cents (x - y)"
  using in_cents_add [of x "- y"] in_cents_minus by simp

lemma in_cents_of_int [simp]: "in_cents (of_int n)"
  unfolding in_cents_iff by (rule exI [of _ "n * 100"]) simp

lemma in_cents_numeral [simp]:
  "in_cents 1" "in_cents (numeral n)" "in_cents (- 1)" "in_cents (- numeral n)"
  using in_cents_of_int [of 1] in_cents_of_int [of "numeral n"] in_cents_of_int [of "- 1"]
    in_cents_of_int [of "- numeral n"] by simp_all

lemma num2_numeral [simp]:
  "num2 1 = 1" "num2 (numeral n) = numeral n" "num2 (- numeral n) = - numeral n"
  by (rule num2_cents, simp)+

lemma in_cents_sum_list: "(\<And>x. x \<in> set xs \<Longrightarrow> in_cents (f x)) \<Longrightarrow> in_cents (\<Sum>x\<leftarrow>xs. f x)"
  by (induction xs) (auto intro: in_cents_add)

lemma num4_cents: assumes "in_cents x" shows "num4 x = x"
proof -
  from assms obtain n where "x = of_int n / 100" by (auto simp: in_cents_iff)
  then have x: "x = of_int (n * 100) / 10 ^ 4" by simp
  show ?thesis unfolding x by (rule numeric_scale_grid)
qed

section \<open>Computations that may fail\<close>

definition bindE :: "'e + 'a \<Rightarrow> ('a \<Rightarrow> 'e + 'b) \<Rightarrow> 'e + 'b" where
  "bindE m f = (case m of Inl e \<Rightarrow> Inl e | Inr x \<Rightarrow> f x)"

definition ensure :: "bool \<Rightarrow> 'e \<Rightarrow> 'e + unit" where
  "ensure b e = (if b then Inr () else Inl e)"

lemma bindE_simps [simp]:
  "bindE (Inl e) f = Inl e"
  "bindE (Inr x) f = f x"
  by (simp_all add: bindE_def)

lemma ensure_simps [simp]:
  "b \<Longrightarrow> ensure b e = Inr ()"
  "\<not> b \<Longrightarrow> ensure b e = Inl e"
  by (simp_all add: ensure_def)

lemma bindE_Inr [result_simps]: "bindE m f = Inr y \<longleftrightarrow> (\<exists>x. m = Inr x \<and> f x = Inr y)"
  by (cases m) auto

lemma bindE_Inl: "bindE m f = Inl e \<longleftrightarrow> m = Inl e \<or> (\<exists>x. m = Inr x \<and> f x = Inl e)"
  by (cases m) auto

lemma ensure_Inr [result_simps]: "ensure b e = Inr u \<longleftrightarrow> b"
  by (simp add: ensure_def)

lemma ensure_Inl: "ensure b e = Inl e' \<longleftrightarrow> \<not> b \<and> e' = e"
  by (auto simp: ensure_def)

lemma if_Inr [result_simps]:
  "(if b then Inl e else m) = Inr y \<longleftrightarrow> \<not> b \<and> m = Inr y"
  "(if b then m else Inl e) = Inr y \<longleftrightarrow> b \<and> m = Inr y"
  by auto

text \<open>A \<open>for\<close> loop over a list whose body changes a state and may raise.\<close>

fun foldE :: "('a \<Rightarrow> 's \<Rightarrow> 'e + 's) \<Rightarrow> 'a list \<Rightarrow> 's \<Rightarrow> 'e + 's" where
  "foldE f [] s = Inr s"
| "foldE f (x # xs) s = bindE (f x s) (foldE f xs)"

lemma foldE_invariant:
  assumes "foldE f xs s = Inr s'" and "P s"
    and "\<And>x t t'. x \<in> set xs \<Longrightarrow> P t \<Longrightarrow> f x t = Inr t' \<Longrightarrow> P t'"
  shows "P s'"
  using assms
proof (induction xs arbitrary: s)
  case Nil
  then show ?case by simp
next
  case (Cons x xs)
  then show ?case by (auto simp: result_simps)
qed

section \<open>Tables as lists of rows\<close>

text \<open>
  A table is the list of its rows in insertion order. \<open>row_find\<close> is a select by a unique key,
  \<open>row_put\<close> writes the row with that key back.
\<close>

definition row_find :: "('r \<Rightarrow> 'k) \<Rightarrow> 'k \<Rightarrow> 'r list \<Rightarrow> 'r option" where
  "row_find key k rows = find (\<lambda>r. key r = k) rows"

definition row_put :: "('r \<Rightarrow> 'k) \<Rightarrow> 'r \<Rightarrow> 'r list \<Rightarrow> 'r list" where
  "row_put key r rows = map (\<lambda>x. if key x = key r then r else x) rows"

lemma row_find_Some: "row_find key k rows = Some r \<Longrightarrow> r \<in> set rows \<and> key r = k"
  by (auto simp: row_find_def find_Some_iff)

lemma row_find_unique:
  "distinct (map key rows) \<Longrightarrow> r \<in> set rows \<Longrightarrow> row_find key (key r) rows = Some r"
  by (induction rows) (auto simp: row_find_def)

lemma row_put_simps [simp]:
  "row_put key r [] = []"
  "row_put key r (x # xs) = (if key x = key r then r else x) # row_put key r xs"
  by (simp_all add: row_put_def)

lemma map_key_row_put [simp]: "map key (row_put key r rows) = map key rows"
  by (induction rows) auto

lemma row_put_absent: "key r \<notin> key ` set rows \<Longrightarrow> row_put key r rows = rows"
  by (induction rows) auto

lemma row_find_put:
  "row_find key k (row_put key r rows) =
     (if k = key r then map_option (\<lambda>_. r) (row_find key k rows) else row_find key k rows)"
  by (induction rows) (auto simp: row_find_def)

lemma set_row_put: "x \<in> set (row_put key r rows) \<Longrightarrow> x = r \<or> (x \<in> set rows \<and> key x \<noteq> key r)"
  by (induction rows) (auto split: if_splits)

lemma sum_list_row_put:
  assumes "distinct (map key rows)" and "old \<in> set rows" and "key old = key r"
  shows "(\<Sum>x\<leftarrow>row_put key r rows. f x) = (\<Sum>x\<leftarrow>rows. f x) - f old + (f r :: 'b :: ab_group_add)"
  using assms
proof (induction rows)
  case Nil
  then show ?case by simp
next
  case (Cons x xs)
  show ?case
  proof (cases "key x = key r")
    case True
    with Cons.prems have "key r \<notin> key ` set xs" by auto
    then have "row_put key r xs = xs" by (rule row_put_absent)
    moreover have "old = x"
      using True Cons.prems by (auto simp: rev_image_eqI)
    ultimately show ?thesis using True by simp
  next
    case False
    with Cons show ?thesis by auto
  qed
qed

lemma sum_list_filter_if: "(\<Sum>x\<leftarrow>filter P xs. f x) = (\<Sum>x\<leftarrow>xs. if P x then f x else (0 :: 'b :: comm_monoid_add))"
  by (induction xs) auto

lemma sum_list_cong': "(\<And>x. x \<in> set xs \<Longrightarrow> f x = g x) \<Longrightarrow> (\<Sum>x\<leftarrow>xs. f x) = (\<Sum>x\<leftarrow>xs. g x)"
  by (rule arg_cong [of _ _ sum_list]) (rule map_cong, simp_all)

lemma sum_list_nonneg': "(\<And>x. x \<in> set xs \<Longrightarrow> 0 \<le> f x) \<Longrightarrow> 0 \<le> (\<Sum>x\<leftarrow>xs. f x :: rat)"
  by (induction xs) auto

end
