(* ===== verification/Order_State.thy ===== *)
theory Order_State
  imports Erp_Prelude
begin

text \<open>
  The order lifecycle of \<open>backend/core/domain/order_state.py\<close>: the state enum, the transition
  matrix and the three queries on it. The lemmas show that the matrix is a finite acyclic
  graph, so an order changes state a bounded number of times and ends in a terminal state.
\<close>

section \<open>States and the transition matrix\<close>

datatype order_state = DRAFT | CONFIRMED | PARTIALLY_PAID | PAID | FULFILLED | CANCELLED | VOIDED | RETURNED

fun state_value :: "order_state \<Rightarrow> string" where
  "state_value DRAFT = ''draft''"
| "state_value CONFIRMED = ''confirmed''"
| "state_value PARTIALLY_PAID = ''partially_paid''"
| "state_value PAID = ''paid''"
| "state_value FULFILLED = ''fulfilled''"
| "state_value CANCELLED = ''cancelled''"
| "state_value VOIDED = ''voided''"
| "state_value RETURNED = ''returned''"

fun state_transition_matrix :: "order_state \<Rightarrow> order_state set" where
  "state_transition_matrix DRAFT = {CONFIRMED, CANCELLED, VOIDED}"
| "state_transition_matrix CONFIRMED = {PAID, PARTIALLY_PAID, CANCELLED}"
| "state_transition_matrix PARTIALLY_PAID = {PAID, CANCELLED}"
| "state_transition_matrix PAID = {FULFILLED, CANCELLED}"
| "state_transition_matrix FULFILLED = {RETURNED}"
| "state_transition_matrix RETURNED = {}"
| "state_transition_matrix CANCELLED = {}"
| "state_transition_matrix VOIDED = {}"

definition is_valid_transition :: "order_state \<Rightarrow> order_state \<Rightarrow> bool" where
  "is_valid_transition from_state to_state \<longleftrightarrow> to_state \<in> state_transition_matrix from_state"

definition get_valid_transitions :: "order_state \<Rightarrow> order_state set" where
  "get_valid_transitions from_state = state_transition_matrix from_state"

definition is_terminal_state :: "order_state \<Rightarrow> bool" where
  "is_terminal_state s \<longleftrightarrow> card (state_transition_matrix s) = 0"

section \<open>The graph of legal transitions\<close>

lemma valid_transition_cases [simp]:
  "is_valid_transition DRAFT t \<longleftrightarrow> t = CONFIRMED \<or> t = CANCELLED \<or> t = VOIDED"
  "is_valid_transition CONFIRMED t \<longleftrightarrow> t = PAID \<or> t = PARTIALLY_PAID \<or> t = CANCELLED"
  "is_valid_transition PARTIALLY_PAID t \<longleftrightarrow> t = PAID \<or> t = CANCELLED"
  "is_valid_transition PAID t \<longleftrightarrow> t = FULFILLED \<or> t = CANCELLED"
  "is_valid_transition FULFILLED t \<longleftrightarrow> t = RETURNED"
  "is_valid_transition RETURNED t \<longleftrightarrow> False"
  "is_valid_transition CANCELLED t \<longleftrightarrow> False"
  "is_valid_transition VOIDED t \<longleftrightarrow> False"
  by (simp_all add: is_valid_transition_def)

lemma valid_transition_to [simp]:
  "is_valid_transition s CONFIRMED \<longleftrightarrow> s = DRAFT"
  "is_valid_transition s VOIDED \<longleftrightarrow> s = DRAFT"
  "is_valid_transition s PARTIALLY_PAID \<longleftrightarrow> s = CONFIRMED"
  "is_valid_transition s PAID \<longleftrightarrow> s = CONFIRMED \<or> s = PARTIALLY_PAID"
  "is_valid_transition s FULFILLED \<longleftrightarrow> s = PAID"
  "is_valid_transition s RETURNED \<longleftrightarrow> s = FULFILLED"
  "is_valid_transition s CANCELLED \<longleftrightarrow> s = DRAFT \<or> s = CONFIRMED \<or> s = PARTIALLY_PAID \<or> s = PAID"
  "\<not> is_valid_transition s DRAFT"
  by (cases s; simp)+

lemma is_terminal_cases [simp]:
  "is_terminal_state s \<longleftrightarrow> s = RETURNED \<or> s = CANCELLED \<or> s = VOIDED"
  by (cases s) (simp_all add: is_terminal_state_def)

text \<open>How far along the lifecycle a state is; every legal transition moves strictly forward.\<close>

fun lifecycle_rank :: "order_state \<Rightarrow> nat" where
  "lifecycle_rank DRAFT = 0"
| "lifecycle_rank CONFIRMED = 1"
| "lifecycle_rank PARTIALLY_PAID = 2"
| "lifecycle_rank PAID = 3"
| "lifecycle_rank FULFILLED = 4"
| "lifecycle_rank RETURNED = 5"
| "lifecycle_rank CANCELLED = 5"
| "lifecycle_rank VOIDED = 5"

lemma valid_transition_rank: "is_valid_transition s t \<Longrightarrow> lifecycle_rank s < lifecycle_rank t"
  by (cases s) auto

text \<open>A history is the list of states an order passes through, each a legal step from the last.\<close>

inductive state_history :: "order_state \<Rightarrow> order_state list \<Rightarrow> bool" where
  history_nil: "state_history s []"
| history_step: "is_valid_transition s t \<Longrightarrow> state_history t ts \<Longrightarrow> state_history s (t # ts)"

inductive_cases history_consE: "state_history s (t # ts)"
inductive_simps history_simps: "state_history s []" "state_history s (t # ts)"

lemma history_rank: "state_history s ts \<Longrightarrow> lifecycle_rank s + length ts \<le> 5"
proof (induction rule: state_history.induct)
  case (history_nil s)
  show ?case by (cases s) simp_all
next
  case (history_step s t ts)
  then show ?case using valid_transition_rank [of s t] by simp
qed

lemma history_increasing: "state_history s ts \<Longrightarrow> \<forall>t \<in> set ts. lifecycle_rank s < lifecycle_rank t"
proof (induction rule: state_history.induct)
  case (history_nil s)
  then show ?case by simp
next
  case (history_step s t ts)
  then show ?case using valid_transition_rank [of s t] by fastforce
qed

text \<open>
  Every history of legal transitions is finite and free of repetition: an order changes
  state at most five times, never visits a state twice and never returns to its start, and the
  states without a successor are exactly the ones \<open>is_terminal_state\<close> reports.
\<close>

theorem lifecycle_terminates:
  assumes "state_history s ts"
  shows "length ts \<le> 5 \<and> distinct (s # ts) \<and>
    (is_terminal_state (last (s # ts)) \<longleftrightarrow> (\<nexists>t. state_history s (ts @ [t])))"
proof -
  have snoc: "state_history s (us @ [t]) \<longleftrightarrow>
      state_history s us \<and> is_valid_transition (last (s # us)) t" for s us t
    by (induction us arbitrary: s) (auto simp: history_simps)
  have "distinct (s # ts)"
    using assms
  proof (induction rule: state_history.induct)
    case (history_nil s)
    then show ?case by simp
  next
    case (history_step s t ts)
    have "state_history s (t # ts)"
      using history_step.hyps by (rule state_history.history_step)
    then have "\<forall>u \<in> set (t # ts). lifecycle_rank s < lifecycle_rank u"
      by (rule history_increasing)
    with history_step.IH show ?case by auto
  qed
  moreover have "is_terminal_state (last (s # ts)) \<longleftrightarrow> (\<nexists>t. state_history s (ts @ [t]))"
    unfolding snoc using assms by (cases "last (s # ts)") auto
  ultimately show ?thesis using history_rank [OF assms] by simp
qed

theorem lifecycle_terminates_witness:
  "state_history DRAFT [CONFIRMED, PARTIALLY_PAID, PAID, FULFILLED, RETURNED] \<and>
   distinct [DRAFT, CONFIRMED, PARTIALLY_PAID, PAID, FULFILLED, RETURNED]"
proof -
  have h: "state_history DRAFT [CONFIRMED, PARTIALLY_PAID, PAID, FULFILLED, RETURNED]"
    by (simp add: history_simps)
  show ?thesis using h lifecycle_terminates [OF h] by simp
qed

end
