(* ===== verification/Tenant_Store.thy ===== *)
theory Tenant_Store
  imports Order_State
begin

text \<open>
  The tables of one tenant schema (and the public binding table) that the order-to-cash code
  reads and writes, as one record of lists of rows; the errors the services raise; and the
  lemmas on reading and writing single rows. Rows carry the columns the services use; clock
  columns (\<open>created_at\<close> and the like) and comments are left out.

  Money and stock columns are \<open>NUMERIC(12, 2)\<close> and are exact, so adding or subtracting column
  values needs no rounding. Where a \<open>Decimal\<close> of a request meets such a column, the operation
  that writes it rounds with \<open>num2\<close>. A \<open>SELECT ... FOR UPDATE\<close> reads the current row: one
  operation runs inside one transaction that holds the row locks it took.
\<close>

section \<open>Errors\<close>

datatype error_code =
    ORDER_NOT_FOUND | CONFIRM_ACTOR_REQUIRED | ORDER_ITEM_SELLABLE_ID_REQUIRED
  | ORDER_ITEM_IDENTITY_MISMATCH | INSUFFICIENT_AVAILABLE_STOCK | RESERVATION_AGGREGATE_MISMATCH
  | CREDIT_HOLD_MISMATCH | BINDING_NOT_FOUND | REFUND_WORKFLOW_NOT_IMPLEMENTED
  | SKU_NOT_FOUND | STOCK_NOT_FOUND | SELLABLE_UNIT_UNAVAILABLE | DUPLICATE_RESERVATION
  | INVALID_RESERVATION_QUANTITY | INSUFFICIENT_STOCK | RESERVATION_QUANTITY_MISMATCH
  | RESERVATION_SELLABLE_ID_MISMATCH | NEGATIVE_STOCK | INVALID_RESTOCK_QUANTITY
  | INVALID_PAYMENT_AMOUNT | IDEMPOTENCY_KEY_CONFLICT | DUPLICATE_TRANSFER_REFERENCE
  | DECLARATION_CONFIRMATION_KEY_CONFLICT | ORDER_ALREADY_PAID | PAYMENT_EXCEEDS_REMAINING
  | INVALID_STATE_TRANSITION | DUPLICATE_CREDIT_PAYMENT | CREDIT_SPLIT_TENDER_UNSUPPORTED
  | CREDIT_AMOUNT_MISMATCH | PAYMENT_HISTORY_INTEGRITY | RECEIVABLE_BALANCE_UNDERFLOW
  | BINDINGNOTFOUND | INVALID_PAYMENT_ID | PAYMENT_NOT_FOUND | INVALID_ORDER_ID
  | MISSING_IDEMPOTENCY_KEY | IDEMPOTENCY_CONFLICT | INVALID_IDEMPOTENCY_KEY
  | RESERVED_IDEMPOTENCY_KEY | PAYMENT_METHOD_REQUIRED | INVALID_PAYMENT_METHOD
  | PAYMENT_NOTES_UNSUPPORTED | PAYMENT_BODY_REQUIRED | PAYMENT_AMOUNT_REQUIRED
  | INVALID_DECLARED_AMOUNT | DECLARATION_METHOD_INVALID | DECLARATION_TRANSFER_REFERENCE_REQUIRED
  | DECLARATION_TRANSFER_REFERENCE_TOO_LONG | DECLARATION_IDEMPOTENCY_KEY_CONFLICT
  | DECLARATION_NOT_FOUND | DECLARATION_NOT_PENDING
  | DECLARATION_AMOUNT_REQUIRED | MISSING_DECLARATION_IDEMPOTENCY_KEY | INVALID_DECLARATION_IDEMPOTENCY_KEY
  | INVALID_REJECTION_REASON | CANCEL_NOT_ALLOWED
  | RETAILER_NOT_BOUND | ORDER_VALIDATION_FAILED
  | SKU_EXISTS | PRODUCT_NOT_FOUND | SELLABLE_UNIT_NOT_FOUND | PRICE_DATA_INTEGRITY_RED
  | SKU_PACKAGE_QUANTITY_IMMUTABLE_AFTER_USE | SKU_PACKAGE_QUANTITY_REPRICE_REQUIRED | VALIDATION_ERROR
  | PERMISSION_DENIED | RECEIPT_NOT_AVAILABLE | STATEMENT_NOT_AVAILABLE | INVALID_DATE_RANGE | STATEMENT_RANGE_TOO_LARGE
  | STATEMENT_LEDGER_SCOPE_INCOMPLETE | STATEMENT_INTERNAL_INCONSISTENT | STATEMENT_RECONCILIATION_FAILED

text \<open>
  \<open>Http\<close> is an \<open>HTTPException\<close> with its status and \<open>detail.code\<close>; \<open>Mutation\<close> is the wrapper
  \<open>CanonicalPaymentMutationHttpError\<close> around one; \<open>IntegrityError\<close> names the violated database
  constraint, \<open>DataError\<close> the column a value is too long for.
\<close>

datatype error =
    Http nat error_code
  | InvalidStateTransition order_state order_state
  | OrderInvariantViolation string
  | LedgerIntegrityError
  | IntegrityError string
  | DataError string
  | InventoryShortageError string money money
  | Mutation nat error_code
  | RuntimeError string
  | ValueError string
  | KeyError
  | AttributeError
  | OverflowError

definition conflict :: "error_code \<Rightarrow> error" where
  "conflict code = Http 409 code"

section \<open>Rows\<close>

datatype identity_status = Legacy | Linked_Legacy | Stable

record item_row =
  i_id :: uuid
  i_sellable_unit :: "uuid option"
  i_identity :: identity_status
  i_product_name :: string
  i_sku_code :: string
  i_unit_snapshot :: "string option"
  i_quantity :: int
  i_unit_price :: money
  i_subtotal :: money

record order_row =
  o_id :: uuid
  o_wholesaler :: uuid
  o_retailer :: uuid
  o_status :: order_state
  o_total :: money
  o_notes :: "string option"
  o_items :: "item_row list"
  o_deleted :: bool
  o_created_by :: "uuid option"
  o_updated_by :: "uuid option"

record catalog_row =
  c_id :: uuid
  c_name :: string
  c_description :: "string option"
  c_category :: "string option"
  c_active :: bool
  c_deleted :: bool

record sku_row =
  k_id :: uuid
  k_catalog :: uuid
  k_code :: string
  k_name :: string
  k_description :: "string option"
  k_category :: "string option"
  k_unit :: string
  k_package :: rat
  k_active :: bool
  k_deleted :: bool

record stock_row =
  s_sku :: uuid
  s_on_hand :: money
  s_reserved :: money
  s_deleted :: bool

datatype reservation_status = Reserved | Consumed | Released

record reservation_row =
  v_id :: uuid
  v_order :: uuid
  v_item :: uuid
  v_sku :: uuid
  v_code :: string
  v_quantity :: money
  v_status :: reservation_status
  v_deleted :: bool

datatype movement_type = Adjustment | Deduction | Restock

record movement_row =
  m_sku :: uuid
  m_type :: movement_type
  m_quantity :: money
  m_before :: money
  m_after :: money
  m_reference_type :: string
  m_reference :: "uuid option"
  m_created_by :: "uuid option"

datatype hold_status = Active | Hold_Released | Settled | Converted

record hold_row =
  h_id :: uuid
  h_order :: uuid
  h_amount :: money
  h_remaining :: money
  h_status :: hold_status
  h_created_by :: "uuid option"
  h_updated_by :: "uuid option"

datatype binding_status = Binding_Active | Binding_Inactive

record binding_row =
  b_wholesaler :: uuid
  b_retailer :: uuid
  b_status :: binding_status
  b_balance :: money
  b_deleted :: bool

datatype account_type = RECEIVABLE | REVENUE | CASH | LIABILITY

record ledger_row =
  l_id :: uuid
  l_account :: account_type
  l_amount :: money
  l_reference_type :: string
  l_reference :: uuid
  l_date :: nat

datatype pay_method = Cash | Transfer | Credit | Other_Method string
datatype pay_status = Pending | Completed | Other_Status string

record payment_row =
  p_id :: uuid
  p_order :: uuid
  p_retailer :: uuid
  p_transaction :: "string option"
  p_key :: "string option"
  p_amount :: money
  p_method :: pay_method
  p_status :: pay_status
  p_receipt :: "string option"
  p_created_by :: "uuid option"
  p_deleted :: bool

datatype declaration_status = Decl_Pending | Decl_Confirmed | Decl_Rejected

record declaration_row =
  d_id :: uuid
  d_order :: uuid
  d_retailer :: uuid
  d_wholesaler :: uuid
  d_amount :: money
  d_method :: pay_method
  d_transfer_reference :: "string option"
  d_status :: declaration_status
  d_key :: string
  d_submitted_by :: uuid
  d_submitted_at :: nat
  d_confirmed_by :: "uuid option"
  d_payment :: "uuid option"
  d_rejected_by :: "uuid option"
  d_reason :: "string option"

record price_row =
  x_sku :: uuid
  x_retailer :: uuid
  x_price :: money
  x_deleted :: bool

section \<open>The store\<close>

text \<open>
  \<open>t_uuids\<close> is the random supply of \<open>gen_random_uuid()\<close> and \<open>uuid4()\<close>, of which the first
  \<open>t_drawn\<close> values have been used; \<open>t_now\<close> is what the clock reads,
  \<open>t_business_date\<close> its UTC date as eight digits;
  \<open>t_collation\<close> is the database's collation, as the sort key of a string in \<open>ORDER BY\<close>.
\<close>

record store =
  t_orders :: "order_row list"
  t_catalog :: "catalog_row list"
  t_skus :: "sku_row list"
  t_stocks :: "stock_row list"
  t_reservations :: "reservation_row list"
  t_movements :: "movement_row list"
  t_holds :: "hold_row list"
  t_bindings :: "binding_row list"
  t_ledger :: "ledger_row list"
  t_payments :: "payment_row list"
  t_receipts :: "string \<rightharpoonup> nat"
  t_declarations :: "declaration_row list"
  t_prices :: "price_row list"
  t_uuids :: "nat \<Rightarrow> uuid"
  t_drawn :: nat
  t_now :: nat
  t_business_date :: string
  t_collation :: "string \<Rightarrow> nat list"

definition draw_uuid :: "store \<Rightarrow> uuid \<times> store" where
  "draw_uuid db = (t_uuids db (t_drawn db), db\<lparr>t_drawn := Suc (t_drawn db)\<rparr>)"

definition put_order :: "order_row \<Rightarrow> store \<Rightarrow> store" where
  "put_order ord db = db\<lparr>t_orders := row_put o_id ord (t_orders db)\<rparr>"

definition put_stock :: "stock_row \<Rightarrow> store \<Rightarrow> store" where
  "put_stock s db = db\<lparr>t_stocks := row_put s_sku s (t_stocks db)\<rparr>"

definition put_hold :: "hold_row \<Rightarrow> store \<Rightarrow> store" where
  "put_hold h db = db\<lparr>t_holds := row_put h_order h (t_holds db)\<rparr>"

definition live_order :: "store \<Rightarrow> uuid \<Rightarrow> order_row option" where
  "live_order db oid = find (\<lambda>ord. o_id ord = oid \<and> \<not> o_deleted ord) (t_orders db)"

definition order_holds :: "store \<Rightarrow> uuid \<Rightarrow> hold_row list" where
  "order_holds db oid = filter (\<lambda>h. h_order h = oid) (t_holds db)"

text \<open>
  The unique constraints of the schema: primary keys, one stock row per SKU, one hold per order,
  one binding per (wholesaler, retailer).
\<close>

definition store_keys :: "store \<Rightarrow> bool" where
  "store_keys db \<longleftrightarrow>
     distinct (map o_id (t_orders db)) \<and>
     distinct (map s_sku (t_stocks db)) \<and>
     distinct (map h_order (t_holds db)) \<and>
     distinct (map (\<lambda>b. (b_wholesaler b, b_retailer b)) (t_bindings db))"

section \<open>Lemmas on rows\<close>

lemma live_order_Some:
  "live_order db oid = Some ord \<Longrightarrow> ord \<in> set (t_orders db) \<and> o_id ord = oid \<and> \<not> o_deleted ord"
  by (auto simp: live_order_def find_Some_iff)

lemma live_order_unique:
  assumes "distinct (map o_id (t_orders db))" and "ord \<in> set (t_orders db)" and "\<not> o_deleted ord"
  shows "live_order db (o_id ord) = Some ord"
proof -
  have "distinct (map o_id rows) \<Longrightarrow> ord \<in> set rows \<Longrightarrow>
      find (\<lambda>r. o_id r = o_id ord \<and> \<not> o_deleted r) rows = Some ord" for rows
    using assms(3) by (induction rows) (auto simp: rev_image_eqI)
  with assms show ?thesis by (simp add: live_order_def)
qed

lemma order_holds_cases:
  assumes "distinct (map h_order (t_holds db))"
  shows "order_holds db oid = [] \<or> (\<exists>h. order_holds db oid = [h] \<and> h \<in> set (t_holds db) \<and> h_order h = oid)"
proof -
  have "distinct (map h_order rows) \<Longrightarrow> length (filter (\<lambda>h. h_order h = oid) rows) \<le> 1" for rows
    by (induction rows) (auto simp: filter_empty_conv rev_image_eqI)
  with assms have len: "length (order_holds db oid) \<le> 1" by (simp add: order_holds_def)
  show ?thesis
  proof (cases "order_holds db oid")
    case Nil
    then show ?thesis by simp
  next
    case (Cons h hs)
    with len have eq: "order_holds db oid = [h]" by simp
    then have "h \<in> set (order_holds db oid)" by simp
    then have "h \<in> set (t_holds db) \<and> h_order h = oid" by (simp add: order_holds_def)
    with eq show ?thesis by blast
  qed
qed

lemma order_holds_put:
  "order_holds (put_hold h db) oid =
     (if oid = h_order h then map (\<lambda>_. h) (order_holds db oid) else order_holds db oid)"
proof -
  have "filter (\<lambda>x. h_order x = oid) (row_put h_order h rows) =
     (if oid = h_order h then map (\<lambda>_. h) (filter (\<lambda>x. h_order x = oid) rows)
      else filter (\<lambda>x. h_order x = oid) rows)" for rows
    by (induction rows) auto
  then show ?thesis by (simp add: order_holds_def put_hold_def)
qed

lemma put_order_frame [simp]:
  "t_stocks (put_order ord db) = t_stocks db" "t_reservations (put_order ord db) = t_reservations db"
  "t_movements (put_order ord db) = t_movements db" "t_holds (put_order ord db) = t_holds db"
  "t_bindings (put_order ord db) = t_bindings db" "t_ledger (put_order ord db) = t_ledger db"
  "t_payments (put_order ord db) = t_payments db" "t_skus (put_order ord db) = t_skus db"
  "t_catalog (put_order ord db) = t_catalog db" "t_declarations (put_order ord db) = t_declarations db"
  "t_receipts (put_order ord db) = t_receipts db" "t_prices (put_order ord db) = t_prices db"
  "t_orders (put_order ord db) = row_put o_id ord (t_orders db)"
  "t_uuids (put_order ord db) = t_uuids db" "t_drawn (put_order ord db) = t_drawn db" "t_now (put_order ord db) = t_now db"
  by (simp_all add: put_order_def)

lemma put_stock_frame [simp]:
  "t_orders (put_stock s db) = t_orders db" "t_reservations (put_stock s db) = t_reservations db"
  "t_movements (put_stock s db) = t_movements db" "t_holds (put_stock s db) = t_holds db"
  "t_bindings (put_stock s db) = t_bindings db" "t_ledger (put_stock s db) = t_ledger db"
  "t_payments (put_stock s db) = t_payments db" "t_skus (put_stock s db) = t_skus db"
  "t_catalog (put_stock s db) = t_catalog db" "t_declarations (put_stock s db) = t_declarations db"
  "t_receipts (put_stock s db) = t_receipts db" "t_prices (put_stock s db) = t_prices db"
  "t_stocks (put_stock s db) = row_put s_sku s (t_stocks db)"
  "t_uuids (put_stock s db) = t_uuids db" "t_drawn (put_stock s db) = t_drawn db" "t_now (put_stock s db) = t_now db"
  by (simp_all add: put_stock_def)

lemma put_hold_frame [simp]:
  "t_orders (put_hold h db) = t_orders db" "t_reservations (put_hold h db) = t_reservations db"
  "t_movements (put_hold h db) = t_movements db" "t_stocks (put_hold h db) = t_stocks db"
  "t_bindings (put_hold h db) = t_bindings db" "t_ledger (put_hold h db) = t_ledger db"
  "t_payments (put_hold h db) = t_payments db" "t_skus (put_hold h db) = t_skus db"
  "t_catalog (put_hold h db) = t_catalog db" "t_declarations (put_hold h db) = t_declarations db"
  "t_receipts (put_hold h db) = t_receipts db" "t_prices (put_hold h db) = t_prices db"
  "t_holds (put_hold h db) = row_put h_order h (t_holds db)"
  "t_uuids (put_hold h db) = t_uuids db" "t_drawn (put_hold h db) = t_drawn db" "t_now (put_hold h db) = t_now db"
  by (simp_all add: put_hold_def)

section \<open>A sample store\<close>

text \<open>
  One draft order of two units at 50.00 for a bound retailer, with ten units on hand. The concrete
  instances below it are what the non-vacuity lemmas of the development evaluate.
\<close>

definition sample_item :: item_row where
  "sample_item = \<lparr>i_id = 11, i_sellable_unit = Some 21, i_identity = Stable, i_product_name = ''maize'',
     i_sku_code = ''MZ-1'', i_unit_snapshot = Some ''bag'', i_quantity = 2, i_unit_price = 50, i_subtotal = 100\<rparr>"

definition sample_order :: order_row where
  "sample_order = \<lparr>o_id = 1, o_wholesaler = 7, o_retailer = 8, o_status = DRAFT, o_total = 100,
     o_notes = None, o_items = [sample_item], o_deleted = False, o_created_by = None, o_updated_by = None\<rparr>"

definition sample_store :: store where
  "sample_store = \<lparr>t_orders = [sample_order],
     t_catalog = [\<lparr>c_id = 31, c_name = ''maize'', c_description = None, c_category = None, c_active = True, c_deleted = False\<rparr>],
     t_skus = [\<lparr>k_id = 21, k_catalog = 31, k_code = ''MZ-1'', k_name = ''maize'',
       k_description = None, k_category = None, k_unit = ''bag'', k_package = 1, k_active = True, k_deleted = False\<rparr>],
     t_stocks = [\<lparr>s_sku = 21, s_on_hand = 10, s_reserved = 0, s_deleted = False\<rparr>],
     t_reservations = [], t_movements = [], t_holds = [],
     t_bindings = [\<lparr>b_wholesaler = 7, b_retailer = 8, b_status = Binding_Active, b_balance = 0, b_deleted = False\<rparr>],
     t_ledger = [], t_payments = [], t_receipts = (\<lambda>_. None), t_declarations = [],
     t_prices = [\<lparr>x_sku = 21, x_retailer = 8, x_price = 50, x_deleted = False\<rparr>],
     t_uuids = (\<lambda>n. 1000 + n), t_drawn = 0, t_now = 5, t_business_date = ''20260101'',
     t_collation = map of_char\<rparr>"

lemmas sample_defs = sample_item_def sample_order_def sample_store_def

end
