(* ===== verification/Ledger.thy ===== *)
theory Ledger
  imports Tenant_Store
begin

text \<open>
  The posting engine of \<open>backend/services/ledger_service.py\<close>: single entries, balanced
  transactions, the three business postings and the balance read model. The lemmas show that
  posting only appends, that every posting of the order code keeps the books balanced, and what
  each posting does to each account.
\<close>

section \<open>Posting\<close>

type_synonym entry_data = "account_type \<times> money"

definition post_entry ::
  "account_type \<Rightarrow> money \<Rightarrow> string \<Rightarrow> uuid \<Rightarrow> nat option \<Rightarrow> store \<Rightarrow> ledger_row \<times> store" where
  "post_entry account amount ref_type ref transaction_date db =
     (let (eid, db1) = draw_uuid db;
          entry = \<lparr>l_id = eid, l_account = account, l_amount = num4 amount,
                   l_reference_type = ref_type, l_reference = ref,
                   l_date = (case transaction_date of Some d \<Rightarrow> d | None \<Rightarrow> t_now db)\<rparr>
      in (entry, db1\<lparr>t_ledger := t_ledger db1 @ [entry]\<rparr>))"

fun post_entries ::
  "entry_data list \<Rightarrow> string \<Rightarrow> uuid \<Rightarrow> nat option \<Rightarrow> store \<Rightarrow> ledger_row list \<times> store" where
  "post_entries [] ref_type ref date db = ([], db)"
| "post_entries (e # es) ref_type ref date db =
     (let (entry, db1) = post_entry (fst e) (snd e) ref_type ref date db;
          (posted, db2) = post_entries es ref_type ref date db1
      in (entry # posted, db2))"

definition post_transaction ::
  "entry_data list \<Rightarrow> string \<Rightarrow> uuid \<Rightarrow> nat option \<Rightarrow> store \<Rightarrow> error + (ledger_row list \<times> store)" where
  "post_transaction entries ref_type ref date db =
     (let total = (\<Sum>e\<leftarrow>entries. snd e)
      in if total \<noteq> 0 then Inl LedgerIntegrityError
         else Inr (post_entries entries ref_type ref date db))"

definition post_order_confirmation :: "uuid \<Rightarrow> money \<Rightarrow> store \<Rightarrow> error + (ledger_row list \<times> store)" where
  "post_order_confirmation oid amount db =
     post_transaction [(RECEIVABLE, amount), (REVENUE, - amount)] ''order'' oid None db"

definition post_payment_received :: "uuid \<Rightarrow> money \<Rightarrow> store \<Rightarrow> error + (ledger_row list \<times> store)" where
  "post_payment_received oid amount db =
     post_transaction [(CASH, amount), (RECEIVABLE, - amount)] ''order'' oid None db"

definition post_order_return :: "uuid \<Rightarrow> money \<Rightarrow> store \<Rightarrow> error + (ledger_row list \<times> store)" where
  "post_order_return oid amount db =
     post_transaction [(REVENUE, amount), (CASH, - amount)] ''refund'' oid None db"

section \<open>Read models\<close>

definition get_balance :: "store \<Rightarrow> account_type \<Rightarrow> nat option \<Rightarrow> money" where
  "get_balance db account as_of =
     (\<Sum>l\<leftarrow>filter (\<lambda>l. l_account l = account \<and>
         (case as_of of None \<Rightarrow> True | Some d \<Rightarrow> l_date l \<le> d)) (t_ledger db). l_amount l)"

definition get_entries_for_reference :: "store \<Rightarrow> string \<Rightarrow> uuid \<Rightarrow> ledger_row list" where
  "get_entries_for_reference db ref_type ref =
     sort_key l_date (filter (\<lambda>l. l_reference_type l = ref_type \<and> l_reference l = ref) (t_ledger db))"

section \<open>Books that balance\<close>

definition ledger_total :: "store \<Rightarrow> money" where
  "ledger_total db = (\<Sum>l\<leftarrow>t_ledger db. l_amount l)"

lemma post_entry_eq:
  "post_entry a x rt r d db = (entry, db') \<longleftrightarrow>
     entry = \<lparr>l_id = t_uuids db (t_drawn db), l_account = a, l_amount = num4 x, l_reference_type = rt,
              l_reference = r, l_date = (case d of Some d' \<Rightarrow> d' | None \<Rightarrow> t_now db)\<rparr> \<and>
     db' = db\<lparr>t_drawn := Suc (t_drawn db), t_ledger := t_ledger db @ [entry]\<rparr>"
  by (auto simp: post_entry_def draw_uuid_def Let_def)

text \<open>What posting leaves alone: everything but the ledger, the id supply and the entries it adds.\<close>

lemma post_entries_effect:
  "post_entries es rt r d db = (posted, db') \<Longrightarrow>
     db' = db\<lparr>t_drawn := t_drawn db + length es, t_ledger := t_ledger db @ posted\<rparr> \<and>
     map (\<lambda>l. (l_account l, l_amount l)) posted = map (\<lambda>(a, x). (a, num4 x)) es \<and>
     (\<forall>l \<in> set posted. l_reference_type l = rt \<and> l_reference l = r)"
proof (induction es arbitrary: db posted db')
  case Nil
  then show ?case by simp
next
  case (Cons e es)
  obtain entry db1 where e: "post_entry (fst e) (snd e) rt r d db = (entry, db1)"
    by fastforce
  obtain rest db2 where es: "post_entries es rt r d db1 = (rest, db2)"
    by fastforce
  from Cons.prems e es have "posted = entry # rest" and "db' = db2" by simp_all
  with Cons.IH [OF es] e show ?case
    by (auto simp: post_entry_eq split: prod.splits)
qed

lemma post_transaction_two:
  assumes "post_transaction [(a, x), (b, - x)] rt r d db = Inr (posted, db')"
  shows "\<exists>e1 e2. posted = [e1, e2] \<and>
     db' = db\<lparr>t_drawn := t_drawn db + 2, t_ledger := t_ledger db @ [e1, e2]\<rparr> \<and>
     l_account e1 = a \<and> l_amount e1 = num4 x \<and> l_account e2 = b \<and> l_amount e2 = - num4 x \<and>
     l_reference e1 = r \<and> l_reference e2 = r \<and> l_reference_type e1 = rt \<and> l_reference_type e2 = rt"
proof -
  from assms have "post_entries [(a, x), (b, - x)] rt r d db = (posted, db')"
    by (simp add: post_transaction_def)
  from post_entries_effect [OF this] show ?thesis
    by (auto simp: map_eq_Cons_conv)
qed

lemma post_transaction_two_ok: "\<exists>posted db'. post_transaction [(a, x), (b, - x)] rt r d db = Inr (posted, db')"
  by (auto simp: post_transaction_def split: prod.splits simp del: post_entries.simps)

lemma post_transaction_two_total:
  "post_transaction [(a, x), (b, - x)] rt r d db = Inr (posted, db') \<Longrightarrow> ledger_total db' = ledger_total db"
  by (drule post_transaction_two) (auto simp: ledger_total_def)

lemmas posting_defs = post_order_confirmation_def post_payment_received_def post_order_return_def

lemma posting_total [simp]:
  "post_order_confirmation oid x db = Inr (p, db') \<Longrightarrow> ledger_total db' = ledger_total db"
  "post_payment_received oid x db = Inr (p, db') \<Longrightarrow> ledger_total db' = ledger_total db"
  "post_order_return oid x db = Inr (p, db') \<Longrightarrow> ledger_total db' = ledger_total db"
  unfolding posting_defs by (rule post_transaction_two_total, assumption)+

lemma post_payment_received_ok: "\<exists>p db'. post_payment_received oid x db = Inr (p, db')"
  unfolding posting_defs by (rule post_transaction_two_ok)

lemma post_order_return_ok: "\<exists>p db'. post_order_return oid x db = Inr (p, db')"
  unfolding posting_defs by (rule post_transaction_two_ok)

lemma posting_frame:
  assumes "post_transaction [(a, x), (b, - x)] rt r d db = Inr (p, db')"
  shows "t_orders db' = t_orders db" "t_stocks db' = t_stocks db" "t_reservations db' = t_reservations db"
    "t_movements db' = t_movements db" "t_holds db' = t_holds db" "t_bindings db' = t_bindings db"
    "t_payments db' = t_payments db" "t_skus db' = t_skus db" "t_catalog db' = t_catalog db"
    "t_receipts db' = t_receipts db" "t_declarations db' = t_declarations db"
  using post_transaction_two [OF assms] by auto

lemmas payment_received_frame = posting_frame [where a = CASH and b = RECEIVABLE and rt = "''order''" and d = None,
    folded post_payment_received_def]
lemmas order_return_frame = posting_frame [where a = REVENUE and b = CASH and rt = "''refund''" and d = None,
    folded post_order_return_def]

section \<open>Properties\<close>

text \<open>
  A transaction is posted exactly when its amounts cancel; then the ledger is extended, never
  rewritten, by one entry per line in order, and otherwise nothing is posted.
\<close>

theorem post_transaction_spec:
  "(case post_transaction entries rt r d db of
      Inl e \<Rightarrow> (\<Sum>x\<leftarrow>entries. snd x) \<noteq> 0 \<and> e = LedgerIntegrityError
    | Inr (posted, db') \<Rightarrow> (\<Sum>x\<leftarrow>entries. snd x) = 0 \<and> t_ledger db' = t_ledger db @ posted \<and>
        map (\<lambda>l. (l_account l, l_amount l, l_reference l)) posted = map (\<lambda>(a, x). (a, num4 x, r)) entries \<and>
        t_orders db' = t_orders db \<and> t_payments db' = t_payments db \<and> t_bindings db' = t_bindings db)"
proof (cases "(\<Sum>x\<leftarrow>entries. snd x) = 0")
  case True
  obtain posted db' where p: "post_entries entries rt r d db = (posted, db')"
    by fastforce
  have eff: "map (\<lambda>l. (l_account l, l_amount l)) posted = map (\<lambda>(a, x). (a, num4 x)) entries"
    and ref: "\<forall>l \<in> set posted. l_reference l = r"
    and db': "db' = db\<lparr>t_drawn := t_drawn db + length entries, t_ledger := t_ledger db @ posted\<rparr>"
    using post_entries_effect [OF p] by auto
  have "map (\<lambda>l. (l_account l, l_amount l, l_reference l)) posted =
      map (\<lambda>(a, x). (a, x, r)) (map (\<lambda>l. (l_account l, l_amount l)) posted)"
    using ref by simp
  then have "map (\<lambda>l. (l_account l, l_amount l, l_reference l)) posted = map (\<lambda>(a, x). (a, num4 x, r)) entries"
    unfolding eff by (simp add: comp_def split_def)
  with True p db' show ?thesis by (simp add: post_transaction_def)
next
  case False
  then show ?thesis by (simp add: post_transaction_def)
qed

end
