(* ===== verification/Inventory.thy ===== *)
theory Inventory
  imports Ledger "HOL-Library.List_Lexorder" "HOL-Library.Product_Lexorder"
begin

text \<open>
  Stock, reservations and the movement journal: \<open>backend/services/inventory_service.py\<close> and
  \<open>backend/repositories/inventory_repository.py\<close>. A stock row holds the quantity on hand and the
  part of it that is reserved; a reservation row records which order item reserves how much; every
  change of the quantity on hand by an order or an adjustment writes a movement.
\<close>

section \<open>Repository: looking up SKUs and stock rows\<close>

definition find_stock :: "store \<Rightarrow> uuid \<Rightarrow> stock_row option" where
  "find_stock db sku = find (\<lambda>s. s_sku s = sku \<and> \<not> s_deleted s) (t_stocks db)"

definition get_stock_by_sku_code_repo :: "store \<Rightarrow> string \<Rightarrow> (sku_row \<times> stock_row option) option" where
  "get_stock_by_sku_code_repo db code =
     (case find (\<lambda>k. k_code k = code \<and> \<not> k_deleted k) (t_skus db) of
        None \<Rightarrow> None
      | Some k \<Rightarrow> Some (k, find_stock db (k_id k)))"

definition get_stock_by_sku_id_repo :: "store \<Rightarrow> uuid \<Rightarrow> (sku_row \<times> stock_row option) option" where
  "get_stock_by_sku_id_repo db sku =
     (case find (\<lambda>k. k_id k = sku \<and> \<not> k_deleted k) (t_skus db) of
        None \<Rightarrow> None
      | Some k \<Rightarrow> Some (k, find_stock db (k_id k)))"

text \<open>
  The insert can violate the unique index on \<open>sku_id\<close> (a soft-deleted row still occupies it) and
  the foreign key to \<open>skus\<close>.
\<close>

definition ensure_stock_row :: "uuid \<Rightarrow> store \<Rightarrow> error + (stock_row \<times> store)" where
  "ensure_stock_row sku db =
     (case find_stock db sku of
        Some s \<Rightarrow> Inr (s, db)
      | None \<Rightarrow>
          if sku \<notin> set (map k_id (t_skus db)) then Inl (IntegrityError ''inventory_stocks_sku_id_fkey'')
          else if sku \<in> set (map s_sku (t_stocks db)) then Inl (IntegrityError ''ux_inventory_stocks_sku_id'')
          else
            (let s = \<lparr>s_sku = sku, s_on_hand = 0, s_reserved = 0, s_deleted = False\<rparr>
             in Inr (s, db\<lparr>t_stocks := t_stocks db @ [s]\<rparr>)))"

definition list_stock_paginated ::
  "store \<Rightarrow> nat \<Rightarrow> nat \<Rightarrow> string option \<Rightarrow> bool option \<Rightarrow> (sku_row \<times> stock_row option) list \<times> nat" where
  "list_stock_paginated db page per_page code active =
     (let hits = filter (\<lambda>k. \<not> k_deleted k
                    \<and> (case code of None \<Rightarrow> True | Some c \<Rightarrow> c = '''' \<or> k_code k = c)
                    \<and> (case active of None \<Rightarrow> True | Some a \<Rightarrow> k_active k = a)) (t_skus db);
          rows = map (\<lambda>k. (k, find_stock db (k_id k))) (sort_key (\<lambda>k. t_collation db (k_code k)) hits)
      in (take per_page (drop ((page - 1) * per_page) rows), length hits))"

definition list_sellable_identities_for_order :: "store \<Rightarrow> uuid \<Rightarrow> (uuid option \<times> string) list" where
  "list_sellable_identities_for_order db oid =
     (case row_find o_id oid (t_orders db) of
        None \<Rightarrow> []
      | Some ord \<Rightarrow> map (\<lambda>i. (i_sellable_unit i, i_sku_code i)) (o_items ord))"

section \<open>Locked stock rows\<close>

definition available :: "money \<Rightarrow> money \<Rightarrow> money" where
  "available on_hand reserved = on_hand - reserved"

definition locked_stock_by_sku_code :: "string \<Rightarrow> bool \<Rightarrow> store \<Rightarrow> error + ((sku_row \<times> stock_row) \<times> store)" where
  "locked_stock_by_sku_code code create_if_missing db =
     (case get_stock_by_sku_code_repo db code of
        None \<Rightarrow> Inl (Http 404 SKU_NOT_FOUND)
      | Some (k, stock) \<Rightarrow>
          bindE (case stock of
                   Some s \<Rightarrow> Inr (s, db)
                 | None \<Rightarrow> if \<not> create_if_missing then Inl (Http 409 STOCK_NOT_FOUND)
                           else ensure_stock_row (k_id k) db)
            (\<lambda>(s, db1). case find_stock db1 (s_sku s) of
                None \<Rightarrow> Inl (Http 409 STOCK_NOT_FOUND)
              | Some s' \<Rightarrow> Inr ((k, s'), db1)))"

text \<open>
  The stock row joined with its SKU and the SKU's catalog product; the SKU must carry the given
  code, and with \<open>require_active\<close> both must be active and not deleted.
\<close>

definition sellable :: "store \<Rightarrow> uuid \<Rightarrow> string \<Rightarrow> bool \<Rightarrow> bool" where
  "sellable db sku code require_active \<longleftrightarrow>
     (\<exists>k \<in> set (t_skus db). \<exists>c \<in> set (t_catalog db).
        k_id k = sku \<and> c_id c = k_catalog k \<and> k_code k = code \<and>
        (require_active \<longrightarrow> k_active k \<and> \<not> k_deleted k \<and> c_active c \<and> \<not> c_deleted c))"

definition locked_stock_by_sku_id :: "store \<Rightarrow> uuid \<Rightarrow> string \<Rightarrow> bool \<Rightarrow> error + stock_row" where
  "locked_stock_by_sku_id db sku code require_active =
     (case find_stock db sku of
        None \<Rightarrow> Inl (Http 409 SELLABLE_UNIT_UNAVAILABLE)
      | Some s \<Rightarrow> if sellable db sku code require_active then Inr s
                  else Inl (Http 409 SELLABLE_UNIT_UNAVAILABLE))"

section \<open>Reserving and releasing\<close>

definition insert_reservation :: "order_row \<Rightarrow> item_row \<Rightarrow> uuid \<Rightarrow> money \<Rightarrow> store \<Rightarrow> store" where
  "insert_reservation ord item sku quantity db =
     (let (rid, db1) = draw_uuid db;
          v = \<lparr>v_id = rid, v_order = o_id ord, v_item = i_id item, v_sku = sku,
               v_code = i_sku_code item, v_quantity = quantity, v_status = Reserved, v_deleted = False\<rparr>
      in db1\<lparr>t_reservations := t_reservations db1 @ [v]\<rparr>)"

text \<open>
  The flush of new reservation rows: \<open>quantity > 0\<close> and at most one active reservation per order
  item are enforced by the table.
\<close>

definition flush_reservations :: "store \<Rightarrow> error + store" where
  "flush_reservations db =
     (if \<not> (\<forall>v \<in> set (t_reservations db). 0 < v_quantity v)
      then Inl (IntegrityError ''ck_inventory_reservations_quantity_positive'')
      else if \<not> distinct (map v_item (filter (\<lambda>v. v_status v = Reserved) (t_reservations db)))
      then Inl (IntegrityError ''ux_inventory_reservations_active_order_item'')
      else Inr db)"

definition code_points :: "string \<Rightarrow> nat list" where
  "code_points s = map of_char s"

definition reserve_one_on_confirm :: "order_row \<Rightarrow> item_row \<Rightarrow> store \<Rightarrow> error + store" where
  "reserve_one_on_confirm ord item db =
     (case i_sellable_unit item of
        None \<Rightarrow> Inl (Http 409 ORDER_ITEM_SELLABLE_ID_REQUIRED)
      | Some sku \<Rightarrow>
          (let quantity = of_int (i_quantity item) in
           if quantity \<le> 0 then Inl (Http 409 INVALID_RESERVATION_QUANTITY)
           else bindE (locked_stock_by_sku_id db sku (i_sku_code item) True) (\<lambda>s.
             if available (s_on_hand s) (s_reserved s) < quantity
             then Inl (Http 409 INSUFFICIENT_AVAILABLE_STOCK)
             else Inr (put_stock (s\<lparr>s_reserved := s_reserved s + quantity\<rparr>)
                        (insert_reservation ord item sku quantity db)))))"

definition reserve_on_confirm :: "order_row \<Rightarrow> store \<Rightarrow> error + store" where
  "reserve_on_confirm ord db =
     (if \<exists>v \<in> set (t_reservations db). v_order v = o_id ord \<and> v_status v = Reserved
      then Inl (Http 409 DUPLICATE_RESERVATION)
      else bindE (foldE (reserve_one_on_confirm ord)
                    (sort_key (\<lambda>i. (code_points (i_sku_code i), i_id i)) (o_items ord)) db)
             flush_reservations)"

text \<open>The order's own active reservations, in the order of the release query.\<close>

definition active_reservations :: "store \<Rightarrow> uuid \<Rightarrow> reservation_row list" where
  "active_reservations db oid =
     sort_key (\<lambda>v. (t_collation db (v_code v), v_id v))
       (filter (\<lambda>v. v_order v = oid \<and> v_status v = Reserved \<and> \<not> v_deleted v) (t_reservations db))"

definition set_reservation :: "reservation_status \<Rightarrow> reservation_row \<Rightarrow> store \<Rightarrow> store" where
  "set_reservation st v db =
     db\<lparr>t_reservations := row_put v_id (v\<lparr>v_status := st\<rparr>) (t_reservations db)\<rparr>"

definition release_one_on_cancel :: "reservation_row \<Rightarrow> store \<Rightarrow> error + store" where
  "release_one_on_cancel v db =
     bindE (locked_stock_by_sku_id db (v_sku v) (v_code v) False) (\<lambda>s.
       if s_reserved s < v_quantity v then Inl (Http 409 RESERVATION_AGGREGATE_MISMATCH)
       else Inr (set_reservation Released v
                  (put_stock (s\<lparr>s_reserved := s_reserved s - v_quantity v\<rparr>) db)))"

definition release_on_cancel :: "order_row \<Rightarrow> store \<Rightarrow> error + (reservation_row list \<times> store)" where
  "release_on_cancel ord db =
     (let rows = active_reservations db (o_id ord)
      in bindE (foldE release_one_on_cancel rows db)
           (\<lambda>db'. Inr (map (\<lambda>v. v\<lparr>v_status := Released\<rparr>) rows, db')))"

section \<open>Reading stock\<close>

definition get_stock_by_sku_code :: "string \<Rightarrow> store \<Rightarrow> error + ((sku_row \<times> stock_row) \<times> store)" where
  "get_stock_by_sku_code code db =
     (case get_stock_by_sku_code_repo db code of
        None \<Rightarrow> Inl (Http 404 SKU_NOT_FOUND)
      | Some (k, Some s) \<Rightarrow> Inr ((k, s), db)
      | Some (k, None) \<Rightarrow> bindE (ensure_stock_row (k_id k) db) (\<lambda>(s, db'). Inr ((k, s), db')))"

fun normalize_stock_rows ::
  "(sku_row \<times> stock_row option) list \<Rightarrow> store \<Rightarrow> error + ((sku_row \<times> stock_row) list \<times> store)" where
  "normalize_stock_rows [] db = Inr ([], db)"
| "normalize_stock_rows ((k, stock) # rows) db =
     bindE (case stock of Some s \<Rightarrow> Inr (s, db) | None \<Rightarrow> ensure_stock_row (k_id k) db) (\<lambda>(s, db1).
     bindE (normalize_stock_rows rows db1) (\<lambda>(rest, db2). Inr ((k, s) # rest, db2)))"

definition list_stock ::
  "nat \<Rightarrow> nat \<Rightarrow> string option \<Rightarrow> bool option \<Rightarrow> store \<Rightarrow> error + (((sku_row \<times> stock_row) list \<times> nat) \<times> store)" where
  "list_stock page per_page code active db =
     (let (rows, total) = list_stock_paginated db page per_page code active
      in bindE (normalize_stock_rows rows db) (\<lambda>(items, db'). Inr ((items, total), db')))"

fun stock_view_items :: "uuid list \<Rightarrow> store \<Rightarrow> error + ((sku_row \<times> stock_row) list \<times> store)" where
  "stock_view_items [] db = Inr ([], db)"
| "stock_view_items (sku # skus) db =
     (case get_stock_by_sku_id_repo db sku of
        None \<Rightarrow> Inl (Http 404 SKU_NOT_FOUND)
      | Some (k, stock) \<Rightarrow>
          bindE (case stock of Some s \<Rightarrow> Inr (s, db) | None \<Rightarrow> ensure_stock_row sku db) (\<lambda>(s, db1).
          bindE (stock_view_items skus db1) (\<lambda>(rest, db2). Inr ((k, s) # rest, db2))))"

definition stock_view_for_order :: "id_text \<Rightarrow> store \<Rightarrow> error + ((sku_row \<times> stock_row) list \<times> store)" where
  "stock_view_for_order order_id db =
     (case parse_uuid order_id of
        None \<Rightarrow> Inl (Http 400 INVALID_ORDER_ID)
      | Some oid \<Rightarrow>
          (let identities = list_sellable_identities_for_order db oid
           in if \<exists>(unit_id, _) \<in> set identities. unit_id = None
              then Inl (Http 409 ORDER_ITEM_SELLABLE_ID_REQUIRED)
              else stock_view_items (sort (remdups (map (the \<circ> fst) identities))) db))"

section \<open>Changing stock\<close>

definition deduct_stock :: "uuid \<Rightarrow> money \<Rightarrow> string \<Rightarrow> store \<Rightarrow> error + store" where
  "deduct_stock sku quantity code db =
     bindE (case find_stock db sku of Some s \<Rightarrow> Inr (s, db) | None \<Rightarrow> ensure_stock_row sku db) (\<lambda>(s, db1).
       (let avail = s_on_hand s - s_reserved s in
        if avail < quantity then Inl (InventoryShortageError code avail quantity)
        else Inr (put_stock (s\<lparr>s_reserved := num2 (s_reserved s + quantity)\<rparr>) db1)))"

definition insert_movement :: "movement_row \<Rightarrow> store \<Rightarrow> store" where
  "insert_movement m db = db\<lparr>t_movements := t_movements db @ [m]\<rparr>"

definition item_reservations :: "store \<Rightarrow> uuid \<Rightarrow> uuid option \<Rightarrow> reservation_row list" where
  "item_reservations db oid item_id =
     (case item_id of
        None \<Rightarrow> []
      | Some iid \<Rightarrow> filter (\<lambda>v. v_order v = oid \<and> v_item v = iid \<and> v_status v = Reserved \<and> \<not> v_deleted v)
                      (t_reservations db))"

definition deduct_on_fulfillment ::
  "uuid option \<Rightarrow> string \<Rightarrow> money \<Rightarrow> uuid \<Rightarrow> uuid option \<Rightarrow> uuid option \<Rightarrow> store \<Rightarrow> error + store" where
  "deduct_on_fulfillment sellable_unit_id code quantity oid item_id fulfilled_by db =
     (case sellable_unit_id of
        None \<Rightarrow> Inl (Http 409 ORDER_ITEM_SELLABLE_ID_REQUIRED)
      | Some sku \<Rightarrow>
          bindE (locked_stock_by_sku_id db sku code False) (\<lambda>s.
          (let before = s_on_hand s;
               after = before - quantity;
               reservations = item_reservations db oid item_id;
               reserved_quantity = (\<Sum>v\<leftarrow>reservations. v_quantity v)
           in if after < 0 then Inl (Http 409 INSUFFICIENT_STOCK)
              else if reservations \<noteq> [] \<and> reserved_quantity \<noteq> quantity
              then Inl (Http 409 RESERVATION_QUANTITY_MISMATCH)
              else if reservations \<noteq> [] \<and> (\<exists>v \<in> set reservations. v_sku v \<noteq> sku)
              then Inl (Http 409 RESERVATION_SELLABLE_ID_MISMATCH)
              else if reservations \<noteq> [] \<and> s_reserved s < reserved_quantity
              then Inl (Http 409 RESERVATION_AGGREGATE_MISMATCH)
              else
                (let s' = (if reservations \<noteq> []
                           then s\<lparr>s_on_hand := after, s_reserved := s_reserved s - reserved_quantity\<rparr>
                           else s\<lparr>s_on_hand := after\<rparr>);
                     db1 = fold (set_reservation Consumed) reservations (put_stock s' db)
                 in Inr (insert_movement
                      \<lparr>m_sku = sku, m_type = Deduction, m_quantity = - quantity, m_before = before,
                       m_after = after, m_reference_type = ''order'', m_reference = Some oid,
                       m_created_by = fulfilled_by\<rparr> db1)))))"

text \<open>The acting user's id is kept only when it parses.\<close>

definition adjust_stock :: "string \<Rightarrow> money \<Rightarrow> id_text option \<Rightarrow> store \<Rightarrow> error + store" where
  "adjust_stock code quantity adjusted_by db =
     (case get_stock_by_sku_code_repo db code of
        None \<Rightarrow> Inl (Http 404 SKU_NOT_FOUND)
      | Some (k, stock) \<Rightarrow>
          bindE (case stock of Some s \<Rightarrow> Inr (s, db) | None \<Rightarrow> ensure_stock_row (k_id k) db) (\<lambda>(s, db1).
          (let before = s_on_hand s; after = before + quantity in
           if after < 0 then Inl (Http 409 NEGATIVE_STOCK)
           else Inr (insert_movement
                  \<lparr>m_sku = k_id k, m_type = Adjustment, m_quantity = num2 quantity, m_before = before,
                   m_after = num2 after, m_reference_type = ''manual'', m_reference = None,
                   m_created_by = Option.bind adjusted_by parse_uuid\<rparr>
                  (put_stock (s\<lparr>s_on_hand := num2 after\<rparr>) db1)))))"

definition list_movements ::
  "store \<Rightarrow> nat \<Rightarrow> nat \<Rightarrow> string option \<Rightarrow> movement_type option \<Rightarrow> (movement_row \<times> string) list \<times> nat" where
  "list_movements db page per_page code mtype =
     (let joined = concat (map (\<lambda>m. map (\<lambda>k. (m, k_code k)) (filter (\<lambda>k. k_id k = m_sku m) (t_skus db)))
                      (t_movements db));
          hits = filter (\<lambda>(m, c). (case code of None \<Rightarrow> True | Some c' \<Rightarrow> c' = '''' \<or> c = c')
                     \<and> (case mtype of None \<Rightarrow> True | Some t \<Rightarrow> m_type m = t)) joined
      in (take per_page (drop ((page - 1) * per_page) (rev hits)), length hits))"

definition restock :: "uuid \<Rightarrow> money \<Rightarrow> store \<Rightarrow> error + store" where
  "restock sku quantity db =
     bindE (case find_stock db sku of Some s \<Rightarrow> Inr (s, db) | None \<Rightarrow> ensure_stock_row sku db) (\<lambda>(s, db1).
       Inr (put_stock (s\<lparr>s_on_hand := num2 (s_on_hand s + quantity)\<rparr>) db1))"

definition restock_on_return ::
  "uuid option \<Rightarrow> string \<Rightarrow> money \<Rightarrow> uuid \<Rightarrow> uuid option \<Rightarrow> store \<Rightarrow> error + store" where
  "restock_on_return sellable_unit_id code quantity oid returned_by db =
     (case sellable_unit_id of
        None \<Rightarrow> Inl (Http 409 ORDER_ITEM_SELLABLE_ID_REQUIRED)
      | Some sku \<Rightarrow>
          bindE (locked_stock_by_sku_id db sku code False) (\<lambda>s.
          if quantity \<le> 0 then Inl (Http 409 INVALID_RESTOCK_QUANTITY)
          else
            (let before = s_on_hand s; after = before + quantity
             in Inr (insert_movement
                  \<lparr>m_sku = sku, m_type = Restock, m_quantity = quantity, m_before = before,
                   m_after = after, m_reference_type = ''order'', m_reference = Some oid,
                   m_created_by = returned_by\<rparr>
                  (put_stock (s\<lparr>s_on_hand := after\<rparr>) db)))))"

section \<open>Accounting for reservations\<close>

text \<open>The units of a SKU that active reservations hold.\<close>

definition reserved_units :: "store \<Rightarrow> uuid \<Rightarrow> money" where
  "reserved_units db sku =
     (\<Sum>v\<leftarrow>t_reservations db.
        if v_sku v = sku \<and> v_status v = Reserved \<and> \<not> v_deleted v then v_quantity v else 0)"

text \<open>Reservation ids are unique and come from the id supply, which never repeats.\<close>

definition reservation_ids :: "store \<Rightarrow> bool" where
  "reservation_ids db \<longleftrightarrow> inj (t_uuids db) \<and> distinct (map v_id (t_reservations db)) \<and>
     v_id ` set (t_reservations db) \<subseteq> t_uuids db ` {..<t_drawn db}"

text \<open>The reserved column of every SKU's live stock row is the sum of its active reservations.\<close>

definition reserved_column :: "store \<Rightarrow> uuid \<Rightarrow> money" where
  "reserved_column db sku = (\<Sum>s\<leftarrow>t_stocks db. if s_sku s = sku \<and> \<not> s_deleted s then s_reserved s else 0)"

definition accounted :: "store \<Rightarrow> bool" where
  "accounted db \<longleftrightarrow> distinct (map s_sku (t_stocks db)) \<and> reservation_ids db \<and>
     (\<forall>k. reserved_units db k = reserved_column db k)"

lemma find_stock_Some:
  "find_stock db sku = Some s \<Longrightarrow> s \<in> set (t_stocks db) \<and> s_sku s = sku \<and> \<not> s_deleted s"
  by (auto simp: find_stock_def find_Some_iff)

lemma locked_stock_Inr [result_simps]:
  "locked_stock_by_sku_id db sku code act = Inr s \<longleftrightarrow> find_stock db sku = Some s \<and> sellable db sku code act"
  by (auto simp: locked_stock_by_sku_id_def split: option.splits if_splits)

text \<open>The tables that no stock operation touches.\<close>

definition money_side :: "store \<Rightarrow> _" where
  "money_side db = (t_orders db, t_holds db, t_bindings db, t_ledger db, t_payments db, t_receipts db,
     t_declarations db, t_skus db, t_catalog db, t_prices db, t_uuids db, t_now db)"

lemma money_side_simps [simp]:
  "money_side (put_stock s db) = money_side db"
  "money_side (insert_reservation ord i sku q db) = money_side db"
  "money_side (set_reservation st v db) = money_side db"
  "money_side (insert_movement m db) = money_side db"
  by (simp_all add: money_side_def insert_reservation_def draw_uuid_def set_reservation_def insert_movement_def)

lemma money_side_fold [simp]: "money_side (fold (set_reservation st) vs db) = money_side db"
  by (induction vs arbitrary: db) simp_all

lemma insert_reservation_frame [simp]:
  "t_stocks (insert_reservation ord i sku q db) = t_stocks db"
  "t_movements (insert_reservation ord i sku q db) = t_movements db"
  "t_uuids (insert_reservation ord i sku q db) = t_uuids db"
  "t_drawn (insert_reservation ord i sku q db) = Suc (t_drawn db)"
  "t_reservations (insert_reservation ord i sku q db) = t_reservations db @
     [\<lparr>v_id = t_uuids db (t_drawn db), v_order = o_id ord, v_item = i_id i, v_sku = sku,
       v_code = i_sku_code i, v_quantity = q, v_status = Reserved, v_deleted = False\<rparr>]"
  by (simp_all add: insert_reservation_def draw_uuid_def)

lemma set_reservation_frame [simp]:
  "t_stocks (set_reservation st v db) = t_stocks db"
  "t_movements (set_reservation st v db) = t_movements db"
  "t_uuids (set_reservation st v db) = t_uuids db"
  "t_drawn (set_reservation st v db) = t_drawn db"
  "t_reservations (set_reservation st v db) = row_put v_id (v\<lparr>v_status := st\<rparr>) (t_reservations db)"
  by (simp_all add: set_reservation_def)

lemma insert_movement_frame [simp]:
  "t_stocks (insert_movement m db) = t_stocks db"
  "t_movements (insert_movement m db) = t_movements db @ [m]"
  "t_uuids (insert_movement m db) = t_uuids db"
  "t_drawn (insert_movement m db) = t_drawn db"
  "t_reservations (insert_movement m db) = t_reservations db"
  by (simp_all add: insert_movement_def)

lemma reserved_units_cong: "t_reservations db' = t_reservations db \<Longrightarrow> reserved_units db' = reserved_units db"
  by (simp add: reserved_units_def fun_eq_iff)

lemma reserved_units_put_stock [simp]: "reserved_units (put_stock s db) = reserved_units db"
  by (rule reserved_units_cong) simp

lemma reserved_units_movement [simp]: "reserved_units (insert_movement m db) = reserved_units db"
  by (rule reserved_units_cong) simp

lemma reserved_units_insert:
  "reserved_units (insert_reservation ord i sku q db) k = reserved_units db k + (if k = sku then q else 0)"
  by (simp add: reserved_units_def)

lemma reserved_units_set:
  assumes "distinct (map v_id (t_reservations db))" and "v \<in> set (t_reservations db)"
    and "v_status v = Reserved" and "\<not> v_deleted v" and "st \<noteq> Reserved"
  shows "reserved_units (set_reservation st v db) k =
    reserved_units db k - (if k = v_sku v then v_quantity v else 0)"
proof -
  let ?f = "\<lambda>x. if v_sku x = k \<and> v_status x = Reserved \<and> \<not> v_deleted x then v_quantity x else 0"
  have "v_id v = v_id (v\<lparr>v_status := st\<rparr>)" by simp
  from sum_list_row_put [OF assms(1,2) this, of ?f] assms(3-5)
  show ?thesis unfolding reserved_units_def by auto
qed

lemma reservation_ids_insert:
  assumes "reservation_ids db"
  shows "reservation_ids (insert_reservation ord i sku q db)"
proof -
  have inj: "inj (t_uuids db)" and dist: "distinct (map v_id (t_reservations db))"
    and sub: "v_id ` set (t_reservations db) \<subseteq> t_uuids db ` {..<t_drawn db}"
    using assms unfolding reservation_ids_def by blast+
  have fresh: "t_uuids db (t_drawn db) \<notin> t_uuids db ` {..<t_drawn db}"
    using inj by (simp add: inj_image_mem_iff)
  have "v_id ` set (t_reservations db) \<subseteq> t_uuids db ` {..<Suc (t_drawn db)}"
    using sub by (rule subset_trans) (rule image_mono, simp add: lessThan_subset_iff)
  moreover have "t_uuids db (t_drawn db) \<notin> v_id ` set (t_reservations db)"
    using sub fresh by blast
  ultimately show ?thesis
    using inj dist by (simp add: reservation_ids_def)
qed

lemma reservation_ids_set:
  assumes "reservation_ids db" and "v \<in> set (t_reservations db)"
  shows "reservation_ids (set_reservation st v db)"
proof -
  have "set (map v_id (row_put v_id (v\<lparr>v_status := st\<rparr>) (t_reservations db))) =
      set (map v_id (t_reservations db))"
    by (simp only: map_key_row_put)
  then have "v_id ` set (row_put v_id (v\<lparr>v_status := st\<rparr>) (t_reservations db)) = v_id ` set (t_reservations db)"
    by (simp only: set_map)
  then show ?thesis using assms(1) by (simp add: reservation_ids_def)
qed

lemma reservation_ids_cong:
  "t_reservations db' = t_reservations db \<Longrightarrow> t_uuids db' = t_uuids db \<Longrightarrow> t_drawn db' = t_drawn db \<Longrightarrow>
   reservation_ids db' = reservation_ids db"
  by (simp add: reservation_ids_def)

text \<open>
  One stock row and the reservations of its SKU change together: the accounting is kept when the
  reserved column moves by what the active reservations of that SKU move by.
\<close>

lemma reserved_column_put:
  assumes "distinct (map s_sku (t_stocks db))" and "find_stock db sku = Some s"
    and "s_sku s' = sku" "\<not> s_deleted s'" and "t_stocks db' = row_put s_sku s' (t_stocks db)"
  shows "reserved_column db' k = reserved_column db k + (if k = sku then s_reserved s' - s_reserved s else 0)"
proof -
  let ?f = "\<lambda>x. if s_sku x = k \<and> \<not> s_deleted x then s_reserved x else 0"
  have s: "s \<in> set (t_stocks db)" "s_sku s = s_sku s'" "\<not> s_deleted s"
    using find_stock_Some [OF assms(2)] assms(3) by simp_all
  from sum_list_row_put [OF assms(1) s(1,2), of ?f] assms(3,4) s(2,3)
  show ?thesis unfolding reserved_column_def assms(5) by auto
qed

lemma accounted_step:
  assumes acc: "accounted db" and s: "find_stock db sku = Some s"
    and s': "s_sku s' = sku" "\<not> s_deleted s'" "t_stocks db' = row_put s_sku s' (t_stocks db)"
    and ids: "reservation_ids db'"
    and units: "\<And>k. reserved_units db' k =
      reserved_units db k + (if k = sku then s_reserved s' - s_reserved s else 0)"
  shows "accounted db'"
proof -
  have d: "distinct (map s_sku (t_stocks db))" using acc by (simp add: accounted_def)
  from acc ids s'(3) show ?thesis
    by (simp add: accounted_def units reserved_column_put [OF d s s'])
qed

section \<open>The movement journal\<close>

definition on_hand_units :: "store \<Rightarrow> uuid \<Rightarrow> money" where
  "on_hand_units db k = (\<Sum>s\<leftarrow>t_stocks db. if s_sku s = k then s_on_hand s else 0)"

definition journal_total :: "store \<Rightarrow> uuid \<Rightarrow> money" where
  "journal_total db k = (\<Sum>m\<leftarrow>t_movements db. if m_sku m = k then m_quantity m else 0)"

text \<open>What the journal does not explain of a SKU's stock: its opening balance.\<close>

definition opening_stock :: "store \<Rightarrow> uuid \<Rightarrow> money" where
  "opening_stock db k = on_hand_units db k - journal_total db k"

definition on_hand_nonneg :: "store \<Rightarrow> bool" where
  "on_hand_nonneg db \<longleftrightarrow> (\<forall>s \<in> set (t_stocks db). 0 \<le> s_on_hand s)"

lemma journal_total_simps [simp]:
  "journal_total (put_stock s db) = journal_total db"
  "journal_total (insert_reservation ord i sku q db) = journal_total db"
  "journal_total (set_reservation st v db) = journal_total db"
  "journal_total (insert_movement m db) k = journal_total db k + (if m_sku m = k then m_quantity m else 0)"
  by (simp_all add: journal_total_def fun_eq_iff)

lemma on_hand_units_put:
  assumes "distinct (map s_sku (t_stocks db))" and "find_stock db sku = Some s"
    and "s_sku s' = sku" and "t_stocks db' = row_put s_sku s' (t_stocks db)"
  shows "on_hand_units db' k = on_hand_units db k + (if k = sku then s_on_hand s' - s_on_hand s else 0)"
proof -
  let ?f = "\<lambda>x. if s_sku x = k then s_on_hand x else 0"
  have s: "s \<in> set (t_stocks db)" "s_sku s = s_sku s'" "s_sku s = sku"
    using find_stock_Some [OF assms(2)] assms(3) by simp_all
  from sum_list_row_put [OF assms(1) s(1,2), of ?f] assms(3) s(3)
  show ?thesis unfolding on_hand_units_def assms(4) by auto
qed

text \<open>Quantities on hand are column values.\<close>

definition on_hand_cents :: "store \<Rightarrow> bool" where
  "on_hand_cents db \<longleftrightarrow> (\<forall>s \<in> set (t_stocks db). in_cents (s_on_hand s))"

text \<open>
  What one stock operation may do: it leaves the money tables alone, keeps the reserved columns
  equal to the active reservations, journals every change of the quantity on hand, keeps it a column
  value and never drives it below zero.
\<close>

definition stock_step :: "store \<Rightarrow> store \<Rightarrow> bool" where
  "stock_step db db' \<longleftrightarrow> money_side db' = money_side db \<and> t_drawn db \<le> t_drawn db' \<and>
     (accounted db \<longrightarrow> accounted db' \<and> opening_stock db' = opening_stock db) \<and>
     (on_hand_nonneg db \<longrightarrow> on_hand_nonneg db') \<and> (on_hand_cents db \<longrightarrow> on_hand_cents db')"

lemma stock_step_refl [simp]: "stock_step db db"
  by (simp add: stock_step_def)

lemma stock_step_trans: "stock_step a b \<Longrightarrow> stock_step b c \<Longrightarrow> stock_step a c"
  by (auto simp: stock_step_def)

lemma stock_step_row:
  assumes s: "find_stock db sku = Some s"
    and s': "s_sku s' = sku" "\<not> s_deleted s'" "t_stocks db' = row_put s_sku s' (t_stocks db)"
    and money: "money_side db' = money_side db" and drawn: "t_drawn db \<le> t_drawn db'"
    and ids: "reservation_ids db \<Longrightarrow> reservation_ids db'"
    and units: "\<And>k. reservation_ids db \<Longrightarrow> reserved_units db' k =
      reserved_units db k + (if k = sku then s_reserved s' - s_reserved s else 0)"
    and journal: "\<And>k. journal_total db' k =
      journal_total db k + (if k = sku then s_on_hand s' - s_on_hand s else 0)"
    and stock: "0 \<le> s_on_hand s \<Longrightarrow> 0 \<le> s_on_hand s'" and cents: "in_cents (s_on_hand s) \<Longrightarrow> in_cents (s_on_hand s')"
  shows "stock_step db db'"
proof -
  have "accounted db' \<and> opening_stock db' = opening_stock db" if acc: "accounted db"
  proof
    have r: "reservation_ids db" and d: "distinct (map s_sku (t_stocks db))"
      using acc by (simp_all add: accounted_def)
    show "accounted db'"
      using acc s s' ids [OF r] units [OF r] by (rule accounted_step)
    show "opening_stock db' = opening_stock db"
      using on_hand_units_put [OF d s s'(1,3)] by (auto simp: opening_stock_def journal fun_eq_iff)
  qed
  moreover have "on_hand_nonneg db'" if nn: "on_hand_nonneg db"
  proof -
    have "0 \<le> s_on_hand s'" using stock nn find_stock_Some [OF s] by (simp add: on_hand_nonneg_def)
    with nn show ?thesis unfolding on_hand_nonneg_def s'(3) by (metis set_row_put)
  qed
  moreover have "on_hand_cents db'" if c: "on_hand_cents db"
  proof -
    have "in_cents (s_on_hand s')" using cents c find_stock_Some [OF s] by (simp add: on_hand_cents_def)
    with c show ?thesis unfolding on_hand_cents_def s'(3) by (metis set_row_put)
  qed
  ultimately show ?thesis using money drawn by (simp add: stock_step_def)
qed

text \<open>Reserving, releasing and consuming against one stock row.\<close>

lemma reserve_row_step:
  assumes "find_stock db sku = Some s"
  shows "stock_step db (put_stock (s\<lparr>s_reserved := s_reserved s + q\<rparr>) (insert_reservation ord i sku q db))"
proof (rule stock_step_row [OF assms, where s' = "s\<lparr>s_reserved := s_reserved s + q\<rparr>"])
  assume "reservation_ids db"
  then show "reservation_ids (put_stock (s\<lparr>s_reserved := s_reserved s + q\<rparr>) (insert_reservation ord i sku q db))"
    by (subst reservation_ids_cong [where db = "insert_reservation ord i sku q db"])
      (simp_all add: reservation_ids_insert)
qed (use find_stock_Some [OF assms] in \<open>simp_all add: reserved_units_insert\<close>)

lemma release_row_step:
  assumes s: "find_stock db (v_sku v) = Some s" and v: "v \<in> set (t_reservations db)" "v_status v = Reserved"
    "\<not> v_deleted v" and st: "st \<noteq> Reserved"
  shows "stock_step db (set_reservation st v (put_stock (s\<lparr>s_reserved := s_reserved s - v_quantity v\<rparr>) db))"
    (is "stock_step db (set_reservation st v ?db)")
proof (rule stock_step_row [OF s, where s' = "s\<lparr>s_reserved := s_reserved s - v_quantity v\<rparr>"])
  assume ids: "reservation_ids db"
  have ids': "reservation_ids ?db"
    using ids by (subst reservation_ids_cong [where db = db]) simp_all
  show "reservation_ids (set_reservation st v ?db)"
    using ids' by (rule reservation_ids_set) (simp add: v)
  have "distinct (map v_id (t_reservations ?db))" and "v \<in> set (t_reservations ?db)"
    using ids' v by (simp_all add: reservation_ids_def)
  from reserved_units_set [OF this v(2,3) st]
  show "reserved_units (set_reservation st v ?db) k = reserved_units db k +
      (if k = v_sku v then s_reserved (s\<lparr>s_reserved := s_reserved s - v_quantity v\<rparr>) - s_reserved s else 0)" for k
    by simp
qed (use find_stock_Some [OF s] in simp_all)

lemma set_reservation_other:
  "v_id v \<noteq> v_id w \<Longrightarrow> w \<in> set (t_reservations db) \<Longrightarrow> w \<in> set (t_reservations (set_reservation st v db))"
  by (auto simp: row_put_def)

lemma fold_set_reservation:
  assumes "reservation_ids db" and "distinct (map v_id vs)"
    and "\<forall>v \<in> set vs. v \<in> set (t_reservations db) \<and> v_status v = Reserved \<and> \<not> v_deleted v" and "st \<noteq> Reserved"
  shows "reservation_ids (fold (set_reservation st) vs db) \<and>
    reserved_units (fold (set_reservation st) vs db) k =
      reserved_units db k - (\<Sum>v\<leftarrow>vs. if k = v_sku v then v_quantity v else 0)"
  using assms
proof (induction vs arbitrary: db)
  case Nil
  then show ?case by simp
next
  case (Cons v vs)
  let ?db = "set_reservation st v db"
  have v: "v \<in> set (t_reservations db)" "v_status v = Reserved" "\<not> v_deleted v"
    and dist: "distinct (map v_id (t_reservations db))"
    using Cons.prems by (simp_all add: reservation_ids_def)
  have "reservation_ids ?db"
    using Cons.prems(1) v(1) by (rule reservation_ids_set)
  moreover have "\<forall>w \<in> set vs. w \<in> set (t_reservations ?db) \<and> v_status w = Reserved \<and> \<not> v_deleted w"
  proof
    fix w assume w: "w \<in> set vs"
    then have "v_id v \<noteq> v_id w" using Cons.prems(2) by force
    moreover have "w \<in> set (t_reservations db) \<and> v_status w = Reserved \<and> \<not> v_deleted w"
      using Cons.prems(3) w by simp
    ultimately show "w \<in> set (t_reservations ?db) \<and> v_status w = Reserved \<and> \<not> v_deleted w"
      by (blast intro: set_reservation_other)
  qed
  ultimately have "reservation_ids (fold (set_reservation st) vs ?db) \<and>
      reserved_units (fold (set_reservation st) vs ?db) k =
        reserved_units ?db k - (\<Sum>v\<leftarrow>vs. if k = v_sku v then v_quantity v else 0)"
    using Cons.prems by (intro Cons.IH) simp_all
  with reserved_units_set [OF dist v(1-3) Cons.prems(4), of k] show ?case by simp
qed

lemma fold_set_reservation_frame [simp]:
  "t_stocks (fold (set_reservation st) vs db) = t_stocks db"
  "t_movements (fold (set_reservation st) vs db) = t_movements db"
  "t_drawn (fold (set_reservation st) vs db) = t_drawn db"
  "t_uuids (fold (set_reservation st) vs db) = t_uuids db"
  "journal_total (fold (set_reservation st) vs db) = journal_total db"
  by (induction vs arbitrary: db) simp_all

section \<open>The interface of a stock operation\<close>

text \<open>
  Commands run one stock operation per work item (an order item, a reservation, a fulfilment line)
  in a loop. The contract of such an operation: under its precondition it is a \<open>stock_step\<close>, and
  it does not disturb the precondition of a compatible work item. Then the loop is a \<open>stock_step\<close>.
\<close>

locale inventory_op =
  fixes work :: "'w \<Rightarrow> store \<Rightarrow> error + store"
    and pre :: "'w \<Rightarrow> store \<Rightarrow> bool"
    and compatible :: "'w \<Rightarrow> 'w \<Rightarrow> bool"
  assumes step: "pre w db \<Longrightarrow> work w db = Inr db' \<Longrightarrow> stock_step db db'"
    and others: "pre x db \<Longrightarrow> compatible w x \<Longrightarrow> work w db = Inr db' \<Longrightarrow> pre x db'"
begin

lemma loop_step:
  "foldE work ws db = Inr db' \<Longrightarrow> (\<forall>w \<in> set ws. pre w db) \<Longrightarrow> sorted_wrt compatible ws \<Longrightarrow> stock_step db db'"
proof (induction ws arbitrary: db)
  case Nil
  then show ?case by simp
next
  case (Cons w ws)
  then obtain db1 where w: "work w db = Inr db1" and ws: "foldE work ws db1 = Inr db'"
    by (auto simp: result_simps)
  have "\<forall>x \<in> set ws. pre x db1"
    using Cons.prems(2,3) by (auto intro: others [OF _ _ w])
  with ws Cons have "stock_step db1 db'" by simp
  moreover have "stock_step db db1"
    using Cons.prems(2) by (intro step [OF _ w]) simp
  ultimately show ?case using stock_step_trans by blast
qed

end

text \<open>Reserving at confirmation, in the service's own loop and in the inventory service.\<close>

lemma reserve_one_step:
  "reserve_one_on_confirm ord item db = Inr db' \<Longrightarrow> stock_step db db'"
  by (auto simp: reserve_one_on_confirm_def result_simps Let_def intro!: reserve_row_step
      split: option.splits if_splits)

interpretation reserve_one: inventory_op "reserve_one_on_confirm ord" "\<lambda>_ _. True" "\<lambda>_ _. True" for ord
  by unfold_locales (auto intro: reserve_one_step)

text \<open>Releasing at cancellation: the work items are distinct active reservations.\<close>

definition is_active :: "reservation_row \<Rightarrow> store \<Rightarrow> bool" where
  "is_active v db \<longleftrightarrow> v \<in> set (t_reservations db) \<and> v_status v = Reserved \<and> \<not> v_deleted v"

definition other_reservation :: "reservation_row \<Rightarrow> reservation_row \<Rightarrow> bool" where
  "other_reservation v w \<longleftrightarrow> v_id v \<noteq> v_id w"

lemma is_active_released:
  "is_active w db \<Longrightarrow> other_reservation v w \<Longrightarrow> is_active w (set_reservation st v (put_stock s db))"
  unfolding is_active_def other_reservation_def
  using set_reservation_other [of v w "put_stock s db" st] by simp

interpretation release_one: inventory_op release_one_on_cancel is_active other_reservation
proof
  fix v db db' assume "is_active v db" and "release_one_on_cancel v db = Inr db'"
  then show "stock_step db db'"
    by (auto simp: release_one_on_cancel_def is_active_def result_simps intro!: release_row_step)
next
  fix w db v db' assume "is_active w db" "other_reservation v w" "release_one_on_cancel v db = Inr db'"
  then show "is_active w db'"
    by (auto simp: release_one_on_cancel_def result_simps intro!: is_active_released)
qed

lemma active_reservations_work:
  assumes "accounted db"
  shows "\<forall>v \<in> set (active_reservations db oid). is_active v db"
    and "sorted_wrt other_reservation (active_reservations db oid)"
proof -
  have "distinct (map v_id (filter P (t_reservations db)))" for P
    using assms by (simp add: accounted_def reservation_ids_def distinct_map_filter)
  then have "distinct (map v_id (active_reservations db oid))"
    by (simp add: active_reservations_def distinct_map)
  then show "sorted_wrt other_reservation (active_reservations db oid)"
    by (simp add: distinct_conv_nth sorted_wrt_iff_nth_less other_reservation_def)
qed (simp add: active_reservations_def is_active_def)

text \<open>Consuming at fulfilment and restoring at return.\<close>

lemma deduct_step:
  assumes "deduct_on_fulfillment unit_id code q oid iid usr db = Inr db'" and q: "in_cents q"
  shows "stock_step db db'"
proof -
  define vs where "vs = item_reservations db oid iid"
  from assms obtain sku s where s: "find_stock db sku = Some s"
    and nn: "0 \<le> s_on_hand s - q"
    and vs: "vs \<noteq> [] \<Longrightarrow> (\<Sum>v\<leftarrow>vs. v_quantity v) = q" "vs \<noteq> [] \<Longrightarrow> \<forall>v \<in> set vs. v_sku v = sku"
    and db': "db' = insert_movement
                      \<lparr>m_sku = sku, m_type = Deduction, m_quantity = - q, m_before = s_on_hand s,
                       m_after = s_on_hand s - q, m_reference_type = ''order'', m_reference = Some oid,
                       m_created_by = usr\<rparr>
        (fold (set_reservation Consumed) vs
          (put_stock (s\<lparr>s_on_hand := s_on_hand s - q,
             s_reserved := s_reserved s - (\<Sum>v\<leftarrow>vs. v_quantity v)\<rparr>) db))"
    unfolding deduct_on_fulfillment_def vs_def [symmetric] Let_def
    by (cases unit_id; cases vs) (auto simp: result_simps split: if_splits)
  let ?s = "s\<lparr>s_on_hand := s_on_hand s - q, s_reserved := s_reserved s - (\<Sum>v\<leftarrow>vs. v_quantity v)\<rparr>"
  have row: "s_sku s = sku" "\<not> s_deleted s" using find_stock_Some [OF s] by simp_all
  have sums: "(\<Sum>v\<leftarrow>vs. if k = v_sku v then v_quantity v else 0) = (if k = sku then \<Sum>v\<leftarrow>vs. v_quantity v else 0)" for k
    using vs(2) by (induction vs) auto
  have folded: "reservation_ids (fold (set_reservation Consumed) vs (put_stock ?s db)) \<and>
      reserved_units (fold (set_reservation Consumed) vs (put_stock ?s db)) k =
        reserved_units db k - (if k = sku then \<Sum>v\<leftarrow>vs. v_quantity v else 0)" if ids: "reservation_ids db" for k
  proof -
    have "reservation_ids (put_stock ?s db)"
      using ids by (subst reservation_ids_cong [where db = db]) simp_all
    moreover have "distinct (map v_id vs)"
      using ids by (simp add: vs_def item_reservations_def reservation_ids_def distinct_map_filter
          split: option.splits)
    moreover have "\<forall>v \<in> set vs. v \<in> set (t_reservations (put_stock ?s db)) \<and> v_status v = Reserved \<and> \<not> v_deleted v"
      by (auto simp: vs_def item_reservations_def split: option.splits)
    ultimately show ?thesis
      using fold_set_reservation [of "put_stock ?s db" vs Consumed k] by (simp add: sums)
  qed
  show ?thesis
  proof (rule stock_step_row [OF s, where s' = ?s])
    show "reservation_ids db'" if "reservation_ids db"
      unfolding db' using folded [OF that]
      by (subst reservation_ids_cong [where db = "fold (set_reservation Consumed) vs (put_stock ?s db)"]) simp_all
    show "reserved_units db' k = reserved_units db k + (if k = sku then s_reserved ?s - s_reserved s else 0)"
      if "reservation_ids db" for k
      unfolding db' using folded [OF that] by simp
  qed (use row nn q in \<open>simp_all add: db' in_cents_diff\<close>)
qed

lemma restock_step:
  assumes "restock_on_return unit_id code q oid usr db = Inr db'" and cents: "in_cents q"
  shows "stock_step db db'"
proof -
  from assms obtain sku s where s: "find_stock db sku = Some s" and q: "0 < q"
    and db': "db' = insert_movement
                  \<lparr>m_sku = sku, m_type = Restock, m_quantity = q, m_before = s_on_hand s,
                   m_after = s_on_hand s + q, m_reference_type = ''order'', m_reference = Some oid,
                   m_created_by = usr\<rparr> (put_stock (s\<lparr>s_on_hand := s_on_hand s + q\<rparr>) db)"
    by (auto simp: restock_on_return_def result_simps Let_def split: option.splits if_splits)
  have "s_sku s = sku" "\<not> s_deleted s" using find_stock_Some [OF s] by simp_all
  moreover have "reservation_ids db' = reservation_ids db" "reserved_units db' = reserved_units db"
    unfolding db' by (rule reservation_ids_cong; simp) simp
  ultimately show ?thesis
    by (intro stock_step_row [OF s, where s' = "s\<lparr>s_on_hand := s_on_hand s + q\<rparr>"]) (use q cents in \<open>simp_all add: db' in_cents_add\<close>)
qed

interpretation fulfil_line: inventory_op
  "\<lambda>i. deduct_on_fulfillment (i_sellable_unit i) (i_sku_code i) (of_int (i_quantity i)) oid (Some (i_id i)) usr"
  "\<lambda>_ _. True" "\<lambda>_ _. True" for oid usr
  by unfold_locales (auto intro: deduct_step [OF _ in_cents_of_int])

interpretation return_line: inventory_op
  "\<lambda>i. restock_on_return (i_sellable_unit i) (i_sku_code i) (of_int (i_quantity i)) oid usr"
  "\<lambda>_ _. True" "\<lambda>_ _. True" for oid usr
  by unfold_locales (auto intro: restock_step [OF _ in_cents_of_int])

section \<open>Creating a stock row and adjusting it\<close>

lemma ensure_stock_row_step:
  assumes "ensure_stock_row sku db = Inr (s, db')"
  shows "stock_step db db' \<and> find_stock db' sku = Some s \<and>
    (find_stock db sku \<noteq> None \<longrightarrow> db' = db) \<and> (find_stock db sku = None \<longrightarrow> s_on_hand s = 0)"
proof (cases "find_stock db sku")
  case (Some r)
  with assms show ?thesis by (simp add: ensure_stock_row_def)
next
  case None
  let ?s = "\<lparr>s_sku = sku, s_on_hand = 0, s_reserved = 0, s_deleted = False\<rparr>"
  from assms None have s: "s = ?s" and db': "db' = db\<lparr>t_stocks := t_stocks db @ [?s]\<rparr>"
    and new: "sku \<notin> s_sku ` set (t_stocks db)"
    by (auto simp: ensure_stock_row_def Let_def split: if_splits)
  have find: "find (\<lambda>x. s_sku x = sku \<and> \<not> s_deleted x) (rows @ [?s]) = Some ?s"
    if "sku \<notin> s_sku ` set rows" for rows
    using that by (induction rows) auto
  have "find_stock db' sku = Some ?s"
    unfolding db' find_stock_def using find [OF new] by simp
  moreover have "stock_step db db'"
    using new unfolding db'
    by (auto simp: stock_step_def accounted_def reservation_ids_def reserved_units_def reserved_column_def
        opening_stock_def on_hand_units_def journal_total_def money_side_def on_hand_nonneg_def on_hand_cents_def fun_eq_iff)
  ultimately show ?thesis using None s by simp
qed

lemma on_hand_units_row:
  assumes "distinct (map s_sku (t_stocks db))" and "find_stock db sku = Some s"
  shows "on_hand_units db sku = s_on_hand s"
proof -
  have "(\<Sum>x\<leftarrow>rows. if s_sku x = sku then s_on_hand x else 0) = s_on_hand s"
    if "distinct (map s_sku rows)" "s \<in> set rows" "s_sku s = sku" for rows
    using that
  proof (induction rows)
    case Nil
    then show ?case by simp
  next
    case (Cons x xs)
    have "sku \<notin> s_sku ` set xs \<Longrightarrow> (\<Sum>x\<leftarrow>xs. if s_sku x = sku then s_on_hand x else 0) = 0"
      by (induction xs) auto
    with Cons show ?case by (auto simp: image_iff)
  qed
  with assms(1) find_stock_Some [OF assms(2)] show ?thesis by (simp add: on_hand_units_def)
qed

lemma ensure_stock_row_on_hand:
  "ensure_stock_row sku db = Inr (s, db') \<Longrightarrow> on_hand_units db' = on_hand_units db"
  by (auto simp: ensure_stock_row_def on_hand_units_def fun_eq_iff Let_def split: option.splits if_splits)

lemma sku_found:
  assumes "get_stock_by_sku_code_repo db code = Some (k, stock)"
  shows "k \<in> set (t_skus db)" "k_code k = code" "stock = find_stock db (k_id k)"
  using assms by (auto simp: get_stock_by_sku_code_repo_def find_Some_iff split: option.splits)

lemma adjust_stock_step:
  assumes "accounted db" and "on_hand_cents db" and "in_cents q"
    and "adjust_stock code q usr db = Inr db'"
  shows "stock_step db db' \<and>
    (\<exists>k \<in> set (t_skus db). k_code k = code \<and> on_hand_units db' (k_id k) = on_hand_units db (k_id k) + q \<and>
       0 \<le> on_hand_units db' (k_id k))"
proof -
  from assms(4) obtain k stock where found: "get_stock_by_sku_code_repo db code = Some (k, stock)"
    by (auto simp: adjust_stock_def split: option.splits)
  note k = sku_found [OF found]
  from assms(4) found obtain s db1 where
      s: "(case stock of Some s \<Rightarrow> Inr (s, db) | None \<Rightarrow> ensure_stock_row (k_id k) db) = Inr (s, db1)"
    and nn: "0 \<le> s_on_hand s + q"
    and db': "db' = insert_movement
                  \<lparr>m_sku = k_id k, m_type = Adjustment, m_quantity = num2 q, m_before = s_on_hand s,
                   m_after = num2 (s_on_hand s + q), m_reference_type = ''manual'', m_reference = None,
                   m_created_by = Option.bind usr parse_uuid\<rparr>
                  (put_stock (s\<lparr>s_on_hand := num2 (s_on_hand s + q)\<rparr>) db1)"
    by (auto simp: adjust_stock_def result_simps Let_def not_less)
  have "ensure_stock_row (k_id k) db = Inr (s, db1)"
    using s k(3) by (cases "find_stock db (k_id k)") (simp_all add: ensure_stock_row_def)
  from ensure_stock_row_step [OF this] have step1: "stock_step db db1" and f: "find_stock db1 (k_id k) = Some s"
    and old: "find_stock db (k_id k) \<noteq> None \<longrightarrow> db1 = db" and new: "find_stock db (k_id k) = None \<longrightarrow> s_on_hand s = 0"
    by simp_all
  have "in_cents (s_on_hand s)"
    using old new f assms(2) find_stock_Some [OF f] by (cases "find_stock db (k_id k)") (auto simp: on_hand_cents_def)
  then have exact: "num2 (s_on_hand s + q) = s_on_hand s + q" "num2 q = q"
    using assms(3) in_cents_add num2_cents by simp_all
  let ?s = "s\<lparr>s_on_hand := s_on_hand s + q\<rparr>"
  have row: "s_sku s = k_id k" "\<not> s_deleted s" using find_stock_Some [OF f] by simp_all
  have "reservation_ids db' = reservation_ids db1" "reserved_units db' = reserved_units db1"
    unfolding db' by (rule reservation_ids_cong; simp) simp
  then have step2: "stock_step db1 db'"
    using row nn assms(3) by (intro stock_step_row [OF f, where s' = ?s]) (simp_all add: db' exact in_cents_add)
  have d: "distinct (map s_sku (t_stocks db1))"
    using step1 assms(1) by (simp add: stock_step_def accounted_def)
  have "on_hand_units db1 (k_id k) = on_hand_units db (k_id k)"
    using ensure_stock_row_on_hand [OF \<open>ensure_stock_row (k_id k) db = Inr (s, db1)\<close>] by simp
  moreover have "on_hand_units db' (k_id k) = on_hand_units db1 (k_id k) + q"
    using on_hand_units_put [OF d f, where s' = ?s and db' = db'] row by (simp add: db' exact)
  moreover have "on_hand_units db1 (k_id k) = s_on_hand s"
    using d f by (rule on_hand_units_row)
  moreover have "stock_step db db'" using step1 step2 by (rule stock_step_trans)
  ultimately show ?thesis using k(1,2) nn by auto
qed

text \<open>
  A manual adjustment by an amount that fits the column either is refused, when the SKU is
  unknown or the stock would become negative, or changes the quantity on hand by exactly that
  amount and journals it: no reserved quantity changes, every stock row still has as much reserved
  as the active reservations say, and the journal still explains the stock.
\<close>

theorem adjust_stock_accounting:
  assumes "accounted db" and "on_hand_cents db" and "in_cents q"
    and "adjust_stock code q usr db = Inr db'"
  shows "accounted db' \<and> opening_stock db' = opening_stock db \<and>
    (on_hand_nonneg db \<longrightarrow> on_hand_nonneg db') \<and>
    (\<exists>k \<in> set (t_skus db). k_code k = code \<and> on_hand_units db' (k_id k) = on_hand_units db (k_id k) + q \<and>
       0 \<le> on_hand_units db' (k_id k))"
  using adjust_stock_step [OF assms] assms(1) by (simp add: stock_step_def)

theorem adjust_stock_accounting_witness:
  "(\<exists>db'. adjust_stock ''MZ-1'' (- 4) None sample_store = Inr db' \<and> accounted db' \<and>
      on_hand_units db' 21 = 6)"
proof -
  obtain db' where run: "adjust_stock ''MZ-1'' (- 4) None sample_store = Inr db'"
    and six: "on_hand_units db' 21 = 6"
    by (simp add: adjust_stock_def get_stock_by_sku_code_repo_def find_stock_def on_hand_units_def
        put_stock_def insert_movement_def sample_defs Let_def)
  have "accounted sample_store" "on_hand_cents sample_store"
    by (simp_all add: accounted_def reservation_ids_def reserved_units_def reserved_column_def on_hand_cents_def
        inj_def sample_defs)
  moreover have "in_cents (- 4)" by simp
  ultimately have "accounted db'" using adjust_stock_accounting [OF _ _ _ run] by blast
  with run six show ?thesis by blast
qed

end
