(* ===== verification/Order_Commands.thy ===== *)
theory Order_Commands
  imports Inventory
begin

text \<open>
  The order command service, \<open>backend/services/order_command_service.py\<close>: the only writer of
  an order's status. Confirm reserves stock and opens the order's credit hold, cancel undoes both,
  fulfil consumes the reservations, return reverses the ledger and restocks, and the payment
  transition moves a confirmed order towards paid. A command runs inside its caller's transaction:
  when it raises, every write it made is rolled back, so an error carries no store.
\<close>

section \<open>Results\<close>

datatype notification_intent = Intent string uuid uuid

record command_result =
  cr_order :: order_row
  cr_released :: "reservation_row list"
  cr_credit :: "money option"
  cr_intents :: "notification_intent list"

type_synonym command = "error + (command_result \<times> store)"

definition command_owned_targets :: "order_state set" where
  "command_owned_targets = {CONFIRMED, CANCELLED, PAID, PARTIALLY_PAID, FULFILLED, RETURNED}"

section \<open>Shared discipline\<close>

definition load_locked :: "uuid \<Rightarrow> store \<Rightarrow> error + order_row" where
  "load_locked oid db =
     (case live_order db oid of None \<Rightarrow> Inl (conflict ORDER_NOT_FOUND) | Some ord \<Rightarrow> Inr ord)"

definition validate_transition :: "order_row \<Rightarrow> order_state \<Rightarrow> error + unit" where
  "validate_transition ord target =
     (let current = o_status ord in
      if is_terminal_state current
      then Inl (OrderInvariantViolation (''Cannot transition from terminal state '' @ state_value current))
      else if \<not> is_valid_transition current target
      then Inl (InvalidStateTransition current target)
      else if target = CONFIRMED \<and> o_total ord \<le> 0
      then Inl (OrderInvariantViolation ''Cannot confirm order with zero or negative total amount'')
      else Inr ())"

definition validate_item_identities :: "order_row \<Rightarrow> error + unit" where
  "validate_item_identities ord =
     ensure (\<not> (\<exists>i \<in> set (o_items ord). i_identity i = Legacy \<and> i_sellable_unit i \<noteq> None))
       (conflict ORDER_ITEM_IDENTITY_MISMATCH)"

definition check_invariants :: "order_row option \<Rightarrow> order_state \<Rightarrow> order_state \<Rightarrow> error + unit" where
  "check_invariants locked from_state to_state =
     (if to_state = CONFIRMED \<and> (\<exists>ord. locked = Some ord \<and> o_total ord \<le> 0)
      then Inl (OrderInvariantViolation ''Cannot confirm order with zero or negative total amount'')
      else if to_state = VOIDED \<and> (from_state = PAID \<or> from_state = PARTIALLY_PAID)
      then Inl (OrderInvariantViolation (''Cannot void order in '' @ state_value from_state @ '' state.''))
      else if to_state = FULFILLED \<and> from_state \<noteq> PAID
      then Inl (OrderInvariantViolation (''Cannot fulfill order in '' @ state_value from_state
             @ '' state. Order must be PAID before fulfillment.''))
      else if to_state = RETURNED \<and> from_state \<noteq> FULFILLED
      then Inl (OrderInvariantViolation (''Cannot return order in '' @ state_value from_state
             @ '' state. Order must be FULFILLED before return.''))
      else Inr ())"

definition assign_status :: "order_row \<Rightarrow> order_state \<Rightarrow> uuid option \<Rightarrow> store \<Rightarrow> order_row \<times> store" where
  "assign_status ord target updated_by db =
     (let ord' = ord\<lparr>o_status := target,
                     o_updated_by := (case updated_by of Some u \<Rightarrow> Some u | None \<Rightarrow> o_updated_by ord)\<rparr>
      in (ord', put_order ord' db))"

text \<open>
  \<open>prelock_stocks\<close> locks every distinct stock row of the items in ascending \<open>sku_id\<close> order and
  returns the locked SKU ids; the rows themselves are then read from the store.
\<close>

definition prelock_stocks :: "item_row list \<Rightarrow> bool \<Rightarrow> store \<Rightarrow> error + uuid list" where
  "prelock_stocks items require_active db =
     foldE (\<lambda>sku locked.
              (case find (\<lambda>i. i_sellable_unit i = Some sku) items of
                 None \<Rightarrow> Inl KeyError
               | Some item \<Rightarrow>
                   bindE (locked_stock_by_sku_id db sku (i_sku_code item) require_active)
                     (\<lambda>_. Inr (locked @ [sku]))))
       (sort (remdups (map (the \<circ> i_sellable_unit) items))) []"

definition prelock_reservation_stocks :: "order_row \<Rightarrow> store \<Rightarrow> error + uuid list" where
  "prelock_reservation_stocks ord db =
     (let codes = map (\<lambda>v. (v_sku v, v_code v))
            (filter (\<lambda>v. v_order v = o_id ord \<and> v_status v = Reserved \<and> \<not> v_deleted v) (t_reservations db));
          codes_by_id = map_of (rev codes)
      in foldE (\<lambda>sku locked.
              bindE (locked_stock_by_sku_id db sku (the (codes_by_id sku)) False)
                (\<lambda>_. Inr (locked @ [sku])))
           (sort (remdups (map fst codes))) [])"

section \<open>Reservations\<close>

definition reserve_item :: "order_row \<Rightarrow> uuid list \<Rightarrow> item_row \<Rightarrow> store \<Rightarrow> error + store" where
  "reserve_item ord locked item db =
     (case i_sellable_unit item of
        None \<Rightarrow> Inl KeyError
      | Some sku \<Rightarrow>
          (case (if sku \<in> set locked then find_stock db sku else None) of
             None \<Rightarrow> Inl KeyError
           | Some s \<Rightarrow>
               (let quantity = of_int (i_quantity item) in
                if s_on_hand s - s_reserved s < quantity
                then Inl (conflict INSUFFICIENT_AVAILABLE_STOCK)
                else Inr (put_stock (s\<lparr>s_reserved := s_reserved s + quantity\<rparr>)
                            (insert_reservation ord item sku quantity db)))))"

definition reserve_inventory :: "order_row \<Rightarrow> uuid list \<Rightarrow> store \<Rightarrow> error + store" where
  "reserve_inventory ord locked db =
     bindE (foldE (reserve_item ord locked) (sort_key (the \<circ> i_sellable_unit) (o_items ord)) db)
       flush_reservations"

definition release_reservation :: "uuid list \<Rightarrow> reservation_row \<Rightarrow> store \<Rightarrow> error + store" where
  "release_reservation locked v db =
     (case (if v_sku v \<in> set locked then find_stock db (v_sku v) else None) of
        None \<Rightarrow> Inl KeyError
      | Some s \<Rightarrow>
          if s_reserved s < v_quantity v then Inl (conflict RESERVATION_AGGREGATE_MISMATCH)
          else Inr (set_reservation Released v
                      (put_stock (s\<lparr>s_reserved := s_reserved s - v_quantity v\<rparr>) db)))"

definition release_reservations ::
  "order_row \<Rightarrow> uuid list \<Rightarrow> store \<Rightarrow> error + (reservation_row list \<times> store)" where
  "release_reservations ord locked db =
     (let rows = active_reservations db (o_id ord)
      in bindE (foldE (release_reservation locked) rows db)
           (\<lambda>db'. Inr (map (\<lambda>v. v\<lparr>v_status := Released\<rparr>) rows, db')))"

section \<open>The credit hold and the binding cache\<close>

text \<open>
  The atomic conditional update of the binding row: it adds \<open>delta\<close> to the outstanding balance of
  the live binding of the pair when the result is not negative, and reports how many rows matched.
\<close>

definition update_binding ::
  "(binding_row \<Rightarrow> bool) \<Rightarrow> uuid \<Rightarrow> uuid \<Rightarrow> money \<Rightarrow> store \<Rightarrow> nat \<times> store" where
  "update_binding extra ws ret delta db =
     (let hit = (\<lambda>b. b_wholesaler b = ws \<and> b_retailer b = ret \<and> \<not> b_deleted b \<and> extra b
                     \<and> 0 \<le> b_balance b + delta)
      in (length (filter hit (t_bindings db)),
          db\<lparr>t_bindings := map (\<lambda>b. if hit b then b\<lparr>b_balance := num2 (b_balance b + delta)\<rparr> else b)
                (t_bindings db)\<rparr>))"

text \<open>The CHECK constraints of a hold row, enforced when it is flushed.\<close>

definition hold_row_ok :: "hold_row \<Rightarrow> bool" where
  "hold_row_ok h \<longleftrightarrow> 0 < h_amount h \<and> h_remaining h \<le> h_amount h \<and>
     (if h_status h = Active then 0 < h_remaining h else h_remaining h = 0)"

definition flush_hold :: "hold_row \<Rightarrow> store \<Rightarrow> error + store" where
  "flush_hold h db =
     (let row = h\<lparr>h_remaining := num2 (h_remaining h)\<rparr>
      in if hold_row_ok row then Inr (put_hold row db)
         else Inl (IntegrityError ''ck_order_credit_holds''))"

definition open_credit_hold :: "order_row \<Rightarrow> uuid \<Rightarrow> store \<Rightarrow> error + (money \<times> store)" where
  "open_credit_hold ord actor db =
     (let delta = o_total ord in
      if delta \<le> 0
      then Inl (OrderInvariantViolation ''Cannot open a credit hold for a zero or negative total'')
      else if order_holds db (o_id ord) \<noteq> [] then Inl (conflict CREDIT_HOLD_MISMATCH)
      else
        (let (hid, db1) = draw_uuid db;
             h = \<lparr>h_id = hid, h_order = o_id ord, h_amount = delta, h_remaining = delta,
                  h_status = Active, h_created_by = Some actor, h_updated_by = Some actor\<rparr>;
             db2 = db1\<lparr>t_holds := t_holds db1 @ [h]\<rparr>;
             (n, db3) = update_binding (\<lambda>b. b_status b = Binding_Active)
                          (o_wholesaler ord) (o_retailer ord) delta db2
         in if n = 0 then Inl (conflict BINDING_NOT_FOUND) else Inr (delta, db3)))"

definition settle_cancel_hold :: "order_row \<Rightarrow> uuid option \<Rightarrow> store \<Rightarrow> error + (money \<times> store)" where
  "settle_cancel_hold ord updated_by db =
     (let holds = order_holds db (o_id ord) in
      if o_status ord = DRAFT then
        (if holds \<noteq> [] then Inl (conflict CREDIT_HOLD_MISMATCH) else Inr (0, db))
      else
        (let total = o_total ord in
         case holds of
           [h] \<Rightarrow>
             if h_status h \<noteq> Active then Inl (conflict CREDIT_HOLD_MISMATCH)
             else if h_amount h \<noteq> total \<or> h_remaining h \<noteq> total then Inl (conflict CREDIT_HOLD_MISMATCH)
             else bindE (flush_hold (h\<lparr>h_status := Hold_Released, h_remaining := 0,
                                       h_updated_by := updated_by\<rparr>) db) (\<lambda>db1.
               (let (n, db2) = update_binding (\<lambda>_. True) (o_wholesaler ord) (o_retailer ord) (- total) db1
                in if n = 0 then Inl (conflict BINDING_NOT_FOUND) else Inr (total, db2)))
         | _ \<Rightarrow> Inl (conflict CREDIT_HOLD_MISMATCH)))"

section \<open>Ledger effects of a transition\<close>

datatype ledger_result = Ledger_None | Ledger_Posted

definition post_transition_ledger ::
  "order_row \<Rightarrow> order_state \<Rightarrow> order_state \<Rightarrow> pay_method option \<Rightarrow> store \<Rightarrow> error + (ledger_result \<times> store)" where
  "post_transition_ledger ord from_state to_state method db =
     (if to_state = CONFIRMED then Inr (Ledger_None, db)
      else if to_state = PAID \<and> method \<noteq> Some Credit
      then bindE (post_payment_received (o_id ord) (o_total ord) db) (\<lambda>(_, db'). Inr (Ledger_Posted, db'))
      else if to_state = RETURNED
      then bindE (post_order_return (o_id ord) (o_total ord) db) (\<lambda>(_, db'). Inr (Ledger_Posted, db'))
      else Inr (Ledger_None, db))"

section \<open>Commands\<close>

definition confirm_order :: "uuid \<Rightarrow> uuid option \<Rightarrow> store \<Rightarrow> command" where
  "confirm_order oid updated_by db =
     bindE (load_locked oid db) (\<lambda>ord.
     case updated_by of
       None \<Rightarrow> Inl (conflict CONFIRM_ACTOR_REQUIRED)
     | Some actor \<Rightarrow>
         bindE (validate_transition ord CONFIRMED) (\<lambda>_.
         bindE (validate_item_identities ord) (\<lambda>_.
         bindE (ensure (\<forall>i \<in> set (o_items ord). i_sellable_unit i \<noteq> None)
                  (conflict ORDER_ITEM_SELLABLE_ID_REQUIRED)) (\<lambda>_.
         bindE (prelock_stocks (sort_key (the \<circ> i_sellable_unit) (o_items ord)) True db) (\<lambda>locked.
         bindE (reserve_inventory ord locked db) (\<lambda>db1.
         let (ord', db2) = assign_status ord CONFIRMED updated_by db1 in
         bindE (open_credit_hold ord' actor db2) (\<lambda>(credit, db3).
         Inr (\<lparr>cr_order = ord', cr_released = [], cr_credit = Some credit,
               cr_intents = [Intent ''order_confirmed'' (o_id ord') (o_retailer ord')]\<rparr>, db3))))))))"

definition cancel_order :: "uuid \<Rightarrow> uuid option \<Rightarrow> store \<Rightarrow> command" where
  "cancel_order oid updated_by db =
     bindE (load_locked oid db) (\<lambda>ord.
     bindE (validate_transition ord CANCELLED) (\<lambda>_.
     bindE (ensure (\<not> (o_status ord = PAID \<or> o_status ord = PARTIALLY_PAID))
              (conflict REFUND_WORKFLOW_NOT_IMPLEMENTED)) (\<lambda>_.
     bindE (prelock_reservation_stocks ord db) (\<lambda>locked.
     bindE (release_reservations ord locked db) (\<lambda>(released, db1).
     bindE (settle_cancel_hold ord updated_by db1) (\<lambda>(credit, db2).
     let (ord', db3) = assign_status ord CANCELLED updated_by db2 in
     Inr (\<lparr>cr_order = ord', cr_released = released, cr_credit = Some credit, cr_intents = []\<rparr>, db3)))))))"

definition apply_transition ::
  "uuid \<Rightarrow> order_state \<Rightarrow> uuid option \<Rightarrow> pay_method option \<Rightarrow> store \<Rightarrow> command" where
  "apply_transition oid target updated_by method db =
     (if target \<in> command_owned_targets then Inl (InvalidStateTransition target target)
      else
        bindE (load_locked oid db) (\<lambda>ord.
        let additional_partial = o_status ord = PARTIALLY_PAID \<and> target = PARTIALLY_PAID
              \<and> (method = Some Cash \<or> method = Some Transfer) in
        bindE (ensure (is_valid_transition (o_status ord) target \<or> additional_partial)
                 (InvalidStateTransition (o_status ord) target)) (\<lambda>_.
        bindE (check_invariants (Some ord) (o_status ord) target) (\<lambda>_.
        bindE (post_transition_ledger ord (o_status ord) target method db) (\<lambda>(_, db1).
        let (ord', db2) = assign_status ord target updated_by db1;
            intents = (if target = CONFIRMED then [Intent ''order_confirmed'' (o_id ord') (o_retailer ord')]
                       else if target = FULFILLED then [Intent ''order_fulfilled'' (o_id ord') (o_retailer ord')]
                       else [])
        in Inr (\<lparr>cr_order = ord', cr_released = [], cr_credit = None, cr_intents = intents\<rparr>, db2))))))"

definition lifecycle_items :: "order_row \<Rightarrow> item_row list" where
  "lifecycle_items ord =
     sort_key (\<lambda>i. case i_sellable_unit i of Some u \<Rightarrow> u | None \<Rightarrow> i_id i) (o_items ord)"

definition fulfill_order :: "uuid \<Rightarrow> uuid option \<Rightarrow> store \<Rightarrow> command" where
  "fulfill_order oid updated_by db =
     bindE (load_locked oid db) (\<lambda>ord.
     bindE (validate_transition ord FULFILLED) (\<lambda>_.
     bindE (check_invariants (Some ord) (o_status ord) FULFILLED) (\<lambda>_.
     let items = lifecycle_items ord in
     bindE (ensure (\<forall>i \<in> set items. i_sellable_unit i \<noteq> None)
              (conflict ORDER_ITEM_SELLABLE_ID_REQUIRED)) (\<lambda>_.
     bindE (prelock_stocks items False db) (\<lambda>_.
     bindE (foldE (\<lambda>i. deduct_on_fulfillment (i_sellable_unit i) (i_sku_code i) (of_int (i_quantity i))
                          (o_id ord) (Some (i_id i)) updated_by) items db) (\<lambda>db1.
     let (ord', db2) = assign_status ord FULFILLED updated_by db1 in
     Inr (\<lparr>cr_order = ord', cr_released = [], cr_credit = None,
           cr_intents = [Intent ''order_fulfilled'' (o_id ord') (o_retailer ord')]\<rparr>, db2)))))))"

definition return_order :: "uuid \<Rightarrow> uuid option \<Rightarrow> store \<Rightarrow> command" where
  "return_order oid updated_by db =
     bindE (load_locked oid db) (\<lambda>ord.
     bindE (validate_transition ord RETURNED) (\<lambda>_.
     bindE (check_invariants (Some ord) (o_status ord) RETURNED) (\<lambda>_.
     let items = lifecycle_items ord in
     bindE (ensure (\<forall>i \<in> set items. i_sellable_unit i \<noteq> None)
              (conflict ORDER_ITEM_SELLABLE_ID_REQUIRED)) (\<lambda>_.
     bindE (post_transition_ledger ord (o_status ord) RETURNED None db) (\<lambda>(_, db1).
     bindE (prelock_stocks items False db1) (\<lambda>_.
     bindE (foldE (\<lambda>i. restock_on_return (i_sellable_unit i) (i_sku_code i) (of_int (i_quantity i))
                          (o_id ord) updated_by) items db1) (\<lambda>db2.
     let (ord', db3) = assign_status ord RETURNED updated_by db2 in
     Inr (\<lparr>cr_order = ord', cr_released = [], cr_credit = None, cr_intents = []\<rparr>, db3))))))))"

text \<open>
  The payment transition on an order whose row the caller has already locked, and the public entry
  that takes the lock first.
\<close>

definition apply_payment_transition_for_locked ::
  "order_row \<Rightarrow> order_state \<Rightarrow> pay_method option \<Rightarrow> uuid option \<Rightarrow> store \<Rightarrow> command" where
  "apply_payment_transition_for_locked ord target method updated_by db =
     (let current = o_status ord;
          additional_partial = current = PARTIALLY_PAID \<and> target = PARTIALLY_PAID
            \<and> (method = Some Cash \<or> method = Some Transfer);
          allowed = (current = CONFIRMED \<and> (target = PAID \<or> target = PARTIALLY_PAID))
            \<or> (current = PARTIALLY_PAID \<and> target = PAID) \<or> additional_partial
      in if \<not> allowed then Inl (InvalidStateTransition current target)
         else bindE (post_transition_ledger ord current target method db) (\<lambda>(_, db1).
           let (ord', db2) = assign_status ord target updated_by db1
           in Inr (\<lparr>cr_order = ord', cr_released = [], cr_credit = None, cr_intents = []\<rparr>, db2)))"

definition apply_payment_transition ::
  "uuid \<Rightarrow> order_state \<Rightarrow> pay_method option \<Rightarrow> uuid option \<Rightarrow> store \<Rightarrow> command" where
  "apply_payment_transition oid target method updated_by db =
     bindE (load_locked oid db) (\<lambda>ord.
       apply_payment_transition_for_locked ord target method updated_by db)"

text \<open>The compatibility adapter \<open>OrderService.transition\<close> of \<open>services/order_service.py\<close>.\<close>

definition order_service_transition ::
  "uuid \<Rightarrow> order_state \<Rightarrow> uuid option \<Rightarrow> pay_method option \<Rightarrow> store \<Rightarrow> error + (order_row \<times> store)" where
  "order_service_transition oid target updated_by method db =
     (if target = PAID \<or> target = PARTIALLY_PAID then Inl (InvalidStateTransition target target)
      else (case apply_transition oid target updated_by method db of
              Inr (r, db') \<Rightarrow> Inr (cr_order r, db')
            | Inl (Http st ORDER_NOT_FOUND) \<Rightarrow> Inl (ValueError ''order not found'')
            | Inl e \<Rightarrow> Inl e))"

section \<open>Stock effects of a command\<close>

lemma reserve_item_step: "reserve_item ord locked item db = Inr db' \<Longrightarrow> stock_step db db'"
  by (auto simp: reserve_item_def Let_def intro!: reserve_row_step split: option.splits if_splits)

interpretation reserve_line: inventory_op "reserve_item ord locked" "\<lambda>_ _. True" "\<lambda>_ _. True" for ord locked
  by unfold_locales (auto intro: reserve_item_step)

lemma release_reservation_Inr:
  "release_reservation locked v db = Inr db' \<longleftrightarrow>
     (\<exists>s. v_sku v \<in> set locked \<and> find_stock db (v_sku v) = Some s \<and> v_quantity v \<le> s_reserved s \<and>
        db' = set_reservation Released v (put_stock (s\<lparr>s_reserved := s_reserved s - v_quantity v\<rparr>) db))"
  by (auto simp: release_reservation_def not_less split: option.splits if_splits)

interpretation release_line: inventory_op "release_reservation locked" is_active other_reservation for locked
proof
  fix v db db' assume "is_active v db" and "release_reservation locked v db = Inr db'"
  then show "stock_step db db'"
    by (auto simp: release_reservation_Inr is_active_def intro!: release_row_step)
next
  fix w db v db' assume "is_active w db" "other_reservation v w" "release_reservation locked v db = Inr db'"
  then show "is_active w db'"
    by (auto simp: release_reservation_Inr intro!: is_active_released)
qed

lemma flush_reservations_Inr [result_simps]:
  "flush_reservations db = Inr db' \<longleftrightarrow> db' = db \<and> (\<forall>v \<in> set (t_reservations db). 0 < v_quantity v) \<and>
     distinct (map v_item (filter (\<lambda>v. v_status v = Reserved) (t_reservations db)))"
  by (auto simp: flush_reservations_def)

lemma reserve_inventory_step: "reserve_inventory ord locked db = Inr db' \<Longrightarrow> stock_step db db'"
  by (auto simp: reserve_inventory_def result_simps intro!: reserve_line.loop_step)

lemma release_reservations_step:
  "release_reservations ord locked db = Inr (rs, db') \<Longrightarrow> accounted db \<Longrightarrow> stock_step db db'"
  using active_reservations_work [of db "o_id ord"]
  by (auto simp: release_reservations_def result_simps Let_def intro!: release_line.loop_step)

text \<open>The rows a reservation loop adds, and the units it reserves.\<close>

definition item_reservation :: "order_row \<Rightarrow> item_row \<Rightarrow> uuid \<Rightarrow> reservation_row" where
  "item_reservation ord item rid = \<lparr>v_id = rid, v_order = o_id ord, v_item = i_id item,
     v_sku = the (i_sellable_unit item), v_code = i_sku_code item,
     v_quantity = of_int (i_quantity item), v_status = Reserved, v_deleted = False\<rparr>"

definition ordered_units :: "item_row list \<Rightarrow> uuid \<Rightarrow> money" where
  "ordered_units items k = (\<Sum>i\<leftarrow>items. if i_sellable_unit i = Some k then of_int (i_quantity i) else 0)"

lemma reserve_item_Inr:
  "reserve_item ord locked item db = Inr db' \<longleftrightarrow>
     (\<exists>sku s. i_sellable_unit item = Some sku \<and> sku \<in> set locked \<and> find_stock db sku = Some s \<and>
        of_int (i_quantity item) \<le> s_on_hand s - s_reserved s \<and>
        db' = put_stock (s\<lparr>s_reserved := s_reserved s + of_int (i_quantity item)\<rparr>)
                (insert_reservation ord item sku (of_int (i_quantity item)) db))"
  by (auto simp: reserve_item_def Let_def not_less split: option.splits if_splits)

lemma reserve_loop_effect:
  "foldE (reserve_item ord locked) items db = Inr db' \<Longrightarrow>
     (\<exists>rids. length rids = length items \<and>
        t_reservations db' = t_reservations db @ map2 (item_reservation ord) items rids) \<and>
     reserved_units db' k = reserved_units db k + ordered_units items k"
proof (induction items arbitrary: db)
  case Nil
  then show ?case by (auto simp: ordered_units_def)
next
  case (Cons i items)
  then obtain db1 where i: "reserve_item ord locked i db = Inr db1"
    and items: "foldE (reserve_item ord locked) items db1 = Inr db'"
    by (auto simp: result_simps)
  from Cons.IH [OF items] obtain rids where IH: "length rids = length items"
      "t_reservations db' = t_reservations db1 @ map2 (item_reservation ord) items rids"
      "reserved_units db' k = reserved_units db1 k + ordered_units items k"
    by blast
  from i have first: "t_reservations db1 = t_reservations db @ [item_reservation ord i (t_uuids db (t_drawn db))]"
    and units: "reserved_units db1 k = reserved_units db k + (if i_sellable_unit i = Some k then of_int (i_quantity i) else 0)"
    by (auto simp: reserve_item_Inr item_reservation_def reserved_units_insert)
  show ?case
  proof
    show "\<exists>rids. length rids = length (i # items) \<and>
        t_reservations db' = t_reservations db @ map2 (item_reservation ord) (i # items) rids"
      using IH(1,2) first by (intro exI [of _ "t_uuids db (t_drawn db) # rids"]) simp
    show "reserved_units db' k = reserved_units db k + ordered_units (i # items) k"
      using IH(3) units by (simp add: ordered_units_def)
  qed
qed

text \<open>Reserving never oversells: no stock row ends with more reserved than it has on hand.\<close>

definition not_oversold :: "store \<Rightarrow> bool" where
  "not_oversold db \<longleftrightarrow> (\<forall>s \<in> set (t_stocks db). s_reserved s \<le> s_on_hand s)"

lemma not_oversold_put:
  "not_oversold db \<Longrightarrow> s_reserved s \<le> s_on_hand s \<Longrightarrow> t_stocks db' = row_put s_sku s (t_stocks db) \<Longrightarrow> not_oversold db'"
  by (auto simp: not_oversold_def dest!: set_row_put)

lemma reserve_item_not_oversold:
  assumes "reserve_item ord locked item db = Inr db'" and "not_oversold db"
  shows "not_oversold db'"
proof -
  from assms(1) obtain sku s where avail: "of_int (i_quantity item) \<le> s_on_hand s - s_reserved s"
    and db': "db' = put_stock (s\<lparr>s_reserved := s_reserved s + of_int (i_quantity item)\<rparr>)
                (insert_reservation ord item sku (of_int (i_quantity item)) db)"
    by (auto simp: reserve_item_Inr)
  from assms(2) show ?thesis
    by (rule not_oversold_put [where s = "s\<lparr>s_reserved := s_reserved s + of_int (i_quantity item)\<rparr>"])
      (use avail in \<open>simp_all add: db'\<close>)
qed

lemma reserve_loop_not_oversold:
  "foldE (reserve_item ord locked) items db = Inr db' \<Longrightarrow> not_oversold db \<Longrightarrow> not_oversold db'"
  by (erule foldE_invariant [where P = not_oversold]) (auto intro: reserve_item_not_oversold)

section \<open>Effects on the money tables\<close>

lemma money_side_eq:
  assumes "money_side db' = money_side db"
  shows "t_orders db' = t_orders db" "t_holds db' = t_holds db" "t_bindings db' = t_bindings db"
    "t_ledger db' = t_ledger db" "t_payments db' = t_payments db" "t_receipts db' = t_receipts db"
    "t_declarations db' = t_declarations db" "t_skus db' = t_skus db" "t_catalog db' = t_catalog db"
    "t_prices db' = t_prices db" "t_uuids db' = t_uuids db" "t_now db' = t_now db"
  using assms by (simp_all add: money_side_def)

lemma stock_step_money: "stock_step db db' \<Longrightarrow> money_side db' = money_side db"
  by (simp add: stock_step_def)

lemmas stock_step_tables = money_side_eq [OF stock_step_money]

lemma order_holds_cong: "t_holds db' = t_holds db \<Longrightarrow> order_holds db' oid = order_holds db oid"
  by (simp add: order_holds_def)

text \<open>Adding to the balance of the live binding of a pair.\<close>

definition binding_of :: "uuid \<Rightarrow> uuid \<Rightarrow> binding_row \<Rightarrow> bool" where
  "binding_of ws ret b \<longleftrightarrow> b_wholesaler b = ws \<and> b_retailer b = ret \<and> \<not> b_deleted b"

definition bump_bindings :: "uuid \<Rightarrow> uuid \<Rightarrow> money \<Rightarrow> binding_row list \<Rightarrow> binding_row list" where
  "bump_bindings ws ret delta = map (\<lambda>b. if binding_of ws ret b then b\<lparr>b_balance := num2 (b_balance b + delta)\<rparr> else b)"

text \<open>A conditional update that matches a row updates the one live binding of the pair.\<close>

lemma update_binding_hit:
  assumes keys: "distinct (map (\<lambda>b. (b_wholesaler b, b_retailer b)) (t_bindings db))"
    and run: "update_binding extra ws ret delta db = (n, db')" and n: "n \<noteq> 0"
  shows "\<exists>b \<in> set (t_bindings db). binding_of ws ret b \<and> extra b \<and> 0 \<le> b_balance b + delta \<and>
    db' = db\<lparr>t_bindings := bump_bindings ws ret delta (t_bindings db)\<rparr>"
proof -
  let ?hit = "\<lambda>b. b_wholesaler b = ws \<and> b_retailer b = ret \<and> \<not> b_deleted b \<and> extra b \<and> 0 \<le> b_balance b + delta"
  from run n have "filter ?hit (t_bindings db) \<noteq> []" by (auto simp: update_binding_def)
  then obtain b where b: "b \<in> set (t_bindings db)" "?hit b" by (auto simp: filter_empty_conv)
  have only: "?hit x \<longleftrightarrow> binding_of ws ret x" if x: "x \<in> set (t_bindings db)" for x
  proof
    assume "binding_of ws ret x"
    then have "(b_wholesaler x, b_retailer x) = (b_wholesaler b, b_retailer b)"
      using b(2) by (simp add: binding_of_def)
    then have "x = b"
      using keys x b(1) by (auto simp: distinct_map dest!: inj_onD)
    with b(2) show "?hit x" by simp
  qed (simp add: binding_of_def)
  have "map (\<lambda>b. if ?hit b then b\<lparr>b_balance := num2 (b_balance b + delta)\<rparr> else b) (t_bindings db) =
      bump_bindings ws ret delta (t_bindings db)"
    unfolding bump_bindings_def using only by (intro map_cong) auto
  with run b show ?thesis by (auto simp: update_binding_def binding_of_def Let_def)
qed

section \<open>What each command does\<close>

lemma validate_transition_Inr [result_simps]:
  "validate_transition ord target = Inr u \<longleftrightarrow>
     is_valid_transition (o_status ord) target \<and> (target = CONFIRMED \<longrightarrow> 0 < o_total ord)"
  by (cases "o_status ord") (auto simp: validate_transition_def not_le)

lemma load_locked_Inr [result_simps]: "load_locked oid db = Inr ord \<longleftrightarrow> live_order db oid = Some ord"
  by (simp add: load_locked_def split: option.splits)

definition with_status :: "order_row \<Rightarrow> order_state \<Rightarrow> uuid option \<Rightarrow> order_row" where
  "with_status ord st usr = ord\<lparr>o_status := st,
     o_updated_by := (case usr of Some u \<Rightarrow> Some u | None \<Rightarrow> o_updated_by ord)\<rparr>"

lemma with_status_simps [simp]:
  "o_id (with_status ord st usr) = o_id ord" "o_status (with_status ord st usr) = st"
  "o_total (with_status ord st usr) = o_total ord" "o_items (with_status ord st usr) = o_items ord"
  "o_wholesaler (with_status ord st usr) = o_wholesaler ord" "o_retailer (with_status ord st usr) = o_retailer ord"
  "o_deleted (with_status ord st usr) = o_deleted ord"
  by (simp_all add: with_status_def)

lemma assign_status_eq: "assign_status ord st usr db = (with_status ord st usr, put_order (with_status ord st usr) db)"
  by (simp add: assign_status_def with_status_def Let_def)

definition fresh_hold :: "order_row \<Rightarrow> uuid \<Rightarrow> uuid \<Rightarrow> hold_row" where
  "fresh_hold ord actor hid = \<lparr>h_id = hid, h_order = o_id ord, h_amount = o_total ord, h_remaining = o_total ord,
     h_status = Active, h_created_by = Some actor, h_updated_by = Some actor\<rparr>"

lemma open_credit_hold_effect:
  assumes keys: "distinct (map (\<lambda>b. (b_wholesaler b, b_retailer b)) (t_bindings db))"
    and run: "open_credit_hold ord actor db = Inr (x, db')"
  shows "x = o_total ord \<and> 0 < o_total ord \<and> order_holds db (o_id ord) = [] \<and>
    (\<exists>b \<in> set (t_bindings db). binding_of (o_wholesaler ord) (o_retailer ord) b \<and> b_status b = Binding_Active \<and>
       0 \<le> b_balance b + o_total ord) \<and>
    db' = db\<lparr>t_drawn := Suc (t_drawn db),
             t_holds := t_holds db @ [fresh_hold ord actor (t_uuids db (t_drawn db))],
             t_bindings := bump_bindings (o_wholesaler ord) (o_retailer ord) (o_total ord) (t_bindings db)\<rparr>"
proof -
  let ?db = "db\<lparr>t_drawn := Suc (t_drawn db),
     t_holds := t_holds db @ [fresh_hold ord actor (t_uuids db (t_drawn db))]\<rparr>"
  obtain n db3 where u: "update_binding (\<lambda>b. b_status b = Binding_Active)
      (o_wholesaler ord) (o_retailer ord) (o_total ord) ?db = (n, db3)" by fastforce
  with run have n: "n \<noteq> 0" "db' = db3" "x = o_total ord" "0 < o_total ord" "order_holds db (o_id ord) = []"
    by (auto simp: open_credit_hold_def draw_uuid_def fresh_hold_def Let_def split: if_splits)
  have "distinct (map (\<lambda>b. (b_wholesaler b, b_retailer b)) (t_bindings ?db))" using keys by simp
  from update_binding_hit [OF this u n(1)] n show ?thesis by auto
qed

lemma confirm_order_effect:
  assumes keys: "distinct (map (\<lambda>b. (b_wholesaler b, b_retailer b)) (t_bindings db))"
    and run: "confirm_order oid usr db = Inr (r, db')"
  obtains ord actor locked db1 db2 where
    "live_order db oid = Some ord" "usr = Some actor" "o_status ord = DRAFT" "0 < o_total ord"
    "\<forall>i \<in> set (o_items ord). i_sellable_unit i \<noteq> None"
    "prelock_stocks (sort_key (the \<circ> i_sellable_unit) (o_items ord)) True db = Inr locked"
    "reserve_inventory ord locked db = Inr db1" "stock_step db db1" "order_holds db oid = []"
    "\<exists>b \<in> set (t_bindings db). binding_of (o_wholesaler ord) (o_retailer ord) b \<and> b_status b = Binding_Active"
    "db2 = put_order (with_status ord CONFIRMED usr) db1"
    "db' = db2\<lparr>t_drawn := Suc (t_drawn db2),
             t_holds := t_holds db @ [fresh_hold ord actor (t_uuids db (t_drawn db2))],
             t_bindings := bump_bindings (o_wholesaler ord) (o_retailer ord) (o_total ord) (t_bindings db)\<rparr>"
    "cr_order r = with_status ord CONFIRMED usr" "cr_credit r = Some (o_total ord)"
proof -
  from run obtain ord actor locked db1 x where c: "live_order db oid = Some ord" "usr = Some actor"
      "o_status ord = DRAFT" "0 < o_total ord" "\<forall>i \<in> set (o_items ord). i_sellable_unit i \<noteq> None"
      "prelock_stocks (sort_key (the \<circ> i_sellable_unit) (o_items ord)) True db = Inr locked"
      "reserve_inventory ord locked db = Inr db1"
    and h: "open_credit_hold (with_status ord CONFIRMED usr) actor
        (put_order (with_status ord CONFIRMED usr) db1) = Inr (x, db')"
    and r: "cr_order r = with_status ord CONFIRMED usr" "cr_credit r = Some x"
    by (cases usr) (auto simp: confirm_order_def result_simps assign_status_eq split: prod.splits)
  have step: "stock_step db db1" using c(7) by (rule reserve_inventory_step)
  note t = stock_step_tables [OF step]
  have oid: "o_id ord = oid" using live_order_Some [OF c(1)] by simp
  let ?db2 = "put_order (with_status ord CONFIRMED usr) db1"
  have "distinct (map (\<lambda>b. (b_wholesaler b, b_retailer b)) (t_bindings ?db2))"
    using keys t by simp
  note e = open_credit_hold_effect [OF this h]
  have holds: "order_holds db oid = []"
    using e order_holds_cong [of ?db2 db] t oid by simp
  have hit: "\<exists>b \<in> set (t_bindings db). binding_of (o_wholesaler ord) (o_retailer ord) b \<and> b_status b = Binding_Active"
    using e t by auto
  have db': "db' = ?db2\<lparr>t_drawn := Suc (t_drawn ?db2),
             t_holds := t_holds db @ [fresh_hold ord actor (t_uuids db (t_drawn ?db2))],
             t_bindings := bump_bindings (o_wholesaler ord) (o_retailer ord) (o_total ord) (t_bindings db)\<rparr>"
    using e t by (simp add: fresh_hold_def)
  show thesis
    by (rule that [OF c step holds hit refl db' r(1)]) (use e r in simp)
qed

lemma flush_hold_Inr [result_simps]:
  "flush_hold h db = Inr db' \<longleftrightarrow> hold_row_ok (h\<lparr>h_remaining := num2 (h_remaining h)\<rparr>) \<and>
     db' = put_hold (h\<lparr>h_remaining := num2 (h_remaining h)\<rparr>) db"
  by (auto simp: flush_hold_def Let_def)

definition released_hold :: "hold_row \<Rightarrow> uuid option \<Rightarrow> hold_row" where
  "released_hold h usr = h\<lparr>h_status := Hold_Released, h_remaining := 0, h_updated_by := usr\<rparr>"

lemma settle_cancel_hold_effect:
  assumes keys: "distinct (map (\<lambda>b. (b_wholesaler b, b_retailer b)) (t_bindings db))"
    and run: "settle_cancel_hold ord usr db = Inr (x, db')" and st: "o_status ord \<noteq> DRAFT"
  shows "\<exists>h. order_holds db (o_id ord) = [h] \<and> h_status h = Active \<and> h_amount h = o_total ord \<and>
    h_remaining h = o_total ord \<and> x = o_total ord \<and>
    (\<exists>b \<in> set (t_bindings db). binding_of (o_wholesaler ord) (o_retailer ord) b \<and> 0 \<le> b_balance b - o_total ord) \<and>
    db' = (put_hold (released_hold h usr) db)
       \<lparr>t_bindings := bump_bindings (o_wholesaler ord) (o_retailer ord) (- o_total ord) (t_bindings db)\<rparr>"
proof -
  from run st obtain h where h: "order_holds db (o_id ord) = [h]" "h_status h = Active"
      "h_amount h = o_total ord" "h_remaining h = o_total ord"
    and rest: "bindE (flush_hold (released_hold h usr) db) (\<lambda>db1.
        (let (n, db2) = update_binding (\<lambda>_. True) (o_wholesaler ord) (o_retailer ord) (- o_total ord) db1
         in if n = 0 then Inl (conflict BINDING_NOT_FOUND) else Inr (o_total ord, db2))) = Inr (x, db')"
    by (auto simp: settle_cancel_hold_def released_hold_def Let_def split: list.splits if_splits)
  let ?db1 = "put_hold (released_hold h usr) db"
  have rel: "(released_hold h usr)\<lparr>h_remaining := num2 (h_remaining (released_hold h usr))\<rparr> = released_hold h usr"
    by (simp add: released_hold_def)
  obtain n db2 where u: "update_binding (\<lambda>_. True) (o_wholesaler ord) (o_retailer ord) (- o_total ord) ?db1 = (n, db2)"
    by fastforce
  with rest rel have n: "n \<noteq> 0" "db' = db2" "x = o_total ord"
    by (auto simp: result_simps split: if_splits)
  have "distinct (map (\<lambda>b. (b_wholesaler b, b_retailer b)) (t_bindings ?db1))" using keys by simp
  from update_binding_hit [OF this u n(1)] n h show ?thesis by auto
qed

lemma cancel_order_effect:
  assumes keys: "distinct (map (\<lambda>b. (b_wholesaler b, b_retailer b)) (t_bindings db))"
    and acc: "accounted db" and run: "cancel_order oid usr db = Inr (r, db')"
  obtains ord db1 where
    "live_order db oid = Some ord" "o_status ord = DRAFT" "order_holds db oid = []"
    "stock_step db db1" "db' = put_order (with_status ord CANCELLED usr) db1" "cr_credit r = Some 0"
    "\<exists>locked released. release_reservations ord locked db = Inr (released, db1)"
  | ord db1 h where
    "live_order db oid = Some ord" "o_status ord = CONFIRMED" "order_holds db oid = [h]"
    "h_status h = Active" "h_amount h = o_total ord" "h_remaining h = o_total ord" "stock_step db db1"
    "db' = put_order (with_status ord CANCELLED usr) ((put_hold (released_hold h usr) db1)
       \<lparr>t_bindings := bump_bindings (o_wholesaler ord) (o_retailer ord) (- o_total ord) (t_bindings db)\<rparr>)"
    "\<exists>b \<in> set (t_bindings db). binding_of (o_wholesaler ord) (o_retailer ord) b \<and> 0 \<le> b_balance b - o_total ord"
    "cr_credit r = Some (o_total ord)"
    "\<exists>locked released. release_reservations ord locked db = Inr (released, db1)"
proof -
  from run obtain ord locked released db1 x db2 where ord: "live_order db oid = Some ord"
    and st: "o_status ord = DRAFT \<or> o_status ord = CONFIRMED"
    and rel: "release_reservations ord locked db = Inr (released, db1)"
    and hold: "settle_cancel_hold ord usr db1 = Inr (x, db2)"
    and db': "db' = put_order (with_status ord CANCELLED usr) db2" and r: "cr_credit r = Some x"
    by (auto simp: cancel_order_def result_simps assign_status_eq split: prod.splits)
  have step: "stock_step db db1" using rel acc by (rule release_reservations_step)
  note t = stock_step_tables [OF step]
  have holds: "order_holds db1 (o_id ord) = order_holds db oid"
    using order_holds_cong [OF t(2)] live_order_Some [OF ord] by simp
  show thesis
  proof (cases "o_status ord = DRAFT")
    case True
    with hold holds have "order_holds db oid = []" "db2 = db1" "x = 0"
      by (auto simp: settle_cancel_hold_def split: if_splits)
    with ord True step db' r rel show thesis by (intro that(1)) auto
  next
    case False
    have "distinct (map (\<lambda>b. (b_wholesaler b, b_retailer b)) (t_bindings db1))" using keys t by simp
    from settle_cancel_hold_effect [OF this hold False] obtain h where
        h: "order_holds db oid = [h]" "h_status h = Active" "h_amount h = o_total ord"
          "h_remaining h = o_total ord"
      and x: "x = o_total ord"
      and b: "\<exists>b \<in> set (t_bindings db). binding_of (o_wholesaler ord) (o_retailer ord) b \<and> 0 \<le> b_balance b - o_total ord"
      and db2: "db2 = (put_hold (released_hold h usr) db1)
       \<lparr>t_bindings := bump_bindings (o_wholesaler ord) (o_retailer ord) (- o_total ord) (t_bindings db)\<rparr>"
      unfolding holds t by blast
    from st False have "o_status ord = CONFIRMED" by simp
    from that(2) [OF ord this h step _ b] show thesis using db' db2 r x rel by auto
  qed
qed

lemma fulfill_order_effect:
  assumes run: "fulfill_order oid usr db = Inr (r, db')"
  obtains ord db1 where
    "live_order db oid = Some ord" "o_status ord = PAID"
    "foldE (\<lambda>i. deduct_on_fulfillment (i_sellable_unit i) (i_sku_code i) (of_int (i_quantity i))
       (o_id ord) (Some (i_id i)) usr) (lifecycle_items ord) db = Inr db1" "stock_step db db1"
    "db' = put_order (with_status ord FULFILLED usr) db1" "cr_order r = with_status ord FULFILLED usr"
proof -
  from run obtain ord db1 where ord: "live_order db oid = Some ord" "o_status ord = PAID"
    and loop: "foldE (\<lambda>i. deduct_on_fulfillment (i_sellable_unit i) (i_sku_code i) (of_int (i_quantity i))
       (o_id ord) (Some (i_id i)) usr) (lifecycle_items ord) db = Inr db1"
    and db': "db' = put_order (with_status ord FULFILLED usr) db1" "cr_order r = with_status ord FULFILLED usr"
    by (auto simp: fulfill_order_def result_simps assign_status_eq Let_def)
  have "stock_step db db1"
    using fulfil_line.loop_step [OF loop] by simp
  with ord loop db' that show thesis by blast
qed

lemma return_order_effect:
  assumes run: "return_order oid usr db = Inr (r, db')"
  obtains ord posted db1 db2 where
    "live_order db oid = Some ord" "o_status ord = FULFILLED"
    "post_order_return oid (o_total ord) db = Inr (posted, db1)"
    "foldE (\<lambda>i. restock_on_return (i_sellable_unit i) (i_sku_code i) (of_int (i_quantity i))
       (o_id ord) usr) (lifecycle_items ord) db1 = Inr db2" "stock_step db1 db2"
    "db' = put_order (with_status ord RETURNED usr) db2" "cr_order r = with_status ord RETURNED usr"
proof -
  from run obtain ord posted db1 db2 where ord: "live_order db oid = Some ord" "o_status ord = FULFILLED"
    and post: "post_order_return (o_id ord) (o_total ord) db = Inr (posted, db1)"
    and loop: "foldE (\<lambda>i. restock_on_return (i_sellable_unit i) (i_sku_code i) (of_int (i_quantity i))
       (o_id ord) usr) (lifecycle_items ord) db1 = Inr db2"
    and db': "db' = put_order (with_status ord RETURNED usr) db2" "cr_order r = with_status ord RETURNED usr"
    by (auto simp: return_order_def result_simps assign_status_eq post_transition_ledger_def Let_def)
  have "stock_step db1 db2"
    using return_line.loop_step [OF loop] by simp
  with ord post loop db' live_order_Some [OF ord(1)] that show thesis by auto
qed

lemma payment_transition_effect:
  assumes run: "apply_payment_transition_for_locked ord target method usr db = Inr (r, db')"
  obtains posted db1 where
    "o_status ord = CONFIRMED \<or> o_status ord = PARTIALLY_PAID" "target = PAID \<or> target = PARTIALLY_PAID"
    "target = PAID \<and> method \<noteq> Some Credit" "post_payment_received (o_id ord) (o_total ord) db = Inr (posted, db1)"
    "db' = put_order (with_status ord target usr) db1" "cr_order r = with_status ord target usr"
  | "o_status ord = CONFIRMED \<or> o_status ord = PARTIALLY_PAID" "target = PAID \<or> target = PARTIALLY_PAID"
    "\<not> (target = PAID \<and> method \<noteq> Some Credit)"
    "db' = put_order (with_status ord target usr) db" "cr_order r = with_status ord target usr"
proof -
  have to: "(o_status ord = CONFIRMED \<or> o_status ord = PARTIALLY_PAID) \<and> (target = PAID \<or> target = PARTIALLY_PAID)"
    using run by (auto simp: apply_payment_transition_for_locked_def Let_def split: if_splits)
  have allowed: "bindE (post_transition_ledger ord (o_status ord) target method db) (\<lambda>(_, db1).
           let (ord', db2) = assign_status ord target usr db1
           in Inr (\<lparr>cr_order = ord', cr_released = [], cr_credit = None, cr_intents = []\<rparr>, db2)) = Inr (r, db')"
    using run by (auto simp: apply_payment_transition_for_locked_def Let_def split: if_splits)
  show thesis
  proof (cases "target = PAID \<and> method \<noteq> Some Credit")
    case True
    with allowed to that(1) show thesis
      by (fastforce simp: result_simps post_transition_ledger_def assign_status_eq)
  next
    case False
    with allowed to that(2) show thesis
      by (auto simp: result_simps post_transition_ledger_def assign_status_eq)
  qed
qed

section \<open>Reading back what was written\<close>

lemma live_order_cong: "t_orders db' = t_orders db \<Longrightarrow> live_order db' oid = live_order db oid"
  by (simp add: live_order_def)

lemma live_order_put:
  assumes "distinct (map o_id (t_orders db))" and "live_order db (o_id ord') = Some ord" and "\<not> o_deleted ord'"
    and "t_orders db' = row_put o_id ord' (t_orders db)"
  shows "live_order db' oid = (if oid = o_id ord' then Some ord' else live_order db oid)"
proof -
  have other: "find (\<lambda>r. o_id r = oid \<and> \<not> o_deleted r) (row_put o_id ord' rows) =
      find (\<lambda>r. o_id r = oid \<and> \<not> o_deleted r) rows" if "oid \<noteq> o_id ord'" for rows
    using that by (induction rows) auto
  have same: "find (\<lambda>r. o_id r = o_id ord' \<and> \<not> o_deleted r) (row_put o_id ord' rows) = Some ord'"
    if "find (\<lambda>r. o_id r = o_id ord' \<and> \<not> o_deleted r) rows = Some ord" for rows
    using that assms(3) by (induction rows) (auto split: if_splits)
  show ?thesis
    using other same assms(2) by (auto simp: live_order_def assms(4))
qed

lemma order_holds_row_put:
  "t_holds db' = row_put h_order h (t_holds db) \<Longrightarrow>
   order_holds db' oid = (if oid = h_order h then map (\<lambda>_. h) (order_holds db oid) else order_holds db oid)"
  using order_holds_put [of h db oid] by (simp add: order_holds_def)

lemma order_holds_append:
  "t_holds db' = t_holds db @ [h] \<Longrightarrow>
   order_holds db' oid = (if oid = h_order h then order_holds db oid @ [h] else order_holds db oid)"
  by (simp add: order_holds_def)

lemma bump_keys [simp]:
  "map (\<lambda>b. (b_wholesaler b, b_retailer b)) (bump_bindings ws ret d bs) = map (\<lambda>b. (b_wholesaler b, b_retailer b)) bs"
  by (induction bs) (auto simp: bump_bindings_def)

lemma ordered_units_sort: "ordered_units (sort_key f items) = ordered_units items"
proof
  fix k
  have mset: "(\<Sum>i\<leftarrow>xs. g i) = sum_mset (image_mset g (mset xs))" for xs and g :: "item_row \<Rightarrow> money"
    by (simp flip: sum_mset_sum_list mset_map)
  show "ordered_units (sort_key f items) k = ordered_units items k"
    by (simp add: ordered_units_def mset)
qed

section \<open>Properties\<close>

text \<open>
  C9: Confirming an order succeeds only for a live draft with a positive total and no hold. It
  then reserves exactly the ordered units of every SKU without overselling any stock row and keeps
  the reserved columns equal to the reservations; opens one active hold for the whole total; adds
  the total to the balance of the retailer's binding; and touches no other order, no payment and
  no ledger entry.
\<close>

theorem confirm_order_spec:
  assumes "store_keys db" and "accounted db" and run: "confirm_order oid usr db = Inr (r, db')"
  shows "\<exists>ord actor hid. live_order db oid = Some ord \<and> o_status ord = DRAFT \<and> 0 < o_total ord \<and> usr = Some actor \<and>
    live_order db' oid = Some (with_status ord CONFIRMED usr) \<and>
    (\<forall>k. reserved_units db' k = reserved_units db k + ordered_units (o_items ord) k) \<and>
    accounted db' \<and> (not_oversold db \<longrightarrow> not_oversold db') \<and>
    order_holds db oid = [] \<and> order_holds db' oid = [fresh_hold ord actor hid] \<and>
    t_bindings db' = bump_bindings (o_wholesaler ord) (o_retailer ord) (o_total ord) (t_bindings db) \<and>
    t_ledger db' = t_ledger db \<and> t_payments db' = t_payments db \<and>
    (\<forall>other. other \<noteq> oid \<longrightarrow> live_order db' other = live_order db other \<and> order_holds db' other = order_holds db other)"
proof -
  have keys: "distinct (map (\<lambda>b. (b_wholesaler b, b_retailer b)) (t_bindings db))"
    and oids: "distinct (map o_id (t_orders db))"
    using assms(1) by (simp_all add: store_keys_def)
  from keys run obtain ord actor locked db1 db2 where c:
    "live_order db oid = Some ord" "usr = Some actor" "o_status ord = DRAFT" "0 < o_total ord"
    "reserve_inventory ord locked db = Inr db1" "stock_step db db1" "order_holds db oid = []"
    and db2: "db2 = put_order (with_status ord CONFIRMED usr) db1"
    and db': "db' = db2\<lparr>t_drawn := Suc (t_drawn db2),
             t_holds := t_holds db @ [fresh_hold ord actor (t_uuids db (t_drawn db2))],
             t_bindings := bump_bindings (o_wholesaler ord) (o_retailer ord) (o_total ord) (t_bindings db)\<rparr>"
    by (rule confirm_order_effect)
  note t = stock_step_tables [OF c(6)]
  have ord: "o_id ord = oid" "\<not> o_deleted ord" using live_order_Some [OF c(1)] by simp_all
  from c(5) have loop: "foldE (reserve_item ord locked) (sort_key (the \<circ> i_sellable_unit) (o_items ord)) db = Inr db1"
    by (auto simp: reserve_inventory_def result_simps)
  have "accounted db1" using c(6) assms(2) by (simp add: stock_step_def)
  then have acc: "accounted db'"
    unfolding accounted_def reservation_ids_def reserved_units_def reserved_column_def db' db2
    by (auto intro: less_SucI)
  have units: "reserved_units db' k = reserved_units db k + ordered_units (o_items ord) k" for k
    using reserve_loop_effect [OF loop, of k]
    by (simp add: ordered_units_sort reserved_units_def db' db2)
  have over: "not_oversold db \<longrightarrow> not_oversold db'"
    using reserve_loop_not_oversold [OF loop] by (simp add: not_oversold_def db' db2)
  have orders: "t_orders db' = row_put o_id (with_status ord CONFIRMED usr) (t_orders db)"
    by (simp add: db' db2 t)
  have live: "live_order db' x = (if x = oid then Some (with_status ord CONFIRMED usr) else live_order db x)" for x
    using live_order_put [OF oids _ _ orders, where oid = x and ord = ord] c(1) ord by simp
  have holds: "order_holds db' x = (if x = oid then order_holds db x @ [fresh_hold ord actor (t_uuids db (t_drawn db2))]
      else order_holds db x)" for x
    using order_holds_append [of db' db "fresh_hold ord actor (t_uuids db (t_drawn db2))" x] ord
    by (simp add: db' fresh_hold_def)
  show ?thesis
    using c acc units over live holds t
    by (intro exI [of _ ord] exI [of _ actor] exI [of _ "t_uuids db (t_drawn db2)"]) (simp add: db' db2)
qed

lemmas confirm_run_defs = confirm_order_def load_locked_def live_order_def validate_item_identities_def
  prelock_stocks_def locked_stock_by_sku_id_def find_stock_def sellable_def reserve_inventory_def reserve_item_def
  flush_reservations_def insert_reservation_def draw_uuid_def put_stock_def assign_status_def put_order_def
  open_credit_hold_def order_holds_def update_binding_def validate_transition_def

lemma sample_confirm: "\<exists>r db'. confirm_order 1 (Some 9) sample_store = Inr (r, db')"
  by (simp add: confirm_run_defs sample_defs Let_def)

lemma sample_keys: "store_keys sample_store"
  by (simp add: store_keys_def sample_defs)

lemma sample_accounted: "accounted sample_store"
  by (simp add: accounted_def reservation_ids_def reserved_units_def reserved_column_def inj_def sample_defs)

theorem confirm_order_spec_witness:
  "\<exists>r db'. confirm_order 1 (Some 9) sample_store = Inr (r, db') \<and> accounted db' \<and>
     (\<exists>hid. order_holds db' 1 = [fresh_hold sample_order 9 hid])"
proof -
  obtain r db' where run: "confirm_order 1 (Some 9) sample_store = Inr (r, db')"
    using sample_confirm by blast
  have live: "live_order sample_store 1 = Some sample_order"
    by (simp add: live_order_def sample_defs)
  from confirm_order_spec [OF sample_keys sample_accounted run] run live show ?thesis by auto
qed

text \<open>
  The generic transition writes nothing but the status of one live draft, and only to void it:
  every other target is refused, so the status of an order is written by the dedicated commands.
\<close>

theorem apply_transition_only_voids_drafts:
  assumes "apply_transition oid target usr method db = Inr (r, db')"
  shows "target = VOIDED \<and> (\<exists>ord. live_order db oid = Some ord \<and> o_status ord = DRAFT \<and>
    cr_order r = with_status ord VOIDED usr \<and> db' = put_order (with_status ord VOIDED usr) db)"
proof -
  have "target = DRAFT \<or> target = VOIDED"
    using assms by (cases target) (auto simp: apply_transition_def command_owned_targets_def)
  with assms show ?thesis
    by (auto simp: apply_transition_def command_owned_targets_def result_simps Let_def
        assign_status_eq post_transition_ledger_def)
qed

theorem apply_transition_only_voids_drafts_witness:
  "\<exists>r db'. apply_transition 1 VOIDED None None sample_store = Inr (r, db') \<and>
     db' = put_order (with_status sample_order VOIDED None) sample_store"
proof -
  obtain r db' where run: "apply_transition 1 VOIDED None None sample_store = Inr (r, db')"
    by (simp add: apply_transition_def command_owned_targets_def load_locked_def live_order_def
        check_invariants_def post_transition_ledger_def assign_status_def sample_defs Let_def)
  have "live_order sample_store 1 = Some sample_order"
    by (simp add: live_order_def sample_defs)
  with apply_transition_only_voids_drafts [OF run] run show ?thesis by auto
qed

end
