(* ===== verification/Text_Codec.thy ===== *)
theory Text_Codec
  imports Erp_Prelude
begin

text \<open>
  Text the components share: white space and \<open>str.strip\<close>, and numbers written in decimal and in
  hexadecimal digits, each with the function that reads the digits back. Different numbers get
  different texts because reading inverts writing.
\<close>

section \<open>White space\<close>

text \<open>The characters below 256 that \<open>str.isspace\<close> accepts.\<close>

definition is_space :: "char \<Rightarrow> bool" where
  "is_space c \<longleftrightarrow> (let n = (of_char c :: nat) in 9 \<le> n \<and> n \<le> 13 \<or> 28 \<le> n \<and> n \<le> 32 \<or> n = 133 \<or> n = 160)"

definition strip :: "string \<Rightarrow> string" where
  "strip s = rev (dropWhile is_space (rev (dropWhile is_space s)))"

section \<open>Decimal digits\<close>

definition digit_char :: "nat \<Rightarrow> char" where
  "digit_char d = char_of (48 + d)"

fun decimal_digits :: "nat \<Rightarrow> string" where
  "decimal_digits n = (if n < 10 then [digit_char n] else decimal_digits (n div 10) @ [digit_char (n mod 10)])"

declare decimal_digits.simps [simp del]

definition is_ascii_digit :: "char \<Rightarrow> bool" where
  "is_ascii_digit c \<longleftrightarrow> 48 \<le> (of_char c :: nat) \<and> (of_char c :: nat) \<le> 57"

definition decimal_value :: "string \<Rightarrow> nat" where
  "decimal_value s = foldl (\<lambda>v c. 10 * v + (of_char c - 48)) 0 s"

lemma decimal_value_snoc: "d < 10 \<Longrightarrow> decimal_value (s @ [digit_char d]) = 10 * decimal_value s + d"
  by (simp add: decimal_value_def digit_char_def)

lemma decimal_digits_induct [case_names digit more]:
  assumes "\<And>n. n < 10 \<Longrightarrow> P n [digit_char n]"
    and "\<And>n. 10 \<le> n \<Longrightarrow> P (n div 10) (decimal_digits (n div 10)) \<Longrightarrow> P n (decimal_digits (n div 10) @ [digit_char (n mod 10)])"
  shows "P n (decimal_digits n)"
proof (induction n rule: decimal_digits.induct)
  case (1 n)
  then show ?case using assms by (subst decimal_digits.simps) auto
qed

lemma decimal_value_digits [simp]: "decimal_value (decimal_digits n) = n"
proof (induction rule: decimal_digits_induct)
  case (digit n)
  then show ?case using decimal_value_snoc [of n "[]"] by (simp add: decimal_value_def)
next
  case (more n)
  then show ?case using decimal_value_snoc [of "n mod 10" "decimal_digits (n div 10)"] by simp
qed

lemma decimal_digits_inj: "decimal_digits m = decimal_digits n \<Longrightarrow> m = n"
  by (drule arg_cong [of _ _ decimal_value]) simp

lemma digit_char_digit: "d < 10 \<Longrightarrow> is_ascii_digit (digit_char d)"
  by (simp add: is_ascii_digit_def digit_char_def)

lemma decimal_digits_are_digits: "list_all is_ascii_digit (decimal_digits n)"
  by (induction rule: decimal_digits_induct) (simp_all add: digit_char_digit)

lemma decimal_digits_length: "0 < k \<Longrightarrow> length (decimal_digits n) \<le> k \<longleftrightarrow> n < 10 ^ k"
proof (induction n arbitrary: k rule: decimal_digits.induct)
  case (1 n)
  show ?case
  proof (cases "n < 10")
    case True
    have "(10 :: nat) ^ 1 \<le> 10 ^ k" using 1(2) by (intro power_increasing) simp_all
    then show ?thesis using True 1(2) by (subst decimal_digits.simps) simp
  next
    case False
    show ?thesis
    proof (cases k)
      case (Suc j)
      have eq: "length (decimal_digits n) = Suc (length (decimal_digits (n div 10)))"
        using False by (subst decimal_digits.simps) simp
      show ?thesis
      proof (cases "j = 0")
        case True
        have "decimal_digits (n div 10) \<noteq> []" by (subst decimal_digits.simps) simp
        then show ?thesis using False Suc True eq by simp
      next
        case nonzero: False
        have "n < 10 ^ k \<longleftrightarrow> n div 10 < 10 ^ j" using Suc by (simp add: div_less_iff_less_mult mult.commute)
        then show ?thesis using 1(1) [OF False, of j] nonzero Suc eq by simp
      qed
    qed (use 1(2) in simp)
  qed
qed

section \<open>Hexadecimal digits\<close>

text \<open>\<open>UUID.hex\<close> is \<open>'%032x' % self.int\<close>: lower-case hexadecimal digits, zero-padded to 32.\<close>

definition hex_char :: "nat \<Rightarrow> char" where
  "hex_char d = char_of (if d < 10 then 48 + d else 87 + d)"

fun hex_digits :: "nat \<Rightarrow> string" where
  "hex_digits n = (if n < 16 then [hex_char n] else hex_digits (n div 16) @ [hex_char (n mod 16)])"

declare hex_digits.simps [simp del]

definition uuid_hex :: "uuid \<Rightarrow> string" where
  "uuid_hex u = (let ds = hex_digits u in replicate (32 - length ds) (CHR ''0'') @ ds)"

text \<open>Reading the digits back.\<close>

definition hex_value :: "string \<Rightarrow> nat" where
  "hex_value s = foldl (\<lambda>v c. 16 * v + (let n = of_char c in if n < 87 then n - 48 else n - 87)) 0 s"

lemma hex_value_snoc: "d < 16 \<Longrightarrow> hex_value (s @ [hex_char d]) = 16 * hex_value s + d"
  by (simp add: hex_value_def hex_char_def)

lemma hex_value_digits: "hex_value (hex_digits n) = n"
proof (induction n rule: hex_digits.induct)
  case (1 n)
  show ?case
  proof (cases "n < 16")
    case True
    then show ?thesis using hex_value_snoc [of n "[]"] by (subst hex_digits.simps) (simp add: hex_value_def)
  next
    case False
    then show ?thesis using 1 hex_value_snoc [of "n mod 16" "hex_digits (n div 16)"] by (subst hex_digits.simps) simp
  qed
qed

lemma hex_value_padded: "hex_value (replicate k (CHR ''0'') @ s) = hex_value s"
  by (induction k) (simp_all add: hex_value_def)

lemma uuid_hex_inj: "uuid_hex u = uuid_hex v \<Longrightarrow> u = v"
  by (drule arg_cong [of _ _ hex_value]) (simp add: uuid_hex_def Let_def hex_value_padded hex_value_digits)

end
