(* ===== verification/Payments.thy ===== *)
theory Payments
  imports Order_Commands Text_Codec
begin

text \<open>
  The payments table: \<open>backend/repositories/payment_repository.py\<close>, the shared history contract
  of \<open>backend/services/payment_history_contract.py\<close>, and the binding-cache update and the legacy
  direct write of \<open>backend/services/payment_service.py\<close>.
\<close>

section \<open>Receipt numbers\<close>

text \<open>The format specification \<open>06d\<close>: at least six digits, padded with zeros.\<close>

definition pad6 :: "nat \<Rightarrow> string" where
  "pad6 n = (let ds = decimal_digits n in replicate (6 - length ds) (CHR ''0'') @ ds)"

definition receipt_number :: "string \<Rightarrow> nat \<Rightarrow> string" where
  "receipt_number business_date n = ''RCT-'' @ business_date @ ''-'' @ pad6 n"

definition receipt_shape :: "string \<Rightarrow> bool" where
  "receipt_shape s \<longleftrightarrow> length s = 19 \<and> take 4 s = ''RCT-'' \<and> list_all is_ascii_digit (take 8 (drop 4 s))
     \<and> s ! 12 = CHR ''-'' \<and> list_all is_ascii_digit (drop 13 s)"

text \<open>Python's \<open>$\<close> also matches before one trailing newline.\<close>

definition is_valid_receipt_number :: "string option \<Rightarrow> bool" where
  "is_valid_receipt_number v =
     (case v of None \<Rightarrow> False
      | Some s \<Rightarrow> receipt_shape s \<or> (s \<noteq> [] \<and> last s = CHR 0x0A \<and> receipt_shape (butlast s)))"

definition allocate_receipt_number :: "store \<Rightarrow> string \<times> store" where
  "allocate_receipt_number db =
     (let date = t_business_date db;
          n = (case t_receipts db date of None \<Rightarrow> 1 | Some k \<Rightarrow> k + 1)
      in (receipt_number date n, db\<lparr>t_receipts := (t_receipts db)(date \<mapsto> n)\<rparr>))"

section \<open>Repository\<close>

definition get_by_idempotency_key :: "store \<Rightarrow> string \<Rightarrow> payment_row option" where
  "get_by_idempotency_key db key = find (\<lambda>p. p_key p = Some key \<and> \<not> p_deleted p) (t_payments db)"

definition get_by_transaction_id :: "store \<Rightarrow> string \<Rightarrow> payment_row option" where
  "get_by_transaction_id db txn = find (\<lambda>p. p_transaction p = Some txn \<and> \<not> p_deleted p) (t_payments db)"

definition get_by_id :: "store \<Rightarrow> uuid \<Rightarrow> payment_row option" where
  "get_by_id db pid = find (\<lambda>p. p_id p = pid \<and> \<not> p_deleted p) (t_payments db)"

definition order_payments :: "store \<Rightarrow> uuid \<Rightarrow> payment_row list" where
  "order_payments db oid = filter (\<lambda>p. p_order p = oid \<and> \<not> p_deleted p) (t_payments db)"

definition count_order_payments :: "store \<Rightarrow> uuid \<Rightarrow> pay_method \<Rightarrow> nat" where
  "count_order_payments db oid method = length (filter (\<lambda>p. p_method p = method) (order_payments db oid))"

definition get_order_method_total :: "store \<Rightarrow> uuid \<Rightarrow> pay_method list \<Rightarrow> money" where
  "get_order_method_total db oid methods =
     (\<Sum>p\<leftarrow>filter (\<lambda>p. p_method p \<in> set methods) (order_payments db oid). p_amount p)"

definition get_order_paid_total :: "store \<Rightarrow> uuid \<Rightarrow> money" where
  "get_order_paid_total db oid = get_order_method_total db oid [Cash, Transfer]"

definition get_order_credit_exposure :: "store \<Rightarrow> uuid \<Rightarrow> money" where
  "get_order_credit_exposure db oid =
     get_order_method_total db oid [Credit] - get_order_method_total db oid [Cash, Transfer]"

definition count_payments_with_status_outside :: "store \<Rightarrow> uuid \<Rightarrow> pay_status list \<Rightarrow> nat" where
  "count_payments_with_status_outside db oid statuses =
     length (filter (\<lambda>p. p_status p \<notin> set statuses) (order_payments db oid))"

definition settles :: "uuid \<Rightarrow> payment_row \<Rightarrow> bool" where
  "settles oid p \<longleftrightarrow> p_order p = oid \<and> \<not> p_deleted p \<and> (p_method p = Cash \<or> p_method p = Transfer)
     \<and> p_status p = Pending"

definition update_cash_transfer_to_completed :: "uuid \<Rightarrow> store \<Rightarrow> nat \<times> store" where
  "update_cash_transfer_to_completed oid db =
     (length (filter (settles oid) (t_payments db)),
      db\<lparr>t_payments := map (\<lambda>p. if settles oid p then p\<lparr>p_status := Completed\<rparr> else p) (t_payments db)\<rparr>)"

definition list_payments_paginated ::
  "store \<Rightarrow> nat \<Rightarrow> nat \<Rightarrow> id_text option \<Rightarrow> pay_method option \<Rightarrow> pay_status option \<Rightarrow> error + (payment_row list \<times> nat)" where
  "list_payments_paginated db page per_page order_id method status =
     bindE (case order_id of
              None \<Rightarrow> Inr None
            | Some txt \<Rightarrow> (case parse_uuid txt of None \<Rightarrow> Inl (ValueError ''badly formed hexadecimal UUID string'')
                                               | Some u \<Rightarrow> Inr (Some u))) (\<lambda>oid.
     let hits = filter (\<lambda>p. \<not> p_deleted p
                  \<and> (case oid of None \<Rightarrow> True | Some u \<Rightarrow> p_order p = u)
                  \<and> (case method of None \<Rightarrow> True | Some m \<Rightarrow> p_method p = m)
                  \<and> (case status of None \<Rightarrow> True | Some st \<Rightarrow> p_status p = st)) (t_payments db)
     in Inr (take per_page (drop ((page - 1) * per_page) (rev hits)), length hits))"

definition fits :: "nat \<Rightarrow> string option \<Rightarrow> bool" where
  "fits width v \<longleftrightarrow> (case v of None \<Rightarrow> True | Some s \<Rightarrow> length s \<le> width)"

lemma fits_simps [simp]: "fits w None" "fits w (Some s) \<longleftrightarrow> length s \<le> w"
  by (simp_all add: fits_def)

text \<open>
  The insert: the column widths (\<open>idempotency_key VARCHAR(64)\<close>, \<open>transaction_id VARCHAR(128)\<close> of
  the tenant bootstrap), the method CHECK, then the unique indexes on the idempotency key and on the
  transaction id, which cover soft-deleted rows too. The amount is rounded to the column's scale.
\<close>

definition create_payment_row ::
  "uuid \<Rightarrow> uuid \<Rightarrow> string option \<Rightarrow> string option \<Rightarrow> money \<Rightarrow> pay_method \<Rightarrow> pay_status \<Rightarrow> uuid option
   \<Rightarrow> string option \<Rightarrow> store \<Rightarrow> error + (payment_row \<times> store)" where
  "create_payment_row oid ret txn key amount method status created_by receipt db =
     (let (pid, db1) = draw_uuid db;
          p = \<lparr>p_id = pid, p_order = oid, p_retailer = ret, p_transaction = txn, p_key = key,
               p_amount = num2 amount, p_method = method, p_status = status, p_receipt = receipt,
               p_created_by = created_by, p_deleted = False\<rparr>
      in if \<not> fits 64 key then Inl (DataError ''idempotency_key'')
         else if \<not> fits 128 txn then Inl (DataError ''transaction_id'')
         else if method \<notin> {Cash, Transfer, Credit} then Inl (IntegrityError ''ck_payments_method_canonical'')
         else if key \<noteq> None \<and> key \<in> set (map p_key (t_payments db))
         then Inl (IntegrityError ''uq_payments_idempotency_key'')
         else if txn \<noteq> None \<and> txn \<in> set (map p_transaction (t_payments db))
         then Inl (IntegrityError ''uq_payments_transaction_id'')
         else Inr (p, db1\<lparr>t_payments := t_payments db1 @ [p]\<rparr>))"

section \<open>The payment-history contract\<close>

text \<open>
  A live row is valid history when its amount is positive, its method and status are known, its
  retailer is the order's and the order is not deleted. (The NULL and NaN disjuncts of the query
  concern values that no row of the model holds: the amount column is NOT NULL, and every write
  path refuses non-finite amounts first.)
\<close>

definition invalid_history_row :: "order_row \<Rightarrow> payment_row \<Rightarrow> bool" where
  "invalid_history_row ord p \<longleftrightarrow>
     p_amount p \<le> 0 \<or> p_method p \<notin> {Cash, Transfer, Credit} \<or> p_status p \<notin> {Pending, Completed}
     \<or> p_retailer p \<noteq> o_retailer ord \<or> o_deleted ord"

definition invalid_rows_of :: "store \<Rightarrow> uuid \<Rightarrow> payment_row list" where
  "invalid_rows_of db oid =
     (case row_find o_id oid (t_orders db) of
        None \<Rightarrow> []
      | Some ord \<Rightarrow> filter (invalid_history_row ord) (order_payments db oid))"

definition find_invalid_history_orders :: "store \<Rightarrow> uuid list \<Rightarrow> (uuid \<times> nat) list" where
  "find_invalid_history_orders db oids =
     map (\<lambda>oid. (oid, length (invalid_rows_of db oid)))
       (filter (\<lambda>oid. invalid_rows_of db oid \<noteq> []) (remdups oids))"

definition assert_valid_payment_history :: "store \<Rightarrow> uuid list \<Rightarrow> error + unit" where
  "assert_valid_payment_history db oids =
     ensure (find_invalid_history_orders db oids = []) (Http 409 PAYMENT_HISTORY_INTEGRITY)"

section \<open>The binding cache\<close>

definition apply_outstanding_balance_delta :: "uuid \<Rightarrow> uuid \<Rightarrow> money \<Rightarrow> store \<Rightarrow> error + store" where
  "apply_outstanding_balance_delta ws ret delta db =
     (let (n, db') = update_binding (\<lambda>_. True) ws ret delta db
      in if n = 0 then
           (if \<exists>b \<in> set (t_bindings db). b_wholesaler b = ws \<and> b_retailer b = ret \<and> \<not> b_deleted b
            then Inl (Http 409 RECEIVABLE_BALANCE_UNDERFLOW)
            else Inl (Http 403 BINDINGNOTFOUND))
         else Inr db')"

section \<open>The payment service\<close>

definition blank_to_none :: "string option \<Rightarrow> string option" where
  "blank_to_none s = (if s = Some '''' then None else s)"

definition get_payment_by_id :: "store \<Rightarrow> id_text \<Rightarrow> error + payment_row" where
  "get_payment_by_id db payment_id =
     (case parse_uuid payment_id of
        None \<Rightarrow> Inl (Http 400 INVALID_PAYMENT_ID)
      | Some pid \<Rightarrow> (case get_by_id db pid of None \<Rightarrow> Inl (Http 404 PAYMENT_NOT_FOUND) | Some p \<Rightarrow> Inr p))"

definition same_direct_request :: "payment_row \<Rightarrow> uuid \<Rightarrow> money \<Rightarrow> pay_method \<Rightarrow> string option \<Rightarrow> bool" where
  "same_direct_request p oid amount method txn \<longleftrightarrow>
     p_order p = oid \<and> p_amount p = amount \<and> p_method p = method \<and>
     blank_to_none (p_transaction p) = blank_to_none txn"

text \<open>
  The legacy direct write. \<open>race\<close> is what other transactions commit between the reads and the
  insert; the identity when none does.
\<close>

definition create_payment ::
  "(store \<Rightarrow> store) \<Rightarrow> id_text \<Rightarrow> money \<Rightarrow> pay_method \<Rightarrow> string option \<Rightarrow> string option \<Rightarrow> uuid option
   \<Rightarrow> store \<Rightarrow> error + (payment_row \<times> store)" where
  "create_payment race order_id amount method txn key created_by db =
     (case parse_uuid order_id of
        None \<Rightarrow> Inl (Http 400 INVALID_ORDER_ID)
      | Some oid \<Rightarrow>
          (let key' = blank_to_none key;
               classify = (\<lambda>p db'. if same_direct_request p oid amount method txn then Inr (p, db')
                                   else Inl (Http 409 IDEMPOTENCY_CONFLICT))
           in if method = Transfer \<and> key' = None then Inl (Http 400 MISSING_IDEMPOTENCY_KEY)
              else (case (case key' of None \<Rightarrow> None | Some k \<Rightarrow> get_by_idempotency_key db k) of
                Some p \<Rightarrow> classify p db
              | None \<Rightarrow>
                  (case live_order db oid of
                     None \<Rightarrow> Inl (Http 404 ORDER_NOT_FOUND)
                   | Some ord \<Rightarrow>
                       (let db0 = race db in
                        case create_payment_row oid (o_retailer ord) txn key amount method
                               (if method = Transfer then Completed else Pending) created_by None db0 of
                          Inl e \<Rightarrow>
                            (case key' of
                               None \<Rightarrow> Inl e
                             | Some k \<Rightarrow> (case get_by_idempotency_key db0 k of
                                            None \<Rightarrow> Inl e
                                          | Some p \<Rightarrow> classify p db0))
                        | Inr (p, db1) \<Rightarrow>
                            if method = Credit
                            then bindE (apply_outstanding_balance_delta (o_wholesaler ord) (o_retailer ord) amount db1)
                                   (\<lambda>db2. Inr (p, db2))
                            else Inr (p, db1))))))"

section \<open>Frame of the financial writes\<close>

text \<open>
  What no financial write does: it leaves the stock tables and the declarations alone, and it keeps
  the ledger balanced.
\<close>

definition money_step :: "store \<Rightarrow> store \<Rightarrow> bool" where
  "money_step db db' \<longleftrightarrow> t_stocks db' = t_stocks db \<and> t_reservations db' = t_reservations db \<and>
     t_movements db' = t_movements db \<and> t_skus db' = t_skus db \<and> t_catalog db' = t_catalog db \<and>
     t_prices db' = t_prices db \<and> t_declarations db' = t_declarations db \<and> t_uuids db' = t_uuids db \<and> t_drawn db \<le> t_drawn db' \<and>
     t_now db' = t_now db \<and> ledger_total db' = ledger_total db"

lemma money_step_refl [simp]: "money_step db db"
  by (simp add: money_step_def)

lemma money_step_trans [trans]: "money_step a b \<Longrightarrow> money_step b c \<Longrightarrow> money_step a c"
  by (simp add: money_step_def)

lemma money_step_accounted: "money_step db db' \<Longrightarrow> accounted db \<Longrightarrow> accounted db'"
  by (auto simp: money_step_def accounted_def reservation_ids_def reserved_units_def reserved_column_def
      intro: order_less_le_trans)

lemma money_step_stock:
  assumes "money_step db db'"
  shows "opening_stock db' = opening_stock db" "on_hand_nonneg db' = on_hand_nonneg db"
  using assms by (auto simp: money_step_def opening_stock_def on_hand_units_def journal_total_def
      on_hand_nonneg_def fun_eq_iff)

lemma money_step_put [simp]:
  "money_step db (put_order ord db)" "money_step db (put_hold h db)"
  by (simp_all add: money_step_def ledger_total_def)

lemma money_step_posting:
  assumes "post_transaction [(a, x), (b, - x)] rt r d db = Inr (p, db')"
  shows "money_step db db'"
  using post_transaction_two [OF assms] post_transaction_two_total [OF assms]
  by (auto simp: money_step_def)

lemmas money_step_received = money_step_posting [where a = CASH and b = RECEIVABLE and rt = "''order''" and d = None,
    folded post_payment_received_def]

lemma update_binding_frame:
  "update_binding extra ws ret delta db = (n, db') \<Longrightarrow> \<exists>bs. db' = db\<lparr>t_bindings := bs\<rparr>"
  by (auto simp: update_binding_def Let_def)

lemma update_binding_step: "update_binding extra ws ret delta db = (n, db') \<Longrightarrow> money_step db db'"
  by (auto simp: money_step_def ledger_total_def dest!: update_binding_frame)

lemma balance_delta_step: "apply_outstanding_balance_delta ws ret delta db = Inr db' \<Longrightarrow> money_step db db'"
  by (auto simp: apply_outstanding_balance_delta_def Let_def split: prod.splits if_splits dest: update_binding_step)

lemma balance_delta_effect:
  assumes keys: "distinct (map (\<lambda>b. (b_wholesaler b, b_retailer b)) (t_bindings db))"
    and run: "apply_outstanding_balance_delta ws ret delta db = Inr db'"
  shows "db' = db\<lparr>t_bindings := bump_bindings ws ret delta (t_bindings db)\<rparr> \<and>
    (\<exists>b \<in> set (t_bindings db). binding_of ws ret b \<and> 0 \<le> b_balance b + delta)"
proof -
  obtain n db1 where u: "update_binding (\<lambda>_. True) ws ret delta db = (n, db1)" by fastforce
  with run have n: "n \<noteq> 0" "db' = db1"
    by (auto simp: apply_outstanding_balance_delta_def split: if_splits)
  from update_binding_hit [OF keys u n(1)] n show ?thesis by auto
qed

lemma completed_step: "money_step db (snd (update_cash_transfer_to_completed oid db))"
  by (simp add: update_cash_transfer_to_completed_def money_step_def ledger_total_def)

lemma receipt_step: "money_step db (snd (allocate_receipt_number db))"
  by (simp add: allocate_receipt_number_def money_step_def ledger_total_def Let_def)

section \<open>Inserted payments\<close>

definition new_payment ::
  "uuid \<Rightarrow> uuid \<Rightarrow> uuid \<Rightarrow> string option \<Rightarrow> string option \<Rightarrow> money \<Rightarrow> pay_method \<Rightarrow> pay_status
   \<Rightarrow> uuid option \<Rightarrow> string option \<Rightarrow> payment_row" where
  "new_payment pid oid ret txn key amount method status usr receipt =
     \<lparr>p_id = pid, p_order = oid, p_retailer = ret, p_transaction = txn, p_key = key,
      p_amount = num2 amount, p_method = method, p_status = status, p_receipt = receipt,
      p_created_by = usr, p_deleted = False\<rparr>"

lemma create_payment_row_Inr:
  "create_payment_row oid ret txn key amount method status usr receipt db = Inr (p, db') \<longleftrightarrow>
     p = new_payment (t_uuids db (t_drawn db)) oid ret txn key amount method status usr receipt \<and>
     db' = db\<lparr>t_drawn := Suc (t_drawn db), t_payments := t_payments db @ [p]\<rparr> \<and>
     fits 64 key \<and> fits 128 txn \<and> method \<in> {Cash, Transfer, Credit} \<and>
     (key \<noteq> None \<longrightarrow> key \<notin> set (map p_key (t_payments db))) \<and>
     (txn \<noteq> None \<longrightarrow> txn \<notin> set (map p_transaction (t_payments db)))"
  by (auto simp: create_payment_row_def draw_uuid_def new_payment_def Let_def split: if_splits)

lemma create_payment_row_step:
  "create_payment_row oid ret txn key amount method status usr receipt db = Inr (p, db') \<Longrightarrow> money_step db db'"
  by (auto simp: create_payment_row_Inr money_step_def ledger_total_def)

text \<open>
  The columns that decide amounts: everything but the completion status. Completing a payment does
  not change them.
\<close>

definition payment_core :: "payment_row \<Rightarrow> payment_row" where
  "payment_core p = p\<lparr>p_status := Pending\<rparr>"

definition payment_cores :: "store \<Rightarrow> payment_row list" where
  "payment_cores db = map payment_core (t_payments db)"

lemma payment_core_simps [simp]:
  "p_id (payment_core p) = p_id p" "p_order (payment_core p) = p_order p" "p_key (payment_core p) = p_key p"
  "p_retailer (payment_core p) = p_retailer p" "p_transaction (payment_core p) = p_transaction p"
  "p_amount (payment_core p) = p_amount p" "p_method (payment_core p) = p_method p"
  "p_deleted (payment_core p) = p_deleted p" "p_receipt (payment_core p) = p_receipt p"
  "payment_core (p\<lparr>p_status := st\<rparr>) = payment_core p"
  by (simp_all add: payment_core_def)

lemma completed_cores [simp]: "payment_cores (snd (update_cash_transfer_to_completed oid db)) = payment_cores db"
  by (simp add: payment_cores_def update_cash_transfer_to_completed_def)

lemma order_payments_cores:
  "map payment_core (order_payments db oid) = filter (\<lambda>p. p_order p = oid \<and> \<not> p_deleted p) (payment_cores db)"
  by (simp add: order_payments_def payment_cores_def filter_map comp_def)

lemma method_total_cores:
  "get_order_method_total db oid ms =
     (\<Sum>p\<leftarrow>payment_cores db. if p_order p = oid \<and> \<not> p_deleted p \<and> p_method p \<in> set ms then p_amount p else 0)"
proof -
  have "(\<Sum>p\<leftarrow>filter (\<lambda>p. p_method p \<in> set ms) (filter (\<lambda>p. p_order p = oid \<and> \<not> p_deleted p) rows). p_amount p) =
     (\<Sum>p\<leftarrow>map payment_core rows. if p_order p = oid \<and> \<not> p_deleted p \<and> p_method p \<in> set ms then p_amount p else 0)" for rows
    by (induction rows) auto
  then show ?thesis by (simp add: get_order_method_total_def order_payments_def payment_cores_def)
qed

lemma method_count_cores:
  "count_order_payments db oid m =
     length (filter (\<lambda>p. p_order p = oid \<and> \<not> p_deleted p \<and> p_method p = m) (payment_cores db))"
  by (simp add: count_order_payments_def order_payments_def payment_cores_def filter_map comp_def conj_assoc)

lemma find_map_option: "find P (map f xs) = map_option f (find (P \<circ> f) xs)"
  by (induction xs) simp_all

lemma find_core:
  "(\<And>p. P (payment_core p) = P p) \<Longrightarrow> map_option payment_core (find P (t_payments db)) = find P (payment_cores db)"
  by (simp add: payment_cores_def find_map_option comp_def)

lemma key_lookup_cores:
  "map_option payment_core (get_by_idempotency_key db key) =
     find (\<lambda>p. p_key p = Some key \<and> \<not> p_deleted p) (payment_cores db)"
  unfolding get_by_idempotency_key_def by (rule find_core) simp

lemma method_total_cong:
  "payment_cores db' = payment_cores db \<Longrightarrow> get_order_method_total db' oid ms = get_order_method_total db oid ms"
  by (simp add: method_total_cores)

lemma method_total_snoc:
  "payment_cores db' = payment_cores db @ [payment_core p] \<Longrightarrow> \<not> p_deleted p \<Longrightarrow>
   get_order_method_total db' oid ms = get_order_method_total db oid ms +
     (if p_order p = oid \<and> p_method p \<in> set ms then p_amount p else 0)"
  by (simp add: method_total_cores)

lemma method_count_snoc:
  "payment_cores db' = payment_cores db @ [payment_core p] \<Longrightarrow> \<not> p_deleted p \<Longrightarrow>
   count_order_payments db' oid m = count_order_payments db oid m +
     (if p_order p = oid \<and> p_method p = m then 1 else 0)"
  by (simp add: method_count_cores)

lemma new_payment_simps [simp]:
  "p_order (new_payment pid oid ret txn key q m st usr rc) = oid"
  "p_method (new_payment pid oid ret txn key q m st usr rc) = m"
  "p_amount (new_payment pid oid ret txn key q m st usr rc) = num2 q"
  "p_deleted (new_payment pid oid ret txn key q m st usr rc) = False"
  "p_key (new_payment pid oid ret txn key q m st usr rc) = key"
  "p_id (new_payment pid oid ret txn key q m st usr rc) = pid"
  "p_status (new_payment pid oid ret txn key q m st usr rc) = st"
  "p_receipt (new_payment pid oid ret txn key q m st usr rc) = rc"
  "p_transaction (new_payment pid oid ret txn key q m st usr rc) = txn"
  "p_retailer (new_payment pid oid ret txn key q m st usr rc) = ret"
  by (simp_all add: new_payment_def)

end
