(* ===== verification/Canonical_Payment.thy ===== *)
theory Canonical_Payment
  imports Payments
begin

text \<open>
  The canonical payment write path, \<open>backend/services/canonical_payment_service.py\<close>: idempotent
  replay, the shared history contract, the state, balance and tender checks, the credit-hold
  contract, and the financial writes (hold, payment, receipt, ledger, binding). The two entries are
  \<open>confirm_payment\<close>, which locks the order, and \<open>confirm_payment_for_locked_order\<close>, which works on
  an order its caller has locked.
\<close>

section \<open>Requests and results\<close>

record payment_result =
  pr_order :: order_row
  pr_payment :: payment_row
  pr_replayed :: bool
  pr_state :: order_state

definition same_payment_request :: "payment_row \<Rightarrow> id_text \<Rightarrow> money \<Rightarrow> pay_method \<Rightarrow> string option \<Rightarrow> bool" where
  "same_payment_request p order_id amount method txn \<longleftrightarrow>
     str_uuid (p_order p) = order_id \<and> p_amount p = amount \<and> p_method p = method \<and>
     blank_to_none (p_transaction p) = blank_to_none txn"

definition raise_invalid_amount :: "decimal \<Rightarrow> error + money" where
  "raise_invalid_amount amount =
     (case amount of
        Finite q \<Rightarrow> if q \<le> 0 then Inl (Http 400 INVALID_PAYMENT_AMOUNT) else Inr q
      | _ \<Rightarrow> Inl (Http 400 INVALID_PAYMENT_AMOUNT))"

definition credit_hold_mismatch :: error where
  "credit_hold_mismatch = Http 409 CREDIT_HOLD_MISMATCH"

definition enforce_receipt_on_replay :: "payment_row \<Rightarrow> bool \<Rightarrow> error + unit" where
  "enforce_receipt_on_replay p allocate_receipt =
     ensure (\<not> (allocate_receipt \<and> \<not> is_valid_receipt_number (p_receipt p)))
       (Http 409 DECLARATION_CONFIRMATION_KEY_CONFLICT)"

definition get_order_by_id_for_update :: "store \<Rightarrow> id_text \<Rightarrow> order_row option" where
  "get_order_by_id_for_update db order_id =
     (case parse_uuid order_id of None \<Rightarrow> None | Some oid \<Rightarrow> live_order db oid)"

section \<open>Replays\<close>

definition replay_result :: "payment_row \<Rightarrow> store \<Rightarrow> error + (payment_result \<times> store)" where
  "replay_result p db =
     (case live_order db (p_order p) of
        None \<Rightarrow> Inl (Http 404 ORDER_NOT_FOUND)
      | Some ord \<Rightarrow>
          if p_retailer p \<noteq> o_retailer ord then Inl (Http 409 IDEMPOTENCY_KEY_CONFLICT)
          else Inr (\<lparr>pr_order = ord, pr_payment = p, pr_replayed = True, pr_state = o_status ord\<rparr>, db))"

definition replay_or_conflict_for_locked_order ::
  "order_row \<Rightarrow> payment_row \<Rightarrow> money \<Rightarrow> pay_method \<Rightarrow> string option \<Rightarrow> bool \<Rightarrow> store
   \<Rightarrow> error + (payment_result \<times> store)" where
  "replay_or_conflict_for_locked_order ord p amount method txn allocate_receipt db =
     (if \<not> same_payment_request p (str_uuid (o_id ord)) amount method txn
      then Inl (Http 409 IDEMPOTENCY_KEY_CONFLICT)
      else bindE (enforce_receipt_on_replay p allocate_receipt) (\<lambda>_.
        if p_retailer p \<noteq> o_retailer ord then Inl (Http 409 IDEMPOTENCY_KEY_CONFLICT)
        else Inr (\<lparr>pr_order = ord, pr_payment = p, pr_replayed = True, pr_state = o_status ord\<rparr>, db)))"

definition latest_payment_record :: "payment_row \<Rightarrow> store \<Rightarrow> payment_row" where
  "latest_payment_record p db = (case get_by_id db (p_id p) of None \<Rightarrow> p | Some q \<Rightarrow> q)"

text \<open>
  A unique violation of the insert is answered only for the two payment constraints; every other
  integrity error is raised again.
\<close>

definition idempotency_unique_objects :: "string set" where
  "idempotency_unique_objects = {''uq_payments_idempotency_key'', ''payments_idempotency_key_key''}"

definition transaction_unique_objects :: "string set" where
  "transaction_unique_objects = {''uq_payments_transaction_id''}"

definition classify_payment_insert_race ::
  "error \<Rightarrow> order_row \<Rightarrow> money \<Rightarrow> pay_method \<Rightarrow> string option \<Rightarrow> string \<Rightarrow> bool \<Rightarrow> store
   \<Rightarrow> error + (payment_result \<times> store)" where
  "classify_payment_insert_race e ord amount method txn key allocate_receipt db =
     (case e of
        IntegrityError constraint \<Rightarrow>
          if constraint \<in> transaction_unique_objects
          then (case (case txn of None \<Rightarrow> None | Some t \<Rightarrow> get_by_transaction_id db t) of
                  Some _ \<Rightarrow> Inl (Http 409 DUPLICATE_TRANSFER_REFERENCE)
                | None \<Rightarrow> Inl e)
          else if constraint \<in> idempotency_unique_objects
          then (case get_by_idempotency_key db key of
                  None \<Rightarrow> Inl e
                | Some p \<Rightarrow> replay_or_conflict_for_locked_order ord p amount method txn allocate_receipt db)
          else Inl e
      | _ \<Rightarrow> Inl e)"

section \<open>The credit-hold contract\<close>

definition verify_hold_contract ::
  "store \<Rightarrow> order_row \<Rightarrow> hold_row list \<Rightarrow> pay_method \<Rightarrow> money \<Rightarrow> bool \<Rightarrow> error + unit" where
  "verify_hold_contract db ord holds method amount is_credit_collection =
     (let total = o_total ord in
      case holds of
        [h] \<Rightarrow>
          (if is_credit_collection then
             ensure (h_status h = Converted \<and> h_remaining h = 0 \<and> h_amount h = total
                     \<and> get_order_method_total db (o_id ord) [Credit] = total
                     \<and> count_order_payments db (o_id ord) Credit = 1) credit_hold_mismatch
           else
             (let expected_remaining = total - get_order_paid_total db (o_id ord) in
              ensure (h_status h = Active \<and> h_amount h = total \<and> h_remaining h = expected_remaining
                      \<and> \<not> ((method = Cash \<or> method = Transfer) \<and> amount > expected_remaining))
                credit_hold_mismatch))
      | _ \<Rightarrow> Inl credit_hold_mismatch)"

definition convert_hold :: "hold_row list \<Rightarrow> uuid option \<Rightarrow> store \<Rightarrow> error + store" where
  "convert_hold holds actor db =
     flush_hold ((hd holds)\<lparr>h_status := Converted, h_remaining := 0, h_updated_by := actor\<rparr>) db"

definition reduce_hold :: "hold_row list \<Rightarrow> money \<Rightarrow> uuid option \<Rightarrow> store \<Rightarrow> error + store" where
  "reduce_hold holds amount actor db =
     (let h = hd holds; remaining = h_remaining h - amount in
      if remaining < 0 then Inl credit_hold_mismatch
      else flush_hold (h\<lparr>h_remaining := remaining,
                         h_status := (if remaining = 0 then Settled else h_status h),
                         h_updated_by := actor\<rparr>) db)"

section \<open>Prechecks\<close>

text \<open>
  The state, balance and tender checks: the target state of the order, and whether the payment
  collects on a credit sale.
\<close>

definition payment_prechecks ::
  "store \<Rightarrow> order_row \<Rightarrow> money \<Rightarrow> pay_method \<Rightarrow> error + (order_state \<times> bool)" where
  "payment_prechecks db ord amount method =
     (let order_total = o_total ord; prior_paid = get_order_paid_total db (o_id ord) in
      if o_status ord = PAID then
        (if \<not> (method = Cash \<or> method = Transfer) then Inl (Http 409 ORDER_ALREADY_PAID)
         else
           (let credit_total = get_order_method_total db (o_id ord) [Credit];
                collection_total = get_order_method_total db (o_id ord) [Cash, Transfer];
                exposure = credit_total - collection_total
            in if credit_total > 0 \<and> exposure < 0 then Inl credit_hold_mismatch
               else if exposure \<le> 0 then Inl (Http 409 ORDER_ALREADY_PAID)
               else if amount > exposure then Inl (Http 400 PAYMENT_EXCEEDS_REMAINING)
               else Inr (PAID, True)))
      else
        (let remaining_balance = order_total - prior_paid in
         if amount > remaining_balance then Inl (Http 400 PAYMENT_EXCEEDS_REMAINING)
         else if \<not> (o_status ord = CONFIRMED \<or> o_status ord = PARTIALLY_PAID)
         then Inl (Http 409 INVALID_STATE_TRANSITION)
         else if method = Credit \<and> count_order_payments db (o_id ord) Credit > 0
         then Inl (Http 409 DUPLICATE_CREDIT_PAYMENT)
         else if method = Credit \<and> prior_paid > 0 then Inl (Http 400 CREDIT_SPLIT_TENDER_UNSUPPORTED)
         else if method = Credit \<and> amount \<noteq> order_total then Inl (Http 400 CREDIT_AMOUNT_MISMATCH)
         else Inr (if prior_paid + amount \<ge> order_total then PAID else PARTIALLY_PAID, False)))"

definition transfer_reference_free :: "store \<Rightarrow> pay_method \<Rightarrow> string option \<Rightarrow> bool" where
  "transfer_reference_free db method txn \<longleftrightarrow>
     (case txn of
        None \<Rightarrow> True
      | Some t \<Rightarrow> \<not> (method = Transfer \<and> t \<noteq> '''' \<and> get_by_transaction_id db t \<noteq> None))"

section \<open>The financial writes\<close>

text \<open>An \<open>HTTPException\<close> raised during the writes is wrapped for the caller.\<close>

definition wrap_mutation :: "error + 'a \<Rightarrow> error + 'a" where
  "wrap_mutation r = (case r of Inl (Http st c) \<Rightarrow> Inl (Mutation st c) | _ \<Rightarrow> r)"

definition collect_on_credit :: "order_row \<Rightarrow> money \<Rightarrow> store \<Rightarrow> error + (order_row \<times> store)" where
  "collect_on_credit ord amount db =
     bindE (post_payment_received (o_id ord) amount db) (\<lambda>(_, db1).
     bindE (apply_outstanding_balance_delta (o_wholesaler ord) (o_retailer ord) (- amount) db1) (\<lambda>db2.
     Inr (ord, db2)))"

definition settle_order ::
  "order_row \<Rightarrow> hold_row list \<Rightarrow> order_state \<Rightarrow> money \<Rightarrow> pay_method \<Rightarrow> uuid option \<Rightarrow> bool \<Rightarrow> store
   \<Rightarrow> error + (order_row \<times> store)" where
  "settle_order ord holds target amount method created_by force_completed db =
     bindE (if method = Credit then convert_hold holds created_by db
            else reduce_hold holds amount created_by db) (\<lambda>db1.
     bindE (apply_payment_transition_for_locked ord target (Some method) created_by db1) (\<lambda>(r, db2).
     let ord' = cr_order r;
         db3 = (if \<not> force_completed \<and> o_status ord' = PAID
                then snd (update_cash_transfer_to_completed (o_id ord) db2) else db2)
     in if method \<noteq> Credit
        then bindE (apply_outstanding_balance_delta (o_wholesaler ord) (o_retailer ord) (- amount) db3)
               (\<lambda>db4. Inr (ord', db4))
        else Inr (ord', db3)))"

text \<open>
  The write sequence on a locked order. \<open>race\<close> is what other transactions commit between the
  prechecks and the insert of the payment row (the identity when none does); the receipt number and
  the payment row are written under one savepoint.
\<close>

definition confirm_payment_for_locked_order ::
  "(store \<Rightarrow> store) \<Rightarrow> order_row \<Rightarrow> decimal \<Rightarrow> pay_method \<Rightarrow> string option \<Rightarrow> string \<Rightarrow> uuid option
   \<Rightarrow> bool \<Rightarrow> bool \<Rightarrow> store \<Rightarrow> error + (payment_result \<times> store)" where
  "confirm_payment_for_locked_order race ord amount_in method txn key created_by force_completed allocate_receipt db =
     bindE (raise_invalid_amount amount_in) (\<lambda>amount.
     case get_by_idempotency_key db key of
       Some p \<Rightarrow> replay_or_conflict_for_locked_order ord p amount method txn allocate_receipt db
     | None \<Rightarrow>
       bindE (assert_valid_payment_history db [o_id ord]) (\<lambda>_.
       bindE (payment_prechecks db ord amount method) (\<lambda>(target, is_credit_collection).
       bindE (ensure (transfer_reference_free db method txn) (Http 409 DUPLICATE_TRANSFER_REFERENCE)) (\<lambda>_.
       let holds = order_holds db (o_id ord) in
       bindE (verify_hold_contract db ord holds method amount is_credit_collection) (\<lambda>_.
       let payment_status = (if force_completed \<or> is_credit_collection \<or> (method = Transfer \<and> target = PAID)
                             then Completed else Pending);
           db0 = race db;
           (receipt, db1) = (if allocate_receipt \<and> payment_status = Completed
                             then (let (r, d) = allocate_receipt_number db0 in (Some r, d))
                             else (None, db0))
       in case create_payment_row (o_id ord) (o_retailer ord) txn (Some key) amount method payment_status
                 created_by receipt db1 of
            Inl e \<Rightarrow> classify_payment_insert_race e ord amount method txn key allocate_receipt db0
          | Inr (p, db2) \<Rightarrow>
              bindE (wrap_mutation
                       (if is_credit_collection then collect_on_credit ord amount db2
                        else settle_order ord holds target amount method created_by force_completed db2))
                (\<lambda>(ord', db3).
                   Inr (\<lparr>pr_order = ord', pr_payment = latest_payment_record p db3,
                         pr_replayed = False, pr_state = o_status ord'\<rparr>, db3)))))))"

definition confirm_payment ::
  "(store \<Rightarrow> store) \<Rightarrow> id_text \<Rightarrow> decimal \<Rightarrow> pay_method \<Rightarrow> string option \<Rightarrow> string \<Rightarrow> uuid option
   \<Rightarrow> bool \<Rightarrow> bool \<Rightarrow> store \<Rightarrow> error + (payment_result \<times> store)" where
  "confirm_payment race order_id amount_in method txn key created_by force_completed allocate_receipt db =
     bindE (raise_invalid_amount amount_in) (\<lambda>amount.
     case get_by_idempotency_key db key of
       Some p \<Rightarrow>
         if same_payment_request p order_id amount method txn
         then bindE (enforce_receipt_on_replay p allocate_receipt) (\<lambda>_. replay_result p db)
         else Inl (Http 409 IDEMPOTENCY_KEY_CONFLICT)
     | None \<Rightarrow>
         (case get_order_by_id_for_update db order_id of
            None \<Rightarrow> Inl (Http 404 ORDER_NOT_FOUND)
          | Some ord \<Rightarrow>
              confirm_payment_for_locked_order race ord amount_in method txn key created_by
                force_completed allocate_receipt db))"

section \<open>Inversion of the checks\<close>

lemma wrap_mutation_Inr [result_simps]: "wrap_mutation r = Inr x \<longleftrightarrow> r = Inr x"
  by (auto simp: wrap_mutation_def split: sum.splits error.splits)

lemma raise_invalid_amount_Inr [result_simps]: "raise_invalid_amount a = Inr q \<longleftrightarrow> a = Finite q \<and> 0 < q"
  by (auto simp: raise_invalid_amount_def not_le split: decimal.splits if_splits)

lemma prechecks_Inr:
  assumes "payment_prechecks db ord q m = Inr (target, coll)"
  obtains "coll" "target = PAID" "o_status ord = PAID" "m = Cash \<or> m = Transfer"
      "q \<le> get_order_method_total db (o_id ord) [Credit] - get_order_method_total db (o_id ord) [Cash, Transfer]"
  | "\<not> coll" "o_status ord = CONFIRMED \<or> o_status ord = PARTIALLY_PAID"
      "q \<le> o_total ord - get_order_paid_total db (o_id ord)"
      "target = (if o_total ord \<le> get_order_paid_total db (o_id ord) + q then PAID else PARTIALLY_PAID)"
      "m = Credit \<Longrightarrow> count_order_payments db (o_id ord) Credit = 0 \<and>
         get_order_paid_total db (o_id ord) \<le> 0 \<and> q = o_total ord"
  using assms by (auto simp: payment_prechecks_def Let_def not_less not_le split: if_splits)

lemma verify_hold_Inr:
  assumes "verify_hold_contract db ord holds m q coll = Inr u"
  obtains h where "holds = [h]" "coll" "h_status h = Converted" "h_remaining h = 0" "h_amount h = o_total ord"
      "get_order_method_total db (o_id ord) [Credit] = o_total ord" "count_order_payments db (o_id ord) Credit = 1"
  | h where "holds = [h]" "\<not> coll" "h_status h = Active" "h_amount h = o_total ord"
      "h_remaining h = o_total ord - get_order_paid_total db (o_id ord)"
  using assms by (auto simp: verify_hold_contract_def ensure_Inr Let_def split: list.splits if_splits)

section \<open>Effects of the financial writes\<close>

lemma collect_effect:
  assumes keys: "distinct (map (\<lambda>b. (b_wholesaler b, b_retailer b)) (t_bindings db))"
    and run: "collect_on_credit ord q db = Inr (ord', db')"
  shows "ord' = ord \<and> money_step db db' \<and> t_orders db' = t_orders db \<and> t_holds db' = t_holds db \<and>
    t_payments db' = t_payments db \<and>
    t_bindings db' = bump_bindings (o_wholesaler ord) (o_retailer ord) (- q) (t_bindings db) \<and>
    (\<exists>b \<in> set (t_bindings db). binding_of (o_wholesaler ord) (o_retailer ord) b \<and> 0 \<le> b_balance b - q)"
proof -
  from run obtain p db1 where post: "post_payment_received (o_id ord) q db = Inr (p, db1)"
    and delta: "apply_outstanding_balance_delta (o_wholesaler ord) (o_retailer ord) (- q) db1 = Inr db'"
    and "ord' = ord"
    by (auto simp: collect_on_credit_def result_simps)
  note f = payment_received_frame [OF post]
  have "distinct (map (\<lambda>b. (b_wholesaler b, b_retailer b)) (t_bindings db1))" using keys f by simp
  note e = balance_delta_effect [OF this delta]
  have "money_step db db'"
    using money_step_received [OF post] balance_delta_step [OF delta] by (rule money_step_trans)
  then show ?thesis using e f \<open>ord' = ord\<close> by auto
qed

definition converted_hold :: "hold_row \<Rightarrow> uuid option \<Rightarrow> hold_row" where
  "converted_hold h usr = h\<lparr>h_status := Converted, h_remaining := 0, h_updated_by := usr\<rparr>"

definition reduced_hold :: "hold_row \<Rightarrow> money \<Rightarrow> uuid option \<Rightarrow> hold_row" where
  "reduced_hold h q usr = h\<lparr>h_remaining := num2 (h_remaining h - q),
     h_status := (if h_remaining h - q = 0 then Settled else h_status h), h_updated_by := usr\<rparr>"

lemma convert_hold_effect: "convert_hold [h] usr db = Inr db' \<Longrightarrow> db' = put_hold (converted_hold h usr) db"
  by (cases h) (auto simp: convert_hold_def result_simps converted_hold_def)

lemma reduce_hold_effect:
  "reduce_hold [h] q usr db = Inr db' \<Longrightarrow> db' = put_hold (reduced_hold h q usr) db \<and> q \<le> h_remaining h \<and>
     hold_row_ok (reduced_hold h q usr)"
  by (cases h) (auto simp: reduce_hold_def result_simps reduced_hold_def Let_def split: if_splits)

text \<open>The status write of a settlement, with the posting it may make.\<close>

lemma transition_effect:
  assumes "apply_payment_transition_for_locked ord target method usr db = Inr (r, db')"
  shows "cr_order r = with_status ord target usr \<and> money_step db db' \<and>
    t_orders db' = row_put o_id (with_status ord target usr) (t_orders db) \<and>
    t_holds db' = t_holds db \<and> t_bindings db' = t_bindings db \<and> t_payments db' = t_payments db"
  using assms
proof (rule payment_transition_effect)
  fix posted db1
  assume post: "post_payment_received (o_id ord) (o_total ord) db = Inr (posted, db1)"
    and db': "db' = put_order (with_status ord target usr) db1" and r: "cr_order r = with_status ord target usr"
  have "money_step db db'"
    using money_step_received [OF post] money_step_put(1) unfolding db' by (rule money_step_trans)
  with payment_received_frame [OF post] db' r show ?thesis by simp
qed simp

lemma settle_effect:
  assumes keys: "distinct (map (\<lambda>b. (b_wholesaler b, b_retailer b)) (t_bindings db))"
    and run: "settle_order ord [h] target q m usr force db = Inr (ord', db')"
  shows "ord' = with_status ord target usr \<and> money_step db db' \<and>
    t_orders db' = row_put o_id (with_status ord target usr) (t_orders db) \<and>
    t_holds db' = row_put h_order (if m = Credit then converted_hold h usr else reduced_hold h q usr) (t_holds db) \<and>
    payment_cores db' = payment_cores db \<and>
    (m \<noteq> Credit \<longrightarrow> q \<le> h_remaining h \<and> hold_row_ok (reduced_hold h q usr) \<and>
       t_bindings db' = bump_bindings (o_wholesaler ord) (o_retailer ord) (- q) (t_bindings db) \<and>
       (\<exists>b \<in> set (t_bindings db). binding_of (o_wholesaler ord) (o_retailer ord) b \<and> 0 \<le> b_balance b - q)) \<and>
    (m = Credit \<longrightarrow> t_bindings db' = t_bindings db)"
proof -
  let ?h = "if m = Credit then converted_hold h usr else reduced_hold h q usr"
  from run obtain db1 r db2 where
      hold: "(if m = Credit then convert_hold [h] usr db else reduce_hold [h] q usr db) = Inr db1"
    and trans: "apply_payment_transition_for_locked ord target (Some m) usr db1 = Inr (r, db2)"
    and rest: "(let ord' = cr_order r;
         db3 = (if \<not> force \<and> o_status ord' = PAID
                then snd (update_cash_transfer_to_completed (o_id ord) db2) else db2)
     in if m \<noteq> Credit
        then bindE (apply_outstanding_balance_delta (o_wholesaler ord) (o_retailer ord) (- q) db3)
               (\<lambda>db4. Inr (ord', db4))
        else Inr (ord', db3)) = Inr (ord', db')"
    by (auto simp: settle_order_def result_simps)
  have db1: "db1 = put_hold ?h db" and red: "m \<noteq> Credit \<Longrightarrow> q \<le> h_remaining h \<and> hold_row_ok (reduced_hold h q usr)"
    using hold convert_hold_effect reduce_hold_effect by (auto split: if_splits)
  note t = transition_effect [OF trans]
  define db3 where "db3 = (if \<not> force \<and> o_status (cr_order r) = PAID
                then snd (update_cash_transfer_to_completed (o_id ord) db2) else db2)"
  have rest': "(if m \<noteq> Credit
        then bindE (apply_outstanding_balance_delta (o_wholesaler ord) (o_retailer ord) (- q) db3)
               (\<lambda>db4. Inr (with_status ord target usr, db4))
        else Inr (with_status ord target usr, db3)) = Inr (ord', db')"
    using rest t unfolding db3_def Let_def by auto
  have db3: "money_step db2 db3" "payment_cores db3 = payment_cores db2" "t_orders db3 = t_orders db2"
      "t_holds db3 = t_holds db2" "t_bindings db3 = t_bindings db2"
    using completed_step by (auto simp: db3_def update_cash_transfer_to_completed_def payment_cores_def)
  have step: "money_step db db3"
    using db3(1) t db1 money_step_put(2) by (blast intro: money_step_trans)
  have cores: "payment_cores db3 = payment_cores db"
    using db3(2) t by (simp add: payment_cores_def db1)
  show ?thesis
  proof (cases "m = Credit")
    case True
    with rest' have "ord' = with_status ord target usr" "db' = db3" by simp_all
    with True t step cores db3 show ?thesis by (simp add: db1)
  next
    case False
    with rest' have ord': "ord' = with_status ord target usr"
      and delta: "apply_outstanding_balance_delta (o_wholesaler ord) (o_retailer ord) (- q) db3 = Inr db'"
      by (auto simp: result_simps)
    have b3: "t_bindings db3 = t_bindings db" using db3 t by (simp add: db1)
    then have "distinct (map (\<lambda>b. (b_wholesaler b, b_retailer b)) (t_bindings db3))" using keys by simp
    note e = balance_delta_effect [OF this delta]
    have "money_step db db'" using step balance_delta_step [OF delta] by (rule money_step_trans)
    with False ord' e red t cores db3 b3 show ?thesis by (auto simp: db1 payment_cores_def)
  qed
qed

section \<open>The write path as a whole\<close>

text \<open>No concurrent insert, and the receipt part of the savepoint.\<close>

definition no_race :: "store \<Rightarrow> store" where
  "no_race db = db"

lemma no_race_apply [simp]: "no_race db = db"
  by (simp add: no_race_def)

definition with_receipt :: "bool \<Rightarrow> store \<Rightarrow> string option \<times> store" where
  "with_receipt b db = (if b then (let (r, d) = allocate_receipt_number db in (Some r, d)) else (None, db))"

lemma with_receipt_frame:
  "with_receipt b db = (receipt, db1) \<Longrightarrow> money_step db db1 \<and> t_orders db1 = t_orders db \<and> t_holds db1 = t_holds db \<and>
     t_payments db1 = t_payments db \<and> t_bindings db1 = t_bindings db \<and> t_drawn db1 = t_drawn db \<and> t_uuids db1 = t_uuids db"
  using receipt_step [of db]
  by (auto simp: with_receipt_def allocate_receipt_number_def Let_def split: if_splits)

definition payment_status_of :: "bool \<Rightarrow> bool \<Rightarrow> pay_method \<Rightarrow> order_state \<Rightarrow> pay_status" where
  "payment_status_of force coll method target =
     (if force \<or> coll \<or> (method = Transfer \<and> target = PAID) then Completed else Pending)"

lemma classify_needs_winner:
  "classify_payment_insert_race e ord q m txn key alloc db = Inr x \<Longrightarrow> get_by_idempotency_key db key \<noteq> None"
  by (auto simp: classify_payment_insert_race_def split: error.splits if_splits option.splits)

text \<open>A successful call is a replay or runs the checks, the insert and one of the two write sequences.\<close>

lemma locked_payment_run:
  assumes "confirm_payment_for_locked_order no_race ord a m txn key usr force alloc db = Inr (pr, db')"
  obtains (replay) q p where "a = Finite q" "0 < q" "get_by_idempotency_key db key = Some p"
      "same_payment_request p (str_uuid (o_id ord)) q m txn" "p_retailer p = o_retailer ord" "db' = db"
      "pr_replayed pr" "pr_payment pr = p" "pr_order pr = ord" "pr_state pr = o_status ord"
      "alloc \<longrightarrow> is_valid_receipt_number (p_receipt p)"
  | (written) q target coll h receipt db1 p db2 ord' where "a = Finite q" "0 < q"
      "get_by_idempotency_key db key = None"
      "assert_valid_payment_history db [o_id ord] = Inr ()"
      "payment_prechecks db ord q m = Inr (target, coll)" "transfer_reference_free db m txn"
      "order_holds db (o_id ord) = [h]" "verify_hold_contract db ord [h] m q coll = Inr ()"
      "with_receipt (alloc \<and> payment_status_of force coll m target = Completed) db = (receipt, db1)"
      "create_payment_row (o_id ord) (o_retailer ord) txn (Some key) q m
         (payment_status_of force coll m target) usr receipt db1 = Inr (p, db2)"
      "(if coll then collect_on_credit ord q db2
        else settle_order ord [h] target q m usr force db2) = Inr (ord', db')"
      "\<not> pr_replayed pr" "pr_order pr = ord'" "pr_payment pr = latest_payment_record p db'"
      "pr_state pr = o_status ord'"
proof -
  from assms obtain q where q: "a = Finite q" "0 < q"
    by (auto simp: confirm_payment_for_locked_order_def result_simps)
  show thesis
  proof (cases "get_by_idempotency_key db key")
    case (Some p)
    with assms q show thesis
      by (intro replay [of q p]) (auto simp: confirm_payment_for_locked_order_def replay_or_conflict_for_locked_order_def
          enforce_receipt_on_replay_def result_simps split: if_splits)
  next
    case None
    from assms q None obtain target coll where pre: "payment_prechecks db ord q m = Inr (target, coll)"
        "assert_valid_payment_history db [o_id ord] = Inr ()" "transfer_reference_free db m txn"
      and ver: "verify_hold_contract db ord (order_holds db (o_id ord)) m q coll = Inr ()"
      by (auto simp: confirm_payment_for_locked_order_def result_simps Let_def)
    obtain h where one: "order_holds db (o_id ord) = [h]"
      using ver by (rule verify_hold_Inr) blast+
    have h: "order_holds db (o_id ord) = [h]" "verify_hold_contract db ord [h] m q coll = Inr ()"
      using one ver by simp_all
    obtain receipt db1 where rc: "with_receipt (alloc \<and> payment_status_of force coll m target = Completed) db = (receipt, db1)"
      by fastforce
    from assms q None pre h rc have run: "(case create_payment_row (o_id ord) (o_retailer ord) txn (Some key) q m
         (payment_status_of force coll m target) usr receipt db1 of
            Inl e \<Rightarrow> classify_payment_insert_race e ord q m txn key alloc db
          | Inr (p, db2) \<Rightarrow>
              bindE (wrap_mutation
                       (if coll then collect_on_credit ord q db2
                        else settle_order ord [h] target q m usr force db2))
                (\<lambda>(ord', db3).
                   Inr (\<lparr>pr_order = ord', pr_payment = latest_payment_record p db3,
                         pr_replayed = False, pr_state = o_status ord'\<rparr>, db3))) = Inr (pr, db')"
      by (auto simp: confirm_payment_for_locked_order_def raise_invalid_amount_def Let_def
          with_receipt_def [symmetric] payment_status_of_def [symmetric])
    show thesis
    proof (cases "create_payment_row (o_id ord) (o_retailer ord) txn (Some key) q m
         (payment_status_of force coll m target) usr receipt db1")
      case (Inl e)
      with run have "classify_payment_insert_race e ord q m txn key alloc db = Inr (pr, db')" by simp
      with None show thesis by (auto dest: classify_needs_winner)
    next
      case (Inr res)
      obtain p db2 where res: "res = (p, db2)" by fastforce
      from run obtain ord' where ex: "(if coll then collect_on_credit ord q db2
            else settle_order ord [h] target q m usr force db2) = Inr (ord', db')"
        and "pr = \<lparr>pr_order = ord', pr_payment = latest_payment_record p db',
                         pr_replayed = False, pr_state = o_status ord'\<rparr>"
        unfolding Inr res by (auto simp: result_simps)
      with q None pre h rc Inr res show thesis by (intro written [of q target coll h receipt db1 p db2 ord']) auto
    qed
  qed
qed

definition pair_hit :: "store \<Rightarrow> order_row \<Rightarrow> money \<Rightarrow> bool" where
  "pair_hit db ord delta \<longleftrightarrow>
     (\<exists>b \<in> set (t_bindings db). binding_of (o_wholesaler ord) (o_retailer ord) b \<and> 0 \<le> b_balance b + delta)"

text \<open>The new row, and what the two write sequences do around it.\<close>

definition paid_row ::
  "store \<Rightarrow> store \<Rightarrow> order_row \<Rightarrow> money \<Rightarrow> pay_method \<Rightarrow> string option \<Rightarrow> string \<Rightarrow> bool" where
  "paid_row db db' ord q m txn key \<longleftrightarrow> m \<in> {Cash, Transfer, Credit} \<and>
     (\<exists>p. payment_cores db' = payment_cores db @ [payment_core p] \<and> p_order p = o_id ord \<and>
        p_method p = m \<and> p_amount p = num2 q \<and> \<not> p_deleted p \<and> p_key p = Some key \<and>
        p_transaction p = txn \<and> p_retailer p = o_retailer ord)"

lemma locked_payment_effect:
  assumes keys: "distinct (map (\<lambda>b. (b_wholesaler b, b_retailer b)) (t_bindings db))"
    and run: "confirm_payment_for_locked_order no_race ord a m txn key usr force alloc db = Inr (pr, db')"
  obtains (replay) q p where "a = Finite q" "0 < q" "get_by_idempotency_key db key = Some p"
      "same_payment_request p (str_uuid (o_id ord)) q m txn" "db' = db" "pr_replayed pr" "pr_payment pr = p"
      "pr_order pr = ord"
  | (collection) q h where "a = Finite q" "0 < q" "o_status ord = PAID" "m = Cash \<or> m = Transfer"
      "order_holds db (o_id ord) = [h]" "h_status h = Converted" "h_remaining h = 0" "h_amount h = o_total ord"
      "get_order_method_total db (o_id ord) [Credit] = o_total ord"
      "count_order_payments db (o_id ord) Credit = 1"
      "q \<le> o_total ord - get_order_paid_total db (o_id ord)"
      "paid_row db db' ord q m txn key" "money_step db db'" "t_orders db' = t_orders db" "t_holds db' = t_holds db"
      "t_bindings db' = bump_bindings (o_wholesaler ord) (o_retailer ord) (- q) (t_bindings db)"
      "pair_hit db ord (- q)" "\<not> pr_replayed pr" "pr_order pr = ord"
  | (credit) q h where "a = Finite q" "0 < q" "o_status ord = CONFIRMED \<or> o_status ord = PARTIALLY_PAID" "m = Credit"
      "order_holds db (o_id ord) = [h]" "h_status h = Active" "h_amount h = o_total ord"
      "h_remaining h = o_total ord - get_order_paid_total db (o_id ord)"
      "q = o_total ord" "get_order_paid_total db (o_id ord) \<le> 0" "count_order_payments db (o_id ord) Credit = 0"
      "q \<le> o_total ord - get_order_paid_total db (o_id ord)"
      "paid_row db db' ord q m txn key" "money_step db db'"
      "t_orders db' = row_put o_id (with_status ord
         (if o_total ord \<le> get_order_paid_total db (o_id ord) + q then PAID else PARTIALLY_PAID) usr) (t_orders db)"
      "t_holds db' = row_put h_order (converted_hold h usr) (t_holds db)"
      "t_bindings db' = t_bindings db" "\<not> pr_replayed pr"
      "pr_order pr = with_status ord
         (if o_total ord \<le> get_order_paid_total db (o_id ord) + q then PAID else PARTIALLY_PAID) usr"
  | (tender) q h where "a = Finite q" "0 < q" "o_status ord = CONFIRMED \<or> o_status ord = PARTIALLY_PAID"
      "m = Cash \<or> m = Transfer"
      "order_holds db (o_id ord) = [h]" "h_status h = Active" "h_amount h = o_total ord"
      "h_remaining h = o_total ord - get_order_paid_total db (o_id ord)"
      "q \<le> o_total ord - get_order_paid_total db (o_id ord)" "hold_row_ok (reduced_hold h q usr)"
      "paid_row db db' ord q m txn key" "money_step db db'"
      "t_orders db' = row_put o_id (with_status ord
         (if o_total ord \<le> get_order_paid_total db (o_id ord) + q then PAID else PARTIALLY_PAID) usr) (t_orders db)"
      "t_holds db' = row_put h_order (reduced_hold h q usr) (t_holds db)"
      "t_bindings db' = bump_bindings (o_wholesaler ord) (o_retailer ord) (- q) (t_bindings db)"
      "pair_hit db ord (- q)" "\<not> pr_replayed pr"
      "pr_order pr = with_status ord
         (if o_total ord \<le> get_order_paid_total db (o_id ord) + q then PAID else PARTIALLY_PAID) usr"
  using run
proof (rule locked_payment_run)
  fix q p
  assume "a = Finite q" "0 < q" "get_by_idempotency_key db key = Some p"
    "same_payment_request p (str_uuid (o_id ord)) q m txn" "db' = db" "pr_replayed pr" "pr_payment pr = p" "pr_order pr = ord"
  then show thesis by (rule replay)
next
  fix q target coll h receipt db1 p db2 ord'
  assume q: "a = Finite q" "0 < q" and pre: "payment_prechecks db ord q m = Inr (target, coll)"
    and h: "order_holds db (o_id ord) = [h]" and ver: "verify_hold_contract db ord [h] m q coll = Inr ()"
    and rc: "with_receipt (alloc \<and> payment_status_of force coll m target = Completed) db = (receipt, db1)"
    and row: "create_payment_row (o_id ord) (o_retailer ord) txn (Some key) q m
         (payment_status_of force coll m target) usr receipt db1 = Inr (p, db2)"
    and eff: "(if coll then collect_on_credit ord q db2
        else settle_order ord [h] target q m usr force db2) = Inr (ord', db')"
    and pr: "\<not> pr_replayed pr" "pr_order pr = ord'"
  note f1 = with_receipt_frame [OF rc]
  note f2 = row [unfolded create_payment_row_Inr]
  have step: "money_step db db2"
    using f1 create_payment_row_step [OF row] by (blast intro: money_step_trans)
  have keys2: "distinct (map (\<lambda>b. (b_wholesaler b, b_retailer b)) (t_bindings db2))"
    using keys f1 f2 by simp
  have new: "paid_row db db2 ord q m txn key" "m \<in> {Cash, Transfer, Credit}"
    using f1 f2 by (auto simp: payment_cores_def paid_row_def)
  have tables: "t_orders db2 = t_orders db" "t_holds db2 = t_holds db" "t_bindings db2 = t_bindings db"
    using f1 f2 by simp_all
  show thesis
  proof (cases coll)
    case True
    from pre True have st: "o_status ord = PAID" "m = Cash \<or> m = Transfer"
      and le: "q \<le> get_order_method_total db (o_id ord) [Credit] - get_order_paid_total db (o_id ord)"
      by (auto elim: prechecks_Inr simp: get_order_paid_total_def)
    from ver True have hold: "h_status h = Converted" "h_remaining h = 0" "h_amount h = o_total ord"
        "get_order_method_total db (o_id ord) [Credit] = o_total ord" "count_order_payments db (o_id ord) Credit = 1"
      by (auto elim: verify_hold_Inr)
    from eff True have "collect_on_credit ord q db2 = Inr (ord', db')" by simp
    note e = collect_effect [OF keys2 this]
    show thesis
      by (rule collection [OF q st h hold(1-5)])
        (use e new tables le hold pr step money_step_trans in
          \<open>auto simp: paid_row_def payment_cores_def pair_hit_def\<close>)
  next
    case False
    from pre False have st: "o_status ord = CONFIRMED \<or> o_status ord = PARTIALLY_PAID"
      and le: "q \<le> o_total ord - get_order_paid_total db (o_id ord)"
      and target: "target = (if o_total ord \<le> get_order_paid_total db (o_id ord) + q then PAID else PARTIALLY_PAID)"
      and cred: "m = Credit \<Longrightarrow> count_order_payments db (o_id ord) Credit = 0 \<and>
         get_order_paid_total db (o_id ord) \<le> 0 \<and> q = o_total ord"
      by (auto elim: prechecks_Inr)
    from ver False have hold: "h_status h = Active" "h_amount h = o_total ord"
        "h_remaining h = o_total ord - get_order_paid_total db (o_id ord)"
      by (auto elim: verify_hold_Inr)
    from eff False have "settle_order ord [h] target q m usr force db2 = Inr (ord', db')" by simp
    note e = settle_effect [OF keys2 this]
    have step': "money_step db db'" using step e by (blast intro: money_step_trans)
    show thesis
    proof (cases "m = Credit")
      case True
      show thesis
        by (rule credit [OF q st True h hold])
          (use True cred e new tables le pr step' target in \<open>auto simp: paid_row_def\<close>)
    next
      case m: False
      then have "m = Cash \<or> m = Transfer" using new(2) by auto
      then show thesis
        by (rule tender [OF q st _ h hold le])
          (use m e new tables pr step' target in \<open>auto simp: paid_row_def pair_hit_def\<close>)
    qed
  qed
qed

end
