(* ===== verification/Sample_Run.thy ===== *)
theory Sample_Run
  imports Canonical_Payment
begin

text \<open>
  The sample store taken through the order-to-cash flow: confirmed, partially paid in cash, paid
  off by transfer. Each step is evaluated from the model's definitions; the stores are the concrete
  inputs of the development's non-vacuity lemmas.
\<close>

definition sample_confirmed :: store where
  "sample_confirmed = sample_store
     \<lparr>t_orders := [sample_order\<lparr>o_status := CONFIRMED, o_updated_by := Some 9\<rparr>],
      t_stocks := [\<lparr>s_sku = 21, s_on_hand = 10, s_reserved = 2, s_deleted = False\<rparr>],
      t_reservations := [\<lparr>v_id = 1000, v_order = 1, v_item = 11, v_sku = 21, v_code = ''MZ-1'',
         v_quantity = 2, v_status = Reserved, v_deleted = False\<rparr>],
      t_holds := [\<lparr>h_id = 1001, h_order = 1, h_amount = 100, h_remaining = 100, h_status = Active,
         h_created_by = Some 9, h_updated_by = Some 9\<rparr>],
      t_bindings := [\<lparr>b_wholesaler = 7, b_retailer = 8, b_status = Binding_Active, b_balance = 100, b_deleted = False\<rparr>],
      t_drawn := 2\<rparr>"

lemma sample_confirm_run:
  "\<exists>r. confirm_order 1 (Some 9) sample_store = Inr (r, sample_confirmed)"
  by (simp add: confirm_run_defs sample_confirmed_def sample_defs Let_def)

definition sample_cash :: payment_row where
  "sample_cash = \<lparr>p_id = 1002, p_order = 1, p_retailer = 8, p_transaction = None, p_key = Some ''cash-key-1'',
     p_amount = 40, p_method = Cash, p_status = Pending, p_receipt = None, p_created_by = Some 9, p_deleted = False\<rparr>"

definition sample_partly :: store where
  "sample_partly = sample_confirmed
     \<lparr>t_orders := [sample_order\<lparr>o_status := PARTIALLY_PAID, o_updated_by := Some 9\<rparr>],
      t_holds := [\<lparr>h_id = 1001, h_order = 1, h_amount = 100, h_remaining = 60, h_status = Active,
         h_created_by = Some 9, h_updated_by = Some 9\<rparr>],
      t_bindings := [\<lparr>b_wholesaler = 7, b_retailer = 8, b_status = Binding_Active, b_balance = 60, b_deleted = False\<rparr>],
      t_payments := [sample_cash], t_drawn := 3\<rparr>"

lemmas payment_run_defs = confirm_payment_def get_order_by_id_for_update_def confirm_payment_for_locked_order_def
  raise_invalid_amount_def get_by_idempotency_key_def live_order_def assert_valid_payment_history_def
  find_invalid_history_orders_def invalid_rows_of_def row_find_def payment_prechecks_def get_order_paid_total_def
  get_order_method_total_def order_payments_def count_order_payments_def transfer_reference_free_def order_holds_def
  verify_hold_contract_def create_payment_row_def draw_uuid_def wrap_mutation_def settle_order_def reduce_hold_def
  convert_hold_def collect_on_credit_def flush_hold_def hold_row_ok_def put_hold_def
  apply_payment_transition_for_locked_def post_transition_ledger_def
  assign_status_def put_order_def apply_outstanding_balance_delta_def update_binding_def latest_payment_record_def
  get_by_id_def update_cash_transfer_to_completed_def settles_def post_payment_received_def post_transaction_def
  post_entry_def invalid_history_row_def get_by_transaction_id_def

lemma sample_partial_payment:
  "\<exists>pr. confirm_payment no_race (Canonical 1) (Finite 40) Cash None ''cash-key-1'' (Some 9) False False sample_confirmed
     = Inr (pr, sample_partly) \<and> pr_payment pr = sample_cash \<and> \<not> pr_replayed pr"
  by (simp add: payment_run_defs sample_partly_def sample_cash_def sample_confirmed_def sample_defs Let_def)

definition sample_transfer :: payment_row where
  "sample_transfer = \<lparr>p_id = 1003, p_order = 1, p_retailer = 8, p_transaction = Some ''TRX-7'', p_key = Some ''wire-key-1'',
     p_amount = 60, p_method = Transfer, p_status = Completed, p_receipt = None, p_created_by = Some 9, p_deleted = False\<rparr>"

definition sample_paid :: store where
  "sample_paid = sample_partly
     \<lparr>t_orders := [sample_order\<lparr>o_status := PAID, o_updated_by := Some 9\<rparr>],
      t_holds := [\<lparr>h_id = 1001, h_order = 1, h_amount = 100, h_remaining = 0, h_status = Settled,
         h_created_by = Some 9, h_updated_by = Some 9\<rparr>],
      t_bindings := [\<lparr>b_wholesaler = 7, b_retailer = 8, b_status = Binding_Active, b_balance = 0, b_deleted = False\<rparr>],
      t_ledger := [\<lparr>l_id = 1004, l_account = CASH, l_amount = 100, l_reference_type = ''order'', l_reference = 1, l_date = 5\<rparr>,
        \<lparr>l_id = 1005, l_account = RECEIVABLE, l_amount = - 100, l_reference_type = ''order'', l_reference = 1, l_date = 5\<rparr>],
      t_payments := [sample_cash\<lparr>p_status := Completed\<rparr>, sample_transfer], t_drawn := 6\<rparr>"

lemma num4_numeral [simp]: "num4 (numeral n) = numeral n" "num4 (- numeral n) = - numeral n"
  by (rule num4_cents, simp)+

lemma sample_final_payment:
  "\<exists>pr. confirm_payment no_race (Canonical 1) (Finite 60) Transfer (Some ''TRX-7'') ''wire-key-1'' (Some 9) False False
     sample_partly = Inr (pr, sample_paid) \<and> pr_payment pr = sample_transfer \<and> pr_state pr = PAID"
  by (simp add: payment_run_defs sample_paid_def sample_transfer_def sample_partly_def sample_cash_def
      sample_confirmed_def sample_defs Let_def)

definition sample_fulfilled :: store where
  "sample_fulfilled = sample_paid
     \<lparr>t_orders := [sample_order\<lparr>o_status := FULFILLED, o_updated_by := Some 9\<rparr>],
      t_stocks := [\<lparr>s_sku = 21, s_on_hand = 8, s_reserved = 0, s_deleted = False\<rparr>],
      t_reservations := [\<lparr>v_id = 1000, v_order = 1, v_item = 11, v_sku = 21, v_code = ''MZ-1'',
         v_quantity = 2, v_status = Consumed, v_deleted = False\<rparr>],
      t_movements := [\<lparr>m_sku = 21, m_type = Deduction, m_quantity = - 2, m_before = 10, m_after = 8,
         m_reference_type = ''order'', m_reference = Some 1, m_created_by = Some 9\<rparr>]\<rparr>"

lemma sample_fulfil_run: "\<exists>r. fulfill_order 1 (Some 9) sample_paid = Inr (r, sample_fulfilled)"
  by (simp add: fulfill_order_def load_locked_def live_order_def validate_transition_def check_invariants_def
      lifecycle_items_def prelock_stocks_def locked_stock_by_sku_id_def find_stock_def sellable_def
      deduct_on_fulfillment_def item_reservations_def insert_movement_def put_stock_def set_reservation_def
      assign_status_def put_order_def sample_fulfilled_def sample_paid_def sample_partly_def
      sample_confirmed_def sample_defs Let_def)

lemmas sample_run_defs = sample_confirmed_def sample_partly_def sample_paid_def sample_fulfilled_def
  sample_cash_def sample_transfer_def sample_defs

end
