(* ===== verification/Credit_Exposure.thy ===== *)
theory Credit_Exposure
  imports Sample_Run
begin

text \<open>
  The credit contract that the command service and the payment service keep together. Every order
  has an exposure: what its credit hold still holds plus what a credit sale still owes. The
  outstanding balance of a binding is a cache of the exposures of its orders, and every order's
  hold and payments fit its status. The theory states this invariant and shows that confirming,
  cancelling, paying, fulfilling, returning and voiding keep it.
\<close>

section \<open>Exposure\<close>

definition credit_total :: "store \<Rightarrow> uuid \<Rightarrow> money" where
  "credit_total db oid = get_order_method_total db oid [Credit]"

definition credit_owed :: "store \<Rightarrow> uuid \<Rightarrow> money" where
  "credit_owed db oid = (if 0 < credit_total db oid then credit_total db oid - get_order_paid_total db oid else 0)"

definition order_exposure :: "store \<Rightarrow> uuid \<Rightarrow> money" where
  "order_exposure db oid = (\<Sum>h\<leftarrow>order_holds db oid. h_remaining h) + credit_owed db oid"

definition occupation :: "store \<Rightarrow> uuid \<Rightarrow> uuid \<Rightarrow> money" where
  "occupation db ws ret =
     (\<Sum>ord\<leftarrow>t_orders db. if o_wholesaler ord = ws \<and> o_retailer ord = ret then order_exposure db (o_id ord) else 0)"

text \<open>The cache is exact: every live binding's balance is the exposure of its orders.\<close>

definition cache_exact :: "store \<Rightarrow> bool" where
  "cache_exact db \<longleftrightarrow> (\<forall>b \<in> set (t_bindings db). \<not> b_deleted b \<longrightarrow>
     b_balance b = occupation db (b_wholesaler b) (b_retailer b))"

section \<open>Orders whose hold and payments fit their status\<close>

text \<open>The hold of an order that has been paid: settled by tender, or converted into a credit sale.\<close>

definition paid_off :: "store \<Rightarrow> order_row \<Rightarrow> hold_row \<Rightarrow> bool" where
  "paid_off db ord h \<longleftrightarrow> h_amount h = o_total ord \<and> h_remaining h = 0 \<and>
     (h_status h = Settled \<and> get_order_paid_total db (o_id ord) = o_total ord \<and> credit_total db (o_id ord) = 0 \<or>
      h_status h = Converted \<and> credit_total db (o_id ord) = o_total ord \<and>
      0 \<le> get_order_paid_total db (o_id ord) \<and> get_order_paid_total db (o_id ord) \<le> o_total ord)"

fun status_ok :: "order_state \<Rightarrow> store \<Rightarrow> order_row \<Rightarrow> bool" where
  "status_ok CONFIRMED db ord \<longleftrightarrow> 0 < o_total ord \<and> credit_total db (o_id ord) = 0 \<and>
     get_order_paid_total db (o_id ord) = 0 \<and>
     (\<exists>h. order_holds db (o_id ord) = [h] \<and> h_status h = Active \<and> h_amount h = o_total ord \<and> h_remaining h = o_total ord)"
| "status_ok PARTIALLY_PAID db ord \<longleftrightarrow> 0 < o_total ord \<and> credit_total db (o_id ord) = 0 \<and>
     0 < get_order_paid_total db (o_id ord) \<and> get_order_paid_total db (o_id ord) < o_total ord \<and>
     (\<exists>h. order_holds db (o_id ord) = [h] \<and> h_status h = Active \<and> h_amount h = o_total ord \<and>
        h_remaining h = o_total ord - get_order_paid_total db (o_id ord))"
| "status_ok CANCELLED db ord \<longleftrightarrow> credit_total db (o_id ord) = 0 \<and> get_order_paid_total db (o_id ord) = 0 \<and>
     (order_holds db (o_id ord) = [] \<or>
      (\<exists>h. order_holds db (o_id ord) = [h] \<and> h_status h = Hold_Released \<and> 0 < h_amount h \<and> h_remaining h = 0))"
| "status_ok DRAFT db ord \<longleftrightarrow> credit_total db (o_id ord) = 0 \<and> get_order_paid_total db (o_id ord) = 0 \<and>
     order_holds db (o_id ord) = []"
| "status_ok VOIDED db ord \<longleftrightarrow> credit_total db (o_id ord) = 0 \<and> get_order_paid_total db (o_id ord) = 0 \<and>
     order_holds db (o_id ord) = []"
| "status_ok _ db ord \<longleftrightarrow> 0 < o_total ord \<and> (\<exists>h. order_holds db (o_id ord) = [h] \<and> paid_off db ord h)"

definition order_ok :: "store \<Rightarrow> order_row \<Rightarrow> bool" where
  "order_ok db ord \<longleftrightarrow> status_ok (o_status ord) db ord \<and> in_cents (o_total ord) \<and>
     in_cents (get_order_paid_total db (o_id ord))"

definition store_inv :: "store \<Rightarrow> bool" where
  "store_inv db \<longleftrightarrow> store_keys db \<and> accounted db \<and> cache_exact db \<and> (\<forall>ord \<in> set (t_orders db). order_ok db ord)"

section \<open>What one order's hold and payments determine\<close>

definition order_view :: "store \<Rightarrow> uuid \<Rightarrow> hold_row list \<times> money \<times> money" where
  "order_view db oid = (order_holds db oid, get_order_paid_total db oid, credit_total db oid)"

lemma view_exposure: "order_view db' oid = order_view db oid \<Longrightarrow> order_exposure db' oid = order_exposure db oid"
  by (simp add: order_view_def order_exposure_def credit_owed_def)

lemma view_status: "order_view db' (o_id ord) = order_view db (o_id ord) \<Longrightarrow> status_ok st db' ord = status_ok st db ord"
  by (cases st) (simp_all add: order_view_def paid_off_def)

lemma view_order_ok: "order_view db' (o_id ord) = order_view db (o_id ord) \<Longrightarrow> order_ok db' ord = order_ok db ord"
  using view_status [of db' ord db] by (simp add: order_ok_def order_view_def)

lemma order_ok_exposure_cents:
  assumes "order_ok db ord"
  shows "in_cents (order_exposure db (o_id ord))"
proof -
  have "in_cents (o_total ord)" "in_cents (get_order_paid_total db (o_id ord))" "status_ok (o_status ord) db ord"
    using assms by (simp_all add: order_ok_def)
  then show ?thesis
    by (cases "o_status ord") (auto simp: order_exposure_def credit_owed_def paid_off_def intro!: in_cents_diff)
qed

lemma occupation_cents:
  "(\<forall>ord \<in> set (t_orders db). order_ok db ord) \<Longrightarrow> in_cents (occupation db ws ret)"
  unfolding occupation_def by (rule in_cents_sum_list) (auto intro: order_ok_exposure_cents)

section \<open>Changing one order\<close>

lemma row_put_self: "distinct (map key rows) \<Longrightarrow> r \<in> set rows \<Longrightarrow> row_put key r rows = rows"
  by (induction rows) (auto simp: row_put_absent rev_image_eqI)

lemma sum_list_absent: "x \<notin> set xs \<Longrightarrow> (\<Sum>y\<leftarrow>xs. if y = x then d else 0) = (0 :: money)"
  by (induction xs) auto

lemma sum_list_single:
  assumes "distinct xs" and "x \<in> set xs"
  shows "(\<Sum>y\<leftarrow>xs. if y = x \<and> P then d else 0) = (if P then d else (0 :: money))"
proof -
  have "(\<Sum>y\<leftarrow>xs. if y = x then d else 0) = d"
    using assms by (induction xs) (auto simp: sum_list_absent)
  then show ?thesis by (cases P) simp_all
qed

text \<open>Exposures of the other orders do not move, so an occupation moves by what one order's does.\<close>

lemma occupation_change:
  assumes ids: "distinct (map o_id (t_orders db))" and ord: "ord \<in> set (t_orders db)"
    and ord': "o_id ord' = o_id ord" "o_wholesaler ord' = o_wholesaler ord" "o_retailer ord' = o_retailer ord"
    and orders: "t_orders db' = row_put o_id ord' (t_orders db)"
    and others: "\<And>x. x \<noteq> o_id ord \<Longrightarrow> order_view db' x = order_view db x"
  shows "occupation db' ws ret = occupation db ws ret +
    (if o_wholesaler ord = ws \<and> o_retailer ord = ret
     then order_exposure db' (o_id ord) - order_exposure db (o_id ord) else 0)"
proof -
  let ?f = "\<lambda>d x. if o_wholesaler x = ws \<and> o_retailer x = ret then order_exposure d (o_id x) else 0"
  have same: "?f db' x = ?f db x + (if x = ord \<and> o_wholesaler ord = ws \<and> o_retailer ord = ret
      then order_exposure db' (o_id ord) - order_exposure db (o_id ord) else 0)"
    if "x \<in> set (t_orders db)" for x
    using that ord ids view_exposure [OF others] by (cases "o_id x = o_id ord") (auto simp: distinct_map dest: inj_onD)
  have "occupation db' ws ret = (\<Sum>x\<leftarrow>row_put o_id ord' (t_orders db). ?f db' x)"
    by (simp add: occupation_def orders)
  also have "\<dots> = (\<Sum>x\<leftarrow>t_orders db. ?f db' x) - ?f db' ord + ?f db' ord'"
    using sum_list_row_put [OF ids ord, of ord' "?f db'"] ord' by simp
  also have "?f db' ord = ?f db' ord'" using ord' by simp
  also have "(\<Sum>x\<leftarrow>t_orders db. ?f db' x) = (\<Sum>x\<leftarrow>t_orders db. ?f db x) +
      (\<Sum>x\<leftarrow>t_orders db. if x = ord \<and> o_wholesaler ord = ws \<and> o_retailer ord = ret
      then order_exposure db' (o_id ord) - order_exposure db (o_id ord) else 0)"
    using same by (simp add: sum_list_addf [symmetric] cong: map_cong)
  also have "(\<Sum>x\<leftarrow>t_orders db. if x = ord \<and> P then d else 0) = (if P then d else (0 :: money))" for P d
    by (rule sum_list_single) (use ord ids in \<open>auto simp: distinct_map\<close>)
  finally show ?thesis by (simp add: occupation_def)
qed

text \<open>The bindings after a change of one pair's exposure by \<open>delta\<close>.\<close>

definition bindings_moved :: "store \<Rightarrow> store \<Rightarrow> order_row \<Rightarrow> money \<Rightarrow> bool" where
  "bindings_moved db db' ord delta \<longleftrightarrow>
     t_bindings db' = bump_bindings (o_wholesaler ord) (o_retailer ord) delta (t_bindings db) \<or>
     (delta = 0 \<and> t_bindings db' = t_bindings db)"

lemma cache_exact_moved:
  assumes cache: "cache_exact db" and ok: "\<forall>ord \<in> set (t_orders db). order_ok db ord"
    and moved: "bindings_moved db db' ord delta" and cents: "in_cents delta"
    and occ: "\<And>ws ret. occupation db' ws ret = occupation db ws ret +
      (if o_wholesaler ord = ws \<and> o_retailer ord = ret then delta else 0)"
  shows "cache_exact db'"
proof -
  have bal: "num2 (occupation db ws ret + delta) = occupation db ws ret + delta" for ws ret
    using occupation_cents [OF ok] cents by (intro num2_cents in_cents_add)
  have "\<forall>b \<in> set (t_bindings db'). \<not> b_deleted b \<longrightarrow> b_balance b = occupation db' (b_wholesaler b) (b_retailer b)"
    if "t_bindings db' = bump_bindings (o_wholesaler ord) (o_retailer ord) delta (t_bindings db)"
    unfolding that bump_bindings_def using cache bal by (auto simp: cache_exact_def occ binding_of_def)
  moreover have "\<forall>b \<in> set (t_bindings db'). \<not> b_deleted b \<longrightarrow> b_balance b = occupation db' (b_wholesaler b) (b_retailer b)"
    if "delta = 0" "t_bindings db' = t_bindings db"
    using that cache by (simp add: cache_exact_def occ)
  ultimately show ?thesis using moved by (auto simp: bindings_moved_def cache_exact_def)
qed

text \<open>
  The step every operation on one order takes: the row of one live order changes, the views of the
  other orders stay, and the binding moves by the change of exposure.
\<close>

lemma store_inv_step:
  assumes inv: "store_inv db" and ord: "ord \<in> set (t_orders db)"
    and ord': "o_id ord' = o_id ord" "o_wholesaler ord' = o_wholesaler ord" "o_retailer ord' = o_retailer ord"
    and orders: "t_orders db' = row_put o_id ord' (t_orders db)"
    and others: "\<And>x. x \<noteq> o_id ord \<Longrightarrow> order_view db' x = order_view db x"
    and ok: "order_ok db' ord'"
    and moved: "bindings_moved db db' ord (order_exposure db' (o_id ord) - order_exposure db (o_id ord))"
    and acc: "accounted db'" and holds: "distinct (map h_order (t_holds db'))"
  shows "store_inv db'"
proof -
  have keys: "store_keys db" and cache: "cache_exact db" and oks: "\<forall>x \<in> set (t_orders db). order_ok db x"
    using inv by (simp_all add: store_inv_def)
  have ids: "distinct (map o_id (t_orders db))" using keys by (simp add: store_keys_def)
  have "map (\<lambda>b. (b_wholesaler b, b_retailer b)) (t_bindings db') = map (\<lambda>b. (b_wholesaler b, b_retailer b)) (t_bindings db)"
    using moved by (auto simp: bindings_moved_def)
  then have keys': "store_keys db'"
    using keys acc holds by (simp add: store_keys_def orders accounted_def)
  have "in_cents (order_exposure db' (o_id ord) - order_exposure db (o_id ord))"
    using order_ok_exposure_cents [OF ok] order_ok_exposure_cents [of db ord] oks ord ord'
    by (auto intro!: in_cents_diff)
  then have "cache_exact db'"
    using cache_exact_moved [OF cache oks moved] occupation_change [OF ids ord ord' orders others] by simp
  moreover have "order_ok db' x" if x: "x \<in> set (t_orders db')" for x
  proof -
    have "x = ord' \<or> (x \<in> set (t_orders db) \<and> o_id x \<noteq> o_id ord')"
      using x unfolding orders by (rule set_row_put)
    then show ?thesis
    proof
      assume "x \<in> set (t_orders db) \<and> o_id x \<noteq> o_id ord'"
      then show ?thesis using oks others view_order_ok [of db' x db] ord' by simp
    qed (simp add: ok)
  qed
  ultimately show ?thesis using keys' acc by (simp add: store_inv_def)
qed

section \<open>Every operation keeps the contract\<close>

lemma view_cong: "t_holds db' = t_holds db \<Longrightarrow> payment_cores db' = payment_cores db \<Longrightarrow> order_view db' x = order_view db x"
  by (simp add: order_view_def order_holds_def get_order_paid_total_def credit_total_def method_total_cores)

lemma store_inv_parts:
  assumes "store_inv db" and "live_order db oid = Some ord"
  shows "distinct (map (\<lambda>b. (b_wholesaler b, b_retailer b)) (t_bindings db))" "distinct (map o_id (t_orders db))"
    "distinct (map h_order (t_holds db))" "accounted db" "ord \<in> set (t_orders db)" "o_id ord = oid" "order_ok db ord"
  using assms live_order_Some [OF assms(2)] by (auto simp: store_inv_def store_keys_def)

text \<open>A command that only moves the status of one order, with stock changes around it.\<close>

lemma status_only_keeps:
  assumes inv: "store_inv db" and live: "live_order db oid = Some ord"
    and ok: "status_ok (o_status ord) db ord \<Longrightarrow> status_ok st db ord"
    and acc: "accounted db'"
    and tables: "t_orders db' = row_put o_id (with_status ord st usr) (t_orders db)" "t_holds db' = t_holds db"
      "payment_cores db' = payment_cores db" "t_bindings db' = t_bindings db"
  shows "store_inv db'"
proof -
  note p = store_inv_parts [OF inv live]
  have view: "order_view db' x = order_view db x" for x using tables by (intro view_cong)
  have "order_ok db' (with_status ord st usr)"
  proof -
    have "status_ok st db' (with_status ord st usr) = status_ok st db ord"
      using view [of oid] p(6) by (cases st) (simp_all add: order_view_def paid_off_def)
    then show ?thesis using p(6,7) ok view [of oid] by (simp add: order_ok_def order_view_def)
  qed
  then show ?thesis
    using p(3) view_exposure [OF view] acc
    by (intro store_inv_step [OF inv p(5) _ _ _ tables(1) view]) (simp_all add: bindings_moved_def tables)
qed

lemma stock_step_accounted: "stock_step db db' \<Longrightarrow> accounted db \<Longrightarrow> accounted db'"
  by (simp add: stock_step_def)

lemma stock_step_cores: "stock_step db db' \<Longrightarrow> payment_cores db' = payment_cores db"
  by (simp add: payment_cores_def stock_step_tables)

lemma put_order_accounted [simp]: "accounted (put_order ord db) = accounted db"
  by (simp add: accounted_def reservation_ids_def reserved_units_def reserved_column_def)

lemma fulfill_keeps:
  assumes inv: "store_inv db" and run: "fulfill_order oid usr db = Inr (r, db')"
  shows "store_inv db'"
  using run
proof (rule fulfill_order_effect)
  fix ord db1
  assume live: "live_order db oid = Some ord" and st: "o_status ord = PAID" and step: "stock_step db db1"
    and db': "db' = put_order (with_status ord FULFILLED usr) db1"
  note p = store_inv_parts [OF inv live] and t = stock_step_tables [OF step]
  show ?thesis
    by (rule status_only_keeps [OF inv live, where st = FULFILLED and usr = usr])
      (use p(4) st t step stock_step_cores [OF step] in
        \<open>auto simp: db' payment_cores_def intro: stock_step_accounted\<close>)
qed

lemma return_keeps:
  assumes inv: "store_inv db" and run: "return_order oid usr db = Inr (r, db')"
  shows "store_inv db'"
  using run
proof (rule return_order_effect)
  fix ord posted db1 db2
  assume live: "live_order db oid = Some ord" and st: "o_status ord = FULFILLED"
    and post: "post_order_return oid (o_total ord) db = Inr (posted, db1)" and step: "stock_step db1 db2"
    and db': "db' = put_order (with_status ord RETURNED usr) db2"
  note p = store_inv_parts [OF inv live] and t = stock_step_tables [OF step] and f = order_return_frame [OF post]
  have "money_step db db1"
    using post unfolding post_order_return_def by (rule money_step_posting)
  then have "accounted db2" using p(4) step by (blast intro: money_step_accounted stock_step_accounted)
  then show ?thesis
    by (intro status_only_keeps [OF inv live, where st = RETURNED and usr = usr])
      (use st t f stock_step_cores [OF step] in \<open>auto simp: db' payment_cores_def\<close>)
qed

lemma void_keeps:
  assumes inv: "store_inv db" and run: "apply_transition oid target usr m db = Inr (r, db')"
  shows "store_inv db'"
proof -
  from run have "target = DRAFT \<or> target = VOIDED"
    by (cases target) (auto simp: apply_transition_def command_owned_targets_def)
  with run obtain ord where live: "live_order db oid = Some ord" and st: "o_status ord = DRAFT"
    and db': "db' = put_order (with_status ord VOIDED usr) db"
    by (auto simp: apply_transition_def command_owned_targets_def result_simps Let_def
        assign_status_eq post_transition_ledger_def)
  show ?thesis
    by (rule status_only_keeps [OF inv live, where st = VOIDED and usr = usr])
      (use store_inv_parts [OF inv live] st in \<open>auto simp: db' payment_cores_def\<close>)
qed

lemma confirm_keeps:
  assumes inv: "store_inv db" and run: "confirm_order oid usr db = Inr (r, db')"
  shows "store_inv db'"
proof -
  have keys: "distinct (map (\<lambda>b. (b_wholesaler b, b_retailer b)) (t_bindings db))"
    using inv by (simp add: store_inv_def store_keys_def)
  from keys run obtain ord actor db1 db2 where live: "live_order db oid = Some ord"
    and st: "o_status ord = DRAFT" "0 < o_total ord" and step: "stock_step db db1" and none: "order_holds db oid = []"
    and db2: "db2 = put_order (with_status ord CONFIRMED usr) db1"
    and db': "db' = db2\<lparr>t_drawn := Suc (t_drawn db2),
             t_holds := t_holds db @ [fresh_hold ord actor (t_uuids db (t_drawn db2))],
             t_bindings := bump_bindings (o_wholesaler ord) (o_retailer ord) (o_total ord) (t_bindings db)\<rparr>"
    by (rule confirm_order_effect)
  note p = store_inv_parts [OF inv live] and t = stock_step_tables [OF step]
  let ?h = "fresh_hold ord actor (t_uuids db (t_drawn db2))"
  have h: "h_order ?h = oid" "h_remaining ?h = o_total ord" "h_amount ?h = o_total ord" "h_status ?h = Active"
    using p(6) by (simp_all add: fresh_hold_def)
  have pay: "payment_cores db' = payment_cores db" using stock_step_cores [OF step] by (simp add: db' db2 payment_cores_def)
  have holds: "order_holds db' x = (if x = oid then [?h] else order_holds db x)" for x
    using order_holds_append [of db' db ?h x] none h by (auto simp: db')
  have totals: "get_order_method_total db' x ms = get_order_method_total db x ms" for x ms
    using pay by (rule method_total_cong)
  have zero: "get_order_paid_total db oid = 0" "credit_total db oid = 0"
    using p(6,7) st by (simp_all add: order_ok_def)
  have acc: "accounted db'"
    using stock_step_accounted [OF step p(4)] unfolding accounted_def reservation_ids_def reserved_units_def
      reserved_column_def db' db2 by (auto intro: less_SucI)
  show ?thesis
  proof (rule store_inv_step [OF inv p(5), where ord' = "with_status ord CONFIRMED usr"])
    show "order_view db' x = order_view db x" if "x \<noteq> o_id ord" for x
      using that p(6) totals by (simp add: order_view_def holds get_order_paid_total_def credit_total_def)
    show "order_ok db' (with_status ord CONFIRMED usr)"
      using p(6,7) st h zero totals by (simp add: order_ok_def holds get_order_paid_total_def credit_total_def)
    show "bindings_moved db db' ord (order_exposure db' (o_id ord) - order_exposure db (o_id ord))"
    proof -
      have "order_exposure db' oid = o_total ord" "order_exposure db oid = 0"
        using h zero totals none
        by (simp_all add: order_exposure_def holds credit_owed_def credit_total_def get_order_paid_total_def)
      then show ?thesis using p(6) by (simp add: bindings_moved_def db')
    qed
    have "oid \<notin> h_order ` set (t_holds db)" using none by (auto simp: order_holds_def filter_empty_conv)
    then show "distinct (map h_order (t_holds db'))" using p(3) h by (simp add: db')
  qed (use acc in \<open>simp_all add: db' db2 t\<close>)
qed

lemma cancel_keeps:
  assumes inv: "store_inv db" and run: "cancel_order oid usr db = Inr (r, db')"
  shows "store_inv db'"
proof -
  have keys: "distinct (map (\<lambda>b. (b_wholesaler b, b_retailer b)) (t_bindings db))" and acc: "accounted db"
    using inv by (simp_all add: store_inv_def store_keys_def)
  show ?thesis
    using keys acc run
  proof (rule cancel_order_effect)
    fix ord db1
    assume live: "live_order db oid = Some ord" and st: "o_status ord = DRAFT" and step: "stock_step db db1"
      and db': "db' = put_order (with_status ord CANCELLED usr) db1"
    show ?thesis
      by (rule status_only_keeps [OF inv live, where st = CANCELLED and usr = usr])
        (use acc st stock_step_tables [OF step] step stock_step_cores [OF step] in
          \<open>auto simp: db' payment_cores_def intro: stock_step_accounted\<close>)
  next
    fix ord db1 h
    assume live: "live_order db oid = Some ord" and st: "o_status ord = CONFIRMED"
      and one: "order_holds db oid = [h]" and hold: "h_status h = Active" "h_amount h = o_total ord"
        "h_remaining h = o_total ord" and step: "stock_step db db1"
      and db': "db' = put_order (with_status ord CANCELLED usr) ((put_hold (released_hold h usr) db1)
       \<lparr>t_bindings := bump_bindings (o_wholesaler ord) (o_retailer ord) (- o_total ord) (t_bindings db)\<rparr>)"
    note p = store_inv_parts [OF inv live] and t = stock_step_tables [OF step]
    have h: "h_order h = oid" using one by (metis order_holds_cases p(3) list.inject list.distinct(1))
    have pay: "payment_cores db' = payment_cores db"
      using stock_step_cores [OF step] by (simp add: db' payment_cores_def)
    have holds: "order_holds db' x = (if x = oid then [released_hold h usr] else order_holds db x)" for x
      using order_holds_row_put [of db' "released_hold h usr" db x] one h by (simp add: db' t released_hold_def)
    have totals: "get_order_method_total db' x ms = get_order_method_total db x ms" for x ms
      using pay by (rule method_total_cong)
    have zero: "get_order_paid_total db oid = 0" "credit_total db oid = 0"
      using p(6,7) st by (simp_all add: order_ok_def)
    have acc': "accounted db'"
      using stock_step_accounted [OF step acc]
      by (simp add: db' accounted_def reservation_ids_def reserved_units_def reserved_column_def)
    show ?thesis
    proof (rule store_inv_step [OF inv p(5), where ord' = "with_status ord CANCELLED usr"])
      show "order_view db' x = order_view db x" if "x \<noteq> o_id ord" for x
        using that p(6) totals by (simp add: order_view_def holds get_order_paid_total_def credit_total_def)
      show "order_ok db' (with_status ord CANCELLED usr)"
        using p(6,7) zero totals st hold(2)
        by (simp add: order_ok_def holds get_order_paid_total_def credit_total_def released_hold_def)
      show "bindings_moved db db' ord (order_exposure db' (o_id ord) - order_exposure db (o_id ord))"
      proof -
        have "order_exposure db' oid = 0" "order_exposure db oid = o_total ord"
          using hold zero totals one
          by (simp_all add: order_exposure_def holds credit_owed_def credit_total_def get_order_paid_total_def
              released_hold_def)
        then show ?thesis using p(6) by (simp add: bindings_moved_def db')
      qed
    qed (use p(3) acc' in \<open>simp_all add: db' t\<close>)
  qed
qed

lemma paid_row_totals:
  assumes "paid_row db db' ord q m txn key"
  shows "get_order_method_total db' x ms =
    get_order_method_total db x ms + (if x = o_id ord \<and> m \<in> set ms then num2 q else 0)"
  using assms unfolding paid_row_def by (auto simp: method_total_snoc)

lemma reduced_hold_simps [simp]:
  "h_order (reduced_hold h q usr) = h_order h" "h_amount (reduced_hold h q usr) = h_amount h"
  "h_remaining (reduced_hold h q usr) = num2 (h_remaining h - q)"
  "h_status (reduced_hold h q usr) = (if h_remaining h = q then Settled else h_status h)"
  "h_order (converted_hold h usr) = h_order h" "h_amount (converted_hold h usr) = h_amount h"
  "h_remaining (converted_hold h usr) = 0" "h_status (converted_hold h usr) = Converted"
  by (simp_all add: reduced_hold_def converted_hold_def)

text \<open>A payment in whole cents keeps the contract.\<close>

lemma locked_payment_keeps:
  assumes inv: "store_inv db" and live: "live_order db oid = Some ord"
    and run: "confirm_payment_for_locked_order no_race ord (Finite q) m txn key usr force alloc db = Inr (pr, db')"
    and cents: "in_cents q"
  shows "store_inv db'"
proof -
  note p = store_inv_parts [OF inv live]
  have q2: "num2 q = q" using cents by (rule num2_cents)
  have tot: "in_cents (o_total ord)" and paid: "in_cents (get_order_paid_total db oid)"
    and ok: "status_ok (o_status ord) db ord"
    using p(6,7) by (simp_all add: order_ok_def)
  show ?thesis
    using p(1) run
  proof (rule locked_payment_effect)
    assume "db' = db"
    then show ?thesis using inv by simp
  next
    fix q' h
    assume "Finite q = Finite q'" and pos: "0 < q'" and st: "o_status ord = PAID" and m: "m = Cash \<or> m = Transfer"
      and one: "order_holds db (o_id ord) = [h]" and h: "h_status h = Converted" "h_remaining h = 0" "h_amount h = o_total ord"
      and cred: "get_order_method_total db (o_id ord) [Credit] = o_total ord"
      and le: "q' \<le> o_total ord - get_order_paid_total db (o_id ord)"
      and row: "paid_row db db' ord q' m txn key" and step: "money_step db db'"
      and tables: "t_orders db' = t_orders db" "t_holds db' = t_holds db"
      and b: "t_bindings db' = bump_bindings (o_wholesaler ord) (o_retailer ord) (- q') (t_bindings db)"
    then have q: "q' = q" by simp
    note tot' = paid_row_totals [OF row, unfolded q q2]
    have new: "get_order_paid_total db' oid = get_order_paid_total db oid + q" "credit_total db' oid = o_total ord"
      using tot' m p(6) cred by (auto simp: get_order_paid_total_def credit_total_def)
    have holds: "order_holds db' x = order_holds db x" for x using tables(2) by (rule order_holds_cong)
    have pos': "0 < o_total ord" "0 \<le> get_order_paid_total db oid"
      using ok st one h p(6) by (auto simp: paid_off_def)
    have exposure: "order_exposure db' oid = order_exposure db oid - q"
      using pos' new cred p(6) by (simp add: order_exposure_def holds credit_owed_def credit_total_def)
    show ?thesis
    proof (rule store_inv_step [OF inv p(5), where ord' = ord])
      show "t_orders db' = row_put o_id ord (t_orders db)"
        using tables(1) row_put_self [OF p(2,5)] by simp
      show "order_view db' x = order_view db x" if "x \<noteq> o_id ord" for x
        using that tot' by (simp add: order_view_def holds get_order_paid_total_def credit_total_def)
      show "order_ok db' ord"
        using st one h new pos pos' le q tot paid cents p(6)
        by (simp add: order_ok_def paid_off_def holds in_cents_add)
      show "bindings_moved db db' ord (order_exposure db' (o_id ord) - order_exposure db (o_id ord))"
        using exposure b q p(6) by (simp add: bindings_moved_def)
      show "accounted db'" using step p(4) by (rule money_step_accounted)
    qed (use p(3) tables in simp_all)
  next
    fix q' h
    assume "Finite q = Finite q'" and pos: "0 < q'" and m: "m = Credit"
      and st: "o_status ord = CONFIRMED \<or> o_status ord = PARTIALLY_PAID"
      and one: "order_holds db (o_id ord) = [h]" and h: "h_amount h = o_total ord"
        "h_remaining h = o_total ord - get_order_paid_total db (o_id ord)"
      and qt: "q' = o_total ord" and none: "get_order_paid_total db (o_id ord) \<le> 0"
      and row: "paid_row db db' ord q' m txn key" and step: "money_step db db'"
      and orders: "t_orders db' = row_put o_id (with_status ord
         (if o_total ord \<le> get_order_paid_total db (o_id ord) + q' then PAID else PARTIALLY_PAID) usr) (t_orders db)"
      and th: "t_holds db' = row_put h_order (converted_hold h usr) (t_holds db)"
      and b: "t_bindings db' = t_bindings db"
    then have q: "q' = q" by simp
    note tot' = paid_row_totals [OF row, unfolded q q2]
    have zero: "get_order_paid_total db oid = 0" "credit_total db oid = 0"
      using ok st none p(6) by auto
    have new: "get_order_paid_total db' oid = 0" "credit_total db' oid = o_total ord"
      using tot' m p(6) zero qt q by (auto simp: get_order_paid_total_def credit_total_def)
    have ho: "h_order h = oid" using one p(6) by (metis order_holds_cases p(3) list.inject list.distinct(1))
    have holds: "order_holds db' x = (if x = oid then [converted_hold h usr] else order_holds db x)" for x
      using order_holds_row_put [OF th, of x] one ho p(6) by simp
    have exposure: "order_exposure db' oid = order_exposure db oid"
      using new zero pos qt one h p(6) by (simp add: order_exposure_def holds credit_owed_def)
    have paid': "with_status ord (if o_total ord \<le> get_order_paid_total db (o_id ord) + q' then PAID else PARTIALLY_PAID) usr
        = with_status ord PAID usr"
      using qt zero p(6) by simp
    show ?thesis
    proof (rule store_inv_step [OF inv p(5) _ _ _ orders [unfolded paid']])
      show "order_view db' x = order_view db x" if "x \<noteq> o_id ord" for x
        using that p(6) tot' by (simp add: order_view_def holds get_order_paid_total_def credit_total_def)
      show "order_ok db' (with_status ord PAID usr)"
        using new pos qt h tot p(6) by (simp add: order_ok_def paid_off_def holds)
      show "bindings_moved db db' ord (order_exposure db' (o_id ord) - order_exposure db (o_id ord))"
        using exposure b p(6) by (simp add: bindings_moved_def)
      show "accounted db'" using step p(4) by (rule money_step_accounted)
    qed (use p(3) th in simp_all)
  next
    fix q' h
    assume "Finite q = Finite q'" and pos: "0 < q'" and m: "m = Cash \<or> m = Transfer"
      and st: "o_status ord = CONFIRMED \<or> o_status ord = PARTIALLY_PAID"
      and one: "order_holds db (o_id ord) = [h]" and h: "h_status h = Active" "h_amount h = o_total ord"
        "h_remaining h = o_total ord - get_order_paid_total db (o_id ord)"
      and le: "q' \<le> o_total ord - get_order_paid_total db (o_id ord)"
      and row: "paid_row db db' ord q' m txn key" and step: "money_step db db'"
      and orders: "t_orders db' = row_put o_id (with_status ord
         (if o_total ord \<le> get_order_paid_total db (o_id ord) + q' then PAID else PARTIALLY_PAID) usr) (t_orders db)"
      and th: "t_holds db' = row_put h_order (reduced_hold h q' usr) (t_holds db)"
      and b: "t_bindings db' = bump_bindings (o_wholesaler ord) (o_retailer ord) (- q') (t_bindings db)"
    then have q: "q' = q" by simp
    let ?st = "if o_total ord \<le> get_order_paid_total db (o_id ord) + q' then PAID else PARTIALLY_PAID"
    note tot' = paid_row_totals [OF row, unfolded q q2]
    have zero: "credit_total db oid = 0" "0 < o_total ord" "0 \<le> get_order_paid_total db oid"
      using ok st p(6) by auto
    have new: "get_order_paid_total db' oid = get_order_paid_total db oid + q" "credit_total db' oid = 0"
      using tot' m p(6) zero by (auto simp: get_order_paid_total_def credit_total_def)
    have exact: "num2 (h_remaining h - q) = h_remaining h - q"
      using h(3) tot paid cents p(6) by (simp add: num2_cents in_cents_diff)
    have ho: "h_order h = oid" using one p(6) by (metis order_holds_cases p(3) list.inject list.distinct(1))
    have holds: "order_holds db' x = (if x = oid then [reduced_hold h q usr] else order_holds db x)" for x
      using order_holds_row_put [OF th, of x] one ho p(6) q by simp
    have exposure: "order_exposure db' oid = order_exposure db oid - q"
      using new zero one h p(6) exact by (simp add: order_exposure_def holds credit_owed_def)
    show ?thesis
    proof (rule store_inv_step [OF inv p(5) _ _ _ orders])
      show "order_view db' x = order_view db x" if "x \<noteq> o_id ord" for x
        using that p(6) tot' by (simp add: order_view_def holds get_order_paid_total_def credit_total_def)
      show "order_ok db' (with_status ord ?st usr)"
        using new zero pos le h exact tot paid cents p(6) q
        by (auto simp: order_ok_def paid_off_def holds in_cents_add)
      show "bindings_moved db db' ord (order_exposure db' (o_id ord) - order_exposure db (o_id ord))"
        using exposure b p(6) q by (simp add: bindings_moved_def)
      show "accounted db'" using step p(4) by (rule money_step_accounted)
    qed (use p(3) th in simp_all)
  qed
qed

lemma payment_keeps:
  assumes inv: "store_inv db"
    and run: "confirm_payment no_race order_id (Finite q) m txn key usr force alloc db = Inr (pr, db')"
    and cents: "in_cents q"
  shows "store_inv db'"
proof (cases "get_by_idempotency_key db key")
  case None
  with run obtain ord oid where "live_order db oid = Some ord"
    and "confirm_payment_for_locked_order no_race ord (Finite q) m txn key usr force alloc db = Inr (pr, db')"
    by (auto simp: confirm_payment_def get_order_by_id_for_update_def result_simps split: option.splits)
  then show ?thesis using inv cents by (blast intro: locked_payment_keeps)
next
  case (Some p)
  with run have "db' = db"
    by (auto simp: confirm_payment_def replay_result_def result_simps split: option.splits if_splits)
  then show ?thesis using inv by simp
qed

section \<open>What the contract gives\<close>

lemma exposure_nonneg:
  assumes "order_ok db ord"
  shows "0 \<le> order_exposure db (o_id ord)"
proof -
  have "status_ok (o_status ord) db ord" using assms by (simp add: order_ok_def)
  then show ?thesis
    by (cases "o_status ord") (auto simp: order_exposure_def credit_owed_def paid_off_def)
qed

lemma balances_nonneg:
  assumes inv: "store_inv db" and b: "b \<in> set (t_bindings db)" "\<not> b_deleted b"
  shows "0 \<le> b_balance b"
proof -
  have "b_balance b = occupation db (b_wholesaler b) (b_retailer b)"
    using inv b by (simp add: store_inv_def cache_exact_def)
  moreover have "0 \<le> occupation db ws ret" for ws ret
    using inv unfolding occupation_def store_inv_def by (intro sum_list_nonneg') (auto intro: exposure_nonneg)
  ultimately show ?thesis by simp
qed

lemma never_overpaid:
  assumes "store_inv db" and "ord \<in> set (t_orders db)"
    and "get_order_paid_total db (o_id ord) \<noteq> 0 \<or> credit_total db (o_id ord) \<noteq> 0"
  shows "0 \<le> get_order_paid_total db (o_id ord) \<and> get_order_paid_total db (o_id ord) \<le> o_total ord \<and>
    (credit_total db (o_id ord) = 0 \<or> credit_total db (o_id ord) = o_total ord)"
proof -
  have "status_ok (o_status ord) db ord" using assms by (simp add: store_inv_def order_ok_def)
  then show ?thesis using assms(3) by (cases "o_status ord") (auto simp: paid_off_def)
qed

lemma sample_inv: "store_inv sample_store"
  using sample_keys sample_accounted
  by (simp add: store_inv_def cache_exact_def occupation_def order_exposure_def credit_owed_def credit_total_def
      order_ok_def get_order_paid_total_def get_order_method_total_def order_payments_def order_holds_def sample_defs)

end
