(* ===== verification/Order_Lifecycle.thy ===== *)
theory Order_Lifecycle
  imports Credit_Exposure
begin

text \<open>
  The order-to-cash program as a transition system: the calls that the API makes on the command
  service and the canonical payment service, each run in one transaction that is rolled back when
  the call raises. Reachable stores keep the credit contract, balanced books and the stock
  accounting, and the status of every order follows the transition matrix.
\<close>

section \<open>Calls and transactions\<close>

datatype call =
    Confirm uuid "uuid option"
  | Cancel uuid "uuid option"
  | Fulfill uuid "uuid option"
  | Return uuid "uuid option"
  | Transition uuid order_state "uuid option" "pay_method option"
  | Pay id_text decimal pay_method "string option" string "uuid option" bool bool

fun run_call :: "call \<Rightarrow> store \<Rightarrow> error + store" where
  "run_call (Confirm oid usr) db = bindE (confirm_order oid usr db) (\<lambda>(_, db'). Inr db')"
| "run_call (Cancel oid usr) db = bindE (cancel_order oid usr db) (\<lambda>(_, db'). Inr db')"
| "run_call (Fulfill oid usr) db = bindE (fulfill_order oid usr db) (\<lambda>(_, db'). Inr db')"
| "run_call (Return oid usr) db = bindE (return_order oid usr db) (\<lambda>(_, db'). Inr db')"
| "run_call (Transition oid target usr m) db = bindE (order_service_transition oid target usr m db) (\<lambda>(_, db'). Inr db')"
| "run_call (Pay oid a m txn key usr force alloc) db =
     bindE (confirm_payment no_race oid a m txn key usr force alloc db) (\<lambda>(_, db'). Inr db')"

text \<open>Amounts of payments are in whole cents.\<close>

fun in_cents_call :: "call \<Rightarrow> bool" where
  "in_cents_call (Pay oid (Finite q) m txn key usr force alloc) \<longleftrightarrow> in_cents q"
| "in_cents_call _ \<longleftrightarrow> True"

section \<open>Transactional programs\<close>

text \<open>
  A program whose calls keep an invariant keeps it over every sequence of calls, whichever of them
  fail: a failed call is rolled back to the state it started from.
\<close>

definition attempt :: "('c \<Rightarrow> 's \<Rightarrow> 'e + 's) \<Rightarrow> 'c \<Rightarrow> 's \<Rightarrow> 's" where
  "attempt run c s = (case run c s of Inl _ \<Rightarrow> s | Inr s' \<Rightarrow> s')"

locale transactional =
  fixes run :: "'c \<Rightarrow> 's \<Rightarrow> 'e + 's" and inv :: "'s \<Rightarrow> bool" and allowed :: "'c \<Rightarrow> bool"
  assumes keeps: "inv s \<Longrightarrow> allowed c \<Longrightarrow> run c s = Inr s' \<Longrightarrow> inv s'"
begin

lemma attempt_keeps: "inv s \<Longrightarrow> allowed c \<Longrightarrow> inv (attempt run c s)"
  using keeps by (auto simp: attempt_def split: sum.splits)

lemma calls_keep: "inv s \<Longrightarrow> \<forall>c \<in> set cs. allowed c \<Longrightarrow> inv (fold (attempt run) cs s)"
  by (induction cs arbitrary: s) (auto intro: attempt_keeps)

end

text \<open>Two invariants of one program hold together.\<close>

locale transactional_pair = transactional run inv allowed
  for run :: "'c \<Rightarrow> 's \<Rightarrow> 'e + 's" and inv :: "'s \<Rightarrow> bool" and allowed :: "'c \<Rightarrow> bool" +
  fixes inv2 :: "'s \<Rightarrow> bool"
  assumes keeps2: "inv s \<Longrightarrow> inv2 s \<Longrightarrow> allowed c \<Longrightarrow> run c s = Inr s' \<Longrightarrow> inv2 s'"

sublocale transactional_pair \<subseteq> both: transactional run "\<lambda>s. inv s \<and> inv2 s" allowed
  by unfold_locales (auto intro: keeps keeps2)

section \<open>The credit contract\<close>

lemma transition_call_Inr:
  assumes "order_service_transition oid target usr m db = Inr (ord, db')"
  shows "\<exists>r. apply_transition oid target usr m db = Inr (r, db')"
  using assms by (auto simp: order_service_transition_def split: if_splits sum.splits error.splits error_code.splits)

lemma call_keeps_inv:
  assumes inv: "store_inv db" and cents: "in_cents_call c" and run: "run_call c db = Inr db'"
  shows "store_inv db'"
proof (cases c)
  case (Pay oid a m txn key usr force alloc)
  with run obtain pr where pay: "confirm_payment no_race oid a m txn key usr force alloc db = Inr (pr, db')"
    by (auto simp: result_simps)
  then obtain q where "a = Finite q"
    by (auto simp: confirm_payment_def result_simps)
  with pay cents Pay inv show ?thesis by (auto intro: payment_keeps)
qed (use inv run in \<open>auto simp: result_simps dest!: transition_call_Inr
      intro: confirm_keeps cancel_keeps fulfill_keeps return_keeps void_keeps\<close>)

section \<open>Books and stock\<close>

text \<open>What a call does to the ledger total and to the stock.\<close>

definition sound_step :: "store \<Rightarrow> store \<Rightarrow> bool" where
  "sound_step db db' \<longleftrightarrow> ledger_total db' = ledger_total db \<and> opening_stock db' = opening_stock db \<and>
     (on_hand_nonneg db \<longrightarrow> on_hand_nonneg db') \<and> (on_hand_cents db \<longrightarrow> on_hand_cents db')"

lemma sound_step_stock:
  assumes "stock_step db db'" and "accounted db"
  shows "sound_step db db'"
  using assms stock_step_tables(4) [OF assms(1)] by (simp add: sound_step_def stock_step_def ledger_total_def)

lemma sound_step_money: "money_step db db' \<Longrightarrow> sound_step db db'"
  using money_step_stock [of db db'] by (simp add: sound_step_def money_step_def on_hand_cents_def)

lemma sound_step_trans: "sound_step a b \<Longrightarrow> sound_step b c \<Longrightarrow> sound_step a c"
  by (simp add: sound_step_def)

lemma sound_step_tables:
  "t_ledger db' = t_ledger db \<Longrightarrow> t_stocks db' = t_stocks db \<Longrightarrow> t_movements db' = t_movements db \<Longrightarrow> sound_step db db'"
  by (simp add: sound_step_def ledger_total_def opening_stock_def on_hand_units_def journal_total_def
      on_hand_nonneg_def on_hand_cents_def fun_eq_iff)

lemma order_command_sound:
  assumes inv: "store_inv db"
  shows "confirm_order oid usr db = Inr (r, db') \<Longrightarrow> sound_step db db'"
    and "cancel_order oid usr db = Inr (r, db') \<Longrightarrow> sound_step db db'"
    and "fulfill_order oid usr db = Inr (r, db') \<Longrightarrow> sound_step db db'"
    and "return_order oid usr db = Inr (r, db') \<Longrightarrow> sound_step db db'"
proof -
  have keys: "distinct (map (\<lambda>b. (b_wholesaler b, b_retailer b)) (t_bindings db))" and acc: "accounted db"
    using inv by (simp_all add: store_inv_def store_keys_def)
  note stock = sound_step_trans [OF sound_step_stock [OF _ acc] sound_step_tables]
  show "sound_step db db'" if "confirm_order oid usr db = Inr (r, db')"
    using keys that by (rule confirm_order_effect) (auto elim!: stock)
  show "sound_step db db'" if "cancel_order oid usr db = Inr (r, db')"
    using keys acc that by (rule cancel_order_effect) (auto elim!: stock)
  show "sound_step db db'" if "fulfill_order oid usr db = Inr (r, db')"
    using that by (rule fulfill_order_effect) (auto elim!: stock)
  show "sound_step db db'" if "return_order oid usr db = Inr (r, db')"
    using that
  proof (rule return_order_effect)
    fix ord posted db1 db2
    assume post: "post_order_return oid (o_total ord) db = Inr (posted, db1)" and step: "stock_step db1 db2"
      and db': "db' = put_order (with_status ord RETURNED usr) db2"
    have m: "money_step db db1" using post unfolding post_order_return_def by (rule money_step_posting)
    have "sound_step db1 db2" using step money_step_accounted [OF m acc] by (rule sound_step_stock)
    moreover have "sound_step db2 db'" unfolding db' by (rule sound_step_tables) simp_all
    ultimately show ?thesis using sound_step_money [OF m] sound_step_trans by blast
  qed
qed

lemma payment_sound:
  assumes inv: "store_inv db" and run: "confirm_payment no_race oid a m txn key usr force alloc db = Inr (pr, db')"
  shows "sound_step db db'"
proof (cases "get_by_idempotency_key db key")
  case None
  with run obtain ord u where live: "live_order db u = Some ord"
    and locked: "confirm_payment_for_locked_order no_race ord a m txn key usr force alloc db = Inr (pr, db')"
    by (auto simp: confirm_payment_def get_order_by_id_for_update_def result_simps split: option.splits)
  from store_inv_parts(1) [OF inv live] locked show ?thesis
    by (rule locked_payment_effect) (auto intro: sound_step_money)
next
  case (Some p)
  with run have "db' = db"
    by (auto simp: confirm_payment_def replay_result_def result_simps split: option.splits if_splits)
  then show ?thesis by (simp add: sound_step_def)
qed

lemma call_sound:
  assumes inv: "store_inv db" and run: "run_call c db = Inr db'"
  shows "sound_step db db'"
proof (cases c)
  case (Transition oid target usr m)
  with run obtain ord where "order_service_transition oid target usr m db = Inr (ord, db')"
    by (auto simp: result_simps)
  then obtain r where "apply_transition oid target usr m db = Inr (r, db')"
    using transition_call_Inr by blast
  then obtain ord where "db' = put_order (with_status ord VOIDED usr) db"
    by (cases target) (auto simp: apply_transition_def command_owned_targets_def result_simps Let_def
        assign_status_eq post_transition_ledger_def)
  then show ?thesis by (auto intro: sound_step_tables)
qed (use inv run in \<open>auto simp: result_simps intro: order_command_sound payment_sound\<close>)

section \<open>The status of every order\<close>

definition order_status :: "store \<Rightarrow> uuid \<Rightarrow> order_state option" where
  "order_status db oid = map_option o_status (live_order db oid)"

text \<open>The abstract view of a call: one order moves along the matrix, or no status changes.\<close>

definition status_step :: "(uuid \<Rightarrow> order_state option) \<Rightarrow> (uuid \<Rightarrow> order_state option) \<Rightarrow> bool" where
  "status_step f g \<longleftrightarrow> g = f \<or>
     (\<exists>oid s t. f oid = Some s \<and> is_valid_transition s t \<and> g = f(oid \<mapsto> t))"

lemma status_step_at:
  "status_step f g \<Longrightarrow> f x = Some s \<Longrightarrow> g x = Some s \<or> (\<exists>t. is_valid_transition s t \<and> g x = Some t)"
  unfolding status_step_def by (metis fun_upd_apply option.inject)

lemma status_step_put:
  assumes ids: "distinct (map o_id (t_orders db))" and live: "live_order db oid = Some ord"
    and orders: "t_orders db' = row_put o_id (with_status ord st usr) (t_orders db)"
    and st: "st = o_status ord \<or> is_valid_transition (o_status ord) st"
  shows "status_step (order_status db) (order_status db')"
proof -
  have ord: "o_id ord = oid" "\<not> o_deleted ord" using live_order_Some [OF live] by simp_all
  have "live_order db' x = (if x = oid then Some (with_status ord st usr) else live_order db x)" for x
    using live_order_put [OF ids _ _ orders, where oid = x and ord = ord] live ord by simp
  then have new: "order_status db' = (order_status db)(oid \<mapsto> st)"
    by (auto simp: order_status_def)
  from st show ?thesis
  proof
    assume "st = o_status ord"
    then have "order_status db' = order_status db"
      using live new by (auto simp: order_status_def)
    then show ?thesis by (simp add: status_step_def)
  next
    assume "is_valid_transition (o_status ord) st"
    then show ?thesis using new live
      by (auto simp: status_step_def order_status_def intro!: exI [of _ oid])
  qed
qed

lemma status_step_same: "t_orders db' = t_orders db \<Longrightarrow> status_step (order_status db) (order_status db')"
  by (simp add: status_step_def order_status_def live_order_cong [of db' db] fun_eq_iff)

lemma command_status:
  assumes inv: "store_inv db"
  shows "confirm_order oid usr db = Inr (r, db') \<Longrightarrow> status_step (order_status db) (order_status db')"
    and "cancel_order oid usr db = Inr (r, db') \<Longrightarrow> status_step (order_status db) (order_status db')"
    and "fulfill_order oid usr db = Inr (r, db') \<Longrightarrow> status_step (order_status db) (order_status db')"
    and "return_order oid usr db = Inr (r, db') \<Longrightarrow> status_step (order_status db) (order_status db')"
    and "apply_transition oid target usr m db = Inr (r, db') \<Longrightarrow> status_step (order_status db) (order_status db')"
proof -
  have keys: "distinct (map (\<lambda>b. (b_wholesaler b, b_retailer b)) (t_bindings db))" and acc: "accounted db"
    and ids: "distinct (map o_id (t_orders db))"
    using inv by (simp_all add: store_inv_def store_keys_def)
  show "status_step (order_status db) (order_status db')" if "confirm_order oid usr db = Inr (r, db')"
    using keys that by (rule confirm_order_effect)
      (auto intro!: status_step_put [OF ids, where st = CONFIRMED and usr = usr] simp: stock_step_tables)
  show "status_step (order_status db) (order_status db')" if "cancel_order oid usr db = Inr (r, db')"
    using keys acc that by (rule cancel_order_effect)
      (auto intro!: status_step_put [OF ids, where st = CANCELLED and usr = usr] simp: stock_step_tables)
  show "status_step (order_status db) (order_status db')" if "fulfill_order oid usr db = Inr (r, db')"
    using that by (rule fulfill_order_effect)
      (auto intro!: status_step_put [OF ids, where st = FULFILLED and usr = usr] simp: stock_step_tables)
  show "status_step (order_status db) (order_status db')" if "return_order oid usr db = Inr (r, db')"
    using that by (rule return_order_effect)
      (auto intro!: status_step_put [OF ids, where st = RETURNED and usr = usr]
        simp: stock_step_tables order_return_frame)
  show "status_step (order_status db) (order_status db')" if "apply_transition oid target usr m db = Inr (r, db')"
  proof -
    from that have "target = DRAFT \<or> target = VOIDED"
      by (cases target) (auto simp: apply_transition_def command_owned_targets_def)
    with that obtain ord where "live_order db oid = Some ord" "o_status ord = DRAFT"
        "db' = put_order (with_status ord VOIDED usr) db"
      by (auto simp: apply_transition_def command_owned_targets_def result_simps Let_def
          assign_status_eq post_transition_ledger_def)
    then show ?thesis by (intro status_step_put [OF ids, where st = VOIDED and usr = usr]) auto
  qed
qed

lemma locked_payment_status:
  assumes inv: "store_inv db" and live: "live_order db oid = Some ord"
    and run: "confirm_payment_for_locked_order no_race ord a m txn key usr force alloc db = Inr (pr, db')"
  shows "status_step (order_status db) (order_status db')"
proof -
  note p = store_inv_parts [OF inv live]
  have ok: "status_ok (o_status ord) db ord" using p(7) by (simp add: order_ok_def)
  show ?thesis
    using p(1) run
  proof (rule locked_payment_effect)
    fix q h
    let ?st = "if o_total ord \<le> get_order_paid_total db (o_id ord) + q then PAID else PARTIALLY_PAID"
    assume st: "o_status ord = CONFIRMED \<or> o_status ord = PARTIALLY_PAID"
      and orders: "t_orders db' = row_put o_id (with_status ord ?st usr) (t_orders db)"
    show ?thesis
      using st by (intro status_step_put [OF p(2) live orders]) auto
  next
    fix q h
    let ?st = "if o_total ord \<le> get_order_paid_total db (o_id ord) + q then PAID else PARTIALLY_PAID"
    assume st: "o_status ord = CONFIRMED \<or> o_status ord = PARTIALLY_PAID"
      and orders: "t_orders db' = row_put o_id (with_status ord ?st usr) (t_orders db)"
    show ?thesis
      using st by (intro status_step_put [OF p(2) live orders]) auto
  qed (auto intro: status_step_same)
qed

lemma call_status:
  assumes inv: "store_inv db" and run: "run_call c db = Inr db'"
  shows "status_step (order_status db) (order_status db')"
proof (cases c)
  case (Transition oid target usr m)
  with run obtain r where "apply_transition oid target usr m db = Inr (r, db')"
    by (auto simp: result_simps dest!: transition_call_Inr)
  then show ?thesis by (rule command_status(5) [OF inv])
next
  case (Pay oid a m txn key usr force alloc)
  with run obtain pr where pay: "confirm_payment no_race oid a m txn key usr force alloc db = Inr (pr, db')"
    by (auto simp: result_simps)
  show ?thesis
  proof (cases "get_by_idempotency_key db key")
    case None
    with pay obtain ord u where "live_order db u = Some ord"
      and "confirm_payment_for_locked_order no_race ord a m txn key usr force alloc db = Inr (pr, db')"
      by (auto simp: confirm_payment_def get_order_by_id_for_update_def result_simps split: option.splits)
    then show ?thesis by (rule locked_payment_status [OF inv])
  next
    case (Some p)
    with pay have "db' = db"
      by (auto simp: confirm_payment_def replay_result_def result_simps split: option.splits if_splits)
    then show ?thesis by (simp add: status_step_def)
  qed
qed (use run in \<open>auto simp: result_simps intro: command_status [OF inv]\<close>)

section \<open>Reachable stores\<close>

text \<open>
  Stores reached by calls whose payment amounts are whole cents. The program itself accepts any
  positive amount: the restriction is a hypothesis of the properties that use this predicate, and
  \<open>Fractional_Amounts\<close> shows what happens without it.
\<close>

inductive cents_reach :: "store \<Rightarrow> store \<Rightarrow> bool" for start :: store where
  reach_start: "cents_reach start start"
| reach_call: "cents_reach start db \<Longrightarrow> in_cents_call c \<Longrightarrow> run_call c db = Inr db' \<Longrightarrow> cents_reach start db'"

inductive_cases reach_callE: "cents_reach start db"

interpretation contract: transactional run_call store_inv in_cents_call
  by unfold_locales (rule call_keeps_inv)

text \<open>Relative to the store it starts from, the program keeps the books and the stock.\<close>

interpretation books: transactional_pair run_call store_inv in_cents_call "sound_step start" for start
  by unfold_locales (auto intro: sound_step_trans call_sound)

lemma attempts_reach:
  "cents_reach start (fold (attempt run_call) cs start)" if "\<forall>c \<in> set cs. in_cents_call c"
proof -
  have "cents_reach start db \<Longrightarrow> \<forall>c \<in> set cs. in_cents_call c \<Longrightarrow> cents_reach start (fold (attempt run_call) cs db)" for db cs
    by (induction cs arbitrary: db) (auto simp: attempt_def split: sum.splits intro: reach_call)
  then show ?thesis using that reach_start by blast
qed

lemma reach_inv: "cents_reach start db \<Longrightarrow> store_inv start \<Longrightarrow> store_inv db \<and> sound_step start db"
proof (induction rule: cents_reach.induct)
  case reach_start
  then show ?case by (simp add: sound_step_def)
next
  case (reach_call db c db')
  then show ?case by (blast intro: contract.keeps books.keeps2)
qed

lemma reach_status:
  "cents_reach start db \<Longrightarrow> store_inv start \<Longrightarrow> order_status start oid = Some s \<Longrightarrow>
   \<exists>ts. state_history s ts \<and> order_status db oid = Some (last (s # ts))"
proof (induction rule: cents_reach.induct)
  case reach_start
  then show ?case by (intro exI [of _ "[]"]) (simp add: history_simps)
next
  case (reach_call db c db')
  then obtain ts where ts: "state_history s ts" "order_status db oid = Some (last (s # ts))" by blast
  have "status_step (order_status db) (order_status db')"
    using reach_call reach_inv call_status by blast
  from status_step_at [OF this ts(2)] consider "order_status db' oid = order_status db oid"
    | t where "is_valid_transition (last (s # ts)) t" "order_status db' oid = Some t"
    using ts(2) by metis
  then show ?case
  proof cases
    case 1
    then show ?thesis using ts by auto
  next
    case (2 t)
    have snoc: "state_history s us \<Longrightarrow> is_valid_transition (last (s # us)) t \<Longrightarrow> state_history s (us @ [t])" for s us
      by (induction us arbitrary: s) (auto simp: history_simps split: if_splits)
    show ?thesis using snoc [OF ts(1) 2(1)] 2(2) by (intro exI [of _ "ts @ [t]"]) simp
  qed
qed

section \<open>A sample run\<close>

definition sample_calls :: "call list" where
  "sample_calls = [Confirm 1 (Some 9), Pay (Canonical 1) (Finite 40) Cash None ''cash-key-1'' (Some 9) False False,
     Pay (Canonical 1) (Finite 60) Transfer (Some ''TRX-7'') ''wire-key-1'' (Some 9) False False, Fulfill 1 (Some 9)]"

lemma sample_steps:
  "run_call (Confirm 1 (Some 9)) sample_store = Inr sample_confirmed"
  "run_call (Pay (Canonical 1) (Finite 40) Cash None ''cash-key-1'' (Some 9) False False) sample_confirmed = Inr sample_partly"
  "run_call (Pay (Canonical 1) (Finite 60) Transfer (Some ''TRX-7'') ''wire-key-1'' (Some 9) False False) sample_partly
     = Inr sample_paid"
  "run_call (Fulfill 1 (Some 9)) sample_paid = Inr sample_fulfilled"
  using sample_confirm_run sample_partial_payment sample_final_payment sample_fulfil_run by auto

lemma sample_cents: "\<forall>c \<in> set sample_calls. in_cents_call c"
  by (simp add: sample_calls_def)

lemma sample_fold: "fold (attempt run_call) sample_calls sample_store = sample_fulfilled"
  by (simp add: sample_calls_def attempt_def sample_steps del: run_call.simps One_nat_def)

lemma sample_reach: "cents_reach sample_store sample_fulfilled"
  using attempts_reach [OF sample_cents, of sample_store] by (simp add: sample_fold)

section \<open>Properties\<close>

text \<open>
  In every store the program reaches by calls whose payment amounts are whole cents, however they fail
  and interleave, the outstanding
  balance of every live binding equals the exposure of the orders of its wholesaler and retailer
  (the remaining credit holds plus what is still owed on credit sales), and is never negative.
\<close>

theorem binding_cache_is_exact:
  assumes "store_inv start" and "\<forall>c \<in> set cs. in_cents_call c"
    and "b \<in> set (t_bindings (fold (attempt run_call) cs start))" and "\<not> b_deleted b"
  shows "b_balance b = occupation (fold (attempt run_call) cs start) (b_wholesaler b) (b_retailer b) \<and>
    0 \<le> b_balance b"
proof -
  have "store_inv (fold (attempt run_call) cs start)"
    using assms(1,2) by (rule contract.calls_keep)
  then show ?thesis
    using assms(3,4) balances_nonneg by (auto simp: store_inv_def cache_exact_def)
qed

theorem binding_cache_is_exact_witness:
  "fold (attempt run_call) [Confirm 1 (Some 9), Pay (Canonical 1) (Finite 40) Cash None ''cash-key-1'' (Some 9) False False]
     sample_store = sample_partly \<and> occupation sample_partly 7 8 = 60"
proof -
  let ?cs = "[Confirm 1 (Some 9), Pay (Canonical 1) (Finite 40) Cash None ''cash-key-1'' (Some 9) False False]"
  let ?b = "\<lparr>b_wholesaler = 7, b_retailer = 8, b_status = Binding_Active, b_balance = 60, b_deleted = False\<rparr>"
  have run: "fold (attempt run_call) ?cs sample_store = sample_partly"
    by (simp add: attempt_def sample_steps del: run_call.simps One_nat_def)
  have "\<forall>c \<in> set ?cs. in_cents_call c" by simp
  moreover have "?b \<in> set (t_bindings (fold (attempt run_call) ?cs sample_store))"
    unfolding run by (simp add: sample_partly_def)
  moreover have "\<not> b_deleted ?b" by simp
  ultimately have "b_balance ?b = occupation (fold (attempt run_call) ?cs sample_store) (b_wholesaler ?b) (b_retailer ?b)"
    using binding_cache_is_exact [OF sample_inv] by blast
  then have "occupation sample_partly 7 8 = 60" unfolding run by simp
  with run show ?thesis by blast
qed

text \<open>
  C5: Every order reached by calls whose payment amounts are whole cents fits its status: its hold, its
  payments and its status agree, tender never exceeds the order total, and a credit sale is for the
  whole total. (The amounts are a hypothesis: 33.335 paid on an order is stored as 33.34 and leaves a
  hold that does not fit it, see \<open>Fractional_Amounts\<close>.)
\<close>

theorem reachable_orders_fit_status:
  assumes "store_inv start" and "cents_reach start db" and "ord \<in> set (t_orders db)"
  shows "status_ok (o_status ord) db ord \<and> 0 \<le> get_order_paid_total db (o_id ord) \<and>
    (get_order_paid_total db (o_id ord) \<noteq> 0 \<longrightarrow> get_order_paid_total db (o_id ord) \<le> o_total ord) \<and>
    (credit_total db (o_id ord) = 0 \<or> credit_total db (o_id ord) = o_total ord)"
proof -
  have inv: "store_inv db" using reach_inv assms(1,2) by blast
  then have ok: "status_ok (o_status ord) db ord" using assms(3) by (simp add: store_inv_def order_ok_def)
  show ?thesis
  proof (cases "get_order_paid_total db (o_id ord) \<noteq> 0 \<or> credit_total db (o_id ord) \<noteq> 0")
    case True
    with never_overpaid [OF inv assms(3)] ok show ?thesis by auto
  qed (use ok in auto)
qed

theorem reachable_orders_fit_status_witness:
  "\<exists>ord \<in> set (t_orders sample_fulfilled). o_status ord = FULFILLED \<and> status_ok FULFILLED sample_fulfilled ord"
proof -
  have mem: "sample_order\<lparr>o_status := FULFILLED, o_updated_by := Some 9\<rparr> \<in> set (t_orders sample_fulfilled)"
    by (simp add: sample_fulfilled_def)
  from reachable_orders_fit_status [OF sample_inv sample_reach mem] mem show ?thesis
    by (auto intro!: bexI [OF _ mem] simp del: status_ok.simps)
qed

text \<open>
  C7: Every call (payment amounts in whole cents) posts balanced entries only, every change of the quantity on hand is journalled,
  and no stock becomes negative: along every run the ledger total and each SKU's opening stock
  stay, and the reserved columns stay the sums of the active reservations.
\<close>

theorem reachable_books_and_stock:
  assumes "store_inv start" and "cents_reach start db"
  shows "ledger_total db = ledger_total start \<and> opening_stock db = opening_stock start \<and>
    (on_hand_nonneg start \<longrightarrow> on_hand_nonneg db) \<and> (\<forall>k. reserved_units db k = reserved_column db k)"
  using reach_inv [OF assms(2,1)] by (simp add: sound_step_def store_inv_def accounted_def)

theorem reachable_books_and_stock_witness:
  "ledger_total sample_fulfilled = 0 \<and> on_hand_nonneg sample_fulfilled"
proof -
  have "ledger_total sample_store = 0" "on_hand_nonneg sample_store"
    by (simp_all add: ledger_total_def on_hand_nonneg_def sample_defs)
  with reachable_books_and_stock [OF sample_inv sample_reach] show ?thesis by simp
qed

text \<open>
  C6: The program refines the order lifecycle: whatever calls are made (payment amounts in whole cents), the statuses an order
  takes form a history of the transition matrix, so it changes status at most five times and a
  cancelled, voided or returned order never changes again.
\<close>

theorem program_refines_lifecycle:
  assumes "store_inv start" and "cents_reach start db" and "order_status start oid = Some s"
  shows "\<exists>ts. state_history s ts \<and> length ts \<le> 5 \<and> order_status db oid = Some (last (s # ts)) \<and>
    (is_terminal_state s \<longrightarrow> order_status db oid = Some s)"
proof -
  obtain ts where ts: "state_history s ts" "order_status db oid = Some (last (s # ts))"
    using reach_status [OF assms(2,1,3)] by blast
  have "length ts \<le> 5" using history_rank [OF ts(1)] by simp
  moreover have "is_terminal_state s \<longrightarrow> ts = []"
    using ts(1) by (cases ts) (auto simp: history_simps)
  ultimately show ?thesis using ts by auto
qed

theorem program_refines_lifecycle_witness:
  "\<exists>ts. state_history DRAFT ts \<and> length ts \<le> 5 \<and> last (DRAFT # ts) = FULFILLED"
proof -
  have s: "order_status sample_store 1 = Some DRAFT" and e: "order_status sample_fulfilled 1 = Some FULFILLED"
    by (simp_all add: order_status_def live_order_def sample_fulfilled_def sample_defs)
  obtain ts where ts: "state_history DRAFT ts" "length ts \<le> 5"
      "order_status sample_fulfilled 1 = Some (last (DRAFT # ts))"
    using program_refines_lifecycle [OF sample_inv sample_reach s] by blast
  from ts(3) have "last (DRAFT # ts) = FULFILLED" unfolding e by (simp only: option.inject)
  with ts(1,2) show ?thesis by blast
qed

end
