(* ===== verification/Payment_Idempotency.thy ===== *)
theory Payment_Idempotency
  imports Order_Lifecycle
begin

text \<open>
  Idempotency keys. The interface \<open>idempotent_submit\<close> states what a write path with idempotency
  keys promises, and proves that a key is used at most once over any interleaving of submissions;
  the canonical payment path is an instance. The properties spell out replay, conflict, retry and
  the classification of an insert race.
\<close>

section \<open>The interface\<close>

locale idempotent_submit =
  fixes submit :: "'req \<Rightarrow> store \<Rightarrow> error + ('row \<times> bool \<times> store)"
    and key_of :: "'req \<Rightarrow> 'k"
    and find_key :: "store \<Rightarrow> 'k \<Rightarrow> 'row option"
    and row_id :: "'row \<Rightarrow> uuid"
    and inv :: "store \<Rightarrow> bool"
    and allowed :: "'req \<Rightarrow> bool"
  assumes inv_kept: "inv db \<Longrightarrow> allowed r \<Longrightarrow> submit r db = Inr (x, rep, db') \<Longrightarrow> inv db'"
    and hit: "inv db \<Longrightarrow> allowed r \<Longrightarrow> find_key db (key_of r) = Some p \<Longrightarrow> submit r db = Inr (x, rep, db') \<Longrightarrow>
      x = p \<and> rep \<and> db' = db"
    and miss: "inv db \<Longrightarrow> allowed r \<Longrightarrow> find_key db (key_of r) = None \<Longrightarrow> submit r db = Inr (x, rep, db') \<Longrightarrow>
      \<not> rep \<and> find_key db' (key_of r) = Some x"
    and persist: "inv db \<Longrightarrow> allowed r \<Longrightarrow> find_key db k = Some p \<Longrightarrow> submit r db = Inr (x, rep, db') \<Longrightarrow>
      \<exists>p'. find_key db' k = Some p' \<and> row_id p' = row_id p"
begin

definition exec :: "'req \<Rightarrow> store \<Rightarrow> error + store" where
  "exec r db = bindE (submit r db) (\<lambda>(_, _, db'). Inr db')"

lemma attempt_persists:
  assumes "inv db" and "allowed r" and "find_key db k = Some p"
  shows "inv (attempt exec r db) \<and> (\<exists>p'. find_key (attempt exec r db) k = Some p' \<and> row_id p' = row_id p)"
proof (cases "submit r db")
  case (Inl e)
  then show ?thesis using assms by (simp add: attempt_def exec_def)
next
  case (Inr res)
  obtain x rep db' where res: "submit r db = Inr (x, rep, db')" using Inr by (cases res) auto
  then have "attempt exec r db = db'" by (simp add: attempt_def exec_def)
  with res assms inv_kept persist show ?thesis by simp
qed

lemma persists:
  "inv db \<Longrightarrow> \<forall>r \<in> set rs. allowed r \<Longrightarrow> find_key db k = Some p \<Longrightarrow>
   inv (fold (attempt exec) rs db) \<and> (\<exists>p'. find_key (fold (attempt exec) rs db) k = Some p' \<and> row_id p' = row_id p)"
proof (induction rs arbitrary: db p)
  case Nil
  then show ?case by simp
next
  case (Cons r rs)
  from attempt_persists [of db r k p] Cons.prems obtain p' where
    "inv (attempt exec r db)" "find_key (attempt exec r db) k = Some p'" "row_id p' = row_id p" by auto
  with Cons.IH [of "attempt exec r db" p'] Cons.prems show ?case by simp
qed

text \<open>
  A key is written at most once: after a success, a later success with the same key, whatever was
  submitted in between, is a replay of the same row and writes nothing.
\<close>

lemma at_most_once:
  assumes inv: "inv db" and ok: "allowed r" "allowed r'" "\<forall>s \<in> set rs. allowed s"
    and first: "submit r db = Inr (x, rep, db1)" and key: "key_of r' = key_of r"
    and again: "submit r' (fold (attempt exec) rs db1) = Inr (y, rep', db2)"
  shows "rep' \<and> row_id y = row_id x \<and> db2 = fold (attempt exec) rs db1"
proof -
  have "find_key db1 (key_of r) = Some x"
  proof (cases "find_key db (key_of r)")
    case None
    then show ?thesis using miss [OF inv ok(1) _ first] by blast
  next
    case (Some p)
    then show ?thesis using hit [OF inv ok(1) _ first] by auto
  qed
  from persists [OF inv_kept [OF inv ok(1) first] ok(3) this] obtain p where
      i: "inv (fold (attempt exec) rs db1)" and f: "find_key (fold (attempt exec) rs db1) (key_of r') = Some p"
      and p: "row_id p = row_id x"
    unfolding key by blast
  from hit [OF i ok(2) f again] p show ?thesis by simp
qed

end

section \<open>Payments by key\<close>

text \<open>Payment ids come from the id supply.\<close>

definition payment_ids :: "store \<Rightarrow> bool" where
  "payment_ids db \<longleftrightarrow> inj (t_uuids db) \<and> distinct (map p_id (t_payments db)) \<and>
     p_id ` set (t_payments db) \<subseteq> t_uuids db ` {..<t_drawn db}"

definition pay_inv :: "store \<Rightarrow> bool" where
  "pay_inv db \<longleftrightarrow> store_inv db \<and> payment_ids db"

lemma cores_ids: "map p_id (payment_cores db) = map p_id (t_payments db)"
  by (simp add: payment_cores_def)

lemma cores_keys: "map p_key (payment_cores db) = map p_key (t_payments db)"
  by (simp add: payment_cores_def)

text \<open>What a call that writes adds: one payment with a fresh id and a fresh key.\<close>

lemma written_payment:
  assumes keys: "distinct (map (\<lambda>b. (b_wholesaler b, b_retailer b)) (t_bindings db))"
    and run: "confirm_payment_for_locked_order no_race ord a m txn key usr force alloc db = Inr (pr, db')"
    and none: "get_by_idempotency_key db key = None"
  obtains q receipt st p where "a = Finite q" "0 < q" "\<not> pr_replayed pr"
    "p = new_payment (t_uuids db (t_drawn db)) (o_id ord) (o_retailer ord) txn (Some key) q m st usr receipt"
    "payment_cores db' = payment_cores db @ [payment_core p]" "pr_payment pr = latest_payment_record p db'"
    "Some key \<notin> p_key ` set (t_payments db)" "t_uuids db' = t_uuids db" "t_drawn db < t_drawn db'"
    "st = Completed \<and> alloc \<longrightarrow> receipt = Some (fst (allocate_receipt_number db))" "force \<longrightarrow> st = Completed"
    "\<not> (st = Completed \<and> alloc) \<longrightarrow> receipt = None"
  using run
proof (rule locked_payment_run)
  fix p assume "get_by_idempotency_key db key = Some p"
  then show thesis using none by simp
next
  fix q target coll h receipt db1 p db2 ord'
  assume q: "a = Finite q" "0 < q"
    and rc: "with_receipt (alloc \<and> payment_status_of force coll m target = Completed) db = (receipt, db1)"
    and row: "create_payment_row (o_id ord) (o_retailer ord) txn (Some key) q m
         (payment_status_of force coll m target) usr receipt db1 = Inr (p, db2)"
    and eff: "(if coll then collect_on_credit ord q db2
        else settle_order ord [h] target q m usr force db2) = Inr (ord', db')"
    and pr: "\<not> pr_replayed pr" "pr_payment pr = latest_payment_record p db'"
  note f1 = with_receipt_frame [OF rc] and f2 = row [unfolded create_payment_row_Inr]
  have keys2: "distinct (map (\<lambda>b. (b_wholesaler b, b_retailer b)) (t_bindings db2))"
    using keys f1 f2 by simp
  have "payment_cores db' = payment_cores db2 \<and> money_step db2 db'"
  proof (cases coll)
    case True
    with eff collect_effect [OF keys2] show ?thesis by (auto simp: payment_cores_def)
  next
    case False
    with eff settle_effect [OF keys2] show ?thesis by auto
  qed
  then have cores: "payment_cores db' = payment_cores db @ [payment_core p]"
    and drawn: "t_uuids db' = t_uuids db" "t_drawn db < t_drawn db'"
    using f1 f2 by (auto simp: payment_cores_def money_step_def)
  have receipt: "payment_status_of force coll m target = Completed \<and> alloc \<longrightarrow>
      receipt = Some (fst (allocate_receipt_number db))"
    "\<not> (payment_status_of force coll m target = Completed \<and> alloc) \<longrightarrow> receipt = None"
    using rc by (auto simp: with_receipt_def split: prod.splits if_splits)
  have p: "p = new_payment (t_uuids db (t_drawn db)) (o_id ord) (o_retailer ord) txn (Some key) q m
      (payment_status_of force coll m target) usr receipt"
    and fresh: "Some key \<notin> p_key ` set (t_payments db)"
    using f1 f2 by auto
  show thesis
    by (rule that [OF q pr(1) p cores pr(2) fresh drawn receipt(1) _ receipt(2)])
      (simp add: payment_status_of_def)
qed

lemma find_append_new:
  "(\<forall>x \<in> set xs. \<not> P x) \<Longrightarrow> P y \<Longrightarrow> find P (xs @ [y]) = Some y"
  by (induction xs) auto

lemma find_append_old: "find P xs = Some y \<Longrightarrow> find P (xs @ zs) = Some y"
  by (induction xs) auto

text \<open>The written row is found by its key, and is what the call returns.\<close>

lemma written_found:
  assumes cores: "payment_cores db' = payment_cores db @ [payment_core p]"
    and p: "p_key p = Some key" "\<not> p_deleted p" and fresh: "Some key \<notin> p_key ` set (t_payments db)"
    and ids: "distinct (map p_id (payment_cores db'))"
  shows "get_by_idempotency_key db' key = Some (latest_payment_record p db') \<and>
    get_by_id db' (p_id p) = Some (latest_payment_record p db') \<and>
    payment_core (latest_payment_record p db') = payment_core p"
proof -
  have "\<forall>x \<in> set (payment_cores db). p_key x \<noteq> Some key"
    using fresh by (force simp: payment_cores_def)
  then have "find (\<lambda>r. p_key r = Some key \<and> \<not> p_deleted r) (payment_cores db') = Some (payment_core p)"
    unfolding cores using p by (intro find_append_new) auto
  then obtain x where x: "get_by_idempotency_key db' key = Some x" "payment_core x = payment_core p"
    unfolding key_lookup_cores [symmetric] by auto
  then have mem: "x \<in> set (t_payments db')" "\<not> p_deleted x" "p_id x = p_id p"
    using p(2) payment_core_simps(1,8) by (metis find_Some_iff get_by_idempotency_key_def nth_mem)+
  have "find (\<lambda>r. p_id r = p_id p \<and> \<not> p_deleted r) (t_payments db') = Some x"
  proof -
    have "find (\<lambda>r. p_id r = p_id p \<and> \<not> p_deleted r) rows = Some x"
      if "distinct (map p_id rows)" "x \<in> set rows" for rows
      using that mem(2,3) by (induction rows) (auto simp: rev_image_eqI)
    then show ?thesis using ids mem(1) by (simp add: cores_ids)
  qed
  then have "get_by_id db' (p_id p) = Some x" by (simp add: get_by_id_def)
  moreover from this have "latest_payment_record p db' = x"
    by (simp add: latest_payment_record_def)
  ultimately show ?thesis using x by simp
qed

section \<open>The canonical payment path as an instance\<close>

record pay_request =
  q_order :: id_text
  q_amount :: decimal
  q_method :: pay_method
  q_txn :: "string option"
  q_key :: string
  q_user :: "uuid option"
  q_force :: bool
  q_alloc :: bool

definition submit_payment :: "pay_request \<Rightarrow> store \<Rightarrow> error + (payment_row \<times> bool \<times> store)" where
  "submit_payment r db =
     bindE (confirm_payment no_race (q_order r) (q_amount r) (q_method r) (q_txn r) (q_key r) (q_user r)
              (q_force r) (q_alloc r) db)
       (\<lambda>(pr, db'). Inr (pr_payment pr, pr_replayed pr, db'))"

definition whole_cents :: "pay_request \<Rightarrow> bool" where
  "whole_cents r \<longleftrightarrow> (\<forall>q. q_amount r = Finite q \<longrightarrow> in_cents q)"

lemma submit_payment_cases:
  assumes "submit_payment r db = Inr (x, rep, db')"
  obtains (replay) "get_by_idempotency_key db (q_key r) = Some x" "rep" "db' = db"
  | (locked) pr ord u where "get_by_idempotency_key db (q_key r) = None" "parse_uuid (q_order r) = Some u"
      "live_order db u = Some ord"
      "confirm_payment_for_locked_order no_race ord (q_amount r) (q_method r) (q_txn r) (q_key r) (q_user r)
         (q_force r) (q_alloc r) db = Inr (pr, db')" "x = pr_payment pr" "rep = pr_replayed pr"
proof (cases "get_by_idempotency_key db (q_key r)")
  case None
  with assms obtain pr ord u where "parse_uuid (q_order r) = Some u" "live_order db u = Some ord"
      "confirm_payment_for_locked_order no_race ord (q_amount r) (q_method r) (q_txn r) (q_key r) (q_user r)
         (q_force r) (q_alloc r) db = Inr (pr, db')" "x = pr_payment pr" "rep = pr_replayed pr"
    by (auto simp: submit_payment_def confirm_payment_def get_order_by_id_for_update_def result_simps
        split: option.splits)
  with None show thesis by (rule locked)
next
  case (Some p)
  with assms show thesis
    by (intro replay) (auto simp: submit_payment_def confirm_payment_def replay_result_def result_simps
        split: option.splits if_splits)
qed

lemma submit_payment_inv:
  assumes inv: "pay_inv db" and cents: "whole_cents r" and run: "submit_payment r db = Inr (x, rep, db')"
  shows "pay_inv db'"
proof -
  from run obtain pr where pay: "confirm_payment no_race (q_order r) (q_amount r) (q_method r) (q_txn r) (q_key r)
      (q_user r) (q_force r) (q_alloc r) db = Inr (pr, db')"
    by (auto simp: submit_payment_def result_simps)
  then obtain q where q: "q_amount r = Finite q"
    by (auto simp: confirm_payment_def result_simps)
  have "store_inv db'"
    using inv pay cents unfolding q by (auto simp: pay_inv_def whole_cents_def q intro: payment_keeps)
  moreover have "payment_ids db'"
    using run
  proof (rule submit_payment_cases)
    assume "db' = db"
    then show ?thesis using inv by (simp add: pay_inv_def)
  next
    fix pr ord u
    assume none: "get_by_idempotency_key db (q_key r) = None" and live: "live_order db u = Some ord"
      and locked: "confirm_payment_for_locked_order no_race ord (q_amount r) (q_method r) (q_txn r) (q_key r) (q_user r)
         (q_force r) (q_alloc r) db = Inr (pr, db')"
    have "distinct (map (\<lambda>b. (b_wholesaler b, b_retailer b)) (t_bindings db))"
      using inv live store_inv_parts(1) by (auto simp: pay_inv_def)
    from this locked none obtain q rc st p where
        p: "p = new_payment (t_uuids db (t_drawn db)) (o_id ord) (o_retailer ord) (q_txn r) (Some (q_key r)) q (q_method r) st (q_user r) rc"
      and cores: "payment_cores db' = payment_cores db @ [payment_core p]"
      and d: "t_uuids db' = t_uuids db" "t_drawn db < t_drawn db'"
      by (rule written_payment)
    have ids: "map p_id (t_payments db') = map p_id (t_payments db) @ [t_uuids db (t_drawn db)]"
      unfolding cores_ids [symmetric] cores by (simp add: p)
    have old: "inj (t_uuids db)" "distinct (map p_id (t_payments db))"
        "p_id ` set (t_payments db) \<subseteq> t_uuids db ` {..<t_drawn db}"
      using inv by (simp_all add: pay_inv_def payment_ids_def)
    have "t_uuids db (t_drawn db) \<notin> t_uuids db ` {..<t_drawn db}"
      using old(1) by (simp add: inj_image_mem_iff)
    then have "distinct (map p_id (t_payments db'))" using old(2,3) unfolding ids by auto
    moreover have "p_id ` set (t_payments db') = insert (t_uuids db (t_drawn db)) (p_id ` set (t_payments db))"
      using arg_cong [OF ids, of set] by simp
    moreover have "t_uuids db ` {..<t_drawn db} \<subseteq> t_uuids db ` {..<t_drawn db'}"
      using d(2) by (intro image_mono) auto
    ultimately show ?thesis using old d by (auto simp: payment_ids_def)
  qed
  ultimately show ?thesis by (simp add: pay_inv_def)
qed

interpretation payments: idempotent_submit submit_payment q_key get_by_idempotency_key p_id pay_inv whole_cents
proof
  fix db r x rep db' assume "pay_inv db" "whole_cents r" "submit_payment r db = Inr (x, rep, db')"
  then show "pay_inv db'" by (rule submit_payment_inv)
next
  fix db r p x rep db'
  assume "get_by_idempotency_key db (q_key r) = Some p" and run: "submit_payment r db = Inr (x, rep, db')"
  then show "x = p \<and> rep \<and> db' = db"
    by (auto elim: submit_payment_cases)
next
  fix db r x rep db'
  assume inv: "pay_inv db" and cents: "whole_cents r" and none: "get_by_idempotency_key db (q_key r) = None"
    and run: "submit_payment r db = Inr (x, rep, db')"
  have ids: "distinct (map p_id (t_payments db'))"
    using submit_payment_inv [OF inv cents run] by (simp add: pay_inv_def payment_ids_def)
  show "\<not> rep \<and> get_by_idempotency_key db' (q_key r) = Some x"
    using run
  proof (rule submit_payment_cases)
    fix pr ord u
    assume live: "live_order db u = Some ord" and x: "x = pr_payment pr" "rep = pr_replayed pr"
      and locked: "confirm_payment_for_locked_order no_race ord (q_amount r) (q_method r) (q_txn r) (q_key r) (q_user r)
         (q_force r) (q_alloc r) db = Inr (pr, db')"
    have "distinct (map (\<lambda>b. (b_wholesaler b, b_retailer b)) (t_bindings db))"
      using inv live store_inv_parts(1) by (auto simp: pay_inv_def)
    from this locked none obtain q rc st p where
        p: "p = new_payment (t_uuids db (t_drawn db)) (o_id ord) (o_retailer ord) (q_txn r) (Some (q_key r)) q (q_method r) st (q_user r) rc"
      and cores: "payment_cores db' = payment_cores db @ [payment_core p]"
      and pr: "pr_payment pr = latest_payment_record p db'" "\<not> pr_replayed pr"
      and fresh: "Some (q_key r) \<notin> p_key ` set (t_payments db)"
      by (rule written_payment)
    from written_found [OF cores _ _ fresh] ids show ?thesis by (simp add: p pr x cores_ids)
  qed (use none in simp)
next
  fix db r k p x rep db'
  assume inv: "pay_inv db" and cents: "whole_cents r" and found: "get_by_idempotency_key db k = Some p"
    and run: "submit_payment r db = Inr (x, rep, db')"
  show "\<exists>p'. get_by_idempotency_key db' k = Some p' \<and> p_id p' = p_id p"
    using run
  proof (rule submit_payment_cases)
    assume "db' = db"
    then show ?thesis using found by simp
  next
    fix pr ord u
    assume none: "get_by_idempotency_key db (q_key r) = None" and live: "live_order db u = Some ord"
      and locked: "confirm_payment_for_locked_order no_race ord (q_amount r) (q_method r) (q_txn r) (q_key r) (q_user r)
         (q_force r) (q_alloc r) db = Inr (pr, db')"
    have "distinct (map (\<lambda>b. (b_wholesaler b, b_retailer b)) (t_bindings db))"
      using inv live store_inv_parts(1) by (auto simp: pay_inv_def)
    from this locked none obtain c where cores: "payment_cores db' = payment_cores db @ [c]"
      by (rule written_payment)
    have "find (\<lambda>p. p_key p = Some k \<and> \<not> p_deleted p) (payment_cores db) = Some (payment_core p)"
      using found by (simp add: key_lookup_cores [symmetric])
    then have "find (\<lambda>p. p_key p = Some k \<and> \<not> p_deleted p) (payment_cores db') = Some (payment_core p)"
      unfolding cores by (rule find_append_old)
    then obtain p' where "get_by_idempotency_key db' k = Some p'" "payment_core p' = payment_core p"
      unfolding key_lookup_cores [symmetric] by auto
    then show ?thesis using payment_core_simps(1) by metis
  qed
qed

section \<open>Properties\<close>

definition exec_payment :: "pay_request \<Rightarrow> store \<Rightarrow> error + store" where
  "exec_payment r db = bindE (submit_payment r db) (\<lambda>(_, _, db'). Inr db')"

lemma exec_payment_eq: "payments.exec = exec_payment"
  by (simp add: fun_eq_iff payments.exec_def exec_payment_def)

text \<open>
  C4: An idempotency key pays at most once. After a payment succeeded, any later success under the
  same key, whatever payments were submitted in between and however they ended, returns the row of
  the first one, is marked as a replay and leaves the store as it is.
\<close>

theorem key_pays_at_most_once:
  assumes "pay_inv db" and "whole_cents r" and "whole_cents r'" and "\<forall>s \<in> set rs. whole_cents s"
    and "submit_payment r db = Inr (x, rep, db1)" and "q_key r' = q_key r"
    and "submit_payment r' (fold (attempt exec_payment) rs db1) = Inr (y, rep', db2)"
  shows "rep' \<and> p_id y = p_id x \<and> db2 = fold (attempt exec_payment) rs db1"
  using payments.at_most_once [OF assms(1-4,5,6)] assms(7) by (simp add: exec_payment_eq)

definition sample_request :: pay_request where
  "sample_request = \<lparr>q_order = Canonical 1, q_amount = Finite 40, q_method = Cash, q_txn = None,
     q_key = ''cash-key-1'', q_user = Some 9, q_force = False, q_alloc = False\<rparr>"

lemma sample_replay:
  "\<exists>pr. confirm_payment race (Canonical 1) (Finite 40) Cash None ''cash-key-1'' (Some 9) False False sample_partly
     = Inr (pr, sample_partly) \<and> pr_payment pr = sample_cash \<and> pr_replayed pr"
  by (simp add: confirm_payment_def raise_invalid_amount_def get_by_idempotency_key_def replay_result_def
      same_payment_request_def str_uuid_def enforce_receipt_on_replay_def live_order_def sample_run_defs)

lemma sample_pay_inv: "pay_inv sample_confirmed"
proof -
  have "store_inv sample_confirmed"
    using call_keeps_inv [OF sample_inv _ sample_steps(1)] by simp
  moreover have "payment_ids sample_confirmed"
    by (simp add: payment_ids_def sample_confirmed_def sample_defs inj_def)
  ultimately show ?thesis by (simp add: pay_inv_def)
qed

theorem key_pays_at_most_once_witness:
  "\<exists>db2. submit_payment sample_request sample_partly = Inr (sample_cash, True, db2) \<and> db2 = sample_partly"
proof -
  have first: "submit_payment sample_request sample_confirmed = Inr (sample_cash, False, sample_partly)"
    using sample_partial_payment by (auto simp: submit_payment_def sample_request_def)
  obtain y rep' db2 where again: "submit_payment sample_request sample_partly = Inr (y, rep', db2)" and y: "y = sample_cash"
    using sample_replay [of no_race] by (auto simp: submit_payment_def sample_request_def)
  have "whole_cents sample_request" by (simp add: whole_cents_def sample_request_def)
  from key_pays_at_most_once [OF sample_pay_inv this this _ first refl, of "[]"] again y
  show ?thesis by simp
qed

text \<open>
  C12: When another transaction commits a payment under the same key between the checks and the
  insert, the call writes no second row: the whole savepoint, receipt number included, is undone
  and the call either fails or returns the committed row of the same request as a replay.
\<close>

theorem insert_race_never_pays_twice:
  assumes "get_by_idempotency_key db key = None" and "Some key \<in> p_key ` set (t_payments (race db))"
    and "confirm_payment_for_locked_order race ord a m txn key usr force alloc db = Inr (pr, db')"
  shows "db' = race db \<and> pr_replayed pr \<and> get_by_idempotency_key (race db) key = Some (pr_payment pr) \<and>
    (\<exists>q. a = Finite q \<and> same_payment_request (pr_payment pr) (str_uuid (o_id ord)) q m txn)"
proof -
  from assms(3) obtain q where q: "a = Finite q" "0 < q"
    by (auto simp: confirm_payment_for_locked_order_def result_simps)
  obtain target coll where pre: "payment_prechecks db ord q m = Inr (target, coll)"
    using assms(1,3) q by (auto simp: confirm_payment_for_locked_order_def result_simps)
  define st where "st = payment_status_of force coll m target"
  obtain receipt db1 where rc: "with_receipt (alloc \<and> st = Completed) (race db) = (receipt, db1)" by fastforce
  have "t_payments db1 = t_payments (race db)" using with_receipt_frame [OF rc] by simp
  then have taken: "Some key \<in> set (map p_key (t_payments db1))" using assms(2) by simp
  obtain e where e: "create_payment_row (o_id ord) (o_retailer ord) txn (Some key) q m st usr receipt db1 = Inl e"
  proof (cases "create_payment_row (o_id ord) (o_retailer ord) txn (Some key) q m st usr receipt db1")
    case (Inr res)
    obtain p db2 where "res = (p, db2)" by fastforce
    with Inr have "Some key \<notin> set (map p_key (t_payments db1))" by (simp add: create_payment_row_Inr)
    with taken show thesis by simp
  qed (rule that)
  from assms(3) q assms(1) pre rc e
  have "classify_payment_insert_race e ord q m txn key alloc (race db) = Inr (pr, db')"
    by (auto simp: confirm_payment_for_locked_order_def raise_invalid_amount_def Let_def result_simps
        with_receipt_def [symmetric] payment_status_of_def [symmetric] st_def)
  then show ?thesis
    using q by (auto simp: classify_payment_insert_race_def replay_or_conflict_for_locked_order_def result_simps
        split: error.splits if_splits option.splits)
qed

theorem insert_race_never_pays_twice_witness:
  "\<exists>pr. confirm_payment_for_locked_order (\<lambda>_. sample_partly) (sample_order\<lparr>o_status := CONFIRMED, o_updated_by := Some 9\<rparr>)
      (Finite 40) Cash None ''cash-key-1'' (Some 9) False False sample_confirmed = Inr (pr, sample_partly) \<and> pr_replayed pr"
proof -
  have none: "get_by_idempotency_key sample_confirmed ''cash-key-1'' = None"
    by (simp add: get_by_idempotency_key_def sample_run_defs)
  have taken: "Some ''cash-key-1'' \<in> p_key ` set (t_payments sample_partly)"
    by (simp add: sample_run_defs)
  obtain pr db' where run: "confirm_payment_for_locked_order (\<lambda>_. sample_partly)
      (sample_order\<lparr>o_status := CONFIRMED, o_updated_by := Some 9\<rparr>)
      (Finite 40) Cash None ''cash-key-1'' (Some 9) False False sample_confirmed = Inr (pr, db')"
    by (simp add: payment_run_defs classify_payment_insert_race_def idempotency_unique_objects_def
        transaction_unique_objects_def replay_or_conflict_for_locked_order_def same_payment_request_def str_uuid_def
        enforce_receipt_on_replay_def sample_run_defs Let_def)
  from insert_race_never_pays_twice [OF none _ run] taken run show ?thesis by auto
qed

end
