(* ===== verification/Payment_Acceptance.thy ===== *)
theory Payment_Acceptance
  imports Payment_Idempotency
begin

text \<open>
  Acceptance: under the credit contract the payment path does not get stuck. A tender within the
  remaining balance of a payable order, under a fresh key and reference, goes through every check
  and every write; one cent more is refused before any write.
\<close>

section \<open>Each write succeeds\<close>

lemma member_le_sum: "x \<in> set xs \<Longrightarrow> (\<And>y. y \<in> set xs \<Longrightarrow> 0 \<le> f y) \<Longrightarrow> f x \<le> (\<Sum>y\<leftarrow>xs. f y :: money)"
proof (induction xs)
  case Nil
  then show ?case by simp
next
  case (Cons a xs)
  then have "0 \<le> (\<Sum>y\<leftarrow>xs. f y)" "0 \<le> f a" by (auto intro: sum_list_nonneg')
  moreover have "f x \<le> (\<Sum>y\<leftarrow>xs. f y)" if "x \<in> set xs" using Cons that by simp
  ultimately show ?case using Cons.prems(1) by force
qed

text \<open>A live binding holds at least the exposure of each of its orders.\<close>

lemma binding_covers_exposure:
  assumes inv: "store_inv db" and ord: "ord \<in> set (t_orders db)"
    and b: "b \<in> set (t_bindings db)" "binding_of (o_wholesaler ord) (o_retailer ord) b"
  shows "order_exposure db (o_id ord) \<le> b_balance b"
proof -
  let ?f = "\<lambda>x. if o_wholesaler x = o_wholesaler ord \<and> o_retailer x = o_retailer ord
      then order_exposure db (o_id x) else 0"
  have "b_balance b = occupation db (o_wholesaler ord) (o_retailer ord)"
    using inv b by (auto simp: store_inv_def cache_exact_def binding_of_def)
  moreover have "?f ord \<le> (\<Sum>x\<leftarrow>t_orders db. ?f x)"
    using inv ord by (intro member_le_sum) (auto simp: store_inv_def intro: exposure_nonneg)
  ultimately show ?thesis by (simp add: occupation_def)
qed

lemma balance_delta_ok:
  assumes "b \<in> set (t_bindings db)" and "binding_of ws ret b" and "0 \<le> b_balance b + delta"
  shows "\<exists>db'. apply_outstanding_balance_delta ws ret delta db = Inr db'"
proof -
  have "filter (\<lambda>b. b_wholesaler b = ws \<and> b_retailer b = ret \<and> \<not> b_deleted b \<and> 0 \<le> b_balance b + delta) (t_bindings db) \<noteq> []"
    using assms by (auto simp: filter_empty_conv binding_of_def)
  then show ?thesis by (simp add: apply_outstanding_balance_delta_def update_binding_def Let_def)
qed

lemma transition_ok:
  assumes "o_status ord = CONFIRMED \<or> o_status ord = PARTIALLY_PAID" and "target = PAID \<or> target = PARTIALLY_PAID"
    and "m = Cash \<or> m = Transfer"
  shows "\<exists>r db'. apply_payment_transition_for_locked ord target (Some m) usr db = Inr (r, db')"
proof -
  obtain p db1 where "post_payment_received (o_id ord) (o_total ord) db = Inr (p, db1)"
    using post_payment_received_ok by blast
  with assms show ?thesis
    by (auto simp: apply_payment_transition_for_locked_def post_transition_ledger_def assign_status_eq Let_def)
qed

lemma reduce_ok:
  assumes "h_status h = Active" and "0 < h_amount h" and "h_remaining h \<le> h_amount h"
    and "0 < q" "q \<le> h_remaining h" and "num2 (h_remaining h - q) = h_remaining h - q"
  shows "\<exists>db'. reduce_hold [h] q usr db = Inr db'"
  using assms by (auto simp: reduce_hold_def flush_hold_def hold_row_ok_def Let_def)

lemma settle_ok:
  assumes st: "o_status ord = CONFIRMED \<or> o_status ord = PARTIALLY_PAID" "target = PAID \<or> target = PARTIALLY_PAID"
    and m: "m = Cash \<or> m = Transfer"
    and h: "h_status h = Active" "0 < h_amount h" "h_remaining h \<le> h_amount h" "0 < q" "q \<le> h_remaining h"
      "num2 (h_remaining h - q) = h_remaining h - q"
    and b: "b \<in> set (t_bindings db)" "binding_of (o_wholesaler ord) (o_retailer ord) b" "0 \<le> b_balance b - q"
  shows "\<exists>ord' db'. settle_order ord [h] target q m usr force db = Inr (ord', db')"
proof -
  obtain db1 where hold: "reduce_hold [h] q usr db = Inr db1" using reduce_ok [OF h] by blast
  then have b1: "t_bindings db1 = t_bindings db" by (auto dest: reduce_hold_effect)
  obtain r db2 where trans: "apply_payment_transition_for_locked ord target (Some m) usr db1 = Inr (r, db2)"
    using transition_ok [OF st m] by blast
  define db3 where "db3 = (if \<not> force \<and> o_status (cr_order r) = PAID
                then snd (update_cash_transfer_to_completed (o_id ord) db2) else db2)"
  have "t_bindings db3 = t_bindings db"
    using transition_effect [OF trans] b1 by (simp add: db3_def update_cash_transfer_to_completed_def)
  then obtain db4 where "apply_outstanding_balance_delta (o_wholesaler ord) (o_retailer ord) (- q) db3 = Inr db4"
    using balance_delta_ok [of b db3 "o_wholesaler ord" "o_retailer ord" "- q"] b by auto
  with hold trans m show ?thesis by (auto simp: settle_order_def db3_def [symmetric] Let_def)
qed

section \<open>A payable order\<close>

definition payable :: "store \<Rightarrow> uuid \<Rightarrow> order_row \<Rightarrow> bool" where
  "payable db oid ord \<longleftrightarrow> live_order db oid = Some ord \<and> (o_status ord = CONFIRMED \<or> o_status ord = PARTIALLY_PAID) \<and>
     assert_valid_payment_history db [oid] = Inr () \<and>
     (\<exists>b \<in> set (t_bindings db). binding_of (o_wholesaler ord) (o_retailer ord) b)"

definition fresh_reference :: "store \<Rightarrow> string \<Rightarrow> string option \<Rightarrow> bool" where
  "fresh_reference db key txn \<longleftrightarrow> Some key \<notin> p_key ` set (t_payments db) \<and>
     (txn = None \<or> txn \<notin> p_transaction ` set (t_payments db)) \<and> length key \<le> 64 \<and> fits 128 txn"

lemma fresh_reference_lookups:
  assumes "fresh_reference db key txn"
  shows "get_by_idempotency_key db key = None" and "transfer_reference_free db m txn"
proof -
  show "get_by_idempotency_key db key = None"
    using assms unfolding fresh_reference_def get_by_idempotency_key_def find_None_iff by (metis image_eqI)
  show "transfer_reference_free db m txn"
    using assms unfolding fresh_reference_def transfer_reference_free_def get_by_transaction_id_def
    by (auto split: option.splits simp: find_Some_iff) (metis image_eqI nth_mem)
qed

lemma payable_hold:
  assumes inv: "store_inv db" and pay: "payable db oid ord"
  obtains h where "order_holds db (o_id ord) = [h]" "h_status h = Active" "h_amount h = o_total ord" "0 < o_total ord"
    "h_remaining h = o_total ord - get_order_paid_total db oid" "0 \<le> get_order_paid_total db oid"
    "order_exposure db oid = o_total ord - get_order_paid_total db oid"
    "in_cents (o_total ord)" "in_cents (get_order_paid_total db oid)"
proof -
  have live: "live_order db oid = Some ord" and st: "o_status ord = CONFIRMED \<or> o_status ord = PARTIALLY_PAID"
    using pay by (simp_all add: payable_def)
  note p = store_inv_parts [OF inv live]
  from p(6,7) st that show thesis
    by (auto simp: order_ok_def order_exposure_def credit_owed_def)
qed

lemma checks_pass:
  assumes h: "order_holds db (o_id ord) = [h]" "h_status h = Active" "h_amount h = o_total ord"
      "h_remaining h = o_total ord - get_order_paid_total db (o_id ord)"
    and st: "o_status ord = CONFIRMED \<or> o_status ord = PARTIALLY_PAID"
    and m: "m = Cash \<or> m = Transfer" and q: "q \<le> o_total ord - get_order_paid_total db (o_id ord)"
  shows "payment_prechecks db ord q m =
      Inr (if o_total ord \<le> get_order_paid_total db (o_id ord) + q then PAID else PARTIALLY_PAID, False)"
    and "verify_hold_contract db ord [h] m q False = Inr ()"
  using assms by (auto simp: payment_prechecks_def verify_hold_contract_def ensure_def Let_def)

text \<open>The write sequence of an accepted tender, from the checks to the binding.\<close>

lemma locked_tender_runs:
  assumes inv: "store_inv db" and pay: "payable db oid ord" and m: "m = Cash \<or> m = Transfer"
    and q: "0 < q" "in_cents q" "q \<le> o_total ord - get_order_paid_total db oid"
    and fresh: "fresh_reference db key txn"
  shows "\<exists>pr db'. confirm_payment_for_locked_order no_race ord (Finite q) m txn key usr force alloc db = Inr (pr, db')"
proof -
  have live: "live_order db oid = Some ord" and st: "o_status ord = CONFIRMED \<or> o_status ord = PARTIALLY_PAID"
    and hist: "assert_valid_payment_history db [oid] = Inr ()"
    using pay by (simp_all add: payable_def)
  note p = store_inv_parts [OF inv live]
  obtain h where h: "order_holds db (o_id ord) = [h]" "h_status h = Active" "h_amount h = o_total ord" "0 < o_total ord"
    "h_remaining h = o_total ord - get_order_paid_total db oid" "0 \<le> get_order_paid_total db oid"
    "order_exposure db oid = o_total ord - get_order_paid_total db oid"
    "in_cents (o_total ord)" "in_cents (get_order_paid_total db oid)"
    using inv pay by (rule payable_hold)
  obtain b where b: "b \<in> set (t_bindings db)" "binding_of (o_wholesaler ord) (o_retailer ord) b"
    using pay by (auto simp: payable_def)
  have cover: "0 \<le> b_balance b - q"
    using binding_covers_exposure [OF inv p(5) b] q h(7) p(6) by simp
  let ?target = "if o_total ord \<le> get_order_paid_total db oid + q then PAID else PARTIALLY_PAID"
  have target: "?target = PAID \<or> ?target = PARTIALLY_PAID" by simp
  define st' where "st' = payment_status_of force False m ?target"
  obtain receipt db1 where rc: "with_receipt (alloc \<and> st' = Completed) db = (receipt, db1)" by fastforce
  note f1 = with_receipt_frame [OF rc]
  obtain pm db2 where row: "create_payment_row (o_id ord) (o_retailer ord) txn (Some key) q m st' usr receipt db1 = Inr (pm, db2)"
    using fresh m f1 by (auto simp: create_payment_row_Inr fresh_reference_def)
  have "t_bindings db2 = t_bindings db" using row f1 by (auto simp: create_payment_row_Inr)
  moreover have "num2 (h_remaining h - q) = h_remaining h - q"
    using h(5,8,9) q(2) by (simp add: num2_cents in_cents_diff)
  ultimately have "\<exists>ord' db3. settle_order ord [h] ?target q m usr force db2 = Inr (ord', db3)"
    using h b cover q(3) by (intro settle_ok [OF st target m h(2) _ _ q(1), where b = b]) simp_all
  then obtain ord' db3 where run: "settle_order ord [h] ?target q m usr force db2 = Inr (ord', db3)" by blast
  have pre: "payment_prechecks db ord q m = Inr (?target, False)" "verify_hold_contract db ord [h] m q False = Inr ()"
    using checks_pass [of db ord h m q] h st m q(3) p(6) by simp_all
  have free: "get_by_idempotency_key db key = None" "transfer_reference_free db m txn"
    using fresh_reference_lookups [OF fresh] by simp_all
  have wrap: "wrap_mutation (settle_order ord [h] ?target q m usr force db2) = Inr (ord', db3)"
    using run by (simp add: wrap_mutation_def)
  show ?thesis
    using q(1) free pre hist h(1) p(6) rc row wrap
    by (auto simp: confirm_payment_for_locked_order_def raise_invalid_amount_def Let_def
        with_receipt_def [symmetric] payment_status_of_def [symmetric] st'_def [symmetric])
qed

text \<open>An order without a credit sale is exposed by what it still owes.\<close>

lemma unpaid_exposure:
  assumes "order_ok db ord" and "credit_total db (o_id ord) = 0"
    and "o_status ord = CONFIRMED \<or> o_status ord = PARTIALLY_PAID \<or> o_status ord = PAID"
  shows "order_exposure db (o_id ord) = o_total ord - get_order_paid_total db (o_id ord)"
  using assms by (auto simp: order_ok_def order_exposure_def credit_owed_def paid_off_def)

lemma row_put_mem: "old \<in> set rows \<Longrightarrow> key old = key r \<Longrightarrow> r \<in> set (row_put key r rows)"
  by (induction rows) auto

lemma locked_tender_result:
  assumes inv: "store_inv db" and pay: "payable db oid ord" and m: "m = Cash \<or> m = Transfer" and q: "in_cents q"
    and none: "get_by_idempotency_key db key = None"
    and run: "confirm_payment_for_locked_order no_race ord (Finite q) m txn key usr force alloc db = Inr (pr, db')"
  shows "\<not> pr_replayed pr \<and> get_order_paid_total db' oid = get_order_paid_total db oid + q \<and>
      order_exposure db' oid = order_exposure db oid - q \<and>
      pr_state pr = (if o_total ord \<le> get_order_paid_total db oid + q then PAID else PARTIALLY_PAID)"
proof -
  have live: "live_order db oid = Some ord" and st: "o_status ord = CONFIRMED \<or> o_status ord = PARTIALLY_PAID"
    using pay by (simp_all add: payable_def)
  note p = store_inv_parts [OF inv live]
  have state: "pr_state pr = o_status (pr_order pr)"
    using run by (rule locked_payment_run) auto
  have inv': "store_inv db'" using inv live run q by (rule locked_payment_keeps)
  show ?thesis
    using p(1) run
  proof (rule locked_payment_effect)
    fix q' h
    let ?ord = "with_status ord
         (if o_total ord \<le> get_order_paid_total db (o_id ord) + q' then PAID else PARTIALLY_PAID) usr"
    assume "Finite q = Finite q'" and "hold_row_ok (reduced_hold h q' usr)"
      and row: "paid_row db db' ord q' m txn key" and "\<not> pr_replayed pr"
      and orders: "t_orders db' = row_put o_id ?ord (t_orders db)" and ord': "pr_order pr = ?ord"
    then have q': "q' = q" by simp
    note tot = paid_row_totals [OF row, unfolded q' num2_cents [OF q]]
    have zero: "credit_total db oid = 0" using p(6,7) st by (auto simp: order_ok_def)
    have new: "get_order_paid_total db' oid = get_order_paid_total db oid + q" "credit_total db' oid = 0"
      using tot m p(6) zero by (auto simp: get_order_paid_total_def credit_total_def)
    have "?ord \<in> set (t_orders db')" unfolding orders using p(5) by (intro row_put_mem) auto
    then have "order_ok db' ?ord" using inv' by (simp add: store_inv_def)
    from unpaid_exposure [OF this] new(2) p(6)
    have "order_exposure db' oid = o_total ord - get_order_paid_total db' oid" by simp
    moreover have "order_exposure db oid = o_total ord - get_order_paid_total db oid"
      using unpaid_exposure [OF p(7)] zero st p(6) by auto
    ultimately show ?thesis using new state ord' \<open>\<not> pr_replayed pr\<close> q' p(6) by simp
  qed (use m st none in auto)
qed

section \<open>Properties\<close>

text \<open>
  C3: Under the credit contract a cash or transfer payment of a payable order, in whole cents and
  under a fresh key and reference, is accepted exactly when it does not exceed the remaining
  balance. Accepted, it is recorded once, raises the paid total and lowers the order's exposure by
  its amount, and the order is paid exactly when nothing remains; refused, it is refused with
  PAYMENT_EXCEEDS_REMAINING.
\<close>

theorem tender_accepted_iff_within_balance:
  assumes "store_inv db" and "payable db oid ord" and "m = Cash \<or> m = Transfer"
    and "0 < q" and "in_cents q" and "fresh_reference db key txn"
  shows "if q \<le> o_total ord - get_order_paid_total db oid
    then \<exists>pr db'. confirm_payment no_race (Canonical oid) (Finite q) m txn key usr force alloc db = Inr (pr, db') \<and>
      \<not> pr_replayed pr \<and> get_order_paid_total db' oid = get_order_paid_total db oid + q \<and>
      order_exposure db' oid = order_exposure db oid - q \<and>
      pr_state pr = (if q = o_total ord - get_order_paid_total db oid then PAID else PARTIALLY_PAID)
    else confirm_payment no_race (Canonical oid) (Finite q) m txn key usr force alloc db =
      Inl (Http 400 PAYMENT_EXCEEDS_REMAINING)"
proof -
  have live: "live_order db oid = Some ord" and st: "o_status ord = CONFIRMED \<or> o_status ord = PARTIALLY_PAID"
    and hist: "assert_valid_payment_history db [oid] = Inr ()"
    using assms(2) by (simp_all add: payable_def)
  note p = store_inv_parts [OF assms(1) live]
  have free: "get_by_idempotency_key db key = None"
    using fresh_reference_lookups [OF assms(6)] by simp
  have entry: "confirm_payment no_race (Canonical oid) (Finite q) m txn key usr force alloc db =
      confirm_payment_for_locked_order no_race ord (Finite q) m txn key usr force alloc db"
    using free live assms(4) by (simp add: confirm_payment_def raise_invalid_amount_def get_order_by_id_for_update_def)
  show ?thesis
  proof (cases "q \<le> o_total ord - get_order_paid_total db oid")
    case True
    obtain pr db' where run: "confirm_payment_for_locked_order no_race ord (Finite q) m txn key usr force alloc db = Inr (pr, db')"
      using locked_tender_runs [OF assms(1-5) True assms(6)] by blast
    from locked_tender_result [OF assms(1-3,5) free run] True
    have "\<not> pr_replayed pr \<and> get_order_paid_total db' oid = get_order_paid_total db oid + q \<and>
      order_exposure db' oid = order_exposure db oid - q \<and>
      pr_state pr = (if q = o_total ord - get_order_paid_total db oid then PAID else PARTIALLY_PAID)"
      by auto
    with run True entry show ?thesis by auto
  next
    case False
    then show ?thesis
      unfolding entry using free hist st assms(4) p(6)
      by (auto simp: confirm_payment_for_locked_order_def raise_invalid_amount_def payment_prechecks_def Let_def)
  qed
qed

lemma sample_partly_inv: "store_inv sample_partly"
  using call_keeps_inv [OF call_keeps_inv [OF sample_inv _ sample_steps(1)] _ sample_steps(2)] by simp

theorem tender_accepted_iff_within_balance_witness:
  "confirm_payment no_race (Canonical 1) (Finite 61) Cash None ''k'' None False False sample_partly =
     Inl (Http 400 PAYMENT_EXCEEDS_REMAINING)"
proof -
  let ?ord = "sample_order\<lparr>o_status := PARTIALLY_PAID, o_updated_by := Some 9\<rparr>"
  have pay: "payable sample_partly 1 ?ord"
    by (simp add: payable_def live_order_def assert_valid_payment_history_def find_invalid_history_orders_def
        invalid_rows_of_def row_find_def order_payments_def invalid_history_row_def binding_of_def sample_run_defs)
  have fresh: "fresh_reference sample_partly ''k'' None"
    by (simp add: fresh_reference_def sample_run_defs)
  have paid: "get_order_paid_total sample_partly 1 = 40"
    by (simp add: get_order_paid_total_def get_order_method_total_def order_payments_def sample_run_defs)
  have "o_total ?ord = 100" by (simp add: sample_order_def)
  then show ?thesis
    using tender_accepted_iff_within_balance [OF sample_partly_inv pay _ _ _ fresh, of Cash 61 None False False] paid
    by simp
qed

end
