(* ===== verification/Order_Undo.thy ===== *)
theory Order_Undo
  imports Payment_Acceptance
begin

text \<open>
  Cancelling a confirmation: the cancel command can always undo what the confirm command did. A
  confirmed order can be cancelled, and cancelling gives back every reserved unit and the whole
  credit hold, so that stock and credit are as before the confirmation.
\<close>

section \<open>Loops that cannot fail\<close>

lemma foldE_collect:
  "(\<And>x. x \<in> set xs \<Longrightarrow> \<exists>y. g x = Inr y) \<Longrightarrow>
   foldE (\<lambda>x acc. bindE (g x) (\<lambda>_. Inr (acc @ [x]))) xs acc = Inr (acc @ xs)"
proof (induction xs arbitrary: acc)
  case Nil
  then show ?case by simp
next
  case (Cons x xs)
  then obtain y where "g x = Inr y" by auto
  with Cons show ?case by simp
qed

text \<open>Active reservations are backed by their stock row.\<close>

definition stocked :: "store \<Rightarrow> uuid \<Rightarrow> bool" where
  "stocked db sku \<longleftrightarrow> find_stock db sku \<noteq> None"

definition positive_reservations :: "store \<Rightarrow> bool" where
  "positive_reservations db \<longleftrightarrow> (\<forall>v \<in> set (t_reservations db). 0 < v_quantity v)"

lemma stocked_iff: "stocked db sku \<longleftrightarrow> (\<exists>x \<in> set (t_stocks db). s_sku x = sku \<and> \<not> s_deleted x)"
  by (auto simp: stocked_def find_stock_def find_None_iff)

lemma stocked_put:
  assumes "stocked db sku" and "\<not> s_deleted s'" and "t_stocks db' = row_put s_sku s' (t_stocks db)"
  shows "stocked db' sku"
proof -
  from assms(1) obtain x where x: "x \<in> set (t_stocks db)" "s_sku x = sku" "\<not> s_deleted x"
    by (auto simp: stocked_iff)
  show ?thesis
  proof (cases "s_sku x = s_sku s'")
    case True
    then have "s' \<in> set (t_stocks db')" unfolding assms(3) using x(1) by (intro row_put_mem)
    with True x assms(2) show ?thesis by (auto simp: stocked_iff)
  next
    case False
    then have "x \<in> set (t_stocks db')" unfolding assms(3) using x(1) by (auto simp: row_put_def image_iff)
    with x show ?thesis by (auto simp: stocked_iff)
  qed
qed

lemma reserved_column_row:
  assumes "distinct (map s_sku (t_stocks db))" and "find_stock db sku = Some s"
  shows "reserved_column db sku = s_reserved s"
proof -
  have "(\<Sum>x\<leftarrow>rows. if s_sku x = sku \<and> \<not> s_deleted x then s_reserved x else 0) = s_reserved s"
    if "distinct (map s_sku rows)" "s \<in> set rows" "s_sku s = sku" "\<not> s_deleted s" for rows
    using that
  proof (induction rows)
    case Nil
    then show ?case by simp
  next
    case (Cons x xs)
    have "sku \<notin> s_sku ` set xs \<Longrightarrow> (\<Sum>x\<leftarrow>xs. if s_sku x = sku \<and> \<not> s_deleted x then s_reserved x else 0) = 0"
      by (induction xs) auto
    with Cons show ?case by (auto simp: image_iff)
  qed
  with assms(1) find_stock_Some [OF assms(2)] show ?thesis by (simp add: reserved_column_def)
qed

text \<open>The reserved column covers each active reservation.\<close>

lemma reservation_covered:
  assumes "accounted db" and "positive_reservations db" and "is_active v db" and "find_stock db (v_sku v) = Some s"
  shows "v_quantity v \<le> s_reserved s"
proof -
  let ?f = "\<lambda>x. if v_sku x = v_sku v \<and> v_status x = Reserved \<and> \<not> v_deleted x then v_quantity x else 0"
  have "?f v \<le> (\<Sum>x\<leftarrow>t_reservations db. ?f x)"
    using assms(2,3) by (intro member_le_sum) (auto simp: is_active_def positive_reservations_def intro: less_imp_le)
  then have "v_quantity v \<le> reserved_units db (v_sku v)"
    using assms(3) by (simp add: reserved_units_def is_active_def)
  also have "\<dots> = s_reserved s"
    using assms(1,4) reserved_column_row [of db "v_sku v" s] by (simp add: accounted_def)
  finally show ?thesis .
qed

lemma release_one_ok:
  assumes "accounted db" and "positive_reservations db" and "is_active v db" and "stocked db (v_sku v)"
    and "v_sku v \<in> set locked"
  obtains db' where "release_reservation locked v db = Inr db'" "accounted db'" "positive_reservations db'"
    "\<And>k. stocked db k \<Longrightarrow> stocked db' k"
    "\<And>k. reserved_units db' k = reserved_units db k - (if k = v_sku v then v_quantity v else 0)"
proof -
  obtain s where s: "find_stock db (v_sku v) = Some s" using assms(4) by (auto simp: stocked_def)
  let ?s = "s\<lparr>s_reserved := s_reserved s - v_quantity v\<rparr>"
  let ?db = "set_reservation Released v (put_stock ?s db)"
  have run: "release_reservation locked v db = Inr ?db"
    using reservation_covered [OF assms(1-3) s] s assms(5) by (auto simp: release_reservation_Inr)
  moreover have "accounted ?db"
    using release_line.step [OF assms(3) run] assms(1) by (rule stock_step_accounted)
  moreover have "positive_reservations ?db"
    using assms(2,3) by (auto simp: positive_reservations_def is_active_def dest!: set_row_put)
  moreover have "stocked ?db k" if "stocked db k" for k
    using stocked_put [OF that, of ?s ?db] find_stock_Some [OF s] by simp
  moreover have "reserved_units ?db k = reserved_units db k - (if k = v_sku v then v_quantity v else 0)" for k
    using reserved_units_set [of "put_stock ?s db" v Released k] assms(1,3)
    by (simp add: accounted_def reservation_ids_def is_active_def)
  ultimately show thesis by (rule that)
qed

lemma release_loop_ok:
  "accounted db \<Longrightarrow> positive_reservations db \<Longrightarrow> \<forall>v \<in> set vs. is_active v db \<and> stocked db (v_sku v) \<and> v_sku v \<in> set locked \<Longrightarrow>
   sorted_wrt other_reservation vs \<Longrightarrow>
   \<exists>db'. foldE (release_reservation locked) vs db = Inr db' \<and>
     (\<forall>k. reserved_units db' k = reserved_units db k - (\<Sum>v\<leftarrow>vs. if k = v_sku v then v_quantity v else 0))"
proof (induction vs arbitrary: db)
  case Nil
  then show ?case by simp
next
  case (Cons v vs)
  then obtain db1 where v: "release_reservation locked v db = Inr db1" "accounted db1" "positive_reservations db1"
      "\<And>k. stocked db k \<Longrightarrow> stocked db1 k"
      "\<And>k. reserved_units db1 k = reserved_units db k - (if k = v_sku v then v_quantity v else 0)"
    by (auto elim: release_one_ok [of db v locked])
  have "\<forall>w \<in> set vs. is_active w db1 \<and> stocked db1 (v_sku w) \<and> v_sku w \<in> set locked"
    using Cons.prems(3,4) v(4) by (auto intro: release_line.others [OF _ _ v(1)])
  from Cons.IH [OF v(2,3) this] Cons.prems(4) obtain db' where
      "foldE (release_reservation locked) vs db1 = Inr db'"
      "\<forall>k. reserved_units db' k = reserved_units db1 k - (\<Sum>v\<leftarrow>vs. if k = v_sku v then v_quantity v else 0)" by auto
  with v(1,5) show ?case by auto
qed

section \<open>The stores a confirmation leaves\<close>

text \<open>Items of one sellable unit carry one SKU code, and a draft order has no active reservation.\<close>

definition codes_consistent :: "order_row \<Rightarrow> bool" where
  "codes_consistent ord \<longleftrightarrow> (\<forall>i \<in> set (o_items ord). \<forall>j \<in> set (o_items ord).
     i_sellable_unit i = i_sellable_unit j \<longrightarrow> i_sku_code i = i_sku_code j)"

definition order_reservations :: "store \<Rightarrow> uuid \<Rightarrow> reservation_row list" where
  "order_reservations db oid = filter (\<lambda>v. v_order v = oid \<and> v_status v = Reserved \<and> \<not> v_deleted v) (t_reservations db)"

text \<open>What the stock locks of a confirmation checked.\<close>

lemma prelock_checked:
  assumes lock: "prelock_stocks items True db = Inr locked" and i: "i \<in> set items" "i_sellable_unit i = Some sku"
  shows "\<exists>j \<in> set items. i_sellable_unit j = Some sku \<and> stocked db sku \<and> sellable db sku (i_sku_code j) True"
proof -
  let ?skus = "sort (remdups (map (the \<circ> i_sellable_unit) items))"
  let ?work = "\<lambda>sku (acc :: uuid list).
              (case find (\<lambda>i. i_sellable_unit i = Some sku) items of
                 None \<Rightarrow> Inl KeyError
               | Some item \<Rightarrow> bindE (locked_stock_by_sku_id db sku (i_sku_code item) True) (\<lambda>_. Inr (acc @ [sku])))"
  have step: "\<exists>a b. ?work x a = Inr b" if "foldE ?work xs acc = Inr acc'" "x \<in> set xs" for xs acc acc' x
    using that by (induction xs arbitrary: acc) (auto simp: result_simps)
  have "sku \<in> set ?skus" using i by force
  with step [of ?skus "[]" locked sku] lock obtain a b where "?work sku a = Inr b"
    unfolding prelock_stocks_def by blast
  then obtain item where "find (\<lambda>i. i_sellable_unit i = Some sku) items = Some item"
      "stocked db sku" "sellable db sku (i_sku_code item) True"
    by (auto simp: result_simps stocked_def split: option.splits)
  then show ?thesis by (metis (mono_tags, lifting) find_Some_iff nth_mem)
qed

lemma sellable_weaken: "sellable db sku code True \<Longrightarrow> sellable db sku code False"
  by (auto simp: sellable_def)

lemma sellable_cong:
  "t_skus db' = t_skus db \<Longrightarrow> t_catalog db' = t_catalog db \<Longrightarrow> sellable db' sku code a = sellable db sku code a"
  by (simp add: sellable_def)

lemma reserve_item_stocked:
  assumes "reserve_item ord locked item db = Inr db'" and "stocked db k"
  shows "stocked db' k"
proof -
  from assms(1) obtain sku s where s: "find_stock db sku = Some s"
    and db': "db' = put_stock (s\<lparr>s_reserved := s_reserved s + of_int (i_quantity item)\<rparr>)
                (insert_reservation ord item sku (of_int (i_quantity item)) db)"
    by (auto simp: reserve_item_Inr)
  show ?thesis
    by (rule stocked_put [OF assms(2), where s' = "s\<lparr>s_reserved := s_reserved s + of_int (i_quantity item)\<rparr>"])
      (use find_stock_Some [OF s] in \<open>simp_all add: db'\<close>)
qed

lemma reserve_loop_stocked:
  "foldE (reserve_item ord locked) items db = Inr db' \<Longrightarrow> stocked db k \<Longrightarrow> stocked db' k"
  by (erule foldE_invariant [where P = "\<lambda>d. stocked d k"]) (auto intro: reserve_item_stocked)

text \<open>The reservations of the confirmed order, item by item.\<close>

lemma new_reservations:
  assumes "length rids = length items" and "v \<in> set (map2 (item_reservation ord) items rids)"
  shows "v_order v = o_id ord \<and> v_status v = Reserved \<and> \<not> v_deleted v \<and>
    (\<exists>i \<in> set items. v_sku v = the (i_sellable_unit i) \<and> v_code v = i_sku_code i)"
  using assms by (auto simp: item_reservation_def in_set_zip dest: set_zip_leftD)

lemma new_reservations_units:
  "length rids = length items \<Longrightarrow> \<forall>i \<in> set items. i_sellable_unit i \<noteq> None \<Longrightarrow>
   (\<Sum>v\<leftarrow>map2 (item_reservation ord) items rids. if k = v_sku v then v_quantity v else 0) = ordered_units items k"
  by (induction rids items rule: list_induct2)
    (auto simp: ordered_units_def item_reservation_def)

lemma order_reservations_new:
  assumes "length rids = length items" and "order_reservations db (o_id ord) = []"
    and "t_reservations db' = t_reservations db @ map2 (item_reservation ord) items rids"
  shows "order_reservations db' (o_id ord) = map2 (item_reservation ord) items rids"
proof -
  have "filter (\<lambda>v. v_order v = o_id ord \<and> v_status v = Reserved \<and> \<not> v_deleted v)
      (map2 (item_reservation ord) items rids) = map2 (item_reservation ord) items rids"
    using new_reservations [OF assms(1), of _ ord] by (intro filter_True) blast
  with assms(2,3) show ?thesis by (simp add: order_reservations_def)
qed

text \<open>The locks of a cancellation succeed when every reserved SKU still has its stock row and code.\<close>

lemma prelock_reservations_ok:
  assumes "\<And>v. v \<in> set (order_reservations db (o_id ord)) \<Longrightarrow>
      stocked db (v_sku v) \<and> sellable db (v_sku v) (v_code v) False"
  shows "prelock_reservation_stocks ord db = Inr (sort (remdups (map v_sku (order_reservations db (o_id ord)))))"
proof -
  let ?codes = "map (\<lambda>v. (v_sku v, v_code v)) (order_reservations db (o_id ord))"
  have ok: "\<exists>y. locked_stock_by_sku_id db sku (the (map_of (rev ?codes) sku)) False = Inr y"
    if "sku \<in> set (sort (remdups (map fst ?codes)))" for sku
  proof -
    from that have "sku \<in> fst ` set (rev ?codes)" by (auto simp: image_image)
    then obtain c where c: "map_of (rev ?codes) sku = Some c" by (metis map_of_eq_None_iff not_Some_eq)
    then have "(sku, c) \<in> set (rev ?codes)" by (rule map_of_SomeD)
    then obtain v where "v \<in> set (order_reservations db (o_id ord))" "sku = v_sku v" "c = v_code v" by auto
    with assms [of v] c show ?thesis by (auto simp: locked_stock_by_sku_id_def stocked_def)
  qed
  have fst: "map fst ?codes = map v_sku (order_reservations db (o_id ord))" by simp
  have "foldE (\<lambda>sku acc. bindE (locked_stock_by_sku_id db sku (the (map_of (rev ?codes) sku)) False)
      (\<lambda>_. Inr (acc @ [sku]))) (sort (remdups (map fst ?codes))) [] = Inr ([] @ sort (remdups (map fst ?codes)))"
    by (rule foldE_collect) (rule ok)
  then show ?thesis
    unfolding prelock_reservation_stocks_def Let_def order_reservations_def [symmetric] fst by simp
qed

lemma bump_mem:
  "b \<in> set bs \<Longrightarrow> binding_of ws ret b \<Longrightarrow> \<exists>c \<in> set (bump_bindings w r d bs). binding_of ws ret c"
  by (induction bs) (auto simp: bump_bindings_def binding_of_def)

text \<open>A cancelled order fits its status, so it is not exposed.\<close>

lemma cancelled_exposure: "order_ok db ord \<Longrightarrow> o_status ord = CANCELLED \<Longrightarrow> order_exposure db (o_id ord) = 0"
  by (auto simp: order_ok_def order_exposure_def credit_owed_def)

lemma bump_bump:
  assumes "\<And>b. b \<in> set bs \<Longrightarrow> binding_of ws ret b \<Longrightarrow> in_cents (b_balance b)" and "in_cents d"
  shows "bump_bindings ws ret (- d) (bump_bindings ws ret d bs) = bs"
  using assms
proof (induction bs)
  case Nil
  then show ?case by (simp add: bump_bindings_def)
next
  case (Cons b bs)
  have "num2 (b_balance b + d) = b_balance b + d" if "binding_of ws ret b"
    using that Cons.prems by (intro num2_cents in_cents_add) auto
  with Cons show ?case by (auto simp: bump_bindings_def binding_of_def num2_cents)
qed

lemma sum_sort_key: "(\<Sum>x\<leftarrow>sort_key f xs. g x) = (\<Sum>x\<leftarrow>xs. g x :: money)"
proof -
  have mset: "(\<Sum>x\<leftarrow>ys. g x) = sum_mset (image_mset g (mset ys))" for ys
    by (simp flip: sum_mset_sum_list mset_map)
  show ?thesis by (simp add: mset)
qed

lemma active_reservations_eq:
  "active_reservations db oid = sort_key (\<lambda>v. (t_collation db (v_code v), v_id v)) (order_reservations db oid)"
  by (simp add: active_reservations_def order_reservations_def)

text \<open>The hold part of a cancellation succeeds on an order that fits its status.\<close>

lemma settle_cancel_ok:
  assumes "o_status ord = CONFIRMED" and "order_holds db (o_id ord) = [h]" and "h_status h = Active"
    and "h_amount h = o_total ord" "h_remaining h = o_total ord" "0 < o_total ord"
    and "b \<in> set (t_bindings db)" "binding_of (o_wholesaler ord) (o_retailer ord) b" "o_total ord \<le> b_balance b"
  shows "\<exists>x db'. settle_cancel_hold ord usr db = Inr (x, db')"
proof -
  let ?h = "h\<lparr>h_status := Hold_Released, h_remaining := 0, h_updated_by := usr\<rparr>"
  have "flush_hold ?h db = Inr (put_hold (?h\<lparr>h_remaining := num2 (h_remaining ?h)\<rparr>) db)"
    using assms by (simp add: flush_hold_def hold_row_ok_def)
  moreover have "filter (\<lambda>b. b_wholesaler b = o_wholesaler ord \<and> b_retailer b = o_retailer ord \<and> \<not> b_deleted b \<and>
      0 \<le> b_balance b - o_total ord) (t_bindings db) \<noteq> []"
    using assms(7-9) by (auto simp: filter_empty_conv binding_of_def)
  ultimately show ?thesis using assms(1-5)
    by (auto simp: settle_cancel_hold_def update_binding_def Let_def)
qed

text \<open>A cancellation of a confirmed order whose reservations are in place goes through.\<close>

lemma cancel_confirmed_ok:
  assumes inv: "store_inv db" and live: "live_order db oid = Some ord" and st: "o_status ord = CONFIRMED"
    and pos: "positive_reservations db"
    and backed: "\<And>v. v \<in> set (order_reservations db oid) \<Longrightarrow>
      stocked db (v_sku v) \<and> sellable db (v_sku v) (v_code v) False"
    and b: "b \<in> set (t_bindings db)" "binding_of (o_wholesaler ord) (o_retailer ord) b"
  shows "\<exists>r db'. cancel_order oid usr db = Inr (r, db') \<and>
    (\<forall>k. reserved_units db' k = reserved_units db k -
       (\<Sum>v\<leftarrow>order_reservations db oid. if k = v_sku v then v_quantity v else 0))"
proof -
  note p = store_inv_parts [OF inv live]
  let ?vs = "active_reservations db oid"
  let ?locked = "sort (remdups (map v_sku (order_reservations db oid)))"
  have lock: "prelock_reservation_stocks ord db = Inr ?locked"
    using prelock_reservations_ok [of db ord] backed p(6) by simp
  have work: "\<forall>v \<in> set ?vs. is_active v db \<and> stocked db (v_sku v) \<and> v_sku v \<in> set ?locked"
    using backed active_reservations_work(1) [OF p(4)] by (auto simp: active_reservations_eq)
  obtain db1 where loop: "foldE (release_reservation ?locked) ?vs db = Inr db1"
      "\<forall>k. reserved_units db1 k = reserved_units db k - (\<Sum>v\<leftarrow>?vs. if k = v_sku v then v_quantity v else 0)"
    using release_loop_ok [OF p(4) pos work active_reservations_work(2) [OF p(4)]] by blast
  then have rel: "release_reservations ord ?locked db = Inr (map (\<lambda>v. v\<lparr>v_status := Released\<rparr>) ?vs, db1)"
    using p(6) by (simp add: release_reservations_def Let_def)
  have step: "stock_step db db1" using rel p(4) by (rule release_reservations_step)
  note t = stock_step_tables [OF step]
  obtain h where h: "order_holds db oid = [h]" "h_status h = Active" "h_amount h = o_total ord"
      "h_remaining h = o_total ord" "0 < o_total ord"
    using p(6,7) st by (auto simp: order_ok_def)
  have "order_exposure db oid = o_total ord"
    using p(6,7) st h by (simp add: order_exposure_def order_ok_def credit_owed_def)
  then have cover: "o_total ord \<le> b_balance b" using binding_covers_exposure [OF inv p(5) b] p(6) by simp
  have "order_holds db1 (o_id ord) = [h]" using order_holds_cong [OF t(2)] h(1) p(6) by simp
  then obtain x db2 where hold: "settle_cancel_hold ord usr db1 = Inr (x, db2)"
    using settle_cancel_ok [of ord db1 h b usr] st h b cover t by auto
  have run: "\<exists>r. cancel_order oid usr db = Inr (r, put_order (with_status ord CANCELLED usr) db2)"
    using live st lock rel hold
    by (simp add: cancel_order_def load_locked_def validate_transition_def assign_status_eq)
  have "t_reservations db2 = t_reservations db1"
    using hold st by (auto simp: settle_cancel_hold_def flush_hold_def result_simps update_binding_def Let_def
        split: list.splits if_splits)
  then have "reserved_units (put_order (with_status ord CANCELLED usr) db2) = reserved_units db1"
    by (intro reserved_units_cong) simp
  with run loop(2) show ?thesis by (auto simp: active_reservations_eq sum_sort_key)
qed

section \<open>Properties\<close>

text \<open>What a confirmation reserved is backed by stock and still sellable under the code of its item.\<close>

lemma reserved_backed:
  assumes lock: "prelock_stocks (sort_key (the \<circ> i_sellable_unit) (o_items ord)) True db = Inr locked"
    and loop: "foldE (reserve_item ord locked) (sort_key (the \<circ> i_sellable_unit) (o_items ord)) db = Inr dbr"
    and codes: "codes_consistent ord" and i: "i \<in> set (o_items ord)" "i_sellable_unit i = Some k"
  shows "stocked dbr k \<and> sellable db k (i_sku_code i) False"
proof -
  from prelock_checked [OF lock _ i(2)] i(1) obtain j where j: "j \<in> set (o_items ord)"
      "i_sellable_unit j = Some k" "stocked db k" "sellable db k (i_sku_code j) True"
    by auto
  have "i_sku_code j = i_sku_code i" using codes i j(1,2) unfolding codes_consistent_def by metis
  with sellable_weaken [OF j(4)] have "sellable db k (i_sku_code i) False" by simp
  moreover have "stocked dbr k" using loop j(3) by (rule reserve_loop_stocked)
  ultimately show ?thesis by blast
qed

text \<open>The state right after a confirmation of an order that held no reservations.\<close>

lemma confirmed_from_scratch:
  assumes inv: "store_inv db" and live: "live_order db oid = Some ord"
    and none: "order_reservations db oid = []" and codes: "codes_consistent ord"
    and run: "confirm_order oid usr db = Inr (r, db1)"
  obtains c where "live_order db1 oid = Some (with_status ord CONFIRMED usr)" and "positive_reservations db1"
    and "\<And>v. v \<in> set (order_reservations db1 oid) \<Longrightarrow> stocked db1 (v_sku v) \<and> sellable db1 (v_sku v) (v_code v) False"
    and "t_bindings db1 = bump_bindings (o_wholesaler ord) (o_retailer ord) (o_total ord) (t_bindings db)"
    and "c \<in> set (t_bindings db1)" and "binding_of (o_wholesaler ord) (o_retailer ord) c"
    and "\<And>k. reserved_units db1 k = reserved_units db k + (\<Sum>v\<leftarrow>order_reservations db1 oid. if k = v_sku v then v_quantity v else 0)"
proof -
  note p = store_inv_parts [OF inv live]
  from p(1) run obtain ord0 actor locked dbr d2 where live0: "live_order db oid = Some ord0"
    and lock: "prelock_stocks (sort_key (the \<circ> i_sellable_unit) (o_items ord0)) True db = Inr locked"
    and ids: "\<forall>i \<in> set (o_items ord0). i_sellable_unit i \<noteq> None"
    and res: "reserve_inventory ord0 locked db = Inr dbr" and step: "stock_step db dbr"
    and b: "\<exists>b \<in> set (t_bindings db). binding_of (o_wholesaler ord0) (o_retailer ord0) b \<and> b_status b = Binding_Active"
    and d2: "d2 = put_order (with_status ord0 CONFIRMED usr) dbr"
    and db1: "db1 = d2\<lparr>t_drawn := Suc (t_drawn d2),
             t_holds := t_holds db @ [fresh_hold ord0 actor (t_uuids db (t_drawn d2))],
             t_bindings := bump_bindings (o_wholesaler ord0) (o_retailer ord0) (o_total ord0) (t_bindings db)\<rparr>"
    by (rule confirm_order_effect)
  have same: "ord0 = ord" using live live0 by simp
  note lock = lock [unfolded same] and ids = ids [unfolded same] and res = res [unfolded same] and b = b [unfolded same]
    and d2 = d2 [unfolded same] and db1 = db1 [unfolded same]
  note t = stock_step_tables [OF step]
  let ?items = "sort_key (the \<circ> i_sellable_unit) (o_items ord)"
  have loop: "foldE (reserve_item ord locked) ?items db = Inr dbr" and pos: "positive_reservations db1"
    using res by (auto simp: reserve_inventory_def result_simps positive_reservations_def db1 d2)
  obtain rids where rids: "length rids = length ?items"
      "t_reservations dbr = t_reservations db @ map2 (item_reservation ord) ?items rids"
    using reserve_loop_effect [OF loop] by auto
  have new: "order_reservations db1 oid = map2 (item_reservation ord) ?items rids"
    using order_reservations_new [OF rids(1), of db ord db1] none rids(2) p(6) by (simp add: db1 d2)
  have live1: "live_order db1 oid = Some (with_status ord CONFIRMED usr)"
    using live_order_put [OF p(2), of "with_status ord CONFIRMED usr" ord db1 oid] live live_order_Some [OF live] t by (simp add: db1 d2)
  have backed: "stocked db1 (v_sku v) \<and> sellable db1 (v_sku v) (v_code v) False"
    if v: "v \<in> set (order_reservations db1 oid)" for v
  proof -
    from new_reservations [OF rids(1)] v new obtain i where i: "i \<in> set (o_items ord)"
        "v_sku v = the (i_sellable_unit i)" "v_code v = i_sku_code i" by auto
    with ids have "i_sellable_unit i = Some (v_sku v)" by auto
    from reserved_backed [OF lock loop codes i(1) this] show ?thesis using t i(3) by (simp add: stocked_iff sellable_def db1 d2)
  qed
  obtain b0 where "b0 \<in> set (t_bindings db)" "binding_of (o_wholesaler ord) (o_retailer ord) b0" using b by blast
  from bump_mem [OF this, of "o_wholesaler ord" "o_retailer ord" "o_total ord"]
  obtain c where c: "c \<in> set (t_bindings db1)" "binding_of (o_wholesaler ord) (o_retailer ord) c" by (auto simp: db1 d2)
  have units: "reserved_units db1 k = reserved_units db k + (\<Sum>v\<leftarrow>order_reservations db1 oid. if k = v_sku v then v_quantity v else 0)" for k
    using reserve_loop_effect [OF loop, of k] new new_reservations_units [OF rids(1)] ids by (auto simp: reserved_units_def db1 d2)
  have bumped: "t_bindings db1 = bump_bindings (o_wholesaler ord) (o_retailer ord) (o_total ord) (t_bindings db)" by (simp add: db1 d2)
  show ?thesis by (rule that) (rule live1 pos backed bumped c units, assumption?)+
qed

text \<open>What cancelling a confirmed order does to the bindings and the order.\<close>

lemma cancel_confirmed_effect:
  assumes inv: "store_inv db" and live: "live_order db oid = Some ord" and status: "o_status ord = CONFIRMED"
    and run: "cancel_order oid usr db = Inr (r, db')"
  shows "t_bindings db' = bump_bindings (o_wholesaler ord) (o_retailer ord) (- o_total ord) (t_bindings db) \<and>
    live_order db' oid = Some (with_status ord CANCELLED usr)"
proof -
  note p = store_inv_parts [OF inv live]
  from p(1,4) run show ?thesis
  proof (rule cancel_order_effect)
    fix ordx dbx h
    assume lx: "live_order db oid = Some ordx" and sx: "stock_step db dbx"
      and db': "db' = put_order (with_status ordx CANCELLED usr) ((put_hold (released_hold h usr) dbx)
       \<lparr>t_bindings := bump_bindings (o_wholesaler ordx) (o_retailer ordx) (- o_total ordx) (t_bindings db)\<rparr>)"
    have ordx: "ordx = ord" using lx live by simp
    have "t_orders db' = row_put o_id (with_status ord CANCELLED usr) (t_orders db)"
      using stock_step_tables(1) [OF sx] by (simp add: db' ordx)
    then show ?thesis
      using live_order_put [OF p(2), of "with_status ord CANCELLED usr" ord db' oid] live live_order_Some [OF live] by (simp add: db' ordx)
  next
    fix ordx dbx
    assume "live_order db oid = Some ordx" and "o_status ordx = DRAFT"
    then show ?thesis using live status by simp
  qed
qed

text \<open>
  C10: A confirmation can always be undone. When a draft without reservations, whose items carry
  one code per sellable unit, has been confirmed, the cancel command succeeds right after; it
  releases exactly the units that were reserved, restores the balance of every binding and leaves
  the order cancelled with no exposure.
\<close>

theorem cancel_undoes_confirm:
  assumes inv: "store_inv db" and live: "live_order db oid = Some ord"
    and none: "order_reservations db oid = []" and codes: "codes_consistent ord"
    and run: "confirm_order oid usr db = Inr (r, db1)"
  shows "\<exists>r' db2. cancel_order oid usr' db1 = Inr (r', db2) \<and> reserved_units db2 = reserved_units db \<and>
    t_bindings db2 = t_bindings db \<and> order_exposure db2 oid = 0 \<and> order_status db2 oid = Some CANCELLED"
proof -
  let ?ord = "with_status ord CONFIRMED usr"
  note p = store_inv_parts [OF inv live]
  have inv1: "store_inv db1" using inv run by (rule confirm_keeps)
  obtain c where live1: "live_order db1 oid = Some ?ord" and pos: "positive_reservations db1"
    and backed: "\<And>v. v \<in> set (order_reservations db1 oid) \<Longrightarrow> stocked db1 (v_sku v) \<and> sellable db1 (v_sku v) (v_code v) False"
    and bumped: "t_bindings db1 = bump_bindings (o_wholesaler ord) (o_retailer ord) (o_total ord) (t_bindings db)"
    and c: "c \<in> set (t_bindings db1)" "binding_of (o_wholesaler ?ord) (o_retailer ?ord) c"
    and units1: "\<And>k. reserved_units db1 k = reserved_units db k + (\<Sum>v\<leftarrow>order_reservations db1 oid. if k = v_sku v then v_quantity v else 0)"
    using confirmed_from_scratch [OF assms] by auto
  have status: "o_status ?ord = CONFIRMED" by simp
  from cancel_confirmed_ok [OF inv1 live1 status pos backed c] obtain r' db2 where
      can: "cancel_order oid usr' db1 = Inr (r', db2)"
    and units: "\<forall>k. reserved_units db2 k = reserved_units db1 k -
       (\<Sum>v\<leftarrow>order_reservations db1 oid. if k = v_sku v then v_quantity v else 0)" by blast
  note fin = cancel_confirmed_effect [OF inv1 live1 status can]
  have cents: "in_cents (b_balance x)" if "x \<in> set (t_bindings db)" "binding_of (o_wholesaler ord) (o_retailer ord) x" for x
    using that inv occupation_cents [of db] by (auto simp: store_inv_def cache_exact_def binding_of_def)
  have "t_bindings db2 = t_bindings db"
    using bump_bump [OF cents, where d = "o_total ord"] p(7) fin by (simp add: bumped order_ok_def)
  moreover have "store_inv db2" using inv1 can by (rule cancel_keeps)
  then have "order_exposure db2 oid = 0"
    using cancelled_exposure [OF store_inv_parts(7) [OF _ fin [THEN conjunct2]]] p(6) by simp
  moreover have "reserved_units db2 = reserved_units db" using units units1 by auto
  ultimately show ?thesis using can fin by (auto simp: order_status_def)
qed

theorem cancel_undoes_confirm_witness:
  "\<exists>r' db2. cancel_order 1 (Some 9) sample_confirmed = Inr (r', db2) \<and> reserved_units db2 = reserved_units sample_store \<and>
    order_status db2 1 = Some CANCELLED"
proof -
  obtain r where run: "confirm_order 1 (Some 9) sample_store = Inr (r, sample_confirmed)"
    using sample_confirm_run by blast
  have live: "live_order sample_store 1 = Some sample_order"
    by (simp add: live_order_def sample_defs)
  have none: "order_reservations sample_store 1 = []" and codes: "codes_consistent sample_order"
    by (simp_all add: order_reservations_def codes_consistent_def sample_defs)
  from cancel_undoes_confirm [OF sample_inv live none codes run] show ?thesis by blast
qed

end
