(* ===== verification/Declarations.thy ===== *)
theory Declarations
  imports Order_Undo "HOL-Library.Sublist"
begin

text \<open>
  Payment declarations: \<open>backend/services/payment_declaration_service.py\<close> and
  \<open>backend/repositories/payment_declaration_repository.py\<close>. A retailer submits a declaration,
  which has no financial effect; a cashier confirms it, which runs the canonical payment path under
  a key derived from the declaration's id, or rejects it.
\<close>

section \<open>The key of a confirmation\<close>

definition declaration_confirmation_key_prefix :: string where
  "declaration_confirmation_key_prefix = ''decl-confirm-''"

definition canonical_key :: "uuid \<Rightarrow> string" where
  "canonical_key did = declaration_confirmation_key_prefix @ uuid_hex did"

definition max_transfer_reference_length :: nat where
  "max_transfer_reference_length = 128"

section \<open>Repository\<close>

definition decl_by_wholesaler_dual_key :: "store \<Rightarrow> uuid \<Rightarrow> uuid \<Rightarrow> declaration_row option" where
  "decl_by_wholesaler_dual_key db did ws = find (\<lambda>d. d_id d = did \<and> d_wholesaler d = ws) (t_declarations db)"

definition decl_by_retailer_dual_key :: "store \<Rightarrow> uuid \<Rightarrow> uuid \<Rightarrow> uuid \<Rightarrow> declaration_row option" where
  "decl_by_retailer_dual_key db did ret ws =
     find (\<lambda>d. d_id d = did \<and> d_retailer d = ret \<and> d_wholesaler d = ws) (t_declarations db)"

definition decl_for_update_by_wholesaler :: "store \<Rightarrow> uuid \<Rightarrow> uuid \<Rightarrow> declaration_row option" where
  "decl_for_update_by_wholesaler db did ws = decl_by_wholesaler_dual_key db did ws"

definition get_by_retailer_idempotency :: "store \<Rightarrow> uuid \<Rightarrow> string \<Rightarrow> declaration_row option" where
  "get_by_retailer_idempotency db ret key = find (\<lambda>d. d_retailer d = ret \<and> d_key d = key) (t_declarations db)"

text \<open>
  The insert, with the column widths, the CHECK constraints on the rounded amount and the method,
  and the unique index on the retailer's key.
\<close>

definition create_declaration ::
  "uuid \<Rightarrow> uuid \<Rightarrow> uuid \<Rightarrow> money \<Rightarrow> pay_method \<Rightarrow> string option \<Rightarrow> string \<Rightarrow> uuid \<Rightarrow> store
   \<Rightarrow> error + (declaration_row \<times> store)" where
  "create_declaration oid ret ws amount method ref key submitted_by db =
     (let (did, db1) = draw_uuid db;
          d = \<lparr>d_id = did, d_order = oid, d_retailer = ret, d_wholesaler = ws, d_amount = num2 amount,
               d_method = method, d_transfer_reference = ref, d_status = Decl_Pending, d_key = key,
               d_submitted_by = submitted_by, d_submitted_at = t_now db, d_confirmed_by = None, d_payment = None,
               d_rejected_by = None, d_reason = None\<rparr>
      in if \<not> fits 128 ref then Inl (DataError ''transfer_reference'')
         else if 64 < length key then Inl (DataError ''idempotency_key'')
         else if method \<notin> {Cash, Transfer} then Inl (IntegrityError ''ck_payment_declarations_method'')
         else if num2 amount \<le> 0 then Inl (IntegrityError ''ck_payment_declarations_amount_positive'')
         else if \<exists>x \<in> set (t_declarations db). d_retailer x = ret \<and> d_key x = key
         then Inl (IntegrityError ''ux_payment_declarations_retailer_idem'')
         else Inr (d, db1\<lparr>t_declarations := t_declarations db1 @ [d]\<rparr>))"

text \<open>An update of the pending rows with the two keys; it must hit exactly one row.\<close>

definition update_pending ::
  "uuid \<Rightarrow> uuid \<Rightarrow> (declaration_row \<Rightarrow> declaration_row) \<Rightarrow> string \<Rightarrow> store \<Rightarrow> error + store" where
  "update_pending did ws upd message db =
     (let hit = (\<lambda>d. d_id d = did \<and> d_wholesaler d = ws \<and> d_status d = Decl_Pending)
      in if length (filter hit (t_declarations db)) \<noteq> 1 then Inl (RuntimeError message)
         else Inr (db\<lparr>t_declarations := map (\<lambda>d. if hit d then upd d else d) (t_declarations db)\<rparr>))"

definition mark_confirmed :: "uuid \<Rightarrow> uuid \<Rightarrow> uuid \<Rightarrow> uuid \<Rightarrow> store \<Rightarrow> error + store" where
  "mark_confirmed did ws confirmed_by pid =
     update_pending did ws (\<lambda>d. d\<lparr>d_status := Decl_Confirmed, d_confirmed_by := Some confirmed_by, d_payment := Some pid\<rparr>)
       ''mark_confirmed: expected exactly 1 row updated''"

definition mark_rejected :: "uuid \<Rightarrow> uuid \<Rightarrow> uuid \<Rightarrow> string \<Rightarrow> store \<Rightarrow> error + store" where
  "mark_rejected did ws rejected_by reason db =
     (if 256 < length reason then Inl (DataError ''reason'')
      else update_pending did ws
        (\<lambda>d. d\<lparr>d_status := Decl_Rejected, d_rejected_by := Some rejected_by, d_reason := Some reason\<rparr>)
        ''mark_rejected: expected exactly 1 row updated'' db)"

text \<open>The joined columns of the detail and list reads: the order's status and the payment's receipt.\<close>

type_synonym declaration_detail = "declaration_row \<times> order_state option \<times> string option"

definition declaration_detail :: "store \<Rightarrow> declaration_row \<Rightarrow> declaration_detail" where
  "declaration_detail db d =
     (d, map_option o_status (row_find o_id (d_order d) (t_orders db)),
      (case d_payment d of None \<Rightarrow> None
       | Some pid \<Rightarrow> (case row_find p_id pid (t_payments db) of None \<Rightarrow> None | Some p \<Rightarrow> p_receipt p)))"

definition get_detail_by_wholesaler :: "store \<Rightarrow> uuid \<Rightarrow> uuid \<Rightarrow> declaration_detail option" where
  "get_detail_by_wholesaler db did ws = map_option (declaration_detail db) (decl_by_wholesaler_dual_key db did ws)"

definition get_detail_by_retailer :: "store \<Rightarrow> uuid \<Rightarrow> uuid \<Rightarrow> uuid \<Rightarrow> declaration_detail option" where
  "get_detail_by_retailer db did ret ws = map_option (declaration_detail db) (decl_by_retailer_dual_key db did ret ws)"

definition declaration_page ::
  "store \<Rightarrow> (declaration_row \<Rightarrow> bool) \<Rightarrow> nat \<Rightarrow> nat \<Rightarrow> declaration_detail list \<times> nat" where
  "declaration_page db P page per_page =
     (let hits = filter P (t_declarations db);
          newest_first = rev (sort_key (\<lambda>d. (d_submitted_at d, d_id d)) hits)
      in (map (declaration_detail db) (take per_page (drop ((page - 1) * per_page) newest_first)), length hits))"

definition list_by_retailer ::
  "store \<Rightarrow> uuid \<Rightarrow> uuid \<Rightarrow> nat \<Rightarrow> nat \<Rightarrow> declaration_status option \<Rightarrow> declaration_detail list \<times> nat" where
  "list_by_retailer db ret ws page per_page status =
     declaration_page db (\<lambda>d. d_retailer d = ret \<and> d_wholesaler d = ws \<and>
       (case status of None \<Rightarrow> True | Some st \<Rightarrow> d_status d = st)) page per_page"

definition list_by_wholesaler ::
  "store \<Rightarrow> uuid \<Rightarrow> nat \<Rightarrow> nat \<Rightarrow> declaration_status option \<Rightarrow> uuid option \<Rightarrow> declaration_detail list \<times> nat" where
  "list_by_wholesaler db ws page per_page status ret =
     declaration_page db (\<lambda>d. d_wholesaler d = ws \<and>
       (case status of None \<Rightarrow> True | Some st \<Rightarrow> d_status d = st) \<and>
       (case ret of None \<Rightarrow> True | Some r \<Rightarrow> d_retailer d = r)) page per_page"

section \<open>Submission\<close>

definition get_order_for_declaration :: "store \<Rightarrow> id_text \<Rightarrow> uuid \<Rightarrow> uuid \<Rightarrow> order_row option" where
  "get_order_for_declaration db order_id ret ws =
     (case parse_uuid order_id of
        None \<Rightarrow> None
      | Some oid \<Rightarrow> find (\<lambda>ord. o_id ord = oid \<and> \<not> o_deleted ord \<and> o_retailer ord = ret \<and> o_wholesaler ord = ws)
          (t_orders db))"

definition same_declaration_request :: "declaration_row \<Rightarrow> uuid \<Rightarrow> money \<Rightarrow> pay_method \<Rightarrow> string option \<Rightarrow> bool" where
  "same_declaration_request d oid amount method ref \<longleftrightarrow>
     d_order d = oid \<and> d_amount d = amount \<and> d_method d = method \<and>
     blank_to_none (d_transfer_reference d) = blank_to_none ref"

definition declared_amount_ok :: "decimal option \<Rightarrow> error + money" where
  "declared_amount_ok amount =
     (case amount of
        Some (Finite q) \<Rightarrow> if q \<le> 0 then Inl (Http 400 INVALID_DECLARED_AMOUNT) else Inr q
      | _ \<Rightarrow> Inl (Http 400 INVALID_DECLARED_AMOUNT))"

definition normalized_reference :: "pay_method \<Rightarrow> string option \<Rightarrow> error + string option" where
  "normalized_reference method ref =
     (let normalized = map_option strip ref in
      if method = Transfer then
        (case blank_to_none normalized of
           None \<Rightarrow> Inl (Http 400 DECLARATION_TRANSFER_REFERENCE_REQUIRED)
         | Some r \<Rightarrow> if max_transfer_reference_length < length r
                    then Inl (Http 400 DECLARATION_TRANSFER_REFERENCE_TOO_LONG) else Inr (Some r))
      else Inr None)"

text \<open>\<open>race\<close> is what other transactions commit between the key lookup and the insert.\<close>

definition submit_declaration ::
  "(store \<Rightarrow> store) \<Rightarrow> id_text \<Rightarrow> uuid \<Rightarrow> uuid \<Rightarrow> uuid \<Rightarrow> decimal option \<Rightarrow> pay_method \<Rightarrow> string option \<Rightarrow> string \<Rightarrow> store
   \<Rightarrow> error + ((declaration_row \<times> bool) \<times> store)" where
  "submit_declaration race order_id ret ws submitted_by amount method ref key db =
     bindE (declared_amount_ok amount) (\<lambda>q.
     bindE (ensure (method \<in> {Cash, Transfer}) (Http 400 DECLARATION_METHOD_INVALID)) (\<lambda>_.
     bindE (normalized_reference method ref) (\<lambda>reference.
     case get_order_for_declaration db order_id ret ws of
       None \<Rightarrow> Inl (Http 404 ORDER_NOT_FOUND)
     | Some ord \<Rightarrow>
         (case get_by_retailer_idempotency db ret key of
            Some d \<Rightarrow> if same_declaration_request d (o_id ord) q method reference then Inr ((d, True), db)
                      else Inl (Http 409 DECLARATION_IDEMPOTENCY_KEY_CONFLICT)
          | None \<Rightarrow>
              bindE (create_declaration (o_id ord) ret ws q method reference key submitted_by (race db))
                (\<lambda>(d, db'). Inr ((d, False), db'))))))"

section \<open>Confirmation and rejection\<close>

definition resolve_confirmed_replay :: "declaration_row \<Rightarrow> order_row \<Rightarrow> store \<Rightarrow> error + payment_result" where
  "resolve_confirmed_replay d ord db =
     (case d_payment d of
        None \<Rightarrow> Inl (Http 409 DECLARATION_CONFIRMATION_KEY_CONFLICT)
      | Some pid \<Rightarrow>
          (case get_by_id db pid of
             None \<Rightarrow> Inl (Http 409 DECLARATION_CONFIRMATION_KEY_CONFLICT)
           | Some p \<Rightarrow>
               bindE (ensure (d_order d = o_id ord \<and> o_wholesaler ord = d_wholesaler d \<and> o_retailer ord = d_retailer d
                   \<and> p_order p = d_order d \<and> p_retailer p = d_retailer d \<and> p_key p = Some (canonical_key (d_id d))
                   \<and> p_amount p = d_amount d \<and> p_method p = d_method d
                   \<and> blank_to_none (p_transaction p) = blank_to_none (d_transfer_reference d)
                   \<and> is_valid_receipt_number (p_receipt p))
                 (Http 409 DECLARATION_CONFIRMATION_KEY_CONFLICT)) (\<lambda>_.
               Inr \<lparr>pr_order = ord, pr_payment = p, pr_replayed = True, pr_state = o_status ord\<rparr>)))"

definition verify_binding_exists :: "store \<Rightarrow> uuid \<Rightarrow> uuid \<Rightarrow> error + unit" where
  "verify_binding_exists db ws ret =
     (case find (\<lambda>b. b_wholesaler b = ws \<and> b_retailer b = ret \<and> \<not> b_deleted b) (t_bindings db) of
        None \<Rightarrow> Inl (Http 404 DECLARATION_NOT_FOUND)
      | Some b \<Rightarrow> ensure (b_status b = Binding_Active) (Http 404 DECLARATION_NOT_FOUND))"

definition verify_locked_attribution :: "declaration_row \<Rightarrow> order_row \<Rightarrow> error + unit" where
  "verify_locked_attribution d ord =
     ensure (d_order d = o_id ord \<and> d_retailer d = o_retailer ord) (Http 404 DECLARATION_NOT_FOUND)"

definition confirm_declaration ::
  "(store \<Rightarrow> store) \<Rightarrow> uuid \<Rightarrow> uuid \<Rightarrow> uuid \<Rightarrow> store
   \<Rightarrow> error + ((declaration_row option \<times> payment_result) \<times> store)" where
  "confirm_declaration race did ws confirmed_by db =
     (case decl_by_wholesaler_dual_key db did ws of
        None \<Rightarrow> Inl (Http 404 DECLARATION_NOT_FOUND)
      | Some located \<Rightarrow>
        (case live_order db (d_order located) of
           None \<Rightarrow> Inl (Http 404 DECLARATION_NOT_FOUND)
         | Some ord \<Rightarrow>
           if o_wholesaler ord \<noteq> ws then Inl (Http 404 DECLARATION_NOT_FOUND)
           else (case decl_for_update_by_wholesaler db did ws of
             None \<Rightarrow> Inl (Http 404 DECLARATION_NOT_FOUND)
           | Some d \<Rightarrow>
               if d_status d = Decl_Confirmed
               then bindE (resolve_confirmed_replay d ord db) (\<lambda>pr. Inr ((Some d, pr), db))
               else if d_status d = Decl_Rejected then Inl (Http 409 DECLARATION_NOT_PENDING)
               else
                 bindE (verify_binding_exists db ws (o_retailer ord)) (\<lambda>_.
                 bindE (verify_locked_attribution d ord) (\<lambda>_.
                 bindE (confirm_payment_for_locked_order race ord (Finite (d_amount d)) (d_method d)
                          (blank_to_none (d_transfer_reference d)) (canonical_key did) (Some confirmed_by)
                          True True db) (\<lambda>(pr, db1).
                 bindE (mark_confirmed did ws confirmed_by (p_id (pr_payment pr)) db1) (\<lambda>db2.
                 Inr ((decl_by_wholesaler_dual_key db2 did ws, pr), db2))))))))"

definition reject_declaration ::
  "uuid \<Rightarrow> uuid \<Rightarrow> uuid \<Rightarrow> string \<Rightarrow> store \<Rightarrow> error + (declaration_row option \<times> store)" where
  "reject_declaration did ws rejected_by reason db =
     (case decl_for_update_by_wholesaler db did ws of
        None \<Rightarrow> Inl (Http 404 DECLARATION_NOT_FOUND)
      | Some d \<Rightarrow>
          if d_status d \<noteq> Decl_Pending then Inl (Http 409 DECLARATION_NOT_PENDING)
          else bindE (mark_rejected did ws rejected_by reason db) (\<lambda>db'.
            Inr (decl_by_wholesaler_dual_key db' did ws, db')))"

section \<open>Submission has no financial effect\<close>

lemma create_declaration_Inr:
  "create_declaration oid ret ws q method ref key usr db = Inr (d, db') \<longleftrightarrow>
     d = \<lparr>d_id = t_uuids db (t_drawn db), d_order = oid, d_retailer = ret, d_wholesaler = ws, d_amount = num2 q,
          d_method = method, d_transfer_reference = ref, d_status = Decl_Pending, d_key = key, d_submitted_by = usr,
          d_submitted_at = t_now db, d_confirmed_by = None, d_payment = None, d_rejected_by = None, d_reason = None\<rparr> \<and>
     db' = db\<lparr>t_drawn := Suc (t_drawn db), t_declarations := t_declarations db @ [d]\<rparr> \<and>
     fits 128 ref \<and> length key \<le> 64 \<and> method \<in> {Cash, Transfer} \<and> 0 < num2 q \<and>
     get_by_retailer_idempotency db ret key = None"
  by (auto simp: create_declaration_def draw_uuid_def Let_def get_by_retailer_idempotency_def find_None_iff
      split: if_splits)

lemma declared_amount_ok_Inr: "declared_amount_ok a = Inr q \<longleftrightarrow> a = Some (Finite q) \<and> 0 < q"
  by (auto simp: declared_amount_ok_def split: option.splits decimal.splits)

lemma submit_declaration_cases:
  assumes "submit_declaration no_race order_id ret ws usr amount method ref key db = Inr ((d, rep), db')"
  obtains (replay) "rep" "db' = db" "get_by_retailer_idempotency db ret key = Some d"
  | (created) ord q r where "\<not> rep" "get_order_for_declaration db order_id ret ws = Some ord"
      "amount = Some (Finite q)" "0 < q" "normalized_reference method ref = Inr r"
      "get_by_retailer_idempotency db ret key = None"
      "create_declaration (o_id ord) ret ws q method r key usr db = Inr (d, db')"
proof -
  from assms obtain q r ord where q: "amount = Some (Finite q)" "0 < q" and r: "normalized_reference method ref = Inr r"
    and ord: "get_order_for_declaration db order_id ret ws = Some ord"
    and rest: "(case get_by_retailer_idempotency db ret key of
            Some d \<Rightarrow> if same_declaration_request d (o_id ord) q method r then Inr ((d, True), db)
                      else Inl (Http 409 DECLARATION_IDEMPOTENCY_KEY_CONFLICT)
          | None \<Rightarrow>
              bindE (create_declaration (o_id ord) ret ws q method r key usr db)
                (\<lambda>(d, db'). Inr ((d, False), db'))) = Inr ((d, rep), db')"
    unfolding submit_declaration_def no_race_def bindE_Inr declared_amount_ok_Inr by (auto split: option.splits)
  show thesis
  proof (cases "get_by_retailer_idempotency db ret key")
    case None
    then show thesis using rest q r ord by (auto simp: bindE_Inr intro: created)
  next
    case (Some x)
    then show thesis using rest by (auto split: if_splits intro: replay)
  qed
qed

text \<open>The tables a declaration does not touch are the ones the credit contract speaks of.\<close>

lemma store_inv_declared:
  "store_inv db \<Longrightarrow> store_inv (db\<lparr>t_drawn := t_drawn db + n, t_declarations := ds\<rparr>)"
proof -
  assume inv: "store_inv db"
  let ?db = "db\<lparr>t_drawn := t_drawn db + n, t_declarations := ds\<rparr>"
  have acc: "accounted ?db"
  proof -
    have "t_uuids db ` {..<t_drawn db} \<subseteq> t_uuids db ` {..<t_drawn db + n}" by (intro image_mono) auto
    then show ?thesis using inv
      by (auto simp: store_inv_def accounted_def reservation_ids_def reserved_units_def reserved_column_def)
  qed
  have view: "order_view ?db x = order_view db x" for x
    by (rule view_cong) (simp_all add: payment_cores_def)
  have expo: "order_exposure ?db x = order_exposure db x" for x
    by (rule view_exposure [OF view])
  have "occupation ?db ws ret = occupation db ws ret" for ws ret
    unfolding occupation_def using expo by (intro arg_cong [where f = sum_list] map_cong) auto
  then show "store_inv ?db" using inv acc view_order_ok [OF view]
    by (simp add: store_inv_def store_keys_def cache_exact_def)
qed

record declaration_request =
  r_order :: id_text
  r_retailer :: uuid
  r_wholesaler :: uuid
  r_user :: uuid
  r_amount :: "decimal option"
  r_method :: pay_method
  r_reference :: "string option"
  r_key :: string

definition submit_request :: "declaration_request \<Rightarrow> store \<Rightarrow> error + (declaration_row \<times> bool \<times> store)" where
  "submit_request r db =
     bindE (submit_declaration no_race (r_order r) (r_retailer r) (r_wholesaler r) (r_user r) (r_amount r) (r_method r)
              (r_reference r) (r_key r) db) (\<lambda>((d, rep), db'). Inr (d, rep, db'))"

interpretation submissions: idempotent_submit submit_request "\<lambda>r. (r_retailer r, r_key r)"
  "\<lambda>db (ret, key). get_by_retailer_idempotency db ret key" d_id "\<lambda>_. True" "\<lambda>_. True"
proof
  fix db r p x rep db'
  assume "(case (r_retailer r, r_key r) of (ret, key) \<Rightarrow> get_by_retailer_idempotency db ret key) = Some p"
    and "submit_request r db = Inr (x, rep, db')"
  then show "x = p \<and> rep \<and> db' = db"
    by (auto simp: submit_request_def result_simps elim!: submit_declaration_cases)
next
  fix db r x rep db'
  assume none: "(case (r_retailer r, r_key r) of (ret, key) \<Rightarrow> get_by_retailer_idempotency db ret key) = None"
    and "submit_request r db = Inr (x, rep, db')"
  then have run: "submit_declaration no_race (r_order r) (r_retailer r) (r_wholesaler r) (r_user r) (r_amount r) (r_method r)
              (r_reference r) (r_key r) db = Inr ((x, rep), db')"
    by (auto simp: submit_request_def result_simps)
  show "\<not> rep \<and> (case (r_retailer r, r_key r) of (ret, key) \<Rightarrow> get_by_retailer_idempotency db' ret key) = Some x"
    using run
  proof (rule submit_declaration_cases)
    fix ord q ref
    assume "\<not> rep" and c: "create_declaration (o_id ord) (r_retailer r) (r_wholesaler r) q (r_method r) ref (r_key r)
        (r_user r) db = Inr (x, db')"
    moreover have "\<forall>d \<in> set (t_declarations db). \<not> (d_retailer d = r_retailer r \<and> d_key d = r_key r)"
      using none by (simp add: get_by_retailer_idempotency_def find_None_iff)
    ultimately show ?thesis
      by (auto simp: create_declaration_Inr get_by_retailer_idempotency_def intro!: find_append_new)
  qed (use none in simp)
next
  fix db r k p x rep db'
  assume "(case k of (ret, key) \<Rightarrow> get_by_retailer_idempotency db ret key) = Some p"
    and "submit_request r db = Inr (x, rep, db')"
  then show "\<exists>p'. (case k of (ret, key) \<Rightarrow> get_by_retailer_idempotency db' ret key) = Some p' \<and> d_id p' = d_id p"
    by (cases k) (auto simp: submit_request_def result_simps create_declaration_Inr get_by_retailer_idempotency_def
        find_append_old elim!: submit_declaration_cases)
qed simp

end
