(* ===== verification/Order_Intake.thy ===== *)
theory Order_Intake
  imports Declarations
begin

text \<open>
  How orders come into being and are read: the request schemas of \<open>backend/schemas/order.py\<close> and
  \<open>backend/schemas/client.py\<close>, the two \<open>create_order\<close> handlers of \<open>backend/api/v1/orders.py\<close> and
  \<open>backend/api/v1/client/orders.py\<close>, which resolve prices on the server, and the reads and the
  insert of \<open>backend/crud/order.py\<close>. The last sections show what a new order looks like and that
  inserting it keeps the credit contract.
\<close>

section \<open>Requests\<close>

record order_line =
  n_unit :: "uuid option"
  n_code :: "string option"
  n_quantity :: int

record order_request =
  n_retailer :: id_text
  n_items :: "order_line list"
  n_notes :: "string option"

definition safe_code_char :: "char \<Rightarrow> bool" where
  "safe_code_char c \<longleftrightarrow> (let n = (of_char c :: nat) in
     97 \<le> n \<and> n \<le> 122 \<or> 65 \<le> n \<and> n \<le> 90 \<or> 48 \<le> n \<and> n \<le> 57 \<or> n = 45 \<or> n = 95)"

text \<open>\<open>re.match\<close> against \<open>^[a-zA-Z0-9\-_]+$\<close>, where \<open>$\<close> also matches before a final line feed.\<close>

definition safe_code :: "string \<Rightarrow> bool" where
  "safe_code s = (let t = (if s \<noteq> [] \<and> last s = CHR 0x0A then butlast s else s) in t \<noteq> [] \<and> list_all safe_code_char t)"

text \<open>Wholesaler line items: bounds, safe code, a selector. The id is a parsed UUID already.\<close>

definition wholesaler_line_ok :: "order_line \<Rightarrow> bool" where
  "wholesaler_line_ok l \<longleftrightarrow> 1 \<le> n_quantity l \<and> n_quantity l \<le> 10000 \<and>
     (case n_code l of None \<Rightarrow> n_unit l \<noteq> None | Some c \<Rightarrow> 1 \<le> length c \<and> length c \<le> 64 \<and> safe_code c)"

text \<open>The HTML filter: no angle brackets and no \<open>script\<close> in any case.\<close>

definition lower_char :: "char \<Rightarrow> char" where
  "lower_char c = (let n = (of_char c :: nat) in if 65 \<le> n \<and> n \<le> 90 then char_of (n + 32) else c)"

definition no_html_tags :: "string \<Rightarrow> bool" where
  "no_html_tags s \<longleftrightarrow> CHR ''<'' \<notin> set s \<and> CHR ''>'' \<notin> set s \<and> \<not> sublist ''script'' (map lower_char s)"

definition wholesaler_request_ok :: "order_request \<Rightarrow> bool" where
  "wholesaler_request_ok r \<longleftrightarrow> 1 \<le> length (n_items r) \<and> length (n_items r) \<le> 100 \<and> list_all wholesaler_line_ok (n_items r) \<and>
     (case n_notes r of None \<Rightarrow> True | Some s \<Rightarrow> length s \<le> 1000 \<and> no_html_tags s)"

text \<open>A client line item: no upper bounds, and an empty code counts as no selector.\<close>

definition client_line_ok :: "order_line \<Rightarrow> bool" where
  "client_line_ok l \<longleftrightarrow> 0 < n_quantity l \<and> (n_unit l \<noteq> None \<or> blank_to_none (n_code l) \<noteq> None)"

section \<open>Prices resolved on the server\<close>

record sell_row =
  w_sku :: uuid
  w_code :: string
  w_name :: string
  w_unit :: string
  w_active :: bool
  w_on_hand :: money
  w_price :: "money option"

text \<open>
  One row of the join of SKUs, catalogue products, stock and the retailer's prices. Ids, the SKU of a
  stock row and the retailer and SKU of a price are unique, so the joins have at most one partner.
\<close>

definition sell_row_of :: "store \<Rightarrow> uuid \<Rightarrow> sku_row \<Rightarrow> sell_row option" where
  "sell_row_of db ret k =
     (case find (\<lambda>c. c_id c = k_catalog k \<and> \<not> c_deleted c) (t_catalog db) of
        None \<Rightarrow> None
      | Some c \<Rightarrow> Some \<lparr>w_sku = k_id k, w_code = k_code k, w_name = c_name c, w_unit = k_unit k,
          w_active = (k_active k \<and> c_active c),
          w_on_hand = (case find (\<lambda>s. s_sku s = k_id k \<and> \<not> s_deleted s) (t_stocks db) of None \<Rightarrow> 0 | Some s \<Rightarrow> s_on_hand s),
          w_price = map_option x_price (find (\<lambda>x. x_sku x = k_id k \<and> x_retailer x = ret \<and> \<not> x_deleted x) (t_prices db))\<rparr>)"

definition sell_rows :: "store \<Rightarrow> uuid \<Rightarrow> order_line list \<Rightarrow> sell_row list" where
  "sell_rows db ret items =
     List.map_filter (sell_row_of db ret)
       (filter (\<lambda>k. \<not> k_deleted k \<and> (Some (k_code k) \<in> (\<lambda>l. blank_to_none (n_code l)) ` set items \<or> Some (k_id k) \<in> n_unit ` set items)) (t_skus db))"

datatype line_error = Selector_Mismatch | Product_Not_Found | Product_Unavailable | Line_Insufficient_Stock
  | No_Price_Configured | Invalid_Price

record resolved_line =
  y_sku :: uuid
  y_name :: string
  y_code :: string
  y_unit :: string
  y_quantity :: int
  y_price :: money

definition resolve_line :: "sell_row list \<Rightarrow> order_line \<Rightarrow> line_error + resolved_line" where
  "resolve_line rows l =
     (let by_id = (case n_unit l of None \<Rightarrow> None | Some u \<Rightarrow> find (\<lambda>w. w_sku w = u) rows);
          by_code = (case blank_to_none (n_code l) of None \<Rightarrow> None | Some c \<Rightarrow> find (\<lambda>w. w_code w = c) rows)
      in if n_unit l \<noteq> None \<and> blank_to_none (n_code l) \<noteq> None \<and>
            (by_id = None \<or> by_code = None \<or> map_option w_sku by_id \<noteq> map_option w_sku by_code)
         then Inl Selector_Mismatch
         else case (if by_id \<noteq> None then by_id else by_code) of
             None \<Rightarrow> Inl Product_Not_Found
           | Some w \<Rightarrow>
               if \<not> w_active w then Inl Product_Unavailable
               else if w_on_hand w < of_int (n_quantity l) then Inl Line_Insufficient_Stock
               else (case w_price w of
                   None \<Rightarrow> Inl No_Price_Configured
                 | Some x \<Rightarrow> if x \<le> 0 then Inl Invalid_Price
                     else Inr \<lparr>y_sku = w_sku w, y_name = w_name w, y_code = w_code w, y_unit = w_unit w,
                               y_quantity = n_quantity l, y_price = x\<rparr>))"

text \<open>Every line is looked at; the errors and the resolved lines are collected separately.\<close>

fun resolve_lines :: "sell_row list \<Rightarrow> order_line list \<Rightarrow> line_error list \<times> resolved_line list" where
  "resolve_lines rows [] = ([], [])"
| "resolve_lines rows (l # ls) =
     (let (errors, lines) = resolve_lines rows ls in
      case resolve_line rows l of Inl e \<Rightarrow> (e # errors, lines) | Inr y \<Rightarrow> (errors, y # lines))"

section \<open>The insert\<close>

definition line_subtotal :: "resolved_line \<Rightarrow> money" where
  "line_subtotal y = of_int (y_quantity y) * y_price y"

text \<open>\<open>NUMERIC(12, 2)\<close> holds ten digits before the point.\<close>

definition numeric12_fits :: "money \<Rightarrow> bool" where
  "numeric12_fits x \<longleftrightarrow> \<bar>num2 x\<bar> < 10 ^ 10"

fun new_items :: "resolved_line list \<Rightarrow> store \<Rightarrow> item_row list \<times> store" where
  "new_items [] db = ([], db)"
| "new_items (y # ys) db =
     (let (iid, db1) = draw_uuid db; (rows, db2) = new_items ys db1 in
      (\<lparr>i_id = iid, i_sellable_unit = Some (y_sku y), i_identity = Stable, i_product_name = y_name y,
        i_sku_code = y_code y, i_unit_snapshot = Some (y_unit y), i_quantity = y_quantity y,
        i_unit_price = num2 (y_price y), i_subtotal = num2 (line_subtotal y)\<rparr> # rows, db2))"

definition crud_create_order ::
  "id_text \<Rightarrow> id_text \<Rightarrow> resolved_line list \<Rightarrow> string option \<Rightarrow> id_text option \<Rightarrow> store \<Rightarrow> error + (order_row \<times> store)" where
  "crud_create_order ws ret lines notes created_by db =
     (case (parse_uuid ws, parse_uuid ret) of
        (Some w, Some r) \<Rightarrow>
          (let total = (\<Sum>y\<leftarrow>lines. line_subtotal y);
               (oid, db1) = draw_uuid db;
               (rows, db2) = new_items lines db1;
               ord = \<lparr>o_id = oid, o_wholesaler = w, o_retailer = r, o_status = DRAFT, o_total = num2 total,
                      o_notes = notes, o_items = rows, o_deleted = False,
                      o_created_by = (case created_by of None \<Rightarrow> None | Some u \<Rightarrow> parse_uuid u), o_updated_by = None\<rparr>
           in if numeric12_fits total \<and> list_all (\<lambda>y. numeric12_fits (line_subtotal y) \<and> numeric12_fits (y_price y)) lines
              then Inr (ord, db2\<lparr>t_orders := t_orders db2 @ [ord]\<rparr>)
              else Inl (DataError ''numeric field overflow''))
      | _ \<Rightarrow> Inl (ValueError ''badly formed hexadecimal UUID string''))"

section \<open>The handlers\<close>

text \<open>The wholesaler's route. The binding lookup does not ask whether the binding is deleted.\<close>

definition create_order :: "uuid \<Rightarrow> id_text option \<Rightarrow> order_request \<Rightarrow> store \<Rightarrow> error + (order_row \<times> store)" where
  "create_order tenant user req db =
     bindE (ensure (wholesaler_request_ok req) (ValueError ''request validation'')) (\<lambda>_.
     case parse_uuid (n_retailer req) of
       None \<Rightarrow> Inl (DataError ''retailer_id'')
     | Some ret \<Rightarrow>
         bindE (ensure (\<exists>b \<in> set (t_bindings db). b_wholesaler b = tenant \<and> b_retailer b = ret \<and> b_status b = Binding_Active)
                  (Http 400 RETAILER_NOT_BOUND)) (\<lambda>_.
         (let (errors, lines) = resolve_lines (sell_rows db ret (n_items req)) (n_items req) in
          if errors \<noteq> [] then Inl (Http 400 ORDER_VALIDATION_FAILED)
          else crud_create_order (str_uuid tenant) (n_retailer req) lines (n_notes req) user db)))"

text \<open>The retailer's route, with the retailer of the caller's identity.\<close>

definition client_create_order ::
  "uuid \<Rightarrow> uuid \<Rightarrow> id_text option \<Rightarrow> order_line list \<Rightarrow> string option \<Rightarrow> store \<Rightarrow> error + (order_row \<times> store)" where
  "client_create_order tenant ret user items notes db =
     bindE (ensure (items \<noteq> [] \<and> list_all client_line_ok items) (ValueError ''request validation'')) (\<lambda>_.
     (let (errors, lines) = resolve_lines (sell_rows db ret items) items in
      if errors \<noteq> [] then Inl (Http 400 ORDER_VALIDATION_FAILED)
      else crud_create_order (str_uuid tenant) (str_uuid ret) lines notes user db))"

section \<open>Reads\<close>

definition get_order_by_id :: "store \<Rightarrow> id_text \<Rightarrow> order_row option" where
  "get_order_by_id db order_id = (case parse_uuid order_id of None \<Rightarrow> None | Some oid \<Rightarrow> live_order db oid)"

definition get_order_for_wholesaler :: "store \<Rightarrow> id_text \<Rightarrow> id_text \<Rightarrow> order_row option" where
  "get_order_for_wholesaler db order_id ws =
     (case (parse_uuid order_id, parse_uuid ws) of
        (Some oid, Some w) \<Rightarrow> find (\<lambda>ord. o_id ord = oid \<and> o_wholesaler ord = w \<and> \<not> o_deleted ord) (t_orders db)
      | _ \<Rightarrow> None)"

definition get_order_for_retailer :: "store \<Rightarrow> id_text \<Rightarrow> id_text \<Rightarrow> id_text \<Rightarrow> order_row option" where
  "get_order_for_retailer db order_id ws ret =
     (case (parse_uuid order_id, parse_uuid ws, parse_uuid ret) of
        (Some oid, Some w, Some r) \<Rightarrow>
          find (\<lambda>ord. o_id ord = oid \<and> o_wholesaler ord = w \<and> o_retailer ord = r \<and> \<not> o_deleted ord) (t_orders db)
      | _ \<Rightarrow> None)"

text \<open>
  A page of orders, newest first: rows are kept in insertion order, which \<open>created_at\<close> follows. A
  filter that is absent or not a UUID does not restrict the wholesaler's list.
\<close>

definition order_page :: "store \<Rightarrow> (order_row \<Rightarrow> bool) \<Rightarrow> nat \<Rightarrow> nat \<Rightarrow> order_row list \<times> nat" where
  "order_page db P page per_page =
     (let hits = filter (\<lambda>ord. \<not> o_deleted ord \<and> P ord) (t_orders db)
      in (take per_page (drop ((page - 1) * per_page) (rev hits)), length hits))"

definition filter_uuid :: "id_text option \<Rightarrow> uuid \<Rightarrow> bool" where
  "filter_uuid f u = (case f of None \<Rightarrow> True | Some t \<Rightarrow> (case parse_uuid t of None \<Rightarrow> True | Some v \<Rightarrow> u = v))"

definition get_orders_paginated ::
  "store \<Rightarrow> nat \<Rightarrow> nat \<Rightarrow> id_text option \<Rightarrow> order_state option \<Rightarrow> id_text option \<Rightarrow> order_row list \<times> nat" where
  "get_orders_paginated db page per_page ws status ret =
     order_page db (\<lambda>ord. filter_uuid ws (o_wholesaler ord) \<and> (case status of None \<Rightarrow> True | Some st \<Rightarrow> o_status ord = st) \<and>
       filter_uuid ret (o_retailer ord)) page per_page"

definition get_orders_for_retailer ::
  "store \<Rightarrow> id_text \<Rightarrow> id_text \<Rightarrow> nat \<Rightarrow> nat \<Rightarrow> order_state option \<Rightarrow> order_row list \<times> nat" where
  "get_orders_for_retailer db ws ret page per_page status =
     (case (parse_uuid ws, parse_uuid ret) of
        (Some w, Some r) \<Rightarrow>
          order_page db (\<lambda>ord. o_wholesaler ord = w \<and> o_retailer ord = r \<and>
            (case status of None \<Rightarrow> True | Some st \<Rightarrow> o_status ord = st)) page per_page
      | _ \<Rightarrow> ([], 0))"

section \<open>What a new order is\<close>

definition item_of :: "resolved_line \<Rightarrow> item_row \<Rightarrow> bool" where
  "item_of y i \<longleftrightarrow> i_sellable_unit i = Some (y_sku y) \<and> i_identity i = Stable \<and> i_sku_code i = y_code y \<and>
     i_quantity i = y_quantity y \<and> i_unit_price i = num2 (y_price y) \<and> i_subtotal i = num2 (line_subtotal y)"

lemma new_items_run:
  "new_items ys db = (rows, db') \<Longrightarrow> db' = db\<lparr>t_drawn := t_drawn db + length ys\<rparr> \<and> list_all2 item_of ys rows \<and>
     map i_id rows = map (t_uuids db) [t_drawn db ..< t_drawn db + length ys]"
proof (induction ys arbitrary: db rows db')
  case Nil
  then show ?case by auto
next
  case (Cons y ys)
  obtain rest db2 where rest: "new_items ys (db\<lparr>t_drawn := Suc (t_drawn db)\<rparr>) = (rest, db2)" by fastforce
  from Cons.prems rest Cons.IH [OF rest] show ?case
    by (auto simp: draw_uuid_def item_of_def upt_rec [of "t_drawn db"] simp del: upt_Suc)
qed

lemma crud_create_order_Inr:
  assumes "crud_create_order ws ret lines notes user db = Inr (ord, db')"
  obtains w r where "parse_uuid ws = Some w" "parse_uuid ret = Some r"
    "db' = db\<lparr>t_drawn := t_drawn db + Suc (length lines), t_orders := t_orders db @ [ord]\<rparr>"
    "o_id ord = t_uuids db (t_drawn db)" "o_wholesaler ord = w" "o_retailer ord = r" "o_status ord = DRAFT"
    "o_total ord = num2 (\<Sum>y\<leftarrow>lines. line_subtotal y)" "\<not> o_deleted ord" "o_notes ord = notes"
    "list_all2 item_of lines (o_items ord)"
proof -
  obtain rows db2 where items: "new_items lines (db\<lparr>t_drawn := Suc (t_drawn db)\<rparr>) = (rows, db2)" by fastforce
  note n = new_items_run [OF items]
  from assms items show thesis
    by (intro that [of "the (parse_uuid ws)" "the (parse_uuid ret)"])
      (use n in \<open>auto simp: crud_create_order_def draw_uuid_def Let_def split: option.splits if_splits\<close>)
qed

lemma resolve_lines_all:
  "resolve_lines rows ls = ([], ys) \<Longrightarrow> list_all2 (\<lambda>l y. resolve_line rows l = Inr y) ls ys"
  by (induction ls arbitrary: ys) (auto simp: Let_def split: prod.splits sum.splits)

lemma resolve_line_Inr:
  assumes "resolve_line rows l = Inr y"
  obtains w where "w \<in> set rows" "w_active w" "of_int (n_quantity l) \<le> w_on_hand w" "w_price w = Some (y_price y)"
    "0 < y_price y" "y_sku y = w_sku w" "y_code y = w_code w" "y_quantity y = n_quantity l"
    "n_unit l = None \<or> n_unit l = Some (w_sku w)" "blank_to_none (n_code l) = None \<or> (\<exists>v \<in> set rows. w_sku v = w_sku w \<and> blank_to_none (n_code l) = Some (w_code v))"
proof -
  define by_id where "by_id = (case n_unit l of None \<Rightarrow> None | Some u \<Rightarrow> find (\<lambda>w. w_sku w = u) rows)"
  define by_code where "by_code = (case blank_to_none (n_code l) of None \<Rightarrow> None | Some c \<Rightarrow> find (\<lambda>w. w_code w = c) rows)"
  let ?row = "if by_id \<noteq> None then by_id else by_code"
  from assms have agree: "n_unit l = None \<or> blank_to_none (n_code l) = None \<or>
      by_id \<noteq> None \<and> by_code \<noteq> None \<and> map_option w_sku by_id = map_option w_sku by_code"
    unfolding resolve_line_def by_id_def [symmetric] by_code_def [symmetric] Let_def by (auto split: if_splits)
  from assms obtain w where w: "?row = Some w" "w_active w" "of_int (n_quantity l) \<le> w_on_hand w"
      "w_price w = Some (y_price y)" "0 < y_price y" "y_sku y = w_sku w" "y_code y = w_code w" "y_quantity y = n_quantity l"
    unfolding resolve_line_def by_id_def [symmetric] by_code_def [symmetric] Let_def
    by (auto simp: not_less not_le split: if_splits option.splits)
  have id: "w' \<in> set rows \<and> n_unit l = Some (w_sku w')" if "by_id = Some w'" for w'
    using that by (auto simp: by_id_def find_Some_iff split: option.splits)
  have code: "w' \<in> set rows \<and> blank_to_none (n_code l) = Some (w_code w')" if "by_code = Some w'" for w'
    using that by (auto simp: by_code_def find_Some_iff split: option.splits)
  show thesis
  proof (rule that [OF _ w(2-8)])
    show "w \<in> set rows" using w(1) id code by (auto split: if_splits)
    show "n_unit l = None \<or> n_unit l = Some (w_sku w)"
    proof (cases by_id)
      case None
      with w(1) have "blank_to_none (n_code l) \<noteq> None" by (auto simp: by_code_def split: option.splits)
      with None agree show ?thesis by auto
    qed (use w(1) id in auto)
    show "blank_to_none (n_code l) = None \<or> (\<exists>v \<in> set rows. w_sku v = w_sku w \<and> blank_to_none (n_code l) = Some (w_code v))"
    proof (cases by_code)
      case None
      then have "n_unit l \<noteq> None" using w(1) by (auto simp: by_id_def split: if_splits option.splits)
      with None agree show ?thesis by auto
    next
      case (Some v)
      then show ?thesis using agree w(1) id code [OF Some] by (cases by_id) auto
    qed
  qed
qed

text \<open>The offer behind a sell row: a live, active SKU of a live catalogue product, at the retailer's live price.\<close>

definition offered :: "store \<Rightarrow> uuid \<Rightarrow> uuid \<Rightarrow> money \<Rightarrow> bool" where
  "offered db ret sku price \<longleftrightarrow>
     (\<exists>k \<in> set (t_skus db). k_id k = sku \<and> \<not> k_deleted k \<and> k_active k \<and>
        (\<exists>c \<in> set (t_catalog db). c_id c = k_catalog k \<and> c_active c \<and> \<not> c_deleted c)) \<and>
     (\<exists>x \<in> set (t_prices db). x_sku x = sku \<and> x_retailer x = ret \<and> \<not> x_deleted x \<and> x_price x = price)"

lemma sell_rows_offered:
  assumes "w \<in> set (sell_rows db ret items)" and "w_active w" and "w_price w = Some x"
  shows "offered db ret (w_sku w) x"
proof -
  from assms(1) obtain k where k: "k \<in> set (t_skus db)" "\<not> k_deleted k" "sell_row_of db ret k = Some w"
    by (auto simp: sell_rows_def List.map_filter_def)
  then obtain c where c: "find (\<lambda>c. c_id c = k_catalog k \<and> \<not> c_deleted c) (t_catalog db) = Some c"
    by (auto simp: sell_row_of_def split: option.splits)
  then have c': "c \<in> set (t_catalog db)" "c_id c = k_catalog k" "\<not> c_deleted c" by (auto simp: find_Some_iff)
  from k(3) c have w: "w_sku w = k_id k" "w_active w \<longleftrightarrow> k_active k \<and> c_active c"
      "w_price w = map_option x_price (find (\<lambda>x. x_sku x = k_id k \<and> x_retailer x = ret \<and> \<not> x_deleted x) (t_prices db))"
    by (auto simp: sell_row_of_def)
  have "map_option x_price (find (\<lambda>x. x_sku x = k_id k \<and> x_retailer x = ret \<and> \<not> x_deleted x) (t_prices db)) = Some x"
    using w(3) assms(3) by (rule trans [OF sym])
  then obtain p where "find (\<lambda>x. x_sku x = k_id k \<and> x_retailer x = ret \<and> \<not> x_deleted x) (t_prices db) = Some p"
      "x_price p = x" unfolding map_option_eq_Some by blast
  then have "p \<in> set (t_prices db) \<and> x_sku p = k_id k \<and> x_retailer p = ret \<and> \<not> x_deleted p \<and> x_price p = x"
    by (auto simp: find_Some_iff)
  with k c' w assms(2) show ?thesis by (auto simp: offered_def)
qed

section \<open>A new order keeps the contract\<close>

text \<open>Ids not drawn yet are in no row, and holds and payments refer to stored orders.\<close>

definition references :: "store \<Rightarrow> bool" where
  "references db \<longleftrightarrow> inj (t_uuids db) \<and> (\<forall>n \<ge> t_drawn db. t_uuids db n \<notin> o_id ` set (t_orders db)) \<and>
     h_order ` set (t_holds db) \<subseteq> o_id ` set (t_orders db) \<and> p_order ` set (t_payments db) \<subseteq> o_id ` set (t_orders db)"

lemma unreferenced_view:
  assumes "references db" and "oid \<notin> o_id ` set (t_orders db)"
  shows "order_view db oid = ([], 0, 0)"
proof -
  have "\<forall>h \<in> set (t_holds db). h_order h \<noteq> oid" "\<forall>p \<in> set (t_payments db). p_order p \<noteq> oid"
    using assms by (auto simp: references_def)
  then show ?thesis
    by (auto simp: order_view_def order_holds_def get_order_paid_total_def credit_total_def get_order_method_total_def
        order_payments_def filter_empty_conv)
qed

lemma store_inv_new_order:
  assumes inv: "store_inv db" and refs: "references db" and fresh: "o_id ord = t_uuids db (t_drawn db)"
    and ord: "o_status ord = DRAFT" "in_cents (o_total ord)"
  shows "store_inv (db\<lparr>t_drawn := t_drawn db + Suc n, t_orders := t_orders db @ [ord]\<rparr>)"
proof -
  let ?db = "db\<lparr>t_drawn := t_drawn db + Suc n, t_orders := t_orders db @ [ord]\<rparr>"
  have new: "o_id ord \<notin> o_id ` set (t_orders db)" using refs fresh by (simp add: references_def)
  have view: "order_view ?db x = order_view db x" for x
    by (rule view_cong) (simp_all add: payment_cores_def)
  have none: "order_view db (o_id ord) = ([], 0, 0)" using refs new by (rule unreferenced_view)
  have ok: "order_ok ?db ord"
    using none ord unfolding view_order_ok [OF view] by (simp add: order_ok_def order_view_def)
  have expo: "order_exposure ?db x = order_exposure db x" for x by (rule view_exposure [OF view])
  have zero: "order_exposure db (o_id ord) = 0"
    using none by (simp add: order_exposure_def credit_owed_def order_view_def)
  have occ: "occupation ?db ws ret = occupation db ws ret" for ws ret
  proof -
    have "occupation ?db ws ret = (\<Sum>x\<leftarrow>t_orders db @ [ord]. if o_wholesaler x = ws \<and> o_retailer x = ret then order_exposure db (o_id x) else 0)"
      unfolding occupation_def using expo by (intro arg_cong [where f = sum_list] map_cong) auto
    then show ?thesis by (simp add: occupation_def zero)
  qed
  have acc: "accounted ?db"
  proof -
    have "t_uuids db ` {..<t_drawn db} \<subseteq> t_uuids db ` {..<t_drawn db + Suc n}" by (intro image_mono) auto
    then show ?thesis using inv
      by (auto simp: store_inv_def accounted_def reservation_ids_def reserved_units_def reserved_column_def)
  qed
  have "store_keys ?db" using inv new by (simp add: store_inv_def store_keys_def)
  moreover have "cache_exact ?db" using inv occ by (simp add: store_inv_def cache_exact_def)
  ultimately show ?thesis using inv acc ok view_order_ok [OF view] by (simp add: store_inv_def)
qed

section \<open>Properties\<close>

definition priced_item :: "store \<Rightarrow> uuid \<Rightarrow> order_line \<Rightarrow> item_row \<Rightarrow> bool" where
  "priced_item db ret l i \<longleftrightarrow> (\<exists>sku price. offered db ret sku price \<and> i_sellable_unit i = Some sku \<and>
     (n_unit l = None \<or> n_unit l = Some sku) \<and> i_quantity i = n_quantity l \<and> i_unit_price i = num2 price \<and>
     i_subtotal i = num2 (of_int (n_quantity l) * price))"

lemma resolved_priced:
  assumes "resolve_lines (sell_rows db ret items) ls = ([], ys)" and "list_all2 item_of ys rows"
  shows "list_all2 (priced_item db ret) ls rows"
proof -
  have lines: "list_all2 (\<lambda>l y. resolve_line (sell_rows db ret items) l = Inr y) ls ys"
    using assms(1) by (rule resolve_lines_all)
  have priced: "priced_item db ret l i"
    if "resolve_line (sell_rows db ret items) l = Inr y" and "item_of y i" for l y i
    using that(1)
  proof (rule resolve_line_Inr)
    fix w
    assume w: "w \<in> set (sell_rows db ret items)" "w_active w" "w_price w = Some (y_price y)"
      and y: "y_sku y = w_sku w" "y_quantity y = n_quantity l" "n_unit l = None \<or> n_unit l = Some (w_sku w)"
    from sell_rows_offered [OF w] have "offered db ret (y_sku y) (y_price y)" using y by simp
    with that(2) y show ?thesis by (auto simp: priced_item_def item_of_def line_subtotal_def)
  qed
  show ?thesis by (rule list_all2_trans [OF priced lines assms(2)])
qed

lemma subtotals_add_up:
  assumes "list_all2 item_of ys rows" and "\<forall>y \<in> set ys. in_cents (y_price y)"
  shows "num2 (\<Sum>y\<leftarrow>ys. line_subtotal y) = (\<Sum>i\<leftarrow>rows. i_subtotal i)"
  using assms
proof -
  have cents: "in_cents (line_subtotal y)" if "y \<in> set ys" for y
    using assms(2) that unfolding line_subtotal_def in_cents_iff by (metis of_int_mult times_divide_eq_right)
  have "map i_subtotal rows = map (\<lambda>y. num2 (line_subtotal y)) ys"
    using assms(1) by (induction rule: list_all2_induct) (simp_all add: item_of_def)
  also have "\<dots> = map line_subtotal ys" using num2_cents [OF cents] by simp
  finally have "(\<Sum>i\<leftarrow>rows. i_subtotal i) = (\<Sum>y\<leftarrow>ys. line_subtotal y)" by simp
  moreover have "in_cents (\<Sum>y\<leftarrow>ys. line_subtotal y)" by (rule in_cents_sum_list) (rule cents)
  ultimately show ?thesis by (simp add: num2_cents)
qed

text \<open>
  C11: A successful order creation inserts one live draft for the bound retailer and writes nothing
  else. Each requested line, in order, becomes an item of the stable identity of a live, active SKU,
  at the price the supplier has set for this retailer, with the requested quantity; the request
  cannot influence the price. The total is the sum of the subtotals, and the new order keeps the
  credit contract.
\<close>

theorem create_order_prices_on_server:
  assumes "create_order tenant user req db = Inr (ord, db')"
    and "\<forall>x \<in> set (t_prices db). in_cents (x_price x)"
    and "store_inv db" and "references db"
  shows "\<exists>ret n. parse_uuid (n_retailer req) = Some ret \<and>
      (\<exists>b \<in> set (t_bindings db). b_wholesaler b = tenant \<and> b_retailer b = ret \<and> b_status b = Binding_Active) \<and>
      db' = db\<lparr>t_drawn := t_drawn db + n, t_orders := t_orders db @ [ord]\<rparr> \<and>
      o_status ord = DRAFT \<and> \<not> o_deleted ord \<and> o_wholesaler ord = tenant \<and> o_retailer ord = ret \<and>
      list_all2 (priced_item db ret) (n_items req) (o_items ord) \<and>
      o_total ord = (\<Sum>i\<leftarrow>o_items ord. i_subtotal i) \<and> store_inv db'"
proof -
  from assms(1) obtain ret ys where ret: "parse_uuid (n_retailer req) = Some ret"
    and bound: "\<exists>b \<in> set (t_bindings db). b_wholesaler b = tenant \<and> b_retailer b = ret \<and> b_status b = Binding_Active"
    and lines: "resolve_lines (sell_rows db ret (n_items req)) (n_items req) = ([], ys)"
    and run: "crud_create_order (str_uuid tenant) (n_retailer req) ys (n_notes req) user db = Inr (ord, db')"
    by (auto simp: create_order_def result_simps Let_def split: option.splits prod.splits if_splits)
  from run obtain db'': "db' = db\<lparr>t_drawn := t_drawn db + Suc (length ys), t_orders := t_orders db @ [ord]\<rparr>"
    and ord: "o_id ord = t_uuids db (t_drawn db)" "o_wholesaler ord = tenant" "o_retailer ord = ret" "o_status ord = DRAFT"
      "o_total ord = num2 (\<Sum>y\<leftarrow>ys. line_subtotal y)" "\<not> o_deleted ord" "list_all2 item_of ys (o_items ord)"
    by (rule crud_create_order_Inr) (use ret in auto)
  have "in_cents (y_price y)" if "y \<in> set ys" for y
  proof -
    from resolve_lines_all [OF lines] that obtain l where "resolve_line (sell_rows db ret (n_items req)) l = Inr y"
      by (auto simp: list_all2_conv_all_nth in_set_conv_nth)
    then obtain w where w: "w \<in> set (sell_rows db ret (n_items req))" "w_active w" "w_price w = Some (y_price y)"
      by (rule resolve_line_Inr)
    from sell_rows_offered [OF w] assms(2) show ?thesis by (auto simp: offered_def)
  qed
  then have total: "o_total ord = (\<Sum>i\<leftarrow>o_items ord. i_subtotal i)"
    using subtotals_add_up ord(5,7) by metis
  have "store_inv db'" unfolding db'' using assms(3,4) ord by (intro store_inv_new_order) simp_all
  with ret bound db'' ord resolved_priced [OF lines ord(7)] total show ?thesis by blast
qed

definition sample_order_request :: order_request where
  "sample_order_request = \<lparr>n_retailer = Canonical 8,
     n_items = [\<lparr>n_unit = None, n_code = Some ''MZ-1'', n_quantity = 3\<rparr>], n_notes = None\<rparr>"

definition sample_new_item :: item_row where
  "sample_new_item = \<lparr>i_id = 1001, i_sellable_unit = Some 21, i_identity = Stable, i_product_name = ''maize'',
     i_sku_code = ''MZ-1'', i_unit_snapshot = Some ''bag'', i_quantity = 3, i_unit_price = 50, i_subtotal = 150\<rparr>"

definition sample_new_order :: order_row where
  "sample_new_order = \<lparr>o_id = 1000, o_wholesaler = 7, o_retailer = 8, o_status = DRAFT, o_total = 150, o_notes = None,
     o_items = [sample_new_item], o_deleted = False, o_created_by = Some 9, o_updated_by = None\<rparr>"

lemmas intake_defs = create_order_def wholesaler_request_ok_def wholesaler_line_ok_def safe_code_def safe_code_char_def
  sell_rows_def sell_row_of_def List.map_filter_def resolve_line_def blank_to_none_def crud_create_order_def draw_uuid_def
  line_subtotal_def numeric12_fits_def str_uuid_def sample_order_request_def sample_new_order_def sample_new_item_def

lemma sample_create:
  "create_order 7 (Some (Canonical 9)) sample_order_request sample_store =
     Inr (sample_new_order, sample_store\<lparr>t_drawn := 2, t_orders := [sample_order, sample_new_order]\<rparr>)"
  by (simp add: intake_defs sample_store_def Let_def)

lemma sample_references: "references sample_store"
  by (auto simp: references_def sample_defs inj_def)

theorem create_order_prices_on_server_witness:
  "o_total sample_new_order = (\<Sum>i\<leftarrow>o_items sample_new_order. i_subtotal i) \<and>
   store_inv (sample_store\<lparr>t_drawn := 2, t_orders := [sample_order, sample_new_order]\<rparr>)"
proof -
  have "\<forall>x \<in> set (t_prices sample_store). in_cents (x_price x)" by (simp add: sample_defs)
  from create_order_prices_on_server [OF sample_create this sample_inv sample_references] show ?thesis by blast
qed

end
