(* ===== verification/Declaration_Contract.thy ===== *)
theory Declaration_Contract
  imports Order_Intake
begin

text \<open>
  What declarations promise. A submission has no financial effect and its key submits once; the
  canonical keys of two declarations differ, and only the confirmation of a declaration may use its
  canonical key, so a payment under it exists exactly when the declaration is confirmed by it. The
  invariant \<open>declarations_ok\<close> states this, and the theory shows that submitting, confirming and
  rejecting keep it.
\<close>

section \<open>Canonical keys\<close>

lemma canonical_key_inj: "canonical_key did = canonical_key did' \<Longrightarrow> did = did'"
  by (simp add: canonical_key_def uuid_hex_inj)

lemma canonical_key_reserved [simp]: "prefix declaration_confirmation_key_prefix (canonical_key did)"
  by (simp add: canonical_key_def)

section \<open>The invariant\<close>

text \<open>The payment that confirms a declaration.\<close>

definition confirms :: "declaration_row \<Rightarrow> payment_row \<Rightarrow> bool" where
  "confirms d p \<longleftrightarrow> d_payment d = Some (p_id p) \<and> p_key p = Some (canonical_key (d_id d)) \<and> p_order p = d_order d \<and>
     p_retailer p = d_retailer d \<and> p_amount p = d_amount d \<and> p_method p = d_method d \<and>
     blank_to_none (p_transaction p) = blank_to_none (d_transfer_reference d) \<and> \<not> p_deleted p"

lemma confirms_core [simp]: "confirms d (payment_core p) = confirms d p"
  by (simp add: confirms_def)

definition declaration_shape :: "declaration_row \<Rightarrow> bool" where
  "declaration_shape d \<longleftrightarrow> in_cents (d_amount d) \<and> 0 < d_amount d \<and> d_method d \<in> {Cash, Transfer}"

definition declarations_ok :: "store \<Rightarrow> bool" where
  "declarations_ok db \<longleftrightarrow> inj (t_uuids db) \<and>
     distinct (map d_id (t_declarations db)) \<and> d_id ` set (t_declarations db) \<subseteq> t_uuids db ` {..<t_drawn db} \<and>
     (\<forall>d \<in> set (t_declarations db). declaration_shape d \<and>
        (d_status d = Decl_Confirmed \<longrightarrow> (\<exists>p \<in> set (payment_cores db). confirms d p))) \<and>
     (\<forall>p \<in> set (payment_cores db). \<forall>key. p_key p = Some key \<longrightarrow> prefix declaration_confirmation_key_prefix key \<longrightarrow>
        (\<exists>d \<in> set (t_declarations db). d_status d = Decl_Confirmed \<and> confirms d p))"

lemma declarations_ok_owner:
  "declarations_ok db \<Longrightarrow> p \<in> set (payment_cores db) \<Longrightarrow> p_key p = Some key \<Longrightarrow>
   prefix declaration_confirmation_key_prefix key \<Longrightarrow>
   \<exists>d \<in> set (t_declarations db). d_status d = Decl_Confirmed \<and> confirms d p"
  by (simp add: declarations_ok_def)

lemma declarations_ok_paid:
  "declarations_ok db \<Longrightarrow> d \<in> set (t_declarations db) \<Longrightarrow> d_status d = Decl_Confirmed \<Longrightarrow>
   \<exists>p \<in> set (payment_cores db). confirms d p"
  by (simp add: declarations_ok_def)

text \<open>Keys that only declarations use.\<close>

definition public_key :: "string \<Rightarrow> bool" where
  "public_key key \<longleftrightarrow> \<not> prefix declaration_confirmation_key_prefix key"

text \<open>A step that adds payments under public keys only and leaves the declarations.\<close>

definition declaration_frame :: "store \<Rightarrow> store \<Rightarrow> bool" where
  "declaration_frame db db' \<longleftrightarrow> t_declarations db' = t_declarations db \<and> t_uuids db' = t_uuids db \<and> t_drawn db \<le> t_drawn db' \<and>
     (\<exists>new. payment_cores db' = payment_cores db @ new \<and>
        (\<forall>p \<in> set new. \<forall>key. p_key p = Some key \<longrightarrow> public_key key))"

lemma declaration_frame_same:
  "t_declarations db' = t_declarations db \<Longrightarrow> t_uuids db' = t_uuids db \<Longrightarrow> t_drawn db \<le> t_drawn db' \<Longrightarrow>
   payment_cores db' = payment_cores db \<Longrightarrow> declaration_frame db db'"
  by (simp add: declaration_frame_def)

lemma declarations_ok_frame:
  assumes "declarations_ok db" and "declaration_frame db db'"
  shows "declarations_ok db'"
proof -
  obtain new where f: "t_declarations db' = t_declarations db" "t_uuids db' = t_uuids db" "t_drawn db \<le> t_drawn db'"
      "payment_cores db' = payment_cores db @ new" "\<forall>p \<in> set new. \<forall>key. p_key p = Some key \<longrightarrow> public_key key"
    using assms(2) by (auto simp: declaration_frame_def)
  have "t_uuids db ` {..<t_drawn db} \<subseteq> t_uuids db ` {..<t_drawn db'}" using f(3) by (intro image_mono) auto
  moreover have ok: "d_id ` set (t_declarations db) \<subseteq> t_uuids db ` {..<t_drawn db}"
    using assms(1) by (simp add: declarations_ok_def)
  ultimately have ids: "d_id ` set (t_declarations db) \<subseteq> t_uuids db ` {..<t_drawn db'}" by (rule subset_trans [rotated])
  have old: "\<forall>p \<in> set (payment_cores db'). \<forall>key. p_key p = Some key \<longrightarrow> prefix declaration_confirmation_key_prefix key \<longrightarrow>
        (\<exists>d \<in> set (t_declarations db). d_status d = Decl_Confirmed \<and> confirms d p)"
    using assms(1) f(5) unfolding declarations_ok_def f(4) public_key_def by (simp add: ball_Un)
  have "\<forall>d \<in> set (t_declarations db). declaration_shape d \<and>
        (d_status d = Decl_Confirmed \<longrightarrow> (\<exists>p \<in> set (payment_cores db'). confirms d p))"
    using assms(1) unfolding declarations_ok_def f(4) by (simp add: bex_Un)
  with assms(1) ids old f(1,2) show ?thesis by (simp add: declarations_ok_def)
qed

section \<open>Submitting\<close>

lemma decl_found:
  "decl_by_wholesaler_dual_key db did ws = Some d \<Longrightarrow> d \<in> set (t_declarations db) \<and> d_id d = did \<and> d_wholesaler d = ws"
  by (auto simp: decl_by_wholesaler_dual_key_def find_Some_iff)

lemma declarations_ok_submitted:
  assumes ok: "declarations_ok db"
    and c: "create_declaration oid ret ws q method ref key usr db = Inr (d, db')"
  shows "declarations_ok db'"
proof -
  note c' = c [unfolded create_declaration_Inr]
  have d: "d_id d = t_uuids db (t_drawn db)" "d_status d = Decl_Pending" "declaration_shape d"
    and db': "db' = db\<lparr>t_drawn := Suc (t_drawn db), t_declarations := t_declarations db @ [d]\<rparr>"
    using c' by (auto simp: declaration_shape_def)
  have new: "d_id d \<notin> d_id ` set (t_declarations db)"
  proof
    assume "d_id d \<in> d_id ` set (t_declarations db)"
    then have "t_uuids db (t_drawn db) \<in> t_uuids db ` {..<t_drawn db}"
      using ok d(1) unfolding declarations_ok_def by auto
    then show False using ok by (simp add: declarations_ok_def inj_image_mem_iff)
  qed
  have ids: "d_id ` set (t_declarations db') \<subseteq> t_uuids db ` {..<Suc (t_drawn db)}"
    using ok d(1) unfolding declarations_ok_def db' by (auto simp: lessThan_Suc)
  have cores: "payment_cores db' = payment_cores db" by (simp add: payment_cores_def db')
  show ?thesis
    using ok new ids d cores unfolding declarations_ok_def db'
    by (auto simp: payment_cores_def)
qed

lemma submission_keeps:
  assumes "declarations_ok db" and "submit_declaration no_race order_id ret ws usr amount method ref key db = Inr ((d, rep), db')"
  shows "declarations_ok db'"
  using assms(2)
proof (rule submit_declaration_cases)
  fix ord q r
  assume "create_declaration (o_id ord) ret ws q method r key usr db = Inr (d, db')"
  then show ?thesis by (rule declarations_ok_submitted [OF assms(1)])
qed (use assms(1) in simp)

section \<open>Rejecting and confirming\<close>

definition with_decl :: "(declaration_row \<Rightarrow> declaration_row) \<Rightarrow> uuid \<Rightarrow> store \<Rightarrow> store" where
  "with_decl upd did db = db\<lparr>t_declarations := map (\<lambda>d. if d_id d = did then upd d else d) (t_declarations db)\<rparr>"

lemma update_pending_run:
  assumes ids: "distinct (map d_id (t_declarations db))" and d: "decl_by_wholesaler_dual_key db did ws = Some d"
  shows "update_pending did ws upd msg db =
    (if d_status d = Decl_Pending then Inr (with_decl upd did db) else Inl (RuntimeError msg))"
proof -
  note f = decl_found [OF d]
  have same: "x = d" if "x \<in> set (t_declarations db)" "d_id x = did" for x
    using that f ids by (auto simp: distinct_map dest: inj_onD)
  have "filter (\<lambda>d. d_id d = did \<and> d_wholesaler d = ws \<and> d_status d = Decl_Pending) rows =
      (if d \<in> set rows \<and> d_status d = Decl_Pending then [d] else [])"
    if "set rows \<subseteq> set (t_declarations db)" "distinct (map d_id rows)" for rows
    using that
  proof (induction rows)
    case (Cons x xs)
    show ?case
    proof (cases "x = d")
      case True
      with Cons f show ?thesis by (auto simp: rev_image_eqI)
    next
      case False
      with Cons same have "d_id x \<noteq> did" by auto
      with Cons False show ?thesis by auto
    qed
  qed simp
  then have hits: "filter (\<lambda>d. d_id d = did \<and> d_wholesaler d = ws \<and> d_status d = Decl_Pending) (t_declarations db) =
      (if d_status d = Decl_Pending then [d] else [])" using ids f by auto
  show ?thesis
  proof (cases "d_status d = Decl_Pending")
    case True
    then have "(d_id x = did \<and> d_wholesaler x = ws \<and> d_status x = Decl_Pending) = (d_id x = did)"
      if "x \<in> set (t_declarations db)" for x using that same f by blast
    then show ?thesis using True hits by (simp add: update_pending_def with_decl_def Let_def)
  qed (use hits in \<open>simp add: update_pending_def Let_def\<close>)
qed

text \<open>Deciding a pending declaration, with the payment that confirms it if it is confirmed.\<close>

lemma declarations_ok_decided:
  assumes ok: "declarations_ok db" and d: "d \<in> set (t_declarations db)" "d_id d = did" "d_status d = Decl_Pending"
    and frame: "t_declarations dm = t_declarations db" "t_uuids dm = t_uuids db" "t_drawn db \<le> t_drawn dm"
      "payment_cores dm = payment_cores db @ new"
    and upd: "\<And>x. d_id (upd x) = d_id x" "\<And>x. declaration_shape (upd x) = declaration_shape x"
    and keys: "\<forall>p \<in> set new. \<forall>key. p_key p = Some key \<longrightarrow> public_key key \<or> d_status (upd d) = Decl_Confirmed \<and> confirms (upd d) p"
    and paid: "d_status (upd d) = Decl_Confirmed \<Longrightarrow> \<exists>p \<in> set new. confirms (upd d) p"
  shows "declarations_ok (with_decl upd did dm)"
proof -
  let ?db = "with_decl upd did dm"
  have cores: "payment_cores ?db = payment_cores db @ new" using frame(4) by (simp add: with_decl_def payment_cores_def)
  have rows: "t_declarations ?db = map (\<lambda>x. if d_id x = did then upd x else x) (t_declarations db)"
    by (simp add: with_decl_def frame(1))
  have same: "x = d" if "x \<in> set (t_declarations db)" "d_id x = did" for x
    using that d ok by (auto simp: declarations_ok_def distinct_map dest: inj_onD)
  have mem: "y \<in> set (t_declarations ?db) \<longleftrightarrow> y = upd d \<or> (y \<in> set (t_declarations db) \<and> d_id y \<noteq> did)" for y
  proof
    assume "y \<in> set (t_declarations ?db)"
    then obtain x where x: "x \<in> set (t_declarations db)" "y = (if d_id x = did then upd x else x)"
      unfolding rows set_map by blast
    show "y = upd d \<or> (y \<in> set (t_declarations db) \<and> d_id y \<noteq> did)"
      using x same [OF x(1)] by (cases "d_id x = did") simp_all
  next
    assume "y = upd d \<or> (y \<in> set (t_declarations db) \<and> d_id y \<noteq> did)"
    then obtain x where "x \<in> set (t_declarations db)" "y = (if d_id x = did then upd x else x)"
    proof
      assume "y = upd d"
      with d show thesis by (intro that [of d]) simp_all
    next
      assume "y \<in> set (t_declarations db) \<and> d_id y \<noteq> did"
      then show thesis by (intro that [of y]) simp_all
    qed
    then show "y \<in> set (t_declarations ?db)" unfolding rows set_map by blast
  qed
  have maps: "map d_id (t_declarations ?db) = map d_id (t_declarations db)" unfolding rows using upd(1) by simp
  have set_ids: "d_id ` set (t_declarations ?db) = d_id ` set (t_declarations db)"
    using arg_cong [OF maps, of set] by simp
  have "t_uuids db ` {..<t_drawn db} \<subseteq> t_uuids db ` {..<t_drawn dm}" using frame(3) by (intro image_mono) auto
  moreover have "d_id ` set (t_declarations db) \<subseteq> t_uuids db ` {..<t_drawn db}" using ok by (simp add: declarations_ok_def)
  ultimately have ids: "d_id ` set (t_declarations ?db) \<subseteq> t_uuids db ` {..<t_drawn dm}"
    unfolding set_ids by (rule subset_trans [rotated])
  have each: "\<forall>y \<in> set (t_declarations ?db). declaration_shape y \<and>
      (d_status y = Decl_Confirmed \<longrightarrow> (\<exists>p \<in> set (payment_cores ?db). confirms y p))"
  proof
    fix y assume "y \<in> set (t_declarations ?db)"
    then consider "y = upd d" | "y \<in> set (t_declarations db)" using mem by blast
    then show "declaration_shape y \<and> (d_status y = Decl_Confirmed \<longrightarrow> (\<exists>p \<in> set (payment_cores ?db). confirms y p))"
    proof cases
      case 1
      have "declaration_shape d" using ok d by (simp add: declarations_ok_def)
      with 1 paid show ?thesis unfolding cores by (auto simp: upd(2))
    next
      case 2
      then show ?thesis using ok unfolding cores declarations_ok_def by auto
    qed
  qed
  have owners: "\<forall>p \<in> set (payment_cores ?db). \<forall>key. p_key p = Some key \<longrightarrow> prefix declaration_confirmation_key_prefix key \<longrightarrow>
        (\<exists>x \<in> set (t_declarations ?db). d_status x = Decl_Confirmed \<and> confirms x p)"
  proof (intro ballI allI impI)
    fix p key assume p: "p \<in> set (payment_cores ?db)" and key: "p_key p = Some key" "prefix declaration_confirmation_key_prefix key"
    from p consider "p \<in> set (payment_cores db)" | "p \<in> set new" unfolding cores by auto
    then show "\<exists>x \<in> set (t_declarations ?db). d_status x = Decl_Confirmed \<and> confirms x p"
    proof cases
      case 1
      then obtain x where x: "x \<in> set (t_declarations db)" "d_status x = Decl_Confirmed" "confirms x p"
        using declarations_ok_owner [OF ok _ key] by blast
      then have "d_id x \<noteq> did" using same d(3) by auto
      with x mem show ?thesis by blast
    next
      case 2
      then have "d_status (upd d) = Decl_Confirmed \<and> confirms (upd d) p" using keys key by (auto simp: public_key_def)
      then show ?thesis using mem by blast
    qed
  qed
  have "t_uuids ?db = t_uuids db" "t_drawn ?db = t_drawn dm" by (simp_all add: with_decl_def frame)
  then show ?thesis using ok maps ids each owners by (simp add: declarations_ok_def)
qed

lemma rejection_keeps:
  assumes ok: "declarations_ok db" and run: "reject_declaration did ws usr reason db = Inr (x, db')"
  shows "declarations_ok db'"
proof -
  from run obtain d where d: "decl_by_wholesaler_dual_key db did ws = Some d" "d_status d = Decl_Pending"
    and m: "mark_rejected did ws usr reason db = Inr db'"
    by (auto simp: reject_declaration_def decl_for_update_by_wholesaler_def result_simps split: option.splits if_splits)
  note f = decl_found [OF d(1)]
  have ids: "distinct (map d_id (t_declarations db))" using ok by (simp add: declarations_ok_def)
  from m have "db' = with_decl (\<lambda>d. d\<lparr>d_status := Decl_Rejected, d_rejected_by := Some usr, d_reason := Some reason\<rparr>) did db"
    using d by (auto simp: mark_rejected_def update_pending_run [OF ids d(1)] split: if_splits)
  then show ?thesis
    using declarations_ok_decided [OF ok, where d = d and did = did and dm = db and new = "[]" and
        upd = "\<lambda>d. d\<lparr>d_status := Decl_Rejected, d_rejected_by := Some usr, d_reason := Some reason\<rparr>"] f d(2)
    by (simp add: declaration_shape_def)
qed

lemma get_by_id_Some: "get_by_id db pid = Some p \<Longrightarrow> p \<in> set (t_payments db) \<and> p_id p = pid \<and> \<not> p_deleted p"
  by (auto simp: get_by_id_def find_Some_iff)

lemma confirm_declaration_cases:
  assumes "confirm_declaration race did ws usr db = Inr ((dd, pr), db')"
  obtains (replay) d ord p where "decl_by_wholesaler_dual_key db did ws = Some d" "d_status d = Decl_Confirmed" "db' = db"
      "dd = Some d" "live_order db (d_order d) = Some ord" "get_by_id db (p_id p) = Some p" "confirms d p"
      "pr_payment pr = p" "pr_replayed pr"
  | (paid) d ord dm where "decl_by_wholesaler_dual_key db did ws = Some d" "d_status d = Decl_Pending"
      "live_order db (d_order d) = Some ord" "o_wholesaler ord = ws" "o_retailer ord = d_retailer d"
      "confirm_payment_for_locked_order race ord (Finite (d_amount d)) (d_method d)
         (blank_to_none (d_transfer_reference d)) (canonical_key did) (Some usr) True True db = Inr (pr, dm)"
      "mark_confirmed did ws usr (p_id (pr_payment pr)) dm = Inr db'"
      "dd = decl_by_wholesaler_dual_key db' did ws"
proof -
  from assms obtain d ord where d: "decl_by_wholesaler_dual_key db did ws = Some d"
      and ord: "live_order db (d_order d) = Some ord" "o_wholesaler ord = ws"
    by (auto simp: confirm_declaration_def split: option.splits if_splits)
  note run = assms [unfolded confirm_declaration_def decl_for_update_by_wholesaler_def d option.case ord(1)]
  have oid: "o_id ord = d_order d" using live_order_Some [OF ord(1)] by simp
  show thesis
  proof (cases "d_status d")
    case Decl_Pending
    with run ord(2) have "verify_locked_attribution d ord = Inr ()"
      by (auto simp: result_simps)
    then have "o_retailer ord = d_retailer d" by (simp add: verify_locked_attribution_def result_simps)
    with run ord d Decl_Pending show thesis by (auto simp: result_simps intro: paid [OF d Decl_Pending ord(1)])
  next
    case Decl_Confirmed
    with run ord(2) have res: "resolve_confirmed_replay d ord db = Inr pr" "dd = Some d" "db' = db"
      by (auto simp: result_simps)
    from res(1) obtain pid p where p: "d_payment d = Some pid" "get_by_id db pid = Some p" "pr_payment pr = p" "pr_replayed pr"
      "p_order p = d_order d" "p_retailer p = d_retailer d" "p_key p = Some (canonical_key (d_id d))"
      "p_amount p = d_amount d" "p_method p = d_method d" "blank_to_none (p_transaction p) = blank_to_none (d_transfer_reference d)"
      by (auto simp: resolve_confirmed_replay_def result_simps split: option.splits)
    note g = get_by_id_Some [OF p(2)]
    have "confirms d p" using p g by (simp add: confirms_def)
    with d Decl_Confirmed res ord p g show thesis by (intro replay) auto
  next
    case Decl_Rejected
    then show thesis using run ord(2) by simp
  qed
qed

lemma locked_is_submission:
  assumes "get_by_idempotency_key db key = None" and "live_order db oid = Some ord"
    and "confirm_payment_for_locked_order no_race ord a m txn key usr force alloc db = Inr (pr, db')"
  shows "submit_payment \<lparr>q_order = str_uuid oid, q_amount = a, q_method = m, q_txn = txn, q_key = key, q_user = usr,
     q_force = force, q_alloc = alloc\<rparr> db = Inr (pr_payment pr, pr_replayed pr, db')"
proof -
  from assms(3) obtain q where "a = Finite q" "0 < q"
    by (auto simp: confirm_payment_for_locked_order_def result_simps)
  with assms show ?thesis
    by (simp add: submit_payment_def confirm_payment_def raise_invalid_amount_def get_order_by_id_for_update_def)
qed

lemma locked_payment_frame:
  assumes "distinct (map (\<lambda>b. (b_wholesaler b, b_retailer b)) (t_bindings db))"
    and "confirm_payment_for_locked_order no_race ord a m txn key usr force alloc db = Inr (pr, db')"
  shows "t_declarations db' = t_declarations db \<and> t_uuids db' = t_uuids db \<and> t_drawn db \<le> t_drawn db'"
  by (rule locked_payment_effect [OF assms]) (auto simp: money_step_def)

definition confirmed_by :: "uuid \<Rightarrow> uuid \<Rightarrow> declaration_row \<Rightarrow> declaration_row" where
  "confirmed_by usr pid d = d\<lparr>d_status := Decl_Confirmed, d_confirmed_by := Some usr, d_payment := Some pid\<rparr>"

lemma mark_confirmed_run:
  assumes "distinct (map d_id (t_declarations db))" and "decl_by_wholesaler_dual_key db did ws = Some d"
  shows "mark_confirmed did ws usr pid db = (if d_status d = Decl_Pending then Inr (with_decl (confirmed_by usr pid) did db)
     else Inl (RuntimeError ''mark_confirmed: expected exactly 1 row updated''))"
  unfolding mark_confirmed_def confirmed_by_def using update_pending_run [OF assms] by simp

lemma decl_with_decl:
  assumes "decl_by_wholesaler_dual_key db did ws = Some d" and "\<And>x. d_id (upd x) = d_id x"
    and "\<And>x. d_wholesaler (upd x) = d_wholesaler x"
  shows "decl_by_wholesaler_dual_key (with_decl upd did db) did ws = Some (upd d)"
proof -
  have "find (\<lambda>d. d_id d = did \<and> d_wholesaler d = ws) rows = Some d \<Longrightarrow>
      find (\<lambda>d. d_id d = did \<and> d_wholesaler d = ws) (map (\<lambda>d. if d_id d = did then upd d else d) rows) = Some (upd d)" for rows
    by (induction rows) (auto simp: assms(2,3) split: if_splits)
  with assms(1) show ?thesis by (simp add: decl_by_wholesaler_dual_key_def with_decl_def)
qed

text \<open>The canonical key of a pending declaration is not used yet.\<close>

lemma pending_key_free:
  assumes ok: "declarations_ok db" and d: "decl_by_wholesaler_dual_key db did ws = Some d" "d_status d = Decl_Pending"
  shows "get_by_idempotency_key db (canonical_key did) = None"
proof (rule ccontr)
  note f = decl_found [OF d(1)]
  assume "get_by_idempotency_key db (canonical_key did) \<noteq> None"
  then obtain p where "p \<in> set (t_payments db)" "p_key p = Some (canonical_key did)"
    by (auto simp: get_by_idempotency_key_def find_None_iff simp del: not_None_eq)
  then have "payment_core p \<in> set (payment_cores db)" "p_key (payment_core p) = Some (canonical_key did)"
    by (simp_all add: payment_cores_def)
  from declarations_ok_owner [OF ok this] obtain x where x: "x \<in> set (t_declarations db)" "d_status x = Decl_Confirmed"
      "confirms x p" by auto
  have "canonical_key (d_id x) = canonical_key did"
    using x(3) \<open>p_key p = Some (canonical_key did)\<close> by (simp add: confirms_def)
  then have "d_id x = d_id d" using canonical_key_inj f by metis
  then have "x = d" using ok x(1) f by (auto simp: declarations_ok_def distinct_map dest: inj_onD)
  then show False using x(2) d(2) by simp
qed

lemma confirm_pending_effect:
  assumes pay: "pay_inv db" and ok: "declarations_ok db"
    and d: "decl_by_wholesaler_dual_key db did ws = Some d" "d_status d = Decl_Pending"
    and run: "confirm_declaration no_race did ws usr db = Inr ((dd, pr), db')"
  obtains ord dm where "live_order db (d_order d) = Some ord" "o_wholesaler ord = ws" "o_retailer ord = d_retailer d"
    "confirm_payment_for_locked_order no_race ord (Finite (d_amount d)) (d_method d)
         (blank_to_none (d_transfer_reference d)) (canonical_key did) (Some usr) True True db = Inr (pr, dm)"
    "pay_inv dm" "db' = with_decl (confirmed_by usr (p_id (pr_payment pr))) did dm"
    "dd = Some (confirmed_by usr (p_id (pr_payment pr)) d)"
    "confirms (confirmed_by usr (p_id (pr_payment pr)) d) (pr_payment pr)" "\<not> pr_replayed pr"
    "payment_cores dm = payment_cores db @ [payment_core (pr_payment pr)]"
    "get_by_id db' (p_id (pr_payment pr)) = Some (pr_payment pr)"
    "t_declarations dm = t_declarations db" "t_uuids dm = t_uuids db" "t_drawn db \<le> t_drawn dm"
    "p_receipt (pr_payment pr) = Some (fst (allocate_receipt_number db))"
proof -
  have ids: "distinct (map d_id (t_declarations db))" using ok by (simp add: declarations_ok_def)
  have free: "get_by_idempotency_key db (canonical_key did) = None" using ok d by (rule pending_key_free)
  have cents: "in_cents (d_amount d)" using ok decl_found [OF d(1)] by (auto simp: declarations_ok_def declaration_shape_def)
  show thesis
    using run
  proof (rule confirm_declaration_cases)
    fix d' ord dm
    assume d': "decl_by_wholesaler_dual_key db did ws = Some d'" and live: "live_order db (d_order d') = Some ord"
      and own: "o_wholesaler ord = ws" "o_retailer ord = d_retailer d'"
      and locked: "confirm_payment_for_locked_order no_race ord (Finite (d_amount d')) (d_method d')
         (blank_to_none (d_transfer_reference d')) (canonical_key did) (Some usr) True True db = Inr (pr, dm)"
      and mark: "mark_confirmed did ws usr (p_id (pr_payment pr)) dm = Inr db'"
      and dd: "dd = decl_by_wholesaler_dual_key db' did ws"
    have eq: "d' = d" using d' d(1) by simp
    note live = live [unfolded eq] and own = own [unfolded eq] and locked = locked [unfolded eq]
    have oid: "o_id ord = d_order d" using live_order_Some [OF live] by simp
    note sub = locked_is_submission [OF free live locked]
    have inv: "pay_inv dm" using submit_payment_inv [OF pay _ sub] cents by (simp add: whole_cents_def)
    have "distinct (map (\<lambda>b. (b_wholesaler b, b_retailer b)) (t_bindings db))"
      using pay live store_inv_parts(1) by (auto simp: pay_inv_def)
    from this locked free obtain q rc st p where q: "Finite (d_amount d) = Finite q"
      and p: "p = new_payment (t_uuids db (t_drawn db)) (o_id ord) (o_retailer ord) (blank_to_none (d_transfer_reference d))
          (Some (canonical_key did)) q (d_method d) st (Some usr) rc"
      and cores: "payment_cores dm = payment_cores db @ [payment_core p]"
      and pr: "pr_payment pr = latest_payment_record p dm" "\<not> pr_replayed pr"
      and fresh: "Some (canonical_key did) \<notin> p_key ` set (t_payments db)"
      and drawn: "t_uuids dm = t_uuids db" "t_drawn db < t_drawn dm"
      and rc: "st = Completed \<and> True \<longrightarrow> rc = Some (fst (allocate_receipt_number db))" "True \<longrightarrow> st = Completed"
      by (rule written_payment)
    have "distinct (map p_id (payment_cores dm))" using inv by (simp add: pay_inv_def payment_ids_def cores_ids)
    from written_found [OF cores _ _ fresh this] have found: "get_by_id dm (p_id p) = Some (pr_payment pr)"
      and core: "payment_core (pr_payment pr) = payment_core p" by (simp_all add: p pr)
    have pid: "p_id (pr_payment pr) = p_id p" using core payment_core_simps(1) by metis
    have decls: "t_declarations dm = t_declarations db"
      using locked_payment_frame pay live store_inv_parts(1) locked unfolding pay_inv_def by blast
    have dm: "decl_by_wholesaler_dual_key dm did ws = Some d" using d(1) by (simp add: decl_by_wholesaler_dual_key_def decls)
    have db': "db' = with_decl (confirmed_by usr (p_id (pr_payment pr))) did dm"
      using mark ids d(2) by (simp add: mark_confirmed_run [OF _ dm] decls)
    have dd': "dd = Some (confirmed_by usr (p_id (pr_payment pr)) d)"
      unfolding dd db' using dm by (rule decl_with_decl) (simp_all add: confirmed_by_def)
    have conf: "confirms (confirmed_by usr (p_id (pr_payment pr)) d) p"
      using decl_found [OF d(1)] cents q own oid pid
      by (simp add: confirms_def confirmed_by_def p new_payment_def num2_cents blank_to_none_def)
    then have "confirms (confirmed_by usr (p_id (pr_payment pr)) d) (payment_core p)" by simp
    then have conf': "confirms (confirmed_by usr (p_id (pr_payment pr)) d) (pr_payment pr)"
      unfolding core [symmetric] confirms_core .
    have rcp: "p_receipt (pr_payment pr) = Some (fst (allocate_receipt_number db))"
      using arg_cong [OF core, of p_receipt] rc by (simp add: p new_payment_def)
    have "get_by_id db' (p_id (pr_payment pr)) = Some (pr_payment pr)"
      using found pid by (simp add: db' with_decl_def get_by_id_def)
    then show thesis
      using that live own locked inv db' dd' conf' pr(2) cores core decls drawn rcp by simp
  qed (use d in simp)
qed

lemma pay_inv_declared: "pay_inv db \<Longrightarrow> pay_inv (db\<lparr>t_drawn := t_drawn db + n, t_declarations := ds\<rparr>)"
  unfolding pay_inv_def
proof (intro conjI)
  assume pay: "store_inv db \<and> payment_ids db"
  then show "store_inv (db\<lparr>t_drawn := t_drawn db + n, t_declarations := ds\<rparr>)" by (intro store_inv_declared) simp
  have "t_uuids db ` {..<t_drawn db} \<subseteq> t_uuids db ` {..<t_drawn db + n}" by (intro image_mono) auto
  with pay show "payment_ids (db\<lparr>t_drawn := t_drawn db + n, t_declarations := ds\<rparr>)"
    by (auto simp: payment_ids_def)
qed

lemma pay_inv_with_decl: "pay_inv db \<Longrightarrow> pay_inv (with_decl upd did db)"
  using pay_inv_declared [where n = 0] by (simp add: with_decl_def)

lemma confirmation_keeps:
  assumes pay: "pay_inv db" and ok: "declarations_ok db"
    and run: "confirm_declaration no_race did ws usr db = Inr ((dd, pr), db')"
  shows "pay_inv db' \<and> declarations_ok db'"
  using run
proof (rule confirm_declaration_cases)
  fix d assume d: "decl_by_wholesaler_dual_key db did ws = Some d" "d_status d = Decl_Pending"
  from pay ok d run obtain ord dm where dm: "pay_inv dm" "db' = with_decl (confirmed_by usr (p_id (pr_payment pr))) did dm"
    and conf: "confirms (confirmed_by usr (p_id (pr_payment pr)) d) (pr_payment pr)"
    and cores: "payment_cores dm = payment_cores db @ [payment_core (pr_payment pr)]"
    and frame: "t_declarations dm = t_declarations db" "t_uuids dm = t_uuids db" "t_drawn db \<le> t_drawn dm"
    by (rule confirm_pending_effect)
  note f = decl_found [OF d(1)]
  have "declarations_ok db'"
    unfolding dm(2)
  proof (rule declarations_ok_decided [OF ok _ _ d(2) frame cores])
    show "d \<in> set (t_declarations db)" "d_id d = did" using f by simp_all
  qed (use conf in \<open>simp_all add: confirmed_by_def declaration_shape_def\<close>)
  then show ?thesis using dm by (simp add: pay_inv_with_decl)
qed (use pay ok in simp)

section \<open>Properties\<close>

lemma normalized_reference_Inr:
  assumes "normalized_reference method ref = Inr r"
  shows "method = Transfer \<longleftrightarrow> r \<noteq> None"
proof -
  define n where "n = blank_to_none (map_option strip ref)"
  show ?thesis using assms unfolding normalized_reference_def Let_def n_def [symmetric]
    by (cases n) (auto split: if_splits)
qed

text \<open>The tables of money and goods.\<close>

definition financial_tables :: "store \<Rightarrow> _" where
  "financial_tables db = (t_orders db, t_payments db, t_holds db, t_bindings db, t_ledger db, t_receipts db,
     t_stocks db, t_reservations db, t_movements db)"

text \<open>
  A declaration is not a payment. A successful submission either replays the retailer's stored
  declaration under the key and writes nothing, or appends one pending declaration of the caller's
  own live order, with a positive amount in whole cents, cash or transfer, and a reference exactly
  for a transfer; no order, payment, hold, balance, ledger entry, receipt or stock changes.
\<close>

theorem submission_has_no_financial_effect:
  assumes "submit_declaration no_race order_id ret ws usr amount method ref key db = Inr ((d, rep), db')"
  shows "financial_tables db' = financial_tables db \<and> get_by_retailer_idempotency db' ret key = Some d \<and>
    (if rep then db' = db
     else t_declarations db' = t_declarations db @ [d] \<and> d_status d = Decl_Pending \<and> d_payment d = None \<and>
       declaration_shape d \<and> (d_method d = Transfer \<longleftrightarrow> d_transfer_reference d \<noteq> None) \<and>
       (\<exists>ord \<in> set (t_orders db). o_id ord = d_order d \<and> \<not> o_deleted ord \<and> o_retailer ord = ret \<and> o_wholesaler ord = ws))"
  using assms
proof (rule submit_declaration_cases)
  fix ord q r
  assume "\<not> rep" and ord: "get_order_for_declaration db order_id ret ws = Some ord"
    and r: "normalized_reference method ref = Inr r" and none: "get_by_retailer_idempotency db ret key = None"
    and c: "create_declaration (o_id ord) ret ws q method r key usr db = Inr (d, db')"
  note c' = c [unfolded create_declaration_Inr]
  have "ord \<in> set (t_orders db) \<and> \<not> o_deleted ord \<and> o_retailer ord = ret \<and> o_wholesaler ord = ws"
    using ord by (auto simp: get_order_for_declaration_def find_Some_iff split: option.splits)
  moreover have "method = Transfer \<longleftrightarrow> r \<noteq> None"
    using r by (rule normalized_reference_Inr)
  moreover have "get_by_retailer_idempotency db' ret key = Some d"
  proof -
    have "\<forall>d \<in> set (t_declarations db). \<not> (d_retailer d = ret \<and> d_key d = key)"
      using none by (simp add: get_by_retailer_idempotency_def find_None_iff)
    then show ?thesis using c' by (auto simp: get_by_retailer_idempotency_def intro: find_append_new)
  qed
  ultimately show ?thesis using \<open>\<not> rep\<close> c'
    by (auto simp: financial_tables_def declaration_shape_def)
qed simp

lemma sample_submission:
  "\<exists>d db'. submit_declaration no_race (Canonical 1) 8 7 5 (Some (Finite 60)) Transfer (Some '' TRX-9 '') ''declare-1'' sample_partly
     = Inr ((d, False), db') \<and> d_transfer_reference d = Some ''TRX-9''"
  by (simp add: submit_declaration_def declared_amount_ok_def normalized_reference_def blank_to_none_def strip_def is_space_def
      get_order_for_declaration_def get_by_retailer_idempotency_def create_declaration_def draw_uuid_def no_race_def
      max_transfer_reference_length_def sample_run_defs Let_def)

theorem submission_has_no_financial_effect_witness:
  "\<exists>d db'. financial_tables db' = financial_tables sample_partly \<and> t_declarations db' = [d] \<and>
     d_transfer_reference d = Some ''TRX-9''"
proof -
  obtain d db' where run: "submit_declaration no_race (Canonical 1) 8 7 5 (Some (Finite 60)) Transfer (Some '' TRX-9 '')
      ''declare-1'' sample_partly = Inr ((d, False), db')" and ref: "d_transfer_reference d = Some ''TRX-9''"
    using sample_submission by blast
  have "t_declarations sample_partly = []" by (simp add: sample_run_defs)
  with submission_has_no_financial_effect [OF run] ref show ?thesis by auto
qed

definition exec_submission :: "declaration_request \<Rightarrow> store \<Rightarrow> error + store" where
  "exec_submission r db = bindE (submit_request r db) (\<lambda>(_, _, db'). Inr db')"

lemma exec_submission_eq: "submissions.exec = exec_submission"
  by (simp add: fun_eq_iff submissions.exec_def exec_submission_def)

text \<open>
  A retailer's key submits at most once: after a submission succeeded, any later success of the
  same retailer under the same key, whatever was submitted in between, returns the same declaration
  as a replay and writes nothing.
\<close>

theorem declaration_key_submits_once:
  assumes "submit_request r db = Inr (x, rep, db1)" and "r_retailer r' = r_retailer r" and "r_key r' = r_key r"
    and "submit_request r' (fold (attempt exec_submission) rs db1) = Inr (y, rep', db2)"
  shows "rep' \<and> d_id y = d_id x \<and> db2 = fold (attempt exec_submission) rs db1"
  using submissions.at_most_once [OF TrueI TrueI TrueI _ assms(1), where r' = r' and rs = rs] assms(2-4)
  by (simp add: exec_submission_eq)

theorem declaration_key_submits_once_witness:
  "\<exists>r x db1. submit_request r sample_partly = Inr (x, False, db1) \<and> submit_request r db1 = Inr (x, True, db1)"
proof -
  define r where "r = \<lparr>r_order = Canonical 1, r_retailer = 8, r_wholesaler = 7, r_user = 5, r_amount = Some (Finite 60),
    r_method = Transfer, r_reference = Some '' TRX-9 '', r_key = ''declare-1''\<rparr>"
  obtain d db1 where run: "submit_request r sample_partly = Inr (d, False, db1)"
    and second: "submit_request r db1 = Inr (d, True, db1)"
    by (simp add: r_def submit_request_def submit_declaration_def declared_amount_ok_def normalized_reference_def
        blank_to_none_def strip_def is_space_def get_order_for_declaration_def get_by_retailer_idempotency_def
        create_declaration_def draw_uuid_def no_race_def max_transfer_reference_length_def same_declaration_request_def
        sample_run_defs Let_def)
  from declaration_key_submits_once [OF run refl refl, where rs = "[]"] second run show ?thesis by auto
qed

end
