(* ===== verification/Api_Routes.thy ===== *)
theory Api_Routes
  imports Declaration_Contract
begin

text \<open>
  The HTTP handlers around the services: \<open>backend/api/v1/orders.py\<close>, \<open>backend/api/v1/client/orders.py\<close>,
  \<open>backend/api/v1/declarations.py\<close> and the adjustment of \<open>backend/api/v1/inventory.py\<close>, with the
  checks of their request schemas. A handler that raises changes nothing: the handler or the tenant
  middleware rolls the transaction back. Response bodies are built from the returned rows; only what
  is computed for them is modelled.
\<close>

section \<open>Keys, methods and notes\<close>

definition idempotency_key_min_length :: nat where "idempotency_key_min_length = 8"
definition idempotency_key_max_length :: nat where "idempotency_key_max_length = 64"

definition idempotency_key_allowed_char :: "char \<Rightarrow> bool" where
  "idempotency_key_allowed_char c \<longleftrightarrow> (let n = (of_char c :: nat) in
     97 \<le> n \<and> n \<le> 122 \<or> 65 \<le> n \<and> n \<le> 90 \<or> 48 \<le> n \<and> n \<le> 57 \<or> n = 46 \<or> n = 58 \<or> n = 45 \<or> n = 95)"

definition reserved_idempotency_key_prefix :: string where
  "reserved_idempotency_key_prefix = ''decl-confirm-''"

definition validate_idempotency_key :: "string option \<Rightarrow> error + string" where
  "validate_idempotency_key value =
     (let key = (case value of None \<Rightarrow> [] | Some s \<Rightarrow> strip s) in
      if key = [] then Inl (Http 400 MISSING_IDEMPOTENCY_KEY)
      else if \<not> (idempotency_key_min_length \<le> length key \<and> length key \<le> idempotency_key_max_length)
      then Inl (Http 400 INVALID_IDEMPOTENCY_KEY)
      else if \<exists>c \<in> set key. \<not> idempotency_key_allowed_char c then Inl (Http 400 INVALID_IDEMPOTENCY_KEY)
      else if prefix reserved_idempotency_key_prefix key then Inl (Http 400 RESERVED_IDEMPOTENCY_KEY)
      else Inr key)"

definition validate_declaration_idempotency_key :: "string option \<Rightarrow> error + string" where
  "validate_declaration_idempotency_key value =
     (let key = (case value of None \<Rightarrow> [] | Some s \<Rightarrow> strip s) in
      if key = [] then Inl (Http 400 MISSING_DECLARATION_IDEMPOTENCY_KEY)
      else if \<not> (idempotency_key_min_length \<le> length key \<and> length key \<le> idempotency_key_max_length)
      then Inl (Http 400 INVALID_DECLARATION_IDEMPOTENCY_KEY)
      else if \<exists>c \<in> set key. \<not> idempotency_key_allowed_char c then Inl (Http 400 INVALID_DECLARATION_IDEMPOTENCY_KEY)
      else if prefix reserved_idempotency_key_prefix key then Inl (Http 400 RESERVED_IDEMPOTENCY_KEY)
      else Inr key)"

text \<open>\<open>PayOrderRequest\<close>: optional fields, an amount above zero when present, length bounds.\<close>

record pay_input =
  f_method :: "pay_method option"
  f_amount :: "decimal option"
  f_transaction :: "string option"
  f_notes :: "string option"

definition pay_input_ok :: "pay_input \<Rightarrow> bool" where
  "pay_input_ok f \<longleftrightarrow>
     (case f_method f of None \<Rightarrow> True | Some m \<Rightarrow> m \<in> {Cash, Transfer, Credit}) \<and>
     (case f_amount f of None \<Rightarrow> True | Some a \<Rightarrow> (case a of Finite q \<Rightarrow> 0 < q | _ \<Rightarrow> False)) \<and>
     fits 255 (f_transaction f) \<and> fits 1000 (f_notes f) \<and>
     (case f_notes f of None \<Rightarrow> True | Some s \<Rightarrow> no_html_tags s)"

definition payment_method_value :: "pay_input \<Rightarrow> error + pay_method" where
  "payment_method_value f =
     (case f_method f of
        None \<Rightarrow> Inl (Http 400 PAYMENT_METHOD_REQUIRED)
      | Some m \<Rightarrow> if m \<in> {Cash, Transfer, Credit} then Inr m else Inl (Http 400 INVALID_PAYMENT_METHOD))"

definition validate_payment_notes_unsupported :: "pay_input \<Rightarrow> error + unit" where
  "validate_payment_notes_unsupported f = ensure (f_notes f = None) (Http 400 PAYMENT_NOTES_UNSUPPORTED)"

section \<open>Orders\<close>

definition map_error :: "(error \<Rightarrow> error) \<Rightarrow> error + 'a \<Rightarrow> error + 'a" where
  "map_error f m = (case m of Inl e \<Rightarrow> Inl (f e) | Inr x \<Rightarrow> Inr x)"

lemma map_error_Inr [result_simps]: "map_error f m = Inr x \<longleftrightarrow> m = Inr x"
  by (cases m) (auto simp: map_error_def)

text \<open>The \<open>except\<close> clauses of the handlers.\<close>

fun transition_conflict :: "error \<Rightarrow> error" where
  "transition_conflict (InvalidStateTransition s t) = Http 409 INVALID_STATE_TRANSITION"
| "transition_conflict (OrderInvariantViolation s) = Http 409 INVALID_STATE_TRANSITION"
| "transition_conflict e = e"

fun payment_refusal :: "error \<Rightarrow> error" where
  "payment_refusal (Mutation status code) = Http status code"
| "payment_refusal e = transition_conflict e"

fun client_cancel_refusal :: "error \<Rightarrow> error" where
  "client_cancel_refusal (InvalidStateTransition s t) = Http 409 CANCEL_NOT_ALLOWED"
| "client_cancel_refusal (OrderInvariantViolation s) = Http 409 CANCEL_NOT_ALLOWED"
| "client_cancel_refusal e = e"

definition confirm_order_route :: "id_text \<Rightarrow> uuid option \<Rightarrow> store \<Rightarrow> command" where
  "confirm_order_route order_id usr db =
     (case get_order_by_id db order_id of
        None \<Rightarrow> Inl (Http 404 ORDER_NOT_FOUND)
      | Some ord \<Rightarrow> map_error transition_conflict (confirm_order (o_id ord) usr db))"

definition fulfill_order_route :: "id_text \<Rightarrow> uuid option \<Rightarrow> store \<Rightarrow> command" where
  "fulfill_order_route order_id usr db =
     (case get_order_by_id db order_id of
        None \<Rightarrow> Inl (Http 404 ORDER_NOT_FOUND)
      | Some ord \<Rightarrow> map_error transition_conflict (fulfill_order (o_id ord) usr db))"

definition cancel_order_route :: "id_text \<Rightarrow> uuid option \<Rightarrow> store \<Rightarrow> command" where
  "cancel_order_route order_id usr db =
     (case get_order_by_id db order_id of
        None \<Rightarrow> Inl (Http 404 ORDER_NOT_FOUND)
      | Some ord \<Rightarrow> map_error transition_conflict (cancel_order (o_id ord) usr db))"

definition return_order_route :: "id_text \<Rightarrow> uuid option \<Rightarrow> store \<Rightarrow> command" where
  "return_order_route order_id usr db =
     (case get_order_by_id db order_id of
        None \<Rightarrow> Inl (Http 404 ORDER_NOT_FOUND)
      | Some ord \<Rightarrow> map_error transition_conflict (return_order (o_id ord) usr db))"

definition client_cancel_order :: "id_text \<Rightarrow> uuid \<Rightarrow> uuid \<Rightarrow> uuid option \<Rightarrow> store \<Rightarrow> command" where
  "client_cancel_order order_id tenant ret usr db =
     (case get_order_for_retailer db order_id (str_uuid tenant) (str_uuid ret) of
        None \<Rightarrow> Inl (Http 404 ORDER_NOT_FOUND)
      | Some ord \<Rightarrow> map_error client_cancel_refusal (cancel_order (o_id ord) usr db))"

definition pay_order ::
  "(store \<Rightarrow> store) \<Rightarrow> id_text \<Rightarrow> uuid option \<Rightarrow> pay_input option \<Rightarrow> string option \<Rightarrow> store \<Rightarrow> error + (payment_result \<times> store)" where
  "pay_order race order_id usr input header db =
     (case input of
        None \<Rightarrow> Inl (Http 400 PAYMENT_BODY_REQUIRED)
      | Some f \<Rightarrow>
          bindE (ensure (pay_input_ok f) (ValueError ''request validation'')) (\<lambda>_.
          bindE (ensure (\<not> (f_amount f = None \<and> f_method f = None \<and> f_transaction f = None \<and> f_notes f = None))
                   (Http 400 PAYMENT_BODY_REQUIRED)) (\<lambda>_.
          bindE (validate_payment_notes_unsupported f) (\<lambda>_.
          case f_amount f of
            None \<Rightarrow> Inl (Http 400 PAYMENT_AMOUNT_REQUIRED)
          | Some amount \<Rightarrow>
              bindE (payment_method_value f) (\<lambda>m.
              bindE (validate_idempotency_key header) (\<lambda>key.
              map_error payment_refusal
                (confirm_payment race order_id amount m (f_transaction f) key usr False False db)))))))"

section \<open>Declarations\<close>

text \<open>
  When the insert lost a race on the retailer's key, the handler rolls back and answers from the row
  that won.
\<close>

definition declare_payment ::
  "(store \<Rightarrow> store) \<Rightarrow> id_text \<Rightarrow> uuid \<Rightarrow> uuid \<Rightarrow> uuid \<Rightarrow> decimal option \<Rightarrow> pay_method option \<Rightarrow> string option \<Rightarrow> string option
   \<Rightarrow> store \<Rightarrow> error + ((declaration_row \<times> bool) \<times> store)" where
  "declare_payment race order_id ret tenant usr amount method ref header db =
     bindE (validate_declaration_idempotency_key header) (\<lambda>key.
     case amount of
       None \<Rightarrow> Inl (Http 400 DECLARATION_AMOUNT_REQUIRED)
     | Some a \<Rightarrow>
       (case method of
          None \<Rightarrow> Inl (Http 400 DECLARATION_METHOD_INVALID)
        | Some m \<Rightarrow>
          (case submit_declaration race order_id ret tenant usr (Some a) m ref key db of
             Inr r \<Rightarrow> Inr r
           | Inl e \<Rightarrow>
               if e \<noteq> IntegrityError ''ux_payment_declarations_retailer_idem'' then Inl e
               else (case get_by_retailer_idempotency (race db) ret key of
                   None \<Rightarrow> Inl e
                 | Some d \<Rightarrow>
                     if str_uuid (d_order d) = order_id \<and> Finite (d_amount d) = a \<and> d_method d = m \<and>
                        blank_to_none (d_transfer_reference d) = blank_to_none (map_option strip ref)
                     then Inr ((d, True), race db)
                     else Inl (Http 409 DECLARATION_IDEMPOTENCY_KEY_CONFLICT)))))"

definition confirm_declaration_route ::
  "(store \<Rightarrow> store) \<Rightarrow> id_text \<Rightarrow> uuid \<Rightarrow> uuid \<Rightarrow> store \<Rightarrow> error + ((declaration_row option \<times> payment_result) \<times> store)" where
  "confirm_declaration_route race declaration_id tenant usr db =
     (case parse_uuid declaration_id of
        None \<Rightarrow> Inl (Http 404 DECLARATION_NOT_FOUND)
      | Some did \<Rightarrow> map_error payment_refusal (confirm_declaration race did tenant usr db))"

definition reject_declaration_route ::
  "id_text \<Rightarrow> uuid \<Rightarrow> uuid \<Rightarrow> string option \<Rightarrow> store \<Rightarrow> error + (declaration_row option \<times> store)" where
  "reject_declaration_route declaration_id tenant usr reason db =
     (let r = (case reason of None \<Rightarrow> [] | Some s \<Rightarrow> strip s) in
      if r = [] \<or> 256 < length r \<or> \<not> no_html_tags r then Inl (Http 400 INVALID_REJECTION_REASON)
      else case parse_uuid declaration_id of
          None \<Rightarrow> Inl (Http 404 DECLARATION_NOT_FOUND)
        | Some did \<Rightarrow> reject_declaration did tenant usr r db)"

section \<open>Inventory\<close>

definition adjust_inventory_route :: "string \<Rightarrow> money \<Rightarrow> string \<Rightarrow> id_text option \<Rightarrow> store \<Rightarrow> error + store" where
  "adjust_inventory_route code quantity reason usr db =
     bindE (ensure (1 \<le> length code \<and> length code \<le> 64 \<and> 1 \<le> length reason \<and> length reason \<le> 500)
              (ValueError ''request validation'')) (\<lambda>_.
     adjust_stock code quantity usr db)"

end
