(* ===== verification/Catalog.thy ===== *)
theory Catalog
  imports Api_Routes
begin

text \<open>
  The catalogue of a tenant: products, their sellable units (the \<open>skus\<close> table) and the prices of
  retailers. \<open>services/sku_service.py\<close>, \<open>services/catalog_product_service.py\<close>,
  \<open>services/package_identity.py\<close>, \<open>services/sku_integrity.py\<close>,
  \<open>repositories/pricing_repository.py\<close> and the price route of \<open>api/v1/pricing.py\<close>.

  An update reads its unit, waits for the row lock and then decides on the locked row. What other
  transactions commit in between is the argument \<open>race\<close>. Audit columns (\<open>created_by\<close>,
  \<open>updated_by\<close>) are left out.
\<close>

section \<open>The package identity gate\<close>

definition lock_sku_row :: "uuid \<Rightarrow> store \<Rightarrow> sku_row option" where
  "lock_sku_row sku db = find (\<lambda>k. k_id k = sku \<and> \<not> k_deleted k) (t_skus db)"

definition package_quantity_changed :: "rat \<Rightarrow> rat option \<Rightarrow> bool" where
  "package_quantity_changed current new = (case new of None \<Rightarrow> False | Some q \<Rightarrow> q \<noteq> current)"

definition has_identity_use_history :: "uuid \<Rightarrow> string \<Rightarrow> store \<Rightarrow> bool" where
  "has_identity_use_history sku code db =
     ((\<exists>ord \<in> set (t_orders db). \<exists>i \<in> set (o_items ord). i_sellable_unit i = Some sku \<or> i_sku_code i = code) \<or>
      (\<exists>m \<in> set (t_movements db). m_sku m = sku) \<or>
      (\<exists>s \<in> set (t_stocks db). s_sku s = sku \<and> (s_on_hand s \<noteq> 0 \<or> s_reserved s \<noteq> 0)) \<or>
      (\<exists>v \<in> set (t_reservations db). v_sku v = sku))"

definition live_prices :: "uuid \<Rightarrow> store \<Rightarrow> price_row list" where
  "live_prices sku db = filter (\<lambda>x. x_sku x = sku \<and> \<not> x_deleted x) (t_prices db)"

definition ensure_package_quantity_change_allowed :: "sku_row \<Rightarrow> rat option \<Rightarrow> store \<Rightarrow> error + unit" where
  "ensure_package_quantity_change_allowed k new db =
     (if \<not> package_quantity_changed (k_package k) new then Inr ()
      else if has_identity_use_history (k_id k) (k_code k) db
      then Inl (conflict SKU_PACKAGE_QUANTITY_IMMUTABLE_AFTER_USE)
      else if \<exists>x \<in> set (live_prices (k_id k) db). x_price x \<le> 0 then Inl (conflict PRICE_DATA_INTEGRITY_RED)
      else if live_prices (k_id k) db \<noteq> [] then Inl (conflict SKU_PACKAGE_QUANTITY_REPRICE_REQUIRED)
      else Inr ())"

section \<open>Writing units\<close>

text \<open>\<open>NUMERIC(12, 3)\<close> holds nine digits before the point; the table asks for a positive value.\<close>

definition write_package :: "rat \<Rightarrow> error + rat" where
  "write_package q =
     (if 10 ^ 9 \<le> \<bar>numeric_scale 3 q\<bar> then Inl (DataError ''numeric field overflow'')
      else if numeric_scale 3 q \<le> 0 then Inl (IntegrityError ''ck_skus_package_quantity_positive'')
      else Inr (numeric_scale 3 q))"

definition insert_sku :: "sku_row \<Rightarrow> store \<Rightarrow> error + store" where
  "insert_sku k db =
     bindE (write_package (k_package k)) (\<lambda>q.
     if k_id k \<in> k_id ` set (t_skus db) then Inl (IntegrityError ''skus_pkey'')
     else if k_code k \<in> k_code ` set (t_skus db) then Inl (IntegrityError ''skus_sku_code_key'')
     else Inr (db\<lparr>t_skus := t_skus db @ [k\<lparr>k_package := q\<rparr>]\<rparr>))"

definition sku_code_unique_constraints :: "string list" where
  "sku_code_unique_constraints = [''skus_sku_code_key'', ''ux_skus_sku_code'']"

fun is_sku_code_unique_violation :: "error \<Rightarrow> bool" where
  "is_sku_code_unique_violation (IntegrityError c) = (c \<in> set sku_code_unique_constraints)"
| "is_sku_code_unique_violation _ = False"

definition flush_skus_or_409 :: "sku_row list \<Rightarrow> store \<Rightarrow> error + store" where
  "flush_skus_or_409 rows db =
     map_error (\<lambda>e. if is_sku_code_unique_violation e then conflict SKU_EXISTS else e) (foldE insert_sku rows db)"

definition insert_product :: "catalog_row \<Rightarrow> store \<Rightarrow> error + store" where
  "insert_product c db =
     (if c_id c \<in> c_id ` set (t_catalog db) then Inl (IntegrityError ''catalog_products_pkey'')
      else Inr (db\<lparr>t_catalog := t_catalog db @ [c]\<rparr>))"

definition get_any_by_code :: "store \<Rightarrow> string \<Rightarrow> sku_row option" where
  "get_any_by_code db code = row_find k_code code (t_skus db)"

definition get_by_code :: "store \<Rightarrow> string \<Rightarrow> sku_row option" where
  "get_by_code db code = find (\<lambda>k. k_code k = code \<and> \<not> k_deleted k) (t_skus db)"

definition live_product :: "store \<Rightarrow> uuid \<Rightarrow> catalog_row option" where
  "live_product db pid = find (\<lambda>c. c_id c = pid \<and> \<not> c_deleted c) (t_catalog db)"

text \<open>A unit of a product carries its name, description and category.\<close>

definition unit_of :: "catalog_row \<Rightarrow> uuid \<Rightarrow> string \<Rightarrow> string \<Rightarrow> rat \<Rightarrow> bool \<Rightarrow> sku_row" where
  "unit_of c sku code u q active =
     \<lparr>k_id = sku, k_catalog = c_id c, k_code = code, k_name = c_name c, k_description = c_description c,
      k_category = c_category c, k_unit = u, k_package = q, k_active = active, k_deleted = False\<rparr>"

section \<open>The SKU service\<close>

definition create_sku :: "(store \<Rightarrow> store) \<Rightarrow> id_text option \<Rightarrow> string \<Rightarrow> string \<Rightarrow> string option \<Rightarrow> string \<Rightarrow> rat \<Rightarrow>
    string option \<Rightarrow> bool \<Rightarrow> store \<Rightarrow> error + (sku_row \<times> store)" where
  "create_sku race product code nm description u q category active db =
     bindE (ensure (get_any_by_code db code = None) (conflict SKU_EXISTS)) (\<lambda>_.
     let db = race db in
     bindE (if product = None \<or> product = Some (Malformed '''')
            then let (pid, db1) = draw_uuid db;
                     c = \<lparr>c_id = pid, c_name = nm, c_description = description, c_category = category,
                          c_active = active, c_deleted = False\<rparr>
                 in bindE (insert_product c db1) (\<lambda>db2. Inr (c, db2))
            else case Option.bind (Option.bind product parse_uuid) (live_product db) of
                None \<Rightarrow> Inl (Http 404 PRODUCT_NOT_FOUND)
              | Some c \<Rightarrow> Inr (c, db)) (\<lambda>(c, db).
     let (sku, db) = draw_uuid db in
     bindE (flush_skus_or_409 [unit_of c sku code u q active] db) (\<lambda>db.
     bindE (ensure_stock_row sku db) (\<lambda>(_, db).
     case lock_sku_row sku db of None \<Rightarrow> Inl AttributeError | Some k \<Rightarrow> Inr (k, db)))))"

definition with_default :: "'a \<Rightarrow> 'a option \<Rightarrow> 'a" where
  "with_default old new = (case new of None \<Rightarrow> old | Some x \<Rightarrow> x)"

definition put_product :: "catalog_row \<Rightarrow> store \<Rightarrow> store" where
  "put_product c db = db\<lparr>t_catalog := row_put c_id c (t_catalog db)\<rparr>"

definition put_sku :: "sku_row \<Rightarrow> store \<Rightarrow> store" where
  "put_sku k db = db\<lparr>t_skus := row_put k_id k (t_skus db)\<rparr>"

text \<open>Every unit of the product takes over the columns that \<open>sync\<close> copies.\<close>

definition sync_units :: "uuid \<Rightarrow> (sku_row \<Rightarrow> sku_row) \<Rightarrow> store \<Rightarrow> store" where
  "sync_units pid sync db = db\<lparr>t_skus := map (\<lambda>k. if k_catalog k = pid then sync k else k) (t_skus db)\<rparr>"

definition renamed_product :: "string option \<Rightarrow> string option \<Rightarrow> string option \<Rightarrow> catalog_row \<Rightarrow> catalog_row" where
  "renamed_product nm description category c =
     c\<lparr>c_name := with_default (c_name c) nm,
       c_description := (if description = None then c_description c else description),
       c_category := (if category = None then c_category c else category)\<rparr>"

definition edited_unit :: "string option \<Rightarrow> rat \<Rightarrow> bool option \<Rightarrow> sku_row \<Rightarrow> sku_row" where
  "edited_unit u q active k =
     k\<lparr>k_unit := with_default (k_unit k) u, k_package := q, k_active := with_default (k_active k) active\<rparr>"

definition carry_names :: "catalog_row \<Rightarrow> sku_row \<Rightarrow> sku_row" where
  "carry_names c k = k\<lparr>k_name := c_name c, k_description := c_description c, k_category := c_category c\<rparr>"

definition write_package_update :: "sku_row \<Rightarrow> rat option \<Rightarrow> error + rat" where
  "write_package_update k q = (case q of None \<Rightarrow> Inr (k_package k) | Some x \<Rightarrow> write_package x)"

definition guard_package :: "sku_row \<Rightarrow> rat option \<Rightarrow> store \<Rightarrow> error + unit" where
  "guard_package k new db =
     (if package_quantity_changed (k_package k) new then ensure_package_quantity_change_allowed k new db else Inr ())"

definition update_sku :: "(store \<Rightarrow> store) \<Rightarrow> string \<Rightarrow> string option \<Rightarrow> string option \<Rightarrow> string option \<Rightarrow> rat option \<Rightarrow>
    string option \<Rightarrow> bool option \<Rightarrow> store \<Rightarrow> error + (sku_row \<times> store)" where
  "update_sku race code nm description u q category active db =
     (case get_by_code db code of None \<Rightarrow> Inl (Http 404 SKU_NOT_FOUND)
      | Some seen \<Rightarrow>
     let db = race db in
     (case lock_sku_row (k_id seen) db of None \<Rightarrow> Inl (Http 404 SKU_NOT_FOUND)
      | Some k \<Rightarrow>
     bindE (guard_package k q db) (\<lambda>_.
     case row_find c_id (k_catalog k) (t_catalog db) of None \<Rightarrow> Inl AttributeError
      | Some c \<Rightarrow>
     bindE (write_package_update k q) (\<lambda>q'.
     let c' = renamed_product nm description category c;
         db1 = put_product c' (put_sku (edited_unit u q' active k) db);
         db2 = sync_units (c_id c) (carry_names c') db1
     in bindE (ensure_stock_row (k_id k) db2) (\<lambda>(_, db3).
     case lock_sku_row (k_id k) db3 of None \<Rightarrow> Inl AttributeError | Some k' \<Rightarrow> Inr (k', db3))))))"

definition get_sku :: "store \<Rightarrow> string \<Rightarrow> error + sku_row" where
  "get_sku db code = (case get_by_code db code of None \<Rightarrow> Inl (Http 404 SKU_NOT_FOUND) | Some k \<Rightarrow> Inr k)"

section \<open>The catalogue service\<close>

record new_unit =
  nu_code :: string
  nu_unit :: string
  nu_package :: rat
  nu_active :: bool

record new_product =
  np_name :: string
  np_description :: "string option"
  np_category :: "string option"
  np_active :: bool
  np_units :: "new_unit list"

text \<open>The decimals that \<open>max_digits=12, decimal_places=3\<close> admits.\<close>

definition package_input_ok :: "rat \<Rightarrow> bool" where
  "package_input_ok q \<longleftrightarrow> 0 < q \<and> numeric_scale 3 q = q \<and> q < 10 ^ 9"

definition code_ok :: "nat \<Rightarrow> string \<Rightarrow> bool" where
  "code_ok n s \<longleftrightarrow> s \<noteq> [] \<and> length s \<le> n"

definition option_ok :: "('a \<Rightarrow> bool) \<Rightarrow> 'a option \<Rightarrow> bool" where
  "option_ok P x \<longleftrightarrow> (case x of None \<Rightarrow> True | Some y \<Rightarrow> P y)"

definition new_unit_ok :: "new_unit \<Rightarrow> bool" where
  "new_unit_ok n \<longleftrightarrow> code_ok 64 (nu_code n) \<and> code_ok 32 (nu_unit n) \<and> package_input_ok (nu_package n)"

definition new_product_ok :: "new_product \<Rightarrow> bool" where
  "new_product_ok n \<longleftrightarrow> code_ok 255 (np_name n) \<and> option_ok (\<lambda>c. length c \<le> 64) (np_category n) \<and>
     np_units n \<noteq> [] \<and> length (np_units n) \<le> 50 \<and> list_all new_unit_ok (np_units n) \<and> distinct (map nu_code (np_units n))"

definition assert_codes_available :: "store \<Rightarrow> string list \<Rightarrow> error + unit" where
  "assert_codes_available db codes = ensure (\<not> (\<exists>k \<in> set (t_skus db). k_code k \<in> set codes)) (conflict SKU_EXISTS)"

definition reload_product_graph :: "uuid \<Rightarrow> store \<Rightarrow> error + ((catalog_row \<times> sku_row list) \<times> store)" where
  "reload_product_graph pid db =
     (case live_product db pid of
        None \<Rightarrow> Inl (RuntimeError ''NoResultFound'')
      | Some c \<Rightarrow> Inr ((c, filter (\<lambda>k. k_catalog k = pid) (t_skus db)), db))"

fun draw_units :: "catalog_row \<Rightarrow> new_unit list \<Rightarrow> store \<Rightarrow> sku_row list \<times> store" where
  "draw_units c [] db = ([], db)"
| "draw_units c (n # ns) db =
     (let (sku, db1) = draw_uuid db; (rows, db2) = draw_units c ns db1 in
      (unit_of c sku (nu_code n) (nu_unit n) (nu_package n) (nu_active n) # rows, db2))"

definition ensure_stock_rows :: "sku_row list \<Rightarrow> store \<Rightarrow> error + store" where
  "ensure_stock_rows = foldE (\<lambda>k db. bindE (ensure_stock_row (k_id k) db) (\<lambda>(_, db'). Inr db'))"

definition create_product :: "(store \<Rightarrow> store) \<Rightarrow> new_product \<Rightarrow> store \<Rightarrow> error + ((catalog_row \<times> sku_row list) \<times> store)" where
  "create_product race n db =
     bindE (assert_codes_available db (map nu_code (np_units n))) (\<lambda>_.
     let (pid, db) = draw_uuid (race db);
         c = \<lparr>c_id = pid, c_name = np_name n, c_description = np_description n, c_category = np_category n,
              c_active = np_active n, c_deleted = False\<rparr> in
     bindE (insert_product c db) (\<lambda>db.
     let (rows, db) = draw_units c (np_units n) db in
     bindE (flush_skus_or_409 rows db) (\<lambda>db.
     bindE (ensure_stock_rows rows db) (reload_product_graph pid))))"

definition get_product :: "store \<Rightarrow> id_text \<Rightarrow> error + catalog_row" where
  "get_product db pid =
     (case Option.bind (parse_uuid pid) (live_product db) of
        None \<Rightarrow> Inl (Http 404 PRODUCT_NOT_FOUND)
      | Some c \<Rightarrow> Inr c)"

text \<open>A field of an update request: left out, an explicit \<open>null\<close>, or a value.\<close>

datatype 'a patch = Unset | Null | Value 'a

definition patch_column :: "string \<Rightarrow> 'a \<Rightarrow> 'a patch \<Rightarrow> error + 'a" where
  "patch_column column old p = (case p of Unset \<Rightarrow> Inr old | Null \<Rightarrow> Inl (IntegrityError column) | Value x \<Rightarrow> Inr x)"

definition patch_nullable :: "'a option \<Rightarrow> 'a patch \<Rightarrow> 'a option" where
  "patch_nullable old p = (case p of Unset \<Rightarrow> old | Null \<Rightarrow> None | Value x \<Rightarrow> Some x)"

definition update_product :: "id_text \<Rightarrow> string patch \<Rightarrow> string patch \<Rightarrow> string patch \<Rightarrow> bool patch \<Rightarrow> store \<Rightarrow>
    error + ((catalog_row \<times> sku_row list) \<times> store)" where
  "update_product pid nm description category active db =
     bindE (get_product db pid) (\<lambda>c.
     bindE (patch_column ''name'' (c_name c) nm) (\<lambda>nm'.
     bindE (patch_column ''is_active'' (c_active c) active) (\<lambda>active'.
     let c' = c\<lparr>c_name := nm', c_description := patch_nullable (c_description c) description,
                c_category := patch_nullable (c_category c) category, c_active := active'\<rparr>;
         sync = (\<lambda>k. k\<lparr>k_name := (if nm = Unset then k_name k else c_name c'),
                        k_description := (if description = Unset then k_description k else c_description c'),
                        k_category := (if category = Unset then k_category k else c_category c')\<rparr>)
     in reload_product_graph (c_id c') (sync_units (c_id c') sync (put_product c' db)))))"

definition add_sellable_unit :: "(store \<Rightarrow> store) \<Rightarrow> id_text \<Rightarrow> new_unit \<Rightarrow> store \<Rightarrow>
    error + ((catalog_row \<times> sku_row list) \<times> store)" where
  "add_sellable_unit race pid n db =
     bindE (get_product db pid) (\<lambda>c.
     bindE (assert_codes_available db [nu_code n]) (\<lambda>_.
     let (rows, db) = draw_units c [n] (race db) in
     bindE (flush_skus_or_409 rows db) (\<lambda>db.
     bindE (ensure_stock_rows rows db) (reload_product_graph (c_id c)))))"

definition update_sellable_unit :: "(store \<Rightarrow> store) \<Rightarrow> id_text \<Rightarrow> id_text \<Rightarrow> string patch \<Rightarrow> rat patch \<Rightarrow> bool patch \<Rightarrow> store \<Rightarrow>
    error + ((catalog_row \<times> sku_row list) \<times> store)" where
  "update_sellable_unit race pid sku u q active db =
     bindE (get_product db pid) (\<lambda>c.
     case Option.bind (parse_uuid sku) (\<lambda>x. find (\<lambda>k. k_catalog k = c_id c \<and> k_id k = x) (t_skus db)) of
       None \<Rightarrow> Inl (Http 404 SELLABLE_UNIT_NOT_FOUND)
     | Some seen \<Rightarrow>
     let db = race db in
     (case lock_sku_row (k_id seen) db of None \<Rightarrow> Inl (Http 404 SELLABLE_UNIT_NOT_FOUND)
      | Some k \<Rightarrow>
     let new = (case q of Value x \<Rightarrow> Some x | _ \<Rightarrow> None) in
     bindE (guard_package k new db) (\<lambda>_.
     bindE (patch_column ''unit'' (k_unit k) u) (\<lambda>u'.
     bindE (patch_column ''package_quantity'' (k_package k) q) (\<lambda>q0.
     bindE (if q = Unset then Inr (k_package k) else write_package q0) (\<lambda>q'.
     bindE (patch_column ''is_active'' (k_active k) active) (\<lambda>active'.
     reload_product_graph (c_id c) (put_sku (k\<lparr>k_unit := u', k_package := q', k_active := active'\<rparr>) db))))))))"

section \<open>Prices\<close>

definition get_price :: "store \<Rightarrow> uuid \<Rightarrow> uuid \<Rightarrow> money option" where
  "get_price db ret sku =
     map_option x_price (find (\<lambda>x. x_sku x = sku \<and> x_retailer x = ret \<and> \<not> x_deleted x) (t_prices db))"

definition get_prices_bulk :: "store \<Rightarrow> uuid \<Rightarrow> uuid list \<Rightarrow> uuid \<rightharpoonup> money" where
  "get_prices_bulk db ret skus =
     map_of (rev (map (\<lambda>x. (x_sku x, x_price x))
       (filter (\<lambda>x. x_retailer x = ret \<and> x_sku x \<in> set skus \<and> \<not> x_deleted x) (t_prices db))))"

definition write_price :: "money \<Rightarrow> error + money" where
  "write_price x =
     (if \<not> numeric12_fits x then Inl (DataError ''numeric field overflow'')
      else if num2 x \<le> 0 then Inl (IntegrityError ''ck_retailer_prices_positive_price'')
      else Inr (num2 x))"

definition set_price :: "uuid \<Rightarrow> uuid \<Rightarrow> money \<Rightarrow> store \<Rightarrow> error + store" where
  "set_price ret sku price db =
     (case lock_sku_row sku db of
        None \<Rightarrow> Inl (Http 404 SKU_NOT_FOUND)
      | Some _ \<Rightarrow>
          bindE (write_price price) (\<lambda>x.
          if get_price db ret sku \<noteq> None
          then Inr (db\<lparr>t_prices := map (\<lambda>r. if x_sku r = sku \<and> x_retailer r = ret \<and> \<not> x_deleted r then r\<lparr>x_price := x\<rparr> else r)
                 (t_prices db)\<rparr>)
          else if \<exists>r \<in> set (t_prices db). x_sku r = sku \<and> x_retailer r = ret
          then Inl (IntegrityError ''uq_retailer_prices_retailer_sku'')
          else Inr (db\<lparr>t_prices := t_prices db @ [\<lparr>x_sku = sku, x_retailer = ret, x_price = x, x_deleted = False\<rparr>]\<rparr>)))"

text \<open>
  The route: identifiers are 36 characters that the driver parses when the query is sent, and the
  price is a positive decimal of at most 999999.99, with any number of decimal places.
\<close>

definition assert_binding :: "store \<Rightarrow> uuid \<Rightarrow> uuid \<Rightarrow> error + unit" where
  "assert_binding db tenant ret =
     ensure (\<exists>b \<in> set (t_bindings db). b_wholesaler b = tenant \<and> b_retailer b = ret \<and> b_status b = Binding_Active)
       (Http 400 RETAILER_NOT_BOUND)"

definition price_input_ok :: "money \<Rightarrow> bool" where
  "price_input_ok x \<longleftrightarrow> 0 < x \<and> x \<le> 99999999 / 100"

datatype price_action = Created | Updated

definition set_retailer_price :: "(store \<Rightarrow> store) \<Rightarrow> uuid \<Rightarrow> id_text \<Rightarrow> id_text \<Rightarrow> money \<Rightarrow> store \<Rightarrow>
    error + (price_action \<times> store)" where
  "set_retailer_price race tenant ret sku price db =
     (if \<not> price_input_ok price then Inl (Http 422 VALIDATION_ERROR)
      else case parse_uuid ret of None \<Rightarrow> Inl (DataError ''retailer_id'')
      | Some r \<Rightarrow>
     bindE (assert_binding db tenant r) (\<lambda>_.
     case parse_uuid sku of None \<Rightarrow> Inl (DataError ''sku_id'')
      | Some s \<Rightarrow>
     bindE (ensure (lock_sku_row s db \<noteq> None) (Http 404 SKU_NOT_FOUND)) (\<lambda>_.
     let action = (if get_price db r s \<noteq> None then Updated else Created) in
     bindE (set_price r s price (race db)) (\<lambda>db'. Inr (action, db')))))"

record price_view =
  xv_sku :: uuid
  xv_code :: string
  xv_name :: string
  xv_price :: money

definition list_retailer_prices :: "store \<Rightarrow> uuid \<Rightarrow> uuid \<Rightarrow> nat \<Rightarrow> nat \<Rightarrow> error + (price_view list \<times> nat)" where
  "list_retailer_prices db tenant ret page per_page =
     bindE (assert_binding db tenant ret) (\<lambda>_.
     let rows = concat (map (\<lambda>x. map (\<lambda>k. \<lparr>xv_sku = x_sku x, xv_code = k_code k, xv_name = k_name k, xv_price = x_price x\<rparr>)
           (filter (\<lambda>k. k_id k = x_sku x \<and> \<not> k_deleted k) (t_skus db)))
           (filter (\<lambda>x. x_retailer x = ret \<and> \<not> x_deleted x) (t_prices db)))
     in Inr (take per_page (drop ((page - 1) * per_page) (sort_key (\<lambda>v. t_collation db (xv_name v)) rows)), length rows))"

section \<open>Requests\<close>

datatype catalog_request =
    Create_Sku "id_text option" string string "string option" string rat "string option" bool
  | Update_Sku string "string option" "string option" "string option" "rat option" "string option" "bool option"
  | Create_Product new_product
  | Update_Product id_text "string patch" "string patch" "string patch" "bool patch"
  | Add_Sellable_Unit id_text new_unit
  | Update_Sellable_Unit id_text id_text "string patch" "rat patch" "bool patch"
  | Set_Price uuid id_text id_text money


text \<open>
  One request: the schema is checked first, then the service runs; the transaction is committed when
  it returns.
\<close>

definition patch_ok :: "('a \<Rightarrow> bool) \<Rightarrow> 'a patch \<Rightarrow> bool" where
  "patch_ok P p \<longleftrightarrow> (case p of Value x \<Rightarrow> P x | _ \<Rightarrow> True)"

fun catalog_request_ok :: "catalog_request \<Rightarrow> bool" where
  "catalog_request_ok (Create_Sku product code nm description u q category active) \<longleftrightarrow>
     code_ok 64 code \<and> code_ok 255 nm \<and> code_ok 32 u \<and> package_input_ok q \<and> option_ok (\<lambda>c. length c \<le> 64) category"
| "catalog_request_ok (Update_Sku code nm description u q category active) \<longleftrightarrow>
     option_ok (code_ok 255) nm \<and> option_ok (code_ok 32) u \<and> option_ok package_input_ok q \<and>
     option_ok (\<lambda>c. length c \<le> 64) category"
| "catalog_request_ok (Create_Product n) \<longleftrightarrow> new_product_ok n"
| "catalog_request_ok (Update_Product pid nm description category active) \<longleftrightarrow>
     patch_ok (code_ok 255) nm \<and> patch_ok (\<lambda>c. length c \<le> 64) category"
| "catalog_request_ok (Add_Sellable_Unit pid n) \<longleftrightarrow> new_unit_ok n"
| "catalog_request_ok (Update_Sellable_Unit pid sku u q active) \<longleftrightarrow> patch_ok (code_ok 32) u \<and> patch_ok package_input_ok q"
| "catalog_request_ok (Set_Price tenant ret sku price) \<longleftrightarrow> price_input_ok price"

fun run_catalog :: "catalog_request \<Rightarrow> store \<Rightarrow> error + store" where
  "run_catalog (Create_Sku product code nm description u q category active) db =
     bindE (create_sku no_race product code nm description u q category active db) (\<lambda>(_, db'). Inr db')"
| "run_catalog (Update_Sku code nm description u q category active) db =
     bindE (update_sku no_race code nm description u q category active db) (\<lambda>(_, db'). Inr db')"
| "run_catalog (Create_Product n) db = bindE (create_product no_race n db) (\<lambda>(_, db'). Inr db')"
| "run_catalog (Update_Product pid nm description category active) db =
     bindE (update_product pid nm description category active db) (\<lambda>(_, db'). Inr db')"
| "run_catalog (Add_Sellable_Unit pid n) db = bindE (add_sellable_unit no_race pid n db) (\<lambda>(_, db'). Inr db')"
| "run_catalog (Update_Sellable_Unit pid sku u q active) db =
     bindE (update_sellable_unit no_race pid sku u q active db) (\<lambda>(_, db'). Inr db')"
| "run_catalog (Set_Price tenant ret sku price) db =
     bindE (set_retailer_price no_race tenant ret sku price db) (\<lambda>(_, db'). Inr db')"

definition serve_catalog :: "catalog_request \<Rightarrow> store \<Rightarrow> error + store" where
  "serve_catalog c db = (if catalog_request_ok c then run_catalog c db else Inl (Http 422 VALIDATION_ERROR))"

end
