(* ===== verification/Catalog_Contract.thy ===== *)
theory Catalog_Contract
  imports Catalog
begin

text \<open>
  What the catalogue promises, as a step relation on the tables: every request is a sequence of the
  moves below. From it follow the consistency of the catalogue, the rule that a unit with history or
  prices keeps its package quantity, and that no request of the catalogue touches orders or money.
\<close>

section \<open>Moves\<close>

definition clean :: "uuid \<Rightarrow> string \<Rightarrow> store \<Rightarrow> bool" where
  "clean sku code db \<longleftrightarrow> \<not> has_identity_use_history sku code db \<and> live_prices sku db = []"

definition names :: "sku_row \<Rightarrow> string \<times> string option \<times> string option" where
  "names k = (k_name k, k_description k, k_category k)"

definition product_names :: "catalog_row \<Rightarrow> string \<times> string option \<times> string option" where
  "product_names c = (c_name c, c_description c, c_category c)"

definition identity :: "sku_row \<Rightarrow> uuid \<times> uuid \<times> string \<times> bool" where
  "identity k = (k_id k, k_catalog k, k_code k, k_deleted k)"

definition fresh_stock :: "uuid \<Rightarrow> stock_row" where
  "fresh_stock sku = \<lparr>s_sku = sku, s_on_hand = 0, s_reserved = 0, s_deleted = False\<rparr>"

inductive catalog_move :: "store \<Rightarrow> store \<Rightarrow> bool" where
  draw: "catalog_move db (db\<lparr>t_drawn := t_drawn db + 1\<rparr>)"
| product: "c_id c \<notin> c_id ` set (t_catalog db) \<Longrightarrow> catalog_move db (db\<lparr>t_catalog := t_catalog db @ [c]\<rparr>)"
| new_sku: "k_id k \<notin> k_id ` set (t_skus db) \<Longrightarrow> k_code k \<notin> k_code ` set (t_skus db) \<Longrightarrow>
    c \<in> set (t_catalog db) \<Longrightarrow> k_catalog k = c_id c \<Longrightarrow> names k = product_names c \<Longrightarrow>
    package_input_ok (k_package k) \<Longrightarrow> catalog_move db (db\<lparr>t_skus := t_skus db @ [k]\<rparr>)"
| stock: "sku \<notin> s_sku ` set (t_stocks db) \<Longrightarrow>
    catalog_move db (db\<lparr>t_stocks := t_stocks db @ [fresh_stock sku]\<rparr>)"
| rename: "c \<in> set (t_catalog db) \<Longrightarrow> c_id c' = c_id c \<Longrightarrow>
    (\<And>k. names k = product_names c \<Longrightarrow> names (f k) = product_names c') \<Longrightarrow>
    (\<And>k. identity (f k) = identity k) \<Longrightarrow> (\<And>k. k_package (f k) = k_package k) \<Longrightarrow>
    catalog_move db (sync_units (c_id c) f (put_product c' db))"
| change: "k \<in> set (t_skus db) \<Longrightarrow> identity k' = identity k \<Longrightarrow> names k' = names k \<Longrightarrow>
    (package_input_ok (k_package k) \<Longrightarrow>
       package_input_ok (k_package k') \<and> (k_package k' = k_package k \<or> clean (k_id k) (k_code k) db)) \<Longrightarrow>
    catalog_move db (put_sku k' db)"
| reprice: "0 < x \<Longrightarrow> in_cents x \<Longrightarrow> catalog_move db (db\<lparr>t_prices := map (\<lambda>r. if P r then r\<lparr>x_price := x\<rparr> else r) (t_prices db)\<rparr>)"
| new_price: "0 < x \<Longrightarrow> in_cents x \<Longrightarrow> (sku, ret) \<notin> (\<lambda>r. (x_sku r, x_retailer r)) ` set (t_prices db) \<Longrightarrow>
    catalog_move db (db\<lparr>t_prices := t_prices db @ [\<lparr>x_sku = sku, x_retailer = ret, x_price = x, x_deleted = False\<rparr>]\<rparr>)"

abbreviation catalog_moves :: "store \<Rightarrow> store \<Rightarrow> bool" where
  "catalog_moves \<equiv> catalog_move\<^sup>*\<^sup>*"

text \<open>A relation kept by every move is kept by every request.\<close>

locale move_law =
  fixes R :: "store \<Rightarrow> store \<Rightarrow> bool"
  assumes law_refl: "R db db" and law_trans: "R a b \<Longrightarrow> R b c \<Longrightarrow> R a c"
    and law_move: "catalog_move a b \<Longrightarrow> R a b"
begin

lemma moves_law: "catalog_moves a b \<Longrightarrow> R a b"
  by (induction rule: rtranclp_induct) (auto intro: law_refl law_trans law_move)

end

section \<open>What the moves keep\<close>

text \<open>The tables of orders and money stay, and stock rows are only added, empty.\<close>

definition catalog_step :: "store \<Rightarrow> store \<Rightarrow> bool" where
  "catalog_step db db' \<longleftrightarrow> (\<exists>cat skus prices n new.
     db' = db\<lparr>t_catalog := cat, t_skus := skus, t_prices := prices, t_drawn := t_drawn db + n,
              t_stocks := t_stocks db @ map fresh_stock new\<rparr> \<and>
     distinct new \<and> set new \<inter> s_sku ` set (t_stocks db) = {})"

lemma catalog_stepI:
  "distinct new \<Longrightarrow> set new \<inter> s_sku ` set (t_stocks db) = {} \<Longrightarrow>
   db' = db\<lparr>t_catalog := cat, t_skus := skus, t_prices := prices, t_drawn := t_drawn db + n,
      t_stocks := t_stocks db @ map fresh_stock new\<rparr> \<Longrightarrow> catalog_step db db'"
  unfolding catalog_step_def by blast

lemma catalog_step_trans:
  assumes "catalog_step a b" and "catalog_step b c"
  shows "catalog_step a c"
proof -
  obtain cat skus prices n new where b: "b = a\<lparr>t_catalog := cat, t_skus := skus, t_prices := prices, t_drawn := t_drawn a + n,
      t_stocks := t_stocks a @ map fresh_stock new\<rparr>" "distinct new" "set new \<inter> s_sku ` set (t_stocks a) = {}"
    using assms(1) unfolding catalog_step_def by blast
  obtain cat' skus' prices' n' new' where c: "c = b\<lparr>t_catalog := cat', t_skus := skus', t_prices := prices', t_drawn := t_drawn b + n',
      t_stocks := t_stocks b @ map fresh_stock new'\<rparr>" "distinct new'" "set new' \<inter> s_sku ` set (t_stocks b) = {}"
    using assms(2) unfolding catalog_step_def by blast
  show ?thesis
    by (rule catalog_stepI [of "new @ new'" _ _ "n + n'" prices' skus' cat'])
      (use b c in \<open>auto simp: fresh_stock_def image_image image_Un\<close>)
qed

lemma catalog_step_move: "catalog_move a b \<Longrightarrow> catalog_step a b"
proof (induction rule: catalog_move.induct)
  case (stock sku db)
  then show ?case by (intro catalog_stepI [of "[sku]" _ _ 0 "t_prices db" "t_skus db" "t_catalog db"]) simp_all
qed (auto simp: sync_units_def put_product_def put_sku_def intro!: catalog_stepI [of "[]", OF _ _ store.equality])

interpretation step_law: move_law catalog_step
proof
  show "catalog_step db db" for db by (rule catalog_stepI [of "[]", OF _ _ store.equality]) simp_all
qed (auto intro: catalog_step_trans catalog_step_move)

text \<open>
  The catalogue is consistent: keys and codes are unique, every unit belongs to a product and
  carries its name, and packages and prices are positive column values.
\<close>

definition catalog_ok :: "store \<Rightarrow> bool" where
  "catalog_ok db \<longleftrightarrow> distinct (map c_id (t_catalog db)) \<and> distinct (map k_id (t_skus db)) \<and> distinct (map k_code (t_skus db)) \<and>
     (\<forall>k \<in> set (t_skus db). \<exists>c \<in> set (t_catalog db). c_id c = k_catalog k \<and> names k = product_names c) \<and>
     (\<forall>k \<in> set (t_skus db). package_input_ok (k_package k)) \<and>
     distinct (map (\<lambda>x. (x_sku x, x_retailer x)) (t_prices db)) \<and>
     (\<forall>x \<in> set (t_prices db). 0 < x_price x \<and> in_cents (x_price x))"


lemma names_eq: "names k = product_names c \<longleftrightarrow> k_name k = c_name c \<and> k_description k = c_description c \<and> k_category k = c_category c"
  by (simp add: names_def product_names_def)

lemma map_row_put_cong:
  assumes "\<And>y. y \<in> set rows \<Longrightarrow> key y = key r \<Longrightarrow> g y = g r"
  shows "map g (row_put key r rows) = map g rows"
  using assms by (induction rows) auto

lemma catalog_ok_move: "catalog_move a b \<Longrightarrow> catalog_ok a \<Longrightarrow> catalog_ok b"
proof (induction rule: catalog_move.induct)
  case (new_sku k db c)
  then show ?case by (auto simp: catalog_ok_def)
next
  case (rename c db c' f)
  have ids: "k_id (f k) = k_id k" "k_catalog (f k) = k_catalog k" "k_code (f k) = k_code k" for k
    using rename(4) [of k] by (simp_all add: identity_def)
  define g where "g = (\<lambda>k. if k_catalog k = c_id c then f k else k)"
  have g: "k_id (g k) = k_id k" "k_catalog (g k) = k_catalog k" "k_code (g k) = k_code k" "k_package (g k) = k_package k" for k
    using ids rename(5) by (simp_all add: g_def)
  have "\<exists>x \<in> set (row_put c_id c' (t_catalog db)). c_id x = k_catalog k \<and> names (g k) = product_names x"
    if k: "k \<in> set (t_skus db)" for k
  proof -
    obtain x where x: "x \<in> set (t_catalog db)" "c_id x = k_catalog k" "names k = product_names x"
      using rename.prems k by (auto simp: catalog_ok_def)
    show ?thesis
    proof (cases "k_catalog k = c_id c")
      case True
      then have "x = c" using x rename.prems rename(1) by (auto simp: catalog_ok_def distinct_map dest: inj_onD)
      with x True rename(2,3) show ?thesis
        by (intro bexI [of _ c']) (auto simp: row_put_def image_iff g_def intro!: bexI [of _ c])
    next
      case False
      with x rename(2) show ?thesis
        by (intro bexI [of _ x]) (auto simp: row_put_def image_iff g_def intro!: bexI [of _ x])
    qed
  qed
  moreover have "map k_id (map g rows) = map k_id rows" "map k_code (map g rows) = map k_code rows" for rows
    using g by simp_all
  moreover have "sync_units (c_id c) f (put_product c' db) = db\<lparr>t_catalog := row_put c_id c' (t_catalog db), t_skus := map g (t_skus db)\<rparr>"
    by (simp add: sync_units_def put_product_def g_def)
  ultimately show ?case using rename.prems g by (simp add: catalog_ok_def del: map_map)
next
  case (change k db k')
  have ids: "k_id k' = k_id k" "k_catalog k' = k_catalog k" "k_code k' = k_code k" using change(2) by (simp_all add: identity_def)
  have uniq: "y = k" if "y \<in> set (t_skus db)" "k_id y = k_id k'" for y
    using that change.prems change(1) ids by (auto simp: catalog_ok_def distinct_map dest: inj_onD)
  have "map k_code (row_put k_id k' (t_skus db)) = map k_code (t_skus db)"
    using uniq ids by (intro map_row_put_cong) auto
  moreover have "package_input_ok (k_package k')" using change(1,4) change.prems by (auto simp: catalog_ok_def)
  moreover have "\<exists>c \<in> set (t_catalog db). c_id c = k_catalog k' \<and> names k' = product_names c"
    using change.prems change(1,3) ids by (auto simp: catalog_ok_def)
  ultimately show ?case using change.prems by (auto simp: catalog_ok_def put_sku_def dest!: set_row_put)
next
  case (reprice x db P)
  have "map (\<lambda>x. (x_sku x, x_retailer x)) (map (\<lambda>r. if P r then r\<lparr>x_price := x\<rparr> else r) rows) =
      map (\<lambda>x. (x_sku x, x_retailer x)) rows" for rows by simp
  then show ?case using reprice by (auto simp: catalog_ok_def simp del: map_map)
qed (auto simp: catalog_ok_def)

text \<open>Units keep their identity, and their package while they have history or prices.\<close>

definition units_kept :: "store \<Rightarrow> store \<Rightarrow> bool" where
  "units_kept db db' \<longleftrightarrow> (\<forall>sku code. clean sku code db' \<longrightarrow> clean sku code db) \<and>
     (\<forall>k \<in> set (t_skus db). \<exists>k' \<in> set (t_skus db'). identity k' = identity k \<and>
        (k_package k' = k_package k \<or> clean (k_id k) (k_code k) db))"

lemma units_kept_trans:
  assumes "units_kept a b" and "units_kept b c"
  shows "units_kept a c"
  unfolding units_kept_def
proof (intro conjI allI ballI impI)
  show "clean sku code c \<Longrightarrow> clean sku code a" for sku code using assms by (auto simp: units_kept_def)
  fix k assume "k \<in> set (t_skus a)"
  then obtain k1 where k1: "k1 \<in> set (t_skus b)" "identity k1 = identity k"
      "k_package k1 = k_package k \<or> clean (k_id k) (k_code k) a"
    using assms(1) unfolding units_kept_def by blast
  then obtain k2 where k2: "k2 \<in> set (t_skus c)" "identity k2 = identity k1"
      "k_package k2 = k_package k1 \<or> clean (k_id k1) (k_code k1) b"
    using assms(2) unfolding units_kept_def by blast
  have "clean (k_id k) (k_code k) b \<Longrightarrow> clean (k_id k) (k_code k) a" using assms(1) by (simp add: units_kept_def)
  then show "\<exists>k' \<in> set (t_skus c). identity k' = identity k \<and> (k_package k' = k_package k \<or> clean (k_id k) (k_code k) a)"
    using k1 k2 by (intro bexI [of _ k2]) (auto simp: identity_def)
qed

lemma units_kept_more:
  assumes "t_orders db' = t_orders db" "t_movements db' = t_movements db" "t_reservations db' = t_reservations db"
    and stocks: "set (t_stocks db) \<subseteq> set (t_stocks db')" and skus: "set (t_skus db) \<subseteq> set (t_skus db')"
    and prices: "(\<lambda>x. (x_sku x, x_deleted x)) ` set (t_prices db) \<subseteq> (\<lambda>x. (x_sku x, x_deleted x)) ` set (t_prices db')"
  shows "units_kept db db'"
proof -
  have live: "live_prices sku d = [] \<longleftrightarrow> (sku, False) \<notin> (\<lambda>x. (x_sku x, x_deleted x)) ` set (t_prices d)" for sku d
    by (auto simp: live_prices_def filter_empty_conv image_iff)
  have "live_prices sku db = []" if "live_prices sku db' = []" for sku
    using that prices unfolding live by blast
  moreover have "has_identity_use_history sku code db'" if "has_identity_use_history sku code db" for sku code
    using that stocks unfolding has_identity_use_history_def assms(1-3) by blast
  ultimately show ?thesis using skus by (auto simp: units_kept_def clean_def)
qed

lemma units_kept_mapped:
  assumes "t_orders db' = t_orders db" "t_movements db' = t_movements db" "t_reservations db' = t_reservations db"
    "t_stocks db' = t_stocks db" "t_prices db' = t_prices db" and skus: "t_skus db' = map g (t_skus db)"
    and g: "\<And>k. k \<in> set (t_skus db) \<Longrightarrow>
      identity (g k) = identity k \<and> (k_package (g k) = k_package k \<or> clean (k_id k) (k_code k) db)"
  shows "units_kept db db'"
proof -
  have "clean sku code db' = clean sku code db" for sku code
    using assms(1-5) by (simp add: clean_def has_identity_use_history_def live_prices_def)
  moreover have "\<exists>k' \<in> set (t_skus db'). identity k' = identity k \<and> (k_package k' = k_package k \<or> clean (k_id k) (k_code k) db)"
    if "k \<in> set (t_skus db)" for k
    using g [OF that] that by (intro bexI [of _ "g k"]) (simp_all add: skus)
  ultimately show ?thesis by (simp add: units_kept_def)
qed

lemma units_kept_move: "catalog_move a b \<Longrightarrow> catalog_ok a \<Longrightarrow> units_kept a b"
proof (induction rule: catalog_move.induct)
  case (rename c db c' f)
  then show ?case
    by (intro units_kept_mapped [where g = "\<lambda>k. if k_catalog k = c_id c then f k else k"])
      (simp_all add: sync_units_def put_product_def)
next
  case (change k db k')
  have pkg: "k_package k' = k_package k \<or> clean (k_id k) (k_code k) db"
    using change(1,4) change.prems by (simp add: catalog_ok_def)
  show ?case
  proof (rule units_kept_mapped [where g = "\<lambda>y. if k_id y = k_id k' then k' else y"])
    fix y assume y: "y \<in> set (t_skus db)"
    show "identity (if k_id y = k_id k' then k' else y) = identity y \<and>
        (k_package (if k_id y = k_id k' then k' else y) = k_package y \<or> clean (k_id y) (k_code y) db)"
    proof (cases "k_id y = k_id k'")
      case True
      then have "y = k"
        using y change(1,2) change.prems by (auto simp: catalog_ok_def distinct_map identity_def dest: inj_onD)
      then show ?thesis using change(2) pkg True by simp
    qed simp
  qed (simp_all add: put_sku_def row_put_def)
next
  case (reprice x db P)
  have "map (\<lambda>x. (x_sku x, x_deleted x)) (map (\<lambda>r. if P r then r\<lparr>x_price := x\<rparr> else r) rows) =
      map (\<lambda>x. (x_sku x, x_deleted x)) rows" for rows by simp
  from arg_cong [where f = set, OF this [of "t_prices db"]]
  have "(\<lambda>x. (x_sku x, x_deleted x)) ` set (map (\<lambda>r. if P r then r\<lparr>x_price := x\<rparr> else r) (t_prices db)) =
      (\<lambda>x. (x_sku x, x_deleted x)) ` set (t_prices db)" by (simp only: set_map)
  then show ?case by (intro units_kept_more) (simp_all del: set_map)
qed (rule units_kept_more; simp add: subset_insertI)+

interpretation units_law: move_law "\<lambda>a b. catalog_ok a \<longrightarrow> catalog_ok b \<and> units_kept a b"
proof
  show "catalog_ok db \<longrightarrow> catalog_ok db \<and> units_kept db db" for db by (auto simp: units_kept_def)
  show "catalog_ok a \<longrightarrow> catalog_ok c \<and> units_kept a c"
    if "catalog_ok a \<longrightarrow> catalog_ok b \<and> units_kept a b" "catalog_ok b \<longrightarrow> catalog_ok c \<and> units_kept b c" for a b c
    using that units_kept_trans [of a b c] by simp
  show "catalog_ok a \<longrightarrow> catalog_ok b \<and> units_kept a b" if "catalog_move a b" for a b
    using units_kept_move [OF that] catalog_ok_move [OF that] by simp
qed


section \<open>Every request is a sequence of moves\<close>

lemma draw_moves [simp]: "catalog_move db (db\<lparr>t_drawn := Suc (t_drawn db)\<rparr>)"
  using catalog_move.draw [of db] by simp

lemma moves_after_draw: "catalog_moves (db\<lparr>t_drawn := Suc (t_drawn db)\<rparr>) db' \<Longrightarrow> catalog_moves db db'"
  by (rule converse_rtranclp_into_rtranclp [of catalog_move, OF draw_moves])

lemma write_package_Inr: "write_package q = Inr q' \<Longrightarrow> package_input_ok q' \<and> q' = numeric_scale 3 q"
  by (auto simp: write_package_def package_input_ok_def split: if_splits)

lemma write_package_input: "package_input_ok q \<Longrightarrow> write_package q = Inr q"
  by (auto simp: write_package_def package_input_ok_def)

lemma insert_sku_move:
  "insert_sku k db = Inr db' \<Longrightarrow> c \<in> set (t_catalog db) \<Longrightarrow> k_catalog k = c_id c \<Longrightarrow> names k = product_names c \<Longrightarrow>
   catalog_move db db' \<and> t_catalog db' = t_catalog db"
  by (auto simp: insert_sku_def result_simps names_def intro!: catalog_move.new_sku dest!: write_package_Inr)

lemma flush_Inr [result_simps]: "flush_skus_or_409 rows db = Inr db' \<longleftrightarrow> foldE insert_sku rows db = Inr db'"
  by (simp add: flush_skus_or_409_def map_error_def split: sum.splits)

lemma flush_moves:
  assumes "flush_skus_or_409 rows db = Inr db'" and "c \<in> set (t_catalog db)"
    and "\<forall>k \<in> set rows. k_catalog k = c_id c \<and> names k = product_names c"
  shows "catalog_moves db db' \<and> t_catalog db' = t_catalog db"
  using assms
proof (induction rows arbitrary: db)
  case (Cons k rows)
  then obtain d where d: "insert_sku k db = Inr d" "foldE insert_sku rows d = Inr db'" by (auto simp: result_simps)
  with Cons.prems have "catalog_move db d \<and> t_catalog d = t_catalog db" by (intro insert_sku_move) auto
  with Cons.IH [of d] Cons.prems d show ?case
    by (auto simp: result_simps intro: converse_rtranclp_into_rtranclp)
qed (simp add: result_simps)

lemma ensure_stock_moves:
  "ensure_stock_row sku db = Inr (s, db') \<Longrightarrow> catalog_moves db db' \<and> t_skus db' = t_skus db"
  by (auto simp: ensure_stock_row_def Let_def fresh_stock_def [symmetric] split: option.splits if_splits
      intro!: catalog_move.stock)

lemma ensure_stocks_moves: "ensure_stock_rows rows db = Inr db' \<Longrightarrow> catalog_moves db db'"
proof (induction rows arbitrary: db)
  case (Cons k rows)
  then show ?case
    by (auto simp: ensure_stock_rows_def result_simps split: prod.splits dest!: ensure_stock_moves intro: rtranclp_trans)
qed (simp add: ensure_stock_rows_def)

lemma draw_units_moves:
  "draw_units c ns db = (rows, db') \<Longrightarrow> catalog_moves db db' \<and> t_catalog db' = t_catalog db \<and>
     (\<forall>k \<in> set rows. k_catalog k = c_id c \<and> names k = product_names c)"
proof (induction ns arbitrary: db rows)
  case (Cons n ns)
  obtain rows' where d: "draw_units c ns (db\<lparr>t_drawn := Suc (t_drawn db)\<rparr>) = (rows', db')"
    and rows: "rows = unit_of c (t_uuids db (t_drawn db)) (nu_code n) (nu_unit n) (nu_package n) (nu_active n) # rows'"
    using Cons.prems by (auto simp: draw_uuid_def Let_def split: prod.splits)
  have "catalog_moves db db'" using Cons.IH [OF d] moves_after_draw by simp
  then show ?case using Cons.IH [OF d] by (auto simp: rows unit_of_def names_def product_names_def)
qed simp

lemma live_product_Some: "live_product db pid = Some c \<Longrightarrow> c \<in> set (t_catalog db) \<and> c_id c = pid \<and> \<not> c_deleted c"
  by (auto simp: live_product_def find_Some_iff)

lemma lock_sku_Some: "lock_sku_row sku db = Some k \<Longrightarrow> k \<in> set (t_skus db) \<and> k_id k = sku \<and> \<not> k_deleted k"
  by (auto simp: lock_sku_row_def find_Some_iff)

lemma insert_product_move: "insert_product c db = Inr db' \<Longrightarrow> catalog_move db db' \<and> c \<in> set (t_catalog db')"
  by (auto simp: insert_product_def split: if_splits intro: catalog_move.product)

lemma new_units_moves:
  assumes c: "c \<in> set (t_catalog db)" and d: "draw_units c ns db = (rows, db1)"
    and f: "flush_skus_or_409 rows db1 = Inr db2" and s: "ensure_stock_rows rows db2 = Inr db3"
  shows "catalog_moves db db3"
proof -
  note u = draw_units_moves [OF d]
  then have "catalog_moves db1 db2" using flush_moves [OF f] c by simp
  then show ?thesis using u ensure_stocks_moves [OF s] by (meson rtranclp_trans)
qed

lemma reload_Inr [result_simps]: "reload_product_graph pid db = Inr (r, db') \<longleftrightarrow>
   db' = db \<and> (\<exists>c. live_product db pid = Some c \<and> r = (c, filter (\<lambda>k. k_catalog k = pid) (t_skus db)))"
  by (auto simp: reload_product_graph_def split: option.splits)

lemma create_product_moves:
  assumes "create_product race n db = Inr (r, db')"
  shows "catalog_moves (race db) db'"
proof -
  define c where "c = \<lparr>c_id = t_uuids (race db) (t_drawn (race db)), c_name = np_name n, c_description = np_description n,
      c_category = np_category n, c_active = np_active n, c_deleted = False\<rparr>"
  obtain d1 rows d2 d3 where d1: "insert_product c (race db\<lparr>t_drawn := Suc (t_drawn (race db))\<rparr>) = Inr d1"
    and d: "draw_units c (np_units n) d1 = (rows, d2)" "flush_skus_or_409 rows d2 = Inr d3" "ensure_stock_rows rows d3 = Inr db'"
    using assms by (auto simp: create_product_def Let_def result_simps draw_uuid_def c_def split_beta
        intro: that [OF _ prod.collapse [symmetric]])
  note i = insert_product_move [OF d1]
  then have "catalog_moves d1 db'" using d by (blast intro: new_units_moves)
  then show ?thesis using i draw_moves [of "race db"] by (meson converse_rtranclp_into_rtranclp)
qed

lemma add_sellable_unit_moves:
  assumes same: "t_catalog (race db) = t_catalog db" and run: "add_sellable_unit race pid n db = Inr (r, db')"
  shows "catalog_moves (race db) db'"
proof -
  obtain c rows d2 d3 where "get_product db pid = Inr c" and d: "draw_units c [n] (race db) = (rows, d2)"
      "flush_skus_or_409 rows d2 = Inr d3" "ensure_stock_rows rows d3 = Inr db'"
    using run by (auto simp: add_sellable_unit_def Let_def result_simps split_beta simp del: draw_units.simps
        intro: that [OF _ prod.collapse [symmetric]])
  then have "c \<in> set (t_catalog (race db))"
    using live_product_Some same by (auto simp: get_product_def bind_eq_Some_conv split: option.splits)
  with d show ?thesis by (blast intro: new_units_moves)
qed


lemma some_Inr: "(case p of None \<Rightarrow> Inl e | Some x \<Rightarrow> f x) = Inr y \<longleftrightarrow> (\<exists>x. p = Some x \<and> f x = Inr y)"
  by (cases p) simp_all

lemma get_product_Inr: "get_product db pid = Inr c \<Longrightarrow> c \<in> set (t_catalog db) \<and> live_product db (c_id c) = Some c"
  using live_product_Some by (fastforce simp: get_product_def bind_eq_Some_conv split: option.splits)

lemma create_sku_moves:
  assumes run: "create_sku race product code nm description u q category active db = Inr (r, db')"
  shows "catalog_moves (race db) db'"
proof -
  define p where "p = \<lparr>c_id = t_uuids (race db) (t_drawn (race db)), c_name = nm, c_description = description,
      c_category = category, c_active = active, c_deleted = False\<rparr>"
  obtain c d1 d2 x where
      c: "insert_product p (race db\<lparr>t_drawn := Suc (t_drawn (race db))\<rparr>) = Inr d1 \<and> c = p \<or> d1 = race db \<and> c \<in> set (t_catalog d1)"
    and f: "flush_skus_or_409 [unit_of c (t_uuids d1 (t_drawn d1)) code u q active] (d1\<lparr>t_drawn := Suc (t_drawn d1)\<rparr>) = Inr d2"
    and e: "ensure_stock_row (t_uuids d1 (t_drawn d1)) d2 = Inr (x, db')"
    using run by (auto simp: create_sku_def Let_def draw_uuid_def p_def bindE_Inr ensure_Inr bind_eq_Some_conv some_Inr
        split: if_splits dest!: live_product_Some)
  have first: "catalog_moves (race db) d1 \<and> c \<in> set (t_catalog d1)"
    using c moves_after_draw [OF r_into_rtranclp] insert_product_move by blast
  have "catalog_moves (d1\<lparr>t_drawn := Suc (t_drawn d1)\<rparr>) d2"
    using flush_moves [OF f, of c] first by (simp add: unit_of_def names_def product_names_def)
  then show ?thesis using first moves_after_draw ensure_stock_moves [OF e] by (meson rtranclp_trans)
qed

text \<open>The gate lets a change pass only for a unit without history and prices.\<close>

definition gate_open :: "sku_row \<Rightarrow> rat option \<Rightarrow> store \<Rightarrow> bool" where
  "gate_open k new db \<longleftrightarrow> (package_quantity_changed (k_package k) new \<longrightarrow> clean (k_id k) (k_code k) db)"

lemma gate_Inr: "guard_package k new db = Inr x \<longleftrightarrow> gate_open k new db"
  by (auto simp: gate_open_def guard_package_def ensure_package_quantity_change_allowed_def clean_def split: if_splits)

lemma gated_package:
  assumes "gate_open k new db"
    and "write_package_update k new = Inr q'" and "package_input_ok (k_package k)"
  shows "package_input_ok q' \<and> (q' = k_package k \<or> clean (k_id k) (k_code k) db)"
  using assms write_package_Inr write_package_input
  by (auto simp: gate_open_def package_quantity_changed_def write_package_update_def split: option.splits)

lemma update_sku_moves:
  assumes run: "update_sku race code nm description u q category active db = Inr (r, db')"
  shows "catalog_moves (race db) db'"
proof -
  define d where "d = race db"
  obtain uid k c q' x where k: "lock_sku_row uid d = Some k"
    and gate: "gate_open k q d"
    and c: "row_find c_id (k_catalog k) (t_catalog d) = Some c"
    and q': "write_package_update k q = Inr q'"
    and e: "ensure_stock_row (k_id k) (sync_units (c_id c) (carry_names (renamed_product nm description category c))
         (put_product (renamed_product nm description category c) (put_sku (edited_unit u q' active k) d))) = Inr (x, db')"
    using run by (auto simp: update_sku_def d_def Let_def bindE_Inr gate_Inr some_Inr)
  have "catalog_move d (put_sku (edited_unit u q' active k) d)"
    using lock_sku_Some [OF k] gated_package [OF gate q']
    by (intro catalog_move.change) (auto simp: identity_def names_def edited_unit_def)
  moreover have "catalog_move (put_sku k' d) (sync_units (c_id c) (carry_names (renamed_product nm description category c))
      (put_product (renamed_product nm description category c) (put_sku k' d)))" for k'
    using row_find_Some [OF c]
    by (intro catalog_move.rename) (auto simp: put_sku_def renamed_product_def carry_names_def names_def product_names_def identity_def)
  ultimately show ?thesis
    using ensure_stock_moves [OF e] by (auto simp: d_def intro: converse_rtranclp_into_rtranclp)
qed

lemma update_product_moves:
  assumes run: "update_product pid nm description category active db = Inr (r, db')"
  shows "catalog_moves db db'"
proof -
  obtain c nm' active' where c: "get_product db pid = Inr c" "patch_column ''name'' (c_name c) nm = Inr nm'"
    and db': "(let c' = c\<lparr>c_name := nm', c_description := patch_nullable (c_description c) description,
                c_category := patch_nullable (c_category c) category, c_active := active'\<rparr>
       in db' = sync_units (c_id c) (\<lambda>k. k\<lparr>k_name := (if nm = Unset then k_name k else c_name c'),
                        k_description := (if description = Unset then k_description k else c_description c'),
                        k_category := (if category = Unset then k_category k else c_category c')\<rparr>) (put_product c' db))"
    using run by (auto simp: update_product_def result_simps Let_def)
  have "catalog_move db db'"
    using get_product_Inr [OF c(1)] c(2) unfolding db' [unfolded Let_def]
    by (intro catalog_move.rename)
      (auto simp: names_def product_names_def identity_def patch_column_def patch_nullable_def split: patch.splits)
  then show ?thesis by simp
qed

lemma update_sellable_unit_moves:
  assumes run: "update_sellable_unit race pid sku u q active db = Inr (r, db')"
  shows "catalog_moves (race db) db'"
proof -
  define d where "d = race db"
  define new where "new = (case q of Value x \<Rightarrow> Some x | _ \<Rightarrow> None)"
  obtain uid k q0 q' u' active' where k: "lock_sku_row uid d = Some k"
    and gate: "gate_open k new d"
    and q': "patch_column ''package_quantity'' (k_package k) q = Inr q0"
      "(if q = Unset then Inr (k_package k) else write_package q0) = Inr q'"
    and db': "db' = put_sku (k\<lparr>k_unit := u', k_package := q', k_active := active'\<rparr>) d"
    using run by (auto simp: update_sellable_unit_def d_def new_def Let_def bindE_Inr gate_Inr reload_Inr some_Inr)
  have "write_package_update k new = Inr q'"
    using q' by (auto simp: new_def write_package_update_def patch_column_def split: patch.splits)
  then have "catalog_move d db'"
    using lock_sku_Some [OF k] gated_package [OF gate] unfolding db'
    by (intro catalog_move.change) (auto simp: identity_def names_def)
  then show ?thesis by (simp add: d_def)
qed

lemma set_price_moves:
  assumes run: "set_price ret sku price db = Inr db'"
  shows "catalog_moves db db'"
proof -
  obtain x where x: "write_price price = Inr x" and db': "db' = db\<lparr>t_prices := map (\<lambda>r. if x_sku r = sku \<and> x_retailer r = ret \<and> \<not> x_deleted r then r\<lparr>x_price := x\<rparr> else r)
                 (t_prices db)\<rparr> \<or> (\<forall>r \<in> set (t_prices db). \<not> (x_sku r = sku \<and> x_retailer r = ret)) \<and>
     db' = db\<lparr>t_prices := t_prices db @ [\<lparr>x_sku = sku, x_retailer = ret, x_price = x, x_deleted = False\<rparr>]\<rparr>"
    using run by (auto simp: set_price_def result_simps split: option.splits if_splits)
  have "0 < x \<and> in_cents x" using x by (auto simp: write_price_def split: if_splits)
  then show ?thesis using db' by (auto intro!: catalog_move.reprice catalog_move.new_price)
qed

lemma serve_catalog_moves:
  assumes "serve_catalog c db = Inr db'"
  shows "catalog_moves db db'"
proof -
  have "run_catalog c db = Inr db'" using assms by (simp add: serve_catalog_def split: if_splits)
  then show ?thesis
  proof (cases c)
    case (Set_Price tenant ret sku price)
    then show ?thesis using \<open>run_catalog c db = Inr db'\<close>
      by (auto simp: result_simps set_retailer_price_def Let_def split: option.splits if_splits intro: set_price_moves)
  qed (auto simp: result_simps dest!: create_sku_moves update_sku_moves create_product_moves update_product_moves
      add_sellable_unit_moves [rotated] update_sellable_unit_moves)
qed


lemmas serve_catalog_step = step_law.moves_law [OF serve_catalog_moves]

section \<open>Properties\<close>

text \<open>
  A unit changes its package quantity only while nothing depends on it. Whatever other
  transactions commit before the row lock is granted, after a successful update through either entry
  (the SKU route or the sellable-unit route) every unit that was stored when the lock was taken still
  has its identity and product, and a unit whose package changed was then in no order, movement or
  reservation, had no stock, and had no live price.
\<close>

theorem package_change_needs_clean_unit:
  assumes "catalog_ok (race db)" and "k \<in> set (t_skus (race db))"
    and "(\<exists>r. update_sku race code nm description u q category active db = Inr (r, db')) \<or>
         (\<exists>r. update_sellable_unit race pid sku pu pq pactive db = Inr (r, db'))"
  shows "\<exists>k' \<in> set (t_skus db'). identity k' = identity k \<and>
    (k_package k' = k_package k \<or>
     \<not> has_identity_use_history (k_id k) (k_code k) (race db) \<and> live_prices (k_id k) (race db) = [])"
proof -
  have "catalog_moves (race db) db'" using assms(3) update_sku_moves update_sellable_unit_moves by blast
  then have "units_kept (race db) db'" using units_law.moves_law assms(1) by blast
  then show ?thesis using assms(2) by (auto simp: units_kept_def clean_def)
qed

lemma numeric_scale_of_int: "numeric_scale k (of_int n) = of_int n"
  using numeric_scale_grid [of k "n * 10 ^ k"] by simp

lemma scale3_numeral [simp]: "numeric_scale 3 (numeral n) = numeral n" "numeric_scale 3 1 = 1"
  using numeric_scale_of_int [of 3 "numeral n"] numeric_scale_of_int [of 3 1] by simp_all

lemma sample_catalog_ok: "catalog_ok sample_store"
  by (simp add: catalog_ok_def sample_defs names_def product_names_def package_input_ok_def)

text \<open>
  The store of a unit nobody has used: its package may change from 1 to 12; once a price is set, or an
  order is stored, while the update waits for the lock, the same update is refused.
\<close>

definition unused_store :: store where
  "unused_store = sample_store\<lparr>t_orders := [], t_stocks := [\<lparr>s_sku = 21, s_on_hand = 0, s_reserved = 0, s_deleted = False\<rparr>],
     t_prices := []\<rparr>"

lemmas update_sku_defs = update_sku_def get_by_code_def lock_sku_row_def guard_package_def package_quantity_changed_def
  ensure_package_quantity_change_allowed_def has_identity_use_history_def live_prices_def row_find_def write_package_update_def
  write_package_def renamed_product_def edited_unit_def put_sku_def put_product_def sync_units_def carry_names_def
  with_default_def ensure_stock_row_def find_stock_def

definition repacked_unit :: sku_row where
  "repacked_unit = \<lparr>k_id = 21, k_catalog = 31, k_code = ''MZ-1'', k_name = ''maize'', k_description = None, k_category = None,
     k_unit = ''bag'', k_package = 12, k_active = True, k_deleted = False\<rparr>"

lemma repacking_run:
  "update_sku no_race ''MZ-1'' None None None (Some 12) None None unused_store =
     Inr (repacked_unit, unused_store\<lparr>t_skus := [repacked_unit]\<rparr>)"
  by (simp add: update_sku_defs unused_store_def sample_store_def Let_def repacked_unit_def)

theorem package_change_needs_clean_unit_witness:
  "update_sku (\<lambda>_. sample_store) ''MZ-1'' None None None (Some 12) None None unused_store =
     Inl (conflict SKU_PACKAGE_QUANTITY_IMMUTABLE_AFTER_USE) \<and>
   \<not> has_identity_use_history 21 ''MZ-1'' unused_store"
proof -
  have ok: "catalog_ok (no_race unused_store)"
    using sample_catalog_ok by (simp add: unused_store_def catalog_ok_def sample_store_def)
  have k: "repacked_unit\<lparr>k_package := 1\<rparr> \<in> set (t_skus (no_race unused_store))"
    by (simp add: unused_store_def sample_store_def repacked_unit_def)
  have "\<not> has_identity_use_history 21 ''MZ-1'' unused_store"
    using package_change_needs_clean_unit [where race = no_race, OF ok k disjI1] repacking_run
    by (force simp: repacked_unit_def)
  moreover have "update_sku (\<lambda>_. sample_store) ''MZ-1'' None None None (Some 12) None None unused_store =
     Inl (conflict SKU_PACKAGE_QUANTITY_IMMUTABLE_AFTER_USE)"
    by (simp add: update_sku_defs unused_store_def sample_defs Let_def)
  ultimately show ?thesis by blast
qed

lemma num2_pos: "0 \<le> x \<Longrightarrow> 0 < num2 x \<longleftrightarrow> 1 / 200 \<le> x"
  by (auto simp: numeric_scale_def)

lemma num2_le: "0 \<le> x \<Longrightarrow> num2 x \<le> x + 1 / 200"
  by (simp add: numeric_scale_def divide_le_eq)

lemma get_price_update:
  "get_price (db\<lparr>t_prices := map (\<lambda>r. if x_sku r = sku \<and> x_retailer r = ret \<and> \<not> x_deleted r then r\<lparr>x_price := x\<rparr> else r) rows\<rparr>) ret' sku' =
     (if ret' = ret \<and> sku' = sku then map_option (\<lambda>_. x) (get_price (db\<lparr>t_prices := rows\<rparr>) ret sku)
      else get_price (db\<lparr>t_prices := rows\<rparr>) ret' sku')"
  by (induction rows) (auto simp: get_price_def)

lemma get_price_new:
  "get_price (db\<lparr>t_prices := rows @ [\<lparr>x_sku = sku, x_retailer = ret, x_price = x, x_deleted = False\<rparr>]\<rparr>) ret' sku' =
     (case get_price (db\<lparr>t_prices := rows\<rparr>) ret' sku' of Some y \<Rightarrow> Some y
      | None \<Rightarrow> if ret' = ret \<and> sku' = sku then Some x else None)"
  by (induction rows) (auto simp: get_price_def)

lemma sell_row_price: "sell_row_of db ret k = Some w \<Longrightarrow> w_price w = get_price db ret (k_id k)"
  by (auto simp: sell_row_of_def get_price_def split: option.splits)

lemma set_price_Inr:
  assumes live: "lock_sku_row sku db = Some k" and price: "write_price price = Inr x"
    and kept: "\<not> (\<exists>y \<in> set (t_prices db). x_sku y = sku \<and> x_retailer y = ret \<and> x_deleted y)"
  obtains rows where "set_price ret sku price db = Inr (db\<lparr>t_prices := rows\<rparr>)"
    "\<And>ret' sku'. get_price (db\<lparr>t_prices := rows\<rparr>) ret' sku' = (if ret' = ret \<and> sku' = sku then Some x else get_price db ret' sku')"
proof (cases "get_price db ret sku")
  case None
  then have "\<not> (\<exists>r \<in> set (t_prices db). x_sku r = sku \<and> x_retailer r = ret)"
    using kept by (auto simp: get_price_def find_None_iff)
  then show thesis using None live price
    by (intro that [of "t_prices db @ [\<lparr>x_sku = sku, x_retailer = ret, x_price = x, x_deleted = False\<rparr>]"])
      (auto simp: set_price_def get_price_new split: option.splits)
next
  case (Some y)
  then show thesis using live price
    by (intro that [OF _ trans [OF get_price_update]]) (auto simp: set_price_def)
qed

text \<open>
  Setting a price decides what the next order is charged. For a bound retailer and a live unit
  (before and after the wait for the lock), a price in the accepted range below half a cent is
  refused by the table's check, and any other price succeeds: it is stored rounded to cents and
  positive, is the price read back and the price the order routes offer, every other pair keeps its
  price, and nothing but the price table is written.
\<close>

theorem set_price_is_price_offered:
  assumes "price_input_ok price" and "assert_binding db tenant ret = Inr ()"
    and "lock_sku_row sku db = Some k0" and "lock_sku_row sku (race db) = Some k1"
    and "\<not> (\<exists>x \<in> set (t_prices (race db)). x_sku x = sku \<and> x_retailer x = ret \<and> x_deleted x)"
  shows "if price < 1 / 200
    then set_retailer_price race tenant (Canonical ret) (Canonical sku) price db = Inl (IntegrityError ''ck_retailer_prices_positive_price'')
    else \<exists>action prices. set_retailer_price race tenant (Canonical ret) (Canonical sku) price db = Inr (action, (race db)\<lparr>t_prices := prices\<rparr>) \<and>
      0 < num2 price \<and> get_price ((race db)\<lparr>t_prices := prices\<rparr>) ret sku = Some (num2 price) \<and>
      (\<forall>w. sell_row_of ((race db)\<lparr>t_prices := prices\<rparr>) ret k1 = Some w \<longrightarrow> w_price w = Some (num2 price)) \<and>
      (\<forall>ret' sku'. (ret', sku') \<noteq> (ret, sku) \<longrightarrow>
         get_price ((race db)\<lparr>t_prices := prices\<rparr>) ret' sku' = get_price (race db) ret' sku')"
proof -
  have k: "k_id k1 = sku" using lock_sku_Some [OF assms(4)] by simp
  have range: "0 \<le> price" "numeric12_fits price"
    using assms(1) num2_le [of price] numeric_scale_nonneg [of price 2] by (auto simp: price_input_ok_def numeric12_fits_def)
  have run: "set_retailer_price race tenant (Canonical ret) (Canonical sku) price db =
      bindE (set_price ret sku price (race db)) (\<lambda>db'. Inr (if get_price db ret sku \<noteq> None then Updated else Created, db'))"
    using assms(1-3) by (simp add: set_retailer_price_def Let_def)
  show ?thesis
  proof (cases "price < 1 / 200")
    case True
    then have "write_price price = Inl (IntegrityError ''ck_retailer_prices_positive_price'')"
      using range num2_pos [of price] by (simp add: write_price_def)
    then show ?thesis using True run assms(4) by (simp add: set_price_def)
  next
    case False
    then have pos: "0 < num2 price" using range num2_pos [of price] by simp
    then have "write_price price = Inr (num2 price)" using range by (simp add: write_price_def)
    from set_price_Inr [OF assms(4) this assms(5)] obtain rows where
        rows: "set_price ret sku price (race db) = Inr ((race db)\<lparr>t_prices := rows\<rparr>)"
      "\<And>ret' sku'. get_price ((race db)\<lparr>t_prices := rows\<rparr>) ret' sku' =
         (if ret' = ret \<and> sku' = sku then Some (num2 price) else get_price (race db) ret' sku')" by blast
    then show ?thesis using False run pos k by (auto dest: sell_row_price intro!: exI [of _ rows])
  qed
qed

theorem set_price_is_price_offered_witness:
  "(\<exists>action prices. set_retailer_price no_race 7 (Canonical 8) (Canonical 21) 60 sample_store =
      Inr (action, sample_store\<lparr>t_prices := prices\<rparr>)) \<and>
   set_retailer_price no_race 7 (Canonical 8) (Canonical 21) (1 / 1000) sample_store =
      Inl (IntegrityError ''ck_retailer_prices_positive_price'')"
proof -
  obtain k where live: "lock_sku_row 21 sample_store = Some k" by (simp add: lock_sku_row_def sample_store_def)
  have bound: "assert_binding sample_store 7 8 = Inr ()" by (simp add: assert_binding_def sample_store_def)
  have prices: "\<not> (\<exists>x \<in> set (t_prices (no_race sample_store)). x_sku x = 21 \<and> x_retailer x = 8 \<and> x_deleted x)"
    by (simp add: sample_store_def)
  show ?thesis
    using set_price_is_price_offered [where race = no_race and price = 60, OF _ bound live _ prices]
      set_price_is_price_offered [where race = no_race and price = "1 / 1000", OF _ bound live _ prices] live
    by (auto simp: price_input_ok_def)
qed

end
