(* ===== verification/Erp_Program.thy ===== *)
theory Erp_Program
  imports Catalog_Contract
begin

text \<open>
  The program as its HTTP interface shows it: one request at a time, each in a transaction of its
  own that is undone when the handler raises. The theory shows that every request with amounts in
  whole cents keeps the whole invariant \<open>erp_inv\<close>: the credit contract, the payment ids and keys, the
  references between tables, the declarations with their canonical keys, and the stock columns. The
  properties at the end follow it from a freshly provisioned tenant over any sequence of requests.
\<close>

section \<open>Requests\<close>

datatype request =
    Create_Order uuid "id_text option" order_request
  | Client_Create_Order uuid uuid "id_text option" "order_line list" "string option"
  | Confirm_Order id_text "uuid option"
  | Pay_Order id_text "uuid option" "pay_input option" "string option"
  | Fulfill_Order id_text "uuid option"
  | Cancel_Order id_text "uuid option"
  | Return_Order id_text "uuid option"
  | Client_Cancel_Order id_text uuid uuid "uuid option"
  | Adjust_Inventory string money string "id_text option"
  | Declare_Payment id_text uuid uuid uuid "decimal option" "pay_method option" "string option" "string option"
  | Confirm_Declaration id_text uuid uuid
  | Reject_Declaration id_text uuid uuid "string option"
  | Manage_Catalog catalog_request

fun serve :: "request \<Rightarrow> store \<Rightarrow> error + store" where
  "serve (Create_Order tenant usr req) db = bindE (create_order tenant usr req db) (\<lambda>(_, db'). Inr db')"
| "serve (Client_Create_Order tenant ret usr items notes) db =
     bindE (client_create_order tenant ret usr items notes db) (\<lambda>(_, db'). Inr db')"
| "serve (Confirm_Order oid usr) db = bindE (confirm_order_route oid usr db) (\<lambda>(_, db'). Inr db')"
| "serve (Pay_Order oid usr input header) db = bindE (pay_order no_race oid usr input header db) (\<lambda>(_, db'). Inr db')"
| "serve (Fulfill_Order oid usr) db = bindE (fulfill_order_route oid usr db) (\<lambda>(_, db'). Inr db')"
| "serve (Cancel_Order oid usr) db = bindE (cancel_order_route oid usr db) (\<lambda>(_, db'). Inr db')"
| "serve (Return_Order oid usr) db = bindE (return_order_route oid usr db) (\<lambda>(_, db'). Inr db')"
| "serve (Client_Cancel_Order oid tenant ret usr) db = bindE (client_cancel_order oid tenant ret usr db) (\<lambda>(_, db'). Inr db')"
| "serve (Adjust_Inventory code q reason usr) db = adjust_inventory_route code q reason usr db"
| "serve (Declare_Payment oid ret tenant usr amount m ref header) db =
     bindE (declare_payment no_race oid ret tenant usr amount m ref header db) (\<lambda>(_, db'). Inr db')"
| "serve (Confirm_Declaration did tenant usr) db =
     bindE (confirm_declaration_route no_race did tenant usr db) (\<lambda>(_, db'). Inr db')"
| "serve (Reject_Declaration did tenant usr reason) db =
     bindE (reject_declaration_route did tenant usr reason db) (\<lambda>(_, db'). Inr db')"
| "serve (Manage_Catalog c) db = serve_catalog c db"

text \<open>
  Payment amounts and stock adjustments in whole cents. This is a hypothesis of the properties of whole
  runs, not a check of the program: the schemas accept every positive \<open>Decimal\<close>, and with fractions of a cent
  several of the properties fail (theory \<open>Fractional_Amounts\<close>).
\<close>

fun exact_amounts :: "request \<Rightarrow> bool" where
  "exact_amounts (Pay_Order oid usr (Some f) header) \<longleftrightarrow>
     (case f_amount f of Some (Finite q) \<Rightarrow> in_cents q | _ \<Rightarrow> True)"
| "exact_amounts (Adjust_Inventory code q reason usr) \<longleftrightarrow> in_cents q"
| "exact_amounts _ \<longleftrightarrow> True"

section \<open>Frames\<close>

text \<open>
  What a command on one order leaves alone: ids, owners, totals and items of orders, declarations,
  and whose holds there are.
\<close>

definition owner :: "order_row \<Rightarrow> uuid \<times> uuid \<times> uuid \<times> bool \<times> money \<times> item_row list" where
  "owner ord = (o_id ord, o_wholesaler ord, o_retailer ord, o_deleted ord, o_total ord, o_items ord)"

lemma owner_with_status [simp]: "owner (with_status ord st usr) = owner ord"
  by (simp add: owner_def)

definition order_frame :: "store \<Rightarrow> store \<Rightarrow> bool" where
  "order_frame db db' \<longleftrightarrow> t_uuids db' = t_uuids db \<and> t_drawn db \<le> t_drawn db' \<and> t_declarations db' = t_declarations db \<and>
     map owner (t_orders db') = map owner (t_orders db) \<and>
     h_order ` set (t_holds db') \<subseteq> h_order ` set (t_holds db) \<union> o_id ` set (t_orders db)"

lemma row_put_keys: "key ` set (row_put key r rows) = key ` set rows"
  by (metis list.set_map map_key_row_put)

lemma owners_ids: "map owner xs = map owner ys \<Longrightarrow> o_id ` set xs = o_id ` set ys"
  by (drule arg_cong [of _ _ "\<lambda>l. fst ` set l"]) (simp add: image_image owner_def)

lemma owners_put:
  assumes "distinct (map o_id xs)" and "ord \<in> set xs"
  shows "map owner (row_put o_id (with_status ord st usr) xs) = map owner xs"
proof -
  have "owner (with_status ord st usr) = owner x" if "x \<in> set xs" "o_id x = o_id ord" for x
    using that assms by (auto simp: distinct_map dest: inj_onD)
  then show ?thesis by (simp add: row_put_def)
qed

lemma order_frame_stock: "stock_step db db' \<Longrightarrow> order_frame db db'"
  using stock_step_tables [of db db'] by (simp add: order_frame_def stock_step_def)

lemma order_frame_money:
  "money_step db db' \<Longrightarrow> map owner (t_orders db') = map owner (t_orders db) \<Longrightarrow>
   h_order ` set (t_holds db') \<subseteq> h_order ` set (t_holds db) \<Longrightarrow> order_frame db db'"
  by (auto simp: order_frame_def money_step_def)

lemma order_frame_trans:
  assumes "order_frame a b" and "order_frame b c"
  shows "order_frame a c"
proof -
  have ids: "o_id ` set (t_orders b) = o_id ` set (t_orders a)"
    using assms(1) owners_ids [of "t_orders b" "t_orders a"] by (simp add: order_frame_def)
  have "h_order ` set (t_holds c) \<subseteq> h_order ` set (t_holds a) \<union> o_id ` set (t_orders a)"
    using assms unfolding order_frame_def ids by blast
  then show ?thesis using assms unfolding order_frame_def by simp
qed

lemma order_frame_put:
  assumes "order_frame db db'" and "t_orders db' = t_orders db" and "distinct (map o_id (t_orders db))"
    and "live_order db oid = Some ord"
  shows "order_frame db (put_order (with_status ord st usr) db')"
  using assms owners_put [of "t_orders db" ord st usr] live_order_Some [OF assms(4)] by (simp add: order_frame_def)

lemma command_frame:
  assumes inv: "store_inv db"
  shows "confirm_order oid usr db = Inr (r, db') \<Longrightarrow> order_frame db db' \<and> t_payments db' = t_payments db"
    and "cancel_order oid usr db = Inr (r, db') \<Longrightarrow> order_frame db db' \<and> t_payments db' = t_payments db"
    and "fulfill_order oid usr db = Inr (r, db') \<Longrightarrow> order_frame db db' \<and> t_payments db' = t_payments db"
    and "return_order oid usr db = Inr (r, db') \<Longrightarrow> order_frame db db' \<and> t_payments db' = t_payments db"
proof -
  have keys: "distinct (map (\<lambda>b. (b_wholesaler b, b_retailer b)) (t_bindings db))" and acc: "accounted db"
    and ids: "distinct (map o_id (t_orders db))"
    using inv by (simp_all add: store_inv_def store_keys_def)
  show "order_frame db db' \<and> t_payments db' = t_payments db" if "confirm_order oid usr db = Inr (r, db')"
    using keys that
  proof (rule confirm_order_effect)
    fix ord actor db1 db2
    assume live: "live_order db oid = Some ord" and step: "stock_step db db1"
      and db2: "db2 = put_order (with_status ord CONFIRMED usr) db1"
      and db': "db' = db2\<lparr>t_drawn := Suc (t_drawn db2),
             t_holds := t_holds db @ [fresh_hold ord actor (t_uuids db (t_drawn db2))],
             t_bindings := bump_bindings (o_wholesaler ord) (o_retailer ord) (o_total ord) (t_bindings db)\<rparr>"
    note t = stock_step_tables [OF step]
    have "o_id ord \<in> o_id ` set (t_orders db)" using live_order_Some [OF live] by blast
    then show ?thesis using order_frame_put [OF order_frame_stock [OF step] _ ids live, of CONFIRMED usr] t
      by (auto simp: order_frame_def db' db2 fresh_hold_def)
  qed
  show "order_frame db db' \<and> t_payments db' = t_payments db" if "cancel_order oid usr db = Inr (r, db')"
    using keys acc that
  proof (rule cancel_order_effect)
    fix ord db1
    assume live: "live_order db oid = Some ord" and step: "stock_step db db1"
      and db': "db' = put_order (with_status ord CANCELLED usr) db1"
    show ?thesis using order_frame_put [OF order_frame_stock [OF step] _ ids live] stock_step_tables [OF step] by (simp add: db')
  next
    fix ord db1 h
    assume live: "live_order db oid = Some ord" and step: "stock_step db db1"
      and db': "db' = put_order (with_status ord CANCELLED usr) ((put_hold (released_hold h usr) db1)
       \<lparr>t_bindings := bump_bindings (o_wholesaler ord) (o_retailer ord) (- o_total ord) (t_bindings db)\<rparr>)"
    show ?thesis using order_frame_put [OF order_frame_stock [OF step] _ ids live, of CANCELLED usr] stock_step_tables [OF step]
      by (simp add: db' order_frame_def row_put_keys)
  qed
  show "order_frame db db' \<and> t_payments db' = t_payments db" if "fulfill_order oid usr db = Inr (r, db')"
    using that
  proof (rule fulfill_order_effect)
    fix ord db1
    assume live: "live_order db oid = Some ord" and step: "stock_step db db1"
      and db': "db' = put_order (with_status ord FULFILLED usr) db1"
    show ?thesis using order_frame_put [OF order_frame_stock [OF step] _ ids live] stock_step_tables [OF step] by (simp add: db')
  qed
  show "order_frame db db' \<and> t_payments db' = t_payments db" if "return_order oid usr db = Inr (r, db')"
    using that
  proof (rule return_order_effect)
    fix ord posted db1 db2
    assume live: "live_order db oid = Some ord" and post: "post_order_return oid (o_total ord) db = Inr (posted, db1)" and step: "stock_step db1 db2"
      and db': "db' = put_order (with_status ord RETURNED usr) db2"
    note f = order_return_frame [OF post]
    have "money_step db db1" using post unfolding post_order_return_def by (rule money_step_posting)
    then have "order_frame db db1" using f by (intro order_frame_money) simp_all
    then have "order_frame db db2" using order_frame_stock [OF step] by (rule order_frame_trans)
    then show ?thesis using order_frame_put [OF _ _ ids live] f stock_step_tables [OF step] by (simp add: db')
  qed
qed

section \<open>The whole invariant\<close>

definition erp_inv :: "store \<Rightarrow> bool" where
  "erp_inv db \<longleftrightarrow> pay_inv db \<and> references db \<and> declarations_ok db \<and> on_hand_cents db"

lemma references_frame:
  assumes refs: "references db" and f: "order_frame db db'"
    and pays: "p_order ` set (t_payments db') \<subseteq> p_order ` set (t_payments db) \<union> o_id ` set (t_orders db)"
  shows "references db'"
proof -
  have ids: "o_id ` set (t_orders db') = o_id ` set (t_orders db)"
    using f owners_ids [of "t_orders db'" "t_orders db"] by (simp add: order_frame_def)
  have old: "h_order ` set (t_holds db) \<subseteq> o_id ` set (t_orders db)" "p_order ` set (t_payments db) \<subseteq> o_id ` set (t_orders db)"
    using refs by (simp_all add: references_def)
  have "h_order ` set (t_holds db') \<subseteq> o_id ` set (t_orders db)" using f old(1) unfolding order_frame_def by blast
  moreover have "p_order ` set (t_payments db') \<subseteq> o_id ` set (t_orders db)" using pays old(2) by blast
  moreover have "t_uuids db' = t_uuids db" "t_drawn db \<le> t_drawn db'" using f by (simp_all add: order_frame_def)
  ultimately show ?thesis using refs unfolding references_def ids by simp
qed

lemma payment_ids_frame:
  assumes "payment_ids db" and "order_frame db db'" and "t_payments db' = t_payments db"
  shows "payment_ids db'"
proof -
  have "t_uuids db ` {..<t_drawn db} \<subseteq> t_uuids db ` {..<t_drawn db'}"
    using assms(2) by (intro image_mono) (auto simp: order_frame_def)
  then show ?thesis using assms by (auto simp: payment_ids_def order_frame_def)
qed

text \<open>A command that keeps the credit contract and touches no payment keeps everything.\<close>

lemma erp_inv_command:
  assumes inv: "erp_inv db" and store: "store_inv db'" and sound: "sound_step db db'"
    and f: "order_frame db db' \<and> t_payments db' = t_payments db"
  shows "erp_inv db'"
proof -
  have "payment_cores db' = payment_cores db" using f by (simp add: payment_cores_def)
  then have "declaration_frame db db'" using f by (intro declaration_frame_same) (simp_all add: order_frame_def)
  then have "declarations_ok db'" using inv declarations_ok_frame unfolding erp_inv_def by blast
  moreover have "references db'" using inv f by (auto simp: erp_inv_def intro: references_frame [of db])
  moreover have "payment_ids db'" using inv f payment_ids_frame unfolding erp_inv_def pay_inv_def by blast
  ultimately show ?thesis using inv store sound by (simp add: erp_inv_def pay_inv_def sound_step_def)
qed

lemma locked_payment_orders:
  assumes inv: "store_inv db" and live: "live_order db oid = Some ord"
    and run: "confirm_payment_for_locked_order no_race ord a m txn key usr force alloc db = Inr (pr, db')"
  shows "order_frame db db' \<and> p_order ` set (t_payments db') \<subseteq> p_order ` set (t_payments db) \<union> o_id ` set (t_orders db) \<and>
    (\<exists>new. payment_cores db' = payment_cores db @ new \<and> (\<forall>p \<in> set new. p_key p = Some key))"
proof -
  have ids: "distinct (map o_id (t_orders db))" and ord: "ord \<in> set (t_orders db)"
    using inv live_order_Some [OF live] by (simp_all add: store_inv_def store_keys_def)
  have mem: "o_id ord \<in> o_id ` set (t_orders db)" using live_order_Some [OF live] by blast
  have orders: "p_order ` set (t_payments d) = p_order ` set (payment_cores d)" for d
    by (auto simp: payment_cores_def image_image)
  have paid: "order_frame db db' \<and> p_order ` set (t_payments db') \<subseteq> p_order ` set (t_payments db) \<union> o_id ` set (t_orders db) \<and>
    (\<exists>new. payment_cores db' = payment_cores db @ new \<and> (\<forall>p \<in> set new. p_key p = Some key))"
    if row: "paid_row db db' ord q m txn key" and step: "money_step db db'"
      and tables: "map owner (t_orders db') = map owner (t_orders db)" "h_order ` set (t_holds db') = h_order ` set (t_holds db)" for q
  proof -
    from row obtain p where p: "payment_cores db' = payment_cores db @ [payment_core p]" "p_order p = o_id ord"
        "p_key p = Some key" by (auto simp: paid_row_def)
    have "p_order ` set (t_payments db') \<subseteq> p_order ` set (t_payments db) \<union> o_id ` set (t_orders db)"
      unfolding orders p(1) using mem p(2) by simp
    moreover have "\<exists>new. payment_cores db' = payment_cores db @ new \<and> (\<forall>p \<in> set new. p_key p = Some key)"
      using p by (intro exI [of _ "[payment_core p]"]) simp
    moreover have "order_frame db db'" using step tables by (intro order_frame_money) simp_all
    ultimately show ?thesis by blast
  qed
  show ?thesis
    using store_inv_parts(1) [OF inv live] run
  proof (rule locked_payment_effect)
    assume "db' = db"
    then show ?thesis by (simp add: order_frame_def)
  next
    fix q h assume "paid_row db db' ord q m txn key" "money_step db db'" "t_orders db' = t_orders db" "t_holds db' = t_holds db"
    then show ?thesis by (intro paid) simp_all
  next
    fix q h assume "m = Credit" and row: "paid_row db db' ord q m txn key" "money_step db db'"
      and tables: "t_orders db' = row_put o_id (with_status ord
         (if o_total ord \<le> get_order_paid_total db (o_id ord) + q then PAID else PARTIALLY_PAID) usr) (t_orders db)"
      "t_holds db' = row_put h_order (converted_hold h usr) (t_holds db)"
    from row show ?thesis by (intro paid) (simp_all add: tables row_put_keys owners_put [OF ids ord])
  next
    fix q h assume row: "paid_row db db' ord q m txn key" "money_step db db'"
      and tables: "t_orders db' = row_put o_id (with_status ord
         (if o_total ord \<le> get_order_paid_total db (o_id ord) + q then PAID else PARTIALLY_PAID) usr) (t_orders db)"
      "t_holds db' = row_put h_order (reduced_hold h q usr) (t_holds db)"
    from row show ?thesis by (intro paid) (simp_all add: tables row_put_keys owners_put [OF ids ord])
  qed
qed

section \<open>Every request keeps the invariant\<close>

lemma payment_keeps_inv:
  assumes inv: "erp_inv db" and cents: "in_cents q" and pub: "public_key key"
    and run: "confirm_payment no_race oid (Finite q) m txn key usr force alloc db = Inr (pr, db')"
  shows "erp_inv db'"
proof (cases "get_by_idempotency_key db key")
  case (Some p)
  with run have "db' = db"
    by (auto simp: confirm_payment_def replay_result_def result_simps split: option.splits if_splits)
  then show ?thesis using inv by simp
next
  case None
  with run obtain ord u where live: "live_order db u = Some ord"
    and locked: "confirm_payment_for_locked_order no_race ord (Finite q) m txn key usr force alloc db = Inr (pr, db')"
    by (auto simp: confirm_payment_def get_order_by_id_for_update_def result_simps split: option.splits)
  have store: "store_inv db" and ok: "declarations_ok db" and refs: "references db"
    using inv by (simp_all add: erp_inv_def pay_inv_def)
  note f = locked_payment_orders [OF store live locked]
  have pay: "pay_inv db'"
    using submit_payment_inv [OF _ _ locked_is_submission [OF None live locked]] inv cents
    by (simp add: whole_cents_def erp_inv_def)
  have "declaration_frame db db'" using f pub by (auto simp: declaration_frame_def order_frame_def)
  then have "declarations_ok db'" using ok declarations_ok_frame by blast
  moreover have "references db'" using references_frame [OF refs] f by blast
  moreover have "on_hand_cents db'"
    using payment_sound [OF store run] inv by (simp add: sound_step_def erp_inv_def)
  ultimately show ?thesis using pay by (simp add: erp_inv_def)
qed

lemma crud_keeps_inv:
  assumes inv: "erp_inv db" and run: "crud_create_order ws ret lines notes usr db = Inr (ord, db')"
  shows "erp_inv db'"
  using run
proof (rule crud_create_order_Inr)
  assume db': "db' = db\<lparr>t_drawn := t_drawn db + Suc (length lines), t_orders := t_orders db @ [ord]\<rparr>"
    and ord: "o_id ord = t_uuids db (t_drawn db)" "o_status ord = DRAFT" "o_total ord = num2 (\<Sum>y\<leftarrow>lines. line_subtotal y)"
  have refs: "references db" and store: "store_inv db" using inv by (simp_all add: erp_inv_def pay_inv_def)
  have "store_inv db'" unfolding db' using store refs ord by (intro store_inv_new_order) simp_all
  moreover have "references db'"
  proof -
    have "inj (t_uuids db)" using refs by (simp add: references_def)
    then have "t_uuids db n \<noteq> o_id ord" if "t_drawn db < n" for n using that unfolding ord(1) by (auto dest: injD)
    then show ?thesis using refs unfolding references_def db' by (auto simp: Suc_le_eq)
  qed
  moreover have "payment_ids db'"
  proof -
    have "t_uuids db ` {..<t_drawn db} \<subseteq> t_uuids db ` {..<t_drawn db + Suc (length lines)}" by (intro image_mono) auto
    then show ?thesis using inv unfolding payment_ids_def db' erp_inv_def pay_inv_def by auto
  qed
  moreover have "declarations_ok db'"
  proof (rule declarations_ok_frame)
    show "declaration_frame db db'" by (rule declaration_frame_same) (simp_all add: db' payment_cores_def)
  qed (use inv in \<open>simp add: erp_inv_def\<close>)
  moreover have "on_hand_cents db'" using inv by (simp add: erp_inv_def db' on_hand_cents_def)
  ultimately show ?thesis by (simp add: erp_inv_def pay_inv_def)
qed

lemma command_keeps_inv:
  assumes inv: "erp_inv db"
  shows "confirm_order oid usr db = Inr (r, db') \<Longrightarrow> erp_inv db'"
    and "cancel_order oid usr db = Inr (r, db') \<Longrightarrow> erp_inv db'"
    and "fulfill_order oid usr db = Inr (r, db') \<Longrightarrow> erp_inv db'"
    and "return_order oid usr db = Inr (r, db') \<Longrightarrow> erp_inv db'"
proof -
  have store: "store_inv db" using inv by (simp add: erp_inv_def pay_inv_def)
  note e = erp_inv_command [OF inv] and s = order_command_sound [OF store] and f = command_frame [OF store]
  show "erp_inv db'" if "confirm_order oid usr db = Inr (r, db')"
    using that by (intro e confirm_keeps [OF store] s(1) f(1))
  show "erp_inv db'" if "cancel_order oid usr db = Inr (r, db')"
    using that by (intro e cancel_keeps [OF store] s(2) f(2))
  show "erp_inv db'" if "fulfill_order oid usr db = Inr (r, db')"
    using that by (intro e fulfill_keeps [OF store] s(3) f(3))
  show "erp_inv db'" if "return_order oid usr db = Inr (r, db')"
    using that by (intro e return_keeps [OF store] s(4) f(4))
qed

lemma adjustment_keeps_inv:
  assumes inv: "erp_inv db" and q: "in_cents q" and run: "adjust_stock code q usr db = Inr db'"
  shows "erp_inv db'"
proof -
  have acc: "accounted db" and on: "on_hand_cents db" and store: "store_inv db"
    using inv by (simp_all add: erp_inv_def pay_inv_def store_inv_def)
  have step: "stock_step db db'" using adjust_stock_step [OF acc on q run] by simp
  note t = stock_step_tables [OF step]
  have view: "order_view db' x = order_view db x" for x
    by (rule view_cong) (simp_all add: t payment_cores_def)
  have expo: "order_exposure db' x = order_exposure db x" for x by (rule view_exposure [OF view])
  have occ: "occupation db' ws ret = occupation db ws ret" for ws ret
    unfolding occupation_def t using expo by (intro arg_cong [where f = sum_list] map_cong) auto
  have "accounted db'" using step acc by (rule stock_step_accounted)
  moreover from this have "store_keys db'" using store t by (simp add: store_inv_def store_keys_def accounted_def)
  ultimately have "store_inv db'"
    using store occ view_order_ok [OF view] by (simp add: store_inv_def cache_exact_def t)
  then show ?thesis
    using inv sound_step_stock [OF step acc] order_frame_stock [OF step] t by (intro erp_inv_command [OF inv]) simp_all
qed

lemma submission_keeps_inv:
  assumes inv: "erp_inv db" and run: "submit_declaration no_race oid ret ws usr a m ref key db = Inr ((d, rep), db')"
  shows "erp_inv db'"
proof -
  have ok: "declarations_ok db'" using inv run by (auto simp: erp_inv_def intro: submission_keeps)
  show ?thesis
    using run
  proof (rule submit_declaration_cases)
    fix ord q r
    assume c: "create_declaration (o_id ord) ret ws q m r key usr db = Inr (d, db')"
    have db': "db' = db\<lparr>t_drawn := t_drawn db + 1, t_declarations := t_declarations db @ [d]\<rparr>"
      using c by (simp add: create_declaration_Inr)
    have "pay_inv db'" unfolding db' using inv by (intro pay_inv_declared) (simp add: erp_inv_def)
    moreover have "references db'" "on_hand_cents db'"
      using inv unfolding db' by (auto simp: erp_inv_def references_def on_hand_cents_def)
    ultimately show ?thesis using ok by (simp add: erp_inv_def)
  qed (use inv in simp)
qed

lemma with_decl_frame [simp]:
  "references (with_decl upd did db) = references db" "on_hand_cents (with_decl upd did db) = on_hand_cents db"
  "t_orders (with_decl upd did db) = t_orders db" "t_payments (with_decl upd did db) = t_payments db"
  "t_bindings (with_decl upd did db) = t_bindings db" "t_ledger (with_decl upd did db) = t_ledger db"
  "t_stocks (with_decl upd did db) = t_stocks db" "t_movements (with_decl upd did db) = t_movements db"
  by (simp_all add: with_decl_def references_def on_hand_cents_def)

lemma sound_step_refl [simp]: "sound_step db db"
  by (simp add: sound_step_def)

lemma locked_payment_stock:
  assumes "store_inv db" and "live_order db oid = Some ord"
    and "confirm_payment_for_locked_order no_race ord a m txn key usr force alloc db = Inr (pr, db')"
  shows "sound_step db db'"
  using store_inv_parts(1) [OF assms(1,2)] assms(3)
  by (rule locked_payment_effect) (auto intro: sound_step_money)

lemma confirmation_keeps_inv:
  assumes inv: "erp_inv db" and run: "confirm_declaration no_race did ws usr db = Inr ((dd, pr), db')"
  shows "erp_inv db'"
proof -
  have pay: "pay_inv db" and ok: "declarations_ok db" and store: "store_inv db" and refs: "references db"
    using inv by (simp_all add: erp_inv_def pay_inv_def)
  note keeps = confirmation_keeps [OF pay ok run]
  show ?thesis
    using run
  proof (rule confirm_declaration_cases)
    fix d assume d: "decl_by_wholesaler_dual_key db did ws = Some d" "d_status d = Decl_Pending"
    from pay ok d run obtain ord dm where live: "live_order db (d_order d) = Some ord"
      and locked: "confirm_payment_for_locked_order no_race ord (Finite (d_amount d)) (d_method d)
         (blank_to_none (d_transfer_reference d)) (canonical_key did) (Some usr) True True db = Inr (pr, dm)"
      and db': "db' = with_decl (confirmed_by usr (p_id (pr_payment pr))) did dm"
      by (rule confirm_pending_effect)
    have "references dm" using references_frame [OF refs] locked_payment_orders [OF store live locked] by blast
    moreover have "on_hand_cents dm"
      using locked_payment_stock [OF store live locked] inv by (simp add: sound_step_def erp_inv_def)
    ultimately show ?thesis using keeps by (simp add: erp_inv_def db')
  qed (use inv in simp)
qed

lemma rejection_keeps_inv:
  assumes inv: "erp_inv db" and run: "reject_declaration did ws usr reason db = Inr (x, db')"
  shows "erp_inv db'"
proof -
  have ok: "declarations_ok db" using inv by (simp add: erp_inv_def)
  have "\<exists>upd. db' = with_decl upd did db"
  proof -
    from run obtain d where d: "decl_by_wholesaler_dual_key db did ws = Some d" "d_status d = Decl_Pending"
      and m: "mark_rejected did ws usr reason db = Inr db'"
      by (auto simp: reject_declaration_def decl_for_update_by_wholesaler_def result_simps split: option.splits if_splits)
    have ids: "distinct (map d_id (t_declarations db))" using ok by (simp add: declarations_ok_def)
    from m d show ?thesis by (auto simp: mark_rejected_def update_pending_run [OF ids d(1)] split: if_splits)
  qed
  then show ?thesis using inv rejection_keeps [OF ok run] by (auto simp: erp_inv_def pay_inv_with_decl)
qed

lemma submit_integrity:
  assumes "submit_declaration race oid ret ws usr a m ref key db = Inl (IntegrityError c)"
  shows "get_by_retailer_idempotency db ret key = None"
proof (cases "get_by_retailer_idempotency db ret key")
  case (Some d)
  with assms show ?thesis
    by (auto simp: submit_declaration_def bindE_Inl declared_amount_ok_def ensure_Inl normalized_reference_def Let_def
        split: option.splits decimal.splits if_splits)
qed

lemma declare_payment_Inr:
  assumes "declare_payment no_race oid ret tenant usr a m ref header db = Inr (x, db')"
  shows "\<exists>key amount meth. validate_declaration_idempotency_key header = Inr key \<and> a = Some amount \<and> m = Some meth \<and>
     submit_declaration no_race oid ret tenant usr (Some amount) meth ref key db = Inr (x, db')"
proof -
  obtain key amount meth where c: "validate_declaration_idempotency_key header = Inr key" "a = Some amount" "m = Some meth"
    using assms by (cases a; cases m) (auto simp: declare_payment_def result_simps)
  show ?thesis
  proof (cases "submit_declaration no_race oid ret tenant usr (Some amount) meth ref key db")
    case (Inl e)
    show ?thesis
    proof (cases "e = IntegrityError ''ux_payment_declarations_retailer_idem''")
      case True
      with submit_integrity Inl have "get_by_retailer_idempotency db ret key = None" by blast
      with True Inl assms c show ?thesis by (simp add: declare_payment_def)
    qed (use Inl assms c in \<open>simp add: declare_payment_def\<close>)
  qed (use assms c in \<open>simp add: declare_payment_def\<close>)
qed

lemma pay_order_Inr:
  "pay_order race oid usr input header db = Inr (pr, db') \<Longrightarrow>
   \<exists>f amount m key. input = Some f \<and> pay_input_ok f \<and> f_amount f = Some amount \<and> f_method f = Some m \<and> f_notes f = None \<and>
     validate_idempotency_key header = Inr key \<and>
     confirm_payment race oid amount m (f_transaction f) key usr False False db = Inr (pr, db')"
  by (auto simp: pay_order_def result_simps validate_payment_notes_unsupported_def payment_method_value_def
      split: option.splits if_splits)

lemma validated_key_public: "validate_idempotency_key header = Inr key \<Longrightarrow> public_key key"
  by (auto simp: validate_idempotency_key_def public_key_def reserved_idempotency_key_prefix_def
      declaration_confirmation_key_prefix_def Let_def split: if_splits)

text \<open>The catalogue leaves orders and money alone, and the stock rows it adds are empty.\<close>

lemma catalog_frame: "catalog_step db db' \<Longrightarrow> order_frame db db' \<and> t_payments db' = t_payments db"
  by (auto simp: catalog_step_def order_frame_def)

lemma catalog_stock_sums:
  assumes "catalog_step db db'"
  shows "accounted db \<Longrightarrow> accounted db'" "sound_step db db'"
proof -
  obtain cat skus prices n new where db': "db' = db\<lparr>t_catalog := cat, t_skus := skus, t_prices := prices, t_drawn := t_drawn db + n,
      t_stocks := t_stocks db @ map fresh_stock new\<rparr>" and new: "distinct new" "set new \<inter> s_sku ` set (t_stocks db) = {}"
    using assms unfolding catalog_step_def by blast
  have zero: "(\<Sum>x\<leftarrow>xs. if P x then 0 else 0 :: rat) = 0" for P and xs :: "uuid list" by (induction xs) auto
  have column: "reserved_column db' k = reserved_column db k" "on_hand_units db' k = on_hand_units db k" for k
    using zero by (simp_all add: db' reserved_column_def on_hand_units_def fresh_stock_def comp_def cong: if_cong)
  have "t_uuids db ` {..<t_drawn db} \<subseteq> t_uuids db ` {..<t_drawn db + n}" by (intro image_mono) auto
  then show "accounted db'" if "accounted db"
    using that new column by (auto simp: accounted_def reservation_ids_def reserved_units_def db' fresh_stock_def distinct_map comp_def inj_on_def)
  show "sound_step db db'"
    using column by (auto simp: sound_step_def opening_stock_def journal_total_def on_hand_nonneg_def on_hand_cents_def
        ledger_total_def db' fresh_stock_def)
qed

lemma catalog_keeps_inv:
  assumes inv: "erp_inv db" and run: "serve_catalog c db = Inr db'"
  shows "erp_inv db'"
proof -
  have step: "catalog_step db db'" using run by (rule serve_catalog_step)
  then have t: "t_orders db' = t_orders db" "t_holds db' = t_holds db" "t_bindings db' = t_bindings db" "t_payments db' = t_payments db"
    by (auto simp: catalog_step_def)
  have store: "store_inv db" using inv by (simp add: erp_inv_def pay_inv_def)
  have view: "order_view db' x = order_view db x" for x
    by (rule view_cong) (simp_all add: t payment_cores_def)
  have expo: "order_exposure db' x = order_exposure db x" for x by (rule view_exposure [OF view])
  have occ: "occupation db' ws ret = occupation db ws ret" for ws ret
    unfolding occupation_def t using expo by (intro arg_cong [where f = sum_list] map_cong) auto
  have "accounted db'" using catalog_stock_sums(1) [OF step] store by (simp add: store_inv_def)
  moreover from this have "store_keys db'" using store t by (simp add: store_inv_def store_keys_def accounted_def)
  ultimately have "store_inv db'"
    using store occ view_order_ok [OF view] by (simp add: store_inv_def cache_exact_def t)
  then show ?thesis
    by (intro erp_inv_command [OF inv] catalog_stock_sums(2) [OF step] catalog_frame [OF step])
qed

text \<open>The tenant whose order a request creates, and what a successful request has run.\<close>

fun creating_tenant :: "request \<Rightarrow> uuid option" where
  "creating_tenant (Create_Order tenant usr req) = Some tenant"
| "creating_tenant (Client_Create_Order tenant ret usr items remark) = Some tenant"
| "creating_tenant _ = None"

lemma serve_cases:
  assumes run: "serve c db = Inr db'" and exact: "exact_amounts c"
  obtains (created) ws ret lines remark usr ord where "crud_create_order ws ret lines remark usr db = Inr (ord, db')"
      "parse_uuid ws = creating_tenant c"
  | (confirmed) oid usr r where "confirm_order oid usr db = Inr (r, db')"
  | (cancelled) oid usr r where "cancel_order oid usr db = Inr (r, db')"
  | (fulfilled) oid usr r where "fulfill_order oid usr db = Inr (r, db')"
  | (returned) oid usr r where "return_order oid usr db = Inr (r, db')"
  | (paid) oid q m txn key usr pr where "confirm_payment no_race oid (Finite q) m txn key usr False False db = Inr (pr, db')"
      "in_cents q" "public_key key"
  | (adjusted) code q usr where "adjust_stock code q usr db = Inr db'" "in_cents q"
  | (declared) oid ret ws usr a m ref key d rep where
      "submit_declaration no_race oid ret ws usr a m ref key db = Inr ((d, rep), db')"
  | (settled) did ws usr dd pr where "confirm_declaration no_race did ws usr db = Inr ((dd, pr), db')"
  | (rejected) did ws usr reason x where "reject_declaration did ws usr reason db = Inr (x, db')"
  | (catalogued) cat where "c = Manage_Catalog cat" "serve_catalog cat db = Inr db'"
proof (cases c)
  case (Create_Order tenant usr req)
  with run obtain ord where "create_order tenant usr req db = Inr (ord, db')" by (auto simp: result_simps)
  then show thesis using created Create_Order
    by (auto simp: create_order_def result_simps Let_def split: option.splits prod.splits if_splits)
next
  case (Client_Create_Order tenant ret usr items remark)
  with run obtain ord where "client_create_order tenant ret usr items remark db = Inr (ord, db')" by (auto simp: result_simps)
  then show thesis using created Client_Create_Order
    by (auto simp: client_create_order_def result_simps Let_def split: prod.splits if_splits)
next
  case (Pay_Order oid usr input header)
  with run obtain pr where "pay_order no_race oid usr input header db = Inr (pr, db')" by (auto simp: result_simps)
  from pay_order_Inr [OF this] obtain f amount m key where f: "input = Some f" "f_amount f = Some amount"
      "validate_idempotency_key header = Inr key" "pay_input_ok f"
    and pay: "confirm_payment no_race oid amount m (f_transaction f) key usr False False db = Inr (pr, db')" by blast
  then obtain q where q: "amount = Finite q" by (auto simp: pay_input_ok_def split: decimal.splits)
  with exact f Pay_Order have "in_cents q" by simp
  then show thesis using paid pay [unfolded q] validated_key_public [OF f(3)] by blast
next
  case (Declare_Payment oid ret tenant usr amount m ref header)
  with run obtain x where "declare_payment no_race oid ret tenant usr amount m ref header db = Inr (x, db')"
    by (auto simp: result_simps)
  from declare_payment_Inr [OF this] show thesis using declared by (cases x) blast
next
  case (Confirm_Declaration did tenant usr)
  with run show thesis using settled
    by (auto simp: result_simps confirm_declaration_route_def split: option.splits)
next
  case (Reject_Declaration did tenant usr reason)
  with run show thesis using rejected
    by (auto simp: result_simps reject_declaration_route_def Let_def split: option.splits if_splits)
next
  case (Adjust_Inventory code q reason usr)
  with run exact show thesis using adjusted
    by (auto simp: result_simps adjust_inventory_route_def)
qed (use run confirmed cancelled fulfilled returned catalogued in \<open>auto simp: result_simps confirm_order_route_def fulfill_order_route_def
      cancel_order_route_def return_order_route_def client_cancel_order_def split: option.splits\<close>)

lemma serve_keeps_inv:
  assumes inv: "erp_inv db" and exact: "exact_amounts c" and run: "serve c db = Inr db'"
  shows "erp_inv db'"
  using run exact
  by (rule serve_cases) (auto intro: crud_keeps_inv [OF inv] command_keeps_inv [OF inv] payment_keeps_inv [OF inv]
      adjustment_keeps_inv [OF inv] submission_keeps_inv [OF inv] confirmation_keeps_inv [OF inv] rejection_keeps_inv [OF inv]
      catalog_keeps_inv [OF inv])

interpretation program: transactional serve erp_inv exact_amounts
  by unfold_locales (rule serve_keeps_inv)

section \<open>What requests leave in place\<close>

text \<open>
  Orders keep their owners and items, payments are only added, and a declaration that has been decided stays
  as it is.
\<close>

definition kept :: "store \<Rightarrow> store \<Rightarrow> bool" where
  "kept db db' \<longleftrightarrow> (\<exists>more. map owner (t_orders db') = map owner (t_orders db) @ more) \<and>
     (\<exists>new. payment_cores db' = payment_cores db @ new) \<and>
     (\<forall>did ws d. decl_by_wholesaler_dual_key db did ws = Some d \<longrightarrow>
        (\<exists>d'. decl_by_wholesaler_dual_key db' did ws = Some d' \<and> (d_status d \<noteq> Decl_Pending \<longrightarrow> d' = d)))"

lemma kept_refl [simp]: "kept db db"
  by (auto simp: kept_def)

lemma kept_trans:
  assumes "kept a b" and "kept b c"
  shows "kept a c"
  unfolding kept_def
proof (intro conjI allI impI)
  show "\<exists>more. map owner (t_orders c) = map owner (t_orders a) @ more"
    using assms unfolding kept_def by (metis append.assoc)
  show "\<exists>new. payment_cores c = payment_cores a @ new"
    using assms unfolding kept_def by (metis append.assoc)
  fix did ws d assume "decl_by_wholesaler_dual_key a did ws = Some d"
  then show "\<exists>d'. decl_by_wholesaler_dual_key c did ws = Some d' \<and> (d_status d \<noteq> Decl_Pending \<longrightarrow> d' = d)"
    using assms unfolding kept_def by metis
qed

lemma kept_frame:
  assumes "t_declarations db' = t_declarations db" and "\<exists>more. map owner (t_orders db') = map owner (t_orders db) @ more"
    and "\<exists>new. payment_cores db' = payment_cores db @ new"
  shows "kept db db'"
  using assms by (simp add: kept_def decl_by_wholesaler_dual_key_def)

lemma kept_order_frame: "order_frame db db' \<and> t_payments db' = t_payments db \<Longrightarrow> kept db db'"
  by (rule kept_frame) (auto simp: order_frame_def payment_cores_def)

lemma kept_decided:
  assumes "kept db dm" and ids: "distinct (map d_id (t_declarations dm))"
    and d: "decl_by_wholesaler_dual_key dm did ws = Some d" "d_status d = Decl_Pending"
    and upd: "\<And>x. d_id (upd x) = d_id x" "\<And>x. d_wholesaler (upd x) = d_wholesaler x"
    and decls: "t_declarations dm = t_declarations db"
  shows "kept db (with_decl upd did dm)"
  unfolding kept_def
proof (intro conjI allI impI)
  show "\<exists>more. map owner (t_orders (with_decl upd did dm)) = map owner (t_orders db) @ more"
    "\<exists>new. payment_cores (with_decl upd did dm) = payment_cores db @ new"
    using assms(1) by (simp_all add: kept_def payment_cores_def)
  fix a w x assume x: "decl_by_wholesaler_dual_key db a w = Some x"
  let ?f = "\<lambda>x. if d_id x = did then upd x else x"
  have "find (\<lambda>d. d_id d = a \<and> d_wholesaler d = w) (map ?f rows) = map_option ?f (find (\<lambda>d. d_id d = a \<and> d_wholesaler d = w) rows)"
    for rows by (induction rows) (auto simp: upd)
  then have "decl_by_wholesaler_dual_key (with_decl upd did dm) a w = Some (?f x)"
    using x by (simp add: decl_by_wholesaler_dual_key_def with_decl_def decls)
  moreover have "?f x = x" if "d_status x \<noteq> Decl_Pending"
  proof (cases "d_id x = did")
    case True
    have "x \<in> set (t_declarations dm)" "d \<in> set (t_declarations dm)" "d_id d = did"
      using decl_found [OF x] decl_found [OF d(1)] decls by simp_all
    with True ids have "x = d" by (auto simp: distinct_map dest: inj_onD)
    with that d(2) show ?thesis by simp
  qed simp
  ultimately show "\<exists>d'. decl_by_wholesaler_dual_key (with_decl upd did dm) a w = Some d' \<and> (d_status x \<noteq> Decl_Pending \<longrightarrow> d' = x)"
    by blast
qed

lemma locked_payment_kept:
  assumes "store_inv db" and "live_order db oid = Some ord"
    and "confirm_payment_for_locked_order no_race ord a m txn key usr force alloc db = Inr (pr, db')"
  shows "kept db db'"
  using locked_payment_orders [OF assms] by (intro kept_frame) (auto simp: order_frame_def)

lemma serve_kept:
  assumes inv: "erp_inv db" and exact: "exact_amounts c" and run: "serve c db = Inr db'"
  shows "kept db db'"
proof -
  have store: "store_inv db" and pay: "pay_inv db" and ok: "declarations_ok db" and acc: "accounted db" and on: "on_hand_cents db"
    using inv by (simp_all add: erp_inv_def pay_inv_def store_inv_def)
  have ids: "distinct (map d_id (t_declarations db))" using ok by (simp add: declarations_ok_def)
  show ?thesis
    using run exact
  proof (rule serve_cases)
    fix ws ret lines remark usr ord assume "crud_create_order ws ret lines remark usr db = Inr (ord, db')"
    then show ?thesis
      by (rule crud_create_order_Inr) (auto intro!: kept_frame simp: payment_cores_def)
  next
    fix oid q m txn key usr pr
    assume run: "confirm_payment no_race oid (Finite q) m txn key usr False False db = Inr (pr, db')"
    show ?thesis
    proof (cases "get_by_idempotency_key db key")
      case None
      with run obtain ord u where "live_order db u = Some ord"
        "confirm_payment_for_locked_order no_race ord (Finite q) m txn key usr False False db = Inr (pr, db')"
        by (auto simp: confirm_payment_def get_order_by_id_for_update_def result_simps split: option.splits)
      then show ?thesis by (rule locked_payment_kept [OF store])
    next
      case (Some p)
      with run have "db' = db"
        by (auto simp: confirm_payment_def replay_result_def result_simps split: option.splits if_splits)
      then show ?thesis by simp
    qed
  next
    fix code q usr assume "adjust_stock code q usr db = Inr db'" "in_cents q"
    then have "stock_step db db'" using adjust_stock_step [OF acc on] by blast
    then show ?thesis using order_frame_stock stock_step_tables by (blast intro: kept_order_frame)
  next
    fix oid ret ws usr a m ref key d rep
    assume "submit_declaration no_race oid ret ws usr a m ref key db = Inr ((d, rep), db')"
    then show ?thesis
    proof (rule submit_declaration_cases)
      fix ord q r assume "create_declaration (o_id ord) ret ws q m r key usr db = Inr (d, db')"
      then have db': "db' = db\<lparr>t_drawn := Suc (t_drawn db), t_declarations := t_declarations db @ [d]\<rparr>"
        by (simp add: create_declaration_Inr)
      show ?thesis unfolding kept_def decl_by_wholesaler_dual_key_def db'
        by (auto simp: payment_cores_def intro: find_append_old)
    qed simp
  next
    fix did ws usr dd pr assume run: "confirm_declaration no_race did ws usr db = Inr ((dd, pr), db')"
    then show ?thesis
    proof (rule confirm_declaration_cases)
      fix d assume d: "decl_by_wholesaler_dual_key db did ws = Some d" "d_status d = Decl_Pending"
      from pay ok d run obtain ord dm where live: "live_order db (d_order d) = Some ord"
        and locked: "confirm_payment_for_locked_order no_race ord (Finite (d_amount d)) (d_method d)
           (blank_to_none (d_transfer_reference d)) (canonical_key did) (Some usr) True True db = Inr (pr, dm)"
        and db': "db' = with_decl (confirmed_by usr (p_id (pr_payment pr))) did dm"
        and decls: "t_declarations dm = t_declarations db"
        by (rule confirm_pending_effect)
      have "decl_by_wholesaler_dual_key dm did ws = Some d" using d(1) decls by (simp add: decl_by_wholesaler_dual_key_def)
      then show ?thesis unfolding db'
        by (intro kept_decided [OF locked_payment_kept [OF store live locked]]) (use ids d decls in \<open>simp_all add: confirmed_by_def\<close>)
    qed simp
  next
    fix did ws usr reason x assume "reject_declaration did ws usr reason db = Inr (x, db')"
    then obtain d where d: "decl_by_wholesaler_dual_key db did ws = Some d" "d_status d = Decl_Pending"
      and m: "mark_rejected did ws usr reason db = Inr db'"
      by (auto simp: reject_declaration_def decl_for_update_by_wholesaler_def result_simps split: option.splits if_splits)
    then have "db' = with_decl (\<lambda>d. d\<lparr>d_status := Decl_Rejected, d_rejected_by := Some usr, d_reason := Some reason\<rparr>) did db"
      by (auto simp: mark_rejected_def update_pending_run [OF ids d(1)] split: if_splits)
    then show ?thesis using kept_decided [OF kept_refl ids d] by simp
  next
    fix cat assume "serve_catalog cat db = Inr db'"
    then show ?thesis by (intro kept_order_frame catalog_frame serve_catalog_step)
  qed (rule kept_order_frame, erule command_frame [OF store])+
qed

interpretation program_kept: transactional_pair serve erp_inv exact_amounts "kept start" for start
  by unfold_locales (auto intro: kept_trans serve_kept)

section \<open>One tenant's orders\<close>

text \<open>
  A tenant schema holds the orders of one wholesaler: the routes create orders for the tenant of the
  caller's token only, and no request deletes an order.
\<close>

lemma serve_owners:
  assumes inv: "erp_inv db" and exact: "exact_amounts c" and run: "serve c db = Inr db'"
  shows "map owner (t_orders db') = map owner (t_orders db) \<or>
    (\<exists>ord. t_orders db' = t_orders db @ [ord] \<and> \<not> o_deleted ord \<and> creating_tenant c = Some (o_wholesaler ord))"
proof -
  have store: "store_inv db" and pay: "pay_inv db" and ok: "declarations_ok db" and acc: "accounted db" and on: "on_hand_cents db"
    using inv by (simp_all add: erp_inv_def pay_inv_def store_inv_def)
  have ids: "distinct (map d_id (t_declarations db))" using ok by (simp add: declarations_ok_def)
  show ?thesis
    using run exact
  proof (rule serve_cases)
    fix ws ret lines remark usr ord
    assume "crud_create_order ws ret lines remark usr db = Inr (ord, db')" and tenant: "parse_uuid ws = creating_tenant c"
    then show ?thesis by (elim crud_create_order_Inr) auto
  next
    fix oid q m txn key usr pr
    assume run: "confirm_payment no_race oid (Finite q) m txn key usr False False db = Inr (pr, db')"
    then have "db' = db \<or> (\<exists>u ord. live_order db u = Some ord \<and>
        confirm_payment_for_locked_order no_race ord (Finite q) m txn key usr False False db = Inr (pr, db'))"
      by (auto simp: confirm_payment_def replay_result_def get_order_by_id_for_update_def result_simps
          split: option.splits if_splits)
    then show ?thesis using locked_payment_orders [OF store] unfolding order_frame_def by blast
  next
    fix code q usr assume "adjust_stock code q usr db = Inr db'" "in_cents q"
    then have "stock_step db db'" using adjust_stock_step [OF acc on] by blast
    then show ?thesis using order_frame_stock by (simp add: order_frame_def)
  next
    fix oid ret ws usr a m ref key d rep
    assume "submit_declaration no_race oid ret ws usr a m ref key db = Inr ((d, rep), db')"
    then show ?thesis by (rule submit_declaration_cases) (auto simp: create_declaration_Inr)
  next
    fix did ws usr dd pr assume run: "confirm_declaration no_race did ws usr db = Inr ((dd, pr), db')"
    then show ?thesis
    proof (rule confirm_declaration_cases)
      fix d assume d: "decl_by_wholesaler_dual_key db did ws = Some d" "d_status d = Decl_Pending"
      from pay ok d run obtain ord dm where live: "live_order db (d_order d) = Some ord"
        and locked: "confirm_payment_for_locked_order no_race ord (Finite (d_amount d)) (d_method d)
           (blank_to_none (d_transfer_reference d)) (canonical_key did) (Some usr) True True db = Inr (pr, dm)"
        and db': "db' = with_decl (confirmed_by usr (p_id (pr_payment pr))) did dm"
        by (rule confirm_pending_effect)
      show ?thesis using locked_payment_orders [OF store live locked] by (simp add: db' order_frame_def)
    qed simp
  next
    fix did ws usr reason x assume "reject_declaration did ws usr reason db = Inr (x, db')"
    then obtain d where d: "decl_by_wholesaler_dual_key db did ws = Some d"
      and m: "mark_rejected did ws usr reason db = Inr db'"
      by (auto simp: reject_declaration_def decl_for_update_by_wholesaler_def result_simps split: option.splits if_splits)
    then show ?thesis by (auto simp: mark_rejected_def update_pending_run [OF ids d] split: if_splits)
  next
    fix cat assume "serve_catalog cat db = Inr db'"
    then show ?thesis using catalog_frame [OF serve_catalog_step] by (simp add: order_frame_def)
  qed (simp add: command_frame [OF store, unfolded order_frame_def])+
qed

definition orders_of :: "uuid \<Rightarrow> store \<Rightarrow> bool" where
  "orders_of ws db \<longleftrightarrow> (\<forall>ord \<in> set (t_orders db). o_wholesaler ord = ws \<and> \<not> o_deleted ord)"

definition request_of :: "uuid \<Rightarrow> request \<Rightarrow> bool" where
  "request_of ws c \<longleftrightarrow> exact_amounts c \<and> (creating_tenant c = None \<or> creating_tenant c = Some ws)"

lemma orders_of_owners: "orders_of ws db \<longleftrightarrow> (\<forall>(i, w, r, d, x) \<in> set (map owner (t_orders db)). w = ws \<and> \<not> d)"
  by (simp add: orders_of_def owner_def)

lemma serve_orders_of:
  assumes "erp_inv db" and "orders_of ws db" and "request_of ws c" and "serve c db = Inr db'"
  shows "orders_of ws db'"
proof -
  have "exact_amounts c" using assms(3) by (simp add: request_of_def)
  from serve_owners [OF assms(1) this assms(4)] show ?thesis
  proof
    assume "map owner (t_orders db') = map owner (t_orders db)"
    then show ?thesis using assms(2) by (simp only: orders_of_owners)
  qed (use assms(2,3) in \<open>auto simp: orders_of_def request_of_def\<close>)
qed

interpretation tenant: transactional_pair serve erp_inv "request_of ws" "orders_of ws" for ws
  by unfold_locales (auto simp: request_of_def intro: serve_keeps_inv serve_orders_of)

end
