(* ===== verification/Tenant_Sample.thy ===== *)
theory Tenant_Sample
  imports Erp_Program
begin

text \<open>
  A sample run of the HTTP interface from a freshly provisioned tenant: a retailer's order is
  created and confirmed, the retailer declares a payment of its total, and the cashier confirms the
  declaration. Each request is evaluated from the model's definitions; the stores are the concrete
  inputs of the non-vacuity lemmas of the properties on whole runs.
\<close>

definition sample_tenant :: store where
  "sample_tenant = sample_store\<lparr>t_orders := []\<rparr>"

definition tenant_created :: store where
  "tenant_created = sample_tenant\<lparr>t_orders := [sample_new_order], t_drawn := 2\<rparr>"

definition tenant_confirmed :: store where
  "tenant_confirmed = tenant_created
     \<lparr>t_orders := [sample_new_order\<lparr>o_status := CONFIRMED, o_updated_by := Some 9\<rparr>],
      t_stocks := [\<lparr>s_sku = 21, s_on_hand = 10, s_reserved = 3, s_deleted = False\<rparr>],
      t_reservations := [\<lparr>v_id = 1002, v_order = 1000, v_item = 1001, v_sku = 21, v_code = ''MZ-1'',
         v_quantity = 3, v_status = Reserved, v_deleted = False\<rparr>],
      t_holds := [\<lparr>h_id = 1003, h_order = 1000, h_amount = 150, h_remaining = 150, h_status = Active,
         h_created_by = Some 9, h_updated_by = Some 9\<rparr>],
      t_bindings := [\<lparr>b_wholesaler = 7, b_retailer = 8, b_status = Binding_Active, b_balance = 150, b_deleted = False\<rparr>],
      t_drawn := 4\<rparr>"

definition sample_declaration :: declaration_row where
  "sample_declaration = \<lparr>d_id = 1004, d_order = 1000, d_retailer = 8, d_wholesaler = 7, d_amount = 150, d_method = Cash,
     d_transfer_reference = None, d_status = Decl_Pending, d_key = ''declare-1'', d_submitted_by = 5, d_submitted_at = 5,
     d_confirmed_by = None, d_payment = None, d_rejected_by = None, d_reason = None\<rparr>"

definition tenant_declared :: store where
  "tenant_declared = tenant_confirmed\<lparr>t_declarations := [sample_declaration], t_drawn := 5\<rparr>"

definition sample_settlement :: payment_row where
  "sample_settlement = \<lparr>p_id = 1005, p_order = 1000, p_retailer = 8, p_transaction = None,
     p_key = Some ''decl-confirm-000000000000000000000000000003ec'', p_amount = 150, p_method = Cash, p_status = Completed,
     p_receipt = Some ''RCT-20260101-000001'', p_created_by = Some 9, p_deleted = False\<rparr>"

definition tenant_settled :: store where
  "tenant_settled = tenant_declared
     \<lparr>t_orders := [sample_new_order\<lparr>o_status := PAID, o_updated_by := Some 9\<rparr>],
      t_holds := [\<lparr>h_id = 1003, h_order = 1000, h_amount = 150, h_remaining = 0, h_status = Settled,
         h_created_by = Some 9, h_updated_by = Some 9\<rparr>],
      t_bindings := [\<lparr>b_wholesaler = 7, b_retailer = 8, b_status = Binding_Active, b_balance = 0, b_deleted = False\<rparr>],
      t_ledger := [\<lparr>l_id = 1006, l_account = CASH, l_amount = 150, l_reference_type = ''order'', l_reference = 1000, l_date = 5\<rparr>,
        \<lparr>l_id = 1007, l_account = RECEIVABLE, l_amount = - 150, l_reference_type = ''order'', l_reference = 1000, l_date = 5\<rparr>],
      t_payments := [sample_settlement], t_receipts := [''20260101'' \<mapsto> 1], t_drawn := 8,
      t_declarations := [sample_declaration\<lparr>d_status := Decl_Confirmed, d_confirmed_by := Some 9, d_payment := Some 1005\<rparr>]\<rparr>"

lemmas tenant_defs = tenant_settled_def tenant_declared_def tenant_confirmed_def tenant_created_def sample_tenant_def
  sample_settlement_def sample_declaration_def sample_new_order_def sample_new_item_def sample_store_def

lemma tenant_create_run:
  "create_order 7 (Some (Canonical 9)) sample_order_request sample_tenant = Inr (sample_new_order, tenant_created)"
  by (simp add: intake_defs sample_tenant_def tenant_created_def sample_store_def Let_def)

lemma tenant_confirm_run:
  "\<exists>r. confirm_order_route (Canonical 1000) (Some 9) tenant_created = Inr (r, tenant_confirmed)"
  by (simp add: confirm_order_route_def get_order_by_id_def map_error_def confirm_run_defs tenant_confirmed_def
      tenant_created_def sample_tenant_def sample_new_order_def sample_new_item_def sample_store_def Let_def)

lemma tenant_declare_run:
  "declare_payment no_race (Canonical 1000) 8 7 5 (Some (Finite 150)) (Some Cash) None (Some ''declare-1'') tenant_confirmed
     = Inr ((sample_declaration, False), tenant_declared)"
  by (simp add: declare_payment_def validate_declaration_idempotency_key_def strip_def is_space_def
      idempotency_key_min_length_def idempotency_key_max_length_def idempotency_key_allowed_char_def
      reserved_idempotency_key_prefix_def submit_declaration_def declared_amount_ok_def normalized_reference_def
      get_order_for_declaration_def get_by_retailer_idempotency_def create_declaration_def draw_uuid_def tenant_defs Let_def)

lemma sample_canonical_key: "canonical_key 1004 = ''decl-confirm-000000000000000000000000000003ec''"
proof -
  have "hex_digits 1004 = ''3ec''" by (simp add: hex_digits.simps hex_char_def char_of_eq_iff)
  moreover have "replicate 29 (CHR ''0'') = ''00000000000000000000000000000''" by (simp add: eval_nat_numeral)
  ultimately show ?thesis by (simp add: canonical_key_def declaration_confirmation_key_prefix_def uuid_hex_def)
qed

lemma sample_receipt_number: "receipt_number ''20260101'' (Suc 0) = ''RCT-20260101-000001''"
proof -
  have "decimal_digits (Suc 0) = ''1''" by (subst decimal_digits.simps) (simp add: digit_char_def char_of_eq_iff)
  then show ?thesis by (simp add: receipt_number_def pad6_def eval_nat_numeral)
qed

lemma tenant_settle_run:
  "\<exists>pr. confirm_declaration_route no_race (Canonical 1004) 7 9 tenant_declared
     = Inr ((Some (sample_declaration\<lparr>d_status := Decl_Confirmed, d_confirmed_by := Some 9, d_payment := Some 1005\<rparr>), pr),
         tenant_settled) \<and> pr_payment pr = sample_settlement"
  by (simp add: confirm_declaration_route_def map_error_def confirm_declaration_def decl_by_wholesaler_dual_key_def
      decl_for_update_by_wholesaler_def verify_binding_exists_def verify_locked_attribution_def sample_canonical_key
      payment_run_defs mark_confirmed_def update_pending_def allocate_receipt_number_def sample_receipt_number blank_to_none_def
      tenant_defs Let_def)

definition sample_requests :: "request list" where
  "sample_requests = [Create_Order 7 (Some (Canonical 9)) sample_order_request, Confirm_Order (Canonical 1000) (Some 9),
     Declare_Payment (Canonical 1000) 8 7 5 (Some (Finite 150)) (Some Cash) None (Some ''declare-1''),
     Confirm_Declaration (Canonical 1004) 7 9]"

lemma tenant_steps:
  "serve (Create_Order 7 (Some (Canonical 9)) sample_order_request) sample_tenant = Inr tenant_created"
  "serve (Confirm_Order (Canonical 1000) (Some 9)) tenant_created = Inr tenant_confirmed"
  "serve (Declare_Payment (Canonical 1000) 8 7 5 (Some (Finite 150)) (Some Cash) None (Some ''declare-1'')) tenant_confirmed
     = Inr tenant_declared"
  "serve (Confirm_Declaration (Canonical 1004) 7 9) tenant_declared = Inr tenant_settled"
  using tenant_create_run tenant_confirm_run tenant_declare_run tenant_settle_run by auto

lemma sample_requests_exact: "\<forall>r \<in> set sample_requests. exact_amounts r"
  by (simp add: sample_requests_def)

lemma sample_requests_run: "fold (attempt serve) sample_requests sample_tenant = tenant_settled"
  by (simp add: sample_requests_def attempt_def tenant_steps del: serve.simps)

end
