(* ===== verification/Tenant_Runs.thy ===== *)
theory Tenant_Runs
  imports Tenant_Sample
begin

text \<open>
  Runs of the whole program from a freshly provisioned tenant, and the properties that hold after
  any sequence of requests, whichever of them fail: the outstanding balances, the declarations and
  their canonical keys, and what a repeated confirmation answers.
\<close>

section \<open>Provisioned tenants\<close>

text \<open>No orders yet; the catalogue, the prices, the stock on hand and the bindings may be anything.\<close>

definition provisioned :: "store \<Rightarrow> bool" where
  "provisioned db \<longleftrightarrow> t_orders db = [] \<and> t_holds db = [] \<and> t_payments db = [] \<and> t_declarations db = [] \<and>
     t_reservations db = [] \<and> t_drawn db = 0 \<and> inj (t_uuids db) \<and>
     distinct (map s_sku (t_stocks db)) \<and> (\<forall>s \<in> set (t_stocks db). s_reserved s = 0 \<and> in_cents (s_on_hand s)) \<and>
     distinct (map (\<lambda>b. (b_wholesaler b, b_retailer b)) (t_bindings db)) \<and> (\<forall>b \<in> set (t_bindings db). b_balance b = 0)"

lemma provisioned_inv:
  assumes "provisioned db"
  shows "erp_inv db"
proof -
  have zero: "reserved_column db k = 0" for k
  proof -
    have "(\<Sum>s\<leftarrow>filter P (t_stocks db). s_reserved s) = 0" for P
    proof -
      have "(\<forall>s \<in> set rows. s_reserved s = 0) \<Longrightarrow> (\<Sum>s\<leftarrow>filter P rows. s_reserved s) = 0" for rows by (induction rows) auto
      then show ?thesis using assms by (simp add: provisioned_def)
    qed
    then show ?thesis by (simp add: reserved_column_def sum_list_filter_if)
  qed
  have "accounted db" using assms zero
    by (simp add: accounted_def provisioned_def reservation_ids_def reserved_units_def)
  moreover have "cache_exact db" using assms by (simp add: cache_exact_def provisioned_def occupation_def)
  ultimately show ?thesis using assms
    by (simp add: erp_inv_def pay_inv_def store_inv_def store_keys_def payment_ids_def references_def declarations_ok_def
        provisioned_def on_hand_cents_def payment_cores_def)
qed

abbreviation run_requests :: "request list \<Rightarrow> store \<Rightarrow> store" where
  "run_requests rs db \<equiv> fold (attempt serve) rs db"

lemma run_inv: "erp_inv db \<Longrightarrow> \<forall>r \<in> set rs. exact_amounts r \<Longrightarrow> erp_inv (run_requests rs db)"
  by (rule program.calls_keep)

lemma run_kept: "erp_inv db \<Longrightarrow> \<forall>r \<in> set rs. exact_amounts r \<Longrightarrow> kept db (run_requests rs db)"
  using program_kept.both.calls_keep [of db db rs] by simp

section \<open>Reading through later requests\<close>

lemma live_order_kept:
  assumes "kept a b" and "store_inv b" and "live_order a oid = Some ord"
  obtains ord' where "live_order b oid = Some ord'" "o_wholesaler ord' = o_wholesaler ord" "o_retailer ord' = o_retailer ord"
proof -
  obtain more where more: "map owner (t_orders b) = map owner (t_orders a) @ more" using assms(1) by (auto simp: kept_def)
  have "owner ord \<in> set (map owner (t_orders b))"
    unfolding more using live_order_Some [OF assms(3)] by simp
  then obtain ord' where o: "ord' \<in> set (t_orders b)" "owner ord' = owner ord" by auto
  have "live_order b (o_id ord') = Some ord'"
    using assms(2) o live_order_Some [OF assms(3)]
    by (intro live_order_unique) (auto simp: store_inv_def store_keys_def owner_def)
  then show thesis using that o(2) live_order_Some [OF assms(3)] by (auto simp: owner_def)
qed

lemma kept_decided_row:
  "kept a b \<Longrightarrow> decl_by_wholesaler_dual_key a did ws = Some d \<Longrightarrow> d_status d \<noteq> Decl_Pending \<Longrightarrow>
   decl_by_wholesaler_dual_key b did ws = Some d"
  unfolding kept_def by metis

lemma payment_kept:
  assumes "kept a b" and "get_by_id a pid = Some p"
  obtains p' where "get_by_id b pid = Some p'" "payment_core p' = payment_core p"
proof -
  have core: "map_option payment_core (get_by_id d pid) = find (\<lambda>p. p_id p = pid \<and> \<not> p_deleted p) (payment_cores d)" for d
    unfolding get_by_id_def payment_cores_def by (rule find_core [unfolded payment_cores_def]) simp
  obtain new where "payment_cores b = payment_cores a @ new" using assms(1) by (auto simp: kept_def)
  moreover have "find (\<lambda>p. p_id p = pid \<and> \<not> p_deleted p) (payment_cores a) = Some (payment_core p)"
    using core [of a] assms(2) by simp
  ultimately have "find (\<lambda>p. p_id p = pid \<and> \<not> p_deleted p) (payment_cores b) = Some (payment_core p)"
    by (simp add: find_append_old)
  with core [of b] that show thesis by auto
qed

section \<open>Properties\<close>

text \<open>
  C1: From a freshly provisioned tenant, after any sequence of requests whose payment amounts are whole
  cents (a hypothesis: the pay route accepts any positive amount, see \<open>Fractional_Amounts\<close>),
  whichever of them fail, the outstanding balance of every live binding is exactly the exposure of
  the orders of its wholesaler and retailer (their remaining credit holds plus what their credit
  sales still owe), and it is never negative.
\<close>

theorem outstanding_balance_is_exposure:
  assumes "provisioned start" and "\<forall>r \<in> set rs. exact_amounts r"
    and "b \<in> set (t_bindings (run_requests rs start))" and "\<not> b_deleted b"
  shows "b_balance b = occupation (run_requests rs start) (b_wholesaler b) (b_retailer b) \<and> 0 \<le> b_balance b"
proof -
  have "store_inv (run_requests rs start)"
    using run_inv [OF provisioned_inv [OF assms(1)] assms(2)] by (simp add: erp_inv_def pay_inv_def)
  then show ?thesis using assms(3,4) balances_nonneg by (auto simp: store_inv_def cache_exact_def)
qed

lemma sample_provisioned: "provisioned sample_tenant"
  by (simp add: provisioned_def sample_tenant_def sample_store_def inj_def)

theorem outstanding_balance_is_exposure_witness:
  "fold (attempt serve) (take 2 sample_requests) sample_tenant = tenant_confirmed \<and> occupation tenant_confirmed 7 8 = 150"
proof -
  let ?b = "\<lparr>b_wholesaler = 7, b_retailer = 8, b_status = Binding_Active, b_balance = 150, b_deleted = False\<rparr>"
  have run: "fold (attempt serve) (take 2 sample_requests) sample_tenant = tenant_confirmed"
    by (simp add: sample_requests_def attempt_def tenant_steps del: serve.simps)
  have exact: "\<forall>r \<in> set (take 2 sample_requests). exact_amounts r"
    using sample_requests_exact by (auto dest: in_set_takeD)
  have mem: "?b \<in> set (t_bindings (fold (attempt serve) (take 2 sample_requests) sample_tenant))"
    unfolding run by (simp add: tenant_confirmed_def)
  from outstanding_balance_is_exposure [OF sample_provisioned exact mem] show ?thesis unfolding run by simp
qed

text \<open>
  C2: The canonical key of a declaration pays for nothing but that declaration. After any sequence
  of requests with payment amounts in whole cents from a freshly provisioned tenant, a declaration is confirmed exactly when a payment
  under its canonical key exists; that payment is then the only one, and it has the declaration's
  order, retailer, amount and method.
\<close>

theorem canonical_key_pays_its_declaration:
  assumes "provisioned start" and "\<forall>r \<in> set rs. exact_amounts r"
    and "db = run_requests rs start" and "d \<in> set (t_declarations db)"
  shows "(d_status d = Decl_Confirmed \<longleftrightarrow> (\<exists>p \<in> set (t_payments db). p_key p = Some (canonical_key (d_id d)))) \<and>
    (\<forall>p \<in> set (t_payments db). p_key p = Some (canonical_key (d_id d)) \<longrightarrow> confirms d p) \<and>
    length (filter (\<lambda>p. p_key p = Some (canonical_key (d_id d))) (t_payments db)) \<le> 1"
proof -
  have inv: "erp_inv db" unfolding assms(3) using assms(1,2) by (intro run_inv provisioned_inv) simp_all
  then have ok: "declarations_ok db" and ids: "distinct (map p_id (t_payments db))"
    by (simp_all add: erp_inv_def pay_inv_def payment_ids_def)
  have mine: "d_status d = Decl_Confirmed \<and> confirms d p"
    if p: "p \<in> set (t_payments db)" "p_key p = Some (canonical_key (d_id d))" for p
  proof -
    have "payment_core p \<in> set (payment_cores db)" "p_key (payment_core p) = Some (canonical_key (d_id d))"
      using p by (simp_all add: payment_cores_def)
    from declarations_ok_owner [OF ok this canonical_key_reserved] obtain x where
        x: "x \<in> set (t_declarations db)" "d_status x = Decl_Confirmed" "confirms x p" by auto
    have "canonical_key (d_id x) = canonical_key (d_id d)" using x(3) p(2) by (simp add: confirms_def)
    then have "d_id x = d_id d" by (rule canonical_key_inj)
    then have "x = d" using ok x(1) assms(4) by (auto simp: declarations_ok_def distinct_map dest: inj_onD)
    then show ?thesis using x by simp
  qed
  have "\<exists>p \<in> set (t_payments db). p_key p = Some (canonical_key (d_id d))" if "d_status d = Decl_Confirmed"
    using declarations_ok_paid [OF ok assms(4) that] by (auto simp: payment_cores_def confirms_def)
  moreover have "length (filter (\<lambda>p. p_key p = Some (canonical_key (d_id d))) (t_payments db)) \<le> 1"
  proof -
    let ?hits = "filter (\<lambda>p. p_key p = Some (canonical_key (d_id d))) (t_payments db)"
    have "p_id p = the (d_payment d)" if "p \<in> set ?hits" for p using mine [of p] that by (simp add: confirms_def)
    then have "p_id ` set ?hits \<subseteq> {the (d_payment d)}" by auto
    then have "card (p_id ` set ?hits) \<le> 1" using card_mono [of "{the (d_payment d)}"] by fastforce
    moreover have "distinct (map p_id ?hits)" using ids by (simp add: distinct_map_filter)
    ultimately show ?thesis by (metis distinct_card length_map list.set_map)
  qed
  ultimately show ?thesis using mine by blast
qed

theorem canonical_key_pays_its_declaration_witness:
  "\<exists>d \<in> set (t_declarations tenant_settled). d_status d = Decl_Confirmed \<and>
     (\<exists>p \<in> set (t_payments tenant_settled). p_key p = Some (canonical_key (d_id d)) \<and> confirms d p)"
proof -
  obtain d where d: "d \<in> set (t_declarations tenant_settled)" "d_status d = Decl_Confirmed"
    by (simp add: tenant_settled_def)
  from canonical_key_pays_its_declaration [OF sample_provisioned sample_requests_exact sample_requests_run [symmetric] d(1)] d
  show ?thesis by blast
qed

text \<open>The payment under a key is found again after any further requests.\<close>

lemma key_kept:
  assumes "kept a b" and "get_by_idempotency_key a key = Some p"
  obtains p' where "get_by_idempotency_key b key = Some p'" "payment_core p' = payment_core p"
proof -
  obtain new where new: "payment_cores b = payment_cores a @ new" using assms(1) by (auto simp: kept_def)
  have "find (\<lambda>p. p_key p = Some key \<and> \<not> p_deleted p) (payment_cores a) = Some (payment_core p)"
    using assms(2) by (simp add: key_lookup_cores [symmetric])
  then have "find (\<lambda>p. p_key p = Some key \<and> \<not> p_deleted p) (payment_cores b) = Some (payment_core p)"
    unfolding new by (rule find_append_old)
  then show thesis using that unfolding key_lookup_cores [symmetric] by auto
qed

text \<open>What a successful payment leaves under its key: its own terms, for a live order of the payer.\<close>

lemma paid_under_key:
  assumes inv: "erp_inv db" and cents: "in_cents a"
    and run: "confirm_payment no_race oid (Finite a) m txn key usr force alloc db = Inr (pr, db1)"
  obtains u ord where "parse_uuid oid = Some u" "live_order db1 u = Some ord" "p_retailer (pr_payment pr) = o_retailer ord"
    "get_by_idempotency_key db1 key = Some (pr_payment pr)" "p_order (pr_payment pr) = u" "p_amount (pr_payment pr) = a"
    "p_method (pr_payment pr) = m" "blank_to_none (p_transaction (pr_payment pr)) = blank_to_none txn"
proof (cases "get_by_idempotency_key db key")
  case (Some p)
  with run have "same_payment_request p oid a m txn" "replay_result p db = Inr (pr, db1)"
    by (auto simp: confirm_payment_def result_simps split: if_splits)
  then show thesis using Some
    by (intro that [of "p_order p" "pr_order pr"]) (auto simp: same_payment_request_def replay_result_def split: option.splits if_splits)
next
  case None
  have pay: "pay_inv db" and store: "store_inv db" using inv by (simp_all add: erp_inv_def pay_inv_def)
  from run None obtain ord u where u: "parse_uuid oid = Some u" "live_order db u = Some ord"
    and locked: "confirm_payment_for_locked_order no_race ord (Finite a) m txn key usr force alloc db = Inr (pr, db1)"
    by (auto simp: confirm_payment_def get_order_by_id_for_update_def result_simps split: option.splits)
  let ?r = "\<lparr>q_order = oid, q_amount = Finite a, q_method = m, q_txn = txn, q_key = key, q_user = usr, q_force = force, q_alloc = alloc\<rparr>"
  have "submit_payment ?r db = Inr (pr_payment pr, pr_replayed pr, db1)" using run by (simp add: submit_payment_def)
  moreover have "whole_cents ?r" using cents by (simp add: whole_cents_def)
  ultimately have inv1: "pay_inv db1" using submit_payment_inv [OF pay] by blast
  from store_inv_parts(1) [OF store u(2)] locked None obtain q rc st p where q: "Finite a = Finite q"
      and p: "p = new_payment (t_uuids db (t_drawn db)) (o_id ord) (o_retailer ord) txn (Some key) q m st usr rc"
      and cores: "payment_cores db1 = payment_cores db @ [payment_core p]"
      and pr: "pr_payment pr = latest_payment_record p db1"
      and fresh: "Some key \<notin> p_key ` set (t_payments db)"
    by (rule written_payment)
  have "distinct (map p_id (payment_cores db1))" using inv1 by (simp add: pay_inv_def payment_ids_def cores_ids)
  from written_found [OF cores _ _ fresh this] have found: "get_by_idempotency_key db1 key = Some (pr_payment pr)"
      and core: "payment_core (pr_payment pr) = payment_core p" by (simp_all add: p pr)
  have fields: "p_order (pr_payment pr) = u" "p_retailer (pr_payment pr) = o_retailer ord" "p_amount (pr_payment pr) = a"
      "p_method (pr_payment pr) = m" "p_transaction (pr_payment pr) = txn"
    using core [THEN arg_cong, of p_order] core [THEN arg_cong, of p_retailer] core [THEN arg_cong, of p_amount]
      core [THEN arg_cong, of p_method] core [THEN arg_cong, of p_transaction] live_order_Some [OF u(2)] q cents
    by (simp_all add: p new_payment_def num2_cents)
  from locked_payment_kept [OF store u(2) locked] _ u(2) obtain ord1 where
      "live_order db1 u = Some ord1" "o_retailer ord1 = o_retailer ord"
    by (rule live_order_kept) (use inv1 in \<open>simp_all add: pay_inv_def\<close>)
  then show thesis using u(1) found fields by (intro that [of u ord1]) simp_all
qed

text \<open>
  C13: A used key answers by the terms of its first success. After a payment succeeded under a key that a
  client may use, and after any further requests (amounts in whole cents), a call under that key for a
  positive amount is decided without reading anything else: when it names the same order in canonical spelling and has the
  same amount, method and transfer reference (blank being none), it returns the payment of the first
  call as a replay and writes nothing, unless a receipt is due that this payment does not have; with any
  of the four different it is refused as a key conflict.
\<close>

theorem used_key_replays_or_conflicts:
  assumes "erp_inv db" and "public_key key" and "in_cents a"
    and "confirm_payment no_race oid (Finite a) m txn key usr force0 alloc0 db = Inr (pr, db1)"
    and "\<forall>r \<in> set rs. exact_amounts r" and "db' = run_requests rs db1" and "0 < q"
  shows "\<exists>u p ord. parse_uuid oid = Some u \<and> live_order db' u = Some ord \<and> payment_core p = payment_core (pr_payment pr) \<and>
    confirm_payment race oid' (Finite q) m' txn' key usr' force alloc db' =
      (if oid' = str_uuid u \<and> q = a \<and> m' = m \<and> blank_to_none txn' = blank_to_none txn
       then (if alloc \<and> \<not> is_valid_receipt_number (p_receipt (pr_payment pr)) then Inl (Http 409 DECLARATION_CONFIRMATION_KEY_CONFLICT)
             else Inr (\<lparr>pr_order = ord, pr_payment = p, pr_replayed = True, pr_state = o_status ord\<rparr>, db'))
       else Inl (Http 409 IDEMPOTENCY_KEY_CONFLICT))"
proof -
  from assms(1,3,4) obtain u ord1 where first: "parse_uuid oid = Some u" "live_order db1 u = Some ord1"
      "p_retailer (pr_payment pr) = o_retailer ord1" "get_by_idempotency_key db1 key = Some (pr_payment pr)"
      "p_order (pr_payment pr) = u" "p_amount (pr_payment pr) = a" "p_method (pr_payment pr) = m"
      "blank_to_none (p_transaction (pr_payment pr)) = blank_to_none txn"
    by (rule paid_under_key)
  have inv1: "erp_inv db1" using payment_keeps_inv [OF assms(1,3,2,4)] .
  note kept = run_kept [OF inv1 assms(5), folded assms(6)] and inv = run_inv [OF inv1 assms(5), folded assms(6)]
  obtain p where p: "get_by_idempotency_key db' key = Some p" "payment_core p = payment_core (pr_payment pr)"
    using key_kept [OF kept first(4)] .
  obtain ord where ord: "live_order db' u = Some ord" "o_retailer ord = o_retailer ord1"
    by (rule live_order_kept [OF kept _ first(2)]) (use inv in \<open>simp_all add: erp_inv_def pay_inv_def\<close>)
  have same: "p_order p = u" "p_amount p = a" "p_method p = m" "p_transaction p = p_transaction (pr_payment pr)"
      "p_receipt p = p_receipt (pr_payment pr)" "p_retailer p = p_retailer (pr_payment pr)"
    using p(2) [THEN arg_cong, of p_order] p(2) [THEN arg_cong, of p_amount] p(2) [THEN arg_cong, of p_method]
      p(2) [THEN arg_cong, of p_transaction] p(2) [THEN arg_cong, of p_receipt] p(2) [THEN arg_cong, of p_retailer] first by simp_all
  show ?thesis
    using assms(7) p ord first same
    by (intro exI [of _ u] exI [of _ p] exI [of _ ord])
      (auto simp: confirm_payment_def raise_invalid_amount_def same_payment_request_def enforce_receipt_on_replay_def
        ensure_def replay_result_def)
qed

theorem used_key_replays_or_conflicts_witness:
  "\<exists>pr db1. confirm_payment no_race (Canonical 1000) (Finite 40) Cash None ''cash-key-1'' (Some 9) False False tenant_confirmed
      = Inr (pr, db1) \<and>
     confirm_payment no_race (Canonical 1000) (Finite 40) Transfer None ''cash-key-1'' (Some 9) False False db1
      = Inl (Http 409 IDEMPOTENCY_KEY_CONFLICT)"
proof -
  have inv: "erp_inv tenant_confirmed"
  proof -
    have "fold (attempt serve) (take 2 sample_requests) sample_tenant = tenant_confirmed"
      by (simp add: sample_requests_def attempt_def tenant_steps del: serve.simps)
    moreover have "\<forall>r \<in> set (take 2 sample_requests). exact_amounts r"
      using sample_requests_exact by (auto dest: in_set_takeD)
    ultimately show ?thesis using run_inv [OF provisioned_inv [OF sample_provisioned]] by metis
  qed
  obtain pr db1 where first: "confirm_payment no_race (Canonical 1000) (Finite 40) Cash None ''cash-key-1'' (Some 9) False False
      tenant_confirmed = Inr (pr, db1)"
    by (simp add: payment_run_defs tenant_defs Let_def)
  have key: "public_key ''cash-key-1''" by (simp add: public_key_def declaration_confirmation_key_prefix_def)
  have cents: "in_cents 40" by simp
  from used_key_replays_or_conflicts [OF inv key cents first, of "[]" db1 40 no_race "Canonical 1000" Transfer None "Some 9" False False]
    first
  show ?thesis by auto
qed

text \<open>A payment forced to completed is written as such, and nothing after the insert touches a payment.\<close>

lemma settle_forced_payments:
  "settle_order ord [h] target q m usr True db = Inr (ord', db') \<Longrightarrow> t_payments db' = t_payments db"
  using transition_effect convert_hold_effect reduce_hold_effect
  by (fastforce simp: settle_order_def result_simps apply_outstanding_balance_delta_def update_binding_def Let_def
      split: if_splits)

lemma forced_payment_rows:
  assumes keys: "distinct (map (\<lambda>b. (b_wholesaler b, b_retailer b)) (t_bindings db))"
    and run: "confirm_payment_for_locked_order no_race ord a m txn key usr True alloc db = Inr (pr, db')"
    and none: "get_by_idempotency_key db key = None"
  obtains p where "t_payments db' = t_payments db @ [p]" and "p_status p = Completed" and "pr_payment pr = latest_payment_record p db'"
  using run
proof (rule locked_payment_run)
  fix p assume "get_by_idempotency_key db key = Some p"
  then show thesis using none by simp
next
  fix q target coll h receipt db1 p db2 ord'
  assume rc: "with_receipt (alloc \<and> payment_status_of True coll m target = Completed) db = (receipt, db1)"
    and row: "create_payment_row (o_id ord) (o_retailer ord) txn (Some key) q m
         (payment_status_of True coll m target) usr receipt db1 = Inr (p, db2)"
    and eff: "(if coll then collect_on_credit ord q db2
        else settle_order ord [h] target q m usr True db2) = Inr (ord', db')"
    and pr: "pr_payment pr = latest_payment_record p db'"
  note f1 = with_receipt_frame [OF rc] and f2 = row [unfolded create_payment_row_Inr]
  have "distinct (map (\<lambda>b. (b_wholesaler b, b_retailer b)) (t_bindings db2))" using keys f1 f2 by simp
  then have "t_payments db' = t_payments db2"
    using eff collect_effect settle_forced_payments by (fastforce split: if_splits)
  then show thesis
    using f1 f2 pr by (intro that [of p]) (simp_all add: payment_status_of_def new_payment_def)
qed

lemma declared_payment_row:
  assumes "erp_inv db" and "decl_by_wholesaler_dual_key db did ws = Some d" and "d_status d = Decl_Pending"
    and "confirm_declaration no_race did ws usr db = Inr ((dd, pr), db')"
  shows "t_payments db' = t_payments db @ [pr_payment pr] \<and> p_status (pr_payment pr) = Completed"
proof -
  let ?p = "pr_payment pr"
  have pay: "pay_inv db" and ok: "declarations_ok db" and store: "store_inv db" using assms(1) by (simp_all add: erp_inv_def pay_inv_def)
  from pay ok assms(2-4) obtain ord dm where live: "live_order db (d_order d) = Some ord"
    and locked: "confirm_payment_for_locked_order no_race ord (Finite (d_amount d)) (d_method d)
         (blank_to_none (d_transfer_reference d)) (canonical_key did) (Some usr) True True db = Inr (pr, dm)"
    and db': "db' = with_decl (confirmed_by usr (p_id ?p)) did dm"
    and cores: "payment_cores dm = payment_cores db @ [payment_core ?p]"
    and found: "get_by_id db' (p_id ?p) = Some ?p"
    by (rule confirm_pending_effect)
  note parts = store_inv_parts [OF store live]
  obtain p where p: "t_payments dm = t_payments db @ [p]" "p_status p = Completed" "?p = latest_payment_record p dm"
    using forced_payment_rows [OF parts(1) locked pending_key_free [OF ok assms(2,3)]] .
  from p(1) cores have core: "payment_core p = payment_core ?p" by (simp add: payment_cores_def)
  then have same: "p_id p = p_id ?p" "p_deleted p = p_deleted ?p" using payment_core_simps(1,8) by metis+
  have "get_by_id dm (p_id ?p) = Some ?p" using found by (simp add: db' with_decl_def get_by_id_def)
  then have "?p \<in> set (t_payments dm)" using get_by_id_Some by blast
  moreover have "distinct (map p_id (t_payments dm))"
    using confirmation_keeps_inv [OF assms(1,4)] by (simp add: erp_inv_def pay_inv_def payment_ids_def db' with_decl_def)
  ultimately have "?p = p" using p(1) same by (auto simp: distinct_map dest: inj_onD)
  with p show ?thesis by (simp add: db' with_decl_def)
qed

lemma declared_settlement:
  assumes "erp_inv db" and "decl_by_wholesaler_dual_key db did ws = Some d" and "d_status d = Decl_Pending"
    and "confirm_declaration no_race did ws usr db = Inr ((dd, pr), db')"
  shows "\<exists>ord h. t_bindings db' = map (\<lambda>b. if b_wholesaler b = ws \<and> b_retailer b = d_retailer d \<and> \<not> b_deleted b
        then b\<lparr>b_balance := b_balance b - d_amount d\<rparr> else b) (t_bindings db) \<and>
      live_order db (d_order d) = Some ord \<and> order_holds db (d_order d) = [h] \<and>
      (if o_status ord = PAID then t_orders db' = t_orders db \<and> t_holds db' = t_holds db
       else t_orders db' = row_put o_id (with_status ord
              (if o_total ord \<le> get_order_paid_total db (d_order d) + d_amount d then PAID else PARTIALLY_PAID) (Some usr)) (t_orders db) \<and>
            t_holds db' = row_put h_order (h\<lparr>h_remaining := h_remaining h - d_amount d,
              h_status := (if h_remaining h = d_amount d then Settled else h_status h), h_updated_by := Some usr\<rparr>) (t_holds db))"
proof -
  let ?q = "d_amount d"
  have pay: "pay_inv db" and ok: "declarations_ok db" and store: "store_inv db" using assms(1) by (simp_all add: erp_inv_def pay_inv_def)
  from pay ok assms(2-4) obtain ord dm where live: "live_order db (d_order d) = Some ord" "o_wholesaler ord = ws" "o_retailer ord = d_retailer d"
    and locked: "confirm_payment_for_locked_order no_race ord (Finite (d_amount d)) (d_method d)
         (blank_to_none (d_transfer_reference d)) (canonical_key did) (Some usr) True True db = Inr (pr, dm)"
    and db': "db' = with_decl (confirmed_by usr (p_id (pr_payment pr))) did dm"
    by (rule confirm_pending_effect)
  note parts = store_inv_parts [OF store live(1)]
  have oid: "o_id ord = d_order d" using live_order_Some [OF live(1)] by simp
  have shape: "d_method d \<in> {Cash, Transfer}" "in_cents ?q"
    using ok decl_found [OF assms(2)] by (auto simp: declarations_ok_def declaration_shape_def)
  have "in_cents (b_balance b)" if "b \<in> set (t_bindings db)" "\<not> b_deleted b" for b
    using store that occupation_cents [of db] by (auto simp: store_inv_def cache_exact_def)
  then have bumped: "bump_bindings (o_wholesaler ord) (o_retailer ord) (- ?q) (t_bindings db) =
      map (\<lambda>b. if b_wholesaler b = ws \<and> b_retailer b = d_retailer d \<and> \<not> b_deleted b
        then b\<lparr>b_balance := b_balance b - ?q\<rparr> else b) (t_bindings db)"
    using shape(2) by (auto simp: bump_bindings_def binding_of_def live num2_cents in_cents_diff)
  have free: "get_by_idempotency_key db (canonical_key did) = None" using ok assms(2,3) by (rule pending_key_free)
  show ?thesis
    using parts(1) locked
  proof (rule locked_payment_effect)
    fix q p assume "get_by_idempotency_key db (canonical_key did) = Some p"
    then show ?thesis using free by simp
  next
    fix q h
    assume "Finite ?q = Finite q" "o_status ord = PAID" "order_holds db (o_id ord) = [h]" "t_orders dm = t_orders db"
      "t_holds dm = t_holds db" "t_bindings dm = bump_bindings (o_wholesaler ord) (o_retailer ord) (- q) (t_bindings db)"
    then show ?thesis using bumped
      by (intro exI [of _ ord] exI [of _ h]) (simp add: live db' with_decl_def oid)
  next
    assume "d_method d = Credit"
    then show ?thesis using shape by auto
  next
    fix q h
    assume q: "Finite ?q = Finite q" and st: "o_status ord = CONFIRMED \<or> o_status ord = PARTIALLY_PAID"
      and h: "order_holds db (o_id ord) = [h]" "h_remaining h = o_total ord - get_order_paid_total db (o_id ord)"
      and eff: "t_orders dm = row_put o_id (with_status ord
         (if o_total ord \<le> get_order_paid_total db (o_id ord) + q then PAID else PARTIALLY_PAID) (Some usr)) (t_orders db)"
        "t_holds dm = row_put h_order (reduced_hold h q (Some usr)) (t_holds db)"
        "t_bindings dm = bump_bindings (o_wholesaler ord) (o_retailer ord) (- q) (t_bindings db)"
    have "in_cents (h_remaining h)" using parts(7) by (simp add: h(2) order_ok_def in_cents_diff)
    then have "in_cents (h_remaining h - ?q)" using shape(2) by (rule in_cents_diff)
    then have "reduced_hold h ?q (Some usr) = h\<lparr>h_remaining := h_remaining h - ?q,
              h_status := (if h_remaining h = ?q then Settled else h_status h), h_updated_by := Some usr\<rparr>"
      by (simp add: reduced_hold_def in_cents_def)
    then show ?thesis using bumped q st h(1) eff
      by (intro exI [of _ ord] exI [of _ h]) (auto simp: live db' with_decl_def oid)
  qed
qed

text \<open>
  C8: Confirming a pending declaration writes exactly one new payment: completed, of the declaration's
  order, retailer, amount and method, under its canonical key, with the next receipt number. The
  declaration is confirmed by that payment and no other declaration changes. The order's paid total
  rises and the outstanding balance of the binding falls by the declared amount. When it collects on a
  credit sale (the order is paid), orders and holds stay; otherwise the one hold of the order loses the
  amount, settled once nothing remains, and the order becomes paid when its total is reached and
  partially paid before. The invariants of the program are kept.
\<close>

theorem confirm_declaration_spec:
  assumes "erp_inv db" and "decl_by_wholesaler_dual_key db did ws = Some d" and "d_status d = Decl_Pending"
    and "confirm_declaration no_race did ws usr db = Inr ((dd, pr), db')"
  shows "\<exists>p ord h. pr_payment pr = p \<and> \<not> pr_replayed pr \<and> dd = Some (confirmed_by usr (p_id p) d) \<and>
      decl_by_wholesaler_dual_key db' did ws = dd \<and>
      t_payments db' = t_payments db @ [p] \<and> p_status p = Completed \<and> p_order p = d_order d \<and> p_retailer p = d_retailer d \<and>
      p_amount p = d_amount d \<and> p_method p = d_method d \<and> p_key p = Some (canonical_key did) \<and>
      p_receipt p = Some (fst (allocate_receipt_number db)) \<and>
      t_declarations db' = map (\<lambda>x. if d_id x = did then confirmed_by usr (p_id p) x else x) (t_declarations db) \<and>
      get_order_paid_total db' (d_order d) = get_order_paid_total db (d_order d) + d_amount d \<and>
      t_bindings db' = map (\<lambda>b. if b_wholesaler b = ws \<and> b_retailer b = d_retailer d \<and> \<not> b_deleted b
        then b\<lparr>b_balance := b_balance b - d_amount d\<rparr> else b) (t_bindings db) \<and>
      live_order db (d_order d) = Some ord \<and> order_holds db (d_order d) = [h] \<and>
      (if o_status ord = PAID then t_orders db' = t_orders db \<and> t_holds db' = t_holds db
       else t_orders db' = row_put o_id (with_status ord
              (if o_total ord \<le> get_order_paid_total db (d_order d) + d_amount d then PAID else PARTIALLY_PAID) (Some usr)) (t_orders db) \<and>
            t_holds db' = row_put h_order (h\<lparr>h_remaining := h_remaining h - d_amount d,
              h_status := (if h_remaining h = d_amount d then Settled else h_status h), h_updated_by := Some usr\<rparr>) (t_holds db)) \<and>
      erp_inv db'"
proof -
  have pay: "pay_inv db" and ok: "declarations_ok db" using assms(1) by (simp_all add: erp_inv_def)
  from pay ok assms(2-4) obtain ord dm where
    db': "db' = with_decl (confirmed_by usr (p_id (pr_payment pr))) did dm"
    and dd: "dd = Some (confirmed_by usr (p_id (pr_payment pr)) d)"
    and conf: "confirms (confirmed_by usr (p_id (pr_payment pr)) d) (pr_payment pr)" and new: "\<not> pr_replayed pr"
    and cores: "payment_cores dm = payment_cores db @ [payment_core (pr_payment pr)]"
    and decls: "t_declarations dm = t_declarations db"
    and receipt: "p_receipt (pr_payment pr) = Some (fst (allocate_receipt_number db))"
    by (rule confirm_pending_effect)
  let ?p = "pr_payment pr"
  have shape: "d_method d \<in> {Cash, Transfer}" and did: "d_id d = did"
    using ok decl_found [OF assms(2)] by (auto simp: declarations_ok_def declaration_shape_def)
  have cores': "payment_cores db' = payment_cores db @ [payment_core ?p]"
    using cores by (simp add: db' payment_cores_def)
  have total: "get_order_paid_total db' (d_order d) = get_order_paid_total db (d_order d) + d_amount d"
    using conf shape method_total_snoc [OF cores'] by (auto simp: get_order_paid_total_def confirms_def confirmed_by_def)
  have dm: "decl_by_wholesaler_dual_key dm did ws = Some d" using assms(2) by (simp add: decl_by_wholesaler_dual_key_def decls)
  have decl: "decl_by_wholesaler_dual_key db' did ws = dd"
    unfolding dd db' using dm by (rule decl_with_decl) (simp_all add: confirmed_by_def)
  have list: "t_declarations db' = map (\<lambda>x. if d_id x = did then confirmed_by usr (p_id ?p) x else x) (t_declarations db)"
    by (simp add: db' with_decl_def decls)
  have paid: "p_order ?p = d_order d \<and> p_retailer ?p = d_retailer d \<and> p_amount ?p = d_amount d \<and> p_method ?p = d_method d \<and>
      p_key ?p = Some (canonical_key did)"
    using conf by (simp add: confirms_def confirmed_by_def did)
  show ?thesis
    using declared_payment_row [OF assms] declared_settlement [OF assms] total decl list paid dd new receipt
      confirmation_keeps_inv [OF assms(1,4)] by blast
qed

lemma sample_declared_inv: "erp_inv tenant_declared"
proof -
  have "fold (attempt serve) (take 3 sample_requests) sample_tenant = tenant_declared"
    by (simp add: sample_requests_def attempt_def tenant_steps del: serve.simps)
  moreover have "\<forall>r \<in> set (take 3 sample_requests). exact_amounts r"
    using sample_requests_exact by (auto dest: in_set_takeD)
  ultimately show ?thesis using run_inv [OF provisioned_inv [OF sample_provisioned]] by metis
qed

lemma sample_declaration_found: "decl_by_wholesaler_dual_key tenant_declared 1004 7 = Some sample_declaration"
  by (simp add: decl_by_wholesaler_dual_key_def tenant_declared_def sample_declaration_def)

lemma sample_settle:
  "\<exists>dd pr. confirm_declaration no_race 1004 7 9 tenant_declared = Inr ((dd, pr), tenant_settled) \<and> pr_payment pr = sample_settlement"
  using tenant_settle_run by (auto simp: confirm_declaration_route_def result_simps)

theorem confirm_declaration_spec_witness:
  "get_order_paid_total tenant_settled 1000 = get_order_paid_total tenant_declared 1000 + 150 \<and> erp_inv tenant_settled"
proof -
  obtain dd pr where run: "confirm_declaration no_race 1004 7 9 tenant_declared = Inr ((dd, pr), tenant_settled)"
    using sample_settle by blast
  have "d_status sample_declaration = Decl_Pending" by (simp add: sample_declaration_def)
  from confirm_declaration_spec [OF sample_declared_inv sample_declaration_found this run]
  show ?thesis by (auto simp: sample_declaration_def)
qed

text \<open>
  A confirmed declaration is never paid twice. Once its confirmation has succeeded with a valid
  receipt number, confirming it again after any further requests succeeds as a replay of the same
  payment and writes nothing.
\<close>

theorem confirmed_declaration_replays:
  assumes "erp_inv db" and "decl_by_wholesaler_dual_key db did ws = Some d" and "d_status d = Decl_Pending"
    and "confirm_declaration no_race did ws usr db = Inr ((dd, pr), db')"
    and "is_valid_receipt_number (p_receipt (pr_payment pr))" and "\<forall>r \<in> set rs. exact_amounts r"
  shows "\<exists>pr'. confirm_declaration race did ws usr' (run_requests rs db') = Inr ((dd, pr'), run_requests rs db') \<and>
    pr_replayed pr' \<and> payment_core (pr_payment pr') = payment_core (pr_payment pr)"
proof -
  have pay: "pay_inv db" and ok: "declarations_ok db" and store: "store_inv db" using assms(1) by (simp_all add: erp_inv_def pay_inv_def)
  from pay ok assms(2-4) obtain ord dm where live: "live_order db (d_order d) = Some ord" "o_wholesaler ord = ws" "o_retailer ord = d_retailer d"
    and locked: "confirm_payment_for_locked_order no_race ord (Finite (d_amount d)) (d_method d)
         (blank_to_none (d_transfer_reference d)) (canonical_key did) (Some usr) True True db = Inr (pr, dm)"
    and db': "db' = with_decl (confirmed_by usr (p_id (pr_payment pr))) did dm"
    and dd: "dd = Some (confirmed_by usr (p_id (pr_payment pr)) d)"
    and conf: "confirms (confirmed_by usr (p_id (pr_payment pr)) d) (pr_payment pr)"
    and found: "get_by_id db' (p_id (pr_payment pr)) = Some (pr_payment pr)"
    and decls: "t_declarations dm = t_declarations db"
    by (rule confirm_pending_effect)
  let ?d = "confirmed_by usr (p_id (pr_payment pr)) d" and ?last = "run_requests rs db'"
  note df = decl_found [OF assms(2)]
  have inv': "erp_inv db'" using confirmation_keeps_inv assms(1,4) by blast
  have kept: "kept db' ?last" and inv: "erp_inv ?last" using run_kept run_inv inv' assms(6) by blast+
  have "decl_by_wholesaler_dual_key dm did ws = Some d" using assms(2) by (simp add: decl_by_wholesaler_dual_key_def decls)
  then have "decl_by_wholesaler_dual_key db' did ws = Some ?d"
    unfolding db' by (rule decl_with_decl) (simp_all add: confirmed_by_def)
  then have decl: "decl_by_wholesaler_dual_key ?last did ws = Some ?d"
    by (rule kept_decided_row [OF kept]) (simp add: confirmed_by_def)
  obtain ord1 where ord1: "live_order db' (d_order d) = Some ord1" "o_wholesaler ord1 = ws" "o_retailer ord1 = d_retailer d"
  proof -
    have store': "store_inv dm" using locked_payment_keeps [OF store live(1) locked] ok df
      by (simp add: declarations_ok_def declaration_shape_def)
    from locked_payment_kept [OF store live(1) locked] store' live(1) obtain o1 where
        "live_order dm (d_order d) = Some o1" "o_wholesaler o1 = o_wholesaler ord" "o_retailer o1 = o_retailer ord"
      by (rule live_order_kept)
    then show thesis using that live by (simp add: db' live_order_def)
  qed
  from kept _ ord1(1) obtain ord2 where ord2: "live_order ?last (d_order d) = Some ord2" "o_wholesaler ord2 = ws" "o_retailer ord2 = d_retailer d"
    by (rule live_order_kept) (use inv ord1 in \<open>auto simp: erp_inv_def pay_inv_def\<close>)
  from kept found obtain p where p: "get_by_id ?last (p_id (pr_payment pr)) = Some p" "payment_core p = payment_core (pr_payment pr)"
    by (rule payment_kept)
  have conf': "confirms ?d p"
  proof -
    have "confirms ?d (payment_core p)" unfolding p(2) using conf by simp
    then show ?thesis by simp
  qed
  have valid: "is_valid_receipt_number (p_receipt p)"
    using arg_cong [OF p(2), of p_receipt] assms(5) by simp
  have "resolve_confirmed_replay ?d ord2 ?last = Inr \<lparr>pr_order = ord2, pr_payment = p, pr_replayed = True, pr_state = o_status ord2\<rparr>"
    using conf' valid p(1) ord2 live_order_Some [OF ord2(1)] df
    by (simp add: resolve_confirmed_replay_def confirms_def confirmed_by_def)
  then have "confirm_declaration race did ws usr' ?last =
      Inr ((Some ?d, \<lparr>pr_order = ord2, pr_payment = p, pr_replayed = True, pr_state = o_status ord2\<rparr>), ?last)"
    using decl ord2 by (simp add: confirm_declaration_def decl_for_update_by_wholesaler_def confirmed_by_def)
  then show ?thesis using dd p(2) by auto
qed

theorem confirmed_declaration_replays_witness:
  "\<exists>dd pr. confirm_declaration no_race 1004 7 4 tenant_settled = Inr ((dd, pr), tenant_settled) \<and> pr_replayed pr"
proof -
  obtain dd pr where run: "confirm_declaration no_race 1004 7 9 tenant_declared = Inr ((dd, pr), tenant_settled)"
    and p: "pr_payment pr = sample_settlement" using sample_settle by blast
  have "d_status sample_declaration = Decl_Pending" by (simp add: sample_declaration_def)
  moreover have "is_valid_receipt_number (p_receipt (pr_payment pr))"
    by (simp add: p sample_settlement_def is_valid_receipt_number_def receipt_shape_def is_ascii_digit_def)
  moreover have "\<forall>r \<in> set []. exact_amounts r" by simp
  ultimately show ?thesis
    using confirmed_declaration_replays [OF sample_declared_inv sample_declaration_found _ run, where rs = "[]" and race = no_race and usr' = 4]
    by simp blast
qed

text \<open>
  A decision is final. Once a declaration is confirmed or rejected, its row stays as it is
  through any further requests; rejecting it is refused, and confirming a rejected one is refused.
\<close>

theorem decided_declaration_is_final:
  assumes "erp_inv db" and "decl_by_wholesaler_dual_key db did ws = Some d" and "d_status d \<noteq> Decl_Pending"
    and "\<forall>r \<in> set rs. exact_amounts r" and "db' = run_requests rs db"
  shows "decl_by_wholesaler_dual_key db' did ws = Some d \<and>
    reject_declaration did ws usr reason db' = Inl (Http 409 DECLARATION_NOT_PENDING) \<and>
    (d_status d = Decl_Rejected \<longrightarrow> confirm_declaration race did ws usr db' \<in>
       {Inl (Http 409 DECLARATION_NOT_PENDING), Inl (Http 404 DECLARATION_NOT_FOUND)})"
proof -
  have "decl_by_wholesaler_dual_key db' did ws = Some d"
    unfolding assms(5) using run_kept [OF assms(1,4)] assms(2,3) by (rule kept_decided_row)
  then show ?thesis using assms(3)
    by (auto simp: reject_declaration_def confirm_declaration_def decl_for_update_by_wholesaler_def split: option.splits)
qed

theorem decided_declaration_is_final_witness:
  "reject_declaration 1004 7 9 ''late'' tenant_settled = Inl (Http 409 DECLARATION_NOT_PENDING)"
proof -
  have inv: "erp_inv tenant_settled"
    using run_inv [OF provisioned_inv [OF sample_provisioned] sample_requests_exact] by (simp add: sample_requests_run)
  have "decl_by_wholesaler_dual_key tenant_settled 1004 7 =
      Some (sample_declaration\<lparr>d_status := Decl_Confirmed, d_confirmed_by := Some 9, d_payment := Some 1005\<rparr>)"
    by (simp add: decl_by_wholesaler_dual_key_def tenant_settled_def sample_declaration_def)
  from decided_declaration_is_final [OF inv this, where rs = "[]"] show ?thesis by simp
qed

end
