(* ===== verification/Payment_History.thy ===== *)
theory Payment_History
  imports Tenant_Runs
begin

text \<open>
  The payment history contract of the running program (\<open>services/payment_history_contract.py\<close>).
  The write path and both receivables reads refuse an order with a live payment that is not
  positive, has an unknown method or status, or belongs to another retailer. Here every request is
  shown to leave only payments the contract accepts, so the refusal is never met.
\<close>

section \<open>Statuses the financial writes leave\<close>

definition known_statuses :: "store \<Rightarrow> bool" where
  "known_statuses db \<longleftrightarrow> p_status ` set (t_payments db) \<subseteq> {Pending, Completed}"

lemma known_statuses_cong: "t_payments db' = t_payments db \<Longrightarrow> known_statuses db' = known_statuses db"
  by (simp add: known_statuses_def)

lemma known_statuses_completed:
  "known_statuses db \<Longrightarrow> known_statuses (snd (update_cash_transfer_to_completed oid db))"
  by (auto simp: known_statuses_def update_cash_transfer_to_completed_def)

lemma hold_write_payments:
  "(if m = Credit then convert_hold [h] usr db else reduce_hold [h] q usr db) = Inr db' \<Longrightarrow> t_payments db' = t_payments db"
  using convert_hold_effect [of h usr db db'] reduce_hold_effect [of h q usr db db'] by (auto split: if_splits)

lemma delta_payments: "apply_outstanding_balance_delta ws ret delta db = Inr db' \<Longrightarrow> t_payments db' = t_payments db"
  by (auto simp: apply_outstanding_balance_delta_def update_binding_def Let_def split: if_splits)

lemma settle_statuses:
  assumes keys: "distinct (map (\<lambda>b. (b_wholesaler b, b_retailer b)) (t_bindings db))"
    and run: "settle_order ord [h] target q m usr force db = Inr (ord', db')" and known: "known_statuses db"
  shows "known_statuses db'"
proof -
  from run obtain db1 r db2 where
      hold: "(if m = Credit then convert_hold [h] usr db else reduce_hold [h] q usr db) = Inr db1"
    and trans: "apply_payment_transition_for_locked ord target (Some m) usr db1 = Inr (r, db2)"
    and rest: "(let ord' = cr_order r;
         db3 = (if \<not> force \<and> o_status ord' = PAID
                then snd (update_cash_transfer_to_completed (o_id ord) db2) else db2)
     in if m \<noteq> Credit
        then bindE (apply_outstanding_balance_delta (o_wholesaler ord) (o_retailer ord) (- q) db3)
               (\<lambda>db4. Inr (ord', db4))
        else Inr (ord', db3)) = Inr (ord', db')"
    by (auto simp: settle_order_def result_simps)
  have "known_statuses db2"
    using known hold_write_payments [OF hold] transition_effect [OF trans] by (simp add: known_statuses_def)
  then have "known_statuses (if \<not> force \<and> o_status (cr_order r) = PAID
      then snd (update_cash_transfer_to_completed (o_id ord) db2) else db2)"
    using known_statuses_completed by simp
  with rest show ?thesis
    by (cases "m = Credit") (auto simp: result_simps Let_def known_statuses_cong [OF delta_payments])
qed

text \<open>A payment that fits its order: of one of the canonical methods, positive, live, of the order's retailer.\<close>

definition payment_fits :: "order_row list \<Rightarrow> payment_row \<Rightarrow> bool" where
  "payment_fits ords p \<longleftrightarrow> 0 < p_amount p \<and> in_cents (p_amount p) \<and> p_method p \<in> {Cash, Transfer, Credit} \<and> \<not> p_deleted p \<and>
     (\<exists>w x. (p_order p, w, p_retailer p, False, x) \<in> set (map owner ords))"

lemma payment_fits_core [simp]: "payment_fits ords (payment_core p) = payment_fits ords p"
  by (simp add: payment_fits_def)

lemma payment_fits_owners:
  "set (map owner ords) \<subseteq> set (map owner ords') \<Longrightarrow> payment_fits ords p \<Longrightarrow> payment_fits ords' p"
  unfolding payment_fits_def by blast

definition history_ok :: "store \<Rightarrow> bool" where
  "history_ok db \<longleftrightarrow> known_statuses db \<and> list_all (payment_fits (t_orders db)) (payment_cores db)"

lemma history_ok_alt:
  "history_ok db \<longleftrightarrow> (\<forall>p \<in> set (t_payments db). payment_fits (t_orders db) p \<and> p_status p \<in> {Pending, Completed})"
  by (auto simp: history_ok_def known_statuses_def list_all_iff payment_cores_def)

lemma history_ok_frame:
  assumes "history_ok db" and "t_payments db' = t_payments db"
    and "\<exists>more. map owner (t_orders db') = map owner (t_orders db) @ more"
  shows "history_ok db'"
proof -
  have "set (map owner (t_orders db)) \<subseteq> set (map owner (t_orders db'))"
    using assms(3) by (elim exE) (simp only: set_append Un_upper1)
  then show ?thesis using assms(1,2) payment_fits_owners unfolding history_ok_alt by metis
qed

lemma history_ok_order_frame: "history_ok db \<Longrightarrow> order_frame db db' \<and> t_payments db' = t_payments db \<Longrightarrow> history_ok db'"
  by (rule history_ok_frame) (auto simp: order_frame_def)

lemma paid_row_fits:
  assumes "paid_row db dm ord q m txn key" and "0 < q" "in_cents q" and "ord \<in> set (t_orders db)" "\<not> o_deleted ord"
    and "history_ok db" and "map owner (t_orders db') = map owner (t_orders db)" and "payment_cores db' = payment_cores dm"
  shows "list_all (payment_fits (t_orders db')) (payment_cores db')"
proof -
  from assms(1) obtain p where p: "payment_cores db' = payment_cores db @ [payment_core p]" "p_order p = o_id ord"
      "p_method p = m" "p_amount p = num2 q" "\<not> p_deleted p" "p_retailer p = o_retailer ord" and m: "m \<in> {Cash, Transfer, Credit}"
    unfolding paid_row_def assms(8) by blast
  have "owner ord \<in> set (map owner (t_orders db))" using assms(4) by simp
  then have "(o_id ord, o_wholesaler ord, o_retailer ord, False, o_total ord, o_items ord) \<in> set (map owner (t_orders db))"
    using assms(5) by (simp add: owner_def del: set_map)
  then have "payment_fits (t_orders db') p"
    using p m assms(2,3,7) by (auto simp: payment_fits_def num2_cents simp del: set_map)
  moreover have "list_all (payment_fits (t_orders db')) (payment_cores db)"
    using assms(6) payment_fits_owners [of "t_orders db" "t_orders db'"] assms(7)
    by (auto simp: history_ok_def list_all_iff simp del: set_map)
  ultimately show ?thesis by (simp add: p(1))
qed

lemma locked_payment_history:
  assumes inv: "store_inv db" and live: "live_order db oid = Some ord" and hist: "history_ok db"
    and run: "confirm_payment_for_locked_order no_race ord (Finite q) m txn key usr force alloc db = Inr (pr, db')"
    and cents: "in_cents q"
  shows "history_ok db'"
proof -
  have ord: "ord \<in> set (t_orders db)" "\<not> o_deleted ord" using live_order_Some [OF live] by simp_all
  have owners: "map owner (t_orders db') = map owner (t_orders db)"
    using locked_payment_orders [OF inv live run] by (simp add: order_frame_def)
  have keys: "distinct (map (\<lambda>b. (b_wholesaler b, b_retailer b)) (t_bindings db))" by (rule store_inv_parts(1) [OF inv live])
  from keys run have "db' = db \<or> 0 < q \<and> paid_row db db' ord q m txn key"
    by (rule locked_payment_effect) auto
  then show ?thesis
  proof
    assume "db' = db" with hist show ?thesis by simp
  next
    assume row: "0 < q \<and> paid_row db db' ord q m txn key"
    have "list_all (payment_fits (t_orders db')) (payment_cores db')"
      using row cents ord hist owners by (intro paid_row_fits [of db db' ord q m txn key]) simp_all
    moreover have "known_statuses db'"
      using run
    proof (rule locked_payment_run)
      fix q target coll h receipt db1 p db2 ord'
      assume rc: "with_receipt (alloc \<and> payment_status_of force coll m target = Completed) db = (receipt, db1)"
        and row: "create_payment_row (o_id ord) (o_retailer ord) txn (Some key) q m
           (payment_status_of force coll m target) usr receipt db1 = Inr (p, db2)"
        and eff: "(if coll then collect_on_credit ord q db2
          else settle_order ord [h] target q m usr force db2) = Inr (ord', db')"
      note f = with_receipt_frame [OF rc] row [unfolded create_payment_row_Inr]
      have known: "known_statuses db2"
        using hist f by (auto simp: history_ok_def known_statuses_def new_payment_def payment_status_of_def)
      have keys2: "distinct (map (\<lambda>b. (b_wholesaler b, b_retailer b)) (t_bindings db2))" using keys f by simp
      show ?thesis
      proof (cases coll)
        case True
        with eff collect_effect [OF keys2] known show ?thesis by (auto cong: known_statuses_cong)
      next
        case False
        with eff known show ?thesis using settle_statuses [OF keys2] by simp
      qed
    qed (use hist in \<open>simp add: history_ok_def\<close>)
    ultimately show ?thesis by (simp add: history_ok_def)
  qed
qed

section \<open>Every request keeps the history valid\<close>

lemma payment_cents_history:
  assumes inv: "store_inv db" and hist: "history_ok db" and cents: "in_cents q"
    and run: "confirm_payment no_race oid (Finite q) m txn key usr force alloc db = Inr (pr, db')"
  shows "history_ok db'"
proof (cases "get_by_idempotency_key db key")
  case None
  with run obtain ord u where "live_order db u = Some ord"
    "confirm_payment_for_locked_order no_race ord (Finite q) m txn key usr force alloc db = Inr (pr, db')"
    by (auto simp: confirm_payment_def get_order_by_id_for_update_def result_simps split: option.splits)
  then show ?thesis by (rule locked_payment_history [OF inv _ hist _ cents])
next
  case (Some p)
  with run have "db' = db"
    by (auto simp: confirm_payment_def replay_result_def result_simps split: option.splits if_splits)
  then show ?thesis using hist by simp
qed

lemma serve_history:
  assumes inv: "erp_inv db" and hist: "history_ok db" and exact: "exact_amounts c" and run: "serve c db = Inr db'"
  shows "history_ok db'"
proof -
  have store: "store_inv db" and pay: "pay_inv db" and ok: "declarations_ok db" and acc: "accounted db" and on: "on_hand_cents db"
    using inv by (simp_all add: erp_inv_def pay_inv_def store_inv_def)
  have ids: "distinct (map d_id (t_declarations db))" using ok by (simp add: declarations_ok_def)
  show ?thesis
    using run exact
  proof (rule serve_cases)
    fix ws ret lines remark usr ord assume "crud_create_order ws ret lines remark usr db = Inr (ord, db')"
    then show ?thesis by (rule crud_create_order_Inr) (auto intro!: history_ok_frame [OF hist])
  next
    fix oid q m txn key usr pr
    assume "confirm_payment no_race oid (Finite q) m txn key usr False False db = Inr (pr, db')" "in_cents q"
    then show ?thesis using payment_cents_history [OF store hist] by blast
  next
    fix code q usr assume "adjust_stock code q usr db = Inr db'" "in_cents q"
    then have "stock_step db db'" using adjust_stock_step [OF acc on] by blast
    then show ?thesis using order_frame_stock stock_step_tables by (blast intro: history_ok_order_frame [OF hist])
  next
    fix oid ret ws usr a m ref key d rep
    assume "submit_declaration no_race oid ret ws usr a m ref key db = Inr ((d, rep), db')"
    then show ?thesis
      by (rule submit_declaration_cases) (auto simp: create_declaration_Inr hist intro!: history_ok_frame [OF hist])
  next
    fix did ws usr dd pr assume run: "confirm_declaration no_race did ws usr db = Inr ((dd, pr), db')"
    then show ?thesis
    proof (rule confirm_declaration_cases)
      fix d assume d: "decl_by_wholesaler_dual_key db did ws = Some d" "d_status d = Decl_Pending"
      from pay ok d run obtain ord dm where live: "live_order db (d_order d) = Some ord"
        and locked: "confirm_payment_for_locked_order no_race ord (Finite (d_amount d)) (d_method d)
           (blank_to_none (d_transfer_reference d)) (canonical_key did) (Some usr) True True db = Inr (pr, dm)"
        and db': "db' = with_decl (confirmed_by usr (p_id (pr_payment pr))) did dm"
        by (rule confirm_pending_effect)
      have "in_cents (d_amount d)"
        using ok decl_found [OF d(1)] by (auto simp: declarations_ok_def declaration_shape_def)
      then have "history_ok dm" by (rule locked_payment_history [OF store live hist locked])
      then show ?thesis by (rule history_ok_frame) (simp_all add: db')
    qed (simp add: hist)
  next
    fix did ws usr reason x assume "reject_declaration did ws usr reason db = Inr (x, db')"
    then obtain d where d: "decl_by_wholesaler_dual_key db did ws = Some d"
      and m: "mark_rejected did ws usr reason db = Inr db'"
      by (auto simp: reject_declaration_def decl_for_update_by_wholesaler_def result_simps split: option.splits if_splits)
    then have "db' = with_decl (\<lambda>d. d\<lparr>d_status := Decl_Rejected, d_rejected_by := Some usr, d_reason := Some reason\<rparr>) did db"
      by (auto simp: mark_rejected_def update_pending_run [OF ids d] split: if_splits)
    then show ?thesis by (intro history_ok_frame [OF hist]) simp_all
  next
    fix cat assume "serve_catalog cat db = Inr db'"
    then show ?thesis by (intro history_ok_order_frame [OF hist] catalog_frame serve_catalog_step)
  qed (rule history_ok_order_frame [OF hist], erule command_frame [OF store])+
qed

interpretation program_history: transactional_pair serve erp_inv exact_amounts history_ok
  by unfold_locales (auto intro: serve_history)

lemma run_history:
  assumes "provisioned start" and "\<forall>r \<in> set rs. exact_amounts r"
  shows "history_ok (run_requests rs start) \<and> erp_inv (run_requests rs start)"
  using program_history.both.calls_keep [of start rs] provisioned_inv [OF assms(1)] assms
  by (simp add: history_ok_alt provisioned_def)

lemma order_hold_typed: "h \<in> set (order_holds db (o_id ord)) \<Longrightarrow> order_ok db ord \<Longrightarrow> hold_row_ok h"
  by (cases "o_status ord") (auto simp: order_ok_def paid_off_def hold_row_ok_def)

lemma history_ok_accepted:
  assumes "history_ok db" and "erp_inv db"
  shows "assert_valid_payment_history db oids = Inr ()"
proof -
  have ids: "distinct (map o_id (t_orders db))" using assms(2) by (simp add: erp_inv_def pay_inv_def store_inv_def store_keys_def)
  have "invalid_rows_of db oid = []" for oid
  proof (cases "row_find o_id oid (t_orders db)")
    case (Some ord)
    have "\<not> invalid_history_row ord p" if pp: "p \<in> set (t_payments db)" "p_order p = oid" for p
    proof -
      have fits: "payment_fits (t_orders db) p" and known: "p_status p \<in> {Pending, Completed}"
        using assms(1) pp(1) unfolding history_ok_alt by blast+
      then obtain x where x: "x \<in> set (t_orders db)" "o_id x = oid" "o_retailer x = p_retailer p" "\<not> o_deleted x"
        using pp(2) by (auto simp: payment_fits_def owner_def)
      then have "x = ord" using row_find_Some [OF Some] ids by (auto simp: distinct_map dest: inj_onD)
      with x fits known show ?thesis by (auto simp: invalid_history_row_def payment_fits_def)
    qed
    then show ?thesis using Some by (auto simp: invalid_rows_of_def order_payments_def filter_empty_conv)
  qed (simp add: invalid_rows_of_def)
  then show ?thesis by (simp add: assert_valid_payment_history_def find_invalid_history_orders_def)
qed

text \<open>
  C24: Every stored financial row has its type. After any sequence of requests from a freshly
  provisioned tenant whose payment amounts are whole cents (a hypothesis: the pay route accepts any
  positive amount, and 0.001 would be stored as zero, see \<open>Fractional_Amounts\<close>), each payment is a positive amount of whole cents, of a known method and
  status, live and of an existing order; each hold satisfies the CHECK constraints of its table;
  each balance of a live binding is a non-negative amount of whole cents; and each declaration is a
  positive amount of whole cents in cash or by transfer.
\<close>

theorem reachable_rows_are_typed:
  assumes "provisioned start" and "\<forall>r \<in> set rs. exact_amounts r" and "db = run_requests rs start"
  shows "list_all (\<lambda>p. payment_fits (t_orders db) p \<and> (p_status p = Pending \<or> p_status p = Completed)) (t_payments db) \<and>
    list_all hold_row_ok (t_holds db) \<and>
    list_all (\<lambda>b. b_deleted b \<or> 0 \<le> b_balance b \<and> in_cents (b_balance b)) (t_bindings db) \<and>
    list_all declaration_shape (t_declarations db)"
proof -
  have hist: "history_ok db" and inv: "erp_inv db" using run_history [OF assms(1,2)] by (simp_all add: assms(3))
  have store: "store_inv db" and refs: "references db" using inv by (simp_all add: erp_inv_def pay_inv_def)
  have "hold_row_ok h" if h: "h \<in> set (t_holds db)" for h
  proof -
    obtain ord where ord: "ord \<in> set (t_orders db)" "o_id ord = h_order h"
      using refs h by (auto simp: references_def)
    then have "h \<in> set (order_holds db (o_id ord))" using h by (simp add: order_holds_def)
    moreover have "order_ok db ord" using store ord(1) by (simp add: store_inv_def)
    ultimately show ?thesis by (rule order_hold_typed)
  qed
  moreover have "0 \<le> b_balance b \<and> in_cents (b_balance b)" if "b \<in> set (t_bindings db)" "\<not> b_deleted b" for b
    using balances_nonneg [OF store that] store that occupation_cents [of db] by (auto simp: store_inv_def cache_exact_def)
  moreover have "declaration_shape d" if "d \<in> set (t_declarations db)" for d
    using inv that by (simp add: erp_inv_def declarations_ok_def)
  ultimately show ?thesis using hist by (auto simp: history_ok_alt list_all_iff)
qed

theorem reachable_rows_are_typed_witness:
  "list_all hold_row_ok (t_holds tenant_settled) \<and> list_all (\<lambda>p. in_cents (p_amount p)) (t_payments tenant_settled) \<and>
   length (t_payments tenant_settled) = 1"
  using reachable_rows_are_typed [OF sample_provisioned sample_requests_exact refl]
  by (auto simp: sample_requests_run list_all_iff payment_fits_def) (simp add: tenant_settled_def)

text \<open>
  C21: The payment history contract refuses no database of the running program. After any
  sequence of requests from a freshly provisioned tenant whose payment amounts are whole cents (a
  hypothesis: after a payment of 0.001, which the pay route accepts, the contract does refuse, see
  \<open>Fractional_Amounts\<close>), every selection of orders passes it; so no
  payment, no receivables summary and no receivables list is ever turned away by it.
\<close>

theorem payment_history_never_refused:
  assumes "provisioned start" and "\<forall>r \<in> set rs. exact_amounts r"
  shows "assert_valid_payment_history (run_requests rs start) oids = Inr ()"
  using run_history [OF assms] by (blast intro: history_ok_accepted)

theorem payment_history_never_refused_witness:
  "assert_valid_payment_history (run_requests sample_requests sample_tenant) [1000] = Inr ()"
  using payment_history_never_refused [OF sample_provisioned sample_requests_exact, of "[1000]"] .

end
