(* ===== verification/Receivables.thy ===== *)
theory Receivables
  imports Payment_History
begin

text \<open>
  The receivables read model (\<open>services/receivables_service.py\<close>): the summary per retailer and the
  paginated list of orders with their classification. Both are reads. Amounts are exact here, where
  the service hands them to JSON as floats; ages and creation times are left out. The directory of
  retailers (\<open>public.retailers\<close>: the optional display name of each known retailer) is an argument.
\<close>

type_synonym directory = "uuid \<Rightarrow> string option option"

definition display_name :: "string option option \<Rightarrow> string" where
  "display_name n = (case n of Some (Some s) \<Rightarrow> if s = [] then ''Unknown'' else s | _ \<Rightarrow> ''Unknown'')"

section \<open>Exposure of one order\<close>

definition credit_exposure :: "money \<Rightarrow> money \<Rightarrow> money" where
  "credit_exposure credit_amount collection_amount = credit_amount - collection_amount"

definition assert_history_integrity :: "money \<Rightarrow> money \<Rightarrow> error + unit" where
  "assert_history_integrity credit_amount collection_amount =
     (if credit_amount > 0 \<and> collection_amount > credit_amount then Inl (Http 409 PAYMENT_HISTORY_INTEGRITY)
      else if credit_amount < 0 \<or> collection_amount < 0 then Inl (Http 409 PAYMENT_HISTORY_INTEGRITY)
      else Inr ())"

definition receivable_statuses :: "order_state list" where
  "receivable_statuses = [CONFIRMED, PARTIALLY_PAID, PAID]"

text \<open>Active holds joined with their live orders.\<close>

definition hold_order :: "store \<Rightarrow> hold_row \<Rightarrow> order_row option" where
  "hold_order db h = (if h_status h = Active then live_order db (h_order h) else None)"

section \<open>Summary per retailer\<close>

record retailer_summary =
  q_retailer :: uuid
  q_name :: string
  q_outstanding :: money
  q_credit :: money
  q_unpaid :: money
  q_orders :: nat

record receivables_summary =
  q_total_outstanding :: money
  q_retailer_count :: nat
  q_order_count :: nat
  q_credit_receivables :: money
  q_unpaid_balance :: money
  q_by_retailer :: "retailer_summary list"

definition summary_bindings :: "directory \<Rightarrow> store \<Rightarrow> uuid \<Rightarrow> binding_row list" where
  "summary_bindings directory db ws =
     sort_key (\<lambda>b. - b_balance b)
       (filter (\<lambda>b. b_wholesaler b = ws \<and> \<not> b_deleted b \<and> directory (b_retailer b) \<noteq> None) (t_bindings db))"

definition summary_orders :: "store \<Rightarrow> uuid \<Rightarrow> uuid list \<Rightarrow> order_row list" where
  "summary_orders db ws retailers =
     filter (\<lambda>ord. o_wholesaler ord = ws \<and> o_retailer ord \<in> set retailers \<and> \<not> o_deleted ord \<and>
       o_status ord \<in> set receivable_statuses) (t_orders db)"

text \<open>The credit track of a retailer: exposure and number of orders that still owe.\<close>

fun credit_track :: "store \<Rightarrow> order_row list \<Rightarrow> error + (money \<times> nat)" where
  "credit_track db [] = Inr (0, 0)"
| "credit_track db (ord # ords) =
     (let credit_amt = get_order_method_total db (o_id ord) [Credit];
          cash_amt = get_order_method_total db (o_id ord) [Cash, Transfer];
          credit_balance = credit_exposure credit_amt cash_amt
      in bindE (assert_history_integrity credit_amt cash_amt) (\<lambda>_.
         bindE (credit_track db ords) (\<lambda>(owed, n).
         Inr (if credit_balance > 0 then (owed + credit_balance, Suc n) else (owed, n)))))"

definition retailer_holds :: "store \<Rightarrow> uuid \<Rightarrow> hold_row list" where
  "retailer_holds db ret =
     filter (\<lambda>h. case hold_order db h of None \<Rightarrow> False | Some ord \<Rightarrow> o_retailer ord = ret) (t_holds db)"

definition retailer_row :: "directory \<Rightarrow> store \<Rightarrow> order_row list \<Rightarrow> binding_row \<Rightarrow> error + retailer_summary" where
  "retailer_row directory db orders b =
     (let ret = b_retailer b; holds = retailer_holds db ret in
      bindE (credit_track db (filter (\<lambda>ord. o_retailer ord = ret) orders)) (\<lambda>(credit, n).
      Inr \<lparr>q_retailer = ret, q_name = display_name (directory ret), q_outstanding = b_balance b, q_credit = credit,
           q_unpaid = (\<Sum>h\<leftarrow>holds. h_remaining h), q_orders = n + length holds\<rparr>))"

fun retailer_rows :: "directory \<Rightarrow> store \<Rightarrow> order_row list \<Rightarrow> binding_row list \<Rightarrow> error + retailer_summary list" where
  "retailer_rows directory db orders [] = Inr []"
| "retailer_rows directory db orders (b # bs) =
     bindE (retailer_row directory db orders b) (\<lambda>q.
     bindE (retailer_rows directory db orders bs) (\<lambda>qs.
     Inr (if q_outstanding q = 0 \<and> q_unpaid q = 0 \<and> q_credit q = 0 then qs else q # qs)))"

definition get_receivables_summary :: "directory \<Rightarrow> store \<Rightarrow> uuid \<Rightarrow> error + receivables_summary" where
  "get_receivables_summary directory db ws =
     (let bindings = summary_bindings directory db ws in
      if bindings = []
      then Inr \<lparr>q_total_outstanding = 0, q_retailer_count = 0, q_order_count = 0, q_credit_receivables = 0,
                q_unpaid_balance = 0, q_by_retailer = []\<rparr>
      else
        (let orders = summary_orders db ws (map b_retailer bindings) in
         bindE (assert_valid_payment_history db (map o_id orders)) (\<lambda>_.
         bindE (retailer_rows directory db orders bindings) (\<lambda>rows.
         Inr \<lparr>q_total_outstanding = (\<Sum>q\<leftarrow>rows. q_outstanding q), q_retailer_count = length rows,
              q_order_count = (\<Sum>q\<leftarrow>rows. q_orders q), q_credit_receivables = (\<Sum>q\<leftarrow>rows. q_credit q),
              q_unpaid_balance = (\<Sum>q\<leftarrow>rows. q_unpaid q), q_by_retailer = rows\<rparr>))))"

section \<open>Orders with their classification\<close>

record receivable_item =
  e_order :: uuid
  e_retailer :: uuid
  e_name :: string
  e_status :: string
  e_classification :: "string option"
  e_method :: string
  e_total :: money
  e_cash :: money
  e_credit :: money
  e_due :: money

record pagination =
  g_page :: nat
  g_size :: nat
  g_total :: nat
  g_pages :: nat

definition order_status_of :: "string \<Rightarrow> order_state option" where
  "order_status_of s =
     find (\<lambda>st. state_value st = s) [DRAFT, CONFIRMED, PARTIALLY_PAID, PAID, FULFILLED, CANCELLED, VOIDED, RETURNED]"

text \<open>\<open>math.ceil(total / size)\<close>.\<close>

definition page_count :: "nat \<Rightarrow> nat \<Rightarrow> nat" where
  "page_count n per_page = (if n > 0 then nat \<lceil>of_nat n / (of_nat per_page :: rat)\<rceil> else 0)"

definition page_slice :: "nat \<Rightarrow> nat \<Rightarrow> 'a list \<Rightarrow> 'a list" where
  "page_slice page per_page xs = take per_page (drop ((page - 1) * per_page) xs)"

definition hold_remaining :: "store \<Rightarrow> uuid \<Rightarrow> money" where
  "hold_remaining db oid =
     (case find (\<lambda>h. h_order h = oid \<and> hold_order db h \<noteq> None) (t_holds db) of None \<Rightarrow> 0 | Some h \<Rightarrow> h_remaining h)"

definition classify_order :: "order_row \<Rightarrow> money \<Rightarrow> money \<Rightarrow> string option" where
  "classify_order ord credit_balance balance_due =
     (if credit_balance > 0 then Some ''credit_receivable''
      else if balance_due > 0 \<and> o_status ord \<in> {CONFIRMED, PARTIALLY_PAID} then Some ''unpaid_order''
      else None)"

definition receivable_item_of :: "directory \<Rightarrow> store \<Rightarrow> uuid \<Rightarrow> order_row \<Rightarrow> error + receivable_item" where
  "receivable_item_of directory db ws ord =
     (let credit_amt = get_order_method_total db (o_id ord) [Credit];
          cash_amt = get_order_method_total db (o_id ord) [Cash, Transfer];
          credit_balance = credit_exposure credit_amt cash_amt;
          balance_due = hold_remaining db (o_id ord);
          bound = (\<exists>b \<in> set (t_bindings db). b_wholesaler b = ws \<and> b_retailer b = o_retailer ord \<and> \<not> b_deleted b)
      in bindE (assert_history_integrity credit_amt cash_amt) (\<lambda>_.
         Inr \<lparr>e_order = o_id ord, e_retailer = o_retailer ord,
              e_name = (if bound \<and> directory (o_retailer ord) \<noteq> None then display_name (directory (o_retailer ord)) else ''Unknown''),
              e_status = state_value (o_status ord),
              e_classification = classify_order ord credit_balance balance_due,
              e_method = (if credit_amt \<ge> cash_amt \<and> credit_amt > 0 then ''credit'' else if cash_amt > 0 then ''cash'' else ''unknown''),
              e_total = o_total ord, e_cash = cash_amt, e_credit = credit_amt,
              e_due = (if credit_amt > 0 then credit_balance else balance_due)\<rparr>))"

fun receivable_items :: "directory \<Rightarrow> store \<Rightarrow> uuid \<Rightarrow> string option \<Rightarrow> order_row list \<Rightarrow> error + receivable_item list" where
  "receivable_items directory db ws cls [] = Inr []"
| "receivable_items directory db ws cls (ord # ords) =
     bindE (receivable_item_of directory db ws ord) (\<lambda>e.
     bindE (receivable_items directory db ws cls ords) (\<lambda>es.
     Inr (if cls \<noteq> None \<and> e_classification e \<noteq> cls then es else e # es)))"

text \<open>The filters of the query, and nothing at all when one of them is not readable.\<close>

definition receivable_filter :: "uuid \<Rightarrow> id_text option \<Rightarrow> string option \<Rightarrow> (order_row \<Rightarrow> bool) option" where
  "receivable_filter ws retailer status =
     (let ret = (case retailer of None \<Rightarrow> Some (\<lambda>_. True) | Some t \<Rightarrow> if t = Malformed [] then Some (\<lambda>_. True)
                 else (case parse_uuid t of None \<Rightarrow> None | Some u \<Rightarrow> Some (\<lambda>ord. o_retailer ord = u)));
          sts = (case blank_to_none status of None \<Rightarrow> Some (\<lambda>_. True)
                 | Some s \<Rightarrow> (case order_status_of s of None \<Rightarrow> None | Some st \<Rightarrow> Some (\<lambda>ord. o_status ord = st)))
      in case (ret, sts) of
           (Some P, Some Q) \<Rightarrow> Some (\<lambda>ord. o_wholesaler ord = ws \<and> \<not> o_deleted ord \<and> o_status ord \<in> set receivable_statuses
                                       \<and> P ord \<and> Q ord)
         | _ \<Rightarrow> None)"

definition list_receivable_orders ::
  "directory \<Rightarrow> store \<Rightarrow> uuid \<Rightarrow> nat \<Rightarrow> nat \<Rightarrow> id_text option \<Rightarrow> string option \<Rightarrow> string option
   \<Rightarrow> error + (receivable_item list \<times> pagination)" where
  "list_receivable_orders directory db ws page per_page retailer classification status =
     (case receivable_filter ws retailer status of
        None \<Rightarrow> Inr ([], \<lparr>g_page = 1, g_size = per_page, g_total = 0, g_pages = 0\<rparr>)
      | Some P \<Rightarrow>
          (let hits = rev (filter P (t_orders db)); cls = blank_to_none classification;
               orders = (if cls \<noteq> None then hits else page_slice page per_page hits)
           in if orders = [] then
                (let n = (if cls \<noteq> None then 0 else length hits)
                 in Inr ([], \<lparr>g_page = page, g_size = per_page, g_total = n, g_pages = page_count n per_page\<rparr>))
              else
                bindE (assert_valid_payment_history db (map o_id orders)) (\<lambda>_.
                bindE (receivable_items directory db ws cls orders) (\<lambda>items.
                let n = (if cls \<noteq> None then length items else length hits)
                in Inr (if cls \<noteq> None then page_slice page per_page items else items,
                        \<lparr>g_page = page, g_size = per_page, g_total = n, g_pages = page_count n per_page\<rparr>)))))"

section \<open>The tracks of one order\<close>

lemma order_track:
  assumes "order_ok db ord"
  shows "assert_history_integrity (get_order_method_total db (o_id ord) [Credit]) (get_order_method_total db (o_id ord) [Cash, Transfer])
      = Inr ()"
    and "0 < credit_exposure (get_order_method_total db (o_id ord) [Credit]) (get_order_method_total db (o_id ord) [Cash, Transfer])
      \<longleftrightarrow> 0 < credit_owed db (o_id ord)"
    and "0 < credit_owed db (o_id ord) \<Longrightarrow>
      credit_exposure (get_order_method_total db (o_id ord) [Credit]) (get_order_method_total db (o_id ord) [Cash, Transfer])
      = credit_owed db (o_id ord)"
    and "0 \<le> credit_owed db (o_id ord)"
  using assms unfolding order_ok_def
  by (cases "o_status ord"; force simp: paid_off_def credit_owed_def credit_total_def get_order_paid_total_def
      credit_exposure_def assert_history_integrity_def)+

lemma credit_track_ok:
  "\<forall>ord \<in> set ords. order_ok db ord \<Longrightarrow> credit_track db ords =
     Inr (\<Sum>ord\<leftarrow>ords. credit_owed db (o_id ord), length (filter (\<lambda>ord. 0 < credit_owed db (o_id ord)) ords))"
proof (induction ords)
  case (Cons ord ords)
  then have "order_ok db ord" by simp
  note t = order_track [OF this]
  have "credit_owed db (o_id ord) = 0" if "\<not> 0 < credit_owed db (o_id ord)" using that t(4) by simp
  with Cons t show ?case by (simp add: Let_def)
qed simp

lemma open_credit_statuses:
  "order_ok db ord \<Longrightarrow> 0 < credit_owed db (o_id ord) \<Longrightarrow> o_status ord \<in> {PAID, FULFILLED, RETURNED}"
  by (cases "o_status ord") (auto simp: order_ok_def credit_owed_def)

section \<open>The holds of a retailer\<close>

lemma sum_list_swap:
  "(\<Sum>x\<leftarrow>xs. \<Sum>y\<leftarrow>ys. f x y) = (\<Sum>y\<leftarrow>ys. \<Sum>x\<leftarrow>xs. f x y :: 'b :: comm_monoid_add)"
  by (induction xs) (simp_all add: sum_list_addf)

lemma sum_list_zero': "(\<And>x. x \<in> set xs \<Longrightarrow> f x = 0) \<Longrightarrow> (\<Sum>x\<leftarrow>xs. f x) = (0 :: 'b :: comm_monoid_add)"
  by (induction xs) auto

lemma sum_list_unique:
  "distinct (map key rows) \<Longrightarrow> (\<Sum>r\<leftarrow>rows. if key r = k \<and> P r then x else 0) =
     (case row_find key k rows of None \<Rightarrow> 0 | Some r \<Rightarrow> if P r then x else (0 :: 'b :: comm_monoid_add))"
proof (induction rows)
  case (Cons r rows)
  have zero: "(\<Sum>y\<leftarrow>rows. if key y = k \<and> P y then x else 0) = (0 :: 'b)" if "key r = k"
    using Cons.prems that by (intro sum_list_zero') (auto simp: rev_image_eqI)
  show ?case using Cons zero by (auto simp: row_find_def)
qed (simp add: row_find_def)

lemma live_order_row_find: "orders_of ws db \<Longrightarrow> live_order db k = row_find o_id k (t_orders db)"
  unfolding live_order_def row_find_def orders_of_def by (rule find_cong) auto

lemma inactive_hold_empty:
  assumes "order_ok db ord" and "h \<in> set (order_holds db (o_id ord))" and "h_status h \<noteq> Active"
  shows "h_remaining h = 0"
  using assms by (cases "o_status ord") (auto simp: order_ok_def paid_off_def)

lemma retailer_holds_total:
  assumes inv: "store_inv db" and mine: "orders_of ws db"
  shows "(\<Sum>h\<leftarrow>retailer_holds db ret. h_remaining h) =
    (\<Sum>ord\<leftarrow>t_orders db. if o_retailer ord = ret then (\<Sum>h\<leftarrow>order_holds db (o_id ord). h_remaining h) else 0)"
proof -
  have ids: "distinct (map o_id (t_orders db))" using inv by (simp add: store_inv_def store_keys_def)
  have each: "(\<Sum>ord\<leftarrow>t_orders db. if o_id ord = h_order h \<and> o_retailer ord = ret then h_remaining h else 0) =
      (if (case hold_order db h of None \<Rightarrow> False | Some ord \<Rightarrow> o_retailer ord = ret) then h_remaining h else 0)"
    if h: "h \<in> set (t_holds db)" for h
  proof (cases "row_find o_id (h_order h) (t_orders db)")
    case (Some ord)
    have "h_remaining h = 0" if "h_status h \<noteq> Active"
      using that h row_find_Some [OF Some] inv
      by (intro inactive_hold_empty [of db ord]) (auto simp: store_inv_def order_holds_def)
    with Some show ?thesis
      by (simp add: sum_list_unique [OF ids] hold_order_def live_order_row_find [OF mine])
  qed (simp add: sum_list_unique [OF ids] hold_order_def live_order_row_find [OF mine])
  have "(\<Sum>ord\<leftarrow>t_orders db. if o_retailer ord = ret then (\<Sum>h\<leftarrow>order_holds db (o_id ord). h_remaining h) else 0) =
      (\<Sum>ord\<leftarrow>t_orders db. \<Sum>h\<leftarrow>t_holds db. if o_id ord = h_order h \<and> o_retailer ord = ret then h_remaining h else 0)"
    by (intro sum_list_cong') (auto simp: order_holds_def sum_list_filter_if intro!: sum_list_cong' sum_list_zero' [symmetric])
  also have "\<dots> = (\<Sum>h\<leftarrow>t_holds db. if (case hold_order db h of None \<Rightarrow> False | Some ord \<Rightarrow> o_retailer ord = ret)
      then h_remaining h else 0)"
    unfolding sum_list_swap [of _ "t_holds db"] by (intro sum_list_cong' each)
  finally show ?thesis by (simp add: retailer_holds_def sum_list_filter_if)
qed

end
