(* ===== verification/Receivables_Report.thy ===== *)
theory Receivables_Report
  imports Receivables
begin

text \<open>
  What the receivables reads report about a tenant of the running program: the summary adds up to the
  outstanding balances, and the list shows each order's exposure, page by page without gap or
  repetition.
\<close>

section \<open>A tenant's database\<close>

definition tenant_ok :: "uuid \<Rightarrow> store \<Rightarrow> bool" where
  "tenant_ok ws db \<longleftrightarrow> erp_inv db \<and> history_ok db \<and> orders_of ws db"

lemma tenant_run:
  assumes "provisioned start" and "\<forall>r \<in> set rs. request_of ws r"
  shows "tenant_ok ws (run_requests rs start)"
proof -
  have exact: "\<forall>r \<in> set rs. exact_amounts r" using assms(2) by (simp add: request_of_def)
  have "orders_of ws start" using assms(1) by (simp add: orders_of_def provisioned_def)
  then have "orders_of ws (run_requests rs start)"
    using tenant.both.calls_keep [of start ws rs] provisioned_inv [OF assms(1)] assms(2) by simp
  with run_history [OF assms(1) exact] show ?thesis by (simp add: tenant_ok_def)
qed

lemma tenant_ok_store: "tenant_ok ws db \<Longrightarrow> store_inv db"
  by (simp add: tenant_ok_def erp_inv_def pay_inv_def)

lemma tenant_ok_order: "tenant_ok ws db \<Longrightarrow> ord \<in> set (t_orders db) \<Longrightarrow> order_ok db ord"
  using tenant_ok_store by (simp add: store_inv_def)

lemma tenant_ok_history: "tenant_ok ws db \<Longrightarrow> assert_valid_payment_history db oids = Inr ()"
  unfolding tenant_ok_def by (blast intro: history_ok_accepted)

section \<open>The summary\<close>

text \<open>What credit sales still owe after the goods have left: the summary reads no such order.\<close>

definition closed_credit :: "store \<Rightarrow> uuid \<Rightarrow> money" where
  "closed_credit db ret =
     (\<Sum>ord\<leftarrow>t_orders db. if o_retailer ord = ret \<and> o_status ord \<in> {FULFILLED, RETURNED} then credit_owed db (o_id ord) else 0)"

text \<open>The row the summary computes for a binding.\<close>

definition summary_row :: "directory \<Rightarrow> store \<Rightarrow> order_row list \<Rightarrow> binding_row \<Rightarrow> retailer_summary" where
  "summary_row directory db orders b =
     (let ords = filter (\<lambda>ord. o_retailer ord = b_retailer b) orders; holds = retailer_holds db (b_retailer b) in
      \<lparr>q_retailer = b_retailer b, q_name = display_name (directory (b_retailer b)), q_outstanding = b_balance b,
       q_credit = (\<Sum>ord\<leftarrow>ords. credit_owed db (o_id ord)), q_unpaid = (\<Sum>h\<leftarrow>holds. h_remaining h),
       q_orders = length (filter (\<lambda>ord. 0 < credit_owed db (o_id ord)) ords) + length holds\<rparr>)"

lemma summary_row_simps [simp]:
  "q_retailer (summary_row directory db orders b) = b_retailer b"
  "q_outstanding (summary_row directory db orders b) = b_balance b"
  by (simp_all add: summary_row_def Let_def)

definition occupied :: "retailer_summary \<Rightarrow> bool" where
  "occupied q \<longleftrightarrow> \<not> (q_outstanding q = 0 \<and> q_unpaid q = 0 \<and> q_credit q = 0)"

lemma retailer_rows_ok:
  assumes "\<forall>ord \<in> set orders. order_ok db ord"
  shows "retailer_rows directory db orders bs = Inr (filter occupied (map (summary_row directory db orders) bs))"
proof (induction bs)
  case (Cons b bs)
  have "retailer_row directory db orders b = Inr (summary_row directory db orders b)"
    using assms by (simp add: retailer_row_def summary_row_def Let_def credit_track_ok)
  with Cons show ?case by (auto simp: occupied_def)
qed simp

lemma summary_row_reconciles:
  assumes ok: "tenant_ok ws db" and b: "b \<in> set (summary_bindings directory db ws)"
    and mem: "b_retailer b \<in> set rets"
  shows "b_balance b = q_credit (summary_row directory db (summary_orders db ws rets) b) +
    q_unpaid (summary_row directory db (summary_orders db ws rets) b) + closed_credit db (b_retailer b)"
proof -
  let ?ret = "b_retailer b"
  have inv: "store_inv db" and mine: "orders_of ws db" using ok tenant_ok_store by (auto simp: tenant_ok_def)
  have bound: "b \<in> set (t_bindings db)" "\<not> b_deleted b" "b_wholesaler b = ws"
    using b by (auto simp: summary_bindings_def)
  have "b_balance b = occupation db ws ?ret" using inv bound by (simp add: store_inv_def cache_exact_def)
  also have "\<dots> = (\<Sum>ord\<leftarrow>t_orders db. (if o_retailer ord = ?ret then (\<Sum>h\<leftarrow>order_holds db (o_id ord). h_remaining h) else 0) +
      (if o_retailer ord = ?ret then credit_owed db (o_id ord) else 0))"
    unfolding occupation_def using mine by (intro sum_list_cong') (auto simp: orders_of_def order_exposure_def)
  also have "\<dots> = q_unpaid (summary_row directory db (summary_orders db ws rets) b) +
      (\<Sum>ord\<leftarrow>t_orders db. if o_retailer ord = ?ret then credit_owed db (o_id ord) else 0)"
    by (simp add: sum_list_addf retailer_holds_total [OF inv mine] summary_row_def Let_def)
  also have "(\<Sum>ord\<leftarrow>t_orders db. if o_retailer ord = ?ret then credit_owed db (o_id ord) else 0) =
      (\<Sum>ord\<leftarrow>t_orders db. (if o_retailer ord = ?ret \<and> o_status ord \<in> set receivable_statuses then credit_owed db (o_id ord) else 0) +
        (if o_retailer ord = ?ret \<and> o_status ord \<in> {FULFILLED, RETURNED} then credit_owed db (o_id ord) else 0))"
  proof (intro sum_list_cong')
    fix ord assume "ord \<in> set (t_orders db)"
    then have "order_ok db ord" by (rule tenant_ok_order [OF ok])
    note t = order_track(4) [OF this] open_credit_statuses [OF this]
    show "(if o_retailer ord = ?ret then credit_owed db (o_id ord) else 0) =
      (if o_retailer ord = ?ret \<and> o_status ord \<in> set receivable_statuses then credit_owed db (o_id ord) else 0) +
      (if o_retailer ord = ?ret \<and> o_status ord \<in> {FULFILLED, RETURNED} then credit_owed db (o_id ord) else 0)"
      using t by (cases "0 < credit_owed db (o_id ord)") (auto simp: receivable_statuses_def)
  qed
  also have "\<dots> = q_credit (summary_row directory db (summary_orders db ws rets) b) + closed_credit db ?ret"
  proof -
    have "(\<Sum>ord\<leftarrow>t_orders db. if o_retailer ord = ?ret \<and> o_status ord \<in> set receivable_statuses then credit_owed db (o_id ord) else 0) =
        q_credit (summary_row directory db (summary_orders db ws rets) b)"
      using mine mem
      by (auto simp: summary_row_def summary_orders_def Let_def sum_list_filter_if orders_of_def intro!: sum_list_cong')
    then show ?thesis by (simp add: sum_list_addf closed_credit_def)
  qed
  finally show ?thesis by simp
qed

lemma sum_filter_zero:
  "(\<And>x. x \<in> set xs \<Longrightarrow> \<not> P x \<Longrightarrow> f x = 0) \<Longrightarrow> (\<Sum>x\<leftarrow>filter P xs. f x) = (\<Sum>x\<leftarrow>xs. f x :: money)"
  by (induction xs) auto

lemma sum_list_sort_key: "(\<Sum>x\<leftarrow>sort_key k xs. f x) = (\<Sum>x\<leftarrow>xs. f x :: money)"
  by (metis mset_map mset_sort sum_mset_sum_list)

text \<open>
  C19: The receivables summary of a tenant succeeds and adds up. After any sequence of the tenant's
  requests whose payment amounts are whole cents (a hypothesis: the pay route accepts any positive
  amount, see \<open>Fractional_Amounts\<close>), the outstanding balance it reports for a retailer is exactly the credit
  receivables plus the unpaid balance of that row plus what fulfilled or returned credit sales
  still owe; and the reported total is the sum of the balances of all bindings with a known
  retailer, although rows with nothing occupied are dropped.
\<close>

theorem receivables_summary_reconciles:
  assumes "provisioned start" and "\<forall>r \<in> set rs. request_of ws r" and "db = run_requests rs start"
  shows "\<exists>s. get_receivables_summary directory db ws = Inr s \<and>
    (\<forall>q \<in> set (q_by_retailer s). q_outstanding q = q_credit q + q_unpaid q + closed_credit db (q_retailer q)) \<and>
    q_total_outstanding s = (\<Sum>b\<leftarrow>filter (\<lambda>b. b_wholesaler b = ws \<and> \<not> b_deleted b \<and> directory (b_retailer b) \<noteq> None)
       (t_bindings db). b_balance b)"
proof -
  have ok: "tenant_ok ws db" using tenant_run [OF assms(1,2)] assms(3) by simp
  let ?bs = "summary_bindings directory db ws"
  let ?orders = "summary_orders db ws (map b_retailer ?bs)"
  let ?rows = "filter occupied (map (summary_row directory db ?orders) ?bs)"
  have total: "(\<Sum>b\<leftarrow>?bs. b_balance b) = (\<Sum>b\<leftarrow>filter (\<lambda>b. b_wholesaler b = ws \<and> \<not> b_deleted b \<and> directory (b_retailer b) \<noteq> None)
       (t_bindings db). b_balance b)"
    by (simp add: summary_bindings_def sum_list_sort_key)
  show ?thesis
  proof (cases "?bs = []")
    case True
    with total show ?thesis by (simp add: get_receivables_summary_def)
  next
    case False
    have orders: "\<forall>ord \<in> set ?orders. order_ok db ord"
      using tenant_ok_order [OF ok] by (simp add: summary_orders_def)
    have "(\<Sum>q\<leftarrow>?rows. q_outstanding q) = (\<Sum>b\<leftarrow>?bs. b_balance b)"
    proof -
      have "(\<Sum>q\<leftarrow>?rows. q_outstanding q) = (\<Sum>q\<leftarrow>map (summary_row directory db ?orders) ?bs. q_outstanding q)"
        by (rule sum_filter_zero) (simp add: occupied_def)
      then show ?thesis by (simp add: comp_def)
    qed
    moreover have "q_outstanding q = q_credit q + q_unpaid q + closed_credit db (q_retailer q)" if q: "q \<in> set ?rows" for q
    proof -
      from q obtain b where b: "b \<in> set ?bs" "q = summary_row directory db ?orders b" by auto
      then show ?thesis using summary_row_reconciles [OF ok b(1), of "map b_retailer ?bs"] by simp
    qed
    moreover have "get_receivables_summary directory db ws =
        Inr \<lparr>q_total_outstanding = (\<Sum>q\<leftarrow>?rows. q_outstanding q), q_retailer_count = length ?rows,
              q_order_count = (\<Sum>q\<leftarrow>?rows. q_orders q), q_credit_receivables = (\<Sum>q\<leftarrow>?rows. q_credit q),
              q_unpaid_balance = (\<Sum>q\<leftarrow>?rows. q_unpaid q), q_by_retailer = ?rows\<rparr>"
      using False
      by (simp add: get_receivables_summary_def Let_def tenant_ok_history [OF ok] retailer_rows_ok [OF orders])
    ultimately show ?thesis using total by simp
  qed
qed


section \<open>The list of receivable orders\<close>

text \<open>How an order should be listed: with its exposure as the balance due.\<close>

definition receivable_view :: "directory \<Rightarrow> store \<Rightarrow> uuid \<Rightarrow> order_row \<Rightarrow> receivable_item" where
  "receivable_view directory db ws ord =
     (let credit = credit_total db (o_id ord); paid = get_order_paid_total db (o_id ord);
          bound = (\<exists>b \<in> set (t_bindings db). b_wholesaler b = ws \<and> b_retailer b = o_retailer ord \<and> \<not> b_deleted b)
      in \<lparr>e_order = o_id ord, e_retailer = o_retailer ord,
          e_name = (if bound \<and> directory (o_retailer ord) \<noteq> None then display_name (directory (o_retailer ord)) else ''Unknown''),
          e_status = state_value (o_status ord),
          e_classification = (if order_exposure db (o_id ord) = 0 then None
             else if o_status ord = PAID then Some ''credit_receivable'' else Some ''unpaid_order''),
          e_method = (if credit > 0 then ''credit'' else if paid > 0 then ''cash'' else ''unknown''),
          e_total = o_total ord, e_cash = paid, e_credit = credit, e_due = order_exposure db (o_id ord)\<rparr>)"

lemma find_filter_hd: "find P xs = (case filter P xs of [] \<Rightarrow> None | x # _ \<Rightarrow> Some x)"
  by (induction xs) auto

lemma hold_remaining_filter:
  assumes "live_order db oid = Some ord"
  shows "hold_remaining db oid =
    (case filter (\<lambda>h. h_status h = Active) (order_holds db oid) of [] \<Rightarrow> 0 | h # _ \<Rightarrow> h_remaining h)"
proof -
  have "filter (\<lambda>h. h_order h = oid \<and> hold_order db h \<noteq> None) (t_holds db) = filter (\<lambda>h. h_status h = Active) (order_holds db oid)"
    unfolding order_holds_def filter_filter using assms by (intro filter_cong) (auto simp: hold_order_def)
  then show ?thesis by (simp add: hold_remaining_def find_filter_hd split: list.splits)
qed

lemma receivable_item_view:
  assumes ok: "order_ok db ord" and live: "live_order db (o_id ord) = Some ord"
    and st: "o_status ord \<in> set receivable_statuses"
  shows "receivable_item_of directory db ws ord = Inr (receivable_view directory db ws ord)"
  using ok st unfolding order_ok_def receivable_statuses_def
  by (cases "o_status ord")
    (auto simp: receivable_item_of_def receivable_view_def hold_remaining_filter [OF live] Let_def assert_history_integrity_def
      paid_off_def order_exposure_def credit_owed_def credit_exposure_def classify_order_def
      credit_total_def [symmetric] get_order_paid_total_def [symmetric])

lemma receivable_items_view:
  assumes "\<forall>ord \<in> set ords. receivable_item_of directory db ws ord = Inr (receivable_view directory db ws ord)"
  shows "receivable_items directory db ws cls ords =
    Inr (filter (\<lambda>e. cls = None \<or> e_classification e = cls) (map (receivable_view directory db ws) ords))"
  using assms by (induction ords) auto


text \<open>The list that pages are cut from: newest order first, restricted to the classification asked for.\<close>

definition receivable_list ::
  "directory \<Rightarrow> store \<Rightarrow> uuid \<Rightarrow> (order_row \<Rightarrow> bool) \<Rightarrow> string option \<Rightarrow> receivable_item list" where
  "receivable_list directory db ws P cls =
     filter (\<lambda>e. blank_to_none cls = None \<or> e_classification e = blank_to_none cls)
       (map (receivable_view directory db ws) (rev (filter P (t_orders db))))"

lemma page_slice_map: "page_slice page n (map f xs) = map f (page_slice page n xs)"
  by (simp add: page_slice_def take_map drop_map)

lemma page_slice_Nil [simp]: "page_slice page n [] = []"
  by (simp add: page_slice_def)

lemma set_page_slice: "set (page_slice page n xs) \<subseteq> set xs"
  unfolding page_slice_def using set_take_subset set_drop_subset by fast

lemma listed_item_view:
  assumes ok: "tenant_ok ws db" and P: "receivable_filter ws retailer status = Some P" and ord: "ord \<in> set (t_orders db)" "P ord"
  shows "receivable_item_of directory db ws ord = Inr (receivable_view directory db ws ord)"
proof (rule receivable_item_view)
  show "order_ok db ord" using ok ord(1) by (rule tenant_ok_order)
  have st: "\<not> o_deleted ord \<and> o_status ord \<in> set receivable_statuses"
    using P ord(2) by (auto simp: receivable_filter_def Let_def split: option.splits if_splits)
  then show "o_status ord \<in> set receivable_statuses" by simp
  show "live_order db (o_id ord) = Some ord"
    using tenant_ok_store [OF ok] ord(1) st by (intro live_order_unique) (simp_all add: store_inv_def store_keys_def)
qed

lemma list_receivable_orders_run:
  assumes ok: "tenant_ok ws db"
  shows "list_receivable_orders directory db ws page per_page retailer cls status =
    (case receivable_filter ws retailer status of
       None \<Rightarrow> Inr ([], \<lparr>g_page = 1, g_size = per_page, g_total = 0, g_pages = 0\<rparr>)
     | Some P \<Rightarrow>
         (let all = receivable_list directory db ws P cls
          in Inr (page_slice page per_page all,
               \<lparr>g_page = page, g_size = per_page, g_total = length all, g_pages = page_count (length all) per_page\<rparr>)))"
proof (cases "receivable_filter ws retailer status")
  case None
  then show ?thesis by (simp add: list_receivable_orders_def)
next
  case (Some P)
  have view: "\<forall>ord \<in> set ords. receivable_item_of directory db ws ord = Inr (receivable_view directory db ws ord)"
    if "set ords \<subseteq> set (rev (filter P (t_orders db)))" for ords
    using that listed_item_view [OF ok Some] by auto
  let ?hits = "rev (filter P (t_orders db))"
  show ?thesis
  proof (cases "blank_to_none cls = None")
    case True
    have "receivable_items directory db ws None (page_slice page per_page ?hits) =
        Inr (map (receivable_view directory db ws) (page_slice page per_page ?hits))"
      using receivable_items_view [OF view [OF set_page_slice]] by simp
    then show ?thesis using Some True
      by (simp add: list_receivable_orders_def receivable_list_def tenant_ok_history [OF ok] page_slice_map Let_def)
  next
    case False
    then obtain c where c: "blank_to_none cls = Some c" by blast
    have "receivable_items directory db ws (blank_to_none cls) ?hits =
        Inr (filter (\<lambda>e. e_classification e = blank_to_none cls) (map (receivable_view directory db ws) ?hits))"
      using receivable_items_view [OF view [OF subset_refl], of "Some c"] c by simp
    then show ?thesis using Some False
      by (auto simp: list_receivable_orders_def receivable_list_def tenant_ok_history [OF ok] page_count_def Let_def)
  qed
qed


lemma pages_cover:
  assumes "0 < n"
  shows "concat (map (\<lambda>i. page_slice (Suc i) n xs) [0..<m]) = take (m * n) xs"
proof (induction m)
  case (Suc m)
  have "take (m * n) xs @ take n (drop (m * n) xs) = take (Suc m * n) xs"
    by (simp add: add.commute [of n] take_add)
  with Suc show ?case by (simp add: page_slice_def)
qed simp

lemma page_count_enough:
  assumes "0 < n"
  shows "k \<le> page_count k n * n" and "0 < k \<Longrightarrow> (page_count k n - 1) * n < k"
proof -
  have pos: "(0 :: rat) < of_nat n" using assms by simp
  let ?c = "\<lceil>of_nat k / (of_nat n :: rat)\<rceil>"
  have c: "of_nat k / (of_nat n :: rat) \<le> of_int ?c" "of_int ?c < of_nat k / (of_nat n :: rat) + 1"
    using ceiling_correct [of "of_nat k / (of_nat n :: rat)"] by linarith+
  have "(0 :: rat) \<le> of_int ?c" using c(1) pos zero_le_divide_iff [of "of_nat k" "of_nat n :: rat"] by linarith
  then have nonneg: "0 \<le> ?c" by simp
  have int: "(of_int (int (nat ?c)) :: rat) = of_int ?c" using nonneg by simp
  show "k \<le> page_count k n * n"
  proof (cases "0 < k")
    case True
    have "(of_nat k :: rat) \<le> of_int ?c * of_nat n" using c(1) unfolding pos_divide_le_eq [OF pos] .
    also have "\<dots> = of_nat (nat ?c * n)" using int by simp
    finally show ?thesis using True by (simp add: page_count_def del: of_nat_mult)
  qed simp
  assume k: "0 < k"
  have "of_int ?c * (of_nat n :: rat) < of_nat k + of_nat n"
    using c(2) pos by (simp add: field_simps)
  then have "(of_nat (nat ?c * n) :: rat) < of_nat (k + n)" using int by simp
  then have "nat ?c * n < k + n" by (simp only: of_nat_less_iff)
  then show "(page_count k n - 1) * n < k" using k by (simp add: page_count_def diff_mult_distrib)
qed

definition listed_items :: "error + (receivable_item list \<times> pagination) \<Rightarrow> receivable_item list" where
  "listed_items r = (case r of Inl _ \<Rightarrow> [] | Inr (items, _) \<Rightarrow> items)"

text \<open>
  Reading the receivables list page by page, from page 1 to the reported number of pages, gives
  every order of the reference list once and in order; no page has more rows than asked for, and
  every reported page has at least one.
\<close>

theorem receivable_pages_cover:
  assumes "provisioned start" and "\<forall>r \<in> set rs. request_of ws r" and "db = run_requests rs start" and "0 < per_page"
    and "receivable_filter ws retailer status = Some P" and "all = receivable_list directory db ws P cls"
    and "pages = map (\<lambda>i. listed_items (list_receivable_orders directory db ws (Suc i) per_page retailer cls status))
       [0..<page_count (length all) per_page]"
  shows "concat pages = all \<and> (\<forall>items \<in> set pages. items \<noteq> [] \<and> length items \<le> per_page)"
proof -
  let ?m = "page_count (length all) per_page"
  have "listed_items (list_receivable_orders directory db ws (Suc i) per_page retailer cls status) = page_slice (Suc i) per_page all" for i
    using list_receivable_orders_run [OF tenant_run [OF assms(1,2)], of directory "Suc i" per_page retailer cls status]
    by (simp add: assms(3,5,6) Let_def listed_items_def)
  then have pages: "pages = map (\<lambda>i. page_slice (Suc i) per_page all) [0..<?m]" by (simp add: assms(7))
  have "concat pages = all"
    using pages_cover [OF assms(4), of all ?m] page_count_enough(1) [OF assms(4), of "length all"] by (simp add: pages)
  moreover have "page_slice (Suc i) per_page all \<noteq> [] \<and> length (page_slice (Suc i) per_page all) \<le> per_page" if i: "i < ?m" for i
  proof -
    have pos: "0 < length all" using i by (simp add: page_count_def split: if_splits)
    have "i * per_page \<le> (?m - 1) * per_page" using i by (intro mult_le_mono1) simp
    then have "i * per_page < length all"
      using page_count_enough(2) [OF assms(4) pos] by linarith
    then show ?thesis using assms(4) by (auto simp: page_slice_def)
  qed
  ultimately show ?thesis by (auto simp: pages)
qed


section \<open>A sample run\<close>

definition sample_directory :: directory where
  "sample_directory u = (if u = 8 then Some (Some ''Duka'') else None)"

lemma sample_requests_of: "\<forall>r \<in> set (take 2 sample_requests). request_of 7 r"
  by (simp add: sample_requests_def request_of_def)

lemma sample_confirmed_run: "run_requests (take 2 sample_requests) sample_tenant = tenant_confirmed"
  by (simp add: sample_requests_def attempt_def tenant_steps del: serve.simps)

lemma sample_confirmed_filter: "\<exists>P. receivable_filter 7 None None = Some P \<and> filter P (t_orders tenant_confirmed) = t_orders tenant_confirmed"
  by (simp add: receivable_filter_def blank_to_none_def receivable_statuses_def tenant_defs)

lemma sample_list:
  assumes "filter P (t_orders tenant_confirmed) = t_orders tenant_confirmed"
  shows "map e_due (receivable_list sample_directory tenant_confirmed 7 P None) = [150]"
    and "length (receivable_list sample_directory tenant_confirmed 7 P None) = 1"
  unfolding receivable_list_def assms
  by (simp_all add: blank_to_none_def receivable_view_def order_exposure_def order_holds_def credit_owed_def
      credit_total_def get_order_method_total_def order_payments_def tenant_defs Let_def)

theorem receivables_summary_reconciles_witness:
  "\<exists>s. get_receivables_summary sample_directory tenant_confirmed 7 = Inr s \<and> q_total_outstanding s = 150"
proof -
  have "(\<Sum>b\<leftarrow>filter (\<lambda>b. b_wholesaler b = 7 \<and> \<not> b_deleted b \<and> sample_directory (b_retailer b) \<noteq> None)
      (t_bindings tenant_confirmed). b_balance b) = 150"
    by (simp add: tenant_confirmed_def sample_directory_def)
  then show ?thesis
    using receivables_summary_reconciles [OF sample_provisioned sample_requests_of refl, of sample_directory]
    unfolding sample_confirmed_run by auto
qed


theorem receivable_pages_cover_witness:
  "listed_items (list_receivable_orders sample_directory tenant_confirmed 7 1 1 None None None) \<noteq> []"
proof -
  obtain P where P: "receivable_filter 7 None None = Some P" "filter P (t_orders tenant_confirmed) = t_orders tenant_confirmed"
    using sample_confirmed_filter by blast
  note one = sample_list(2) [OF P(2)]
  have count: "page_count (Suc 0) (Suc 0) = 1" by (simp add: page_count_def)
  show ?thesis
    using receivable_pages_cover [OF sample_provisioned sample_requests_of refl, of 1 None None P _ sample_directory None, OF _ P(1) refl refl]
    unfolding sample_confirmed_run one by (auto simp: count)
qed

end
