(* ===== verification/Catalog_Runs.thy ===== *)
theory Catalog_Runs
  imports Tenant_Runs
begin

text \<open>
  The catalogue in the running program: only catalogue requests write products, units and prices,
  the catalogue stays consistent over any sequence of requests, and a unit that has been ordered
  keeps its package quantity for good.
\<close>

section \<open>Only catalogue requests write the catalogue\<close>

definition shelf :: "store \<Rightarrow> catalog_row list \<times> sku_row list \<times> price_row list" where
  "shelf db = (t_catalog db, t_skus db, t_prices db)"

lemma shelf_stock: "stock_step db db' \<Longrightarrow> shelf db' = shelf db"
  using stock_step_tables [of db db'] by (simp add: shelf_def)

lemma shelf_money: "money_step db db' \<Longrightarrow> shelf db' = shelf db"
  by (simp add: shelf_def money_step_def)

lemma shelf_simps [simp]:
  "shelf (put_order ord db) = shelf db" "shelf (put_hold h db) = shelf db" "shelf (with_decl upd did db) = shelf db"
  "shelf (db\<lparr>t_bindings := bs\<rparr>) = shelf db" "shelf (db\<lparr>t_holds := hs\<rparr>) = shelf db" "shelf (db\<lparr>t_drawn := n\<rparr>) = shelf db"
  "shelf (db\<lparr>t_orders := ords\<rparr>) = shelf db" "shelf (db\<lparr>t_declarations := ds\<rparr>) = shelf db"
  by (simp_all add: shelf_def with_decl_def)

lemma shelf_command:
  assumes inv: "store_inv db"
  shows "confirm_order oid usr db = Inr (r, db') \<Longrightarrow> shelf db' = shelf db"
    and "cancel_order oid usr db = Inr (r, db') \<Longrightarrow> shelf db' = shelf db"
    and "fulfill_order oid usr db = Inr (r, db') \<Longrightarrow> shelf db' = shelf db"
    and "return_order oid usr db = Inr (r, db') \<Longrightarrow> shelf db' = shelf db"
proof -
  have keys: "distinct (map (\<lambda>b. (b_wholesaler b, b_retailer b)) (t_bindings db))" and acc: "accounted db"
    using inv by (simp_all add: store_inv_def store_keys_def)
  show "shelf db' = shelf db" if "confirm_order oid usr db = Inr (r, db')"
    using keys that by (rule confirm_order_effect) (simp add: shelf_stock)
  show "shelf db' = shelf db" if "cancel_order oid usr db = Inr (r, db')"
    using keys acc that by (rule cancel_order_effect) (simp_all add: shelf_stock)
  show "shelf db' = shelf db" if "fulfill_order oid usr db = Inr (r, db')"
    using that by (rule fulfill_order_effect) (simp add: shelf_stock)
  show "shelf db' = shelf db" if "return_order oid usr db = Inr (r, db')"
    using that
  proof (rule return_order_effect)
    fix ord posted db1 db2
    assume post: "post_order_return oid (o_total ord) db = Inr (posted, db1)" and step: "stock_step db1 db2"
      and db': "db' = put_order (with_status ord RETURNED usr) db2"
    have "money_step db db1" using post unfolding post_order_return_def by (rule money_step_posting)
    then show ?thesis using shelf_stock [OF step] by (simp add: db' shelf_money)
  qed
qed

lemma shelf_locked_payment:
  assumes inv: "store_inv db" and live: "live_order db oid = Some ord"
    and run: "confirm_payment_for_locked_order no_race ord a m txn key usr force alloc db = Inr (pr, db')"
  shows "shelf db' = shelf db"
  using store_inv_parts(1) [OF inv live] run by (rule locked_payment_effect) (auto intro: shelf_money)

lemma serve_shelf:
  assumes inv: "erp_inv db" and exact: "exact_amounts c" and run: "serve c db = Inr db'"
  shows "shelf db' = shelf db \<or> (\<exists>cat. serve_catalog cat db = Inr db')"
proof -
  have store: "store_inv db" and pay: "pay_inv db" and ok: "declarations_ok db" and acc: "accounted db" and on: "on_hand_cents db"
    using inv by (simp_all add: erp_inv_def pay_inv_def store_inv_def)
  have ids: "distinct (map d_id (t_declarations db))" using ok by (simp add: declarations_ok_def)
  show ?thesis
    using run exact
  proof (rule serve_cases)
    fix ws ret lines remark usr ord assume "crud_create_order ws ret lines remark usr db = Inr (ord, db')"
    then show ?thesis by (elim crud_create_order_Inr) simp
  next
    fix oid q m txn key usr pr
    assume "confirm_payment no_race oid (Finite q) m txn key usr False False db = Inr (pr, db')"
    then have "db' = db \<or> (\<exists>u ord. live_order db u = Some ord \<and>
        confirm_payment_for_locked_order no_race ord (Finite q) m txn key usr False False db = Inr (pr, db'))"
      by (auto simp: confirm_payment_def replay_result_def get_order_by_id_for_update_def result_simps
          split: option.splits if_splits)
    then show ?thesis using shelf_locked_payment [OF store] by blast
  next
    fix code q usr assume "adjust_stock code q usr db = Inr db'" "in_cents q"
    then show ?thesis using adjust_stock_step [OF acc on] shelf_stock by blast
  next
    fix oid ret ws usr a m ref key d rep
    assume "submit_declaration no_race oid ret ws usr a m ref key db = Inr ((d, rep), db')"
    then show ?thesis by (rule submit_declaration_cases) (simp_all add: create_declaration_Inr)
  next
    fix did ws usr dd pr assume run: "confirm_declaration no_race did ws usr db = Inr ((dd, pr), db')"
    then show ?thesis
    proof (rule confirm_declaration_cases)
      fix d assume d: "decl_by_wholesaler_dual_key db did ws = Some d" "d_status d = Decl_Pending"
      from pay ok d run obtain ord dm where live: "live_order db (d_order d) = Some ord"
        and locked: "confirm_payment_for_locked_order no_race ord (Finite (d_amount d)) (d_method d)
           (blank_to_none (d_transfer_reference d)) (canonical_key did) (Some usr) True True db = Inr (pr, dm)"
        and db': "db' = with_decl (confirmed_by usr (p_id (pr_payment pr))) did dm"
        by (rule confirm_pending_effect)
      show ?thesis using shelf_locked_payment [OF store live locked] by (simp add: db')
    qed simp
  next
    fix did ws usr reason x assume "reject_declaration did ws usr reason db = Inr (x, db')"
    then obtain d where d: "decl_by_wholesaler_dual_key db did ws = Some d"
      and m: "mark_rejected did ws usr reason db = Inr db'"
      by (auto simp: reject_declaration_def decl_for_update_by_wholesaler_def result_simps split: option.splits if_splits)
    then show ?thesis by (auto simp: mark_rejected_def update_pending_run [OF ids d] split: if_splits)
  qed (use shelf_command [OF store] in blast)+
qed

section \<open>The catalogue stays consistent\<close>

lemma catalog_ok_shelf: "shelf db' = shelf db \<Longrightarrow> catalog_ok db' = catalog_ok db"
  by (simp add: shelf_def catalog_ok_def)

lemma serve_catalog_ok:
  assumes "erp_inv db" and "catalog_ok db" and "exact_amounts c" and "serve c db = Inr db'"
  shows "catalog_ok db'"
  using serve_shelf [OF assms(1,3,4)] assms(2) catalog_ok_shelf units_law.moves_law [OF serve_catalog_moves] by blast

interpretation program_catalog: transactional_pair serve erp_inv exact_amounts catalog_ok
  by unfold_locales (auto intro: serve_catalog_ok)

text \<open>
  C23: The catalogue stays consistent. From a freshly provisioned tenant with a consistent catalogue,
  after any sequence of requests with payment amounts in whole cents: product ids, unit ids, SKU codes and (unit, retailer) pairs of prices
  are unique, retired rows included; every unit belongs to a stored product and carries its name,
  description and category; every package quantity is a positive value of its column; and every price
  is positive and in whole cents.
\<close>

theorem catalogue_stays_consistent:
  assumes "provisioned start" and "catalog_ok start" and "\<forall>r \<in> set rs. exact_amounts r" and "db = run_requests rs start"
  shows "distinct (map c_id (t_catalog db)) \<and> distinct (map k_id (t_skus db)) \<and> distinct (map k_code (t_skus db)) \<and>
    (\<forall>k \<in> set (t_skus db). \<exists>c \<in> set (t_catalog db). c_id c = k_catalog k \<and>
       k_name k = c_name c \<and> k_description k = c_description c \<and> k_category k = c_category c) \<and>
    (\<forall>k \<in> set (t_skus db). package_input_ok (k_package k)) \<and>
    distinct (map (\<lambda>x. (x_sku x, x_retailer x)) (t_prices db)) \<and>
    (\<forall>x \<in> set (t_prices db). 0 < x_price x \<and> in_cents (x_price x))"
proof -
  have "catalog_ok db"
    using program_catalog.both.calls_keep [of start rs] provisioned_inv [OF assms(1)] assms(2-4) by blast
  then show ?thesis by (simp add: catalog_ok_def names_eq)
qed

lemma sample_price_run:
  "serve (Manage_Catalog (Set_Price 7 (Canonical 8) (Canonical 21) 60)) sample_tenant =
     Inr (sample_tenant\<lparr>t_prices := [\<lparr>x_sku = 21, x_retailer = 8, x_price = 60, x_deleted = False\<rparr>]\<rparr>)"
  by (simp add: serve_catalog_def price_input_ok_def set_retailer_price_def assert_binding_def lock_sku_row_def set_price_def
      write_price_def numeric12_fits_def get_price_def sample_tenant_def sample_store_def Let_def)

lemma sample_tenant_catalog: "catalog_ok sample_tenant"
  using sample_catalog_ok by (simp add: catalog_ok_def sample_tenant_def)

theorem catalogue_stays_consistent_witness:
  "t_prices (run_requests [Manage_Catalog (Set_Price 7 (Canonical 8) (Canonical 21) 60)] sample_tenant) =
     [\<lparr>x_sku = 21, x_retailer = 8, x_price = 60, x_deleted = False\<rparr>] \<and>
   distinct (map k_code (t_skus (run_requests [Manage_Catalog (Set_Price 7 (Canonical 8) (Canonical 21) 60)] sample_tenant)))"
proof -
  have "t_prices (run_requests [Manage_Catalog (Set_Price 7 (Canonical 8) (Canonical 21) 60)] sample_tenant) =
     [\<lparr>x_sku = 21, x_retailer = 8, x_price = 60, x_deleted = False\<rparr>]"
    by (simp add: attempt_def sample_price_run del: serve.simps)
  moreover have "distinct (map k_code (t_skus (run_requests [Manage_Catalog (Set_Price 7 (Canonical 8) (Canonical 21) 60)] sample_tenant)))"
    using catalogue_stays_consistent [OF sample_provisioned sample_tenant_catalog _ refl,
        of "[Manage_Catalog (Set_Price 7 (Canonical 8) (Canonical 21) 60)]"] by simp
  ultimately show ?thesis by blast
qed

section \<open>Ordered units\<close>

definition ordered_as :: "sku_row \<Rightarrow> store \<Rightarrow> bool" where
  "ordered_as k db \<longleftrightarrow> catalog_ok db \<and>
     (\<exists>k' \<in> set (t_skus db). identity k' = identity k \<and> k_package k' = k_package k) \<and>
     (\<exists>ord \<in> set (t_orders db). \<exists>i \<in> set (o_items ord). i_sellable_unit i = Some (k_id k) \<or> i_sku_code i = k_code k)"

lemma items_kept:
  assumes "kept db db'" and "ord \<in> set (t_orders db)" and "i \<in> set (o_items ord)"
  shows "\<exists>ord' \<in> set (t_orders db'). i \<in> set (o_items ord')"
proof -
  obtain more where more: "map owner (t_orders db') = map owner (t_orders db) @ more" using assms(1) by (auto simp: kept_def)
  have "owner ord \<in> set (map owner (t_orders db'))" unfolding more using assms(2) by simp
  then obtain ord' where "ord' \<in> set (t_orders db')" "owner ord' = owner ord" by auto
  then show ?thesis using assms(3) by (intro bexI [of _ ord']) (simp_all add: owner_def)
qed

lemma serve_ordered_as:
  assumes inv: "erp_inv db" and ord: "ordered_as k db" and exact: "exact_amounts c" and run: "serve c db = Inr db'"
  shows "ordered_as k db'"
proof -
  have ok: "catalog_ok db" and used: "\<exists>ord \<in> set (t_orders db). \<exists>i \<in> set (o_items ord). i_sellable_unit i = Some (k_id k) \<or> i_sku_code i = k_code k"
    using ord unfolding ordered_as_def by blast+
  obtain k1 where k1: "k1 \<in> set (t_skus db)" "identity k1 = identity k" "k_package k1 = k_package k"
    using ord unfolding ordered_as_def by blast
  have dirty: "\<not> clean (k_id k1) (k_code k1) db"
    using used k1(2) by (auto simp: clean_def has_identity_use_history_def identity_def)
  have "\<exists>k' \<in> set (t_skus db'). identity k' = identity k \<and> k_package k' = k_package k"
    using serve_shelf [OF inv exact run]
  proof
    assume "shelf db' = shelf db"
    then show ?thesis using k1 by (auto simp: shelf_def)
  next
    assume "\<exists>cat. serve_catalog cat db = Inr db'"
    then have "units_kept db db'" using units_law.moves_law [OF serve_catalog_moves] ok by blast
    then show ?thesis using k1 dirty unfolding units_kept_def by metis
  qed
  moreover have "\<exists>ord \<in> set (t_orders db'). \<exists>i \<in> set (o_items ord). i_sellable_unit i = Some (k_id k) \<or> i_sku_code i = k_code k"
    using used items_kept [OF serve_kept [OF inv exact run]] by meson
  ultimately show ?thesis using serve_catalog_ok [OF inv ok exact run] by (simp add: ordered_as_def)
qed

interpretation program_ordered: transactional_pair serve erp_inv exact_amounts "ordered_as k" for k
  by unfold_locales (auto intro: serve_ordered_as)

text \<open>
  C22: A unit that has been ordered keeps its package quantity for good. In any state reached from a
  freshly provisioned tenant with a consistent catalogue, if a line of some order names the unit by id
  or by code, then after any further requests (with payment amounts in whole cents throughout), whether they manage the catalogue, set prices, take or cancel
  orders, the unit is still there with the same id, product, code and package quantity.
\<close>

theorem ordered_unit_keeps_package:
  assumes "provisioned start" and "catalog_ok start" and "\<forall>r \<in> set (rs @ later). exact_amounts r"
    and "db = run_requests rs start" and "k \<in> set (t_skus db)"
    and "ord \<in> set (t_orders db)" and "i \<in> set (o_items ord)"
    and "i_sellable_unit i = Some (k_id k) \<or> i_sku_code i = k_code k"
  shows "\<exists>k' \<in> set (t_skus (run_requests later db)). k_id k' = k_id k \<and> k_catalog k' = k_catalog k \<and>
    k_code k' = k_code k \<and> k_package k' = k_package k"
proof -
  have "erp_inv db \<and> catalog_ok db"
    using program_catalog.both.calls_keep [of start rs] provisioned_inv [OF assms(1)] assms(2-4) by simp
  then have "erp_inv db \<and> ordered_as k db" using assms(5-8) unfolding ordered_as_def by blast
  then have "ordered_as k (run_requests later db)"
    using program_ordered.both.calls_keep [of db k later] assms(3) by simp
  then show ?thesis by (auto simp: ordered_as_def identity_def)
qed

theorem ordered_unit_keeps_package_witness:
  "\<exists>k \<in> set (t_skus (run_requests [Manage_Catalog (Update_Sku ''MZ-1'' None None None (Some 12) None None)] tenant_created)).
     k_id k = 21 \<and> k_package k = 1"
proof -
  have run: "run_requests (take 1 sample_requests) sample_tenant = tenant_created"
    by (simp add: sample_requests_def attempt_def tenant_steps del: serve.simps)
  have exact: "\<forall>r \<in> set (take 1 sample_requests @ [Manage_Catalog (Update_Sku ''MZ-1'' None None None (Some 12) None None)]). exact_amounts r"
    using sample_requests_exact by (auto dest: in_set_takeD)
  have k: "repacked_unit\<lparr>k_package := 1\<rparr> \<in> set (t_skus tenant_created)" "sample_new_order \<in> set (t_orders tenant_created)"
    "sample_new_item \<in> set (o_items sample_new_order)" "i_sku_code sample_new_item = ''MZ-1''"
    by (simp_all add: tenant_defs repacked_unit_def)
  show ?thesis
    using ordered_unit_keeps_package [OF sample_provisioned sample_tenant_catalog exact run [symmetric] k(1-3) disjI2] k(4)
    by (simp add: repacked_unit_def) blast
qed

end
