(* ===== verification/Receipts.thy ===== *)
theory Receipts
  imports Payments
begin

text \<open>
  Receipt numbers (\<open>PaymentRepository.allocate_receipt_number\<close> and the pattern of
  \<open>canonical_payment_service\<close>): they can be read back, so no two are equal, and they keep the
  pattern as long as the sequence of a day has at most six digits.
\<close>

lemma decimal_value_padded: "decimal_value (replicate k (CHR ''0'') @ s) = decimal_value s"
  by (induction k) (simp_all add: decimal_value_def)

lemma pad6_value [simp]: "decimal_value (pad6 n) = n"
  by (simp add: pad6_def Let_def decimal_value_padded)

lemma pad6_digits: "list_all is_ascii_digit (pad6 n)"
  using decimal_digits_are_digits [of n] by (auto simp: pad6_def Let_def list_all_iff is_ascii_digit_def)

lemma pad6_length: "length (pad6 n) = 6 \<longleftrightarrow> n < 10 ^ 6"
  using decimal_digits_length [of 6 n] by (auto simp: pad6_def Let_def)

lemma receipt_number_parts:
  assumes "length date = 8"
  shows "take 4 (receipt_number date n) = ''RCT-''" "take 8 (drop 4 (receipt_number date n)) = date"
    "receipt_number date n ! 12 = CHR ''-''" "drop 13 (receipt_number date n) = pad6 n"
    "length (receipt_number date n) = 13 + length (pad6 n)"
  using assms by (simp_all add: receipt_number_def nth_append)

lemma receipt_number_valid:
  assumes "length date = 8" and "list_all is_ascii_digit date"
  shows "is_valid_receipt_number (Some (receipt_number date n)) \<longleftrightarrow> n < 10 ^ 6"
proof -
  note p = receipt_number_parts [OF assms(1), of n]
  have nonempty: "pad6 n \<noteq> []" by (auto simp: pad6_def Let_def decimal_digits.simps [of n])
  then have "is_ascii_digit (last (pad6 n))" using pad6_digits [of n] by (simp add: list_all_iff)
  moreover have "last (receipt_number date n) = last (pad6 n)" using nonempty by (simp add: receipt_number_def)
  ultimately have "last (receipt_number date n) \<noteq> CHR 0x0A" by (auto simp: is_ascii_digit_def)
  then show ?thesis
    using p assms(2) pad6_digits [of n] pad6_length [of n]
    by (auto simp: is_valid_receipt_number_def receipt_shape_def)
qed

text \<open>
  A receipt number tells its day and its place in the day's sequence: both can be read back from
  the text, so the numbers of different receipts differ. The number matches the receipt pattern
  exactly while the sequence of the day is below one million.
\<close>

theorem receipt_number_reads_back:
  assumes "allocate_receipt_number db = (r, db')" and "date = t_business_date db" and "length date = 8"
    and "list_all is_ascii_digit date"
  shows "take 8 (drop 4 r) = date \<and> t_receipts db' date = Some (decimal_value (drop 13 r)) \<and>
    decimal_value (drop 13 r) = Suc (case t_receipts db date of None \<Rightarrow> 0 | Some k \<Rightarrow> k) \<and>
    (is_valid_receipt_number (Some r) \<longleftrightarrow> decimal_value (drop 13 r) < 1000000)"
  using assms(1,2) receipt_number_parts [OF assms(3)] receipt_number_valid [OF assms(3,4)]
  by (auto simp: allocate_receipt_number_def Let_def split: option.splits)

theorem receipt_number_reads_back_witness:
  "\<not> is_valid_receipt_number (Some (fst (allocate_receipt_number (sample_store\<lparr>t_receipts := [''20260101'' \<mapsto> 999999]\<rparr>))))"
  using receipt_number_reads_back [OF surjective_pairing refl, of "sample_store\<lparr>t_receipts := [''20260101'' \<mapsto> 999999]\<rparr>"]
  by (simp add: sample_store_def is_ascii_digit_def)

end
