(* ===== verification/Idempotency_Cache.thy ===== *)
theory Idempotency_Cache
  imports Text_Codec
begin

text \<open>
  The idempotency middleware (\<open>api/middleware/idempotency.py\<close>) over its in-memory store. A mutating
  request with an idempotency key is answered from the cache, refused while an equal request runs,
  or executed and remembered. The handler between the two halves of \<open>dispatch\<close> is the rest of the
  application; other requests run while it does, so the two halves are separate steps here. The
  digest (SHA-256) is an argument. Times are seconds; JSON bodies are left as text.
\<close>

section \<open>Requests and the store\<close>

record http_request =
  w_method :: string
  w_key :: "string option"
  w_tenant :: string
  w_user :: string
  w_path :: string
  w_body :: string

datatype cache_entry =
    In_Progress (expires_at: nat)
  | Cached (cached_body: string) (cached_status: nat) (expires_at: nat)

type_synonym cache = "string \<rightharpoonup> cache_entry"

definition idempotency_ttl :: nat where "idempotency_ttl = 24 * 60 * 60"

definition idempotent_methods :: "string list" where
  "idempotent_methods = [''POST'', ''PUT'', ''PATCH'', ''DELETE'']"

text \<open>\<open>InMemoryIdempotencyStore\<close>: \<open>get\<close>, \<open>set\<close> and \<open>delete\<close> of a dictionary.\<close>

definition store_get :: "string \<Rightarrow> cache \<Rightarrow> cache_entry option" where "store_get k c = c k"
definition store_set :: "string \<Rightarrow> cache_entry \<Rightarrow> cache \<Rightarrow> cache" where "store_set k e c = c(k \<mapsto> e)"
definition store_delete :: "string \<Rightarrow> cache \<Rightarrow> cache" where "store_delete k c = c(k := None)"

definition make_cache_key :: "(string \<Rightarrow> string) \<Rightarrow> http_request \<Rightarrow> string \<Rightarrow> string" where
  "make_cache_key digest r key =
     digest (concat [w_tenant r, '':'', w_user r, '':'', w_method r, '':'', w_path r, '':'', digest (w_body r), '':'', key])"

section \<open>The two halves of dispatch\<close>

datatype verdict = Bypass | Conflict | Replayed string nat | Proceed string

definition get_cached_response :: "nat \<Rightarrow> string \<Rightarrow> cache \<Rightarrow> cache_entry option option \<times> cache" where
  "get_cached_response now k c =
     (case store_get k c of
        None \<Rightarrow> (Some None, c)
      | Some (In_Progress _) \<Rightarrow> (None, c)
      | Some (Cached b s t) \<Rightarrow> if now > t then (Some None, store_delete k c) else (Some (Some (Cached b s t)), c))"

definition mark_in_progress :: "nat \<Rightarrow> string \<Rightarrow> cache \<Rightarrow> cache" where
  "mark_in_progress now k c = store_set k (In_Progress (now + 5 * 60)) c"

definition cache_response :: "nat \<Rightarrow> nat \<Rightarrow> string \<Rightarrow> string \<Rightarrow> nat \<Rightarrow> cache \<Rightarrow> cache" where
  "cache_response ttl now k body status c = store_set k (Cached body status (now + ttl)) c"

text \<open>Before the handler: bypass, refuse with 409, replay, or run under a cache key.\<close>

definition dispatch_begin :: "(string \<Rightarrow> string) \<Rightarrow> nat \<Rightarrow> http_request \<Rightarrow> cache \<Rightarrow> verdict \<times> cache" where
  "dispatch_begin digest now r c =
     (if w_method r \<notin> set idempotent_methods then (Bypass, c)
      else case w_key r of
        None \<Rightarrow> (Bypass, c)
      | Some key \<Rightarrow>
          if key = [] then (Bypass, c)
          else
            (let k = make_cache_key digest r key in
             case get_cached_response now k c of
               (None, c') \<Rightarrow> (Conflict, c')
             | (Some (Some e), c') \<Rightarrow> (Replayed (cached_body e) (cached_status e), c')
             | (Some None, c') \<Rightarrow> (Proceed k, mark_in_progress now k c')))"

text \<open>After the handler: it returned a response, or it raised.\<close>

datatype outcome = Response string nat | Raised

definition dispatch_end :: "nat \<Rightarrow> nat \<Rightarrow> string \<Rightarrow> outcome \<Rightarrow> cache \<Rightarrow> cache" where
  "dispatch_end ttl now k out c =
     (case out of
        Response body status \<Rightarrow> if 200 \<le> status \<and> status < 300 then cache_response ttl now k body status c else c
      | Raised \<Rightarrow> store_delete k c)"

section \<open>Interleaved requests\<close>

text \<open>
  A server run: requests arrive and handlers end, in any order. The state has the cache, the cache
  keys of the running handlers and the log of what each arrival was answered.
\<close>

record server =
  z_cache :: cache
  z_running :: "string list"
  z_log :: "(http_request \<times> verdict) list"

datatype event = Arrive nat http_request | Finish nat nat outcome

fun serve_event :: "(string \<Rightarrow> string) \<Rightarrow> nat \<Rightarrow> event \<Rightarrow> server \<Rightarrow> server" where
  "serve_event digest ttl (Arrive now r) z =
     (let (v, c) = dispatch_begin digest now r (z_cache z)
      in z\<lparr>z_cache := c, z_log := z_log z @ [(r, v)],
           z_running := (case v of Proceed k \<Rightarrow> z_running z @ [k] | _ \<Rightarrow> z_running z)\<rparr>)"
| "serve_event digest ttl (Finish now i out) z =
     (if i < length (z_running z)
      then z\<lparr>z_cache := dispatch_end ttl now (z_running z ! i) out (z_cache z),
             z_running := take i (z_running z) @ drop (Suc i) (z_running z)\<rparr>
      else z)"

abbreviation serve_events :: "(string \<Rightarrow> string) \<Rightarrow> nat \<Rightarrow> event list \<Rightarrow> server \<Rightarrow> server" where
  "serve_events digest ttl \<equiv> fold (serve_event digest ttl)"

definition idle :: server where
  "idle = \<lparr>z_cache = Map.empty, z_running = [], z_log = []\<rparr>"

text \<open>The cache key a request is handled under, when it has one.\<close>

definition cache_key_of :: "(string \<Rightarrow> string) \<Rightarrow> http_request \<Rightarrow> string option" where
  "cache_key_of digest r =
     (if w_method r \<in> set idempotent_methods \<and> w_key r \<noteq> None \<and> w_key r \<noteq> Some []
      then Some (make_cache_key digest r (the (w_key r))) else None)"

lemma dispatch_begin_key:
  "dispatch_begin digest now r c =
     (case cache_key_of digest r of
        None \<Rightarrow> (Bypass, c)
      | Some k \<Rightarrow>
          (case c k of
             None \<Rightarrow> (Proceed k, c(k \<mapsto> In_Progress (now + 300)))
           | Some (In_Progress _) \<Rightarrow> (Conflict, c)
           | Some (Cached b s t) \<Rightarrow> if now > t then (Proceed k, c(k \<mapsto> In_Progress (now + 300))) else (Replayed b s, c)))"
  by (auto simp: dispatch_begin_def cache_key_of_def get_cached_response_def mark_in_progress_def store_get_def store_set_def
      store_delete_def Let_def split: option.splits cache_entry.splits)

section \<open>One handler per key\<close>

text \<open>Running handlers have different keys, each marked in progress.\<close>

definition in_progress :: "cache \<Rightarrow> string \<Rightarrow> bool" where
  "in_progress c k \<longleftrightarrow> (case c k of Some (In_Progress _) \<Rightarrow> True | _ \<Rightarrow> False)"

definition exclusive :: "server \<Rightarrow> bool" where
  "exclusive z \<longleftrightarrow> distinct (z_running z) \<and> (\<forall>k \<in> set (z_running z). in_progress (z_cache z) k)"

lemma remove_nth_distinct:
  assumes "distinct xs" and "i < length xs"
  shows "distinct (take i xs @ drop (Suc i) xs)" and "set (take i xs @ drop (Suc i) xs) = set xs - {xs ! i}"
proof -
  have xs: "xs = take i xs @ xs ! i # drop (Suc i) xs" using assms(2) by (simp add: id_take_nth_drop)
  have "distinct (take i xs @ xs ! i # drop (Suc i) xs)" using assms(1) xs by simp
  then have d: "distinct (take i xs @ drop (Suc i) xs)" "xs ! i \<notin> set (take i xs @ drop (Suc i) xs)" by auto
  have "set xs = insert (xs ! i) (set (take i xs @ drop (Suc i) xs))" by (subst xs) simp
  with d show "distinct (take i xs @ drop (Suc i) xs)" "set (take i xs @ drop (Suc i) xs) = set xs - {xs ! i}" by auto
qed

lemma dispatch_end_other: "k \<noteq> k' \<Longrightarrow> dispatch_end ttl now k out c k' = c k'"
  by (simp add: dispatch_end_def cache_response_def store_set_def store_delete_def split: outcome.split)

lemma serve_event_exclusive: "exclusive z \<Longrightarrow> exclusive (serve_event digest ttl e z)"
proof (cases e)
  case (Arrive now r)
  assume z: "exclusive z"
  show ?thesis
  proof (cases "cache_key_of digest r")
    case (Some k)
    with z Arrive show ?thesis
      by (cases "z_cache z k") (auto simp: exclusive_def in_progress_def dispatch_begin_key split: cache_entry.splits)
  qed (use z Arrive in \<open>simp add: exclusive_def dispatch_begin_key\<close>)
next
  case (Finish now i out)
  assume z: "exclusive z"
  show ?thesis
  proof (cases "i < length (z_running z)")
    case True
    note r = remove_nth_distinct [OF _ True] z [unfolded exclusive_def]
    have "in_progress (dispatch_end ttl now (z_running z ! i) out (z_cache z)) k"
      if "k \<in> set (z_running z)" "k \<noteq> z_running z ! i" for k
      using that r(3) dispatch_end_other [of "z_running z ! i" k] by (simp add: in_progress_def)
    with True Finish r show ?thesis by (simp add: exclusive_def del: set_append)
  qed (use z Finish in simp)
qed

lemma serve_events_exclusive: "exclusive z \<Longrightarrow> exclusive (serve_events digest ttl es z)"
  by (induction es arbitrary: z) (auto intro: serve_event_exclusive)

section \<open>What later arrivals are answered\<close>

text \<open>The answer to a request that arrives next.\<close>

definition answer :: "(string \<Rightarrow> string) \<Rightarrow> nat \<Rightarrow> http_request \<Rightarrow> server \<Rightarrow> verdict" where
  "answer digest now r z = fst (dispatch_begin digest now r (z_cache z))"

text \<open>An entry nobody is computing stays until an event can replace it.\<close>

definition rests :: "string \<Rightarrow> cache_entry \<Rightarrow> server \<Rightarrow> bool" where
  "rests k e z \<longleftrightarrow> z_cache z k = Some e \<and> k \<notin> set (z_running z)"

lemma rests_finish:
  assumes "exclusive z" and "i < length (z_running z)" and "z_running z ! i = k"
    and "dispatch_end ttl now k out (z_cache z) k = Some e"
  shows "rests k e (serve_event digest ttl (Finish now i out) z)"
proof -
  have "distinct (z_running z)" using assms(1) by (simp add: exclusive_def)
  note r = remove_nth_distinct [OF this assms(2)]
  then have "k \<notin> set (take i (z_running z) @ drop (Suc i) (z_running z))" using assms(3) by simp
  with assms(2-4) show ?thesis by (simp add: rests_def del: set_append)
qed

lemma rests_step:
  assumes "rests k e z" and "\<And>now r. ev = Arrive now r \<Longrightarrow> (case e of In_Progress _ \<Rightarrow> True | Cached b s t \<Rightarrow> now \<le> t)"
  shows "rests k e (serve_event digest ttl ev z)"
proof (cases ev)
  case (Arrive now r)
  note live = assms(2) [OF Arrive]
  show ?thesis
  proof (cases "cache_key_of digest r")
    case (Some k')
    with assms(1) Arrive live show ?thesis
      by (cases "k' = k"; cases "z_cache z k'") (auto simp: rests_def dispatch_begin_key not_less split: cache_entry.splits if_splits)
  qed (use assms(1) Arrive in \<open>simp add: rests_def dispatch_begin_key\<close>)
next
  case (Finish now i out)
  show ?thesis
  proof (cases "i < length (z_running z)")
    case True
    have other: "z_running z ! i \<noteq> k"
    proof
      assume "z_running z ! i = k"
      then have "k \<in> set (z_running z)" using True nth_mem by blast
      then show False using assms(1) by (simp add: rests_def)
    qed
    have "set (take i (z_running z) @ drop (Suc i) (z_running z)) \<subseteq> set (z_running z)"
      using set_take_subset set_drop_subset by fastforce
    with assms(1) Finish True dispatch_end_other [OF other] show ?thesis
      unfolding rests_def by (auto simp del: set_append)
  qed (use assms(1) Finish in simp)
qed

text \<open>Whether an event arrives in time for an entry.\<close>

fun arrives_by :: "nat \<Rightarrow> event \<Rightarrow> bool" where
  "arrives_by t (Arrive now r) \<longleftrightarrow> now \<le> t"
| "arrives_by t (Finish now i out) \<longleftrightarrow> True"

lemma rests_cached: "rests k (Cached b s t) z \<Longrightarrow> \<forall>ev \<in> set es. arrives_by t ev \<Longrightarrow> rests k (Cached b s t) (serve_events digest ttl es z)"
proof (induction es arbitrary: z)
  case (Cons ev es)
  have "rests k (Cached b s t) (serve_event digest ttl ev z)"
    by (rule rests_step) (use Cons.prems in auto)
  with Cons show ?case by simp
qed simp

lemma rests_in_progress: "rests k (In_Progress t) z \<Longrightarrow> rests k (In_Progress t) (serve_events digest ttl es z)"
proof (induction es arbitrary: z)
  case (Cons ev es)
  have "rests k (In_Progress t) (serve_event digest ttl ev z)" by (rule rests_step [OF Cons.prems]) simp
  with Cons.IH show ?case by simp
qed simp

text \<open>
  C26: Equal requests never run at the same time. Whatever requests arrive and however their handlers
  interleave, the running handlers have pairwise different cache keys, and a request that arrives
  with the key of a running one is refused with a conflict.
\<close>

theorem equal_requests_never_overlap:
  shows "distinct (z_running (serve_events digest ttl es idle)) \<and>
    list_all (\<lambda>k. cache_key_of digest r \<noteq> Some k \<or> answer digest now r (serve_events digest ttl es idle) = Conflict)
      (z_running (serve_events digest ttl es idle))"
proof -
  have ex: "exclusive (serve_events digest ttl es idle)"
    by (rule serve_events_exclusive) (simp add: exclusive_def idle_def)
  then show ?thesis
    by (fastforce simp: exclusive_def list_all_iff answer_def dispatch_begin_key in_progress_def
        split: option.splits cache_entry.splits)
qed

text \<open>
  A request that succeeded is not executed again while its response is remembered. Once the
  handler of a request has returned a response with a success status, every equal request that
  arrives within the time to live is answered with that body and status, whatever happened in
  between.
\<close>

theorem successful_request_replays:
  assumes "z = serve_events digest ttl before idle" and "i < length (z_running z)" and "200 \<le> status" "status < 300"
    and "z' = serve_events digest ttl later (serve_event digest ttl (Finish now i (Response body status)) z)"
    and "\<forall>ev \<in> set later. arrives_by (now + ttl) ev" and "t \<le> now + ttl"
    and "cache_key_of digest r = Some (z_running z ! i)"
  shows "answer digest t r z' = Replayed body status"
proof -
  have "exclusive z" unfolding assms(1) by (rule serve_events_exclusive) (simp add: exclusive_def idle_def)
  then have "rests (z_running z ! i) (Cached body status (now + ttl)) (serve_event digest ttl (Finish now i (Response body status)) z)"
    using assms(2-4) by (intro rests_finish) (simp_all add: dispatch_end_def cache_response_def store_set_def)
  from rests_cached [OF this assms(6), of digest ttl] show ?thesis
    using assms(7,8) by (simp add: assms(5) rests_def answer_def dispatch_begin_key)
qed

text \<open>
  A request that was answered with an error status blocks its key for good. The mark set before
  the handler is removed only when the handler raises; after a response outside 200 to 299 every
  later equal request, at any time, is refused with a conflict.
\<close>

theorem failed_request_blocks_key:
  assumes "z = serve_events digest ttl before idle" and "i < length (z_running z)" and "status < 200 \<or> 300 \<le> status"
    and "z' = serve_events digest ttl later (serve_event digest ttl (Finish now i (Response body status)) z)"
    and "cache_key_of digest r = Some (z_running z ! i)"
  shows "answer digest t r z' = Conflict"
proof -
  have ex: "exclusive z" unfolding assms(1) by (rule serve_events_exclusive) (simp add: exclusive_def idle_def)
  then have "in_progress (z_cache z) (z_running z ! i)" using assms(2) by (simp add: exclusive_def)
  then obtain u where u: "z_cache z (z_running z ! i) = Some (In_Progress u)"
    by (auto simp: in_progress_def split: option.splits cache_entry.splits)
  have "dispatch_end ttl now (z_running z ! i) (Response body status) (z_cache z) (z_running z ! i) = Some (In_Progress u)"
    using assms(3) u by (auto simp: dispatch_end_def)
  then have "rests (z_running z ! i) (In_Progress u) (serve_event digest ttl (Finish now i (Response body status)) z)"
    using ex assms(2) by (intro rests_finish) simp_all
  from rests_in_progress [OF this, of digest ttl later] show ?thesis
    using assms(5) by (simp add: assms(4) rests_def answer_def dispatch_begin_key)
qed

section \<open>A sample run\<close>

definition sample_post :: http_request where
  "sample_post = \<lparr>w_method = ''POST'', w_key = Some ''key-1'', w_tenant = ''t_1'', w_user = ''u'', w_path = ''/api/v1/orders'', w_body = ''{}''\<rparr>"

lemma sample_post_key: "cache_key_of id sample_post = Some ''t_1:u:POST:/api/v1/orders:{}:key-1''"
  by (simp add: cache_key_of_def make_cache_key_def sample_post_def idempotent_methods_def)

lemma sample_arrival: "z_running (serve_event id ttl (Arrive 0 sample_post) idle) = [''t_1:u:POST:/api/v1/orders:{}:key-1'']"
  by (simp add: dispatch_begin_key sample_post_key idle_def)

theorem equal_requests_never_overlap_witness:
  "answer id 1 sample_post (serve_events id idempotency_ttl [Arrive 0 sample_post] idle) = Conflict"
  using equal_requests_never_overlap [of id idempotency_ttl "[Arrive 0 sample_post]" sample_post 1]
  by (simp add: sample_arrival sample_post_key del: serve_event.simps)

theorem successful_request_replays_witness:
  "answer id 600 sample_post (serve_events id idempotency_ttl
     [Arrive 0 sample_post, Finish 2 0 (Response ''created'' 201), Arrive 300 sample_post] idle) = Replayed ''created'' 201"
  using successful_request_replays [OF refl, of 0 id idempotency_ttl "[Arrive 0 sample_post]" 201 _ "[Arrive 300 sample_post]" 2 "''created''" 600 sample_post,
      OF _ _ _ refl]
  by (simp add: sample_arrival sample_post_key idempotency_ttl_def del: serve_event.simps)

theorem failed_request_blocks_key_witness:
  "answer id 900000 sample_post (serve_events id idempotency_ttl
     [Arrive 0 sample_post, Finish 2 0 (Response ''insufficient stock'' 409)] idle) = Conflict"
  using failed_request_blocks_key [OF refl, of 0 id idempotency_ttl "[Arrive 0 sample_post]" 409 _ "[]" 2 "''insufficient stock''" sample_post,
      OF _ _ refl]
  by (simp add: sample_arrival sample_post_key del: serve_event.simps)

end
