(* ===== verification/Rate_Limiter.thy ===== *)
theory Rate_Limiter
  imports Text_Codec "HOL-Library.Sublist"
begin

text \<open>
  The fixed-window rate limiter (\<open>core/rate_limiter.py\<close>). Redis is an argument: its \<open>INCR\<close> and
  \<open>EXPIRE\<close> commands, each given the time at which it runs; \<open>None\<close> and \<open>False\<close> stand for an
  exception of the client. Metrics and log lines are left out.
\<close>

section \<open>Buckets\<close>

definition default_ip_limit :: nat where "default_ip_limit = 100"
definition default_tenant_limit :: nat where "default_tenant_limit = 1000"
definition window_size :: nat where "window_size = 60"

record rate_request =
  a_tenant :: "string option"
  a_user :: "string option"
  a_forwarded_for :: "string option"
  a_real_ip :: "string option"
  a_host :: "string option"

definition truthy :: "string option \<Rightarrow> bool" where
  "truthy s \<longleftrightarrow> s \<noteq> None \<and> s \<noteq> Some []"

definition get_client_ip :: "rate_request \<Rightarrow> string" where
  "get_client_ip r =
     (if truthy (a_forwarded_for r) then strip (takeWhile (\<lambda>c. c \<noteq> CHR '','') (the (a_forwarded_for r)))
      else if truthy (a_real_ip r) then strip (the (a_real_ip r))
      else case a_host r of Some host \<Rightarrow> host | None \<Rightarrow> ''unknown'')"

definition get_rate_limit_key :: "rate_request \<Rightarrow> string \<times> nat" where
  "get_rate_limit_key r =
     (let tenant = (if a_tenant r \<noteq> None \<and> a_user r = None then None else a_tenant r) in
      if truthy tenant \<and> truthy (a_user r)
      then (concat [''rate_limit:tenant:'', the tenant, '':'', the (a_user r)], default_tenant_limit)
      else (''rate_limit:ip:'' @ get_client_ip r, default_ip_limit))"

definition current_window :: "rat \<Rightarrow> nat" where
  "current_window now = nat \<lfloor>now / of_nat window_size\<rfloor>"

definition redis_key :: "string \<Rightarrow> nat \<Rightarrow> string" where
  "redis_key key window = key @ '':'' @ decimal_digits window"

section \<open>The check\<close>

datatype rate_verdict = Allowed nat nat | Limited nat int

definition is_allowed :: "rate_verdict \<Rightarrow> bool" where
  "is_allowed v \<longleftrightarrow> (case v of Allowed _ _ \<Rightarrow> True | Limited _ _ \<Rightarrow> False)"

definition retry_after :: "rat \<Rightarrow> int" where
  "retry_after now = int window_size - \<lfloor>now\<rfloor> mod int window_size"

text \<open>Count a hit on a key: increment, set the expiry on the first hit, refuse above the limit; open on failure.\<close>

definition count_hit ::
  "(string \<Rightarrow> rat \<Rightarrow> 's \<Rightarrow> nat option \<times> 's) \<Rightarrow> (string \<Rightarrow> nat \<Rightarrow> rat \<Rightarrow> 's \<Rightarrow> bool \<times> 's)
   \<Rightarrow> rat \<Rightarrow> string \<Rightarrow> nat \<Rightarrow> 's \<Rightarrow> rate_verdict \<times> 's" where
  "count_hit incr expire now k limit s =
     (case incr k now s of
        (None, s1) \<Rightarrow> (Allowed 0 limit, s1)
      | (Some n, s1) \<Rightarrow>
          (let (ok, s2) = (if n = 1 then expire k window_size now s1 else (True, s1)) in
           if \<not> ok then (Allowed 0 limit, s2)
           else if n > limit then (Limited limit (retry_after now), s2)
           else (Allowed n limit, s2)))"

definition check_rate_limit ::
  "(string \<Rightarrow> rat \<Rightarrow> 's \<Rightarrow> nat option \<times> 's) \<Rightarrow> (string \<Rightarrow> nat \<Rightarrow> rat \<Rightarrow> 's \<Rightarrow> bool \<times> 's)
   \<Rightarrow> rat \<Rightarrow> rate_request \<Rightarrow> 's \<Rightarrow> rate_verdict \<times> 's" where
  "check_rate_limit incr expire now r s =
     (let (key, limit) = get_rate_limit_key r
      in count_hit incr expire now (redis_key key (current_window now)) limit s)"

definition check_endpoint_rate_limit ::
  "(string \<Rightarrow> rat \<Rightarrow> 's \<Rightarrow> nat option \<times> 's) \<Rightarrow> (string \<Rightarrow> nat \<Rightarrow> rat \<Rightarrow> 's \<Rightarrow> bool \<times> 's)
   \<Rightarrow> rat \<Rightarrow> rate_request \<Rightarrow> string \<Rightarrow> nat \<Rightarrow> 's \<Rightarrow> rate_verdict \<times> 's" where
  "check_endpoint_rate_limit incr expire now r namespace limit s =
     count_hit incr expire now
       (redis_key (concat [''rate_limit:ep:'', namespace, '':'', get_client_ip r]) (current_window now)) limit s"

fun check_all ::
  "(string \<Rightarrow> rat \<Rightarrow> 's \<Rightarrow> nat option \<times> 's) \<Rightarrow> (string \<Rightarrow> nat \<Rightarrow> rat \<Rightarrow> 's \<Rightarrow> bool \<times> 's)
   \<Rightarrow> (rat \<times> rate_request) list \<Rightarrow> 's \<Rightarrow> rate_verdict list" where
  "check_all incr expire [] s = []"
| "check_all incr expire ((now, r) # reqs) s =
     (let (v, s') = check_rate_limit incr expire now r s in v # check_all incr expire reqs s')"

section \<open>Keys of different buckets and windows\<close>

lemma colon_not_digit: "\<not> is_ascii_digit (CHR '':'')"
  by (simp add: is_ascii_digit_def)

lemma digits_suffix:
  "list_all is_ascii_digit ds \<Longrightarrow> takeWhile is_ascii_digit (rev (key @ '':'' @ ds)) = rev ds"
  by (simp add: takeWhile_append list_all_iff colon_not_digit)

lemma redis_key_inj: "redis_key key w = redis_key key' w' \<Longrightarrow> key = key' \<and> w = w'"
proof -
  assume eq: "redis_key key w = redis_key key' w'"
  have "rev (decimal_digits w) = rev (decimal_digits w')"
    using arg_cong [OF eq, of "\<lambda>k. takeWhile is_ascii_digit (rev k)"]
    by (simp only: redis_key_def digits_suffix [OF decimal_digits_are_digits])
  then have w: "w = w'" using decimal_digits_inj by simp
  with eq show ?thesis by (simp add: redis_key_def)
qed

section \<open>The documented behaviour of the counters\<close>

text \<open>
  \<open>look\<close> reads a key: its number and its deadline. A key past its deadline counts as absent.
  \<open>INCR\<close> adds one to what the key holds now and keeps its deadline; \<open>EXPIRE\<close> sets the deadline.
\<close>

definition held :: "('s \<Rightarrow> string \<Rightarrow> nat \<times> rat option) \<Rightarrow> 's \<Rightarrow> string \<Rightarrow> rat \<Rightarrow> nat \<times> rat option" where
  "held look s k t = (case snd (look s k) of None \<Rightarrow> look s k | Some d \<Rightarrow> if d \<le> t then (0, None) else look s k)"

definition redis_laws ::
  "(string \<Rightarrow> rat \<Rightarrow> 's \<Rightarrow> nat option \<times> 's) \<Rightarrow> (string \<Rightarrow> nat \<Rightarrow> rat \<Rightarrow> 's \<Rightarrow> bool \<times> 's)
   \<Rightarrow> ('s \<Rightarrow> string \<Rightarrow> nat \<times> rat option) \<Rightarrow> bool" where
  "redis_laws incr expire look \<longleftrightarrow>
     (\<forall>k t s. \<exists>s'. incr k t s = (Some (Suc (fst (held look s k t))), s') \<and>
        look s' = (look s)(k := (Suc (fst (held look s k t)), snd (held look s k t)))) \<and>
     (\<forall>k n t s. \<exists>s'. expire k n t s = (True, s') \<and> look s' = (look s)(k := (fst (held look s k t), Some (t + of_nat n))))"

section \<open>Reference: count the earlier requests of the same window\<close>

definition rate_key :: "rate_request \<Rightarrow> string" where "rate_key r = fst (get_rate_limit_key r)"
definition rate_limit :: "rate_request \<Rightarrow> nat" where "rate_limit r = snd (get_rate_limit_key r)"

definition earlier_hits :: "(rat \<times> rate_request) list \<Rightarrow> string \<Rightarrow> nat \<Rightarrow> nat" where
  "earlier_hits past key w = length (filter (\<lambda>(t, r). rate_key r = key \<and> current_window t = w) past)"

fun window_reference :: "(rat \<times> rate_request) list \<Rightarrow> (rat \<times> rate_request) list \<Rightarrow> rate_verdict list" where
  "window_reference past [] = []"
| "window_reference past ((now, r) # reqs) =
     (let n = earlier_hits past (rate_key r) (current_window now)
      in (if n < rate_limit r then Allowed (Suc n) (rate_limit r) else Limited (rate_limit r) (retry_after now))
         # window_reference (past @ [(now, r)]) reqs)"

text \<open>What the counters hold after some requests: every hit of a window, until the window is over.\<close>

definition window_end :: "nat \<Rightarrow> rat" where
  "window_end w = of_nat (Suc w * window_size)"

definition counts :: "('s \<Rightarrow> string \<Rightarrow> nat \<times> rat option) \<Rightarrow> (rat \<times> rate_request) list \<Rightarrow> 's \<Rightarrow> bool" where
  "counts look past s \<longleftrightarrow> (\<forall>key w. fst (look s (redis_key key w)) = earlier_hits past key w \<and>
     (if earlier_hits past key w = 0 then snd (look s (redis_key key w)) = None
      else \<exists>d. snd (look s (redis_key key w)) = Some d \<and> window_end w \<le> d))"

lemma window_bounds:
  assumes "0 \<le> t"
  shows "of_nat (current_window t * window_size) \<le> t" and "t < window_end (current_window t)"
proof -
  have "(0 :: rat) \<le> t / 60" using assms by simp
  then have f: "0 \<le> \<lfloor>t / 60\<rfloor>" by simp
  have "of_int \<lfloor>t / 60\<rfloor> \<le> t / 60" "t / 60 < of_int \<lfloor>t / 60\<rfloor> + 1" by linarith+
  moreover have "(of_nat (current_window t) :: rat) = of_int \<lfloor>t / 60\<rfloor>"
    using f by (simp add: current_window_def window_size_def)
  ultimately show "of_nat (current_window t * window_size) \<le> t" "t < window_end (current_window t)"
    by (simp_all add: window_end_def window_size_def field_simps)
qed

lemma counts_held:
  assumes "counts look past s" and "0 \<le> t"
  shows "held look s (redis_key key (current_window t)) t = look s (redis_key key (current_window t))"
proof (cases "earlier_hits past key (current_window t) = 0")
  case False
  then obtain d where "snd (look s (redis_key key (current_window t))) = Some d"
      "window_end (current_window t) \<le> d"
    using assms(1) unfolding counts_def by metis
  then show ?thesis using window_bounds(2) [OF assms(2)] by (simp add: held_def)
qed (use assms(1) in \<open>auto simp: counts_def held_def\<close>)

lemma earlier_hits_snoc:
  "earlier_hits (past @ [(t, r)]) key w = earlier_hits past key w + (if rate_key r = key \<and> current_window t = w then 1 else 0)"
  by (simp add: earlier_hits_def)

lemma counts_hit:
  assumes inv: "counts look past s" and d: "window_end (current_window t) \<le> d"
    and s': "look s' = (look s)(redis_key (rate_key r) (current_window t) :=
        (Suc (earlier_hits past (rate_key r) (current_window t)), Some d))"
  shows "counts look (past @ [(t, r)]) s'"
  unfolding counts_def
proof (intro allI)
  fix key w
  show "fst (look s' (redis_key key w)) = earlier_hits (past @ [(t, r)]) key w \<and>
    (if earlier_hits (past @ [(t, r)]) key w = 0 then snd (look s' (redis_key key w)) = None
     else \<exists>d. snd (look s' (redis_key key w)) = Some d \<and> window_end w \<le> d)"
  proof (cases "key = rate_key r \<and> w = current_window t")
    case True
    then show ?thesis using s' d by (simp add: earlier_hits_snoc)
  next
    case False
    then have "redis_key key w \<noteq> redis_key (rate_key r) (current_window t)" using redis_key_inj by blast
    then have "look s' (redis_key key w) = look s (redis_key key w)" using s' by simp
    with False inv show ?thesis by (auto simp: earlier_hits_snoc counts_def)
  qed
qed

lemma check_counts:
  assumes laws: "redis_laws incr expire look" and inv: "counts look past s" and t: "0 \<le> t"
  shows "\<exists>s'. check_rate_limit incr expire t r s =
      (if earlier_hits past (rate_key r) (current_window t) < rate_limit r
       then Allowed (Suc (earlier_hits past (rate_key r) (current_window t))) (rate_limit r)
       else Limited (rate_limit r) (retry_after t), s') \<and> counts look (past @ [(t, r)]) s'"
proof -
  let ?k = "redis_key (rate_key r) (current_window t)" and ?n = "earlier_hits past (rate_key r) (current_window t)"
  have held: "held look s ?k t = look s ?k" by (rule counts_held [OF inv t])
  have n: "fst (look s ?k) = ?n" using inv by (simp add: counts_def)
  from laws obtain s1 where s1: "incr ?k t s = (Some (Suc ?n), s1)" "look s1 = (look s)(?k := (Suc ?n, snd (look s ?k)))"
    unfolding redis_laws_def using held n by metis
  show ?thesis
  proof (cases "?n = 0")
    case True
    have "snd (look s ?k) = None" using inv True by (simp add: counts_def)
    then have "held look s1 ?k t = (Suc 0, None)" using s1(2) True by (simp add: held_def)
    with laws obtain s2 where s2: "expire ?k window_size t s1 = (True, s2)"
        "look s2 = (look s1)(?k := (Suc 0, Some (t + of_nat window_size)))"
      unfolding redis_laws_def by (metis fst_conv)
    have "window_end (current_window t) \<le> t + of_nat window_size"
      using window_bounds(1) [OF t] by (simp add: window_end_def)
    then have "counts look (past @ [(t, r)]) s2"
      by (rule counts_hit [OF inv]) (simp add: s1(2) s2(2) True)
    with s1(1) s2(1) True show ?thesis
      by (auto simp: check_rate_limit_def count_hit_def rate_key_def rate_limit_def split_beta)
  next
    case False
    then obtain d where "snd (look s ?k) = Some d" "window_end (current_window t) \<le> d"
      using inv unfolding counts_def by metis
    then have "counts look (past @ [(t, r)]) s1" by (intro counts_hit [OF inv]) (simp_all add: s1(2))
    with s1(1) False show ?thesis
      by (auto simp: check_rate_limit_def count_hit_def rate_key_def rate_limit_def split_beta)
  qed
qed

lemma check_all_reference:
  assumes laws: "redis_laws incr expire look"
  shows "counts look past s \<Longrightarrow> \<forall>(t, r) \<in> set reqs. 0 \<le> t \<Longrightarrow> check_all incr expire reqs s = window_reference past reqs"
proof (induction reqs arbitrary: past s)
  case (Cons x reqs)
  obtain t r where x: "x = (t, r)" by fastforce
  with Cons.prems have "0 \<le> t" by simp
  from check_counts [OF laws Cons.prems(1) this, of r] obtain s' where
      "check_rate_limit incr expire t r s =
      (if earlier_hits past (rate_key r) (current_window t) < rate_limit r
       then Allowed (Suc (earlier_hits past (rate_key r) (current_window t))) (rate_limit r)
       else Limited (rate_limit r) (retry_after t), s')" "counts look (past @ [(t, r)]) s'" by blast
  with Cons.IH [of "past @ [(t, r)]" s'] Cons.prems(2) show ?case by (simp add: x Let_def)
qed simp

text \<open>
  C25: The rate limiter decides exactly by the number of earlier requests of the same bucket in the
  same one-minute window. Over a reliable Redis that starts without keys, each request of any
  sequence is allowed when fewer than the bucket's limit came before it in its window and refused
  otherwise; the expiry set on the first hit never forgets a hit while the window lasts.
\<close>

theorem rate_limit_is_exact:
  assumes "redis_laws incr expire look" and "\<forall>k. look s k = (0, None)" and "\<forall>(t, r) \<in> set reqs. 0 \<le> t"
  shows "check_all incr expire reqs s = window_reference [] reqs"
  using assms(1) _ assms(3)
proof (rule check_all_reference)
  show "counts look [] s" using assms(2) by (simp add: counts_def earlier_hits_def)
qed

section \<open>Bounds over any minute\<close>

text \<open>Allowed requests of a bucket among some requests and their verdicts.\<close>

definition allowed_among :: "(rat \<Rightarrow> bool) \<Rightarrow> string \<Rightarrow> (rat \<times> rate_request) list \<Rightarrow> rate_verdict list \<Rightarrow> nat" where
  "allowed_among when key reqs vs = length (filter (\<lambda>((t, r), v). when t \<and> rate_key r = key \<and> is_allowed v) (zip reqs vs))"

lemma window_reference_allowed:
  assumes "\<forall>(t, r) \<in> set reqs. rate_key r = key \<longrightarrow> rate_limit r = limit"
  shows "allowed_among (\<lambda>t. current_window t = w) key reqs (window_reference past reqs) \<le> limit - earlier_hits past key w"
  using assms
proof (induction reqs arbitrary: past)
  case (Cons x reqs)
  obtain t r where x: "x = (t, r)" by fastforce
  from Cons.prems have "\<forall>(t, r) \<in> set reqs. rate_key r = key \<longrightarrow> rate_limit r = limit" by simp
  note ih = Cons.IH [OF this, of "past @ [(t, r)]"]
  have "rate_key r = key \<Longrightarrow> rate_limit r = limit" using Cons.prems x by simp
  with ih show ?case
    by (auto simp: x allowed_among_def earlier_hits_snoc is_allowed_def Let_def split: if_splits)
qed (simp add: allowed_among_def)

lemma allowed_among_Cons:
  "allowed_among when key (x # reqs) (v # vs) =
     (if when (fst x) \<and> rate_key (snd x) = key \<and> is_allowed v then 1 else 0) + allowed_among when key reqs vs"
  by (cases x) (simp add: allowed_among_def)

lemma allowed_among_cover:
  "(\<And>t. when t \<Longrightarrow> one t \<or> two t) \<Longrightarrow> allowed_among when key reqs vs \<le> allowed_among one key reqs vs + allowed_among two key reqs vs"
proof (induction reqs arbitrary: vs)
  case (Cons x reqs)
  show ?case
  proof (cases vs)
    case (Cons v ws)
    with Cons.prems Cons.IH [of ws] show ?thesis by (auto simp: allowed_among_Cons intro: le_SucI)
  qed (simp add: allowed_among_def)
qed (simp add: allowed_among_def)

lemma minute_spans_two_windows:
  assumes "a \<le> t" and "t < a + 60" and "0 \<le> a"
  shows "current_window t = current_window a \<or> current_window t = Suc (current_window a)"
proof -
  have t: "0 \<le> t" using assms by linarith
  note wt = window_bounds [OF t] and wa = window_bounds [OF assms(3)]
  have "(of_nat (current_window t * window_size) :: rat) < window_end (Suc (current_window a))"
    using wt(1) wa(2) assms(2) by (simp add: window_end_def window_size_def)
  then have "current_window t * window_size < Suc (Suc (current_window a)) * window_size"
    by (simp only: window_end_def of_nat_less_iff)
  moreover have "(of_nat (current_window a * window_size) :: rat) < window_end (current_window t)"
    using wa(1) wt(2) assms(1) by linarith
  then have "current_window a * window_size < Suc (current_window t) * window_size"
    by (simp only: window_end_def of_nat_less_iff)
  ultimately show ?thesis unfolding window_size_def by presburger
qed

text \<open>
  A bucket never gets more than twice its limit through in any sixty seconds, wherever they
  start, and never more than its limit within one window of the limiter.
\<close>

theorem rate_limit_bounds_any_minute:
  assumes "redis_laws incr expire look" and "\<forall>k. look s k = (0, None)" and "\<forall>(t, r) \<in> set reqs. 0 \<le> t"
    and "\<forall>(t, r) \<in> set reqs. rate_key r = key \<longrightarrow> rate_limit r = limit" and "0 \<le> a"
  shows "allowed_among (\<lambda>t. a \<le> t \<and> t < a + 60) key reqs (check_all incr expire reqs s) \<le> 2 * limit \<and>
    allowed_among (\<lambda>t. current_window t = w) key reqs (check_all incr expire reqs s) \<le> limit"
proof -
  have inv: "counts look [] s" using assms(2) by (simp add: counts_def earlier_hits_def)
  note ref = check_all_reference [OF assms(1) inv assms(3)]
  have each: "allowed_among (\<lambda>t. current_window t = w) key reqs (check_all incr expire reqs s) \<le> limit" for w
    using window_reference_allowed [OF assms(4), of w "[]"] by (simp add: ref earlier_hits_def)
  have "allowed_among (\<lambda>t. a \<le> t \<and> t < a + 60) key reqs (check_all incr expire reqs s) \<le>
      allowed_among (\<lambda>t. current_window t = current_window a) key reqs (check_all incr expire reqs s) +
      allowed_among (\<lambda>t. current_window t = Suc (current_window a)) key reqs (check_all incr expire reqs s)"
    using minute_spans_two_windows assms(5) by (intro allowed_among_cover) blast
  then show ?thesis using each [of "current_window a"] each [of "Suc (current_window a)"] each [of w] by linarith
qed

section \<open>A sample run\<close>

text \<open>A table of counters with deadlines.\<close>

type_synonym counters = "string \<Rightarrow> nat \<times> rat option"

definition sample_incr :: "string \<Rightarrow> rat \<Rightarrow> counters \<Rightarrow> nat option \<times> counters" where
  "sample_incr k t s = (let (n, d) = held id s k t in (Some (Suc n), s(k := (Suc n, d))))"

definition sample_expire :: "string \<Rightarrow> nat \<Rightarrow> rat \<Rightarrow> counters \<Rightarrow> bool \<times> counters" where
  "sample_expire k n t s = (True, s(k := (fst (held id s k t), Some (t + of_nat n))))"

lemma sample_redis_laws: "redis_laws sample_incr sample_expire id"
  by (simp add: redis_laws_def sample_incr_def sample_expire_def split_beta Let_def)

definition sample_anonymous :: rate_request where
  "sample_anonymous = \<lparr>a_tenant = None, a_user = None, a_forwarded_for = None, a_real_ip = None, a_host = Some ''10.0.0.7''\<rparr>"

theorem rate_limit_is_exact_witness:
  "check_all sample_incr sample_expire (replicate 101 (5, sample_anonymous)) (\<lambda>_. (0, None)) =
     window_reference [] (replicate 101 (5, sample_anonymous))"
  using rate_limit_is_exact [OF sample_redis_laws, of "\<lambda>_. (0, None)" "replicate 101 (5, sample_anonymous)"] by simp

theorem rate_limit_bounds_any_minute_witness:
  "allowed_among (\<lambda>t. 30 \<le> t \<and> t < 90) ''rate_limit:ip:10.0.0.7'' (replicate 250 (59, sample_anonymous) @ replicate 250 (61, sample_anonymous))
     (check_all sample_incr sample_expire (replicate 250 (59, sample_anonymous) @ replicate 250 (61, sample_anonymous)) (\<lambda>_. (0, None))) \<le> 200"
proof -
  have "rate_limit sample_anonymous = 100"
    by (simp add: rate_limit_def get_rate_limit_key_def sample_anonymous_def truthy_def default_ip_limit_def)
  then show ?thesis
    using rate_limit_bounds_any_minute [OF sample_redis_laws, of "\<lambda>_. (0, None)"
        "replicate 250 (59, sample_anonymous) @ replicate 250 (61, sample_anonymous)" "''rate_limit:ip:10.0.0.7''" 100 30]
    by auto
qed

end
