(* ===== verification/Job_Queue.thy ===== *)
theory Job_Queue
  imports Erp_Prelude
begin

text \<open>
  The in-process job queue (\<open>core/jobs/local_queue.py\<close>): jobs are persisted, queued, taken by
  workers and retried on failure; \<open>stop\<close> cancels the workers, whatever they are doing. The coroutines
  interleave freely, one step per stretch of code between two awaits, and a cancellation reaches a
  worker at any of its awaits. A handler is the environment: it succeeds, fails, or catches the
  cancellation. The database calls that start a job and record its outcome can fail. Payloads,
  delays, times, error texts and metrics are left out.
\<close>

section \<open>State\<close>

datatype job_status = Job_Pending | Job_Running | Job_Completed | Job_Failed

text \<open>\<open>j_status\<close> is the status of the record in memory; \<open>j_row\<close> and \<open>j_attempts\<close> are columns of the row.\<close>

record job =
  j_name :: string
  j_status :: job_status
  j_row :: job_status
  j_attempts :: nat
  j_max_retries :: nat

text \<open>
  Where a worker is: at the head of its loop, waiting on the queue, holding a job while it waits for
  the semaphore, storing the start of a job, in its handler, storing the outcome, past that commit,
  past the re-queueing, or out of its loop.
\<close>

datatype activity = At_Head | Waiting | Holding nat | Starting nat | Handling nat | Recording nat bool
  | Committed nat bool | Closing nat bool | Gone

text \<open>A worker is listed while it is in \<open>self.workers\<close>; \<open>w_cancelled\<close>: a cancellation is on its way to it.\<close>

record worker =
  w_at :: activity
  w_listed :: bool
  w_cancelled :: bool

text \<open>
  \<open>jq_stopping\<close> counts the calls of \<open>stop\<close> that wait for the queue to drain, \<open>jq_gathering\<close> holds the
  workers each later one waits for. \<open>jq_dropped\<close> is a history: where a worker was in its job when a
  cancellation or a database error made it abandon the job.
\<close>

record job_queue =
  jq_running :: bool
  jq_max_workers :: nat
  jq_workers :: "worker list"
  jq_stopping :: nat
  jq_gathering :: "nat list list"
  jq_queue :: "nat list"
  jq_jobs :: "job list"
  jq_enqueued :: nat
  jq_completed :: nat
  jq_failed :: nat
  jq_pending_stat :: int
  jq_running_stat :: int
  jq_dropped :: "activity list"

definition new_queue :: "nat \<Rightarrow> job_queue" where
  "new_queue max_workers = \<lparr>jq_running = False, jq_max_workers = max_workers, jq_workers = [], jq_stopping = 0, jq_gathering = [],
     jq_queue = [], jq_jobs = [], jq_enqueued = 0, jq_completed = 0, jq_failed = 0, jq_pending_stat = 0, jq_running_stat = 0,
     jq_dropped = []\<rparr>"

section \<open>Operations\<close>

text \<open>The id of a job is its position in the table. An unregistered name is a \<open>ValueError\<close>.\<close>

definition get_job_handler :: "string set \<Rightarrow> string \<Rightarrow> string + unit" where
  "get_job_handler registry name = ensure (name \<in> registry) ''ValueError''"

definition enqueue_job :: "string set \<Rightarrow> string \<Rightarrow> nat \<Rightarrow> job_queue \<Rightarrow> string + (nat \<times> job_queue)" where
  "enqueue_job registry name max_retries q =
     bindE (get_job_handler registry name) (\<lambda>_.
     Inr (length (jq_jobs q),
       q\<lparr>jq_jobs := jq_jobs q @ [\<lparr>j_name = name, j_status = Job_Pending, j_row = Job_Pending, j_attempts = 0,
           j_max_retries = max_retries\<rparr>],
         jq_queue := jq_queue q @ [length (jq_jobs q)], jq_enqueued := jq_enqueued q + 1,
         jq_pending_stat := jq_pending_stat q + 1\<rparr>))"

definition set_job :: "nat \<Rightarrow> (job \<Rightarrow> job) \<Rightarrow> job_queue \<Rightarrow> job_queue" where
  "set_job i f q = q\<lparr>jq_jobs := (jq_jobs q)[i := f (jq_jobs q ! i)]\<rparr>"

text \<open>
  The parts of \<open>_execute_job\<close>: up to the first await; the commit of the start; the end of the handler;
  the commit of the outcome; the re-queueing; the closing statistics.
\<close>

definition enter_job :: "nat \<Rightarrow> job_queue \<Rightarrow> job_queue" where
  "enter_job i q =
     (set_job i (\<lambda>j. j\<lparr>j_status := Job_Running\<rparr>) q)
       \<lparr>jq_pending_stat := jq_pending_stat q - 1, jq_running_stat := jq_running_stat q + 1\<rparr>"

definition mark_running :: "nat \<Rightarrow> job_queue \<Rightarrow> job_queue" where
  "mark_running i q = set_job i (\<lambda>j. j\<lparr>j_row := Job_Running, j_attempts := j_attempts j + 1\<rparr>) q"

definition note_outcome :: "nat \<Rightarrow> bool \<Rightarrow> job_queue \<Rightarrow> job_queue" where
  "note_outcome i success q = set_job i (\<lambda>j. j\<lparr>j_status := if success then Job_Completed else Job_Failed\<rparr>) q"

definition should_retry :: "job \<Rightarrow> bool" where
  "should_retry j = (j_attempts j < j_max_retries j)"

definition save_outcome :: "nat \<Rightarrow> bool \<Rightarrow> job_queue \<Rightarrow> job_queue" where
  "save_outcome i success q =
     set_job i (\<lambda>j. j\<lparr>j_row := if success then Job_Completed else if should_retry j then Job_Pending else Job_Failed\<rparr>) q"

definition requeue_job :: "nat \<Rightarrow> bool \<Rightarrow> job_queue \<Rightarrow> job_queue" where
  "requeue_job i success q =
     (if \<not> success \<and> should_retry (jq_jobs q ! i)
      then (set_job i (\<lambda>j. j\<lparr>j_status := Job_Pending\<rparr>) q)
             \<lparr>jq_queue := jq_queue q @ [i], jq_pending_stat := jq_pending_stat q + 1\<rparr>
      else q)"

definition count_job :: "bool \<Rightarrow> job_queue \<Rightarrow> job_queue" where
  "count_job success q =
     (if success then q\<lparr>jq_completed := jq_completed q + 1, jq_running_stat := jq_running_stat q - 1\<rparr>
      else q\<lparr>jq_failed := jq_failed q + 1, jq_running_stat := jq_running_stat q - 1\<rparr>)"

definition new_worker :: worker where
  "new_worker = \<lparr>w_at = At_Head, w_listed = True, w_cancelled = False\<rparr>"

definition start_queue :: "job_queue \<Rightarrow> job_queue" where
  "start_queue q =
     (if jq_running q then q else q\<lparr>jq_running := True, jq_workers := jq_workers q @ replicate (jq_max_workers q) new_worker\<rparr>)"

text \<open>
  \<open>stop\<close>: it clears the flag and waits for the queue to drain, thirty seconds at most; it cancels the
  listed workers and waits until they are gone; it clears the list. The three parts are steps of
  their own, since workers, \<open>enqueue\<close> and \<open>start\<close> run in between.
\<close>

definition stop_queue :: "job_queue \<Rightarrow> job_queue" where
  "stop_queue q = (if jq_running q then q\<lparr>jq_running := False, jq_stopping := jq_stopping q + 1\<rparr> else q)"

definition cancel_workers :: "job_queue \<Rightarrow> job_queue option" where
  "cancel_workers q =
     (if jq_stopping q = 0 then None
      else Some (q\<lparr>jq_stopping := jq_stopping q - 1,
        jq_workers := map (\<lambda>x. if w_listed x then x\<lparr>w_cancelled := True\<rparr> else x) (jq_workers q),
        jq_gathering := jq_gathering q @ [filter (\<lambda>w. w_listed (jq_workers q ! w)) [0..<length (jq_workers q)]]\<rparr>))"

definition clear_workers :: "nat list \<Rightarrow> job_queue \<Rightarrow> job_queue option" where
  "clear_workers ws q =
     (if ws \<in> set (jq_gathering q) \<and> (\<forall>w \<in> set ws. w_at (jq_workers q ! w) = Gone)
      then Some (q\<lparr>jq_gathering := remove1 ws (jq_gathering q),
        jq_workers := map (\<lambda>x. x\<lparr>w_listed := False\<rparr>) (jq_workers q)\<rparr>)
      else None)"

section \<open>Steps\<close>

text \<open>
  Steps of worker \<open>w\<close>: go round the loop (wait if the queue is running, else leave), give up waiting
  after the time-out, take the first job, pass the semaphore, and the parts of its job. \<open>Fail_Save\<close> is a
  database error: on a start, or while a failure is recorded, it reaches the loop, which logs it and
  goes on; while a success is recorded it counts as a failure of the job. \<open>Catch\<close> is a handler that
  catches the cancellation, \<open>Cut\<close> the cancellation that ends the worker: \<open>except Exception\<close> does not catch it.
\<close>

datatype step = Loop nat | Time_Out nat | Take nat | Enter nat | Mark nat | Finish_Job nat bool | Save nat | Put nat | Count nat
  | Fail_Save nat | Catch nat | Cut nat | Start | Stop | Cancel | Clear "nat list"

definition set_worker :: "nat \<Rightarrow> activity \<Rightarrow> job_queue \<Rightarrow> job_queue" where
  "set_worker w a q = q\<lparr>jq_workers := (jq_workers q)[w := (jq_workers q ! w)\<lparr>w_at := a\<rparr>]\<rparr>"

fun in_semaphore :: "activity \<Rightarrow> bool" where
  "in_semaphore (Starting i) = True"
| "in_semaphore (Handling i) = True"
| "in_semaphore (Recording i ok) = True"
| "in_semaphore (Committed i ok) = True"
| "in_semaphore (Closing i ok) = True"
| "in_semaphore _ = False"

definition executing :: "job_queue \<Rightarrow> nat" where
  "executing q = length (filter in_semaphore (map w_at (jq_workers q)))"

definition drop_work :: "nat \<Rightarrow> activity \<Rightarrow> job_queue \<Rightarrow> job_queue" where
  "drop_work w a q = (set_worker w a q)\<lparr>jq_dropped := jq_dropped q @ [w_at (jq_workers q ! w)]\<rparr>"

text \<open>What a worker does at each place of its loop.\<close>

fun worker_step :: "step \<Rightarrow> activity \<Rightarrow> job_queue \<Rightarrow> job_queue option" where
  "worker_step (Loop w) a q = (case a of At_Head \<Rightarrow> Some (set_worker w (if jq_running q then Waiting else Gone) q) | _ \<Rightarrow> None)"
| "worker_step (Time_Out w) a q = (case a of Waiting \<Rightarrow> Some (set_worker w At_Head q) | _ \<Rightarrow> None)"
| "worker_step (Take w) a q =
     (case a of
        Waiting \<Rightarrow> (case jq_queue q of [] \<Rightarrow> None | i # rest \<Rightarrow> Some (set_worker w (Holding i) (q\<lparr>jq_queue := rest\<rparr>)))
      | _ \<Rightarrow> None)"
| "worker_step (Enter w) a q =
     (case a of
        Holding i \<Rightarrow> if executing q < jq_max_workers q then Some (set_worker w (Starting i) (enter_job i q)) else None
      | _ \<Rightarrow> None)"
| "worker_step (Mark w) a q = (case a of Starting i \<Rightarrow> Some (set_worker w (Handling i) (mark_running i q)) | _ \<Rightarrow> None)"
| "worker_step (Finish_Job w success) a q =
     (case a of Handling i \<Rightarrow> Some (set_worker w (Recording i success) (note_outcome i success q)) | _ \<Rightarrow> None)"
| "worker_step (Save w) a q =
     (case a of Recording i success \<Rightarrow> Some (set_worker w (Committed i success) (save_outcome i success q)) | _ \<Rightarrow> None)"
| "worker_step (Put w) a q =
     (case a of Committed i success \<Rightarrow> Some (set_worker w (Closing i success) (requeue_job i success q)) | _ \<Rightarrow> None)"
| "worker_step (Count w) a q = (case a of Closing i success \<Rightarrow> Some (set_worker w At_Head (count_job success q)) | _ \<Rightarrow> None)"
| "worker_step (Fail_Save w) a q =
     (case a of
        Starting i \<Rightarrow> Some (drop_work w At_Head q)
      | Recording i success \<Rightarrow>
          Some (if success then set_worker w (Recording i False) (note_outcome i False q) else drop_work w At_Head q)
      | _ \<Rightarrow> None)"
| "worker_step (Catch w) a q =
     (case a of
        Handling i \<Rightarrow> if w_cancelled (jq_workers q ! w)
          then Some (q\<lparr>jq_workers := (jq_workers q)[w := (jq_workers q ! w)\<lparr>w_cancelled := False\<rparr>]\<rparr>) else None
      | _ \<Rightarrow> None)"
| "worker_step (Cut w) a q = (if w_cancelled (jq_workers q ! w) \<and> a \<noteq> Gone then Some (drop_work w Gone q) else None)"
| "worker_step _ a q = None"

fun step_worker :: "step \<Rightarrow> nat option" where
  "step_worker (Loop w) = Some w"
| "step_worker (Time_Out w) = Some w"
| "step_worker (Take w) = Some w"
| "step_worker (Enter w) = Some w"
| "step_worker (Mark w) = Some w"
| "step_worker (Finish_Job w success) = Some w"
| "step_worker (Save w) = Some w"
| "step_worker (Put w) = Some w"
| "step_worker (Count w) = Some w"
| "step_worker (Fail_Save w) = Some w"
| "step_worker (Catch w) = Some w"
| "step_worker (Cut w) = Some w"
| "step_worker _ = None"

text \<open>One step of the queue that is not a new job, and several.\<close>

definition run_step :: "step \<Rightarrow> job_queue \<Rightarrow> job_queue option" where
  "run_step s q =
     (case s of
        Start \<Rightarrow> Some (start_queue q)
      | Stop \<Rightarrow> Some (stop_queue q)
      | Cancel \<Rightarrow> cancel_workers q
      | Clear ws \<Rightarrow> clear_workers ws q
      | _ \<Rightarrow> (case step_worker s of
               Some w \<Rightarrow> if w < length (jq_workers q) then worker_step s (w_at (jq_workers q ! w)) q else None
             | None \<Rightarrow> None))"

fun run_steps :: "step list \<Rightarrow> job_queue \<Rightarrow> job_queue option" where
  "run_steps [] q = Some q"
| "run_steps (s # ss) q = (case run_step s q of None \<Rightarrow> None | Some q' \<Rightarrow> run_steps ss q')"

text \<open>Everything that can happen to a queue.\<close>

inductive queue_step :: "string set \<Rightarrow> job_queue \<Rightarrow> job_queue \<Rightarrow> bool" for registry where
  enqueue: "enqueue_job registry name max_retries q = Inr (i, q') \<Longrightarrow> queue_step registry q q'"
| run: "run_step s q = Some q' \<Longrightarrow> queue_step registry q q'"

inductive_cases queue_stepE: "queue_step registry q q'"

inductive queue_reach :: "string set \<Rightarrow> nat \<Rightarrow> job_queue \<Rightarrow> bool" for registry n where
  init: "queue_reach registry n (new_queue n)"
| step: "queue_reach registry n q \<Longrightarrow> queue_step registry q q' \<Longrightarrow> queue_reach registry n q'"

section \<open>The invariant\<close>

text \<open>The job a worker has in its hands; past the re-queueing it has none.\<close>

fun holds :: "activity \<Rightarrow> nat list" where
  "holds (Holding i) = [i]"
| "holds (Starting i) = [i]"
| "holds (Handling i) = [i]"
| "holds (Recording i ok) = [i]"
| "holds (Committed i ok) = [i]"
| "holds _ = []"

definition attempt_limit :: "job \<Rightarrow> nat" where
  "attempt_limit j = max 1 (j_max_retries j)"

lemma limit_update [simp]:
  "attempt_limit (j\<lparr>j_status := st\<rparr>) = attempt_limit j" "attempt_limit (j\<lparr>j_row := st\<rparr>) = attempt_limit j"
  "attempt_limit (j\<lparr>j_attempts := k\<rparr>) = attempt_limit j"
  by (simp_all add: attempt_limit_def)

definition untaken :: "job \<Rightarrow> bool" where
  "untaken j \<longleftrightarrow> j_status j = Job_Pending \<and> j_row j = Job_Pending \<and> j_attempts j < attempt_limit j"

definition finished :: "job \<Rightarrow> bool" where
  "finished j \<longleftrightarrow> j_status j = j_row j \<and>
     (j_row j = Job_Completed \<and> 1 \<le> j_attempts j \<and> j_attempts j \<le> attempt_limit j \<or>
      j_row j = Job_Failed \<and> j_attempts j = attempt_limit j)"

text \<open>What the place of a worker says of the job in its hands.\<close>

definition attempted :: "job \<Rightarrow> bool" where
  "attempted j \<longleftrightarrow> 1 \<le> j_attempts j \<and> j_attempts j \<le> attempt_limit j"

fun stage_ok :: "activity \<Rightarrow> job \<Rightarrow> bool" where
  "stage_ok (Holding i) j = untaken j"
| "stage_ok (Starting i) j = (j_status j = Job_Running \<and> j_row j = Job_Pending \<and> j_attempts j < attempt_limit j)"
| "stage_ok (Handling i) j = (j_status j = Job_Running \<and> j_row j = Job_Running \<and> attempted j)"
| "stage_ok (Recording i ok) j =
     (j_status j = (if ok then Job_Completed else Job_Failed) \<and> j_row j = Job_Running \<and> attempted j)"
| "stage_ok (Committed i ok) j =
     (j_status j = (if ok then Job_Completed else Job_Failed) \<and> attempted j \<and>
      j_row j = (if ok then Job_Completed else if should_retry j then Job_Pending else Job_Failed))"
| "stage_ok _ j = True"

fun waits :: "activity \<Rightarrow> bool" where
  "waits (Holding i) = True"
| "waits _ = False"

fun uncounted :: "activity \<Rightarrow> bool" where
  "uncounted (Committed i ok) = ok"
| "uncounted (Closing i ok) = ok"
| "uncounted _ = False"

text \<open>The places of the workers, and those where work was abandoned.\<close>

definition places :: "job_queue \<Rightarrow> activity list" where
  "places q = map w_at (jq_workers q) @ jq_dropped q"

definition in_hands :: "activity list \<Rightarrow> nat list" where
  "in_hands ps = concat (map holds ps)"

definition rows_with :: "job_status \<Rightarrow> job list \<Rightarrow> nat" where
  "rows_with st js = length (filter (\<lambda>j. j_row j = st) js)"

definition jobs_inv :: "job list \<Rightarrow> nat list \<Rightarrow> activity list \<Rightarrow> bool" where
  "jobs_inv js qs ps \<longleftrightarrow> distinct (qs @ in_hands ps) \<and> set (qs @ in_hands ps) \<subseteq> {..<length js} \<and>
     (\<forall>i \<in> set qs. untaken (js ! i)) \<and> (\<forall>p \<in> set ps. \<forall>i \<in> set (holds p). stage_ok p (js ! i)) \<and>
     (\<forall>i < length js. i \<in> set (qs @ in_hands ps) \<or> finished (js ! i))"

definition stats_inv :: "job_queue \<Rightarrow> bool" where
  "stats_inv q \<longleftrightarrow>
     jq_enqueued q = length (jq_jobs q) \<and>
     jq_pending_stat q = int (length (jq_queue q)) + int (length (filter waits (places q))) \<and>
     jq_running_stat q = int (length (filter in_semaphore (places q))) \<and>
     rows_with Job_Completed (jq_jobs q) = jq_completed q + length (filter uncounted (places q)) \<and>
     executing q \<le> jq_max_workers q"

definition queue_inv :: "job_queue \<Rightarrow> bool" where
  "queue_inv q \<longleftrightarrow> jobs_inv (jq_jobs q) (jq_queue q) (places q) \<and> stats_inv q"

subsection \<open>Places as a multiset\<close>

lemma jobs_inv_mset:
  assumes "mset ps = mset ps'"
  shows "jobs_inv js qs ps = jobs_inv js qs ps'"
proof -
  have hands: "mset (in_hands ps) = mset (in_hands ps')"
    using arg_cong [OF assms, of "\<lambda>m. sum_mset (image_mset (\<lambda>p. mset (holds p)) m)"]
    by (simp add: in_hands_def mset_concat image_mset.compositionality comp_def sum_mset_sum_list flip: mset_map)
  then have d: "distinct (qs @ in_hands ps) = distinct (qs @ in_hands ps')" and s: "set (in_hands ps) = set (in_hands ps')"
    by (auto dest: mset_eq_setD mset_eq_imp_distinct_iff)
  have p: "set ps = set ps'" using assms by (rule mset_eq_setD)
  show ?thesis unfolding jobs_inv_def d set_append s p ..
qed

lemma filter_mset_length: "mset ps = mset ps' \<Longrightarrow> length (filter P ps) = length (filter P ps')"
  by (metis mset_eq_length mset_filter)

definition tally :: "bool \<Rightarrow> nat" where
  "tally b = (if b then 1 else 0)"

lemma move_worker:
  assumes "w < length (jq_workers q)" and "jq_workers q' = (jq_workers q)[w := x]" and "jq_dropped q' = jq_dropped q"
  obtains ps where "mset (places q) = mset (w_at (jq_workers q ! w) # ps)" and "mset (places q') = mset (w_at x # ps)"
proof -
  let ?ws = "map w_at (jq_workers q)"
  have w: "w < length ?ws" using assms by simp
  have old: "mset ?ws = mset (?ws ! w # take w ?ws @ drop (Suc w) ?ws)" by (subst id_take_nth_drop [OF w]) simp
  have "map w_at (jq_workers q') = ?ws[w := w_at x]" by (simp add: assms(2) map_update)
  then have new: "mset (map w_at (jq_workers q')) = mset (w_at x # take w ?ws @ drop (Suc w) ?ws)"
    using w by (simp add: upd_conv_take_nth_drop)
  show ?thesis
    by (rule that [of "(take w ?ws @ drop (Suc w) ?ws) @ jq_dropped q"])
      (use old new assms in \<open>simp_all add: places_def\<close>)
qed

lemma filter_move:
  fixes q q' :: job_queue
  assumes "w < length (jq_workers q)" and "jq_workers q' = (jq_workers q)[w := x]"
  shows "length (filter P (map w_at (jq_workers q'))) + tally (P (w_at (jq_workers q ! w)))
    = length (filter P (map w_at (jq_workers q))) + tally (P (w_at x))"
proof -
  obtain ps where "mset (places (q\<lparr>jq_dropped := []\<rparr>)) = mset (w_at (jq_workers q ! w) # ps)"
      and "mset (places (q'\<lparr>jq_dropped := []\<rparr>)) = mset (w_at x # ps)"
    using move_worker [of w "q\<lparr>jq_dropped := []\<rparr>" "q'\<lparr>jq_dropped := []\<rparr>" x] assms by auto
  from this [THEN filter_mset_length, of P] show ?thesis
    by (simp add: places_def tally_def)
qed

lemma executing_move:
  assumes "w < length (jq_workers q)" and "jq_workers q' = (jq_workers q)[w := x]"
  shows "executing q' + tally (in_semaphore (w_at (jq_workers q ! w))) = executing q + tally (in_semaphore (w_at x))"
  unfolding executing_def using assms by (rule filter_move)

subsection \<open>One job moves on\<close>

lemma rows_update:
  "i < length js \<Longrightarrow> rows_with st (js[i := j]) + (if j_row (js ! i) = st then 1 else 0) = rows_with st js + (if j_row j = st then 1 else 0)"
proof (induction js arbitrary: i)
  case (Cons x xs)
  then show ?case by (cases i) (fastforce simp: rows_with_def)+
qed simp

lemma rows_update_same: "i < length js \<Longrightarrow> (j_row j = st) = (j_row (js ! i) = st) \<Longrightarrow> rows_with st (js[i := j]) = rows_with st js"
  using rows_update [of i js st j] by (simp split: if_splits)

lemma in_hands_Cons: "in_hands (p # ps) = holds p @ in_hands ps"
  by (simp add: in_hands_def)

lemma held_elsewhere: "p \<in> set ps \<Longrightarrow> k \<in> set (holds p) \<Longrightarrow> k \<in> set (in_hands ps)"
  by (auto simp: in_hands_def)

text \<open>A job in the hands of a worker: it stays there, with the worker at its next place.\<close>

lemma jobs_inv_stage:
  assumes "jobs_inv js qs (a # ps)" and "holds a = [i]" and "holds b = [i]" and "stage_ok b j"
  shows "jobs_inv (js[i := j]) qs (b # ps)"
  using assms by (fastforce simp: jobs_inv_def in_hands_Cons nth_list_update dest: held_elsewhere)

text \<open>A worker that has no job, before or after.\<close>

lemma jobs_inv_idle:
  assumes "jobs_inv js qs (a # ps)" and "holds a = []" and "holds b = []"
  shows "jobs_inv js qs (b # ps)"
  using assms by (simp add: jobs_inv_def in_hands_Cons)

lemma jobs_inv_take:
  assumes "jobs_inv js (i # qs) (a # ps)" and "holds a = []"
  shows "jobs_inv js qs (Holding i # ps)"
  using assms by (auto simp: jobs_inv_def in_hands_Cons)

lemma jobs_inv_requeue:
  assumes "jobs_inv js qs (a # ps)" and "holds a = [i]" and "holds b = []" and "untaken j"
  shows "jobs_inv (js[i := j]) (qs @ [i]) (b # ps)"
  using assms by (fastforce simp: jobs_inv_def in_hands_Cons nth_list_update dest: held_elsewhere)

lemma jobs_inv_finish:
  assumes "jobs_inv js qs (a # ps)" and "holds a = [i]" and "holds b = []" and "finished (js ! i)"
  shows "jobs_inv js qs (b # ps)"
  using assms by (auto simp: jobs_inv_def in_hands_Cons)

lemma jobs_inv_held:
  assumes "jobs_inv js qs (a # ps)" and "holds a = [i]"
  shows "i < length js \<and> stage_ok a (js ! i)"
  using assms by (auto simp: jobs_inv_def in_hands_Cons)

subsection \<open>One worker moves on\<close>

lemma worker_moves:
  assumes inv: "queue_inv q" and w: "w < length (jq_workers q)" "jq_workers q' = (jq_workers q)[w := x]"
    and at_w: "w_at (jq_workers q ! w) = a" "w_at x = b"
    and same: "jq_dropped q' = jq_dropped q" "jq_max_workers q' = jq_max_workers q" "jq_enqueued q' = jq_enqueued q"
      "length (jq_jobs q') = length (jq_jobs q)"
    and jobs: "\<And>ps. jobs_inv (jq_jobs q) (jq_queue q) (a # ps) \<Longrightarrow> jobs_inv (jq_jobs q') (jq_queue q') (b # ps)"
    and pend: "jq_pending_stat q' + int (length (jq_queue q) + tally (waits a)) = jq_pending_stat q + int (length (jq_queue q') + tally (waits b))"
    and runs: "jq_running_stat q' + int (tally (in_semaphore a)) = jq_running_stat q + int (tally (in_semaphore b))"
    and rows: "rows_with Job_Completed (jq_jobs q') + jq_completed q + tally (uncounted a)
      = rows_with Job_Completed (jq_jobs q) + jq_completed q' + tally (uncounted b)"
    and sem: "in_semaphore b \<Longrightarrow> in_semaphore a \<or> executing q < jq_max_workers q"
  shows "queue_inv q'"
proof -
  obtain ps where ps: "mset (places q) = mset (a # ps)" "mset (places q') = mset (b # ps)"
    using move_worker [OF w same(1)] at_w by auto
  have count: "length (filter P (places q)) = tally (P a) + length (filter P ps)"
      "length (filter P (places q')) = tally (P b) + length (filter P ps)" for P
    using ps [THEN filter_mset_length, of P] by (simp_all add: tally_def)
  have "jobs_inv (jq_jobs q') (jq_queue q') (places q')"
    unfolding jobs_inv_mset [OF ps(2)] using inv by (intro jobs) (simp add: queue_inv_def flip: jobs_inv_mset [OF ps(1)])
  moreover have "stats_inv q'"
    using inv pend runs rows sem executing_move [OF w, unfolded at_w]
    unfolding queue_inv_def stats_inv_def count same by (auto simp: tally_def split: if_splits)
  ultimately show ?thesis by (simp add: queue_inv_def)
qed

lemma worker_drops:
  assumes inv: "queue_inv q" and w: "w < length (jq_workers q)" and b: "b = At_Head \<or> b = Gone"
  shows "queue_inv (drop_work w b q)"
proof -
  let ?a = "w_at (jq_workers q ! w)" and ?q = "set_worker w b q"
  obtain ps where ps: "mset (places q) = mset (?a # ps)" "mset (places ?q) = mset (b # ps)"
    using move_worker [OF w, of ?q "(jq_workers q ! w)\<lparr>w_at := b\<rparr>"] by (auto simp: set_worker_def)
  have "places (drop_work w b q) = places ?q @ [?a]" by (simp add: drop_work_def places_def set_worker_def)
  then have new: "mset (places (drop_work w b q)) = mset (b # ?a # ps)" using ps(2) by simp
  have count: "length (filter P (places q)) = tally (P ?a) + length (filter P ps)"
      "length (filter P (places (drop_work w b q))) = tally (P b) + (tally (P ?a) + length (filter P ps))" for P
    using filter_mset_length [OF ps(1), of P] filter_mset_length [OF new, of P] by (simp_all add: tally_def)
  have "jobs_inv (jq_jobs q) (jq_queue q) (?a # ps)" using inv by (simp add: queue_inv_def flip: jobs_inv_mset [OF ps(1)])
  then have "jobs_inv (jq_jobs q) (jq_queue q) (places (drop_work w b q))"
    unfolding jobs_inv_mset [OF new] using b by (auto simp: jobs_inv_def in_hands_def)
  moreover have "executing (drop_work w b q) \<le> executing q"
    using executing_move [OF w, of "drop_work w b q" "(jq_workers q ! w)\<lparr>w_at := b\<rparr>"] b
    by (auto simp: drop_work_def set_worker_def tally_def)
  ultimately show ?thesis using inv b unfolding queue_inv_def stats_inv_def count
    by (auto simp: drop_work_def set_worker_def tally_def)
qed

subsection \<open>Every step keeps it\<close>

lemmas part_defs = set_worker_def set_job_def enter_job_def mark_running_def note_outcome_def save_outcome_def requeue_job_def
  count_job_def

lemma held_job:
  assumes "queue_inv q" and "w < length (jq_workers q)" and "w_at (jq_workers q ! w) = a" and "holds a = [i]"
  shows "i < length (jq_jobs q) \<and> stage_ok a (jq_jobs q ! i)"
proof -
  have "a \<in> set (places q)" using assms(2,3) by (force simp: places_def)
  then show ?thesis using assms(1,4) by (fastforce simp: queue_inv_def jobs_inv_def dest: held_elsewhere)
qed

lemma worker_step_keeps:
  assumes inv: "queue_inv q" and w: "w < length (jq_workers q)" and s: "step_worker s = Some w"
    and run: "worker_step s (w_at (jq_workers q ! w)) q = Some q'"
  shows "queue_inv q'"
proof -
  note held = held_job [OF inv w]
  have keeps: "queue_inv q'" if "w_at (jq_workers q ! w) = a" and "jq_workers q' = (jq_workers q)[w := (jq_workers q ! w)\<lparr>w_at := b\<rparr>]"
      and "jq_dropped q' = jq_dropped q" "jq_max_workers q' = jq_max_workers q" "jq_enqueued q' = jq_enqueued q"
      "length (jq_jobs q') = length (jq_jobs q)"
      "\<And>ps. jobs_inv (jq_jobs q) (jq_queue q) (a # ps) \<Longrightarrow> jobs_inv (jq_jobs q') (jq_queue q') (b # ps)"
      "jq_pending_stat q' + int (length (jq_queue q) + tally (waits a)) = jq_pending_stat q + int (length (jq_queue q') + tally (waits b))"
      "jq_running_stat q' + int (tally (in_semaphore a)) = jq_running_stat q + int (tally (in_semaphore b))"
      "rows_with Job_Completed (jq_jobs q') + jq_completed q + tally (uncounted a)
      = rows_with Job_Completed (jq_jobs q) + jq_completed q' + tally (uncounted b)"
      "in_semaphore b \<Longrightarrow> in_semaphore a \<or> executing q < jq_max_workers q" for a b
    by (rule worker_moves [OF inv w that(2,1) _ that(3-)]) simp
  show ?thesis
  proof (cases s)
    case (Loop v)
    with run s show ?thesis
      by (intro keeps [of At_Head "if jq_running q then Waiting else Gone"])
        (auto simp: part_defs tally_def split: activity.splits if_splits elim!: jobs_inv_idle)
  next
    case (Time_Out v)
    with run s show ?thesis
      by (intro keeps [of Waiting At_Head]) (auto simp: part_defs tally_def split: activity.splits elim!: jobs_inv_idle)
  next
    case (Take v)
    with run s obtain i rest where "w_at (jq_workers q ! w) = Waiting" "jq_queue q = i # rest"
        "q' = set_worker w (Holding i) (q\<lparr>jq_queue := rest\<rparr>)"
      by (auto split: activity.splits list.splits)
    then show ?thesis by (intro keeps [of Waiting "Holding i"]) (auto simp: part_defs tally_def elim!: jobs_inv_take)
  next
    case (Enter v)
    with run s obtain i where a: "w_at (jq_workers q ! w) = Holding i" "executing q < jq_max_workers q"
        "q' = set_worker w (Starting i) (enter_job i q)"
      by (auto split: activity.splits if_splits)
    from held [OF a(1)] a show ?thesis
      by (intro keeps [of "Holding i" "Starting i"])
        (auto simp: part_defs tally_def untaken_def rows_update_same elim!: jobs_inv_stage)
  next
    case (Mark v)
    with run s obtain i where a: "w_at (jq_workers q ! w) = Starting i" "q' = set_worker w (Handling i) (mark_running i q)"
      by (auto split: activity.splits)
    from held [OF a(1)] a show ?thesis
      by (intro keeps [of "Starting i" "Handling i"])
        (auto simp: part_defs tally_def attempted_def attempt_limit_def rows_update_same elim!: jobs_inv_stage)
  next
    case (Finish_Job v ok)
    with run s obtain i where a: "w_at (jq_workers q ! w) = Handling i" "q' = set_worker w (Recording i ok) (note_outcome i ok q)"
      by (auto split: activity.splits)
    from held [OF a(1)] a show ?thesis
      by (intro keeps [of "Handling i" "Recording i ok"])
        (auto simp: part_defs tally_def attempted_def attempt_limit_def rows_update_same elim!: jobs_inv_stage)
  next
    case (Save v)
    with run s obtain i ok where a: "w_at (jq_workers q ! w) = Recording i ok" "q' = set_worker w (Committed i ok) (save_outcome i ok q)"
      by (auto split: activity.splits)
    from held [OF a(1)] rows_update [of i "jq_jobs q" Job_Completed] a show ?thesis
      by (intro keeps [of "Recording i ok" "Committed i ok"])
        (auto simp: part_defs tally_def attempted_def attempt_limit_def should_retry_def elim!: jobs_inv_stage)
  next
    case (Put v)
    with run s obtain i ok where a: "w_at (jq_workers q ! w) = Committed i ok" "q' = set_worker w (Closing i ok) (requeue_job i ok q)"
      by (auto split: activity.splits)
    from held [OF a(1)] a show ?thesis
      by (intro keeps [of "Committed i ok" "Closing i ok"])
        (auto simp: part_defs tally_def attempted_def attempt_limit_def should_retry_def untaken_def finished_def rows_update_same
          elim!: jobs_inv_requeue jobs_inv_finish split: if_splits)
  next
    case (Count v)
    with run s obtain i ok where a: "w_at (jq_workers q ! w) = Closing i ok" "q' = set_worker w At_Head (count_job ok q)"
      by (auto split: activity.splits)
    then show ?thesis
      by (intro keeps [of "Closing i ok" At_Head]) (auto simp: part_defs tally_def elim!: jobs_inv_idle)
  next
    case (Fail_Save v)
    with run s consider i where "w_at (jq_workers q ! w) = Recording i True" "q' = set_worker w (Recording i False) (note_outcome i False q)"
      | "q' = drop_work w At_Head q"
      by (auto split: activity.splits if_splits)
    then show ?thesis
    proof cases
      case 1
      from held [OF 1(1)] 1 show ?thesis
        by (intro keeps [of "Recording i True" "Recording i False"])
          (auto simp: part_defs tally_def attempted_def attempt_limit_def rows_update_same elim!: jobs_inv_stage)
    qed (use worker_drops [OF inv w] in simp)
  next
    case (Catch v)
    with run s obtain i where a: "w_at (jq_workers q ! w) = Handling i"
        "q' = q\<lparr>jq_workers := (jq_workers q)[w := (jq_workers q ! w)\<lparr>w_cancelled := False\<rparr>]\<rparr>"
      by (auto split: activity.splits if_splits)
    show ?thesis by (rule worker_moves [OF inv w, where x = "(jq_workers q ! w)\<lparr>w_cancelled := False\<rparr>" and a = "Handling i" and b = "Handling i"]) (use a in \<open>auto simp: a(2)\<close>)
  next
    case (Cut v)
    with run s worker_drops [OF inv w, of Gone] show ?thesis by (auto split: if_splits)
  qed (use s in auto)
qed

lemma workers_only_keeps:
  assumes inv: "queue_inv q" and ws: "map w_at (jq_workers q') = map w_at (jq_workers q) @ replicate n At_Head"
    and same: "jq_dropped q' = jq_dropped q" "jq_max_workers q' = jq_max_workers q" "jq_enqueued q' = jq_enqueued q"
      "jq_jobs q' = jq_jobs q" "jq_queue q' = jq_queue q" "jq_completed q' = jq_completed q"
      "jq_pending_stat q' = jq_pending_stat q" "jq_running_stat q' = jq_running_stat q"
  shows "queue_inv q'"
proof -
  have none: "filter P (replicate n At_Head) = []" if "\<not> P At_Head" for P using that by (induction n) auto
  have hands: "in_hands (places q') = in_hands (places q)"
    by (simp add: in_hands_def places_def ws same(1))
  moreover have "set (places q') \<subseteq> insert At_Head (set (places q))" by (auto simp: places_def ws same(1))
  ultimately have "jobs_inv (jq_jobs q') (jq_queue q') (places q')"
    using inv unfolding queue_inv_def jobs_inv_def same by fastforce
  moreover have "stats_inv q'" using inv
    by (simp add: queue_inv_def stats_inv_def places_def executing_def ws same none)
  ultimately show ?thesis by (simp add: queue_inv_def)
qed

lemma run_step_keeps:
  assumes inv: "queue_inv q" and run: "run_step s q = Some q'"
  shows "queue_inv q'"
proof (cases "step_worker s")
  case (Some w)
  with run have "w < length (jq_workers q) \<and> worker_step s (w_at (jq_workers q ! w)) q = Some q'"
    by (cases s) (auto simp: run_step_def split: if_splits)
  with worker_step_keeps [OF inv _ Some] show ?thesis by blast
next
  case None
  have unlist: "map w_at (map (\<lambda>x. if P x then x\<lparr>w_cancelled := True\<rparr> else x) ws) = map w_at ws"
      "map w_at (map (\<lambda>x. x\<lparr>w_listed := False\<rparr>) ws) = map w_at ws" for P ws by simp_all
  from None run consider "s = Start" "q' = start_queue q" | "s = Stop" "q' = stop_queue q"
    | "s = Cancel" "cancel_workers q = Some q'" | ws where "s = Clear ws" "clear_workers ws q = Some q'"
    by (cases s) (auto simp: run_step_def)
  then show ?thesis
  proof cases
    case 1
    then show ?thesis using inv
      by (cases "jq_running q") (auto simp: start_queue_def new_worker_def
          intro: workers_only_keeps [where n = "jq_max_workers q"])
  next
    case 2
    then show ?thesis using inv by (auto simp: stop_queue_def intro: workers_only_keeps [where n = 0])
  next
    case 3
    then show ?thesis
      by (intro workers_only_keeps [OF inv, where n = 0]) (auto simp: cancel_workers_def split: if_splits)
  next
    case 4
    then show ?thesis
      by (intro workers_only_keeps [OF inv, where n = 0]) (auto simp: clear_workers_def split: if_splits)
  qed
qed

lemma enqueue_keeps:
  assumes inv: "queue_inv q" and run: "enqueue_job registry name max_retries q = Inr (i, q')"
  shows "queue_inv q'"
proof -
  let ?j = "\<lparr>j_name = name, j_status = Job_Pending, j_row = Job_Pending, j_attempts = 0, j_max_retries = max_retries\<rparr>"
    and ?n = "length (jq_jobs q)"
  from run have q': "q' = q\<lparr>jq_jobs := jq_jobs q @ [?j], jq_queue := jq_queue q @ [?n], jq_enqueued := jq_enqueued q + 1,
      jq_pending_stat := jq_pending_stat q + 1\<rparr>"
    by (auto simp: enqueue_job_def result_simps)
  have same: "places q' = places q" "executing q' = executing q" by (simp_all add: q' places_def executing_def)
  have "jobs_inv (jq_jobs q @ [?j]) (jq_queue q @ [?n]) (places q)"
    using inv unfolding queue_inv_def jobs_inv_def
    by (auto simp: nth_append untaken_def attempt_limit_def less_Suc_eq dest: held_elsewhere)
  moreover have "stats_inv q'" using inv same by (auto simp: queue_inv_def stats_inv_def q' rows_with_def)
  ultimately show ?thesis using same by (simp add: queue_inv_def q')
qed

lemma queue_step_keeps: "queue_step registry q q' \<Longrightarrow> queue_inv q \<Longrightarrow> queue_inv q'"
  by (erule queue_stepE) (auto intro: enqueue_keeps run_step_keeps)

lemma queue_reach_inv: "queue_reach registry n q \<Longrightarrow> queue_inv q"
proof (induction rule: queue_reach.induct)
  case init
  show ?case by (simp add: queue_inv_def jobs_inv_def stats_inv_def new_queue_def places_def in_hands_def executing_def rows_with_def)
qed (rule queue_step_keeps)

section \<open>Attempts are bounded\<close>

text \<open>The handlers a run starts, and the points where it abandons a job.\<close>

definition starts :: "step list \<Rightarrow> nat" where
  "starts ss = length (filter (\<lambda>s. case s of Mark w \<Rightarrow> True | _ \<Rightarrow> False) ss)"

definition breaks :: "step list \<Rightarrow> nat" where
  "breaks ss = length (filter (\<lambda>s. case s of Cut w \<Rightarrow> True | Fail_Save w \<Rightarrow> True | _ \<Rightarrow> False) ss)"

lemma starts_Cons: "starts (s # ss) = starts [s] + starts ss"
  by (simp add: starts_def)

lemma breaks_Cons: "breaks (s # ss) = breaks [s] + breaks ss"
  by (simp add: breaks_def)

definition attempts_left :: "job_queue \<Rightarrow> nat" where
  "attempts_left q = (\<Sum>j\<leftarrow>jq_jobs q. attempt_limit j - j_attempts j)"

lemma sum_list_update_fun:
  "i < length xs \<Longrightarrow> (\<Sum>x\<leftarrow>xs[i := y]. f x) + f (xs ! i) = (\<Sum>x\<leftarrow>xs. f x) + (f y :: nat)"
proof (induction xs arbitrary: i)
  case (Cons x xs)
  show ?case
  proof (cases i)
    case (Suc k)
    with Cons.IH [of k] Cons.prems show ?thesis by simp
  qed simp
qed simp

lemma left_same: "i < length js \<Longrightarrow> f j = f (js ! i) \<Longrightarrow> (\<Sum>x\<leftarrow>js[i := j]. f x) = (\<Sum>x\<leftarrow>js. (f x :: nat))"
  using sum_list_update_fun [of i js f j] by simp

lemma run_step_measures:
  assumes inv: "queue_inv q" and run: "run_step s q = Some q'"
  shows "attempts_left q' + starts [s] = attempts_left q" and "\<exists>ds. jq_dropped q' = jq_dropped q @ ds \<and> length ds \<le> breaks [s]"
proof -
  have *: "attempts_left q' + starts [s] = attempts_left q \<and> (\<exists>ds. jq_dropped q' = jq_dropped q @ ds \<and> length ds \<le> breaks [s])"
  proof (cases "step_worker s")
    case (Some w)
    with run have w: "w < length (jq_workers q)" and ws: "worker_step s (w_at (jq_workers q ! w)) q = Some q'"
      by (cases s; auto simp: run_step_def split: if_splits)+
    note held = held_job [OF inv w refl]
    show ?thesis
    proof (cases "\<exists>v. s = Mark v")
      case True
      with Some ws obtain i where a: "s = Mark w" "w_at (jq_workers q ! w) = Starting i" "q' = set_worker w (Handling i) (mark_running i q)"
        by (auto split: activity.splits)
      then have i: "i < length (jq_jobs q)" "j_attempts (jq_jobs q ! i) < attempt_limit (jq_jobs q ! i)" using held by auto
      then show ?thesis
        using a sum_list_update_fun [OF i(1), of "\<lambda>j. attempt_limit j - j_attempts j"
            "(jq_jobs q ! i)\<lparr>j_row := Job_Running, j_attempts := j_attempts (jq_jobs q ! i) + 1\<rparr>"]
        by (simp add: attempts_left_def starts_def part_defs)
    next
      case False
      with Some ws held show ?thesis
        by (cases s) (auto simp: attempts_left_def starts_def breaks_def part_defs drop_work_def left_same
            split: activity.splits list.splits if_splits)
    qed
  next
    case None
    with run show ?thesis
      by (cases s) (auto simp: run_step_def attempts_left_def starts_def breaks_def start_queue_def stop_queue_def
          cancel_workers_def clear_workers_def split: if_splits)
  qed
  then show "attempts_left q' + starts [s] = attempts_left q" "\<exists>ds. jq_dropped q' = jq_dropped q @ ds \<and> length ds \<le> breaks [s]"
    by blast+
qed

lemma run_steps_measures:
  "queue_inv q \<Longrightarrow> run_steps ss q = Some q' \<Longrightarrow> queue_inv q' \<and> attempts_left q' + starts ss = attempts_left q \<and>
    (\<exists>ds. jq_dropped q' = jq_dropped q @ ds \<and> length ds \<le> breaks ss)"
proof (induction ss arbitrary: q)
  case (Cons s ss)
  from Cons.prems obtain q1 where q1: "run_step s q = Some q1" "run_steps ss q1 = Some q'"
    by (auto split: option.splits)
  note st = run_step_measures [OF Cons.prems(1) q1(1)]
  from Cons.IH [OF run_step_keeps [OF Cons.prems(1) q1(1)] q1(2)] st show ?case
    by (simp add: starts_Cons [of s ss] breaks_Cons [of s ss]) force
qed (simp add: starts_def)

lemma stage_limit: "holds a = [i] \<Longrightarrow> stage_ok a j \<Longrightarrow> j_attempts j \<le> attempt_limit j"
  by (cases a) (auto simp: untaken_def attempted_def)

lemma held_by: "i \<in> set (in_hands ps) \<Longrightarrow> \<exists>a \<in> set ps. holds a = [i]"
proof -
  assume "i \<in> set (in_hands ps)"
  then obtain a where "a \<in> set ps" "i \<in> set (holds a)" by (auto simp: in_hands_def)
  moreover from this(2) have "holds a = [i]" by (cases a) auto
  ultimately show ?thesis by blast
qed

text \<open>
  C27: No job is lost silently, run twice at once or retried beyond its limit. In every reachable
  queue each job is in exactly one place: queued once and pending; in the hands of one worker, with
  the status and row that the worker's place in \<open>_execute_job\<close> says; abandoned there by a worker that
  \<open>stop\<close> cancelled or a database error reached; or finished. It has been attempted at most
  \<open>max 1 max_retries\<close> times, exactly that often when it has failed for good. At most \<open>max_workers\<close> jobs
  execute at once, and the statistics count the queued, executing and completed jobs, the
  abandoned ones included.
\<close>

theorem job_queue_accounts_for_jobs:
  assumes "queue_reach registry n q" and "i < length (jq_jobs q)"
  shows "distinct (jq_queue q @ in_hands (map w_at (jq_workers q)) @ in_hands (jq_dropped q)) \<and>
    (i \<in> set (jq_queue q) \<and> untaken (jq_jobs q ! i) \<or>
     (\<exists>a \<in> set (map w_at (jq_workers q) @ jq_dropped q). holds a = [i] \<and> stage_ok a (jq_jobs q ! i)) \<or>
     finished (jq_jobs q ! i)) \<and>
    j_attempts (jq_jobs q ! i) \<le> max 1 (j_max_retries (jq_jobs q ! i)) \<and>
    length (filter in_semaphore (map w_at (jq_workers q))) \<le> jq_max_workers q \<and>
    jq_pending_stat q = int (length (jq_queue q)) + int (length (filter waits (map w_at (jq_workers q) @ jq_dropped q))) \<and>
    jq_running_stat q = int (length (filter in_semaphore (map w_at (jq_workers q) @ jq_dropped q))) \<and>
    rows_with Job_Completed (jq_jobs q)
      = jq_completed q + length (filter uncounted (map w_at (jq_workers q) @ jq_dropped q))"
proof -
  have inv: "jobs_inv (jq_jobs q) (jq_queue q) (places q)" "stats_inv q"
    using queue_reach_inv [OF assms(1)] by (simp_all add: queue_inv_def)
  have "i \<in> set (jq_queue q) \<and> untaken (jq_jobs q ! i) \<or>
      (\<exists>a \<in> set (places q). holds a = [i] \<and> stage_ok a (jq_jobs q ! i)) \<or> finished (jq_jobs q ! i)"
    using inv(1) assms(2) held_by [of i "places q"] unfolding jobs_inv_def by force
  moreover from this have "j_attempts (jq_jobs q ! i) \<le> attempt_limit (jq_jobs q ! i)"
    by (auto simp: untaken_def finished_def dest: stage_limit)
  ultimately show ?thesis
    using inv by (simp add: jobs_inv_def stats_inv_def places_def executing_def in_hands_def attempt_limit_def)
qed

text \<open>
  C28: Retrying ends. From a reachable queue the handlers are started only as often as the jobs
  have attempts left, whatever the handlers do, however the workers are scheduled, stopped and started
  again; and when no job is queued and no worker has one in its hands, every job is completed, or has
  failed with all its attempts used, or was abandoned. A job is abandoned only where the run has a
  cancellation or a database error.
\<close>

theorem job_queue_runs_dry:
  assumes "queue_reach registry n q" and "run_steps ss q = Some q'"
  shows "starts ss \<le> attempts_left q \<and> length (jq_dropped q') \<le> length (jq_dropped q) + breaks ss \<and>
    (jq_queue q' \<noteq> [] \<or> in_hands (map w_at (jq_workers q')) \<noteq> [] \<or>
     (\<forall>i < length (jq_jobs q').
        j_row (jq_jobs q' ! i) = Job_Completed \<or>
        j_row (jq_jobs q' ! i) = Job_Failed \<and> j_attempts (jq_jobs q' ! i) = max 1 (j_max_retries (jq_jobs q' ! i)) \<or>
        (\<exists>a \<in> set (jq_dropped q'). holds a = [i])))"
proof -
  note m = run_steps_measures [OF queue_reach_inv [OF assms(1)] assms(2)]
  have "j_row (jq_jobs q' ! i) = Job_Completed \<or>
      j_row (jq_jobs q' ! i) = Job_Failed \<and> j_attempts (jq_jobs q' ! i) = max 1 (j_max_retries (jq_jobs q' ! i)) \<or>
      (\<exists>a \<in> set (jq_dropped q'). holds a = [i])"
    if dry: "jq_queue q' = []" "in_hands (map w_at (jq_workers q')) = []" and i: "i < length (jq_jobs q')" for i
  proof -
    have "i \<in> set (in_hands (jq_dropped q')) \<or> finished (jq_jobs q' ! i)"
      using m dry i by (auto simp: queue_inv_def jobs_inv_def places_def in_hands_def)
    then show ?thesis using held_by by (auto simp: finished_def attempt_limit_def)
  qed
  then show ?thesis using m by auto
qed

section \<open>Stopping\<close>

text \<open>A job that a worker abandoned stays as the worker left it: nothing queues it again.\<close>

lemma abandoned_job_stays:
  assumes "queue_inv q" and "a \<in> set (jq_dropped q)" and "holds a = [i]" and "run_steps ss q = Some q'"
  shows "a \<in> set (jq_dropped q') \<and> stage_ok a (jq_jobs q' ! i)"
proof -
  note m = run_steps_measures [OF assms(1,4)]
  then have "a \<in> set (jq_dropped q')" using assms(2) by auto
  with m assms(3) show ?thesis by (auto simp: queue_inv_def jobs_inv_def places_def)
qed

definition waiting_workers :: "job_queue \<Rightarrow> nat" where
  "waiting_workers q = length (filter (\<lambda>a. a = Waiting) (map w_at (jq_workers q)))"

lemma waiting_move:
  assumes "w < length (jq_workers q)" and "jq_workers q' = (jq_workers q)[w := x]"
  shows "waiting_workers q' + tally (w_at (jq_workers q ! w) = Waiting) = waiting_workers q + tally (w_at x = Waiting)"
  unfolding waiting_workers_def using assms by (rule filter_move)

definition takes :: "step list \<Rightarrow> nat" where
  "takes ss = length (filter (\<lambda>s. case s of Take w \<Rightarrow> True | _ \<Rightarrow> False) ss)"

lemma takes_Cons: "takes (s # ss) = takes [s] + takes ss"
  by (simp add: takes_def)

lemma stopped_step:
  assumes "\<not> jq_running q" and "s \<noteq> Start" and run: "run_step s q = Some q'"
  shows "\<not> jq_running q' \<and> waiting_workers q' + takes [s] \<le> waiting_workers q \<and>
    (\<exists>more. jq_queue q' = drop (takes [s]) (jq_queue q) @ more)"
proof (cases "step_worker s")
  case (Some w)
  with run have w: "w < length (jq_workers q)" and ws: "worker_step s (w_at (jq_workers q ! w)) q = Some q'"
    by (cases s; auto simp: run_step_def split: if_splits)+
  from Some ws w assms(1) have run': "\<not> jq_running q'"
    and move: "jq_workers q' = (jq_workers q)[w := jq_workers q' ! w]"
    and wait: "tally (w_at (jq_workers q' ! w) = Waiting) + takes [s] \<le> tally (w_at (jq_workers q ! w) = Waiting)"
    by (cases s; simp add: takes_def tally_def part_defs drop_work_def split: activity.splits list.splits if_splits; force)+
  from Some ws have "jq_queue q' = drop (takes [s]) (jq_queue q) \<or> (\<exists>more. takes [s] = 0 \<and> jq_queue q' = jq_queue q @ more)"
    by (cases s; simp add: takes_def part_defs drop_work_def split: activity.splits list.splits if_splits; force)
  then have "\<exists>more. jq_queue q' = drop (takes [s]) (jq_queue q) @ more" by (metis append_Nil2 drop0)
  moreover have "waiting_workers q' + takes [s] \<le> waiting_workers q" using wait waiting_move [OF w move] by linarith
  ultimately show ?thesis using run' by blast
next
  case None
  with run assms show ?thesis
    by (cases s) (auto simp: run_step_def waiting_workers_def takes_def stop_queue_def cancel_workers_def clear_workers_def
        comp_def if_distrib cong: if_cong split: if_splits)
qed

lemma stopped_steps:
  "\<not> jq_running q \<Longrightarrow> Start \<notin> set ss \<Longrightarrow> run_steps ss q = Some q' \<Longrightarrow>
   takes ss \<le> waiting_workers q \<and> set (drop (waiting_workers q) (jq_queue q)) \<subseteq> set (jq_queue q')"
proof (induction ss arbitrary: q)
  case (Cons s ss)
  from Cons.prems obtain q1 where q1: "run_step s q = Some q1" "run_steps ss q1 = Some q'"
    by (auto split: option.splits)
  from stopped_step [OF Cons.prems(1) _ q1(1)] Cons.prems(2) obtain more where st: "\<not> jq_running q1"
      "waiting_workers q1 + takes [s] \<le> waiting_workers q" "jq_queue q1 = drop (takes [s]) (jq_queue q) @ more" by auto
  have ih: "takes ss \<le> waiting_workers q1 \<and> set (drop (waiting_workers q1) (jq_queue q1)) \<subseteq> set (jq_queue q')"
    using Cons.IH [OF st(1) _ q1(2)] Cons.prems(2) by simp
  have "waiting_workers q = (waiting_workers q - takes [s]) + takes [s]" using st(2) by simp
  then have "drop (waiting_workers q) (jq_queue q) = drop (waiting_workers q - takes [s]) (drop (takes [s]) (jq_queue q))"
    by (metis drop_drop)
  then have "set (drop (waiting_workers q) (jq_queue q)) \<subseteq> set (drop (waiting_workers q1) (drop (takes [s]) (jq_queue q)))"
    using st(2) by (simp add: set_drop_subset_set_drop)
  also have "\<dots> \<subseteq> set (drop (waiting_workers q1) (jq_queue q1))" by (simp add: st(3))
  finally show ?case using ih st(2) takes_Cons [of s ss] by auto
qed (simp add: takes_def set_drop_subset)

text \<open>
  Stopping does not drain the queue. After \<open>stop\<close> has cleared the flag, and until \<open>start\<close> is called again, a worker takes
  another job only if it was already waiting for one; every job behind the first ones the waiting
  workers can take stays in the queue, pending.
\<close>

theorem stop_strands_queued_jobs:
  assumes "queue_reach registry n q" and "jq_running q" and "Start \<notin> set ss" and "run_steps ss (stop_queue q) = Some q'"
    and "i \<in> set (drop (waiting_workers q) (jq_queue q))"
  shows "takes ss \<le> waiting_workers q \<and> i \<in> set (jq_queue q') \<and> untaken (jq_jobs q' ! i)"
proof -
  have same: "\<not> jq_running (stop_queue q)" "waiting_workers (stop_queue q) = waiting_workers q" "jq_queue (stop_queue q) = jq_queue q"
    using assms(2) by (simp_all add: stop_queue_def waiting_workers_def)
  note st = stopped_steps [OF same(1) assms(3,4), unfolded same]
  have "run_step Stop q = Some (stop_queue q)" by (simp add: run_step_def)
  then have "queue_inv (stop_queue q)" using run_step_keeps queue_reach_inv [OF assms(1)] by blast
  with run_steps_measures assms(4) have "queue_inv q'" by blast
  with st assms(5) show ?thesis by (auto simp: queue_inv_def jobs_inv_def)
qed

section \<open>A sample run\<close>

definition sample_queue :: job_queue where
  "sample_queue = \<lparr>jq_running = True, jq_max_workers = 1, jq_workers = [new_worker], jq_stopping = 0, jq_gathering = [], jq_queue = [0, 1],
     jq_jobs = [\<lparr>j_name = ''export'', j_status = Job_Pending, j_row = Job_Pending, j_attempts = 0, j_max_retries = 2\<rparr>,
       \<lparr>j_name = ''export'', j_status = Job_Pending, j_row = Job_Pending, j_attempts = 0, j_max_retries = 2\<rparr>],
     jq_enqueued = 2, jq_completed = 0, jq_failed = 0, jq_pending_stat = 2, jq_running_stat = 0, jq_dropped = []\<rparr>"

lemma sample_queue_reach: "queue_reach {''export''} 1 sample_queue"
proof -
  let ?q1 = "snd (projr (enqueue_job {''export''} ''export'' 2 (new_queue 1)))"
  let ?q2 = "snd (projr (enqueue_job {''export''} ''export'' 2 ?q1))"
  have "queue_reach {''export''} 1 ?q1"
    by (rule queue_reach.step [OF queue_reach.init queue_step.enqueue [where i = 0 and name = "''export''" and max_retries = 2]])
      (simp add: enqueue_job_def get_job_handler_def new_queue_def)
  then have "queue_reach {''export''} 1 ?q2"
    by (rule queue_reach.step [OF _ queue_step.enqueue [where i = 1 and name = "''export''" and max_retries = 2]])
      (simp add: enqueue_job_def get_job_handler_def new_queue_def)
  then have "queue_reach {''export''} 1 (start_queue ?q2)"
    by (rule queue_reach.step [OF _ queue_step.run [where s = Start]]) (simp add: run_step_def)
  then show ?thesis
    by (simp add: enqueue_job_def get_job_handler_def new_queue_def start_queue_def sample_queue_def numeral_2_eq_2)
qed

text \<open>The worker runs one job to its end; it takes the next one.\<close>

definition one_job :: "bool \<Rightarrow> step list" where
  "one_job ok = [Loop 0, Take 0, Enter 0, Mark 0, Finish_Job 0 ok, Save 0, Put 0, Count 0]"

lemmas run_defs = run_step_def part_defs drop_work_def executing_def should_retry_def sample_queue_def new_worker_def one_job_def

theorem job_queue_accounts_for_jobs_witness:
  "(untaken (jq_jobs sample_queue ! 0) \<or> finished (jq_jobs sample_queue ! 0)) \<and> jq_pending_stat sample_queue = 2"
  using job_queue_accounts_for_jobs [OF sample_queue_reach, of 0] by (auto simp: sample_queue_def new_worker_def)

theorem job_queue_runs_dry_witness:
  "\<exists>q'. run_steps (one_job False @ one_job True @ one_job False) sample_queue = Some q' \<and>
      map j_row (jq_jobs q') = [Job_Failed, Job_Completed] \<and> (3::nat) \<le> attempts_left sample_queue"
proof -
  let ?ss = "one_job False @ one_job True @ one_job False"
  obtain q' where q': "run_steps ?ss sample_queue = Some q'" "map j_row (jq_jobs q') = [Job_Failed, Job_Completed]"
    by (simp add: run_defs)
  have "starts ?ss = 3" by (simp add: starts_def one_job_def)
  then show ?thesis using job_queue_runs_dry [OF sample_queue_reach q'(1)] q' by auto
qed

theorem stop_strands_queued_jobs_witness:
  "\<exists>q'. run_steps [Loop 0] (stop_queue sample_queue) = Some q' \<and> jq_queue q' = [0, 1] \<and> untaken (jq_jobs q' ! 1)"
proof -
  obtain q' where q': "run_steps [Loop 0] (stop_queue sample_queue) = Some q'" "jq_queue q' = [0, 1]"
    by (simp add: run_defs stop_queue_def)
  have "waiting_workers sample_queue = 0" by (simp add: waiting_workers_def sample_queue_def new_worker_def)
  then have "1 \<in> set (drop (waiting_workers sample_queue) (jq_queue sample_queue))" by (simp add: sample_queue_def)
  from stop_strands_queued_jobs [OF sample_queue_reach _ _ q'(1) this] q' show ?thesis by (auto simp: sample_queue_def)
qed

text \<open>
  \<open>stop\<close> while a handler runs longer than it waits: the worker is cut off in the handler, the row of its
  job stays running for good, and the statistics keep counting it.
\<close>

lemma stop_cuts_a_running_job:
  "\<exists>q'. run_steps [Loop 0, Take 0, Enter 0, Mark 0, Stop, Cancel, Cut 0, Clear [0]] sample_queue = Some q' \<and>
     map w_at (jq_workers q') = [Gone] \<and> jq_dropped q' = [Handling 0] \<and> jq_running_stat q' = 1 \<and>
     (\<forall>ss q''. run_steps ss q' = Some q'' \<longrightarrow> j_row (jq_jobs q'' ! 0) = Job_Running)"
proof -
  obtain q' where q': "run_steps [Loop 0, Take 0, Enter 0, Mark 0, Stop, Cancel, Cut 0, Clear [0]] sample_queue = Some q'"
      "map w_at (jq_workers q') = [Gone]" "jq_dropped q' = [Handling 0]" "jq_running_stat q' = 1"
    by (simp add: run_defs stop_queue_def cancel_workers_def clear_workers_def)
  have inv: "queue_inv q'" using run_steps_measures [OF queue_reach_inv [OF sample_queue_reach] q'(1)] by blast
  have "j_row (jq_jobs q'' ! 0) = Job_Running" if "run_steps ss q' = Some q''" for ss q''
    using abandoned_job_stays [OF inv, of "Handling 0" 0 ss q''] q'(3) that by simp
  with q' show ?thesis by (intro exI [of _ q'] conjI allI impI) auto
qed

end
