(* ===== verification/Fractional_Amounts.thy ===== *)
theory Fractional_Amounts
  imports Receivables_Report Payment_History
begin

text \<open>
  Why the properties of whole runs ask for amounts in whole cents. The pay route accepts every
  positive \<open>Decimal\<close> (\<open>schemas/order.py\<close>, \<open>PayOrderRequest.amount\<close>); the money columns keep two decimals,
  and the payment, the hold and the balance of the binding are rounded apart from each other. The
  runs below are requests the program accepts, after which the properties fail.
\<close>

definition fractional_pay :: "pay_method \<Rightarrow> money \<Rightarrow> string \<Rightarrow> request" where
  "fractional_pay m q key = Pay_Order (Canonical 1000) (Some 9)
     (Some \<lparr>f_method = Some m, f_amount = Some (Finite q), f_transaction = None, f_notes = None\<rparr>) (Some key)"

lemmas pay_route_defs = fractional_pay_def pay_order_def pay_input_ok_def validate_payment_notes_unsupported_def
  payment_method_value_def validate_idempotency_key_def strip_def is_space_def idempotency_key_min_length_def
  idempotency_key_max_length_def idempotency_key_allowed_char_def reserved_idempotency_key_prefix_def map_error_def payment_run_defs

lemma floor_ratio:
  "\<lfloor>numeral a / numeral b :: rat\<rfloor> = numeral a div numeral b" "\<lfloor>1 / numeral b :: rat\<rfloor> = 1 div numeral b"
  by (metis floor_divide_of_int_eq of_int_numeral) (metis floor_divide_of_int_eq of_int_numeral of_int_1)

lemmas money_view_defs = floor_ratio tenant_defs numeric_scale_def occupation_def order_exposure_def order_holds_def credit_total_def credit_owed_def
  live_order_def get_order_paid_total_def get_order_method_total_def order_payments_def

lemmas receivable_view_defs = get_receivables_summary_def summary_bindings_def summary_orders_def list_receivable_orders_def
  receivable_filter_def receivable_statuses_def sample_directory_def blank_to_none_def page_slice_def retailer_row_def
  retailer_holds_def hold_order_def display_name_def credit_exposure_def assert_history_integrity_def

text \<open>
  33.335 in cash on an order of 150: the payment is stored as 33.34, the hold keeps 116.67, so what
  is paid and what is held add up to a cent more than the order (against C5).
\<close>

lemma fraction_splits_payment_and_hold:
  "\<exists>db. serve (fractional_pay Cash (33335 / 1000) ''pay-fraction-1'') tenant_confirmed = Inr db \<and>
     get_order_paid_total db 1000 = 3334 / 100 \<and> map h_remaining (t_holds db) = [11667 / 100] \<and>
     map b_balance (t_bindings db) = [11667 / 100]"
  by (simp add: pay_route_defs money_view_defs Let_def)

text \<open>
  The same collection on a credit sale: the balance keeps 116.67, the orders owe 116.66 (against C1),
  and the receivables summary reports both figures side by side (against C19).
\<close>

lemma fraction_splits_balance_and_exposure:
  "\<exists>db. bindE (serve (fractional_pay Credit 150 ''pay-credit-1'') tenant_confirmed)
       (serve (fractional_pay Cash (33335 / 1000) ''pay-fraction-1'')) = Inr db \<and>
     map b_balance (t_bindings db) = [11667 / 100] \<and> occupation db 7 8 = 11666 / 100 \<and>
     (\<exists>s. get_receivables_summary sample_directory db 7 = Inr s \<and>
        map q_outstanding (q_by_retailer s) = [11667 / 100] \<and> map q_credit (q_by_retailer s) = [11666 / 100])"
  by (simp add: pay_route_defs money_view_defs receivable_view_defs Let_def)

text \<open>
  A tenth of a cent: the payment is accepted and stored as 0.00 (against C24), and from then on the
  payment history contract refuses the order (against C21).
\<close>

lemma fraction_breaks_payment_history:
  "\<exists>db e. serve (fractional_pay Cash (1 / 1000) ''pay-fraction-1'') tenant_confirmed = Inr db \<and>
     map p_amount (t_payments db) = [0] \<and> assert_valid_payment_history db [1000] = Inl e"
  by (simp add: pay_route_defs money_view_defs Let_def)

text \<open>So the receivables summary and list of that tenant are refused (against C19 and C20).\<close>

lemma fraction_blocks_receivables:
  "\<exists>db e e'. serve (fractional_pay Cash (1 / 1000) ''pay-fraction-1'') tenant_confirmed = Inr db \<and>
     get_receivables_summary sample_directory db 7 = Inl e \<and> list_receivable_orders sample_directory db 7 1 10 None None None = Inl e'"
  by (simp add: pay_route_defs money_view_defs receivable_view_defs Let_def)

end
