(* ===== verification/Redaction.thy ===== *)
theory Redaction
  imports Text_Codec
begin

text \<open>
  What the platform services may store, audit or echo of a client's text
  (\<open>api/v1/platform/p18/services.py\<close>): the two regular expressions for secret values and for hosts with
  ports, the redaction of reasons, of other texts and of metadata. Characters are those below 256.
\<close>

section \<open>Characters\<close>

definition lowered :: "string \<Rightarrow> string" where
  "lowered s = map (\<lambda>c. let n = (of_char c :: nat) in if 65 \<le> n \<and> n \<le> 90 then char_of (n + 32) else c) s"

definition is_letter :: "char \<Rightarrow> bool" where
  "is_letter c \<longleftrightarrow> (let n = (of_char c :: nat) in 65 \<le> n \<and> n \<le> 90 \<or> 97 \<le> n \<and> n \<le> 122)"

text \<open>\<open>\w\<close>: letters, digits and the underscore, with those of Latin-1.\<close>

definition word_char :: "char \<Rightarrow> bool" where
  "word_char c \<longleftrightarrow> is_letter c \<or> is_ascii_digit c \<or> c = CHR ''_'' \<or>
     (let n = (of_char c :: nat) in n \<in> {170, 178, 179, 181, 185, 186, 188, 189, 190} \<or> 192 \<le> n \<and> n \<noteq> 215 \<and> n \<noteq> 247)"

definition host_char :: "char \<Rightarrow> bool" where
  "host_char c \<longleftrightarrow> is_letter c \<or> is_ascii_digit c \<or> c = CHR ''.'' \<or> c = CHR ''-''"

section \<open>Sensitive texts\<close>

fun occurs :: "string \<Rightarrow> string \<Rightarrow> bool" where
  "occurs w [] \<longleftrightarrow> w = []"
| "occurs w (c # s) \<longleftrightarrow> take (length w) (c # s) = w \<or> occurs w s"

definition sensitive_keys :: "string list" where
  "sensitive_keys = [''password'', ''passwd'', ''secret'', ''token'', ''apikey'', ''api_key'', ''api-key'', ''accesskey'',
     ''access_key'', ''access-key'', ''credential'', ''dsn'', ''host'', ''port'', ''url'', ''uri'', ''connection'', ''string'',
     ''privatekey'', ''private_key'', ''private-key'']"

text \<open>The connection schemes of the expression all contain \<open>://\<close>, which is an alternative of its own.\<close>

definition sensitive_values :: "string list" where
  "sensitive_values = [''password'', ''passwd'', ''secret'', ''token'', ''apikey'', ''api_key'', ''api-key'', ''accesskey'',
     ''access_key'', ''access-key'', ''credential'', ''dsn'', ''://'', ''@'']"

definition sensitive_key :: "string \<Rightarrow> bool" where
  "sensitive_key s \<longleftrightarrow> list_ex (\<lambda>w. occurs w (lowered s)) sensitive_keys"

definition sensitive_val :: "string \<Rightarrow> bool" where
  "sensitive_val s \<longleftrightarrow> list_ex (\<lambda>w. occurs w (lowered s)) sensitive_values"

text \<open>
  \<open>\b\d{1,3}(?:\.\d{1,3}){3}(?::\d{2,5})?\b\<close> at the start of a text: the groups are the maximal runs of
  digits, and the optional port adds no match, because a colon after the last group is a boundary.
\<close>

fun dotted :: "nat \<Rightarrow> string \<Rightarrow> string option" where
  "dotted n s = (let d = takeWhile is_ascii_digit s; r = dropWhile is_ascii_digit s in
     if length d < 1 \<or> 3 < length d then None
     else case n of 0 \<Rightarrow> Some r
       | Suc m \<Rightarrow> (case r of [] \<Rightarrow> None | c # r' \<Rightarrow> if c = CHR ''.'' then dotted m r' else None))"

declare dotted.simps [simp del]

definition boundary :: "string \<Rightarrow> bool" where
  "boundary r \<longleftrightarrow> (case r of [] \<Rightarrow> True | c # _ \<Rightarrow> \<not> word_char c)"

definition ip_here :: "string \<Rightarrow> bool" where
  "ip_here s \<longleftrightarrow> (case dotted 3 s of None \<Rightarrow> False | Some r \<Rightarrow> boundary r)"

text \<open>\<open>\b[a-z][a-z0-9.-]*[a-z0-9]:\d{2,5}\b\<close> at the start of a text.\<close>

definition host_here :: "string \<Rightarrow> bool" where
  "host_here s \<longleftrightarrow> (let run = takeWhile host_char s; r = dropWhile host_char s in
     2 \<le> length run \<and> is_letter (hd run) \<and> (is_letter (last run) \<or> is_ascii_digit (last run)) \<and>
     (case r of [] \<Rightarrow> False
      | c # r' \<Rightarrow> c = CHR '':'' \<and>
          (let d = takeWhile is_ascii_digit r' in 2 \<le> length d \<and> length d \<le> 5 \<and> boundary (dropWhile is_ascii_digit r'))))"

fun scan_host :: "bool \<Rightarrow> string \<Rightarrow> bool" where
  "scan_host after_word [] = False"
| "scan_host after_word (c # s) = (\<not> after_word \<and> (ip_here (c # s) \<or> host_here (c # s)) \<or> scan_host (word_char c) s)"

definition reason_is_sensitive :: "string \<Rightarrow> bool" where
  "reason_is_sensitive s \<longleftrightarrow> s \<noteq> [] \<and> (sensitive_val s \<or> scan_host False s)"

section \<open>Redaction\<close>

definition redacted_text :: string where
  "redacted_text = ''[redacted]''"

definition redact_reason :: "string \<Rightarrow> string" where
  "redact_reason s = (if reason_is_sensitive s then redacted_text else s)"

definition sanitize_text :: "string option \<Rightarrow> string option" where
  "sanitize_text v = map_option (\<lambda>s. if reason_is_sensitive s then redacted_text else s) v"

datatype json = J_Text string | J_Dict "(string \<times> json) list" | J_Array "json list" | J_Other int

fun redact_node :: "string option \<Rightarrow> json \<Rightarrow> json" where
  "redact_node key v =
     (if (case key of None \<Rightarrow> False | Some k \<Rightarrow> sensitive_key k) then J_Text redacted_text
      else case v of
          J_Text s \<Rightarrow> if sensitive_val s then J_Text redacted_text else J_Text s
        | J_Dict kvs \<Rightarrow> J_Dict (map (\<lambda>(k, x). (k, redact_node (Some k) x)) kvs)
        | J_Array vs \<Rightarrow> J_Array (map (redact_node None) vs)
        | J_Other n \<Rightarrow> J_Other n)"

declare redact_node.simps [simp del]

definition redact_metadata :: "(string \<times> json) list option \<Rightarrow> (string \<times> json) list option" where
  "redact_metadata md =
     (case md of None \<Rightarrow> None | Some [] \<Rightarrow> None | Some kvs \<Rightarrow> Some (map (\<lambda>(k, x). (k, redact_node (Some k) x)) kvs))"

section \<open>Nothing sensitive is left\<close>

lemma redacted_text_safe [simp]: "\<not> sensitive_val redacted_text" "\<not> reason_is_sensitive redacted_text"
proof -
  show val: "\<not> sensitive_val redacted_text"
    by (simp add: sensitive_val_def sensitive_values_def redacted_text_def lowered_def)
  have "\<not> scan_host False redacted_text"
    by (simp add: redacted_text_def ip_here_def dotted.simps host_here_def host_char_def is_letter_def is_ascii_digit_def
        word_char_def boundary_def)
  with val show "\<not> reason_is_sensitive redacted_text" by (simp add: reason_is_sensitive_def)
qed

lemma redact_reason_safe [simp]: "\<not> reason_is_sensitive (redact_reason s)"
  by (simp add: redact_reason_def)

lemma redact_reason_idem [simp]: "redact_reason (redact_reason s) = redact_reason s"
  by (simp add: redact_reason_def)

lemma sanitize_text_safe: "sanitize_text v = Some s \<Longrightarrow> \<not> reason_is_sensitive s"
  by (auto simp: sanitize_text_def split: if_splits)

lemma sanitize_text_idem [simp]: "sanitize_text (sanitize_text v) = sanitize_text v"
  by (cases v) (simp_all add: sanitize_text_def)

text \<open>No text under a sensitive key, and no sensitive text anywhere.\<close>

fun leaks :: "string option \<Rightarrow> json \<Rightarrow> bool" where
  "leaks key v \<longleftrightarrow>
     (case key of None \<Rightarrow> False | Some k \<Rightarrow> sensitive_key k) \<and> v \<noteq> J_Text redacted_text \<or>
     (case v of J_Text s \<Rightarrow> sensitive_val s
      | J_Dict kvs \<Rightarrow> list_ex (\<lambda>(k, x). leaks (Some k) x) kvs
      | J_Array vs \<Rightarrow> list_ex (leaks None) vs
      | J_Other n \<Rightarrow> False)"

declare leaks.simps [simp del]

lemma redact_node_no_leak: "\<not> leaks key (redact_node key v)"
proof (induction key v rule: redact_node.induct)
  case (1 key v)
  show ?case
  proof (cases "case key of None \<Rightarrow> False | Some k \<Rightarrow> sensitive_key k")
    case True
    then show ?thesis by (simp add: redact_node.simps leaks.simps)
  next
    case False
    show ?thesis
    proof (cases v)
      case (J_Dict kvs)
      then have "\<not> list_ex (\<lambda>(k, x). leaks (Some k) x) (map (\<lambda>(k, x). (k, redact_node (Some k) x)) kvs)"
        using 1(1) [OF False J_Dict] by (fastforce simp: list_ex_iff)
      then show ?thesis using False J_Dict by (simp add: redact_node.simps [of key "J_Dict kvs"] leaks.simps [of key])
    next
      case (J_Array vs)
      then have "\<not> list_ex (leaks None) (map (redact_node None) vs)"
        using 1(2) [OF False J_Array] by (auto simp: list_ex_iff)
      then show ?thesis using False J_Array by (simp add: redact_node.simps [of key "J_Array vs"] leaks.simps [of key])
    qed (use False in \<open>simp_all add: redact_node.simps leaks.simps\<close>)
  qed
qed

lemma redact_metadata_no_leak: "redact_metadata md = Some kvs \<Longrightarrow> (k, x) \<in> set kvs \<Longrightarrow> \<not> leaks (Some k) x"
  using redact_node_no_leak by (auto simp: redact_metadata_def split: option.splits list.splits)

end
