(* ===== verification/Controlled_Actions.thy ===== *)
theory Controlled_Actions
  imports Redaction "HOL-Library.AList"
begin

text \<open>
  Requests for controlled platform actions (\<open>api/v1/platform/p18/services.py\<close>): the closed catalogue, the
  source status of the registry an action targets, and the request that is validated, deduplicated by
  its idempotency key, redacted and recorded in process memory, never executed. The digest (SHA-256)
  and what a read of the registry gives are arguments; dictionaries are association lists in
  insertion order; times are seconds.
\<close>

section \<open>Texts\<close>

text \<open>\<open>str\<close> of a UUID, and the text of an identifier as the caller spelled it.\<close>

definition uuid_text :: "uuid \<Rightarrow> string" where
  "uuid_text u = (let h = uuid_hex u in
     concat [take 8 h, ''-'', take 4 (drop 8 h), ''-'', take 4 (drop 12 h), ''-'', take 4 (drop 16 h), ''-'', drop 20 h])"

fun text_of :: "id_text \<Rightarrow> string" where
  "text_of (Canonical u) = uuid_text u"
| "text_of (Spelled u s) = s"
| "text_of (Malformed s) = s"

text \<open>\<open>x or ""\<close> and \<open>(x or "").strip()\<close>.\<close>

definition or_blank :: "string option \<Rightarrow> string" where
  "or_blank v = (case v of None \<Rightarrow> [] | Some s \<Rightarrow> s)"

definition id_or_blank :: "id_text option \<Rightarrow> string" where
  "id_or_blank v = (case v of None \<Rightarrow> [] | Some t \<Rightarrow> text_of t)"

definition given_id :: "id_text option \<Rightarrow> id_text option" where
  "given_id v = (case v of None \<Rightarrow> None | Some t \<Rightarrow> if text_of t = [] then None else Some t)"

definition stripped :: "string option \<Rightarrow> string" where
  "stripped v = strip (or_blank v)"

text \<open>\<open>"|".join\<close>.\<close>

fun bar_join :: "string list \<Rightarrow> string" where
  "bar_join [] = []"
| "bar_join [s] = s"
| "bar_join (s # t # ss) = s @ CHR ''|'' # bar_join (t # ss)"

section \<open>The catalogue\<close>

datatype action_class = Read_Class | Write_Class | Write_Request_Class

record action_item =
  ai_type :: string
  ai_class :: action_class
  ai_actors :: "string list"
  ai_confirmation :: bool
  ai_degraded :: bool

definition super_only :: "string list" where "super_only = [''super_admin'']"
definition with_support :: "string list" where "with_support = [''super_admin'', ''support_operator'']"
definition with_engineering :: "string list" where "with_engineering = [''super_admin'', ''engineering_operator'']"

definition action_catalog :: "action_item list" where
  "action_catalog =
     [\<lparr>ai_type = ''support_mode.on'', ai_class = Write_Class, ai_actors = with_support, ai_confirmation = True, ai_degraded = False\<rparr>,
      \<lparr>ai_type = ''support_mode.off'', ai_class = Write_Class, ai_actors = with_support, ai_confirmation = True, ai_degraded = False\<rparr>,
      \<lparr>ai_type = ''tenant.pause'', ai_class = Write_Class, ai_actors = super_only, ai_confirmation = True, ai_degraded = False\<rparr>,
      \<lparr>ai_type = ''tenant.resume'', ai_class = Write_Class, ai_actors = super_only, ai_confirmation = True, ai_degraded = False\<rparr>,
      \<lparr>ai_type = ''incident.flag_set'', ai_class = Write_Class, ai_actors = super_only, ai_confirmation = True, ai_degraded = False\<rparr>,
      \<lparr>ai_type = ''incident.flag_clear'', ai_class = Write_Class, ai_actors = super_only, ai_confirmation = True, ai_degraded = False\<rparr>,
      \<lparr>ai_type = ''provisioning.recheck'', ai_class = Read_Class, ai_actors = with_engineering, ai_confirmation = False, ai_degraded = True\<rparr>,
      \<lparr>ai_type = ''backup.check'', ai_class = Read_Class, ai_actors = with_engineering, ai_confirmation = False, ai_degraded = True\<rparr>,
      \<lparr>ai_type = ''backup.restore_test_request'', ai_class = Write_Request_Class, ai_actors = super_only, ai_confirmation = True, ai_degraded = False\<rparr>,
      \<lparr>ai_type = ''lifecycle.transition'', ai_class = Write_Class, ai_actors = super_only, ai_confirmation = True, ai_degraded = False\<rparr>]"

definition item_for :: "string \<Rightarrow> action_item option" where
  "item_for t = row_find ai_type t action_catalog"

definition known_action_type :: "string \<Rightarrow> bool" where
  "known_action_type t \<longleftrightarrow> t \<in> set (map ai_type action_catalog)"

section \<open>The source of an action\<close>

datatype source_status = Available | Unavailable | Unknown_Status

text \<open>The source statuses in a \<open>PlatformTenantRegistry\<close>.\<close>

record registry =
  rg_lifecycle :: source_status
  rg_flags :: source_status
  rg_provisioning :: "source_status option"
  rg_backup :: "source_status option"
  rg_registry :: source_status

definition lifecycle_actions :: "string list" where
  "lifecycle_actions = [''tenant.pause'', ''tenant.resume'', ''lifecycle.transition'']"

definition flag_actions :: "string list" where
  "flag_actions = [''support_mode.on'', ''support_mode.off'', ''incident.flag_set'', ''incident.flag_clear'']"

definition provisioning_action :: string where "provisioning_action = ''provisioning.recheck''"

definition backup_actions :: "string list" where
  "backup_actions = [''backup.check'', ''backup.restore_test_request'']"

definition action_source_status :: "string \<Rightarrow> registry \<Rightarrow> source_status" where
  "action_source_status t rg =
     (if t \<in> set lifecycle_actions then rg_lifecycle rg
      else if t \<in> set flag_actions then rg_flags rg
      else if t = provisioning_action then (case rg_provisioning rg of Some s \<Rightarrow> s | None \<Rightarrow> Unavailable)
      else if t \<in> set backup_actions then (case rg_backup rg of Some s \<Rightarrow> s | None \<Rightarrow> Unavailable)
      else rg_registry rg)"

text \<open>What a read of the registry gives: \<open>None\<close> when there is none or the read failed.\<close>

type_synonym registry_reader = "id_text \<Rightarrow> registry option"

definition resolve_action_source_status :: "registry_reader \<Rightarrow> string \<Rightarrow> id_text option \<Rightarrow> source_status" where
  "resolve_action_source_status reg t tenant =
     (case given_id tenant of None \<Rightarrow> Unknown_Status
      | Some tid \<Rightarrow> (case reg tid of None \<Rightarrow> Unknown_Status | Some rg \<Rightarrow> action_source_status t rg))"

section \<open>Recorded requests\<close>

datatype action_result = Act_Accepted | Act_Denied | Act_Degraded | Act_Duplicate | Act_Conflict

record stored_request =
  q_action_id :: id_text
  q_type :: string
  q_tenant :: "id_text option"
  q_reason :: string
  q_key :: string
  q_state :: "string option"
  q_result :: action_result
  q_source :: source_status
  q_created :: nat
  q_fingerprint :: string
  q_correlation :: "string option"
  q_metadata :: "(string \<times> json) list option"

text \<open>\<open>_STORE\<close>, \<open>_STORE_BY_ACTION_ID\<close>, and the UUIDs \<open>uuid4\<close> will draw.\<close>

record action_store =
  as_by_key :: "(string \<times> stored_request) list"
  as_by_id :: "(id_text \<times> stored_request) list"
  as_uuids :: "nat \<Rightarrow> uuid"
  as_drawn :: nat

definition fingerprint :: "(string \<Rightarrow> string) \<Rightarrow> string \<Rightarrow> id_text option \<Rightarrow> string option \<Rightarrow> string \<Rightarrow> string" where
  "fingerprint sha t tenant state reason = sha (bar_join [t, id_or_blank tenant, or_blank state, reason])"

text \<open>What is echoed of an action type: a known one, and another one unless it is sensitive.\<close>

definition sanitize_action_type :: "string \<Rightarrow> string" where
  "sanitize_action_type t =
     (if known_action_type t then t else if reason_is_sensitive t then redacted_text else t)"

text \<open>The response; \<open>previous_state\<close> is always null and the message is left out.\<close>

record action_response =
  ar_action_id :: "id_text option"
  ar_type :: string
  ar_result :: action_result
  ar_executed :: bool
  ar_dry_run :: bool
  ar_reason :: string
  ar_key :: string
  ar_state :: "string option"
  ar_source :: source_status
  ar_degraded :: bool
  ar_metadata :: "(string \<times> json) list option"
  ar_correlation :: "string option"
  ar_created :: nat

record action_input =
  ip_type :: string
  ip_tenant :: "id_text option"
  ip_reason :: "string option"
  ip_key :: "string option"
  ip_state :: "string option"
  ip_confirm :: bool
  ip_correlation :: "string option"
  ip_metadata :: "(string \<times> json) list option"

text \<open>The response that echoes the request at hand.\<close>

definition echo_request :: "nat \<Rightarrow> action_input \<Rightarrow> action_response" where
  "echo_request now inp =
     \<lparr>ar_action_id = None, ar_type = sanitize_action_type (ip_type inp), ar_result = Act_Denied, ar_executed = False,
      ar_dry_run = False, ar_reason = redact_reason (stripped (ip_reason inp)),
      ar_key = or_blank (sanitize_text (Some (stripped (ip_key inp)))), ar_state = sanitize_text (ip_state inp),
      ar_source = Unknown_Status, ar_degraded = False, ar_metadata = redact_metadata (ip_metadata inp),
      ar_correlation = sanitize_text (ip_correlation inp), ar_created = now\<rparr>"

definition stored_response :: "stored_request \<Rightarrow> action_response" where
  "stored_response rec =
     \<lparr>ar_action_id = Some (q_action_id rec), ar_type = q_type rec, ar_result = q_result rec, ar_executed = False,
      ar_dry_run = False, ar_reason = q_reason rec, ar_key = q_key rec, ar_state = q_state rec, ar_source = q_source rec,
      ar_degraded = False, ar_metadata = q_metadata rec, ar_correlation = q_correlation rec, ar_created = q_created rec\<rparr>"

definition get_stored_request :: "id_text \<Rightarrow> action_store \<Rightarrow> action_response option" where
  "get_stored_request aid st = map_option stored_response (map_of (as_by_id st) aid)"

definition list_stored_requests :: "int \<Rightarrow> int \<Rightarrow> action_store \<Rightarrow> action_response list \<times> nat" where
  "list_stored_requests limit offset st =
     (let safe_limit = max 1 (min limit 100); safe_offset = max 0 offset;
          records = sort_key (\<lambda>rec. - int (q_created rec)) (map snd (as_by_id st))
      in (map stored_response (take (nat safe_limit) (drop (nat safe_offset) records)), length records))"

section \<open>Evaluating a request\<close>

definition record_request ::
  "(string \<Rightarrow> string) \<Rightarrow> nat \<Rightarrow> source_status \<Rightarrow> action_input \<Rightarrow> action_store \<Rightarrow> action_response \<times> action_store" where
  "record_request sha now source inp st =
     (let echo = echo_request now inp; aid = Canonical (as_uuids st (as_drawn st));
          fp = fingerprint sha (ip_type inp) (ip_tenant inp) (ip_state inp) (stripped (ip_reason inp));
          rec = \<lparr>q_action_id = aid, q_type = ar_type echo, q_tenant = ip_tenant inp, q_reason = ar_reason echo,
                 q_key = ar_key echo, q_state = ar_state echo, q_result = Act_Accepted, q_source = source,
                 q_created = now, q_fingerprint = fp, q_correlation = ar_correlation echo, q_metadata = ar_metadata echo\<rparr>
      in (echo\<lparr>ar_result := Act_Accepted, ar_source := source, ar_action_id := Some aid\<rparr>,
          st\<lparr>as_by_key := AList.update (stripped (ip_key inp)) rec (as_by_key st),
             as_by_id := AList.update aid rec (as_by_id st), as_drawn := Suc (as_drawn st)\<rparr>))"

definition evaluate_request ::
  "(string \<Rightarrow> string) \<Rightarrow> registry_reader \<Rightarrow> nat \<Rightarrow> bool \<Rightarrow> action_input \<Rightarrow> action_store \<Rightarrow> action_response \<times> action_store" where
  "evaluate_request sha reg now persist inp st =
     (let raw_reason = stripped (ip_reason inp); raw_key = stripped (ip_key inp);
          echo = echo_request now inp; denied = (\<lambda>source. (echo\<lparr>ar_dry_run := \<not> persist, ar_source := source\<rparr>, st))
      in if raw_reason = [] then denied Unknown_Status
         else if raw_key = [] then denied Unknown_Status
         else case item_for (ip_type inp) of
           None \<Rightarrow> denied Unknown_Status
         | Some item \<Rightarrow>
             if ai_confirmation item \<and> \<not> ip_confirm inp then denied Unknown_Status
             else
               (let source = resolve_action_source_status reg (ip_type inp) (ip_tenant inp) in
                if source \<noteq> Available then
                  (if ai_class item \<noteq> Read_Class then denied source
                   else if ai_degraded item
                   then (echo\<lparr>ar_result := Act_Degraded, ar_source := source, ar_degraded := True, ar_dry_run := \<not> persist\<rparr>, st)
                   else denied source)
                else if \<not> persist
                then (echo\<lparr>ar_result := Act_Accepted, ar_source := source, ar_dry_run := True\<rparr>, st)
                else case map_of (as_by_key st) raw_key of
                    None \<Rightarrow> record_request sha now source inp st
                  | Some existing \<Rightarrow>
                      if q_fingerprint existing = fingerprint sha (ip_type inp) (ip_tenant inp) (ip_state inp) raw_reason
                      then ((stored_response existing)\<lparr>ar_result := Act_Duplicate, ar_key := ar_key echo\<rparr>, st)
                      else (echo\<lparr>ar_result := Act_Conflict, ar_source := source\<rparr>, st)))"

end
