(* ===== verification/Tenant_Registry.thy ===== *)
theory Tenant_Registry
  imports Controlled_Actions
begin

text \<open>
  What the platform console reads of a tenant (\<open>api/v1/platform/p10/services.py\<close> and \<open>p17/services.py\<close>):
  the summary and the audit events with their redaction, and the registry record with lifecycle, flags,
  provisioning and backup, each with its source status. A table that cannot be read is \<open>None\<close>. Instants
  are seconds; reasons and other messages are left out.
\<close>

section \<open>Tenants\<close>

record wholesaler_row =
  ws_id :: uuid
  ws_name :: string
  ws_status :: "string option"
  ws_created :: nat
  ws_deleted :: bool

datatype tenant_status = Tenant_Active | Tenant_Suspended | Tenant_Draft | Tenant_Paused | Tenant_Archived | Tenant_Unknown

definition map_wholesaler_status :: "string option \<Rightarrow> tenant_status" where
  "map_wholesaler_status s =
     (case s of None \<Rightarrow> Tenant_Unknown
      | Some t \<Rightarrow>
          if t = ''active'' then Tenant_Active else if t = ''suspended'' then Tenant_Suspended
          else if t = ''draft'' then Tenant_Draft else if t = ''paused'' then Tenant_Paused
          else if t = ''archived'' then Tenant_Archived else Tenant_Unknown)"

text \<open>\<open>TenantSummary\<close>, without the fields that are always null.\<close>

record tenant_summary =
  su_id :: id_text
  su_name :: string
  su_schema :: string
  su_status :: tenant_status
  su_created :: nat
  su_support :: bool

definition get_tenant_schema :: "uuid \<Rightarrow> string" where
  "get_tenant_schema u = ''t_'' @ uuid_hex u"

definition summary_of :: "wholesaler_row \<Rightarrow> tenant_summary" where
  "summary_of w = \<lparr>su_id = str_uuid (ws_id w), su_name = ws_name w, su_schema = get_tenant_schema (ws_id w),
     su_status = map_wholesaler_status (ws_status w), su_created = ws_created w, su_support = False\<rparr>"

definition list_tenant_summaries :: "nat \<Rightarrow> nat \<Rightarrow> wholesaler_row list \<Rightarrow> tenant_summary list \<times> nat" where
  "list_tenant_summaries limit offset rows =
     (let live = filter (\<lambda>w. \<not> ws_deleted w) rows
      in (map summary_of (take limit (drop offset (sort_key (\<lambda>w. - int (ws_created w)) live))), length live))"

definition get_tenant_summary :: "id_text \<Rightarrow> wholesaler_row list \<Rightarrow> tenant_summary option" where
  "get_tenant_summary tid rows =
     (case parse_uuid tid of None \<Rightarrow> None | Some u \<Rightarrow> map_option summary_of (row_find ws_id u rows))"

section \<open>Audit events\<close>

definition sensitive_key_patterns :: "string list" where
  "sensitive_key_patterns = [''password'', ''token'', ''secret'', ''authorization'', ''cookie'', ''raw_body'', ''request_body'',
     ''response_body'', ''payload'', ''stack_trace'', ''traceback'', ''card'', ''payment'']"

definition is_sensitive_key :: "string \<Rightarrow> bool" where
  "is_sensitive_key k \<longleftrightarrow> list_ex (\<lambda>w. occurs w (lowered k)) sensitive_key_patterns"

fun redact_value :: "json \<Rightarrow> json" where
  "redact_value (J_Dict kvs) = J_Dict (filter (\<lambda>(k, x). \<not> is_sensitive_key k) (map (\<lambda>(k, x). (k, redact_value x)) kvs))"
| "redact_value (J_Array vs) = J_Array (map redact_value vs)"
| "redact_value v = v"

datatype outcome_word = Out_Allowed | Out_Denied | Out_Failed | Out_Completed | Out_Recorded

text \<open>The \<open>result\<close> entry of the metadata, when it has one, as a text.\<close>

definition coerce_audit_result :: "string option \<Rightarrow> outcome_word" where
  "coerce_audit_result raw =
     (let c = lowered (strip (or_blank raw)) in
      if c = ''allowed'' then Out_Allowed else if c = ''denied'' then Out_Denied else if c = ''failed'' then Out_Failed
      else if c = ''recorded'' then Out_Recorded else Out_Completed)"

text \<open>\<open>UUID_V4_V7_PATTERN\<close>: what the audit schema accepts as an event and as a tenant id.\<close>

definition uuid_v4_v7 :: "uuid \<Rightarrow> bool" where
  "uuid_v4_v7 u \<longleftrightarrow> uuid_hex u ! 12 \<in> set ''4567'' \<and> uuid_hex u ! 16 \<in> set ''89ab''"

record log_row =
  lg_id :: uuid
  lg_actor :: "uuid option"
  lg_tenant :: "uuid option"
  lg_action :: string
  lg_result :: "string option"
  lg_metadata :: "(string \<times> json) list"
  lg_created :: nat

record platform_event =
  pe_id :: id_text
  pe_actor :: "id_text option"
  pe_tenant :: "id_text option"
  pe_global :: bool
  pe_action :: string
  pe_result :: outcome_word
  pe_metadata :: "json option"
  pe_created :: nat

text \<open>An event as the API shows it; \<open>None\<close> is a validation error, which leaves the handler.\<close>

definition platform_event_of :: "log_row \<Rightarrow> platform_event option" where
  "platform_event_of e =
     (if uuid_v4_v7 (lg_id e) \<and> (case lg_tenant e of None \<Rightarrow> True | Some t \<Rightarrow> uuid_v4_v7 t)
      then Some \<lparr>pe_id = str_uuid (lg_id e), pe_actor = map_option str_uuid (lg_actor e), pe_tenant = map_option str_uuid (lg_tenant e),
        pe_global = (lg_tenant e = None), pe_action = (if lg_action e = [] then ''unknown'' else lg_action e),
        pe_result = coerce_audit_result (lg_result e),
        pe_metadata = (if lg_metadata e = [] then None else Some (redact_value (J_Dict (lg_metadata e)))), pe_created = lg_created e\<rparr>
      else None)"

definition list_audit_events :: "nat \<Rightarrow> nat \<Rightarrow> log_row list \<Rightarrow> (platform_event list \<times> nat) option" where
  "list_audit_events limit offset rows =
     (let page = map platform_event_of (take limit (drop offset (sort_key (\<lambda>e. - int (lg_created e)) rows)))
      in if list_all (\<lambda>e. e \<noteq> None) page then Some (map the page, length rows) else None)"

definition get_audit_event :: "id_text \<Rightarrow> log_row list \<Rightarrow> platform_event option option" where
  "get_audit_event eid rows =
     (case Option.bind (parse_uuid eid) (\<lambda>u. row_find lg_id u rows) of
        None \<Rightarrow> Some None
      | Some e \<Rightarrow> map_option Some (platform_event_of e))"

section \<open>Lifecycle, flags and provisioning\<close>

record journal_row =
  jn_tenant :: uuid
  jn_status :: string
  jn_activated :: "nat option"

datatype lifecycle_position = Life_Draft | Life_Provisioning | Life_Active | Life_Under_Review | Life_Paused | Life_Suspended
  | Life_Archived | Life_Failed | Life_Unknown

record lifecycle_state =
  lc_state :: lifecycle_position
  lc_entered :: "nat option"
  lc_source :: source_status

definition p10_status_to_lifecycle :: "tenant_status \<Rightarrow> lifecycle_position" where
  "p10_status_to_lifecycle s =
     (case s of Tenant_Draft \<Rightarrow> Life_Draft | Tenant_Active \<Rightarrow> Life_Active | Tenant_Paused \<Rightarrow> Life_Paused
      | Tenant_Suspended \<Rightarrow> Life_Suspended | Tenant_Archived \<Rightarrow> Life_Archived | Tenant_Unknown \<Rightarrow> Life_Unknown)"

definition derive_lifecycle_state :: "tenant_status option \<Rightarrow> journal_row option \<Rightarrow> lifecycle_state" where
  "derive_lifecycle_state p10 journal =
     (let st = (if map_option jn_status journal = Some ''failed'' then Life_Failed
                else if p10 = Some Tenant_Draft \<and>
                  map_option jn_status journal \<in> {Some ''pending'', Some ''schema_created'', Some ''seed_complete''}
                then Life_Provisioning
                else (case p10 of None \<Rightarrow> Life_Unknown | Some s \<Rightarrow> p10_status_to_lifecycle s))
      in \<lparr>lc_state = st, lc_entered = (if st = Life_Active then Option.bind journal jn_activated else None),
          lc_source = (if st = Life_Unknown then Unknown_Status else Available)\<rparr>)"

record operational_flags =
  of_support :: bool
  of_incident :: bool
  of_login_paused :: bool
  of_writes_paused :: bool
  of_billing_hold :: bool
  of_backup :: bool
  of_migration :: bool
  of_quota :: bool
  of_source :: source_status

definition build_operational_flags :: "bool \<Rightarrow> operational_flags" where
  "build_operational_flags support =
     \<lparr>of_support = support, of_incident = False, of_login_paused = False, of_writes_paused = False, of_billing_hold = False,
      of_backup = False, of_migration = False, of_quota = False, of_source = Unavailable\<rparr>"

record provisioning_status =
  pv_schema_exists :: bool
  pv_failure :: "string option"
  pv_source :: source_status

definition build_provisioning_status :: "journal_row option \<Rightarrow> provisioning_status option" where
  "build_provisioning_status journal =
     map_option (\<lambda>j. \<lparr>pv_schema_exists = (jn_status j \<in> {''schema_created'', ''seed_complete''}),
        pv_failure = (if jn_status j = ''failed'' then Some ''provisioning_incomplete'' else None), pv_source = Available\<rparr>) journal"

text \<open>The journal rows of the given tenants, by the text of the id; empty when the query fails.\<close>

definition load_provisioning_map :: "id_text list \<Rightarrow> journal_row list option \<Rightarrow> (id_text \<times> journal_row) list" where
  "load_provisioning_map ids journal =
     (case journal of None \<Rightarrow> []
      | Some rows \<Rightarrow> map (\<lambda>r. (str_uuid (jn_tenant r), r)) (filter (\<lambda>r. Some (jn_tenant r) \<in> set (map parse_uuid ids)) rows))"

section \<open>Backup status\<close>

datatype job_kind = Backup_Job | Restore_Test_Job

datatype outcome_status = Outcome_Success | Outcome_Partial | Outcome_Failed | Outcome_In_Progress

record backup_outcome =
  bo_tenant :: "uuid option"
  bo_kind :: job_kind
  bo_status :: outcome_status
  bo_completed :: "nat option"
  bo_bytes :: "int option"
  bo_failure :: "string option"

record backup_policy =
  bp_tenant :: "uuid option"
  bp_retention :: "string option"
  bp_cadence_hours :: "int option"

record backup_read =
  br_available :: bool
  br_backup :: "backup_outcome option"
  br_restore :: "backup_outcome option"
  br_policy :: "backup_policy option"

definition completed_at :: "backup_outcome \<Rightarrow> nat" where
  "completed_at r = (case bo_completed r of None \<Rightarrow> 0 | Some t \<Rightarrow> t)"

text \<open>\<open>max\<close> by completion: the first of the latest.\<close>

fun latest :: "backup_outcome list \<Rightarrow> backup_outcome option" where
  "latest [] = None"
| "latest (r # rs) = Some (foldl (\<lambda>m x. if completed_at m < completed_at x then x else m) r rs)"

definition first_given :: "'a option \<Rightarrow> 'a option \<Rightarrow> 'a option" where
  "first_given a b = (case a of None \<Rightarrow> b | Some x \<Rightarrow> Some x)"

definition outcome_of :: "uuid option \<Rightarrow> job_kind \<Rightarrow> backup_outcome list \<Rightarrow> backup_outcome option" where
  "outcome_of t k rows = latest (filter (\<lambda>r. bo_tenant r = t \<and> bo_kind r = k) rows)"

definition backup_read_of :: "backup_outcome list \<Rightarrow> backup_policy list \<Rightarrow> id_text \<Rightarrow> backup_read" where
  "backup_read_of outcomes policies tid =
     (let u = parse_uuid tid;
          backup = first_given (outcome_of u Backup_Job outcomes) (outcome_of None Backup_Job outcomes);
          restore = first_given (outcome_of u Restore_Test_Job outcomes) (outcome_of None Restore_Test_Job outcomes);
          policy = first_given (if u = None then None else find (\<lambda>p. bp_tenant p = u) policies) (find (\<lambda>p. bp_tenant p = None) policies)
      in if backup \<noteq> None \<or> restore \<noteq> None
         then \<lparr>br_available = True, br_backup = backup, br_restore = restore, br_policy = policy\<rparr>
         else \<lparr>br_available = False, br_backup = None, br_restore = None, br_policy = None\<rparr>)"

text \<open>The two tables, filtered as the queries do; \<open>None\<close> when a query fails.\<close>

definition load_backup_status_map ::
  "id_text list \<Rightarrow> (backup_outcome list \<times> backup_policy list) option \<Rightarrow> (id_text \<times> backup_read) list option" where
  "load_backup_status_map ids tables =
     (if ids = [] then Some []
      else case tables of None \<Rightarrow> None
      | Some (outcomes, policies) \<Rightarrow>
          (let us = map parse_uuid ids; asked = (\<lambda>t. t = None \<or> t \<in> set us);
               finished = filter (\<lambda>r. asked (bo_tenant r) \<and> bo_completed r \<noteq> None) outcomes;
               pols = filter (\<lambda>p. asked (bp_tenant p)) policies
           in Some (map (\<lambda>tid. (tid, backup_read_of finished pols tid)) ids)))"

datatype backup_verdict = Verdict_Success | Verdict_Partial | Verdict_Failed | Verdict_In_Progress | Verdict_Stale | Verdict_Unknown

datatype restore_verdict = Test_Passed | Test_Failed | Test_Stale | Test_Unknown

record backup_status =
  bs_at :: "nat option"
  bs_verdict :: "backup_verdict option"
  bs_restore_at :: "nat option"
  bs_restore :: "restore_verdict option"
  bs_export :: bool
  bs_retention :: "string option"
  bs_failure :: "string option"
  bs_source :: source_status

definition backup_freshness_window :: int where "backup_freshness_window = 24 * 3600"
definition restore_test_cadence_window :: int where "restore_test_cadence_window = 168 * 3600"

definition older_than :: "int \<Rightarrow> nat \<Rightarrow> nat \<Rightarrow> bool" where
  "older_than window now then_at \<longleftrightarrow> window < int now - int then_at"

definition enforce_backup_freshness :: "outcome_status \<Rightarrow> nat option \<Rightarrow> nat \<Rightarrow> backup_verdict" where
  "enforce_backup_freshness s done_at now =
     (case s of Outcome_Partial \<Rightarrow> Verdict_Partial | Outcome_Failed \<Rightarrow> Verdict_Failed | Outcome_In_Progress \<Rightarrow> Verdict_In_Progress
      | Outcome_Success \<Rightarrow>
          (case done_at of None \<Rightarrow> Verdict_Unknown
           | Some t \<Rightarrow> if older_than backup_freshness_window now t then Verdict_Stale else Verdict_Success))"

definition restore_test_cadence :: "backup_policy option \<Rightarrow> int" where
  "restore_test_cadence p =
     (case Option.bind p bp_cadence_hours of None \<Rightarrow> restore_test_cadence_window | Some h \<Rightarrow> h * 3600)"

definition enforce_restore_test_freshness ::
  "restore_verdict \<Rightarrow> nat option \<Rightarrow> backup_policy option \<Rightarrow> nat \<Rightarrow> restore_verdict" where
  "enforce_restore_test_freshness base done_at p now =
     (if base \<notin> {Test_Passed, Test_Failed} then base
      else case done_at of None \<Rightarrow> Test_Unknown
      | Some t \<Rightarrow> if older_than (restore_test_cadence p) now t then Test_Stale else base)"

definition backup_failure_reasons :: "string list" where
  "backup_failure_reasons = [''backup_job_timeout'', ''restore_checksum_mismatch'', ''backup_source_unreachable'',
     ''restore_test_failed'', ''backup_incomplete'', ''unknown'']"

definition redact_failure_reason :: "string option \<Rightarrow> string list \<Rightarrow> string option" where
  "redact_failure_reason raw allowed = map_option (\<lambda>r. if r \<in> set allowed then r else ''unknown'') raw"

definition build_backup_status :: "backup_read option \<Rightarrow> nat \<Rightarrow> backup_status option" where
  "build_backup_status read now =
     (case read of None \<Rightarrow> None
      | Some r \<Rightarrow>
          if \<not> br_available r then None
          else Some \<lparr>bs_at = Option.bind (br_backup r) bo_completed,
             bs_verdict = map_option (\<lambda>x. enforce_backup_freshness (bo_status x) (bo_completed x) now) (br_backup r),
             bs_restore_at = Option.bind (br_restore r) bo_completed,
             bs_restore = map_option (\<lambda>x. enforce_restore_test_freshness
                (case bo_status x of Outcome_Success \<Rightarrow> Test_Passed | Outcome_Failed \<Rightarrow> Test_Failed | _ \<Rightarrow> Test_Unknown)
                (bo_completed x) (br_policy r) now) (br_restore r),
             bs_export = (case br_backup r of None \<Rightarrow> False
               | Some x \<Rightarrow> bo_status x = Outcome_Success \<and> (case bo_bytes x of None \<Rightarrow> False | Some b \<Rightarrow> 0 < b)),
             bs_retention = Option.bind (br_policy r) bp_retention,
             bs_failure = (case br_backup r of None \<Rightarrow> None
               | Some x \<Rightarrow> if bo_status x \<in> {Outcome_Failed, Outcome_Partial}
                   then redact_failure_reason (bo_failure x) backup_failure_reasons else None),
             bs_source = Available\<rparr>)"

section \<open>The registry\<close>

record tenant_registry =
  rt_id :: id_text
  rt_name :: string
  rt_schema :: string
  rt_created :: nat
  rt_lifecycle :: lifecycle_state
  rt_flags :: operational_flags
  rt_provisioning :: "provisioning_status option"
  rt_backup :: "backup_status option"
  rt_source :: source_status

text \<open>What the console reads: wholesalers, provisioning journal, backup tables.\<close>

record platform_db =
  pd_wholesalers :: "wholesaler_row list option"
  pd_journal :: "journal_row list option"
  pd_backups :: "(backup_outcome list \<times> backup_policy list) option"

definition build_registry :: "tenant_summary \<Rightarrow> journal_row option \<Rightarrow> nat \<Rightarrow> backup_read option \<Rightarrow> tenant_registry" where
  "build_registry s journal now read =
     (let lc = derive_lifecycle_state (Some (su_status s)) journal in
      \<lparr>rt_id = su_id s, rt_name = su_name s, rt_schema = su_schema s, rt_created = su_created s, rt_lifecycle = lc,
       rt_flags = build_operational_flags (su_support s), rt_provisioning = build_provisioning_status journal,
       rt_backup = build_backup_status read now, rt_source = (if lc_state lc = Life_Unknown then Unknown_Status else Available)\<rparr>)"

definition registry_in :: "platform_db \<Rightarrow> nat \<Rightarrow> id_text list \<Rightarrow> tenant_summary \<Rightarrow> tenant_registry" where
  "registry_in db now ids s =
     build_registry s (map_of (load_provisioning_map ids (pd_journal db)) (su_id s)) now
       (Option.bind (load_backup_status_map ids (pd_backups db)) (\<lambda>m. map_of m (su_id s)))"

definition list_tenant_registries :: "nat \<Rightarrow> nat \<Rightarrow> nat \<Rightarrow> platform_db \<Rightarrow> tenant_registry list \<times> nat \<times> source_status" where
  "list_tenant_registries now limit offset db =
     (case pd_wholesalers db of None \<Rightarrow> ([], 0, Unavailable)
      | Some rows \<Rightarrow>
          (let (summaries, n) = list_tenant_summaries limit offset rows;
               items = map (registry_in db now (map su_id summaries)) summaries
           in (items, n, if items = [] then Unavailable
                else if list_ex (\<lambda>r. lc_state (rt_lifecycle r) = Life_Unknown) items then Unknown_Status else Available)))"

definition get_tenant_registry :: "nat \<Rightarrow> platform_db \<Rightarrow> id_text \<Rightarrow> tenant_registry option" where
  "get_tenant_registry now db tid =
     (case pd_wholesalers db of None \<Rightarrow> None
      | Some rows \<Rightarrow> map_option (\<lambda>s. registry_in db now [su_id s] s) (get_tenant_summary tid rows))"

text \<open>The source statuses the action service reads of a record.\<close>

definition registry_view :: "tenant_registry \<Rightarrow> registry" where
  "registry_view r = \<lparr>rg_lifecycle = lc_source (rt_lifecycle r), rg_flags = of_source (rt_flags r),
     rg_provisioning = map_option pv_source (rt_provisioning r), rg_backup = map_option bs_source (rt_backup r),
     rg_registry = rt_source r\<rparr>"

definition platform_reader :: "nat \<Rightarrow> platform_db \<Rightarrow> registry_reader" where
  "platform_reader now db tid = map_option registry_view (get_tenant_registry now db tid)"

end
