(* ===== verification/Action_Contract.thy ===== *)
theory Action_Contract
  imports Controlled_Actions
begin

text \<open>
  What the request skeleton of the platform actions promises, over any sequence of requests: nothing is
  executed, nothing sensitive is kept or echoed, an accepted request met every guard, and an idempotency
  key stands for the first request accepted under it.
\<close>

section \<open>The guards\<close>

definition admissible :: "registry_reader \<Rightarrow> action_input \<Rightarrow> bool" where
  "admissible reg inp \<longleftrightarrow>
     stripped (ip_reason inp) \<noteq> [] \<and> stripped (ip_key inp) \<noteq> [] \<and>
     (case item_for (ip_type inp) of None \<Rightarrow> False | Some item \<Rightarrow> ai_confirmation item \<longrightarrow> ip_confirm inp) \<and>
     resolve_action_source_status reg (ip_type inp) (ip_tenant inp) = Available"

lemma inadmissible_result:
  "\<not> admissible reg inp \<Longrightarrow>
   snd (evaluate_request sha reg now persist inp st) = st \<and>
   ar_result (fst (evaluate_request sha reg now persist inp st)) \<in> {Act_Denied, Act_Degraded}"
  by (auto simp: evaluate_request_def admissible_def Let_def echo_request_def split: option.splits)

lemma admissible_persisted:
  "admissible reg inp \<Longrightarrow>
   evaluate_request sha reg now True inp st =
     (case map_of (as_by_key st) (stripped (ip_key inp)) of
        None \<Rightarrow> record_request sha now Available inp st
      | Some existing \<Rightarrow>
          if q_fingerprint existing = fingerprint sha (ip_type inp) (ip_tenant inp) (ip_state inp) (stripped (ip_reason inp))
          then ((stored_response existing)\<lparr>ar_result := Act_Duplicate, ar_key := ar_key (echo_request now inp)\<rparr>, st)
          else ((echo_request now inp)\<lparr>ar_result := Act_Conflict, ar_source := Available\<rparr>, st))"
  by (auto simp: evaluate_request_def admissible_def Let_def split: option.splits)

lemma admissible_validated:
  "admissible reg inp \<Longrightarrow>
   evaluate_request sha reg now False inp st =
     ((echo_request now inp)\<lparr>ar_result := Act_Accepted, ar_source := Available, ar_dry_run := True\<rparr>, st)"
  by (auto simp: evaluate_request_def admissible_def Let_def split: option.splits)

lemma evaluate_request_cases:
  obtains (refused) "\<not> admissible reg inp" "snd (evaluate_request sha reg now persist inp st) = st"
  | (validated) "admissible reg inp" "\<not> persist" "snd (evaluate_request sha reg now persist inp st) = st"
  | (known) existing where "admissible reg inp" "persist" "map_of (as_by_key st) (stripped (ip_key inp)) = Some existing"
      "snd (evaluate_request sha reg now persist inp st) = st"
  | (recorded) "admissible reg inp" "persist" "map_of (as_by_key st) (stripped (ip_key inp)) = None"
      "evaluate_request sha reg now persist inp st = record_request sha now Available inp st"
proof (cases "admissible reg inp")
  case False
  then show ?thesis using refused inadmissible_result by blast
next
  case True
  show ?thesis
  proof (cases persist)
    case False
    then show ?thesis using True validated admissible_validated by simp
  next
    case persist: True
    note eq = admissible_persisted [OF True, of sha now st]
    show ?thesis
    proof (cases "map_of (as_by_key st) (stripped (ip_key inp))")
      case None
      then show ?thesis using recorded True persist eq by simp
    next
      case (Some existing)
      then show ?thesis using known [OF True _ Some] persist eq by simp
    qed
  qed
qed

section \<open>Nothing sensitive is kept or echoed\<close>

text \<open>
  What must not be kept, stated on the text itself and not by the redactor: one of the service's secret
  words, the mark of a scheme or an at sign anywhere in it (whatever the case); a host name with a port; a dotted address.
\<close>

definition carries_secret :: "string \<Rightarrow> bool" where
  "carries_secret s \<longleftrightarrow> (\<exists>w \<in> set sensitive_values. \<exists>a b. lowered s = a @ w @ b)"

definition word_ends :: "string \<Rightarrow> bool" where
  "word_ends a \<longleftrightarrow> a = [] \<or> \<not> word_char (last a)"

definition word_starts :: "string \<Rightarrow> bool" where
  "word_starts b \<longleftrightarrow> b = [] \<or> \<not> word_char (hd b)"

definition carries_host :: "string \<Rightarrow> bool" where
  "carries_host s \<longleftrightarrow> (\<exists>a host port b. s = a @ host @ '':'' @ port @ b \<and> word_ends a \<and> word_starts b \<and>
     2 \<le> length host \<and> list_all host_char host \<and> is_letter (hd host) \<and> (is_letter (last host) \<or> is_ascii_digit (last host)) \<and>
     list_all is_ascii_digit port \<and> 2 \<le> length port \<and> length port \<le> 5)"

definition octet :: "string \<Rightarrow> bool" where
  "octet g \<longleftrightarrow> list_all is_ascii_digit g \<and> 1 \<le> length g \<and> length g \<le> 3"

definition carries_address :: "string \<Rightarrow> bool" where
  "carries_address s \<longleftrightarrow> (\<exists>a g1 g2 g3 g4 b. s = a @ g1 @ ''.'' @ g2 @ ''.'' @ g3 @ ''.'' @ g4 @ b \<and> word_ends a \<and> word_starts b \<and>
     octet g1 \<and> octet g2 \<and> octet g3 \<and> octet g4)"

definition clean_text :: "string \<Rightarrow> bool" where
  "clean_text s \<longleftrightarrow> \<not> carries_secret s \<and> \<not> carries_host s \<and> \<not> carries_address s"

definition clean_option :: "string option \<Rightarrow> bool" where
  "clean_option v \<longleftrightarrow> (case v of None \<Rightarrow> True | Some s \<Rightarrow> clean_text s)"

text \<open>The texts and the entries of a value, at any depth.\<close>

fun json_texts :: "json \<Rightarrow> string list" where
  "json_texts (J_Text s) = [s]"
| "json_texts (J_Dict kvs) = concat (map (\<lambda>(k, x). json_texts x) kvs)"
| "json_texts (J_Array vs) = concat (map json_texts vs)"
| "json_texts (J_Other n) = []"

fun json_entries :: "json \<Rightarrow> (string \<times> json) list" where
  "json_entries (J_Text s) = []"
| "json_entries (J_Dict kvs) = kvs @ concat (map (\<lambda>(k, x). json_entries x) kvs)"
| "json_entries (J_Array vs) = concat (map json_entries vs)"
| "json_entries (J_Other n) = []"

definition secret_name :: "string \<Rightarrow> bool" where
  "secret_name k \<longleftrightarrow> (\<exists>w \<in> set sensitive_keys. \<exists>a b. lowered k = a @ w @ b)"

text \<open>
  Metadata promise less than the other fields: no text value carries a secret word, a scheme or an at sign, and
  every value under a name for a secret is replaced. Hosts with ports as values, and the texts of the names
  themselves, are not looked at (see \<open>metadata_echoes_endpoints\<close>).
\<close>

definition clean_metadata :: "(string \<times> json) list option \<Rightarrow> bool" where
  "clean_metadata md \<longleftrightarrow> (case md of None \<Rightarrow> True | Some kvs \<Rightarrow>
     list_all (\<lambda>s. \<not> carries_secret s) (json_texts (J_Dict kvs)) \<and>
     list_all (\<lambda>(k, x). secret_name k \<longrightarrow> x = J_Text ''[redacted]'') (json_entries (J_Dict kvs)))"

definition clean_request :: "stored_request \<Rightarrow> bool" where
  "clean_request rec \<longleftrightarrow> clean_text (q_type rec) \<and> clean_text (q_reason rec) \<and> clean_text (q_key rec) \<and> clean_option (q_state rec) \<and>
     clean_option (q_correlation rec) \<and> clean_metadata (q_metadata rec)"

definition clean_response :: "action_response \<Rightarrow> bool" where
  "clean_response r \<longleftrightarrow> clean_text (ar_type r) \<and> clean_text (ar_reason r) \<and> clean_text (ar_key r) \<and> clean_option (ar_state r) \<and>
     clean_option (ar_correlation r) \<and> clean_metadata (ar_metadata r) \<and> \<not> ar_executed r"

subsection \<open>The redactor finds what must not be kept\<close>

lemma occurs_iff: "occurs w s \<longleftrightarrow> (\<exists>a b. s = a @ w @ b)"
proof (induction s)
  case (Cons c s)
  have "take (length w) (c # s) = w \<longleftrightarrow> (\<exists>b. c # s = w @ b)" by (metis append_eq_conv_conj)
  moreover have "(\<exists>a b. c # s = a @ w @ b) \<longleftrightarrow> (\<exists>b. c # s = w @ b) \<or> (\<exists>a b. s = a @ w @ b)"
    by (metis append_Cons append_Nil list.exhaust list.inject)
  ultimately show ?case using Cons.IH by simp
qed simp

lemma carries_secret_iff: "carries_secret s \<longleftrightarrow> sensitive_val s"
  by (simp add: carries_secret_def sensitive_val_def list_ex_iff occurs_iff)

lemma secret_name_iff: "secret_name k \<longleftrightarrow> sensitive_key k"
  by (simp add: secret_name_def sensitive_key_def list_ex_iff occurs_iff)

lemma scan_from:
  "(if a = [] then \<not> after_word else \<not> word_char (last a)) \<Longrightarrow> t \<noteq> [] \<Longrightarrow> ip_here t \<or> host_here t \<Longrightarrow> scan_host after_word (a @ t)"
proof (induction a arbitrary: after_word)
  case Nil
  then show ?case by (cases t) auto
next
  case (Cons c a)
  then show ?case by (cases a) auto
qed

lemma word_starts_boundary: "word_starts b \<Longrightarrow> boundary b"
  by (cases b) (auto simp: word_starts_def boundary_def)

lemma digit_run:
  assumes "list_all is_ascii_digit d" and "r = [] \<or> \<not> is_ascii_digit (hd r)"
  shows "takeWhile is_ascii_digit (d @ r) = d" and "dropWhile is_ascii_digit (d @ r) = r"
  using assms by (cases r; simp add: takeWhile_append2 dropWhile_append2 list_all_iff)+

lemma starts_no_digit: "word_starts b \<Longrightarrow> b = [] \<or> \<not> is_ascii_digit (hd b)"
  by (auto simp: word_starts_def word_char_def)

lemma host_found:
  assumes "carries_host s"
  shows "scan_host False s"
proof -
  from assms obtain a h p b where s: "s = a @ h @ '':'' @ p @ b" and ab: "word_ends a" "word_starts b"
    and h: "2 \<le> length h" "list_all host_char h" "is_letter (hd h)" "is_letter (last h) \<or> is_ascii_digit (last h)"
    and p: "list_all is_ascii_digit p" "2 \<le> length p" "length p \<le> 5"
    by (auto simp: carries_host_def)
  let ?t = "h @ CHR '':'' # p @ b"
  have colon: "\<not> host_char CHR '':''" by (simp add: host_char_def is_letter_def is_ascii_digit_def)
  then have run: "takeWhile host_char ?t = h" "dropWhile host_char ?t = CHR '':'' # p @ b"
    using h(2) by (simp_all add: takeWhile_append2 dropWhile_append2 list_all_iff)
  have digits: "takeWhile is_ascii_digit (p @ b) = p" "dropWhile is_ascii_digit (p @ b) = b"
    using digit_run [OF p(1) starts_no_digit [OF ab(2)]] by simp_all
  have "host_here ?t"
    unfolding host_here_def Let_def run using h p digits word_starts_boundary [OF ab(2)] by simp
  moreover have "?t \<noteq> []" by simp
  moreover have "if a = [] then \<not> False else \<not> word_char (last a)" using ab(1) by (auto simp: word_ends_def)
  ultimately have "scan_host False (a @ ?t)" using scan_from by blast
  then show ?thesis by (simp add: s)
qed

lemma dotted_group:
  assumes "octet g"
  shows "dotted (Suc n) (g @ CHR ''.'' # r) = dotted n r" and "word_starts b \<Longrightarrow> dotted 0 (g @ b) = Some b"
proof -
  have g: "list_all is_ascii_digit g" "1 \<le> length g" "length g \<le> 3" using assms by (simp_all add: octet_def)
  have "CHR ''.'' # r = [] \<or> \<not> is_ascii_digit (hd (CHR ''.'' # r))" by (simp add: is_ascii_digit_def)
  from digit_run [OF g(1) this] g show "dotted (Suc n) (g @ CHR ''.'' # r) = dotted n r"
    by (auto simp: dotted.simps [of "Suc n"] Let_def not_less)
  assume "word_starts b"
  from digit_run [OF g(1) starts_no_digit [OF this]] g show "dotted 0 (g @ b) = Some b"
    by (auto simp: dotted.simps [of 0] Let_def not_less)
qed

lemma address_found:
  assumes "carries_address s"
  shows "scan_host False s"
proof -
  from assms obtain a g1 g2 g3 g4 b where s: "s = a @ g1 @ ''.'' @ g2 @ ''.'' @ g3 @ ''.'' @ g4 @ b"
    and ab: "word_ends a" "word_starts b" and g: "octet g1" "octet g2" "octet g3" "octet g4"
    by (auto simp: carries_address_def)
  let ?t = "g1 @ CHR ''.'' # g2 @ CHR ''.'' # g3 @ CHR ''.'' # g4 @ b"
  have "dotted 3 ?t = Some b"
    using dotted_group(1) [OF g(1), of "Suc (Suc 0)"] dotted_group(1) [OF g(2), of "Suc 0"] dotted_group(1) [OF g(3), of 0]
      dotted_group(2) [OF g(4) ab(2)]
    by (simp add: numeral_3_eq_3)
  then have "ip_here ?t" using word_starts_boundary [OF ab(2)] by (simp add: ip_here_def)
  moreover have "?t \<noteq> []" by simp
  moreover have "if a = [] then \<not> False else \<not> word_char (last a)" using ab(1) by (auto simp: word_ends_def)
  ultimately have "scan_host False (a @ ?t)" using scan_from by blast
  then show ?thesis by (simp add: s)
qed

lemma insensitive_clean: "\<not> reason_is_sensitive s \<Longrightarrow> clean_text s"
proof (cases "s = []")
  case True
  show ?thesis by (auto simp: True clean_text_def carries_secret_iff carries_host_def carries_address_def octet_def
      sensitive_val_def sensitive_values_def lowered_def)
next
  case False
  assume "\<not> reason_is_sensitive s"
  with False show ?thesis
    using host_found address_found by (auto simp: clean_text_def reason_is_sensitive_def carries_secret_iff)
qed

lemma leak_free_node:
  "\<not> leaks key v \<Longrightarrow> (\<forall>s \<in> set (json_texts v). \<not> sensitive_val s) \<and>
     (\<forall>(k, x) \<in> set (json_entries v). sensitive_key k \<longrightarrow> x = J_Text redacted_text)"
proof (induction key v rule: leaks.induct)
  case (1 key v)
  note free = 1(3) [unfolded leaks.simps [of key v]]
  show ?case
  proof (cases v)
    case (J_Dict kvs)
    then have "\<not> leaks (Some k) x" if "(k, x) \<in> set kvs" for k x using free that by (auto simp: list_ex_iff)
    moreover from this have "sensitive_key k \<Longrightarrow> x = J_Text redacted_text" if "(k, x) \<in> set kvs" for k x
      using that by (subst (asm) leaks.simps) auto
    ultimately show ?thesis using 1(1) [OF J_Dict] J_Dict by fastforce
  next
    case (J_Array vs)
    then have "\<not> leaks None x" if "x \<in> set vs" for x using free that by (auto simp: list_ex_iff)
    then show ?thesis using 1(2) [OF J_Array] J_Array by fastforce
  qed (use free in auto)
qed

lemma clean_redact [simp]: "clean_text (redact_reason s)" "clean_text redacted_text"
  by (rule insensitive_clean, simp)+

lemma clean_sanitize [simp]: "clean_option (sanitize_text v)"
  by (cases v) (auto simp: clean_option_def sanitize_text_def intro: insensitive_clean)

lemma clean_or_blank: "clean_option v \<Longrightarrow> clean_text (or_blank v)"
  by (cases v) (simp_all add: clean_option_def or_blank_def insensitive_clean reason_is_sensitive_def)

lemma clean_redact_metadata [simp]: "clean_metadata (redact_metadata md)"
proof (cases "redact_metadata md")
  case (Some kvs)
  have "\<not> leaks None (J_Dict kvs)"
    using redact_metadata_no_leak [OF Some] by (subst leaks.simps) (auto simp: list_ex_iff)
  from leak_free_node [OF this] show ?thesis
    by (auto simp: clean_metadata_def Some list_all_iff carries_secret_iff secret_name_iff redacted_text_def)
qed (simp add: clean_metadata_def)

lemma catalog_types_clean: "t \<in> set (map ai_type action_catalog) \<Longrightarrow> clean_text t"
  by (rule insensitive_clean) (auto simp: action_catalog_def reason_is_sensitive_def sensitive_val_def sensitive_values_def lowered_def
      ip_here_def dotted.simps host_here_def host_char_def is_letter_def is_ascii_digit_def word_char_def boundary_def)

lemma clean_action_type [simp]: "clean_text (sanitize_action_type t)"
  using catalog_types_clean [of t]
  by (auto simp: sanitize_action_type_def known_action_type_def intro: insensitive_clean)

lemma clean_echo: "clean_response (echo_request now inp)"
  using clean_or_blank [OF clean_sanitize]
  by (simp add: echo_request_def clean_response_def)

lemma clean_echo_update:
  "clean_response (echo_request now inp\<lparr>ar_result := r, ar_source := s\<rparr>)"
  "clean_response (echo_request now inp\<lparr>ar_dry_run := d, ar_source := s\<rparr>)"
  "clean_response (echo_request now inp\<lparr>ar_result := r, ar_source := s, ar_dry_run := d\<rparr>)"
  "clean_response (echo_request now inp\<lparr>ar_result := r, ar_source := s, ar_action_id := a\<rparr>)"
  "clean_response (echo_request now inp\<lparr>ar_result := r, ar_source := s, ar_degraded := g, ar_dry_run := d\<rparr>)"
  using clean_echo [of now inp] by (simp_all add: clean_response_def)

lemma clean_stored: "clean_request rec \<Longrightarrow> clean_response (stored_response rec)"
  by (simp add: stored_response_def clean_response_def clean_request_def)

definition clean_store :: "action_store \<Rightarrow> bool" where
  "clean_store st \<longleftrightarrow> list_all (clean_request \<circ> snd) (as_by_key st) \<and> list_all (clean_request \<circ> snd) (as_by_id st)"

lemma list_all_update: "P v \<Longrightarrow> list_all (P \<circ> snd) al \<Longrightarrow> list_all (P \<circ> snd) (AList.update k v al)"
  by (induction al) auto

lemma record_request_clean:
  assumes "clean_store st"
  shows "clean_store (snd (record_request sha now src inp st))" and "clean_response (fst (record_request sha now src inp st))"
  using assms clean_echo [of now inp] clean_echo_update(4)
  by (auto simp: record_request_def Let_def clean_store_def clean_request_def clean_response_def intro!: list_all_update)

lemma evaluate_request_clean:
  assumes st: "clean_store st"
  shows "clean_store (snd (evaluate_request sha reg now persist inp st))"
  by (rule evaluate_request_cases [of reg inp sha now persist st]) (use st record_request_clean(1) in auto)

lemma evaluate_response_clean:
  assumes st: "clean_store st"
  shows "clean_response (fst (evaluate_request sha reg now persist inp st))"
proof -
  have "clean_response (stored_response rec\<lparr>ar_result := r, ar_key := ar_key (echo_request now inp)\<rparr>)"
    if "map_of (as_by_key st) k = Some rec" for k rec r
    using st clean_stored [of rec] clean_echo [of now inp] map_of_SomeD [OF that]
    by (auto simp: clean_store_def list_all_iff clean_response_def)
  then show ?thesis using st record_request_clean(2) [of st]
    by (auto simp: evaluate_request_def Let_def clean_echo_update split: option.splits)
qed

section \<open>Sequences of requests\<close>

text \<open>A run of the service: the requests it is sent, each with its time, its registry and whether it persists.\<close>

datatype action_call = Action_Call registry_reader nat bool action_input

fun serve_action :: "(string \<Rightarrow> string) \<Rightarrow> action_call \<Rightarrow> action_store \<Rightarrow> action_store" where
  "serve_action sha (Action_Call reg now persist inp) st = snd (evaluate_request sha reg now persist inp st)"

abbreviation serve_actions :: "(string \<Rightarrow> string) \<Rightarrow> action_call list \<Rightarrow> action_store \<Rightarrow> action_store" where
  "serve_actions sha \<equiv> fold (serve_action sha)"

definition empty_store :: "(nat \<Rightarrow> uuid) \<Rightarrow> action_store" where
  "empty_store uuids = \<lparr>as_by_key = [], as_by_id = [], as_uuids = uuids, as_drawn = 0\<rparr>"

text \<open>Both dictionaries hold the same requests, each under the id drawn for it.\<close>

definition action_store_ok :: "action_store \<Rightarrow> bool" where
  "action_store_ok st \<longleftrightarrow>
     inj (as_uuids st) \<and> map snd (as_by_key st) = map snd (as_by_id st) \<and>
     map fst (as_by_id st) = map (\<lambda>i. Canonical (as_uuids st i)) [0..<as_drawn st] \<and>
     list_all (\<lambda>(aid, rec). q_action_id rec = aid \<and> q_result rec = Act_Accepted \<and> q_source rec = Available) (as_by_id st) \<and>
     distinct (map fst (as_by_key st)) \<and> clean_store st"

lemma update_new: "k \<notin> fst ` set al \<Longrightarrow> AList.update k v al = al @ [(k, v)]"
  by (induction al) auto

lemma fresh_id:
  assumes "action_store_ok st"
  shows "Canonical (as_uuids st (as_drawn st)) \<notin> fst ` set (as_by_id st)"
proof -
  have "fst ` set (as_by_id st) = set (map (\<lambda>i. Canonical (as_uuids st i)) [0..<as_drawn st])"
    using assms by (metis action_store_ok_def list.set_map)
  moreover have "inj (as_uuids st)" using assms by (simp add: action_store_ok_def)
  ultimately show ?thesis by (auto dest: injD)
qed

lemma record_request_store:
  assumes ok: "action_store_ok st" and new: "map_of (as_by_key st) (stripped (ip_key inp)) = None"
    and run: "record_request sha now Available inp st = (r, st')"
  obtains rec where "as_by_key st' = as_by_key st @ [(stripped (ip_key inp), rec)]"
    and "as_by_id st' = as_by_id st @ [(q_action_id rec, rec)]" and "ar_action_id r = Some (q_action_id rec)"
    and "q_fingerprint rec = fingerprint sha (ip_type inp) (ip_tenant inp) (ip_state inp) (stripped (ip_reason inp))"
    and "action_store_ok st'"
proof -
  have key: "stripped (ip_key inp) \<notin> fst ` set (as_by_key st)" using new by (simp add: map_of_eq_None_iff)
  have "clean_store st'" using ok record_request_clean(1) [of st sha now Available inp] run by (simp add: action_store_ok_def)
  with ok key fresh_id [OF ok] run show ?thesis
    by (intro that [OF _ _ _ _]) (auto simp: record_request_def Let_def update_new action_store_ok_def)
qed

lemma serve_action_step:
  assumes ok: "action_store_ok st"
  obtains (same) "serve_action sha c st = st"
  | (recorded) reg now inp rec where "c = Action_Call reg now True inp" "admissible reg inp"
      "map_of (as_by_key st) (stripped (ip_key inp)) = None"
      "as_by_key (serve_action sha c st) = as_by_key st @ [(stripped (ip_key inp), rec)]"
      "as_by_id (serve_action sha c st) = as_by_id st @ [(q_action_id rec, rec)]"
      "q_fingerprint rec = fingerprint sha (ip_type inp) (ip_tenant inp) (ip_state inp) (stripped (ip_reason inp))"
      "action_store_ok (serve_action sha c st)"
proof (cases c)
  case (Action_Call reg now persist inp)
  show ?thesis
  proof (rule evaluate_request_cases [of reg inp sha now persist st])
    assume adm: "admissible reg inp" and persist: "persist" and new: "map_of (as_by_key st) (stripped (ip_key inp)) = None"
      and eq: "evaluate_request sha reg now persist inp st = record_request sha now Available inp st"
    obtain r st' where run: "record_request sha now Available inp st = (r, st')" by (cases "record_request sha now Available inp st")
    then have st': "serve_action sha c st = st'" using Action_Call eq by simp
    show ?thesis
      using ok new run by (rule record_request_store) (use recorded Action_Call persist adm new st' in simp)
  qed (use same Action_Call in auto)
qed

lemma serve_action_ok: "action_store_ok st \<Longrightarrow> action_store_ok (serve_action sha c st)"
  by (rule serve_action_step [of st sha c]) simp_all

lemma serve_actions_clean: "clean_store st \<Longrightarrow> clean_store (serve_actions sha cs st)"
proof (induction cs arbitrary: st)
  case (Cons c cs)
  then show ?case by (cases c) (simp add: evaluate_request_clean)
qed simp

lemma serve_actions_ok: "action_store_ok st \<Longrightarrow> action_store_ok (serve_actions sha cs st)"
  by (induction cs arbitrary: st) (auto intro: serve_action_ok)

lemma empty_store_ok: "inj uuids \<Longrightarrow> action_store_ok (empty_store uuids)"
  by (simp add: action_store_ok_def empty_store_def clean_store_def)

lemma key_is_kept:
  assumes "action_store_ok st" and "map_of (as_by_key st) k = Some rec"
  shows "map_of (as_by_key (serve_actions sha cs st)) k = Some rec"
  using assms
proof (induction cs arbitrary: st)
  case (Cons c cs)
  have "map_of (as_by_key (serve_action sha c st)) k = Some rec"
    using Cons.prems(1) by (rule serve_action_step [of st sha c]) (use Cons.prems(2) in \<open>auto simp: map_add_Some_iff\<close>)
  with Cons.IH [OF serve_action_ok [OF Cons.prems(1)]] show ?case by simp
qed simp

text \<open>
  C40: Whatever requests the action service is sent, in any order, no response to a request, no response to a
  read by id and no entry of the operator queue has a reason, key, state, correlation id or action type in which
  a secret word, a scheme, an at sign, a host name with a port or a dotted address stands; none has metadata with
  a text value in which a secret word, a scheme or an at sign stands, or with a value other than the redaction
  mark under a name for a secret, at any depth; and none says that an action was executed. Hosts with
  ports among the metadata values and the metadata names themselves are not covered: they are echoed.
\<close>

theorem actions_echo_nothing_sensitive:
  "clean_response (fst (evaluate_request sha reg now persist inp (serve_actions sha cs (empty_store uuids)))) \<and>
   (case get_stored_request aid (serve_actions sha cs (empty_store uuids)) of None \<Rightarrow> True | Some r \<Rightarrow> clean_response r) \<and>
   list_all clean_response (fst (list_stored_requests limit offset (serve_actions sha cs (empty_store uuids))))"
proof -
  define st where "st = serve_actions sha cs (empty_store uuids)"
  have clean: "clean_store st" using serve_actions_clean [of "empty_store uuids"] by (simp add: st_def empty_store_def clean_store_def)
  have kept: "clean_response (stored_response rec)" if "(aid, rec) \<in> set (as_by_id st)" for aid rec
    using that clean clean_stored by (auto simp: clean_store_def list_all_iff)
  have "case get_stored_request aid st of None \<Rightarrow> True | Some r \<Rightarrow> clean_response r"
    using kept by (cases "map_of (as_by_id st) aid") (auto simp: get_stored_request_def dest!: map_of_SomeD)
  moreover have "list_all clean_response (fst (list_stored_requests limit offset st))"
    using kept by (auto simp: list_all_iff list_stored_requests_def Let_def dest!: in_set_takeD in_set_dropD)
  ultimately show ?thesis using evaluate_response_clean [OF clean] by (simp add: st_def)
qed

text \<open>
  Once a request was accepted under an idempotency key, every later admissible request under that key, after
  any other requests, writes nothing: it is answered as a duplicate with the id of the first one when the
  fingerprints agree, in particular when action, tenant, state and reason do, and as a conflict otherwise.
\<close>

theorem action_key_stands_for_one_request:
  assumes "inj uuids" and "st = serve_actions sha cs (empty_store uuids)"
    and "evaluate_request sha reg now True inp st = (r, st1)" and "ar_result r = Act_Accepted"
    and "admissible reg' inp'" and "stripped (ip_key inp') = stripped (ip_key inp)"
    and "evaluate_request sha reg' now' True inp' (serve_actions sha cs' st1) = (r', st2)"
  shows "st2 = serve_actions sha cs' st1 \<and>
    ar_result r' =
      (if fingerprint sha (ip_type inp') (ip_tenant inp') (ip_state inp') (stripped (ip_reason inp')) =
          fingerprint sha (ip_type inp) (ip_tenant inp) (ip_state inp) (stripped (ip_reason inp)) then Act_Duplicate else Act_Conflict) \<and>
    ar_action_id r' = (if ar_result r' = Act_Duplicate then ar_action_id r else None)"
proof -
  have ok: "action_store_ok st" using serve_actions_ok [OF empty_store_ok [OF assms(1)]] assms(2) by simp
  have adm: "admissible reg inp" using inadmissible_result [of reg inp sha now True st] assms(3,4) by auto
  have new: "map_of (as_by_key st) (stripped (ip_key inp)) = None"
    using admissible_persisted [OF adm, of sha now st] assms(3,4) by (auto split: option.splits if_splits)
  have "record_request sha now Available inp st = (r, st1)" using admissible_persisted [OF adm, of sha now st] assms(3) new by simp
  then obtain rec where rec: "as_by_key st1 = as_by_key st @ [(stripped (ip_key inp), rec)]" "ar_action_id r = Some (q_action_id rec)"
      "q_fingerprint rec = fingerprint sha (ip_type inp) (ip_tenant inp) (ip_state inp) (stripped (ip_reason inp))"
      and ok1: "action_store_ok st1"
    by (rule record_request_store [OF ok new])
  have "map_of (as_by_key st1) (stripped (ip_key inp')) = Some rec" using rec(1) new assms(6) by (simp add: map_add_def)
  from key_is_kept [OF ok1 this, of sha cs'] have "map_of (as_by_key (serve_actions sha cs' st1)) (stripped (ip_key inp')) = Some rec" .
  with admissible_persisted [OF assms(5), of sha now' "serve_actions sha cs' st1"] assms(7) rec(2,3)
  show ?thesis
    by (auto simp: stored_response_def echo_request_def split: if_splits)
qed

text \<open>Metadata with an internal endpoint as a value and a connection string as a name pass unchanged.\<close>

lemma metadata_echoes_endpoints:
  "let md = Some [(''note'', J_Text ''db.internal:5432''), (''postgres://u:p@h/d'', J_Text ''x'')]
   in redact_metadata md = md \<and> carries_host ''db.internal:5432'' \<and> carries_secret ''postgres://u:p@h/d''"
proof -
  have "carries_host ''db.internal:5432''"
    unfolding carries_host_def
    by (rule exI [of _ "[]"], rule exI [of _ "''db.internal''"], rule exI [of _ "''5432''"], rule exI [of _ "[]"])
      (simp add: word_ends_def word_starts_def host_char_def is_letter_def is_ascii_digit_def)
  moreover have "sensitive_val ''postgres://u:p@h/d''"
    by (simp add: sensitive_val_def sensitive_values_def lowered_def Let_def)
  ultimately show ?thesis
    by (simp add: carries_secret_iff redact_metadata_def redact_node.simps sensitive_key_def sensitive_keys_def
        sensitive_val_def sensitive_values_def lowered_def)
qed

section \<open>The fingerprint joins with a character the fields may have\<close>

definition sample_registry :: registry where
  "sample_registry = \<lparr>rg_lifecycle = Available, rg_flags = Available, rg_provisioning = None, rg_backup = None, rg_registry = Available\<rparr>"

definition sample_action :: "string \<Rightarrow> string \<Rightarrow> action_input" where
  "sample_action state reason =
     \<lparr>ip_type = ''lifecycle.transition'', ip_tenant = Some (Canonical 7), ip_reason = Some reason, ip_key = Some ''k-1'',
      ip_state = Some state, ip_confirm = True, ip_correlation = None, ip_metadata = None\<rparr>"

lemma sample_action_admissible [simp]:
  "strip reason \<noteq> [] \<Longrightarrow> admissible (\<lambda>_. Some sample_registry) (sample_action state reason)"
  by (simp add: admissible_def sample_action_def stripped_def or_blank_def strip_def [of "''k-1''"] is_space_def item_for_def
      row_find_def action_catalog_def resolve_action_source_status_def given_id_def uuid_text_def Let_def
      action_source_status_def lifecycle_actions_def sample_registry_def)

text \<open>
  Two different transitions under one key: the second asks for another state for another reason, and is answered
  as a duplicate of the first.
\<close>

lemma fingerprint_conflates_states:
  "let first = sample_action ''paused'' ''resumed|late payments'';
       other = sample_action ''paused|resumed'' ''late payments'';
       reg = (\<lambda>_. Some sample_registry);
       st = snd (evaluate_request sha reg 1 True first (empty_store uuids))
   in ip_state first \<noteq> ip_state other \<and> ar_result (fst (evaluate_request sha reg 2 True other st)) = Act_Duplicate"
proof -
  have s: "strip ''resumed|late payments'' = ''resumed|late payments''" "strip ''late payments'' = ''late payments''"
    "strip ''k-1'' = ''k-1''"
    by (simp_all add: strip_def is_space_def)
  have adm: "admissible (\<lambda>_. Some sample_registry) (sample_action state ''resumed|late payments'')"
    "admissible (\<lambda>_. Some sample_registry) (sample_action state ''late payments'')" for state
    using s by simp_all
  show ?thesis
    by (simp add: Let_def admissible_persisted [OF adm(1)] admissible_persisted [OF adm(2)] empty_store_def record_request_def)
      (simp add: sample_action_def fingerprint_def id_or_blank_def or_blank_def stripped_def s stored_response_def)
qed

theorem action_key_stands_for_one_request_witness:
  "case evaluate_request id (\<lambda>_. Some sample_registry) 9 True (sample_action ''paused'' ''late payments'')
     (snd (evaluate_request id (\<lambda>_. Some sample_registry) 1 True (sample_action ''paused'' ''late payments'') (empty_store id)))
   of (r, st) \<Rightarrow> ar_result r = Act_Duplicate \<and>
     st = snd (evaluate_request id (\<lambda>_. Some sample_registry) 1 True (sample_action ''paused'' ''late payments'') (empty_store id))"
proof -
  define inp where "inp = sample_action ''paused'' ''late payments''"
  define reg where "reg = (\<lambda>_ :: id_text. Some sample_registry)"
  have "strip ''late payments'' = ''late payments''" by (simp add: strip_def is_space_def)
  then have adm: "admissible reg inp" by (simp add: reg_def inp_def)
  obtain r st1 where first: "evaluate_request id reg 1 True inp (empty_store id) = (r, st1)"
    by (cases "evaluate_request id reg 1 True inp (empty_store id)")
  obtain r' st2 where second: "evaluate_request id reg 9 True inp st1 = (r', st2)" by (cases "evaluate_request id reg 9 True inp st1")
  have "ar_result r = Act_Accepted"
    using first by (simp add: admissible_persisted [OF adm] empty_store_def record_request_def Let_def) auto
  then show ?thesis
    using action_key_stands_for_one_request [of id "empty_store id" id "[]" reg 1 inp r st1 reg inp 9 "[]" r' st2] first second adm
    by (simp add: inp_def [symmetric] reg_def [symmetric])
qed

end
