(* ===== verification/Approval_Memory.thy ===== *)
theory Approval_Memory
  imports Action_Contract
begin

text \<open>
  Approval of platform actions under dual control (\<open>api/v1/platform/p20/schemas.py\<close> and \<open>services.py\<close>):
  the vocabulary of records, decisions and audit events, the context taken from the action service, and
  the process-local backend that opens requests, records the decisions of checkers and lists records.
  Instants are seconds; messages are left out.
\<close>

section \<open>Vocabulary\<close>

datatype approval_state = Pending_Review | Approved_Blocked | Rejected_State | Expired_State | Cancelled_State
  | Superseded_State | Failed_Validation

datatype vote = Approve | Reject

datatype approval_result = Recorded | Approved | Rejected | Denied | Duplicated | Conflicted | Not_Found | Quorum_Pending

datatype validation_status = Valid | Source_Unknown | Superseded_Scope | Stale

datatype approval_event = Approval_Opened | Approval_Decision_Recorded | Approval_Quorum_Met | Approval_Rejected
  | Approval_Expired | Approval_Cancelled | Approval_Superseded | Approval_Failed_Validation | Approval_Read
  | Approval_Exported | Approval_Denied | Approval_Purged

record checker_entry =
  ck_id :: string
  ck_at :: nat
  ck_vote :: vote
  ck_reason :: string
  ck_audit :: id_text

text \<open>\<open>DurableApprovalRecord\<close>, without the constant retention class and \<open>superseded_by\<close>.\<close>

record approval_record =
  ap_id :: "id_text option"
  ap_action :: "id_text option"
  ap_tenant :: "id_text option"
  ap_type :: "string option"
  ap_class :: "action_class option"
  ap_state :: "approval_state option"
  ap_maker :: "string option"
  ap_maker_at :: "nat option"
  ap_checkers :: "checker_entry list"
  ap_quorum_required :: nat
  ap_quorum_met :: bool
  ap_decision :: "vote option"
  ap_reason :: string
  ap_digest :: "string option"
  ap_key_digest :: "string option"
  ap_expires :: "nat option"
  ap_retain :: "nat option"
  ap_execution_allowed :: bool
  ap_gate_blocked :: bool
  ap_redacted :: bool
  ap_durable :: bool
  ap_validation :: validation_status
  ap_previous :: "approval_state option"
  ap_audit :: "id_text option"
  ap_correlation :: "string option"
  ap_source :: source_status
  ap_result :: approval_result
  ap_executed :: bool
  ap_created :: "nat option"
  ap_updated :: "nat option"

record audit_event =
  ev_id :: id_text
  ev_type :: approval_event
  ev_approval :: "id_text option"
  ev_action :: "id_text option"
  ev_actor :: "string option"
  ev_role :: string
  ev_context :: string
  ev_tenant :: "id_text option"
  ev_decision :: "vote option"
  ev_previous :: "approval_state option"
  ev_next :: "approval_state option"
  ev_reason :: string
  ev_at :: nat
  ev_digest :: "string option"
  ev_quorum_required :: nat
  ev_quorum_met :: bool
  ev_checker :: "string option"
  ev_correlation :: "string option"

text \<open>The two request bodies, and what the route reads of the caller's token.\<close>

record create_input =
  ci_action :: "id_text option"
  ci_tenant :: "id_text option"
  ci_type :: "string option"
  ci_maker :: "string option"
  ci_reason :: "string option"
  ci_key :: "string option"
  ci_expires :: "nat option"
  ci_retain :: "nat option"
  ci_confirm :: bool
  ci_correlation :: "string option"
  ci_metadata :: "(string \<times> json) list option"

record decision_input =
  di_decision :: "string option"
  di_approver :: "string option"
  di_reason :: "string option"
  di_key :: "string option"
  di_confirm :: bool
  di_correlation :: "string option"
  di_metadata :: "(string \<times> json) list option"

record caller =
  cl_actor :: "string option"
  cl_role :: string
  cl_context :: string

definition vote_of :: "string option \<Rightarrow> vote option" where
  "vote_of d = (if d = Some ''approve'' then Some Approve else if d = Some ''reject'' then Some Reject else None)"

definition bound_actor :: "caller \<Rightarrow> string option" where
  "bound_actor cl = (case cl_actor cl of None \<Rightarrow> None | Some a \<Rightarrow> if a = [] then None else sanitize_text (Some a))"

text \<open>A payload identity that is given and differs from the authenticated one.\<close>

definition spoofed :: "string option \<Rightarrow> caller \<Rightarrow> bool" where
  "spoofed given cl \<longleftrightarrow> stripped given \<noteq> [] \<and> cl_actor cl \<noteq> Some (stripped given)"

section \<open>The action behind an approval\<close>

definition action_class_for :: "string option \<Rightarrow> action_class option" where
  "action_class_for t = (case t of None \<Rightarrow> None | Some s \<Rightarrow> if s = [] then None else map_option ai_class (item_for s))"

definition quorum_required_for :: "action_class option \<Rightarrow> nat" where
  "quorum_required_for c = (if c = Some Read_Class then 1 else 2)"

definition or_write :: "action_class option \<Rightarrow> action_class" where
  "or_write c = (case c of None \<Rightarrow> Write_Class | Some k \<Rightarrow> k)"

definition resolve_p18_context ::
  "action_store \<Rightarrow> registry_reader \<Rightarrow> id_text option \<Rightarrow> string option \<Rightarrow> id_text option
   \<Rightarrow> (string \<times> source_status \<times> action_class) option" where
  "resolve_p18_context acts reg action t tenant =
     (case given_id action of
        Some aid \<Rightarrow>
          (case get_stored_request aid acts of
             None \<Rightarrow> None
           | Some r \<Rightarrow> Some (ar_type r, ar_source r, or_write (action_class_for (Some (ar_type r)))))
      | None \<Rightarrow>
          (case t of
             None \<Rightarrow> None
           | Some s \<Rightarrow>
               if s \<noteq> [] \<and> known_action_type s
               then Some (s, resolve_action_source_status reg s tenant, or_write (action_class_for (Some s)))
               else None))"

definition validation_of :: "source_status \<Rightarrow> validation_status" where
  "validation_of s = (if s = Available then Valid else Source_Unknown)"

definition request_digest :: "(string \<Rightarrow> string) \<Rightarrow> string \<Rightarrow> string \<Rightarrow> string \<Rightarrow> string \<Rightarrow> string" where
  "request_digest sha action t tenant maker = sha (bar_join [action, t, tenant, maker])"

definition create_fingerprint :: "(string \<Rightarrow> string) \<Rightarrow> string \<Rightarrow> string \<Rightarrow> string \<Rightarrow> string \<Rightarrow> string" where
  "create_fingerprint sha t tenant maker reason = sha (bar_join [t, tenant, maker, reason])"

section \<open>The process-local store\<close>

record memory_approval =
  ma_id :: id_text
  ma_action :: "id_text option"
  ma_tenant :: "id_text option"
  ma_type :: string
  ma_class :: action_class
  ma_state :: approval_state
  ma_maker :: string
  ma_maker_at :: nat
  ma_checkers :: "checker_entry list"
  ma_quorum :: nat
  ma_quorum_met :: bool
  ma_decision :: "vote option"
  ma_reason :: string
  ma_digest :: string
  ma_key_digest :: string
  ma_expires :: nat
  ma_retain :: nat
  ma_validation :: validation_status
  ma_source :: source_status
  ma_previous :: "approval_state option"
  ma_correlation :: "string option"
  ma_audit :: id_text
  ma_created :: nat
  ma_updated :: nat
  ma_fingerprint :: string

record memory_store =
  mm_approvals :: "(id_text \<times> memory_approval) list"
  mm_by_key :: "(string \<times> id_text) list"
  mm_audit :: "audit_event list"
  mm_uuids :: "nat \<Rightarrow> uuid"
  mm_drawn :: nat

definition memory_emit :: "audit_event \<Rightarrow> memory_store \<Rightarrow> id_text \<times> memory_store" where
  "memory_emit e st =
     (let eid = Canonical (mm_uuids st (mm_drawn st)) in
      (eid, st\<lparr>mm_audit := mm_audit st @ [e\<lparr>ev_id := eid, ev_reason := redact_reason (ev_reason e)\<rparr>], mm_drawn := Suc (mm_drawn st)\<rparr>))"

text \<open>An event by a caller, before its particulars; its id is given when it is emitted.\<close>

definition event_by :: "caller \<Rightarrow> nat \<Rightarrow> approval_event \<Rightarrow> audit_event" where
  "event_by cl now t =
     \<lparr>ev_id = Malformed [], ev_type = t, ev_approval = None, ev_action = None, ev_actor = cl_actor cl, ev_role = cl_role cl,
      ev_context = cl_context cl, ev_tenant = None, ev_decision = None, ev_previous = None, ev_next = None, ev_reason = [],
      ev_at = now, ev_digest = None, ev_quorum_required = 0, ev_quorum_met = False, ev_checker = None, ev_correlation = None\<rparr>"

definition event_about :: "memory_approval \<Rightarrow> audit_event \<Rightarrow> audit_event" where
  "event_about rec e = e\<lparr>ev_approval := Some (ma_id rec), ev_action := ma_action rec, ev_tenant := ma_tenant rec,
     ev_digest := Some (ma_digest rec), ev_quorum_required := ma_quorum rec, ev_quorum_met := ma_quorum_met rec\<rparr>"

definition no_record :: "bool \<Rightarrow> approval_result \<Rightarrow> nat option \<Rightarrow> approval_record" where
  "no_record durable r now =
     \<lparr>ap_id = None, ap_action = None, ap_tenant = None, ap_type = None, ap_class = None, ap_state = None, ap_maker = None,
      ap_maker_at = None, ap_checkers = [], ap_quorum_required = 0, ap_quorum_met = False, ap_decision = None, ap_reason = [],
      ap_digest = None, ap_key_digest = None, ap_expires = None, ap_retain = None, ap_execution_allowed = False,
      ap_gate_blocked = True, ap_redacted = True, ap_durable = durable, ap_validation = Valid, ap_previous = None,
      ap_audit = None, ap_correlation = None, ap_source = Unknown_Status, ap_result = r, ap_executed = False,
      ap_created = None, ap_updated = now\<rparr>"

definition record_from :: "memory_approval \<Rightarrow> approval_result \<Rightarrow> nat \<Rightarrow> approval_record" where
  "record_from rec r now =
     \<lparr>ap_id = Some (ma_id rec), ap_action = ma_action rec, ap_tenant = ma_tenant rec, ap_type = Some (ma_type rec),
      ap_class = Some (ma_class rec), ap_state = Some (ma_state rec), ap_maker = Some (ma_maker rec),
      ap_maker_at = Some (ma_maker_at rec), ap_checkers = ma_checkers rec, ap_quorum_required = ma_quorum rec,
      ap_quorum_met = ma_quorum_met rec, ap_decision = ma_decision rec, ap_reason = ma_reason rec,
      ap_digest = Some (ma_digest rec), ap_key_digest = Some (ma_key_digest rec), ap_expires = Some (ma_expires rec),
      ap_retain = Some (ma_retain rec), ap_execution_allowed = False, ap_gate_blocked = True, ap_redacted = True,
      ap_durable = False, ap_validation = ma_validation rec, ap_previous = ma_previous rec, ap_audit = Some (ma_audit rec),
      ap_correlation = ma_correlation rec, ap_source = ma_source rec, ap_result = r, ap_executed = False,
      ap_created = Some (ma_created rec), ap_updated = Some now\<rparr>"

section \<open>Opening a request\<close>

text \<open>The guards of a create, in order: authenticated maker, no other maker claimed, reason, key, confirmation, expiry.\<close>

definition create_refused :: "caller \<Rightarrow> nat \<Rightarrow> create_input \<Rightarrow> bool" where
  "create_refused cl now inp \<longleftrightarrow>
     bound_actor cl = None \<or> spoofed (ci_maker inp) cl \<or> stripped (ci_reason inp) = [] \<or> stripped (ci_key inp) = [] \<or>
     \<not> ci_confirm inp \<or> (case ci_expires inp of None \<Rightarrow> True | Some e \<Rightarrow> e \<le> now)"

definition memory_create_denied ::
  "caller \<Rightarrow> nat \<Rightarrow> create_input \<Rightarrow> approval_result \<Rightarrow> memory_store \<Rightarrow> approval_record \<times> memory_store" where
  "memory_create_denied cl now inp r st =
     (let e = (event_by cl now Approval_Denied)\<lparr>ev_tenant := ci_tenant inp, ev_action := ci_action inp,
                ev_reason := redact_reason (stripped (ci_reason inp)), ev_correlation := sanitize_text (ci_correlation inp)\<rparr>
      in (no_record False r (Some now), snd (memory_emit e st)))"

definition memory_open ::
  "(string \<Rightarrow> string) \<Rightarrow> caller \<Rightarrow> nat \<Rightarrow> create_input \<Rightarrow> string \<Rightarrow> string \<times> source_status \<times> action_class
   \<Rightarrow> memory_store \<Rightarrow> approval_record \<times> memory_store" where
  "memory_open sha cl now inp maker ctx st =
     (case ctx of (t, source, cls) \<Rightarrow>
       let key = sha (stripped (ci_key inp)); aid = Canonical (mm_uuids st (mm_drawn st));
           st0 = st\<lparr>mm_drawn := Suc (mm_drawn st)\<rparr>; reason = redact_reason (stripped (ci_reason inp));
           digest = request_digest sha (id_or_blank (ci_action inp)) t (id_or_blank (ci_tenant inp)) maker;
           quorum = quorum_required_for (Some cls); correlation = sanitize_text (ci_correlation inp);
           expires = (case ci_expires inp of None \<Rightarrow> now | Some e \<Rightarrow> e);
           (eid, st1) = memory_emit ((event_by cl now Approval_Opened)\<lparr>ev_approval := Some aid, ev_action := ci_action inp,
              ev_tenant := ci_tenant inp, ev_next := Some Pending_Review, ev_reason := reason, ev_digest := Some digest,
              ev_quorum_required := quorum, ev_correlation := correlation\<rparr>) st0;
           rec = \<lparr>ma_id = aid, ma_action = ci_action inp, ma_tenant = ci_tenant inp, ma_type = or_blank (sanitize_text (Some t)),
                  ma_class = cls, ma_state = Pending_Review, ma_maker = maker, ma_maker_at = now, ma_checkers = [],
                  ma_quorum = quorum, ma_quorum_met = False, ma_decision = None, ma_reason = reason, ma_digest = digest,
                  ma_key_digest = key, ma_expires = expires,
                  ma_retain = (case ci_retain inp of None \<Rightarrow> expires | Some r \<Rightarrow> r),
                  ma_validation = validation_of source, ma_source = source, ma_previous = None, ma_correlation = correlation,
                  ma_audit = eid, ma_created = now, ma_updated = now,
                  ma_fingerprint = create_fingerprint sha t (id_or_blank (ci_tenant inp)) maker (stripped (ci_reason inp))\<rparr>
       in (record_from rec Recorded now,
           st1\<lparr>mm_approvals := AList.update aid rec (mm_approvals st1), mm_by_key := AList.update key aid (mm_by_key st1)\<rparr>))"

definition memory_create ::
  "(string \<Rightarrow> string) \<Rightarrow> action_store \<Rightarrow> registry_reader \<Rightarrow> caller \<Rightarrow> nat \<Rightarrow> create_input \<Rightarrow> memory_store
   \<Rightarrow> approval_record \<times> memory_store" where
  "memory_create sha acts reg cl now inp st =
     (if create_refused cl now inp then memory_create_denied cl now inp Denied st
      else case resolve_p18_context acts reg (ci_action inp) (ci_type inp) (ci_tenant inp) of
        None \<Rightarrow> memory_create_denied cl now inp Not_Found st
      | Some ctx \<Rightarrow>
          (case bound_actor cl of
             None \<Rightarrow> memory_create_denied cl now inp Denied st
           | Some maker \<Rightarrow>
               (case map_of (mm_by_key st) (sha (stripped (ci_key inp))) of
                  None \<Rightarrow> memory_open sha cl now inp maker ctx st
                | Some eid \<Rightarrow>
                    (case map_of (mm_approvals st) eid of
                       None \<Rightarrow> memory_create_denied cl now inp Denied st
                     | Some existing \<Rightarrow>
                         if ma_fingerprint existing =
                            create_fingerprint sha (fst ctx) (id_or_blank (ci_tenant inp)) maker (stripped (ci_reason inp))
                         then (record_from existing Duplicated now,
                               snd (memory_emit ((event_about existing (event_by cl now Approval_Opened))\<lparr>ev_tenant := ci_tenant inp,
                                  ev_next := Some (ma_state existing), ev_reason := ma_reason existing,
                                  ev_correlation := ma_correlation existing\<rparr>) st))
                         else memory_create_denied cl now inp Conflicted st))))"

section \<open>Recording a decision\<close>

definition decision_refused :: "caller \<Rightarrow> decision_input \<Rightarrow> bool" where
  "decision_refused cl inp \<longleftrightarrow>
     bound_actor cl = None \<or> spoofed (di_approver inp) cl \<or> vote_of (di_decision inp) = None \<or>
     stripped (di_reason inp) = [] \<or> stripped (di_key inp) = [] \<or> \<not> di_confirm inp"

definition unimplemented_states :: "approval_state list" where
  "unimplemented_states = [Expired_State, Cancelled_State, Superseded_State, Failed_Validation]"

definition memory_decision_denied ::
  "caller \<Rightarrow> nat \<Rightarrow> id_text \<Rightarrow> decision_input \<Rightarrow> memory_approval option \<Rightarrow> approval_result \<Rightarrow> memory_store
   \<Rightarrow> approval_record \<times> memory_store" where
  "memory_decision_denied cl now aid inp rec r st =
     (let e = (event_by cl now Approval_Denied)\<lparr>ev_reason := redact_reason (stripped (di_reason inp)),
                ev_checker := bound_actor cl, ev_correlation := sanitize_text (di_correlation inp)\<rparr>;
          e' = (case rec of None \<Rightarrow> e | Some m \<Rightarrow> (event_about m e)\<lparr>ev_previous := Some (ma_state m), ev_next := Some (ma_state m)\<rparr>)
      in (case rec of None \<Rightarrow> no_record False r (Some now) | Some m \<Rightarrow> record_from m r now,
          snd (memory_emit (e'\<lparr>ev_approval := Some aid\<rparr>) st)))"

text \<open>An event of a decision on a record.\<close>

definition decision_event ::
  "caller \<Rightarrow> nat \<Rightarrow> decision_input \<Rightarrow> memory_approval \<Rightarrow> approval_event \<Rightarrow> vote \<Rightarrow> approval_state \<Rightarrow> bool \<Rightarrow> audit_event" where
  "decision_event cl now inp rec t v next_state met =
     (event_about rec (event_by cl now t))\<lparr>ev_decision := Some v, ev_previous := Some (ma_state rec), ev_next := Some next_state,
        ev_reason := redact_reason (stripped (di_reason inp)), ev_quorum_met := met, ev_checker := bound_actor cl,
        ev_correlation := sanitize_text (di_correlation inp)\<rparr>"

definition put_approval :: "memory_approval \<Rightarrow> memory_store \<Rightarrow> memory_store" where
  "put_approval rec st = st\<lparr>mm_approvals := AList.update (ma_id rec) rec (mm_approvals st)\<rparr>"

definition approvals_in :: "checker_entry list \<Rightarrow> nat" where
  "approvals_in cs = length (filter (\<lambda>c. ck_vote c = Approve) cs)"

definition memory_vote ::
  "caller \<Rightarrow> nat \<Rightarrow> decision_input \<Rightarrow> string \<Rightarrow> vote \<Rightarrow> memory_approval \<Rightarrow> memory_store \<Rightarrow> approval_record \<times> memory_store" where
  "memory_vote cl now inp checker v rec st =
     (let reason = redact_reason (stripped (di_reason inp));
          (eid, st1) = memory_emit (decision_event cl now inp rec Approval_Decision_Recorded v
             (if v = Reject then Rejected_State else Pending_Review) False) st;
          voted = rec\<lparr>ma_checkers := ma_checkers rec @ [\<lparr>ck_id = checker, ck_at = now, ck_vote = v, ck_reason = reason, ck_audit = eid\<rparr>],
                       ma_updated := now\<rparr>
      in if v = Reject
         then (let (qid, st2) = memory_emit (decision_event cl now inp rec Approval_Rejected v Rejected_State False) st1;
                   rec' = voted\<lparr>ma_previous := Some (ma_state rec), ma_state := Rejected_State, ma_decision := Some Reject, ma_audit := qid\<rparr>
               in (record_from rec' Rejected now, put_approval rec' st2))
         else if ma_quorum rec \<le> approvals_in (ma_checkers voted)
         then (let (qid, st2) = memory_emit (decision_event cl now inp rec Approval_Quorum_Met v Approved_Blocked True) st1;
                   rec' = voted\<lparr>ma_previous := Some (ma_state rec), ma_state := Approved_Blocked, ma_decision := Some Approve,
                                ma_quorum_met := True, ma_audit := qid\<rparr>
               in (record_from rec' Approved now, put_approval rec' st2))
         else (record_from voted Quorum_Pending now, put_approval voted st1))"

definition checker_vote :: "string \<Rightarrow> checker_entry list \<Rightarrow> vote option" where
  "checker_vote c cs = map_option ck_vote (find (\<lambda>k. ck_id k = c) cs)"

definition memory_submit_decision ::
  "caller \<Rightarrow> nat \<Rightarrow> id_text \<Rightarrow> decision_input \<Rightarrow> memory_store \<Rightarrow> approval_record \<times> memory_store" where
  "memory_submit_decision cl now aid inp st =
     (case map_of (mm_approvals st) aid of
        None \<Rightarrow> memory_decision_denied cl now aid inp None Not_Found st
      | Some rec \<Rightarrow>
          (let denied = (\<lambda>r. memory_decision_denied cl now aid inp (Some rec) r st) in
           if decision_refused cl inp then denied Denied
           else case (bound_actor cl, vote_of (di_decision inp)) of
             (Some checker, Some v) \<Rightarrow>
               (if ma_state rec \<in> set unimplemented_states then denied Denied
                else if checker = ma_maker rec then denied Denied
                else
                  (let existing = checker_vote checker (ma_checkers rec) in
                   if ma_state rec = Rejected_State
                   then (if existing = Some v
                         then (record_from rec Duplicated now,
                               snd (memory_emit (decision_event cl now inp rec Approval_Rejected Reject Rejected_State False) st))
                         else denied Conflicted)
                   else if ma_state rec = Approved_Blocked
                   then (if v = Approve \<and> existing \<noteq> Some Reject then (record_from rec Duplicated now, st) else denied Conflicted)
                   else if existing \<noteq> None
                   then (if existing = Some v then (record_from rec Duplicated now, st) else denied Conflicted)
                   else if v = Approve \<and> ma_validation rec \<noteq> Valid then denied Denied
                   else memory_vote cl now inp checker v rec st))
           | _ \<Rightarrow> denied Denied))"

section \<open>Reading and listing\<close>

definition memory_read :: "id_text \<Rightarrow> memory_store \<Rightarrow> approval_record option" where
  "memory_read aid st = map_option (\<lambda>rec. record_from rec Recorded (ma_updated rec)) (map_of (mm_approvals st) aid)"

text \<open>The optional filters: state, action type and tenant.\<close>

definition memory_list ::
  "int \<Rightarrow> int \<Rightarrow> approval_state option \<Rightarrow> string option \<Rightarrow> id_text option \<Rightarrow> memory_store \<Rightarrow> approval_record list \<times> nat" where
  "memory_list limit offset state t tenant st =
     (let safe_limit = max 1 (min limit 100); safe_offset = max 0 offset;
          records = filter (\<lambda>rec. (state = None \<or> state = Some (ma_state rec)) \<and> (or_blank t = [] \<or> t = Some (ma_type rec)) \<and>
                        (given_id tenant = None \<or> tenant = ma_tenant rec))
                      (sort_key (\<lambda>rec. - int (ma_created rec)) (map snd (mm_approvals st)))
      in (map (\<lambda>rec. record_from rec Recorded (ma_updated rec)) (take (nat safe_limit) (drop (nat safe_offset) records)),
          length records))"

end
