(* ===== verification/Approval_Store.thy ===== *)
theory Approval_Store
  imports Approval_Memory
begin

text \<open>
  The durable backend of the approvals (\<open>api/v1/platform/p21/adapter.py\<close>, \<open>models.py\<close>, the constraints of
  migration 029). A database holds requests, decisions, audit events and idempotency keys. An operation reads
  first and writes later in one transaction, while other transactions commit in between, so it takes what it
  read (a key, a request, its decisions), the database in which it read the next audit number, and the database
  it commits to. Surrogate keys nobody reads are left out.
\<close>

section \<open>Rows\<close>

datatype durable_source = Source_Valid | Source_Not_Known | Source_Unavailable | Source_Degraded

definition source_status_map :: "source_status \<Rightarrow> durable_source" where
  "source_status_map s =
     (case s of Available \<Rightarrow> Source_Valid | Unknown_Status \<Rightarrow> Source_Not_Known | Unavailable \<Rightarrow> Source_Unavailable)"

definition durable_to_p20_source_status :: "durable_source \<Rightarrow> source_status" where
  "durable_to_p20_source_status s =
     (case s of Source_Valid \<Rightarrow> Available | Source_Not_Known \<Rightarrow> Unknown_Status | Source_Unavailable \<Rightarrow> Unavailable
      | Source_Degraded \<Rightarrow> Unknown_Status)"

record request_row =
  rq_id :: uuid
  rq_action :: uuid
  rq_tenant :: "uuid option"
  rq_type :: string
  rq_class :: action_class
  rq_state :: approval_state
  rq_maker :: string
  rq_maker_at :: nat
  rq_quorum :: nat
  rq_quorum_met :: bool
  rq_decision :: "vote option"
  rq_reason :: string
  rq_metadata :: "(string \<times> json) list option"
  rq_digest :: string
  rq_key_digest :: string
  rq_source :: durable_source
  rq_validation :: validation_status
  rq_expires :: nat
  rq_retain :: nat
  rq_previous :: "approval_state option"
  rq_last_audit :: uuid
  rq_correlation :: "string option"
  rq_version :: nat
  rq_created :: nat
  rq_updated :: nat

record decision_row =
  dr_approval :: uuid
  dr_checker :: string
  dr_vote :: vote
  dr_reason :: string
  dr_metadata :: "(string \<times> json) list option"
  dr_key_digest :: string
  dr_digest :: string
  dr_confirm :: bool
  dr_audit :: uuid
  dr_correlation :: "string option"
  dr_created :: nat

datatype key_scope = Open_Scope | Decide_Scope uuid

record key_row =
  ik_scope :: key_scope
  ik_digest :: string
  ik_payload :: string
  ik_ref :: uuid

datatype audit_result = Audit_Success | Audit_Denied | Audit_Idempotent | Audit_Conflict | Audit_Expired | Audit_Error

record audit_row =
  au_id :: uuid
  au_approval :: "uuid option"
  au_action :: "uuid option"
  au_actor :: string
  au_role :: string
  au_context :: string
  au_type :: approval_event
  au_vote :: "vote option"
  au_result :: audit_result
  au_previous :: "approval_state option"
  au_next :: "approval_state option"
  au_reason :: string
  au_digest :: "string option"
  au_tenant :: "uuid option"
  au_quorum :: nat
  au_quorum_met :: bool
  au_correlation :: "string option"
  au_seq :: nat
  au_at :: nat

record approval_db =
  ad_requests :: "request_row list"
  ad_decisions :: "decision_row list"
  ad_audit :: "audit_row list"
  ad_keys :: "key_row list"
  ad_uuids :: "nat \<Rightarrow> uuid"
  ad_drawn :: nat

section \<open>Outcomes\<close>

datatype store_code = Not_Authorized | Self_Decision_Denied | Decision_Conflict | Idempotent_Replay | Code_Expired | Terminal
  | Unknown_Source | Stale_Write | Read_Only | Code_Not_Found | Store_Unknown

text \<open>Exceptions that leave the adapter: a malformed UUID, a violated unique index, a value a column refuses.\<close>

datatype store_fault = Bad_Uuid | Integrity_Fault | Data_Fault

datatype 'a store_result = Store_Ok 'a | Store_Err store_code | Store_Raise store_fault

definition to_uuid :: "id_text option \<Rightarrow> store_fault + uuid option" where
  "to_uuid v = (case v of None \<Rightarrow> Inr None
     | Some t \<Rightarrow> (case parse_uuid t of None \<Rightarrow> Inl Bad_Uuid | Some u \<Rightarrow> Inr (Some u)))"

section \<open>Audit events\<close>

definition audit_result_by_event_type :: "approval_event \<Rightarrow> audit_result" where
  "audit_result_by_event_type t =
     (case t of Approval_Expired \<Rightarrow> Audit_Expired | Approval_Failed_Validation \<Rightarrow> Audit_Error | Approval_Denied \<Rightarrow> Audit_Denied
      | _ \<Rightarrow> Audit_Success)"

definition derive_audit_result :: "approval_event \<Rightarrow> audit_result option \<Rightarrow> audit_result" where
  "derive_audit_result t outcome = (case outcome of Some r \<Rightarrow> r | None \<Rightarrow> audit_result_by_event_type t)"

definition next_sequence_no :: "approval_db \<Rightarrow> uuid option \<Rightarrow> nat" where
  "next_sequence_no db a = Suc (fold max (map au_seq (filter (\<lambda>e. au_approval e = a) (ad_audit db))) 0)"

definition actor_roles :: "string list" where
  "actor_roles = [''super_admin'', ''support_operator'', ''engineering_operator'', ''system'']"

definition audit_fits :: "audit_row \<Rightarrow> bool" where
  "audit_fits e \<longleftrightarrow> length (au_actor e) \<le> 255 \<and> length (or_blank (au_correlation e)) \<le> 255 \<and> au_role e \<in> set actor_roles"

text \<open>An event by a caller, before its particulars; id, number, result and redaction come when it is emitted.\<close>

definition audit_by :: "caller \<Rightarrow> nat \<Rightarrow> approval_event \<Rightarrow> audit_row" where
  "audit_by cl now t =
     \<lparr>au_id = 0, au_approval = None, au_action = None, au_actor = or_blank (cl_actor cl), au_role = cl_role cl,
      au_context = cl_context cl, au_type = t, au_vote = None, au_result = Audit_Success, au_previous = None, au_next = None,
      au_reason = [], au_digest = None, au_tenant = None, au_quorum = 0, au_quorum_met = False, au_correlation = None,
      au_seq = 0, au_at = now\<rparr>"

definition audit_about :: "request_row \<Rightarrow> audit_row \<Rightarrow> audit_row" where
  "audit_about req e = e\<lparr>au_approval := Some (rq_id req), au_action := Some (rq_action req), au_tenant := rq_tenant req,
     au_digest := Some (rq_digest req), au_quorum := rq_quorum req, au_quorum_met := rq_quorum_met req\<rparr>"

text \<open>\<open>uq_audit_approval_seq\<close>: no two events of an approval have one number; events without an approval are exempt.\<close>

definition number_taken :: "approval_db \<Rightarrow> uuid option \<Rightarrow> nat \<Rightarrow> bool" where
  "number_taken db a n \<longleftrightarrow> a \<noteq> None \<and> list_ex (\<lambda>e. au_approval e = a \<and> au_seq e = n) (ad_audit db)"

definition emit_audit ::
  "approval_db \<Rightarrow> audit_result option \<Rightarrow> audit_row \<Rightarrow> approval_db \<Rightarrow> store_fault + uuid \<times> approval_db" where
  "emit_audit numbered outcome e db =
     (let u = ad_uuids db (ad_drawn db); n = next_sequence_no numbered (au_approval e);
          row = e\<lparr>au_id := u, au_seq := n, au_result := derive_audit_result (au_type e) outcome, au_reason := redact_reason (au_reason e)\<rparr>
      in if \<not> audit_fits e then Inl Data_Fault
         else if number_taken db (au_approval e) n then Inl Integrity_Fault
         else Inr (u, db\<lparr>ad_audit := ad_audit db @ [row], ad_drawn := Suc (ad_drawn db)\<rparr>))"

section \<open>Selects and records\<close>

definition find_idempotency_row :: "key_scope \<Rightarrow> string \<Rightarrow> approval_db \<Rightarrow> key_row option" where
  "find_idempotency_row scope d db = find (\<lambda>r. ik_scope r = scope \<and> ik_digest r = d) (ad_keys db)"

definition fetch_request :: "uuid \<Rightarrow> approval_db \<Rightarrow> request_row option" where
  "fetch_request a db = row_find rq_id a (ad_requests db)"

definition fetch_decisions :: "uuid \<Rightarrow> approval_db \<Rightarrow> decision_row list" where
  "fetch_decisions a db = sort_key dr_created (filter (\<lambda>d. dr_approval d = a) (ad_decisions db))"

definition build_record :: "request_row \<Rightarrow> decision_row list \<Rightarrow> approval_result \<Rightarrow> nat \<Rightarrow> approval_record" where
  "build_record req ds r now =
     \<lparr>ap_id = Some (str_uuid (rq_id req)), ap_action = Some (str_uuid (rq_action req)), ap_tenant = map_option str_uuid (rq_tenant req),
      ap_type = Some (rq_type req), ap_class = Some (rq_class req), ap_state = Some (rq_state req), ap_maker = Some (rq_maker req),
      ap_maker_at = Some (rq_maker_at req),
      ap_checkers = map (\<lambda>d. \<lparr>ck_id = dr_checker d, ck_at = dr_created d, ck_vote = dr_vote d, ck_reason = dr_reason d,
                              ck_audit = str_uuid (dr_audit d)\<rparr>) (sort_key dr_created ds),
      ap_quorum_required = rq_quorum req, ap_quorum_met = rq_quorum_met req, ap_decision = rq_decision req,
      ap_reason = rq_reason req, ap_digest = Some (rq_digest req), ap_key_digest = Some (rq_key_digest req),
      ap_expires = Some (rq_expires req), ap_retain = Some (rq_retain req), ap_execution_allowed = False, ap_gate_blocked = True,
      ap_redacted = True, ap_durable = True, ap_validation = rq_validation req, ap_previous = rq_previous req,
      ap_audit = Some (str_uuid (rq_last_audit req)), ap_correlation = rq_correlation req,
      ap_source = durable_to_p20_source_status (rq_source req), ap_result = r, ap_executed = False,
      ap_created = Some (rq_created req), ap_updated = Some now\<rparr>"

section \<open>Opening a request\<close>

definition create_denied ::
  "approval_db \<Rightarrow> caller \<Rightarrow> nat \<Rightarrow> create_input \<Rightarrow> store_code \<Rightarrow> audit_result \<Rightarrow> approval_db
   \<Rightarrow> approval_record store_result \<times> approval_db" where
  "create_denied numbered cl now inp code outcome db =
     (case (to_uuid (ci_action inp), to_uuid (ci_tenant inp)) of
        (Inr action, Inr tenant) \<Rightarrow>
          (case emit_audit numbered (Some outcome) ((audit_by cl now Approval_Denied)\<lparr>au_action := action, au_tenant := tenant,
                  au_reason := redact_reason (stripped (ci_reason inp)), au_correlation := sanitize_text (ci_correlation inp)\<rparr>) db of
             Inl f \<Rightarrow> (Store_Raise f, db)
           | Inr (u, db') \<Rightarrow> (Store_Err code, db'))
      | _ \<Rightarrow> (Store_Raise Bad_Uuid, db))"

definition open_state :: "approval_state \<Rightarrow> bool" where
  "open_state s \<longleftrightarrow> s = Pending_Review \<or> s = Approved_Blocked"

text \<open>\<open>uq_requests_active_digest\<close>, \<open>uq_requests_open_action_maker\<close> and \<open>uq_idem_scope\<close>.\<close>

definition request_collides :: "request_row \<Rightarrow> approval_db \<Rightarrow> bool" where
  "request_collides req db \<longleftrightarrow>
     list_ex (\<lambda>r. open_state (rq_state r) \<and>
        (rq_digest r = rq_digest req \<or> rq_action r = rq_action req \<and> rq_maker r = rq_maker req)) (ad_requests db)"

definition key_collides :: "key_row \<Rightarrow> approval_db \<Rightarrow> bool" where
  "key_collides k db \<longleftrightarrow> find_idempotency_row (ik_scope k) (ik_digest k) db \<noteq> None"

definition draw_approval :: "approval_db \<Rightarrow> uuid \<times> approval_db" where
  "draw_approval db = (ad_uuids db (ad_drawn db), db\<lparr>ad_drawn := Suc (ad_drawn db)\<rparr>)"

text \<open>The id of the action: the one given, or a new one.\<close>

definition stored_action :: "uuid option \<Rightarrow> approval_db \<Rightarrow> uuid \<times> approval_db" where
  "stored_action action db = (case action of Some u \<Rightarrow> (u, db) | None \<Rightarrow> draw_approval db)"

definition open_request ::
  "(string \<Rightarrow> string) \<Rightarrow> caller \<Rightarrow> nat \<Rightarrow> create_input \<Rightarrow> string \<Rightarrow> string \<times> source_status \<times> action_class
   \<Rightarrow> approval_db \<Rightarrow> approval_record store_result \<times> approval_db" where
  "open_request sha cl now inp maker ctx db =
     (case ctx of (t0, source, cls) \<Rightarrow>
      case (to_uuid (given_id (ci_action inp)), to_uuid (ci_action inp), to_uuid (ci_tenant inp)) of
        (Inr given, Inr action, Inr tenant) \<Rightarrow>
          (let (aid, db1) = draw_approval db; (act, db2) = stored_action given db1;
               t = or_blank (sanitize_text (Some t0)); reason = redact_reason (stripped (ci_reason inp));
               digest = request_digest sha (id_or_blank (ci_action inp)) t (id_or_blank (ci_tenant inp)) maker;
               quorum = (if cls \<noteq> Read_Class then 2 else 1); correlation = sanitize_text (ci_correlation inp);
               expires = (case ci_expires inp of None \<Rightarrow> now | Some e \<Rightarrow> e);
               key = \<lparr>ik_scope = Open_Scope, ik_digest = sha (stripped (ci_key inp)),
                      ik_payload = create_fingerprint sha t (id_or_blank (ci_tenant inp)) maker reason, ik_ref = aid\<rparr>
           in case emit_audit db2 None ((audit_by cl now Approval_Opened)\<lparr>au_approval := Some aid, au_action := action,
                     au_tenant := tenant, au_next := Some Pending_Review, au_reason := reason, au_digest := Some digest,
                     au_quorum := quorum, au_correlation := correlation\<rparr>) db2 of
                Inl f \<Rightarrow> (Store_Raise f, db)
              | Inr (eid, db3) \<Rightarrow>
                  (let req = \<lparr>rq_id = aid, rq_action = act, rq_tenant = tenant, rq_type = t, rq_class = cls,
                              rq_state = Pending_Review, rq_maker = maker, rq_maker_at = now, rq_quorum = quorum,
                              rq_quorum_met = False, rq_decision = None, rq_reason = reason,
                              rq_metadata = redact_metadata (ci_metadata inp), rq_digest = digest, rq_key_digest = ik_digest key,
                              rq_source = source_status_map source, rq_validation = validation_of source, rq_expires = expires,
                              rq_retain = (case ci_retain inp of None \<Rightarrow> expires | Some r \<Rightarrow> r), rq_previous = None,
                              rq_last_audit = eid, rq_correlation = correlation, rq_version = 1, rq_created = now, rq_updated = now\<rparr>
                   in if request_collides req db3 \<or> key_collides key db3 then (Store_Err Decision_Conflict, db)
                      else (Store_Ok (build_record req [] Recorded now),
                            db3\<lparr>ad_requests := ad_requests db3 @ [req], ad_keys := ad_keys db3 @ [key]\<rparr>)))
      | _ \<Rightarrow> (Store_Raise Bad_Uuid, db))"

text \<open>A create whose select of the idempotency key found \<open>seen\<close>.\<close>

definition create_request ::
  "(string \<Rightarrow> string) \<Rightarrow> caller \<Rightarrow> nat \<Rightarrow> create_input \<Rightarrow> string \<times> source_status \<times> action_class
   \<Rightarrow> key_row option \<Rightarrow> approval_db \<Rightarrow> approval_db \<Rightarrow> approval_record store_result \<times> approval_db" where
  "create_request sha cl now inp ctx seen numbered db =
     (let denied = (\<lambda>code outcome. create_denied numbered cl now inp code outcome db) in
      if create_refused cl now inp then denied Not_Authorized Audit_Denied
      else if fst ctx = [] then denied Code_Not_Found Audit_Denied
      else case bound_actor cl of
        None \<Rightarrow> denied Not_Authorized Audit_Denied
      | Some maker \<Rightarrow>
          (case seen of
             None \<Rightarrow> open_request sha cl now inp maker ctx db
           | Some key \<Rightarrow>
               if ik_payload key = create_fingerprint sha (or_blank (sanitize_text (Some (fst ctx)))) (id_or_blank (ci_tenant inp)) maker
                    (redact_reason (stripped (ci_reason inp)))
               then (case fetch_request (ik_ref key) numbered of
                       None \<Rightarrow> (Store_Err Store_Unknown, db)
                     | Some req \<Rightarrow>
                         (case to_uuid (ci_tenant inp) of
                            Inl f \<Rightarrow> (Store_Raise f, db)
                          | Inr tenant \<Rightarrow>
                              (case emit_audit numbered (Some Audit_Idempotent) ((audit_about req (audit_by cl now Approval_Opened))
                                      \<lparr>au_tenant := tenant, au_next := Some (rq_state req), au_reason := rq_reason req,
                                       au_correlation := rq_correlation req\<rparr>) db of
                                 Inl f \<Rightarrow> (Store_Raise f, db)
                               | Inr (u, db') \<Rightarrow> (Store_Ok (build_record req (fetch_decisions (rq_id req) numbered) Duplicated now), db'))))
               else denied Decision_Conflict Audit_Conflict))"

section \<open>Recording a decision\<close>

text \<open>What a decision read before it writes: the request, then its decisions.\<close>

record decision_reading =
  dg_request :: "request_row option"
  dg_decisions :: "decision_row list"

definition decision_denied ::
  "approval_db \<Rightarrow> caller \<Rightarrow> nat \<Rightarrow> decision_input \<Rightarrow> request_row option \<Rightarrow> store_code \<Rightarrow> audit_result \<Rightarrow> approval_db
   \<Rightarrow> approval_record store_result \<times> approval_db" where
  "decision_denied numbered cl now inp req code outcome db =
     (let e = (audit_by cl now Approval_Denied)\<lparr>au_reason := redact_reason (stripped (di_reason inp)),
                au_correlation := sanitize_text (di_correlation inp)\<rparr>;
          e' = (case req of None \<Rightarrow> e
            | Some r \<Rightarrow> (audit_about r e)\<lparr>au_previous := Some (rq_state r), au_next := Some (rq_state r)\<rparr>)
      in case emit_audit numbered (Some outcome) e' db of
           Inl f \<Rightarrow> (Store_Raise f, db)
         | Inr (u, db') \<Rightarrow> (Store_Err code, db'))"

definition audit_decision ::
  "caller \<Rightarrow> nat \<Rightarrow> decision_input \<Rightarrow> request_row \<Rightarrow> approval_event \<Rightarrow> vote \<Rightarrow> approval_state \<Rightarrow> bool \<Rightarrow> audit_row" where
  "audit_decision cl now inp req t v next_state met =
     (audit_about req (audit_by cl now t))\<lparr>au_vote := Some v, au_previous := Some (rq_state req), au_next := Some next_state,
        au_reason := redact_reason (stripped (di_reason inp)), au_quorum_met := met,
        au_correlation := sanitize_text (di_correlation inp)\<rparr>"

definition decision_digest :: "(string \<Rightarrow> string) \<Rightarrow> string \<Rightarrow> string \<Rightarrow> vote \<Rightarrow> string \<Rightarrow> string" where
  "decision_digest sha aid checker v reason =
     sha (bar_join [aid, checker, if v = Approve then ''approve'' else ''reject'', reason])"

text \<open>\<open>uq_decisions_approval_checker\<close> and \<open>uq_decisions_approval_idem\<close>.\<close>

definition decision_collides :: "decision_row \<Rightarrow> approval_db \<Rightarrow> bool" where
  "decision_collides d db \<longleftrightarrow>
     list_ex (\<lambda>r. dr_approval r = dr_approval d \<and> (dr_checker r = dr_checker d \<or> dr_key_digest r = dr_key_digest d)) (ad_decisions db)"

text \<open>The flush of the decision and its idempotency key; \<open>None\<close> is an \<open>IntegrityError\<close>.\<close>

definition flush_decision :: "decision_row \<Rightarrow> key_row \<Rightarrow> approval_db \<Rightarrow> approval_db option" where
  "flush_decision d k db =
     (if decision_collides d db \<or> key_collides k db then None
      else Some (db\<lparr>ad_decisions := ad_decisions db @ [d], ad_keys := ad_keys db @ [k]\<rparr>))"

text \<open>\<open>UPDATE ... WHERE approval_id = ? AND store_version = ?\<close>; \<open>None\<close> when no row matches.\<close>

definition optimistic_update ::
  "request_row \<Rightarrow> approval_state \<Rightarrow> vote \<Rightarrow> bool \<Rightarrow> uuid \<Rightarrow> nat \<Rightarrow> approval_db \<Rightarrow> approval_db option" where
  "optimistic_update req new_state v met eid now db =
     (case fetch_request (rq_id req) db of
        None \<Rightarrow> None
      | Some cur \<Rightarrow>
          if rq_version cur \<noteq> rq_version req then None
          else Some (db\<lparr>ad_requests := row_put rq_id
                 (cur\<lparr>rq_state := new_state, rq_decision := Some v, rq_quorum_met := met, rq_previous := Some (rq_state req),
                      rq_version := rq_version req + 1, rq_last_audit := eid, rq_updated := now\<rparr>) (ad_requests db)\<rparr>))"

text \<open>The record after the commit.\<close>

definition refreshed :: "uuid \<Rightarrow> approval_result \<Rightarrow> nat \<Rightarrow> approval_db \<Rightarrow> approval_record store_result" where
  "refreshed a r now db =
     (case fetch_request a db of None \<Rightarrow> Store_Raise Data_Fault | Some req \<Rightarrow> Store_Ok (build_record req (fetch_decisions a db) r now))"

definition new_decision ::
  "(string \<Rightarrow> string) \<Rightarrow> nat \<Rightarrow> id_text \<Rightarrow> decision_input \<Rightarrow> string \<Rightarrow> vote \<Rightarrow> request_row \<Rightarrow> uuid \<Rightarrow> decision_row \<times> key_row" where
  "new_decision sha now aid inp checker v req eid =
     (let reason = redact_reason (stripped (di_reason inp)); key = sha (stripped (di_key inp));
          content = decision_digest sha (text_of aid) checker v reason
      in (\<lparr>dr_approval = rq_id req, dr_checker = checker, dr_vote = v, dr_reason = reason,
           dr_metadata = redact_metadata (di_metadata inp), dr_key_digest = key, dr_digest = content, dr_confirm = di_confirm inp,
           dr_audit = eid, dr_correlation = sanitize_text (di_correlation inp), dr_created = now\<rparr>,
          \<lparr>ik_scope = Decide_Scope (rq_id req), ik_digest = key, ik_payload = content, ik_ref = rq_id req\<rparr>))"

definition record_reject ::
  "(string \<Rightarrow> string) \<Rightarrow> approval_db \<Rightarrow> caller \<Rightarrow> nat \<Rightarrow> id_text \<Rightarrow> decision_input \<Rightarrow> string \<Rightarrow> request_row \<Rightarrow> approval_db
   \<Rightarrow> approval_record store_result \<times> approval_db" where
  "record_reject sha numbered cl now aid inp checker req db =
     (case emit_audit numbered None (audit_decision cl now inp req Approval_Decision_Recorded Reject Rejected_State False) db of
        Inl f \<Rightarrow> (Store_Raise f, db)
      | Inr (eid, db1) \<Rightarrow>
          (case new_decision sha now aid inp checker Reject req eid of (d, k) \<Rightarrow>
           case flush_decision d k db1 of
             None \<Rightarrow> (Store_Raise Integrity_Fault, db)
           | Some db2 \<Rightarrow>
               (case emit_audit db2 None (audit_decision cl now inp req Approval_Rejected Reject Rejected_State False) db2 of
                  Inl f \<Rightarrow> (Store_Raise f, db)
                | Inr (qid, db3) \<Rightarrow>
                    (case optimistic_update req Rejected_State Reject False qid now db3 of
                       None \<Rightarrow> (Store_Err Stale_Write, db)
                     | Some db4 \<Rightarrow> (refreshed (rq_id req) Rejected now db4, db4)))))"

definition record_approve ::
  "(string \<Rightarrow> string) \<Rightarrow> approval_db \<Rightarrow> caller \<Rightarrow> nat \<Rightarrow> id_text \<Rightarrow> decision_input \<Rightarrow> string \<Rightarrow> request_row \<Rightarrow> decision_row list
   \<Rightarrow> approval_db \<Rightarrow> approval_record store_result \<times> approval_db" where
  "record_approve sha numbered cl now aid inp checker req seen_decisions db =
     (case emit_audit numbered None (audit_decision cl now inp req Approval_Decision_Recorded Approve Pending_Review False) db of
        Inl f \<Rightarrow> (Store_Raise f, db)
      | Inr (eid, db1) \<Rightarrow>
          (case new_decision sha now aid inp checker Approve req eid of (d, k) \<Rightarrow>
           case flush_decision d k db1 of
             None \<Rightarrow> (Store_Err Decision_Conflict, db)
           | Some db2 \<Rightarrow>
               if rq_quorum req \<le> 1 + length (filter (\<lambda>d. dr_vote d = Approve) seen_decisions)
               then (case emit_audit db2 None (audit_decision cl now inp req Approval_Quorum_Met Approve Approved_Blocked True) db2 of
                       Inl f \<Rightarrow> (if f = Integrity_Fault then (Store_Err Decision_Conflict, db) else (Store_Raise f, db))
                     | Inr (qid, db3) \<Rightarrow>
                         (case optimistic_update req Approved_Blocked Approve True qid now db3 of
                            None \<Rightarrow> (Store_Err Stale_Write, db)
                          | Some db4 \<Rightarrow> (refreshed (rq_id req) Approved now db4, db4)))
               else (refreshed (rq_id req) Quorum_Pending now db2, db2)))"

definition earlier_vote :: "string \<Rightarrow> decision_row list \<Rightarrow> vote option" where
  "earlier_vote c ds = map_option dr_vote (find (\<lambda>d. dr_checker d = c) ds)"

text \<open>A decision whose selects of the request and of its decisions gave \<open>reading\<close>.\<close>

definition submit_decision ::
  "(string \<Rightarrow> string) \<Rightarrow> caller \<Rightarrow> nat \<Rightarrow> id_text \<Rightarrow> decision_input \<Rightarrow> decision_reading \<Rightarrow> approval_db \<Rightarrow> approval_db
   \<Rightarrow> approval_record store_result \<times> approval_db" where
  "submit_decision sha cl now aid inp reading numbered db =
     (case parse_uuid aid of
        None \<Rightarrow> (Store_Raise Bad_Uuid, db)
      | Some u \<Rightarrow>
        (case dg_request reading of
           None \<Rightarrow> decision_denied numbered cl now inp None Code_Not_Found Audit_Denied db
         | Some req \<Rightarrow>
             (let denied = (\<lambda>code outcome. decision_denied numbered cl now inp (Some req) code outcome db);
                  conflict = denied Decision_Conflict Audit_Conflict;
                  duplicate = Store_Ok (build_record req (dg_decisions reading) Duplicated now) in
              if decision_refused cl inp then denied Not_Authorized Audit_Denied
              else case (bound_actor cl, vote_of (di_decision inp)) of
                (Some checker, Some v) \<Rightarrow>
                  (if rq_state req \<in> set unimplemented_states then denied Terminal Audit_Denied
                   else if checker = rq_maker req then denied Self_Decision_Denied Audit_Denied
                   else
                     (let existing = earlier_vote checker (dg_decisions reading) in
                      if rq_state req = Rejected_State
                      then (if existing = Some v
                            then (case emit_audit numbered (Some Audit_Idempotent)
                                        (audit_decision cl now inp req Approval_Rejected Reject Rejected_State False) db of
                                    Inl f \<Rightarrow> (Store_Raise f, db)
                                  | Inr (eid, db') \<Rightarrow> (duplicate, db'))
                            else conflict)
                      else if rq_state req = Approved_Blocked
                      then (if v = Approve \<and> existing \<noteq> Some Reject then (duplicate, db) else conflict)
                      else if existing \<noteq> None
                      then (if existing = Some v then (duplicate, db) else conflict)
                      else if v = Approve \<and> rq_validation req \<noteq> Valid then denied Unknown_Source Audit_Denied
                      else if v = Reject then record_reject sha numbered cl now aid inp checker req db
                      else record_approve sha numbered cl now aid inp checker req (dg_decisions reading) db))
              | _ \<Rightarrow> denied Not_Authorized Audit_Denied)))"

section \<open>Reading, listing and the remaining operations\<close>

text \<open>\<open>get_request\<close> audits the read under the name of the maker; it reads in \<open>numbered\<close> and commits to \<open>db\<close>.\<close>

definition get_request :: "nat \<Rightarrow> id_text \<Rightarrow> approval_db \<Rightarrow> approval_db \<Rightarrow> approval_record store_result \<times> approval_db" where
  "get_request now aid numbered db =
     (case parse_uuid aid of
        None \<Rightarrow> (Store_Raise Bad_Uuid, db)
      | Some u \<Rightarrow>
        (case fetch_request u numbered of
           None \<Rightarrow> (Store_Err Code_Not_Found, db)
         | Some req \<Rightarrow>
             (case emit_audit numbered None
                     ((audit_about req (audit_by \<lparr>cl_actor = Some (rq_maker req), cl_role = ''system'', cl_context = ''system''\<rparr> now Approval_Read))
                        \<lparr>au_previous := Some (rq_state req), au_next := Some (rq_state req), au_reason := rq_reason req,
                         au_correlation := rq_correlation req\<rparr>) db of
                Inl f \<Rightarrow> (Store_Raise f, db)
              | Inr (eid, db') \<Rightarrow> (Store_Ok (build_record req (fetch_decisions u numbered) Recorded now), db'))))"

definition list_requests ::
  "int \<Rightarrow> int \<Rightarrow> approval_state option \<Rightarrow> string option \<Rightarrow> id_text option \<Rightarrow> approval_db
   \<Rightarrow> store_fault + approval_record list \<times> nat" where
  "list_requests limit offset state t tenant db =
     (case to_uuid (given_id tenant) of
        Inl f \<Rightarrow> Inl f
      | Inr tid \<Rightarrow>
          (let safe_limit = max 1 (min limit 100); safe_offset = max 0 offset;
               rows = filter (\<lambda>r. (state = None \<or> state = Some (rq_state r)) \<and> (or_blank t = [] \<or> t = Some (rq_type r)) \<and>
                          (tid = None \<or> tid = rq_tenant r))
                        (sort_key (\<lambda>r. - int (rq_created r)) (ad_requests db))
           in Inr (map (\<lambda>r. build_record r (filter (\<lambda>d. dr_approval d = rq_id r) (ad_decisions db)) Recorded (rq_updated r))
                     (take (nat safe_limit) (drop (nat safe_offset) rows)), length rows)))"

text \<open>The lookup of a key: whether it matched, whether the payload did, and what it stands for.\<close>

definition find_by_idempotency_digest ::
  "key_scope \<Rightarrow> string \<Rightarrow> string \<Rightarrow> approval_db \<Rightarrow> bool \<times> bool \<times> uuid option" where
  "find_by_idempotency_digest scope d payload db =
     (case find_idempotency_row scope d db of
        None \<Rightarrow> (False, False, None)
      | Some k \<Rightarrow> (True, ik_payload k = payload, Some (ik_ref k)))"

definition append_audit_event ::
  "audit_result option \<Rightarrow> audit_row \<Rightarrow> approval_db \<Rightarrow> approval_db \<Rightarrow> uuid store_result \<times> approval_db" where
  "append_audit_event outcome e numbered db =
     (case emit_audit numbered outcome e db of Inl f \<Rightarrow> (Store_Raise f, db) | Inr (u, db') \<Rightarrow> (Store_Ok u, db'))"

section \<open>The storage gate\<close>

text \<open>\<open>api/v1/platform/p20/services.py\<close>: the backend is chosen by an override or a flag, durable by default.\<close>

definition memory_mode :: "string \<Rightarrow> bool" where
  "memory_mode flag \<longleftrightarrow> lowered (strip flag) = ''memory''"

definition get_storage_mode :: "bool option \<Rightarrow> string option \<Rightarrow> bool" where
  "get_storage_mode override flag = (case override of Some m \<Rightarrow> m | None \<Rightarrow> memory_mode (or_blank flag))"

datatype not_ready = Storage_Not_Ready | Storage_Unavailable | Storage_Degraded

definition required_tables :: nat where "required_tables = 5"

text \<open>What the readiness query counted; \<open>None\<close> when it failed.\<close>

definition check_readiness :: "nat option \<Rightarrow> not_ready option" where
  "check_readiness present =
     (case present of None \<Rightarrow> Some Storage_Unavailable | Some n \<Rightarrow> if n = required_tables then None else Some Storage_Not_Ready)"

definition from_durable_record :: "approval_record \<Rightarrow> not_ready + approval_record" where
  "from_durable_record r =
     (if ap_execution_allowed r \<or> ap_executed r \<or> \<not> ap_gate_blocked r \<or> \<not> ap_redacted r \<or> \<not> ap_durable r
      then Inl Storage_Degraded else Inr r)"

definition store_health_codes :: "store_code list" where
  "store_health_codes = [Stale_Write, Store_Unknown, Idempotent_Replay]"

definition create_err_result :: "store_code \<Rightarrow> approval_result" where
  "create_err_result c = (case c of Code_Not_Found \<Rightarrow> Not_Found | Decision_Conflict \<Rightarrow> Conflicted | _ \<Rightarrow> Denied)"

definition decision_err_result :: "store_code \<Rightarrow> approval_result" where
  "decision_err_result c = (case c of Code_Not_Found \<Rightarrow> Not_Found | Decision_Conflict \<Rightarrow> Conflicted | _ \<Rightarrow> Denied)"

definition gate_result ::
  "(store_code \<Rightarrow> approval_result) \<Rightarrow> (store_fault \<Rightarrow> not_ready + approval_record) \<Rightarrow> nat \<Rightarrow> approval_record store_result
   \<Rightarrow> not_ready + approval_record" where
  "gate_result err fault now res =
     (case res of
        Store_Ok r \<Rightarrow> from_durable_record r
      | Store_Err c \<Rightarrow> if c \<in> set store_health_codes then Inl Storage_Degraded else Inr (no_record True (err c) (Some now))
      | Store_Raise f \<Rightarrow> fault f)"

definition durable_create ::
  "(string \<Rightarrow> string) \<Rightarrow> nat option \<Rightarrow> action_store \<Rightarrow> registry_reader \<Rightarrow> caller \<Rightarrow> nat \<Rightarrow> create_input
   \<Rightarrow> key_row option \<Rightarrow> approval_db \<Rightarrow> approval_db \<Rightarrow> (not_ready + approval_record) \<times> approval_db" where
  "durable_create sha probe acts reg cl now inp seen numbered db =
     (case check_readiness probe of
        Some e \<Rightarrow> (Inl e, db)
      | None \<Rightarrow>
          (case resolve_p18_context acts reg (ci_action inp) (ci_type inp) (ci_tenant inp) of
             None \<Rightarrow> (Inr (no_record True Not_Found (Some now)), db)
           | Some ctx \<Rightarrow>
               map_prod (gate_result create_err_result (\<lambda>_. Inl Storage_Degraded) now) id
                 (create_request sha cl now inp ctx seen numbered db)))"

text \<open>A malformed approval id is answered as an unknown one.\<close>

definition id_fault :: "nat \<Rightarrow> store_fault \<Rightarrow> not_ready + approval_record" where
  "id_fault now f = (if f = Bad_Uuid then Inr (no_record True Not_Found (Some now)) else Inl Storage_Degraded)"

definition durable_submit_decision ::
  "(string \<Rightarrow> string) \<Rightarrow> nat option \<Rightarrow> caller \<Rightarrow> nat \<Rightarrow> id_text \<Rightarrow> decision_input \<Rightarrow> decision_reading \<Rightarrow> approval_db \<Rightarrow> approval_db
   \<Rightarrow> (not_ready + approval_record) \<times> approval_db" where
  "durable_submit_decision sha probe cl now aid inp reading numbered db =
     (case check_readiness probe of
        Some e \<Rightarrow> (Inl e, db)
      | None \<Rightarrow> map_prod (gate_result decision_err_result (id_fault now) now) id (submit_decision sha cl now aid inp reading numbered db))"

definition durable_read ::
  "nat option \<Rightarrow> nat \<Rightarrow> id_text \<Rightarrow> approval_db \<Rightarrow> approval_db \<Rightarrow> (not_ready + approval_record option) \<times> approval_db" where
  "durable_read probe now aid numbered db =
     (case check_readiness probe of
        Some e \<Rightarrow> (Inl e, db)
      | None \<Rightarrow>
          (case get_request now aid numbered db of (res, db') \<Rightarrow>
             (case res of
                Store_Ok r \<Rightarrow> map_sum id Some (from_durable_record r)
              | Store_Err c \<Rightarrow> if c \<in> set store_health_codes then Inl Storage_Degraded else Inr None
              | Store_Raise f \<Rightarrow> if f = Bad_Uuid then Inr None else Inl Storage_Degraded, db')))"

definition durable_list ::
  "nat option \<Rightarrow> int \<Rightarrow> int \<Rightarrow> approval_state option \<Rightarrow> string option \<Rightarrow> id_text option \<Rightarrow> approval_db
   \<Rightarrow> not_ready + approval_record list \<times> nat" where
  "durable_list probe limit offset state t tenant db =
     (case check_readiness probe of
        Some e \<Rightarrow> Inl e
      | None \<Rightarrow>
          (case list_requests limit offset state t tenant db of
             Inl f \<Rightarrow> Inl Storage_Degraded
           | Inr (items, n) \<Rightarrow>
               if list_ex (\<lambda>r. from_durable_record r = Inl Storage_Degraded) items then Inl Storage_Degraded else Inr (items, n)))"

end
