(* ===== verification/Execution_Control.thy ===== *)
theory Execution_Control
  imports Tenant_Registry Approval_Store
begin

text \<open>
  The governed execution of approved platform actions (\<open>api/v1/platform/p22\<close>): the closed catalogue, the
  preconditions on an approval, dry runs and recorded requests (\<open>services.py\<close>), the adapter table and the
  preflight gate (\<open>adapters.py\<close>, \<open>seam.py\<close>), the read of the backup source (\<open>source_probe.py\<close>) and the one
  action that runs, \<open>backup.check\<close> (\<open>governed_execution.py\<close>). Instants are seconds; messages are left out.
\<close>

section \<open>Vocabulary\<close>

definition allowed_action_types :: "string list" where
  "allowed_action_types = [''support_mode.on'', ''support_mode.off'', ''incident.flag_set'', ''incident.flag_clear'',
     ''provisioning.recheck'', ''backup.check'', ''backup.restore_test_request'']"

definition excluded_action_types :: "string list" where
  "excluded_action_types = [''tenant.pause'', ''tenant.resume'', ''lifecycle.transition'']"

definition reversal_map :: "string \<Rightarrow> string option" where
  "reversal_map t =
     (if t = ''support_mode.on'' then Some ''support_mode.off'' else if t = ''support_mode.off'' then Some ''support_mode.on''
      else if t = ''incident.flag_set'' then Some ''incident.flag_clear''
      else if t = ''incident.flag_clear'' then Some ''incident.flag_set'' else None)"

definition action_class_map :: "string \<Rightarrow> action_class option" where
  "action_class_map t =
     (if t \<in> {''support_mode.on'', ''support_mode.off'', ''incident.flag_set'', ''incident.flag_clear''} then Some Write_Class
      else if t \<in> {''provisioning.recheck'', ''backup.check''} then Some Read_Class
      else if t = ''backup.restore_test_request'' then Some Write_Request_Class else None)"

datatype exec_source = Src_Known | Src_Unknown | Src_Degraded

datatype block_reason = Executor_Not_Super_Admin | Action_Not_Allowlisted | Action_Excluded | Approval_Not_Found
  | Approval_State_Not_Approved | Quorum_Not_Met | Source_Unknown_For_Write | Self_Execution_Forbidden
  | Checker_Execution_Forbidden | Idempotency_Key_Required | Action_Mismatch_Approval | Target_Mismatch_Approval
  | Reason_Required | Execution_Mode_Required | Dry_Run_Required | Dry_Run_Invalid | Execution_Ack_Required
  | Idempotency_Conflict | Execution_Request_Required | Execution_Request_Not_Found | Execution_Request_Mismatch

datatype exec_state = Dry_Run_Passed | Blocked | Execution_Queued | Executing | Executed | Execution_Failed
  | Compensation_Required | Compensation_Completed | Execution_Cancelled

datatype exec_event_type = Execution_Dry_Run_Requested | Execution_Dry_Run_Passed | Execution_Dry_Run_Blocked | Execution_Requested
  | Execution_Started | Execution_Succeeded | Execution_Failure | Execution_Compensation_Recorded | Execution_Denied

datatype exec_mode = Sync | Queued

section \<open>The approval an execution rests on\<close>

record snapshot =
  sn_id :: "id_text option"
  sn_state :: "approval_state option"
  sn_quorum_required :: nat
  sn_quorum_met :: bool
  sn_maker :: "string option"
  sn_checkers :: "string list"
  sn_source :: exec_source
  sn_type :: "string option"
  sn_class :: "action_class option"
  sn_tenant :: "id_text option"
  sn_validation :: validation_status
  sn_expires :: "nat option"

definition p20_to_p22_source :: "source_status \<Rightarrow> exec_source" where
  "p20_to_p22_source s = (case s of Available \<Rightarrow> Src_Known | Unavailable \<Rightarrow> Src_Degraded | Unknown_Status \<Rightarrow> Src_Unknown)"

definition snapshot_from_p20_record :: "approval_record \<Rightarrow> snapshot" where
  "snapshot_from_p20_record r =
     \<lparr>sn_id = ap_id r, sn_state = ap_state r, sn_quorum_required = ap_quorum_required r, sn_quorum_met = ap_quorum_met r,
      sn_maker = ap_maker r, sn_checkers = map ck_id (ap_checkers r), sn_source = p20_to_p22_source (ap_source r),
      sn_type = ap_type r, sn_class = ap_class r, sn_tenant = ap_tenant r, sn_validation = ap_validation r,
      sn_expires = ap_expires r\<rparr>"

text \<open>
  The default resolver: the readiness query, then the read of the approvals in their storage mode; every failure
  is an unknown approval. The read of the database audits itself there.
\<close>

definition default_resolve_approval ::
  "nat option \<Rightarrow> bool \<Rightarrow> nat option \<Rightarrow> nat \<Rightarrow> id_text option \<Rightarrow> memory_store \<Rightarrow> approval_db \<Rightarrow> approval_db
   \<Rightarrow> snapshot option \<times> approval_db" where
  "default_resolve_approval probe memory probe' now aid mem numbered db =
     (case given_id aid of
        None \<Rightarrow> (None, db)
      | Some a \<Rightarrow>
          if check_readiness probe \<noteq> None then (None, db)
          else if memory then (map_option snapshot_from_p20_record (memory_read a mem), db)
          else (case durable_read probe' now a numbered db of
                  (Inl e, db') \<Rightarrow> (None, db')
                | (Inr rec, db') \<Rightarrow> (map_option snapshot_from_p20_record rec, db')))"

section \<open>Preconditions\<close>

definition executor_block_reason :: "caller \<Rightarrow> block_reason list" where
  "executor_block_reason cl =
     (if cl_role cl = ''super_admin'' \<and> cl_context cl = ''identity_only'' then [] else [Executor_Not_Super_Admin])"

definition classify_action :: "string option \<Rightarrow> block_reason list" where
  "classify_action t =
     (case t of
        Some s \<Rightarrow> if s \<in> set allowed_action_types then []
                  else if s \<in> set excluded_action_types then [Action_Excluded] else [Action_Not_Allowlisted]
      | None \<Rightarrow> [Action_Not_Allowlisted])"

text \<open>Texts that are given and equal, or given and different; blanks count as not given.\<close>

definition given :: "string option \<Rightarrow> bool" where
  "given v \<longleftrightarrow> or_blank v \<noteq> []"

definition norm_id :: "id_text option \<Rightarrow> string" where
  "norm_id v = strip (id_or_blank v)"

definition check_approval_preconditions ::
  "snapshot option \<Rightarrow> string option \<Rightarrow> string option \<Rightarrow> id_text option \<Rightarrow> block_reason list \<times> exec_source \<times> bool" where
  "check_approval_preconditions approval t executor tenant =
     (case approval of
        None \<Rightarrow> ([Approval_Not_Found], Src_Unknown, False)
      | Some a \<Rightarrow>
          ((if sn_state a \<noteq> Some Approved_Blocked then [Approval_State_Not_Approved] else []) @
           (if \<not> sn_quorum_met a then [Quorum_Not_Met] else []) @
           (if given (sn_type a) \<and> given t \<and> sn_type a \<noteq> t then [Action_Mismatch_Approval] else []) @
           (if norm_id (sn_tenant a) \<noteq> norm_id tenant then [Target_Mismatch_Approval] else []) @
           (if action_class_map (or_blank t) \<in> {Some Write_Class, Some Write_Request_Class} \<and> sn_source a \<noteq> Src_Known
            then [Source_Unknown_For_Write] else []) @
           (if given executor \<and> given (sn_maker a) \<and> executor = sn_maker a then [Self_Execution_Forbidden] else []) @
           (if given executor \<and> or_blank executor \<in> set (sn_checkers a) then [Checker_Execution_Forbidden] else []),
           sn_source a, reversal_map (or_blank t) \<noteq> None))"

record catalog_item =
  xc_type :: string
  xc_class :: "action_class option"
  xc_reversal :: "string option"

definition build_catalog :: "catalog_item list" where
  "build_catalog = map (\<lambda>t. \<lparr>xc_type = t, xc_class = action_class_map t, xc_reversal = reversal_map t\<rparr>) allowed_action_types"

section \<open>The process-local store\<close>

record dry_run =
  dn_id :: id_text
  dn_approval :: "id_text option"
  dn_type :: "string option"
  dn_tenant :: "id_text option"
  dn_state :: "string option"
  dn_executor :: "string option"
  dn_source :: exec_source
  dn_mode :: "exec_mode option"
  dn_created :: nat
  dn_expires :: nat

record exec_request =
  xr_id :: id_text
  xr_approval :: "id_text option"
  xr_type :: "string option"
  xr_tenant :: "id_text option"
  xr_state :: "string option"
  xr_reason :: string
  xr_key_digest :: string
  xr_payload :: string
  xr_actor :: "string option"
  xr_role :: string
  xr_context :: string
  xr_mode :: "exec_mode option"
  xr_dry_run :: "id_text option"
  xr_ack :: bool
  xr_correlation :: "string option"
  xr_metadata :: "(string \<times> json) list option"
  xr_result_state :: exec_state
  xr_created :: nat

record exec_event =
  xe_id :: id_text
  xe_type :: exec_event_type
  xe_request :: "id_text option"
  xe_approval :: "id_text option"
  xe_actor :: "string option"
  xe_role :: string
  xe_context :: string
  xe_action :: "string option"
  xe_tenant :: "id_text option"
  xe_state :: "exec_state option"
  xe_reason :: string
  xe_payload :: "string option"
  xe_key_digest :: "string option"
  xe_source :: "exec_source option"
  xe_dry_run :: "id_text option"
  xe_correlation :: "string option"
  xe_blocks :: "block_reason list"
  xe_seq :: nat
  xe_at :: nat

record exec_store =
  es_dry_runs :: "(id_text \<times> dry_run) list"
  es_requests :: "(id_text \<times> exec_request) list"
  es_by_key :: "(string \<times> id_text) list"
  es_audit :: "exec_event list"
  es_uuids :: "nat \<Rightarrow> uuid"
  es_drawn :: nat

definition draw_exec :: "exec_store \<Rightarrow> id_text \<times> exec_store" where
  "draw_exec st = (Canonical (es_uuids st (es_drawn st)), st\<lparr>es_drawn := Suc (es_drawn st)\<rparr>)"

definition emit_exec_audit :: "exec_event \<Rightarrow> exec_store \<Rightarrow> exec_store" where
  "emit_exec_audit e st =
     (let (eid, st') = draw_exec st in
      st'\<lparr>es_audit := es_audit st' @ [e\<lparr>xe_id := eid, xe_reason := redact_reason (xe_reason e),
                                           xe_correlation := sanitize_text (xe_correlation e)\<rparr>]\<rparr>)"

section \<open>Dry runs\<close>

record exec_input =
  xi_approval :: "id_text option"
  xi_type :: "string option"
  xi_tenant :: "id_text option"
  xi_state :: "string option"
  xi_reason :: "string option"
  xi_key :: "string option"
  xi_mode :: "string option"
  xi_correlation :: "string option"
  xi_metadata :: "(string \<times> json) list option"

record exec_create = exec_input +
  xi_dry_run :: "id_text option"
  xi_ack :: bool

definition mode_of :: "string option \<Rightarrow> exec_mode option" where
  "mode_of m = (if m = Some ''sync'' then Some Sync else if m = Some ''queued'' then Some Queued else None)"

text \<open>\<open>sanitize(t) or t\<close>.\<close>

definition safe_action_type :: "string option \<Rightarrow> string option" where
  "safe_action_type t = (if given (sanitize_text t) then sanitize_text t else t)"

text \<open>An event about the request at hand.\<close>

definition exec_event_about :: "caller \<Rightarrow> nat \<Rightarrow> ('a :: type) exec_input_scheme \<Rightarrow> exec_event_type \<Rightarrow> exec_source \<Rightarrow> exec_event" where
  "exec_event_about cl now inp t source =
     \<lparr>xe_id = Malformed [], xe_type = t, xe_request = None, xe_approval = xi_approval inp, xe_actor = cl_actor cl, xe_role = cl_role cl,
      xe_context = cl_context cl, xe_action = safe_action_type (xi_type inp), xe_tenant = xi_tenant inp, xe_state = None,
      xe_reason = redact_reason (stripped (xi_reason inp)), xe_payload = None, xe_key_digest = None, xe_source = Some source,
      xe_dry_run = None, xe_correlation = sanitize_text (xi_correlation inp), xe_blocks = [], xe_seq = 0, xe_at = now\<rparr>"

definition given_key_digest :: "(string \<Rightarrow> string) \<Rightarrow> string option \<Rightarrow> string option" where
  "given_key_digest sha k = (if stripped k = [] then None else Some (sha (stripped k)))"

text \<open>The event types a verdict announces; their field names are constant.\<close>

definition expected_audit_shape :: "bool \<Rightarrow> exec_event_type list" where
  "expected_audit_shape executable =
     (if executable then [Execution_Dry_Run_Requested, Execution_Dry_Run_Passed, Execution_Requested, Execution_Started, Execution_Succeeded]
      else [Execution_Dry_Run_Requested, Execution_Dry_Run_Blocked, Execution_Denied])"

record dry_run_response =
  xd_id :: "id_text option"
  xd_approval :: "id_text option"
  xd_type :: "string option"
  xd_tenant :: "id_text option"
  xd_state :: "string option"
  xd_executable :: bool
  xd_blocks :: "block_reason list"
  xd_shape :: "exec_event_type list"
  xd_mode :: "exec_mode option"
  xd_source :: exec_source
  xd_reversible :: bool
  xd_key_digest :: "string option"
  xd_executed :: bool
  xd_created :: nat

definition dry_run_ttl :: nat where "dry_run_ttl = 15 * 60"

text \<open>The checks of a dry run: \<open>approval\<close> is what the resolver gave.\<close>

definition dry_run_blocks :: "caller \<Rightarrow> snapshot option \<Rightarrow> ('a :: type) exec_input_scheme \<Rightarrow> block_reason list" where
  "dry_run_blocks cl approval inp =
     executor_block_reason cl @ (if stripped (xi_key inp) = [] then [Idempotency_Key_Required] else []) @
     (if stripped (xi_reason inp) = [] then [Reason_Required] else []) @
     (if mode_of (xi_mode inp) = None then [Execution_Mode_Required] else []) @ classify_action (xi_type inp) @
     fst (check_approval_preconditions approval (xi_type inp) (cl_actor cl) (xi_tenant inp))"

definition evaluate_dry_run ::
  "(string \<Rightarrow> string) \<Rightarrow> caller \<Rightarrow> nat \<Rightarrow> snapshot option \<Rightarrow> exec_input \<Rightarrow> exec_store \<Rightarrow> dry_run_response \<times> exec_store" where
  "evaluate_dry_run sha cl now approval inp st =
     (let blocks = dry_run_blocks cl approval inp; executable = (blocks = []); mode = mode_of (xi_mode inp);
          (_, source, reversible) = check_approval_preconditions approval (xi_type inp) (cl_actor cl) (xi_tenant inp);
          key = given_key_digest sha (xi_key inp);
          st1 = emit_exec_audit ((exec_event_about cl now inp Execution_Dry_Run_Requested source)\<lparr>xe_key_digest := key, xe_blocks := blocks\<rparr>) st;
          st2 = emit_exec_audit ((exec_event_about cl now inp (if executable then Execution_Dry_Run_Passed else Execution_Dry_Run_Blocked) source)
                  \<lparr>xe_key_digest := key, xe_blocks := blocks\<rparr>) st1;
          (did, st3) = draw_exec st2;
          bound = \<lparr>dn_id = did, dn_approval = xi_approval inp, dn_type = xi_type inp, dn_tenant = xi_tenant inp, dn_state = xi_state inp,
                   dn_executor = cl_actor cl, dn_source = source, dn_mode = mode, dn_created = now, dn_expires = now + dry_run_ttl\<rparr>
      in (\<lparr>xd_id = (if executable then Some did else None), xd_approval = xi_approval inp, xd_type = safe_action_type (xi_type inp),
           xd_tenant = xi_tenant inp, xd_state = xi_state inp, xd_executable = executable, xd_blocks = blocks,
           xd_shape = expected_audit_shape executable, xd_mode = mode, xd_source = source, xd_reversible = reversible,
           xd_key_digest = key, xd_executed = False, xd_created = now\<rparr>,
          if executable then st3\<lparr>es_dry_runs := AList.update did bound (es_dry_runs st3)\<rparr> else st2))"

section \<open>Recording a request\<close>

definition payload_digest :: "(string \<Rightarrow> string) \<Rightarrow> id_text option \<Rightarrow> string option \<Rightarrow> id_text option \<Rightarrow> string option \<Rightarrow> string option \<Rightarrow> string" where
  "payload_digest sha approval t tenant state executor =
     sha (bar_join [id_or_blank approval, or_blank t, id_or_blank tenant, or_blank state, or_blank executor])"

text \<open>A bound dry run must be for the same approval, action, target and executor, and not have expired.\<close>

definition dry_run_binding ::
  "id_text option \<Rightarrow> id_text option \<Rightarrow> string option \<Rightarrow> id_text option \<Rightarrow> string option \<Rightarrow> string option \<Rightarrow> nat \<Rightarrow> exec_store
   \<Rightarrow> block_reason list" where
  "dry_run_binding ref approval t tenant state executor now st =
     (case given_id ref of
        None \<Rightarrow> [Dry_Run_Required]
      | Some r \<Rightarrow>
          (case map_of (es_dry_runs st) r of
             None \<Rightarrow> [Dry_Run_Invalid]
           | Some d \<Rightarrow>
               if dn_approval d \<noteq> approval \<or> dn_type d \<noteq> t \<or> dn_tenant d \<noteq> tenant \<or> dn_state d \<noteq> state \<or> dn_executor d \<noteq> executor \<or>
                 dn_expires d \<le> now
               then [Dry_Run_Invalid] else []))"

record exec_response =
  xs_id :: "id_text option"
  xs_approval :: "id_text option"
  xs_type :: "string option"
  xs_tenant :: "id_text option"
  xs_state :: "string option"
  xs_reason :: string
  xs_key_digest :: "string option"
  xs_payload :: string
  xs_actor :: "string option"
  xs_role :: string
  xs_context :: string
  xs_mode :: "exec_mode option"
  xs_dry_run :: "id_text option"
  xs_ack :: bool
  xs_correlation :: "string option"
  xs_metadata :: "(string \<times> json) list option"
  xs_result_state :: exec_state
  xs_blocks :: "block_reason list"
  xs_result :: approval_result
  xs_executed :: bool
  xs_created :: nat

definition response_from :: "exec_request \<Rightarrow> exec_response" where
  "response_from r =
     \<lparr>xs_id = Some (xr_id r), xs_approval = xr_approval r, xs_type = xr_type r, xs_tenant = xr_tenant r, xs_state = xr_state r,
      xs_reason = xr_reason r, xs_key_digest = Some (xr_key_digest r), xs_payload = xr_payload r, xs_actor = xr_actor r,
      xs_role = xr_role r, xs_context = xr_context r, xs_mode = xr_mode r, xs_dry_run = xr_dry_run r, xs_ack = xr_ack r,
      xs_correlation = xr_correlation r, xs_metadata = xr_metadata r, xs_result_state = xr_result_state r, xs_blocks = [],
      xs_result = Recorded, xs_executed = False, xs_created = xr_created r\<rparr>"

definition request_blocks :: "caller \<Rightarrow> nat \<Rightarrow> snapshot option \<Rightarrow> exec_create \<Rightarrow> exec_store \<Rightarrow> block_reason list" where
  "request_blocks cl now approval inp st =
     executor_block_reason cl @ (if stripped (xi_key inp) = [] then [Idempotency_Key_Required] else []) @
     (if stripped (xi_reason inp) = [] then [Reason_Required] else []) @
     (if mode_of (xi_mode inp) = None then [Execution_Mode_Required] else []) @
     (if \<not> xi_ack inp then [Execution_Ack_Required] else []) @ classify_action (xi_type inp) @
     dry_run_binding (xi_dry_run inp) (xi_approval inp) (xi_type inp) (xi_tenant inp) (xi_state inp) (cl_actor cl) now st @
     fst (check_approval_preconditions approval (xi_type inp) (cl_actor cl) (xi_tenant inp))"

definition recorded_under :: "string \<Rightarrow> exec_store \<Rightarrow> exec_request option" where
  "recorded_under k st = Option.bind (map_of (es_by_key st) k) (map_of (es_requests st))"

definition record_execution_request ::
  "(string \<Rightarrow> string) \<Rightarrow> caller \<Rightarrow> nat \<Rightarrow> snapshot option \<Rightarrow> exec_create \<Rightarrow> exec_store \<Rightarrow> exec_response \<times> exec_store" where
  "record_execution_request sha cl now approval inp st =
     (let key = sha (stripped (xi_key inp)); reason = redact_reason (stripped (xi_reason inp));
          payload = payload_digest sha (xi_approval inp) (xi_type inp) (xi_tenant inp) (xi_state inp) (cl_actor cl);
          existing = (if stripped (xi_key inp) = [] then None else recorded_under key st);
          conflict = (case existing of None \<Rightarrow> False | Some r \<Rightarrow> xr_payload r \<noteq> payload);
          blocks = request_blocks cl now approval inp st @ (if conflict then [Idempotency_Conflict] else []);
          (_, source, _) = check_approval_preconditions approval (xi_type inp) (cl_actor cl) (xi_tenant inp);
          (xid, st1) = draw_exec st;
          rec = \<lparr>xr_id = xid, xr_approval = xi_approval inp, xr_type = safe_action_type (xi_type inp), xr_tenant = xi_tenant inp,
                 xr_state = xi_state inp, xr_reason = reason, xr_key_digest = key, xr_payload = payload, xr_actor = cl_actor cl,
                 xr_role = cl_role cl, xr_context = cl_context cl, xr_mode = mode_of (xi_mode inp), xr_dry_run = xi_dry_run inp,
                 xr_ack = xi_ack inp, xr_correlation = sanitize_text (xi_correlation inp), xr_metadata = redact_metadata (xi_metadata inp),
                 xr_result_state = Dry_Run_Passed, xr_created = now\<rparr>
      in case existing of
           Some r \<Rightarrow>
             if \<not> conflict then (response_from r, st1)
             else ((response_from rec)\<lparr>xs_id := None, xs_key_digest := given_key_digest sha (xi_key inp), xs_result_state := Blocked,
                     xs_blocks := blocks, xs_result := Conflicted\<rparr>,
                   emit_exec_audit ((exec_event_about cl now inp Execution_Denied source)\<lparr>xe_state := Some Blocked,
                     xe_payload := Some payload, xe_key_digest := given_key_digest sha (xi_key inp), xe_dry_run := xi_dry_run inp,
                     xe_blocks := blocks, xe_seq := 1\<rparr>) st1)
         | None \<Rightarrow>
             if blocks \<noteq> []
             then ((response_from rec)\<lparr>xs_id := None, xs_key_digest := given_key_digest sha (xi_key inp), xs_result_state := Blocked,
                     xs_blocks := blocks, xs_result := Denied\<rparr>,
                   emit_exec_audit ((exec_event_about cl now inp Execution_Denied source)\<lparr>xe_state := Some Blocked,
                     xe_payload := Some payload, xe_key_digest := given_key_digest sha (xi_key inp), xe_dry_run := xi_dry_run inp,
                     xe_blocks := blocks, xe_seq := 1\<rparr>) st1)
             else (response_from rec,
                   emit_exec_audit ((exec_event_about cl now inp Execution_Requested source)\<lparr>xe_request := Some xid,
                     xe_state := Some Dry_Run_Passed, xe_payload := Some payload, xe_key_digest := Some key,
                     xe_dry_run := xi_dry_run inp, xe_seq := 1\<rparr>)
                     (st1\<lparr>es_requests := AList.update xid rec (es_requests st1), es_by_key := AList.update key xid (es_by_key st1)\<rparr>)))"

definition list_execution_requests ::
  "int \<Rightarrow> int \<Rightarrow> exec_state option \<Rightarrow> string option \<Rightarrow> id_text option \<Rightarrow> exec_store \<Rightarrow> exec_response list \<times> nat" where
  "list_execution_requests limit offset state t approval st =
     (let safe_limit = max 1 (min limit 100); safe_offset = max 0 offset;
          records = filter (\<lambda>r. (state = None \<or> state = Some (xr_result_state r)) \<and> (\<not> given t \<or> xr_type r = t) \<and>
                        (given_id approval = None \<or> xr_approval r = approval))
                      (sort_key (\<lambda>r. - int (xr_created r)) (map snd (es_requests st)))
      in (map response_from (take (nat safe_limit) (drop (nat safe_offset) records)), length records))"

definition read_execution_request :: "id_text \<Rightarrow> exec_store \<Rightarrow> exec_response option" where
  "read_execution_request xid st = map_option response_from (map_of (es_requests st) xid)"

end
