(* ===== verification/Governed_Execution.thy ===== *)
theory Governed_Execution
  imports Execution_Control
begin

text \<open>
  The adapter table and preflight gate of the governed executions (\<open>api/v1/platform/p22/adapters.py\<close>, \<open>seam.py\<close>),
  the read of the backup source (\<open>source_probe.py\<close>) and the one action that completes
  (\<open>governed_execution.py\<close>), \<open>backup.check\<close>: bind to a recorded request, pass the gate, read.
\<close>

section \<open>Adapters\<close>

record adapter_descriptor =
  dp_type :: string
  dp_class :: "action_class option"
  dp_realizes :: bool
  dp_source :: exec_source
  dp_reversal :: "string option"
  dp_business :: bool

definition build_descriptor :: "string \<Rightarrow> adapter_descriptor" where
  "build_descriptor t = \<lparr>dp_type = t, dp_class = action_class_map t, dp_realizes = False, dp_source = Src_Unknown,
     dp_reversal = reversal_map t, dp_business = False\<rparr>"

definition resolve_adapter_descriptor :: "string option \<Rightarrow> adapter_descriptor option" where
  "resolve_adapter_descriptor t =
     (case t of None \<Rightarrow> None | Some s \<Rightarrow> if s \<in> set allowed_action_types then Some (build_descriptor s) else None)"

definition adapter_registry_inventory :: "adapter_descriptor list" where
  "adapter_registry_inventory = map build_descriptor allowed_action_types"

definition is_registered_action :: "string option \<Rightarrow> bool" where
  "is_registered_action t \<longleftrightarrow> (case t of None \<Rightarrow> False | Some s \<Rightarrow> s \<in> set allowed_action_types)"

datatype adapter_result = Not_Implemented | Not_Registered

definition non_executing_adapter_result :: "string option \<Rightarrow> adapter_result" where
  "non_executing_adapter_result t = (if resolve_adapter_descriptor t = None then Not_Registered else Not_Implemented)"

section \<open>The preflight gate\<close>

record seam_request =
  sq_approval :: "id_text option"
  sq_type :: "string option"
  sq_tenant :: "id_text option"
  sq_state :: "string option"
  sq_dry_run :: "id_text option"
  sq_ack :: bool
  sq_key_digest :: "string option"
  sq_payload :: "string option"
  sq_caller :: caller

datatype idempotency_class = New_Key | Replay_Key | Conflict_Key

definition classify_idempotency :: "string option \<Rightarrow> string option \<Rightarrow> exec_store \<Rightarrow> idempotency_class" where
  "classify_idempotency key payload st =
     (if \<not> given key then New_Key
      else case recorded_under (or_blank key) st of
        None \<Rightarrow> New_Key
      | Some r \<Rightarrow> if given payload \<and> Some (xr_payload r) = payload then Replay_Key else Conflict_Key)"

record preflight_verdict =
  pf_registered :: bool
  pf_blocks :: "block_reason list"
  pf_source :: exec_source
  pf_executed :: bool
  pf_adapter :: adapter_result
  pf_shape :: "exec_event_type list"
  pf_class :: idempotency_class

definition expected_seam_audit_shape :: "bool \<Rightarrow> exec_event_type list" where
  "expected_seam_audit_shape passed =
     (if passed then [Execution_Started, Execution_Succeeded, Execution_Failure, Execution_Compensation_Recorded] else [Execution_Denied])"

definition preflight_blocks :: "nat \<Rightarrow> snapshot option \<Rightarrow> seam_request \<Rightarrow> exec_store \<Rightarrow> block_reason list" where
  "preflight_blocks now approval q st =
     executor_block_reason (sq_caller q) @ (if \<not> given (sq_key_digest q) then [Idempotency_Key_Required] else []) @
     (if \<not> sq_ack q then [Execution_Ack_Required] else []) @
     (if resolve_adapter_descriptor (sq_type q) = None then classify_action (sq_type q) else []) @
     dry_run_binding (sq_dry_run q) (sq_approval q) (sq_type q) (sq_tenant q) (sq_state q) (cl_actor (sq_caller q)) now st @
     fst (check_approval_preconditions approval (sq_type q) (cl_actor (sq_caller q)) (sq_tenant q)) @
     (if classify_idempotency (sq_key_digest q) (sq_payload q) st = Conflict_Key then [Idempotency_Conflict] else [])"

definition evaluate_preflight_gate :: "nat \<Rightarrow> snapshot option \<Rightarrow> seam_request \<Rightarrow> exec_store \<Rightarrow> preflight_verdict" where
  "evaluate_preflight_gate now approval q st =
     (let blocks = preflight_blocks now approval q st; descriptor = resolve_adapter_descriptor (sq_type q) in
      \<lparr>pf_registered = (descriptor \<noteq> None), pf_blocks = blocks,
       pf_source = (case descriptor of None \<Rightarrow> Src_Unknown | Some d \<Rightarrow> dp_source d), pf_executed = False,
       pf_adapter = non_executing_adapter_result (sq_type q), pf_shape = expected_seam_audit_shape (blocks = []),
       pf_class = classify_idempotency (sq_key_digest q) (sq_payload q) st\<rparr>)"

section \<open>The backup source\<close>

datatype source_summary = Sum_Fresh_Success | Sum_Stale | Sum_Failed | Sum_Partial | Sum_In_Progress | Sum_Unknown | Sum_Unavailable

record source_read =
  sr_source :: exec_source
  sr_summary :: source_summary
  sr_status :: "backup_status option"
  sr_failure :: "string option"
  sr_reason :: "string option"

definition platform_wide_sentinel :: id_text where
  "platform_wide_sentinel = Canonical 0x40008000000000000000"

definition classify_backup_status :: "backup_status option \<Rightarrow> source_summary \<times> exec_source \<times> string option" where
  "classify_backup_status bs =
     (case bs of
        None \<Rightarrow> (Sum_Unknown, Src_Unknown, Some ''No backup outcome has been recorded; status is unknown.'')
      | Some b \<Rightarrow>
          (case bs_verdict b of
             Some Verdict_Success \<Rightarrow> (Sum_Fresh_Success, Src_Known, None)
           | Some Verdict_Stale \<Rightarrow> (Sum_Stale, Src_Degraded, Some ''Latest successful backup is outside the 24h freshness window.'')
           | Some Verdict_Failed \<Rightarrow> (Sum_Failed, Src_Degraded, Some ''Latest backup failed; see failure_reason_redacted.'')
           | Some Verdict_Partial \<Rightarrow> (Sum_Partial, Src_Degraded, Some ''Latest backup completed partially; see failure_reason_redacted.'')
           | Some Verdict_In_Progress \<Rightarrow> (Sum_In_Progress, Src_Degraded, Some ''A backup is in progress; no completed verdict yet.'')
           | _ \<Rightarrow> (Sum_Unknown, Src_Degraded, Some ''Source readable but no completed backup verdict; status unknown.'')))"

definition build_read :: "backup_status option \<Rightarrow> source_read" where
  "build_read bs =
     (case classify_backup_status bs of (summary, source, reason) \<Rightarrow>
       \<lparr>sr_source = source, sr_summary = summary, sr_status = bs,
        sr_failure = (case Option.bind bs bs_failure of None \<Rightarrow> None
          | Some r \<Rightarrow> if r = [] then None else if r \<in> set backup_failure_reasons then Some r else Some ''unknown''),
        sr_reason = reason\<rparr>)"

definition unavailable_read :: source_read where
  "unavailable_read = \<lparr>sr_source = Src_Unknown, sr_summary = Sum_Unavailable, sr_status = None, sr_failure = None,
     sr_reason = Some ''Backup source read failed; status is unavailable.''\<rparr>"

definition read_backup_check_source :: "nat \<Rightarrow> (backup_outcome list \<times> backup_policy list) option \<Rightarrow> id_text option \<Rightarrow> source_read" where
  "read_backup_check_source now tables tenant =
     (let scope = (case given_id tenant of None \<Rightarrow> platform_wide_sentinel | Some t \<Rightarrow> t) in
      case load_backup_status_map [scope] tables of
        None \<Rightarrow> unavailable_read
      | Some reads \<Rightarrow> build_read (build_backup_status (map_of reads scope) now))"

section \<open>The governed action\<close>

datatype governed_state = Gov_Succeeded | Gov_With_Warning | Gov_Failed | Gov_Blocked

record governed_request =
  gq_request :: "id_text option"
  gq_approval :: "id_text option"
  gq_tenant :: "id_text option"
  gq_state :: "string option"
  gq_dry_run :: "id_text option"
  gq_ack :: bool
  gq_key_digest :: "string option"
  gq_payload :: "string option"
  gq_caller :: caller
  gq_correlation :: "string option"

record governed_result =
  gr_request :: "id_text option"
  gr_approval :: "id_text option"
  gr_tenant :: "id_text option"
  gr_passed :: bool
  gr_blocks :: "block_reason list"
  gr_source :: exec_source
  gr_summary :: "source_summary option"
  gr_state :: governed_state
  gr_warning :: "string option"
  gr_failure :: "string option"
  gr_executed :: bool
  gr_correlation :: "string option"
  gr_started :: nat
  gr_finished :: nat

definition governed_action_type :: string where "governed_action_type = ''backup.check''"

definition source_text :: "exec_source \<Rightarrow> string" where
  "source_text s = (case s of Src_Known \<Rightarrow> ''known'' | Src_Unknown \<Rightarrow> ''unknown'' | Src_Degraded \<Rightarrow> ''degraded'')"

text \<open>State, audit reason, warning, failure reason, whether the read completed, event type.\<close>

definition map_read_to_result ::
  "source_read \<Rightarrow> governed_state \<times> string \<times> string option \<times> string option \<times> bool \<times> exec_event_type" where
  "map_read_to_result r =
     (case sr_summary r of
        Sum_Fresh_Success \<Rightarrow>
          (Gov_Succeeded, ''Governed backup.check read completed; no tenant mutation occurred.'', None, None, True, Execution_Succeeded)
      | Sum_Unavailable \<Rightarrow>
          (Gov_Failed, ''Governed backup.check read failed (source unavailable); no tenant mutation occurred. '' @ or_blank (sr_reason r),
           None, None, False, Execution_Failure)
      | Sum_Unknown \<Rightarrow>
          (Gov_With_Warning, ''Governed backup.check read completed (source unknown); no tenant mutation occurred. '' @ or_blank (sr_reason r),
           sr_reason r, None, True, Execution_Succeeded)
      | s \<Rightarrow>
          (Gov_With_Warning, ''Governed backup.check read completed (source '' @ source_text (sr_source r) @
             ''); no tenant mutation occurred. '' @ or_blank (sr_reason r),
           sr_reason r, if s \<in> {Sum_Failed, Sum_Partial} then sr_failure r else None, True, Execution_Succeeded))"

definition governed_audit_state :: "governed_state \<Rightarrow> exec_state" where
  "governed_audit_state g = (case g of Gov_Failed \<Rightarrow> Execution_Failed | Gov_Blocked \<Rightarrow> Blocked | _ \<Rightarrow> Executed)"

definition norm_text :: "string option \<Rightarrow> string" where
  "norm_text v = strip (or_blank v)"

text \<open>The recorded request that a governed request names must agree with it in everything that was approved.\<close>

definition request_mismatch :: "governed_request \<Rightarrow> exec_response \<Rightarrow> bool" where
  "request_mismatch q s \<longleftrightarrow>
     xs_result_state s \<noteq> Dry_Run_Passed \<or> xs_type s \<noteq> Some governed_action_type \<or>
     norm_id (xs_approval s) \<noteq> norm_id (gq_approval q) \<or> norm_id (xs_tenant s) \<noteq> norm_id (gq_tenant q) \<or>
     norm_id (xs_dry_run s) \<noteq> norm_id (gq_dry_run q) \<or> norm_text (xs_actor s) \<noteq> norm_text (cl_actor (gq_caller q)) \<or>
     (if xs_context s = [] then ''identity_only'' else xs_context s) \<noteq>
       (if cl_context (gq_caller q) = [] then ''identity_only'' else cl_context (gq_caller q)) \<or>
     norm_text (xs_key_digest s) \<noteq> norm_text (gq_key_digest q) \<or> norm_text (Some (xs_payload s)) \<noteq> norm_text (gq_payload q)"

text \<open>Why a governed request does not reach the gate; \<open>None\<close> when it is bound to a recorded one.\<close>

definition binding_block :: "governed_request \<Rightarrow> exec_store \<Rightarrow> block_reason option" where
  "binding_block q st =
     (if norm_id (gq_request q) = [] then Some Execution_Request_Required
      else case Option.bind (gq_request q) (\<lambda>xid. read_execution_request xid st) of
        None \<Rightarrow> Some Execution_Request_Not_Found
      | Some s \<Rightarrow> if request_mismatch q s then Some Execution_Request_Mismatch else None)"

definition seam_request_of :: "governed_request \<Rightarrow> seam_request" where
  "seam_request_of q =
     \<lparr>sq_approval = gq_approval q, sq_type = Some governed_action_type, sq_tenant = gq_tenant q, sq_state = gq_state q,
      sq_dry_run = gq_dry_run q, sq_ack = gq_ack q, sq_key_digest = gq_key_digest q, sq_payload = gq_payload q, sq_caller = gq_caller q\<rparr>"

definition governed_event :: "governed_request \<Rightarrow> exec_event_type \<Rightarrow> exec_state \<Rightarrow> string \<Rightarrow> exec_source \<Rightarrow> nat \<Rightarrow> exec_event" where
  "governed_event q t s reason source now =
     \<lparr>xe_id = Malformed [], xe_type = t, xe_request = gq_request q, xe_approval = gq_approval q, xe_actor = cl_actor (gq_caller q),
      xe_role = cl_role (gq_caller q), xe_context = cl_context (gq_caller q), xe_action = Some governed_action_type,
      xe_tenant = gq_tenant q, xe_state = Some s, xe_reason = reason, xe_payload = gq_payload q, xe_key_digest = gq_key_digest q,
      xe_source = Some source, xe_dry_run = gq_dry_run q, xe_correlation = gq_correlation q, xe_blocks = [], xe_seq = 1, xe_at = now\<rparr>"

definition governed_answer :: "governed_request \<Rightarrow> nat \<Rightarrow> governed_result" where
  "governed_answer q now =
     \<lparr>gr_request = gq_request q, gr_approval = gq_approval q, gr_tenant = gq_tenant q, gr_passed = False, gr_blocks = [],
      gr_source = Src_Unknown, gr_summary = None, gr_state = Gov_Blocked, gr_warning = None, gr_failure = None, gr_executed = False,
      gr_correlation = gq_correlation q, gr_started = now, gr_finished = now\<rparr>"

definition finish_blocked ::
  "governed_request \<Rightarrow> exec_source \<Rightarrow> block_reason list \<Rightarrow> string \<Rightarrow> nat \<Rightarrow> exec_store \<Rightarrow> governed_result \<times> exec_store" where
  "finish_blocked q source blocks reason now st =
     ((governed_answer q now)\<lparr>gr_blocks := blocks, gr_source := source\<rparr>,
      emit_exec_audit ((governed_event q Execution_Denied Blocked (reason @ ''; no tenant mutation occurred.'') source now)
        \<lparr>xe_blocks := blocks\<rparr>) st)"

text \<open>
  \<open>start\<close>, \<open>gate\<close>, \<open>read\<close> and \<open>finish\<close> are the instants of the steps; \<open>approval\<close> is what the resolver gave the gate,
  \<open>tables\<close> what the backup queries gave; \<open>why\<close> is the text that explains a failed binding.
\<close>

definition complete_governed_backup_check ::
  "nat \<times> nat \<times> nat \<times> nat \<Rightarrow> string \<Rightarrow> snapshot option \<Rightarrow> (backup_outcome list \<times> backup_policy list) option
   \<Rightarrow> governed_request \<Rightarrow> exec_store \<Rightarrow> governed_result \<times> exec_store" where
  "complete_governed_backup_check clock why approval tables q st =
     (case clock of (start, gate, read, finish) \<Rightarrow>
      case binding_block q st of
        Some b \<Rightarrow> finish_blocked q Src_Unknown [b] why start st
      | None \<Rightarrow>
          (let v = evaluate_preflight_gate gate approval (seam_request_of q) st in
           if pf_blocks v \<noteq> []
           then finish_blocked q (pf_source v) (pf_blocks v) ''Governed backup.check preflight blocked; action not completed.'' start st
           else
             (let r = read_backup_check_source read tables (gq_tenant q);
                  (g, reason, warning, failure, executed, t) = map_read_to_result r
              in ((governed_answer q start)\<lparr>gr_passed := True, gr_source := sr_source r, gr_summary := Some (sr_summary r),
                    gr_state := g, gr_warning := warning, gr_failure := failure, gr_executed := executed, gr_finished := finish\<rparr>,
                  emit_exec_audit (governed_event q t (governed_audit_state g) reason (sr_source r) finish) st))))"

end
