(* ===== verification/Ballot.thy ===== *)
theory Ballot
  imports Approval_Memory
begin

text \<open>
  The contract of dual control, apart from any backend: a ballot is a maker, a quorum, the votes of the
  checkers and a state. Casting a vote is the specification both backends are measured against; the
  locale \<open>ballot_box\<close> is the weaker contract of a backend whose decisions interleave, with late approvals.
\<close>

section \<open>Ballots\<close>

record ballot =
  bl_maker :: string
  bl_quorum :: nat
  bl_valid :: bool
  bl_votes :: "(string \<times> vote) list"
  bl_state :: approval_state

definition yes_votes :: "ballot \<Rightarrow> nat" where
  "yes_votes b = length (filter (\<lambda>(c, v). v = Approve) (bl_votes b))"

definition cast_vote :: "string \<Rightarrow> vote \<Rightarrow> ballot \<Rightarrow> ballot" where
  "cast_vote c v b =
     (if bl_state b \<noteq> Pending_Review \<or> c = bl_maker b \<or> c \<in> fst ` set (bl_votes b) \<or> v = Approve \<and> \<not> bl_valid b then b
      else if v = Reject then b\<lparr>bl_votes := bl_votes b @ [(c, Reject)], bl_state := Rejected_State\<rparr>
      else if bl_quorum b \<le> Suc (yes_votes b) then b\<lparr>bl_votes := bl_votes b @ [(c, Approve)], bl_state := Approved_Blocked\<rparr>
      else b\<lparr>bl_votes := bl_votes b @ [(c, Approve)]\<rparr>)"

text \<open>What the caller is told.\<close>

definition cast_result :: "string \<Rightarrow> vote \<Rightarrow> ballot \<Rightarrow> approval_result" where
  "cast_result c v b =
     (let earlier = map_of (bl_votes b) c in
      if bl_state b \<in> set unimplemented_states \<or> c = bl_maker b then Denied
      else if bl_state b = Rejected_State then (if earlier = Some v then Duplicated else Conflicted)
      else if bl_state b = Approved_Blocked then (if v = Approve \<and> earlier \<noteq> Some Reject then Duplicated else Conflicted)
      else if earlier \<noteq> None then (if earlier = Some v then Duplicated else Conflicted)
      else if v = Approve \<and> \<not> bl_valid b then Denied
      else if v = Reject then Rejected
      else if bl_quorum b \<le> Suc (yes_votes b) then Approved else Quorum_Pending)"

definition fresh_ballot :: "ballot \<Rightarrow> bool" where
  "fresh_ballot b \<longleftrightarrow> bl_votes b = [] \<and> bl_state b = Pending_Review \<and> 1 \<le> bl_quorum b"

text \<open>What one step of an interleaved backend may do: an approval counted against an older reading is recorded late.\<close>

inductive ballot_move :: "ballot \<Rightarrow> ballot \<Rightarrow> bool" where
  rest: "ballot_move b b"
| late: "c \<noteq> bl_maker b \<Longrightarrow> c \<notin> fst ` set (bl_votes b) \<Longrightarrow> bl_valid b \<Longrightarrow>
    ballot_move b (b\<lparr>bl_votes := bl_votes b @ [(c, Approve)]\<rparr>)"
| close: "bl_state b = Pending_Review \<Longrightarrow> c \<noteq> bl_maker b \<Longrightarrow> c \<notin> fst ` set (bl_votes b) \<Longrightarrow> bl_valid b \<Longrightarrow>
    bl_quorum b \<le> Suc (yes_votes b) \<Longrightarrow>
    ballot_move b (b\<lparr>bl_votes := bl_votes b @ [(c, Approve)], bl_state := Approved_Blocked\<rparr>)"
| veto: "bl_state b = Pending_Review \<Longrightarrow> c \<noteq> bl_maker b \<Longrightarrow> c \<notin> fst ` set (bl_votes b) \<Longrightarrow>
    ballot_move b (b\<lparr>bl_votes := bl_votes b @ [(c, Reject)], bl_state := Rejected_State\<rparr>)"

lemma cast_vote_move: "ballot_move b (cast_vote c v b)"
  by (cases v) (auto simp: cast_vote_def intro: ballot_move.intros)

section \<open>Sound and exact ballots\<close>

text \<open>The maker has no vote, nobody votes twice, an approval has its quorum and no veto, a veto is a rejection.\<close>

definition sound_ballot :: "ballot \<Rightarrow> bool" where
  "sound_ballot b \<longleftrightarrow>
     distinct (map fst (bl_votes b)) \<and> bl_maker b \<notin> set (map fst (bl_votes b)) \<and> 1 \<le> bl_quorum b \<and>
     bl_state b \<in> {Pending_Review, Approved_Blocked, Rejected_State} \<and>
     (bl_state b = Approved_Blocked \<longrightarrow> bl_quorum b \<le> yes_votes b \<and> bl_valid b) \<and>
     (Reject \<in> set (map snd (bl_votes b)) \<longleftrightarrow> bl_state b = Rejected_State)"

definition exact_ballot :: "ballot \<Rightarrow> bool" where
  "exact_ballot b \<longleftrightarrow> sound_ballot b \<and>
     (bl_state b = Approved_Blocked \<longrightarrow> yes_votes b = bl_quorum b) \<and> (bl_state b = Pending_Review \<longrightarrow> yes_votes b < bl_quorum b)"

lemma yes_votes_simps [simp]:
  "yes_votes (b\<lparr>bl_state := s\<rparr>) = yes_votes b"
  "yes_votes (b\<lparr>bl_votes := bl_votes b @ [(c, Approve)]\<rparr>) = Suc (yes_votes b)"
  "yes_votes (b\<lparr>bl_votes := bl_votes b @ [(c, Approve)], bl_state := s\<rparr>) = Suc (yes_votes b)"
  "yes_votes (b\<lparr>bl_votes := bl_votes b @ [(c, Reject)], bl_state := s\<rparr>) = yes_votes b"
  by (simp_all add: yes_votes_def)

lemma fresh_ballot_exact: "fresh_ballot b \<Longrightarrow> exact_ballot b"
  by (simp add: fresh_ballot_def exact_ballot_def sound_ballot_def yes_votes_def)

lemma ballot_move_sound: "ballot_move b b' \<Longrightarrow> sound_ballot b \<Longrightarrow> sound_ballot b'"
  by (induction rule: ballot_move.induct) (auto simp: sound_ballot_def)

lemma cast_vote_exact: "exact_ballot b \<Longrightarrow> exact_ballot (cast_vote c v b)"
  using ballot_move_sound [OF cast_vote_move, of b c v]
  by (auto simp: exact_ballot_def cast_vote_def split: if_splits)

text \<open>Who opened it, what it asks for and what was said are kept; a decision is final.\<close>

definition continues :: "ballot \<Rightarrow> ballot \<Rightarrow> bool" where
  "continues b b' \<longleftrightarrow> bl_maker b' = bl_maker b \<and> bl_quorum b' = bl_quorum b \<and> bl_valid b' = bl_valid b \<and>
     take (length (bl_votes b)) (bl_votes b') = bl_votes b \<and> (bl_state b \<noteq> Pending_Review \<longrightarrow> bl_state b' = bl_state b)"

lemma continues_refl [simp]: "continues b b"
  by (simp add: continues_def)

lemma continues_trans: "continues a b \<Longrightarrow> continues b c \<Longrightarrow> continues a c"
  unfolding continues_def by (metis append_take_drop_id append_eq_conv_conj append.assoc)

lemma ballot_move_continues: "ballot_move b b' \<Longrightarrow> continues b b'"
  by (induction rule: ballot_move.induct) (auto simp: continues_def)

section \<open>Backends\<close>

locale ballot_box =
  fixes ballot_at :: "'k \<Rightarrow> 's \<Rightarrow> ballot option"
    and step :: "'e \<Rightarrow> 's \<Rightarrow> 's"
    and good :: "'s \<Rightarrow> bool"
  assumes good_step: "good s \<Longrightarrow> good (step e s)"
    and opened: "good s \<Longrightarrow> ballot_at k s = None \<Longrightarrow> ballot_at k (step e s) = Some b \<Longrightarrow> fresh_ballot b"
    and moved: "good s \<Longrightarrow> ballot_at k s = Some b \<Longrightarrow> \<exists>b'. ballot_at k (step e s) = Some b' \<and> ballot_move b b'"
begin

lemma run_good: "good s \<Longrightarrow> good (fold step es s)"
  by (induction es arbitrary: s) (auto intro: good_step)

lemma step_sound:
  assumes "good s" and "\<And>b. ballot_at k s = Some b \<Longrightarrow> sound_ballot b" and "ballot_at k (step e s) = Some b"
  shows "sound_ballot b"
proof (cases "ballot_at k s")
  case None
  then show ?thesis using opened [OF assms(1) None assms(3)] fresh_ballot_exact exact_ballot_def by blast
next
  case (Some b0)
  then show ?thesis using moved [OF assms(1) Some, of e] assms(2,3) ballot_move_sound by force
qed

lemma run_sound:
  "good s \<Longrightarrow> (\<And>b. ballot_at k s = Some b \<Longrightarrow> sound_ballot b) \<Longrightarrow> ballot_at k (fold step es s) = Some b \<Longrightarrow> sound_ballot b"
proof (induction es arbitrary: s)
  case (Cons e es)
  show ?case
    using Cons.IH [OF good_step [OF Cons.prems(1)] step_sound [OF Cons.prems(1,2)]] Cons.prems(3) by simp
qed simp

lemma run_continues:
  "good s \<Longrightarrow> ballot_at k s = Some b \<Longrightarrow> \<exists>b'. ballot_at k (fold step es s) = Some b' \<and> continues b b'"
proof (induction es arbitrary: s b)
  case (Cons e es)
  obtain b1 where b1: "ballot_at k (step e s) = Some b1" "ballot_move b b1" using moved [OF Cons.prems] by blast
  then obtain b' where "ballot_at k (fold step es (step e s)) = Some b'" "continues b1 b'"
    using Cons.IH [OF good_step [OF Cons.prems(1)]] by blast
  with b1(2) show ?case using ballot_move_continues continues_trans by fastforce
qed auto

end

text \<open>A backend that runs one decision at a time casts votes exactly.\<close>

locale serial_ballot_box = ballot_box +
  assumes serial: "good s \<Longrightarrow> ballot_at k s = Some b \<Longrightarrow>
    ballot_at k (step e s) = Some b \<or> (\<exists>c v. ballot_at k (step e s) = Some (cast_vote c v b))"
begin

lemma run_exact:
  "good s \<Longrightarrow> (\<And>b. ballot_at k s = Some b \<Longrightarrow> exact_ballot b) \<Longrightarrow> ballot_at k (fold step es s) = Some b \<Longrightarrow> exact_ballot b"
proof (induction es arbitrary: s)
  case (Cons e es)
  have "exact_ballot b'" if "ballot_at k (step e s) = Some b'" for b'
  proof (cases "ballot_at k s")
    case None
    then show ?thesis using opened [OF Cons.prems(1) None that] fresh_ballot_exact by blast
  next
    case (Some b0)
    with that Cons.prems(2) serial [OF Cons.prems(1) Some, of e] show ?thesis by (auto intro: cast_vote_exact)
  qed
  from Cons.IH [OF good_step [OF Cons.prems(1)] this] Cons.prems(3) show ?case by simp
qed simp

end

end
