(* ===== verification/Memory_Ballots.thy ===== *)
theory Memory_Ballots
  imports Ballot
begin

text \<open>
  The process-local approval backend implements dual control exactly: each decision casts one vote of the
  specification, over any sequence of requests.
\<close>

section \<open>The ballot of a record\<close>

definition memory_ballot :: "memory_approval \<Rightarrow> ballot" where
  "memory_ballot rec =
     \<lparr>bl_maker = ma_maker rec, bl_quorum = ma_quorum rec, bl_valid = (ma_validation rec = Valid),
      bl_votes = map (\<lambda>k. (ck_id k, ck_vote k)) (ma_checkers rec), bl_state = ma_state rec\<rparr>"

definition memory_ballot_at :: "id_text \<Rightarrow> memory_store \<Rightarrow> ballot option" where
  "memory_ballot_at aid st = map_option memory_ballot (map_of (mm_approvals st) aid)"

lemma checker_vote_map: "checker_vote c cs = map_of (map (\<lambda>k. (ck_id k, ck_vote k)) cs) c"
  by (induction cs) (auto simp: checker_vote_def)

lemma yes_votes_memory: "yes_votes (memory_ballot rec) = approvals_in (ma_checkers rec)"
  by (simp add: yes_votes_def memory_ballot_def approvals_in_def filter_map comp_def)

lemma memory_emit_fields [simp]:
  "mm_approvals (snd (memory_emit e st)) = mm_approvals st" "mm_by_key (snd (memory_emit e st)) = mm_by_key st"
  "mm_uuids (snd (memory_emit e st)) = mm_uuids st" "mm_drawn (snd (memory_emit e st)) = Suc (mm_drawn st)"
  by (simp_all add: memory_emit_def Let_def)

lemma memory_denied_fields [simp]:
  "mm_approvals (snd (memory_decision_denied cl now aid inp rec r st)) = mm_approvals st"
  "ap_result (fst (memory_decision_denied cl now aid inp rec r st)) = r"
  "mm_approvals (snd (memory_create_denied cl now cinp r st)) = mm_approvals st"
  by (simp_all add: memory_decision_denied_def memory_create_denied_def Let_def no_record_def record_from_def split: option.split)

lemma put_approval_at:
  "map_of (mm_approvals (put_approval rec st)) aid = (if aid = ma_id rec then Some rec else map_of (mm_approvals st) aid)"
  by (simp add: put_approval_def update_conv')

section \<open>A decision casts a vote\<close>

lemma memory_vote_casts:
  assumes "ma_state rec = Pending_Review" and "checker \<noteq> ma_maker rec" and "checker_vote checker (ma_checkers rec) = None"
    and "v = Approve \<Longrightarrow> ma_validation rec = Valid" and "ma_id rec = aid" and "map_of (mm_approvals st) aid = Some rec"
    and "memory_vote cl now inp checker v rec st = (r, st')"
  shows "memory_ballot_at k st' =
      (if k = aid then Some (cast_vote checker v (memory_ballot rec)) else memory_ballot_at k st)"
    and "ap_result r = cast_result checker v (memory_ballot rec)"
proof -
  have voter: "checker \<notin> ck_id ` set (ma_checkers rec)"
    using assms(3) by (auto simp: checker_vote_map map_of_eq_None_iff image_image)
  have fields: "bl_state (memory_ballot rec) = Pending_Review" "bl_maker (memory_ballot rec) = ma_maker rec"
    "bl_quorum (memory_ballot rec) = ma_quorum rec" "bl_valid (memory_ballot rec) = (ma_validation rec = Valid)"
    "fst ` set (bl_votes (memory_ballot rec)) = ck_id ` set (ma_checkers rec)"
    "map_of (bl_votes (memory_ballot rec)) checker = None"
    using assms(1,3) by (simp_all add: memory_ballot_def image_image checker_vote_map)
  note defs = memory_vote_def Let_def case_prod_beta put_approval_at memory_ballot_at_def record_from_def
  have yes: "approvals_in (ma_checkers rec @ [c]) = (if ck_vote c = Approve then Suc else id) (approvals_in (ma_checkers rec))" for c
    by (simp add: approvals_in_def)
  have "memory_ballot_at k st' = (if k = aid then Some (cast_vote checker v (memory_ballot rec)) else memory_ballot_at k st) \<and>
    ap_result r = cast_result checker v (memory_ballot rec)"
    using assms(2,4,5,6,7) voter unfolding cast_vote_def cast_result_def fields yes_votes_memory
    by (cases v) (auto simp: defs yes memory_ballot_def assms(1) unimplemented_states_def split: if_splits)
  then show "memory_ballot_at k st' = (if k = aid then Some (cast_vote checker v (memory_ballot rec)) else memory_ballot_at k st)"
    and "ap_result r = cast_result checker v (memory_ballot rec)" by auto
qed

lemma memory_decision_not_refused:
  assumes "\<not> decision_refused cl inp"
  obtains checker v where "bound_actor cl = Some checker" and "vote_of (di_decision inp) = Some v"
  using assms by (auto simp: decision_refused_def)

text \<open>A well-formed decision on a record casts the vote of the caller and answers as the specification does.\<close>

lemma memory_decision_casts:
  assumes rec: "map_of (mm_approvals st) aid = Some rec" and id: "ma_id rec = aid"
    and ok: "\<not> decision_refused cl inp" and who: "bound_actor cl = Some checker" and what: "vote_of (di_decision inp) = Some v"
    and run: "memory_submit_decision cl now aid inp st = (r, st')"
  shows "memory_ballot_at k st' =
      (if k = aid then Some (cast_vote checker v (memory_ballot rec)) else memory_ballot_at k st)"
    and "ap_result r = cast_result checker v (memory_ballot rec)"
proof -
  let ?b = "memory_ballot rec"
  have state: "bl_state ?b = ma_state rec" and maker: "bl_maker ?b = ma_maker rec" and valid: "bl_valid ?b = (ma_validation rec = Valid)"
    and earlier: "map_of (bl_votes ?b) checker = checker_vote checker (ma_checkers rec)"
    by (simp_all add: memory_ballot_def checker_vote_map)
  have voter: "checker \<in> fst ` set (bl_votes ?b) \<longleftrightarrow> checker_vote checker (ma_checkers rec) \<noteq> None"
    unfolding earlier [symmetric] by (simp add: map_of_eq_None_iff)
  note simps = memory_submit_decision_def rec ok who what Let_def
  have "memory_ballot_at k st' = (if k = aid then Some (cast_vote checker v ?b) else memory_ballot_at k st) \<and>
    ap_result r = cast_result checker v ?b"
  proof (cases "ma_state rec = Pending_Review \<and> checker \<noteq> ma_maker rec \<and> checker_vote checker (ma_checkers rec) = None \<and>
      (v = Approve \<longrightarrow> ma_validation rec = Valid)")
    case True
    then have "memory_vote cl now inp checker v rec st = (r, st')"
      using run by (auto simp: simps unimplemented_states_def)
    then show ?thesis using True memory_vote_casts [OF _ _ _ _ id rec] by blast
  next
    case False
    then have same: "cast_vote checker v ?b = ?b" by (auto simp: cast_vote_def state maker valid voter)
    have "mm_approvals (snd (memory_submit_decision cl now aid inp st)) = mm_approvals st \<and>
        ap_result (fst (memory_submit_decision cl now aid inp st)) = cast_result checker v ?b"
      using False unfolding cast_result_def state maker valid earlier yes_votes_memory
      by (cases "ma_state rec"; cases v; cases "checker_vote checker (ma_checkers rec)")
        (simp_all add: simps record_from_def unimplemented_states_def, auto)
    then have "mm_approvals st' = mm_approvals st" and "ap_result r = cast_result checker v ?b" using run by simp_all
    then show ?thesis using rec by (simp add: same memory_ballot_at_def)
  qed
  then show "memory_ballot_at k st' = (if k = aid then Some (cast_vote checker v ?b) else memory_ballot_at k st)"
    and "ap_result r = cast_result checker v ?b" by auto
qed

lemma memory_decision_idle:
  assumes "map_of (mm_approvals st) aid = None \<or> decision_refused cl inp"
  shows "mm_approvals (snd (memory_submit_decision cl now aid inp st)) = mm_approvals st"
  using assms by (auto simp: memory_submit_decision_def Let_def split: option.split)

section \<open>Sequences of calls\<close>

datatype memory_call =
    Memory_Create action_store registry_reader caller nat create_input
  | Memory_Decide caller nat id_text decision_input

fun serve_memory :: "(string \<Rightarrow> string) \<Rightarrow> memory_call \<Rightarrow> memory_store \<Rightarrow> memory_store" where
  "serve_memory sha (Memory_Create acts reg cl now inp) st = snd (memory_create sha acts reg cl now inp st)"
| "serve_memory sha (Memory_Decide cl now aid inp) st = snd (memory_submit_decision cl now aid inp st)"

definition empty_memory :: "(nat \<Rightarrow> uuid) \<Rightarrow> memory_store" where
  "empty_memory uuids = \<lparr>mm_approvals = [], mm_by_key = [], mm_audit = [], mm_uuids = uuids, mm_drawn = 0\<rparr>"

definition memory_ok :: "memory_store \<Rightarrow> bool" where
  "memory_ok st \<longleftrightarrow> inj (mm_uuids st) \<and>
     (\<forall>aid rec. map_of (mm_approvals st) aid = Some rec \<longrightarrow> ma_id rec = aid \<and> (\<exists>i < mm_drawn st. aid = Canonical (mm_uuids st i)))"

lemma memory_ok_id: "memory_ok st \<Longrightarrow> map_of (mm_approvals st) aid = Some rec \<Longrightarrow> ma_id rec = aid"
  by (simp add: memory_ok_def)

lemma memory_ok_fresh: "memory_ok st \<Longrightarrow> map_of (mm_approvals st) (Canonical (mm_uuids st (mm_drawn st))) = None"
  by (rule ccontr) (auto simp: memory_ok_def dest: injD)

lemma drawn_mono: "\<exists>i < m. P i \<Longrightarrow> (m :: nat) \<le> n \<Longrightarrow> \<exists>i < n. P i"
  by (meson less_le_trans)

lemma memory_ok_kept:
  assumes "memory_ok st" and "mm_approvals st' = mm_approvals st" and "mm_uuids st' = mm_uuids st" and "mm_drawn st \<le> mm_drawn st'"
  shows "memory_ok st'"
proof -
  have "\<exists>i < mm_drawn st'. aid = Canonical (mm_uuids st i)" if "\<exists>i < mm_drawn st. aid = Canonical (mm_uuids st i)" for aid
    using that assms(4) by (rule drawn_mono)
  with assms(1) show ?thesis unfolding memory_ok_def assms(2,3) by blast
qed

lemma memory_ok_put:
  assumes "memory_ok st" and "mm_approvals st' = AList.update aid rec (mm_approvals st)" and "mm_uuids st' = mm_uuids st"
    and "mm_drawn st \<le> mm_drawn st'" and "ma_id rec = aid" and "\<exists>i < mm_drawn st'. aid = Canonical (mm_uuids st i)"
  shows "memory_ok st'"
  using assms drawn_mono [of "mm_drawn st"] unfolding memory_ok_def by (simp add: update_conv')

lemma memory_denied_frame:
  "mm_uuids (snd (memory_decision_denied cl now aid inp rec r st)) = mm_uuids st"
  "mm_drawn st \<le> mm_drawn (snd (memory_decision_denied cl now aid inp rec r st))"
  "mm_uuids (snd (memory_create_denied cl now cinp r st)) = mm_uuids st"
  "mm_drawn st \<le> mm_drawn (snd (memory_create_denied cl now cinp r st))"
  by (simp_all add: memory_decision_denied_def memory_create_denied_def Let_def)

lemma memory_create_cases:
  obtains (same) "mm_approvals (snd (memory_create sha acts reg cl now inp st)) = mm_approvals st"
      "mm_uuids (snd (memory_create sha acts reg cl now inp st)) = mm_uuids st"
      "mm_drawn st \<le> mm_drawn (snd (memory_create sha acts reg cl now inp st))"
  | (opens) maker ctx where "bound_actor cl = Some maker" "\<not> create_refused cl now inp"
      "resolve_p18_context acts reg (ci_action inp) (ci_type inp) (ci_tenant inp) = Some ctx"
      "map_of (mm_by_key st) (sha (stripped (ci_key inp))) = None"
      "memory_create sha acts reg cl now inp st = memory_open sha cl now inp maker ctx st"
proof (cases "\<not> create_refused cl now inp \<and> bound_actor cl \<noteq> None \<and> map_of (mm_by_key st) (sha (stripped (ci_key inp))) = None \<and>
    resolve_p18_context acts reg (ci_action inp) (ci_type inp) (ci_tenant inp) \<noteq> None")
  case True
  then show ?thesis by (elim conjE exE option.exhaust_sel) (auto intro!: opens simp: memory_create_def)
next
  case False
  then have "mm_approvals (snd (memory_create sha acts reg cl now inp st)) = mm_approvals st \<and>
      mm_uuids (snd (memory_create sha acts reg cl now inp st)) = mm_uuids st \<and>
      mm_drawn st \<le> mm_drawn (snd (memory_create sha acts reg cl now inp st))"
    by (auto simp: memory_create_def memory_denied_frame split: option.split)
  then show ?thesis using same by blast
qed

text \<open>An opened record, whatever it is about, starts as a ballot without votes.\<close>

lemma memory_open_effect:
  obtains rec where "mm_approvals (snd (memory_open sha cl now inp maker ctx st)) =
      AList.update (Canonical (mm_uuids st (mm_drawn st))) rec (mm_approvals st)"
    and "ma_id rec = Canonical (mm_uuids st (mm_drawn st))" and "fresh_ballot (memory_ballot rec)" and "ma_maker rec = maker"
    and "mm_uuids (snd (memory_open sha cl now inp maker ctx st)) = mm_uuids st"
    and "mm_drawn (snd (memory_open sha cl now inp maker ctx st)) = Suc (Suc (mm_drawn st))"
proof -
  obtain t source cls where ctx: "ctx = (t, source, cls)" by (cases ctx)
  show ?thesis
    by (rule that, simp add: memory_open_def ctx Let_def case_prod_beta,
        simp_all add: memory_open_def ctx Let_def case_prod_beta memory_ballot_def fresh_ballot_def quorum_required_for_def)
qed

lemma memory_vote_puts:
  "\<exists>rec' st1. snd (memory_vote cl now inp checker v rec st) = put_approval rec' st1 \<and> ma_id rec' = ma_id rec \<and>
     mm_approvals st1 = mm_approvals st \<and> mm_uuids st1 = mm_uuids st \<and> mm_drawn st \<le> mm_drawn st1"
proof (cases "v = Reject")
  case True
  show ?thesis
    by (simp add: memory_vote_def True Let_def case_prod_beta) (intro exI conjI, rule refl, simp_all)
next
  case False
  show ?thesis
    unfolding memory_vote_def Let_def case_prod_beta if_not_P [OF False]
    by (split if_split, intro conjI impI; simp only: snd_conv; (intro exI conjI, rule refl, simp_all))
qed

lemma memory_vote_frame:
  "mm_uuids (snd (memory_vote cl now inp checker v rec st)) = mm_uuids st"
  "mm_drawn st \<le> mm_drawn (snd (memory_vote cl now inp checker v rec st))"
  "\<exists>rec'. ma_id rec' = ma_id rec \<and>
     mm_approvals (snd (memory_vote cl now inp checker v rec st)) = AList.update (ma_id rec) rec' (mm_approvals st)"
  using memory_vote_puts [of cl now inp checker v rec st] by (auto simp: put_approval_def)

lemma memory_decision_ok:
  assumes ok: "memory_ok st"
  shows "memory_ok (snd (memory_submit_decision cl now aid inp st))"
proof -
  let ?run = "memory_submit_decision cl now aid inp st"
  have frame: "mm_uuids (snd ?run) = mm_uuids st \<and> mm_drawn st \<le> mm_drawn (snd ?run) \<and>
    (mm_approvals (snd ?run) = mm_approvals st \<or>
     (\<exists>rec rec'. map_of (mm_approvals st) aid = Some rec \<and> ma_id rec' = ma_id rec \<and>
        mm_approvals (snd ?run) = AList.update (ma_id rec) rec' (mm_approvals st)))"
  proof (cases "map_of (mm_approvals st) aid = None \<or> decision_refused cl inp")
    case True
    then show ?thesis
      by (auto simp: memory_submit_decision_def Let_def memory_denied_frame split: option.split)
  next
    case False
    then obtain rec checker v where at: "map_of (mm_approvals st) aid = Some rec" "bound_actor cl = Some checker"
        "vote_of (di_decision inp) = Some v"
      by (auto elim: memory_decision_not_refused)
    show ?thesis
      using False memory_vote_frame [where cl = cl and now = now and inp = inp and checker = checker and v = v and rec = rec and st = st]
      by (cases v) (simp_all add: memory_submit_decision_def at Let_def memory_denied_frame)
  qed
  then show ?thesis
  proof (elim conjE disjE exE)
    assume "mm_approvals (snd ?run) = mm_approvals st" "mm_uuids (snd ?run) = mm_uuids st" "mm_drawn st \<le> mm_drawn (snd ?run)"
    then show ?thesis by (rule memory_ok_kept [OF ok])
  next
    fix rec rec'
    assume at: "map_of (mm_approvals st) aid = Some rec" and id: "ma_id rec' = ma_id rec"
      and "mm_approvals (snd ?run) = AList.update (ma_id rec) rec' (mm_approvals st)"
      and "mm_uuids (snd ?run) = mm_uuids st" and drawn: "mm_drawn st \<le> mm_drawn (snd ?run)"
    moreover have "\<exists>i < mm_drawn st. ma_id rec = Canonical (mm_uuids st i)" using ok at by (auto simp: memory_ok_def)
    ultimately show ?thesis by (intro memory_ok_put [OF ok, where aid = "ma_id rec" and rec = rec'] drawn_mono [OF _ drawn]) auto
  qed
qed

lemma serve_memory_ok: "memory_ok st \<Longrightarrow> memory_ok (serve_memory sha e st)"
proof (cases e)
  case (Memory_Create acts reg cl now inp)
  assume ok: "memory_ok st"
  show ?thesis
  proof (rule memory_create_cases [of sha acts reg cl now inp st])
    fix maker ctx
    assume run: "memory_create sha acts reg cl now inp st = memory_open sha cl now inp maker ctx st"
    show ?thesis
      by (rule memory_open_effect [of sha cl now inp maker ctx st])
        (use ok in \<open>auto simp: Memory_Create run intro!: memory_ok_put [of st] exI [of _ "mm_drawn st"]\<close>)
  qed (use ok in \<open>auto simp: Memory_Create intro: memory_ok_kept\<close>)
qed (simp add: memory_decision_ok)

lemma serve_memory_opened:
  assumes ok: "memory_ok st" and none: "memory_ballot_at k st = None" and some: "memory_ballot_at k (serve_memory sha e st) = Some b"
  shows "fresh_ballot b"
proof (cases e)
  case (Memory_Create acts reg cl now inp)
  show ?thesis
  proof (rule memory_create_cases [of sha acts reg cl now inp st])
    fix maker ctx
    assume run: "memory_create sha acts reg cl now inp st = memory_open sha cl now inp maker ctx st"
    show ?thesis
      by (rule memory_open_effect [of sha cl now inp maker ctx st])
        (use none some in \<open>auto simp: Memory_Create run memory_ballot_at_def update_conv' split: if_splits\<close>)
  qed (use none some in \<open>auto simp: Memory_Create memory_ballot_at_def\<close>)
next
  case (Memory_Decide cl now aid inp)
  have "memory_ballot_at k (serve_memory sha e st) = None"
  proof (cases "map_of (mm_approvals st) aid = None \<or> decision_refused cl inp")
    case True
    then show ?thesis using none memory_decision_idle [OF True] by (simp add: Memory_Decide memory_ballot_at_def)
  next
    case False
    then obtain rec checker v where at: "map_of (mm_approvals st) aid = Some rec" "bound_actor cl = Some checker"
        "vote_of (di_decision inp) = Some v" "\<not> decision_refused cl inp"
      by (auto elim: memory_decision_not_refused)
    have "k \<noteq> aid" using none at(1) by (auto simp: memory_ballot_at_def)
    then show ?thesis
      using memory_decision_casts(1) [where k = k and now = now, OF at(1) memory_ok_id [OF ok at(1)] at(4,2,3) prod.collapse [symmetric]] none
      by (simp add: Memory_Decide)
  qed
  then show ?thesis using some by simp
qed

lemma serve_memory_serial:
  assumes ok: "memory_ok st" and b: "memory_ballot_at k st = Some b"
  shows "memory_ballot_at k (serve_memory sha e st) = Some b \<or>
    (\<exists>c v. memory_ballot_at k (serve_memory sha e st) = Some (cast_vote c v b))"
proof (cases e)
  case (Memory_Create acts reg cl now inp)
  have fresh: "k \<noteq> Canonical (mm_uuids st (mm_drawn st))" using b memory_ok_fresh [OF ok] by (auto simp: memory_ballot_at_def)
  show ?thesis
  proof (rule memory_create_cases [of sha acts reg cl now inp st])
    fix maker ctx
    assume run: "memory_create sha acts reg cl now inp st = memory_open sha cl now inp maker ctx st"
    show ?thesis
      by (rule memory_open_effect [of sha cl now inp maker ctx st])
        (use b fresh in \<open>auto simp: Memory_Create run memory_ballot_at_def update_conv'\<close>)
  qed (use b in \<open>auto simp: Memory_Create memory_ballot_at_def\<close>)
next
  case (Memory_Decide cl now aid inp)
  show ?thesis
  proof (cases "map_of (mm_approvals st) aid = None \<or> decision_refused cl inp")
    case True
    then show ?thesis using b memory_decision_idle [OF True] by (simp add: Memory_Decide memory_ballot_at_def)
  next
    case False
    then obtain rec checker v where at: "map_of (mm_approvals st) aid = Some rec" "bound_actor cl = Some checker"
        "vote_of (di_decision inp) = Some v" "\<not> decision_refused cl inp"
      by (auto elim: memory_decision_not_refused)
    show ?thesis
      using memory_decision_casts(1) [where k = k and now = now, OF at(1) memory_ok_id [OF ok at(1)] at(4,2,3) prod.collapse [symmetric]] b at(1)
      by (cases "k = aid") (auto simp: Memory_Decide memory_ballot_at_def)
  qed
qed

interpretation memory_box: serial_ballot_box memory_ballot_at "serve_memory sha" memory_ok
proof unfold_locales
  fix s k e b
  assume ok: "memory_ok s"
  show "memory_ok (serve_memory sha e s)" using ok by (rule serve_memory_ok)
  show "memory_ballot_at k s = None \<Longrightarrow> memory_ballot_at k (serve_memory sha e s) = Some b \<Longrightarrow> fresh_ballot b"
    using ok by (rule serve_memory_opened)
  assume b: "memory_ballot_at k s = Some b"
  show "memory_ballot_at k (serve_memory sha e s) = Some b \<or> (\<exists>c v. memory_ballot_at k (serve_memory sha e s) = Some (cast_vote c v b))"
    using ok b by (rule serve_memory_serial)
  then show "\<exists>b'. memory_ballot_at k (serve_memory sha e s) = Some b' \<and> ballot_move b b'"
    using cast_vote_move rest by blast
qed

lemma empty_memory_ok: "inj uuids \<Longrightarrow> memory_ok (empty_memory uuids)"
  by (simp add: memory_ok_def empty_memory_def)

text \<open>
  C29: Over any sequence of requests of the process-local backend, an approval counts exactly as dual control
  asks: its maker has no vote and nobody votes twice; it is approved when, and only when, exactly its quorum of
  other people approved it, against an available source, and nobody rejected it; it is rejected exactly when
  someone rejected it; and whatever happens later keeps the votes already cast and a decision already taken.
\<close>

theorem memory_approvals_are_exact:
  assumes "inj uuids" and "memory_ballot_at k (fold (serve_memory sha) es (empty_memory uuids)) = Some b"
  shows "exact_ballot b \<and>
    (\<exists>b'. memory_ballot_at k (fold (serve_memory sha) es' (fold (serve_memory sha) es (empty_memory uuids))) = Some b' \<and> continues b b')"
proof
  have ok: "memory_ok (empty_memory uuids)" using assms(1) by (rule empty_memory_ok)
  show "exact_ballot b"
    using ok _ assms(2) by (rule memory_box.run_exact) (simp add: memory_ballot_at_def empty_memory_def)
  show "\<exists>b'. memory_ballot_at k (fold (serve_memory sha) es' (fold (serve_memory sha) es (empty_memory uuids))) = Some b' \<and> continues b b'"
    using memory_box.run_good [OF ok] assms(2) by (rule memory_box.run_continues)
qed

section \<open>A sample run\<close>

definition sample_caller :: "string \<Rightarrow> caller" where
  "sample_caller a = \<lparr>cl_actor = Some a, cl_role = ''super_admin'', cl_context = ''identity_only''\<rparr>"

definition sample_create :: create_input where
  "sample_create = \<lparr>ci_action = None, ci_tenant = Some (Canonical 7), ci_type = Some ''tenant.pause'', ci_maker = None,
     ci_reason = Some ''late payments'', ci_key = Some ''k-1'', ci_expires = Some 100, ci_retain = None, ci_confirm = True,
     ci_correlation = None, ci_metadata = None\<rparr>"

definition sample_decision :: "string \<Rightarrow> string \<Rightarrow> decision_input" where
  "sample_decision d key = \<lparr>di_decision = Some d, di_approver = None, di_reason = Some ''checked'', di_key = Some key,
     di_confirm = True, di_correlation = None, di_metadata = None\<rparr>"

definition sample_approval_run :: "memory_call list" where
  "sample_approval_run =
     [Memory_Create (empty_store id) (\<lambda>_. Some sample_registry) (sample_caller ''u1'') 1 sample_create,
      Memory_Decide (sample_caller ''u2'') 2 (Canonical 0) (sample_decision ''approve'' ''d-1''),
      Memory_Decide (sample_caller ''u3'') 3 (Canonical 0) (sample_decision ''approve'' ''d-2'')]"

lemma sample_approval_run_ballot:
  "memory_ballot_at (Canonical 0) (fold (serve_memory id) sample_approval_run (empty_memory id)) =
     Some \<lparr>bl_maker = ''u1'', bl_quorum = 2, bl_valid = True, bl_votes = [(''u2'', Approve), (''u3'', Approve)],
       bl_state = Approved_Blocked\<rparr>"
  by code_simp

theorem memory_approvals_are_exact_witness:
  "exact_ballot \<lparr>bl_maker = ''u1'', bl_quorum = 2, bl_valid = True, bl_votes = [(''u2'', Approve), (''u3'', Approve)],
     bl_state = Approved_Blocked\<rparr>"
  using memory_approvals_are_exact [OF inj_on_id sample_approval_run_ballot, of "[]"] by simp

end
