(* ===== verification/Store_Ballots.thy ===== *)
theory Store_Ballots
  imports Approval_Store Memory_Ballots
begin

text \<open>
  The durable approval backend under dual control: the ballot of a stored request, what each transaction may do
  to it when others commit between its reads and its writes, and the same with one transaction at a time.
\<close>

section \<open>The ballot of a request\<close>

definition votes_on :: "uuid \<Rightarrow> approval_db \<Rightarrow> (string \<times> vote) list" where
  "votes_on u db = map (\<lambda>d. (dr_checker d, dr_vote d)) (filter (\<lambda>d. dr_approval d = u) (ad_decisions db))"

definition row_ballot :: "request_row \<Rightarrow> (string \<times> vote) list \<Rightarrow> ballot" where
  "row_ballot r vs = \<lparr>bl_maker = rq_maker r, bl_quorum = rq_quorum r, bl_valid = (rq_validation r = Valid), bl_votes = vs, bl_state = rq_state r\<rparr>"

definition store_ballot :: "uuid \<Rightarrow> approval_db \<Rightarrow> ballot option" where
  "store_ballot u db = map_option (\<lambda>r. row_ballot r (votes_on u db)) (fetch_request u db)"

lemma row_ballot_simps [simp]:
  "bl_maker (row_ballot r vs) = rq_maker r" "bl_quorum (row_ballot r vs) = rq_quorum r"
  "bl_valid (row_ballot r vs) = (rq_validation r = Valid)" "bl_votes (row_ballot r vs) = vs" "bl_state (row_ballot r vs) = rq_state r"
  by (simp_all add: row_ballot_def)

definition yes_on :: "uuid \<Rightarrow> approval_db \<Rightarrow> nat" where
  "yes_on u db = length (filter (\<lambda>d. dr_vote d = Approve) (filter (\<lambda>d. dr_approval d = u) (ad_decisions db)))"

lemma yes_votes_row: "yes_votes (row_ballot r (votes_on u db)) = yes_on u db"
  by (simp add: yes_votes_def votes_on_def yes_on_def filter_map comp_def)

lemma fetch_decisions_yes: "length (filter (\<lambda>d. dr_vote d = Approve) (fetch_decisions u db)) = yes_on u db"
  by (simp add: fetch_decisions_def yes_on_def filter_sort)

section \<open>What a transaction writes\<close>

text \<open>The tables a transaction may leave as they are, while it audits and draws UUIDs.\<close>

definition audits_only :: "approval_db \<Rightarrow> approval_db \<Rightarrow> bool" where
  "audits_only db db' \<longleftrightarrow> ad_requests db' = ad_requests db \<and> ad_decisions db' = ad_decisions db \<and> ad_keys db' = ad_keys db \<and>
     ad_uuids db' = ad_uuids db \<and> ad_drawn db \<le> ad_drawn db'"

lemma audits_only_refl [simp]: "audits_only db db"
  by (simp add: audits_only_def)

lemma emit_audit_Inr:
  "emit_audit numbered outcome e db = Inr (u, db') \<Longrightarrow> audits_only db db'"
  by (auto simp: emit_audit_def Let_def audits_only_def split: if_splits)

lemma create_denied_audits: "create_denied numbered cl now inp c oc db = (r, db') \<Longrightarrow> audits_only db db'"
  by (auto simp: create_denied_def split: sum.splits prod.splits dest!: emit_audit_Inr)

lemma decision_denied_audits: "decision_denied numbered cl now inp req c oc db = (r, db') \<Longrightarrow> audits_only db db'"
  by (auto simp: decision_denied_def Let_def split: sum.splits prod.splits dest!: emit_audit_Inr)

lemma get_request_audits: "get_request now aid numbered db = (r, db') \<Longrightarrow> audits_only db db'"
  by (auto simp: get_request_def split: sum.splits prod.splits option.splits dest!: emit_audit_Inr)

text \<open>A create audits, or inserts a request nobody has voted on.\<close>

definition new_request :: "approval_db \<Rightarrow> request_row \<Rightarrow> approval_db \<Rightarrow> bool" where
  "new_request db req db' \<longleftrightarrow>
     ad_requests db' = ad_requests db @ [req] \<and> ad_decisions db' = ad_decisions db \<and> ad_uuids db' = ad_uuids db \<and>
     ad_drawn db < ad_drawn db' \<and> rq_id req = ad_uuids db (ad_drawn db) \<and> rq_state req = Pending_Review \<and> rq_version req = 1 \<and>
     1 \<le> rq_quorum req"

lemma stored_action_draws:
  "stored_action a db = (u, db') \<Longrightarrow> audits_only db db'"
  by (auto simp: stored_action_def draw_approval_def audits_only_def split: option.splits)

lemma open_request_cases:
  assumes "open_request sha cl now inp maker ctx db = (r, db')"
  obtains "db' = db" "\<nexists>x. r = Store_Ok x" | req where "new_request db req db'" "rq_maker req = maker" "r = Store_Ok (build_record req [] Recorded now)"
proof -
  obtain t source cls where ctx: "ctx = (t, source, cls)" by (cases ctx)
  have "db' = db \<and> (\<nexists>x. r = Store_Ok x) \<or>
      (\<exists>req. new_request db req db' \<and> rq_maker req = maker \<and> r = Store_Ok (build_record req [] Recorded now))"
    using assms unfolding open_request_def ctx Let_def
    by (auto simp: draw_approval_def new_request_def audits_only_def split: sum.splits prod.splits if_splits
        dest!: emit_audit_Inr stored_action_draws)
  then show ?thesis using that by blast
qed

lemma create_request_cases:
  assumes "create_request sha cl now inp ctx seen numbered db = (r, db')"
  obtains "audits_only db db'" | req where "new_request db req db'"
proof -
  have "audits_only db db' \<or> (\<exists>req. new_request db req db')"
  proof (cases "\<not> create_refused cl now inp \<and> fst ctx \<noteq> [] \<and> bound_actor cl \<noteq> None \<and> seen = None")
    case True
    then obtain maker where "open_request sha cl now inp maker ctx db = (r, db')"
      using assms by (auto simp: create_request_def Let_def)
    then show ?thesis by (rule open_request_cases) auto
  next
    case False
    then have "audits_only db db'"
      using assms by (auto simp: create_request_def Let_def split: option.splits if_splits sum.splits prod.splits
          dest!: create_denied_audits emit_audit_Inr)
    then show ?thesis by blast
  qed
  then show ?thesis using that by blast
qed

text \<open>A decision audits, or inserts a decision by someone new, and when it decides it moves the request it had read.\<close>

definition adds_decision :: "approval_db \<Rightarrow> decision_row \<Rightarrow> approval_db \<Rightarrow> bool" where
  "adds_decision db d db' \<longleftrightarrow> ad_decisions db' = ad_decisions db @ [d] \<and> \<not> decision_collides d db \<and>
     ad_uuids db' = ad_uuids db \<and> ad_drawn db \<le> ad_drawn db'"

definition moves_request :: "approval_db \<Rightarrow> request_row \<Rightarrow> approval_state \<Rightarrow> approval_db \<Rightarrow> bool" where
  "moves_request db req s db' \<longleftrightarrow>
     (\<exists>cur cur'. fetch_request (rq_id req) db = Some cur \<and> rq_version cur = rq_version req \<and>
        ad_requests db' = row_put rq_id cur' (ad_requests db) \<and> rq_id cur' = rq_id req \<and> rq_state cur' = s \<and>
        rq_maker cur' = rq_maker cur \<and> rq_quorum cur' = rq_quorum cur \<and> rq_validation cur' = rq_validation cur \<and>
        rq_type cur' = rq_type cur \<and> rq_source cur' = rq_source cur \<and> rq_version cur' = rq_version req + 1)"

lemma flush_decision_Some:
  "flush_decision d k db = Some db' \<Longrightarrow>
   adds_decision db d db' \<and> ad_requests db' = ad_requests db"
  by (auto simp: flush_decision_def adds_decision_def split: if_splits)

lemma fetch_request_id: "fetch_request u db = Some r \<Longrightarrow> rq_id r = u"
  by (auto simp: fetch_request_def dest: row_find_Some)

lemma optimistic_update_Some:
  assumes "optimistic_update req s v met eid now db = Some db'"
  shows "moves_request db req s db'" and "ad_decisions db' = ad_decisions db" and "ad_uuids db' = ad_uuids db" and "ad_drawn db' = ad_drawn db"
proof -
  obtain cur where cur: "fetch_request (rq_id req) db = Some cur" "rq_version cur = rq_version req"
    using assms by (auto simp: optimistic_update_def split: option.splits if_splits)
  define cur' where "cur' = cur\<lparr>rq_state := s, rq_decision := Some v, rq_quorum_met := met, rq_previous := Some (rq_state req),
    rq_version := rq_version req + 1, rq_last_audit := eid, rq_updated := now\<rparr>"
  have db': "db' = db\<lparr>ad_requests := row_put rq_id cur' (ad_requests db)\<rparr>"
    using assms cur by (simp add: optimistic_update_def cur'_def)
  show "moves_request db req s db'"
    unfolding moves_request_def
    by (rule exI [of _ cur], rule exI [of _ cur']) (use cur fetch_request_id [OF cur(1)] in \<open>simp add: db' cur'_def\<close>)
  show "ad_decisions db' = ad_decisions db" "ad_uuids db' = ad_uuids db" "ad_drawn db' = ad_drawn db" by (simp_all add: db')
qed

lemma audits_only_fetch: "audits_only db db' \<Longrightarrow> fetch_request u db' = fetch_request u db"
  by (simp add: audits_only_def fetch_request_def)

lemma new_decision_fields:
  "new_decision sha now aid inp checker v req eid = (d, k) \<Longrightarrow> dr_approval d = rq_id req \<and> dr_checker d = checker \<and> dr_vote d = v"
  by (auto simp: new_decision_def Let_def)

lemma moves_request_frame:
  assumes "moves_request db1 req s db'" and "ad_requests db1 = ad_requests db"
  shows "moves_request db req s db'"
  using assms by (simp add: moves_request_def fetch_request_def)

lemma record_reject_cases:
  assumes "record_reject sha numbered cl now aid inp checker req db = (r, db')"
  obtains (failed) "db' = db" "\<nexists>x. r = Store_Ok x"
  | (veto) d where "dr_approval d = rq_id req" "dr_checker d = checker" "dr_vote d = Reject" "adds_decision db d db'"
      "moves_request db req Rejected_State db'" "r = refreshed (rq_id req) Rejected now db'"
proof (cases "db' = db \<and> (\<nexists>x. r = Store_Ok x)")
  case False
  then obtain eid db1 d k db2 qid db3 where
      e1: "emit_audit numbered None (audit_decision cl now inp req Approval_Decision_Recorded Reject Rejected_State False) db = Inr (eid, db1)"
    and nd: "new_decision sha now aid inp checker Reject req eid = (d, k)" and fl: "flush_decision d k db1 = Some db2"
    and e2: "emit_audit db2 None (audit_decision cl now inp req Approval_Rejected Reject Rejected_State False) db2 = Inr (qid, db3)"
    and up: "optimistic_update req Rejected_State Reject False qid now db3 = Some db'" and r: "r = refreshed (rq_id req) Rejected now db'"
    using assms by (auto simp: record_reject_def split: sum.splits prod.splits option.splits)
  note tables = emit_audit_Inr [OF e1, unfolded audits_only_def] flush_decision_Some [OF fl, unfolded adds_decision_def]
    emit_audit_Inr [OF e2, unfolded audits_only_def] optimistic_update_Some [OF up]
  have "adds_decision db d db'" using tables by (auto simp: adds_decision_def decision_collides_def)
  moreover have "moves_request db req Rejected_State db'" using moves_request_frame [OF tables(4)] tables by simp
  ultimately show ?thesis using veto new_decision_fields [OF nd] r by blast
qed (use failed in blast)

lemma record_approve_cases:
  assumes "record_approve sha numbered cl now aid inp checker req seen db = (r, db')"
  obtains (failed) "db' = db" "\<nexists>x. r = Store_Ok x"
  | (late) d where "dr_approval d = rq_id req" "dr_checker d = checker" "dr_vote d = Approve" "adds_decision db d db'"
      "ad_requests db' = ad_requests db" "\<not> rq_quorum req \<le> 1 + length (filter (\<lambda>d. dr_vote d = Approve) seen)"
      "r = refreshed (rq_id req) Quorum_Pending now db'"
  | (close) d where "dr_approval d = rq_id req" "dr_checker d = checker" "dr_vote d = Approve" "adds_decision db d db'"
      "moves_request db req Approved_Blocked db'" "rq_quorum req \<le> 1 + length (filter (\<lambda>d. dr_vote d = Approve) seen)"
      "r = refreshed (rq_id req) Approved now db'"
proof (cases "db' = db \<and> (\<nexists>x. r = Store_Ok x)")
  case False
  then obtain eid db1 d k db2 where
      e1: "emit_audit numbered None (audit_decision cl now inp req Approval_Decision_Recorded Approve Pending_Review False) db = Inr (eid, db1)"
    and nd: "new_decision sha now aid inp checker Approve req eid = (d, k)" and fl: "flush_decision d k db1 = Some db2"
    using assms by (auto simp: record_approve_def split: sum.splits prod.splits option.splits)
  note tables = emit_audit_Inr [OF e1, unfolded audits_only_def] flush_decision_Some [OF fl, unfolded adds_decision_def]
  show ?thesis
  proof (cases "rq_quorum req \<le> 1 + length (filter (\<lambda>d. dr_vote d = Approve) seen)")
    case True
    with False obtain qid db3 where
        e2: "emit_audit db2 None (audit_decision cl now inp req Approval_Quorum_Met Approve Approved_Blocked True) db2 = Inr (qid, db3)"
      and up: "optimistic_update req Approved_Blocked Approve True qid now db3 = Some db'" and r: "r = refreshed (rq_id req) Approved now db'"
      using assms e1 nd fl by (auto simp: record_approve_def split: sum.splits prod.splits option.splits if_splits)
    note more = emit_audit_Inr [OF e2, unfolded audits_only_def] optimistic_update_Some [OF up]
    have "adds_decision db d db'" using tables more by (auto simp: adds_decision_def decision_collides_def)
    moreover have "moves_request db req Approved_Blocked db'" using moves_request_frame [OF more(2)] tables more by simp
    ultimately show ?thesis using close new_decision_fields [OF nd] r True by blast
  next
    case pending: False
    then have "db' = db2" "r = refreshed (rq_id req) Quorum_Pending now db'"
      using assms e1 nd fl by (auto simp: record_approve_def)
    moreover have "adds_decision db d db2" using tables by (auto simp: adds_decision_def decision_collides_def)
    ultimately show ?thesis using late [of d] new_decision_fields [OF nd] pending tables by simp
  qed
qed (use failed in blast)

text \<open>What a caller may decide, as it read the request.\<close>

definition may_decide :: "caller \<Rightarrow> decision_input \<Rightarrow> decision_reading \<Rightarrow> request_row \<Rightarrow> string \<Rightarrow> vote \<Rightarrow> bool" where
  "may_decide cl inp reading req checker v \<longleftrightarrow>
     dg_request reading = Some req \<and> \<not> decision_refused cl inp \<and> bound_actor cl = Some checker \<and> vote_of (di_decision inp) = Some v \<and>
     rq_state req = Pending_Review \<and> checker \<noteq> rq_maker req \<and> earlier_vote checker (dg_decisions reading) = None \<and>
     (v = Approve \<longrightarrow> rq_validation req = Valid)"

lemma may_decide_submit:
  assumes "may_decide cl inp reading req checker v" and "parse_uuid aid = Some u"
  shows "submit_decision sha cl now aid inp reading numbered db =
    (if v = Reject then record_reject sha numbered cl now aid inp checker req db
     else record_approve sha numbered cl now aid inp checker req (dg_decisions reading) db)"
  using assms by (cases v) (auto simp: may_decide_def submit_decision_def Let_def unimplemented_states_def)

lemma may_not_decide_submit:
  assumes "\<nexists>req checker v. may_decide cl inp reading req checker v"
    and run: "submit_decision sha cl now aid inp reading numbered db = (r, db')"
  shows "audits_only db db'"
proof (cases "parse_uuid aid = None \<or> dg_request reading = None \<or> decision_refused cl inp")
  case True
  then show ?thesis using run
    by (auto simp: submit_decision_def Let_def split: option.splits dest: decision_denied_audits)
next
  case False
  then obtain u req checker v where "parse_uuid aid = Some u" "dg_request reading = Some req" "bound_actor cl = Some checker"
      "vote_of (di_decision inp) = Some v" and ok: "\<not> decision_refused cl inp"
    by (auto elim: memory_decision_not_refused)
  note simps = this
  note dest = decision_denied_audits emit_audit_Inr
  have "\<not> may_decide cl inp reading req checker v" using assms(1) by blast
  then show ?thesis
    using run
    by (cases v; cases "rq_state req")
      (auto simp: submit_decision_def simps ok may_decide_def Let_def unimplemented_states_def
        split: if_splits sum.splits prod.splits dest!: dest)
qed

lemma submit_decision_cases:
  assumes "submit_decision sha cl now aid inp reading numbered db = (r, db')"
  obtains (audits) "audits_only db db'"
  | (late) req checker d where "may_decide cl inp reading req checker Approve" "dr_approval d = rq_id req" "dr_checker d = checker"
      "dr_vote d = Approve" "adds_decision db d db'" "ad_requests db' = ad_requests db"
      "\<not> rq_quorum req \<le> 1 + length (filter (\<lambda>d. dr_vote d = Approve) (dg_decisions reading))"
  | (close) req checker d where "may_decide cl inp reading req checker Approve" "dr_approval d = rq_id req" "dr_checker d = checker"
      "dr_vote d = Approve" "adds_decision db d db'" "moves_request db req Approved_Blocked db'"
      "rq_quorum req \<le> 1 + length (filter (\<lambda>d. dr_vote d = Approve) (dg_decisions reading))"
  | (veto) req checker d where "may_decide cl inp reading req checker Reject" "dr_approval d = rq_id req" "dr_checker d = checker"
      "dr_vote d = Reject" "adds_decision db d db'" "moves_request db req Rejected_State db'"
proof (cases "\<exists>req checker v. may_decide cl inp reading req checker v")
  case True
  then obtain req checker v where may: "may_decide cl inp reading req checker v" by blast
  show ?thesis
  proof (cases "parse_uuid aid")
    case None
    then show ?thesis using assms audits by (simp add: submit_decision_def)
  next
    case (Some u)
    note run = assms [unfolded may_decide_submit [OF may Some]]
    show ?thesis
    proof (cases v)
      case Approve
      with run have "record_approve sha numbered cl now aid inp checker req (dg_decisions reading) db = (r, db')" by simp
      then show ?thesis by (rule record_approve_cases) (use may Approve audits late close in auto)
    next
      case Reject
      with run have "record_reject sha numbered cl now aid inp checker req db = (r, db')" by simp
      then show ?thesis by (rule record_reject_cases) (use may Reject audits veto in auto)
    qed
  qed
next
  case False
  then show ?thesis using may_not_decide_submit [OF _ assms] audits by blast
qed

section \<open>Well-formed databases and readings\<close>

text \<open>Request ids are drawn and unique, decisions belong to requests, a request has version 1 until it is decided.\<close>

definition row_ok :: "request_row \<Rightarrow> bool" where
  "row_ok r \<longleftrightarrow> 1 \<le> rq_quorum r \<and> rq_version r = (if rq_state r = Pending_Review then 1 else 2)"

definition store_ok :: "approval_db \<Rightarrow> bool" where
  "store_ok db \<longleftrightarrow> inj (ad_uuids db) \<and> distinct (map rq_id (ad_requests db)) \<and>
     (\<forall>r \<in> set (ad_requests db). row_ok r \<and> (\<exists>i < ad_drawn db. rq_id r = ad_uuids db i)) \<and>
     (\<forall>d \<in> set (ad_decisions db). dr_approval d \<in> rq_id ` set (ad_requests db))"

text \<open>A reading agrees with what the request was opened with, and saw no approval that is not there now.\<close>

definition reading_ok :: "decision_reading \<Rightarrow> approval_db \<Rightarrow> bool" where
  "reading_ok reading db \<longleftrightarrow>
     (case dg_request reading of None \<Rightarrow> True
      | Some r \<Rightarrow> row_ok r \<and>
          (\<exists>b. store_ballot (rq_id r) db = Some b \<and> bl_maker b = rq_maker r \<and> bl_quorum b = rq_quorum r \<and>
             bl_valid b = (rq_validation r = Valid) \<and>
             length (filter (\<lambda>d. dr_vote d = Approve) (dg_decisions reading)) \<le> yes_votes b))"

lemma store_ok_fetch: "store_ok db \<Longrightarrow> fetch_request u db = Some r \<Longrightarrow> row_ok r \<and> r \<in> set (ad_requests db) \<and> rq_id r = u"
  by (auto simp: store_ok_def fetch_request_def dest: row_find_Some)

lemma store_ok_fresh: "store_ok db \<Longrightarrow> fetch_request (ad_uuids db (ad_drawn db)) db = None"
proof (rule ccontr)
  assume ok: "store_ok db" and "fetch_request (ad_uuids db (ad_drawn db)) db \<noteq> None"
  then obtain r where "r \<in> set (ad_requests db)" "rq_id r = ad_uuids db (ad_drawn db)" using store_ok_fetch by blast
  moreover from this ok obtain i where "i < ad_drawn db" "rq_id r = ad_uuids db i" by (auto simp: store_ok_def)
  ultimately show False using ok by (auto simp: store_ok_def dest: injD)
qed

lemma store_ok_mono:
  assumes "store_ok db" and "ad_requests db' = ad_requests db" and "ad_uuids db' = ad_uuids db" and "ad_drawn db \<le> ad_drawn db'"
    and "\<And>d. d \<in> set (ad_decisions db') \<Longrightarrow> dr_approval d \<in> rq_id ` set (ad_requests db)"
  shows "store_ok db'"
proof -
  have "\<exists>i < ad_drawn db'. rq_id r = ad_uuids db i" if "\<exists>i < ad_drawn db. rq_id r = ad_uuids db i" for r
    using that assms(4) by (rule drawn_mono)
  with assms(1,5) show ?thesis unfolding store_ok_def assms(2,3) by blast
qed

lemma store_ok_audits: "store_ok db \<Longrightarrow> audits_only db db' \<Longrightarrow> store_ok db'"
  by (rule store_ok_mono [of db]) (auto simp: audits_only_def store_ok_def)

lemma store_ok_new:
  assumes ok: "store_ok db" and new: "new_request db req db'"
  shows "store_ok db'"
proof -
  note n = new [unfolded new_request_def]
  have fresh: "rq_id req \<notin> rq_id ` set (ad_requests db)"
    using store_ok_fresh [OF ok] n by (auto simp: fetch_request_def row_find_def find_None_iff)
  have drawn: "\<exists>i < ad_drawn db'. rq_id r = ad_uuids db i" if "r \<in> set (ad_requests db) \<or> r = req" for r
    using that
  proof
    assume "r \<in> set (ad_requests db)"
    then have "\<exists>i < ad_drawn db. rq_id r = ad_uuids db i" using ok by (auto simp: store_ok_def)
    then show ?thesis by (rule drawn_mono) (use n in simp)
  qed (use n in auto)
  have "distinct (map rq_id (ad_requests db @ [req]))" using ok fresh by (simp add: store_ok_def)
  moreover have "row_ok r" if "r \<in> set (ad_requests db) \<or> r = req" for r
    using that ok n by (auto simp: store_ok_def row_ok_def)
  ultimately show ?thesis using ok n drawn by (auto simp: store_ok_def)
qed

lemma store_ok_decision:
  assumes ok: "store_ok db" and add: "adds_decision db d db'" and req: "ad_requests db' = ad_requests db"
    and at: "fetch_request (dr_approval d) db = Some r"
  shows "store_ok db'"
  using ok req _ _ _
proof (rule store_ok_mono)
  show "ad_uuids db' = ad_uuids db" "ad_drawn db \<le> ad_drawn db'" using add by (simp_all add: adds_decision_def)
  show "dr_approval x \<in> rq_id ` set (ad_requests db)" if "x \<in> set (ad_decisions db')" for x
    using that ok add store_ok_fetch [OF ok at] by (auto simp: adds_decision_def store_ok_def intro: rev_image_eqI)
qed

lemma store_ok_move:
  assumes ok: "store_ok db" and moves: "moves_request db req s db'" and pending: "rq_version req = 1" and s: "s \<noteq> Pending_Review"
    and rest: "ad_uuids db' = ad_uuids db" "ad_drawn db \<le> ad_drawn db'"
      "\<And>d. d \<in> set (ad_decisions db') \<Longrightarrow> dr_approval d \<in> rq_id ` set (ad_requests db)"
  shows "store_ok db'"
proof -
  obtain cur cur' where m: "fetch_request (rq_id req) db = Some cur" "ad_requests db' = row_put rq_id cur' (ad_requests db)"
      "rq_id cur' = rq_id req" "rq_state cur' = s" "rq_quorum cur' = rq_quorum cur" "rq_version cur' = 2"
    using moves pending by (auto simp: moves_request_def)
  note cur = store_ok_fetch [OF ok m(1)]
  have ids: "map rq_id (ad_requests db') = map rq_id (ad_requests db)" using m(2) by simp
  then have set_ids: "rq_id ` set (ad_requests db') = rq_id ` set (ad_requests db)" by (metis list.set_map)
  have drawn: "\<exists>i < ad_drawn db'. u = ad_uuids db i" if "u \<in> rq_id ` set (ad_requests db)" for u
  proof -
    have "\<exists>i < ad_drawn db. u = ad_uuids db i" using that ok by (auto simp: store_ok_def)
    then show ?thesis using rest(2) by (rule drawn_mono)
  qed
  have "row_ok r \<and> (\<exists>i < ad_drawn db'. rq_id r = ad_uuids db i)" if "r \<in> set (ad_requests db')" for r
  proof
    show "row_ok r" using set_row_put [of r rq_id cur' "ad_requests db"] that m cur s ok by (auto simp: store_ok_def row_ok_def)
    show "\<exists>i < ad_drawn db'. rq_id r = ad_uuids db i" using drawn that set_ids by blast
  qed
  then show ?thesis using ok rest set_ids ids by (simp add: store_ok_def)
qed

section \<open>What each transaction does to a ballot\<close>

lemma votes_on_add:
  "adds_decision db d db' \<Longrightarrow>
   votes_on u db' = (if u = dr_approval d then votes_on u db @ [(dr_checker d, dr_vote d)] else votes_on u db)"
  by (simp add: adds_decision_def votes_on_def)

lemma new_voter: "adds_decision db d db' \<Longrightarrow> dr_checker d \<notin> fst ` set (votes_on (dr_approval d) db)"
  by (auto simp: adds_decision_def decision_collides_def list_ex_iff votes_on_def)

lemma store_ballot_audits: "audits_only db db' \<Longrightarrow> store_ballot u db' = store_ballot u db"
  by (simp add: audits_only_def store_ballot_def fetch_request_def votes_on_def)

lemma no_votes_yet:
  assumes "store_ok db" and "fetch_request u db = None"
  shows "votes_on u db = []"
proof -
  have "u \<notin> rq_id ` set (ad_requests db)" using assms(2) by (auto simp: fetch_request_def row_find_def find_None_iff)
  then show ?thesis using assms(1) by (auto simp: votes_on_def store_ok_def filter_empty_conv)
qed

lemma store_ballot_new:
  assumes ok: "store_ok db" and new: "new_request db req db'"
  shows "store_ballot u db' = (if u = rq_id req then Some (row_ballot req []) else store_ballot u db)"
proof -
  have none: "fetch_request (rq_id req) db = None" using store_ok_fresh [OF ok] new by (simp add: new_request_def)
  have find: "find P (xs @ [x]) = (case find P xs of None \<Rightarrow> if P x then Some x else None | Some y \<Rightarrow> Some y)" for P xs and x :: request_row
    by (induction xs) auto
  have "fetch_request u db' = (if u = rq_id req then Some req else fetch_request u db)"
    using new none by (auto simp: new_request_def fetch_request_def row_find_def find split: option.split)
  moreover have "votes_on u db' = votes_on u db" using new by (simp add: new_request_def votes_on_def)
  ultimately show ?thesis using no_votes_yet [OF ok none] by (simp add: store_ballot_def)
qed

lemma new_request_fresh: "new_request db req db' \<Longrightarrow> fresh_ballot (row_ballot req [])"
  by (simp add: new_request_def fresh_ballot_def)

lemma store_ballot_late:
  assumes "adds_decision db d db'" and "ad_requests db' = ad_requests db" and "fetch_request u db = Some cur"
  shows "store_ballot u db' = Some (row_ballot cur (if u = dr_approval d then votes_on u db @ [(dr_checker d, dr_vote d)] else votes_on u db))"
  using assms by (simp add: store_ballot_def fetch_request_def votes_on_add)

lemma store_ballot_decided:
  assumes ok: "store_ok db" and add: "adds_decision db d db'" and moves: "moves_request db req s db'" and d: "dr_approval d = rq_id req"
    and u: "fetch_request u db = Some cur"
  shows "store_ballot u db' =
    Some (if u = rq_id req then (row_ballot cur (votes_on u db @ [(dr_checker d, dr_vote d)]))\<lparr>bl_state := s\<rparr>
          else row_ballot cur (votes_on u db))"
proof -
  obtain found cur' where mm: "fetch_request (rq_id req) db = Some found" and m: "ad_requests db' = row_put rq_id cur' (ad_requests db)"
      "rq_id cur' = rq_id req" "rq_state cur' = s" and same: "rq_maker cur' = rq_maker found" "rq_quorum cur' = rq_quorum found"
      "rq_validation cur' = rq_validation found"
    using moves unfolding moves_request_def by blast
  have kept: "u = rq_id req \<Longrightarrow> rq_maker cur' = rq_maker cur \<and> rq_quorum cur' = rq_quorum cur \<and> rq_validation cur' = rq_validation cur"
    using mm u same by simp
  have "fetch_request u db' = Some (if u = rq_id req then cur' else cur)"
    using u m(1,2) by (cases "u = rq_id req") (simp_all add: fetch_request_def row_find_put)
  then show ?thesis using add m d kept by (simp add: store_ballot_def votes_on_add row_ballot_def)
qed

lemma reading_request:
  assumes "reading_ok reading db" and "may_decide cl inp reading req checker v"
  obtains cur where "fetch_request (rq_id req) db = Some cur" and "rq_maker cur = rq_maker req" and "rq_quorum cur = rq_quorum req"
    and "rq_validation cur = Valid \<longleftrightarrow> rq_validation req = Valid" and "rq_version req = 1"
    and "length (filter (\<lambda>d. dr_vote d = Approve) (dg_decisions reading)) \<le> yes_on (rq_id req) db"
  using assms by (auto simp: reading_ok_def may_decide_def row_ok_def store_ballot_def yes_votes_row)

lemma version_one: "store_ok db \<Longrightarrow> fetch_request u db = Some cur \<Longrightarrow> rq_version cur = 1 \<Longrightarrow> rq_state cur = Pending_Review"
proof -
  assume one: "rq_version cur = 1" and "store_ok db" "fetch_request u db = Some cur"
  then have "row_ok cur" using store_ok_fetch by blast
  with one show ?thesis by (cases "rq_state cur = Pending_Review") (simp_all add: row_ok_def)
qed

text \<open>A decision that moves the request it read finds it as it was: the version says so.\<close>

lemma decided_step:
  assumes ok: "store_ok db" and add: "adds_decision db d db'" and moves: "moves_request db req s db'" and d: "dr_approval d = rq_id req"
    and at: "fetch_request (rq_id req) db = Some cur" and one: "rq_version req = 1"
    and who: "dr_checker d \<noteq> rq_maker cur"
    and what: "s = Rejected_State \<and> dr_vote d = Reject \<or>
      s = Approved_Blocked \<and> dr_vote d = Approve \<and> rq_validation cur = Valid \<and> rq_quorum cur \<le> Suc (yes_on (rq_id req) db)"
  shows "store_ok db' \<and> (\<forall>b. store_ballot u db = Some b \<longrightarrow> (\<exists>b'. store_ballot u db' = Some b' \<and> ballot_move b b')) \<and>
      (store_ballot u db = None \<longrightarrow> store_ballot u db' = None)"
proof (intro conjI allI impI)
  have pending: "rq_state cur = Pending_Review"
    using version_one [OF ok at] moves at one by (simp add: moves_request_def)
  show "store_ok db'"
    using ok moves one
  proof (rule store_ok_move)
    show "s \<noteq> Pending_Review" using what by auto
    show "ad_uuids db' = ad_uuids db" "ad_drawn db \<le> ad_drawn db'" using add by (simp_all add: adds_decision_def)
    show "dr_approval x \<in> rq_id ` set (ad_requests db)" if "x \<in> set (ad_decisions db')" for x
      using that add d ok store_ok_fetch [OF ok at] by (auto simp: adds_decision_def store_ok_def intro: rev_image_eqI)
  qed
  show "\<exists>b'. store_ballot u db' = Some b' \<and> ballot_move b b'" if b: "store_ballot u db = Some b" for b
  proof -
    obtain c where c: "fetch_request u db = Some c" "b = row_ballot c (votes_on u db)" using b by (auto simp: store_ballot_def)
    note after = store_ballot_decided [OF ok add moves d c(1)]
    show ?thesis
    proof (cases "u = rq_id req")
      case True
      then have "c = cur" using c at by simp
      then have "store_ballot u db' = Some (b\<lparr>bl_votes := bl_votes b @ [(dr_checker d, dr_vote d)], bl_state := s\<rparr>)"
        using after True c(2) by (simp add: row_ballot_def)
      moreover have "ballot_move b (b\<lparr>bl_votes := bl_votes b @ [(dr_checker d, dr_vote d)], bl_state := s\<rparr>)"
        using what ballot_move.close [of b "dr_checker d"] ballot_move.veto [of b "dr_checker d"] pending who new_voter [OF add] d True
          c(2) \<open>c = cur\<close> yes_votes_row by auto
      ultimately show ?thesis by blast
    qed (use after c(2) ballot_move.rest in simp)
  qed
  show "store_ballot u db' = None" if "store_ballot u db = None"
  proof -
    have "u \<noteq> rq_id req" using that at by (auto simp: store_ballot_def)
    then have "fetch_request u db' = fetch_request u db"
      using moves by (auto simp: moves_request_def fetch_request_def row_find_put)
    then show ?thesis using that by (simp add: store_ballot_def)
  qed
qed

text \<open>The step lemma: a decision with an old reading keeps the database well-formed and moves a ballot as the contract allows.\<close>

lemma submit_decision_step:
  assumes ok: "store_ok db" and reading: "reading_ok reading db"
    and run: "submit_decision sha cl now aid inp reading numbered db = (r, db')"
  shows "store_ok db'" and "store_ballot u db = Some b \<Longrightarrow> \<exists>b'. store_ballot u db' = Some b' \<and> ballot_move b b'"
    and "store_ballot u db = None \<Longrightarrow> store_ballot u db' = None"
proof -
  have "store_ok db' \<and> (\<forall>b. store_ballot u db = Some b \<longrightarrow> (\<exists>b'. store_ballot u db' = Some b' \<and> ballot_move b b')) \<and>
      (store_ballot u db = None \<longrightarrow> store_ballot u db' = None)"
    using run
  proof (rule submit_decision_cases)
    assume "audits_only db db'"
    then show ?thesis using store_ok_audits [OF ok] store_ballot_audits ballot_move.rest by auto
  next
    fix req checker d
    assume may: "may_decide cl inp reading req checker Approve" and d: "dr_approval d = rq_id req" "dr_checker d = checker"
        "dr_vote d = Approve" and add: "adds_decision db d db'" and same: "ad_requests db' = ad_requests db"
    obtain cur where cur: "fetch_request (rq_id req) db = Some cur" "rq_maker cur = rq_maker req" "rq_validation cur = Valid \<longleftrightarrow> rq_validation req = Valid"
      using reading may by (rule reading_request)
    have cond: "checker \<noteq> rq_maker cur" "rq_validation cur = Valid" using may cur by (simp_all add: may_decide_def)
    have "\<exists>b'. store_ballot u db' = Some b' \<and> ballot_move b b'" if b: "store_ballot u db = Some b" for b
    proof -
      obtain c where c: "fetch_request u db = Some c" "b = row_ballot c (votes_on u db)" using b by (auto simp: store_ballot_def)
      show ?thesis
      proof (cases "u = rq_id req")
        case True
        then have "c = cur" using c cur by simp
        then have "store_ballot u db' = Some (b\<lparr>bl_votes := bl_votes b @ [(checker, Approve)]\<rparr>)"
          using store_ballot_late [OF add same c(1)] True c(2) d by (simp add: row_ballot_def)
        moreover have "ballot_move b (b\<lparr>bl_votes := bl_votes b @ [(checker, Approve)]\<rparr>)"
          by (rule ballot_move.late) (use cond new_voter [OF add] d True c(2) \<open>c = cur\<close> in simp_all)
        ultimately show ?thesis by blast
      qed (use store_ballot_late [OF add same c(1)] c(2) d ballot_move.rest in simp)
    qed
    moreover have "store_ok db'" using store_ok_decision [OF ok add same] cur(1) d by simp
    moreover have "store_ballot u db = None \<longrightarrow> store_ballot u db' = None" using same by (simp add: store_ballot_def fetch_request_def)
    ultimately show ?thesis by blast
  next
    fix req checker d
    assume may: "may_decide cl inp reading req checker Approve" and d: "dr_approval d = rq_id req" "dr_checker d = checker"
        "dr_vote d = Approve" and add: "adds_decision db d db'" and moves: "moves_request db req Approved_Blocked db'"
      and quorum: "rq_quorum req \<le> 1 + length (filter (\<lambda>d. dr_vote d = Approve) (dg_decisions reading))"
    obtain cur where cur: "fetch_request (rq_id req) db = Some cur" "rq_maker cur = rq_maker req" "rq_quorum cur = rq_quorum req"
        "rq_validation cur = Valid \<longleftrightarrow> rq_validation req = Valid" "rq_version req = 1"
        "length (filter (\<lambda>d. dr_vote d = Approve) (dg_decisions reading)) \<le> yes_on (rq_id req) db"
      using reading may by (rule reading_request)
    show ?thesis
      by (rule decided_step [OF ok add moves d(1) cur(1) cur(5)])
        (use may cur quorum d in \<open>auto simp: may_decide_def\<close>)
  next
    fix req checker d
    assume may: "may_decide cl inp reading req checker Reject" and d: "dr_approval d = rq_id req" "dr_checker d = checker"
        "dr_vote d = Reject" and add: "adds_decision db d db'" and moves: "moves_request db req Rejected_State db'"
    obtain cur where cur: "fetch_request (rq_id req) db = Some cur" "rq_maker cur = rq_maker req" "rq_version req = 1"
      using reading may by (rule reading_request)
    show ?thesis
      by (rule decided_step [OF ok add moves d(1) cur(1) cur(3)]) (use may cur d in \<open>auto simp: may_decide_def\<close>)
  qed
  then show "store_ok db'" "store_ballot u db = Some b \<Longrightarrow> \<exists>b'. store_ballot u db' = Some b' \<and> ballot_move b b'"
    "store_ballot u db = None \<Longrightarrow> store_ballot u db' = None" by auto
qed

text \<open>Both databases a transaction may be between: well-formed, and every ballot moved.\<close>

definition evolves :: "approval_db \<Rightarrow> approval_db \<Rightarrow> bool" where
  "evolves db db' \<longleftrightarrow> store_ok db' \<and>
     (\<forall>u b. store_ballot u db = Some b \<longrightarrow> (\<exists>b'. store_ballot u db' = Some b' \<and> ballot_move b b')) \<and>
     (\<forall>u b. store_ballot u db = None \<longrightarrow> store_ballot u db' = Some b \<longrightarrow> fresh_ballot b)"

lemma evolves_audits: "store_ok db \<Longrightarrow> audits_only db db' \<Longrightarrow> evolves db db'"
  using store_ok_audits [of db db'] store_ballot_audits [of db db'] ballot_move.rest by (auto simp: evolves_def)

lemma evolves_create:
  assumes ok: "store_ok db" and run: "create_request sha cl now inp ctx seen numbered db = (r, db')"
  shows "evolves db db'"
  using run
proof (rule create_request_cases)
  fix req
  assume new: "new_request db req db'"
  have "store_ballot (rq_id req) db = None"
    using store_ok_fresh [OF ok] new by (simp add: store_ballot_def new_request_def)
  then show ?thesis
    using store_ok_new [OF ok new] store_ballot_new [OF ok new] new_request_fresh [OF new] ballot_move.rest
    by (auto simp: evolves_def split: if_splits)
qed (rule evolves_audits [OF ok])

lemma evolves_decision:
  "store_ok db \<Longrightarrow> reading_ok reading db \<Longrightarrow> submit_decision sha cl now aid inp reading numbered db = (r, db') \<Longrightarrow> evolves db db'"
  using submit_decision_step by (simp add: evolves_def)

lemma evolves_read: "store_ok db \<Longrightarrow> get_request now aid numbered db = (r, db') \<Longrightarrow> evolves db db'"
  by (erule evolves_audits) (rule get_request_audits)

lemma ballot_move_yes: "ballot_move b b' \<Longrightarrow> yes_votes b \<le> yes_votes b'"
  by (induction rule: ballot_move.induct) (auto simp: yes_votes_def)

lemma reading_ok_kept:
  assumes "reading_ok reading db" and "evolves db db'"
  shows "reading_ok reading db'"
proof (cases "dg_request reading")
  case (Some r)
  then obtain b where b: "store_ballot (rq_id r) db = Some b" "bl_maker b = rq_maker r" "bl_quorum b = rq_quorum r"
      "bl_valid b = (rq_validation r = Valid)" "length (filter (\<lambda>d. dr_vote d = Approve) (dg_decisions reading)) \<le> yes_votes b" "row_ok r"
    using assms(1) by (auto simp: reading_ok_def)
  obtain b' where b': "store_ballot (rq_id r) db' = Some b'" "ballot_move b b'" using assms(2) b(1) unfolding evolves_def by blast
  then show ?thesis
    using Some b ballot_move_continues [OF b'(2)] ballot_move_yes [OF b'(2)] by (auto simp: reading_ok_def continues_def)
qed (simp add: reading_ok_def)

text \<open>What the two selects of a decision read, at once or one after the other.\<close>

definition read_request :: "id_text \<Rightarrow> approval_db \<Rightarrow> request_row option" where
  "read_request aid db = (case parse_uuid aid of None \<Rightarrow> None | Some u \<Rightarrow> fetch_request u db)"

definition read_decisions :: "request_row option \<Rightarrow> approval_db \<Rightarrow> decision_row list" where
  "read_decisions req db = (case req of None \<Rightarrow> [] | Some r \<Rightarrow> fetch_decisions (rq_id r) db)"

lemma reading_ok_read: "store_ok db \<Longrightarrow> reading_ok \<lparr>dg_request = read_request aid db, dg_decisions = []\<rparr> db"
  by (auto simp: reading_ok_def read_request_def store_ballot_def dest: store_ok_fetch split: option.splits)

lemma reading_ok_decisions:
  "reading_ok \<lparr>dg_request = req, dg_decisions = ds\<rparr> db \<Longrightarrow> reading_ok \<lparr>dg_request = req, dg_decisions = read_decisions req db\<rparr> db"
  by (auto simp: reading_ok_def read_decisions_def fetch_decisions_yes store_ballot_def yes_votes_row split: option.splits)

section \<open>Transactions that interleave\<close>

text \<open>A transaction under way: what it was asked, and what it has read so far.\<close>

datatype flight =
    Create_Start caller nat create_input "string \<times> source_status \<times> action_class"
  | Create_Looked caller nat create_input "string \<times> source_status \<times> action_class" "key_row option"
  | Create_Ready caller nat create_input "string \<times> source_status \<times> action_class" "key_row option" approval_db
  | Decide_Start caller nat id_text decision_input
  | Decide_Looked caller nat id_text decision_input "request_row option"
  | Decide_Read caller nat id_text decision_input decision_reading
  | Decide_Ready caller nat id_text decision_input decision_reading approval_db
  | Read_Start nat id_text
  | Read_Ready nat id_text approval_db

record approval_system =
  sy_db :: approval_db
  sy_flights :: "flight list"
  sy_answers :: "approval_record store_result list"

text \<open>The next step of a transaction: a read, or the writes and the commit with the answer.\<close>

fun advance :: "(string \<Rightarrow> string) \<Rightarrow> flight \<Rightarrow> approval_db \<Rightarrow> flight + approval_record store_result \<times> approval_db" where
  "advance sha (Create_Start cl now inp ctx) db =
     Inl (Create_Looked cl now inp ctx (find_idempotency_row Open_Scope (sha (stripped (ci_key inp))) db))"
| "advance sha (Create_Looked cl now inp ctx seen) db = Inl (Create_Ready cl now inp ctx seen db)"
| "advance sha (Create_Ready cl now inp ctx seen numbered) db = Inr (create_request sha cl now inp ctx seen numbered db)"
| "advance sha (Decide_Start cl now aid inp) db = Inl (Decide_Looked cl now aid inp (read_request aid db))"
| "advance sha (Decide_Looked cl now aid inp req) db =
     Inl (Decide_Read cl now aid inp \<lparr>dg_request = req, dg_decisions = read_decisions req db\<rparr>)"
| "advance sha (Decide_Read cl now aid inp reading) db = Inl (Decide_Ready cl now aid inp reading db)"
| "advance sha (Decide_Ready cl now aid inp reading numbered) db = Inr (submit_decision sha cl now aid inp reading numbered db)"
| "advance sha (Read_Start now aid) db = Inl (Read_Ready now aid db)"
| "advance sha (Read_Ready now aid numbered) db = Inr (get_request now aid numbered db)"

datatype system_event =
    Begin_Create caller nat create_input "string \<times> source_status \<times> action_class"
  | Begin_Decide caller nat id_text decision_input
  | Begin_Read nat id_text
  | Advance nat

fun serve_system :: "(string \<Rightarrow> string) \<Rightarrow> system_event \<Rightarrow> approval_system \<Rightarrow> approval_system" where
  "serve_system sha (Begin_Create cl now inp ctx) sy = sy\<lparr>sy_flights := sy_flights sy @ [Create_Start cl now inp ctx]\<rparr>"
| "serve_system sha (Begin_Decide cl now aid inp) sy = sy\<lparr>sy_flights := sy_flights sy @ [Decide_Start cl now aid inp]\<rparr>"
| "serve_system sha (Begin_Read now aid) sy = sy\<lparr>sy_flights := sy_flights sy @ [Read_Start now aid]\<rparr>"
| "serve_system sha (Advance i) sy =
     (if i < length (sy_flights sy)
      then (case advance sha (sy_flights sy ! i) (sy_db sy) of
              Inl f \<Rightarrow> sy\<lparr>sy_flights := (sy_flights sy)[i := f]\<rparr>
            | Inr (r, db) \<Rightarrow> sy\<lparr>sy_db := db, sy_flights := take i (sy_flights sy) @ drop (Suc i) (sy_flights sy),
                               sy_answers := sy_answers sy @ [r]\<rparr>)
      else sy)"

definition empty_system :: "(nat \<Rightarrow> uuid) \<Rightarrow> approval_system" where
  "empty_system uuids =
     \<lparr>sy_db = \<lparr>ad_requests = [], ad_decisions = [], ad_audit = [], ad_keys = [], ad_uuids = uuids, ad_drawn = 0\<rparr>,
      sy_flights = [], sy_answers = []\<rparr>"

fun flight_ok :: "approval_db \<Rightarrow> flight \<Rightarrow> bool" where
  "flight_ok db (Decide_Looked cl now aid inp req) = reading_ok \<lparr>dg_request = req, dg_decisions = []\<rparr> db"
| "flight_ok db (Decide_Read cl now aid inp reading) = reading_ok reading db"
| "flight_ok db (Decide_Ready cl now aid inp reading numbered) = reading_ok reading db"
| "flight_ok db _ = True"

definition system_ok :: "approval_system \<Rightarrow> bool" where
  "system_ok sy \<longleftrightarrow> store_ok (sy_db sy) \<and> list_all (flight_ok (sy_db sy)) (sy_flights sy)"

definition system_ballot :: "uuid \<Rightarrow> approval_system \<Rightarrow> ballot option" where
  "system_ballot u sy = store_ballot u (sy_db sy)"

lemma flight_ok_kept: "flight_ok db f \<Longrightarrow> evolves db db' \<Longrightarrow> flight_ok db' f"
  by (cases f) (auto intro: reading_ok_kept)

lemma advance_Inl: "store_ok db \<Longrightarrow> flight_ok db f \<Longrightarrow> advance sha f db = Inl f' \<Longrightarrow> flight_ok db f'"
  by (cases f) (auto intro: reading_ok_read reading_ok_decisions)

lemma advance_Inr: "store_ok db \<Longrightarrow> flight_ok db f \<Longrightarrow> advance sha f db = Inr (r, db') \<Longrightarrow> evolves db db'"
  by (cases f) (auto intro: evolves_create evolves_decision evolves_read)

lemma serve_system_cases:
  assumes "system_ok sy"
  obtains (reads) "sy_db (serve_system sha e sy) = sy_db sy" "list_all (flight_ok (sy_db sy)) (sy_flights (serve_system sha e sy))"
  | (commits) "evolves (sy_db sy) (sy_db (serve_system sha e sy))"
      "set (sy_flights (serve_system sha e sy)) \<subseteq> set (sy_flights sy)"
proof (cases e)
  case (Advance i)
  show ?thesis
  proof (cases "i < length (sy_flights sy)")
    case True
    then have f: "flight_ok (sy_db sy) (sy_flights sy ! i)" and ok: "store_ok (sy_db sy)"
      using assms by (auto simp: system_ok_def list_all_length)
    show ?thesis
    proof (cases "advance sha (sy_flights sy ! i) (sy_db sy)")
      case (Inl f')
      then show ?thesis
        using reads advance_Inl [OF ok f Inl] assms True Advance
        by (auto simp: system_ok_def list_all_iff dest!: subsetD [OF set_update_subset_insert])
    next
      case (Inr rdb)
      then show ?thesis
        using commits advance_Inr [OF ok f, of sha "fst rdb" "snd rdb"] True Advance
        by (auto simp: case_prod_beta dest: in_set_takeD in_set_dropD)
    qed
  qed (use reads assms Advance in \<open>simp add: system_ok_def\<close>)
qed (use reads assms in \<open>simp_all add: system_ok_def\<close>)

lemma serve_system_ok:
  assumes ok: "system_ok sy"
  shows "system_ok (serve_system sha e sy)"
  using ok
proof (rule serve_system_cases [of sy sha e])
  assume ev: "evolves (sy_db sy) (sy_db (serve_system sha e sy))"
    and sub: "set (sy_flights (serve_system sha e sy)) \<subseteq> set (sy_flights sy)"
  have "flight_ok (sy_db (serve_system sha e sy)) f" if "f \<in> set (sy_flights (serve_system sha e sy))" for f
    using that sub ok flight_ok_kept [OF _ ev] by (auto simp: system_ok_def list_all_iff)
  then show ?thesis using ev by (simp add: system_ok_def evolves_def list_all_iff)
qed (use ok in \<open>simp add: system_ok_def\<close>)

interpretation durable_box: ballot_box system_ballot "serve_system sha" system_ok
proof unfold_locales
  fix s k e b
  assume ok: "system_ok s"
  show "system_ok (serve_system sha e s)" using ok by (rule serve_system_ok)
  show "system_ballot k s = None \<Longrightarrow> system_ballot k (serve_system sha e s) = Some b \<Longrightarrow> fresh_ballot b"
    using ok by (rule serve_system_cases [of s sha e]) (auto simp: system_ballot_def evolves_def)
  show "\<exists>b'. system_ballot k (serve_system sha e s) = Some b' \<and> ballot_move b b'" if "system_ballot k s = Some b"
    using ok that by (cases rule: serve_system_cases [of s sha e, consumes 1]) (auto simp: system_ballot_def evolves_def intro: ballot_move.rest)
qed

lemma empty_system_ok: "inj uuids \<Longrightarrow> system_ok (empty_system uuids)"
  by (simp add: system_ok_def empty_system_def store_ok_def)

end
