(* ===== verification/Approval_Contract.thy ===== *)
theory Approval_Contract
  imports Store_Ballots
begin

text \<open>
  What the approvals promise: the durable backend is sound however its transactions interleave, it is exact and
  agrees with the process-local backend when they do not, and what can go wrong between the read and the commit.
\<close>

section \<open>One transaction at a time\<close>

datatype durable_call =
    Durable_Create caller nat create_input "string \<times> source_status \<times> action_class"
  | Durable_Decide caller nat id_text decision_input
  | Durable_Read nat id_text

definition current_reading :: "id_text \<Rightarrow> approval_db \<Rightarrow> decision_reading" where
  "current_reading aid db = (let req = read_request aid db in \<lparr>dg_request = req, dg_decisions = read_decisions req db\<rparr>)"

fun serve_alone :: "(string \<Rightarrow> string) \<Rightarrow> durable_call \<Rightarrow> approval_db \<Rightarrow> approval_db" where
  "serve_alone sha (Durable_Create cl now inp ctx) db =
     snd (create_request sha cl now inp ctx (find_idempotency_row Open_Scope (sha (stripped (ci_key inp))) db) db db)"
| "serve_alone sha (Durable_Decide cl now aid inp) db = snd (submit_decision sha cl now aid inp (current_reading aid db) db db)"
| "serve_alone sha (Durable_Read now aid) db = snd (get_request now aid db db)"

lemma reading_ok_current: "store_ok db \<Longrightarrow> reading_ok (current_reading aid db) db"
  using reading_ok_decisions [OF reading_ok_read] by (simp add: current_reading_def Let_def)

lemma serve_alone_evolves: "store_ok db \<Longrightarrow> evolves db (serve_alone sha e db)"
  by (cases e) (simp_all add: evolves_create [OF _ prod.collapse [symmetric]] evolves_read [OF _ prod.collapse [symmetric]]
      evolves_decision [OF _ reading_ok_current prod.collapse [symmetric]])

lemma earlier_vote_none: "earlier_vote c (fetch_decisions u db) = None \<longleftrightarrow> c \<notin> fst ` set (votes_on u db)"
  by (auto simp: earlier_vote_def fetch_decisions_def votes_on_def find_None_iff image_image)

text \<open>What may be decided on a fresh reading is what the specification counts.\<close>

lemma may_decide_current:
  assumes "store_ok db" and "may_decide cl inp (current_reading aid db) req checker v"
  shows "fetch_request (rq_id req) db = Some req" and "parse_uuid aid = Some (rq_id req)"
    and "dg_decisions (current_reading aid db) = fetch_decisions (rq_id req) db"
    and "bl_state (row_ballot req vs) = Pending_Review" and "checker \<noteq> rq_maker req"
    and "checker \<notin> fst ` set (votes_on (rq_id req) db)" and "v = Approve \<Longrightarrow> rq_validation req = Valid"
  using assms store_ok_fetch [OF assms(1)]
  by (auto simp: may_decide_def current_reading_def Let_def read_request_def read_decisions_def earlier_vote_none split: option.splits)

text \<open>What a recorded decision leaves: the vote is cast on its request, and on no other.\<close>

lemma row_ballot_votes: "(row_ballot r vs)\<lparr>bl_votes := ws\<rparr> = row_ballot r ws"
  by (simp add: row_ballot_def)

lemma decision_casts:
  assumes ok: "store_ok db" and may: "may_decide cl inp (current_reading aid db) req checker v"
    and d: "dr_approval d = rq_id req" "dr_checker d = checker" "dr_vote d = v" and add: "adds_decision db d db'"
    and moved: "if v = Reject then moves_request db req Rejected_State db'
      else if rq_quorum req \<le> 1 + length (filter (\<lambda>d. dr_vote d = Approve) (dg_decisions (current_reading aid db)))
      then moves_request db req Approved_Blocked db' else ad_requests db' = ad_requests db"
    and b: "store_ballot u db = Some b"
  shows "store_ballot u db' = Some (if u = rq_id req then cast_vote checker v b else b)"
proof -
  note m = may_decide_current [OF ok may]
  obtain c where c: "fetch_request u db = Some c" "b = row_ballot c (votes_on u db)" using b by (auto simp: store_ballot_def)
  have yes: "length (filter (\<lambda>d. dr_vote d = Approve) (dg_decisions (current_reading aid db))) = yes_on (rq_id req) db"
    by (simp add: m(3) fetch_decisions_yes)
  have same: "c = req" if "u = rq_id req" using that c m(1) by simp
  consider (veto) "v = Reject" "moves_request db req Rejected_State db'"
    | (close) "v = Approve" "rq_quorum req \<le> Suc (yes_on (rq_id req) db)" "moves_request db req Approved_Blocked db'"
    | (late) "v = Approve" "\<not> rq_quorum req \<le> Suc (yes_on (rq_id req) db)" "ad_requests db' = ad_requests db"
    using moved yes by (cases v) (auto split: if_splits)
  then show ?thesis
  proof cases
    case veto
    then show ?thesis using store_ballot_decided [OF ok add veto(2) d(1) c(1)] d same c(2) m(4-)
      by (auto simp: cast_vote_def)
  next
    case close
    then show ?thesis using store_ballot_decided [OF ok add close(3) d(1) c(1)] d same c(2) m(4-)
      by (auto simp: cast_vote_def yes_votes_row)
  next
    case late
    then show ?thesis using store_ballot_late [OF add late(3) c(1)] d same c(2) m(4-)
      by (auto simp: cast_vote_def yes_votes_row row_ballot_votes)
  qed
qed

lemma serve_alone_serial:
  assumes ok: "store_ok db" and b: "store_ballot u db = Some b"
  shows "store_ballot u (serve_alone sha e db) = Some b \<or> (\<exists>c v. store_ballot u (serve_alone sha e db) = Some (cast_vote c v b))"
proof (cases e)
  case (Durable_Create cl now inp ctx)
  obtain r db' where run: "create_request sha cl now inp ctx (find_idempotency_row Open_Scope (sha (stripped (ci_key inp))) db) db db = (r, db')"
    by (metis prod.exhaust)
  from run have "store_ballot u db' = Some b"
  proof (rule create_request_cases)
    fix req
    assume new: "new_request db req db'"
    have "u \<noteq> rq_id req" using store_ok_fresh [OF ok] new b by (auto simp: store_ballot_def new_request_def)
    then show ?thesis using store_ballot_new [OF ok new] b by simp
  qed (use store_ballot_audits b in auto)
  then show ?thesis using run Durable_Create by simp
next
  case (Durable_Read now aid)
  then show ?thesis using store_ballot_audits [OF get_request_audits [OF prod.collapse [symmetric]]] b by simp
next
  case (Durable_Decide cl now aid inp)
  obtain r db' where run: "submit_decision sha cl now aid inp (current_reading aid db) db db = (r, db')" by (metis prod.exhaust)
  from run have "store_ballot u db' = Some b \<or> (\<exists>c v. store_ballot u db' = Some (cast_vote c v b))"
  proof (rule submit_decision_cases)
    assume "audits_only db db'"
    then show ?thesis using store_ballot_audits b by simp
  qed (use decision_casts [OF ok _ _ _ _ _ _ b, where v = Approve] in \<open>fastforce+\<close>,
      use decision_casts [OF ok _ _ _ _ _ _ b, where v = Reject] in fastforce)
  then show ?thesis using run Durable_Decide by simp
qed

interpretation serial_store: serial_ballot_box store_ballot "serve_alone sha" store_ok
proof unfold_locales
  fix s k e b
  assume ok: "store_ok s"
  note ev = serve_alone_evolves [OF ok, of sha e, unfolded evolves_def]
  show "store_ok (serve_alone sha e s)" using ev by blast
  show "store_ballot k s = None \<Longrightarrow> store_ballot k (serve_alone sha e s) = Some b \<Longrightarrow> fresh_ballot b" using ev by blast
  show "store_ballot k s = Some b \<Longrightarrow> \<exists>b'. store_ballot k (serve_alone sha e s) = Some b' \<and> ballot_move b b'" using ev by blast
  show "store_ballot k s = Some b \<Longrightarrow>
      store_ballot k (serve_alone sha e s) = Some b \<or> (\<exists>c v. store_ballot k (serve_alone sha e s) = Some (cast_vote c v b))"
    using ok by (rule serve_alone_serial)
qed

section \<open>The outcome of a decision\<close>

lemma fold_max_le: "x \<in> set xs \<Longrightarrow> x \<le> fold max xs (m :: nat)"
proof (induction xs arbitrary: m)
  case (Cons y ys)
  have "n \<le> fold max ys n" for n by (induction ys arbitrary: n) (auto intro: order_trans [OF max.cobounded2])
  with Cons show ?case by (auto intro: order_trans [OF max.cobounded1])
qed simp

lemma next_number_free: "\<not> number_taken db a (next_sequence_no db a)"
proof -
  have "au_seq e \<noteq> next_sequence_no db a" if "e \<in> set (ad_audit db)" "au_approval e = a" for e
    using fold_max_le [of "au_seq e" "map au_seq (filter (\<lambda>e. au_approval e = a) (ad_audit db))" 0] that
    by (simp add: next_sequence_no_def)
  then show ?thesis by (auto simp: number_taken_def list_ex_iff)
qed

text \<open>An event with the caller's texts can be written.\<close>

definition caller_fits :: "caller \<Rightarrow> decision_input \<Rightarrow> bool" where
  "caller_fits cl inp \<longleftrightarrow> length (or_blank (cl_actor cl)) \<le> 255 \<and> length (or_blank (sanitize_text (di_correlation inp))) \<le> 255 \<and>
     cl_role cl \<in> set actor_roles"

lemma emit_audit_ok:
  assumes "audit_fits e"
  obtains u db' where "emit_audit db oc e db = Inr (u, db')" and "audits_only db db'"
  using assms next_number_free [of db "au_approval e"] by (auto simp: emit_audit_def Let_def audits_only_def)

lemma audit_decision_fits: "caller_fits cl inp \<Longrightarrow> audit_fits (audit_decision cl now inp req t v s m)"
  by (simp add: caller_fits_def audit_fits_def audit_decision_def audit_about_def audit_by_def)

lemma decision_denied_code:
  assumes "caller_fits cl inp"
  shows "fst (decision_denied db cl now inp req code oc db) = Store_Err code"
    and "audits_only db (snd (decision_denied db cl now inp req code oc db))"
proof -
  define e where "e = (let e = (audit_by cl now Approval_Denied)\<lparr>au_reason := redact_reason (stripped (di_reason inp)),
                au_correlation := sanitize_text (di_correlation inp)\<rparr>
     in case req of None \<Rightarrow> e | Some r \<Rightarrow> (audit_about r e)\<lparr>au_previous := Some (rq_state r), au_next := Some (rq_state r)\<rparr>)"
  have "audit_fits e"
    using assms by (cases req) (simp_all add: e_def Let_def caller_fits_def audit_fits_def audit_about_def audit_by_def)
  then obtain u db' where "emit_audit db (Some oc) e db = Inr (u, db')" "audits_only db db'" by (rule emit_audit_ok)
  then show "fst (decision_denied db cl now inp req code oc db) = Store_Err code"
    and "audits_only db (snd (decision_denied db cl now inp req code oc db))"
    by (simp_all add: decision_denied_def e_def Let_def)
qed

text \<open>The key of a decision has not been used on its approval.\<close>

definition unused_decision_key :: "(string \<Rightarrow> string) \<Rightarrow> uuid \<Rightarrow> decision_input \<Rightarrow> approval_db \<Rightarrow> bool" where
  "unused_decision_key sha u inp db \<longleftrightarrow>
     find_idempotency_row (Decide_Scope u) (sha (stripped (di_key inp))) db = None \<and>
     list_all (\<lambda>d. dr_approval d \<noteq> u \<or> dr_key_digest d \<noteq> sha (stripped (di_key inp))) (ad_decisions db)"

lemma not_voter: "c \<notin> fst ` set (votes_on u db) \<longleftrightarrow> (\<forall>d \<in> set (ad_decisions db). dr_approval d = u \<longrightarrow> dr_checker d \<noteq> c)"
  by (auto simp: votes_on_def image_image)

lemma flush_new_decision:
  assumes unused: "unused_decision_key sha (rq_id req) inp db" and voter: "checker \<notin> fst ` set (votes_on (rq_id req) db)"
    and audits: "audits_only db db1"
  obtains d k db2 where "new_decision sha now aid inp checker v req eid = (d, k)" and "flush_decision d k db1 = Some db2"
    and "dr_approval d = rq_id req" and "dr_checker d = checker" and "dr_vote d = v" and "adds_decision db d db2"
    and "ad_requests db2 = ad_requests db"
proof -
  obtain d k where dk: "new_decision sha now aid inp checker v req eid = (d, k)" by (cases "new_decision sha now aid inp checker v req eid")
  then have d: "dr_approval d = rq_id req" "dr_checker d = checker" "dr_vote d = v" "dr_key_digest d = sha (stripped (di_key inp))"
    and k: "ik_scope k = Decide_Scope (rq_id req)" "ik_digest k = sha (stripped (di_key inp))"
    by (auto simp: new_decision_def Let_def)
  have "\<not> decision_collides d db1"
    using unused voter audits d
    by (auto simp: decision_collides_def audits_only_def unused_decision_key_def list_ex_iff list_all_iff not_voter)
  moreover have "\<not> key_collides k db1"
    using unused audits k by (simp add: key_collides_def audits_only_def unused_decision_key_def find_idempotency_row_def)
  ultimately obtain db2 where fl: "flush_decision d k db1 = Some db2" by (simp add: flush_decision_def)
  have "adds_decision db d db2" "ad_requests db2 = ad_requests db"
    using flush_decision_Some [OF fl] audits by (auto simp: adds_decision_def audits_only_def decision_collides_def)
  then show ?thesis using that dk fl d by blast
qed

lemma optimistic_update_ok:
  assumes "fetch_request (rq_id req) db = Some req"
  obtains db' where "optimistic_update req s v m eid now db = Some db'"
  using assms by (simp add: optimistic_update_def)

lemma refreshed_ok: "fetch_request u db = Some req \<Longrightarrow> \<exists>rec. refreshed u r now db = Store_Ok rec \<and> ap_result rec = r \<and> from_durable_record rec = Inr rec"
  by (simp add: refreshed_def build_record_def from_durable_record_def)

lemma moved_fetch: "moves_request db req s db' \<Longrightarrow> \<exists>r. fetch_request (rq_id req) db' = Some r"
  by (auto simp: moves_request_def fetch_request_def row_find_put)

lemma record_reject_ok:
  assumes fits: "caller_fits cl inp" and at: "fetch_request (rq_id req) db = Some req"
    and unused: "unused_decision_key sha (rq_id req) inp db" and voter: "checker \<notin> fst ` set (votes_on (rq_id req) db)"
    and run: "record_reject sha db cl now aid inp checker req db = (r, db')"
  shows "\<exists>rec. r = Store_Ok rec \<and> ap_result rec = Rejected \<and> from_durable_record rec = Inr rec"
proof -
  obtain eid db1 where e1: "emit_audit db None (audit_decision cl now inp req Approval_Decision_Recorded Reject Rejected_State False) db = Inr (eid, db1)"
      "audits_only db db1"
    using emit_audit_ok [OF audit_decision_fits [OF fits]] by metis
  obtain d k db2 where f: "new_decision sha now aid inp checker Reject req eid = (d, k)" "flush_decision d k db1 = Some db2" "ad_requests db2 = ad_requests db"
    using flush_new_decision [OF unused voter e1(2)] by metis
  obtain qid db3 where e2: "emit_audit db2 None (audit_decision cl now inp req Approval_Rejected Reject Rejected_State False) db2 = Inr (qid, db3)"
      "audits_only db2 db3"
    using emit_audit_ok [OF audit_decision_fits [OF fits]] by metis
  have "fetch_request (rq_id req) db3 = Some req" using at f(3) e2(2) by (simp add: audits_only_def fetch_request_def)
  then obtain db4 where up: "optimistic_update req Rejected_State Reject False qid now db3 = Some db4" by (rule optimistic_update_ok)
  have "r = refreshed (rq_id req) Rejected now db4" using run e1 f e2 up by (auto simp: record_reject_def)
  moreover obtain q where "fetch_request (rq_id req) db4 = Some q" using moved_fetch [OF optimistic_update_Some(1) [OF up]] by blast
  ultimately show ?thesis using refreshed_ok by blast
qed

lemma record_approve_ok:
  assumes fits: "caller_fits cl inp" and at: "fetch_request (rq_id req) db = Some req"
    and unused: "unused_decision_key sha (rq_id req) inp db" and voter: "checker \<notin> fst ` set (votes_on (rq_id req) db)"
    and run: "record_approve sha db cl now aid inp checker req seen db = (r, db')"
  shows "\<exists>rec. r = Store_Ok rec \<and> from_durable_record rec = Inr rec \<and>
    ap_result rec = (if rq_quorum req \<le> 1 + length (filter (\<lambda>d. dr_vote d = Approve) seen) then Approved else Quorum_Pending)"
proof -
  obtain eid db1 where e1: "emit_audit db None (audit_decision cl now inp req Approval_Decision_Recorded Approve Pending_Review False) db = Inr (eid, db1)"
      "audits_only db db1"
    using emit_audit_ok [OF audit_decision_fits [OF fits]] by metis
  obtain d k db2 where f: "new_decision sha now aid inp checker Approve req eid = (d, k)" "flush_decision d k db1 = Some db2" "ad_requests db2 = ad_requests db"
    using flush_new_decision [OF unused voter e1(2)] by metis
  have at2: "fetch_request (rq_id req) db2 = Some req" using at f(3) by (simp add: fetch_request_def)
  show ?thesis
  proof (cases "rq_quorum req \<le> 1 + length (filter (\<lambda>d. dr_vote d = Approve) seen)")
    case True
    obtain qid db3 where e2: "emit_audit db2 None (audit_decision cl now inp req Approval_Quorum_Met Approve Approved_Blocked True) db2 = Inr (qid, db3)"
        "audits_only db2 db3"
      using emit_audit_ok [OF audit_decision_fits [OF fits]] by metis
    have "fetch_request (rq_id req) db3 = Some req" using at2 e2(2) by (simp add: audits_only_def fetch_request_def)
    then obtain db4 where up: "optimistic_update req Approved_Blocked Approve True qid now db3 = Some db4" by (rule optimistic_update_ok)
    have "r = refreshed (rq_id req) Approved now db4" using run e1 f e2 up True by (auto simp: record_approve_def)
    moreover obtain q where "fetch_request (rq_id req) db4 = Some q" using moved_fetch [OF optimistic_update_Some(1) [OF up]] by blast
    ultimately show ?thesis using refreshed_ok [of "rq_id req" db4 q Approved now] True by auto
  next
    case False
    then have "r = refreshed (rq_id req) Quorum_Pending now db2" using run e1 f by (auto simp: record_approve_def)
    then show ?thesis using refreshed_ok [OF at2, of Quorum_Pending now] False by auto
  qed
qed

section \<open>The specification of a decision\<close>

lemma earlier_vote_map:
  assumes "distinct (map fst (votes_on u db))"
  shows "earlier_vote c (fetch_decisions u db) = map_of (votes_on u db) c"
proof (cases "earlier_vote c (fetch_decisions u db)")
  case None
  then show ?thesis using earlier_vote_none [of c u db] by (simp add: map_of_eq_None_iff [symmetric])
next
  case (Some v)
  then obtain d where "find (\<lambda>d. dr_checker d = c) (fetch_decisions u db) = Some d" "v = dr_vote d"
    by (auto simp: earlier_vote_def)
  then have "d \<in> set (fetch_decisions u db)" "dr_checker d = c" by (auto simp: find_Some_iff)
  then have "(c, v) \<in> set (votes_on u db)" using \<open>v = dr_vote d\<close> by (force simp: fetch_decisions_def votes_on_def)
  then show ?thesis using Some assms by simp
qed

text \<open>A decision through the gate, with nothing in between.\<close>

definition decide_alone ::
  "(string \<Rightarrow> string) \<Rightarrow> caller \<Rightarrow> nat \<Rightarrow> id_text \<Rightarrow> decision_input \<Rightarrow> approval_db \<Rightarrow> (not_ready + approval_record) \<times> approval_db" where
  "decide_alone sha cl now aid inp db =
     durable_submit_decision sha (Some required_tables) cl now aid inp (current_reading aid db) db db"

lemma decide_alone_result:
  assumes "submit_decision sha cl now aid inp (current_reading aid db) db db = (r, db')"
  shows "decide_alone sha cl now aid inp db = (gate_result decision_err_result (id_fault now) now r, db')"
  using assms by (simp add: decide_alone_def durable_submit_decision_def check_readiness_def)

lemma decision_outcome:
  assumes ok: "store_ok db" and at: "fetch_request u db = Some req" and aid: "parse_uuid aid = Some u"
    and votes: "distinct (map fst (votes_on u db))"
    and fits: "caller_fits cl inp" and unused: "unused_decision_key sha u inp db"
    and fine: "\<not> decision_refused cl inp" and who: "bound_actor cl = Some checker" and what: "vote_of (di_decision inp) = Some v"
    and run: "submit_decision sha cl now aid inp (current_reading aid db) db db = (r, db')"
  shows "\<exists>rec. gate_result decision_err_result (id_fault now) now r = Inr rec \<and> ap_result rec = cast_result checker v (row_ballot req (votes_on u db))"
proof -
  let ?rd = "current_reading aid db" and ?b = "row_ballot req (votes_on u db)"
  have id: "rq_id req = u" using at by (rule fetch_request_id)
  have rd: "dg_request ?rd = Some req" "dg_decisions ?rd = fetch_decisions u db"
    using at aid id by (simp_all add: current_reading_def Let_def read_request_def read_decisions_def)
  have earlier: "earlier_vote checker (fetch_decisions u db) = map_of (bl_votes ?b) checker" using earlier_vote_map [OF votes] by simp
  have yes: "length (filter (\<lambda>d. dr_vote d = Approve) (fetch_decisions u db)) = yes_votes ?b"
    by (simp add: fetch_decisions_yes yes_votes_row)
  show ?thesis
  proof (cases "may_decide cl inp ?rd req checker v")
    case True
    note m = may_decide_current [OF ok True]
    have cond: "checker \<noteq> rq_maker req" "rq_state req = Pending_Review" "map_of (bl_votes ?b) checker = None" "v = Approve \<Longrightarrow> rq_validation req = Valid"
      using True earlier rd by (auto simp: may_decide_def)
    show ?thesis
    proof (cases v)
      case Reject
      then have "record_reject sha db cl now aid inp checker req db = (r, db')" using run may_decide_submit [OF True aid] by simp
      then have "\<exists>rec. r = Store_Ok rec \<and> ap_result rec = Rejected \<and> from_durable_record rec = Inr rec"
        using record_reject_ok [OF fits m(1) _ m(6)] unused id by simp
      moreover have "cast_result checker v ?b = Rejected"
        using cond Reject by (simp add: cast_result_def unimplemented_states_def)
      ultimately show ?thesis by (auto simp: gate_result_def)
    next
      case Approve
      then have "record_approve sha db cl now aid inp checker req (fetch_decisions u db) db = (r, db')"
        using run may_decide_submit [OF True aid] rd by simp
      then have "\<exists>rec. r = Store_Ok rec \<and> from_durable_record rec = Inr rec \<and>
          ap_result rec = (if rq_quorum req \<le> 1 + yes_votes ?b then Approved else Quorum_Pending)"
        using record_approve_ok [OF fits m(1) _ m(6), of sha now aid "fetch_decisions u db" r db'] unused id unfolding yes by simp
      moreover have "cast_result checker v ?b = (if rq_quorum req \<le> 1 + yes_votes ?b then Approved else Quorum_Pending)"
        using cond Approve by (simp add: cast_result_def unimplemented_states_def)
      ultimately show ?thesis by (auto simp: gate_result_def)
    qed
  next
    case False
    note denied = decision_denied_code(1) [OF fits, of db now "Some req"]
    obtain eid dbx where emit: "emit_audit db (Some Audit_Idempotent) (audit_decision cl now inp req Approval_Rejected Reject Rejected_State False) db = Inr (eid, dbx)"
      using emit_audit_ok [OF audit_decision_fits [OF fits]] by metis
    note simps = submit_decision_def rd aid fine who what Let_def earlier emit cast_result_def unimplemented_states_def
      gate_result_def decision_err_result_def store_health_codes_def from_durable_record_def build_record_def no_record_def
    have r: "r = fst (submit_decision sha cl now aid inp ?rd db db)" using run by simp
    show ?thesis
      using False unfolding r
      by (cases v; cases "rq_state req"; cases "map_of (bl_votes ?b) checker")
        (auto simp: simps denied may_decide_def split: if_splits)
  qed
qed

text \<open>A decision nobody interrupts casts the vote of its caller, and answers as the specification does.\<close>

lemma decision_effect:
  assumes ok: "store_ok db" and b: "store_ballot u db = Some b" and aid: "parse_uuid aid = Some u" and sound: "sound_ballot b"
    and fits: "caller_fits cl inp" and unused: "unused_decision_key sha u inp db"
    and fine: "\<not> decision_refused cl inp" and who: "bound_actor cl = Some checker" and what: "vote_of (di_decision inp) = Some v"
  shows "\<exists>rec db'. decide_alone sha cl now aid inp db = (Inr rec, db') \<and> ap_result rec = cast_result checker v b \<and>
    store_ballot u db' = Some (cast_vote checker v b)"
proof -
  let ?rd = "current_reading aid db"
  obtain req where at: "fetch_request u db = Some req" and row: "b = row_ballot req (votes_on u db)"
    using b by (auto simp: store_ballot_def)
  note id = fetch_request_id [OF at]
  have votes: "distinct (map fst (votes_on u db))" using sound row by (simp add: sound_ballot_def)
  obtain r db' where run: "submit_decision sha cl now aid inp ?rd db db = (r, db')" by (metis prod.exhaust)
  have rd: "dg_request ?rd = Some req" "dg_decisions ?rd = fetch_decisions u db"
    using at aid id by (simp_all add: current_reading_def Let_def read_request_def read_decisions_def)
  have "store_ballot u db' = Some (cast_vote checker v b)"
  proof (cases "may_decide cl inp ?rd req checker v")
    case True
    note m = may_decide_current [OF ok True]
    have unused': "unused_decision_key sha (rq_id req) inp db" using unused id by simp
    note casts = decision_casts [OF ok True _ _ _ _ _ b, where db' = db', folded id, simplified]
    show ?thesis
    proof (cases v)
      case Reject
      with run have reject: "record_reject sha db cl now aid inp checker req db = (r, db')" using may_decide_submit [OF True aid] by simp
      then show ?thesis
        by (rule record_reject_cases)
          (use record_reject_ok [OF fits m(1) unused' m(6) reject] casts Reject id in auto)
    next
      case Approve
      with run have approve: "record_approve sha db cl now aid inp checker req (dg_decisions ?rd) db = (r, db')"
        using may_decide_submit [OF True aid] by simp
      then show ?thesis
        by (rule record_approve_cases)
          (use record_approve_ok [OF fits m(1) unused' m(6) approve] casts Approve id in auto)
    qed
  next
    case False
    have "\<nexists>req checker v. may_decide cl inp ?rd req checker v"
      using False rd who what by (auto simp: may_decide_def)
    then have "store_ballot u db' = Some b" using store_ballot_audits [OF may_not_decide_submit [OF _ run]] b by simp
    moreover have "cast_vote checker v b = b"
      using False rd fine who what row earlier_vote_none [of checker u db] by (auto simp: may_decide_def cast_vote_def)
    ultimately show ?thesis by simp
  qed
  then show ?thesis
    using decision_outcome [OF ok at aid votes fits unused fine who what run] decide_alone_result [OF run] row by auto
qed

section \<open>Properties\<close>

definition empty_approvals :: "(nat \<Rightarrow> uuid) \<Rightarrow> approval_db" where
  "empty_approvals uuids = \<lparr>ad_requests = [], ad_decisions = [], ad_audit = [], ad_keys = [], ad_uuids = uuids, ad_drawn = 0\<rparr>"

lemma empty_approvals_ok: "inj uuids \<Longrightarrow> store_ok (empty_approvals uuids)"
  by (simp add: empty_approvals_def store_ok_def)

lemma serial_store_exact:
  assumes "inj uuids" and "store_ballot u (fold (serve_alone sha) es (empty_approvals uuids)) = Some b"
  shows "exact_ballot b"
  using empty_approvals_ok [OF assms(1)] _ assms(2)
  by (rule serial_store.run_exact) (simp add: store_ballot_def fetch_request_def empty_approvals_def row_find_def)

text \<open>
  C38: However the transactions of the durable backend interleave, each between its selects, the numbering of
  its audit events and its commit, an approval has nobody's vote twice and never its maker's; it is approved only
  with its quorum of approvals by other people against an available source, and without a rejection; it is
  rejected exactly when someone rejected it; and later steps keep the votes, and a decision once taken.
\<close>

theorem approval_needs_its_quorum:
  assumes "inj uuids" and "system_ballot u (fold (serve_system sha) es (empty_system uuids)) = Some b"
  shows "sound_ballot b \<and>
    (\<exists>b'. system_ballot u (fold (serve_system sha) es' (fold (serve_system sha) es (empty_system uuids))) = Some b' \<and> continues b b')"
proof
  have ok: "system_ok (empty_system uuids)" using assms(1) by (rule empty_system_ok)
  show "sound_ballot b"
    using ok _ assms(2)
    by (rule durable_box.run_sound) (simp add: system_ballot_def empty_system_def store_ballot_def fetch_request_def row_find_def)
  show "\<exists>b'. system_ballot u (fold (serve_system sha) es' (fold (serve_system sha) es (empty_system uuids))) = Some b' \<and> continues b b'"
    using durable_box.run_good [OF ok] assms(2) by (rule durable_box.run_continues)
qed

text \<open>
  C39: The two backends agree on a decision that is well formed and comes under a fresh key. When a request has
  the same ballot in the process-local store and in the database, each reached by some sequence of requests,
  then an approve or reject of a caller with a bound identity that neither backend refuses for its
  form, that fits the columns of the database and whose key was not used on that approval in the database, made in
  either with nothing in between, is answered with the same result and leaves the same ballot: the one dual
  control prescribes. Under a key that was used the backends differ (\<open>reused_decision_key_diverges\<close>).
\<close>

theorem approval_backends_agree:
  assumes "inj uuids" and "inj ids" and "db = fold (serve_alone sha) es (empty_approvals uuids)"
    and "st = fold (serve_memory sha) es' (empty_memory ids)"
    and "store_ballot u db = Some b" and "memory_ballot_at mid st = Some b" and "parse_uuid aid = Some u"
    and "caller_fits cl inp" and "unused_decision_key sha u inp db"
    and "\<not> decision_refused cl inp" and "bound_actor cl = Some checker" and "vote_of (di_decision inp) = Some v"
  shows "\<exists>mem st' rec db'. memory_submit_decision cl now mid inp st = (mem, st') \<and> decide_alone sha cl now aid inp db = (Inr rec, db') \<and>
    ap_result rec = cast_result checker v b \<and> ap_result mem = cast_result checker v b \<and>
    store_ballot u db' = Some (cast_vote checker v b) \<and> memory_ballot_at mid st' = Some (cast_vote checker v b)"
proof -
  have ok: "store_ok db" unfolding assms(3) using empty_approvals_ok [OF assms(1)] by (rule serial_store.run_good)
  have "sound_ballot b" using serial_store_exact [OF assms(1)] assms(3,5) by (simp add: exact_ballot_def)
  then obtain rec db' where durable: "decide_alone sha cl now aid inp db = (Inr rec, db')" "ap_result rec = cast_result checker v b"
      "store_ballot u db' = Some (cast_vote checker v b)"
    using decision_effect [OF ok assms(5,7) _ assms(8-12)] by blast
  have mok: "memory_ok st" unfolding assms(4) using empty_memory_ok [OF assms(2)] by (rule memory_box.run_good)
  obtain m where m: "map_of (mm_approvals st) mid = Some m" "b = memory_ballot m"
    using assms(6) by (auto simp: memory_ballot_at_def)
  obtain mem st' where run: "memory_submit_decision cl now mid inp st = (mem, st')" by (metis prod.exhaust)
  show ?thesis
    using run durable memory_decision_casts [OF m(1) memory_ok_id [OF mok m(1)] assms(10-12) run] m(2) by auto
qed

section \<open>Sample runs\<close>

definition sample_context :: "string \<times> source_status \<times> action_class" where
  "sample_context = (''tenant.pause'', Available, Write_Class)"

definition sample_opening :: "system_event list" where
  "sample_opening = [Begin_Create (sample_caller ''u1'') 1 sample_create sample_context, Advance 0, Advance 0, Advance 0]"

definition sample_vote :: "string \<Rightarrow> nat \<Rightarrow> string \<Rightarrow> system_event" where
  "sample_vote who now what = Begin_Decide (sample_caller who) now (Canonical 0) (sample_decision what who)"

text \<open>Two decisions that read the request and its decisions before either writes.\<close>

definition crossing :: "system_event \<Rightarrow> system_event \<Rightarrow> system_event list" where
  "crossing d1 d2 = [d1, d2, Advance 0, Advance 0, Advance 1, Advance 1, Advance 0, Advance 0, Advance 0, Advance 0]"

definition alone :: "system_event \<Rightarrow> system_event list" where
  "alone d = [d, Advance 0, Advance 0, Advance 0, Advance 0]"

fun answer_result :: "approval_record store_result \<Rightarrow> approval_result option" where
  "answer_result (Store_Ok r) = Some (ap_result r)"
| "answer_result _ = None"

definition sample_system :: "system_event list \<Rightarrow> approval_system" where
  "sample_system es = fold (serve_system id) es (empty_system id)"

lemma uncrossed_approvals:
  "system_ballot 0 (sample_system (sample_opening @ alone (sample_vote ''u2'' 2 ''approve'') @ alone (sample_vote ''u3'' 3 ''approve''))) =
     Some \<lparr>bl_maker = ''u1'', bl_quorum = 2, bl_valid = True, bl_votes = [(''u2'', Approve), (''u3'', Approve)],
       bl_state = Approved_Blocked\<rparr>"
  by code_simp

theorem approval_needs_its_quorum_witness:
  "sound_ballot \<lparr>bl_maker = ''u1'', bl_quorum = 2, bl_valid = True, bl_votes = [(''u2'', Approve), (''u3'', Approve)],
     bl_state = Approved_Blocked\<rparr>"
  using approval_needs_its_quorum [OF inj_on_id uncrossed_approvals [unfolded sample_system_def], of "[]"] by simp

text \<open>
  The version check does not decide the quorum race: two approvals that cross both stay below the quorum of two
  they complete, both callers are told the quorum is pending, and asking again changes nothing.
\<close>

theorem crossed_approvals_stay_pending:
  "let sy = sample_system (sample_opening @ crossing (sample_vote ''u2'' 2 ''approve'') (sample_vote ''u3'' 3 ''approve'') @
        alone (sample_vote ''u2'' 4 ''approve''))
   in system_ballot 0 sy = Some \<lparr>bl_maker = ''u1'', bl_quorum = 2, bl_valid = True,
         bl_votes = [(''u2'', Approve), (''u3'', Approve)], bl_state = Pending_Review\<rparr> \<and>
      map answer_result (sy_answers sy) = [Some Recorded, Some Quorum_Pending, Some Quorum_Pending, Some Duplicated]"
  by code_simp

text \<open>An approval that crosses a rejection is recorded after it.\<close>

theorem approval_recorded_after_rejection:
  "let sy = sample_system (sample_opening @ crossing (sample_vote ''u2'' 2 ''reject'') (sample_vote ''u3'' 3 ''approve''))
   in system_ballot 0 sy = Some \<lparr>bl_maker = ''u1'', bl_quorum = 2, bl_valid = True,
         bl_votes = [(''u2'', Reject), (''u3'', Approve)], bl_state = Rejected_State\<rparr> \<and>
      map answer_result (sy_answers sy) = [Some Recorded, Some Rejected, Some Quorum_Pending]"
  by code_simp

text \<open>A request that was approved cannot be opened again in the database, as it can in the process-local store.\<close>

definition reopening :: create_input where
  "reopening = sample_create\<lparr>ci_key := Some ''k-2''\<rparr>"

theorem approved_request_reopens_in_memory_only:
  "(case memory_create id (empty_store id) (\<lambda>_. Some sample_registry) (sample_caller ''u1'') 9 reopening
      (fold (serve_memory id) sample_approval_run (empty_memory id)) of (r, st) \<Rightarrow> ap_result r = Recorded) \<and>
   fst (create_request id (sample_caller ''u1'') 9 reopening sample_context None
      (sy_db (sample_system (sample_opening @ alone (sample_vote ''u2'' 2 ''approve'') @ alone (sample_vote ''u3'' 3 ''approve''))))
      (sy_db (sample_system (sample_opening @ alone (sample_vote ''u2'' 2 ''approve'') @ alone (sample_vote ''u3'' 3 ''approve''))))) =
     Store_Err Decision_Conflict"
  by code_simp

text \<open>The deadline of a request is not looked at when it is decided.\<close>

theorem approval_decided_after_its_deadline:
  "map answer_result (sy_answers (sample_system (sample_opening @ alone (sample_vote ''u2'' 900 ''reject'')))) = [Some Recorded, Some Rejected] \<and>
   map rq_expires (ad_requests (sy_db (sample_system sample_opening))) = [100]"
  by code_simp

definition sample_serial :: "durable_call list" where
  "sample_serial = [Durable_Create (sample_caller ''u1'') 1 sample_create sample_context,
     Durable_Decide (sample_caller ''u2'') 2 (Canonical 0) (sample_decision ''approve'' ''d-1'')]"

lemma sample_serial_ballot:
  "store_ballot 0 (fold (serve_alone id) sample_serial (empty_approvals id)) =
     Some \<lparr>bl_maker = ''u1'', bl_quorum = 2, bl_valid = True, bl_votes = [(''u2'', Approve)], bl_state = Pending_Review\<rparr>"
  by code_simp

lemma sample_memory_ballot:
  "memory_ballot_at (Canonical 0) (fold (serve_memory id) (take 2 sample_approval_run) (empty_memory id)) =
     Some \<lparr>bl_maker = ''u1'', bl_quorum = 2, bl_valid = True, bl_votes = [(''u2'', Approve)], bl_state = Pending_Review\<rparr>"
  by code_simp

lemma sample_serial_inputs:
  "caller_fits (sample_caller ''u3'') (sample_decision ''approve'' ''d-2'')"
  "unused_decision_key id 0 (sample_decision ''approve'' ''d-2'') (fold (serve_alone id) sample_serial (empty_approvals id))"
  "\<not> decision_refused (sample_caller ''u3'') (sample_decision ''approve'' ''d-2'')"
  "bound_actor (sample_caller ''u3'') = Some ''u3''"
  "vote_of (di_decision (sample_decision ''approve'' ''d-2'')) = Some Approve"
  by code_simp+

text \<open>
  With a decision key that another checker has used on the approval the backends part: the process-local
  store does not look at the key and records the vote, the database answers with a conflict.
\<close>

lemma reused_decision_key_diverges:
  "(case memory_submit_decision (sample_caller ''u3'') 3 (Canonical 0) (sample_decision ''approve'' ''d-1'')
      (fold (serve_memory id) (take 2 sample_approval_run) (empty_memory id)) of (r, st) \<Rightarrow> ap_result r = Approved) \<and>
   (case decide_alone id (sample_caller ''u3'') 3 (Canonical 0) (sample_decision ''approve'' ''d-1'')
      (fold (serve_alone id) sample_serial (empty_approvals id)) of (Inr r, db) \<Rightarrow> ap_result r = Conflicted | _ \<Rightarrow> False)"
  by code_simp

theorem approval_backends_agree_witness:
  "\<exists>mem st' rec db'.
     memory_submit_decision (sample_caller ''u3'') 3 (Canonical 0) (sample_decision ''approve'' ''d-2'')
       (fold (serve_memory id) (take 2 sample_approval_run) (empty_memory id)) = (mem, st') \<and>
     decide_alone id (sample_caller ''u3'') 3 (Canonical 0) (sample_decision ''approve'' ''d-2'')
       (fold (serve_alone id) sample_serial (empty_approvals id)) = (Inr rec, db') \<and>
     ap_result rec = Approved \<and> ap_result mem = Approved"
  using approval_backends_agree [OF inj_on_id inj_on_id refl refl sample_serial_ballot sample_memory_ballot, of "Canonical 0"
      "sample_caller ''u3''" "sample_decision ''approve'' ''d-2''" "''u3''" Approve 3] sample_serial_inputs
  by (auto simp: cast_result_def unimplemented_states_def yes_votes_def)

end
