(* ===== verification/Execution_Contract.thy ===== *)
theory Execution_Contract
  imports Governed_Execution Approval_Contract
begin

text \<open>
  What the governed executions promise together with the approvals they rest on, whose transactions interleave
  with the calls: what is recorded and what completes was approved by a quorum of other people.
\<close>

section \<open>The store of executions\<close>

lemma emit_exec_audit_fields [simp]:
  "es_dry_runs (emit_exec_audit e st) = es_dry_runs st" "es_requests (emit_exec_audit e st) = es_requests st"
  "es_by_key (emit_exec_audit e st) = es_by_key st" "es_uuids (emit_exec_audit e st) = es_uuids st"
  "es_drawn (emit_exec_audit e st) = Suc (es_drawn st)"
  by (simp_all add: emit_exec_audit_def draw_exec_def)

lemma draw_exec_fields: "draw_exec st = (Canonical (es_uuids st (es_drawn st)), st\<lparr>es_drawn := Suc (es_drawn st)\<rparr>)"
  by (simp add: draw_exec_def)

text \<open>What a recorded request is: passed, by an identity-only super admin, for an action of the catalogue.\<close>

definition exec_request_ok :: "exec_request \<Rightarrow> bool" where
  "exec_request_ok r \<longleftrightarrow> xr_result_state r = Dry_Run_Passed \<and> xr_role r = ''super_admin'' \<and> xr_context r = ''identity_only'' \<and>
     xr_ack r \<and> (\<exists>t \<in> set allowed_action_types. xr_type r = Some t)"

definition exec_ok :: "exec_store \<Rightarrow> bool" where
  "exec_ok st \<longleftrightarrow> inj (es_uuids st) \<and>
     (\<forall>i r. map_of (es_requests st) i = Some r \<longrightarrow> exec_request_ok r \<and> xr_id r = i \<and> (\<exists>n < es_drawn st. i = Canonical (es_uuids st n))) \<and>
     (\<forall>k i. map_of (es_by_key st) k = Some i \<longrightarrow> (\<exists>r. map_of (es_requests st) i = Some r \<and> xr_key_digest r = k))"

lemma exec_ok_request:
  "exec_ok st \<Longrightarrow> map_of (es_requests st) i = Some r \<Longrightarrow>
     exec_request_ok r \<and> xr_id r = i \<and> (\<exists>n < es_drawn st. i = Canonical (es_uuids st n))"
  unfolding exec_ok_def by blast

lemma exec_ok_key: "exec_ok st \<Longrightarrow> map_of (es_by_key st) k = Some i \<Longrightarrow> \<exists>r. map_of (es_requests st) i = Some r \<and> xr_key_digest r = k"
  unfolding exec_ok_def by blast

lemma exec_ok_fresh: "exec_ok st \<Longrightarrow> map_of (es_requests st) (Canonical (es_uuids st (es_drawn st))) = None"
proof (rule ccontr)
  assume ok: "exec_ok st" and "map_of (es_requests st) (Canonical (es_uuids st (es_drawn st))) \<noteq> None"
  then obtain n where "n < es_drawn st" "es_uuids st (es_drawn st) = es_uuids st n" using exec_ok_request [OF ok] by force
  with ok show False unfolding exec_ok_def by (auto dest: injD)
qed

lemma safe_allowed: "t \<in> set allowed_action_types \<Longrightarrow> safe_action_type (Some t) = Some t"
proof -
  have "list_all (\<lambda>t. safe_action_type (Some t) = Some t) allowed_action_types" by code_simp
  then show "t \<in> set allowed_action_types \<Longrightarrow> safe_action_type (Some t) = Some t" by (simp add: list_all_iff)
qed

lemma classify_action_Nil: "classify_action t = [] \<Longrightarrow> \<exists>s \<in> set allowed_action_types. t = Some s"
  by (auto simp: classify_action_def split: option.splits if_splits)

text \<open>Two stores with the same requests and keys.\<close>

definition same_records :: "exec_store \<Rightarrow> exec_store \<Rightarrow> bool" where
  "same_records st st' \<longleftrightarrow> es_requests st' = es_requests st \<and> es_by_key st' = es_by_key st \<and> es_uuids st' = es_uuids st \<and>
     es_drawn st \<le> es_drawn st'"

lemma exec_ok_same: "exec_ok st \<Longrightarrow> same_records st st' \<Longrightarrow> exec_ok st'"
  unfolding exec_ok_def same_records_def by (metis less_le_trans)

lemma dry_run_same: "same_records st (snd (evaluate_dry_run sha cl now approval inp st))"
  by (simp add: evaluate_dry_run_def Let_def draw_exec_fields same_records_def split: prod.split)

lemma complete_same: "same_records st (snd (complete_governed_backup_check clock why approval tables q st))"
  by (auto simp: complete_governed_backup_check_def finish_blocked_def Let_def same_records_def split: prod.splits option.split)

text \<open>A request is replayed, refused, or recorded because nothing blocked it.\<close>

definition new_exec_request ::
  "(string \<Rightarrow> string) \<Rightarrow> caller \<Rightarrow> nat \<Rightarrow> exec_create \<Rightarrow> exec_store \<Rightarrow> exec_request" where
  "new_exec_request sha cl now inp st =
     \<lparr>xr_id = Canonical (es_uuids st (es_drawn st)), xr_approval = xi_approval inp, xr_type = safe_action_type (xi_type inp),
      xr_tenant = xi_tenant inp, xr_state = xi_state inp, xr_reason = redact_reason (stripped (xi_reason inp)),
      xr_key_digest = sha (stripped (xi_key inp)),
      xr_payload = payload_digest sha (xi_approval inp) (xi_type inp) (xi_tenant inp) (xi_state inp) (cl_actor cl),
      xr_actor = cl_actor cl, xr_role = cl_role cl, xr_context = cl_context cl, xr_mode = mode_of (xi_mode inp),
      xr_dry_run = xi_dry_run inp, xr_ack = xi_ack inp, xr_correlation = sanitize_text (xi_correlation inp),
      xr_metadata = redact_metadata (xi_metadata inp), xr_result_state = Dry_Run_Passed, xr_created = now\<rparr>"

lemma record_request_cases:
  assumes "record_execution_request sha cl now approval inp st = (resp, st')"
  obtains (replayed) r where "stripped (xi_key inp) \<noteq> []" "recorded_under (sha (stripped (xi_key inp))) st = Some r"
      "xr_payload r = payload_digest sha (xi_approval inp) (xi_type inp) (xi_tenant inp) (xi_state inp) (cl_actor cl)"
      "resp = response_from r" "same_records st st'"
  | (conflict) r where "stripped (xi_key inp) \<noteq> []" "recorded_under (sha (stripped (xi_key inp))) st = Some r"
      "xr_payload r \<noteq> payload_digest sha (xi_approval inp) (xi_type inp) (xi_tenant inp) (xi_state inp) (cl_actor cl)"
      "xs_result_state resp = Blocked" "xs_result resp = Conflicted" "xs_id resp = None" "same_records st st'"
  | (refused) "request_blocks cl now approval inp st \<noteq> []" "stripped (xi_key inp) = [] \<or> recorded_under (sha (stripped (xi_key inp))) st = None"
      "xs_result_state resp = Blocked" "xs_result resp = Denied" "xs_id resp = None" "same_records st st'"
  | (records) "request_blocks cl now approval inp st = []" "recorded_under (sha (stripped (xi_key inp))) st = None"
      "resp = response_from (new_exec_request sha cl now inp st)"
      "es_requests st' = AList.update (Canonical (es_uuids st (es_drawn st))) (new_exec_request sha cl now inp st) (es_requests st)"
      "es_by_key st' = AList.update (sha (stripped (xi_key inp))) (Canonical (es_uuids st (es_drawn st))) (es_by_key st)"
      "es_uuids st' = es_uuids st" "es_drawn st < es_drawn st'" "es_dry_runs st' = es_dry_runs st"
proof -
  note defs = record_execution_request_def Let_def draw_exec_fields same_records_def
  show ?thesis
  proof (cases "stripped (xi_key inp) = [] \<or> recorded_under (sha (stripped (xi_key inp))) st = None")
    case True
    show ?thesis
    proof (cases "request_blocks cl now approval inp st = []")
      case blocks: True
      then have "stripped (xi_key inp) \<noteq> []" by (auto simp: request_blocks_def)
      with True blocks show ?thesis using assms by (intro records) (auto simp: defs new_exec_request_def split: prod.splits)
    next
      case False
      with True show ?thesis using assms by (intro refused) (auto simp: defs response_from_def split: prod.splits if_splits)
    qed
  next
    case False
    then obtain r where r: "recorded_under (sha (stripped (xi_key inp))) st = Some r" by auto
    with False assms show ?thesis
      by (cases "xr_payload r = payload_digest sha (xi_approval inp) (xi_type inp) (xi_tenant inp) (xi_state inp) (cl_actor cl)")
        (auto simp: defs response_from_def split: prod.splits intro: replayed conflict)
  qed
qed

lemma new_exec_request_ok: "request_blocks cl now approval inp st = [] \<Longrightarrow> exec_request_ok (new_exec_request sha cl now inp st)"
  using classify_action_Nil [of "xi_type inp"] safe_allowed
  by (auto simp: request_blocks_def new_exec_request_def exec_request_ok_def executor_block_reason_def split: if_splits)

lemma exec_ok_record:
  assumes ok: "exec_ok st" and run: "record_execution_request sha cl now approval inp st = (resp, st')"
  shows "exec_ok st'"
  using run
proof (rule record_request_cases)
  assume new: "request_blocks cl now approval inp st = []"
    and req: "es_requests st' = AList.update (Canonical (es_uuids st (es_drawn st))) (new_exec_request sha cl now inp st) (es_requests st)"
    and key: "es_by_key st' = AList.update (sha (stripped (xi_key inp))) (Canonical (es_uuids st (es_drawn st))) (es_by_key st)"
    and rest: "es_uuids st' = es_uuids st" "es_drawn st < es_drawn st'"
  let ?i = "Canonical (es_uuids st (es_drawn st))"
  have fresh: "map_of (es_requests st) ?i = None" using ok by (rule exec_ok_fresh)
  have drawn: "\<exists>n < es_drawn st'. i = Canonical (es_uuids st n)" if "\<exists>n < es_drawn st. i = Canonical (es_uuids st n)" for i
    using that by (rule drawn_mono) (use rest(2) in simp)
  have "exec_request_ok r \<and> xr_id r = i \<and> (\<exists>n < es_drawn st'. i = Canonical (es_uuids st n))"
    if "map_of (es_requests st') i = Some r" for i r
  proof (cases "i = ?i")
    case True
    then show ?thesis using that rest(2) new_exec_request_ok [OF new] by (auto simp: req update_conv' new_exec_request_def)
  next
    case False
    then show ?thesis using that exec_ok_request [OF ok, of i r] drawn by (auto simp: req update_conv')
  qed
  moreover have "\<exists>r. map_of (es_requests st') i = Some r \<and> xr_key_digest r = k" if k: "map_of (es_by_key st') k = Some i" for k i
  proof (cases "k = sha (stripped (xi_key inp))")
    case True
    then show ?thesis using k by (auto simp: req key update_conv' new_exec_request_def)
  next
    case False
    then obtain r where "map_of (es_requests st) i = Some r" "xr_key_digest r = k"
      using k exec_ok_key [OF ok, of k i] by (auto simp: key update_conv')
    then show ?thesis using fresh by (auto simp: req update_conv')
  qed
  ultimately show ?thesis using ok rest(1) by (simp add: exec_ok_def)
qed (auto intro: exec_ok_same [OF ok])


section \<open>Approvals and executions together\<close>

text \<open>What the resolver gives is the request with that id as the database has it, and the read leaves an audit event.\<close>

lemma resolve_durable:
  assumes "default_resolve_approval probe False probe' now aid mem db db = (sn, db')"
  shows "audits_only db db'"
    and "sn = Some s \<Longrightarrow> \<exists>a u req. given_id aid = Some a \<and> parse_uuid a = Some u \<and> fetch_request u db = Some req \<and>
      s = snapshot_from_p20_record (build_record req (fetch_decisions u db) Recorded now)"
  using assms
  by (auto simp: default_resolve_approval_def durable_read_def get_request_def from_durable_record_def build_record_def
      split: option.splits if_splits prod.splits sum.splits store_result.splits dest!: emit_audit_Inr)

record platform_state =
  ps_approvals :: approval_system
  ps_exec :: exec_store

type_synonym probes = "nat option \<times> nat option"

text \<open>
  The calls of the console: a step of an approval transaction, or an operation of the executions, which reads its
  approval in a transaction of its own.
\<close>

datatype platform_call =
    Approval_Step system_event
  | Dry_Run_Call probes caller nat exec_input
  | Record_Call probes caller nat exec_create
  | Governed_Call probes "nat \<times> nat \<times> nat \<times> nat" string "(backup_outcome list \<times> backup_policy list) option" governed_request

definition resolve_now :: "probes \<Rightarrow> nat \<Rightarrow> id_text option \<Rightarrow> platform_state \<Rightarrow> snapshot option \<times> platform_state" where
  "resolve_now probes now aid ps =
     (let db = sy_db (ps_approvals ps);
          (sn, db') = default_resolve_approval (fst probes) False (snd probes) now aid (empty_memory id) db db
      in (sn, ps\<lparr>ps_approvals := (ps_approvals ps)\<lparr>sy_db := db'\<rparr>\<rparr>))"

definition dry_run_now :: "(string \<Rightarrow> string) \<Rightarrow> probes \<Rightarrow> caller \<Rightarrow> nat \<Rightarrow> exec_input \<Rightarrow> platform_state \<Rightarrow> dry_run_response \<times> platform_state" where
  "dry_run_now sha probes cl now inp ps =
     (let (sn, ps') = resolve_now probes now (xi_approval inp) ps; (resp, st) = evaluate_dry_run sha cl now sn inp (ps_exec ps')
      in (resp, ps'\<lparr>ps_exec := st\<rparr>))"

definition record_now :: "(string \<Rightarrow> string) \<Rightarrow> probes \<Rightarrow> caller \<Rightarrow> nat \<Rightarrow> exec_create \<Rightarrow> platform_state \<Rightarrow> exec_response \<times> platform_state" where
  "record_now sha probes cl now inp ps =
     (let (sn, ps') = resolve_now probes now (xi_approval inp) ps; (resp, st) = record_execution_request sha cl now sn inp (ps_exec ps')
      in (resp, ps'\<lparr>ps_exec := st\<rparr>))"

text \<open>A governed request that is not bound to a recorded one never reaches its approval.\<close>

definition governed_now ::
  "probes \<Rightarrow> nat \<times> nat \<times> nat \<times> nat \<Rightarrow> string \<Rightarrow> (backup_outcome list \<times> backup_policy list) option \<Rightarrow> governed_request
   \<Rightarrow> platform_state \<Rightarrow> governed_result \<times> platform_state" where
  "governed_now probes clock why tables q ps =
     (let (sn, ps') = (if binding_block q (ps_exec ps) = None then resolve_now probes (fst (snd clock)) (gq_approval q) ps else (None, ps));
          (g, st) = complete_governed_backup_check clock why sn tables q (ps_exec ps')
      in (g, ps'\<lparr>ps_exec := st\<rparr>))"

fun serve_platform :: "(string \<Rightarrow> string) \<Rightarrow> platform_call \<Rightarrow> platform_state \<Rightarrow> platform_state" where
  "serve_platform sha (Approval_Step e) ps = ps\<lparr>ps_approvals := serve_system sha e (ps_approvals ps)\<rparr>"
| "serve_platform sha (Dry_Run_Call probes cl now inp) ps = snd (dry_run_now sha probes cl now inp ps)"
| "serve_platform sha (Record_Call probes cl now inp) ps = snd (record_now sha probes cl now inp ps)"
| "serve_platform sha (Governed_Call probes clock why tables q) ps = snd (governed_now probes clock why tables q ps)"

definition empty_platform :: "(nat \<Rightarrow> uuid) \<Rightarrow> (nat \<Rightarrow> uuid) \<Rightarrow> platform_state" where
  "empty_platform uuids ids =
     \<lparr>ps_approvals = empty_system uuids,
      ps_exec = \<lparr>es_dry_runs = [], es_requests = [], es_by_key = [], es_audit = [], es_uuids = ids, es_drawn = 0\<rparr>\<rparr>"

definition platform_ok :: "platform_state \<Rightarrow> bool" where
  "platform_ok ps \<longleftrightarrow> system_ok (ps_approvals ps) \<and> exec_ok (ps_exec ps)"

definition platform_ballot :: "uuid \<Rightarrow> platform_state \<Rightarrow> ballot option" where
  "platform_ballot u ps = system_ballot u (ps_approvals ps)"


lemma system_read_kept:
  assumes "system_ok sy" and "audits_only (sy_db sy) db'"
  shows "system_ok (sy\<lparr>sy_db := db'\<rparr>)" and "system_ballot u (sy\<lparr>sy_db := db'\<rparr>) = system_ballot u sy"
proof -
  have ev: "evolves (sy_db sy) db'" using assms by (intro evolves_audits) (simp_all add: system_ok_def)
  then show "system_ok (sy\<lparr>sy_db := db'\<rparr>)"
    using assms(1) flight_ok_kept [OF _ ev] by (auto simp: system_ok_def evolves_def list_all_iff)
  show "system_ballot u (sy\<lparr>sy_db := db'\<rparr>) = system_ballot u sy" using store_ballot_audits [OF assms(2)] by (simp add: system_ballot_def)
qed

lemma resolve_now_kept:
  assumes "resolve_now probes now aid ps = (sn, ps')"
  shows "ps_exec ps' = ps_exec ps" and "platform_ok ps \<Longrightarrow> platform_ok ps'" and "platform_ok ps \<Longrightarrow> platform_ballot u ps' = platform_ballot u ps"
    and "sn = Some s \<Longrightarrow> \<exists>a u req. given_id aid = Some a \<and> parse_uuid a = Some u \<and> fetch_request u (sy_db (ps_approvals ps)) = Some req \<and>
      s = snapshot_from_p20_record (build_record req (fetch_decisions u (sy_db (ps_approvals ps))) Recorded now)"
proof -
  obtain db' where r: "default_resolve_approval (fst probes) False (snd probes) now aid (empty_memory id) (sy_db (ps_approvals ps))
      (sy_db (ps_approvals ps)) = (sn, db')" and ps': "ps' = ps\<lparr>ps_approvals := (ps_approvals ps)\<lparr>sy_db := db'\<rparr>\<rparr>"
    using assms by (auto simp: resolve_now_def Let_def split: prod.splits)
  note audits = resolve_durable [OF r]
  show "ps_exec ps' = ps_exec ps" "platform_ok ps \<Longrightarrow> platform_ok ps'" "platform_ok ps \<Longrightarrow> platform_ballot u ps' = platform_ballot u ps"
    using system_read_kept [OF _ audits(1)] by (simp_all add: ps' platform_ok_def platform_ballot_def)
  show "sn = Some s \<Longrightarrow> \<exists>a u req. given_id aid = Some a \<and> parse_uuid a = Some u \<and> fetch_request u (sy_db (ps_approvals ps)) = Some req \<and>
      s = snapshot_from_p20_record (build_record req (fetch_decisions u (sy_db (ps_approvals ps))) Recorded now)"
    by (rule audits(2))
qed

lemma exec_update_kept:
  "platform_ok ps \<Longrightarrow> exec_ok st \<Longrightarrow> platform_ok (ps\<lparr>ps_exec := st\<rparr>)"
  "platform_ballot u (ps\<lparr>ps_exec := st\<rparr>) = platform_ballot u ps"
  by (simp_all add: platform_ok_def platform_ballot_def)

text \<open>A call changes the approvals by one step of theirs, or the executions, or only audits.\<close>

lemma serve_platform_cases:
  assumes ok: "platform_ok ps"
  obtains (approval) e where "ps_approvals (serve_platform sha c ps) = serve_system sha e (ps_approvals ps)"
      "ps_exec (serve_platform sha c ps) = ps_exec ps"
  | (same) "platform_ok (serve_platform sha c ps)" "\<And>u. platform_ballot u (serve_platform sha c ps) = platform_ballot u ps"
      "same_records (ps_exec ps) (ps_exec (serve_platform sha c ps))"
  | (recorded) cl now sn inp resp where "platform_ok (serve_platform sha c ps)"
      "\<And>u. platform_ballot u (serve_platform sha c ps) = platform_ballot u ps"
      "record_execution_request sha cl now sn inp (ps_exec ps) = (resp, ps_exec (serve_platform sha c ps))"
proof (cases c)
  case (Approval_Step e)
  then show ?thesis using approval by simp
next
  case (Dry_Run_Call probes cl now inp)
  obtain sn ps' where r: "resolve_now probes now (xi_approval inp) ps = (sn, ps')" by fastforce
  note kept = resolve_now_kept [OF r]
  have "same_records (ps_exec ps) (snd (evaluate_dry_run sha cl now sn inp (ps_exec ps)))" by (rule dry_run_same)
  moreover from this have "exec_ok (snd (evaluate_dry_run sha cl now sn inp (ps_exec ps)))"
    using exec_ok_same ok by (auto simp: platform_ok_def)
  ultimately show ?thesis
    using same kept ok exec_update_kept Dry_Run_Call r by (simp add: dry_run_now_def case_prod_beta)
next
  case (Record_Call probes cl now inp)
  obtain sn ps' where r: "resolve_now probes now (xi_approval inp) ps = (sn, ps')" by fastforce
  obtain resp st where run: "record_execution_request sha cl now sn inp (ps_exec ps) = (resp, st)" by fastforce
  have "exec_ok st" using ok by (intro exec_ok_record [OF _ run]) (simp add: platform_ok_def)
  note kept = resolve_now_kept [OF r]
  have served: "serve_platform sha c ps = ps'\<lparr>ps_exec := st\<rparr>" using Record_Call r run kept(1) by (simp add: record_now_def)
  show ?thesis
  proof (rule recorded)
    show "platform_ok (serve_platform sha c ps)" unfolding served using kept(2) [OF ok] \<open>exec_ok st\<close> by (rule exec_update_kept)
    show "platform_ballot u (serve_platform sha c ps) = platform_ballot u ps" for u
      unfolding served using kept(3) [OF ok] by (simp add: exec_update_kept(2))
    show "record_execution_request sha cl now sn inp (ps_exec ps) = (resp, ps_exec (serve_platform sha c ps))"
      using run by (simp add: served)
  qed
next
  case (Governed_Call probes clock why tables q)
  obtain sn ps' where r: "(if binding_block q (ps_exec ps) = None then resolve_now probes (fst (snd clock)) (gq_approval q) ps else (None, ps)) = (sn, ps')"
    by fastforce
  then have kept: "ps_exec ps' = ps_exec ps" "platform_ok ps'" "\<And>u. platform_ballot u ps' = platform_ballot u ps"
    using resolve_now_kept ok by (auto split: if_splits)
  have "same_records (ps_exec ps) (snd (complete_governed_backup_check clock why sn tables q (ps_exec ps)))" by (rule complete_same)
  moreover from this have "exec_ok (snd (complete_governed_backup_check clock why sn tables q (ps_exec ps)))"
    using exec_ok_same ok by (auto simp: platform_ok_def)
  ultimately show ?thesis
    using same kept exec_update_kept Governed_Call r by (simp add: governed_now_def case_prod_beta)
qed

interpretation platform_box: ballot_box platform_ballot "serve_platform sha" platform_ok
proof unfold_locales
  fix ps k c b
  assume ok: "platform_ok ps"
  then have sys: "system_ok (ps_approvals ps)" and ex: "exec_ok (ps_exec ps)" by (simp_all add: platform_ok_def)
  show "platform_ok (serve_platform sha c ps)"
    using ok by (cases rule: serve_platform_cases [of ps sha c, consumes 1])
      (use durable_box.good_step [OF sys] ex in \<open>auto simp: platform_ok_def\<close>)
  show "platform_ballot k ps = None \<Longrightarrow> platform_ballot k (serve_platform sha c ps) = Some b \<Longrightarrow> fresh_ballot b"
    using ok by (cases rule: serve_platform_cases [of ps sha c, consumes 1])
      (use durable_box.opened [OF sys] in \<open>auto simp: platform_ballot_def\<close>)
  show "\<exists>b'. platform_ballot k (serve_platform sha c ps) = Some b' \<and> ballot_move b b'" if "platform_ballot k ps = Some b"
    using ok that by (cases rule: serve_platform_cases [of ps sha c, consumes 1])
      (use durable_box.moved [OF sys] in \<open>auto simp: platform_ballot_def intro: ballot_move.rest\<close>)
qed

lemma empty_platform_ok: "inj uuids \<Longrightarrow> inj ids \<Longrightarrow> platform_ok (empty_platform uuids ids)"
  by (simp add: platform_ok_def empty_platform_def empty_system_ok exec_ok_def)

lemma platform_sound:
  assumes "inj uuids" and "inj ids" and "platform_ballot u (fold (serve_platform sha) cs (empty_platform uuids ids)) = Some b"
  shows "sound_ballot b"
  using empty_platform_ok [OF assms(1,2)] _ assms(3)
  by (rule platform_box.run_sound)
    (simp add: platform_ballot_def system_ballot_def empty_platform_def empty_system_def store_ballot_def fetch_request_def row_find_def)


section \<open>Keys\<close>

lemma recorded_under_same: "same_records st st' \<Longrightarrow> recorded_under k st' = recorded_under k st"
  by (simp add: recorded_under_def same_records_def)

lemma recorded_under_kept:
  assumes ok: "exec_ok st" and r: "recorded_under k st = Some r" and run: "record_execution_request sha cl now sn inp st = (resp, st')"
  shows "recorded_under k st' = Some r"
  using run
proof (rule record_request_cases)
  assume none: "recorded_under (sha (stripped (xi_key inp))) st = None"
    and req: "es_requests st' = AList.update (Canonical (es_uuids st (es_drawn st))) (new_exec_request sha cl now inp st) (es_requests st)"
    and key: "es_by_key st' = AList.update (sha (stripped (xi_key inp))) (Canonical (es_uuids st (es_drawn st))) (es_by_key st)"
  have "k \<noteq> sha (stripped (xi_key inp))" using none r by auto
  moreover obtain i where i: "map_of (es_by_key st) k = Some i" "map_of (es_requests st) i = Some r"
    using r by (auto simp: recorded_under_def bind_eq_Some_conv)
  moreover have "i \<noteq> Canonical (es_uuids st (es_drawn st))" using exec_ok_fresh [OF ok] i(2) by auto
  ultimately show ?thesis by (simp add: recorded_under_def req key update_conv')
qed (simp_all add: r recorded_under_same)

lemma recorded_under_run:
  "platform_ok ps \<Longrightarrow> recorded_under k (ps_exec ps) = Some r \<Longrightarrow>
     recorded_under k (ps_exec (fold (serve_platform sha) cs ps)) = Some r"
proof (induction cs arbitrary: ps)
  case (Cons c cs)
  have "recorded_under k (ps_exec (serve_platform sha c ps)) = Some r"
    using Cons.prems(1)
  proof (rule serve_platform_cases [of ps sha c])
    fix cl now sn inp resp
    assume "record_execution_request sha cl now sn inp (ps_exec ps) = (resp, ps_exec (serve_platform sha c ps))"
    from recorded_under_kept [OF _ Cons.prems(2) this] show ?thesis using Cons.prems(1) by (simp add: platform_ok_def)
  next
    assume "same_records (ps_exec ps) (ps_exec (serve_platform sha c ps))"
    from recorded_under_same [OF this] show ?thesis using Cons.prems(2) by simp
  qed (use Cons.prems(2) in simp)
  then show ?case using Cons.IH [OF platform_box.good_step [OF Cons.prems(1)]] by simp
qed simp

text \<open>What was answered as recorded stands under its key.\<close>

lemma recorded_answer:
  assumes ok: "exec_ok st" and run: "record_execution_request sha cl now sn inp st = (resp, st')" and "xs_result resp = Recorded"
  shows "\<exists>r. recorded_under (sha (stripped (xi_key inp))) st' = Some r \<and> resp = response_from r \<and>
    xr_payload r = payload_digest sha (xi_approval inp) (xi_type inp) (xi_tenant inp) (xi_state inp) (cl_actor cl)"
  using run
proof (rule record_request_cases)
  fix r
  assume "recorded_under (sha (stripped (xi_key inp))) st = Some r" "resp = response_from r"
    "xr_payload r = payload_digest sha (xi_approval inp) (xi_type inp) (xi_tenant inp) (xi_state inp) (cl_actor cl)"
  with recorded_under_kept [OF ok _ run] show ?thesis by blast
next
  assume "resp = response_from (new_exec_request sha cl now inp st)"
    "es_requests st' = AList.update (Canonical (es_uuids st (es_drawn st))) (new_exec_request sha cl now inp st) (es_requests st)"
    "es_by_key st' = AList.update (sha (stripped (xi_key inp))) (Canonical (es_uuids st (es_drawn st))) (es_by_key st)"
  then show ?thesis by (simp add: recorded_under_def update_conv' new_exec_request_def)
qed (use assms(3) in auto)

text \<open>
  Once a request to execute was answered as recorded under an idempotency key, every later request under that key, by
  anyone and after any other calls, records nothing: it is answered exactly as the first one was when its payload
  digest is the same, whatever has become of its approval, and as a conflict without an id otherwise.
\<close>

theorem execution_key_stands_for_one_request:
  assumes "inj uuids" and "inj ids" and "ps = fold (serve_platform sha) cs (empty_platform uuids ids)"
    and "record_now sha probes cl now inp ps = (resp, ps1)" and "xs_result resp = Recorded"
    and "stripped (xi_key inp') = stripped (xi_key inp)" and "stripped (xi_key inp) \<noteq> []"
    and "ps2 = fold (serve_platform sha) cs' ps1" and "record_now sha probes' cl' now' inp' ps2 = (resp', ps3)"
  shows "es_requests (ps_exec ps3) = es_requests (ps_exec ps2) \<and>
    (if payload_digest sha (xi_approval inp') (xi_type inp') (xi_tenant inp') (xi_state inp') (cl_actor cl') =
        payload_digest sha (xi_approval inp) (xi_type inp) (xi_tenant inp) (xi_state inp) (cl_actor cl)
     then resp' = resp else xs_result resp' = Conflicted \<and> xs_id resp' = None)"
proof -
  have ok: "platform_ok ps" unfolding assms(3) by (intro platform_box.run_good empty_platform_ok assms(1,2))
  obtain sn px where r: "resolve_now probes now (xi_approval inp) ps = (sn, px)" by fastforce
  have run: "record_execution_request sha cl now sn inp (ps_exec ps) = (resp, ps_exec ps1)"
    using assms(4) r resolve_now_kept(1) [OF r] by (auto simp: record_now_def split: prod.splits)
  obtain rec where rec: "recorded_under (sha (stripped (xi_key inp))) (ps_exec ps1) = Some rec" "resp = response_from rec"
      "xr_payload rec = payload_digest sha (xi_approval inp) (xi_type inp) (xi_tenant inp) (xi_state inp) (cl_actor cl)"
    using recorded_answer [OF _ run assms(5)] ok by (auto simp: platform_ok_def)
  have ok1: "platform_ok ps1"
    using platform_box.good_step [OF ok, of sha "Record_Call probes cl now inp"] assms(4) by simp
  obtain sn' py where r': "resolve_now probes' now' (xi_approval inp') ps2 = (sn', py)" by fastforce
  have "record_execution_request sha cl' now' sn' inp' (ps_exec ps2) = (resp', ps_exec ps3)"
    using assms(9) r' resolve_now_kept(1) [OF r'] by (auto simp: record_now_def split: prod.splits)
  then show ?thesis
    by (rule record_request_cases)
      (use recorded_under_run [OF ok1 rec(1), of sha cs'] rec(2,3) assms(6,7,8) in \<open>auto simp: same_records_def\<close>)
qed

end
