(* ===== verification/Governed_Contract.thy ===== *)
theory Governed_Contract
  imports Execution_Contract
begin

text \<open>
  What stands behind a governed \<open>backup.check\<close> that was carried out: the approval, the recorded request and the dry
  run it needs, and, when it reports success, a recent backup. A concrete run of the console.
\<close>

section \<open>Execution\<close>

text \<open>An actor who neither opened a ballot nor voted in it; a caller without a name is nobody.\<close>

definition outsider :: "string option \<Rightarrow> ballot \<Rightarrow> bool" where
  "outsider actor b \<longleftrightarrow> or_blank actor = [] \<or> or_blank actor \<noteq> bl_maker b \<and> or_blank actor \<notin> fst ` set (bl_votes b)"

lemma preconditions_hold:
  assumes "fst (check_approval_preconditions sn t actor tenant) = []"
    and "sn = Some (snapshot_from_p20_record (build_record req (fetch_decisions (rq_id req) db) Recorded now))"
  shows "rq_state req = Approved_Blocked" and "rq_quorum_met req" and "rq_type req = [] \<or> or_blank t = [] \<or> t = Some (rq_type req)"
    and "norm_id (map_option str_uuid (rq_tenant req)) = norm_id tenant" and "outsider actor (row_ballot req (votes_on (rq_id req) db))"
  using assms
  by (auto simp: check_approval_preconditions_def snapshot_from_p20_record_def build_record_def given_def or_blank_def outsider_def
      votes_on_def fetch_decisions_def image_image split: if_splits option.splits)

lemma executed_unblocked:
  assumes "complete_governed_backup_check clock why sn tables q st = (g, st')" and "gr_executed g"
  shows "binding_block q st = None" and "preflight_blocks (fst (snd clock)) sn (seam_request_of q) st = []"
  using assms
  by (auto simp: complete_governed_backup_check_def finish_blocked_def governed_answer_def evaluate_preflight_gate_def Let_def
      split: prod.splits option.splits if_splits)

lemma binding_request:
  assumes "binding_block q st = None"
  obtains xid r where "gq_request q = Some xid" "map_of (es_requests st) xid = Some r" "\<not> request_mismatch q (response_from r)"
  using assms by (cases "gq_request q") (auto simp: binding_block_def read_execution_request_def split: option.splits if_splits)

lemma request_matches:
  assumes "\<not> request_mismatch q (response_from r)"
  shows "xr_type r = Some ''backup.check''" "norm_id (xr_approval r) = norm_id (gq_approval q)"
    "norm_id (xr_tenant r) = norm_id (gq_tenant q)" "norm_text (xr_actor r) = norm_text (cl_actor (gq_caller q))"
  using assms by (simp_all add: request_mismatch_def response_from_def governed_action_type_def)

lemma gate_passed:
  assumes "preflight_blocks now sn (seam_request_of q) st = []"
  shows "executor_block_reason (gq_caller q) = []"
    and "fst (check_approval_preconditions sn (Some ''backup.check'') (cl_actor (gq_caller q)) (gq_tenant q)) = []"
    and "\<exists>s. sn = Some s"
    and "\<exists>d. Option.bind (gq_dry_run q) (map_of (es_dry_runs st)) = Some d \<and> dn_executor d = cl_actor (gq_caller q) \<and>
      dn_approval d = gq_approval q \<and> dn_tenant d = gq_tenant q \<and> now < dn_expires d"
proof -
  note gate = assms [unfolded preflight_blocks_def seam_request_of_def, simplified]
  show "executor_block_reason (gq_caller q) = []" using gate by simp
  show "fst (check_approval_preconditions sn (Some ''backup.check'') (cl_actor (gq_caller q)) (gq_tenant q)) = []"
    using gate by (simp add: governed_action_type_def)
  then show "\<exists>s. sn = Some s" by (auto simp: check_approval_preconditions_def split: option.splits)
  show "\<exists>d. Option.bind (gq_dry_run q) (map_of (es_dry_runs st)) = Some d \<and> dn_executor d = cl_actor (gq_caller q) \<and>
      dn_approval d = gq_approval q \<and> dn_tenant d = gq_tenant q \<and> now < dn_expires d"
    using gate by (auto simp: dry_run_binding_def given_id_def split: option.splits if_splits)
qed

text \<open>
  C30: Whatever steps of approvals and executions came before, a governed action is only carried out for an approval that
  stands in the database with its quorum of approvals by other people than its maker and the executor, without a
  veto, for that very action (or recorded without an action type) and that tenant; it is carried out by a super admin without a tenant, in accordance with a
  request recorded before, on a dry run of the same caller that has not expired.
\<close>

theorem governed_execution_needs_approval:
  assumes "inj uuids" and "inj ids" and "ps = fold (serve_platform sha) cs (empty_platform uuids ids)"
    and "governed_now probes clock why tables q ps = (g, ps')" and "gr_executed g"
  shows "\<exists>a u req b r d.
    gq_approval q = Some a \<and> parse_uuid a = Some u \<and> fetch_request u (sy_db (ps_approvals ps)) = Some req \<and>
    (rq_type req = ''backup.check'' \<or> rq_type req = []) \<and> norm_id (map_option str_uuid (rq_tenant req)) = norm_id (gq_tenant q) \<and>
    platform_ballot u ps = Some b \<and> sound_ballot b \<and> bl_state b = Approved_Blocked \<and> outsider (cl_actor (gq_caller q)) b \<and>
    executor_block_reason (gq_caller q) = [] \<and>
    Option.bind (gq_request q) (map_of (es_requests (ps_exec ps))) = Some r \<and> exec_request_ok r \<and> xr_type r = Some ''backup.check'' \<and>
    norm_id (xr_approval r) = norm_id (gq_approval q) \<and> norm_id (xr_tenant r) = norm_id (gq_tenant q) \<and>
    norm_text (xr_actor r) = norm_text (cl_actor (gq_caller q)) \<and>
    Option.bind (gq_dry_run q) (map_of (es_dry_runs (ps_exec ps))) = Some d \<and>
    dn_executor d = cl_actor (gq_caller q) \<and> dn_approval d = gq_approval q \<and> dn_tenant d = gq_tenant q \<and> fst (snd clock) < dn_expires d"
proof -
  have ok: "platform_ok ps" unfolding assms(3) by (intro platform_box.run_good empty_platform_ok assms(1,2))
  obtain sn px where res: "(if binding_block q (ps_exec ps) = None then resolve_now probes (fst (snd clock)) (gq_approval q) ps else (None, ps)) = (sn, px)"
    by fastforce
  then have "ps_exec px = ps_exec ps" using resolve_now_kept(1) by (auto split: if_splits)
  with assms(4) res have run: "complete_governed_backup_check clock why sn tables q (ps_exec ps) = (g, ps_exec ps')"
    by (auto simp: governed_now_def split: prod.splits)
  note unblocked = executed_unblocked [OF run assms(5)]
  obtain xid r where r: "gq_request q = Some xid" "map_of (es_requests (ps_exec ps)) xid = Some r" "\<not> request_mismatch q (response_from r)"
    using unblocked(1) by (rule binding_request)
  have r_ok: "exec_request_ok r" using exec_ok_request r(2) ok by (auto simp: platform_ok_def)
  note gate = gate_passed [OF unblocked(2)]
  obtain s where s: "sn = Some s" using gate(3) by blast
  have "resolve_now probes (fst (snd clock)) (gq_approval q) ps = (sn, px)" using res unblocked(1) by simp
  from resolve_now_kept(4) [OF this s] obtain a u req where a: "given_id (gq_approval q) = Some a" "parse_uuid a = Some u"
      "fetch_request u (sy_db (ps_approvals ps)) = Some req"
      "s = snapshot_from_p20_record (build_record req (fetch_decisions u (sy_db (ps_approvals ps))) Recorded (fst (snd clock)))"
    by blast
  have u: "rq_id req = u" using a(3) by (rule fetch_request_id)
  note pre = preconditions_hold [OF gate(2), unfolded s a(4), folded u, OF refl, unfolded u]
  let ?b = "row_ballot req (votes_on u (sy_db (ps_approvals ps)))"
  have b: "platform_ballot u ps = Some ?b" using a(3) by (simp add: platform_ballot_def system_ballot_def store_ballot_def)
  have sound: "sound_ballot ?b" using platform_sound [OF assms(1,2)] b assms(3) by blast
  have "gq_approval q = Some a" using a(1) by (auto simp: given_id_def split: option.splits if_splits)
  moreover have "rq_type req = ''backup.check'' \<or> rq_type req = []" using pre(3) by (auto simp: or_blank_def)
  moreover have "bl_state ?b = Approved_Blocked" using pre(1) by simp
  moreover have "Option.bind (gq_request q) (map_of (es_requests (ps_exec ps))) = Some r" using r(1,2) by simp
  moreover note gate(4)
  ultimately show ?thesis using a(2,3) pre(4,5) b sound r_ok gate(1) request_matches [OF r(3)] by blast
qed


lemma governed_now_answer:
  "fst (governed_now probes clock why tables q ps) =
     fst (complete_governed_backup_check clock why
       (if binding_block q (ps_exec ps) = None then fst (resolve_now probes (fst (snd clock)) (gq_approval q) ps) else None) tables q (ps_exec ps))"
  using resolve_now_kept(1) [OF prod.collapse [symmetric]] by (simp add: governed_now_def case_prod_beta)

section \<open>What a check reports\<close>

text \<open>What the read says decides the outcome.\<close>

lemma completed_read:
  assumes "binding_block q st = None" and "preflight_blocks gate sn (seam_request_of q) st = []"
  shows "gr_executed (fst (complete_governed_backup_check (start, gate, t, finish) why sn tables q st)) =
      (sr_summary (read_backup_check_source t tables (gq_tenant q)) \<noteq> Sum_Unavailable)"
    and "gr_state (fst (complete_governed_backup_check (start, gate, t, finish) why sn tables q st)) = Gov_Succeeded \<longleftrightarrow>
      sr_summary (read_backup_check_source t tables (gq_tenant q)) = Sum_Fresh_Success"
  using assms
  by (cases "sr_summary (read_backup_check_source t tables (gq_tenant q))";
      simp add: complete_governed_backup_check_def evaluate_preflight_gate_def Let_def map_read_to_result_def governed_answer_def)+

text \<open>The newest of the finished backups for one tenant, or of those for the whole platform.\<close>

definition newest_backup :: "uuid option \<Rightarrow> backup_outcome list \<Rightarrow> backup_outcome \<Rightarrow> bool" where
  "newest_backup t rows x \<longleftrightarrow> x \<in> set rows \<and> bo_tenant x = t \<and> bo_kind x = Backup_Job \<and> bo_completed x \<noteq> None \<and>
     list_all (\<lambda>y. bo_tenant y = t \<longrightarrow> bo_kind y = Backup_Job \<longrightarrow> bo_completed y \<noteq> None \<longrightarrow> completed_at y \<le> completed_at x) rows"

lemma foldl_latest:
  "foldl (\<lambda>m x. if completed_at m < completed_at x then x else m) r rs \<in> set (r # rs) \<and>
   (\<forall>y \<in> set (r # rs). completed_at y \<le> completed_at (foldl (\<lambda>m x. if completed_at m < completed_at x then x else m) r rs))"
proof (induction rs arbitrary: r)
  case (Cons x xs)
  show ?case using Cons [of "if completed_at r < completed_at x then x else r"] by (auto split: if_splits)
qed simp

lemma latest_Some: "latest rs = Some x \<Longrightarrow> x \<in> set rs \<and> (\<forall>y \<in> set rs. completed_at y \<le> completed_at x)"
  using foldl_latest by (cases rs) (auto simp del: foldl.simps)

lemma latest_None: "latest rs = None \<longleftrightarrow> rs = []"
  by (cases rs) auto

lemma outcome_newest:
  assumes "outcome_of t Backup_Job (filter (\<lambda>r. asked (bo_tenant r) \<and> bo_completed r \<noteq> None) rows) = Some x" and "asked t"
  shows "newest_backup t rows x"
  using latest_Some [OF assms(1) [unfolded outcome_of_def]] assms(2) by (auto simp: newest_backup_def list_all_iff)

text \<open>
  The backup a check of a tenant rests on: the newest of its own when it has one that finished, else the newest of the platform.
\<close>

definition applicable_backup :: "id_text \<Rightarrow> backup_outcome list \<Rightarrow> backup_outcome \<Rightarrow> bool" where
  "applicable_backup tenant rows x \<longleftrightarrow>
     newest_backup (parse_uuid tenant) rows x \<or>
     newest_backup None rows x \<and>
       list_all (\<lambda>y. bo_tenant y = parse_uuid tenant \<longrightarrow> bo_kind y = Backup_Job \<longrightarrow> bo_completed y = None) rows"

lemma backup_read_applicable:
  assumes "br_backup (backup_read_of (filter (\<lambda>r. (bo_tenant r = None \<or> bo_tenant r \<in> {parse_uuid tenant}) \<and> bo_completed r \<noteq> None) rows) pols tenant) = Some x"
  shows "applicable_backup tenant rows x"
proof (cases "outcome_of (parse_uuid tenant) Backup_Job
      (filter (\<lambda>r. (bo_tenant r = None \<or> bo_tenant r \<in> {parse_uuid tenant}) \<and> bo_completed r \<noteq> None) rows)")
  case (Some y)
  then have "x = y" using assms by (auto simp: backup_read_of_def Let_def first_given_def split: if_splits option.splits)
  with outcome_newest [OF Some] show ?thesis by (simp add: applicable_backup_def)
next
  case None
  then have "outcome_of None Backup_Job (filter (\<lambda>r. (bo_tenant r = None \<or> bo_tenant r \<in> {parse_uuid tenant}) \<and> bo_completed r \<noteq> None) rows) = Some x"
    using assms by (auto simp: backup_read_of_def Let_def first_given_def split: if_splits option.splits)
  moreover have "list_all (\<lambda>y. bo_tenant y = parse_uuid tenant \<longrightarrow> bo_kind y = Backup_Job \<longrightarrow> bo_completed y = None) rows"
    using None by (auto simp: outcome_of_def latest_None filter_empty_conv list_all_iff)
  ultimately show ?thesis using outcome_newest by (auto simp: applicable_backup_def)
qed

lemma fresh_read:
  assumes "sr_summary (read_backup_check_source now tables tenant) = Sum_Fresh_Success"
  shows "\<exists>outcomes policies x done. tables = Some (outcomes, policies) \<and>
    applicable_backup (case given_id tenant of None \<Rightarrow> platform_wide_sentinel | Some t \<Rightarrow> t) outcomes x \<and>
    bo_status x = Outcome_Success \<and> bo_completed x = Some done \<and> int now - int done \<le> 24 * 3600"
proof -
  define scope where "scope = (case given_id tenant of None \<Rightarrow> platform_wide_sentinel | Some t \<Rightarrow> t)"
  obtain outcomes policies where t: "tables = Some (outcomes, policies)"
    using assms by (cases tables) (auto simp: read_backup_check_source_def load_backup_status_map_def unavailable_read_def)
  define pols where "pols = filter (\<lambda>p. bp_tenant p = None \<or> bp_tenant p \<in> {parse_uuid scope}) policies"
  define read where "read = backup_read_of (filter (\<lambda>r. (bo_tenant r = None \<or> bo_tenant r \<in> {parse_uuid scope}) \<and> bo_completed r \<noteq> None) outcomes) pols scope"
  have "read_backup_check_source now tables tenant = build_read (build_backup_status (Some read) now)"
    by (simp add: read_backup_check_source_def load_backup_status_map_def Let_def t read_def pols_def flip: scope_def)
  then have "map_option bs_verdict (build_backup_status (Some read) now) = Some (Some Verdict_Success)"
    using assms by (auto simp: build_read_def classify_backup_status_def split: option.splits backup_verdict.splits)
  then obtain x where x: "br_backup read = Some x" "enforce_backup_freshness (bo_status x) (bo_completed x) now = Verdict_Success"
    by (auto simp: build_backup_status_def split: if_splits)
  from x(2) obtain d where "bo_status x = Outcome_Success" "bo_completed x = Some d" "int now - int d \<le> 24 * 3600"
    by (auto simp: enforce_backup_freshness_def older_than_def backup_freshness_window_def split: outcome_status.splits option.splits if_splits)
  with t backup_read_applicable [OF x(1) [unfolded read_def]] show ?thesis by (auto simp: scope_def)
qed

text \<open>
  C37: A governed check reports success only when it was carried out and, at its read, the backup that applies to the
  tenant had finished successfully at most 24 hours before: the newest finished backup of the tenant, or of the
  platform when the tenant has none that finished.
\<close>

theorem governed_success_rests_on_a_fresh_backup:
  assumes "governed_now probes (start, gate, t, finish) why tables q ps = (g, ps')" and "gr_state g = Gov_Succeeded"
  shows "gr_executed g \<and> (\<exists>outcomes policies x done. tables = Some (outcomes, policies) \<and>
    applicable_backup (case given_id (gq_tenant q) of None \<Rightarrow> platform_wide_sentinel | Some tid \<Rightarrow> tid) outcomes x \<and>
    bo_status x = Outcome_Success \<and> bo_completed x = Some done \<and> int t - int done \<le> 24 * 3600)"
proof -
  obtain sn st where run: "fst (complete_governed_backup_check (start, gate, t, finish) why sn tables q st) = g"
    using governed_now_answer [of probes "(start, gate, t, finish)" why tables q ps] assms(1) by simp
  then have passed: "binding_block q st = None" "preflight_blocks gate sn (seam_request_of q) st = []"
    using assms(2)
    by (auto simp: complete_governed_backup_check_def finish_blocked_def governed_answer_def evaluate_preflight_gate_def Let_def
        split: option.splits if_splits)
  note read = completed_read [OF passed, of start t finish why tables, unfolded run]
  then show ?thesis using fresh_read [of t tables "gq_tenant q"] assms(2) by simp
qed

section \<open>A governed check\<close>

definition sample_input :: exec_input where
  "sample_input = \<lparr>xi_approval = Some (Canonical 0), xi_type = Some ''backup.check'', xi_tenant = Some (Canonical 7), xi_state = None,
     xi_reason = Some ''r'', xi_key = Some ''x-1'', xi_mode = Some ''sync'', xi_correlation = None, xi_metadata = None\<rparr>"

definition sample_request :: exec_create where
  "sample_request = exec_input.extend sample_input \<lparr>xi_dry_run = Some (Canonical 2), xi_ack = True\<rparr>"

definition sample_governed :: governed_request where
  "sample_governed = \<lparr>gq_request = Some (Canonical 3), gq_approval = Some (Canonical 0), gq_tenant = Some (Canonical 7), gq_state = None,
     gq_dry_run = Some (Canonical 2), gq_ack = True, gq_key_digest = Some ''x-1'',
     gq_payload = Some (payload_digest id (Some (Canonical 0)) (Some ''backup.check'') (Some (Canonical 7)) None (Some ''u9'')),
     gq_caller = sample_caller ''u9'', gq_correlation = None\<rparr>"

definition sample_outcomes :: "backup_outcome list" where
  "sample_outcomes = [\<lparr>bo_tenant = None, bo_kind = Backup_Job, bo_status = Outcome_Success, bo_completed = Some 5, bo_bytes = Some 10, bo_failure = None\<rparr>]"

definition sample_check :: create_input where
  "sample_check = sample_create\<lparr>ci_type := Some ''backup.check'', ci_reason := Some ''r''\<rparr>"

definition sample_consent :: system_event where
  "sample_consent = Begin_Decide (sample_caller ''u2'') 2 (Canonical 0) ((sample_decision ''approve'' ''d'')\<lparr>di_reason := Some ''r''\<rparr>)"

definition sample_console :: "platform_call list" where
  "sample_console =
     map Approval_Step ([Begin_Create (sample_caller ''u1'') 1 sample_check (''backup.check'', Available, Read_Class), Advance 0, Advance 0, Advance 0] @
       alone sample_consent) @ [Dry_Run_Call (Some 5, Some 5) (sample_caller ''u9'') 10 sample_input]"

definition sample_probes :: probes where "sample_probes = (Some 5, Some 5)"

definition sample_platform :: platform_state where
  "sample_platform = fold (serve_platform id) sample_console (empty_platform id id)"

definition sample_recorded :: "exec_response \<times> platform_state" where
  "sample_recorded = record_now id sample_probes (sample_caller ''u9'') 20 sample_request sample_platform"

lemma sample_recorded_answer: "xs_result (fst sample_recorded) = Recorded"
  by code_simp

lemma sample_gate:
  "let ps = snd sample_recorded
   in binding_block sample_governed (ps_exec ps) = None \<and>
      preflight_blocks 31 (fst (resolve_now sample_probes 31 (Some (Canonical 0)) ps)) (seam_request_of sample_governed) (ps_exec ps) = []"
  by code_simp

lemma sample_read: "sr_summary (read_backup_check_source 32 (Some (sample_outcomes, [])) (gq_tenant sample_governed)) = Sum_Fresh_Success"
  by code_simp

definition sample_answer :: governed_result where
  "sample_answer = fst (governed_now sample_probes (30, 31, 32, 33) [] (Some (sample_outcomes, [])) sample_governed (snd sample_recorded))"

lemma sample_executed: "gr_executed sample_answer" "gr_state sample_answer = Gov_Succeeded"
proof -
  let ?ps = "snd sample_recorded"
  note gate = sample_gate [unfolded Let_def]
  note read = completed_read [OF gate [THEN conjunct1] gate [THEN conjunct2], of 30 32 33 "[]" "Some (sample_outcomes, [])"]
  have "gq_approval sample_governed = Some (Canonical 0)" by (simp add: sample_governed_def)
  then have answer: "sample_answer = fst (complete_governed_backup_check (30, 31, 32, 33) []
      (fst (resolve_now sample_probes 31 (Some (Canonical 0)) ?ps)) (Some (sample_outcomes, [])) sample_governed (ps_exec ?ps))"
    using gate by (simp add: sample_answer_def governed_now_answer)
  show "gr_executed sample_answer" "gr_state sample_answer = Gov_Succeeded"
    unfolding answer read sample_read by simp_all
qed

lemma sample_platform_run: "snd sample_recorded = fold (serve_platform id) [Record_Call sample_probes (sample_caller ''u9'') 20 sample_request] sample_platform"
  by (simp add: sample_recorded_def)

theorem governed_execution_needs_approval_witness:
  "\<exists>u b. platform_ballot u (snd sample_recorded) = Some b \<and> sound_ballot b \<and> bl_state b = Approved_Blocked \<and>
     outsider (cl_actor (gq_caller sample_governed)) b"
  using governed_execution_needs_approval [of id id "snd sample_recorded" id "sample_console @ [Record_Call sample_probes (sample_caller ''u9'') 20 sample_request]"
      sample_probes "(30, 31, 32, 33)" "[]" "Some (sample_outcomes, [])" sample_governed, OF inj_on_id inj_on_id _ prod.collapse [symmetric]]
    sample_executed(1) sample_platform_run
  by (simp add: sample_answer_def sample_platform_def) blast

theorem governed_success_rests_on_a_fresh_backup_witness:
  "\<exists>x. applicable_backup (Canonical 7) sample_outcomes x \<and> bo_status x = Outcome_Success"
  using governed_success_rests_on_a_fresh_backup [of sample_probes 30 31 32 33 "[]" "Some (sample_outcomes, [])" sample_governed "snd sample_recorded",
      OF prod.collapse [symmetric]] sample_executed(2)
  by (auto simp: sample_answer_def sample_governed_def given_id_def uuid_text_def Let_def uuid_hex_def split: if_splits)

theorem execution_key_stands_for_one_request_witness:
  "fst (record_now id sample_probes (sample_caller ''u9'') 25 sample_request (snd sample_recorded)) = fst sample_recorded"
proof -
  have key: "stripped (xi_key sample_request) \<noteq> []" by code_simp
  have run: "record_now id sample_probes (sample_caller ''u9'') 20 sample_request (fold (serve_platform id) sample_console (empty_platform id id)) =
      (fst sample_recorded, snd sample_recorded)"
    by (simp add: sample_recorded_def sample_platform_def)
  have rest: "snd sample_recorded = fold (serve_platform id) [] (snd sample_recorded)" by simp
  show ?thesis
    using execution_key_stands_for_one_request [OF inj_on_id inj_on_id refl run sample_recorded_answer refl key rest prod.collapse [symmetric],
        where probes' = sample_probes and cl' = "sample_caller ''u9''" and now' = 25]
    by simp
qed

end
