(* ===== verification/Console_Contract.thy ===== *)
theory Console_Contract
  imports Governed_Contract
begin

text \<open>
  The platform console as a whole: requests for actions (\<open>p18\<close>) and approvals of them (\<open>p20\<close>, \<open>p21\<close>) look at the
  tenant registry (\<open>p17\<close>), executions (\<open>p22\<close>) at the approvals. What the registry cannot vouch for is never approved
  and never executed. A page of the registry says the same as the single reads.
\<close>

section \<open>Reads of the registry\<close>

lemma map_of_in_keys: "(k, v) \<in> set xs \<Longrightarrow> \<exists>v'. map_of xs k = Some v'"
  by (induction xs) auto

lemma map_of_image: "k \<in> set ids \<Longrightarrow> map_of (map (\<lambda>t. (t, f t)) ids) k = Some (f k)"
  by (induction ids) auto

text \<open>The journal rows and the backup rows asked for with others are those asked for alone.\<close>

lemma map_of_filter_key:
  "(\<And>r. r \<in> set rows \<Longrightarrow> key r = k \<Longrightarrow> P r \<longleftrightarrow> Q r) \<Longrightarrow>
   map_of (map (\<lambda>r. (key r, r)) (filter P rows)) k = map_of (map (\<lambda>r. (key r, r)) (filter Q rows)) k"
  by (induction rows) auto

lemma provisioning_alone:
  assumes "Canonical u \<in> set ids"
  shows "map_of (load_provisioning_map ids journal) (Canonical u) = map_of (load_provisioning_map [Canonical u] journal) (Canonical u)"
proof (cases journal)
  case (Some rows)
  have "Some u \<in> parse_uuid ` set ids" using assms by force
  then show ?thesis
    using Some map_of_filter_key [of rows "\<lambda>r. str_uuid (jn_tenant r)" "Canonical u" "\<lambda>r. Some (jn_tenant r) \<in> set (map parse_uuid ids)"
        "\<lambda>r. Some (jn_tenant r) \<in> set (map parse_uuid [Canonical u])"]
    by (simp add: load_provisioning_map_def str_uuid_def)
qed (simp add: load_provisioning_map_def)

lemma outcome_of_filter:
  "(\<And>r. r \<in> set rows \<Longrightarrow> bo_tenant r = t \<Longrightarrow> P r \<longleftrightarrow> Q r) \<Longrightarrow> outcome_of t k (filter P rows) = outcome_of t k (filter Q rows)"
  unfolding outcome_of_def filter_filter by (rule arg_cong [where f = latest], rule filter_cong) auto

lemma find_filter:
  "(\<And>p. p \<in> set ps \<Longrightarrow> bp_tenant p = t \<Longrightarrow> P p \<longleftrightarrow> Q p) \<Longrightarrow>
   find (\<lambda>p. bp_tenant p = t) (filter P ps) = find (\<lambda>p. bp_tenant p = t) (filter Q ps)"
  by (induction ps) auto

lemma backup_alone:
  assumes "Canonical u \<in> set ids"
  shows "Option.bind (load_backup_status_map ids tables) (\<lambda>m. map_of m (Canonical u)) =
    Option.bind (load_backup_status_map [Canonical u] tables) (\<lambda>m. map_of m (Canonical u))"
proof (cases tables)
  case (Some t)
  obtain outcomes policies where t: "t = (outcomes, policies)" by fastforce
  define among where "among = (\<lambda>s. s = None \<or> s \<in> set (map parse_uuid ids))"
  define alone where "alone = (\<lambda>s. s = None \<or> s \<in> set (map parse_uuid [Canonical u]))"
  have asked: "among s \<longleftrightarrow> alone s" if "s \<in> {None, Some u}" for s
    using assms that by (force simp: among_def alone_def)
  have "backup_read_of (filter (\<lambda>r. among (bo_tenant r) \<and> bo_completed r \<noteq> None) outcomes) (filter (\<lambda>p. among (bp_tenant p)) policies) (Canonical u) =
      backup_read_of (filter (\<lambda>r. alone (bo_tenant r) \<and> bo_completed r \<noteq> None) outcomes) (filter (\<lambda>p. alone (bp_tenant p)) policies) (Canonical u)"
    using outcome_of_filter [of outcomes _ "\<lambda>r. among (bo_tenant r) \<and> bo_completed r \<noteq> None" "\<lambda>r. alone (bo_tenant r) \<and> bo_completed r \<noteq> None"]
      find_filter [of policies _ "\<lambda>p. among (bp_tenant p)" "\<lambda>p. alone (bp_tenant p)"] asked
    by (simp add: backup_read_of_def Let_def)
  then have "map_of (map (\<lambda>tid. (tid, backup_read_of (filter (\<lambda>r. among (bo_tenant r) \<and> bo_completed r \<noteq> None) outcomes)
        (filter (\<lambda>p. among (bp_tenant p)) policies) tid)) ids) (Canonical u) =
      Some (backup_read_of (filter (\<lambda>r. alone (bo_tenant r) \<and> bo_completed r \<noteq> None) outcomes)
        (filter (\<lambda>p. alone (bp_tenant p)) policies) (Canonical u))"
    by (subst map_of_image [OF assms]) (rule arg_cong [where f = Some])
  moreover have "ids \<noteq> []" using assms by auto
  ultimately show ?thesis
    by (simp add: load_backup_status_map_def Let_def Some t among_def alone_def)
qed (use assms in \<open>auto simp: load_backup_status_map_def\<close>)

lemma registry_in_alone:
  assumes "su_id (summary_of w) \<in> set ids"
  shows "registry_in db now ids (summary_of w) = registry_in db now [su_id (summary_of w)] (summary_of w)"
proof -
  have id: "su_id (summary_of w) = Canonical (ws_id w)" by (simp add: summary_of_def str_uuid_def)
  show ?thesis
    unfolding registry_in_def id provisioning_alone [OF assms [unfolded id]] backup_alone [OF assms [unfolded id]] by (rule refl)
qed

text \<open>
  Every record on a page of the tenant registry is the one a read of that tenant by its id gives: the tables read for
  the whole page say of each tenant what they say when read for it alone.
\<close>

theorem registry_page_agrees_with_reads:
  assumes "pd_wholesalers db = Some rows" and "distinct (map ws_id rows)" and "r \<in> set (fst (list_tenant_registries now limit offset db))"
  shows "get_tenant_registry now db (rt_id r) = Some r"
proof -
  define page where "page = take limit (drop offset (sort_key (\<lambda>w. - int (ws_created w)) (filter (\<lambda>w. \<not> ws_deleted w) rows)))"
  have "fst (list_tenant_registries now limit offset db) = map (registry_in db now (map (su_id \<circ> summary_of) page)) (map summary_of page)"
    using assms(1) by (simp add: list_tenant_registries_def list_tenant_summaries_def Let_def page_def)
  then obtain w where w: "w \<in> set page" "r = registry_in db now (map (su_id \<circ> summary_of) page) (summary_of w)"
    using assms(3) by auto
  have alone: "r = registry_in db now [su_id (summary_of w)] (summary_of w)"
    unfolding w(2) by (rule registry_in_alone) (use w(1) in auto)
  have "w \<in> set rows" using w(1) by (auto simp: page_def dest!: in_set_takeD in_set_dropD)
  with assms(2) have "row_find ws_id (ws_id w) rows = Some w" by (rule row_find_unique)
  moreover have "rt_id r = str_uuid (ws_id w)" by (simp add: w(2) registry_in_def build_registry_def summary_of_def Let_def)
  ultimately show ?thesis using assms(1) alone by (simp add: get_tenant_registry_def get_tenant_summary_def)
qed


section \<open>What the registry does not vouch for\<close>

text \<open>The flags have no source of their own: an action on one is never looked up as available.\<close>

lemma platform_reader_flags: "platform_reader now db tid = Some rg \<Longrightarrow> rg_flags rg = Unavailable"
  by (auto simp: platform_reader_def get_tenant_registry_def registry_view_def registry_in_def build_registry_def
      build_operational_flags_def Let_def split: option.splits)

lemma flag_source: "t \<in> set flag_actions \<Longrightarrow> resolve_action_source_status (platform_reader now db) t tenant \<noteq> Available"
  using platform_reader_flags [of now db]
  by (auto simp: resolve_action_source_status_def action_source_status_def flag_actions_def lifecycle_actions_def split: option.splits)

definition context_closed :: "string \<times> source_status \<times> action_class \<Rightarrow> bool" where
  "context_closed ctx \<longleftrightarrow> fst ctx \<in> set flag_actions \<longrightarrow> fst (snd ctx) \<noteq> Available"

definition row_closed :: "request_row \<Rightarrow> bool" where
  "row_closed r \<longleftrightarrow> rq_type r \<noteq> [] \<and> (rq_type r \<in> set flag_actions \<longrightarrow> rq_validation r \<noteq> Valid \<and> rq_source r \<noteq> Source_Valid)"

definition rows_closed :: "approval_db \<Rightarrow> bool" where
  "rows_closed db \<longleftrightarrow> list_all row_closed (ad_requests db)"

lemma rows_closed_audits: "audits_only db db' \<Longrightarrow> rows_closed db' = rows_closed db"
  by (simp add: rows_closed_def audits_only_def)

lemma rows_closed_moves:
  assumes "moves_request db req s db'" and "rows_closed db"
  shows "rows_closed db'"
proof -
  obtain cur cur' where cur: "fetch_request (rq_id req) db = Some cur" "ad_requests db' = row_put rq_id cur' (ad_requests db)"
      "rq_type cur' = rq_type cur" "rq_validation cur' = rq_validation cur" "rq_source cur' = rq_source cur"
    using assms(1) by (auto simp: moves_request_def)
  then have "row_closed cur" using assms(2) by (auto simp: rows_closed_def list_all_iff fetch_request_def dest: row_find_Some)
  then have "row_closed cur'" by (simp add: row_closed_def cur)
  then show ?thesis using assms(2) cur(2) by (auto simp: rows_closed_def list_all_iff row_put_def)
qed

lemma sanitized_type: "t \<noteq> [] \<Longrightarrow> or_blank (sanitize_text (Some t)) \<noteq> []"
  "or_blank (sanitize_text (Some t)) \<in> set flag_actions \<Longrightarrow> or_blank (sanitize_text (Some t)) = t"
  by (auto simp: sanitize_text_def or_blank_def redacted_text_def flag_actions_def)

lemma rows_closed_open:
  assumes "open_request sha cl now inp maker ctx db = (r, db')" and "fst ctx \<noteq> []" and "context_closed ctx" and "rows_closed db"
  shows "rows_closed db'"
proof -
  obtain t source cls where ctx: "ctx = (t, source, cls)" by (cases ctx)
  have "validation_of source \<noteq> Valid \<and> source_status_map source \<noteq> Source_Valid" if "source \<noteq> Available"
    using that by (cases source) (simp_all add: validation_of_def source_status_map_def)
  then have new: "row_closed q" if "rq_type q = or_blank (sanitize_text (Some t))" "rq_validation q = validation_of source"
      "rq_source q = source_status_map source" for q
    using that assms(2,3) sanitized_type [of t] by (auto simp: row_closed_def context_closed_def ctx)
  have "ad_requests db' = ad_requests db \<or> (\<exists>q. ad_requests db' = ad_requests db @ [q] \<and> rq_type q = or_blank (sanitize_text (Some t)) \<and>
      rq_validation q = validation_of source \<and> rq_source q = source_status_map source)"
    using assms(1) unfolding open_request_def ctx Let_def
    by (auto simp: draw_approval_def audits_only_def split: sum.splits prod.splits if_splits dest!: emit_audit_Inr stored_action_draws)
  then show ?thesis using new assms(4) by (auto simp: rows_closed_def)
qed

lemma rows_closed_create:
  assumes "create_request sha cl now inp ctx seen numbered db = (r, db')" and "context_closed ctx" and "rows_closed db"
  shows "rows_closed db'"
proof (cases "\<not> create_refused cl now inp \<and> fst ctx \<noteq> [] \<and> bound_actor cl \<noteq> None \<and> seen = None")
  case True
  then obtain maker where "open_request sha cl now inp maker ctx db = (r, db')"
    using assms(1) by (auto simp: create_request_def Let_def)
  from rows_closed_open [OF this] show ?thesis using True assms(2,3) by simp
next
  case False
  then have "audits_only db db'"
    using assms(1) by (auto simp: create_request_def Let_def split: option.splits if_splits sum.splits prod.splits
        dest!: create_denied_audits emit_audit_Inr)
  then show ?thesis using assms(3) rows_closed_audits by blast
qed

lemma rows_closed_decision:
  assumes "submit_decision sha cl now aid inp reading numbered db = (r, db')" and closed: "rows_closed db"
  shows "rows_closed db'"
  using assms(1)
proof (rule submit_decision_cases)
  show "audits_only db db' \<Longrightarrow> ?thesis" using closed rows_closed_audits by simp
  show "ad_requests db' = ad_requests db \<Longrightarrow> ?thesis" using closed by (simp add: rows_closed_def)
qed (erule rows_closed_moves, rule closed)+

lemma rows_closed_read: "get_request now aid numbered db = (r, db') \<Longrightarrow> rows_closed db \<Longrightarrow> rows_closed db'"
  using get_request_audits rows_closed_audits by blast

fun flight_closed :: "flight \<Rightarrow> bool" where
  "flight_closed (Create_Start cl now inp ctx) = context_closed ctx"
| "flight_closed (Create_Looked cl now inp ctx seen) = context_closed ctx"
| "flight_closed (Create_Ready cl now inp ctx seen numbered) = context_closed ctx"
| "flight_closed _ = True"

definition system_closed :: "approval_system \<Rightarrow> bool" where
  "system_closed sy \<longleftrightarrow> rows_closed (sy_db sy) \<and> list_all flight_closed (sy_flights sy)"

lemma advance_closed:
  "flight_closed f \<Longrightarrow> advance sha f db = Inl f' \<Longrightarrow> flight_closed f'"
  "flight_closed f \<Longrightarrow> rows_closed db \<Longrightarrow> advance sha f db = Inr (r, db') \<Longrightarrow> rows_closed db'"
  by (cases f; auto intro: rows_closed_create rows_closed_decision rows_closed_read)+

fun opening_closed :: "system_event \<Rightarrow> bool" where
  "opening_closed (Begin_Create cl now inp ctx) = context_closed ctx"
| "opening_closed _ = True"

lemma serve_system_closed:
  assumes "system_closed sy" and "opening_closed e"
  shows "system_closed (serve_system sha e sy)"
proof (cases e)
  case (Advance i)
  show ?thesis
  proof (cases "i < length (sy_flights sy)")
    case True
    then have f: "flight_closed (sy_flights sy ! i)" using assms(1) by (auto simp: system_closed_def list_all_length)
    show ?thesis
    proof (cases "advance sha (sy_flights sy ! i) (sy_db sy)")
      case (Inl f')
      then show ?thesis
        using advance_closed(1) [OF f Inl] assms(1) True Advance
        by (auto simp: system_closed_def list_all_iff dest!: subsetD [OF set_update_subset_insert])
    next
      case (Inr rdb)
      then show ?thesis
        using advance_closed(2) [OF f, of "sy_db sy" sha "fst rdb" "snd rdb"] assms(1) True Advance
        by (auto simp: system_closed_def case_prod_beta list_all_iff dest: in_set_takeD in_set_dropD)
    qed
  qed (use assms Advance in simp)
qed (use assms in \<open>auto simp: system_closed_def\<close>)


section \<open>The console\<close>

record console_state =
  co_actions :: action_store
  co_platform :: platform_state

text \<open>
  The calls of the console. An approval transaction is begun with the context that the action store and the registry
  give at that moment; \<open>Proceed\<close> is the next step of one of those under way.
\<close>

datatype console_call =
    Ask nat platform_db bool action_input
  | Open_Approval caller nat create_input platform_db
  | Decide caller nat id_text decision_input
  | Look nat id_text
  | Proceed nat
  | Try_Run probes caller nat exec_input
  | Register probes caller nat exec_create
  | Carry_Out probes "nat \<times> nat \<times> nat \<times> nat" string "(backup_outcome list \<times> backup_policy list) option" governed_request

definition on_platform :: "(string \<Rightarrow> string) \<Rightarrow> platform_call \<Rightarrow> console_state \<Rightarrow> console_state" where
  "on_platform sha c co = co\<lparr>co_platform := serve_platform sha c (co_platform co)\<rparr>"

fun serve_console :: "(string \<Rightarrow> string) \<Rightarrow> console_call \<Rightarrow> console_state \<Rightarrow> console_state" where
  "serve_console sha (Ask now db persist inp) co =
     co\<lparr>co_actions := snd (evaluate_request sha (platform_reader now db) now persist inp (co_actions co))\<rparr>"
| "serve_console sha (Open_Approval cl now inp db) co =
     (case resolve_p18_context (co_actions co) (platform_reader now db) (ci_action inp) (ci_type inp) (ci_tenant inp) of
        None \<Rightarrow> co
      | Some ctx \<Rightarrow> on_platform sha (Approval_Step (Begin_Create cl now inp ctx)) co)"
| "serve_console sha (Decide cl now aid inp) co = on_platform sha (Approval_Step (Begin_Decide cl now aid inp)) co"
| "serve_console sha (Look now aid) co = on_platform sha (Approval_Step (Begin_Read now aid)) co"
| "serve_console sha (Proceed i) co = on_platform sha (Approval_Step (Advance i)) co"
| "serve_console sha (Try_Run probes cl now inp) co = on_platform sha (Dry_Run_Call probes cl now inp) co"
| "serve_console sha (Register probes cl now inp) co = on_platform sha (Record_Call probes cl now inp) co"
| "serve_console sha (Carry_Out probes clock why tables q) co = on_platform sha (Governed_Call probes clock why tables q) co"

definition empty_console :: "(nat \<Rightarrow> uuid) \<Rightarrow> (nat \<Rightarrow> uuid) \<Rightarrow> (nat \<Rightarrow> uuid) \<Rightarrow> console_state" where
  "empty_console actions approvals executions =
     \<lparr>co_actions = empty_store actions, co_platform = empty_platform approvals executions\<rparr>"

text \<open>No action on a flag was accepted, is recorded for execution, or has an approval that could pass.\<close>

definition actions_closed :: "action_store \<Rightarrow> bool" where
  "actions_closed st \<longleftrightarrow> list_all (\<lambda>(aid, rec). q_type rec \<notin> set flag_actions) (as_by_id st)"

definition requests_closed :: "exec_store \<Rightarrow> bool" where
  "requests_closed st \<longleftrightarrow> list_all (\<lambda>(i, r). xr_type r \<notin> Some ` set flag_actions) (es_requests st)"

definition console_ok :: "console_state \<Rightarrow> bool" where
  "console_ok co \<longleftrightarrow> actions_closed (co_actions co) \<and> platform_ok (co_platform co) \<and>
     system_closed (ps_approvals (co_platform co)) \<and> requests_closed (ps_exec (co_platform co))"

lemma flag_name: "sanitize_action_type t \<in> set flag_actions \<Longrightarrow> sanitize_action_type t = t"
  by (auto simp: sanitize_action_type_def redacted_text_def flag_actions_def split: if_splits)

lemma actions_closed_step:
  assumes "actions_closed st"
  shows "actions_closed (snd (evaluate_request sha (platform_reader now db) now' persist inp st))"
proof (cases "ip_type inp \<in> set flag_actions")
  case True
  then have "\<not> admissible (platform_reader now db) inp" using flag_source by (simp add: admissible_def)
  then show ?thesis using assms inadmissible_result by metis
next
  case False
  have update: "list_all (\<lambda>(aid, rec). q_type rec \<notin> set flag_actions) (AList.update k rec al)"
    if "list_all (\<lambda>(aid, rec). q_type rec \<notin> set flag_actions) al" "q_type rec = sanitize_action_type (ip_type inp)" for k rec al
    using that False flag_name [of "ip_type inp"] by (induction al) auto
  then have "actions_closed (snd (record_request sha now' Available inp st))"
    using assms by (auto simp: actions_closed_def record_request_def Let_def echo_request_def intro!: update)
  then show ?thesis
    using assms by (auto simp: evaluate_request_def Let_def split: option.splits)
qed

lemma context_closed_resolved:
  assumes "actions_closed st" and "resolve_p18_context st (platform_reader now db) action t tenant = Some ctx"
  shows "context_closed ctx"
  using assms flag_source [of _ now db tenant]
  by (auto simp: resolve_p18_context_def context_closed_def get_stored_request_def stored_response_def actions_closed_def list_all_iff
      split: option.splits if_splits dest!: map_of_SomeD)


lemma resolve_now_closed:
  "resolve_now probes now aid ps = (sn, ps') \<Longrightarrow> system_closed (ps_approvals ps) \<Longrightarrow> system_closed (ps_approvals ps')"
  by (auto simp: resolve_now_def Let_def system_closed_def rows_closed_audits split: prod.splits dest!: resolve_durable(1))

text \<open>No approval in a closed database lets an action on a flag pass.\<close>

lemma flag_blocked:
  assumes "fetch_request u db = Some req" and "rows_closed db" and "t \<in> set flag_actions"
  shows "fst (check_approval_preconditions (Some (snapshot_from_p20_record (build_record req ds Recorded now))) (Some t) actor tenant) \<noteq> []"
proof -
  have req: "row_closed req" using assms(1,2) by (auto simp: rows_closed_def list_all_iff fetch_request_def dest: row_find_Some)
  have t: "t \<noteq> []" "action_class_map t = Some Write_Class" using assms(3) by (auto simp: flag_actions_def action_class_map_def)
  have source: "p20_to_p22_source (durable_to_p20_source_status (rq_source req)) \<noteq> Src_Known" if "rq_source req \<noteq> Source_Valid"
    using that by (cases "rq_source req") (simp_all add: p20_to_p22_source_def durable_to_p20_source_status_def)
  show ?thesis
    using req t source assms(3)
    by (auto simp: check_approval_preconditions_def snapshot_from_p20_record_def build_record_def given_def or_blank_def row_closed_def)
qed

lemma requests_closed_record:
  assumes run: "record_execution_request sha cl now sn inp st = (resp, st')" and closed: "requests_closed st"
    and sn: "\<And>t. t \<in> set flag_actions \<Longrightarrow> fst (check_approval_preconditions sn (Some t) (cl_actor cl) (xi_tenant inp)) \<noteq> []"
  shows "requests_closed st'"
  using run
proof (rule record_request_cases)
  assume blocks: "request_blocks cl now sn inp st = []"
    and req: "es_requests st' = AList.update (Canonical (es_uuids st (es_drawn st))) (new_exec_request sha cl now inp st) (es_requests st)"
  obtain t where t: "xi_type inp = Some t" "t \<in> set allowed_action_types"
    using blocks classify_action_Nil [of "xi_type inp"] by (auto simp: request_blocks_def)
  have "t \<notin> set flag_actions" using blocks sn [of t] t by (auto simp: request_blocks_def)
  then have "xr_type (new_exec_request sha cl now inp st) \<notin> Some ` set flag_actions"
    using t safe_allowed by (auto simp: new_exec_request_def)
  then have "list_all (\<lambda>(i, r). xr_type r \<notin> Some ` set flag_actions) (AList.update i (new_exec_request sha cl now inp st) al)"
    if "list_all (\<lambda>(i, r). xr_type r \<notin> Some ` set flag_actions) al" for i al
    using that by (induction al) auto
  then show ?thesis using closed by (simp add: requests_closed_def req)
qed (use closed in \<open>simp_all add: requests_closed_def same_records_def\<close>)

lemma console_read_step:
  assumes "console_ok co" and "resolve_now probes now aid (co_platform co) = (sn, ps')" and "exec_ok st" and "requests_closed st"
  shows "console_ok (co\<lparr>co_platform := ps'\<lparr>ps_exec := st\<rparr>\<rparr>)"
  using assms resolve_now_closed [OF assms(2)] resolve_now_kept(2) [OF assms(2)] exec_update_kept(1) by (simp add: console_ok_def)

lemma console_approval_step:
  "console_ok co \<Longrightarrow> opening_closed e \<Longrightarrow> console_ok (on_platform sha (Approval_Step e) co)"
  using serve_system_closed platform_box.good_step [of "co_platform co" sha "Approval_Step e"] by (simp add: console_ok_def on_platform_def)

lemma same_closed: "same_records st st' \<Longrightarrow> requests_closed st \<Longrightarrow> requests_closed st'"
  by (simp add: same_records_def requests_closed_def)

lemma console_ok_step:
  assumes ok: "console_ok co"
  shows "console_ok (serve_console sha c co)"
proof -
  have ex: "exec_ok (ps_exec (co_platform co))" and closed: "requests_closed (ps_exec (co_platform co))"
    and rows: "rows_closed (sy_db (ps_approvals (co_platform co)))"
    using ok by (simp_all add: console_ok_def platform_ok_def system_closed_def)
  show ?thesis
  proof (cases c)
    case (Ask now db persist inp)
    then show ?thesis using ok actions_closed_step by (simp add: console_ok_def)
  next
    case (Open_Approval cl now inp db)
    show ?thesis
    proof (cases "resolve_p18_context (co_actions co) (platform_reader now db) (ci_action inp) (ci_type inp) (ci_tenant inp)")
      case (Some ctx)
      moreover have "context_closed ctx" using ok by (intro context_closed_resolved [OF _ Some]) (simp add: console_ok_def)
      ultimately show ?thesis using Open_Approval console_approval_step [OF ok] by simp
    qed (use ok Open_Approval in simp)
  next
    case (Try_Run probes cl now inp)
    obtain sn ps' where r: "resolve_now probes now (xi_approval inp) (co_platform co) = (sn, ps')" by fastforce
    note same = dry_run_same [of "ps_exec (co_platform co)" sha cl now sn inp]
    show ?thesis
      using console_read_step [OF ok r exec_ok_same [OF ex same] same_closed [OF same closed]] Try_Run r resolve_now_kept(1) [OF r]
      by (simp add: on_platform_def dry_run_now_def case_prod_beta)
  next
    case (Register probes cl now inp)
    obtain sn ps' where r: "resolve_now probes now (xi_approval inp) (co_platform co) = (sn, ps')" by fastforce
    obtain resp st where run: "record_execution_request sha cl now sn inp (ps_exec (co_platform co)) = (resp, st)" by fastforce
    have "fst (check_approval_preconditions sn (Some t) (cl_actor cl) (xi_tenant inp)) \<noteq> []" if "t \<in> set flag_actions" for t
    proof (cases sn)
      case (Some s)
      then show ?thesis using resolve_now_kept(4) [OF r Some] flag_blocked [OF _ rows that] by auto
    qed (simp add: check_approval_preconditions_def)
    then have "requests_closed st" by (rule requests_closed_record [OF run closed])
    then show ?thesis
      using console_read_step [OF ok r exec_ok_record [OF ex run]] Register r run resolve_now_kept(1) [OF r]
      by (simp add: on_platform_def record_now_def)
  next
    case (Carry_Out probes clock why tables q)
    show ?thesis
    proof (cases "binding_block q (ps_exec (co_platform co)) = None")
      case True
      obtain sn ps' where r: "resolve_now probes (fst (snd clock)) (gq_approval q) (co_platform co) = (sn, ps')" by fastforce
      note same = complete_same [of "ps_exec (co_platform co)" clock why sn tables q]
      show ?thesis
        using console_read_step [OF ok r exec_ok_same [OF ex same] same_closed [OF same closed]] Carry_Out True r resolve_now_kept(1) [OF r]
        by (simp add: on_platform_def governed_now_def case_prod_beta)
    next
      case False
      note same = complete_same [of "ps_exec (co_platform co)" clock why None tables q]
      show ?thesis
        using ok exec_update_kept(1) [OF _ exec_ok_same [OF ex same]] same_closed [OF same closed] Carry_Out False
        by (auto simp: console_ok_def on_platform_def governed_now_def case_prod_beta)
    qed
  qed (use console_approval_step [OF ok] in simp_all)
qed

lemma empty_console_ok: "inj actions \<Longrightarrow> inj approvals \<Longrightarrow> inj executions \<Longrightarrow> console_ok (empty_console actions approvals executions)"
  using empty_platform_ok [of approvals executions]
  by (simp add: console_ok_def empty_console_def actions_closed_def empty_store_def system_closed_def empty_platform_def empty_system_def
      rows_closed_def requests_closed_def)

lemma serve_console_platform:
  "co_platform (serve_console sha c co) = co_platform co \<or>
   (\<exists>pc. co_platform (serve_console sha c co) = serve_platform sha pc (co_platform co))"
  by (cases c) (auto simp: on_platform_def simp del: serve_platform.simps split: option.split)

definition console_ballot :: "uuid \<Rightarrow> console_state \<Rightarrow> ballot option" where
  "console_ballot u co = platform_ballot u (co_platform co)"

interpretation console_box: ballot_box console_ballot "serve_console sha" console_ok
proof unfold_locales
  fix co k c b
  assume ok: "console_ok co"
  then have plat: "platform_ok (co_platform co)" by (simp add: console_ok_def)
  show "console_ok (serve_console sha c co)" using ok by (rule console_ok_step)
  show "console_ballot k co = None \<Longrightarrow> console_ballot k (serve_console sha c co) = Some b \<Longrightarrow> fresh_ballot b"
    using serve_console_platform [of sha c co] platform_box.opened [OF plat] by (auto simp: console_ballot_def)
  show "console_ballot k co = Some b \<Longrightarrow> \<exists>b'. console_ballot k (serve_console sha c co) = Some b' \<and> ballot_move b b'"
    using serve_console_platform [of sha c co] platform_box.moved [OF plat] ballot_move.rest by (auto simp: console_ballot_def)
qed

lemma flag_not_approved:
  assumes ok: "console_ok co" and sound: "\<And>u b. console_ballot u co = Some b \<Longrightarrow> sound_ballot b"
    and r: "r \<in> set (ad_requests (sy_db (ps_approvals (co_platform co))))" and t: "rq_type r \<in> set flag_actions"
  shows "rq_state r \<noteq> Approved_Blocked"
proof -
  let ?db = "sy_db (ps_approvals (co_platform co))"
  have "store_ok ?db" and closed: "rows_closed ?db" using ok by (simp_all add: console_ok_def platform_ok_def system_ok_def system_closed_def)
  then have "fetch_request (rq_id r) ?db = Some r" using r by (simp add: fetch_request_def store_ok_def row_find_unique)
  then have "sound_ballot (row_ballot r (votes_on (rq_id r) ?db))"
    by (intro sound [of "rq_id r"]) (simp add: console_ballot_def platform_ballot_def system_ballot_def store_ballot_def)
  moreover have "rq_validation r \<noteq> Valid" using closed r t by (auto simp: rows_closed_def list_all_iff row_closed_def)
  ultimately show ?thesis by (auto simp: sound_ballot_def)
qed

lemma flag_not_executable:
  assumes "console_ok co" and "t \<in> set flag_actions"
  shows "\<not> xd_executable (fst (dry_run_now sha probes cl now (inp\<lparr>xi_type := Some t\<rparr>) (co_platform co)))"
proof -
  have rows: "rows_closed (sy_db (ps_approvals (co_platform co)))" using assms(1) by (simp add: console_ok_def system_closed_def)
  obtain sn ps' where r: "resolve_now probes now (xi_approval inp) (co_platform co) = (sn, ps')" by fastforce
  have "fst (check_approval_preconditions sn (Some t) (cl_actor cl) (xi_tenant inp)) \<noteq> []"
  proof (cases sn)
    case (Some s)
    then show ?thesis using resolve_now_kept(4) [OF r Some] flag_blocked [OF _ rows assms(2)] by auto
  qed (simp add: check_approval_preconditions_def)
  then show ?thesis using r by (simp add: dry_run_now_def evaluate_dry_run_def dry_run_blocks_def Let_def case_prod_beta)
qed

text \<open>
  C36: The operational flags of a tenant have no source, and nothing the console is sent gets past that: over any run of
  requests, approvals and executions, an action that writes a flag is refused whenever it is asked for, no request
  for it is ever approved, a dry run of it never passes, and none is recorded for execution.
\<close>

theorem flag_actions_stay_closed:
  assumes "inj actions" and "inj approvals" and "inj executions" and "t \<in> set flag_actions"
    and "co = fold (serve_console sha) cs (empty_console actions approvals executions)"
  shows "ar_result (fst (evaluate_request sha (platform_reader now db) now' persist (ask\<lparr>ip_type := t\<rparr>) (co_actions co))) \<in> {Act_Denied, Act_Degraded} \<and>
    list_all (\<lambda>r. \<not> (rq_type r = t \<and> rq_state r = Approved_Blocked)) (ad_requests (sy_db (ps_approvals (co_platform co)))) \<and>
    \<not> xd_executable (fst (dry_run_now sha probes cl now' (inp\<lparr>xi_type := Some t\<rparr>) (co_platform co))) \<and>
    list_all (\<lambda>(i, r). xr_type r \<noteq> Some t) (es_requests (ps_exec (co_platform co)))"
proof (intro conjI)
  have empty: "console_ok (empty_console actions approvals executions)" using assms(1-3) by (rule empty_console_ok)
  then have ok: "console_ok co" unfolding assms(5) by (rule console_box.run_good)
  have sound: "sound_ballot b" if "console_ballot u co = Some b" for u b
    using empty _ that [unfolded assms(5)]
    by (rule console_box.run_sound) (simp add: console_ballot_def platform_ballot_def system_ballot_def empty_console_def empty_platform_def
        empty_system_def store_ballot_def fetch_request_def row_find_def)
  show "ar_result (fst (evaluate_request sha (platform_reader now db) now' persist (ask\<lparr>ip_type := t\<rparr>) (co_actions co))) \<in> {Act_Denied, Act_Degraded}"
    using flag_source [OF assms(4)] by (intro inadmissible_result [THEN conjunct2]) (simp add: admissible_def)
  show "list_all (\<lambda>r. \<not> (rq_type r = t \<and> rq_state r = Approved_Blocked)) (ad_requests (sy_db (ps_approvals (co_platform co))))"
    using flag_not_approved [OF ok sound] assms(4) by (auto simp: list_all_iff)
  show "\<not> xd_executable (fst (dry_run_now sha probes cl now' (inp\<lparr>xi_type := Some t\<rparr>) (co_platform co)))"
    using ok assms(4) by (rule flag_not_executable)
  show "list_all (\<lambda>(i, r). xr_type r \<noteq> Some t) (es_requests (ps_exec (co_platform co)))"
    using ok assms(4) by (auto simp: console_ok_def requests_closed_def list_all_iff)
qed

section \<open>Samples\<close>

definition sample_wholesaler :: wholesaler_row where
  "sample_wholesaler = \<lparr>ws_id = 7, ws_name = ''w'', ws_status = Some ''active'', ws_created = 1, ws_deleted = False\<rparr>"

definition sample_platform_db :: platform_db where
  "sample_platform_db = \<lparr>pd_wholesalers = Some [sample_wholesaler, sample_wholesaler\<lparr>ws_id := 8, ws_created := 2\<rparr>],
     pd_journal = Some [\<lparr>jn_tenant = 7, jn_status = ''failed'', jn_activated = None\<rparr>], pd_backups = Some (sample_outcomes, [])\<rparr>"

theorem registry_page_agrees_with_reads_witness:
  "map (\<lambda>r. get_tenant_registry 9 sample_platform_db (rt_id r)) (fst (list_tenant_registries 9 10 0 sample_platform_db)) =
     map Some (fst (list_tenant_registries 9 10 0 sample_platform_db)) \<and>
   map rt_id (fst (list_tenant_registries 9 10 0 sample_platform_db)) = [Canonical 8, Canonical 7]"
proof
  show "map (\<lambda>r. get_tenant_registry 9 sample_platform_db (rt_id r)) (fst (list_tenant_registries 9 10 0 sample_platform_db)) =
     map Some (fst (list_tenant_registries 9 10 0 sample_platform_db))"
    using registry_page_agrees_with_reads [of sample_platform_db "[sample_wholesaler, sample_wholesaler\<lparr>ws_id := 8, ws_created := 2\<rparr>]" _ 9 10 0]
    by (simp add: sample_platform_db_def sample_wholesaler_def)
  show "map rt_id (fst (list_tenant_registries 9 10 0 sample_platform_db)) = [Canonical 8, Canonical 7]" by code_simp
qed

definition sample_flag_run :: "console_call list" where
  "sample_flag_run = [Open_Approval (sample_caller ''u1'') 1 (sample_create\<lparr>ci_type := Some ''incident.flag_set'', ci_reason := Some ''r''\<rparr>) sample_platform_db,
     Proceed 0, Proceed 0, Proceed 0]"

lemma sample_flag_request:
  "map (\<lambda>r. (rq_type r, rq_state r)) (ad_requests (sy_db (ps_approvals (co_platform (fold (serve_console id) sample_flag_run (empty_console id id id)))))) =
     [(''incident.flag_set'', Pending_Review)]"
  by code_simp

theorem flag_actions_stay_closed_witness:
  "\<not> xd_executable (fst (dry_run_now id sample_probes (sample_caller ''u9'') 2 (sample_input\<lparr>xi_type := Some ''incident.flag_set''\<rparr>)
     (co_platform (fold (serve_console id) sample_flag_run (empty_console id id id)))))"
proof -
  have "''incident.flag_set'' \<in> set flag_actions" by (simp add: flag_actions_def)
  from flag_actions_stay_closed [OF inj_on_id inj_on_id inj_on_id this refl] show ?thesis by blast
qed

end
