(* ===== verification/Print_Documents.thy ===== *)
theory Print_Documents
  imports Receivables
begin

text \<open>
  The printable documents of the order-to-cash code (\<open>services/print_service.py\<close>, contracts A to C, with
  their routes in \<open>api/v1\<close>): an order, a payment declaration and the receipt of a confirmed declaration.
  All of them are reads. Names of businesses (\<open>public.wholesalers\<close>, \<open>public.retailers\<close>) are an argument;
  the fixed notice texts and the clock columns are left out of the views.
\<close>

section \<open>Names and statuses\<close>

text \<open>The optional name of each known wholesaler and retailer.\<close>

record name_book =
  n_wholesalers :: directory
  n_retailers :: directory

definition safe_name :: "string option \<Rightarrow> string \<Rightarrow> string" where
  "safe_name value fallback =
     (case value of None \<Rightarrow> fallback
      | Some s \<Rightarrow> (let cleaned = strip s in if cleaned = [] then fallback else cleaned))"

definition resolve_business_names :: "name_book \<Rightarrow> uuid \<Rightarrow> uuid \<Rightarrow> string \<times> string" where
  "resolve_business_names book ws ret =
     (safe_name (case n_wholesalers book ws of None \<Rightarrow> None | Some n \<Rightarrow> n) ''Supplier'',
      safe_name (case n_retailers book ret of None \<Rightarrow> None | Some n \<Rightarrow> n) ''Retailer'')"

definition binding_active :: "store \<Rightarrow> uuid \<Rightarrow> uuid \<Rightarrow> bool" where
  "binding_active db ws ret =
     (case find (\<lambda>b. b_wholesaler b = ws \<and> b_retailer b = ret \<and> \<not> b_deleted b) (t_bindings db) of
        None \<Rightarrow> False | Some b \<Rightarrow> b_status b = Binding_Active)"

fun map_order_status_for_client :: "order_state \<Rightarrow> string" where
  "map_order_status_for_client DRAFT = ''CREATED''"
| "map_order_status_for_client CONFIRMED = ''CONFIRMED''"
| "map_order_status_for_client PARTIALLY_PAID = ''CONFIRMED''"
| "map_order_status_for_client PAID = ''CONFIRMED''"
| "map_order_status_for_client FULFILLED = ''DELIVERED''"
| "map_order_status_for_client CANCELLED = ''CANCELLED''"
| "map_order_status_for_client VOIDED = ''CANCELLED''"
| "map_order_status_for_client RETURNED = ''RETURNED''"

section \<open>Contract A: the order document\<close>

record print_item =
  pi_product_name :: string
  pi_sku_code :: string
  pi_quantity :: int
  pi_unit_price :: money
  pi_subtotal :: money

record order_print =
  po_order :: uuid
  po_status :: string
  po_supplier_name :: string
  po_retailer_name :: string
  po_items :: "print_item list"
  po_total :: money
  po_item_count :: nat
  po_notes :: "string option"

definition build_order_print :: "name_book \<Rightarrow> order_row option \<Rightarrow> uuid \<Rightarrow> uuid \<Rightarrow> order_print option" where
  "build_order_print book found ws ret =
     (case found of None \<Rightarrow> None
      | Some ord \<Rightarrow>
         (let (supplier, retailer) = resolve_business_names book ws ret;
              items = map (\<lambda>i. \<lparr>pi_product_name = i_product_name i, pi_sku_code = i_sku_code i, pi_quantity = i_quantity i,
                               pi_unit_price = i_unit_price i, pi_subtotal = i_subtotal i\<rparr>) (o_items ord)
          in Some \<lparr>po_order = o_id ord, po_status = map_order_status_for_client (o_status ord), po_supplier_name = supplier,
                   po_retailer_name = retailer, po_items = items, po_total = o_total ord,
                   po_item_count = length items, po_notes = o_notes ord\<rparr>))"

text \<open>
  The supplier's route derives the wholesaler from the token, the client's route both ids from the
  resolved identity. The retailer column is not null, so the supplier's check of it never fires.
\<close>

definition print_order :: "name_book \<Rightarrow> id_text \<Rightarrow> id_text \<Rightarrow> store \<Rightarrow> error + order_print" where
  "print_order book order_id tenant db =
     (case parse_uuid tenant of
        None \<Rightarrow> Inl (Http 404 ORDER_NOT_FOUND)
      | Some ws \<Rightarrow>
         (case get_order_for_wholesaler db order_id (str_uuid ws) of
            None \<Rightarrow> Inl (Http 404 ORDER_NOT_FOUND)
          | Some ord \<Rightarrow>
             if \<not> binding_active db ws (o_retailer ord) then Inl (Http 404 ORDER_NOT_FOUND)
             else (case build_order_print book (Some ord) ws (o_retailer ord) of
                     None \<Rightarrow> Inl (Http 404 ORDER_NOT_FOUND) | Some v \<Rightarrow> Inr v)))"

definition print_client_order :: "name_book \<Rightarrow> id_text \<Rightarrow> uuid \<Rightarrow> uuid \<Rightarrow> store \<Rightarrow> error + order_print" where
  "print_client_order book order_id tenant ret db =
     (case get_order_for_retailer db order_id (str_uuid tenant) (str_uuid ret) of
        None \<Rightarrow> Inl (Http 404 ORDER_NOT_FOUND)
      | Some ord \<Rightarrow> (case build_order_print book (Some ord) tenant ret of
                      None \<Rightarrow> Inl (Http 404 ORDER_NOT_FOUND) | Some v \<Rightarrow> Inr v))"

section \<open>Contract B: the declaration document\<close>

datatype declaration_notice = Pending_Notice | Rejected_Notice

record declaration_print =
  pd_declaration :: uuid
  pd_order :: uuid
  pd_supplier_name :: string
  pd_retailer_name :: string
  pd_status :: declaration_status
  pd_amount :: money
  pd_method :: pay_method
  pd_transfer_reference :: "string option"
  pd_is_receipt :: bool
  pd_notice :: "declaration_notice option"
  pd_rejection_reason :: "string option"
  pd_order_status :: "string option"

text \<open>The joined row carries the order's own status, which the document prints as it is stored.\<close>

definition build_declaration_print ::
  "name_book \<Rightarrow> declaration_detail option \<Rightarrow> bool \<Rightarrow> declaration_print option" where
  "build_declaration_print book found receipt_eligible =
     (case found of None \<Rightarrow> None
      | Some (d, joined_status, receipt) \<Rightarrow>
         (let (supplier, retailer) = resolve_business_names book (d_wholesaler d) (d_retailer d)
          in if d_status d = Decl_Confirmed \<and> \<not> receipt_eligible then None
             else Some \<lparr>pd_declaration = d_id d, pd_order = d_order d, pd_supplier_name = supplier, pd_retailer_name = retailer,
                  pd_status = d_status d, pd_amount = d_amount d, pd_method = d_method d,
                  pd_transfer_reference = d_transfer_reference d,
                  pd_is_receipt = (d_status d = Decl_Confirmed \<and> receipt_eligible),
                  pd_notice = (case d_status d of Decl_Pending \<Rightarrow> Some Pending_Notice
                     | Decl_Rejected \<Rightarrow> Some Rejected_Notice | Decl_Confirmed \<Rightarrow> None),
                  pd_rejection_reason = (if d_status d = Decl_Rejected
                     then map_option strip (blank_to_none (d_reason d)) else None),
                  pd_order_status = map_option state_value joined_status\<rparr>))"

section \<open>Contract C: the receipt\<close>

text \<open>
  The ids of a joined row are UUIDs already, so parsing them back from their text succeeds.
\<close>

definition check_receipt_eligibility :: "store \<Rightarrow> declaration_detail option \<Rightarrow> uuid \<Rightarrow> bool" where
  "check_receipt_eligibility db found ws =
     (case found of None \<Rightarrow> False
      | Some (d, _, _) \<Rightarrow>
         d_status d = Decl_Confirmed \<and>
         (case d_payment d of None \<Rightarrow> False
          | Some pid \<Rightarrow>
             (case get_by_id db pid of None \<Rightarrow> False
              | Some p \<Rightarrow>
                 p_status p = Completed \<and> p_order p = d_order d \<and> p_retailer p = d_retailer d \<and>
                 p_receipt p \<noteq> None \<and> p_receipt p \<noteq> Some '''' \<and> is_valid_receipt_number (p_receipt p) \<and>
                 binding_active db ws (d_retailer d) \<and>
                 (case get_order_for_wholesaler db (str_uuid (d_order d)) (str_uuid ws) of
                    None \<Rightarrow> False | Some ord \<Rightarrow> o_retailer ord = d_retailer d))))"

record receipt_print =
  rp_declaration :: uuid
  rp_order_id :: uuid
  rp_supplier_name :: string
  rp_retailer_name :: string
  rp_receipt_number :: "string option"
  rp_confirmed_amount :: money
  rp_method :: pay_method
  rp_declared_amount :: money
  rp_order_status :: string
  rp_order_total :: money

definition build_receipt_print ::
  "name_book \<Rightarrow> declaration_detail option \<Rightarrow> payment_row option \<Rightarrow> order_row option \<Rightarrow> uuid \<Rightarrow> receipt_print option" where
  "build_receipt_print book found payment order ws =
     (case (found, payment, order) of
        (Some (d, _, _), Some p, Some ord) \<Rightarrow>
          if o_wholesaler ord \<noteq> ws then None
          else if o_retailer ord \<noteq> d_retailer d then None
          else (let (supplier, retailer) = resolve_business_names book ws (d_retailer d)
                in Some \<lparr>rp_declaration = d_id d, rp_order_id = d_order d, rp_supplier_name = supplier,
                     rp_retailer_name = retailer, rp_receipt_number = p_receipt p, rp_confirmed_amount = p_amount p,
                     rp_method = p_method p, rp_declared_amount = d_amount d,
                     rp_order_status = map_order_status_for_client (o_status ord), rp_order_total = o_total ord\<rparr>)
      | _ \<Rightarrow> None)"

section \<open>Routes of declarations and receipts\<close>

definition print_declaration :: "name_book \<Rightarrow> id_text \<Rightarrow> uuid \<Rightarrow> store \<Rightarrow> error + declaration_print" where
  "print_declaration book declaration_id ws db =
     (case parse_uuid declaration_id of
        None \<Rightarrow> Inl (Http 404 DECLARATION_NOT_FOUND)
      | Some did \<Rightarrow>
         (case get_detail_by_wholesaler db did ws of
            None \<Rightarrow> Inl (Http 404 DECLARATION_NOT_FOUND)
          | Some row \<Rightarrow>
             if \<not> binding_active db ws (d_retailer (fst row)) then Inl (Http 404 DECLARATION_NOT_FOUND)
             else (case build_declaration_print book (Some row) (check_receipt_eligibility db (Some row) ws) of
                     None \<Rightarrow> Inl (Http 404 DECLARATION_NOT_FOUND) | Some v \<Rightarrow> Inr v)))"

definition get_receipt :: "name_book \<Rightarrow> id_text \<Rightarrow> uuid \<Rightarrow> store \<Rightarrow> error + receipt_print" where
  "get_receipt book declaration_id ws db =
     (case parse_uuid declaration_id of
        None \<Rightarrow> Inl (Http 404 RECEIPT_NOT_AVAILABLE)
      | Some did \<Rightarrow>
         (case get_detail_by_wholesaler db did ws of
            None \<Rightarrow> Inl (Http 404 RECEIPT_NOT_AVAILABLE)
          | Some row \<Rightarrow>
             if \<not> check_receipt_eligibility db (Some row) ws then Inl (Http 404 RECEIPT_NOT_AVAILABLE)
             else (case build_receipt_print book (Some row)
                     (case d_payment (fst row) of None \<Rightarrow> None | Some pid \<Rightarrow> get_by_id db pid)
                     (get_order_for_wholesaler db (str_uuid (d_order (fst row))) (str_uuid ws)) ws of
                     None \<Rightarrow> Inl (Http 404 RECEIPT_NOT_AVAILABLE) | Some v \<Rightarrow> Inr v)))"

definition print_client_declaration ::
  "name_book \<Rightarrow> id_text \<Rightarrow> uuid \<Rightarrow> uuid \<Rightarrow> store \<Rightarrow> error + declaration_print" where
  "print_client_declaration book declaration_id ret ws db =
     (case parse_uuid declaration_id of
        None \<Rightarrow> Inl (Http 404 DECLARATION_NOT_FOUND)
      | Some did \<Rightarrow>
         (case get_detail_by_retailer db did ret ws of
            None \<Rightarrow> Inl (Http 404 DECLARATION_NOT_FOUND)
          | Some row \<Rightarrow>
             (case build_declaration_print book (Some row) (check_receipt_eligibility db (Some row) ws) of
                None \<Rightarrow> Inl (Http 404 DECLARATION_NOT_FOUND) | Some v \<Rightarrow> Inr v)))"

definition get_client_receipt :: "name_book \<Rightarrow> id_text \<Rightarrow> uuid \<Rightarrow> uuid \<Rightarrow> store \<Rightarrow> error + receipt_print" where
  "get_client_receipt book declaration_id ret ws db =
     (case parse_uuid declaration_id of
        None \<Rightarrow> Inl (Http 404 RECEIPT_NOT_AVAILABLE)
      | Some did \<Rightarrow>
         (case get_detail_by_retailer db did ret ws of
            None \<Rightarrow> Inl (Http 404 RECEIPT_NOT_AVAILABLE)
          | Some row \<Rightarrow>
             if \<not> check_receipt_eligibility db (Some row) ws then Inl (Http 404 RECEIPT_NOT_AVAILABLE)
             else (case build_receipt_print book (Some row)
                     (case d_payment (fst row) of None \<Rightarrow> None | Some pid \<Rightarrow> get_by_id db pid)
                     (get_order_for_retailer db (str_uuid (d_order (fst row))) (str_uuid ws) (str_uuid ret)) ws of
                     None \<Rightarrow> Inl (Http 404 RECEIPT_NOT_AVAILABLE) | Some v \<Rightarrow> Inr v)))"

end
