(* ===== verification/Statements.thy ===== *)
theory Statements
  imports Print_Documents
begin

text \<open>
  The relationship account statement (contract D): its date range and read queries
  (\<open>repositories/statement_repository.py\<close>), its assembly (\<open>build_statement_print\<close> of
  \<open>services/print_service.py\<close>), and the mapping to HTTP shared by the supplier's and the retailer's
  route (\<open>api/v1/statement_http.py\<close>). Instants are seconds since the first representable instant,
  0001-01-01T00:00:00 UTC. The creation times of payments are not columns of the model's rows: they
  are an argument, by payment id. Descriptions of ledger entries are left out.
\<close>

section \<open>Calendar days\<close>

datatype date = Date (year: nat) (month: nat) (day: nat)

definition leap_year :: "nat \<Rightarrow> bool" where
  "leap_year y \<longleftrightarrow> y mod 4 = 0 \<and> (y mod 100 \<noteq> 0 \<or> y mod 400 = 0)"

definition days_in_month :: "nat \<Rightarrow> nat \<Rightarrow> nat" where
  "days_in_month y m = (if m = 2 then (if leap_year y then 29 else 28) else if m \<in> {4, 6, 9, 11} then 30 else 31)"

fun valid_date :: "date \<Rightarrow> bool" where
  "valid_date (Date y m d) \<longleftrightarrow> 1 \<le> y \<and> y \<le> 9999 \<and> 1 \<le> m \<and> m \<le> 12 \<and> 1 \<le> d \<and> d \<le> days_in_month y m"

text \<open>\<open>date.toordinal\<close>: the first of January of year 1 is day 1.\<close>

fun toordinal :: "date \<Rightarrow> nat" where
  "toordinal (Date y m d) =
     (y - 1) * 365 + (y - 1) div 4 - (y - 1) div 100 + (y - 1) div 400 + (\<Sum>k\<leftarrow>[1..<m]. days_in_month y k) + d"

fun before :: "date \<Rightarrow> date \<Rightarrow> bool" where
  "before (Date y m d) (Date y' m' d') \<longleftrightarrow> y < y' \<or> y = y' \<and> (m < m' \<or> m = m' \<and> d < d')"

section \<open>The date range\<close>

text \<open>\<open>StatementPeriodError\<close>, or the \<open>OverflowError\<close> of date arithmetic, which no caller catches.\<close>

datatype period_failure = Period_Error | Date_Overflow

definition eat_offset :: nat where "eat_offset = 10800"
definition max_span_days :: nat where "max_span_days = 365"

text \<open>Midnight of a day at UTC+3, in UTC.\<close>

definition eat_midnight_utc :: "date \<Rightarrow> period_failure + nat" where
  "eat_midnight_utc d =
     (let local = (toordinal d - 1) * 86400 in if local < eat_offset then Inl Date_Overflow else Inr (local - eat_offset))"

definition eat_date_range_to_utc_half_open :: "date \<Rightarrow> date \<Rightarrow> period_failure + (nat \<times> nat)" where
  "eat_date_range_to_utc_half_open date_from date_to =
     (if before date_to date_from then Inl Period_Error
      else if toordinal date_to - toordinal date_from + 1 > max_span_days then Inl Period_Error
      else bindE (eat_midnight_utc date_from) (\<lambda>start_utc.
           bindE (eat_midnight_utc date_to) (\<lambda>last_utc. Inr (start_utc, last_utc + 86400))))"

definition date_shape :: "string \<Rightarrow> bool" where
  "date_shape s \<longleftrightarrow> length s = 10 \<and> s ! 4 = CHR ''-'' \<and> s ! 7 = CHR ''-'' \<and>
     list_all is_ascii_digit (take 4 s) \<and> list_all is_ascii_digit (take 2 (drop 5 s)) \<and> list_all is_ascii_digit (drop 8 s)"

text \<open>\<open>strptime\<close> on a text of that shape.\<close>

definition strptime_date :: "string \<Rightarrow> date option" where
  "strptime_date s =
     (let d = Date (decimal_value (take 4 s)) (decimal_value (take 2 (drop 5 s))) (decimal_value (drop 8 s))
      in if valid_date d then Some d else None)"

definition raw_date_value :: "string option \<Rightarrow> period_failure + string" where
  "raw_date_value value =
     (case value of None \<Rightarrow> Inl Period_Error
      | Some s \<Rightarrow> if s = [] then Inl Period_Error
                  else if strip s = [] then Inl Period_Error
                  else if s \<noteq> strip s then Inl Period_Error else Inr s)"

definition parse_statement_date_range :: "string option \<Rightarrow> string option \<Rightarrow> period_failure + (date \<times> date)" where
  "parse_statement_date_range raw_from raw_to =
     bindE (raw_date_value raw_from) (\<lambda>f_raw.
     bindE (raw_date_value raw_to) (\<lambda>t_raw.
     if \<not> date_shape f_raw \<or> \<not> date_shape t_raw then Inl Period_Error
     else (case strptime_date f_raw of None \<Rightarrow> Inl Period_Error
           | Some date_from \<Rightarrow>
              (case strptime_date t_raw of None \<Rightarrow> Inl Period_Error
               | Some date_to \<Rightarrow>
                   bindE (eat_date_range_to_utc_half_open date_from date_to) (\<lambda>_. Inr (date_from, date_to))))))"

section \<open>Queries\<close>

definition statement_line_cap :: nat where "statement_line_cap = 1000"

text \<open>The receivable entries the statement is about, and the order each refers to.\<close>

definition statement_entry :: "ledger_row \<Rightarrow> bool" where
  "statement_entry l \<longleftrightarrow> l_account l = RECEIVABLE \<and> l_reference_type l \<in> {''order'', ''refund''}"

definition entry_of_pair :: "store \<Rightarrow> uuid \<Rightarrow> uuid \<Rightarrow> ledger_row \<Rightarrow> bool" where
  "entry_of_pair db ws ret l \<longleftrightarrow> statement_entry l \<and>
     (case row_find o_id (l_reference l) (t_orders db) of None \<Rightarrow> False
      | Some ord \<Rightarrow> o_wholesaler ord = ws \<and> o_retailer ord = ret)"

definition count_orphan_receivable_refs :: "store \<Rightarrow> nat" where
  "count_orphan_receivable_refs db =
     length (filter (\<lambda>l. statement_entry l \<and> row_find o_id (l_reference l) (t_orders db) = None) (t_ledger db))"

definition sum_receivable_before :: "store \<Rightarrow> uuid \<Rightarrow> uuid \<Rightarrow> nat \<Rightarrow> money" where
  "sum_receivable_before db ws ret before_utc =
     (\<Sum>l\<leftarrow>filter (\<lambda>l. entry_of_pair db ws ret l \<and> l_date l < before_utc) (t_ledger db). l_amount l)"

definition list_statement_movements :: "store \<Rightarrow> uuid \<Rightarrow> uuid \<Rightarrow> nat \<Rightarrow> nat \<Rightarrow> ledger_row list \<times> money" where
  "list_statement_movements db ws ret start_utc next_day_utc =
     (let rows = take (statement_line_cap + 1) (sort_key (\<lambda>l. (l_date l, l_id l))
            (filter (\<lambda>l. entry_of_pair db ws ret l \<and> start_utc \<le> l_date l \<and> l_date l < next_day_utc) (t_ledger db)))
      in (rows, \<Sum>l\<leftarrow>rows. l_amount l))"

definition sum_receivable_period :: "store \<Rightarrow> uuid \<Rightarrow> uuid \<Rightarrow> nat \<Rightarrow> nat \<Rightarrow> money" where
  "sum_receivable_period db ws ret start_utc next_day_utc =
     (\<Sum>l\<leftarrow>filter (\<lambda>l. entry_of_pair db ws ret l \<and> start_utc \<le> l_date l \<and> l_date l < next_day_utc) (t_ledger db). l_amount l)"

text \<open>A payment joined with its order, both of the pair.\<close>

definition payment_of_pair :: "store \<Rightarrow> uuid \<Rightarrow> uuid \<Rightarrow> payment_row \<Rightarrow> bool" where
  "payment_of_pair db ws ret p \<longleftrightarrow> p_retailer p = ret \<and> \<not> p_deleted p \<and> p_status p = Completed \<and>
     (case row_find o_id (p_order p) (t_orders db) of None \<Rightarrow> False
      | Some ord \<Rightarrow> o_retailer ord = ret \<and> o_wholesaler ord = ws)"

definition list_settled_payments ::
  "(uuid \<Rightarrow> nat) \<Rightarrow> store \<Rightarrow> uuid \<Rightarrow> uuid \<Rightarrow> nat \<Rightarrow> nat \<Rightarrow> payment_row list" where
  "list_settled_payments created db ws ret start_utc next_day_utc =
     take (statement_line_cap + 1) (sort_key (\<lambda>p. (created (p_id p), p_id p))
       (filter (\<lambda>p. payment_of_pair db ws ret p \<and> start_utc \<le> created (p_id p) \<and> created (p_id p) < next_day_utc)
         (t_payments db)))"

definition count_completed_payment_ownership_mismatch :: "store \<Rightarrow> uuid \<Rightarrow> uuid \<Rightarrow> nat" where
  "count_completed_payment_ownership_mismatch db ws ret =
     length (filter (\<lambda>p. p_status p = Completed \<and> \<not> p_deleted p \<and>
        (case row_find o_id (p_order p) (t_orders db) of
           None \<Rightarrow> p_retailer p = ret
         | Some ord \<Rightarrow> (p_retailer p = ret \<or> o_retailer ord = ret) \<and>
             (p_retailer p \<noteq> ret \<or> o_retailer ord \<noteq> ret \<or> o_wholesaler ord \<noteq> ws))) (t_payments db))"

definition list_pending_declarations :: "store \<Rightarrow> uuid \<Rightarrow> uuid \<Rightarrow> nat \<Rightarrow> nat \<Rightarrow> declaration_row list" where
  "list_pending_declarations db ws ret start_utc next_day_utc =
     take (statement_line_cap + 1) (sort_key (\<lambda>d. (d_submitted_at d, d_id d))
       (filter (\<lambda>d. d_wholesaler d = ws \<and> d_retailer d = ret \<and> d_status d \<in> {Decl_Pending, Decl_Rejected} \<and>
          start_utc \<le> d_submitted_at d \<and> d_submitted_at d < next_day_utc) (t_declarations db)))"

definition relationship_has_non_credit_payment :: "store \<Rightarrow> uuid \<Rightarrow> uuid \<Rightarrow> bool" where
  "relationship_has_non_credit_payment db ws ret =
     list_ex (\<lambda>p. payment_of_pair db ws ret p \<and> p_method p \<in> {Cash, Transfer}) (t_payments db)"

definition ledger_receivable_total :: "store \<Rightarrow> uuid \<Rightarrow> uuid \<Rightarrow> money" where
  "ledger_receivable_total db ws ret = (\<Sum>l\<leftarrow>filter (entry_of_pair db ws ret) (t_ledger db). l_amount l)"

definition cached_binding_balance :: "store \<Rightarrow> uuid \<Rightarrow> uuid \<Rightarrow> money option" where
  "cached_binding_balance db ws ret =
     map_option b_balance (find (\<lambda>b. b_wholesaler b = ws \<and> b_retailer b = ret \<and> \<not> b_deleted b \<and> b_status b = Binding_Active)
       (t_bindings db))"

section \<open>The document\<close>

datatype movement_kind = Charge | Collection

record statement_movement =
  sm_kind :: movement_kind
  sm_date :: nat
  sm_date_eat :: nat
  sm_signed :: money
  sm_display :: money
  sm_reference_type :: string
  sm_reference :: uuid

record statement_settled =
  ss_date :: nat
  ss_date_eat :: nat
  ss_order :: uuid
  ss_amount :: money
  ss_method :: pay_method
  ss_receipt :: "string option"

record statement_pending =
  sp_declaration :: uuid
  sp_order :: uuid
  sp_amount :: money
  sp_method :: pay_method
  sp_status :: declaration_status
  sp_submitted :: nat
  sp_submitted_eat :: nat
  sp_transfer_reference :: "string option"

record statement_view =
  st_supplier_name :: string
  st_retailer_name :: string
  st_from :: date
  st_to :: date
  st_opening :: money
  st_closing :: money
  st_charges :: money
  st_collections :: money
  st_net :: money
  st_settled_total :: money
  st_movements :: "statement_movement list"
  st_settled :: "statement_settled list"
  st_pending :: "statement_pending list"
  st_generated :: nat

datatype statement_error =
    Statement_Period_Error | Statement_Ledger_Scope_Incomplete | Statement_Internal_Inconsistent
  | Statement_Reconciliation_Failed | Statement_Range_Too_Large

datatype statement_result = View statement_view | Failed statement_error | Not_Found

definition to_eat :: "nat \<Rightarrow> nat" where
  "to_eat utc = utc + eat_offset"

definition movement_view :: "ledger_row \<Rightarrow> statement_movement" where
  "movement_view l =
     \<lparr>sm_kind = (if l_amount l > 0 then Charge else Collection), sm_date = l_date l, sm_date_eat = to_eat (l_date l),
      sm_signed = l_amount l, sm_display = \<bar>l_amount l\<bar>, sm_reference_type = l_reference_type l, sm_reference = l_reference l\<rparr>"

definition settled_view :: "(uuid \<Rightarrow> nat) \<Rightarrow> payment_row \<Rightarrow> statement_settled" where
  "settled_view created p =
     \<lparr>ss_date = created (p_id p), ss_date_eat = to_eat (created (p_id p)), ss_order = p_order p, ss_amount = p_amount p,
      ss_method = p_method p, ss_receipt = p_receipt p\<rparr>"

definition pending_view :: "declaration_row \<Rightarrow> statement_pending" where
  "pending_view d =
     \<lparr>sp_declaration = d_id d, sp_order = d_order d, sp_amount = d_amount d, sp_method = d_method d, sp_status = d_status d,
      sp_submitted = d_submitted_at d, sp_submitted_eat = to_eat (d_submitted_at d),
      sp_transfer_reference = d_transfer_reference d\<rparr>"

text \<open>Classification and reconciliation of a relationship (step 9).\<close>

definition reconciles :: "store \<Rightarrow> uuid \<Rightarrow> uuid \<Rightarrow> bool" where
  "reconciles db ws ret \<longleftrightarrow>
     (if relationship_has_non_credit_payment db ws ret then True
      else (case cached_binding_balance db ws ret of None \<Rightarrow> False
            | Some cached \<Rightarrow> \<not> \<bar>ledger_receivable_total db ws ret - cached\<bar> > 1 / 100))"

definition build_statement_print ::
  "name_book \<Rightarrow> (uuid \<Rightarrow> nat) \<Rightarrow> store \<Rightarrow> uuid \<Rightarrow> uuid \<Rightarrow> date \<Rightarrow> date \<Rightarrow> bool \<Rightarrow> error + statement_result" where
  "build_statement_print book created db ws ret date_from date_to include_pending =
     (case eat_date_range_to_utc_half_open date_from date_to of
        Inl Period_Error \<Rightarrow> Inr (Failed Statement_Period_Error)
      | Inl Date_Overflow \<Rightarrow> Inl OverflowError
      | Inr (start_utc, next_day_utc) \<Rightarrow> Inr (
          if \<not> binding_active db ws ret then Not_Found
          else if count_orphan_receivable_refs db > 0 then Failed Statement_Ledger_Scope_Incomplete
          else if count_completed_payment_ownership_mismatch db ws ret > 0 then Failed Statement_Internal_Inconsistent
          else
            (let opening = sum_receivable_before db ws ret start_utc;
                 (movement_rows, movements_period_sum) = list_statement_movements db ws ret start_utc next_day_utc
             in if length movement_rows > statement_line_cap then Failed Statement_Range_Too_Large
             else if sum_receivable_period db ws ret start_utc next_day_utc \<noteq> movements_period_sum
             then Failed Statement_Internal_Inconsistent
             else if list_ex (\<lambda>l. l_amount l = 0) movement_rows then Failed Statement_Internal_Inconsistent
             else
               (let charge_total = (\<Sum>l\<leftarrow>filter (\<lambda>l. l_amount l > 0) movement_rows. l_amount l);
                    collection_total = \<bar>\<Sum>l\<leftarrow>filter (\<lambda>l. l_amount l < 0) movement_rows. l_amount l\<bar>;
                    settled_rows = list_settled_payments created db ws ret start_utc next_day_utc
                in if length settled_rows > statement_line_cap then Failed Statement_Range_Too_Large
                else
                  (let pending_rows = (if include_pending then list_pending_declarations db ws ret start_utc next_day_utc else [])
                   in if length pending_rows > statement_line_cap then Failed Statement_Range_Too_Large
                   else if length movement_rows + length settled_rows + length pending_rows > statement_line_cap
                   then Failed Statement_Range_Too_Large
                   else if \<not> reconciles db ws ret then Failed Statement_Reconciliation_Failed
                   else
                     (let (supplier, retailer) = resolve_business_names book ws ret
                      in View \<lparr>st_supplier_name = supplier, st_retailer_name = retailer, st_from = date_from, st_to = date_to,
                           st_opening = opening, st_closing = opening + movements_period_sum, st_charges = charge_total,
                           st_collections = collection_total, st_net = movements_period_sum,
                           st_settled_total = (\<Sum>p\<leftarrow>settled_rows. p_amount p),
                           st_movements = map movement_view movement_rows,
                           st_settled = map (settled_view created) settled_rows,
                           st_pending = map pending_view pending_rows, st_generated = t_now db\<rparr>))))))"

section \<open>Routes\<close>

fun map_statement_result :: "statement_result \<Rightarrow> error + statement_view" where
  "map_statement_result (View v) = Inr v"
| "map_statement_result Not_Found = Inl (Http 404 STATEMENT_NOT_AVAILABLE)"
| "map_statement_result (Failed Statement_Period_Error) = Inl (Http 400 INVALID_DATE_RANGE)"
| "map_statement_result (Failed Statement_Range_Too_Large) = Inl (Http 400 STATEMENT_RANGE_TOO_LARGE)"
| "map_statement_result (Failed Statement_Ledger_Scope_Incomplete) = Inl (Http 409 STATEMENT_LEDGER_SCOPE_INCOMPLETE)"
| "map_statement_result (Failed Statement_Internal_Inconsistent) = Inl (Http 409 STATEMENT_INTERNAL_INCONSISTENT)"
| "map_statement_result (Failed Statement_Reconciliation_Failed) = Inl (Http 409 STATEMENT_RECONCILIATION_FAILED)"

definition parsed_period :: "string option \<Rightarrow> string option \<Rightarrow> error + (date \<times> date)" where
  "parsed_period from_raw to_raw =
     (case parse_statement_date_range from_raw to_raw of
        Inl Period_Error \<Rightarrow> Inl (Http 400 INVALID_DATE_RANGE)
      | Inl Date_Overflow \<Rightarrow> Inl OverflowError
      | Inr period \<Rightarrow> Inr period)"

definition tenant_wholesaler_id :: "id_text option \<Rightarrow> error + uuid" where
  "tenant_wholesaler_id tenant =
     (case tenant of None \<Rightarrow> Inl (Http 403 PERMISSION_DENIED)
      | Some t \<Rightarrow> (case parse_uuid t of None \<Rightarrow> Inl (Http 403 PERMISSION_DENIED) | Some u \<Rightarrow> Inr u))"

definition print_supplier_statement ::
  "name_book \<Rightarrow> (uuid \<Rightarrow> nat) \<Rightarrow> id_text \<Rightarrow> string option \<Rightarrow> string option \<Rightarrow> bool \<Rightarrow> id_text option \<Rightarrow> store
   \<Rightarrow> error + statement_view" where
  "print_supplier_statement book created retailer_id from_raw to_raw include_pending tenant db =
     bindE (tenant_wholesaler_id tenant) (\<lambda>ws.
     bindE (parsed_period from_raw to_raw) (\<lambda>(date_from, date_to).
     case parse_uuid retailer_id of
       None \<Rightarrow> Inl (Http 404 STATEMENT_NOT_AVAILABLE)
     | Some ret \<Rightarrow>
         if \<not> binding_active db ws ret then Inl (Http 404 STATEMENT_NOT_AVAILABLE)
         else bindE (build_statement_print book created db ws ret date_from date_to include_pending) map_statement_result))"

definition print_client_statement ::
  "name_book \<Rightarrow> (uuid \<Rightarrow> nat) \<Rightarrow> string option \<Rightarrow> string option \<Rightarrow> bool \<Rightarrow> uuid \<Rightarrow> uuid \<Rightarrow> store \<Rightarrow> error + statement_view" where
  "print_client_statement book created from_raw to_raw include_pending ws ret db =
     bindE (parsed_period from_raw to_raw) (\<lambda>(date_from, date_to).
     bindE (build_statement_print book created db ws ret date_from date_to include_pending) map_statement_result)"

end
