(* ===== verification/Receivable_Books.thy ===== *)
theory Receivable_Books
  imports Statements Receivables_Report
begin

text \<open>
  What the receivable entries of the ledger stand for in the running program. Confirming an order
  posts nothing; a payment posts when it settles its order or is collected on a credit sale. So the
  receivable entries are exactly the tender of settled orders, each negative, and this theory shows
  that every request keeps it so. Statements are built from these entries.
\<close>

section \<open>What the receivable entries stand for\<close>

definition receivable_of :: "store \<Rightarrow> uuid \<Rightarrow> money" where
  "receivable_of db oid = (\<Sum>l\<leftarrow>filter (\<lambda>l. l_reference l = oid) (filter statement_entry (t_ledger db)). l_amount l)"

definition settled_state :: "order_state \<Rightarrow> bool" where
  "settled_state st \<longleftrightarrow> st \<in> {PAID, FULFILLED, RETURNED}"

text \<open>The tender of an order, counted once the order is settled.\<close>

definition booked :: "store \<Rightarrow> order_row \<Rightarrow> money" where
  "booked db ord = (if settled_state (o_status ord) then get_order_paid_total db (o_id ord) else 0)"

definition tendered :: "store \<Rightarrow> uuid \<Rightarrow> bool" where
  "tendered db oid \<longleftrightarrow> (\<exists>p \<in> set (t_payments db). p_order p = oid \<and> p_method p \<in> {Cash, Transfer} \<and> p_status p = Completed)"

definition entry_ok :: "store \<Rightarrow> ledger_row \<Rightarrow> bool" where
  "entry_ok db l \<longleftrightarrow> l_amount l < 0 \<and> l_reference l \<in> o_id ` set (t_orders db) \<and> tendered db (l_reference l)"

definition books_ok :: "store \<Rightarrow> bool" where
  "books_ok db \<longleftrightarrow> (\<forall>l \<in> set (filter statement_entry (t_ledger db)). entry_ok db l) \<and>
     (\<forall>ord \<in> set (t_orders db). receivable_of db (o_id ord) = - booked db ord)"

definition state_key :: "order_row \<Rightarrow> uuid \<times> bool" where
  "state_key ord = (o_id ord, settled_state (o_status ord))"

lemma state_key_member:
  assumes "map state_key xs = map state_key ys @ rest" and "ord \<in> set ys"
  shows "\<exists>x \<in> set xs. state_key x = state_key ord"
proof -
  have "state_key ord \<in> set (map state_key xs)" unfolding assms(1) using assms(2) by simp
  then show ?thesis by auto
qed

lemma state_key_ids: "map state_key xs = map state_key ys @ map state_key added \<Longrightarrow> o_id ` set xs = o_id ` set ys \<union> o_id ` set added"
  by (drule arg_cong [of _ _ "\<lambda>l. fst ` set l"]) (simp add: image_image image_Un state_key_def)

text \<open>A step that leaves the receivable entries and the payments alone and settles no order.\<close>

lemma books_frame:
  assumes ok: "books_ok db" and led: "filter statement_entry (t_ledger db') = filter statement_entry (t_ledger db)"
    and pays: "t_payments db' = t_payments db"
    and ords: "map state_key (t_orders db') = map state_key (t_orders db) @ map state_key added"
    and fresh: "\<forall>x \<in> set added. \<not> settled_state (o_status x) \<and> o_id x \<notin> o_id ` set (t_orders db)"
  shows "books_ok db'"
proof -
  have same: "receivable_of db' oid = receivable_of db oid" "get_order_paid_total db' oid = get_order_paid_total db oid" for oid
    using led pays by (simp_all add: receivable_of_def get_order_paid_total_def get_order_method_total_def order_payments_def)
  have "entry_ok db' l" if "l \<in> set (filter statement_entry (t_ledger db'))" for l
  proof -
    have "entry_ok db l" using ok that unfolding led books_ok_def by blast
    then show ?thesis using pays state_key_ids [OF ords] by (auto simp: entry_ok_def tendered_def)
  qed
  moreover have "receivable_of db' (o_id x) = - booked db' x" if x: "x \<in> set (t_orders db')" for x
  proof -
    have "state_key x \<in> set (map state_key (t_orders db'))" using x by simp
    then consider ord where "ord \<in> set (t_orders db)" "state_key x = state_key ord"
      | y where "y \<in> set added" "state_key x = state_key y" unfolding ords by auto
    then show ?thesis
    proof cases
      case 1
      then have "receivable_of db (o_id ord) = - booked db ord" using ok unfolding books_ok_def by blast
      then show ?thesis using 1 same by (simp add: booked_def state_key_def)
    next
      case 2
      then have no: "o_id x \<notin> o_id ` set (t_orders db)" "\<not> settled_state (o_status x)"
        using fresh by (simp_all add: state_key_def)
      have "l_reference l \<noteq> o_id x" if "l \<in> set (filter statement_entry (t_ledger db))" for l
      proof -
        have "entry_ok db l" using ok that unfolding books_ok_def by blast
        then show ?thesis using no by (auto simp: entry_ok_def)
      qed
      then have "filter (\<lambda>l. l_reference l = o_id x) (filter statement_entry (t_ledger db)) = []"
        unfolding filter_empty_conv by blast
      then have "receivable_of db (o_id x) = 0" by (simp add: receivable_of_def del: filter_filter)
      then show ?thesis using no same by (simp add: booked_def)
    qed
  qed
  ultimately show ?thesis by (simp add: books_ok_def)
qed

lemma state_keys_put:
  assumes "distinct (map o_id xs)" and "ord \<in> set xs" and "settled_state st = settled_state (o_status ord)"
  shows "map state_key (row_put o_id (with_status ord st usr) xs) = map state_key xs"
proof -
  have "state_key (with_status ord st usr) = state_key x" if "x \<in> set xs" "o_id x = o_id ord" for x
    using that assms by (auto simp: distinct_map state_key_def with_status_def dest: inj_onD)
  then show ?thesis by (simp add: row_put_def)
qed

text \<open>A status change between states that are both settled or both open.\<close>

lemma books_status:
  assumes ok: "books_ok db" and ids: "distinct (map o_id (t_orders db))" and live: "live_order db oid = Some ord"
    and st: "settled_state st = settled_state (o_status ord)"
    and led: "filter statement_entry (t_ledger db') = filter statement_entry (t_ledger db)"
    and pays: "t_payments db' = t_payments db" and ords: "t_orders db' = row_put o_id (with_status ord st usr) (t_orders db)"
  shows "books_ok db'"
  using ok led pays
proof (rule books_frame [where added = "[]"])
  show "map state_key (t_orders db') = map state_key (t_orders db) @ map state_key []"
    using state_keys_put [OF ids _ st, of usr] live_order_Some [OF live] by (simp add: ords)
qed simp

lemma stock_ledger: "stock_step db db' \<Longrightarrow> t_ledger db' = t_ledger db"
  by (simp add: stock_step_def money_side_def)

lemma command_books:
  assumes inv: "store_inv db" and ok: "books_ok db"
  shows "confirm_order oid usr db = Inr (r, db') \<Longrightarrow> books_ok db'"
    and "cancel_order oid usr db = Inr (r, db') \<Longrightarrow> books_ok db'"
    and "fulfill_order oid usr db = Inr (r, db') \<Longrightarrow> books_ok db'"
    and "return_order oid usr db = Inr (r, db') \<Longrightarrow> books_ok db'"
proof -
  have keys: "distinct (map (\<lambda>b. (b_wholesaler b, b_retailer b)) (t_bindings db))" and acc: "accounted db"
    and ids: "distinct (map o_id (t_orders db))"
    using inv by (simp_all add: store_inv_def store_keys_def)
  note status = books_status [OF ok ids]
  have moved: "books_ok db'" if "live_order db oid = Some ord" "stock_step db db1" "settled_state st = settled_state (o_status ord)"
      "t_orders db' = row_put o_id (with_status ord st usr) (t_orders db1)" "t_ledger db' = t_ledger db1" "t_payments db' = t_payments db1"
    for ord db1 st db' usr
    using stock_step_tables [OF that(2)] stock_ledger [OF that(2)] by (intro status [OF that(1,3)]) (simp_all add: that)
  show "books_ok db'" if "confirm_order oid usr db = Inr (r, db')"
    using keys that by (rule confirm_order_effect) (rule moved [where usr = usr], simp_all add: settled_state_def)
  show "books_ok db'" if "cancel_order oid usr db = Inr (r, db')"
    using keys acc that by (rule cancel_order_effect) (rule moved [where usr = usr], simp_all add: settled_state_def)+
  show "books_ok db'" if "fulfill_order oid usr db = Inr (r, db')"
    using that by (rule fulfill_order_effect) (rule moved [where usr = usr], simp_all add: settled_state_def)
  show "books_ok db'" if "return_order oid usr db = Inr (r, db')"
    using that
  proof (rule return_order_effect)
    fix ord posted db1 db2
    assume live: "live_order db oid = Some ord" and st: "o_status ord = FULFILLED"
      and post: "post_order_return oid (o_total ord) db = Inr (posted, db1)" and step: "stock_step db1 db2"
      and db': "db' = put_order (with_status ord RETURNED usr) db2"
    note f = order_return_frame [OF post] stock_step_tables [OF step] stock_ledger [OF step]
    have "filter statement_entry (t_ledger db1) = filter statement_entry (t_ledger db)"
      using post_transaction_two [OF post [unfolded post_order_return_def]] by (auto simp: statement_entry_def)
    then show ?thesis by (intro status [OF live, of RETURNED]) (simp_all add: db' f st settled_state_def)
  qed
qed

section \<open>What a payment posts\<close>

definition tender_entry :: "uuid \<Rightarrow> money \<Rightarrow> ledger_row list \<Rightarrow> bool" where
  "tender_entry oid q rows \<longleftrightarrow> (\<exists>r. filter statement_entry rows = [r] \<and> l_reference r = oid \<and> l_amount r = - q)"

lemma received_entry:
  assumes "post_payment_received oid q db = Inr (posted, db')" and "in_cents q"
  shows "\<exists>rows. t_ledger db' = t_ledger db @ rows \<and> tender_entry oid q rows"
  using post_transaction_two [OF assms(1) [unfolded post_payment_received_def]] assms(2)
  by (auto simp: tender_entry_def statement_entry_def num4_cents)

lemma delta_ledger: "apply_outstanding_balance_delta ws ret delta db = Inr db' \<Longrightarrow> t_ledger db' = t_ledger db"
  by (auto simp: apply_outstanding_balance_delta_def Let_def split: prod.splits if_splits dest!: update_binding_frame)

lemma collect_entry:
  assumes "collect_on_credit ord q db = Inr (ord', db')" and "in_cents q"
  shows "\<exists>rows. t_ledger db' = t_ledger db @ rows \<and> tender_entry (o_id ord) q rows"
  using assms received_entry by (auto simp: collect_on_credit_def result_simps delta_ledger)

text \<open>Settling posts the order's total when it becomes paid by tender, and then completes its tender.\<close>

lemma settle_entry:
  assumes run: "settle_order ord [h] target q m usr force db = Inr (ord', db')" and cents: "in_cents (o_total ord)"
  shows "if target = PAID \<and> m \<noteq> Credit
     then (\<exists>rows. t_ledger db' = t_ledger db @ rows \<and> tender_entry (o_id ord) (o_total ord) rows) \<and>
       t_payments db' = (if force then t_payments db else t_payments (snd (update_cash_transfer_to_completed (o_id ord) db)))
     else t_ledger db' = t_ledger db \<and> t_payments db' \<in> {t_payments db, t_payments (snd (update_cash_transfer_to_completed (o_id ord) db))}"
proof -
  from run obtain db1 r db2 where
      hold: "(if m = Credit then convert_hold [h] usr db else reduce_hold [h] q usr db) = Inr db1"
    and trans: "apply_payment_transition_for_locked ord target (Some m) usr db1 = Inr (r, db2)"
    and rest: "(let ord' = cr_order r;
         db3 = (if \<not> force \<and> o_status ord' = PAID
                then snd (update_cash_transfer_to_completed (o_id ord) db2) else db2)
     in if m \<noteq> Credit
        then bindE (apply_outstanding_balance_delta (o_wholesaler ord) (o_retailer ord) (- q) db3)
               (\<lambda>db4. Inr (ord', db4))
        else Inr (ord', db3)) = Inr (ord', db')"
    by (auto simp: settle_order_def result_simps)
  have one: "t_ledger db1 = t_ledger db" "t_payments db1 = t_payments db"
    using hold convert_hold_effect reduce_hold_effect by (fastforce split: if_splits)+
  have posted: "if target = PAID \<and> m \<noteq> Credit
      then \<exists>rows. t_ledger db2 = t_ledger db @ rows \<and> tender_entry (o_id ord) (o_total ord) rows
      else t_ledger db2 = t_ledger db"
    using trans by (rule payment_transition_effect) (use one received_entry [OF _ cents] in \<open>auto dest: received_entry [OF _ cents]\<close>)
  have two: "t_payments db2 = t_payments db" and st: "o_status (cr_order r) = target"
    using transition_effect [OF trans] one by (simp_all add: with_status_def)
  define db3 where "db3 = (if \<not> force \<and> target = PAID then snd (update_cash_transfer_to_completed (o_id ord) db2) else db2)"
  have three: "t_ledger db3 = t_ledger db2"
    "t_payments db3 = (if \<not> force \<and> target = PAID then t_payments (snd (update_cash_transfer_to_completed (o_id ord) db)) else t_payments db)"
    using two by (simp_all add: db3_def update_cash_transfer_to_completed_def)
  have "t_ledger db' = t_ledger db3 \<and> t_payments db' = t_payments db3"
    using rest unfolding st db3_def [symmetric] Let_def
    by (cases "m = Credit") (auto simp: result_simps delta_ledger delta_payments)
  then show ?thesis using posted three by auto
qed

text \<open>
  A payment on a locked order leaves the books as they were, or adds tender to a settled order with
  its entry: the whole tender when the order becomes paid, the collected amount on a credit sale.
\<close>

lemma completed_tendered:
  assumes "p \<in> set (t_payments db)" "p_order p = oid" "p_method p \<in> {Cash, Transfer}" "p_deleted p = False"
    and "p_status p = Completed \<or> p_status p = Pending \<and> t_payments db' = t_payments (snd (update_cash_transfer_to_completed oid db))"
    and "t_payments db' = t_payments db \<or> t_payments db' = t_payments (snd (update_cash_transfer_to_completed oid db))"
  shows "tendered db' oid"
proof -
  let ?f = "\<lambda>p. if settles oid p then p\<lparr>p_status := Completed\<rparr> else p"
  show ?thesis
  proof (cases "t_payments db' = t_payments (snd (update_cash_transfer_to_completed oid db))")
    case True
    have "?f p \<in> set (t_payments db')" using assms(1) unfolding True by (auto simp: update_cash_transfer_to_completed_def)
    moreover have "p_order (?f p) = oid" "p_method (?f p) \<in> {Cash, Transfer}" "p_status (?f p) = Completed"
      using assms by (auto simp: settles_def)
    ultimately show ?thesis unfolding tendered_def by blast
  next
    case False
    with assms show ?thesis by (auto simp: tendered_def)
  qed
qed

lemma tendered_mono:
  assumes "tendered db oid" and "t_payments dm = t_payments db @ added"
    and "t_payments db' = t_payments dm \<or> t_payments db' = t_payments (snd (update_cash_transfer_to_completed x dm))"
  shows "tendered db' oid"
proof -
  from assms(1) obtain p where p: "p \<in> set (t_payments db)" "p_order p = oid" "p_method p \<in> {Cash, Transfer}" "p_status p = Completed"
    by (auto simp: tendered_def)
  have "p \<in> set (t_payments db')" using assms(2,3) p by (force simp: update_cash_transfer_to_completed_def settles_def)
  with p show ?thesis by (auto simp: tendered_def)
qed

text \<open>A step that adds one payment to an order, with the receivable entries it posts for it.\<close>

lemma books_payment:
  assumes ok: "books_ok db" and ids: "distinct (map o_id (t_orders db))" and mem: "ord \<in> set (t_orders db)"
    and ords: "map state_key (t_orders db') =
       map (\<lambda>x. if o_id x = o_id ord then (o_id ord, settled_state st) else state_key x) (t_orders db)"
    and cores: "payment_cores db' = payment_cores db @ [payment_core p]" "p_order p = o_id ord" "\<not> p_deleted p"
    and led: "filter statement_entry (t_ledger db') = filter statement_entry (t_ledger db) @ rows"
    and rows: "\<forall>r \<in> set rows. l_reference r = o_id ord \<and> l_amount r < 0 \<and> tendered db' (o_id ord)"
    and amount: "(\<Sum>r\<leftarrow>rows. l_amount r) = booked db ord - (if settled_state st
       then get_order_paid_total db (o_id ord) + (if p_method p \<in> {Cash, Transfer} then p_amount p else 0) else 0)"
    and mono: "\<And>oid. tendered db oid \<Longrightarrow> tendered db' oid"
  shows "books_ok db'"
proof -
  have paid: "get_order_paid_total db' oid = get_order_paid_total db oid +
      (if oid = o_id ord \<and> p_method p \<in> {Cash, Transfer} then p_amount p else 0)" for oid
    using method_total_snoc [OF cores(1,3), of oid "[Cash, Transfer]"] cores(2) by (auto simp: get_order_paid_total_def)
  have "map o_id (t_orders db') = map o_id (t_orders db)"
    using arg_cong [OF ords, of "map fst"] by (simp add: comp_def state_key_def cong: if_cong map_cong)
  then have ids': "o_id ` set (t_orders db') = o_id ` set (t_orders db)" by (metis list.set_map)
  have "entry_ok db' l" if "l \<in> set (filter statement_entry (t_ledger db'))" for l
  proof (cases "l \<in> set rows")
    case True
    then show ?thesis using rows mem ids' by (auto simp: entry_ok_def)
  next
    case False
    then have "l \<in> set (filter statement_entry (t_ledger db))" using that unfolding led by auto
    then have "entry_ok db l" using ok unfolding books_ok_def by blast
    then show ?thesis using mono ids' by (auto simp: entry_ok_def)
  qed
  moreover have "receivable_of db' (o_id x) = - booked db' x" if x: "x \<in> set (t_orders db')" for x
  proof -
    have "state_key x \<in> set (map state_key (t_orders db'))" using x by simp
    then obtain y where y: "y \<in> set (t_orders db)"
        "state_key x = (if o_id y = o_id ord then (o_id ord, settled_state st) else state_key y)" unfolding ords by auto
    have old: "receivable_of db (o_id y) = - booked db y" using ok y(1) unfolding books_ok_def by blast
    have new: "receivable_of db' oid = receivable_of db oid + (if oid = o_id ord then \<Sum>r\<leftarrow>rows. l_amount r else 0)" for oid
    proof -
      have "filter (\<lambda>r. l_reference r = oid) rows = (if oid = o_id ord then rows else [])"
        using rows by (auto simp: filter_empty_conv)
      then show ?thesis unfolding receivable_of_def led filter_append by simp
    qed
    show ?thesis
    proof (cases "o_id y = o_id ord")
      case True
      then have "y = ord" using y(1) mem ids by (auto simp: distinct_map dest: inj_onD)
      then show ?thesis using y(2) old new [of "o_id ord"] paid [of "o_id ord"] amount
        by (simp add: state_key_def booked_def)
    next
      case False
      then show ?thesis using y(2) old new [of "o_id y"] paid [of "o_id y"] by (simp add: state_key_def booked_def)
    qed
  qed
  ultimately show ?thesis by (simp add: books_ok_def)
qed

lemma state_keys_settle:
  assumes "distinct (map o_id xs)" and "ord \<in> set xs"
  shows "map state_key (row_put o_id (with_status ord st usr) xs) =
    map (\<lambda>x. if o_id x = o_id ord then (o_id ord, settled_state st) else state_key x) xs"
  by (simp add: row_put_def state_key_def with_status_def)

lemma state_keys_same:
  assumes "distinct (map o_id xs)" and "ord \<in> set xs"
  shows "map state_key xs = map (\<lambda>x. if o_id x = o_id ord then (o_id ord, settled_state (o_status ord)) else state_key x) xs"
  using assms by (auto simp: state_key_def distinct_map dest: inj_onD)

text \<open>What the insert of a payment row leaves to the write sequence that follows it.\<close>

definition payment_inserted :: "store \<Rightarrow> store \<Rightarrow> order_row \<Rightarrow> payment_row \<Rightarrow> bool" where
  "payment_inserted db db2 ord p \<longleftrightarrow> t_orders db2 = t_orders db \<and> t_payments db2 = t_payments db @ [p] \<and>
     t_bindings db2 = t_bindings db \<and> t_ledger db2 = t_ledger db \<and> p_order p = o_id ord \<and> \<not> p_deleted p \<and>
     p_method p \<in> {Cash, Transfer, Credit} \<and> in_cents (p_amount p) \<and> 0 < p_amount p"

lemma collection_books:
  assumes inv: "store_inv db" and ok: "books_ok db" and live: "live_order db oid = Some ord"
    and ins: "payment_inserted db db2 ord p" and p: "p_status p = Completed" "p_method p = Cash \<or> p_method p = Transfer"
    and st: "o_status ord = PAID" and run: "collect_on_credit ord (p_amount p) db2 = Inr (ord', db')"
  shows "books_ok db'"
proof -
  note parts = store_inv_parts [OF inv live] and ins' = ins [unfolded payment_inserted_def]
  have "distinct (map (\<lambda>b. (b_wholesaler b, b_retailer b)) (t_bindings db2))" using parts(1) ins' by simp
  note e = collect_effect [OF this run]
  obtain rows where "t_ledger db' = t_ledger db @ rows" "tender_entry (o_id ord) (p_amount p) rows"
    using collect_entry [OF run] ins' by auto
  then obtain r where r: "filter statement_entry (t_ledger db') = filter statement_entry (t_ledger db) @ [r]"
      "l_reference r = o_id ord" "l_amount r = - p_amount p" by (auto simp: tender_entry_def)
  have pays: "t_payments db' = t_payments db @ [p]" using e ins' by simp
  then have tend: "tendered db' (o_id ord)" using p ins' unfolding tendered_def by auto
  show ?thesis
  proof (rule books_payment [OF ok parts(2,5) _ _ _ _ r(1), where st = PAID and p = p])
    show "map state_key (t_orders db') = map (\<lambda>x. if o_id x = o_id ord then (o_id ord, settled_state PAID) else state_key x) (t_orders db)"
      using state_keys_same [OF parts(2,5)] e ins' unfolding st [symmetric] by metis
    show "payment_cores db' = payment_cores db @ [payment_core p]" using pays by (simp add: payment_cores_def)
    show "(\<Sum>r\<leftarrow>[r]. l_amount r) = booked db ord - (if settled_state PAID
        then get_order_paid_total db (o_id ord) + (if p_method p \<in> {Cash, Transfer} then p_amount p else 0) else 0)"
      using st p r by (auto simp: booked_def settled_state_def)
    show "tendered db' x" if "tendered db x" for x using that pays by (auto simp: tendered_def)
  qed (use r ins' tend in simp_all)
qed

lemma settlement_books:
  assumes inv: "store_inv db" and ok: "books_ok db" and live: "live_order db oid = Some ord"
    and ins: "payment_inserted db db2 ord p" and p: "p_status p = payment_status_of force False (p_method p) target"
    and st: "o_status ord = CONFIRMED \<or> o_status ord = PARTIALLY_PAID"
    and le: "p_amount p \<le> o_total ord - get_order_paid_total db (o_id ord)"
    and target: "target = (if o_total ord \<le> get_order_paid_total db (o_id ord) + p_amount p then PAID else PARTIALLY_PAID)"
    and cred: "p_method p = Credit \<Longrightarrow> get_order_paid_total db (o_id ord) \<le> 0"
    and run: "settle_order ord [h] target (p_amount p) (p_method p) usr force db2 = Inr (ord', db')"
  shows "books_ok db'"
proof -
  note parts = store_inv_parts [OF inv live] and ins' = ins [unfolded payment_inserted_def]
  have "distinct (map (\<lambda>b. (b_wholesaler b, b_retailer b)) (t_bindings db2))" using parts(1) ins' by simp
  note e = settle_effect [OF this run]
  have s: "in_cents (o_total ord)" using parts(7) by (simp add: order_ok_def)
  note s = settle_entry [OF run s]
  have nonneg: "0 \<le> get_order_paid_total db (o_id ord)" using never_overpaid [OF inv parts(5)] by linarith
  have unbooked: "booked db ord = 0" using st by (auto simp: booked_def settled_state_def)
  have cores: "payment_cores db' = payment_cores db @ [payment_core p]" using e ins' by (simp add: payment_cores_def)
  have keys: "map state_key (t_orders db') =
      map (\<lambda>x. if o_id x = o_id ord then (o_id ord, settled_state target) else state_key x) (t_orders db)"
    using e state_keys_settle [OF parts(2,5)] ins' by simp
  have either: "t_payments db' = t_payments db2 \<or> t_payments db' = t_payments (snd (update_cash_transfer_to_completed (o_id ord) db2))"
    using s by (auto split: if_splits)
  have mono: "tendered db' x" if "tendered db x" for x using tendered_mono [OF that _ either] ins' by blast
  note extend = books_payment [OF ok parts(2,5) keys cores _ _ _ _ _ mono]
  show ?thesis
  proof (cases "target = PAID \<and> p_method p \<noteq> Credit")
    case True
    then have m: "p_method p \<in> {Cash, Transfer}" using ins' by auto
    from s True obtain rows where "t_ledger db' = t_ledger db @ rows" "tender_entry (o_id ord) (o_total ord) rows"
      using ins' by auto
    then obtain r where r: "filter statement_entry (t_ledger db') = filter statement_entry (t_ledger db) @ [r]"
        "l_reference r = o_id ord" "l_amount r = - o_total ord" by (auto simp: tender_entry_def)
    have exact: "o_total ord = get_order_paid_total db (o_id ord) + p_amount p" using le target True by (auto split: if_splits)
    have "tendered db' (o_id ord)"
      using s True m p ins' either
      by (intro completed_tendered [of p db2 "o_id ord" db']) (auto simp: payment_status_of_def)
    then have rows: "\<forall>x \<in> set [r]. l_reference x = o_id ord \<and> l_amount x < 0 \<and> tendered db' (o_id ord)"
      using r exact nonneg ins' by simp
    show ?thesis
      by (rule extend [OF _ _ r(1) rows]) (use True m ins' r exact unbooked in \<open>simp_all add: settled_state_def\<close>)
  next
    case False
    then have same: "filter statement_entry (t_ledger db') = filter statement_entry (t_ledger db) @ []"
      using s ins' by (auto split: if_splits)
    have "p_method p = Credit \<or> target = PARTIALLY_PAID" using False target by (auto split: if_splits)
    then have "(if settled_state target then get_order_paid_total db (o_id ord) + (if p_method p \<in> {Cash, Transfer} then p_amount p else 0) else 0) = 0"
      using cred nonneg by (elim disjE) (simp_all add: settled_state_def)
    then show ?thesis using unbooked ins' by (intro extend [OF _ _ same]) simp_all
  qed
qed

lemma locked_payment_books:
  assumes inv: "store_inv db" and ok: "books_ok db" and live: "live_order db oid = Some ord" and cents: "in_cents q"
    and run: "confirm_payment_for_locked_order no_race ord (Finite q) m txn key usr force alloc db = Inr (pr, db')"
  shows "books_ok db'"
  using run
proof (rule locked_payment_run)
  fix q' target coll h receipt db1 p db2 ord'
  assume q: "Finite q = Finite q'" "0 < q'" and pre: "payment_prechecks db ord q' m = Inr (target, coll)"
    and rc: "with_receipt (alloc \<and> payment_status_of force coll m target = Completed) db = (receipt, db1)"
    and row: "create_payment_row (o_id ord) (o_retailer ord) txn (Some key) q' m
         (payment_status_of force coll m target) usr receipt db1 = Inr (p, db2)"
    and eff: "(if coll then collect_on_credit ord q' db2
        else settle_order ord [h] target q' m usr force db2) = Inr (ord', db')"
  note f1 = with_receipt_frame [OF rc] and f2 = row [unfolded create_payment_row_Inr]
  have "t_ledger db2 = t_ledger db"
    using rc f2 by (auto simp: with_receipt_def allocate_receipt_number_def Let_def split: if_splits)
  then have ins: "payment_inserted db db2 ord p"
    using f1 f2 q cents by (auto simp: payment_inserted_def num2_cents)
  have p: "p_amount p = q'" "p_method p = m" "p_status p = payment_status_of force coll m target"
    using f2 q cents by (auto simp: num2_cents)
  from pre show "books_ok db'"
  proof (rule prechecks_Inr)
    assume c: "coll" "o_status ord = PAID" "m = Cash \<or> m = Transfer"
    then show ?thesis using eff p by (intro collection_books [OF inv ok live ins]) (simp_all add: payment_status_of_def)
  next
    assume c: "\<not> coll" "o_status ord = CONFIRMED \<or> o_status ord = PARTIALLY_PAID"
      "q' \<le> o_total ord - get_order_paid_total db (o_id ord)"
      "target = (if o_total ord \<le> get_order_paid_total db (o_id ord) + q' then PAID else PARTIALLY_PAID)"
      "m = Credit \<Longrightarrow> count_order_payments db (o_id ord) Credit = 0 \<and> get_order_paid_total db (o_id ord) \<le> 0 \<and> q' = o_total ord"
    show ?thesis
      by (rule settlement_books [OF inv ok live ins, of force target h usr ord']) (use c eff p in simp_all)
  qed
qed (use ok in simp)

section \<open>Every request keeps the books\<close>

lemma payment_books:
  assumes inv: "store_inv db" and ok: "books_ok db" and cents: "in_cents q"
    and run: "confirm_payment no_race oid (Finite q) m txn key usr force alloc db = Inr (pr, db')"
  shows "books_ok db'"
proof (cases "get_by_idempotency_key db key")
  case None
  with run obtain ord u where "live_order db u = Some ord"
    "confirm_payment_for_locked_order no_race ord (Finite q) m txn key usr force alloc db = Inr (pr, db')"
    by (auto simp: confirm_payment_def get_order_by_id_for_update_def result_simps split: option.splits)
  then show ?thesis by (rule locked_payment_books [OF inv ok _ cents])
next
  case (Some p)
  with run have "db' = db"
    by (auto simp: confirm_payment_def replay_result_def result_simps split: option.splits if_splits)
  then show ?thesis using ok by simp
qed

lemma books_same: "books_ok db \<Longrightarrow> t_ledger db' = t_ledger db \<Longrightarrow> t_payments db' = t_payments db \<Longrightarrow> t_orders db' = t_orders db \<Longrightarrow> books_ok db'"
  by (rule books_frame [where added = "[]"]) simp_all

lemma catalog_books: "catalog_step db db' \<Longrightarrow> books_ok db \<Longrightarrow> books_ok db'"
  unfolding catalog_step_def by (elim exE conjE, rule books_same) simp_all

lemma fresh_order_id: "erp_inv db \<Longrightarrow> t_uuids db (t_drawn db) \<notin> o_id ` set (t_orders db)"
  unfolding erp_inv_def references_def by (force dest: injD)

lemma serve_books:
  assumes inv: "erp_inv db" and ok: "books_ok db" and exact: "exact_amounts c" and run: "serve c db = Inr db'"
  shows "books_ok db'"
proof -
  have store: "store_inv db" and pay: "pay_inv db" and decls: "declarations_ok db" and acc: "accounted db" and on: "on_hand_cents db"
    using inv by (simp_all add: erp_inv_def pay_inv_def store_inv_def)
  have ids: "distinct (map d_id (t_declarations db))" using decls by (simp add: declarations_ok_def)
  show ?thesis
    using run exact
  proof (rule serve_cases)
    fix ws ret lines remark usr ord assume "crud_create_order ws ret lines remark usr db = Inr (ord, db')"
    then show ?thesis
      by (rule crud_create_order_Inr)
        (use fresh_order_id [OF inv] in \<open>auto intro!: books_frame [OF ok, where added = "[ord]"] simp: settled_state_def\<close>)
  next
    fix oid q m txn key usr pr
    assume "confirm_payment no_race oid (Finite q) m txn key usr False False db = Inr (pr, db')" "in_cents q"
    then show ?thesis using payment_books [OF store ok] by blast
  next
    fix code q usr assume "adjust_stock code q usr db = Inr db'" "in_cents q"
    then have "stock_step db db'" using adjust_stock_step [OF acc on] by blast
    then show ?thesis using stock_ledger stock_step_tables by (intro books_same [OF ok]) simp_all
  next
    fix oid ret ws usr a m ref key d rep
    assume "submit_declaration no_race oid ret ws usr a m ref key db = Inr ((d, rep), db')"
    then show ?thesis
      by (rule submit_declaration_cases) (auto simp: create_declaration_Inr ok intro!: books_same [OF ok])
  next
    fix did ws usr dd pr assume run: "confirm_declaration no_race did ws usr db = Inr ((dd, pr), db')"
    then show ?thesis
    proof (rule confirm_declaration_cases)
      fix d assume d: "decl_by_wholesaler_dual_key db did ws = Some d" "d_status d = Decl_Pending"
      from pay decls d run obtain ord dm where live: "live_order db (d_order d) = Some ord"
        and locked: "confirm_payment_for_locked_order no_race ord (Finite (d_amount d)) (d_method d)
           (blank_to_none (d_transfer_reference d)) (canonical_key did) (Some usr) True True db = Inr (pr, dm)"
        and db': "db' = with_decl (confirmed_by usr (p_id (pr_payment pr))) did dm"
        by (rule confirm_pending_effect)
      have "in_cents (d_amount d)"
        using decls decl_found [OF d(1)] by (auto simp: declarations_ok_def declaration_shape_def)
      then have "books_ok dm" using locked_payment_books [OF store ok live _ locked] by blast
      then show ?thesis by (rule books_same) (simp_all add: db')
    qed (simp add: ok)
  next
    fix did ws usr reason x assume "reject_declaration did ws usr reason db = Inr (x, db')"
    then obtain d where d: "decl_by_wholesaler_dual_key db did ws = Some d"
      and m: "mark_rejected did ws usr reason db = Inr db'"
      by (auto simp: reject_declaration_def decl_for_update_by_wholesaler_def result_simps split: option.splits if_splits)
    then have "db' = with_decl (\<lambda>d. d\<lparr>d_status := Decl_Rejected, d_rejected_by := Some usr, d_reason := Some reason\<rparr>) did db"
      by (auto simp: mark_rejected_def update_pending_run [OF ids d] split: if_splits)
    then show ?thesis by (intro books_same [OF ok]) simp_all
  next
    fix cat assume "serve_catalog cat db = Inr db'"
    then show ?thesis by (intro catalog_books [OF _ ok] serve_catalog_step)
  qed (use command_books [OF store ok] in blast)+
qed

interpretation program_books: transactional_pair serve erp_inv exact_amounts books_ok
  by unfold_locales (auto intro: serve_books)

lemma run_books:
  assumes "provisioned start" and "t_ledger start = []" and "\<forall>r \<in> set rs. exact_amounts r"
  shows "books_ok (run_requests rs start)"
proof -
  have "books_ok start" using assms(1,2) by (simp add: books_ok_def provisioned_def)
  then show ?thesis using program_books.both.calls_keep [of start rs] provisioned_inv [OF assms(1)] assms(3) by simp
qed

end
