(* ===== verification/Statement_Dates.thy ===== *)
theory Statement_Dates
  imports Statements
begin

text \<open>
  The dates of a statement request: the calendar is monotone, and the parser accepts exactly the
  canonical texts of ranges of at most 365 days.
\<close>

section \<open>The calendar\<close>

lemma div_step: "0 < k \<Longrightarrow> 1 \<le> y \<Longrightarrow> y div k = (y - 1) div k + (if y mod k = 0 then 1 else 0)" for y k :: nat
  using div_Suc [of "y - 1" k] mod_Suc [of "y - 1" k] by auto

definition days_before_year :: "nat \<Rightarrow> nat" where
  "days_before_year y = (y - 1) * 365 + (y - 1) div 4 - (y - 1) div 100 + (y - 1) div 400"

definition days_before_month :: "nat \<Rightarrow> nat \<Rightarrow> nat" where
  "days_before_month y m = (\<Sum>k\<leftarrow>[1..<m]. days_in_month y k)"

lemma toordinal_alt: "toordinal (Date y m d) = days_before_year y + days_before_month y m + d"
  by (simp add: days_before_year_def days_before_month_def)

lemma year_step:
  assumes "1 \<le> y"
  shows "days_before_year (Suc y) = days_before_year y + (if leap_year y then 366 else 365)"
proof -
  define a b c where defs: "a = (y - 1) div 4" "b = (y - 1) div 100" "c = (y - 1) div 400"
  have le: "b \<le> a" unfolding defs by (rule div_le_mono2) simp_all
  have mods: "y mod 100 = 0 \<Longrightarrow> y mod 4 = 0" "y mod 400 = 0 \<Longrightarrow> y mod 100 = 0" by presburger+
  have steps: "y div 4 = a + (if y mod 4 = 0 then 1 else 0)" "y div 100 = b + (if y mod 100 = 0 then 1 else 0)"
      "y div 400 = c + (if y mod 400 = 0 then 1 else 0)"
    unfolding defs using assms by (intro div_step; simp)+
  have next_year: "days_before_year (Suc y) = y * 365 + y div 4 - y div 100 + y div 400" by (simp add: days_before_year_def)
  have this_year: "days_before_year y = (y - 1) * 365 + a - b + c" by (simp add: days_before_year_def defs)
  have "y * 365 = (y - 1) * 365 + 365" using assms by (cases y) simp_all
  then show ?thesis
    unfolding next_year this_year steps leap_year_def
    using le mods by (cases "y mod 4 = 0"; cases "y mod 100 = 0"; cases "y mod 400 = 0") simp_all
qed

lemma month_step: "1 \<le> m \<Longrightarrow> days_before_month y (Suc m) = days_before_month y m + days_in_month y m"
  by (simp add: days_before_month_def)

lemma whole_year: "days_before_month y 13 = (if leap_year y then 366 else 365)"
proof -
  have "[1..<13] = [1, 2, 3, 4, 5, 6, 7, 8, 9, 10, 11, 12 :: nat]" by (simp add: upt_rec)
  then show ?thesis by (simp add: days_before_month_def days_in_month_def)
qed

lemma month_mono: "1 \<le> m \<Longrightarrow> m \<le> m' \<Longrightarrow> days_before_month y m \<le> days_before_month y m'"
proof (induction "m' - m" arbitrary: m')
  case (Suc k)
  then obtain n where "m' = Suc n" "m \<le> n" by (cases m') auto
  with Suc show ?case using month_step [of n y] by force
qed simp

lemma year_mono: "1 \<le> y \<Longrightarrow> y \<le> y' \<Longrightarrow> days_before_year y \<le> days_before_year y'"
proof (induction "y' - y" arbitrary: y')
  case (Suc k)
  then obtain n where "y' = Suc n" "y \<le> n" by (cases y') auto
  with Suc show ?case using year_step [of n] by force
qed simp

text \<open>A day comes before the days of later months and years.\<close>

lemma ordinal_in_year:
  assumes "valid_date (Date y m d)"
  shows "days_before_year y < toordinal (Date y m d)" "toordinal (Date y m d) \<le> days_before_year (Suc y)"
proof -
  have "days_before_month y (Suc m) \<le> days_before_month y 13" using assms by (intro month_mono) auto
  then show "days_before_year y < toordinal (Date y m d)" "toordinal (Date y m d) \<le> days_before_year (Suc y)"
    using assms month_step [of m y] year_step [of y] whole_year [of y] by (auto simp: toordinal_alt simp del: toordinal.simps)
qed

lemma before_ordinal:
  assumes "valid_date f" and "valid_date t" and "before f t"
  shows "toordinal f < toordinal t"
proof -
  obtain y m d y' m' d' where ft: "f = Date y m d" "t = Date y' m' d'" by (cases f, cases t) blast
  consider "y < y'" | "y = y'" "m < m'" | "y = y'" "m = m'" "d < d'" using assms(3) ft by auto
  then show ?thesis
  proof cases
    case 1
    then have "days_before_year (Suc y) \<le> days_before_year y'" by (intro year_mono) simp_all
    then show ?thesis using ordinal_in_year [of y m d] ordinal_in_year [of y' m' d'] assms(1,2) unfolding ft by linarith
  next
    case 2
    have "days_before_month y (Suc m) \<le> days_before_month y m'" using 2 by (intro month_mono) simp_all
    then show ?thesis using 2 assms(1,2) month_step [of m y] ft by (auto simp: toordinal_alt simp del: toordinal.simps)
  next
    case 3
    then show ?thesis unfolding ft toordinal_alt by simp
  qed
qed

lemma not_before_ordinal:
  assumes "valid_date f" and "valid_date t"
  shows "before t f \<longleftrightarrow> toordinal t < toordinal f"
proof
  assume less: "toordinal t < toordinal f"
  show "before t f"
  proof (rule ccontr)
    assume "\<not> before t f"
    then have "t = f \<or> before f t" by (cases t, cases f) auto
    then show False using before_ordinal [OF assms] less by auto
  qed
qed (rule before_ordinal [OF assms(2,1)])

section \<open>Texts of dates\<close>

fun fixed_digits :: "nat \<Rightarrow> nat \<Rightarrow> string" where
  "fixed_digits 0 n = []"
| "fixed_digits (Suc k) n = fixed_digits k (n div 10) @ [digit_char (n mod 10)]"

fun iso_text :: "date \<Rightarrow> string" where
  "iso_text (Date y m d) = fixed_digits 4 y @ [CHR ''-''] @ fixed_digits 2 m @ [CHR ''-''] @ fixed_digits 2 d"

lemma fixed_digits_length [simp]: "length (fixed_digits k n) = k"
  by (induction k arbitrary: n) simp_all

lemma fixed_digits_are_digits: "list_all is_ascii_digit (fixed_digits k n)"
  by (induction k arbitrary: n) (simp_all add: digit_char_digit)

lemma fixed_digits_value: "n < 10 ^ k \<Longrightarrow> decimal_value (fixed_digits k n) = n"
  by (induction k arbitrary: n) (simp_all add: decimal_value_snoc, simp add: decimal_value_def)

lemma digit_char_value: "is_ascii_digit c \<Longrightarrow> digit_char (of_char c - 48) = c \<and> of_char c - 48 < (10 :: nat)"
  by (auto simp: is_ascii_digit_def digit_char_def)

lemma fixed_digits_read: "list_all is_ascii_digit s \<Longrightarrow> fixed_digits (length s) (decimal_value s) = s"
proof (induction s rule: rev_induct)
  case (snoc c s)
  note c = digit_char_value [of c]
  have "decimal_value (s @ [c]) = 10 * decimal_value s + (of_char c - 48)" by (simp add: decimal_value_def)
  then show ?case using snoc c by simp
qed simp

lemma shape_split:
  assumes "date_shape s"
  shows "s = take 4 s @ [CHR ''-''] @ take 2 (drop 5 s) @ [CHR ''-''] @ drop 8 s"
    "length (take 4 s) = 4" "length (take 2 (drop 5 s)) = 2" "length (drop 8 s) = 2"
proof -
  have len: "length s = 10" and dash: "s ! 4 = CHR ''-''" "s ! 7 = CHR ''-''" using assms by (simp_all add: date_shape_def)
  show "length (take 4 s) = 4" "length (take 2 (drop 5 s)) = 2" "length (drop 8 s) = 2" using len by simp_all
  have "drop 4 s = CHR ''-'' # drop 5 s" "drop 7 s = CHR ''-'' # drop 8 s"
    using Cons_nth_drop_Suc [of 4 s] Cons_nth_drop_Suc [of 7 s] len dash by simp_all
  moreover have "drop 5 s = take 2 (drop 5 s) @ drop 7 s"
    using append_take_drop_id [of 2 "drop 5 s"] by simp
  ultimately show "s = take 4 s @ [CHR ''-''] @ take 2 (drop 5 s) @ [CHR ''-''] @ drop 8 s"
    using append_take_drop_id [of 4 s] by (metis append_Cons append_Nil)
qed

lemma strptime_iff: "date_shape s \<and> strptime_date s = Some d \<longleftrightarrow> s = iso_text d \<and> valid_date d"
proof
  assume s: "date_shape s \<and> strptime_date s = Some d"
  then have d: "d = Date (decimal_value (take 4 s)) (decimal_value (take 2 (drop 5 s))) (decimal_value (drop 8 s))" "valid_date d"
    by (auto simp: strptime_date_def Let_def split: if_splits)
  note parts = shape_split [OF conjunct1 [OF s]]
  have "fixed_digits 4 (decimal_value (take 4 s)) = take 4 s" "fixed_digits 2 (decimal_value (take 2 (drop 5 s))) = take 2 (drop 5 s)"
      "fixed_digits 2 (decimal_value (drop 8 s)) = drop 8 s"
    using fixed_digits_read [of "take 4 s"] fixed_digits_read [of "take 2 (drop 5 s)"] fixed_digits_read [of "drop 8 s"] s parts(2-4)
    by (simp_all only: date_shape_def)
  then show "s = iso_text d \<and> valid_date d" using parts(1) d by simp
next
  assume s: "s = iso_text d \<and> valid_date d"
  obtain y m n where d: "d = Date y m n" by (cases d)
  have parts: "take 4 s = fixed_digits 4 y" "take 2 (drop 5 s) = fixed_digits 2 m" "drop 8 s = fixed_digits 2 n"
    using s by (simp_all add: d del: fixed_digits.simps)
  have "n \<le> 31" using s by (auto simp: d days_in_month_def split: if_splits)
  then have vals: "decimal_value (fixed_digits 4 y) = y" "decimal_value (fixed_digits 2 m) = m" "decimal_value (fixed_digits 2 n) = n"
    using s by (simp_all add: d fixed_digits_value del: fixed_digits.simps)
  have "date_shape s"
    unfolding date_shape_def parts using s fixed_digits_are_digits
    by (simp add: d nth_append del: fixed_digits.simps)
  then show "date_shape s \<and> strptime_date s = Some d" using s vals by (simp add: strptime_date_def parts d)
qed

lemma digit_not_space: "is_ascii_digit c \<Longrightarrow> \<not> is_space c"
  by (auto simp: is_ascii_digit_def is_space_def Let_def)

lemma strip_shape:
  assumes "date_shape s"
  shows "strip s = s" "s \<noteq> []"
proof -
  note parts = shape_split [OF assms]
  obtain a u where first: "take 4 s = a # u" using parts(2) by (cases "take 4 s") auto
  obtain c z where last: "drop 8 s = c @ [z]" using parts(4) by (cases "drop 8 s" rule: rev_cases) auto
  have "is_ascii_digit a" "is_ascii_digit z" using assms first last by (simp_all add: date_shape_def)
  note no = this [THEN digit_not_space]
  have "s = a # u @ [CHR ''-''] @ take 2 (drop 5 s) @ [CHR ''-''] @ c @ [z]"
    using parts(1) unfolding first last by simp
  then obtain mid where "s = a # mid @ [z]" by (metis append_assoc)
  then show "strip s = s" "s \<noteq> []" using no by (simp_all add: strip_def)
qed

lemma raw_date_Inr: "raw_date_value v = Inr s \<longleftrightarrow> v = Some s \<and> s \<noteq> [] \<and> strip s = s"
  by (auto simp: raw_date_value_def split: option.splits if_splits)

lemma four_digits: "fixed_digits 4 n =
    [digit_char (n div 1000 mod 10), digit_char (n div 100 mod 10), digit_char (n div 10 mod 10), digit_char (n mod 10)]"
proof -
  have "4 = Suc (Suc (Suc (Suc 0)))" by simp
  then show ?thesis by (simp only: fixed_digits.simps append.simps) (simp add: div_mult2_eq [symmetric])
qed

lemma two_digits: "fixed_digits 2 n = [digit_char (n div 10 mod 10), digit_char (n mod 10)]"
  by (simp add: numeral_2_eq_2)

lemma digit_chars: "digit_char 0 = CHR ''0''" "digit_char (Suc 0) = CHR ''1''" "digit_char 1 = CHR ''1''" "digit_char 3 = CHR ''3''"
  by (simp_all add: digit_char_def char_of_eq_iff)

text \<open>The interval of a range of valid days.\<close>

lemma eat_range_Inr:
  assumes "valid_date f" and "valid_date t"
  shows "eat_date_range_to_utc_half_open f t = Inr (s, e) \<longleftrightarrow> 1 < toordinal f \<and> toordinal f \<le> toordinal t \<and>
    toordinal t < toordinal f + 365 \<and> s = (toordinal f - 1) * 86400 - 10800 \<and> e = toordinal t * 86400 - 10800"
  using not_before_ordinal [OF assms]
  by (auto simp: eat_date_range_to_utc_half_open_def eat_midnight_utc_def result_simps Let_def eat_offset_def max_span_days_def
      simp del: toordinal.simps)

text \<open>
  C18: The date range of a statement reads back. The parser accepts exactly the canonical spellings
  (four, two and two digits with hyphens, nothing around them) of two days of the calendar whose
  inclusive range is in order and covers at most 365 days; the first day of year 1 is the one valid
  day it does not accept: the arithmetic of its UTC midnight overflows, an error that is not
  reported as an invalid range.
\<close>

theorem statement_dates_read_back:
  "(parse_statement_date_range raw_from raw_to = Inr (f, t) \<longleftrightarrow>
     raw_from = Some (iso_text f) \<and> raw_to = Some (iso_text t) \<and> valid_date f \<and> valid_date t \<and>
     1 < toordinal f \<and> toordinal f \<le> toordinal t \<and> toordinal t < toordinal f + 365) \<and>
   parse_statement_date_range (Some ''0001-01-01'') (Some ''0001-01-31'') = Inl Date_Overflow"
proof
  have accepted: "parse_statement_date_range raw_from raw_to = Inr (f, t) \<longleftrightarrow>
      (\<exists>a b. raw_date_value raw_from = Inr a \<and> raw_date_value raw_to = Inr b \<and> (date_shape a \<and> strptime_date a = Some f) \<and>
         (date_shape b \<and> strptime_date b = Some t) \<and> (\<exists>s e. eat_date_range_to_utc_half_open f t = Inr (s, e)))"
  proof (cases "raw_date_value raw_from"; cases "raw_date_value raw_to")
    fix a b assume ab: "raw_date_value raw_from = Inr a" "raw_date_value raw_to = Inr b"
    show ?thesis
    proof (cases "date_shape a \<and> date_shape b")
      case True
      then show ?thesis using ab
        by (cases "strptime_date a"; cases "strptime_date b") (auto simp: parse_statement_date_range_def result_simps)
    qed (use ab in \<open>auto simp: parse_statement_date_range_def\<close>)
  qed (simp_all add: parse_statement_date_range_def)
  have raw: "raw_date_value v = Inr (iso_text d) \<longleftrightarrow> v = Some (iso_text d)" if "valid_date d" for v d
    using strip_shape [of "iso_text d"] strptime_iff [of "iso_text d" d] that by (auto simp: raw_date_Inr)
  show "parse_statement_date_range raw_from raw_to = Inr (f, t) \<longleftrightarrow>
     raw_from = Some (iso_text f) \<and> raw_to = Some (iso_text t) \<and> valid_date f \<and> valid_date t \<and>
     1 < toordinal f \<and> toordinal f \<le> toordinal t \<and> toordinal t < toordinal f + 365"
    unfolding accepted strptime_iff using raw eat_range_Inr by metis
  have spelled: "iso_text (Date 1 1 1) = ''0001-01-01''" "iso_text (Date 1 1 31) = ''0001-01-31''"
    by (simp_all only: iso_text.simps four_digits two_digits) (simp_all add: digit_chars)
  have "valid_date (Date 1 1 1)" "valid_date (Date 1 1 31)" by (simp_all add: days_in_month_def)
  then have "date_shape (iso_text d) \<and> strptime_date (iso_text d) = Some d \<and> raw_date_value (Some (iso_text d)) = Inr (iso_text d)"
    if "d \<in> {Date 1 1 1, Date 1 1 31}" for d
    using that strptime_iff raw by blast
  then have "parse_statement_date_range (Some (iso_text (Date 1 1 1))) (Some (iso_text (Date 1 1 31))) =
      bindE (eat_date_range_to_utc_half_open (Date 1 1 1) (Date 1 1 31)) (\<lambda>_. Inr (Date 1 1 1, Date 1 1 31))"
    by (simp add: parse_statement_date_range_def del: iso_text.simps)
  also have "\<dots> = Inl Date_Overflow"
    by (simp add: eat_date_range_to_utc_half_open_def eat_midnight_utc_def eat_offset_def max_span_days_def)
  finally show "parse_statement_date_range (Some ''0001-01-01'') (Some ''0001-01-31'') = Inl Date_Overflow" unfolding spelled .
qed

end
