(* ===== verification/Statement_Contract.thy ===== *)
theory Statement_Contract
  imports Receivable_Books Statement_Dates
begin

text \<open>
  What the statements of the running program show. The checks that guard a statement never fire;
  it lists collections only, because confirming an order posts no receivable entry; and while a
  relationship has no cash or transfer payment, its statement is refused as soon as anything is
  outstanding. Consecutive statements fit together.
\<close>

section \<open>The receivable total of a relationship\<close>

definition order_of_pair :: "uuid \<Rightarrow> uuid \<Rightarrow> order_row \<Rightarrow> bool" where
  "order_of_pair ws ret ord \<longleftrightarrow> o_wholesaler ord = ws \<and> o_retailer ord = ret"

text \<open>The tender of the settled orders of a relationship.\<close>

definition settled_tender :: "store \<Rightarrow> uuid \<Rightarrow> uuid \<Rightarrow> money" where
  "settled_tender db ws ret = (\<Sum>ord\<leftarrow>filter (order_of_pair ws ret) (t_orders db). booked db ord)"

lemma entry_of_pair_alt:
  "entry_of_pair db ws ret l \<longleftrightarrow> statement_entry l \<and>
     (\<exists>ord. row_find o_id (l_reference l) (t_orders db) = Some ord \<and> order_of_pair ws ret ord)"
  by (auto simp: entry_of_pair_def order_of_pair_def split: option.splits)

lemma sum_of_match:
  assumes "distinct (map o_id xs)"
  shows "(\<Sum>x\<leftarrow>filter P xs. if k = o_id x then a else 0) =
    (case row_find o_id k xs of None \<Rightarrow> 0 | Some x \<Rightarrow> if P x then a else (0 :: money))"
  using assms
proof (induction xs)
  case (Cons x xs)
  have "(\<Sum>y\<leftarrow>filter P xs. if k = o_id y then a else 0) = (\<Sum>y\<leftarrow>filter P xs. 0)" if "k = o_id x"
    using Cons.prems that by (intro sum_list_cong') auto
  with Cons show ?case by (auto simp: row_find_def)
qed (simp add: row_find_def)

lemma receivable_total_split:
  assumes ids: "distinct (map o_id (t_orders db))"
  shows "(\<Sum>l\<leftarrow>es. if entry_of_pair db ws ret l then l_amount l else 0) =
    (\<Sum>ord\<leftarrow>filter (order_of_pair ws ret) (t_orders db).
       \<Sum>l\<leftarrow>es. if statement_entry l \<and> l_reference l = o_id ord then l_amount l else 0)"
proof (induction es)
  case (Cons l es)
  have "(\<Sum>ord\<leftarrow>filter (order_of_pair ws ret) (t_orders db). if statement_entry l \<and> l_reference l = o_id ord then l_amount l else 0) =
      (if entry_of_pair db ws ret l then l_amount l else 0)"
  proof (cases "statement_entry l")
    case True
    then show ?thesis
      using sum_of_match [OF ids, where P = "order_of_pair ws ret" and k = "l_reference l" and a = "l_amount l"]
      by (auto simp: entry_of_pair_alt split: option.splits)
  qed (simp add: entry_of_pair_def)
  then show ?case using Cons by (simp add: sum_list_addf)
qed simp

lemma receivable_total:
  assumes "distinct (map o_id (t_orders db))" and "books_ok db"
  shows "ledger_receivable_total db ws ret = - settled_tender db ws ret"
proof -
  have "ledger_receivable_total db ws ret = (\<Sum>l\<leftarrow>t_ledger db. if entry_of_pair db ws ret l then l_amount l else 0)"
    by (simp add: ledger_receivable_total_def sum_list_filter_if)
  also have "\<dots> = (\<Sum>ord\<leftarrow>filter (order_of_pair ws ret) (t_orders db). receivable_of db (o_id ord))"
    unfolding receivable_total_split [OF assms(1)] by (simp add: receivable_of_def sum_list_filter_if conj_commute)
  also have "\<dots> = (\<Sum>ord\<leftarrow>filter (order_of_pair ws ret) (t_orders db). - booked db ord)"
    using assms(2) by (intro sum_list_cong') (auto simp: books_ok_def)
  finally show ?thesis by (simp add: settled_tender_def uminus_sum_list_map comp_def)
qed

section \<open>The checks never fire\<close>

text \<open>What is known of the tenant's database a statement reads.\<close>

definition statement_ready :: "uuid \<Rightarrow> store \<Rightarrow> bool" where
  "statement_ready ws db \<longleftrightarrow> tenant_ok ws db \<and> books_ok db"

lemma run_statement_ready:
  assumes "provisioned start" and "t_ledger start = []" and "\<forall>r \<in> set rs. request_of ws r"
  shows "statement_ready ws (run_requests rs start)"
  using tenant_run [OF assms(1,3)] run_books [OF assms(1,2)] assms(3) by (simp add: statement_ready_def request_of_def)

lemma statement_ready_ids: "statement_ready ws db \<Longrightarrow> distinct (map o_id (t_orders db))"
  by (auto simp: statement_ready_def store_inv_def store_keys_def dest: tenant_ok_store)

lemma entries_found:
  assumes "statement_ready ws db" and "l \<in> set (t_ledger db)" and "statement_entry l"
  shows "row_find o_id (l_reference l) (t_orders db) \<noteq> None" "l_amount l < 0" "tendered db (l_reference l)"
proof -
  have "entry_ok db l" using assms by (simp add: statement_ready_def books_ok_def)
  then show "row_find o_id (l_reference l) (t_orders db) \<noteq> None" "l_amount l < 0" "tendered db (l_reference l)"
    by (auto simp: entry_ok_def row_find_def find_None_iff)
qed

lemma no_orphans: "statement_ready ws db \<Longrightarrow> count_orphan_receivable_refs db = 0"
  using entries_found(1) by (auto simp: count_orphan_receivable_refs_def filter_empty_conv)

text \<open>Every payment belongs to a live order of the tenant and of the payment's retailer.\<close>

lemma payment_order:
  assumes ready: "statement_ready ws db" and p: "p \<in> set (t_payments db)"
  shows "\<exists>ord. row_find o_id (p_order p) (t_orders db) = Some ord \<and> o_wholesaler ord = ws \<and> o_retailer ord = p_retailer p \<and>
    \<not> o_deleted ord \<and> ord \<in> set (t_orders db)" and "\<not> p_deleted p"
proof -
  have fits: "payment_fits (t_orders db) p" using ready p by (simp add: statement_ready_def tenant_ok_def history_ok_alt)
  then obtain ord where ord: "ord \<in> set (t_orders db)" "o_id ord = p_order p" "o_retailer ord = p_retailer p" "\<not> o_deleted ord"
    by (auto simp: payment_fits_def owner_def)
  have "o_wholesaler ord = ws" using ready ord(1) by (auto simp: statement_ready_def tenant_ok_def orders_of_def)
  moreover have "row_find o_id (p_order p) (t_orders db) = Some ord"
    using row_find_unique [OF statement_ready_ids [OF ready] ord(1)] ord(2) by simp
  ultimately show "\<exists>ord. row_find o_id (p_order p) (t_orders db) = Some ord \<and> o_wholesaler ord = ws \<and> o_retailer ord = p_retailer p \<and>
    \<not> o_deleted ord \<and> ord \<in> set (t_orders db)" using ord by blast
  show "\<not> p_deleted p" using fits by (simp add: payment_fits_def)
qed

lemma no_mismatch: "statement_ready ws db \<Longrightarrow> count_completed_payment_ownership_mismatch db ws ret = 0"
  using payment_order(1) by (fastforce simp: count_completed_payment_ownership_mismatch_def filter_empty_conv)

lemma movements_sum:
  assumes "length (fst (list_statement_movements db ws ret s e)) \<le> statement_line_cap"
  shows "sum_receivable_period db ws ret s e = snd (list_statement_movements db ws ret s e)"
    "set (fst (list_statement_movements db ws ret s e)) = {l \<in> set (t_ledger db). entry_of_pair db ws ret l \<and> s \<le> l_date l \<and> l_date l < e}"
proof -
  let ?rows = "filter (\<lambda>l. entry_of_pair db ws ret l \<and> s \<le> l_date l \<and> l_date l < e) (t_ledger db)"
  have "length ?rows \<le> statement_line_cap + 1" using assms by (simp add: list_statement_movements_def Let_def)
  then have "fst (list_statement_movements db ws ret s e) = sort_key (\<lambda>l. (l_date l, l_id l)) ?rows"
    by (simp add: list_statement_movements_def Let_def)
  then show "sum_receivable_period db ws ret s e = snd (list_statement_movements db ws ret s e)"
      "set (fst (list_statement_movements db ws ret s e)) = {l \<in> set (t_ledger db). entry_of_pair db ws ret l \<and> s \<le> l_date l \<and> l_date l < e}"
    by (auto simp: list_statement_movements_def Let_def sum_receivable_period_def sum_list_sort_key)
qed

section \<open>The document of a ready database\<close>

definition statement_lines :: "(uuid \<Rightarrow> nat) \<Rightarrow> store \<Rightarrow> uuid \<Rightarrow> uuid \<Rightarrow> nat \<Rightarrow> nat \<Rightarrow> bool \<Rightarrow> nat" where
  "statement_lines created db ws ret s e pending =
     length (fst (list_statement_movements db ws ret s e)) + length (list_settled_payments created db ws ret s e) +
     (if pending then length (list_pending_declarations db ws ret s e) else 0)"

text \<open>What a document says of the ledger between two instants.\<close>

definition shows_ledger :: "statement_view \<Rightarrow> store \<Rightarrow> uuid \<Rightarrow> uuid \<Rightarrow> nat \<Rightarrow> nat \<Rightarrow> bool" where
  "shows_ledger v db ws ret s e \<longleftrightarrow> st_opening v = sum_receivable_before db ws ret s \<and>
     st_net v = sum_receivable_period db ws ret s e \<and> st_closing v = st_opening v + st_net v \<and>
     st_movements v = map movement_view (fst (list_statement_movements db ws ret s e)) \<and>
     st_charges v = (\<Sum>l\<leftarrow>filter (\<lambda>l. l_amount l > 0) (fst (list_statement_movements db ws ret s e)). l_amount l) \<and>
     st_collections v = \<bar>\<Sum>l\<leftarrow>filter (\<lambda>l. l_amount l < 0) (fst (list_statement_movements db ws ret s e)). l_amount l\<bar>"

lemma statement_view_ledger:
  assumes "build_statement_print book created db ws ret f t pending = Inr (View v)"
    and "eat_date_range_to_utc_half_open f t = Inr (s, e)"
  shows "shows_ledger v db ws ret s e" "length (fst (list_statement_movements db ws ret s e)) \<le> statement_line_cap"
  using assms
  by (auto simp: build_statement_print_def shows_ledger_def Let_def split: prod.splits if_splits)

lemma statement_range:
  assumes "build_statement_print book created db ws ret f t pending = Inr (View v)"
  obtains s e where "eat_date_range_to_utc_half_open f t = Inr (s, e)"
  using assms by (auto simp: build_statement_print_def split: sum.splits period_failure.splits)

lemma build_ready:
  assumes ready: "statement_ready ws db" and range: "eat_date_range_to_utc_half_open f t = Inr (s, e)"
  shows "\<exists>v. build_statement_print book created db ws ret f t pending = Inr (
     if \<not> binding_active db ws ret then Not_Found
     else if statement_line_cap < statement_lines created db ws ret s e pending then Failed Statement_Range_Too_Large
     else if \<not> reconciles db ws ret then Failed Statement_Reconciliation_Failed else View v)"
proof (cases "binding_active db ws ret \<and> length (fst (list_statement_movements db ws ret s e)) \<le> statement_line_cap")
  case True
  obtain rows total where rows: "list_statement_movements db ws ret s e = (rows, total)" by fastforce
  note m = movements_sum [of db ws ret s e, unfolded rows fst_conv snd_conv]
  have "l_amount l < 0" if "l \<in> set rows" for l
    using that m(2) True rows entries_found(2) [OF ready] by (auto simp: entry_of_pair_def)
  then have "\<not> list_ex (\<lambda>l. l_amount l = 0) rows" by (fastforce simp: list_ex_iff)
  then show ?thesis
    using True m(1) by (auto simp: build_statement_print_def range rows no_orphans [OF ready] no_mismatch [OF ready]
        statement_lines_def Let_def split: prod.splits)
next
  case False
  then show ?thesis
    by (auto simp: build_statement_print_def range no_orphans [OF ready] no_mismatch [OF ready] statement_lines_def Let_def
        split: prod.splits)
qed

text \<open>Without completed tender the receivable total is zero.\<close>

lemma tendered_of_pair:
  assumes ready: "statement_ready ws db" and ord: "ord \<in> set (t_orders db)" "o_retailer ord = ret" and t: "tendered db (o_id ord)"
  shows "relationship_has_non_credit_payment db ws ret"
proof -
  from t obtain p where p: "p \<in> set (t_payments db)" "p_order p = o_id ord" "p_method p \<in> {Cash, Transfer}" "p_status p = Completed"
    by (auto simp: tendered_def)
  note own = payment_order [OF ready p(1)]
  have "row_find o_id (p_order p) (t_orders db) = Some ord"
    using row_find_unique [OF statement_ready_ids [OF ready] ord(1)] p(2) by simp
  with own p ord show ?thesis unfolding relationship_has_non_credit_payment_def list_ex_iff payment_of_pair_def by auto
qed

lemma no_tender_no_receivable:
  assumes ready: "statement_ready ws db" and none: "\<not> relationship_has_non_credit_payment db ws ret"
  shows "ledger_receivable_total db ws ret = 0"
proof -
  have "\<not> entry_of_pair db ws ret l" if l: "l \<in> set (t_ledger db)" for l
  proof
    assume e: "entry_of_pair db ws ret l"
    then obtain ord where "row_find o_id (l_reference l) (t_orders db) = Some ord" "o_retailer ord = ret" "statement_entry l"
      by (auto simp: entry_of_pair_def split: option.splits)
    then show False using tendered_of_pair [OF ready] none entries_found(3) [OF ready l] row_find_Some by metis
  qed
  then show ?thesis by (simp add: ledger_receivable_total_def filter_False)
qed

lemma active_balance:
  assumes ready: "statement_ready ws db" and act: "binding_active db ws ret"
  shows "cached_binding_balance db ws ret = Some (occupation db ws ret)" "0 \<le> occupation db ws ret"
proof -
  have inv: "store_inv db" using ready tenant_ok_store by (auto simp: statement_ready_def)
  obtain b where b: "b \<in> set (t_bindings db)" "b_wholesaler b = ws" "b_retailer b = ret" "\<not> b_deleted b" "b_status b = Binding_Active"
    using act by (force simp: binding_active_def find_Some_iff split: option.splits)
  have "inj_on (\<lambda>b. (b_wholesaler b, b_retailer b)) (set (t_bindings db))"
    using inv by (simp add: store_inv_def store_keys_def distinct_map)
  then have uniq: "x = b" if "x \<in> set (t_bindings db)" "b_wholesaler x = ws" "b_retailer x = ret" for x
    using that b by (auto dest: inj_onD)
  define P where "P = (\<lambda>b :: binding_row. b_wholesaler b = ws \<and> b_retailer b = ret \<and> \<not> b_deleted b \<and> b_status b = Binding_Active)"
  have "find P (t_bindings db) \<noteq> None" using b by (auto simp: find_None_iff P_def)
  then obtain x where x: "find P (t_bindings db) = Some x" by blast
  then have "x \<in> set (t_bindings db)" "P x" by (auto simp: find_Some_iff)
  then have "x = b" using uniq by (simp add: P_def)
  moreover have "b_balance b = occupation db ws ret" using inv b by (auto simp: store_inv_def cache_exact_def)
  ultimately show "cached_binding_balance db ws ret = Some (occupation db ws ret)"
    using x by (simp add: cached_binding_balance_def P_def)
  show "0 \<le> occupation db ws ret" using balances_nonneg [OF inv b(1,4)] \<open>b_balance b = _\<close> by simp
qed

lemma reconciles_ready:
  assumes "statement_ready ws db" and "binding_active db ws ret"
  shows "reconciles db ws ret \<longleftrightarrow> relationship_has_non_credit_payment db ws ret \<or> occupation db ws ret \<le> 1 / 100"
  using active_balance [OF assms] no_tender_no_receivable [OF assms(1)] by (auto simp: reconciles_def)

section \<open>Properties\<close>

text \<open>
  C14: The outcome of a statement is decided by four facts. After any sequence of a tenant's requests with
  payment amounts in whole cents on a tenant that starts with an empty ledger, no integrity check ever refuses a statement: it is not
  found without an active binding, too large above a thousand lines, and otherwise printed, unless
  the relationship has no completed cash or transfer payment and more than a cent is outstanding.
  Such a relationship (a confirmed unpaid order suffices) always fails the reconciliation, since
  its receivable entries sum to zero.
\<close>

theorem statement_outcome:
  assumes "provisioned start" and "t_ledger start = []" and "\<forall>r \<in> set rs. request_of ws r"
    and "db = run_requests rs start" and "eat_date_range_to_utc_half_open f t = Inr (s, e)"
  shows "\<exists>v. build_statement_print book created db ws ret f t pending = Inr (
     if \<not> binding_active db ws ret then Not_Found
     else if statement_line_cap < statement_lines created db ws ret s e pending then Failed Statement_Range_Too_Large
     else if \<not> relationship_has_non_credit_payment db ws ret \<and> 1 / 100 < occupation db ws ret
     then Failed Statement_Reconciliation_Failed else View v)"
proof -
  have ready: "statement_ready ws db" using run_statement_ready assms(1-4) by simp
  from build_ready [OF ready assms(5), of book created ret pending] obtain v where
    "build_statement_print book created db ws ret f t pending = Inr (
     if \<not> binding_active db ws ret then Not_Found
     else if statement_line_cap < statement_lines created db ws ret s e pending then Failed Statement_Range_Too_Large
     else if \<not> reconciles db ws ret then Failed Statement_Reconciliation_Failed else View v)" by blast
  then show ?thesis using reconciles_ready [OF ready] by (intro exI [of _ v]) (auto simp: not_le)
qed

text \<open>
  C15: A statement never shows a charge. After any sequence of a tenant's requests with payment amounts in
  whole cents, every movement of a statement is a collection that refers to an order with completed tender, the charge total is
  zero, the balances are never positive and fall by the collections; the receivable total of the
  relationship is minus the tender of its settled orders, whatever the orders still owe.
\<close>

theorem statement_never_charges:
  assumes "provisioned start" and "t_ledger start = []" and "\<forall>r \<in> set rs. request_of ws r"
    and "db = run_requests rs start"
    and "build_statement_print book created db ws ret f t pending = Inr (View v)"
  shows "st_charges v = 0 \<and> st_opening v \<le> 0 \<and> st_closing v = st_opening v - st_collections v \<and>
    (\<forall>m \<in> set (st_movements v). sm_kind m = Collection \<and> tendered db (sm_reference m)) \<and>
    ledger_receivable_total db ws ret = - settled_tender db ws ret"
proof -
  have ready: "statement_ready ws db" using run_statement_ready assms(1-4) by simp
  obtain s e where range: "eat_date_range_to_utc_half_open f t = Inr (s, e)" using assms(5) by (rule statement_range)
  note v = statement_view_ledger [OF assms(5) range]
  let ?rows = "fst (list_statement_movements db ws ret s e)"
  have neg: "l_amount l < 0" "tendered db (l_reference l)" if "l \<in> set ?rows" for l
    using that movements_sum(2) [OF v(2)] entries_found(2,3) [OF ready] by (auto simp: entry_of_pair_def)
  have not_pos: "\<not> 0 < l_amount l" if "l \<in> set ?rows" for l using neg(1) [OF that] by simp
  have "filter (\<lambda>l. l_amount l > 0) ?rows = []" "filter (\<lambda>l. l_amount l < 0) ?rows = ?rows"
    using neg(1) order_less_asym by (blast intro: filter_False filter_True)+
  moreover have "(\<Sum>l\<leftarrow>?rows. l_amount l) \<le> 0" using neg(1) by (intro sum_list_nonpos) (auto simp: less_imp_le)
  moreover have "(\<Sum>l\<leftarrow>?rows. l_amount l) = sum_receivable_period db ws ret s e"
    using movements_sum(1) [OF v(2)] by (simp add: list_statement_movements_def Let_def)
  moreover have "sum_receivable_before db ws ret s \<le> 0"
    unfolding sum_receivable_before_def using entries_found(2) [OF ready]
    by (intro sum_list_nonpos) (auto simp: entry_of_pair_def less_imp_le)
  ultimately show ?thesis
    using v(1) neg(2) not_pos receivable_total [OF statement_ready_ids [OF ready]] ready
    by (auto simp: shows_ledger_def movement_view_def statement_ready_def)
qed

text \<open>
  C16: Consecutive statements fit together. If one statement ends on the day before another begins,
  the closing balance of the first is the opening balance of the second, whatever the ledger holds.
\<close>

theorem consecutive_statements_chain:
  assumes "build_statement_print book created db ws ret f t pending = Inr (View v)"
    and "build_statement_print book' created' db ws ret f' t' pending' = Inr (View v')"
    and "valid_date f" and "valid_date t" and "valid_date f'" and "valid_date t'" and "toordinal f' = Suc (toordinal t)"
  shows "st_closing v = st_opening v'"
proof -
  obtain s e where r: "eat_date_range_to_utc_half_open f t = Inr (s, e)" using assms(1) by (rule statement_range)
  obtain s' e' where r': "eat_date_range_to_utc_half_open f' t' = Inr (s', e')" using assms(2) by (rule statement_range)
  have split: "s \<le> e" "s' = e"
    using r r' assms(7) unfolding eat_range_Inr [OF assms(3,4)] eat_range_Inr [OF assms(5,6)] by auto
  have "st_closing v = sum_receivable_before db ws ret s + sum_receivable_period db ws ret s e"
    using statement_view_ledger [OF assms(1) r] by (simp add: shows_ledger_def)
  also have "\<dots> = sum_receivable_before db ws ret e"
    unfolding sum_receivable_before_def sum_receivable_period_def sum_list_filter_if sum_list_addf [symmetric]
    using split(1) by (intro sum_list_cong') auto
  also have "\<dots> = st_opening v'"
    using statement_view_ledger [OF assms(2) r'] split(2) by (simp add: shows_ledger_def)
  finally show ?thesis .
qed

section \<open>Witnesses\<close>

definition sample_names :: name_book where
  "sample_names = \<lparr>n_wholesalers = (\<lambda>_. Some (Some ''Supply'')), n_retailers = (\<lambda>_. None)\<rparr>"

lemmas statement_defs = build_statement_print_def eat_date_range_to_utc_half_open_def eat_midnight_utc_def eat_offset_def
  max_span_days_def leap_year_def days_in_month_def binding_active_def count_orphan_receivable_refs_def statement_entry_def
  count_completed_payment_ownership_mismatch_def sum_receivable_before_def entry_of_pair_def list_statement_movements_def
  sum_receivable_period_def list_settled_payments_def payment_of_pair_def reconciles_def
  relationship_has_non_credit_payment_def statement_line_cap_def row_find_def

lemma january_days: "(\<Sum>k\<leftarrow>[Suc 0..<2]. days_in_month y k) = 31"
  by (simp add: numeral_2_eq_2 days_in_month_def)

lemma sample_ranges:
  "eat_date_range_to_utc_half_open (Date 2026 1 1) (Date 2026 1 31) = Inr (63902811600, 63905490000)"
  "eat_date_range_to_utc_half_open (Date 2026 2 1) (Date 2026 2 28) = Inr (63905490000, 63907909200)"
  by (simp_all add: eat_date_range_to_utc_half_open_def eat_midnight_utc_def eat_offset_def max_span_days_def january_days)

theorem statement_outcome_witness:
  "occupation tenant_confirmed 7 8 = 150 \<and>
   build_statement_print sample_names (\<lambda>_. 0) tenant_confirmed 7 8 (Date 2026 1 1) (Date 2026 1 31) False =
     Inr (Failed Statement_Reconciliation_Failed)"
proof -
  have run: "run_requests (take 2 sample_requests) sample_tenant = tenant_confirmed"
    by (simp add: sample_requests_def attempt_def tenant_steps del: serve.simps)
  have facts: "binding_active tenant_confirmed 7 8" "\<not> relationship_has_non_credit_payment tenant_confirmed 7 8"
      "statement_lines (\<lambda>_. 0) tenant_confirmed 7 8 63902811600 63905490000 False = 0"
    by (simp_all add: statement_defs tenant_defs statement_lines_def)
  have occ: "occupation tenant_confirmed 7 8 = 150"
    by (simp add: occupation_def order_exposure_def credit_owed_def credit_total_def get_order_paid_total_def
        get_order_method_total_def order_payments_def order_holds_def tenant_defs)
  have "t_ledger sample_tenant = []" by (simp add: sample_tenant_def sample_store_def)
  from statement_outcome [OF sample_provisioned this sample_requests_of run [symmetric] sample_ranges(1), of sample_names "\<lambda>_. 0" 8 False]
  show ?thesis using facts occ by simp
qed

lemma settled_statement:
  "\<exists>v. build_statement_print sample_names (\<lambda>_. 0) tenant_settled 7 8 (Date 2026 1 1) (Date 2026 1 31) False = Inr (View v) \<and>
     st_closing v = - 150"
  "\<exists>v. build_statement_print sample_names (\<lambda>_. 0) tenant_settled 7 8 (Date 2026 2 1) (Date 2026 2 28) False = Inr (View v)"
  unfolding build_statement_print_def sample_ranges
  by (simp_all add: statement_defs tenant_defs split: prod.split)

lemma sample_run_of: "\<forall>r \<in> set sample_requests. request_of 7 r"
  by (simp add: sample_requests_def request_of_def)

theorem statement_never_charges_witness:
  "\<exists>v. build_statement_print sample_names (\<lambda>_. 0) tenant_settled 7 8 (Date 2026 1 1) (Date 2026 1 31) False = Inr (View v) \<and>
     st_charges v = 0 \<and> st_closing v = - 150 \<and> ledger_receivable_total tenant_settled 7 8 = - settled_tender tenant_settled 7 8"
proof -
  obtain v where v: "build_statement_print sample_names (\<lambda>_. 0) tenant_settled 7 8 (Date 2026 1 1) (Date 2026 1 31) False = Inr (View v)"
    "st_closing v = - 150" using settled_statement(1) by blast
  have "t_ledger sample_tenant = []" by (simp add: sample_tenant_def sample_store_def)
  from statement_never_charges [OF sample_provisioned this sample_run_of sample_requests_run [symmetric] v(1)] v
  show ?thesis by blast
qed

theorem consecutive_statements_chain_witness:
  "\<exists>v v'. build_statement_print sample_names (\<lambda>_. 0) tenant_settled 7 8 (Date 2026 1 1) (Date 2026 1 31) False = Inr (View v) \<and>
     build_statement_print sample_names (\<lambda>_. 0) tenant_settled 7 8 (Date 2026 2 1) (Date 2026 2 28) False = Inr (View v') \<and>
     st_closing v = - 150 \<and> st_opening v' = - 150"
proof -
  obtain v v' where v: "build_statement_print sample_names (\<lambda>_. 0) tenant_settled 7 8 (Date 2026 1 1) (Date 2026 1 31) False = Inr (View v)"
    "st_closing v = - 150"
    "build_statement_print sample_names (\<lambda>_. 0) tenant_settled 7 8 (Date 2026 2 1) (Date 2026 2 28) False = Inr (View v')"
    using settled_statement by blast
  have "valid_date (Date 2026 1 1)" "valid_date (Date 2026 1 31)" "valid_date (Date 2026 2 1)" "valid_date (Date 2026 2 28)"
      "toordinal (Date 2026 2 1) = Suc (toordinal (Date 2026 1 31))"
    by (simp_all add: days_in_month_def leap_year_def january_days)
  from consecutive_statements_chain [OF v(1,3) this] v show ?thesis by auto
qed

end
