(* ===== verification/Receipt_Contract.thy ===== *)
theory Receipt_Contract
  imports Print_Documents Receivables_Report
begin

text \<open>
  The receipt of a confirmed declaration. The payment under a declaration's canonical key is written
  as completed, so in the running program the eligibility check of a receipt asks for no more than an
  active binding and a receipt number of the canonical shape.
\<close>

section \<open>Payments under reserved keys are completed\<close>

definition reserved_completed :: "payment_row \<Rightarrow> bool" where
  "reserved_completed p \<longleftrightarrow>
     (case p_key p of None \<Rightarrow> True | Some key \<Rightarrow> prefix declaration_confirmation_key_prefix key \<longrightarrow> p_status p = Completed)"

definition confirmations_ok :: "store \<Rightarrow> bool" where
  "confirmations_ok db \<longleftrightarrow> list_all reserved_completed (t_payments db)"

lemma confirmations_same: "t_payments db' = t_payments db \<Longrightarrow> confirmations_ok db' = confirmations_ok db"
  by (simp add: confirmations_ok_def)

lemma confirmations_completed:
  "confirmations_ok db \<Longrightarrow> confirmations_ok (snd (update_cash_transfer_to_completed oid db))"
  by (auto simp: confirmations_ok_def update_cash_transfer_to_completed_def list_all_iff reserved_completed_def split: option.splits)

lemma settle_confirmations:
  assumes run: "settle_order ord [h] target q m usr force db = Inr (ord', db')" and ok: "confirmations_ok db"
  shows "confirmations_ok db'"
proof -
  from run obtain db1 r db2 where
      hold: "(if m = Credit then convert_hold [h] usr db else reduce_hold [h] q usr db) = Inr db1"
    and trans: "apply_payment_transition_for_locked ord target (Some m) usr db1 = Inr (r, db2)"
    and rest: "(let ord' = cr_order r;
         db3 = (if \<not> force \<and> o_status ord' = PAID
                then snd (update_cash_transfer_to_completed (o_id ord) db2) else db2)
     in if m \<noteq> Credit
        then bindE (apply_outstanding_balance_delta (o_wholesaler ord) (o_retailer ord) (- q) db3)
               (\<lambda>db4. Inr (ord', db4))
        else Inr (ord', db3)) = Inr (ord', db')"
    by (auto simp: settle_order_def result_simps)
  have "confirmations_ok db2"
    using ok hold_write_payments [OF hold] transition_effect [OF trans] by (simp add: confirmations_ok_def)
  then show ?thesis
    using rest confirmations_completed [of db2 "o_id ord"]
    by (cases "m = Credit") (auto simp: result_simps Let_def confirmations_same [OF delta_payments] split: if_splits)
qed

lemma locked_payment_confirmations:
  assumes inv: "store_inv db" and live: "live_order db oid = Some ord" and ok: "confirmations_ok db"
    and run: "confirm_payment_for_locked_order no_race ord a m txn key usr force alloc db = Inr (pr, db')"
    and key: "public_key key \<or> force"
  shows "confirmations_ok db'"
  using run
proof (rule locked_payment_run)
  fix q target coll h receipt db1 p db2 ord'
  assume rc: "with_receipt (alloc \<and> payment_status_of force coll m target = Completed) db = (receipt, db1)"
    and row: "create_payment_row (o_id ord) (o_retailer ord) txn (Some key) q m
       (payment_status_of force coll m target) usr receipt db1 = Inr (p, db2)"
    and eff: "(if coll then collect_on_credit ord q db2
      else settle_order ord [h] target q m usr force db2) = Inr (ord', db')"
  note f = with_receipt_frame [OF rc] row [unfolded create_payment_row_Inr]
  have two: "confirmations_ok db2"
    using ok f key by (auto simp: confirmations_ok_def reserved_completed_def payment_status_of_def public_key_def)
  have keys2: "distinct (map (\<lambda>b. (b_wholesaler b, b_retailer b)) (t_bindings db2))"
    using store_inv_parts(1) [OF inv live] f by simp
  show ?thesis
  proof (cases coll)
    case True
    with eff collect_effect [OF keys2] two show ?thesis by (auto cong: confirmations_same)
  next
    case False
    with eff two show ?thesis using settle_confirmations by simp
  qed
qed (use ok in simp)

lemma payment_confirmations:
  assumes inv: "store_inv db" and ok: "confirmations_ok db" and pub: "public_key key"
    and run: "confirm_payment no_race oid a m txn key usr force alloc db = Inr (pr, db')"
  shows "confirmations_ok db'"
proof (cases "get_by_idempotency_key db key")
  case None
  with run obtain ord u where "live_order db u = Some ord"
    "confirm_payment_for_locked_order no_race ord a m txn key usr force alloc db = Inr (pr, db')"
    by (auto simp: confirm_payment_def get_order_by_id_for_update_def result_simps split: option.splits)
  then show ?thesis by (rule locked_payment_confirmations [OF inv _ ok]) (simp add: pub)
next
  case (Some p)
  with run have "db' = db"
    by (auto simp: confirm_payment_def replay_result_def result_simps split: option.splits if_splits)
  then show ?thesis using ok by simp
qed

lemma serve_confirmations:
  assumes inv: "erp_inv db" and ok: "confirmations_ok db" and exact: "exact_amounts c" and run: "serve c db = Inr db'"
  shows "confirmations_ok db'"
proof -
  have store: "store_inv db" and pay: "pay_inv db" and decls: "declarations_ok db" and acc: "accounted db" and on: "on_hand_cents db"
    using inv by (simp_all add: erp_inv_def pay_inv_def store_inv_def)
  have ids: "distinct (map d_id (t_declarations db))" using decls by (simp add: declarations_ok_def)
  note same = confirmations_same [THEN iffD2, OF _ ok]
  show ?thesis
    using run exact
  proof (rule serve_cases)
    fix ws ret lines remark usr ord assume "crud_create_order ws ret lines remark usr db = Inr (ord, db')"
    then show ?thesis by (rule crud_create_order_Inr) (auto intro!: same)
  next
    fix oid q m txn key usr pr
    assume "confirm_payment no_race oid (Finite q) m txn key usr False False db = Inr (pr, db')" "public_key key"
    then show ?thesis using payment_confirmations [OF store ok] by blast
  next
    fix code q usr assume "adjust_stock code q usr db = Inr db'" "in_cents q"
    then have "stock_step db db'" using adjust_stock_step [OF acc on] by blast
    then show ?thesis using stock_step_tables by (intro same) simp
  next
    fix oid ret ws usr a m ref key d rep
    assume "submit_declaration no_race oid ret ws usr a m ref key db = Inr ((d, rep), db')"
    then show ?thesis by (rule submit_declaration_cases) (auto simp: create_declaration_Inr ok intro!: same)
  next
    fix did ws usr dd pr assume run: "confirm_declaration no_race did ws usr db = Inr ((dd, pr), db')"
    then show ?thesis
    proof (rule confirm_declaration_cases)
      fix d assume d: "decl_by_wholesaler_dual_key db did ws = Some d" "d_status d = Decl_Pending"
      from pay decls d run obtain ord dm where live: "live_order db (d_order d) = Some ord"
        and locked: "confirm_payment_for_locked_order no_race ord (Finite (d_amount d)) (d_method d)
           (blank_to_none (d_transfer_reference d)) (canonical_key did) (Some usr) True True db = Inr (pr, dm)"
        and db': "db' = with_decl (confirmed_by usr (p_id (pr_payment pr))) did dm"
        by (rule confirm_pending_effect)
      have "confirmations_ok dm" using locked_payment_confirmations [OF store live ok locked] by simp
      then show ?thesis by (simp add: db' confirmations_ok_def)
    qed (simp add: ok)
  next
    fix did ws usr reason x assume "reject_declaration did ws usr reason db = Inr (x, db')"
    then obtain d where d: "decl_by_wholesaler_dual_key db did ws = Some d"
      and m: "mark_rejected did ws usr reason db = Inr db'"
      by (auto simp: reject_declaration_def decl_for_update_by_wholesaler_def result_simps split: option.splits if_splits)
    then show ?thesis by (auto simp: mark_rejected_def update_pending_run [OF ids d] split: if_splits intro!: same)
  next
    fix cat assume "serve_catalog cat db = Inr db'"
    then show ?thesis using catalog_frame serve_catalog_step by (blast intro: same)
  qed (use command_frame [OF store] in \<open>blast intro: same\<close>)+
qed

interpretation program_confirmations: transactional_pair serve erp_inv exact_amounts confirmations_ok
  by unfold_locales (auto intro: serve_confirmations)

lemma run_confirmations:
  assumes "provisioned start" and "\<forall>r \<in> set rs. exact_amounts r"
  shows "confirmations_ok (run_requests rs start)"
  using program_confirmations.both.calls_keep [of start rs] provisioned_inv [OF assms(1)] assms
  by (simp add: confirmations_ok_def provisioned_def)

section \<open>Every confirmed declaration has its receipt\<close>

text \<open>The receipt both routes print of a confirmed declaration.\<close>

definition receipt_of :: "name_book \<Rightarrow> uuid \<Rightarrow> declaration_row \<Rightarrow> payment_row \<Rightarrow> order_row \<Rightarrow> receipt_print" where
  "receipt_of book ws d p ord =
     \<lparr>rp_declaration = d_id d, rp_order_id = d_order d, rp_supplier_name = fst (resolve_business_names book ws (d_retailer d)),
      rp_retailer_name = snd (resolve_business_names book ws (d_retailer d)), rp_receipt_number = p_receipt p,
      rp_confirmed_amount = d_amount d, rp_method = d_method d, rp_declared_amount = d_amount d,
      rp_order_status = map_order_status_for_client (o_status ord), rp_order_total = o_total ord\<rparr>"

lemma found_by_key:
  "distinct (map key rows) \<Longrightarrow> r \<in> set rows \<Longrightarrow> key r = k \<Longrightarrow> P r \<Longrightarrow> find (\<lambda>x. key x = k \<and> P x) rows = Some r"
  by (induction rows) (auto simp: rev_image_eqI)

lemma canonical_payment_confirms:
  assumes inv: "erp_inv db" and d: "d \<in> set (t_declarations db)"
    and p: "p \<in> set (t_payments db)" "p_key p = Some (canonical_key (d_id d))"
  shows "confirms d p"
proof -
  have decls: "declarations_ok db" using inv by (simp add: erp_inv_def)
  have "payment_core p \<in> set (payment_cores db)" "p_key (payment_core p) = Some (canonical_key (d_id d))"
    using p by (simp_all add: payment_cores_def)
  from declarations_ok_owner [OF decls this canonical_key_reserved] obtain x where
      x: "x \<in> set (t_declarations db)" "confirms x p" by auto
  then have "d_id x = d_id d" using p(2) by (intro canonical_key_inj) (simp add: confirms_def)
  then have "x = d" using decls x(1) d by (auto simp: declarations_ok_def distinct_map dest: inj_onD)
  then show ?thesis using x by simp
qed

lemma valid_receipt_text: "is_valid_receipt_number r \<Longrightarrow> r \<noteq> None \<and> r \<noteq> Some ''''"
  by (auto simp: is_valid_receipt_number_def receipt_shape_def split: option.splits)

text \<open>
  C17: Every confirmed declaration has its receipt. After any sequence of a tenant's requests with payment
  amounts in whole cents, a confirmed declaration of the tenant whose payment carries a well-formed receipt number, and whose
  binding is active, is printed by the supplier's route and by the retailer's route as the same
  receipt: of the declared order, method and amount, with the payment's number; the declaration's
  own document says that it is a receipt.
\<close>

theorem confirmed_declaration_has_receipt:
  assumes "provisioned start" and "\<forall>r \<in> set rs. request_of ws r" and "db = run_requests rs start"
    and "d \<in> set (t_declarations db)" and "d_wholesaler d = ws" and "d_status d = Decl_Confirmed"
    and "p \<in> set (t_payments db)" and "p_key p = Some (canonical_key (d_id d))"
    and "is_valid_receipt_number (p_receipt p)" and "binding_active db ws (d_retailer d)"
  shows "\<exists>ord doc. ord \<in> set (t_orders db) \<and> o_id ord = d_order d \<and>
    get_receipt book (Canonical (d_id d)) ws db = Inr (receipt_of book ws d p ord) \<and>
    get_client_receipt book (Canonical (d_id d)) (d_retailer d) ws db = Inr (receipt_of book ws d p ord) \<and>
    print_declaration book (Canonical (d_id d)) ws db = Inr doc \<and> pd_is_receipt doc \<and> pd_amount doc = d_amount d"
proof -
  have exact: "\<forall>r \<in> set rs. exact_amounts r" using assms(2) by (simp add: request_of_def)
  have ok: "tenant_ok ws db" using tenant_run [OF assms(1,2)] assms(3) by simp
  then have inv: "erp_inv db" and mine: "orders_of ws db" and hist: "history_ok db" by (simp_all add: tenant_ok_def)
  have decls: "declarations_ok db" and pids: "distinct (map p_id (t_payments db))" and ids: "distinct (map o_id (t_orders db))"
    using inv by (simp_all add: erp_inv_def pay_inv_def payment_ids_def store_inv_def store_keys_def)
  have dids: "distinct (map d_id (t_declarations db))" using decls by (simp add: declarations_ok_def)
  have conf: "confirms d p" by (rule canonical_payment_confirms [OF inv assms(4,7,8)])
  have completed: "p_status p = Completed"
    using run_confirmations [OF assms(1) exact] assms(3,7,8) by (auto simp: confirmations_ok_def list_all_iff reserved_completed_def)
  obtain ord where ord: "ord \<in> set (t_orders db)" "o_id ord = d_order d" "o_retailer ord = d_retailer d" "\<not> o_deleted ord"
    using hist assms(7) conf by (auto simp: history_ok_alt payment_fits_def owner_def confirms_def)
  have ws: "o_wholesaler ord = ws" using mine ord(1) by (auto simp: orders_of_def)
  have pay: "get_by_id db (the (d_payment d)) = Some p"
    unfolding get_by_id_def using conf found_by_key [OF pids assms(7)] by (simp add: confirms_def)
  have row: "decl_by_wholesaler_dual_key db (d_id d) ws = Some d"
      "decl_by_retailer_dual_key db (d_id d) (d_retailer d) ws = Some d"
    unfolding decl_by_wholesaler_dual_key_def decl_by_retailer_dual_key_def
    using found_by_key [OF dids assms(4)] assms(5) by simp_all
  have orders: "get_order_for_wholesaler db (str_uuid (d_order d)) (str_uuid ws) = Some ord"
      "get_order_for_retailer db (str_uuid (d_order d)) (str_uuid ws) (str_uuid (d_retailer d)) = Some ord"
    using found_by_key [OF ids ord(1,2)] ord ws
    by (simp_all add: get_order_for_wholesaler_def get_order_for_retailer_def)
  have elig: "check_receipt_eligibility db (Some (declaration_detail db d)) ws"
    using assms(6,9,10) conf completed pay orders ord valid_receipt_text
    by (auto simp: check_receipt_eligibility_def declaration_detail_def confirms_def)
  have "get_receipt book (Canonical (d_id d)) ws db = Inr (receipt_of book ws d p ord)"
      "get_client_receipt book (Canonical (d_id d)) (d_retailer d) ws db = Inr (receipt_of book ws d p ord)"
    using elig row pay orders ord ws conf
    by (simp_all add: get_receipt_def get_client_receipt_def get_detail_by_wholesaler_def get_detail_by_retailer_def
        build_receipt_print_def receipt_of_def declaration_detail_def confirms_def split_beta Let_def)
  moreover have "\<exists>doc. print_declaration book (Canonical (d_id d)) ws db = Inr doc \<and> pd_is_receipt doc \<and> pd_amount doc = d_amount d"
    using elig row assms(6,10)
    by (simp add: print_declaration_def get_detail_by_wholesaler_def build_declaration_print_def declaration_detail_def split_beta Let_def)
  ultimately show ?thesis using ord(1,2) by blast
qed

theorem confirmed_declaration_has_receipt_witness:
  "\<exists>ord. get_receipt \<lparr>n_wholesalers = \<lambda>_. None, n_retailers = \<lambda>_. None\<rparr> (Canonical 1004) 7 tenant_settled =
     Inr (receipt_of \<lparr>n_wholesalers = \<lambda>_. None, n_retailers = \<lambda>_. None\<rparr> 7
       (sample_declaration\<lparr>d_status := Decl_Confirmed, d_confirmed_by := Some 9, d_payment := Some 1005\<rparr>) sample_settlement ord)"
proof -
  let ?d = "sample_declaration\<lparr>d_status := Decl_Confirmed, d_confirmed_by := Some 9, d_payment := Some 1005\<rparr>"
  have of_tenant: "\<forall>r \<in> set sample_requests. request_of 7 r" by (simp add: sample_requests_def request_of_def)
  have d: "?d \<in> set (t_declarations tenant_settled)" "d_wholesaler ?d = 7" "d_status ?d = Decl_Confirmed" "d_id ?d = 1004"
    by (simp_all add: tenant_settled_def sample_declaration_def)
  have p: "sample_settlement \<in> set (t_payments tenant_settled)" "p_key sample_settlement = Some (canonical_key (d_id ?d))"
      "is_valid_receipt_number (p_receipt sample_settlement)"
    by (simp_all add: tenant_settled_def sample_settlement_def sample_declaration_def sample_canonical_key
        is_valid_receipt_number_def receipt_shape_def is_ascii_digit_def)
  have "binding_active tenant_settled 7 (d_retailer ?d)"
    by (simp add: binding_active_def tenant_settled_def sample_declaration_def)
  from confirmed_declaration_has_receipt [OF sample_provisioned of_tenant sample_requests_run [symmetric] d(1-3) p this] d(4)
  show ?thesis by auto
qed

end
