(* ===== verification/Text_Patterns.thy ===== *)
theory Text_Patterns
  imports Redaction
begin

text \<open>
  Python's \<open>re\<close> as far as the platform's text redactor uses it: patterns as a datatype, a backtracking
  matcher that lists the ways to match in the order Python tries them, \<open>sub\<close>, and the redactor of the
  operator tasks (\<open>redact_text\<close> of \<open>api/v1/platform/p23/services.py\<close>) with its six expressions.
  Characters are those below 256.
\<close>

section \<open>Patterns and matching\<close>

datatype pattern = Empty_Pat | Class "char \<Rightarrow> bool" | Boundary | Cat pattern pattern | Either pattern pattern
  | Maybe pattern | Repeated pattern

text \<open>A position: the character before it, if any, and the text from it on.\<close>

type_synonym position = "char option \<times> string"

definition at_boundary :: "position \<Rightarrow> bool" where
  "at_boundary p \<longleftrightarrow>
     (case fst p of None \<Rightarrow> False | Some c \<Rightarrow> word_char c) \<noteq> (case snd p of [] \<Rightarrow> False | c # _ \<Rightarrow> word_char c)"

text \<open>\<open>r+\<close>, greedy: after each further match of \<open>r\<close>, first try to repeat. An empty match is not repeated.\<close>

fun repeats :: "nat \<Rightarrow> (position \<Rightarrow> position list) \<Rightarrow> position \<Rightarrow> position list" where
  "repeats 0 f p = []"
| "repeats (Suc n) f p = concat (map (\<lambda>q. (if length (snd q) < length (snd p) then repeats n f q else []) @ [q]) (f p))"

text \<open>The positions after a match at a position, in the order of the backtracking search.\<close>

primrec matches :: "pattern \<Rightarrow> position \<Rightarrow> position list" where
  "matches Empty_Pat p = [p]"
| "matches (Class f) p = (case snd p of [] \<Rightarrow> [] | c # s \<Rightarrow> if f c then [(Some c, s)] else [])"
| "matches Boundary p = (if at_boundary p then [p] else [])"
| "matches (Cat a b) p = concat (map (matches b) (matches a p))"
| "matches (Either a b) p = matches a p @ matches b p"
| "matches (Maybe a) p = matches a p @ [p]"
| "matches (Repeated a) p = repeats (length (snd p)) (matches a) p"

text \<open>
  \<open>pattern.sub(mark, text)\<close>: the leftmost matches, replaced from left to right. No pattern used here
  matches the empty text, so a match that consumes nothing is passed over.
\<close>

function (sequential) sub :: "pattern \<Rightarrow> string \<Rightarrow> char option \<Rightarrow> string \<Rightarrow> string" where
  "sub r mark before [] = []"
| "sub r mark before (c # s) =
     (case matches r (before, c # s) of
        [] \<Rightarrow> c # sub r mark (Some c) s
      | (b, s') # _ \<Rightarrow> if length s' \<le> length s then mark @ sub r mark b s' else c # sub r mark (Some c) s)"
  by pat_completeness auto
termination
  by (relation "measure (\<lambda>(r, mark, before, s). length s)") auto

section \<open>Building patterns\<close>

definition lower1 :: "char \<Rightarrow> char" where
  "lower1 c = (let n = (of_char c :: nat) in if 65 \<le> n \<and> n \<le> 90 then char_of (n + 32) else c)"

definition one :: "char \<Rightarrow> pattern" where "one c = Class (\<lambda>d. d = c)"

text \<open>A word, and a word under \<open>IGNORECASE\<close> (written in lower case).\<close>

fun literal :: "string \<Rightarrow> pattern" where
  "literal [] = Empty_Pat"
| "literal [c] = one c"
| "literal (c # d # s) = Cat (one c) (literal (d # s))"

fun caseless :: "string \<Rightarrow> pattern" where
  "caseless [] = Empty_Pat"
| "caseless [c] = Class (\<lambda>d. lower1 d = c)"
| "caseless (c # d # s) = Cat (Class (\<lambda>e. lower1 e = c)) (caseless (d # s))"

fun cats :: "pattern list \<Rightarrow> pattern" where
  "cats [] = Empty_Pat"
| "cats [r] = r"
| "cats (r # t # rs) = Cat r (cats (t # rs))"

fun choice :: "pattern list \<Rightarrow> pattern" where
  "choice [] = Class (\<lambda>c. False)"
| "choice [r] = r"
| "choice (r # t # rs) = Either r (choice (t # rs))"

definition some_of :: "pattern \<Rightarrow> pattern" where "some_of r = Maybe (Repeated r)"

text \<open>\<open>r{m,n}\<close> with \<open>n = m + k\<close>, and \<open>r{m}\<close>.\<close>

fun up_to :: "nat \<Rightarrow> pattern \<Rightarrow> pattern" where
  "up_to 0 r = Empty_Pat"
| "up_to (Suc k) r = Maybe (Cat r (up_to k r))"

fun exactly :: "nat \<Rightarrow> pattern \<Rightarrow> pattern" where
  "exactly 0 r = Empty_Pat"
| "exactly (Suc k) r = Cat r (exactly k r)"

definition between :: "nat \<Rightarrow> nat \<Rightarrow> pattern \<Rightarrow> pattern" where
  "between m n r = Cat (exactly m r) (up_to (n - m) r)"

definition blank :: pattern where "blank = Class is_space"
definition not_blank :: pattern where "not_blank = Class (\<lambda>c. \<not> is_space c)"
definition digit :: pattern where "digit = Class is_ascii_digit"
definition word_pat :: pattern where "word_pat = Class word_char"

text \<open>\<open>(?::\d{2,5})?\<close>\<close>

definition optional_port :: pattern where
  "optional_port = Maybe (Cat (one CHR '':'') (between 2 5 digit))"

section \<open>The expressions of the redactor\<close>

definition dsn_schemes :: pattern where
  "dsn_schemes = choice
     [Cat (caseless ''postgres'') (Maybe (caseless ''ql'')), caseless ''mysql'', caseless ''redis'',
      Cat (caseless ''mongodb'') (Maybe (caseless ''+srv'')), caseless ''amqp'', caseless ''mssql'', caseless ''clickhouse'',
      caseless ''cassandra'', caseless ''elasticsearch'', caseless ''smtp'', caseless ''smtps'', caseless ''ftp'',
      caseless ''ldap'', caseless ''ldaps'', caseless ''s3'', caseless ''gs'', caseless ''azure'', caseless ''cockroachdb'',
      caseless ''influxdb'']"

definition re_dsn :: pattern where
  "re_dsn = cats [Boundary, dsn_schemes, Maybe (Cat (one CHR ''+'') (Repeated word_pat)), literal ''://'', Repeated not_blank]"

definition re_http_url :: pattern where
  "re_http_url = cats [Boundary, caseless ''http'', Maybe (caseless ''s''), literal ''://'', Repeated not_blank]"

definition re_userinfo :: pattern where
  "re_userinfo = cats
     [Repeated (Class (\<lambda>c. is_letter c \<or> is_ascii_digit c \<or> c \<in> set ''._%+-'')), one CHR '':'',
      Repeated (Class (\<lambda>c. \<not> is_space c \<and> c \<notin> set ''@/'')), one CHR ''@'', Repeated (Class host_char), optional_port]"

definition label_char :: "char \<Rightarrow> bool" where
  "label_char c \<longleftrightarrow> is_letter c \<or> is_ascii_digit c \<or> c = CHR ''-''"

definition re_hostport :: pattern where
  "re_hostport = choice
     [cats [Boundary, Repeated (Cat (Repeated (Class label_char)) (one CHR ''.'')),
            Cat (exactly 2 (Class is_letter)) (some_of (Class is_letter)), optional_port, Boundary],
      cats [Boundary, literal ''localhost'', optional_port, Boundary],
      cats [Boundary, between 1 3 digit, exactly 3 (Cat (one CHR ''.'') (between 1 3 digit)), optional_port, Boundary]]"

definition joined :: "string \<Rightarrow> string \<Rightarrow> pattern" where
  "joined a b = cats [caseless a, Maybe (Class (\<lambda>c. c \<in> set ''_-'')), caseless b]"

definition secret_words :: pattern where
  "secret_words = choice
     [caseless ''password'', caseless ''passwd'', caseless ''pwd'', caseless ''secret'', caseless ''token'', joined ''api'' ''key'',
      joined ''access'' ''key'', joined ''secret'' ''key'', caseless ''auth'', caseless ''authorization'', caseless ''cookie'',
      joined ''set'' ''cookie'', caseless ''credential'', caseless ''apikey'', caseless ''dsn'', joined ''connection'' ''string'',
      joined ''database'' ''url'', caseless ''bearer'']"

definition re_secret_kv :: pattern where
  "re_secret_kv = cats
     [Boundary, secret_words, Boundary, some_of blank, Class (\<lambda>c. c = CHR '':'' \<or> c = CHR ''=''), some_of blank,
      Repeated (Class (\<lambda>c. \<not> is_space c \<and> c \<notin> set '';,)}]''))]"

definition spaced :: "string \<Rightarrow> string \<Rightarrow> pattern" where
  "spaced a b = cats [caseless a, Repeated blank, caseless b]"

definition unsafe_words :: pattern where
  "unsafe_words = choice
     [caseless ''pg_dump'', caseless ''pg_restore'', caseless ''mysqldump'', spaced ''rm'' ''-rf'', spaced ''drop'' ''table'',
      spaced ''truncate'' ''table'', spaced ''delete'' ''from'', spaced ''insert'' ''into'',
      cats [caseless ''update'', Repeated blank, Repeated word_pat, Repeated blank, caseless ''set''],
      caseless ''subprocess'', caseless ''os.system'', caseless ''os.popen'',
      cats [caseless ''shell'', some_of blank, one CHR ''='', some_of blank, caseless ''true''],
      cats [caseless ''eval'', some_of blank, one CHR ''(''], cats [caseless ''exec'', some_of blank, one CHR ''(''],
      caseless ''<script'', caseless ''javascript:'']"

definition re_unsafe_token :: pattern where
  "re_unsafe_token = cats [Boundary, unsafe_words, Boundary]"

section \<open>The redactor\<close>

definition sub_all :: "pattern \<Rightarrow> string \<Rightarrow> string \<Rightarrow> string" where
  "sub_all r mark s = sub r mark None s"

definition redact_passes :: "(pattern \<times> string) list" where
  "redact_passes =
     [(re_dsn, ''[redacted:dsn]''), (re_http_url, ''[redacted:url]''), (re_userinfo, ''[redacted:credentials]''),
      (re_secret_kv, ''[redacted:secret]''), (re_hostport, ''[redacted:hostport]''), (re_unsafe_token, ''[redacted:unsafe-token]'')]"

definition redact_text :: "string \<Rightarrow> string" where
  "redact_text s = fold (\<lambda>(r, mark) t. sub_all r mark t) redact_passes s"

section \<open>Evaluating matches\<close>

text \<open>The named patterns are unfolded where they are matched, so that a text can be redacted by rewriting.\<close>

declare cats.simps [simp del] and choice.simps [simp del] and literal.simps [simp del] and caseless.simps [simp del]

lemma numeral_repeats [simp]:
  "repeats (numeral k) f p = concat (map (\<lambda>q. (if length (snd q) < length (snd p) then repeats (pred_numeral k) f q else []) @ [q]) (f p))"
  "exactly (numeral k) r = Cat r (exactly (pred_numeral k) r)"
  "up_to (numeral k) r = Maybe (Cat r (up_to (pred_numeral k) r))"
  by (simp_all add: numeral_eq_Suc)

lemma matches_cats [simp]:
  "matches (cats [r]) p = matches r p"
  "matches (cats (r # t # rs)) p = concat (map (matches (cats (t # rs))) (matches r p))"
  by (simp_all add: cats.simps)

lemma matches_choice [simp]:
  "matches (choice [r]) p = matches r p"
  "matches (choice (r # t # rs)) p = matches r p @ matches (choice (t # rs)) p"
  by (simp_all add: choice.simps)

lemma matches_literal [simp]:
  "matches (literal w) (b, []) = (if w = [] then [(b, [])] else [])"
  "matches (literal [c]) (b, e # s) = (if e = c then [(Some e, s)] else [])"
  "matches (literal (c # d # w)) (b, e # s) = (if e = c then matches (literal (d # w)) (Some e, s) else [])"
  by (cases w rule: literal.cases) (simp_all add: literal.simps one_def)

lemma matches_caseless [simp]:
  "matches (caseless w) (b, []) = (if w = [] then [(b, [])] else [])"
  "matches (caseless [c]) (b, e # s) = (if lower1 e = c then [(Some e, s)] else [])"
  "matches (caseless (c # d # w)) (b, e # s) = (if lower1 e = c then matches (caseless (d # w)) (Some e, s) else [])"
  by (cases w rule: caseless.cases) (simp_all add: caseless.simps)

lemma matches_class [simp]:
  "matches (one c) p = matches (Class (\<lambda>d. d = c)) p" "matches blank p = matches (Class is_space) p"
  "matches not_blank p = matches (Class (\<lambda>c. \<not> is_space c)) p" "matches digit p = matches (Class is_ascii_digit) p"
  "matches word_pat p = matches (Class word_char) p"
  by (simp_all only: one_def blank_def not_blank_def digit_def word_pat_def)

lemma matches_parts [simp]:
  "matches (some_of r) p = matches (Maybe (Repeated r)) p"
  "matches (between m n r) p = matches (Cat (exactly m r) (up_to (n - m) r)) p"
  "matches (joined v w) p = matches (cats [caseless v, Maybe (Class (\<lambda>c. c \<in> set ''_-'')), caseless w]) p"
  "matches (spaced v w) p = matches (cats [caseless v, Repeated blank, caseless w]) p"
  by (simp_all only: some_of_def between_def joined_def spaced_def)

lemmas matches_named [simp] =
  arg_cong [where f = matches, OF re_dsn_def, THEN fun_cong] arg_cong [where f = matches, OF re_http_url_def, THEN fun_cong]
  arg_cong [where f = matches, OF re_userinfo_def, THEN fun_cong] arg_cong [where f = matches, OF re_secret_kv_def, THEN fun_cong]
  arg_cong [where f = matches, OF re_hostport_def, THEN fun_cong] arg_cong [where f = matches, OF re_unsafe_token_def, THEN fun_cong]
  arg_cong [where f = matches, OF dsn_schemes_def, THEN fun_cong] arg_cong [where f = matches, OF secret_words_def, THEN fun_cong]
  arg_cong [where f = matches, OF unsafe_words_def, THEN fun_cong] arg_cong [where f = matches, OF optional_port_def, THEN fun_cong]

lemma char_of_eq: "(n :: nat) < 256 \<Longrightarrow> char_of n = c \<longleftrightarrow> n = of_char c"
  by (metis char_of_char of_char_of mod_less)

lemma lower1_eq: "lower1 e = c \<longleftrightarrow> (if 65 \<le> (of_char e :: nat) \<and> of_char e \<le> (90 :: nat) then of_char e + 32 = (of_char c :: nat) else e = c)"
  unfolding lower1_def Let_def by (simp add: char_of_eq)

lemmas char_defs = at_boundary_def word_char_def is_letter_def is_ascii_digit_def is_space_def host_char_def label_char_def lower1_eq

lemmas redact_defs = redact_text_def redact_passes_def sub_all_def char_defs

section \<open>What the redactor removes and what it leaves\<close>

lemma redactor_removes_password: "redact_text ''password=x1 ok'' = ''[redacted:secret] ok''"
  by (simp add: redact_defs)

lemma redactor_removes_dsn: "redact_text ''redis://u:p@h/0 down'' = ''[redacted:dsn] down''"
  by (simp add: redact_defs)

lemma redactor_removes_address: "redact_text ''at 10.0.0.1:5432'' = ''at [redacted:hostport]''"
  by (simp add: redact_defs)

text \<open>A key that continues a word, a quoted key and a script tag after a space are left.\<close>

lemma redactor_leaves_prefixed_key: "redact_text ''DB_PASSWORD=x1'' = ''DB_PASSWORD=x1''"
  by (simp add: redact_defs)

lemma redactor_leaves_quoted_key: "redact_text (''{'' @ [CHR 0x22] @ ''token'' @ [CHR 0x22] @ '':1}'') = ''{'' @ [CHR 0x22] @ ''token'' @ [CHR 0x22] @ '':1}''"
  by (simp add: redact_defs)

lemma redactor_leaves_script: "redact_text ''a <script>'' = ''a <script>''"
  by (simp add: redact_defs)

text \<open>The host mark can become the user of a credential, so a second pass changes the text again.\<close>

lemma redactor_not_idempotent: "redact_text ''a.com@b'' = ''[redacted:hostport]@b''" "redact_text ''[redacted:hostport]@b'' = ''[[redacted:credentials]''"
  by (simp_all add: redact_defs)

end
