(* ===== verification/Operator_Tasks.thy ===== *)
theory Operator_Tasks
  imports Text_Patterns Governed_Execution
begin

text \<open>
  The operator task queue of the platform console (\<open>api/v1/platform/p23/schemas.py\<close>, \<open>services.py\<close>,
  \<open>routes.py\<close>): the closed vocabularies with the transition graph, the in-memory store of tasks, audit
  events and notification records, the intake that materializes or deduplicates a task, and the steps of
  the task state machine. The digest (SHA-256) is an argument; UUIDs come from the supply of the store;
  an operation reads the clock once; the constant \<open>redaction_applied\<close> is left out.
\<close>

section \<open>Vocabularies\<close>

datatype task_type = Action_Request_Created | Approval_Pending | Approval_Decision_Required | Execution_Ready
  | Execution_Completed | Execution_Failed | Source_Unknown_Task | Backup_Check_Warning | Incident_Followup_Required
  | Runbook_Step_Required

datatype task_state = Task_Open | Task_Acknowledged | Task_In_Progress | Waiting_On_Approval | Waiting_On_Source
  | Task_Completed | Task_Dismissed | Task_Expired | Task_Failed

datatype severity = Low | Medium | High

datatype actor_scope = Platform_Scope | Tenant_Contextual

datatype owner_role = Super_Admin | Engineering_Operator | Support_Operator

datatype audit_role = By_Owner owner_role | By_System

datatype channel = In_App | Email | Webhook

datatype delivery_state = Delivery_Recorded | Delivery_Suppressed

datatype display = Show_Healthy | Show_Warning | Show_Unknown | Show_Failed | Show_Completed | Show_Dismissed | Show_None

datatype task_denial = Transition_Denied_Invalid | Transition_Denied_Terminal | Complete_Denied_No_Evidence
  | Complete_Denied_Gate_Open | Task_Not_Found

primrec type_text :: "task_type \<Rightarrow> string" where
  "type_text Action_Request_Created = ''action_request_created''"
| "type_text Approval_Pending = ''approval_pending''"
| "type_text Approval_Decision_Required = ''approval_decision_required''"
| "type_text Execution_Ready = ''execution_ready''"
| "type_text Execution_Completed = ''execution_completed''"
| "type_text Execution_Failed = ''execution_failed''"
| "type_text Source_Unknown_Task = ''source_unknown''"
| "type_text Backup_Check_Warning = ''backup_check_warning''"
| "type_text Incident_Followup_Required = ''incident_followup_required''"
| "type_text Runbook_Step_Required = ''runbook_step_required''"

primrec task_state_text :: "task_state \<Rightarrow> string" where
  "task_state_text Task_Open = ''open''"
| "task_state_text Task_Acknowledged = ''acknowledged''"
| "task_state_text Task_In_Progress = ''in_progress''"
| "task_state_text Waiting_On_Approval = ''waiting_on_approval''"
| "task_state_text Waiting_On_Source = ''waiting_on_source''"
| "task_state_text Task_Completed = ''completed''"
| "task_state_text Task_Dismissed = ''dismissed''"
| "task_state_text Task_Expired = ''expired''"
| "task_state_text Task_Failed = ''failed''"

primrec task_source_text :: "exec_source \<Rightarrow> string" where
  "task_source_text Src_Known = ''known''"
| "task_source_text Src_Unknown = ''unknown''"
| "task_source_text Src_Degraded = ''degraded''"

definition terminal_tasks :: "task_state list" where
  "terminal_tasks = [Task_Completed, Task_Dismissed, Task_Expired, Task_Failed]"

definition active_tasks :: "task_state list" where
  "active_tasks = [Task_Open, Task_Acknowledged, Task_In_Progress, Waiting_On_Approval, Waiting_On_Source]"

fun allowed_task :: "task_state \<Rightarrow> task_state list" where
  "allowed_task Task_Open =
     [Task_Acknowledged, Task_In_Progress, Waiting_On_Approval, Waiting_On_Source, Task_Dismissed, Task_Expired, Task_Failed, Task_Completed]"
| "allowed_task Task_Acknowledged =
     [Task_In_Progress, Waiting_On_Approval, Waiting_On_Source, Task_Completed, Task_Dismissed, Task_Expired]"
| "allowed_task Task_In_Progress = [Waiting_On_Approval, Waiting_On_Source, Task_Completed, Task_Failed, Task_Dismissed]"
| "allowed_task Waiting_On_Approval = [Task_Acknowledged, Task_In_Progress, Task_Expired, Task_Failed]"
| "allowed_task Waiting_On_Source = [Task_Acknowledged, Task_In_Progress, Task_Expired, Task_Failed]"
| "allowed_task _ = []"

fun default_severity :: "task_type \<Rightarrow> severity" where
  "default_severity Action_Request_Created = Low"
| "default_severity Execution_Completed = Low"
| "default_severity Approval_Pending = Medium"
| "default_severity Incident_Followup_Required = Medium"
| "default_severity Runbook_Step_Required = Medium"
| "default_severity _ = High"

primrec severity_rank :: "severity \<Rightarrow> nat" where
  "severity_rank Low = 0"
| "severity_rank Medium = 1"
| "severity_rank High = 2"

definition rank_severity :: "nat \<Rightarrow> severity" where
  "rank_severity n = [Low, Medium, High] ! n"

definition force_high_types :: "task_type list" where
  "force_high_types = [Source_Unknown_Task, Backup_Check_Warning, Execution_Failed]"

section \<open>Records\<close>

record operator_task =
  tk_id :: id_text
  tk_type :: task_type
  tk_severity :: severity
  tk_state :: task_state
  tk_display :: display
  tk_tenant :: "string option"
  tk_scope :: actor_scope
  tk_role :: "owner_role option"
  tk_owner :: "string option"
  tk_correlation :: string
  tk_action :: "string option"
  tk_approval :: "string option"
  tk_execution :: "string option"
  tk_dry_run :: "string option"
  tk_source_ref :: "string option"
  tk_incident :: "string option"
  tk_summary :: string
  tk_reason :: "string option"
  tk_evidence :: "string option"
  tk_source :: "exec_source option"
  tk_gate_open :: bool
  tk_digest :: string
  tk_ttl :: "nat option"
  tk_created :: nat
  tk_updated :: nat

record task_audit =
  ta_event :: id_text
  ta_task :: id_text
  ta_type :: task_type
  ta_actor :: "string option"
  ta_role :: audit_role
  ta_tenant :: "string option"
  ta_transition :: string
  ta_previous :: task_state
  ta_next :: task_state
  ta_reason :: "string option"
  ta_denial :: "task_denial option"
  ta_correlation :: string
  ta_action :: "string option"
  ta_approval :: "string option"
  ta_execution :: "string option"
  ta_source_ref :: "string option"
  ta_incident :: "string option"
  ta_seq :: nat
  ta_created :: nat

record notification_event =
  nt_event :: id_text
  nt_task :: id_text
  nt_channel :: channel
  nt_delivery :: delivery_state
  nt_severity :: severity
  nt_tenant :: "string option"
  nt_scope :: actor_scope
  nt_role :: "owner_role option"
  nt_summary :: string
  nt_correlation :: string
  nt_created :: nat

record intake_event =
  ie_type :: task_type
  ie_severity :: "severity option"
  ie_tenant :: "string option"
  ie_scope :: actor_scope
  ie_role :: "owner_role option"
  ie_correlation :: string
  ie_action :: "string option"
  ie_approval :: "string option"
  ie_execution :: "string option"
  ie_dry_run :: "string option"
  ie_source_ref :: "string option"
  ie_incident :: "string option"
  ie_summary :: string
  ie_reason :: "string option"
  ie_source :: "exec_source option"
  ie_gate_open :: bool
  ie_variant :: "string option"
  ie_ttl :: "nat option"
  ie_channel :: "channel option"

record triage_payload =
  tp_reason :: "string option"
  tp_evidence :: "string option"
  tp_evidence_ref :: "string option"

record task_response =
  tr_accepted :: bool
  tr_task :: operator_task
  tr_transition :: string
  tr_previous :: task_state
  tr_next :: task_state
  tr_denial :: "task_denial option"

text \<open>The module's dictionaries and lists; \<open>_TASKS\<close> keeps its insertion order.\<close>

record task_store =
  os_tasks :: "(id_text \<times> operator_task) list"
  os_audit :: "task_audit list"
  os_notes :: "notification_event list"
  os_active :: "string \<rightharpoonup> id_text"
  os_seq :: "id_text \<rightharpoonup> nat"
  os_inflight :: "id_text \<times> channel \<rightharpoonup> id_text"
  os_uuids :: "nat \<Rightarrow> uuid"
  os_drawn :: nat

definition reset_tasks :: "(nat \<Rightarrow> uuid) \<Rightarrow> nat \<Rightarrow> task_store" where
  "reset_tasks uuids drawn =
     \<lparr>os_tasks = [], os_audit = [], os_notes = [], os_active = Map.empty, os_seq = Map.empty, os_inflight = Map.empty,
      os_uuids = uuids, os_drawn = drawn\<rparr>"

definition task_audit_log :: "id_text \<Rightarrow> task_store \<Rightarrow> task_audit list" where
  "task_audit_log tid st = filter (\<lambda>e. ta_task e = tid) (os_audit st)"

definition task_notifications :: "id_text \<Rightarrow> task_store \<Rightarrow> notification_event list" where
  "task_notifications tid st = filter (\<lambda>n. nt_task n = tid) (os_notes st)"

definition task_at :: "id_text \<Rightarrow> task_store \<Rightarrow> operator_task option" where
  "task_at tid st = map_of (os_tasks st) tid"

text \<open>\<open>_TASKS[task_id] = stored\<close>; an attribute written on the stored object is the same update.\<close>

definition put_task :: "operator_task \<Rightarrow> task_store \<Rightarrow> task_store" where
  "put_task t st = st\<lparr>os_tasks := AList.update (tk_id t) t (os_tasks st)\<rparr>"

section \<open>Texts and keys\<close>

text \<open>A text that is not empty, and one that is not blank.\<close>

definition given_text :: "string option \<Rightarrow> string option" where
  "given_text v = (case v of None \<Rightarrow> None | Some s \<Rightarrow> if s = [] then None else Some s)"

definition has_text :: "string option \<Rightarrow> bool" where
  "has_text v \<longleftrightarrow> stripped v \<noteq> []"

definition redact_optional :: "string option \<Rightarrow> string option" where
  "redact_optional v = map_option redact_text v"

definition suppressed_summary :: string where
  "suppressed_summary = ''[suppressed:non-safe-summary]''"

definition summary_or_suppressed :: "string \<Rightarrow> string" where
  "summary_or_suppressed s = (if redact_text s = [] then suppressed_summary else redact_text s)"

fun first_given_text :: "string option list \<Rightarrow> string option" where
  "first_given_text [] = None"
| "first_given_text (v # vs) = (case given_text v of None \<Rightarrow> first_given_text vs | Some s \<Rightarrow> Some s)"

definition first_linked_id :: "intake_event \<Rightarrow> string option" where
  "first_linked_id e = first_given_text [ie_execution e, ie_approval e, ie_action e, ie_incident e, ie_source_ref e]"

definition dedup_key :: "intake_event \<Rightarrow> string" where
  "dedup_key e = bar_join
     [type_text (ie_type e), or_blank (first_linked_id e), or_blank (ie_tenant e),
      (case ie_source e of None \<Rightarrow> [] | Some s \<Rightarrow> task_source_text s),
      (case given_text (ie_variant e) of None \<Rightarrow> type_text (ie_type e) | Some v \<Rightarrow> v)]"

section \<open>Display and severity\<close>

definition compute_display :: "task_type \<Rightarrow> exec_source option \<Rightarrow> task_state \<Rightarrow> display" where
  "compute_display t source s =
     (if t = Source_Unknown_Task \<or> source = Some Src_Unknown then Show_Unknown
      else if t = Backup_Check_Warning \<or> source = Some Src_Degraded then Show_Warning
      else if s = Task_Failed then Show_Failed
      else if s = Task_Completed then Show_Completed
      else if s = Task_Dismissed then Show_Dismissed
      else Show_Healthy)"

text \<open>The active tasks that share a correlation and a tenant.\<close>

definition is_peer :: "string \<Rightarrow> string option \<Rightarrow> operator_task \<Rightarrow> bool" where
  "is_peer corr tenant t \<longleftrightarrow>
     tk_state t \<notin> set terminal_tasks \<and> tk_correlation t = corr \<and> or_blank (tk_tenant t) = or_blank tenant"

definition peers :: "string \<Rightarrow> string option \<Rightarrow> task_store \<Rightarrow> operator_task list" where
  "peers corr tenant st = filter (is_peer corr tenant) (map snd (os_tasks st))"

definition severity_for :: "task_type \<Rightarrow> severity option \<Rightarrow> string \<Rightarrow> string option \<Rightarrow> task_store \<Rightarrow> severity" where
  "severity_for typ requested corr tenant st =
     (let base = (case requested of None \<Rightarrow> default_severity typ | Some s \<Rightarrow> s);
          level = severity_rank base;
          peer_high = list_ex (\<lambda>p. 2 \<le> severity_rank (tk_severity p)) (peers corr tenant st);
          peer_force_high = (typ \<in> set force_high_types \<or> list_ex (\<lambda>p. tk_type p \<in> set force_high_types) (peers corr tenant st));
          level1 = (if peer_high then max level 1 else level);
          level2 = (if peer_force_high then max level1 2 else level1)
      in rank_severity level2)"

definition lifted :: "bool \<Rightarrow> nat \<Rightarrow> operator_task \<Rightarrow> operator_task" where
  "lifted any_force now t =
     (let level = severity_rank (tk_severity t);
          new = rank_severity (max level (if any_force then 2 else 1))
      in if new \<noteq> tk_severity t then t\<lparr>tk_severity := new, tk_updated := now\<rparr> else t)"

definition rerank_correlation :: "string \<Rightarrow> string option \<Rightarrow> nat \<Rightarrow> task_store \<Rightarrow> task_store" where
  "rerank_correlation corr tenant now st =
     (let any_high = list_ex (\<lambda>t. 2 \<le> severity_rank (tk_severity t)) (peers corr tenant st);
          any_force = list_ex (\<lambda>t. tk_type t \<in> set force_high_types) (peers corr tenant st)
      in if \<not> (any_high \<or> any_force) then st
         else st\<lparr>os_tasks := map (\<lambda>(k, t). (k, if is_peer corr tenant t then lifted any_force now t else t)) (os_tasks st)\<rparr>)"

section \<open>Audit events and notification records\<close>

definition draw_id :: "task_store \<Rightarrow> id_text \<times> task_store" where
  "draw_id st = (Canonical (os_uuids st (os_drawn st)), st\<lparr>os_drawn := Suc (os_drawn st)\<rparr>)"

definition emit_task_audit ::
  "nat \<Rightarrow> string option \<times> audit_role \<Rightarrow> operator_task \<Rightarrow> string \<Rightarrow> task_state \<Rightarrow> task_state \<Rightarrow> string option \<Rightarrow> task_denial option
   \<Rightarrow> task_store \<Rightarrow> task_store" where
  "emit_task_audit now actor t label previous next_state reason denial st =
     (let seq = (case os_seq st (tk_id t) of None \<Rightarrow> 0 | Some n \<Rightarrow> n) + 1;
          (eid, st1) = draw_id (st\<lparr>os_seq := (os_seq st)(tk_id t \<mapsto> seq)\<rparr>)
      in st1\<lparr>os_audit := os_audit st1 @
           [\<lparr>ta_event = eid, ta_task = tk_id t, ta_type = tk_type t, ta_actor = fst actor, ta_role = snd actor,
             ta_tenant = tk_tenant t, ta_transition = label, ta_previous = previous, ta_next = next_state,
             ta_reason = redact_optional reason, ta_denial = denial, ta_correlation = tk_correlation t,
             ta_action = tk_action t, ta_approval = tk_approval t, ta_execution = tk_execution t,
             ta_source_ref = tk_source_ref t, ta_incident = tk_incident t, ta_seq = seq, ta_created = now\<rparr>]\<rparr>)"

definition record_notification ::
  "nat \<Rightarrow> operator_task \<Rightarrow> channel \<Rightarrow> string option \<Rightarrow> owner_role option \<Rightarrow> task_store \<Rightarrow> notification_event \<times> task_store" where
  "record_notification now t ch summary role st =
     (let existing = (case os_inflight st (tk_id t, ch) of None \<Rightarrow> None
            | Some eid \<Rightarrow> find (\<lambda>n. nt_event n = eid) (os_notes st))
      in case existing of
           Some n \<Rightarrow> (n, st)
         | None \<Rightarrow>
             (let redacted = (case given_text summary of None \<Rightarrow> [] | Some s \<Rightarrow> redact_text s);
                  (eid, st1) = draw_id st;
                  n = \<lparr>nt_event = eid, nt_task = tk_id t, nt_channel = ch,
                       nt_delivery = (if redacted \<noteq> [] then Delivery_Recorded else Delivery_Suppressed),
                       nt_severity = tk_severity t, nt_tenant = tk_tenant t, nt_scope = tk_scope t, nt_role = role,
                       nt_summary = (if redacted \<noteq> [] then redacted else suppressed_summary),
                       nt_correlation = tk_correlation t, nt_created = now\<rparr>;
                  st2 = st1\<lparr>os_notes := os_notes st1 @ [n]\<rparr>
              in (n, if redacted \<noteq> [] then st2\<lparr>os_inflight := (os_inflight st2)((tk_id t, ch) \<mapsto> eid)\<rparr> else st2)))"

definition notify :: "nat \<Rightarrow> id_text \<Rightarrow> intake_event \<Rightarrow> task_store \<Rightarrow> task_store" where
  "notify now tid e st =
     (case (ie_channel e, task_at tid st) of
        (Some ch, Some t) \<Rightarrow> snd (record_notification now t ch (Some (ie_summary e)) (ie_role e) st)
      | _ \<Rightarrow> st)"

definition record_notification_event ::
  "nat \<Rightarrow> id_text \<Rightarrow> channel \<Rightarrow> string option \<Rightarrow> owner_role option \<Rightarrow> task_store \<Rightarrow> notification_event option \<times> task_store" where
  "record_notification_event now tid ch summary role st =
     (case task_at tid st of
        None \<Rightarrow> (None, st)
      | Some t \<Rightarrow> (case record_notification now t ch summary role st of (n, st') \<Rightarrow> (Some n, st')))"

section \<open>Intake\<close>

record intake_result =
  ir_task :: "operator_task option"
  ir_created :: bool
  ir_deduped :: bool

definition bumped :: "nat \<Rightarrow> intake_event \<Rightarrow> operator_task \<Rightarrow> task_store \<Rightarrow> operator_task" where
  "bumped now e t st =
     t\<lparr>tk_updated := now, tk_severity := severity_for (tk_type t) (ie_severity e) (tk_correlation t) (tk_tenant t) st,
       tk_gate_open := ie_gate_open e,
       tk_reason := (if given_text (ie_reason e) \<noteq> None then redact_optional (ie_reason e) else tk_reason t)\<rparr>"

definition new_task :: "(string \<Rightarrow> string) \<Rightarrow> nat \<Rightarrow> intake_event \<Rightarrow> id_text \<Rightarrow> task_store \<Rightarrow> operator_task" where
  "new_task sha now e tid st =
     \<lparr>tk_id = tid, tk_type = ie_type e,
      tk_severity = severity_for (ie_type e) (ie_severity e) (ie_correlation e) (ie_tenant e) st,
      tk_state = Task_Open, tk_display = compute_display (ie_type e) (ie_source e) Task_Open, tk_tenant = ie_tenant e,
      tk_scope = ie_scope e, tk_role = ie_role e, tk_owner = None, tk_correlation = ie_correlation e,
      tk_action = ie_action e, tk_approval = ie_approval e, tk_execution = ie_execution e, tk_dry_run = ie_dry_run e,
      tk_source_ref = ie_source_ref e, tk_incident = ie_incident e, tk_summary = summary_or_suppressed (ie_summary e),
      tk_reason = redact_optional (ie_reason e), tk_evidence = None, tk_source = ie_source e, tk_gate_open = ie_gate_open e,
      tk_digest = sha (dedup_key e), tk_ttl = ie_ttl e, tk_created = now, tk_updated = now\<rparr>"

definition upsert_task ::
  "(string \<Rightarrow> string) \<Rightarrow> nat \<Rightarrow> intake_event \<Rightarrow> task_store \<Rightarrow> intake_result \<times> task_store" where
  "upsert_task sha now e st =
     (let digest = sha (dedup_key e) in
      case Option.bind (os_active st digest) (\<lambda>tid. task_at tid st) of
        Some t \<Rightarrow>
          (let st1 = rerank_correlation (tk_correlation t) (tk_tenant t) now (put_task (bumped now e t st) st);
               st2 = notify now (tk_id t) e st1
           in (\<lparr>ir_task = task_at (tk_id t) st2, ir_created = False, ir_deduped = True\<rparr>, st2))
      | None \<Rightarrow>
          (let (tid, st0) = draw_id st;
               t = new_task sha now e tid st;
               st1 = put_task t (st0\<lparr>os_active := (os_active st0)(digest \<mapsto> tid), os_seq := (os_seq st0)(tid \<mapsto> 0)\<rparr>);
               st2 = emit_task_audit now (None, By_System) t ''materialized'' Task_Open Task_Open (Some (ie_summary e)) None st1;
               st3 = rerank_correlation (ie_correlation e) (ie_tenant e) now st2;
               st4 = notify now tid e st3
           in (\<lparr>ir_task = task_at tid st4, ir_created = True, ir_deduped = False\<rparr>, st4)))"

section \<open>The state machine\<close>

definition not_found_task :: "id_text \<Rightarrow> nat \<Rightarrow> operator_task" where
  "not_found_task tid now =
     \<lparr>tk_id = tid, tk_type = Action_Request_Created, tk_severity = Low, tk_state = Task_Open, tk_display = Show_None,
      tk_tenant = None, tk_scope = Platform_Scope, tk_role = None, tk_owner = None, tk_correlation = [], tk_action = None,
      tk_approval = None, tk_execution = None, tk_dry_run = None, tk_source_ref = None, tk_incident = None,
      tk_summary = ''[not-found]'', tk_reason = None, tk_evidence = None, tk_source = None, tk_gate_open = False,
      tk_digest = [], tk_ttl = None, tk_created = now, tk_updated = now\<rparr>"

definition transition_denied ::
  "nat \<Rightarrow> string option \<times> audit_role \<Rightarrow> operator_task \<Rightarrow> string \<Rightarrow> string option \<Rightarrow> task_denial \<Rightarrow> task_store
   \<Rightarrow> task_response \<times> task_store" where
  "transition_denied now actor t label reason denial st =
     (\<lparr>tr_accepted = False, tr_task = t, tr_transition = label, tr_previous = tk_state t, tr_next = tk_state t,
       tr_denial = Some denial\<rparr>,
      emit_task_audit now actor t label (tk_state t) (tk_state t) reason (Some denial) st)"

text \<open>Why a step to a state is refused, if it is: with the label of the audit event.\<close>

definition transition_refusal :: "operator_task \<Rightarrow> task_state \<Rightarrow> string \<Rightarrow> triage_payload \<Rightarrow> (string \<times> task_denial) option" where
  "transition_refusal t target action p =
     (if tk_state t \<in> set terminal_tasks then Some (''denied:'' @ action, Transition_Denied_Terminal)
      else if target \<notin> set (allowed_task (tk_state t)) then Some (''denied:'' @ action, Transition_Denied_Invalid)
      else if target = Task_Completed \<and> \<not> (has_text (tp_evidence p) \<or> has_text (tp_evidence_ref p))
      then Some (''denied:complete'', Complete_Denied_No_Evidence)
      else if target = Task_Completed \<and> tk_gate_open t then Some (''denied:complete'', Complete_Denied_Gate_Open)
      else None)"

definition evidence_pointer :: "(string \<Rightarrow> string) \<Rightarrow> triage_payload \<Rightarrow> string option \<Rightarrow> string option" where
  "evidence_pointer sha p old =
     (if has_text (tp_evidence p) then Some (''note:'' @ take 16 (sha (redact_text (or_blank (tp_evidence p)))))
      else if has_text (tp_evidence_ref p) then redact_optional (tp_evidence_ref p)
      else old)"

definition moved_task :: "(string \<Rightarrow> string) \<Rightarrow> nat \<Rightarrow> task_state \<Rightarrow> triage_payload \<Rightarrow> operator_task \<Rightarrow> operator_task" where
  "moved_task sha now target p t =
     t\<lparr>tk_state := target, tk_display := compute_display (tk_type t) (tk_source t) target, tk_updated := now,
       tk_reason := (if given_text (tp_reason p) \<noteq> None then redact_optional (tp_reason p) else tk_reason t),
       tk_evidence := (if target = Task_Completed then evidence_pointer sha p (tk_evidence t) else tk_evidence t)\<rparr>"

definition transition_reason :: "task_state \<Rightarrow> triage_payload \<Rightarrow> string option" where
  "transition_reason target p =
     (if target = Task_Completed
      then (if has_text (tp_evidence p) then tp_evidence p
            else case given_text (tp_evidence_ref p) of None \<Rightarrow> tp_reason p | Some r \<Rightarrow> Some r)
      else tp_reason p)"

definition step_label :: "task_state \<Rightarrow> task_state \<Rightarrow> string" where
  "step_label s target = task_state_text s @ ''->'' @ task_state_text target"

definition apply_task_transition ::
  "(string \<Rightarrow> string) \<Rightarrow> nat \<Rightarrow> string option \<times> audit_role \<Rightarrow> id_text \<Rightarrow> task_state \<Rightarrow> string \<Rightarrow> triage_payload \<Rightarrow> task_store
   \<Rightarrow> task_response \<times> task_store" where
  "apply_task_transition sha now actor tid target action p st =
     (case task_at tid st of
        None \<Rightarrow> (\<lparr>tr_accepted = False, tr_task = not_found_task tid now, tr_transition = ''denied:'' @ action,
                  tr_previous = Task_Open, tr_next = Task_Open, tr_denial = Some Task_Not_Found\<rparr>, st)
      | Some t \<Rightarrow>
          (case transition_refusal t target action p of
             Some (label, denial) \<Rightarrow> transition_denied now actor t label (tp_reason p) denial st
           | None \<Rightarrow>
               (let t' = moved_task sha now target p t;
                    st1 = put_task t' st;
                    st2 = (if target \<in> set terminal_tasks then st1\<lparr>os_active := (os_active st1)(tk_digest t := None)\<rparr> else st1);
                    st3 = emit_task_audit now actor t' (step_label (tk_state t) target) (tk_state t) target (transition_reason target p) None st2
                in (\<lparr>tr_accepted = True, tr_task = t', tr_transition = step_label (tk_state t) target,
                     tr_previous = tk_state t, tr_next = target, tr_denial = None\<rparr>, st3))))"

definition acknowledge_task where
  "acknowledge_task sha now actor tid p st = apply_task_transition sha now actor tid Task_Acknowledged ''acknowledge'' p st"

definition mark_in_progress_task where
  "mark_in_progress_task sha now actor tid p st = apply_task_transition sha now actor tid Task_In_Progress ''in_progress'' p st"

definition complete_task where
  "complete_task sha now actor tid p st = apply_task_transition sha now actor tid Task_Completed ''complete'' p st"

definition dismiss_task where
  "dismiss_task sha now actor tid p st = apply_task_transition sha now actor tid Task_Dismissed ''dismiss'' p st"

definition self_assign_task ::
  "(string \<Rightarrow> string) \<Rightarrow> nat \<Rightarrow> string option \<times> audit_role \<Rightarrow> id_text \<Rightarrow> triage_payload \<Rightarrow> task_store \<Rightarrow> task_response \<times> task_store" where
  "self_assign_task sha now actor tid p st =
     (case task_at tid st of
        None \<Rightarrow> apply_task_transition sha now actor tid Task_Open ''self_assign'' p st
      | Some t \<Rightarrow>
          if tk_state t \<in> set terminal_tasks
          then transition_denied now actor t ''denied:self_assign'' (tp_reason p) Transition_Denied_Terminal st
          else (let t' = t\<lparr>tk_owner := fst actor,
                     tk_role := (case snd actor of By_Owner r \<Rightarrow> Some r | By_System \<Rightarrow> tk_role t), tk_updated := now,
                     tk_reason := (if given_text (tp_reason p) \<noteq> None then redact_optional (tp_reason p) else tk_reason t)\<rparr>;
                    st2 = emit_task_audit now actor t' ''self_assigned'' (tk_state t) (tk_state t) (tp_reason p) None (put_task t' st)
                in (\<lparr>tr_accepted = True, tr_task = t', tr_transition = ''self_assigned'', tr_previous = tk_state t,
                     tr_next = tk_state t, tr_denial = None\<rparr>, st2)))"

section \<open>Reading\<close>

record task_filter =
  tf_severity :: "severity option"
  tf_type :: "task_type option"
  tf_state :: "task_state option"
  tf_tenant :: "string option"
  tf_source :: "string option"
  tf_owner :: "string option"
  tf_correlation :: "string option"

text \<open>
  Severities, types and states are compared as texts in the code; a text outside a vocabulary matches
  nothing, which the filters on closed vocabularies leave out.
\<close>

definition selects :: "task_filter \<Rightarrow> operator_task \<Rightarrow> bool" where
  "selects f t \<longleftrightarrow>
     (tf_severity f = None \<or> tf_severity f = Some (tk_severity t)) \<and> (tf_type f = None \<or> tf_type f = Some (tk_type t)) \<and>
     (tf_state f = None \<or> tf_state f = Some (tk_state t)) \<and>
     (tf_tenant f = None \<or> tf_tenant f = Some (or_blank (tk_tenant t))) \<and>
     (tf_source f = None \<or> tf_source f = Some (case tk_source t of None \<Rightarrow> [] | Some s \<Rightarrow> task_source_text s)) \<and>
     (tf_owner f = None \<or> tf_owner f = Some (or_blank (tk_owner t))) \<and>
     (tf_correlation f = None \<or> tf_correlation f = Some (tk_correlation t))"

record task_queue =
  tq_tasks :: "operator_task list"
  tq_total :: nat
  tq_active :: nat
  tq_limit :: nat
  tq_offset :: nat

text \<open>The sort by \<open>(-rank, created_at)\<close> is stable: by the instant first, then by the rank.\<close>

definition ranked_tasks :: "operator_task list \<Rightarrow> operator_task list" where
  "ranked_tasks ts = sort_key (\<lambda>t. 2 - severity_rank (tk_severity t)) (sort_key tk_created ts)"

definition list_tasks :: "nat \<Rightarrow> nat \<Rightarrow> task_filter \<Rightarrow> task_store \<Rightarrow> task_queue" where
  "list_tasks limit offset f st =
     (let items = filter (selects f) (map snd (os_tasks st)) in
      \<lparr>tq_tasks = take limit (drop offset (ranked_tasks items)), tq_total = length items,
       tq_active = length (filter (\<lambda>t. tk_state t \<in> set active_tasks) items), tq_limit = limit, tq_offset = offset\<rparr>)"

definition read_task :: "id_text \<Rightarrow> task_store \<Rightarrow> (operator_task \<times> task_audit list \<times> notification_event list) option" where
  "read_task tid st = map_option (\<lambda>t. (t, task_audit_log tid st, task_notifications tid st)) (task_at tid st)"

section \<open>Routes\<close>

text \<open>The fields of the authenticated token; \<open>None\<close> stands for a request without an identity.\<close>

record operator_token =
  op_user :: "string option"
  op_super :: bool
  op_roles :: "string list"

definition actor_context_and_role :: "operator_token option \<Rightarrow> string option \<times> audit_role" where
  "actor_context_and_role token =
     (case token of None \<Rightarrow> (None, By_System)
      | Some k \<Rightarrow> (op_user k,
          if op_super k then By_Owner Super_Admin
          else if ''support_operator'' \<in> set (op_roles k) then By_Owner Support_Operator
          else if ''engineering_operator'' \<in> set (op_roles k) then By_Owner Engineering_Operator
          else By_System))"

datatype 'a task_reply = Task_Reply nat 'a | Task_Refused nat task_denial | Query_Refused

definition list_tasks_route :: "int \<Rightarrow> int \<Rightarrow> task_filter \<Rightarrow> task_store \<Rightarrow> task_queue task_reply" where
  "list_tasks_route limit offset f st =
     (if 1 \<le> limit \<and> limit \<le> 200 \<and> 0 \<le> offset then Task_Reply 200 (list_tasks (nat limit) (nat offset) f st) else Query_Refused)"

definition read_task_route :: "id_text \<Rightarrow> task_store \<Rightarrow> (operator_task \<times> task_audit list \<times> notification_event list) task_reply" where
  "read_task_route tid st = (case read_task tid st of None \<Rightarrow> Task_Refused 404 Task_Not_Found | Some d \<Rightarrow> Task_Reply 200 d)"

definition transition_reply :: "task_response \<Rightarrow> task_response task_reply" where
  "transition_reply r =
     (case tr_denial r of
        None \<Rightarrow> Task_Reply 200 r
      | Some d \<Rightarrow> if d = Task_Not_Found then Task_Refused 404 d else Task_Refused 409 d)"

definition self_assign_reply :: "task_response \<Rightarrow> task_response task_reply" where
  "self_assign_reply r = (if tr_denial r = Some Task_Not_Found then Task_Refused 404 Task_Not_Found else Task_Reply 200 r)"

text \<open>The requests that change the store; a missing body is an empty payload.\<close>

datatype task_call =
    Intake_Call intake_event
  | Acknowledge_Call id_text triage_payload
  | In_Progress_Call id_text triage_payload
  | Complete_Call id_text triage_payload
  | Dismiss_Call id_text triage_payload
  | Self_Assign_Call id_text triage_payload

fun task_call_route ::
  "(string \<Rightarrow> string) \<Rightarrow> nat \<Rightarrow> operator_token option \<Rightarrow> task_call \<Rightarrow> task_store
   \<Rightarrow> (intake_result + task_response) task_reply \<times> task_store" where
  "task_call_route sha now token (Intake_Call e) st =
     (case upsert_task sha now e st of (r, st') \<Rightarrow> (Task_Reply (if ir_created r then 201 else 200) (Inl r), st'))"
| "task_call_route sha now token (Acknowledge_Call tid p) st =
     (case acknowledge_task sha now (actor_context_and_role token) tid p st of (r, st') \<Rightarrow> (map_task_reply Inr (transition_reply r), st'))"
| "task_call_route sha now token (In_Progress_Call tid p) st =
     (case mark_in_progress_task sha now (actor_context_and_role token) tid p st of (r, st') \<Rightarrow> (map_task_reply Inr (transition_reply r), st'))"
| "task_call_route sha now token (Complete_Call tid p) st =
     (case complete_task sha now (actor_context_and_role token) tid p st of (r, st') \<Rightarrow> (map_task_reply Inr (transition_reply r), st'))"
| "task_call_route sha now token (Dismiss_Call tid p) st =
     (case dismiss_task sha now (actor_context_and_role token) tid p st of (r, st') \<Rightarrow> (map_task_reply Inr (transition_reply r), st'))"
| "task_call_route sha now token (Self_Assign_Call tid p) st =
     (case self_assign_task sha now (actor_context_and_role token) tid p st of (r, st') \<Rightarrow> (map_task_reply Inr (self_assign_reply r), st'))"

end
