(* ===== verification/Incident_Closeout.thy ===== *)
theory Incident_Closeout
  imports Operator_Tasks
begin

text \<open>
  Incident closeouts and their runbooks (\<open>api/v1/platform/p24/schemas.py\<close>, \<open>services.py\<close>, \<open>routes.py\<close>):
  the closeout lifecycle and the step state machine over an in-memory store, the intake events, the close
  gate, and the operator tasks a closeout owes, which it materializes and resolves in the task store of
  \<open>Operator_Tasks\<close>. Conventions are those of that theory.
\<close>

section \<open>Vocabularies\<close>

datatype closeout_state = Detected | Triaged | Flagged_Active | In_Remediation | Awaiting_Closeout
  | Closeout_Closed | Closeout_Withdrawn | Closeout_Expired

datatype step_kind = Observation | Action_Pointer | Approval_Pointer

datatype step_state = Step_Owed | Step_In_Progress | Step_Done | Step_Not_Applicable | Step_Blocked

datatype classification = Class_Database | Class_System | Class_Api | Class_Tenant_Health | Class_Support_Issue

datatype flag_observed = Observed_True | Observed_False | Observed_Unknown

datatype closeout_event_type = Incident_Detected | Incident_Classified | Incident_Flag_Observed | Runbook_Step_Owed
  | Runbook_Step_Progress | Runbook_Step_Terminal | Closeout_Transition

datatype closeout_display = Label_Healthy | Label_Warning | Label_Unknown | Label_Completed | Label_Dismissed | Label_Closed
  | Label_Withdrawn | Label_None

datatype closeout_denial = Closeout_Denied_Invalid | Closeout_Denied_Terminal | Close_Denied_Flag_Still_Set
  | Close_Denied_Owed_Tasks | Close_Denied_Source_Unknown | Close_Denied_Execution_Warning | Step_Done_Denied_Gate_Open
  | Step_Done_Denied_No_Evidence | Closeout_Not_Found | Step_Not_Found

primrec closeout_state_text :: "closeout_state \<Rightarrow> string" where
  "closeout_state_text Detected = ''detected''"
| "closeout_state_text Triaged = ''triaged''"
| "closeout_state_text Flagged_Active = ''flagged_active''"
| "closeout_state_text In_Remediation = ''in_remediation''"
| "closeout_state_text Awaiting_Closeout = ''awaiting_closeout''"
| "closeout_state_text Closeout_Closed = ''closed''"
| "closeout_state_text Closeout_Withdrawn = ''withdrawn''"
| "closeout_state_text Closeout_Expired = ''expired''"

primrec kind_text :: "step_kind \<Rightarrow> string" where
  "kind_text Observation = ''observation''"
| "kind_text Action_Pointer = ''action_pointer''"
| "kind_text Approval_Pointer = ''approval_pointer''"

primrec step_state_text :: "step_state \<Rightarrow> string" where
  "step_state_text Step_Owed = ''owed''"
| "step_state_text Step_In_Progress = ''in_progress''"
| "step_state_text Step_Done = ''done''"
| "step_state_text Step_Not_Applicable = ''not_applicable''"
| "step_state_text Step_Blocked = ''blocked''"

primrec event_type_text :: "closeout_event_type \<Rightarrow> string" where
  "event_type_text Incident_Detected = ''incident_detected''"
| "event_type_text Incident_Classified = ''incident_classified''"
| "event_type_text Incident_Flag_Observed = ''incident_flag_observed''"
| "event_type_text Runbook_Step_Owed = ''runbook_step_owed''"
| "event_type_text Runbook_Step_Progress = ''runbook_step_progress''"
| "event_type_text Runbook_Step_Terminal = ''runbook_step_terminal''"
| "event_type_text Closeout_Transition = ''closeout_transition''"

definition terminal_closeouts :: "closeout_state list" where
  "terminal_closeouts = [Closeout_Closed, Closeout_Withdrawn, Closeout_Expired]"

definition active_closeouts :: "closeout_state list" where
  "active_closeouts = [Detected, Triaged, Flagged_Active, In_Remediation, Awaiting_Closeout]"

definition terminal_steps :: "step_state list" where "terminal_steps = [Step_Done, Step_Not_Applicable]"

definition active_steps :: "step_state list" where "active_steps = [Step_Owed, Step_In_Progress, Step_Blocked]"

fun allowed_closeout :: "closeout_state \<Rightarrow> closeout_state list" where
  "allowed_closeout Detected = [Triaged, Closeout_Withdrawn, Closeout_Expired]"
| "allowed_closeout Triaged = [Flagged_Active, In_Remediation, Closeout_Closed, Closeout_Withdrawn, Closeout_Expired]"
| "allowed_closeout Flagged_Active = [In_Remediation, Awaiting_Closeout, Closeout_Withdrawn, Closeout_Expired]"
| "allowed_closeout In_Remediation = [Flagged_Active, Awaiting_Closeout, Closeout_Withdrawn, Closeout_Expired]"
| "allowed_closeout Awaiting_Closeout = [Closeout_Closed, In_Remediation, Closeout_Expired]"
| "allowed_closeout _ = []"

fun allowed_step :: "step_state \<Rightarrow> step_state list" where
  "allowed_step Step_Owed = [Step_In_Progress, Step_Done, Step_Not_Applicable, Step_Blocked]"
| "allowed_step Step_In_Progress = [Step_Done, Step_Not_Applicable, Step_Blocked]"
| "allowed_step Step_Blocked = [Step_Owed, Step_Not_Applicable]"
| "allowed_step _ = []"

section \<open>Records\<close>

record closeout =
  co_id :: id_text
  co_state :: closeout_state
  co_display :: closeout_display
  co_class :: "classification option"
  co_severity :: severity
  co_tenant :: "string option"
  co_scope :: actor_scope
  co_role :: "owner_role option"
  co_owner :: "string option"
  co_correlation :: string
  co_flag :: flag_observed
  co_flag_ever :: bool
  co_incident :: "string option"
  co_snapshot :: "string option"
  co_handoff :: "string option"
  co_summary :: string
  co_reason :: "string option"
  co_source :: "exec_source option"
  co_warning :: bool
  co_digest :: string
  co_ttl :: "nat option"
  co_task :: "id_text option"
  co_owed :: bool
  co_created :: nat
  co_updated :: nat

record runbook_step =
  rs_id :: id_text
  rs_closeout :: id_text
  rs_seq :: int
  rs_kind :: step_kind
  rs_state :: step_state
  rs_display :: closeout_display
  rs_tenant :: "string option"
  rs_correlation :: string
  rs_action :: "string option"
  rs_approval :: "string option"
  rs_execution :: "string option"
  rs_source_ref :: "string option"
  rs_evidence :: "string option"
  rs_summary :: string
  rs_reason :: "string option"
  rs_source :: "exec_source option"
  rs_terminal :: bool
  rs_resolved :: bool
  rs_warning :: bool
  rs_digest :: string
  rs_task :: "id_text option"
  rs_created :: nat
  rs_updated :: nat

record closeout_audit =
  ca_event :: id_text
  ca_closeout :: id_text
  ca_state :: closeout_state
  ca_actor :: "string option"
  ca_role :: audit_role
  ca_tenant :: "string option"
  ca_transition :: string
  ca_previous :: closeout_state
  ca_next :: closeout_state
  ca_flag :: flag_observed
  ca_reason :: "string option"
  ca_denial :: "closeout_denial option"
  ca_correlation :: string
  ca_incident :: "string option"
  ca_seq :: nat
  ca_created :: nat

record step_audit =
  sa_event :: id_text
  sa_step :: id_text
  sa_closeout :: id_text
  sa_kind :: step_kind
  sa_transition :: string
  sa_previous :: step_state
  sa_next :: step_state
  sa_actor :: "string option"
  sa_role :: audit_role
  sa_tenant :: "string option"
  sa_evidence :: "string option"
  sa_correlation :: string
  sa_action :: "string option"
  sa_approval :: "string option"
  sa_execution :: "string option"
  sa_source_ref :: "string option"
  sa_seq :: nat
  sa_created :: nat

record closeout_event =
  ce_type :: closeout_event_type
  ce_closeout :: "id_text option"
  ce_class :: "classification option"
  ce_severity :: "severity option"
  ce_tenant :: "string option"
  ce_scope :: actor_scope
  ce_role :: "owner_role option"
  ce_correlation :: string
  ce_incident :: "string option"
  ce_snapshot :: "string option"
  ce_handoff :: "string option"
  ce_summary :: string
  ce_reason :: "string option"
  ce_flag :: "flag_observed option"
  ce_source :: "exec_source option"
  ce_action :: "string option"
  ce_approval :: "string option"
  ce_execution :: "string option"
  ce_source_ref :: "string option"
  ce_step :: "id_text option"
  ce_kind :: "step_kind option"
  ce_seq :: "int option"
  ce_terminal :: "bool option"
  ce_resolved :: "bool option"
  ce_warning :: "bool option"
  ce_evidence :: "string option"
  ce_target :: "closeout_state option"
  ce_ttl :: "nat option"

record closeout_response =
  cr_closeout :: closeout
  cr_step :: "runbook_step option"
  cr_created :: bool
  cr_deduped :: bool
  cr_accepted :: bool
  cr_denial :: "closeout_denial option"

text \<open>The module's dictionaries and lists, and the task store of the task service.\<close>

record closeout_store =
  ic_closeouts :: "(id_text \<times> closeout) list"
  ic_steps :: "id_text \<rightharpoonup> runbook_step"
  ic_order :: "id_text \<rightharpoonup> id_text list"
  ic_audit :: "closeout_audit list"
  ic_step_audit :: "step_audit list"
  ic_active :: "string \<rightharpoonup> id_text"
  ic_step_active :: "string \<rightharpoonup> id_text"
  ic_seq :: "id_text \<rightharpoonup> nat"
  ic_step_seq :: "id_text \<rightharpoonup> nat"
  ic_uuids :: "nat \<Rightarrow> uuid"
  ic_drawn :: nat
  ic_tasks :: task_store

type_synonym operator = "string option \<times> audit_role"

definition reset_closeouts :: "(nat \<Rightarrow> uuid) \<Rightarrow> nat \<Rightarrow> task_store \<Rightarrow> closeout_store" where
  "reset_closeouts uuids drawn tasks =
     \<lparr>ic_closeouts = [], ic_steps = Map.empty, ic_order = Map.empty, ic_audit = [], ic_step_audit = [], ic_active = Map.empty,
      ic_step_active = Map.empty, ic_seq = Map.empty, ic_step_seq = Map.empty, ic_uuids = uuids, ic_drawn = drawn, ic_tasks = tasks\<rparr>"

definition closeout_at :: "id_text \<Rightarrow> closeout_store \<Rightarrow> closeout option" where
  "closeout_at cid st = map_of (ic_closeouts st) cid"

definition put_closeout :: "closeout \<Rightarrow> closeout_store \<Rightarrow> closeout_store" where
  "put_closeout c st = st\<lparr>ic_closeouts := AList.update (co_id c) c (ic_closeouts st)\<rparr>"

definition put_step :: "runbook_step \<Rightarrow> closeout_store \<Rightarrow> closeout_store" where
  "put_step s st = st\<lparr>ic_steps := (ic_steps st)(rs_id s \<mapsto> s)\<rparr>"

definition order_of :: "id_text \<Rightarrow> closeout_store \<Rightarrow> id_text list" where
  "order_of cid st = (case ic_order st cid of None \<Rightarrow> [] | Some ids \<Rightarrow> ids)"

definition steps_for :: "id_text \<Rightarrow> closeout_store \<Rightarrow> runbook_step list" where
  "steps_for cid st = List.map_filter (ic_steps st) (order_of cid st)"

definition closeout_audit_log_for :: "id_text \<Rightarrow> closeout_store \<Rightarrow> closeout_audit list" where
  "closeout_audit_log_for cid st = filter (\<lambda>e. ca_closeout e = cid) (ic_audit st)"

definition step_audit_log_for :: "id_text \<Rightarrow> closeout_store \<Rightarrow> step_audit list" where
  "step_audit_log_for sid st = filter (\<lambda>e. sa_step e = sid) (ic_step_audit st)"

section \<open>Labels, keys and severity\<close>

definition compute_closeout_display :: "closeout_state \<Rightarrow> exec_source option \<Rightarrow> bool \<Rightarrow> closeout_display" where
  "compute_closeout_display s source warned =
     (if source = Some Src_Unknown then Label_Unknown
      else if warned \<or> source = Some Src_Degraded then Label_Warning
      else if s = Closeout_Closed then Label_Closed
      else if s = Closeout_Withdrawn then Label_Withdrawn
      else if s = Closeout_Expired then Label_Unknown
      else Label_Healthy)"

definition compute_step_display :: "step_state \<Rightarrow> exec_source option \<Rightarrow> bool \<Rightarrow> closeout_display" where
  "compute_step_display s source warned =
     (if source = Some Src_Unknown \<or> s = Step_Blocked then Label_Unknown
      else if warned \<or> source = Some Src_Degraded then Label_Warning
      else if s = Step_Done then Label_Completed
      else if s = Step_Not_Applicable then Label_Dismissed
      else Label_Healthy)"

definition closeout_key :: "string \<Rightarrow> string option \<Rightarrow> string option \<Rightarrow> string" where
  "closeout_key corr tenant incident = bar_join [''incident_closeout'', corr, or_blank tenant, or_blank incident]"

definition int_text :: "int \<Rightarrow> string" where
  "int_text n = (if n < 0 then CHR ''-'' # decimal_digits (nat (- n)) else decimal_digits (nat n))"

definition step_key :: "id_text \<Rightarrow> int \<Rightarrow> step_kind \<Rightarrow> string option \<Rightarrow> string" where
  "step_key cid seq kind tenant = bar_join [''runbook_step'', text_of cid, int_text seq, kind_text kind, or_blank tenant]"

definition closeout_severity_for ::
  "severity option \<Rightarrow> exec_source option \<Rightarrow> bool \<Rightarrow> string \<Rightarrow> string option \<Rightarrow> closeout_store \<Rightarrow> severity" where
  "closeout_severity_for requested source warned corr tenant st =
     (let force_high = (source = Some Src_Unknown \<or> warned);
          base = (case requested of None \<Rightarrow> (if force_high then High else Medium) | Some s \<Rightarrow> s);
          peer_high = (force_high \<or> list_ex (\<lambda>c. co_state c \<notin> set terminal_closeouts \<and> co_correlation c = corr \<and>
             or_blank (co_tenant c) = or_blank tenant \<and> 2 \<le> severity_rank (co_severity c)) (map snd (ic_closeouts st)));
          level = (if peer_high then max (severity_rank base) 1 else severity_rank base)
      in rank_severity (if force_high then max level 2 else level))"

section \<open>Audit\<close>

definition draw_closeout_id :: "closeout_store \<Rightarrow> id_text \<times> closeout_store" where
  "draw_closeout_id st = (Canonical (ic_uuids st (ic_drawn st)), st\<lparr>ic_drawn := Suc (ic_drawn st)\<rparr>)"

definition emit_closeout_audit ::
  "nat \<Rightarrow> operator \<Rightarrow> closeout \<Rightarrow> string \<Rightarrow> closeout_state \<Rightarrow> closeout_state \<Rightarrow> string option \<Rightarrow> closeout_denial option
   \<Rightarrow> closeout_store \<Rightarrow> closeout_store" where
  "emit_closeout_audit now actor c label previous next_state reason denial st =
     (let seq = (case ic_seq st (co_id c) of None \<Rightarrow> 0 | Some n \<Rightarrow> n) + 1;
          (eid, st1) = draw_closeout_id (st\<lparr>ic_seq := (ic_seq st)(co_id c \<mapsto> seq)\<rparr>)
      in st1\<lparr>ic_audit := ic_audit st1 @
           [\<lparr>ca_event = eid, ca_closeout = co_id c, ca_state = next_state, ca_actor = fst actor, ca_role = snd actor,
             ca_tenant = co_tenant c, ca_transition = label, ca_previous = previous, ca_next = next_state, ca_flag = co_flag c,
             ca_reason = redact_optional reason, ca_denial = denial, ca_correlation = co_correlation c,
             ca_incident = co_incident c, ca_seq = seq, ca_created = now\<rparr>]\<rparr>)"

definition emit_step_audit ::
  "nat \<Rightarrow> operator \<Rightarrow> runbook_step \<Rightarrow> string \<Rightarrow> step_state \<Rightarrow> step_state \<Rightarrow> string option \<Rightarrow> closeout_store \<Rightarrow> closeout_store" where
  "emit_step_audit now actor s label previous next_state evidence st =
     (let seq = (case ic_step_seq st (rs_id s) of None \<Rightarrow> 0 | Some n \<Rightarrow> n) + 1;
          (eid, st1) = draw_closeout_id (st\<lparr>ic_step_seq := (ic_step_seq st)(rs_id s \<mapsto> seq)\<rparr>)
      in st1\<lparr>ic_step_audit := ic_step_audit st1 @
           [\<lparr>sa_event = eid, sa_step = rs_id s, sa_closeout = rs_closeout s, sa_kind = rs_kind s, sa_transition = label,
             sa_previous = previous, sa_next = next_state, sa_actor = fst actor, sa_role = snd actor, sa_tenant = rs_tenant s,
             sa_evidence = redact_optional evidence, sa_correlation = rs_correlation s, sa_action = rs_action s,
             sa_approval = rs_approval s, sa_execution = rs_execution s, sa_source_ref = rs_source_ref s, sa_seq = seq,
             sa_created = now\<rparr>]\<rparr>)"

section \<open>Owed operator tasks\<close>

definition p23_task_is_terminal :: "id_text \<Rightarrow> task_store \<Rightarrow> bool" where
  "p23_task_is_terminal tid tasks =
     (case read_task tid tasks of None \<Rightarrow> True | Some (t, _, _) \<Rightarrow> tk_state t \<in> set terminal_tasks)"

definition followup_event :: "closeout \<Rightarrow> intake_event" where
  "followup_event c =
     \<lparr>ie_type = Incident_Followup_Required, ie_severity = Some (co_severity c), ie_tenant = co_tenant c, ie_scope = co_scope c,
      ie_role = co_role c, ie_correlation = co_correlation c, ie_action = None, ie_approval = None, ie_execution = None,
      ie_dry_run = None, ie_source_ref = None, ie_incident = co_incident c,
      ie_summary = ''Incident follow-up owed for closeout '' @ text_of (co_id c) @ ''.'',
      ie_reason = Some (''Materialized by P24 closeout state='' @ closeout_state_text (co_state c) @ ''.''),
      ie_source = co_source c, ie_gate_open = False, ie_variant = Some (text_of (co_id c)), ie_ttl = co_ttl c, ie_channel = None\<rparr>"

definition materialize_followup :: "(string \<Rightarrow> string) \<Rightarrow> nat \<Rightarrow> closeout \<Rightarrow> closeout_store \<Rightarrow> closeout_store" where
  "materialize_followup sha now c st =
     (case upsert_task sha now (followup_event c) (ic_tasks st) of (r, tasks) \<Rightarrow>
       put_closeout (c\<lparr>co_task := map_option tk_id (ir_task r), co_owed := True, co_updated := now\<rparr>) (st\<lparr>ic_tasks := tasks\<rparr>))"

definition resolution :: "string \<Rightarrow> string \<Rightarrow> triage_payload" where
  "resolution reason evidence = \<lparr>tp_reason = Some reason, tp_evidence = Some evidence, tp_evidence_ref = None\<rparr>"

definition resolve_followup ::
  "(string \<Rightarrow> string) \<Rightarrow> nat \<Rightarrow> operator \<Rightarrow> string \<Rightarrow> closeout \<Rightarrow> closeout_store \<Rightarrow> closeout_store" where
  "resolve_followup sha now actor evidence c st =
     (case co_task c of
        None \<Rightarrow> put_closeout (c\<lparr>co_owed := False\<rparr>) st
      | Some tid \<Rightarrow>
          if p23_task_is_terminal tid (ic_tasks st) then put_closeout (c\<lparr>co_owed := False\<rparr>) st
          else (case complete_task sha now actor tid (resolution ''follow-up resolved via P24 closeout'' evidence) (ic_tasks st) of
             (_, tasks) \<Rightarrow> put_closeout (c\<lparr>co_owed := False, co_updated := now\<rparr>) (st\<lparr>ic_tasks := tasks\<rparr>)))"

definition step_event :: "runbook_step \<Rightarrow> severity \<Rightarrow> intake_event" where
  "step_event s sev =
     \<lparr>ie_type = Runbook_Step_Required,
      ie_severity = Some (if rs_kind s = Action_Pointer \<and> (rs_source s = Some Src_Unknown \<or> rs_warning s) then High else sev),
      ie_tenant = rs_tenant s, ie_scope = (if given_text (rs_tenant s) \<noteq> None then Tenant_Contextual else Platform_Scope),
      ie_role = None, ie_correlation = rs_correlation s, ie_action = rs_action s, ie_approval = rs_approval s,
      ie_execution = rs_execution s, ie_dry_run = None, ie_source_ref = rs_source_ref s, ie_incident = None,
      ie_summary = ''Runbook step '' @ text_of (rs_id s) @ '' ('' @ kind_text (rs_kind s) @ '') owed.'',
      ie_reason = Some (''Materialized by P24 step_state='' @ step_state_text (rs_state s) @ ''.''),
      ie_source = rs_source s, ie_gate_open = False, ie_variant = Some (text_of (rs_id s)), ie_ttl = None, ie_channel = None\<rparr>"

definition materialize_step_task :: "(string \<Rightarrow> string) \<Rightarrow> nat \<Rightarrow> severity \<Rightarrow> runbook_step \<Rightarrow> closeout_store \<Rightarrow> closeout_store" where
  "materialize_step_task sha now sev s st =
     (case upsert_task sha now (step_event s sev) (ic_tasks st) of (r, tasks) \<Rightarrow>
       put_step (s\<lparr>rs_task := map_option tk_id (ir_task r), rs_updated := now\<rparr>) (st\<lparr>ic_tasks := tasks\<rparr>))"

definition resolve_step_task ::
  "(string \<Rightarrow> string) \<Rightarrow> nat \<Rightarrow> operator \<Rightarrow> string option \<Rightarrow> bool \<Rightarrow> runbook_step \<Rightarrow> closeout_store \<Rightarrow> closeout_store" where
  "resolve_step_task sha now actor evidence dismissing s st =
     (case rs_task s of
        None \<Rightarrow> st
      | Some tid \<Rightarrow>
          if p23_task_is_terminal tid (ic_tasks st) then st
          else (let note = (case given_text evidence of None \<Rightarrow> ''step '' @ step_state_text (rs_state s) @ '' via P24'' | Some e \<Rightarrow> e);
                    p = resolution ''runbook step resolved via P24'' note;
                    (_, tasks) = (if dismissing then dismiss_task sha now actor tid p (ic_tasks st)
                                  else complete_task sha now actor tid p (ic_tasks st))
                in put_step (s\<lparr>rs_updated := now\<rparr>) (st\<lparr>ic_tasks := tasks\<rparr>)))"

section \<open>Closeout transitions\<close>

definition owed_steps_open :: "id_text \<Rightarrow> closeout_store \<Rightarrow> bool" where
  "owed_steps_open cid st \<longleftrightarrow> list_ex (\<lambda>s. rs_state s \<in> set active_steps) (steps_for cid st)"

definition followup_task_terminal :: "closeout \<Rightarrow> task_store \<Rightarrow> bool" where
  "followup_task_terminal c tasks = (case co_task c of None \<Rightarrow> True | Some tid \<Rightarrow> p23_task_is_terminal tid tasks)"

definition closeout_refusal :: "closeout \<Rightarrow> closeout_state \<Rightarrow> closeout_store \<Rightarrow> closeout_denial option" where
  "closeout_refusal c target st =
     (if co_state c \<in> set terminal_closeouts then Some Closeout_Denied_Terminal
      else if target \<notin> set (allowed_closeout (co_state c)) then Some Closeout_Denied_Invalid
      else if target = Flagged_Active \<and> co_flag c \<noteq> Observed_True then Some Closeout_Denied_Invalid
      else if target = Awaiting_Closeout \<and> owed_steps_open (co_id c) st then Some Close_Denied_Owed_Tasks
      else if target = Closeout_Closed then
        (if owed_steps_open (co_id c) st then Some Close_Denied_Owed_Tasks
         else if co_flag_ever c \<and> co_flag c \<noteq> Observed_False then Some Close_Denied_Flag_Still_Set
         else if co_owed c \<and> \<not> followup_task_terminal c (ic_tasks st) then Some Close_Denied_Owed_Tasks
         else if co_source c = Some Src_Unknown then Some Close_Denied_Source_Unknown
         else if co_warning c then Some Close_Denied_Execution_Warning
         else None)
      else None)"

definition with_closeout :: "id_text \<Rightarrow> (closeout \<Rightarrow> closeout_store \<Rightarrow> closeout_store) \<Rightarrow> closeout_store \<Rightarrow> closeout_store" where
  "with_closeout cid f st = (case closeout_at cid st of None \<Rightarrow> st | Some c \<Rightarrow> f c st)"

definition set_closeout_state :: "nat \<Rightarrow> closeout_state \<Rightarrow> string option \<Rightarrow> closeout \<Rightarrow> closeout" where
  "set_closeout_state now target reason c =
     c\<lparr>co_state := target, co_display := compute_closeout_display target (co_source c) (co_warning c), co_updated := now,
       co_reason := (if given_text reason \<noteq> None then redact_optional reason else co_reason c)\<rparr>"

definition enter_closeout_state ::
  "(string \<Rightarrow> string) \<Rightarrow> nat \<Rightarrow> operator \<Rightarrow> closeout_state \<Rightarrow> string option \<Rightarrow> closeout \<Rightarrow> closeout_store \<Rightarrow> closeout_store" where
  "enter_closeout_state sha now actor target reason c st =
     (let cid = co_id c;
          st1 = put_closeout (set_closeout_state now target reason c) st;
          st2 = with_closeout cid (\<lambda>d s. if target = Flagged_Active \<and> \<not> co_owed d \<and> co_flag d = Observed_True
                  then materialize_followup sha now d s else s) st1;
          st3 = with_closeout cid (\<lambda>d s. if target = Awaiting_Closeout \<and> co_owed d
                  then resolve_followup sha now actor ''closeout advanced to awaiting_closeout'' d s else s) st2;
          st4 = with_closeout cid (\<lambda>d s. if target = Closeout_Closed \<and> co_owed d
                  then resolve_followup sha now actor ''closeout closed'' d s else s) st3
      in if target \<notin> set terminal_closeouts then st4
         else with_closeout cid (\<lambda>d s. if co_owed d then resolve_followup sha now actor ''closeout terminal'' d s else s)
                (st4\<lparr>ic_active := (ic_active st4)(co_digest c := None)\<rparr>))"

text \<open>\<open>_transition_closeout\<close>: the denial, if any, and the store.\<close>

definition transition_closeout ::
  "(string \<Rightarrow> string) \<Rightarrow> nat \<Rightarrow> operator \<Rightarrow> closeout \<Rightarrow> closeout_state \<Rightarrow> string option \<Rightarrow> closeout_store
   \<Rightarrow> closeout_denial option \<times> closeout_store" where
  "transition_closeout sha now actor c target reason st =
     (case closeout_refusal c target st of
        Some d \<Rightarrow> (Some d, st)
      | None \<Rightarrow> (None, enter_closeout_state sha now actor target reason c st))"

definition closeout_label :: "closeout_state \<Rightarrow> closeout_state \<Rightarrow> string" where
  "closeout_label s target = closeout_state_text s @ ''->'' @ closeout_state_text target"

text \<open>An audit event about the closeout as it is stored now.\<close>

definition audit_closeout ::
  "nat \<Rightarrow> operator \<Rightarrow> id_text \<Rightarrow> string \<Rightarrow> closeout_state \<Rightarrow> string option \<Rightarrow> closeout_denial option \<Rightarrow> closeout_store
   \<Rightarrow> closeout_store" where
  "audit_closeout now actor cid label previous reason denial st =
     with_closeout cid (\<lambda>c s. emit_closeout_audit now actor c label previous (co_state c) reason denial s) st"

definition apply_closeout_transition ::
  "(string \<Rightarrow> string) \<Rightarrow> nat \<Rightarrow> operator \<Rightarrow> id_text \<Rightarrow> closeout_state \<Rightarrow> string option \<Rightarrow> closeout_store
   \<Rightarrow> (closeout \<times> closeout_denial option) option \<times> closeout_store" where
  "apply_closeout_transition sha now actor cid target reason st =
     (case closeout_at cid st of
        None \<Rightarrow> (None, st)
      | Some c \<Rightarrow>
          (case transition_closeout sha now actor c target reason st of (denial, st1) \<Rightarrow>
            let label = (if denial = None then closeout_label (co_state c) target
                         else ''denied:closeout:'' @ closeout_state_text target);
                st2 = audit_closeout now actor cid label (co_state c) reason denial st1
            in (map_option (\<lambda>d. (d, denial)) (closeout_at cid st2), st2)))"

section \<open>Step transitions\<close>

definition step_refusal :: "runbook_step \<Rightarrow> step_state \<Rightarrow> string option \<Rightarrow> closeout_denial option" where
  "step_refusal s target evidence =
     (if rs_state s \<in> set terminal_steps then Some Closeout_Denied_Terminal
      else if target \<notin> set (allowed_step (rs_state s)) then Some Closeout_Denied_Invalid
      else if target = Step_Done then
        (case rs_kind s of
           Action_Pointer \<Rightarrow> if rs_terminal s then None else Some Step_Done_Denied_Gate_Open
         | Approval_Pointer \<Rightarrow> if rs_resolved s then None else Some Step_Done_Denied_Gate_Open
         | Observation \<Rightarrow> if has_text evidence then None else Some Step_Done_Denied_No_Evidence)
      else None)"

definition moved_step ::
  "(string \<Rightarrow> string) \<Rightarrow> nat \<Rightarrow> step_state \<Rightarrow> string option \<Rightarrow> string option \<Rightarrow> runbook_step \<Rightarrow> runbook_step" where
  "moved_step sha now target evidence reason s =
     s\<lparr>rs_state := target, rs_display := compute_step_display target (rs_source s) (rs_warning s), rs_updated := now,
       rs_reason := (if given_text reason \<noteq> None then redact_optional reason else rs_reason s),
       rs_evidence := (if has_text evidence then Some (''note:'' @ take 16 (sha (redact_text (or_blank evidence)))) else rs_evidence s)\<rparr>"

definition transition_step ::
  "(string \<Rightarrow> string) \<Rightarrow> nat \<Rightarrow> operator \<Rightarrow> runbook_step \<Rightarrow> step_state \<Rightarrow> string option \<Rightarrow> string option \<Rightarrow> severity
   \<Rightarrow> closeout_store \<Rightarrow> closeout_denial option \<times> closeout_store" where
  "transition_step sha now actor s target evidence reason sev st =
     (case step_refusal s target evidence of
        Some d \<Rightarrow> (Some d, st)
      | None \<Rightarrow>
          (let s' = moved_step sha now target evidence reason s;
               st1 = put_step s' st
           in (None,
               if target \<in> set active_steps then materialize_step_task sha now sev s' st1
               else resolve_step_task sha now actor evidence (target = Step_Not_Applicable) s'
                      (st1\<lparr>ic_step_active := (ic_step_active st1)(rs_digest s := None)\<rparr>))))"

definition step_change_label :: "step_state \<Rightarrow> step_state \<Rightarrow> string" where
  "step_change_label s target = step_state_text s @ ''->'' @ step_state_text target"

definition apply_step_transition ::
  "(string \<Rightarrow> string) \<Rightarrow> nat \<Rightarrow> operator \<Rightarrow> id_text \<Rightarrow> id_text \<Rightarrow> step_state \<Rightarrow> string option \<Rightarrow> string option \<Rightarrow> closeout_store
   \<Rightarrow> (runbook_step \<times> closeout_denial option) option \<times> closeout_store" where
  "apply_step_transition sha now actor cid sid target evidence reason st =
     (case ic_steps st sid of
        None \<Rightarrow> (None, st)
      | Some s \<Rightarrow>
          if rs_closeout s \<noteq> cid then (None, st)
          else (let sev = (case closeout_at cid st of None \<Rightarrow> Medium | Some c \<Rightarrow> co_severity c) in
                case transition_step sha now actor s target evidence reason sev st of (denial, st1) \<Rightarrow>
                  let label = (if denial = None then step_change_label (rs_state s) target
                               else ''denied:step:'' @ step_state_text target);
                      st2 = (case ic_steps st1 sid of None \<Rightarrow> st1
                             | Some s1 \<Rightarrow> emit_step_audit now actor s1 label (rs_state s) (rs_state s1)
                                 (if denial = None \<and> target = Step_Done then evidence else reason) st1)
                  in (map_option (\<lambda>s2. (s2, denial)) (ic_steps st2 sid), st2)))"

section \<open>Intake\<close>

definition closeout_answer :: "id_text \<Rightarrow> runbook_step option \<Rightarrow> bool \<Rightarrow> bool \<Rightarrow> closeout_denial option \<Rightarrow> closeout \<Rightarrow> closeout_store \<Rightarrow> closeout_response" where
  "closeout_answer cid step created deduped denial otherwise st =
     \<lparr>cr_closeout = (case closeout_at cid st of None \<Rightarrow> otherwise | Some c \<Rightarrow> c), cr_step = step, cr_created = created,
      cr_deduped = deduped, cr_accepted = (denial = None), cr_denial = denial\<rparr>"

definition phantom_closeout :: "nat \<Rightarrow> closeout_event \<Rightarrow> closeout" where
  "phantom_closeout now e =
     \<lparr>co_id = (case given_id (ce_closeout e) of None \<Rightarrow> Malformed ''[not-found]'' | Some i \<Rightarrow> i), co_state = Detected,
      co_display = Label_None, co_class = ce_class e,
      co_severity = (case ce_severity e of None \<Rightarrow> Medium | Some s \<Rightarrow> s), co_tenant = ce_tenant e, co_scope = ce_scope e,
      co_role = ce_role e, co_owner = None, co_correlation = ce_correlation e,
      co_flag = (case ce_flag e of None \<Rightarrow> Observed_Unknown | Some f \<Rightarrow> f), co_flag_ever = False, co_incident = ce_incident e,
      co_snapshot = ce_snapshot e, co_handoff = ce_handoff e, co_summary = ''[not-found]'',
      co_reason = redact_optional (ce_reason e), co_source = ce_source e, co_warning = (ce_warning e = Some True),
      co_digest = [], co_ttl = ce_ttl e, co_task = None, co_owed = False, co_created = now, co_updated = now\<rparr>"

definition new_closeout :: "(string \<Rightarrow> string) \<Rightarrow> nat \<Rightarrow> closeout_event \<Rightarrow> id_text \<Rightarrow> closeout_store \<Rightarrow> closeout" where
  "new_closeout sha now e cid st =
     (let flag = (case ce_flag e of None \<Rightarrow> Observed_Unknown | Some f \<Rightarrow> f); warned = (ce_warning e = Some True) in
      \<lparr>co_id = cid, co_state = Detected, co_display = compute_closeout_display Detected (ce_source e) warned, co_class = ce_class e,
       co_severity = closeout_severity_for (ce_severity e) (ce_source e) warned (ce_correlation e) (ce_tenant e) st,
       co_tenant = ce_tenant e, co_scope = ce_scope e, co_role = ce_role e, co_owner = None, co_correlation = ce_correlation e,
       co_flag = flag, co_flag_ever = (flag = Observed_True), co_incident = ce_incident e, co_snapshot = ce_snapshot e,
       co_handoff = ce_handoff e, co_summary = summary_or_suppressed (ce_summary e), co_reason = redact_optional (ce_reason e),
       co_source = ce_source e, co_warning = warned,
       co_digest = sha (closeout_key (ce_correlation e) (ce_tenant e) (ce_incident e)), co_ttl = ce_ttl e, co_task = None,
       co_owed = False, co_created = now, co_updated = now\<rparr>)"

text \<open>\<open>event.closeout_id or _uuid()\<close>\<close>

definition given_or_drawn :: "id_text option \<Rightarrow> closeout_store \<Rightarrow> id_text \<times> closeout_store" where
  "given_or_drawn i st = (case given_id i of None \<Rightarrow> draw_closeout_id st | Some k \<Rightarrow> (k, st))"

definition ingest_detected ::
  "(string \<Rightarrow> string) \<Rightarrow> nat \<Rightarrow> operator \<Rightarrow> closeout_event \<Rightarrow> closeout_store \<Rightarrow> closeout_response \<times> closeout_store" where
  "ingest_detected sha now actor e st =
     (let digest = sha (closeout_key (ce_correlation e) (ce_tenant e) (ce_incident e)) in
      case Option.bind (ic_active st digest) (\<lambda>cid. closeout_at cid st) of
        Some c \<Rightarrow>
          (let c' = c\<lparr>co_updated := now,
                 co_reason := (if given_text (ce_reason e) \<noteq> None then redact_optional (ce_reason e) else co_reason c)\<rparr>;
               st1 = emit_closeout_audit now actor c' ''replayed:incident_detected'' (co_state c) (co_state c) (Some (ce_summary e))
                       None (put_closeout c' st)
           in (closeout_answer (co_id c) None False True None c' st1, st1))
      | None \<Rightarrow>
          (let (cid, st0) = given_or_drawn (ce_closeout e) st;
               c = new_closeout sha now e cid st;
               st1 = put_closeout c st0\<lparr>ic_order := (ic_order st0)(cid \<mapsto> []), ic_active := (ic_active st0)(digest \<mapsto> cid),
                       ic_seq := (ic_seq st0)(cid \<mapsto> 0)\<rparr>;
               st2 = emit_closeout_audit now actor c ''materialized:detected'' Detected Detected (Some (ce_summary e)) None st1
           in (closeout_answer cid None True False None c st2, st2)))"

definition ingest_classified ::
  "(string \<Rightarrow> string) \<Rightarrow> nat \<Rightarrow> operator \<Rightarrow> closeout \<Rightarrow> closeout_event \<Rightarrow> closeout_store \<Rightarrow> closeout_response \<times> closeout_store" where
  "ingest_classified sha now actor c e st =
     (let c1 = c\<lparr>co_class := (if ce_class e \<noteq> None then ce_class e else co_class c)\<rparr> in
      case transition_closeout sha now actor c1 Triaged (ce_reason e) (put_closeout c1 st) of (denial, st1) \<Rightarrow>
        let label = (if denial = None then closeout_label (co_state c) Triaged else ''denied:intake:classify'');
            st2 = audit_closeout now actor (co_id c) label (co_state c) (ce_reason e) denial st1
        in (closeout_answer (co_id c) None False False denial c1 st2, st2))"

definition flag_target :: "closeout \<Rightarrow> closeout_state option" where
  "flag_target c =
     (if co_flag c = Observed_True \<and> co_state c \<in> {Triaged, In_Remediation} then Some Flagged_Active
      else if co_flag c = Observed_False \<and> co_state c = Flagged_Active then Some Awaiting_Closeout
      else None)"

definition ingest_flag_observed ::
  "(string \<Rightarrow> string) \<Rightarrow> nat \<Rightarrow> operator \<Rightarrow> closeout \<Rightarrow> closeout_event \<Rightarrow> closeout_store \<Rightarrow> closeout_response \<times> closeout_store" where
  "ingest_flag_observed sha now actor c e st =
     (let c1 = (case ce_flag e of None \<Rightarrow> c
                | Some f \<Rightarrow> c\<lparr>co_flag := f, co_flag_ever := (co_flag_ever c \<or> f = Observed_True)\<rparr>);
          prev = co_state c;
          (denial, label, st1) =
            (case flag_target c1 of
               None \<Rightarrow> (None, ''mirrored:flag_observed'', put_closeout (c1\<lparr>co_updated := now\<rparr>) st)
             | Some target \<Rightarrow>
                 (case transition_closeout sha now actor c1 target (ce_reason e) (put_closeout c1 st) of (denial, s) \<Rightarrow>
                   (denial, if denial = None then closeout_label prev target else ''denied:intake:flag_observed'', s)));
          st2 = (if given_text (ce_reason e) \<noteq> None
                 then with_closeout (co_id c) (\<lambda>d s. put_closeout (d\<lparr>co_reason := redact_optional (ce_reason e)\<rparr>) s) st1 else st1);
          st3 = audit_closeout now actor (co_id c) label prev (ce_reason e) denial st2
      in (closeout_answer (co_id c) None False False denial c1 st3, st3))"

definition denied_intake ::
  "nat \<Rightarrow> operator \<Rightarrow> closeout \<Rightarrow> string \<Rightarrow> closeout_denial \<Rightarrow> string option \<Rightarrow> closeout_store \<Rightarrow> closeout_response \<times> closeout_store" where
  "denied_intake now actor c action denial reason st =
     (let st1 = emit_closeout_audit now actor c (''denied:'' @ action) (co_state c) (co_state c) reason (Some denial) st
      in (closeout_answer (co_id c) None False False (Some denial) c st1, st1))"

definition ingest_transition ::
  "(string \<Rightarrow> string) \<Rightarrow> nat \<Rightarrow> operator \<Rightarrow> closeout \<Rightarrow> closeout_event \<Rightarrow> closeout_store \<Rightarrow> closeout_response \<times> closeout_store" where
  "ingest_transition sha now actor c e st =
     (case ce_target e of
        None \<Rightarrow> denied_intake now actor c ''intake:closeout_transition'' Closeout_Denied_Invalid (ce_reason e) st
      | Some target \<Rightarrow>
          (case apply_closeout_transition sha now actor (co_id c) target (ce_reason e) st of
             (None, st1) \<Rightarrow> (closeout_answer (co_id c) None False False (Some Closeout_Not_Found) c st1, st1)
           | (Some (d, denial), st1) \<Rightarrow>
               (\<lparr>cr_closeout = d, cr_step = None, cr_created = False, cr_deduped = False, cr_accepted = (denial = None),
                 cr_denial = denial\<rparr>, st1)))"

definition maybe_enter_remediation :: "(string \<Rightarrow> string) \<Rightarrow> nat \<Rightarrow> operator \<Rightarrow> closeout \<Rightarrow> closeout_store \<Rightarrow> closeout_store" where
  "maybe_enter_remediation sha now actor c st =
     (if co_state c \<notin> {Triaged, Flagged_Active} then st
      else (case transition_closeout sha now actor c In_Remediation None st of
          (None, st1) \<Rightarrow> audit_closeout now actor (co_id c) (closeout_label (co_state c) In_Remediation) (co_state c) None None st1
        | (Some d, st1) \<Rightarrow> st1))"

definition new_step :: "nat \<Rightarrow> closeout \<Rightarrow> closeout_event \<Rightarrow> step_kind \<Rightarrow> int \<Rightarrow> string \<Rightarrow> id_text \<Rightarrow> runbook_step" where
  "new_step now c e kind seq digest sid =
     \<lparr>rs_id = sid, rs_closeout = co_id c, rs_seq = seq, rs_kind = kind, rs_state = Step_Owed,
      rs_display = compute_step_display Step_Owed (ce_source e) (ce_warning e = Some True), rs_tenant = co_tenant c,
      rs_correlation = co_correlation c, rs_action = ce_action e, rs_approval = ce_approval e, rs_execution = ce_execution e,
      rs_source_ref = ce_source_ref e, rs_evidence = None, rs_summary = summary_or_suppressed (ce_summary e),
      rs_reason = redact_optional (ce_reason e), rs_source = ce_source e, rs_terminal = (ce_terminal e = Some True),
      rs_resolved = (ce_resolved e = Some True), rs_warning = (ce_warning e = Some True), rs_digest = digest, rs_task = None,
      rs_created = now, rs_updated = now\<rparr>"

definition ingest_step_owed ::
  "(string \<Rightarrow> string) \<Rightarrow> nat \<Rightarrow> operator \<Rightarrow> closeout \<Rightarrow> closeout_event \<Rightarrow> closeout_store \<Rightarrow> closeout_response \<times> closeout_store" where
  "ingest_step_owed sha now actor c e st =
     (let cid = co_id c;
          kind = (case ce_kind e of None \<Rightarrow> Observation | Some k \<Rightarrow> k);
          seq = (case ce_seq e of None \<Rightarrow> int (length (order_of cid st)) + 1 | Some n \<Rightarrow> n);
          digest = sha (step_key cid seq kind (ce_tenant e))
      in case Option.bind (ic_step_active st digest) (ic_steps st) of
           Some s \<Rightarrow>
             (let s' = s\<lparr>rs_updated := now\<rparr>;
                  st1 = emit_step_audit now actor s' ''replayed:runbook_step_owed'' (rs_state s) (rs_state s) (Some (ce_summary e)) (put_step s' st)
              in (closeout_answer cid (Some s') False True None c st1, st1))
         | None \<Rightarrow>
             (let (sid, st0) = given_or_drawn (ce_step e) st;
                  s = new_step now c e kind seq digest sid;
                  st1 = put_step s st0\<lparr>ic_order := (ic_order st0)(cid \<mapsto> order_of cid st0 @ [sid]),
                          ic_step_active := (ic_step_active st0)(digest \<mapsto> sid), ic_step_seq := (ic_step_seq st0)(sid \<mapsto> 0)\<rparr>;
                  st2 = maybe_enter_remediation sha now actor c st1;
                  st3 = materialize_step_task sha now (co_severity c) s st2;
                  st4 = (case ic_steps st3 sid of None \<Rightarrow> st3
                         | Some s1 \<Rightarrow> emit_step_audit now actor s1 ''materialized:owed'' Step_Owed Step_Owed (Some (ce_summary e)) st3)
              in (closeout_answer cid (ic_steps st4 sid) False False None c st4, st4)))"

definition mirrored_step :: "closeout_event \<Rightarrow> runbook_step \<Rightarrow> runbook_step" where
  "mirrored_step e s =
     (let s1 = s\<lparr>rs_source := (if ce_source e \<noteq> None then ce_source e else rs_source s),
                rs_terminal := (case ce_terminal e of None \<Rightarrow> rs_terminal s | Some b \<Rightarrow> b),
                rs_resolved := (case ce_resolved e of None \<Rightarrow> rs_resolved s | Some b \<Rightarrow> b),
                rs_warning := (case ce_warning e of None \<Rightarrow> rs_warning s | Some b \<Rightarrow> b)\<rparr>
      in s1\<lparr>rs_display := compute_step_display (rs_state s1) (rs_source s1) (rs_warning s1)\<rparr>)"

definition ingest_step_change ::
  "(string \<Rightarrow> string) \<Rightarrow> nat \<Rightarrow> operator \<Rightarrow> closeout \<Rightarrow> closeout_event \<Rightarrow> closeout_store \<Rightarrow> closeout_response \<times> closeout_store" where
  "ingest_step_change sha now actor c e st =
     (let missing = denied_intake now actor c (''intake:'' @ event_type_text (ce_type e)) Step_Not_Found (Some (ce_summary e)) st in
      case given_id (ce_step e) of
        None \<Rightarrow> missing
      | Some sid \<Rightarrow>
          (case ic_steps st sid of
             None \<Rightarrow> missing
           | Some s \<Rightarrow>
               if rs_closeout s \<noteq> co_id c then missing
               else (case apply_step_transition sha now actor (co_id c) sid
                       (if ce_type e = Runbook_Step_Progress then Step_In_Progress else Step_Done)
                       (if ce_type e = Runbook_Step_Progress then None else ce_evidence e) (ce_reason e) (put_step (mirrored_step e s) st) of
                   (None, st1) \<Rightarrow> (closeout_answer (co_id c) None False False (Some Step_Not_Found) c st1, st1)
                 | (Some (s2, denial), st1) \<Rightarrow> (closeout_answer (co_id c) (Some s2) False False denial c st1, st1))))"

definition ingest_event ::
  "(string \<Rightarrow> string) \<Rightarrow> nat \<Rightarrow> operator \<Rightarrow> closeout_event \<Rightarrow> closeout_store \<Rightarrow> closeout_response \<times> closeout_store" where
  "ingest_event sha now actor e st =
     (if ce_type e = Incident_Detected then ingest_detected sha now actor e st
      else case Option.bind (given_id (ce_closeout e)) (\<lambda>cid. closeout_at cid st) of
          None \<Rightarrow> (\<lparr>cr_closeout = phantom_closeout now e, cr_step = None, cr_created = False, cr_deduped = False,
                    cr_accepted = False, cr_denial = Some Closeout_Not_Found\<rparr>, st)
        | Some c \<Rightarrow>
            (case ce_type e of
               Incident_Classified \<Rightarrow> ingest_classified sha now actor c e st
             | Incident_Flag_Observed \<Rightarrow> ingest_flag_observed sha now actor c e st
             | Closeout_Transition \<Rightarrow> ingest_transition sha now actor c e st
             | Runbook_Step_Owed \<Rightarrow> ingest_step_owed sha now actor c e st
             | _ \<Rightarrow> ingest_step_change sha now actor c e st))"

section \<open>Ownership and reading\<close>

definition self_assign_closeout ::
  "nat \<Rightarrow> operator \<Rightarrow> id_text \<Rightarrow> closeout_store \<Rightarrow> (closeout \<times> closeout_denial option) option \<times> closeout_store" where
  "self_assign_closeout now actor cid st =
     (case closeout_at cid st of
        None \<Rightarrow> (None, st)
      | Some c \<Rightarrow>
          if co_state c \<in> set terminal_closeouts
          then (Some (c, Some Closeout_Denied_Terminal),
                emit_closeout_audit now actor c ''denied:self_assign'' (co_state c) (co_state c) None (Some Closeout_Denied_Terminal) st)
          else (let c' = c\<lparr>co_owner := fst actor,
                     co_role := (case snd actor of By_Owner r \<Rightarrow> Some r | By_System \<Rightarrow> co_role c), co_updated := now\<rparr>
                in (Some (c', None),
                    emit_closeout_audit now actor c' ''self_assigned'' (co_state c) (co_state c) None None (put_closeout c' st))))"

record closeout_filter =
  cf_state :: "closeout_state option"
  cf_class :: "classification option"
  cf_severity :: "severity option"
  cf_tenant :: "string option"
  cf_flag :: "flag_observed option"
  cf_owner :: "string option"
  cf_correlation :: "string option"

definition selects_closeout :: "closeout_filter \<Rightarrow> closeout \<Rightarrow> bool" where
  "selects_closeout f c \<longleftrightarrow>
     (cf_state f = None \<or> cf_state f = Some (co_state c)) \<and> (cf_class f = None \<or> cf_class f = co_class c) \<and>
     (cf_severity f = None \<or> cf_severity f = Some (co_severity c)) \<and>
     (cf_tenant f = None \<or> cf_tenant f = Some (or_blank (co_tenant c))) \<and>
     (cf_flag f = None \<or> cf_flag f = Some (co_flag c)) \<and>
     (cf_owner f = None \<or> cf_owner f = Some (or_blank (co_owner c))) \<and>
     (cf_correlation f = None \<or> cf_correlation f = Some (co_correlation c))"

record closeout_list =
  cl_closeouts :: "closeout list"
  cl_total :: nat
  cl_active :: nat
  cl_limit :: nat
  cl_offset :: nat

definition ranked_closeouts :: "closeout list \<Rightarrow> closeout list" where
  "ranked_closeouts cs = sort_key (\<lambda>c. 2 - severity_rank (co_severity c)) (sort_key co_created cs)"

definition list_closeouts :: "nat \<Rightarrow> nat \<Rightarrow> closeout_filter \<Rightarrow> closeout_store \<Rightarrow> closeout_list" where
  "list_closeouts limit offset f st =
     (let items = filter (selects_closeout f) (map snd (ic_closeouts st)) in
      \<lparr>cl_closeouts = take limit (drop offset (ranked_closeouts items)), cl_total = length items,
       cl_active = length (filter (\<lambda>c. co_state c \<in> set active_closeouts) items), cl_limit = limit, cl_offset = offset\<rparr>)"

definition read_closeout :: "id_text \<Rightarrow> closeout_store \<Rightarrow> (closeout \<times> closeout_audit list \<times> runbook_step list) option" where
  "read_closeout cid st = map_option (\<lambda>c. (c, closeout_audit_log_for cid st, steps_for cid st)) (closeout_at cid st)"

definition read_runbook :: "id_text \<Rightarrow> closeout_store \<Rightarrow> (id_text \<times> runbook_step list) option" where
  "read_runbook cid st = (case closeout_at cid st of None \<Rightarrow> None | Some _ \<Rightarrow> Some (cid, steps_for cid st))"

section \<open>Routes\<close>

datatype 'a closeout_reply = Closeout_Reply nat 'a | Closeout_Refused nat closeout_denial | Closeout_Query_Refused

definition list_closeouts_route :: "int \<Rightarrow> int \<Rightarrow> closeout_filter \<Rightarrow> closeout_store \<Rightarrow> closeout_list closeout_reply" where
  "list_closeouts_route limit offset f st =
     (if 1 \<le> limit \<and> limit \<le> 200 \<and> 0 \<le> offset then Closeout_Reply 200 (list_closeouts (nat limit) (nat offset) f st)
      else Closeout_Query_Refused)"

definition read_closeout_route :: "id_text \<Rightarrow> closeout_store \<Rightarrow> (closeout \<times> closeout_audit list \<times> runbook_step list) closeout_reply" where
  "read_closeout_route cid st =
     (case read_closeout cid st of None \<Rightarrow> Closeout_Refused 404 Closeout_Not_Found | Some d \<Rightarrow> Closeout_Reply 200 d)"

definition read_runbook_route :: "id_text \<Rightarrow> closeout_store \<Rightarrow> (id_text \<times> runbook_step list) closeout_reply" where
  "read_runbook_route cid st =
     (case read_runbook cid st of None \<Rightarrow> Closeout_Refused 404 Closeout_Not_Found | Some d \<Rightarrow> Closeout_Reply 200 d)"

definition denial_http :: "closeout_denial \<Rightarrow> nat" where
  "denial_http d = (if d \<in> {Closeout_Not_Found, Step_Not_Found} then 404 else 409)"

definition plain_answer :: "closeout \<Rightarrow> runbook_step option \<Rightarrow> closeout_denial option \<Rightarrow> closeout_response" where
  "plain_answer c step denial =
     \<lparr>cr_closeout = c, cr_step = step, cr_created = False, cr_deduped = False, cr_accepted = (denial = None), cr_denial = denial\<rparr>"

text \<open>The requests that change the store, by the authenticated operator.\<close>

datatype closeout_call =
    Closeout_Intake closeout_event
  | Closeout_Self_Assign id_text
  | Closeout_Judgment id_text closeout_state "string option"
  | Step_Change id_text id_text step_state "string option" "string option"

fun closeout_call_route ::
  "(string \<Rightarrow> string) \<Rightarrow> nat \<Rightarrow> operator_token option \<Rightarrow> closeout_call \<Rightarrow> closeout_store
   \<Rightarrow> closeout_response closeout_reply \<times> closeout_store" where
  "closeout_call_route sha now token (Closeout_Intake e) st =
     (case ingest_event sha now (actor_context_and_role token) e st of
        (r, st') \<Rightarrow> (Closeout_Reply (if cr_created r then 201 else 200) r, st'))"
| "closeout_call_route sha now token (Closeout_Self_Assign cid) st =
     (case self_assign_closeout now (actor_context_and_role token) cid st of
        (None, st') \<Rightarrow> (Closeout_Refused 404 Closeout_Not_Found, st')
      | (Some (c, denial), st') \<Rightarrow> (Closeout_Reply 200 (plain_answer c None denial), st'))"
| "closeout_call_route sha now token (Closeout_Judgment cid target reason) st =
     (case apply_closeout_transition sha now (actor_context_and_role token) cid target reason st of
        (None, st') \<Rightarrow> (Closeout_Refused 404 Closeout_Not_Found, st')
      | (Some (c, Some d), st') \<Rightarrow> (Closeout_Refused (denial_http d) d, st')
      | (Some (c, None), st') \<Rightarrow> (Closeout_Reply 200 (plain_answer c None None), st'))"
| "closeout_call_route sha now token (Step_Change cid sid target evidence reason) st =
     (case apply_step_transition sha now (actor_context_and_role token) cid sid target evidence reason st of
        (None, st') \<Rightarrow> (Closeout_Refused 404 Step_Not_Found, st')
      | (Some (s, Some d), st') \<Rightarrow> (Closeout_Refused (denial_http d) d, st')
      | (Some (s, None), st') \<Rightarrow>
          (case closeout_at cid st' of
             None \<Rightarrow> (Closeout_Refused 500 Closeout_Not_Found, st')
           | Some c \<Rightarrow> (Closeout_Reply 200 (plain_answer c (Some s) None), st')))"

end
