(* ===== verification/Task_Contract.thy ===== *)
theory Task_Contract
  imports Operator_Tasks
begin

text \<open>
  What the operator task queue keeps, whatever requests arrive: which task stands for a follow-up, the
  history of every task, the honest label, the severities of a correlation, and the notification records.
\<close>

section \<open>Access to the store\<close>

declare AList.distinct_update [simp]

lemma put_task_fields [simp]:
  "os_audit (put_task t st) = os_audit st" "os_notes (put_task t st) = os_notes st" "os_active (put_task t st) = os_active st"
  "os_seq (put_task t st) = os_seq st" "os_inflight (put_task t st) = os_inflight st" "os_uuids (put_task t st) = os_uuids st"
  "os_drawn (put_task t st) = os_drawn st"
  by (simp_all add: put_task_def)

lemma task_at_put: "task_at k (put_task t st) = (if k = tk_id t then Some t else task_at k st)"
  by (simp add: task_at_def put_task_def update_conv')

lemma task_at_cong [simp]:
  "task_at k (st\<lparr>os_audit := a\<rparr>) = task_at k st" "task_at k (st\<lparr>os_notes := n\<rparr>) = task_at k st"
  "task_at k (st\<lparr>os_active := m\<rparr>) = task_at k st" "task_at k (st\<lparr>os_seq := s\<rparr>) = task_at k st"
  "task_at k (st\<lparr>os_inflight := i\<rparr>) = task_at k st" "task_at k (st\<lparr>os_drawn := d\<rparr>) = task_at k st"
  by (simp_all add: task_at_def)

lemma task_audit_log_cong:
  "os_audit st' = os_audit st \<Longrightarrow> task_audit_log k st' = task_audit_log k st"
  by (simp add: task_audit_log_def)

lemma emit_fields [simp]:
  "os_tasks (emit_task_audit now actor t l p n r d st) = os_tasks st"
  "os_notes (emit_task_audit now actor t l p n r d st) = os_notes st"
  "os_active (emit_task_audit now actor t l p n r d st) = os_active st"
  "os_inflight (emit_task_audit now actor t l p n r d st) = os_inflight st"
  "os_uuids (emit_task_audit now actor t l p n r d st) = os_uuids st"
  "os_drawn (emit_task_audit now actor t l p n r d st) = Suc (os_drawn st)"
  "os_seq (emit_task_audit now actor t l p n r d st) = (os_seq st)(tk_id t \<mapsto> (case os_seq st (tk_id t) of None \<Rightarrow> 0 | Some m \<Rightarrow> m) + 1)"
  "task_at k (emit_task_audit now actor t l p n r d st) = task_at k st"
  by (simp_all add: emit_task_audit_def draw_id_def Let_def task_at_def)

lemma emit_log:
  "\<exists>e. os_audit (emit_task_audit now actor t l p n r d st) = os_audit st @ [e] \<and> ta_task e = tk_id t \<and> ta_type e = tk_type t \<and>
     ta_transition e = l \<and> ta_previous e = p \<and> ta_next e = n \<and> ta_denial e = d \<and>
     ta_seq e = (case os_seq st (tk_id t) of None \<Rightarrow> 0 | Some m \<Rightarrow> m) + 1"
  by (simp add: emit_task_audit_def draw_id_def Let_def)

text \<open>A later event of a follow-up touches an active task only, and there neither its state nor its identity.\<close>

definition raised_from :: "operator_task \<Rightarrow> operator_task \<Rightarrow> bool" where
  "raised_from t t' \<longleftrightarrow> t' = t \<or> tk_state t \<notin> set terminal_tasks \<and>
     (\<exists>s u g r. t' = t\<lparr>tk_severity := s, tk_updated := u, tk_gate_open := g, tk_reason := r\<rparr>)"

lemma raised_from_refl [simp]: "raised_from t t" by (simp add: raised_from_def)

lemma raised_keeps:
  assumes "raised_from t t'"
  shows "tk_id t' = tk_id t" "tk_state t' = tk_state t" "tk_type t' = tk_type t" "tk_digest t' = tk_digest t"
    "tk_display t' = tk_display t" "tk_source t' = tk_source t" "tk_evidence t' = tk_evidence t" "tk_state t \<in> set terminal_tasks \<Longrightarrow> t' = t"
    "tk_correlation t' = tk_correlation t" "tk_tenant t' = tk_tenant t"
  using assms by (auto simp: raised_from_def)

lemma rerank_fields [simp]:
  "os_audit (rerank_correlation c tn now st) = os_audit st" "os_notes (rerank_correlation c tn now st) = os_notes st"
  "os_active (rerank_correlation c tn now st) = os_active st" "os_seq (rerank_correlation c tn now st) = os_seq st"
  "os_inflight (rerank_correlation c tn now st) = os_inflight st" "os_uuids (rerank_correlation c tn now st) = os_uuids st"
  "os_drawn (rerank_correlation c tn now st) = os_drawn st"
  by (simp_all add: rerank_correlation_def Let_def)

lemma rerank_keys [simp]: "map fst (os_tasks (rerank_correlation c tn now st)) = map fst (os_tasks st)"
  by (simp add: rerank_correlation_def Let_def comp_def case_prod_beta)

definition rerank_task :: "string \<Rightarrow> string option \<Rightarrow> nat \<Rightarrow> task_store \<Rightarrow> operator_task \<Rightarrow> operator_task" where
  "rerank_task c tn now st t =
     (let any_high = list_ex (\<lambda>t. 2 \<le> severity_rank (tk_severity t)) (peers c tn st);
          any_force = list_ex (\<lambda>t. tk_type t \<in> set force_high_types) (peers c tn st)
      in if (any_high \<or> any_force) \<and> is_peer c tn t then lifted any_force now t else t)"

lemma rerank_tasks: "os_tasks (rerank_correlation c tn now st) = map (\<lambda>(k, t). (k, rerank_task c tn now st t)) (os_tasks st)"
proof -
  have same: "map (\<lambda>(k, t). (k, t)) xs = xs" for xs :: "(id_text \<times> operator_task) list" by (induction xs) auto
  show ?thesis by (auto simp: rerank_correlation_def rerank_task_def Let_def same cong: if_cong)
qed

lemma task_at_rerank: "task_at k (rerank_correlation c tn now st) = map_option (rerank_task c tn now st) (task_at k st)"
  by (simp add: task_at_def rerank_tasks map_of_map)

lemma rerank_raises: "raised_from t (rerank_task c tn now st t)"
proof (cases "rerank_task c tn now st t = t")
  case False
  then obtain sv u where "rerank_task c tn now st t = t\<lparr>tk_severity := sv, tk_updated := u\<rparr>" and "tk_state t \<notin> set terminal_tasks"
    by (auto simp: rerank_task_def lifted_def Let_def is_peer_def split: if_splits)
  then have "rerank_task c tn now st t = t\<lparr>tk_severity := sv, tk_updated := u, tk_gate_open := tk_gate_open t, tk_reason := tk_reason t\<rparr>"
    by simp
  then show ?thesis using \<open>tk_state t \<notin> set terminal_tasks\<close> unfolding raised_from_def by blast
qed simp

lemma bumped_raises: "tk_state t \<notin> set terminal_tasks \<Longrightarrow> raised_from t (bumped now e t st)"
proof -
  assume "tk_state t \<notin> set terminal_tasks"
  moreover have "bumped now e t st = t\<lparr>tk_severity := tk_severity (bumped now e t st), tk_updated := now,
      tk_gate_open := ie_gate_open e, tk_reason := tk_reason (bumped now e t st)\<rparr>"
    by (simp add: bumped_def)
  ultimately show ?thesis unfolding raised_from_def by blast
qed

text \<open>Recording a notification touches the notification records alone.\<close>

lemma notification_fields [simp]:
  "os_tasks (snd (record_notification now t ch sm role st)) = os_tasks st"
  "os_audit (snd (record_notification now t ch sm role st)) = os_audit st"
  "os_active (snd (record_notification now t ch sm role st)) = os_active st"
  "os_seq (snd (record_notification now t ch sm role st)) = os_seq st"
  "os_uuids (snd (record_notification now t ch sm role st)) = os_uuids st"
  "task_at k (snd (record_notification now t ch sm role st)) = task_at k st"
  by (simp_all add: record_notification_def draw_id_def Let_def task_at_def split: option.split)

lemma notify_fields [simp]:
  "os_tasks (notify now k e st) = os_tasks st" "os_audit (notify now k e st) = os_audit st"
  "os_active (notify now k e st) = os_active st" "os_seq (notify now k e st) = os_seq st"
  "os_uuids (notify now k e st) = os_uuids st" "task_at j (notify now k e st) = task_at j st"
  by (simp_all add: notify_def split: option.split)

section \<open>Steps of the queue\<close>

inductive task_step :: "(string \<Rightarrow> string) \<Rightarrow> task_store \<Rightarrow> task_store \<Rightarrow> bool" for sha where
  step_intake: "task_step sha st (snd (upsert_task sha now e st))"
| step_transition: "task_step sha st (snd (apply_task_transition sha now actor tid target action p st))"
| step_assign: "task_step sha st (snd (self_assign_task sha now actor tid p st))"
| step_notification: "task_step sha st (snd (record_notification_event now tid ch sm role st))"

section \<open>What a store keeps\<close>

text \<open>Identifiers: keys are the tasks' own, every identifier was drawn from the supply, events are distinct.\<close>

definition drawn_id :: "task_store \<Rightarrow> id_text \<Rightarrow> bool" where
  "drawn_id st k \<longleftrightarrow> (\<exists>i < os_drawn st. k = Canonical (os_uuids st i))"

definition ids_ok :: "task_store \<Rightarrow> bool" where
  "ids_ok st \<longleftrightarrow> inj (os_uuids st) \<and> distinct (map fst (os_tasks st)) \<and>
     (\<forall>k t. task_at k st = Some t \<longrightarrow> tk_id t = k \<and> drawn_id st k) \<and>
     (\<forall>e \<in> set (os_audit st). task_at (ta_task e) st \<noteq> None)"

text \<open>An audit history: numbered in order, each event from the state the one before left, along the graph.\<close>

fun history :: "task_state \<Rightarrow> nat \<Rightarrow> task_audit list \<Rightarrow> task_state \<Rightarrow> bool" where
  "history s n [] s' \<longleftrightarrow> s = s'"
| "history s n (e # es) s' \<longleftrightarrow> ta_seq e = Suc n \<and> ta_previous e = s \<and>
     (if ta_denial e = None then ta_next e = s \<or> ta_next e \<in> set (allowed_task s) else ta_next e = s) \<and> history (ta_next e) (Suc n) es s'"

lemma history_append: "history s n (es @ fs) s' \<longleftrightarrow> (\<exists>m. history s n es m \<and> history m (n + length es) fs s')"
  by (induction s n es s' rule: history.induct) auto

definition task_kept :: "task_store \<Rightarrow> operator_task \<Rightarrow> bool" where
  "task_kept st t \<longleftrightarrow>
     tk_display t = compute_display (tk_type t) (tk_source t) (tk_state t) \<and>
     (tk_state t = Task_Completed \<longrightarrow> tk_evidence t \<noteq> None \<and> \<not> tk_gate_open t) \<and>
     os_seq st (tk_id t) = Some (length (task_audit_log (tk_id t) st)) \<and>
     history Task_Open 0 (task_audit_log (tk_id t) st) (tk_state t)"

definition active_ok :: "task_store \<Rightarrow> bool" where
  "active_ok st \<longleftrightarrow> (\<forall>d k. os_active st d = Some k \<longleftrightarrow>
     (\<exists>t. task_at k st = Some t \<and> tk_state t \<notin> set terminal_tasks \<and> tk_digest t = d))"

definition tasks_ok :: "task_store \<Rightarrow> bool" where
  "tasks_ok st \<longleftrightarrow> ids_ok st \<and> active_ok st \<and> (\<forall>k t. task_at k st = Some t \<longrightarrow> task_kept st t)"

lemma tasks_ok_reset: "inj uuids \<Longrightarrow> tasks_ok (reset_tasks uuids n)"
  by (simp add: tasks_ok_def ids_ok_def active_ok_def task_at_def reset_tasks_def)

lemma drawn_id_mono: "drawn_id st k \<Longrightarrow> os_uuids st' = os_uuids st \<Longrightarrow> os_drawn st \<le> os_drawn st' \<Longrightarrow> drawn_id st' k"
  unfolding drawn_id_def by (metis order_less_le_trans)

text \<open>An update that keeps the tasks as they were, or raises them, and adds no audit event keeps all of it.\<close>

lemma tasks_ok_raised:
  assumes ok: "tasks_ok st" and keys: "map fst (os_tasks st') = map fst (os_tasks st)"
    and rel: "\<And>k. rel_option raised_from (task_at k st) (task_at k st')"
    and same: "os_audit st' = os_audit st" "os_active st' = os_active st" "os_seq st' = os_seq st" "os_uuids st' = os_uuids st"
      "os_drawn st \<le> os_drawn st'"
  shows "tasks_ok st'"
proof -
  have prior: "\<exists>t. task_at k st = Some t \<and> raised_from t t'" if "task_at k st' = Some t'" for k t'
    using rel [of k] that by (auto simp: option_rel_Some2)
  have later: "\<exists>t'. task_at k st' = Some t' \<and> raised_from t t'" if "task_at k st = Some t" for k t
    using rel [of k] that by (auto simp: option_rel_Some1)
  have "ids_ok st'"
    unfolding ids_ok_def
  proof (intro conjI allI impI ballI)
    fix k t' assume "task_at k st' = Some t'"
    then obtain t where t: "task_at k st = Some t" "raised_from t t'" using prior by blast
    then show "tk_id t' = k" using ok by (auto simp: tasks_ok_def ids_ok_def raised_keeps)
    have "drawn_id st k" using ok t by (auto simp: tasks_ok_def ids_ok_def)
    then show "drawn_id st' k" using same(4,5) by (rule drawn_id_mono)
  next
    fix e assume "e \<in> set (os_audit st')"
    then show "task_at (ta_task e) st' \<noteq> None" using ok same later by (fastforce simp: tasks_ok_def ids_ok_def)
  qed (use ok keys same in \<open>auto simp: tasks_ok_def ids_ok_def\<close>)
  moreover have "(\<exists>t. task_at k st' = Some t \<and> tk_state t \<notin> set terminal_tasks \<and> tk_digest t = d) \<longleftrightarrow>
      (\<exists>t. task_at k st = Some t \<and> tk_state t \<notin> set terminal_tasks \<and> tk_digest t = d)" for d k
    using rel [of k] by (cases "task_at k st"; cases "task_at k st'") (simp_all add: raised_keeps)
  then have "active_ok st'" using ok same(2) by (simp add: tasks_ok_def active_ok_def)
  moreover have "task_kept st' t'" if "task_at k st' = Some t'" for k t'
  proof -
    obtain t where t: "task_at k st = Some t" "raised_from t t'" using prior \<open>task_at k st' = Some t'\<close> by blast
    then have "task_kept st t" using ok by (auto simp: tasks_ok_def)
    moreover have "tk_state t = Task_Completed \<Longrightarrow> t' = t" using raised_keeps(8) [OF t(2)] by (simp add: terminal_tasks_def)
    ultimately show ?thesis using same raised_keeps(1-7) [OF t(2)] by (auto simp: task_kept_def task_audit_log_def)
  qed
  ultimately show ?thesis by (simp add: tasks_ok_def)
qed

lemma tasks_ok_rerank: "tasks_ok st \<Longrightarrow> tasks_ok (rerank_correlation c tn now st)"
  by (rule tasks_ok_raised) (auto simp: task_at_rerank rerank_raises option_rel_Some1 option.rel_map intro: option.rel_refl)

lemma notification_drawn: "os_drawn st \<le> os_drawn (snd (record_notification now t ch sm role st))"
  by (simp add: record_notification_def draw_id_def Let_def split: option.split)

lemma notify_drawn: "os_drawn st \<le> os_drawn (notify now k e st)"
  by (auto simp: notify_def notification_drawn split: option.split)

lemma tasks_ok_notification: "tasks_ok st \<Longrightarrow> tasks_ok (snd (record_notification now t ch sm role st))"
  by (rule tasks_ok_raised) (auto simp: notification_drawn intro: option.rel_refl)

lemma tasks_ok_notify: "tasks_ok st \<Longrightarrow> tasks_ok (notify now k e st)"
  by (rule tasks_ok_raised) (auto simp: notify_drawn intro: option.rel_refl)

section \<open>Updates with an audit event\<close>

lemma put_task_keys: "distinct (map fst (os_tasks st)) \<Longrightarrow> distinct (map fst (os_tasks (put_task t st)))"
  by (simp add: put_task_def)

lemma ids_ok_put: "ids_ok st \<Longrightarrow> drawn_id st (tk_id t) \<Longrightarrow> ids_ok (put_task t st)"
  by (auto simp: ids_ok_def task_at_put drawn_id_def put_task_keys)

lemma ids_ok_cong [simp]: "ids_ok (st\<lparr>os_active := m\<rparr>) = ids_ok st" "ids_ok (st\<lparr>os_seq := s\<rparr>) = ids_ok st"
  by (simp_all add: ids_ok_def drawn_id_def)

definition edge :: "task_state \<Rightarrow> task_state \<Rightarrow> task_denial option \<Rightarrow> bool" where
  "edge p n d \<longleftrightarrow> (if d = None then n = p \<or> n \<in> set (allowed_task p) else n = p)"

lemma tasks_ok_event:
  assumes ids: "ids_ok st" and act: "active_ok st" and t: "task_at k st = Some t"
    and others: "\<And>j u. j \<noteq> k \<Longrightarrow> task_at j st = Some u \<Longrightarrow> task_kept st u"
    and label: "tk_display t = compute_display (tk_type t) (tk_source t) (tk_state t)"
    and closed: "tk_state t = Task_Completed \<Longrightarrow> tk_evidence t \<noteq> None \<and> \<not> tk_gate_open t"
    and seq: "os_seq st k = Some (length (task_audit_log k st))" and hist: "history Task_Open 0 (task_audit_log k st) p"
    and edge: "edge p (tk_state t) d"
  shows "tasks_ok (emit_task_audit now actor t l p (tk_state t) r d st)"
proof -
  let ?st = "emit_task_audit now actor t l p (tk_state t) r d st"
  have k: "tk_id t = k" using ids t by (auto simp: ids_ok_def)
  obtain e where e: "os_audit ?st = os_audit st @ [e]" "ta_task e = k" "ta_previous e = p" "ta_next e = tk_state t" "ta_denial e = d"
    "ta_seq e = Suc (length (task_audit_log k st))"
    using emit_log [of now actor t l p "tk_state t" r d st] k seq by auto
  have log: "task_audit_log j ?st = (if j = k then task_audit_log k st @ [e] else task_audit_log j st)" for j
    using e by (simp add: task_audit_log_def)
  have "ids_ok ?st"
    using ids t k e by (auto simp: ids_ok_def drawn_id_def less_Suc_eq)
  moreover have "active_ok ?st" using act by (simp add: active_ok_def)
  moreover have "task_kept ?st u" if u: "task_at j st = Some u" for j u
  proof (cases "j = k")
    case True
    then have "u = t" using u t by simp
    then show ?thesis using label closed seq hist edge e k by (simp add: task_kept_def log history_append edge_def)
  next
    case False
    then have "task_kept st u" and "tk_id u = j" using others u ids by (auto simp: ids_ok_def)
    then show ?thesis using False k by (simp add: task_kept_def log)
  qed
  ultimately show ?thesis by (simp add: tasks_ok_def)
qed

lemma tasks_okD:
  assumes "tasks_ok st" and "task_at k st = Some t"
  shows "tk_id t = k" and "drawn_id st k" and "task_kept st t"
    and "tk_display t = compute_display (tk_type t) (tk_source t) (tk_state t)"
    and "os_seq st k = Some (length (task_audit_log k st))" and "history Task_Open 0 (task_audit_log k st) (tk_state t)"
  using assms by (auto simp: tasks_ok_def ids_ok_def task_kept_def)

lemma tasks_ok_denied:
  assumes ok: "tasks_ok st" and t: "task_at k st = Some t"
  shows "tasks_ok (emit_task_audit now actor t l (tk_state t) (tk_state t) r d st)"
  by (rule tasks_ok_event [of st k])
    (use ok t tasks_okD [OF ok t] in \<open>auto simp: tasks_ok_def task_kept_def edge_def\<close>)

text \<open>A change of an active task that stays on the graph; a terminal state leaves the deduplication window.\<close>

lemma tasks_ok_changed:
  assumes ok: "tasks_ok st" and t: "task_at k st = Some t" and live: "tk_state t \<notin> set terminal_tasks"
    and same: "tk_id t' = tk_id t" "tk_digest t' = tk_digest t"
    and label: "tk_display t' = compute_display (tk_type t') (tk_source t') (tk_state t')"
    and closed: "tk_state t' = Task_Completed \<Longrightarrow> tk_evidence t' \<noteq> None \<and> \<not> tk_gate_open t'"
    and edge: "edge (tk_state t) (tk_state t') None"
    and st1: "st1 = (if tk_state t' \<in> set terminal_tasks then (put_task t' st)\<lparr>os_active := (os_active st)(tk_digest t := None)\<rparr>
                     else put_task t' st)"
  shows "tasks_ok (emit_task_audit now actor t' l (tk_state t) (tk_state t') r None st1)"
proof (rule tasks_ok_event)
  have k: "tk_id t = k" "drawn_id st k" using tasks_okD [OF ok t] by auto
  have ids: "ids_ok (put_task t' st)" using ok k same by (intro ids_ok_put) (auto simp: tasks_ok_def)
  then show "ids_ok st1" by (simp add: st1)
  have look: "task_at j st1 = (if j = k then Some t' else task_at j st)" for j using k same by (simp add: st1 task_at_put)
  have fields: "os_audit st1 = os_audit st" "os_seq st1 = os_seq st" by (simp_all add: st1)
  show "task_at k st1 = Some t'" by (simp add: look)
  have act: "os_active st d = Some j \<longleftrightarrow> (\<exists>t. task_at j st = Some t \<and> tk_state t \<notin> set terminal_tasks \<and> tk_digest t = d)" for d j
    using ok by (simp add: tasks_ok_def active_ok_def)
  have uniq: "j = k" if "task_at j st = Some u" "tk_state u \<notin> set terminal_tasks" "tk_digest u = tk_digest t" for j u
  proof -
    have "os_active st (tk_digest t) = Some k" "os_active st (tk_digest t) = Some j" using t live that by (auto simp: act)
    then show ?thesis by simp
  qed
  show "active_ok st1"
    unfolding active_ok_def look
  proof (intro allI)
    fix d j
    show "os_active st1 d = Some j \<longleftrightarrow>
      (\<exists>u. (if j = k then Some t' else task_at j st) = Some u \<and> tk_state u \<notin> set terminal_tasks \<and> tk_digest u = d)"
    proof (cases "j = k")
      case True
      then show ?thesis using t live same(2) by (auto simp: st1 act)
    next
      case False
      then have "task_at j st = Some u \<Longrightarrow> tk_state u \<notin> set terminal_tasks \<Longrightarrow> tk_digest u \<noteq> tk_digest t" for u
        using uniq by blast
      then show ?thesis using False by (simp add: st1 act) blast
    qed
  qed
  show "task_kept st1 u" if "j \<noteq> k" "task_at j st1 = Some u" for j u
  proof -
    have "task_kept st u" using that ok by (auto simp: look tasks_ok_def)
    then show ?thesis by (simp add: task_kept_def task_audit_log_def fields)
  qed
  show "os_seq st1 k = Some (length (task_audit_log k st1))" "history Task_Open 0 (task_audit_log k st1) (tk_state t)"
    using tasks_okD [OF ok t] by (simp_all add: task_audit_log_def fields)
qed (use label closed edge in auto)

section \<open>Every step keeps the store\<close>

lemma has_text_given: "has_text v \<Longrightarrow> v \<noteq> None"
  by (cases v) (simp_all add: has_text_def stripped_def or_blank_def strip_def)

lemma tasks_ok_transition: "tasks_ok st \<Longrightarrow> tasks_ok (snd (apply_task_transition sha now actor tid target action p st))"
proof (cases "task_at tid st")
  case (Some t)
  assume ok: "tasks_ok st"
  show ?thesis
  proof (cases "transition_refusal t target action p")
    case None
    let ?t = "moved_task sha now target p t"
    let ?st = "if target \<in> set terminal_tasks then (put_task ?t st)\<lparr>os_active := (os_active st)(tk_digest t := None)\<rparr> else put_task ?t st"
    have moved: "tk_id ?t = tk_id t" "tk_digest ?t = tk_digest t" "tk_state ?t = target"
      "tk_display ?t = compute_display (tk_type ?t) (tk_source ?t) (tk_state ?t)" "tk_gate_open ?t = tk_gate_open t"
      by (simp_all add: moved_task_def)
    have evidence: "tk_evidence ?t \<noteq> None \<and> \<not> tk_gate_open ?t" if "target = Task_Completed"
      using None that has_text_given
      by (auto simp: transition_refusal_def moved_task_def evidence_pointer_def redact_optional_def split: if_splits)
    have "tasks_ok (emit_task_audit now actor ?t (step_label (tk_state t) target) (tk_state t) (tk_state ?t) (transition_reason target p) None ?st)"
      by (rule tasks_ok_changed [OF ok Some])
        (use None moved evidence in \<open>auto simp: transition_refusal_def edge_def split: if_splits\<close>)
    then show ?thesis
      by (cases "target \<in> set terminal_tasks") (simp_all add: apply_task_transition_def Some None Let_def moved(3))
  qed (auto simp: apply_task_transition_def Some transition_denied_def intro: tasks_ok_denied [OF ok Some])
qed (simp add: apply_task_transition_def)

lemma tasks_ok_assign: "tasks_ok st \<Longrightarrow> tasks_ok (snd (self_assign_task sha now actor tid p st))"
proof (cases "task_at tid st")
  case None
  assume "tasks_ok st"
  then show ?thesis using tasks_ok_transition by (simp add: self_assign_task_def None)
next
  case (Some t)
  assume ok: "tasks_ok st"
  show ?thesis
  proof (cases "tk_state t \<in> set terminal_tasks")
    case True
    then show ?thesis using tasks_ok_denied [OF ok Some] by (simp add: self_assign_task_def Some transition_denied_def)
  next
    case False
    let ?t = "t\<lparr>tk_owner := fst actor, tk_role := (case snd actor of By_Owner r \<Rightarrow> Some r | By_System \<Rightarrow> tk_role t), tk_updated := now,
                     tk_reason := (if given_text (tp_reason p) \<noteq> None then redact_optional (tp_reason p) else tk_reason t)\<rparr>"
    have "tasks_ok (emit_task_audit now actor ?t ''self_assigned'' (tk_state t) (tk_state ?t) (tp_reason p) None (put_task ?t st))"
      by (rule tasks_ok_changed [OF ok Some False])
        (use False tasks_okD [OF ok Some] in \<open>auto simp: edge_def terminal_tasks_def\<close>)
    then show ?thesis using False by (simp add: self_assign_task_def Some Let_def)
  qed
qed

lemma tasks_ok_put_raised:
  assumes ok: "tasks_ok st" and t: "task_at k st = Some t" and raised: "raised_from t t'"
  shows "tasks_ok (put_task t' st)"
proof (rule tasks_ok_raised [OF ok])
  have k: "tk_id t' = k" using tasks_okD(1) [OF ok t] raised_keeps(1) [OF raised] by simp
  have known: "k \<in> fst ` set (os_tasks st)" using t unfolding task_at_def by (metis domI dom_map_of_conv_image_fst)
  show "map fst (os_tasks (put_task t' st)) = map fst (os_tasks st)"
    using known k by (simp add: put_task_def AList.update_keys)
  show "rel_option raised_from (task_at j st) (task_at j (put_task t' st))" for j
    using raised t k by (auto simp: task_at_put intro: option.rel_refl)
qed simp_all

lemma rel_option_refl [simp]: "rel_option raised_from x x"
  by (rule option.rel_refl) simp

text \<open>The store after a new task was stored and announced, before its correlation is raised.\<close>

definition materialized :: "(string \<Rightarrow> string) \<Rightarrow> nat \<Rightarrow> intake_event \<Rightarrow> task_store \<Rightarrow> task_store" where
  "materialized sha now e st =
     (let tid = Canonical (os_uuids st (os_drawn st)); t = new_task sha now e tid st in
      emit_task_audit now (None, By_System) t ''materialized'' Task_Open Task_Open (Some (ie_summary e)) None
        (put_task t (st\<lparr>os_drawn := Suc (os_drawn st), os_active := (os_active st)(sha (dedup_key e) \<mapsto> tid),
                        os_seq := (os_seq st)(tid \<mapsto> 0)\<rparr>)))"

lemma new_task_state [simp]: "tk_state (new_task sha now e tid st) = Task_Open" "tk_id (new_task sha now e tid st) = tid"
  by (simp_all add: new_task_def)

lemma upsert_known:
  assumes "Option.bind (os_active st (sha (dedup_key e))) (\<lambda>tid. task_at tid st) = Some t"
  shows "snd (upsert_task sha now e st) =
    notify now (tk_id t) e (rerank_correlation (tk_correlation t) (tk_tenant t) now (put_task (bumped now e t st) st))"
  by (simp add: upsert_task_def assms Let_def)

lemma upsert_unknown:
  assumes "Option.bind (os_active st (sha (dedup_key e))) (\<lambda>tid. task_at tid st) = None"
  shows "snd (upsert_task sha now e st) =
    notify now (Canonical (os_uuids st (os_drawn st))) e
      (rerank_correlation (ie_correlation e) (ie_tenant e) now (materialized sha now e st))"
  by (simp add: upsert_task_def assms Let_def draw_id_def materialized_def)

lemma upsert_cases:
  obtains (known) k t where "os_active st (sha (dedup_key e)) = Some k" "task_at k st = Some t"
      "Option.bind (os_active st (sha (dedup_key e))) (\<lambda>tid. task_at tid st) = Some t"
    | (unknown) "Option.bind (os_active st (sha (dedup_key e))) (\<lambda>tid. task_at tid st) = None"
  by (cases "Option.bind (os_active st (sha (dedup_key e))) (\<lambda>tid. task_at tid st)") (auto simp: bind_eq_Some_conv)

lemma fresh_task:
  assumes ok: "tasks_ok st"
  shows "task_at (Canonical (os_uuids st (os_drawn st))) st = None"
proof (rule ccontr)
  assume "task_at (Canonical (os_uuids st (os_drawn st))) st \<noteq> None"
  then obtain u where "task_at (Canonical (os_uuids st (os_drawn st))) st = Some u" by auto
  then have "drawn_id st (Canonical (os_uuids st (os_drawn st)))" by (rule tasks_okD(2) [OF ok])
  moreover have "inj (os_uuids st)" using ok by (simp add: tasks_ok_def ids_ok_def)
  ultimately show False using injD by (fastforce simp: drawn_id_def)
qed

lemma tasks_ok_materialized:
  assumes ok: "tasks_ok st" and None: "Option.bind (os_active st (sha (dedup_key e))) (\<lambda>tid. task_at tid st) = None"
  shows "tasks_ok (materialized sha now e st)"
proof -
  let ?d = "sha (dedup_key e)"
  define tid where "tid = Canonical (os_uuids st (os_drawn st))"
  define st0 where "st0 = st\<lparr>os_drawn := Suc (os_drawn st)\<rparr>"
  define t where "t = new_task sha now e tid st"
  define st1 where "st1 = put_task t (st0\<lparr>os_active := (os_active st0)(?d \<mapsto> tid), os_seq := (os_seq st0)(tid \<mapsto> 0)\<rparr>)"
  have t: "tk_id t = tid" "tk_state t = Task_Open" "tk_digest t = ?d"
    "tk_display t = compute_display (tk_type t) (tk_source t) (tk_state t)"
    by (simp_all add: t_def new_task_def)
  have fresh: "task_at tid st = None" using fresh_task [OF ok] by (simp add: tid_def)
  have "drawn_id st0 k" if "drawn_id st k" for k using that by (rule drawn_id_mono) (simp_all add: st0_def)
  then have "ids_ok st0" using ok by (auto simp: tasks_ok_def ids_ok_def st0_def)
  moreover have "drawn_id st0 tid" by (auto simp: drawn_id_def st0_def tid_def)
  ultimately have ids: "ids_ok st1" unfolding st1_def by (intro ids_ok_put) (simp_all add: t(1) drawn_id_def)
  have look: "task_at j st1 = (if j = tid then Some t else task_at j st)" for j by (simp add: st1_def task_at_put t(1) st0_def)
  have log: "task_audit_log j st1 = task_audit_log j st" for j by (simp add: st1_def st0_def task_audit_log_def)
  have silent: "task_audit_log tid st1 = []"
    unfolding log using ok fresh by (auto simp: tasks_ok_def ids_ok_def task_audit_log_def filter_empty_conv)
  have act: "os_active st d = Some j \<longleftrightarrow> (\<exists>t. task_at j st = Some t \<and> tk_state t \<notin> set terminal_tasks \<and> tk_digest t = d)" for d j
    using ok by (simp add: tasks_ok_def active_ok_def)
  have unused: "\<not> (\<exists>j u. task_at j st = Some u \<and> tk_state u \<notin> set terminal_tasks \<and> tk_digest u = ?d)"
  proof
    assume "\<exists>j u. task_at j st = Some u \<and> tk_state u \<notin> set terminal_tasks \<and> tk_digest u = ?d"
    then obtain j u where u: "task_at j st = Some u" "tk_state u \<notin> set terminal_tasks" "tk_digest u = ?d" by blast
    then have "os_active st ?d = Some j" using act by blast
    with u(1) None show False by simp
  qed
  have active: "active_ok st1"
    unfolding active_ok_def look
  proof (intro allI)
    fix d j
    show "os_active st1 d = Some j \<longleftrightarrow>
      (\<exists>u. (if j = tid then Some t else task_at j st) = Some u \<and> tk_state u \<notin> set terminal_tasks \<and> tk_digest u = d)"
    proof (cases "j = tid")
      case True
      then show ?thesis using act [of d tid] fresh t(2,3) by (auto simp: st1_def st0_def terminal_tasks_def)
    next
      case False
      then have "d = ?d \<Longrightarrow> \<not> (\<exists>u. task_at j st = Some u \<and> tk_state u \<notin> set terminal_tasks \<and> tk_digest u = d)"
        using unused by blast
      then show ?thesis using act [of d j] False by (auto simp: st1_def st0_def)
    qed
  qed
  have "tasks_ok (emit_task_audit now (None, By_System) t ''materialized'' Task_Open (tk_state t) (Some (ie_summary e)) None st1)"
  proof (rule tasks_ok_event [OF ids active])
    show "task_kept st1 u" if "j \<noteq> tid" "task_at j st1 = Some u" for j u
    proof -
      have u: "task_at j st = Some u" using that by (simp add: look)
      have "os_seq st1 (tk_id u) = os_seq st (tk_id u)" using tasks_okD(1) [OF ok u] that(1) by (simp add: st1_def st0_def)
      then show ?thesis using tasks_okD(3) [OF ok u] by (simp add: task_kept_def log)
    qed
    show "os_seq st1 tid = Some (length (task_audit_log tid st1))" by (simp add: silent) (simp add: st1_def)
  qed (use look silent t in \<open>auto simp: edge_def\<close>)
  then show ?thesis by (simp add: materialized_def Let_def t(2) st1_def st0_def t_def tid_def)
qed

lemma tasks_ok_intake:
  assumes ok: "tasks_ok st"
  shows "tasks_ok (snd (upsert_task sha now e st))"
proof (cases rule: upsert_cases [of st sha e])
  case (known k t)
  then have "tk_state t \<notin> set terminal_tasks" using ok by (auto simp: tasks_ok_def active_ok_def)
  then have "tasks_ok (put_task (bumped now e t st) st)"
    by (rule tasks_ok_put_raised [OF ok known(2) bumped_raises])
  then show ?thesis using upsert_known [where sha = sha and e = e and st = st and now = now] known(3) by (simp add: tasks_ok_rerank tasks_ok_notify)
next
  case unknown
  then show ?thesis using upsert_unknown [where sha = sha and e = e and st = st and now = now] tasks_ok_materialized [where sha = sha and e = e and now = now, OF ok] unknown
    by (simp add: tasks_ok_rerank tasks_ok_notify)
qed

lemma tasks_ok_step: "task_step sha st st' \<Longrightarrow> tasks_ok st \<Longrightarrow> tasks_ok st'"
proof (induction rule: task_step.induct)
  case (step_notification st now tid ch sm role)
  then show ?case using tasks_ok_notification
    by (simp add: record_notification_event_def case_prod_beta split: option.split)
qed (simp_all add: tasks_ok_intake tasks_ok_transition tasks_ok_assign)

end
