(* ===== verification/Task_Sources.thy ===== *)
theory Task_Sources
  imports Operator_Tasks
begin

text \<open>
  The bridge that fills the operator task queue from sources that are only read
  (\<open>api/v1/platform/p23/sources.py\<close>): approvals of the approval workflow, which are given as a list, and the
  backup source of \<open>Governed_Execution\<close>.
\<close>

text \<open>The attributes of an approval that the bridge reads; its state is a text of that workflow.\<close>

record pending_record =
  pr_id :: "string option"
  pr_status :: string
  pr_tenant :: "string option"
  pr_action_type :: "string option"
  pr_action :: "string option"
  pr_expires :: "nat option"
  pr_correlation :: "string option"
  pr_source :: "source_status option"

definition actor_scope_for_tenant :: "string option \<Rightarrow> actor_scope" where
  "actor_scope_for_tenant tenant = (if given_text tenant \<noteq> None then Tenant_Contextual else Platform_Scope)"

definition source_status_for_approval :: "pending_record \<Rightarrow> exec_source" where
  "source_status_for_approval r =
     (case pr_source r of Some Available \<Rightarrow> Src_Known | Some Unavailable \<Rightarrow> Src_Degraded | _ \<Rightarrow> Src_Unknown)"

definition overdue :: "nat \<Rightarrow> pending_record \<Rightarrow> bool" where
  "overdue now r \<longleftrightarrow> (case pr_expires r of None \<Rightarrow> False | Some t \<Rightarrow> t \<le> now)"

definition approval_followup :: "nat \<Rightarrow> pending_record \<Rightarrow> intake_event option" where
  "approval_followup now r =
     (if pr_status r \<notin> {''requested'', ''pending_review''} then None
      else let aid = or_blank (pr_id r);
               typ = (if overdue now r then Approval_Decision_Required else Approval_Pending)
           in Some \<lparr>ie_type = typ, ie_severity = None, ie_tenant = pr_tenant r, ie_scope = actor_scope_for_tenant (pr_tenant r),
                ie_role = Some Super_Admin,
                ie_correlation = (case given_text (pr_correlation r) of None \<Rightarrow> ''p23c:p19:approval:'' @ aid | Some c \<Rightarrow> c),
                ie_action = pr_action r, ie_approval = given_text (pr_id r), ie_execution = None, ie_dry_run = None,
                ie_source_ref = None, ie_incident = None,
                ie_summary = ''P19 approval '' @ aid @ '' for '' @
                  (case given_text (pr_action_type r) of None \<Rightarrow> ''unknown_action'' | Some t \<Rightarrow> t) @ '' is '' @ pr_status r @ ''.'' @
                  (if overdue now r then '' It is past expiry; a checker decision is required.'' else []),
                ie_reason = Some (''Materialized from P19 approval state='' @ pr_status r @ ''.''),
                ie_source = Some (source_status_for_approval r), ie_gate_open = True, ie_variant = Some (type_text typ),
                ie_ttl = pr_expires r, ie_channel = None\<rparr>)"

primrec summary_text :: "source_summary \<Rightarrow> string" where
  "summary_text Sum_Fresh_Success = ''fresh_success''"
| "summary_text Sum_Stale = ''stale''"
| "summary_text Sum_Failed = ''failed''"
| "summary_text Sum_Partial = ''partial''"
| "summary_text Sum_In_Progress = ''in_progress''"
| "summary_text Sum_Unknown = ''unknown''"
| "summary_text Sum_Unavailable = ''unavailable''"

definition backup_event :: "source_read \<Rightarrow> intake_event option" where
  "backup_event r =
     (if sr_summary r = Sum_Fresh_Success then None
      else let degraded = sr_summary r \<in> {Sum_Stale, Sum_Failed, Sum_Partial, Sum_In_Progress};
               typ = (if degraded then Backup_Check_Warning else Source_Unknown_Task)
           in Some \<lparr>ie_type = typ, ie_severity = None, ie_tenant = None, ie_scope = Platform_Scope,
                ie_role = Some Engineering_Operator, ie_correlation = ''p23c:backup.check:platform-wide'', ie_action = None,
                ie_approval = None, ie_execution = None, ie_dry_run = None, ie_source_ref = Some ''backup.check'',
                ie_incident = None, ie_summary = ''Platform backup.check source is '' @ summary_text (sr_summary r) @ ''.'',
                ie_reason = Some (case given_text (sr_reason r) of
                  None \<Rightarrow> ''backup.check source_summary='' @ summary_text (sr_summary r) @ ''.'' | Some t \<Rightarrow> t),
                ie_source = Some (if degraded then Src_Degraded else Src_Unknown), ie_gate_open = False,
                ie_variant = Some (type_text typ), ie_ttl = None, ie_channel = None\<rparr>)"

record source_counts =
  sc_read :: nat
  sc_created :: nat
  sc_deduped :: nat
  sc_skipped :: nat
  sc_unavailable :: nat
  sc_tasks :: "id_text list"

definition count_result :: "intake_result \<Rightarrow> source_counts \<Rightarrow> source_counts" where
  "count_result r c =
     c\<lparr>sc_created := (if ir_created r then Suc (sc_created c) else sc_created c),
       sc_deduped := (if ir_created r then sc_deduped c else Suc (sc_deduped c)),
       sc_tasks := sc_tasks c @ (case ir_task r of None \<Rightarrow> [] | Some t \<Rightarrow> [tk_id t])\<rparr>"

fun materialize_each :: "(string \<Rightarrow> string) \<Rightarrow> nat \<Rightarrow> pending_record list \<Rightarrow> source_counts \<Rightarrow> task_store \<Rightarrow> source_counts \<times> task_store" where
  "materialize_each sha now [] c st = (c, st)"
| "materialize_each sha now (r # rs) c st =
     (case approval_followup now r of
        None \<Rightarrow> materialize_each sha now rs (c\<lparr>sc_skipped := Suc (sc_skipped c)\<rparr>) st
      | Some e \<Rightarrow> (case upsert_task sha now e st of (res, st') \<Rightarrow> materialize_each sha now rs (count_result res c) st'))"

definition materialize_approvals :: "(string \<Rightarrow> string) \<Rightarrow> nat \<Rightarrow> pending_record list \<Rightarrow> task_store \<Rightarrow> source_counts \<times> task_store" where
  "materialize_approvals sha now rs st =
     materialize_each sha now rs
       \<lparr>sc_read = length rs, sc_created = 0, sc_deduped = 0, sc_skipped = 0, sc_unavailable = 0, sc_tasks = []\<rparr> st"

definition materialize_backup_check ::
  "(string \<Rightarrow> string) \<Rightarrow> nat \<Rightarrow> (backup_outcome list \<times> backup_policy list) option \<Rightarrow> task_store \<Rightarrow> source_counts \<times> task_store" where
  "materialize_backup_check sha now tables st =
     (let r = read_backup_check_source now tables None;
          c = \<lparr>sc_read = 1, sc_created = 0, sc_deduped = 0, sc_skipped = 0,
               sc_unavailable = (if sr_summary r = Sum_Unavailable then 1 else 0), sc_tasks = []\<rparr>
      in case backup_event r of
           None \<Rightarrow> (c\<lparr>sc_skipped := 1, sc_unavailable := 0\<rparr>, st)
         | Some e \<Rightarrow> (case upsert_task sha now e st of (res, st') \<Rightarrow> (count_result res c, st')))"

record materialize_summary =
  ms_sources :: "source_counts list"
  ms_created :: nat
  ms_deduped :: nat
  ms_skipped :: nat
  ms_unavailable :: nat

definition materialize_all ::
  "(string \<Rightarrow> string) \<Rightarrow> nat \<Rightarrow> pending_record list \<Rightarrow> (backup_outcome list \<times> backup_policy list) option \<Rightarrow> task_store
   \<Rightarrow> materialize_summary \<times> task_store" where
  "materialize_all sha now rs tables st =
     (let (a, st1) = materialize_approvals sha now rs st;
          (b, st2) = materialize_backup_check sha now tables st1;
          total_of = (\<lambda>f. sum_list (map f [a, b]))
      in (\<lparr>ms_sources = [a, b], ms_created = total_of sc_created, ms_deduped = total_of sc_deduped,
           ms_skipped = total_of sc_skipped, ms_unavailable = total_of sc_unavailable\<rparr>, st2))"

end
