(* ===== verification/Task_Laws.thy ===== *)
theory Task_Laws
  imports Task_Contract Task_Sources
begin

text \<open>
  Severities, finality and notification records of the operator task queue, and the properties of its runs.
\<close>

section \<open>Severities within a correlation\<close>

definition together :: "operator_task \<Rightarrow> operator_task \<Rightarrow> bool" where
  "together t u \<longleftrightarrow> tk_state t \<notin> set terminal_tasks \<and> is_peer (tk_correlation t) (tk_tenant t) u"

definition ranks_with :: "operator_task \<Rightarrow> operator_task \<Rightarrow> bool" where
  "ranks_with t u \<longleftrightarrow> (tk_type u \<in> set force_high_types \<longrightarrow> tk_severity t = High) \<and> (tk_severity u = High \<longrightarrow> tk_severity t \<noteq> Low)"

definition ranked :: "task_store \<Rightarrow> bool" where
  "ranked st \<longleftrightarrow> (\<forall>j k t u. task_at j st = Some t \<longrightarrow> task_at k st = Some u \<longrightarrow> together t u \<longrightarrow> ranks_with t u)"

lemma together_raised: "raised_from t t' \<Longrightarrow> raised_from u u' \<Longrightarrow> together t' u' \<longleftrightarrow> together t u"
  by (simp add: together_def is_peer_def raised_keeps)

lemma peers_set:
  assumes "distinct (map fst (os_tasks st))"
  shows "t \<in> set (peers c tn st) \<longleftrightarrow> is_peer c tn t \<and> (\<exists>k. task_at k st = Some t)"
proof -
  have "t \<in> snd ` set (os_tasks st) \<longleftrightarrow> (\<exists>k. task_at k st = Some t)"
    using assms by (force simp: task_at_def map_of_eq_Some_iff)
  then show ?thesis by (auto simp: peers_def)
qed

lemma severity_cases: "2 \<le> severity_rank s \<longleftrightarrow> s = High" "max (severity_rank s) 2 = 2"
  "rank_severity (max (severity_rank s) (Suc 0)) = (if s = High then High else Medium)" "rank_severity 2 = High"
  by (cases s; simp add: rank_severity_def)+

lemma lifted_severity: "tk_severity (lifted force now t) = (if force \<or> tk_severity t = High then High else Medium)"
  by (cases "tk_severity t") (simp_all add: lifted_def Let_def rank_severity_def)

lemma lifted_type [simp]: "tk_type (lifted force now t) = tk_type t"
  by (simp add: lifted_def Let_def)

text \<open>Lifting a correlation ranks it, whatever it was before, and leaves the others.\<close>

lemma ranked_rerank:
  assumes ids: "ids_ok st"
    and others: "\<And>j k t u. task_at j st = Some t \<Longrightarrow> task_at k st = Some u \<Longrightarrow> together t u \<Longrightarrow> \<not> is_peer c tn t \<Longrightarrow> ranks_with t u"
  shows "ranked (rerank_correlation c tn now st)"
  unfolding ranked_def
proof (intro allI impI)
  fix j k t' u'
  assume "task_at j (rerank_correlation c tn now st) = Some t'" "task_at k (rerank_correlation c tn now st) = Some u'" "together t' u'"
  then obtain t u where t: "task_at j st = Some t" "t' = rerank_task c tn now st t" and u: "task_at k st = Some u" "u' = rerank_task c tn now st u"
    by (auto simp: task_at_rerank)
  have tog: "together t u" using \<open>together t' u'\<close> by (simp only: t(2) u(2) together_raised [OF rerank_raises rerank_raises])
  have distinct: "distinct (map fst (os_tasks st))" using ids by (simp add: ids_ok_def)
  show "ranks_with t' u'"
  proof (cases "is_peer c tn t")
    case False
    then have "\<not> is_peer c tn u" using tog by (auto simp: together_def is_peer_def)
    then show ?thesis using others [OF t(1) u(1) tog False] False by (simp add: t(2) u(2) rerank_task_def Let_def)
  next
    case True
    then have "is_peer c tn u" using tog by (auto simp: together_def is_peer_def)
    then have mem: "t \<in> set (peers c tn st)" "u \<in> set (peers c tn st)" using True t(1) u(1) by (auto simp: peers_set [OF distinct])
    define any_high where "any_high \<longleftrightarrow> list_ex (\<lambda>t. 2 \<le> severity_rank (tk_severity t)) (peers c tn st)"
    define any_force where "any_force \<longleftrightarrow> list_ex (\<lambda>t. tk_type t \<in> set force_high_types) (peers c tn st)"
    have task: "rerank_task c tn now st x = (if any_high \<or> any_force then lifted any_force now x else x)" if "is_peer c tn x" for x
      using that by (simp add: rerank_task_def any_high_def any_force_def Let_def)
    have high: "tk_severity u = High \<Longrightarrow> any_high" using mem(2) by (force simp: any_high_def list_ex_iff)
    have force: "tk_type u \<in> set force_high_types \<Longrightarrow> any_force" using mem(2) by (auto simp: any_force_def list_ex_iff)
    have type_u: "tk_type u' = tk_type u" using rerank_raises [of u] raised_keeps(3) by (simp add: u(2))
    show ?thesis
      using high force by (auto simp: ranks_with_def type_u t(2) u(2) task [OF True] task [OF \<open>is_peer c tn u\<close>] lifted_severity)
  qed
qed

lemma ranked_cong: "(\<And>k. task_at k st' = task_at k st) \<Longrightarrow> ranked st' = ranked st"
  by (simp add: ranked_def)

text \<open>A task that leaves the active ones, or keeps its place, keeps the ranking.\<close>

lemma ranked_changed:
  assumes "ranked st" and t: "task_at k st = Some t" and live: "tk_state t \<notin> set terminal_tasks"
    and same: "tk_id t' = k" "tk_severity t' = tk_severity t" "tk_type t' = tk_type t" "tk_correlation t' = tk_correlation t"
      "tk_tenant t' = tk_tenant t"
  shows "ranked (put_task t' st)"
  unfolding ranked_def
proof (intro allI impI)
  fix i j v w
  assume v: "task_at i (put_task t' st) = Some v" and w: "task_at j (put_task t' st) = Some w" and tog: "together v w"
  obtain v0 where v0: "task_at i st = Some v0" "tk_severity v0 = tk_severity v" "tk_type v0 = tk_type v"
      "tk_correlation v0 = tk_correlation v" "tk_tenant v0 = tk_tenant v" "tk_state v \<notin> set terminal_tasks \<Longrightarrow> tk_state v0 \<notin> set terminal_tasks"
    using v t live same by (cases "i = k") (auto simp: task_at_put)
  obtain w0 where w0: "task_at j st = Some w0" "tk_severity w0 = tk_severity w" "tk_type w0 = tk_type w"
      "tk_correlation w0 = tk_correlation w" "tk_tenant w0 = tk_tenant w" "tk_state w \<notin> set terminal_tasks \<Longrightarrow> tk_state w0 \<notin> set terminal_tasks"
    using w t live same by (cases "j = k") (auto simp: task_at_put)
  have "together v0 w0" using tog v0 w0 by (auto simp: together_def is_peer_def)
  then have "ranks_with v0 w0" using assms(1) v0(1) w0(1) by (auto simp: ranked_def)
  then show "ranks_with v w" using v0 w0 by (simp add: ranks_with_def)
qed

lemma ranked_reset: "ranked (reset_tasks uuids n)"
  by (simp add: ranked_def task_at_def reset_tasks_def)

lemma ranked_emit [simp]: "ranked (emit_task_audit now actor t l p n r d st) = ranked st"
  by (rule ranked_cong) simp

lemma ranked_active [simp]: "ranked (st\<lparr>os_active := m\<rparr>) = ranked st"
  by (rule ranked_cong) simp

lemma ranked_notify [simp]: "ranked (notify now k e st) = ranked st"
  by (rule ranked_cong) simp

lemma materialized_at:
  "task_at k (materialized sha now e st) =
     (if k = Canonical (os_uuids st (os_drawn st)) then Some (new_task sha now e (Canonical (os_uuids st (os_drawn st))) st)
      else task_at k st)"
  by (simp add: materialized_def Let_def task_at_put new_task_def)

lemma ranked_intake:
  assumes ok: "tasks_ok st" and ranked: "ranked st"
  shows "ranked (snd (upsert_task sha now e st))"
proof (cases rule: upsert_cases [of st sha e])
  case (known k t)
  have live: "tk_state t \<notin> set terminal_tasks" using ok known by (auto simp: tasks_ok_def active_ok_def)
  let ?t = "bumped now e t st"
  have "ranked (rerank_correlation (tk_correlation t) (tk_tenant t) now (put_task ?t st))"
  proof (rule ranked_rerank)
    show "ids_ok (put_task ?t st)"
      using tasks_ok_put_raised [OF ok known(2) bumped_raises [OF live]] by (simp add: tasks_ok_def)
    show "ranks_with v w" if "task_at i (put_task ?t st) = Some v" "task_at j (put_task ?t st) = Some w" "together v w"
      "\<not> is_peer (tk_correlation t) (tk_tenant t) v" for i j v w
    proof -
      have "is_peer (tk_correlation t) (tk_tenant t) ?t" using live by (simp add: is_peer_def bumped_def)
      moreover have "\<not> is_peer (tk_correlation t) (tk_tenant t) w" using that(3,4) by (auto simp: together_def is_peer_def)
      ultimately have "task_at i st = Some v" "task_at j st = Some w" using that by (auto simp: task_at_put split: if_splits)
      then show ?thesis using ranked that(3) by (auto simp: ranked_def)
    qed
  qed
  then show ?thesis using upsert_known [where sha = sha and e = e and st = st and now = now] known(3) by simp
next
  case unknown
  have "ranked (rerank_correlation (ie_correlation e) (ie_tenant e) now (materialized sha now e st))"
  proof (rule ranked_rerank)
    show "ids_ok (materialized sha now e st)" using tasks_ok_materialized [where sha = sha and e = e and now = now, OF ok] unknown by (simp add: tasks_ok_def)
    show "ranks_with v w" if "task_at i (materialized sha now e st) = Some v" "task_at j (materialized sha now e st) = Some w"
      "together v w" "\<not> is_peer (ie_correlation e) (ie_tenant e) v" for i j v w
    proof -
      have "is_peer (ie_correlation e) (ie_tenant e) (new_task sha now e tid st)" for tid
        by (simp add: is_peer_def new_task_def terminal_tasks_def)
      moreover have "\<not> is_peer (ie_correlation e) (ie_tenant e) w" using that(3,4) by (auto simp: together_def is_peer_def)
      ultimately have "task_at i st = Some v" "task_at j st = Some w" using that by (auto simp: materialized_at split: if_splits)
      then show ?thesis using ranked that(3) by (auto simp: ranked_def)
    qed
  qed
  then show ?thesis using upsert_unknown [where sha = sha and e = e and st = st and now = now] unknown by simp
qed

lemma ranked_transition:
  assumes ok: "tasks_ok st" and ranked: "ranked st"
  shows "ranked (snd (apply_task_transition sha now actor tid target action p st))"
proof (cases "task_at tid st")
  case (Some t)
  have id: "tk_id t = tid" using tasks_okD(1) [OF ok Some] .
  show ?thesis
  proof (cases "transition_refusal t target action p")
    case None
    then have "tk_state t \<notin> set terminal_tasks" by (auto simp: transition_refusal_def split: if_splits)
    then have "ranked (put_task (moved_task sha now target p t) st)"
      using id by (intro ranked_changed [OF ranked Some]) (simp_all add: moved_task_def)
    then show ?thesis by (simp add: apply_task_transition_def Some None Let_def)
  qed (auto simp: apply_task_transition_def Some transition_denied_def ranked)
qed (simp add: apply_task_transition_def ranked)

lemma ranked_assign:
  assumes ok: "tasks_ok st" and ranked: "ranked st"
  shows "ranked (snd (self_assign_task sha now actor tid p st))"
proof (cases "task_at tid st")
  case (Some t)
  have id: "tk_id t = tid" using tasks_okD(1) [OF ok Some] .
  show ?thesis
    using id by (auto simp: self_assign_task_def Some Let_def transition_denied_def ranked intro!: ranked_changed [OF ranked Some])
qed (simp add: self_assign_task_def ranked_transition [OF ok ranked])

lemma ranked_step: "task_step sha st st' \<Longrightarrow> tasks_ok st \<Longrightarrow> ranked st \<Longrightarrow> ranked st'"
proof (induction rule: task_step.induct)
  case (step_notification st now tid ch sm role)
  then show ?case
    by (auto simp: record_notification_event_def case_prod_beta ranked_def split: option.split)
qed (simp_all add: ranked_intake ranked_transition ranked_assign)

section \<open>Finality and history\<close>

text \<open>What a step may do to a task: keep its identity, follow the graph, leave a closed task as it is.\<close>

definition evolves :: "operator_task \<Rightarrow> operator_task \<Rightarrow> bool" where
  "evolves t t' \<longleftrightarrow> tk_id t' = tk_id t \<and> tk_type t' = tk_type t \<and> tk_tenant t' = tk_tenant t \<and>
     tk_correlation t' = tk_correlation t \<and> tk_digest t' = tk_digest t \<and> tk_source t' = tk_source t \<and>
     (tk_state t' = tk_state t \<or> tk_state t' \<in> set (allowed_task (tk_state t))) \<and> (tk_state t \<in> set terminal_tasks \<longrightarrow> t' = t)"

lemma evolves_refl [simp]: "evolves t t" by (simp add: evolves_def)

lemma evolves_raised: "raised_from t t' \<Longrightarrow> evolves t t'"
  by (simp add: evolves_def raised_keeps)

lemma evolves_trans_raised: "raised_from t u \<Longrightarrow> raised_from u v \<Longrightarrow> raised_from t v"
proof -
  assume tu: "raised_from t u" and uv: "raised_from u v"
  show ?thesis
  proof (cases "u = t \<or> v = u")
    case False
    obtain a b c d where u: "u = t\<lparr>tk_severity := a, tk_updated := b, tk_gate_open := c, tk_reason := d\<rparr>" "tk_state t \<notin> set terminal_tasks"
      using tu False unfolding raised_from_def by blast
    obtain a' b' c' d' where v: "v = u\<lparr>tk_severity := a', tk_updated := b', tk_gate_open := c', tk_reason := d'\<rparr>"
      using uv False unfolding raised_from_def by blast
    have "v = t\<lparr>tk_severity := a', tk_updated := b', tk_gate_open := c', tk_reason := d'\<rparr>" unfolding v u(1) by simp
    then show ?thesis using u(2) unfolding raised_from_def by blast
  qed (use tu uv in auto)
qed

lemma intake_evolves:
  assumes ok: "tasks_ok st" and t: "task_at k st = Some t"
  shows "\<exists>t'. task_at k (snd (upsert_task sha now e st)) = Some t' \<and> evolves t t'"
proof (cases rule: upsert_cases [of st sha e])
  case (known j u)
  have live: "tk_state u \<notin> set terminal_tasks" using ok known by (auto simp: tasks_ok_def active_ok_def)
  have "tk_id (bumped now e u st) = j" using tasks_okD(1) [OF ok known(2)] by (simp add: bumped_def)
  then obtain v where v: "task_at k (put_task (bumped now e u st) st) = Some v" "raised_from t v"
  proof (cases "k = j")
    case True
    then show ?thesis using that [of "bumped now e u st"] t known(2) bumped_raises [OF live] \<open>tk_id (bumped now e u st) = j\<close>
      by (simp add: task_at_put)
  next
    case False
    then show ?thesis using that [of t] t \<open>tk_id (bumped now e u st) = j\<close> by (simp add: task_at_put)
  qed
  let ?v = "rerank_task (tk_correlation u) (tk_tenant u) now (put_task (bumped now e u st) st) v"
  have "task_at k (snd (upsert_task sha now e st)) = Some ?v"
    using upsert_known [where sha = sha and e = e and st = st and now = now] known(3) v(1) by (simp add: task_at_rerank)
  moreover have "evolves t ?v" by (rule evolves_raised [OF evolves_trans_raised [OF v(2) rerank_raises]])
  ultimately show ?thesis by blast
next
  case unknown
  have "k \<noteq> Canonical (os_uuids st (os_drawn st))" using fresh_task [OF ok] t by auto
  then have "task_at k (snd (upsert_task sha now e st)) =
      Some (rerank_task (ie_correlation e) (ie_tenant e) now (materialized sha now e st) t)"
    using upsert_unknown [where sha = sha and e = e and st = st and now = now] unknown t by (simp add: task_at_rerank materialized_at)
  then show ?thesis using evolves_raised [OF rerank_raises] by blast
qed

lemma transition_evolves:
  assumes ok: "tasks_ok st" and t: "task_at k st = Some t"
  shows "\<exists>t'. task_at k (snd (apply_task_transition sha now actor tid target action p st)) = Some t' \<and> evolves t t'"
proof (cases "task_at tid st")
  case (Some u)
  have id: "tk_id u = tid" using tasks_okD(1) [OF ok Some] .
  show ?thesis
  proof (cases "transition_refusal u target action p")
    case None
    then have "evolves u (moved_task sha now target p u)"
      by (auto simp: transition_refusal_def evolves_def moved_task_def split: if_splits)
    then show ?thesis using t Some None id
      by (auto simp: apply_task_transition_def Let_def task_at_put moved_task_def)
  qed (use t Some in \<open>auto simp: apply_task_transition_def transition_denied_def\<close>)
qed (use t in \<open>simp add: apply_task_transition_def\<close>)

lemma assign_evolves:
  assumes ok: "tasks_ok st" and t: "task_at k st = Some t"
  shows "\<exists>t'. task_at k (snd (self_assign_task sha now actor tid p st)) = Some t' \<and> evolves t t'"
proof (cases "task_at tid st")
  case (Some u)
  then show ?thesis using t tasks_okD(1) [OF ok Some]
    by (auto simp: self_assign_task_def Let_def transition_denied_def task_at_put evolves_def)
qed (simp add: self_assign_task_def transition_evolves [OF ok t])

lemma step_evolves:
  "task_step sha st st' \<Longrightarrow> tasks_ok st \<Longrightarrow> task_at k st = Some t \<Longrightarrow> \<exists>t'. task_at k st' = Some t' \<and> evolves t t'"
  by (induction rule: task_step.induct)
    (auto simp: intake_evolves transition_evolves assign_evolves record_notification_event_def case_prod_beta split: option.split)

text \<open>Audit events are only appended; those on a closed task are denials.\<close>

definition audit_grows :: "task_store \<Rightarrow> task_store \<Rightarrow> bool" where
  "audit_grows st st' \<longleftrightarrow> (\<exists>es. os_audit st' = os_audit st @ es \<and>
     (\<forall>e \<in> set es. \<forall>t. task_at (ta_task e) st = Some t \<longrightarrow> tk_state t \<in> set terminal_tasks \<longrightarrow>
        ta_denial e = Some Transition_Denied_Terminal \<and> ta_next e = tk_state t))"

lemma audit_grows_refl [simp]: "audit_grows st st"
  by (simp add: audit_grows_def)

lemma audit_grows_same: "os_audit st' = os_audit st \<Longrightarrow> audit_grows st st'"
  by (simp add: audit_grows_def)

lemma audit_grows_emit:
  assumes "\<And>u. task_at (tk_id t) st = Some u \<Longrightarrow> tk_state u \<in> set terminal_tasks \<Longrightarrow> d = Some Transition_Denied_Terminal \<and> n = tk_state u"
    and "os_audit st1 = os_audit st"
  shows "audit_grows st (emit_task_audit now actor t l p n r d st1)"
proof -
  obtain e where "os_audit (emit_task_audit now actor t l p n r d st1) = os_audit st @ [e]" "ta_task e = tk_id t" "ta_denial e = d"
    "ta_next e = n"
    using emit_log [of now actor t l p n r d st1] assms(2) by auto
  then show ?thesis using assms(1) by (auto simp: audit_grows_def)
qed

lemma audit_grows_later: "audit_grows st st' \<Longrightarrow> os_audit st'' = os_audit st' \<Longrightarrow> audit_grows st st''"
  by (simp add: audit_grows_def)

lemma transition_audit:
  assumes ok: "tasks_ok st"
  shows "audit_grows st (snd (apply_task_transition sha now actor tid target action p st))"
proof (cases "task_at tid st")
  case (Some u)
  have id: "tk_id u = tid" using tasks_okD(1) [OF ok Some] .
  show ?thesis
  proof (cases "transition_refusal u target action p")
    case None
    then have "tk_state u \<notin> set terminal_tasks" by (auto simp: transition_refusal_def split: if_splits)
    then show ?thesis using Some None id
      by (auto simp: apply_task_transition_def Let_def moved_task_def intro!: audit_grows_emit)
  next
    case (Some r)
    obtain l d where r: "r = (l, d)" by (cases r)
    have "tk_state u \<in> set terminal_tasks \<Longrightarrow> d = Transition_Denied_Terminal"
      using Some r by (auto simp: transition_refusal_def split: if_splits)
    then show ?thesis using Some r id \<open>task_at tid st = Some u\<close>
      by (auto simp: apply_task_transition_def transition_denied_def intro!: audit_grows_emit)
  qed
qed (simp add: apply_task_transition_def)

lemma step_audit: "task_step sha st st' \<Longrightarrow> tasks_ok st \<Longrightarrow> audit_grows st st'"
proof (induction rule: task_step.induct)
  case (step_intake st now e)
  show ?case
  proof (cases rule: upsert_cases [of st sha e])
    case (known k t)
    then show ?thesis using upsert_known [where sha = sha and e = e and st = st and now = now]
      by (auto intro: audit_grows_same)
  next
    case unknown
    have "audit_grows st (materialized sha now e st)"
      using fresh_task [OF step_intake] by (auto simp: materialized_def Let_def intro!: audit_grows_emit)
    then show ?thesis
      using upsert_unknown [where sha = sha and e = e and st = st and now = now] unknown by (auto intro: audit_grows_later)
  qed
next
  case (step_assign st now actor tid p)
  show ?case
  proof (cases "task_at tid st")
    case (Some u)
    then show ?thesis using tasks_okD(1) [OF step_assign Some]
      by (auto simp: self_assign_task_def Let_def transition_denied_def intro!: audit_grows_emit)
  qed (simp add: self_assign_task_def transition_audit [OF step_assign])
next
  case (step_notification st now tid ch sm role)
  show ?case by (rule audit_grows_same) (simp add: record_notification_event_def case_prod_beta split: option.split)
qed (rule transition_audit)

section \<open>Notification records\<close>

definition notes_ok :: "task_store \<Rightarrow> bool" where
  "notes_ok st \<longleftrightarrow> distinct (map nt_event (os_notes st)) \<and> (\<forall>n \<in> set (os_notes st). drawn_id st (nt_event n)) \<and>
     (\<forall>n \<in> set (os_notes st). nt_delivery n = Delivery_Recorded \<longrightarrow> os_inflight st (nt_task n, nt_channel n) = Some (nt_event n)) \<and>
     (\<forall>key eid. os_inflight st key = Some eid \<longrightarrow> eid \<in> nt_event ` set (os_notes st))"

lemma notes_ok_same:
  assumes "notes_ok st" and "os_notes st' = os_notes st" and "os_inflight st' = os_inflight st" and "os_uuids st' = os_uuids st"
    and "os_drawn st \<le> os_drawn st'"
  shows "notes_ok st'"
  using assms drawn_id_mono [of st _ st'] by (simp add: notes_ok_def)

lemma notes_ok_notification:
  assumes records: "notes_ok st" and inj: "inj (os_uuids st)"
  shows "notes_ok (snd (record_notification now t ch sm role st))"
proof (cases "os_inflight st (tk_id t, ch)")
  case (Some eid)
  then have "eid \<in> nt_event ` set (os_notes st)" using records by (auto simp: notes_ok_def)
  then obtain n where "find (\<lambda>n. nt_event n = eid) (os_notes st) = Some n" by (cases "find (\<lambda>n. nt_event n = eid) (os_notes st)") (auto simp: find_None_iff)
  then show ?thesis using records Some by (simp add: record_notification_def)
next
  case None
  let ?eid = "Canonical (os_uuids st (os_drawn st))"
  have fresh: "?eid \<notin> nt_event ` set (os_notes st)"
    using records injD [OF inj] by (fastforce simp: notes_ok_def drawn_id_def)
  have grown: "drawn_id (snd (record_notification now t ch sm role st)) k" if "drawn_id st k" for k
    by (rule drawn_id_mono [OF that]) (simp_all add: notification_drawn)
  have new: "drawn_id (snd (record_notification now t ch sm role st)) ?eid"
    by (auto simp: drawn_id_def record_notification_def None draw_id_def Let_def)
  obtain n where n: "nt_event n = ?eid" "nt_task n = tk_id t" "nt_channel n = ch"
      "os_notes (snd (record_notification now t ch sm role st)) = os_notes st @ [n]"
      "os_inflight (snd (record_notification now t ch sm role st)) =
         (if nt_delivery n = Delivery_Recorded then (os_inflight st)((tk_id t, ch) \<mapsto> ?eid) else os_inflight st)"
  proof -
    let ?s = "snd (record_notification now t ch sm role st)"
    show ?thesis
      by (rule that [of "last (os_notes ?s)"];
          cases "(case given_text sm of None \<Rightarrow> [] | Some s \<Rightarrow> redact_text s) = []";
          simp add: record_notification_def draw_id_def Let_def None)
  qed
  have unsent: "nt_delivery m = Delivery_Recorded \<Longrightarrow> (nt_task m, nt_channel m) \<noteq> (tk_id t, ch)" if "m \<in> set (os_notes st)" for m
    using records that None by (fastforce simp: notes_ok_def)
  show ?thesis
    unfolding notes_ok_def n(4,5)
  proof (intro conjI ballI allI impI)
    show "distinct (map nt_event (os_notes st @ [n]))" using records fresh n(1) by (simp add: notes_ok_def)
    show "drawn_id (snd (record_notification now t ch sm role st)) (nt_event m)" if "m \<in> set (os_notes st @ [n])" for m
      using that records grown new n(1) by (auto simp: notes_ok_def)
    show "(if nt_delivery n = Delivery_Recorded then (os_inflight st)((tk_id t, ch) \<mapsto> ?eid) else os_inflight st) (nt_task m, nt_channel m) =
        Some (nt_event m)" if "m \<in> set (os_notes st @ [n])" "nt_delivery m = Delivery_Recorded" for m
    proof (cases "m \<in> set (os_notes st)")
      case True
      then show ?thesis using records unsent [OF True that(2)] that(2) by (auto simp: notes_ok_def)
    next
      case False
      then show ?thesis using that n(1-3) by simp
    qed
    show "eid \<in> nt_event ` set (os_notes st @ [n])"
      if "(if nt_delivery n = Delivery_Recorded then (os_inflight st)((tk_id t, ch) \<mapsto> ?eid) else os_inflight st) key = Some eid" for key eid
    proof (cases "nt_delivery n = Delivery_Recorded \<and> key = (tk_id t, ch)")
      case True
      then show ?thesis using that n(1) by simp
    next
      case False
      then have "os_inflight st key = Some eid" using that by (auto split: if_splits)
      then have "eid \<in> nt_event ` set (os_notes st)" using records unfolding notes_ok_def by blast
      then show ?thesis by simp
    qed
  qed
qed

lemma notes_ok_step: "task_step sha st st' \<Longrightarrow> tasks_ok st \<Longrightarrow> notes_ok st \<Longrightarrow> notes_ok st'"
proof (induction rule: task_step.induct)
  case (step_intake st now e)
  have inj: "inj (os_uuids st)" using step_intake by (simp add: tasks_ok_def ids_ok_def)
  have notify: "notes_ok (notify now k e s)" if "notes_ok s" "os_uuids s = os_uuids st" for k s
    using that inj by (auto simp: notify_def notes_ok_notification split: option.split)
  show ?case
  proof (cases rule: upsert_cases [of st sha e])
    case (known k t)
    have "notes_ok (rerank_correlation (tk_correlation t) (tk_tenant t) now (put_task (bumped now e t st) st))"
      by (rule notes_ok_same [OF step_intake(2)]) simp_all
    then show ?thesis using upsert_known [where sha = sha and e = e and st = st and now = now] known notify by simp
  next
    case unknown
    have "notes_ok (rerank_correlation (ie_correlation e) (ie_tenant e) now (materialized sha now e st))"
      by (rule notes_ok_same [OF step_intake(2)]) (simp_all add: materialized_def Let_def)
    then show ?thesis using upsert_unknown [where sha = sha and e = e and st = st and now = now] unknown notify
      by (simp add: materialized_def Let_def)
  qed
next
  case (step_transition st now actor tid target action p)
  show ?case
    by (rule notes_ok_same [OF step_transition(2)])
      (simp_all add: apply_task_transition_def transition_denied_def Let_def case_prod_beta split: option.split)
next
  case (step_assign st now actor tid p)
  show ?case
    by (rule notes_ok_same [OF step_assign(2)])
      (simp_all add: self_assign_task_def apply_task_transition_def transition_denied_def Let_def case_prod_beta split: option.split)
next
  case (step_notification st now tid ch sm role)
  then show ?case
    by (auto simp: record_notification_event_def case_prod_beta notes_ok_notification tasks_ok_def ids_ok_def split: option.split)
qed

lemma one_recorded:
  assumes "notes_ok st"
  shows "length (filter (\<lambda>n. nt_delivery n = Delivery_Recorded \<and> nt_task n = k \<and> nt_channel n = ch) (os_notes st)) \<le> 1"
proof -
  let ?ns = "filter (\<lambda>n. nt_delivery n = Delivery_Recorded \<and> nt_task n = k \<and> nt_channel n = ch) (os_notes st)"
  have "distinct (map nt_event ?ns)" using assms by (auto simp: notes_ok_def distinct_map_filter)
  moreover have "set (map nt_event ?ns) \<subseteq> {the (os_inflight st (k, ch))}" using assms by (auto simp: notes_ok_def)
  ultimately have "length ?ns = card (set (map nt_event ?ns))" "card (set (map nt_event ?ns)) \<le> card {the (os_inflight st (k, ch))}"
    using distinct_card [of "map nt_event ?ns"] by (simp, blast intro: card_mono)
  then show ?thesis by simp
qed

section \<open>Runs\<close>

lemma steps_keep:
  assumes "(task_step sha)\<^sup>*\<^sup>* st st'" and "tasks_ok st"
  shows "tasks_ok st'" and "ranked st \<Longrightarrow> ranked st'" and "notes_ok st \<Longrightarrow> notes_ok st'"
    and "task_at k st = Some t \<Longrightarrow> tk_state t \<in> set terminal_tasks \<Longrightarrow> task_at k st' = Some t"
proof -
  have "tasks_ok st' \<and> (ranked st \<longrightarrow> ranked st') \<and> (notes_ok st \<longrightarrow> notes_ok st') \<and>
      (task_at k st = Some t \<longrightarrow> tk_state t \<in> set terminal_tasks \<longrightarrow> task_at k st' = Some t)"
    using assms
  proof (induction rule: rtranclp_induct)
    case (step y z)
    have y: "tasks_ok y" using step by simp
    have "task_at k y = Some t \<Longrightarrow> tk_state t \<in> set terminal_tasks \<Longrightarrow> task_at k z = Some t"
      using step_evolves [OF step(2) y] by (fastforce simp: evolves_def)
    then show ?case using step tasks_ok_step ranked_step notes_ok_step y by blast
  qed simp
  then show "tasks_ok st'" and "ranked st \<Longrightarrow> ranked st'" and "notes_ok st \<Longrightarrow> notes_ok st'"
    and "task_at k st = Some t \<Longrightarrow> tk_state t \<in> set terminal_tasks \<Longrightarrow> task_at k st' = Some t" by blast+
qed

lemma reset_ok:
  assumes "inj uuids"
  shows "tasks_ok (reset_tasks uuids n)" and "ranked (reset_tasks uuids n)" and "notes_ok (reset_tasks uuids n)"
  by (rule tasks_ok_reset [OF assms], rule ranked_reset, simp add: notes_ok_def reset_tasks_def)

lemma history_numbers: "history s n es s' \<Longrightarrow> map ta_seq es = [Suc n..<Suc (n + length es)]"
proof (induction s n es s' rule: history.induct)
  case (2 s n e es s')
  then have "map ta_seq es = [Suc (Suc n)..<Suc (Suc n + length es)]" and "ta_seq e = Suc n" by simp_all
  moreover have "[Suc n..<Suc (n + length (e # es))] = Suc n # [Suc (Suc n)..<Suc (Suc n + length es)]"
    by (subst upt_conv_Cons) simp_all
  ultimately show ?case by simp
qed simp

text \<open>The routes and the bridge are steps of the queue.\<close>

lemma route_is_step: "task_step sha st (snd (task_call_route sha now token c st))"
  by (cases c)
    (simp_all add: case_prod_beta acknowledge_task_def mark_in_progress_task_def complete_task_def dismiss_task_def task_step.intros)

lemma materialize_each_steps: "(task_step sha)\<^sup>*\<^sup>* st (snd (materialize_each sha now rs c st))"
proof (induction rs arbitrary: c st)
  case (Cons r rs)
  show ?case
  proof (cases "approval_followup now r")
    case (Some e)
    have "task_step sha st (snd (upsert_task sha now e st))" by (rule step_intake)
    then show ?thesis using Cons by (simp add: Some case_prod_beta converse_rtranclp_into_rtranclp)
  qed (use Cons in simp)
qed simp

lemma materialize_all_steps: "(task_step sha)\<^sup>*\<^sup>* st (snd (materialize_all sha now rs tables st))"
proof -
  have "(task_step sha)\<^sup>*\<^sup>* s (snd (materialize_backup_check sha now tables s))" for s
    by (auto simp: materialize_backup_check_def Let_def case_prod_beta step_intake split: option.split)
  moreover have "(task_step sha)\<^sup>*\<^sup>* st (snd (materialize_approvals sha now rs st))"
    by (simp add: materialize_approvals_def materialize_each_steps)
  ultimately have "(task_step sha)\<^sup>*\<^sup>* st (snd (materialize_backup_check sha now tables (snd (materialize_approvals sha now rs st))))"
    using rtranclp_trans by fast
  then show ?thesis by (simp add: materialize_all_def Let_def case_prod_beta)
qed

section \<open>Properties\<close>

text \<open>
  C34: over any run of the task service every task is accounted for: its label is the honest one, its audit
  history is numbered without gaps and follows the transition graph from open to its state, a completed
  task has evidence and a closed gate, the deduplication window holds exactly the active tasks, a task
  beside an unknown source, a backup warning or a failed execution in its correlation is high, one beside a
  high task is not low, and at most one notification per channel is in flight.
\<close>

theorem operator_tasks_stay_accounted:
  assumes "inj uuids" and "(task_step sha)\<^sup>*\<^sup>* (reset_tasks uuids n) st" and "task_at k st = Some t"
  shows "tk_display t = compute_display (tk_type t) (tk_source t) (tk_state t) \<and>
    history Task_Open 0 (task_audit_log k st) (tk_state t) \<and>
    map ta_seq (task_audit_log k st) = [1..<Suc (length (task_audit_log k st))] \<and>
    (tk_state t = Task_Completed \<longrightarrow> tk_evidence t \<noteq> None \<and> \<not> tk_gate_open t) \<and>
    (os_active st (tk_digest t) = Some k \<longleftrightarrow> tk_state t \<notin> set terminal_tasks) \<and>
    (\<forall>j u. task_at j st = Some u \<and> together t u \<longrightarrow> ranks_with t u) \<and>
    (\<forall>ch. length (filter (\<lambda>n. nt_delivery n = Delivery_Recorded \<and> nt_task n = k \<and> nt_channel n = ch) (os_notes st)) \<le> 1)"
proof -
  note start = reset_ok [OF assms(1), of n]
  have ok: "tasks_ok st" and "ranked st" and records: "notes_ok st"
    using steps_keep [OF assms(2) start(1)] start by blast+
  have "\<forall>j u. task_at j st = Some u \<and> together t u \<longrightarrow> ranks_with t u" using \<open>ranked st\<close> assms(3) by (auto simp: ranked_def)
  moreover have "os_active st (tk_digest t) = Some k \<longleftrightarrow> tk_state t \<notin> set terminal_tasks"
    using ok assms(3) by (simp add: tasks_ok_def active_ok_def)
  moreover have "map ta_seq (task_audit_log k st) = [1..<Suc (length (task_audit_log k st))]"
    using history_numbers [OF tasks_okD(6) [OF ok assms(3)]] by simp
  ultimately show ?thesis
    using tasks_okD(3,4,6) [OF ok assms(3)] one_recorded [OF records] by (simp add: task_kept_def)
qed

text \<open>
  C35: a task that is completed, dismissed, expired or failed is final: whatever follows, it stays as it is in
  every field, the audit log only grows, and the new events about it are refusals.
\<close>

theorem closed_tasks_are_final:
  assumes "inj uuids" and "(task_step sha)\<^sup>*\<^sup>* (reset_tasks uuids n) st" and "(task_step sha)\<^sup>*\<^sup>* st st'"
    and "task_at k st = Some t" and "tk_state t \<in> set terminal_tasks"
  shows "task_at k st' = Some t \<and> (\<exists>es. os_audit st' = os_audit st @ es \<and>
    (\<forall>e \<in> set es. ta_task e = k \<longrightarrow> ta_denial e = Some Transition_Denied_Terminal \<and> ta_next e = tk_state t))"
proof -
  have ok: "tasks_ok st" by (rule steps_keep(1) [OF assms(2) reset_ok(1) [OF assms(1)]])
  from assms(3) show ?thesis
  proof (induction rule: rtranclp_induct)
    case base
    then show ?case using assms(4) by simp
  next
    case (step y z)
    then obtain es where y: "task_at k y = Some t" "os_audit y = os_audit st @ es"
      "\<forall>e \<in> set es. ta_task e = k \<longrightarrow> ta_denial e = Some Transition_Denied_Terminal \<and> ta_next e = tk_state t" by blast
    have oky: "tasks_ok y" by (rule steps_keep(1) [OF step(1) ok])
    obtain fs where fs: "os_audit z = os_audit y @ fs" "\<forall>e \<in> set fs. ta_task e = k \<longrightarrow> ta_denial e = Some Transition_Denied_Terminal \<and> ta_next e = tk_state t"
      using step_audit [OF step(2) oky] y(1) assms(5) by (auto simp: audit_grows_def)
    have "task_at k z = Some t" using step_evolves [OF step(2) oky y(1)] assms(5) by (auto simp: evolves_def)
    moreover have "os_audit z = os_audit st @ (es @ fs)" using y(2) fs(1) by simp
    moreover have "\<forall>e \<in> set (es @ fs). ta_task e = k \<longrightarrow> ta_denial e = Some Transition_Denied_Terminal \<and> ta_next e = tk_state t"
      using y(3) fs(2) by auto
    ultimately show ?case by blast
  qed
qed

text \<open>
  A task is completed exactly when it is open, acknowledged or in progress, evidence is given and its linked
  gate is closed.
\<close>

lemma task_completed_iff:
  "tr_accepted (fst (complete_task sha now actor k p st)) \<longleftrightarrow>
    (\<exists>t. task_at k st = Some t \<and> tk_state t \<in> {Task_Open, Task_Acknowledged, Task_In_Progress} \<and>
       (has_text (tp_evidence p) \<or> has_text (tp_evidence_ref p)) \<and> \<not> tk_gate_open t)"
proof (cases "task_at k st")
  case (Some t)
  then show ?thesis
    by (cases "tk_state t") (auto simp: complete_task_def apply_task_transition_def transition_refusal_def transition_denied_def
        terminal_tasks_def Let_def)
qed (simp add: complete_task_def apply_task_transition_def)

section \<open>A run\<close>

definition sample_warning :: intake_event where
  "sample_warning =
     \<lparr>ie_type = Backup_Check_Warning, ie_severity = None, ie_tenant = None, ie_scope = Platform_Scope, ie_role = None,
      ie_correlation = ''c'', ie_action = None, ie_approval = None, ie_execution = None, ie_dry_run = None, ie_source_ref = None,
      ie_incident = None, ie_summary = [], ie_reason = None, ie_source = Some Src_Degraded, ie_gate_open = False,
      ie_variant = None, ie_ttl = None, ie_channel = None\<rparr>"

definition sample_decision :: "severity option \<Rightarrow> intake_event" where
  "sample_decision s = sample_warning\<lparr>ie_type := Approval_Decision_Required, ie_severity := s, ie_correlation := ''d'', ie_source := None\<rparr>"

definition sample_payload :: triage_payload where
  "sample_payload = \<lparr>tp_reason = None, tp_evidence = None, tp_evidence_ref = Some ''x''\<rparr>"

definition sample_opened :: task_store where
  "sample_opened = snd (upsert_task id 5 sample_warning (reset_tasks id 0))"

definition sample_completed :: task_store where
  "sample_completed = snd (apply_task_transition id 6 (None, By_System) (Canonical 0) Task_Completed ''complete'' sample_payload sample_opened)"

lemma sample_opened_steps: "(task_step id)\<^sup>*\<^sup>* (reset_tasks id 0) sample_opened"
  unfolding sample_opened_def by (rule r_into_rtranclp) (rule step_intake)

lemma sample_completed_steps: "(task_step id)\<^sup>*\<^sup>* (reset_tasks id 0) sample_completed"
  unfolding sample_completed_def by (rule rtranclp.rtrancl_into_rtrancl [OF sample_opened_steps]) (rule step_transition)

lemma reset_fields [simp]:
  "os_uuids (reset_tasks u n) = u" "os_drawn (reset_tasks u n) = n" "os_active (reset_tasks u n) d = None"
  "task_at k (reset_tasks u n) = None" "os_tasks (reset_tasks u n) = []"
  by (simp_all add: reset_tasks_def task_at_def)

lemma sample_opened_task:
  obtains t where "task_at (Canonical 0) sample_opened = Some t" and "tk_state t = Task_Open" and "\<not> tk_gate_open t"
    and "tk_type t = Backup_Check_Warning" and "tk_source t = Some Src_Degraded"
proof -
  let ?n = "new_task id 5 sample_warning (Canonical 0) (reset_tasks id 0)"
  let ?t = "rerank_task ''c'' None 5 (materialized id 5 sample_warning (reset_tasks id 0)) ?n"
  have "task_at (Canonical 0) sample_opened = Some ?t"
    by (simp add: sample_opened_def upsert_unknown task_at_rerank materialized_at) (simp add: sample_warning_def)
  moreover have "\<not> tk_gate_open ?t"
    by (simp add: rerank_task_def lifted_def Let_def) (simp add: new_task_def sample_warning_def)
  moreover have "tk_type ?n = Backup_Check_Warning" "tk_source ?n = Some Src_Degraded" by (simp_all add: new_task_def sample_warning_def)
  ultimately show ?thesis using that raised_keeps [OF rerank_raises] by simp
qed

lemma sample_completed_task:
  obtains t where "task_at (Canonical 0) sample_completed = Some t" and "tk_state t = Task_Completed"
    and "tk_type t = Backup_Check_Warning" and "tk_source t = Some Src_Degraded"
proof -
  obtain t where t: "task_at (Canonical 0) sample_opened = Some t" "tk_state t = Task_Open" "\<not> tk_gate_open t"
    "tk_type t = Backup_Check_Warning" "tk_source t = Some Src_Degraded" by (rule sample_opened_task)
  have ok: "tasks_ok sample_opened" by (rule steps_keep(1) [OF sample_opened_steps reset_ok(1)]) simp
  have id: "tk_id t = Canonical 0" by (rule tasks_okD(1) [OF ok t(1)])
  have free: "transition_refusal t Task_Completed ''complete'' sample_payload = None"
    using t by (simp add: transition_refusal_def terminal_tasks_def has_text_def stripped_def or_blank_def strip_def is_space_def
        sample_payload_def)
  have "task_at (Canonical 0) sample_completed = Some (moved_task id 6 Task_Completed sample_payload t)"
    using t(1) free id by (simp add: sample_completed_def apply_task_transition_def Let_def task_at_put moved_task_def)
  then show ?thesis using that t(4,5) by (simp add: moved_task_def)
qed

lemma operator_tasks_stay_accounted_witness:
  "\<exists>t. task_at (Canonical 0) sample_completed = Some t \<and> tk_state t = Task_Completed \<and> tk_display t = Show_Warning \<and>
     tk_evidence t \<noteq> None \<and> os_active sample_completed (tk_digest t) \<noteq> Some (Canonical 0)"
proof -
  obtain t where t: "task_at (Canonical 0) sample_completed = Some t" "tk_state t = Task_Completed"
    "tk_type t = Backup_Check_Warning" "tk_source t = Some Src_Degraded" by (rule sample_completed_task)
  show ?thesis
    using operator_tasks_stay_accounted [OF inj_on_id sample_completed_steps t(1)] t
    by (auto simp: compute_display_def terminal_tasks_def)
qed

lemma closed_tasks_are_final_witness:
  "\<exists>t. task_at (Canonical 0) sample_completed = Some t \<and> tk_state t = Task_Completed \<and>
     task_at (Canonical 0) (snd (upsert_task id 7 sample_warning sample_completed)) = Some t"
proof -
  obtain t where t: "task_at (Canonical 0) sample_completed = Some t" "tk_state t = Task_Completed" by (rule sample_completed_task)
  have "(task_step id)\<^sup>*\<^sup>* sample_completed (snd (upsert_task id 7 sample_warning sample_completed))"
    by (rule r_into_rtranclp) (rule step_intake)
  then show ?thesis
    using closed_tasks_are_final [OF inj_on_id sample_completed_steps _ t(1)] t by (auto simp: terminal_tasks_def)
qed

section \<open>A replay may lower a severity\<close>

text \<open>
  A decision task opens as high; the same follow-up reported again with the severity low makes it medium,
  although no peer and no type forbids it to stay.
\<close>

definition sample_high :: task_store where
  "sample_high = snd (upsert_task id 5 (sample_decision None) (reset_tasks id 0))"

lemma sample_decision_fields [simp]:
  "ie_channel (sample_decision s) = None" "ie_correlation (sample_decision s) = ''d''" "ie_tenant (sample_decision s) = None"
  by (simp_all add: sample_decision_def sample_warning_def)

lemma replay_lowers_severity:
  "map_option tk_severity (task_at (Canonical 0) sample_high) = Some High"
  "map_option tk_severity (task_at (Canonical 0) (snd (upsert_task id 6 (sample_decision (Some Low)) sample_high))) = Some Medium"
proof -
  have key: "dedup_key (sample_decision s) = dedup_key (sample_decision None)" for s
    by (simp add: dedup_key_def first_linked_id_def sample_decision_def sample_warning_def given_text_def)
  let ?t = "new_task id 5 (sample_decision None) (Canonical 0) (reset_tasks id 0)"
  have t: "tk_severity ?t = High" "tk_correlation ?t = ''d''" "tk_tenant ?t = None" "tk_type ?t = Approval_Decision_Required"
    by (simp_all add: new_task_def sample_decision_def sample_warning_def severity_for_def peers_def reset_tasks_def rank_severity_def
        force_high_types_def Let_def)
  have tasks: "os_tasks sample_high = [(Canonical 0, ?t)]"
    using t by (simp add: sample_high_def upsert_unknown materialized_def rerank_tasks rerank_task_def lifted_def Let_def
        notify_def put_task_def rank_severity_def)
  show "map_option tk_severity (task_at (Canonical 0) sample_high) = Some High" using t by (simp add: task_at_def tasks)
  show "map_option tk_severity (task_at (Canonical 0) (snd (upsert_task id 6 (sample_decision (Some Low)) sample_high))) = Some Medium"
  proof -
    let ?e = "sample_decision (Some Low)"
    have active: "os_active sample_high (id (dedup_key ?e)) = Some (Canonical 0)"
      by (simp add: sample_high_def upsert_unknown materialized_def Let_def key [of "Some Low"])
    have known: "Option.bind (os_active sample_high (id (dedup_key ?e))) (\<lambda>tid. task_at tid sample_high) = Some ?t"
      using active by (simp add: task_at_def tasks)
    have open_task: "is_peer ''d'' None ?t" using t by (simp add: is_peer_def terminal_tasks_def)
    have bumped: "tk_severity (bumped 6 ?e ?t sample_high) = Medium"
      using t open_task by (simp add: bumped_def severity_for_def peers_def tasks rank_severity_def force_high_types_def Let_def
          sample_decision_def)
    have put: "os_tasks (put_task (bumped 6 ?e ?t sample_high) sample_high) = [(Canonical 0, bumped 6 ?e ?t sample_high)]"
      by (simp add: put_task_def tasks bumped_def)
    have "os_tasks (snd (upsert_task id 6 ?e sample_high)) = [(Canonical 0, bumped 6 ?e ?t sample_high)]"
      using upsert_known [where sha = id and e = ?e and st = sample_high and now = 6] known t bumped
      by (simp add: rerank_tasks put rerank_task_def peers_def Let_def force_high_types_def) (simp add: bumped_def t)
    then show ?thesis using bumped by (simp add: task_at_def)
  qed
qed

end
