(* ===== verification/Closeout_Contract.thy ===== *)
theory Closeout_Contract
  imports Incident_Closeout Task_Laws
begin

text \<open>
  What the incident closeouts keep, whatever requests arrive: the lifecycle of a closeout, what closing
  one requires, what finishing a runbook step requires, and that the operator tasks move by steps of the
  task service only.
\<close>

section \<open>Access to the store\<close>

lemma closeout_at_put: "closeout_at k (put_closeout c st) = (if k = co_id c then Some c else closeout_at k st)"
  by (simp add: closeout_at_def put_closeout_def update_conv')

lemma put_closeout_fields [simp]:
  "ic_steps (put_closeout c st) = ic_steps st" "ic_order (put_closeout c st) = ic_order st"
  "ic_tasks (put_closeout c st) = ic_tasks st" "ic_active (put_closeout c st) = ic_active st"
  "ic_uuids (put_closeout c st) = ic_uuids st" "ic_drawn (put_closeout c st) = ic_drawn st"
  by (simp_all add: put_closeout_def)

lemma closeout_at_cong [simp]:
  "closeout_at k (st\<lparr>ic_steps := s\<rparr>) = closeout_at k st" "closeout_at k (st\<lparr>ic_order := m\<rparr>) = closeout_at k st"
  "closeout_at k (st\<lparr>ic_audit := a\<rparr>) = closeout_at k st" "closeout_at k (st\<lparr>ic_step_audit := b\<rparr>) = closeout_at k st"
  "closeout_at k (st\<lparr>ic_active := d\<rparr>) = closeout_at k st" "closeout_at k (st\<lparr>ic_step_active := e\<rparr>) = closeout_at k st"
  "closeout_at k (st\<lparr>ic_seq := f\<rparr>) = closeout_at k st" "closeout_at k (st\<lparr>ic_step_seq := g\<rparr>) = closeout_at k st"
  "closeout_at k (st\<lparr>ic_drawn := n\<rparr>) = closeout_at k st" "closeout_at k (st\<lparr>ic_tasks := t\<rparr>) = closeout_at k st"
  by (simp_all add: closeout_at_def)

lemma put_step_fields [simp]:
  "ic_steps (put_step s st) = (ic_steps st)(rs_id s \<mapsto> s)" "ic_order (put_step s st) = ic_order st"
  "ic_tasks (put_step s st) = ic_tasks st" "closeout_at k (put_step s st) = closeout_at k st"
  by (simp_all add: put_step_def)

lemma emit_closeout_fields [simp]:
  "ic_steps (emit_closeout_audit now actor c l p n r d st) = ic_steps st"
  "ic_order (emit_closeout_audit now actor c l p n r d st) = ic_order st"
  "ic_tasks (emit_closeout_audit now actor c l p n r d st) = ic_tasks st"
  "closeout_at k (emit_closeout_audit now actor c l p n r d st) = closeout_at k st"
  by (simp_all add: emit_closeout_audit_def draw_closeout_id_def Let_def)

lemma emit_step_fields [simp]:
  "ic_steps (emit_step_audit now actor s l p n e st) = ic_steps st"
  "ic_tasks (emit_step_audit now actor s l p n e st) = ic_tasks st"
  "closeout_at k (emit_step_audit now actor s l p n e st) = closeout_at k st"
  by (simp_all add: emit_step_audit_def draw_closeout_id_def Let_def)

lemma audit_closeout_fields [simp]:
  "ic_steps (audit_closeout now actor cid l p r d st) = ic_steps st" "ic_order (audit_closeout now actor cid l p r d st) = ic_order st"
  "ic_tasks (audit_closeout now actor cid l p r d st) = ic_tasks st"
  "closeout_at k (audit_closeout now actor cid l p r d st) = closeout_at k st"
  by (simp_all add: audit_closeout_def with_closeout_def split: option.split)

lemma given_or_drawn_fields [simp]:
  "closeout_at k (snd (given_or_drawn i st)) = closeout_at k st" "ic_steps (snd (given_or_drawn i st)) = ic_steps st"
  "ic_order (snd (given_or_drawn i st)) = ic_order st" "ic_tasks (snd (given_or_drawn i st)) = ic_tasks st"
  by (simp_all add: given_or_drawn_def draw_closeout_id_def split: option.split)

section \<open>Changes that leave the lifecycle alone\<close>

definition quiet :: "closeout \<Rightarrow> closeout \<Rightarrow> bool" where
  "quiet c d \<longleftrightarrow> co_id d = co_id c \<and> co_state d = co_state c \<and> co_display d = co_display c \<and> co_severity d = co_severity c \<and>
     co_tenant d = co_tenant c \<and> co_correlation d = co_correlation c \<and> co_flag d = co_flag c \<and> co_flag_ever d = co_flag_ever c \<and>
     co_incident d = co_incident c \<and> co_source d = co_source c \<and> co_warning d = co_warning c \<and> co_digest d = co_digest c"

lemma quiet_refl [simp]: "quiet c c" by (simp add: quiet_def)
lemma quiet_trans: "quiet c d \<Longrightarrow> quiet d e \<Longrightarrow> quiet c e" by (simp add: quiet_def)

text \<open>A quiet change of the store: no closeout leaves its state, steps stay, tasks move by steps of the task service.\<close>

definition quiet_store :: "(string \<Rightarrow> string) \<Rightarrow> closeout_store \<Rightarrow> closeout_store \<Rightarrow> bool" where
  "quiet_store sha st st' \<longleftrightarrow> (\<forall>k. rel_option quiet (closeout_at k st) (closeout_at k st')) \<and> ic_steps st' = ic_steps st \<and>
     ic_order st' = ic_order st \<and> (task_step sha)\<^sup>*\<^sup>* (ic_tasks st) (ic_tasks st')"

lemma rel_option_quiet [simp]: "rel_option quiet x x" by (rule option.rel_refl) simp

lemma rel_option_quiet_trans: "rel_option quiet x y \<Longrightarrow> rel_option quiet y z \<Longrightarrow> rel_option quiet x z"
  by (cases x; cases y; cases z) (auto intro: quiet_trans)

lemma quiet_store_refl [simp]: "quiet_store sha st st" by (simp add: quiet_store_def)

lemma quiet_store_trans: "quiet_store sha a b \<Longrightarrow> quiet_store sha b c \<Longrightarrow> quiet_store sha a c"
  unfolding quiet_store_def using rel_option_quiet_trans rtranclp_trans by (metis (no_types, lifting))

lemma quiet_put:
  assumes "closeout_at (co_id c) st = Some c" and "quiet c d"
  shows "quiet_store sha st (put_closeout d st)"
  using assms by (auto simp: quiet_store_def closeout_at_put quiet_def)

lemma quiet_same:
  assumes "\<And>k. closeout_at k st' = closeout_at k st" and "ic_steps st' = ic_steps st" and "ic_order st' = ic_order st"
    and "ic_tasks st' = ic_tasks st"
  shows "quiet_store sha st st'"
  using assms by (simp add: quiet_store_def)

definition keyed :: "closeout_store \<Rightarrow> bool" where
  "keyed st \<longleftrightarrow> (\<forall>k c. closeout_at k st = Some c \<longrightarrow> co_id c = k) \<and> (\<forall>k s. ic_steps st k = Some s \<longrightarrow> rs_id s = k)"

lemma keyed_put: "keyed st \<Longrightarrow> keyed (put_closeout c st)"
  by (auto simp: keyed_def closeout_at_put)

lemma quiet_keyed: "quiet_store sha st st' \<Longrightarrow> keyed st \<Longrightarrow> keyed st'"
  unfolding keyed_def quiet_store_def by (metis (no_types, lifting) option_rel_Some2 quiet_def)

lemma complete_task_step: "task_step sha st (snd (complete_task sha now actor tid p st))"
  by (simp add: complete_task_def step_transition)

lemma dismiss_task_step: "task_step sha st (snd (dismiss_task sha now actor tid p st))"
  by (simp add: dismiss_task_def step_transition)

lemma quiet_materialize:
  assumes "closeout_at (co_id c) st = Some c"
  shows "quiet_store sha st (materialize_followup sha now c st)"
  using assms by (auto simp: materialize_followup_def quiet_store_def closeout_at_put quiet_def case_prod_beta step_intake)

lemma quiet_resolve:
  assumes "closeout_at (co_id c) st = Some c"
  shows "quiet_store sha st (resolve_followup sha now actor evidence c st)"
  using assms r_into_rtranclp [of "task_step sha", OF complete_task_step]
  by (auto simp del: split_paired_All split_paired_Ex simp: resolve_followup_def quiet_store_def closeout_at_put quiet_def case_prod_beta split: option.split)

lemma resolve_owed:
  "closeout_at (co_id c) (resolve_followup sha now actor evidence c st) = Some d \<Longrightarrow> \<not> co_owed d"
  by (auto simp: resolve_followup_def closeout_at_put case_prod_beta split: option.splits if_splits)

lemma quiet_with:
  assumes "keyed st" and "\<And>c. closeout_at (co_id c) st = Some c \<Longrightarrow> quiet_store sha st (f c st)"
  shows "quiet_store sha st (with_closeout cid f st)"
proof (cases "closeout_at cid st")
  case (Some c)
  then have "co_id c = cid" using assms(1) by (simp add: keyed_def)
  then show ?thesis using assms(2) [of c] Some by (simp add: with_closeout_def)
qed (simp add: with_closeout_def)

section \<open>Entering a state\<close>

lemma set_closeout_state_fields [simp]:
  "co_id (set_closeout_state now target reason c) = co_id c" "co_state (set_closeout_state now target reason c) = target"
  "co_owed (set_closeout_state now target reason c) = co_owed c" "co_flag (set_closeout_state now target reason c) = co_flag c"
  "co_flag_ever (set_closeout_state now target reason c) = co_flag_ever c"
  "co_source (set_closeout_state now target reason c) = co_source c" "co_warning (set_closeout_state now target reason c) = co_warning c"
  "co_tenant (set_closeout_state now target reason c) = co_tenant c"
  "co_correlation (set_closeout_state now target reason c) = co_correlation c"
  "co_incident (set_closeout_state now target reason c) = co_incident c" "co_digest (set_closeout_state now target reason c) = co_digest c"
  "co_display (set_closeout_state now target reason c) = compute_closeout_display target (co_source c) (co_warning c)"
  by (simp_all add: set_closeout_state_def)

lemma quiet_resolve_with:
  assumes "keyed st"
  shows "quiet_store sha st (with_closeout cid (\<lambda>d s. if P d then resolve_followup sha now actor evidence d s else s) st)"
  by (rule quiet_with [OF assms]) (simp add: quiet_resolve)

lemma quiet_materialize_with:
  assumes "keyed st"
  shows "quiet_store sha st (with_closeout cid (\<lambda>d s. if P d then materialize_followup sha now d s else s) st)"
  by (rule quiet_with [OF assms]) (simp add: quiet_materialize)

text \<open>What entering a state does before a terminal state leaves the deduplication window.\<close>

definition entered :: "(string \<Rightarrow> string) \<Rightarrow> nat \<Rightarrow> operator \<Rightarrow> closeout_state \<Rightarrow> string option \<Rightarrow> closeout \<Rightarrow> closeout_store \<Rightarrow> closeout_store" where
  "entered sha now actor target reason c st =
     with_closeout (co_id c) (\<lambda>d s. if target = Closeout_Closed \<and> co_owed d
         then resolve_followup sha now actor ''closeout closed'' d s else s)
       (with_closeout (co_id c) (\<lambda>d s. if target = Awaiting_Closeout \<and> co_owed d
           then resolve_followup sha now actor ''closeout advanced to awaiting_closeout'' d s else s)
         (with_closeout (co_id c) (\<lambda>d s. if target = Flagged_Active \<and> \<not> co_owed d \<and> co_flag d = Observed_True
             then materialize_followup sha now d s else s)
           (put_closeout (set_closeout_state now target reason c) st)))"

definition released :: "closeout \<Rightarrow> closeout_store \<Rightarrow> closeout_store" where
  "released c st = st\<lparr>ic_active := (ic_active st)(co_digest c := None)\<rparr>"

lemma enter_eq:
  "enter_closeout_state sha now actor target reason c st =
     (if target \<notin> set terminal_closeouts then entered sha now actor target reason c st
      else with_closeout (co_id c) (\<lambda>d s. if co_owed d then resolve_followup sha now actor ''closeout terminal'' d s else s)
             (released c (entered sha now actor target reason c st)))"
  unfolding enter_closeout_state_def entered_def released_def Let_def by (rule refl)

lemma entered_quiet:
  assumes "keyed st" and "closeout_at (co_id c) st = Some c"
  shows "quiet_store sha (put_closeout (set_closeout_state now target reason c) st) (entered sha now actor target reason c st)"
    and "keyed (entered sha now actor target reason c st)"
proof -
  have k1: "keyed (put_closeout (set_closeout_state now target reason c) st)"
    by (rule keyed_put [OF assms(1)])
  note q2 = quiet_materialize_with [OF k1]
  note k2 = quiet_keyed [OF q2 k1]
  note q3 = quiet_resolve_with [OF k2]
  note k3 = quiet_keyed [OF q3 k2]
  note q4 = quiet_resolve_with [OF k3]
  show "quiet_store sha (put_closeout (set_closeout_state now target reason c) st) (entered sha now actor target reason c st)"
    unfolding entered_def by (rule quiet_store_trans [OF q2 quiet_store_trans [OF q3 q4]])
  show "keyed (entered sha now actor target reason c st)"
    unfolding entered_def by (rule quiet_keyed [OF q4 k3])
qed

lemma released_quiet: "quiet_store sha st (released c st)"
  by (rule quiet_same) (simp_all add: released_def)

lemma enter_quiet:
  assumes "keyed st" and "closeout_at (co_id c) st = Some c"
  shows "quiet_store sha (put_closeout (set_closeout_state now target reason c) st) (enter_closeout_state sha now actor target reason c st)"
proof (cases "target \<in> set terminal_closeouts")
  case True
  note q = quiet_store_trans [OF entered_quiet(1) [OF assms] released_quiet]
  have "keyed (released c (entered sha now actor target reason c st))"
    by (rule quiet_keyed [OF released_quiet entered_quiet(2) [OF assms]])
  then show ?thesis unfolding enter_eq using True quiet_store_trans [OF q quiet_resolve_with] by simp
qed (simp add: enter_eq entered_quiet(1) [OF assms])

text \<open>A closeout that enters a terminal state owes no follow-up.\<close>

lemma resolved_with:
  assumes "keyed st" and "closeout_at cid (with_closeout cid (\<lambda>d s. if co_owed d then resolve_followup sha now actor ev d s else s) st) = Some e"
  shows "\<not> co_owed e"
proof (cases "closeout_at cid st")
  case (Some d)
  then have "co_id d = cid" using assms(1) by (simp add: keyed_def)
  then show ?thesis using assms(2) Some resolve_owed [of d] by (auto simp: with_closeout_def split: if_splits)
qed (use assms(2) in \<open>simp add: with_closeout_def\<close>)

lemma enter_terminal_owes_nothing:
  assumes "keyed st" and "closeout_at (co_id c) st = Some c" and target: "target \<in> set terminal_closeouts"
    and d: "closeout_at (co_id c) (enter_closeout_state sha now actor target reason c st) = Some d"
  shows "\<not> co_owed d"
proof -
  have "keyed (released c (entered sha now actor target reason c st))"
    by (rule quiet_keyed [OF released_quiet entered_quiet(2) [OF assms(1,2)]])
  moreover have "closeout_at (co_id c) (with_closeout (co_id c) (\<lambda>d s. if co_owed d
      then resolve_followup sha now actor ''closeout terminal'' d s else s) (released c (entered sha now actor target reason c st))) = Some d"
    using d target unfolding enter_eq by simp
  ultimately show ?thesis by (rule resolved_with)
qed

section \<open>What a request does to the closeouts\<close>

definition same_incident :: "closeout \<Rightarrow> closeout \<Rightarrow> bool" where
  "same_incident c d \<longleftrightarrow> co_id d = co_id c \<and> co_tenant d = co_tenant c \<and> co_correlation d = co_correlation c \<and>
     co_incident d = co_incident c \<and> co_digest d = co_digest c \<and> co_severity d = co_severity c \<and> co_source d = co_source c \<and>
     co_warning d = co_warning c \<and> (co_flag_ever c \<longrightarrow> co_flag_ever d)"

definition gentle :: "closeout \<Rightarrow> closeout \<Rightarrow> bool" where
  "gentle c d \<longleftrightarrow> same_incident c d \<and> co_state d = co_state c"

definition lives :: "closeout \<Rightarrow> closeout \<Rightarrow> bool" where
  "lives c d \<longleftrightarrow> same_incident c d \<and> (co_state d = co_state c \<or> co_state d \<in> set (allowed_closeout (co_state c)))"

lemma gentle_refl [simp]: "gentle c c" by (simp add: gentle_def same_incident_def)
lemma quiet_gentle: "quiet c d \<Longrightarrow> gentle c d" by (simp add: quiet_def gentle_def same_incident_def)
lemma gentle_lives: "gentle c d \<Longrightarrow> lives c d" by (simp add: gentle_def lives_def)
lemma gentle_trans: "gentle c d \<Longrightarrow> gentle d e \<Longrightarrow> gentle c e" by (simp add: gentle_def same_incident_def)
lemma lives_gentle: "lives c d \<Longrightarrow> gentle d e \<Longrightarrow> lives c e" by (auto simp: lives_def gentle_def same_incident_def)
lemma gentle_lives_trans: "gentle c d \<Longrightarrow> lives d e \<Longrightarrow> lives c e" by (auto simp: lives_def gentle_def same_incident_def)

text \<open>Store changes: calm when no state changes, and following when each closeout takes at most one edge.\<close>

definition tasks_move :: "(string \<Rightarrow> string) \<Rightarrow> closeout_store \<Rightarrow> closeout_store \<Rightarrow> bool" where
  "tasks_move sha st st' \<longleftrightarrow> (task_step sha)\<^sup>*\<^sup>* (ic_tasks st) (ic_tasks st') \<and> (keyed st \<longrightarrow> keyed st')"

definition calm :: "(string \<Rightarrow> string) \<Rightarrow> closeout_store \<Rightarrow> closeout_store \<Rightarrow> bool" where
  "calm sha st st' \<longleftrightarrow> (\<forall>k. rel_option gentle (closeout_at k st) (closeout_at k st')) \<and> tasks_move sha st st'"

definition follows :: "(string \<Rightarrow> string) \<Rightarrow> closeout_store \<Rightarrow> closeout_store \<Rightarrow> bool" where
  "follows sha st st' \<longleftrightarrow> (\<forall>k. rel_option lives (closeout_at k st) (closeout_at k st')) \<and> tasks_move sha st st'"

text \<open>No closeout is newly closed.\<close>

definition tame :: "closeout_store \<Rightarrow> closeout_store \<Rightarrow> bool" where
  "tame st st' \<longleftrightarrow> (\<forall>k d. closeout_at k st' = Some d \<longrightarrow> co_state d = Closeout_Closed \<longrightarrow>
     (\<exists>c. closeout_at k st = Some c \<and> co_state c = Closeout_Closed))"

lemma tasks_move_refl [simp]: "tasks_move sha st st" by (simp add: tasks_move_def)

lemma tasks_move_trans: "tasks_move sha a b \<Longrightarrow> tasks_move sha b c \<Longrightarrow> tasks_move sha a c"
  unfolding tasks_move_def using rtranclp_trans by fast

lemma rel_option_gentle [simp]: "rel_option gentle x x" by (rule option.rel_refl) simp

lemma calm_refl [simp]: "calm sha st st" by (simp add: calm_def)

lemma option_trans:
  "rel_option gentle x y \<Longrightarrow> rel_option gentle y z \<Longrightarrow> rel_option gentle x z"
  "rel_option gentle x y \<Longrightarrow> rel_option lives y z \<Longrightarrow> rel_option lives x z"
  "rel_option lives x y \<Longrightarrow> rel_option gentle y z \<Longrightarrow> rel_option lives x z"
  by (cases x; cases y; cases z; auto intro: gentle_trans gentle_lives_trans lives_gentle)+

lemma calm_trans: "calm sha a b \<Longrightarrow> calm sha b c \<Longrightarrow> calm sha a c"
  unfolding calm_def using tasks_move_trans option_trans(1) by metis

lemma calm_follows: "calm sha a b \<Longrightarrow> follows sha b c \<Longrightarrow> follows sha a c"
  unfolding calm_def follows_def using tasks_move_trans option_trans(2) by metis

lemma follows_calm: "follows sha a b \<Longrightarrow> calm sha b c \<Longrightarrow> follows sha a c"
  unfolding calm_def follows_def using tasks_move_trans option_trans(3) by metis

lemma calm_is_following: "calm sha a b \<Longrightarrow> follows sha a b"
  unfolding calm_def follows_def using option.rel_mono_strong [of gentle _ _ lives] gentle_lives by blast

lemma keyed_put_step: "keyed st \<Longrightarrow> keyed (put_step s st)"
  by (auto simp: keyed_def)

lemma quiet_store_calm: "quiet_store sha a b \<Longrightarrow> calm sha a b"
  unfolding quiet_store_def calm_def tasks_move_def
  using option.rel_mono_strong [of quiet _ _ gentle] quiet_gentle quiet_keyed [unfolded quiet_store_def] by blast

lemma calm_tame: "calm sha a b \<Longrightarrow> tame a b"
proof -
  assume calm: "calm sha a b"
  show ?thesis
    unfolding tame_def
  proof (intro allI impI)
    fix k d assume "closeout_at k b = Some d" "co_state d = Closeout_Closed"
    then show "\<exists>c. closeout_at k a = Some c \<and> co_state c = Closeout_Closed"
      using calm [unfolded calm_def, THEN conjunct1, THEN spec, of k] by (auto simp: option_rel_Some2 gentle_def)
  qed
qed

lemma tame_trans: "tame a b \<Longrightarrow> tame b c \<Longrightarrow> tame a c"
  unfolding tame_def by blast

lemma calm_put:
  assumes "closeout_at (co_id c) st = Some c" and "gentle c d"
  shows "calm sha st (put_closeout d st)"
  using assms by (auto simp: calm_def tasks_move_def closeout_at_put keyed_put gentle_def same_incident_def)

lemma calm_same:
  assumes "\<And>k. closeout_at k st' = closeout_at k st" and "ic_steps st' = ic_steps st" and "ic_tasks st' = ic_tasks st"
  shows "calm sha st st'"
  using assms by (simp add: calm_def tasks_move_def keyed_def)

lemma calm_put_step: "calm sha st (put_step s st)"
  by (simp add: calm_def tasks_move_def keyed_put_step)

lemma transition_denied_same: "transition_closeout sha now actor c target reason st = (Some d, st') \<Longrightarrow> st' = st"
  by (simp add: transition_closeout_def split: option.splits)

lemma closeout_refusal_allowed: "closeout_refusal c target st = None \<Longrightarrow> target \<in> set (allowed_closeout (co_state c))"
  by (simp add: closeout_refusal_def split: if_splits)

lemma set_state_lives:
  "target \<in> set (allowed_closeout (co_state c)) \<Longrightarrow> lives c (set_closeout_state now target reason c)"
  by (simp add: lives_def same_incident_def) (simp add: set_closeout_state_def)

lemma transition_follows:
  assumes keyed: "keyed st" and c: "closeout_at (co_id c) st = Some c"
  shows "follows sha st (snd (transition_closeout sha now actor c target reason st))"
    and "target \<noteq> Closeout_Closed \<Longrightarrow> tame st (snd (transition_closeout sha now actor c target reason st))"
proof -
  have "follows sha st (snd (transition_closeout sha now actor c target reason st)) \<and>
    (target \<noteq> Closeout_Closed \<longrightarrow> tame st (snd (transition_closeout sha now actor c target reason st)))"
  proof (cases "closeout_refusal c target st")
    case None
    let ?s = "put_closeout (set_closeout_state now target reason c) st"
    have calm: "calm sha ?s (enter_closeout_state sha now actor target reason c st)"
      by (rule quiet_store_calm [OF enter_quiet [OF keyed c]])
    have "rel_option lives (closeout_at k st) (closeout_at k ?s)" for k
      using set_state_lives [OF closeout_refusal_allowed [OF None]] c gentle_lives [OF gentle_refl]
      by (auto simp: closeout_at_put intro: option.rel_refl)
    then have "follows sha st ?s" by (simp add: follows_def tasks_move_def keyed_put)
    moreover have "target \<noteq> Closeout_Closed \<Longrightarrow> tame st ?s" by (auto simp: tame_def closeout_at_put)
    ultimately show ?thesis
      using follows_calm [OF _ calm] tame_trans [OF _ calm_tame [OF calm]] None by (auto simp: transition_closeout_def)
  qed (auto simp: transition_closeout_def calm_is_following tame_def)
  then show "follows sha st (snd (transition_closeout sha now actor c target reason st))"
    and "target \<noteq> Closeout_Closed \<Longrightarrow> tame st (snd (transition_closeout sha now actor c target reason st))" by blast+
qed

section \<open>The operations\<close>

text \<open>A request about one closeout: at most one edge of one lifecycle, and no closing.\<close>

definition orderly :: "(string \<Rightarrow> string) \<Rightarrow> closeout_store \<Rightarrow> closeout_store \<Rightarrow> bool" where
  "orderly sha st st' \<longleftrightarrow> follows sha st st' \<and> tame st st'"

lemma calm_orderly: "calm sha a b \<Longrightarrow> orderly sha a b"
  by (simp add: orderly_def calm_is_following calm_tame)

lemma orderly_calm: "orderly sha a b \<Longrightarrow> calm sha b c \<Longrightarrow> orderly sha a c"
  unfolding orderly_def using follows_calm calm_tame tame_trans by blast

lemma calm_orderly_trans: "calm sha a b \<Longrightarrow> orderly sha b c \<Longrightarrow> orderly sha a c"
  unfolding orderly_def using calm_follows calm_tame tame_trans by blast

lemma transition_orderly:
  assumes "keyed st" and "closeout_at (co_id c) st = Some c" and "target \<noteq> Closeout_Closed"
  shows "orderly sha st (snd (transition_closeout sha now actor c target reason st))"
  using transition_follows [OF assms(1,2)] assms(3) by (simp add: orderly_def)

lemma audit_calm: "calm sha st (audit_closeout now actor cid l p r d st)"
  by (rule calm_same) simp_all

lemma emit_calm: "calm sha st (emit_closeout_audit now actor c l p n r d st)"
  by (rule calm_same) simp_all

lemma emit_step_calm: "calm sha st (emit_step_audit now actor s l p n e st)"
  by (rule calm_same) simp_all

lemma tasks_calm: "(task_step sha)\<^sup>*\<^sup>* (ic_tasks st) tasks \<Longrightarrow> calm sha st (st\<lparr>ic_tasks := tasks\<rparr>)"
  by (simp add: calm_def tasks_move_def keyed_def)

lemma materialize_step_calm: "calm sha st (materialize_step_task sha now sev s st)"
proof -
  have "calm sha st (st\<lparr>ic_tasks := snd (upsert_task sha now (step_event s sev) (ic_tasks st))\<rparr>)"
    by (rule tasks_calm [OF r_into_rtranclp]) (rule step_intake)
  then show ?thesis using calm_put_step calm_trans by (auto simp: materialize_step_task_def case_prod_beta)
qed

lemma resolve_step_calm: "calm sha st (resolve_step_task sha now actor evidence dismissing s st)"
proof (cases "rs_task s")
  case (Some tid)
  have "calm sha st (st\<lparr>ic_tasks := snd (dismiss_task sha now actor tid p (ic_tasks st))\<rparr>)"
    "calm sha st (st\<lparr>ic_tasks := snd (complete_task sha now actor tid p (ic_tasks st))\<rparr>)" for p
    by (rule tasks_calm [OF r_into_rtranclp], rule dismiss_task_step complete_task_step)+
  then show ?thesis using calm_trans [OF _ calm_put_step] by (auto simp: resolve_step_task_def Some case_prod_beta Let_def)
qed (simp add: resolve_step_task_def)

lemma transition_step_calm: "calm sha st (snd (transition_step sha now actor s target evidence reason sev st))"
proof (cases "step_refusal s target evidence")
  case None
  let ?s1 = "put_step (moved_step sha now target evidence reason s) st"
  have released: "calm sha ?s1 (?s1\<lparr>ic_step_active := m\<rparr>)" for m by (rule calm_same) simp_all
  show ?thesis
    using calm_trans [OF calm_put_step materialize_step_calm] calm_trans [OF calm_put_step calm_trans [OF released resolve_step_calm]]
    by (simp add: transition_step_def None Let_def)
qed (simp add: transition_step_def)

lemma apply_step_calm: "calm sha st (snd (apply_step_transition sha now actor cid sid target evidence reason st))"
proof (cases "ic_steps st sid")
  case (Some s)
  show ?thesis
  proof (cases "rs_closeout s = cid")
    case True
    define sev where "sev = (case closeout_at cid st of None \<Rightarrow> Medium | Some c \<Rightarrow> co_severity c)"
    obtain denial st1 where t: "transition_step sha now actor s target evidence reason sev st = (denial, st1)"
      by (cases "transition_step sha now actor s target evidence reason sev st")
    have "calm sha st st1" using transition_step_calm [of sha st now actor s target evidence reason sev] t by simp
    then show ?thesis
      using Some True t calm_trans [OF _ emit_step_calm] by (auto simp: apply_step_transition_def Let_def sev_def [symmetric] split: option.split)
  qed (use Some in \<open>simp add: apply_step_transition_def\<close>)
qed (simp add: apply_step_transition_def)

lemma denied_intake_calm: "calm sha st (snd (denied_intake now actor c action denial reason st))"
  by (simp add: denied_intake_def Let_def emit_calm)

lemma apply_closeout_follows:
  assumes "keyed st"
  shows "follows sha st (snd (apply_closeout_transition sha now actor cid target reason st))"
    and "target \<noteq> Closeout_Closed \<Longrightarrow> orderly sha st (snd (apply_closeout_transition sha now actor cid target reason st))"
proof -
  have "follows sha st (snd (apply_closeout_transition sha now actor cid target reason st)) \<and>
    (target \<noteq> Closeout_Closed \<longrightarrow> orderly sha st (snd (apply_closeout_transition sha now actor cid target reason st)))"
  proof (cases "closeout_at cid st")
    case (Some c)
    have at: "closeout_at (co_id c) st = Some c" using assms Some by (simp add: keyed_def)
    show ?thesis
      using follows_calm [OF transition_follows(1) [OF assms at] audit_calm] orderly_calm [OF transition_orderly [OF assms at] audit_calm]
      by (simp add: apply_closeout_transition_def Some Let_def case_prod_beta)
  qed (simp add: apply_closeout_transition_def calm_orderly calm_is_following)
  then show "follows sha st (snd (apply_closeout_transition sha now actor cid target reason st))"
    and "target \<noteq> Closeout_Closed \<Longrightarrow> orderly sha st (snd (apply_closeout_transition sha now actor cid target reason st))" by blast+
qed

lemma classified_orderly:
  assumes keyed: "keyed st" and c: "closeout_at (co_id c) st = Some c"
  shows "orderly sha st (snd (ingest_classified sha now actor c e st))"
proof -
  let ?c = "c\<lparr>co_class := (if ce_class e \<noteq> None then ce_class e else co_class c)\<rparr>"
  let ?s = "put_closeout ?c st"
  have put: "calm sha st ?s" by (rule calm_put [OF c]) (simp add: gentle_def same_incident_def)
  have "closeout_at (co_id ?c) ?s = Some ?c" by (simp add: closeout_at_put)
  then have "orderly sha ?s (snd (transition_closeout sha now actor ?c Triaged (ce_reason e) ?s))"
    by (intro transition_orderly) (simp_all add: keyed_put [OF keyed])
  then have "orderly sha st (audit_closeout now actor (co_id c) l p r d (snd (transition_closeout sha now actor ?c Triaged (ce_reason e) ?s)))"
    for l p r d using calm_orderly_trans [OF put orderly_calm [OF _ audit_calm]] by blast
  then show ?thesis by (simp add: ingest_classified_def Let_def case_prod_beta)
qed

lemma flag_orderly:
  assumes keyed: "keyed st" and c: "closeout_at (co_id c) st = Some c"
  shows "orderly sha st (snd (ingest_flag_observed sha now actor c e st))"
proof -
  define c1 where "c1 = (case ce_flag e of None \<Rightarrow> c | Some f \<Rightarrow> c\<lparr>co_flag := f, co_flag_ever := (co_flag_ever c \<or> f = Observed_True)\<rparr>)"
  have c1: "co_id c1 = co_id c" "gentle c c1" by (simp_all add: c1_def gentle_def same_incident_def split: option.split)
  define r where "r = (case flag_target c1 of
               None \<Rightarrow> (None, ''mirrored:flag_observed'', put_closeout (c1\<lparr>co_updated := now\<rparr>) st)
             | Some target \<Rightarrow>
                 (case transition_closeout sha now actor c1 target (ce_reason e) (put_closeout c1 st) of (denial, s) \<Rightarrow>
                   (denial, if denial = None then closeout_label (co_state c) target else ''denied:intake:flag_observed'', s)))"
  obtain denial l st1 where r1: "r = (denial, l, st1)" by (cases r)
  have moved: "orderly sha st st1"
  proof (cases "flag_target c1")
    case None
    have "calm sha st (put_closeout (c1\<lparr>co_updated := now\<rparr>) st)"
      by (rule calm_put [OF c]) (use c1(2) in \<open>simp add: gentle_def same_incident_def\<close>)
    then show ?thesis using r1 by (simp add: r_def None calm_orderly)
  next
    case (Some target)
    let ?s = "put_closeout c1 st"
    have "target \<noteq> Closeout_Closed" using Some by (auto simp: flag_target_def split: if_splits)
    then have "orderly sha ?s (snd (transition_closeout sha now actor c1 target (ce_reason e) ?s))"
      by (intro transition_orderly) (simp_all add: keyed_put [OF keyed] closeout_at_put)
    moreover have "st1 = snd (transition_closeout sha now actor c1 target (ce_reason e) ?s)"
      using r1 by (simp add: r_def Some case_prod_beta)
    ultimately show ?thesis using calm_orderly_trans [OF calm_put [OF c c1(2)]] by simp
  qed
  define st2 where "st2 = (if given_text (ce_reason e) \<noteq> None
      then with_closeout (co_id c) (\<lambda>d s. put_closeout (d\<lparr>co_reason := redact_optional (ce_reason e)\<rparr>) s) st1 else st1)"
  have keyed1: "keyed st1" using moved keyed by (simp add: orderly_def follows_def tasks_move_def)
  have "quiet_store sha st1 (with_closeout (co_id c) (\<lambda>d s. put_closeout (d\<lparr>co_reason := redact_optional (ce_reason e)\<rparr>) s) st1)"
    by (rule quiet_with [OF keyed1], rule quiet_put) (simp_all add: quiet_def)
  then have "calm sha st1 st2" by (simp add: st2_def quiet_store_calm)
  then have "orderly sha st (audit_closeout now actor (co_id c) l (co_state c) (ce_reason e) denial st2)"
    using orderly_calm [OF moved] calm_trans [OF _ audit_calm] by blast
  moreover have "snd (ingest_flag_observed sha now actor c e st) = audit_closeout now actor (co_id c) l (co_state c) (ce_reason e) denial st2"
    using r1 unfolding ingest_flag_observed_def Let_def c1_def [symmetric] r_def [symmetric] by (simp add: st2_def)
  ultimately show ?thesis by simp
qed

lemma remediation_orderly:
  assumes "keyed st" and "closeout_at (co_id c) st = Some c"
  shows "orderly sha st (maybe_enter_remediation sha now actor c st)"
proof (cases "co_state c \<in> {Triaged, Flagged_Active}")
  case True
  obtain d st1 where t: "transition_closeout sha now actor c In_Remediation None st = (d, st1)"
    by (cases "transition_closeout sha now actor c In_Remediation None st")
  have "orderly sha st st1" using transition_orderly [OF assms, of In_Remediation sha now actor None] t by simp
  then show ?thesis using True t orderly_calm [OF _ audit_calm] by (auto simp: maybe_enter_remediation_def split: option.split)
qed (simp add: maybe_enter_remediation_def calm_orderly)

lemma step_owed_orderly:
  assumes keyed: "keyed st" and c: "closeout_at (co_id c) st = Some c"
  shows "orderly sha st (snd (ingest_step_owed sha now actor c e st))"
proof -
  define kind where "kind = (case ce_kind e of None \<Rightarrow> Observation | Some k \<Rightarrow> k)"
  define seq where "seq = (case ce_seq e of None \<Rightarrow> int (length (order_of (co_id c) st)) + 1 | Some n \<Rightarrow> n)"
  define digest where "digest = sha (step_key (co_id c) seq kind (ce_tenant e))"
  note run = ingest_step_owed_def Let_def kind_def [symmetric] seq_def [symmetric] digest_def [symmetric]
  show ?thesis
  proof (cases "Option.bind (ic_step_active st digest) (ic_steps st)")
    case (Some s)
    then show ?thesis
      using calm_orderly [OF calm_trans [OF calm_put_step emit_step_calm]] by (simp add: run)
  next
    case None
    obtain sid st0 where g: "given_or_drawn (ce_step e) st = (sid, st0)" by (cases "given_or_drawn (ce_step e) st")
    have same: "closeout_at k st0 = closeout_at k st" "ic_steps st0 = ic_steps st" "ic_tasks st0 = ic_tasks st" for k
    proof -
      have "st0 = snd (given_or_drawn (ce_step e) st)" using g by simp
      then show "closeout_at k st0 = closeout_at k st" "ic_steps st0 = ic_steps st" "ic_tasks st0 = ic_tasks st" by simp_all
    qed
    define s where "s = new_step now c e kind seq digest sid"
    define st1 where "st1 = put_step s st0\<lparr>ic_order := (ic_order st0)(co_id c \<mapsto> order_of (co_id c) st0 @ [sid]),
                          ic_step_active := (ic_step_active st0)(digest \<mapsto> sid), ic_step_seq := (ic_step_seq st0)(sid \<mapsto> 0)\<rparr>"
    have "calm sha st st0" by (rule calm_same) (simp_all add: same)
    moreover have "calm sha (put_step s st0) st1" by (rule calm_same) (simp_all add: st1_def)
    ultimately have first: "calm sha st st1" using calm_put_step calm_trans by blast
    have keyed1: "keyed st1" using first keyed by (simp add: calm_def tasks_move_def)
    have c1: "closeout_at (co_id c) st1 = Some c" using c by (simp add: st1_def same)
    have later: "orderly sha st (materialize_step_task sha now (co_severity c) s (maybe_enter_remediation sha now actor c st1))"
      by (rule orderly_calm [OF calm_orderly_trans [OF first remediation_orderly [OF keyed1 c1]] materialize_step_calm])
    then show ?thesis
      using orderly_calm [OF later emit_step_calm] by (simp add: run None g flip: s_def st1_def split: option.split)
  qed
qed

lemma step_change_calm: "calm sha st (snd (ingest_step_change sha now actor c e st))"
  using calm_trans [OF calm_put_step apply_step_calm] denied_intake_calm
  by (auto simp: ingest_step_change_def Let_def case_prod_beta split: option.split)

lemma self_assign_calm:
  assumes keyed: "keyed st"
  shows "calm sha st (snd (self_assign_closeout now actor cid st))"
proof (cases "closeout_at cid st")
  case (Some c)
  have c: "closeout_at (co_id c) st = Some c" using keyed Some by (simp add: keyed_def)
  have "calm sha st (put_closeout (c\<lparr>co_owner := w, co_role := r, co_updated := now\<rparr>) st)" for w r
    by (rule calm_put [OF c]) (simp add: gentle_def same_incident_def)
  then show ?thesis using calm_trans [OF _ emit_calm] by (auto simp: self_assign_closeout_def Some Let_def emit_calm)
qed (simp add: self_assign_closeout_def)

section \<open>Requests\<close>

text \<open>A detection that opens a closeout under an identifier, which may already be in use.\<close>

definition opens_under :: "(string \<Rightarrow> string) \<Rightarrow> closeout_call \<Rightarrow> id_text \<Rightarrow> closeout_store \<Rightarrow> bool" where
  "opens_under sha call cid st \<longleftrightarrow>
     (case call of
        Closeout_Intake e \<Rightarrow> ce_type e = Incident_Detected \<and>
          Option.bind (ic_active st (sha (closeout_key (ce_correlation e) (ce_tenant e) (ce_incident e)))) (\<lambda>k. closeout_at k st) = None \<and>
          fst (given_or_drawn (ce_closeout e) st) = cid
      | _ \<Rightarrow> False)"

inductive closeout_step :: "(string \<Rightarrow> string) \<Rightarrow> closeout_store \<Rightarrow> closeout_store \<Rightarrow> bool" for sha where
  step_request: "closeout_step sha st (snd (closeout_call_route sha now token call st))"
| step_tasks: "task_step sha (ic_tasks st) tasks \<Longrightarrow> closeout_step sha st (st\<lparr>ic_tasks := tasks\<rparr>)"

lemma detected_cases:
  assumes keyed: "keyed st" and e: "ce_type e = Incident_Detected"
  obtains (replay) "calm sha st (snd (ingest_detected sha now actor e st))"
    | (created) cid c where "opens_under sha (Closeout_Intake e) cid st" "co_state c = Detected" "co_id c = cid"
      "\<And>k. closeout_at k (snd (ingest_detected sha now actor e st)) = (if k = cid then Some c else closeout_at k st)"
      "ic_steps (snd (ingest_detected sha now actor e st)) = ic_steps st"
      "ic_tasks (snd (ingest_detected sha now actor e st)) = ic_tasks st"
proof (cases "Option.bind (ic_active st (sha (closeout_key (ce_correlation e) (ce_tenant e) (ce_incident e)))) (\<lambda>k. closeout_at k st)")
  case (Some c)
  then have c: "closeout_at (co_id c) st = Some c" using keyed by (auto simp: keyed_def bind_eq_Some_conv)
  have "calm sha st (put_closeout (c\<lparr>co_updated := now, co_reason := r\<rparr>) st)" for r
    by (rule calm_put [OF c]) (simp add: gentle_def same_incident_def)
  then have "calm sha st (snd (ingest_detected sha now actor e st))"
    using calm_trans [OF _ emit_calm] by (simp add: ingest_detected_def Some Let_def)
  then show ?thesis by (rule replay)
next
  case None
  obtain cid st0 where g: "given_or_drawn (ce_closeout e) st = (cid, st0)" by (cases "given_or_drawn (ce_closeout e) st")
  have "st0 = snd (given_or_drawn (ce_closeout e) st)" using g by simp
  then have same: "closeout_at k st0 = closeout_at k st" "ic_steps st0 = ic_steps st" "ic_tasks st0 = ic_tasks st" for k by simp_all
  have new: "co_id (new_closeout sha now e cid st) = cid" "co_state (new_closeout sha now e cid st) = Detected"
    by (simp_all add: new_closeout_def Let_def)
  show ?thesis
    by (rule created [of cid "new_closeout sha now e cid st"])
      (simp_all add: opens_under_def None g e new ingest_detected_def Let_def closeout_at_put same)
qed

lemma detected_moves:
  assumes "keyed st" and "ce_type e = Incident_Detected"
  shows "tame st (snd (ingest_detected sha now actor e st))" and "tasks_move sha st (snd (ingest_detected sha now actor e st))"
proof -
  show "tame st (snd (ingest_detected sha now actor e st))"
    by (rule detected_cases [OF assms, of sha now actor], erule calm_tame) (auto simp: tame_def split: if_splits)
  show "tasks_move sha st (snd (ingest_detected sha now actor e st))"
  proof (rule detected_cases [OF assms, of sha now actor])
    show "tasks_move sha st (snd (ingest_detected sha now actor e st))" if "calm sha st (snd (ingest_detected sha now actor e st))"
      using that by (simp add: calm_def)
  next
    fix cid c
    assume new: "co_id c = cid" "\<And>k. closeout_at k (snd (ingest_detected sha now actor e st)) = (if k = cid then Some c else closeout_at k st)"
      "ic_steps (snd (ingest_detected sha now actor e st)) = ic_steps st" "ic_tasks (snd (ingest_detected sha now actor e st)) = ic_tasks st"
    have "keyed (snd (ingest_detected sha now actor e st))"
      unfolding keyed_def new(2,3) using assms(1) new(1) by (simp add: keyed_def)
    then show "tasks_move sha st (snd (ingest_detected sha now actor e st))" by (simp add: tasks_move_def new(4))
  qed
qed

text \<open>The judgment a request carries, if any.\<close>

definition judged_target :: "closeout_call \<Rightarrow> (id_text \<times> closeout_state) option" where
  "judged_target call =
     (case call of
        Closeout_Judgment cid target reason \<Rightarrow> Some (cid, target)
      | Closeout_Intake e \<Rightarrow> (if ce_type e = Closeout_Transition then
            (case (given_id (ce_closeout e), ce_target e) of (Some cid, Some target) \<Rightarrow> Some (cid, target) | _ \<Rightarrow> None) else None)
      | _ \<Rightarrow> None)"

lemma request_cases:
  assumes keyed: "keyed st"
  obtains (detecting) e where "call = Closeout_Intake e" "ce_type e = Incident_Detected"
      "snd (closeout_call_route sha now token call st) = snd (ingest_detected sha now (actor_context_and_role token) e st)"
    | (judged) cid reason where "judged_target call = Some (cid, Closeout_Closed)"
      "snd (closeout_call_route sha now token call st) = snd (apply_closeout_transition sha now (actor_context_and_role token) cid Closeout_Closed reason st)"
    | (other) "orderly sha st (snd (closeout_call_route sha now token call st))" "\<And>cid. \<not> opens_under sha call cid st"
proof (cases call)
  case (Closeout_Intake e)
  let ?actor = "actor_context_and_role token"
  have run: "snd (closeout_call_route sha now token call st) = snd (ingest_event sha now ?actor e st)"
    by (simp add: Closeout_Intake case_prod_beta)
  show ?thesis
  proof (cases "ce_type e = Incident_Detected")
    case True
    show ?thesis by (rule detecting [OF Closeout_Intake True]) (simp add: run ingest_event_def True)
  next
    case False
    then have closed: "\<not> opens_under sha call cid st" for cid by (simp add: opens_under_def Closeout_Intake)
    show ?thesis
    proof (cases "Option.bind (given_id (ce_closeout e)) (\<lambda>cid. closeout_at cid st)")
      case None
      show ?thesis by (rule other [OF _ closed]) (simp add: run ingest_event_def False None calm_orderly)
    next
      case (Some c)
      then obtain cid where cid: "given_id (ce_closeout e) = Some cid" "closeout_at cid st = Some c" by (auto simp: bind_eq_Some_conv)
      have id: "co_id c = cid" using keyed cid by (simp add: keyed_def)
      then have c: "closeout_at (co_id c) st = Some c" using cid by simp
      note go = run ingest_event_def Some
      show ?thesis
      proof (cases "ce_type e")
        case Incident_Detected
        then show ?thesis using False by simp
      next
        case Incident_Classified
        show ?thesis by (rule other [OF _ closed]) (simp add: go Incident_Classified classified_orderly [OF keyed c])
      next
        case Incident_Flag_Observed
        show ?thesis by (rule other [OF _ closed]) (simp add: go Incident_Flag_Observed flag_orderly [OF keyed c])
      next
        case Runbook_Step_Owed
        show ?thesis by (rule other [OF _ closed]) (simp add: go Runbook_Step_Owed step_owed_orderly [OF keyed c])
      next
        case Runbook_Step_Progress
        show ?thesis by (rule other [OF _ closed]) (simp add: go Runbook_Step_Progress calm_orderly step_change_calm)
      next
        case Runbook_Step_Terminal
        show ?thesis by (rule other [OF _ closed]) (simp add: go Runbook_Step_Terminal calm_orderly step_change_calm)
      next
        case Closeout_Transition
        show ?thesis
        proof (cases "ce_target e")
          case None
          show ?thesis
            by (rule other [OF _ closed]) (simp add: go Closeout_Transition ingest_transition_def None calm_orderly denied_intake_calm)
        next
          case (Some target)
          have exec: "snd (closeout_call_route sha now token call st) =
              snd (apply_closeout_transition sha now ?actor cid target (ce_reason e) st)"
            by (simp add: go Closeout_Transition ingest_transition_def Some id split: prod.split option.split)
          show ?thesis
          proof (cases "target = Closeout_Closed")
            case True
            show ?thesis
              by (rule judged [of cid "ce_reason e"]) (use exec True in \<open>simp_all add: judged_target_def Closeout_Intake Closeout_Transition cid Some\<close>)
          next
            case False
            show ?thesis by (rule other [OF _ closed]) (use exec apply_closeout_follows(2) [OF keyed False] in simp)
          qed
        qed
      qed
    qed
  qed
next
  case (Closeout_Self_Assign cid)
  have run: "snd (closeout_call_route sha now token call st) = snd (self_assign_closeout now (actor_context_and_role token) cid st)"
    by (simp add: Closeout_Self_Assign split: prod.split option.split)
  show ?thesis
    by (rule other) (use run calm_orderly [OF self_assign_calm [OF keyed]] in \<open>simp_all add: opens_under_def Closeout_Self_Assign\<close>)
next
  case (Closeout_Judgment cid target reason)
  have run: "snd (closeout_call_route sha now token call st) =
      snd (apply_closeout_transition sha now (actor_context_and_role token) cid target reason st)"
    by (simp add: Closeout_Judgment split: prod.split option.split)
  show ?thesis
  proof (cases "target = Closeout_Closed")
    case True
    show ?thesis by (rule judged [of cid reason]) (use run True in \<open>simp_all add: judged_target_def Closeout_Judgment\<close>)
  next
    case False
    show ?thesis
      by (rule other) (use run apply_closeout_follows(2) [OF keyed False] in \<open>simp_all add: opens_under_def Closeout_Judgment\<close>)
  qed
next
  case (Step_Change cid sid target evidence reason)
  have run: "snd (closeout_call_route sha now token call st) =
      snd (apply_step_transition sha now (actor_context_and_role token) cid sid target evidence reason st)"
    by (simp add: Step_Change split: prod.split option.split)
  show ?thesis by (rule other) (use run calm_orderly [OF apply_step_calm] in \<open>simp_all add: opens_under_def Step_Change\<close>)
qed

text \<open>What closing required.\<close>

definition closed_honestly :: "closeout \<Rightarrow> closeout \<Rightarrow> runbook_step list \<Rightarrow> task_store \<Rightarrow> bool" where
  "closed_honestly c d steps tasks \<longleftrightarrow>
     co_state c \<in> {Triaged, Awaiting_Closeout} \<and> (\<forall>s \<in> set steps. rs_state s \<in> set terminal_steps) \<and>
     (co_flag_ever d \<longrightarrow> co_flag d = Observed_False) \<and> co_source d \<noteq> Some Src_Unknown \<and> \<not> co_warning d \<and>
     co_display d \<in> {Label_Closed, Label_Warning} \<and> \<not> co_owed d \<and> (co_owed c \<longrightarrow> followup_task_terminal c tasks)"

lemma steps_not_open: "\<not> owed_steps_open cid st \<Longrightarrow> s \<in> set (steps_for cid st) \<Longrightarrow> rs_state s \<in> set terminal_steps"
  by (cases "rs_state s") (auto simp: owed_steps_open_def list_ex_iff active_steps_def terminal_steps_def)

lemma apply_closed:
  assumes keyed: "keyed st" and d: "closeout_at k (snd (apply_closeout_transition sha now actor cid Closeout_Closed reason st)) = Some d"
    and closed: "co_state d = Closeout_Closed" and new: "\<not> (\<exists>c. closeout_at k st = Some c \<and> co_state c = Closeout_Closed)"
  shows "\<exists>c. closeout_at k st = Some c \<and>
    closed_honestly c d (steps_for k (snd (apply_closeout_transition sha now actor cid Closeout_Closed reason st))) (ic_tasks st)"
proof -
  obtain c where "closeout_at cid st = Some c" using d closed new by (auto simp: apply_closeout_transition_def split: option.splits)
  then have c: "closeout_at cid st = Some c" "closeout_at (co_id c) st = Some c" "co_id c = cid" using keyed by (auto simp: keyed_def)
  have allowed: "closeout_refusal c Closeout_Closed st = None"
  proof (rule ccontr)
    assume "closeout_refusal c Closeout_Closed st \<noteq> None"
    then have "closeout_at k st = Some d" using d c(1) by (auto simp: apply_closeout_transition_def transition_closeout_def Let_def)
    then show False using closed new by simp
  qed
  let ?c = "set_closeout_state now Closeout_Closed reason c"
  let ?e = "enter_closeout_state sha now actor Closeout_Closed reason c st"
  have q: "quiet_store sha (put_closeout ?c st) ?e" by (rule enter_quiet [OF keyed c(2)])
  have after: "closeout_at k ?e = Some d" "ic_steps (snd (apply_closeout_transition sha now actor cid Closeout_Closed reason st)) = ic_steps st"
    "ic_order (snd (apply_closeout_transition sha now actor cid Closeout_Closed reason st)) = ic_order st"
    using d c(1) allowed q by (simp_all add: apply_closeout_transition_def transition_closeout_def Let_def quiet_store_def)
  have steps: "steps_for k (snd (apply_closeout_transition sha now actor cid Closeout_Closed reason st)) = steps_for k st"
    by (simp add: steps_for_def order_of_def after(2,3))
  obtain d0 where d0: "closeout_at k (put_closeout ?c st) = Some d0" "quiet d0 d"
  proof -
    have "rel_option quiet (closeout_at k (put_closeout ?c st)) (closeout_at k ?e)" using q by (simp add: quiet_store_def)
    then show ?thesis using that after(1) by (auto simp: option_rel_Some2)
  qed
  have k: "k = cid"
  proof (rule ccontr)
    assume "k \<noteq> cid"
    then have "closeout_at k st = Some d0" using d0(1) c(3) by (simp add: closeout_at_put)
    then show False using new d0(2) closed by (auto simp: quiet_def)
  qed
  then have "quiet ?c d" using d0 c(3) by (simp add: closeout_at_put)
  then have same: "co_flag d = co_flag c" "co_flag_ever d = co_flag_ever c" "co_source d = co_source c" "co_warning d = co_warning c"
    "co_display d = compute_closeout_display Closeout_Closed (co_source c) (co_warning c)" by (simp_all add: quiet_def)
  have free: "\<not> co_owed d"
  proof (rule enter_terminal_owes_nothing [OF keyed c(2)])
    show "Closeout_Closed \<in> set terminal_closeouts" by (simp add: terminal_closeouts_def)
    show "closeout_at (co_id c) ?e = Some d" using after(1) k c(3) by simp
  qed
  have gate: "\<not> owed_steps_open cid st" "co_flag_ever c \<longrightarrow> co_flag c = Observed_False" "co_owed c \<longrightarrow> followup_task_terminal c (ic_tasks st)"
    "co_source c \<noteq> Some Src_Unknown" "\<not> co_warning c"
    using allowed by (auto simp: closeout_refusal_def c(3) split: if_splits)
  have "co_state c \<in> {Triaged, Awaiting_Closeout}"
    using closeout_refusal_allowed [OF allowed] by (cases "co_state c") auto
  then have "closed_honestly c d (steps_for k st) (ic_tasks st)"
    using gate free steps_not_open [OF gate(1)] k by (auto simp: closed_honestly_def same compute_closeout_display_def)
  then show ?thesis using c(1) k steps by auto
qed

section \<open>Runs\<close>

lemma request_moves:
  assumes "keyed st"
  shows "tasks_move sha st (snd (closeout_call_route sha now token call st))"
  by (rule request_cases [OF assms, of call sha now token])
    (simp_all add: detected_moves [OF assms], use apply_closeout_follows(1) [OF assms] in \<open>simp_all add: follows_def orderly_def\<close>)

lemma keyed_reset: "keyed (reset_closeouts uuids n tasks)"
  by (simp add: keyed_def closeout_at_def reset_closeouts_def)

lemma run_keyed: "(closeout_step sha)\<^sup>*\<^sup>* st st' \<Longrightarrow> keyed st \<Longrightarrow> keyed st'"
proof (induction rule: rtranclp_induct)
  case (step y z)
  then have y: "keyed y" by blast
  from step(2) show ?case
  proof cases
    case (step_request now token call)
    then show ?thesis using request_moves [OF y] y by (simp add: tasks_move_def)
  next
    case (step_tasks tasks)
    then show ?thesis using y by (simp add: keyed_def)
  qed
qed

text \<open>The task service keeps its contract beside the closeouts.\<close>

lemma run_tasks: "(closeout_step sha)\<^sup>*\<^sup>* st st' \<Longrightarrow> keyed st \<Longrightarrow> (task_step sha)\<^sup>*\<^sup>* (ic_tasks st) (ic_tasks st')"
proof (induction rule: rtranclp_induct)
  case (step y z)
  then have y: "keyed y" "(task_step sha)\<^sup>*\<^sup>* (ic_tasks st) (ic_tasks y)" using run_keyed by blast+
  from step(2) have "(task_step sha)\<^sup>*\<^sup>* (ic_tasks y) (ic_tasks z)"
  proof cases
    case (step_request now token call)
    then show ?thesis using request_moves [OF y(1)] by (simp add: tasks_move_def)
  next
    case (step_tasks tasks)
    then show ?thesis by (simp add: r_into_rtranclp)
  qed
  then show ?case using y(2) by (rule rtranclp_trans [rotated])
qed simp

end
