(* ===== verification/Closeout_Laws.thy ===== *)
theory Closeout_Laws
  imports Closeout_Contract
begin

text \<open>
  Runbook steps, and the properties of the runs of incident closeouts beside the task service; then runs that
  show what the close gate and the identifiers of the intake let through.
\<close>

section \<open>Runbook steps\<close>

text \<open>The gate of a finished step: what its kind points at was observed, or there is evidence.\<close>

definition step_gate :: "runbook_step \<Rightarrow> bool" where
  "step_gate s \<longleftrightarrow>
     (case rs_kind s of Action_Pointer \<Rightarrow> rs_terminal s | Approval_Pointer \<Rightarrow> rs_resolved s | Observation \<Rightarrow> rs_evidence s \<noteq> None)"

definition step_quiet :: "runbook_step \<Rightarrow> runbook_step \<Rightarrow> bool" where
  "step_quiet s t \<longleftrightarrow> rs_state t = rs_state s \<and> rs_kind t = rs_kind s \<and> rs_terminal t = rs_terminal s \<and>
     rs_resolved t = rs_resolved s \<and> rs_evidence t = rs_evidence s"

definition steps_quiet :: "(id_text \<rightharpoonup> runbook_step) \<Rightarrow> (id_text \<rightharpoonup> runbook_step) \<Rightarrow> bool" where
  "steps_quiet m m' \<longleftrightarrow> (\<forall>k. rel_option step_quiet (m k) (m' k))"

text \<open>Steps that are done now were done before, or passed their gate from owed or in progress.\<close>

definition steps_gated :: "(id_text \<rightharpoonup> runbook_step) \<Rightarrow> (id_text \<rightharpoonup> runbook_step) \<Rightarrow> bool" where
  "steps_gated m m' \<longleftrightarrow> (\<forall>k s'. m' k = Some s' \<longrightarrow> rs_state s' = Step_Done \<longrightarrow>
     (\<exists>s. m k = Some s \<and> (rs_state s = Step_Done \<or> rs_state s \<in> {Step_Owed, Step_In_Progress} \<and> step_gate s')))"

lemma step_quiet_refl [simp]: "step_quiet s s" by (simp add: step_quiet_def)
lemma steps_quiet_refl [simp]: "steps_quiet m m" by (simp add: steps_quiet_def option.rel_refl)
lemma steps_gated_refl [simp]: "steps_gated m m" by (simp add: steps_gated_def)

lemma steps_gated_quiet: "steps_gated m m' \<Longrightarrow> steps_quiet m' m'' \<Longrightarrow> steps_gated m m''"
  unfolding steps_gated_def
proof (intro allI impI)
  fix k s''
  assume gated: "\<forall>k s'. m' k = Some s' \<longrightarrow> rs_state s' = Step_Done \<longrightarrow>
      (\<exists>s. m k = Some s \<and> (rs_state s = Step_Done \<or> rs_state s \<in> {Step_Owed, Step_In_Progress} \<and> step_gate s'))"
    and quiet: "steps_quiet m' m''" and s: "m'' k = Some s''" "rs_state s'' = Step_Done"
  obtain s' where s': "m' k = Some s'" "step_quiet s' s''"
    using quiet [unfolded steps_quiet_def, THEN spec, of k] s(1) by (auto simp: option_rel_Some2)
  have "step_gate s'' = step_gate s'" using s'(2) by (simp add: step_gate_def step_quiet_def cong: step_kind.case_cong)
  then show "\<exists>s. m k = Some s \<and> (rs_state s = Step_Done \<or> rs_state s \<in> {Step_Owed, Step_In_Progress} \<and> step_gate s'')"
    using gated s' s(2) by (auto simp: step_quiet_def)
qed

lemma steps_gated_state:
  assumes "m k = Some s" and "rs_state t = rs_state s" and "steps_gated (m(k \<mapsto> t)) m'"
  shows "steps_gated m m'"
  using assms unfolding steps_gated_def by (metis (no_types, lifting) fun_upd_apply option.inject)

lemma steps_quiet_upd: "m k = Some s \<Longrightarrow> step_quiet s t \<Longrightarrow> steps_quiet m (m(k \<mapsto> t))"
  by (auto simp: steps_quiet_def intro: option.rel_refl)

lemma materialize_step_quiet:
  assumes "ic_steps st (rs_id s) = Some s"
  shows "steps_quiet (ic_steps st) (ic_steps (materialize_step_task sha now sev s st))"
  using assms by (auto simp: materialize_step_task_def case_prod_beta step_quiet_def intro!: steps_quiet_upd)

lemma resolve_step_quiet:
  assumes "ic_steps st (rs_id s) = Some s"
  shows "steps_quiet (ic_steps st) (ic_steps (resolve_step_task sha now actor evidence dismissing s st))"
  using assms by (auto simp: resolve_step_task_def Let_def case_prod_beta step_quiet_def intro!: steps_quiet_upd split: option.split)

lemma transition_step_gated:
  assumes s: "ic_steps st (rs_id s) = Some s"
  shows "steps_gated (ic_steps st) (ic_steps (snd (transition_step sha now actor s target evidence reason sev st)))"
proof (cases "step_refusal s target evidence")
  case None
  let ?s = "moved_step sha now target evidence reason s"
  let ?s1 = "put_step ?s st"
  have moved: "rs_id ?s = rs_id s" "rs_state ?s = target" by (simp_all add: moved_step_def)
  have "target = Step_Done \<Longrightarrow> rs_state s \<in> {Step_Owed, Step_In_Progress} \<and> step_gate ?s"
    using None by (cases "rs_state s"; cases "rs_kind s") (auto simp: step_refusal_def step_gate_def moved_step_def terminal_steps_def split: if_splits)
  then have put: "steps_gated (ic_steps st) (ic_steps ?s1)" using s moved by (auto simp: steps_gated_def)
  have at: "ic_steps ?s1 (rs_id ?s) = Some ?s" by simp
  then have released: "ic_steps (?s1\<lparr>ic_step_active := m\<rparr>) (rs_id ?s) = Some ?s" for m by simp
  show ?thesis
    using steps_gated_quiet [OF put materialize_step_quiet [OF at]] steps_gated_quiet [OF put] resolve_step_quiet [OF released]
    by (simp add: transition_step_def None Let_def)
qed (simp add: transition_step_def)

lemma apply_step_gated:
  assumes "keyed st"
  shows "steps_gated (ic_steps st) (ic_steps (snd (apply_step_transition sha now actor cid sid target evidence reason st)))"
proof (cases "ic_steps st sid")
  case (Some s)
  then have s: "ic_steps st (rs_id s) = Some s" using assms by (simp add: keyed_def)
  show ?thesis
  proof (cases "rs_closeout s = cid")
    case True
    define sev where "sev = (case closeout_at cid st of None \<Rightarrow> Medium | Some c \<Rightarrow> co_severity c)"
    show ?thesis
      using transition_step_gated [OF s, of sha now actor target evidence reason sev] Some True
      by (auto simp: apply_step_transition_def Let_def sev_def [symmetric] case_prod_beta split: option.split)
  qed (use Some in \<open>simp add: apply_step_transition_def\<close>)
qed (simp add: apply_step_transition_def)

lemma transition_closeout_steps:
  assumes "keyed st" and "closeout_at (co_id c) st = Some c"
  shows "ic_steps (snd (transition_closeout sha now actor c target reason st)) = ic_steps st"
  using enter_quiet [OF assms, of sha now target reason actor]
  by (auto simp: transition_closeout_def quiet_store_def split: option.split)

lemma apply_closeout_steps:
  assumes "keyed st"
  shows "ic_steps (snd (apply_closeout_transition sha now actor cid target reason st)) = ic_steps st"
proof (cases "closeout_at cid st")
  case (Some c)
  then have "closeout_at (co_id c) st = Some c" using assms by (simp add: keyed_def)
  then show ?thesis using transition_closeout_steps [OF assms] by (simp add: apply_closeout_transition_def Some Let_def case_prod_beta)
qed (simp add: apply_closeout_transition_def)

lemma classified_steps:
  assumes "keyed st" and "closeout_at (co_id c) st = Some c"
  shows "ic_steps (snd (ingest_classified sha now actor c e st)) = ic_steps st"
  by (simp add: ingest_classified_def Let_def case_prod_beta transition_closeout_steps keyed_put assms(1) closeout_at_put)

lemma flag_steps:
  assumes "keyed st" and "closeout_at (co_id c) st = Some c"
  shows "ic_steps (snd (ingest_flag_observed sha now actor c e st)) = ic_steps st"
proof -
  have at: "closeout_at (co_id d) (put_closeout d st) = Some d" for d by (simp add: closeout_at_put)
  have put: "ic_steps (with_closeout k (\<lambda>d s. put_closeout (f d) s) s) = ic_steps s" for k f s
    by (simp add: with_closeout_def split: option.split)
  show ?thesis
    by (simp add: ingest_flag_observed_def Let_def case_prod_beta put transition_closeout_steps [OF keyed_put [OF assms(1)] at] split: option.split)
qed

lemma remediation_steps:
  assumes "keyed st" and "closeout_at (co_id c) st = Some c"
  shows "ic_steps (maybe_enter_remediation sha now actor c st) = ic_steps st"
  using transition_closeout_steps [OF assms, of sha now actor In_Remediation None]
  by (auto simp: maybe_enter_remediation_def split: prod.split option.split)

lemma detected_steps: "ic_steps (snd (ingest_detected sha now actor e st)) = ic_steps st"
proof -
  have "ic_steps st0 = ic_steps st" if "given_or_drawn i st = (k, st0)" for i k st0
    using given_or_drawn_fields(2) [of i st] that by simp
  then show ?thesis by (auto simp: ingest_detected_def Let_def split: option.split prod.split)
qed

lemma keyed_cong: "(\<And>k. closeout_at k a = closeout_at k b) \<Longrightarrow> ic_steps a = ic_steps b \<Longrightarrow> keyed b \<Longrightarrow> keyed a"
  by (simp add: keyed_def)

lemma step_owed_gated:
  assumes keyed: "keyed st" and c: "closeout_at (co_id c) st = Some c"
  shows "steps_gated (ic_steps st) (ic_steps (snd (ingest_step_owed sha now actor c e st)))"
proof -
  define kind where "kind = (case ce_kind e of None \<Rightarrow> Observation | Some k \<Rightarrow> k)"
  define seq where "seq = (case ce_seq e of None \<Rightarrow> int (length (order_of (co_id c) st)) + 1 | Some n \<Rightarrow> n)"
  define digest where "digest = sha (step_key (co_id c) seq kind (ce_tenant e))"
  note run = ingest_step_owed_def Let_def kind_def [symmetric] seq_def [symmetric] digest_def [symmetric]
  show ?thesis
  proof (cases "Option.bind (ic_step_active st digest) (ic_steps st)")
    case (Some s)
    then have "ic_steps st (rs_id s) = Some s" using keyed by (auto simp: keyed_def bind_eq_Some_conv)
    then have "steps_quiet (ic_steps st) ((ic_steps st)(rs_id s \<mapsto> s\<lparr>rs_updated := now\<rparr>))"
      by (rule steps_quiet_upd) (simp add: step_quiet_def)
    then show ?thesis using Some steps_gated_quiet [OF steps_gated_refl] by (simp add: run)
  next
    case None
    obtain sid st0 where g: "given_or_drawn (ce_step e) st = (sid, st0)" by (cases "given_or_drawn (ce_step e) st")
    have same: "closeout_at k st0 = closeout_at k st" "ic_steps st0 = ic_steps st" for k
    proof -
      have "st0 = snd (given_or_drawn (ce_step e) st)" using g by simp
      then show "closeout_at k st0 = closeout_at k st" "ic_steps st0 = ic_steps st" by simp_all
    qed
    define s where "s = new_step now c e kind seq digest sid"
    define st1 where "st1 = put_step s st0\<lparr>ic_order := (ic_order st0)(co_id c \<mapsto> order_of (co_id c) st0 @ [sid]),
                          ic_step_active := (ic_step_active st0)(digest \<mapsto> sid), ic_step_seq := (ic_step_seq st0)(sid \<mapsto> 0)\<rparr>"
    have steps: "ic_steps st1 = (ic_steps st)(rs_id s \<mapsto> s)" by (simp add: st1_def same)
    have "rs_state s = Step_Owed" by (simp add: s_def new_step_def)
    then have new: "steps_gated (ic_steps st) (ic_steps st1)" by (auto simp: steps steps_gated_def)
    have "keyed st0" using keyed unfolding keyed_def same .
    then have "keyed (put_step s st0)" by (rule keyed_put_step)
    then have keyed1: "keyed st1" by (rule keyed_cong [rotated 2]) (simp_all add: st1_def)
    have c1: "closeout_at (co_id c) st1 = Some c" using c by (simp add: st1_def same)
    have "ic_steps (maybe_enter_remediation sha now actor c st1) (rs_id s) = Some s"
      by (simp add: remediation_steps [OF keyed1 c1] steps)
    then have "steps_gated (ic_steps st) (ic_steps (materialize_step_task sha now (co_severity c) s (maybe_enter_remediation sha now actor c st1)))"
      using steps_gated_quiet [OF new] materialize_step_quiet [of "maybe_enter_remediation sha now actor c st1" s]
      by (simp add: remediation_steps [OF keyed1 c1])
    then show ?thesis by (simp add: run None g flip: s_def st1_def split: option.split)
  qed
qed

lemma step_change_gated:
  assumes "keyed st"
  shows "steps_gated (ic_steps st) (ic_steps (snd (ingest_step_change sha now actor c e st)))"
proof (cases "Option.bind (given_id (ce_step e)) (ic_steps st)")
  case None
  then show ?thesis by (cases "given_id (ce_step e)") (simp_all add: ingest_step_change_def Let_def denied_intake_def)
next
  case (Some s)
  then obtain sid where sid: "given_id (ce_step e) = Some sid" "ic_steps st sid = Some s" by (auto simp: bind_eq_Some_conv)
  have id: "rs_id s = sid" using assms sid by (simp add: keyed_def)
  have mirror: "rs_id (mirrored_step e s) = sid" "rs_state (mirrored_step e s) = rs_state s"
    by (simp_all add: mirrored_step_def Let_def id)
  have "steps_gated (ic_steps (put_step (mirrored_step e s) st))
      (ic_steps (snd (apply_step_transition sha now actor cid sid target ev reason (put_step (mirrored_step e s) st))))" for cid target ev reason
    by (rule apply_step_gated [OF keyed_put_step [OF assms]])
  then have "steps_gated (ic_steps st)
      (ic_steps (snd (apply_step_transition sha now actor cid sid target ev reason (put_step (mirrored_step e s) st))))" for cid target ev reason
    using steps_gated_state [where m = "ic_steps st" and k = sid and s = s and t = "mirrored_step e s", OF sid(2) mirror(2)]
    by (simp add: mirror(1))
  then show ?thesis by (simp add: ingest_step_change_def Let_def sid denied_intake_def case_prod_beta split: option.split)
qed

lemma request_gated:
  assumes keyed: "keyed st"
  shows "steps_gated (ic_steps st) (ic_steps (snd (closeout_call_route sha now token call st)))"
proof (cases call)
  case (Closeout_Intake e)
  have run: "snd (closeout_call_route sha now token call st) = snd (ingest_event sha now (actor_context_and_role token) e st)"
    by (simp add: Closeout_Intake case_prod_beta)
  show ?thesis
  proof (cases "ce_type e = Incident_Detected \<or> Option.bind (given_id (ce_closeout e)) (\<lambda>cid. closeout_at cid st) = None")
    case True
    then show ?thesis unfolding run by (auto simp: ingest_event_def detected_steps)
  next
    case False
    then obtain c where some: "Option.bind (given_id (ce_closeout e)) (\<lambda>cid. closeout_at cid st) = Some c" by auto
    then have c: "closeout_at (co_id c) st = Some c" using keyed by (auto simp: keyed_def bind_eq_Some_conv)
    have "ic_steps (snd (ingest_transition sha now (actor_context_and_role token) c e st)) = ic_steps st"
      using apply_closeout_steps [OF keyed]
      by (simp add: ingest_transition_def denied_intake_def Let_def split: option.split prod.split) (metis snd_conv)
    then show ?thesis
      unfolding run ingest_event_def
      by (cases "ce_type e") (simp_all add: False some detected_steps classified_steps [OF keyed c] flag_steps [OF keyed c]
          step_owed_gated [OF keyed c] step_change_gated [OF keyed])
  qed
next
  case (Closeout_Self_Assign cid)
  have "ic_steps (snd (self_assign_closeout now actor cid st)) = ic_steps st" for actor
    by (simp add: self_assign_closeout_def Let_def split: option.split)
  then show ?thesis by (simp add: Closeout_Self_Assign split: prod.split option.split) (metis snd_conv steps_gated_refl)
next
  case (Closeout_Judgment cid target reason)
  have "snd (closeout_call_route sha now token call st) =
      snd (apply_closeout_transition sha now (actor_context_and_role token) cid target reason st)"
    by (simp add: Closeout_Judgment split: prod.split option.split)
  then show ?thesis by (simp add: apply_closeout_steps [OF keyed])
next
  case (Step_Change cid sid target evidence reason)
  have "snd (closeout_call_route sha now token call st) =
      snd (apply_step_transition sha now (actor_context_and_role token) cid sid target evidence reason st)"
    by (simp add: Step_Change split: prod.split option.split)
  then show ?thesis by (simp add: apply_step_gated [OF keyed])
qed

section \<open>Properties\<close>

text \<open>
  C32: over any run of closeout requests beside task requests, one more request leaves every closeout the same
  incident and moves it along at most one edge of its lifecycle, so that a closed, withdrawn or expired one
  stays so, unless the request is a detection that opens a closeout under the same identifier.
\<close>

theorem closeout_follows_lifecycle:
  assumes "(closeout_step sha)\<^sup>*\<^sup>* (reset_closeouts uuids n tasks) st" and "closeout_at cid st = Some c"
    and "\<not> opens_under sha call cid st"
  shows "\<exists>d. closeout_at cid (snd (closeout_call_route sha now token call st)) = Some d \<and> lives c d"
proof -
  have keyed: "keyed st" by (rule run_keyed [OF assms(1) keyed_reset])
  show ?thesis
  proof (rule request_cases [OF keyed, of call sha now token])
    fix e
    assume e: "call = Closeout_Intake e" "ce_type e = Incident_Detected"
      "snd (closeout_call_route sha now token call st) = snd (ingest_detected sha now (actor_context_and_role token) e st)"
    show ?thesis
    proof (rule detected_cases [OF keyed e(2), of sha now "actor_context_and_role token"])
      assume "calm sha st (snd (ingest_detected sha now (actor_context_and_role token) e st))"
      then have "rel_option lives (closeout_at cid st) (closeout_at cid (snd (ingest_detected sha now (actor_context_and_role token) e st)))"
        using calm_is_following by (simp add: follows_def)
      then show ?thesis using assms(2) e(3) by (auto simp: option_rel_Some1)
    next
      fix k d
      assume "opens_under sha (Closeout_Intake e) k st"
        "\<And>j. closeout_at j (snd (ingest_detected sha now (actor_context_and_role token) e st)) = (if j = k then Some d else closeout_at j st)"
      then show ?thesis using assms(2,3) e(1,3) gentle_lives [OF gentle_refl] by (cases "cid = k") auto
    qed
  next
    fix k reason
    assume "snd (closeout_call_route sha now token call st) =
      snd (apply_closeout_transition sha now (actor_context_and_role token) k Closeout_Closed reason st)"
    then have "rel_option lives (closeout_at cid st) (closeout_at cid (snd (closeout_call_route sha now token call st)))"
      using apply_closeout_follows(1) [OF keyed, of sha now "actor_context_and_role token" k Closeout_Closed reason] by (simp add: follows_def)
    then show ?thesis using assms(2) by (auto simp: option_rel_Some1)
  next
    assume "orderly sha st (snd (closeout_call_route sha now token call st))"
    then have "rel_option lives (closeout_at cid st) (closeout_at cid (snd (closeout_call_route sha now token call st)))"
      by (simp add: orderly_def follows_def)
    then show ?thesis using assms(2) by (auto simp: option_rel_Some1)
  qed
qed

text \<open>
  C31: over any run of closeout requests beside task requests, a request closes a closeout only from triage or
  from waiting, with every step of its runbook finished, its flag observed clear if it was ever set, a source
  status other than unknown (a degraded or absent source does close, as does one without status), the execution
  warning of the closeout itself not set (warnings its steps report are not looked at), the owed follow-up task
  finished, and no follow-up owed any more.
\<close>

theorem closeout_closes_honestly:
  assumes "(closeout_step sha)\<^sup>*\<^sup>* (reset_closeouts uuids n tasks) st"
    and "closeout_at cid (snd (closeout_call_route sha now token call st)) = Some d" and "co_state d = Closeout_Closed"
    and "\<not> (\<exists>c. closeout_at cid st = Some c \<and> co_state c = Closeout_Closed)"
  shows "\<exists>c. closeout_at cid st = Some c \<and>
    closed_honestly c d (steps_for cid (snd (closeout_call_route sha now token call st))) (ic_tasks st)"
proof -
  have keyed: "keyed st" by (rule run_keyed [OF assms(1) keyed_reset])
  have tame: "\<not> tame st (snd (closeout_call_route sha now token call st))" using assms(2-4) by (auto simp: tame_def)
  show ?thesis
  proof (rule request_cases [OF keyed, of call sha now token])
    fix e
    assume "ce_type e = Incident_Detected"
      "snd (closeout_call_route sha now token call st) = snd (ingest_detected sha now (actor_context_and_role token) e st)"
    then show ?thesis using tame detected_moves(1) [OF keyed] by simp
  next
    fix k reason
    assume run: "snd (closeout_call_route sha now token call st) =
      snd (apply_closeout_transition sha now (actor_context_and_role token) k Closeout_Closed reason st)"
    show ?thesis using assms(2-4) unfolding run by (rule apply_closed [OF keyed])
  next
    assume "orderly sha st (snd (closeout_call_route sha now token call st))"
    then show ?thesis using tame by (simp add: orderly_def)
  qed
qed

text \<open>
  C33: over any run of closeout requests beside task requests, a request finishes a runbook step only from owed or
  in progress, a step pointing at an action only when its execution was observed to have ended, one pointing
  at an approval only when that was observed resolved, and an observation only with evidence.
\<close>

theorem runbook_step_passes_its_gate:
  assumes "(closeout_step sha)\<^sup>*\<^sup>* (reset_closeouts uuids n tasks) st"
    and "ic_steps (snd (closeout_call_route sha now token call st)) sid = Some s'" and "rs_state s' = Step_Done"
    and "\<not> (\<exists>s. ic_steps st sid = Some s \<and> rs_state s = Step_Done)"
  shows "(\<exists>s. ic_steps st sid = Some s \<and> rs_state s \<in> {Step_Owed, Step_In_Progress}) \<and> step_gate s'"
proof -
  have "keyed st" by (rule run_keyed [OF assms(1) keyed_reset])
  then show ?thesis
    using request_gated [of st sha now token call] assms(2-4) unfolding steps_gated_def by blast
qed

section \<open>A run\<close>

text \<open>
  One incident, classified, with a step of its runbook owed; the digest is a function of the text, as the
  service needs it, and identifiers are drawn in order.
\<close>

definition sample_digest :: "string \<Rightarrow> string" where "sample_digest s = rev s"

definition sample_incident :: closeout_event where
  "sample_incident =
     \<lparr>ce_type = Incident_Detected, ce_closeout = Some (Malformed ''a''), ce_class = None, ce_severity = None, ce_tenant = None,
      ce_scope = Platform_Scope, ce_role = None, ce_correlation = ''c'', ce_incident = None, ce_snapshot = None, ce_handoff = None,
      ce_summary = [], ce_reason = None, ce_flag = None, ce_source = Some Src_Known, ce_action = None, ce_approval = None,
      ce_execution = None, ce_source_ref = None, ce_step = Some (Malformed ''s''), ce_kind = None, ce_seq = None, ce_terminal = None,
      ce_resolved = None, ce_warning = None, ce_evidence = None, ce_target = None, ce_ttl = None\<rparr>"

definition sample_start :: closeout_store where
  "sample_start = reset_closeouts Suc 0 (reset_tasks Suc 0)"

definition sample_request :: "closeout_call \<Rightarrow> closeout_store \<Rightarrow> closeout_store" where
  "sample_request call st = snd (closeout_call_route sample_digest 5 None call st)"

definition sample_classify :: closeout_event where "sample_classify = sample_incident\<lparr>ce_type := Incident_Classified\<rparr>"
definition sample_owe :: closeout_event where "sample_owe = sample_incident\<lparr>ce_type := Runbook_Step_Owed\<rparr>"

definition sample_detected :: closeout_store where
  "sample_detected = sample_request (Closeout_Intake sample_incident) sample_start"

definition sample_triaged :: closeout_store where
  "sample_triaged = sample_request (Closeout_Intake sample_classify) sample_detected"

definition sample_owed :: closeout_store where
  "sample_owed = sample_request (Closeout_Intake sample_owe) sample_triaged"

abbreviation sample_close :: closeout_call where
  "sample_close \<equiv> Closeout_Judgment (Malformed ''a'') Closeout_Closed None"

abbreviation sample_finish :: closeout_call where
  "sample_finish \<equiv> Step_Change (Malformed ''a'') (Malformed ''s'') Step_Done (Some ''x'') None"

lemma sample_more: "(closeout_step sample_digest)\<^sup>*\<^sup>* sample_start st \<Longrightarrow> (closeout_step sample_digest)\<^sup>*\<^sup>* sample_start (sample_request call st)"
  unfolding sample_request_def by (erule rtranclp.rtrancl_into_rtrancl) (rule step_request)

lemma sample_closeout_steps:
  "(closeout_step sample_digest)\<^sup>*\<^sup>* (reset_closeouts Suc 0 (reset_tasks Suc 0)) sample_detected"
  "(closeout_step sample_digest)\<^sup>*\<^sup>* (reset_closeouts Suc 0 (reset_tasks Suc 0)) sample_triaged"
  "(closeout_step sample_digest)\<^sup>*\<^sup>* (reset_closeouts Suc 0 (reset_tasks Suc 0)) sample_owed"
  unfolding sample_start_def [symmetric] sample_detected_def sample_triaged_def sample_owed_def by (intro sample_more rtranclp.rtrancl_refl)+

lemma sample_fields [simp]:
  "given_id (ce_closeout sample_incident) = Some (Malformed ''a'')" "ce_type sample_incident = Incident_Detected"
  "ce_reason sample_incident = None" "ce_class sample_incident = None" "ce_kind sample_incident = None" "ce_seq sample_incident = None"
  "given_id (ce_step sample_incident) = Some (Malformed ''s'')" "ce_tenant sample_incident = None" "ce_warning sample_incident = None"
  "ce_source sample_incident = Some Src_Known" "ce_flag sample_incident = None"
  "given_id (ce_closeout sample_classify) = Some (Malformed ''a'')" "ce_type sample_classify = Incident_Classified"
  "ce_reason sample_classify = None" "ce_class sample_classify = None"
  "given_id (ce_closeout sample_owe) = Some (Malformed ''a'')" "ce_type sample_owe = Runbook_Step_Owed" "ce_kind sample_owe = None"
  "ce_seq sample_owe = None" "given_id (ce_step sample_owe) = Some (Malformed ''s'')"
  by (simp_all add: sample_incident_def sample_classify_def sample_owe_def given_id_def)

lemma sample_start_fields [simp]:
  "ic_active sample_start = Map.empty" "closeout_at k sample_start = None" "ic_steps sample_start = Map.empty"
  "ic_step_active sample_start = Map.empty"
  by (simp_all add: sample_start_def reset_closeouts_def closeout_at_def)

lemma step_active_kept [simp]:
  "ic_step_active (put_closeout c st) = ic_step_active st"
  "ic_step_active (emit_closeout_audit now actor c l p n r d st) = ic_step_active st"
  by (simp_all add: put_closeout_def emit_closeout_audit_def draw_closeout_id_def Let_def)

definition sample_case :: closeout where
  "sample_case = new_closeout sample_digest 5 sample_incident (Malformed ''a'') sample_start"

lemma sample_case_fields [simp]:
  "co_id sample_case = Malformed ''a''" "co_state sample_case = Detected" "co_flag_ever sample_case = False"
  "co_source sample_case = Some Src_Known" "co_warning sample_case = False" "co_owed sample_case = False" "co_class sample_case = None"
  by (simp_all add: sample_case_def new_closeout_def Let_def)

lemma sample_detected_fields [simp]:
  "closeout_at (Malformed ''a'') sample_detected = Some sample_case" "ic_steps sample_detected = Map.empty"
  "ic_order sample_detected (Malformed ''a'') = Some []" "ic_step_active sample_detected = Map.empty"
  unfolding sample_detected_def sample_request_def
  by (simp_all add: case_prod_beta ingest_event_def ingest_detected_def given_or_drawn_def Let_def closeout_at_put flip: sample_case_def)

definition sample_triaged_case :: closeout where
  "sample_triaged_case = set_closeout_state 5 Triaged None sample_case"

lemma sample_case_class [simp]: "sample_case\<lparr>co_class := None\<rparr> = sample_case"
proof -
  have "c\<lparr>co_class := None\<rparr> = c" if "co_class c = None" for c :: closeout using that by (cases c) simp
  then show ?thesis by simp
qed

lemma sample_triaged_case_fields [simp]:
  "co_id sample_triaged_case = Malformed ''a''" "co_state sample_triaged_case = Triaged" "co_flag_ever sample_triaged_case = False"
  "co_source sample_triaged_case = Some Src_Known" "co_warning sample_triaged_case = False" "co_owed sample_triaged_case = False"
  by (simp_all add: sample_triaged_case_def)

lemma sample_triaged_fields [simp]:
  "closeout_at (Malformed ''a'') sample_triaged = Some sample_triaged_case" "ic_steps sample_triaged = Map.empty"
  "ic_order sample_triaged (Malformed ''a'') = Some []" "ic_step_active sample_triaged = Map.empty"
  unfolding sample_triaged_def sample_request_def
  by (simp_all add: case_prod_beta ingest_event_def ingest_classified_def transition_closeout_def closeout_refusal_def
      terminal_closeouts_def enter_closeout_state_def with_closeout_def audit_closeout_def Let_def closeout_at_put sample_triaged_case_def)

lemma sample_keyed [simp]: "keyed sample_detected" "keyed sample_triaged" "keyed sample_owed"
  by (rule run_keyed [OF _ keyed_reset], rule sample_closeout_steps)+

lemma closeout_follows_lifecycle_witness:
  "\<exists>d. closeout_at (Malformed ''a'') (snd (closeout_call_route sample_digest 5 None (Closeout_Intake sample_classify) sample_detected)) = Some d \<and>
     lives sample_case d"
  by (rule closeout_follows_lifecycle [OF sample_closeout_steps(1)]) (simp_all add: opens_under_def)

lemma sample_closed:
  obtains d where "closeout_at (Malformed ''a'') (snd (closeout_call_route sample_digest 5 None sample_close sample_triaged)) = Some d"
    and "co_state d = Closeout_Closed"
proof
  let ?d = "set_closeout_state 5 Closeout_Closed None sample_triaged_case"
  have "steps_for (Malformed ''a'') sample_triaged = []" by (simp add: steps_for_def order_of_def List.map_filter_def)
  then have "closeout_refusal sample_triaged_case Closeout_Closed sample_triaged = None"
    by (simp add: closeout_refusal_def terminal_closeouts_def owed_steps_open_def)
  then show "closeout_at (Malformed ''a'') (snd (closeout_call_route sample_digest 5 None sample_close sample_triaged)) = Some ?d"
    by (simp add: case_prod_beta apply_closeout_transition_def transition_closeout_def enter_closeout_state_def with_closeout_def
        terminal_closeouts_def Let_def closeout_at_put split: option.split)
  show "co_state ?d = Closeout_Closed" by simp
qed

lemma closeout_closes_honestly_witness:
  "\<exists>d c. closeout_at (Malformed ''a'') sample_triaged = Some c \<and>
     closed_honestly c d (steps_for (Malformed ''a'') (snd (closeout_call_route sample_digest 5 None sample_close sample_triaged))) (ic_tasks sample_triaged)"
  by (rule sample_closed, rule exI, rule closeout_closes_honestly [OF sample_closeout_steps(2)]) simp_all

text \<open>An owed step is in the store, whatever entering remediation and the operator task did.\<close>

lemma owed_step_stored:
  assumes keyed: "keyed st" and c: "closeout_at (co_id c) st = Some c" and sid: "given_id (ce_step e) = Some sid"
    and fresh: "ic_step_active st = Map.empty"
  obtains s where "ic_steps (snd (ingest_step_owed sha now actor c e st)) sid = Some s" and "rs_id s = sid" and "rs_closeout s = co_id c"
    and "rs_state s = Step_Owed" and "rs_kind s = (case ce_kind e of None \<Rightarrow> Observation | Some k \<Rightarrow> k)"
proof -
  define kind where "kind = (case ce_kind e of None \<Rightarrow> Observation | Some k \<Rightarrow> k)"
  define seq where "seq = (case ce_seq e of None \<Rightarrow> int (length (order_of (co_id c) st)) + 1 | Some n \<Rightarrow> n)"
  define digest where "digest = sha (step_key (co_id c) seq kind (ce_tenant e))"
  define s where "s = new_step now c e kind seq digest sid"
  define st1 where "st1 = put_step s st\<lparr>ic_order := (ic_order st)(co_id c \<mapsto> order_of (co_id c) st @ [sid]),
                          ic_step_active := (ic_step_active st)(digest \<mapsto> sid), ic_step_seq := (ic_step_seq st)(sid \<mapsto> 0)\<rparr>"
  define st2 where "st2 = maybe_enter_remediation sha now actor c st1"
  have none: "Option.bind (ic_step_active st digest) (ic_steps st) = None" by (simp add: fresh)
  have s: "rs_id s = sid" "rs_closeout s = co_id c" "rs_state s = Step_Owed" "rs_kind s = kind" by (simp_all add: s_def new_step_def)
  have keyed1: "keyed st1"
    by (rule keyed_cong [OF _ _ keyed_put_step [OF keyed]]) (simp_all add: st1_def)
  have c1: "closeout_at (co_id c) st1 = Some c" using c by (simp add: st1_def)
  have "ic_steps st2 = ic_steps st1" unfolding st2_def by (rule remediation_steps [OF keyed1 c1])
  then have owed: "ic_steps st2 (rs_id s) = Some s" by (simp add: st1_def s)
  obtain t where t: "ic_steps (materialize_step_task sha now (co_severity c) s st2) sid = Some t" "step_quiet s t"
    using materialize_step_quiet [OF owed, of sha now "co_severity c", unfolded steps_quiet_def, THEN spec, of sid] owed
    by (auto simp: option_rel_Some1 s)
  have id: "rs_id t = sid" "rs_closeout t = co_id c"
    using t(1) s by (auto simp: materialize_step_task_def case_prod_beta)
  have "ic_steps (snd (ingest_step_owed sha now actor c e st)) sid = Some t"
    using t(1)
    by (simp add: ingest_step_owed_def Let_def kind_def [symmetric] seq_def [symmetric] digest_def [symmetric] none given_or_drawn_def sid
        flip: s_def st1_def st2_def)
  then show ?thesis using that [of t] id t(2) s unfolding kind_def by (simp add: step_quiet_def)
qed

lemma sample_step:
  obtains s where "ic_steps sample_owed (Malformed ''s'') = Some s" and "rs_id s = Malformed ''s''" and "rs_closeout s = Malformed ''a''"
    and "rs_state s = Step_Owed" and "rs_kind s = Observation"
proof (rule owed_step_stored [of sample_triaged sample_triaged_case sample_owe "Malformed ''s''" sample_digest 5 "actor_context_and_role None"])
  fix s
  assume s: "ic_steps (snd (ingest_step_owed sample_digest 5 (actor_context_and_role None) sample_triaged_case sample_owe sample_triaged)) (Malformed ''s'') = Some s"
    "rs_id s = Malformed ''s''" "rs_closeout s = co_id sample_triaged_case" "rs_state s = Step_Owed"
    "rs_kind s = (case ce_kind sample_owe of None \<Rightarrow> Observation | Some k \<Rightarrow> k)"
  show ?thesis by (rule that [of s]) (use s in \<open>simp_all add: sample_owed_def sample_request_def case_prod_beta ingest_event_def\<close>)
qed simp_all

lemma sample_note: "has_text (Some ''x'')" by code_simp

lemma sample_finished:
  obtains s where "ic_steps (snd (closeout_call_route sample_digest 5 None sample_finish sample_owed)) (Malformed ''s'') = Some s"
    and "rs_state s = Step_Done"
proof (rule sample_step)
  fix s
  assume s: "ic_steps sample_owed (Malformed ''s'') = Some s" "rs_id s = Malformed ''s''" "rs_closeout s = Malformed ''a''"
    "rs_state s = Step_Owed" "rs_kind s = Observation"
  let ?s = "moved_step sample_digest 5 Step_Done (Some ''x'') None s"
  let ?st = "put_step ?s sample_owed\<lparr>ic_step_active := (ic_step_active (put_step ?s sample_owed))(rs_digest s := None)\<rparr>"
  have id: "rs_id ?s = Malformed ''s''" "rs_state ?s = Step_Done" by (simp_all add: moved_step_def s)
  have free: "step_refusal s Step_Done (Some ''x'') = None" by (simp add: step_refusal_def terminal_steps_def s sample_note)
  have "ic_steps ?st (rs_id ?s) = Some ?s" by simp
  from resolve_step_quiet [OF this, of sample_digest 5 "actor_context_and_role None" "Some ''x''" False, unfolded steps_quiet_def, THEN spec, of "Malformed ''s''"]
  obtain t where t: "ic_steps (resolve_step_task sample_digest 5 (actor_context_and_role None) (Some ''x'') False ?s ?st) (Malformed ''s'') = Some t"
    "step_quiet ?s t"
    by (auto simp: option_rel_Some1 id)
  have "snd (closeout_call_route sample_digest 5 None sample_finish sample_owed) =
      snd (apply_step_transition sample_digest 5 (actor_context_and_role None) (Malformed ''a'') (Malformed ''s'') Step_Done (Some ''x'') None sample_owed)"
    by (simp split: prod.split option.split)
  also have "ic_steps \<dots> (Malformed ''s'') = Some t"
    using t(1) by (simp add: apply_step_transition_def s Let_def case_prod_beta transition_step_def free active_steps_def)
  finally show ?thesis using that [of t] t(2) id(2) by (simp add: step_quiet_def)
qed

lemma runbook_step_passes_its_gate_witness:
  "\<exists>s'. (\<exists>s. ic_steps sample_owed (Malformed ''s'') = Some s \<and> rs_state s \<in> {Step_Owed, Step_In_Progress}) \<and> step_gate s'"
  by (rule sample_finished, rule exI, rule runbook_step_passes_its_gate [OF sample_closeout_steps(3)])
    (assumption, assumption, use sample_step in fastforce)

section \<open>What the gates let through\<close>

text \<open>The close gate reads the state of the steps only, not the warnings and sources they carry.\<close>

lemma close_gate_ignores_step_trust:
  "closeout_refusal c target (st\<lparr>ic_steps := (\<lambda>k. map_option (\<lambda>s. s\<lparr>rs_warning := w, rs_source := q\<rparr>) (ic_steps st k))\<rparr>) =
   closeout_refusal c target st"
proof -
  let ?st = "st\<lparr>ic_steps := (\<lambda>k. map_option (\<lambda>s. s\<lparr>rs_warning := w, rs_source := q\<rparr>) (ic_steps st k))\<rparr>"
  have "List.map_filter (\<lambda>k. map_option (\<lambda>s. s\<lparr>rs_warning := w, rs_source := q\<rparr>) (ic_steps st k)) ks =
      map (\<lambda>s. s\<lparr>rs_warning := w, rs_source := q\<rparr>) (List.map_filter (ic_steps st) ks)" for ks
    by (induction ks) (auto simp: List.map_filter_def)
  then have "steps_for cid ?st = map (\<lambda>s. s\<lparr>rs_warning := w, rs_source := q\<rparr>) (steps_for cid st)" for cid
    by (simp add: steps_for_def order_of_def)
  then have owed: "owed_steps_open cid ?st = owed_steps_open cid st" for cid
    by (simp add: owed_steps_open_def list_ex_iff)
  have tasks: "ic_tasks ?st = ic_tasks st" by simp
  show ?thesis unfolding closeout_refusal_def owed tasks ..
qed

text \<open>A step owed is accepted whatever the state of its closeout.\<close>

lemma owed_step_accepted: "cr_accepted (fst (ingest_step_owed sha now actor c e st))"
  by (auto simp: ingest_step_owed_def Let_def closeout_answer_def split: option.split prod.split)

text \<open>A detection under an identifier in use replaces the closeout and forgets its runbook.\<close>

lemma detection_replaces:
  assumes "opens_under sha (Closeout_Intake e) cid st"
  obtains d where "closeout_at cid (snd (ingest_detected sha now actor e st)) = Some d" and "co_state d = Detected"
    and "steps_for cid (snd (ingest_detected sha now actor e st)) = []"
proof -
  obtain st0 where g: "given_or_drawn (ce_closeout e) st = (cid, st0)"
    using assms by (cases "given_or_drawn (ce_closeout e) st") (simp add: opens_under_def)
  have "co_id (new_closeout sha now e cid st) = cid" "co_state (new_closeout sha now e cid st) = Detected"
    by (simp_all add: new_closeout_def Let_def)
  then show ?thesis
    using that [of "new_closeout sha now e cid st"] assms
    by (simp add: opens_under_def ingest_detected_def Let_def g closeout_at_put steps_for_def order_of_def List.map_filter_def)
qed

end
