(* ===== verification/Spec2Isabelle.thy ===== *)
theory Spec2Isabelle
  imports Receivables_Report Catalog_Runs Receipts Idempotency_Cache Rate_Limiter Job_Queue Fractional_Amounts Console_Contract Statement_Contract Receipt_Contract
    Closeout_Laws
begin

text \<open>
  Verification of the backend of the ERP (\<open>src/backend\<close>): the order-to-cash program of a tenant, the
  infrastructure in front of it, and the control of platform actions. Definitions are translated from the
  Python source and keep its names; every theory names the files it models.

  \<^bold>\<open>The program and its parts.\<close> A tenant has a schema of tables. Retailers and wholesalers place orders over
  HTTP routes (\<open>api/v1\<close>); a single command service (\<open>services/order_command_service.py\<close>) writes the status of
  an order along the transition matrix (\<open>core/domain/order_state.py\<close>), reserving stock
  (\<open>services/inventory_service.py\<close>), opening a credit hold and posting the ledger
  (\<open>services/ledger_service.py\<close>). Money comes in on one path
  (\<open>services/canonical_payment_service.py\<close>), directly or by the confirmation of a declaration
  (\<open>services/payment_declaration_service.py\<close>); a read model reports what is owed
  (\<open>services/receivables_service.py\<close>), and orders, declarations, receipts and account statements are printed
  (\<open>services/print_service.py\<close>, \<open>repositories/statement_repository.py\<close>). In front of the routes stand an idempotency cache and a rate limiter;
  beside them a job queue. The platform console evaluates controlled actions (\<open>api/v1/platform/p18\<close>), which
  need the approval of several people (\<open>p20\<close>), kept in memory or in a database (\<open>p21\<close>); it reads a registry of
  tenants with their packages and flags (\<open>p10\<close>), runs non-destructive requests as dry runs (\<open>p17\<close>) and executes
  approved ones under a second pair of eyes (\<open>p22\<close>). What operators have to follow up is a queue of tasks (\<open>p23\<close>),
  filled from approvals and the backup source; incidents are closed out with a runbook of steps (\<open>p24\<close>), which
  materializes and resolves the tasks it owes in that queue.

  \<^bold>\<open>Theories, in layers.\<close>
  \<^item> \<open>Erp_Prelude\<close>, \<open>Text_Codec\<close>: identifiers and their spellings, exact decimal amounts and \<open>NUMERIC\<close> rounding,
    results that are errors or values (\<open>bindE\<close>, \<open>foldE\<close>), rows found and replaced by key; white space, digits.
  \<^item> \<open>Order_State\<close>, \<open>Tenant_Store\<close>: the state enum and matrix; the tables as one record \<open>store\<close> of row lists, and
    the errors services raise.
  \<^item> \<open>Ledger\<close>, \<open>Inventory\<close>, \<open>Order_Commands\<close>, \<open>Payments\<close>, \<open>Canonical_Payment\<close>, \<open>Declarations\<close>, \<open>Order_Intake\<close>,
    \<open>Api_Routes\<close>, \<open>Catalog\<close>: one service each, as functions \<open>store \<Rightarrow> error + result \<times> store\<close>; an error leaves the
    transaction, so the caller keeps the old store.
  \<^item> \<open>Credit_Exposure\<close>: the invariant \<open>store_inv\<close> that commands and payments keep together (the balance of a binding
    is the exposure of its orders; each order's hold and payments fit its status). \<open>Order_Lifecycle\<close>: the calls as a
    transition system, reachable stores, refinement of the matrix. \<open>Payment_Idempotency\<close>: the interface
    \<open>idempotent_submit\<close> and its interpretation on payments. \<open>Payment_Acceptance\<close>, \<open>Order_Undo\<close>: acceptance and
    cancellation as exact statements. \<open>Declaration_Contract\<close>: declarations and their canonical keys.
  \<^item> \<open>Catalog_Contract\<close> (locale \<open>move_law\<close>), \<open>Erp_Program\<close>, \<open>Tenant_Runs\<close>, \<open>Catalog_Runs\<close>, \<open>Payment_History\<close>,
    \<open>Receivables\<close>, \<open>Receivables_Report\<close>, \<open>Receipts\<close>: the writing requests of the modelled routes (\<open>request\<close>: orders of
    both sides, payments, declarations, stock adjustment, catalogue, units and prices) as steps that are undone
    when their handler raises, and what holds after any sequence of them. Requests that register retailers and
    create bindings, stage and apply imports, or administer users and wholesalers are not among them.
    \<open>Fractional_Amounts\<close> shows why whole cents are asked for. \<open>Sample_Run\<close>, \<open>Tenant_Sample\<close> evaluate concrete runs.
  \<^item> \<open>Print_Documents\<close>, \<open>Statements\<close>: the printable documents and the account statement, all reads.
    \<open>Statement_Dates\<close> is the calendar with the parser of date ranges; \<open>Receivable_Books\<close> shows that the receivable
    entries are the tender of settled orders, so \<open>Statement_Contract\<close> can say what every statement of a reachable
    database shows and when one is refused; \<open>Receipt_Contract\<close> that confirmed declarations have their receipts.
  \<^item> \<open>Idempotency_Cache\<close>, \<open>Rate_Limiter\<close> (Redis as an argument with its documented laws), \<open>Job_Queue\<close>: interleaved steps
    of concurrent requests and workers, with database errors and the workers that \<open>stop\<close> cancels.
  \<^item> \<open>Redaction\<close>, \<open>Controlled_Actions\<close>, \<open>Action_Contract\<close>: what may be echoed of a client's text, and the evaluation
    of controlled actions. \<open>Approval_Memory\<close> and \<open>Approval_Store\<close> are the two approval backends, \<open>Ballot\<close> the
    specification of dual control (\<open>cast_vote\<close>) with the locales \<open>ballot_box\<close> and \<open>serial_ballot_box\<close>;
    \<open>Memory_Ballots\<close>, \<open>Store_Ballots\<close>, \<open>Approval_Contract\<close> interpret them: the memory backend and the database one
    transaction at a time cast votes exactly, and the database keeps sound ballots however transactions interleave.
  \<^item> \<open>Tenant_Registry\<close>, \<open>Execution_Control\<close>, \<open>Governed_Execution\<close>: the registry and its pages, the execution service,
    the governed actions with their gates. \<open>Execution_Contract\<close> composes approvals and executions into one platform
    (\<open>serve_platform\<close>); \<open>Governed_Contract\<close> shows what every governed success rests on; \<open>Console_Contract\<close> is the
    whole console (\<open>serve_console\<close>), whose runs keep every contract of its parts.
  \<^item> \<open>Text_Patterns\<close>: the regular expressions of the task redactor over a backtracking matcher. \<open>Operator_Tasks\<close>,
    \<open>Task_Sources\<close>: the task queue and the bridge that fills it; \<open>Task_Contract\<close>, \<open>Task_Laws\<close>: the invariant of its
    runs (\<open>task_step\<close>) and the finality of closed tasks. \<open>Incident_Closeout\<close>: closeouts and runbooks over the same task
    store; \<open>Closeout_Contract\<close>, \<open>Closeout_Laws\<close>: runs of both services together (\<open>closeout_step\<close>), in which tasks move by
    \<open>task_step\<close> only, a closeout follows its lifecycle, and closing and finishing a step pass their gates.

  \<^bold>\<open>Conventions and bounds.\<close> Money is \<open>rat\<close> with the rounding of the columns written out; times are natural seconds;
  UUIDs come from an injective supply of which a prefix is drawn. SHA-256 is an argument \<open>sha\<close>. The pay
  route accepts payments of any positive \<open>Decimal\<close>; the properties of runs assume that payments and stock adjustments are in whole cents
  (\<open>exact_amounts\<close>, \<open>in_cents_call\<close>, \<open>cents_reach\<close>, \<open>whole_cents\<close>), say so, and fail without it (\<open>Fractional_Amounts\<close>). All functions are total; loops are
  structural recursion over the rows read, and no fuel is used. Locks are reads of the current row where a
  transaction runs alone; \<open>race\<close> arguments stand for what others commit before a lock is granted.

  \<^bold>\<open>Not modelled.\<close> Authentication, password and e-mail flows; retailer registration and
  invitations, intake workspaces and SKU imports, user and wholesaler administration; the remaining platform services (health, triage,
  reports, the older in-memory approvals, which the task bridge takes as a list); reporting SQL; migrations and scripts; the frontend and the governance tooling. Messages, log lines,
  metrics and clock columns are left out of the records. The tables hold the columns the services read or write.
\<close>

end
